(* ===== verification/Prelude.thy ===== *)
theory Prelude
  imports Complex_Main "HOL-Library.Monad_Syntax"
begin

text \<open>
  What every component of the development shares: the values a TypeScript program computes with
  (numbers, strings, JSON), the errors its handlers throw, and the state-and-exception programs
  the handlers are translated into, with the collections of lemmas (\<open>prog\<close> for evaluating,
  \<open>prog_inv\<close> for inverting a successful run) that the component proofs use.

  Money is integer cents, as in every money column of the schema, so a JavaScript number that is
  stored as cents is an \<^typ>\<open>int\<close> and a number that may still be fractional is a \<^typ>\<open>rat\<close>.
  JavaScript computes on doubles; on the integers below 2 to the power 53 its sums and products
  are exact, and rounding a quotient by 100 or 10000 agrees with the exact quotient there.
\<close>

named_theorems prog "evaluation rules of state-and-exception programs"
named_theorems prog_inv "inversion rules of state-and-exception programs that returned"

section \<open>Numbers\<close>

text \<open>JavaScript's \<open>Math.round\<close>: the nearest integer, ties towards plus infinity.\<close>

definition js_round :: "rat \<Rightarrow> int" where
  "js_round x = \<lfloor>x + 1 / 2\<rfloor>"

lemma js_round_of_int [simp]: "js_round (of_int n) = n"
  unfolding js_round_def by linarith

lemma js_round_numeral [simp]: "js_round 0 = 0" "js_round 1 = 1" "js_round (numeral k) = numeral k"
  using js_round_of_int[of 0] js_round_of_int[of 1] js_round_of_int[of "numeral k"] by simp_all

lemma js_round_div:
  assumes "0 < d"
  shows "js_round (of_int n / of_int d) = (2 * n + d) div (2 * d)"
proof -
  have "(of_int n / of_int d :: rat) + 1 / 2 = of_int (2 * n + d) / of_int (2 * d)"
    using assms by (simp add: field_simps)
  then show ?thesis
    unfolding js_round_def by (metis floor_divide_of_int_eq)
qed

lemma js_round_div_100: "js_round (of_int n / 100) = (n + 50) div 100"
  using js_round_div[of 100 n] by simp

lemma js_round_div_10000: "js_round (of_int n / 10000) = (n + 5000) div 10000"
  using js_round_div[of 10000 n] by simp

lemma js_round_mono: "x \<le> y \<Longrightarrow> js_round x \<le> js_round y"
  unfolding js_round_def by (simp add: floor_mono)

lemma js_round_nonneg: "0 \<le> x \<Longrightarrow> 0 \<le> js_round x"
  using js_round_mono[of 0 x] by simp

lemma js_round_le_int: "x \<le> of_int n \<Longrightarrow> js_round x \<le> n"
  using js_round_mono[of x "of_int n"] by simp

lemma int_le_js_round: "of_int n \<le> x \<Longrightarrow> n \<le> js_round x"
  using js_round_mono[of "of_int n" x] by simp

text \<open>\<open>reduce\<close> over a list with a numeric body is a sum.\<close>

definition sum_by :: "('a \<Rightarrow> int) \<Rightarrow> 'a list \<Rightarrow> int" where
  "sum_by f xs = sum_list (map f xs)"

lemma sum_by_simps [simp]:
  "sum_by f [] = 0"
  "sum_by f (x # xs) = f x + sum_by f xs"
  "sum_by f (xs @ ys) = sum_by f xs + sum_by f ys"
  by (simp_all add: sum_by_def)

lemma sum_by_nonneg: "(\<And>x. x \<in> set xs \<Longrightarrow> 0 \<le> f x) \<Longrightarrow> 0 \<le> sum_by f xs"
  by (induction xs) (auto simp: add_nonneg_nonneg)

lemma sum_by_cong: "(\<And>x. x \<in> set xs \<Longrightarrow> f x = g x) \<Longrightarrow> sum_by f xs = sum_by g xs"
  by (induction xs) auto

lemma sum_by_map [simp]: "sum_by f (map g xs) = sum_by (f \<circ> g) xs"
  by (simp add: sum_by_def)

lemma sum_by_add: "sum_by (\<lambda>x. f x + g x) xs = sum_by f xs + sum_by g xs"
  by (induction xs) auto

lemma sum_by_mono: "(\<And>x. x \<in> set xs \<Longrightarrow> f x \<le> g x) \<Longrightarrow> sum_by f xs \<le> sum_by g xs"
  by (induction xs) (auto simp: add_mono)

lemma sum_by_filter_partition:
  "sum_by f (filter P xs) + sum_by f (filter (\<lambda>x. \<not> P x) xs) = sum_by f xs"
  by (induction xs) auto

section \<open>Strings\<close>

text \<open>
  Strings are lists of characters below 256. \<open>trim\<close> strips the white space of that range, and
  the case mappings act on the ASCII letters.
\<close>

definition js_space :: "char \<Rightarrow> bool" where
  "js_space c \<longleftrightarrow> of_char c \<in> {9, 10, 11, 12, 13, 32, 160 :: nat}"

definition js_trim :: "string \<Rightarrow> string" where
  "js_trim s = rev (dropWhile js_space (rev (dropWhile js_space s)))"

definition js_lower_char :: "char \<Rightarrow> char" where
  "js_lower_char c = (let n = of_char c :: nat in if 65 \<le> n \<and> n \<le> 90 then char_of (n + 32) else c)"

definition js_upper_char :: "char \<Rightarrow> char" where
  "js_upper_char c = (let n = of_char c :: nat in if 97 \<le> n \<and> n \<le> 122 then char_of (n - 32) else c)"

definition js_lower :: "string \<Rightarrow> string" where
  "js_lower = map js_lower_char"

definition js_upper :: "string \<Rightarrow> string" where
  "js_upper = map js_upper_char"

text \<open>\<open>s.includes(t)\<close>\<close>

fun js_includes :: "string \<Rightarrow> string \<Rightarrow> bool" where
  "js_includes [] t \<longleftrightarrow> t = []"
| "js_includes (c # s) t \<longleftrightarrow> take (length t) (c # s) = t \<or> js_includes s t"

text \<open>Truthiness of an optional string: neither absent nor empty.\<close>

definition truthy :: "string option \<Rightarrow> bool" where
  "truthy s = (case s of None \<Rightarrow> False | Some t \<Rightarrow> t \<noteq> [])"

lemma truthy_simps [simp]: "\<not> truthy None" "truthy (Some t) \<longleftrightarrow> t \<noteq> []"
  by (simp_all add: truthy_def)

text \<open>\<open>s || d\<close> on strings, and \<open>s || null\<close>.\<close>

definition or_else :: "string \<Rightarrow> string \<Rightarrow> string" where
  "or_else s d = (if s = [] then d else s)"

definition or_null :: "string option \<Rightarrow> string option" where
  "or_null s = (if truthy s then s else None)"

lemma or_null_simps [simp]:
  "or_null None = None" "or_null (Some []) = None" "or_null (Some (c # s)) = Some (c # s)"
  by (simp_all add: or_null_def)

text \<open>\<open>x ?? d\<close>.\<close>

definition nvl :: "'a option \<Rightarrow> 'a \<Rightarrow> 'a" where
  "nvl x d = (case x of None \<Rightarrow> d | Some y \<Rightarrow> y)"

lemma nvl_simps [simp]: "nvl None d = d" "nvl (Some y) d = y"
  by (simp_all add: nvl_def)

text \<open>\<open>String(n)\<close> for an integer.\<close>

fun show_nat_acc :: "nat \<Rightarrow> nat \<Rightarrow> string \<Rightarrow> string" where
  "show_nat_acc 0 n acc = acc"
| "show_nat_acc (Suc fuel) n acc =
     (let acc' = char_of (48 + n mod 10) # acc
      in if n < 10 then acc' else show_nat_acc fuel (n div 10) acc')"

definition show_nat :: "nat \<Rightarrow> string" where
  "show_nat n = show_nat_acc (Suc n) n []"

definition show_int :: "int \<Rightarrow> string" where
  "show_int n = (if n < 0 then CHR ''-'' # show_nat (nat (- n)) else show_nat (nat n))"

section \<open>Collections\<close>

text \<open>\<open>[...new Set(xs)]\<close>: the first occurrence of each element, in order.\<close>

definition js_dedup :: "'a list \<Rightarrow> 'a list" where
  "js_dedup xs = rev (remdups (rev xs))"

lemma set_js_dedup [simp]: "set (js_dedup xs) = set xs"
  by (simp add: js_dedup_def)

lemma distinct_js_dedup [simp]: "distinct (js_dedup xs)"
  by (simp add: js_dedup_def)

text \<open>\<open>new Map(entries)\<close>: a later entry for a key replaces an earlier one.\<close>

definition js_map :: "('k \<times> 'v) list \<Rightarrow> ('k \<rightharpoonup> 'v)" where
  "js_map kvs = map_of (rev kvs)"

lemma js_map_SomeD: "js_map kvs k = Some v \<Longrightarrow> (k, v) \<in> set kvs"
  unfolding js_map_def by (drule map_of_SomeD) simp

lemma js_map_in: "js_map (map (\<lambda>x. (f x, x)) xs) k = Some v \<Longrightarrow> v \<in> set xs \<and> f v = k"
  by (auto dest!: js_map_SomeD)

text \<open>\<open>LIMIT 1\<close> of a selection.\<close>

definition first_row :: "('a \<Rightarrow> bool) \<Rightarrow> 'a list \<Rightarrow> 'a option" where
  "first_row P xs = find P xs"

lemma first_row_SomeD: "first_row P xs = Some x \<Longrightarrow> x \<in> set xs \<and> P x"
  by (auto simp: first_row_def find_Some_iff)

lemma first_row_NoneD: "first_row P xs = None \<Longrightarrow> x \<in> set xs \<Longrightarrow> \<not> P x"
  by (auto simp: first_row_def find_None_iff)

lemma first_row_simps [simp]:
  "first_row P [] = None"
  "first_row P (x # xs) = (if P x then Some x else first_row P xs)"
  by (simp_all add: first_row_def)

text \<open>\<open>UPDATE ... SET ... WHERE\<close>.\<close>

definition update_where :: "('a \<Rightarrow> bool) \<Rightarrow> ('a \<Rightarrow> 'a) \<Rightarrow> 'a list \<Rightarrow> 'a list" where
  "update_where P f xs = map (\<lambda>x. if P x then f x else x) xs"

lemma update_where_simps [simp]:
  "update_where P f [] = []"
  "update_where P f (x # xs) = (if P x then f x else x) # update_where P f xs"
  "update_where P f (xs @ ys) = update_where P f xs @ update_where P f ys"
  by (simp_all add: update_where_def)

lemma length_update_where [simp]: "length (update_where P f xs) = length xs"
  by (simp add: update_where_def)

lemma set_update_where: "set (update_where P f xs) = (\<lambda>x. if P x then f x else x) ` set xs"
  by (simp add: update_where_def)

lemma map_update_where:
  "(\<And>x. P x \<Longrightarrow> g (f x) = g x) \<Longrightarrow> map g (update_where P f xs) = map g xs"
  by (induction xs) auto

lemma first_row_update_where:
  "(\<And>x. P x \<Longrightarrow> Q (f x) = Q x) \<Longrightarrow>
   first_row Q (update_where P f xs) =
     map_option (\<lambda>x. if P x then f x else x) (first_row Q xs)"
  by (induction xs) auto

lemma first_row_append: "first_row P (xs @ ys) =
  (case first_row P xs of None \<Rightarrow> first_row P ys | Some x \<Rightarrow> Some x)"
  by (induction xs) auto

lemma filter_update_where_same:
  "(\<And>x. P x \<Longrightarrow> Q (f x) = Q x) \<Longrightarrow>
   filter Q (update_where P f xs) = update_where P f (filter Q xs)"
  by (induction xs) auto

section \<open>JSON values\<close>

datatype json =
    JNull
  | JBool bool
  | JInt int
  | JStr string
  | JList "json list"
  | JObj "(string \<times> json) list"

text \<open>\<open>o.k\<close> on a JSON object; absent keys read as undefined.\<close>

fun json_field :: "json \<Rightarrow> string \<Rightarrow> json option" where
  "json_field (JObj kvs) k = js_map kvs k"
| "json_field _ k = None"

section \<open>Errors and programs\<close>

text \<open>
  The exceptions the handlers throw, with their message, and the two database errors a write can
  raise: a violated CHECK or FOREIGN KEY (by table) and a
  violated UNIQUE constraint (by constraint name).
\<close>

datatype error =
    BadRequestException string
  | NotFoundException string
  | ForbiddenException string
  | ConflictException string
  | UnauthorizedException string
  | TooManyRequestsException string
  | ConstraintViolation string
  | UniqueViolation string
  | GenericError string

text \<open>The text of an exception.\<close>

fun exceptionText :: "error \<Rightarrow> string" where
  "exceptionText (BadRequestException m) = m"
| "exceptionText (NotFoundException m) = m"
| "exceptionText (ForbiddenException m) = m"
| "exceptionText (ConflictException m) = m"
| "exceptionText (UnauthorizedException m) = m"
| "exceptionText (TooManyRequestsException m) = m"
| "exceptionText (ConstraintViolation m) = m"
| "exceptionText (UniqueViolation m) = m"
| "exceptionText (GenericError m) = m"

text \<open>\<open>xs.map(f)\<close> for a callback that may throw: the first error ends it.\<close>

fun mapE :: "('a \<Rightarrow> error + 'b) \<Rightarrow> 'a list \<Rightarrow> error + 'b list" where
  "mapE f [] = Inr []"
| "mapE f (x # xs) =
     (case f x of
        Inl e \<Rightarrow> Inl e
      | Inr y \<Rightarrow> (case mapE f xs of Inl e \<Rightarrow> Inl e | Inr ys \<Rightarrow> Inr (y # ys)))"

lemma mapE_Inr: "mapE f xs = Inr ys \<longleftrightarrow> list_all2 (\<lambda>x y. f x = Inr y) xs ys"
proof (induction xs arbitrary: ys)
  case (Cons x xs)
  then show ?case
    by (cases ys) (auto simp: Cons.IH [symmetric] split: sum.splits)
qed auto

lemma mapE_Inl: "mapE f xs = Inl e \<Longrightarrow> \<exists>x \<in> set xs. f x = Inl e"
  by (induction xs) (auto split: sum.splits)

type_synonym ('w, 'a) program = "'w \<Rightarrow> (error + 'a) \<times> 'w"

text \<open>Returning a value and throwing an error leave the state alone: they pair it with the outcome.\<close>

abbreviation returnM :: "'a \<Rightarrow> ('w, 'a) program" where
  "returnM a \<equiv> Pair (Inr a)"

abbreviation throwM :: "error \<Rightarrow> ('w, 'a) program" where
  "throwM e \<equiv> Pair (Inl e)"

definition bindM :: "('w, 'a) program \<Rightarrow> ('a \<Rightarrow> ('w, 'b) program) \<Rightarrow> ('w, 'b) program" where
  "bindM m f w = (case m w of (Inl e, w') \<Rightarrow> (Inl e, w') | (Inr a, w') \<Rightarrow> f a w')"

definition thenM :: "('w, 'a) program \<Rightarrow> ('w, 'b) program \<Rightarrow> ('w, 'b) program" where
  "thenM m n = bindM m (\<lambda>_. n)"

definition getsM :: "('w \<Rightarrow> 'a) \<Rightarrow> ('w, 'a) program" where
  "getsM f w = (Inr (f w), w)"

definition modifyM :: "('w \<Rightarrow> 'w) \<Rightarrow> ('w, unit) program" where
  "modifyM f w = (Inr (), f w)"

text \<open>\<open>if (bad) throw e;\<close>\<close>

definition throw_if :: "bool \<Rightarrow> error \<Rightarrow> ('w, unit) program" where
  "throw_if bad e = (if bad then throwM e else returnM ())"

text \<open>\<open>const x = lookup; if (!x) throw e;\<close>\<close>

definition orThrow :: "'a option \<Rightarrow> error \<Rightarrow> ('w, 'a) program" where
  "orThrow x e = (case x of None \<Rightarrow> throwM e | Some a \<Rightarrow> returnM a)"

text \<open>A computation without effects that may throw.\<close>

definition liftE :: "error + 'a \<Rightarrow> ('w, 'a) program" where
  "liftE r w = (r, w)"

text \<open>\<open>try m catch (e) h\<close>\<close>

definition catchM :: "('w, 'a) program \<Rightarrow> (error \<Rightarrow> ('w, 'a) program) \<Rightarrow> ('w, 'a) program" where
  "catchM m h w = (case m w of (Inl e, w') \<Rightarrow> h e w' | (Inr a, w') \<Rightarrow> (Inr a, w'))"

definition whenM :: "bool \<Rightarrow> ('w, unit) program \<Rightarrow> ('w, unit) program" where
  "whenM b m = (if b then m else returnM ())"

fun forM :: "'a list \<Rightarrow> ('a \<Rightarrow> ('w, unit) program) \<Rightarrow> ('w, unit) program" where
  "forM [] f = returnM ()"
| "forM (x # xs) f = thenM (f x) (forM xs f)"

fun repeatM :: "nat \<Rightarrow> ('w, unit) program \<Rightarrow> ('w, unit) program" where
  "repeatM 0 m = returnM ()"
| "repeatM (Suc n) m = thenM m (repeatM n m)"

lemma prog_simps [prog, simp]:
  "getsM f w = (Inr (f w), w)"
  "modifyM g w = (Inr (), g w)"
  by (simp_all add: getsM_def modifyM_def)

lemma throw_if_simps [prog, simp]:
  "throw_if True e = throwM e" "throw_if False e = returnM ()"
  by (simp_all add: throw_if_def)

lemma orThrow_simps [prog, simp]:
  "orThrow None e = throwM e" "orThrow (Some a) e = returnM a"
  by (simp_all add: orThrow_def)

lemma liftE_simps [prog, simp]: "liftE (Inl e) = throwM e" "liftE (Inr a) = returnM a"
  by (simp_all add: liftE_def fun_eq_iff)

lemma liftE_iff: "liftE r w = (Inr a, w') \<longleftrightarrow> r = Inr a \<and> w' = w"
  by (auto simp: liftE_def)

lemma bindM_liftE:
  "bindM (liftE r) f w = (case r of Inl e \<Rightarrow> (Inl e, w) | Inr a \<Rightarrow> f a w)"
  by (cases r) (simp_all add: liftE_def bindM_def)

lemma whenM_simps [prog, simp]: "whenM True m = m" "whenM False m = returnM ()"
  by (simp_all add: whenM_def)

lemma bindM_eval [prog]:
  "m w = (Inr a, w') \<Longrightarrow> bindM m f w = f a w'"
  "m w = (Inl e, w') \<Longrightarrow> bindM m f w = (Inl e, w')"
  by (simp_all add: bindM_def)

lemma thenM_eval [prog]:
  "m w = (Inr a, w') \<Longrightarrow> thenM m n w = n w'"
  "m w = (Inl e, w') \<Longrightarrow> thenM m n w = (Inl e, w')"
  by (simp_all add: thenM_def bindM_def)

lemma bindM_basic [prog, simp]:
  "bindM (returnM a) f = f a"
  "bindM (throwM e) f = throwM e"
  "bindM (getsM g) f w = f (g w) w"
  "thenM (returnM a) n = n"
  "thenM (throwM e) n = throwM e"
  "thenM (modifyM h) n w = n (h w)"
  by (simp_all add: bindM_def thenM_def fun_eq_iff)

lemma bindM_assoc: "bindM (bindM m f) g = bindM m (\<lambda>a. bindM (f a) g)"
  by (simp add: bindM_def fun_eq_iff split: prod.split sum.split)

lemma catchM_eval [prog]:
  "m w = (Inr a, w') \<Longrightarrow> catchM m h w = (Inr a, w')"
  "m w = (Inl e, w') \<Longrightarrow> catchM m h w = h e w'"
  by (simp_all add: catchM_def)

text \<open>Inversion of a run that returned: each step before it returned.\<close>

lemma bindM_InrE:
  assumes "bindM m f w = (Inr b, w')"
  obtains a w1 where "m w = (Inr a, w1)" and "f a w1 = (Inr b, w')"
  using assms by (auto simp: bindM_def split: prod.splits sum.splits)

lemma thenM_InrE:
  assumes "thenM m n w = (Inr b, w')"
  obtains a w1 where "m w = (Inr a, w1)" and "n w1 = (Inr b, w')"
  using assms unfolding thenM_def by (rule bindM_InrE)

lemma throw_if_InrD [prog_inv]: "throw_if c e w = (Inr u, w') \<Longrightarrow> \<not> c \<and> w' = w"
  by (cases c) auto

lemma orThrow_InrD [prog_inv]: "orThrow x e w = (Inr a, w') \<Longrightarrow> x = Some a \<and> w' = w"
  by (cases x) auto

lemma throw_if_iff: "throw_if c e w = (Inr u, w') \<longleftrightarrow> \<not> c \<and> w' = w"
  by (cases c) auto

lemma orThrow_iff: "orThrow x e w = (Inr a, w') \<longleftrightarrow> x = Some a \<and> w' = w"
  by (cases x) auto

lemma bindM_throw_if:
  "bindM (throw_if c e) f w = (if c then (Inl e, w) else f () w)"
  "thenM (throw_if c e) n w = (if c then (Inl e, w) else n w)"
  by (cases c; simp)+

lemma bindM_orThrow:
  "bindM (orThrow x e) f w = (case x of None \<Rightarrow> (Inl e, w) | Some a \<Rightarrow> f a w)"
  by (cases x) simp_all

lemmas prog_step = bindM_throw_if bindM_orThrow bindM_liftE

section \<open>Frames\<close>

text \<open>
  \<open>preserves f m\<close>: whatever \<open>m\<close> does, and whether it returns or throws, the part \<open>f\<close> of the world
  is as before. The collection \<open>frame\<close> derives it along the structure of a program.
\<close>

named_theorems frame "programs that leave a part of the world alone"

definition preserves :: "('w \<Rightarrow> 'p) \<Rightarrow> ('w, 'a) program \<Rightarrow> bool" where
  "preserves f m \<longleftrightarrow> (\<forall>w. f (snd (m w)) = f w)"

lemma preservesI: "(\<And>w r w'. m w = (r, w') \<Longrightarrow> f w' = f w) \<Longrightarrow> preserves f m"
  unfolding preserves_def by (metis prod.collapse)

lemma preservesD: "preserves f m \<Longrightarrow> m w = (r, w') \<Longrightarrow> f w' = f w"
  unfolding preserves_def by (metis snd_conv)

lemma preserves_basic [frame]:
  "preserves f (returnM a)" "preserves f (throwM e)" "preserves f (getsM g)"
  "preserves f (throw_if c e)" "preserves f (orThrow x e)" "preserves f (liftE r)"
  by (cases c; cases x; cases r; simp add: preserves_def)+

lemma preserves_bindM [frame]:
  "preserves f m \<Longrightarrow> (\<And>a. preserves f (g a)) \<Longrightarrow> preserves f (bindM m g)"
  unfolding preserves_def bindM_def by (auto split: prod.splits sum.splits) (metis snd_conv)+

lemma preserves_thenM [frame]: "preserves f m \<Longrightarrow> preserves f n \<Longrightarrow> preserves f (thenM m n)"
  unfolding thenM_def by (rule preserves_bindM)

lemma preserves_modifyM: "(\<And>w. f (g w) = f w) \<Longrightarrow> preserves f (modifyM g)"
  by (simp add: preserves_def)

lemma preserves_whenM [frame]: "preserves f m \<Longrightarrow> preserves f (whenM b m)"
  by (cases b) (simp_all add: preserves_def)

lemma preserves_forM [frame]: "(\<And>x. preserves f (g x)) \<Longrightarrow> preserves f (forM xs g)"
  by (induction xs) (simp_all add: preserves_basic preserves_thenM)

lemma preserves_repeatM [frame]: "preserves f m \<Longrightarrow> preserves f (repeatM n m)"
  by (induction n) (simp_all add: preserves_basic preserves_thenM)

lemma preserves_catchM [frame]:
  "preserves f m \<Longrightarrow> (\<And>e. preserves f (h e)) \<Longrightarrow> preserves f (catchM m h)"
  unfolding preserves_def catchM_def by (auto split: prod.splits sum.splits) (metis snd_conv)+

lemma preserves_if [frame]: "preserves f m \<Longrightarrow> preserves f n \<Longrightarrow> preserves f (if b then m else n)"
  by simp

lemma preserves_option [frame]:
  "preserves f n \<Longrightarrow> (\<And>a. preserves f (g a)) \<Longrightarrow>
   preserves f (case x of None \<Rightarrow> n | Some a \<Rightarrow> g a)"
  by (cases x) simp_all

end
