(* ===== verification/Money.thy ===== *)
theory Money
  imports Prelude
begin

text \<open>
  The register's money helpers (\<open>apps/pos/src/utils/money.ts\<close>): formatting cents, parsing a typed
  amount, the discount and the tax in cents. Shown here: a formatted amount parses back to its
  absolute value, a discount stays between zero and the subtotal, and tax is monotone and
  non-negative. \<open>parseMoney\<close> computes on rationals where JavaScript computes on doubles: on the
  inputs with at most two decimals that the register's fields produce, both give the same cents.
\<close>

section \<open>Digits\<close>

definition is_digit :: "char \<Rightarrow> bool" where
  "is_digit c \<longleftrightarrow> 48 \<le> (of_char c :: nat) \<and> (of_char c :: nat) \<le> 57"

definition digit_val :: "char \<Rightarrow> nat" where
  "digit_val c = of_char c - 48"

fun digits_val :: "nat \<Rightarrow> string \<Rightarrow> nat" where
  "digits_val acc [] = acc"
| "digits_val acc (c # cs) = digits_val (acc * 10 + digit_val c) cs"

lemma is_digit_char_of [simp]: "(d::nat) < 10 \<Longrightarrow> is_digit (char_of (48 + d))"
  by (simp add: is_digit_def)

lemma digit_val_char_of [simp]: "(d::nat) < 10 \<Longrightarrow> digit_val (char_of (48 + d)) = d"
  by (simp add: digit_val_def)

lemma show_nat_acc_digits:
  "list_all is_digit acc \<Longrightarrow> list_all is_digit (show_nat_acc fuel n acc)"
  by (induction fuel n acc rule: show_nat_acc.induct) (simp_all add: Let_def)

lemma digits_val_append: "digits_val a (xs @ ys) = digits_val (digits_val a xs) ys"
  by (induction xs arbitrary: a) simp_all

lemma show_nat_acc_append: "show_nat_acc fuel n acc = show_nat_acc fuel n [] @ acc"
proof (induction fuel arbitrary: n acc)
  case (Suc fuel)
  let ?c = "char_of (48 + n mod 10) :: char"
  show ?case
  proof (cases "n < 10")
    case False
    have "show_nat_acc fuel (n div 10) (?c # acc) = show_nat_acc fuel (n div 10) [] @ ?c # acc"
      by (rule Suc.IH)
    also have "\<dots> = show_nat_acc fuel (n div 10) [?c] @ acc"
      using Suc.IH[of "n div 10" "[?c]"] by simp
    finally show ?thesis
      using False by (simp add: Let_def)
  qed simp
qed simp

lemma digits_val_show_acc: "n < fuel \<Longrightarrow> digits_val 0 (show_nat_acc fuel n []) = n"
proof (induction fuel arbitrary: n)
  case (Suc fuel)
  show ?case
  proof (cases "n < 10")
    case False
    then have "digits_val 0 (show_nat_acc fuel (n div 10) []) = n div 10"
      using Suc by simp
    then show ?thesis
      using False by (simp add: Let_def show_nat_acc_append[of fuel _ "[_]"] digits_val_append)
  qed simp
qed simp

lemma digits_val_show_nat [simp]: "digits_val 0 (show_nat n) = n"
  by (simp add: show_nat_def digits_val_show_acc del: show_nat_acc.simps)

lemma show_nat_digits [simp]: "list_all is_digit (show_nat n)"
  unfolding show_nat_def by (rule show_nat_acc_digits) simp

lemma show_nat_inj: "show_nat m = show_nat n \<longleftrightarrow> m = n"
  by (metis digits_val_show_nat)

lemma show_nat_nonempty [simp]: "show_nat n \<noteq> []"
  by (simp add: show_nat_def Let_def show_nat_acc_append[of _ _ "[_]"])

section \<open>Formatting\<close>

text \<open>\<open>toLocaleString('en-US')\<close> of a non-negative integer: a comma before every group of three digits.\<close>

fun group_rev :: "string \<Rightarrow> string" where
  "group_rev (a # b # c # d # xs) = a # b # c # CHR '','' # group_rev (d # xs)"
| "group_rev xs = xs"

definition to_locale_en_us :: "nat \<Rightarrow> string" where
  "to_locale_en_us n = rev (group_rev (rev (show_nat n)))"

text \<open>\<open>String(n).padStart(2, '0')\<close>\<close>

definition pad2 :: "nat \<Rightarrow> string" where
  "pad2 n = (let s = show_nat n in replicate (2 - length s) (CHR ''0'') @ s)"

definition formatMoney :: "int option \<Rightarrow> string" where
  "formatMoney cents =
     (let value = nvl cents 0;
          sign = (if value < 0 then ''-'' else []);
          a = nat \<bar>value\<bar>;
          dollars = a div 100;
          rm = pad2 (a mod 100)
      in sign @ ''$'' @ to_locale_en_us dollars @ ''.'' @ rm)"

section \<open>Parsing\<close>

text \<open>
  \<open>Number.parseFloat\<close> on a string of digits and dots: the digits before the first dot and the
  digits between the first dot and the next one; NaN (here \<open>None\<close>) when both are empty.
\<close>

definition parse_decimal :: "string \<Rightarrow> rat option" where
  "parse_decimal s =
     (let whole = takeWhile is_digit s;
          rest = dropWhile is_digit s;
          frac = (case rest of [] \<Rightarrow> [] | _ # r \<Rightarrow> takeWhile is_digit r)
      in if whole = [] \<and> frac = [] then None
         else Some (of_nat (digits_val 0 whole) + of_nat (digits_val 0 frac) / 10 ^ length frac))"

definition parseMoney :: "string \<Rightarrow> int" where
  "parseMoney input =
     (let cleaned = filter (\<lambda>c. is_digit c \<or> c = CHR ''.'') input
      in case parse_decimal cleaned of
           None \<Rightarrow> 0
         | Some value \<Rightarrow> js_round (value * 100))"

lemma filter_group_rev:
  "list_all is_digit xs \<Longrightarrow> filter (\<lambda>c. is_digit c \<or> c = CHR ''.'') (group_rev xs) = xs"
  by (induction xs rule: group_rev.induct) (auto simp: is_digit_def)

lemma filter_locale [simp]:
  "filter (\<lambda>c. is_digit c \<or> c = CHR ''.'') (to_locale_en_us n) = show_nat n"
proof -
  have "list_all is_digit (rev (show_nat n))"
    using show_nat_digits[of n] by (simp add: list_all_iff)
  then show ?thesis
    by (simp add: to_locale_en_us_def rev_filter [symmetric] filter_group_rev)
qed

lemma pad2_digits [simp]: "list_all is_digit (pad2 n)"
  using show_nat_digits[of n] by (auto simp: pad2_def Let_def list_all_iff is_digit_def)

lemma digits_val_replicate0 [simp]: "digits_val 0 (replicate k (CHR ''0'') @ s) = digits_val 0 s"
  by (induction k) (auto simp: digit_val_def)

lemma digits_val_pad2 [simp]: "digits_val 0 (pad2 n) = n"
  by (simp add: pad2_def Let_def)

lemma length_show_nat_small: "n < 100 \<Longrightarrow> length (show_nat n) \<le> 2"
  by (auto simp: show_nat_def Let_def elim!: less_SucE split: nat.splits)
     (cases n; auto simp: Let_def)

lemma length_pad2: "n < 100 \<Longrightarrow> length (pad2 n) = 2"
  using length_show_nat_small[of n] by (simp add: pad2_def Let_def)

lemma filter_digits_id:
  "list_all is_digit xs \<Longrightarrow> filter (\<lambda>c. is_digit c \<or> c = CHR ''.'') xs = xs"
  by (induction xs) auto

lemma takeWhile_digits_append:
  "list_all is_digit xs \<Longrightarrow> \<not> is_digit d \<Longrightarrow>
   takeWhile is_digit (xs @ d # ys) = xs \<and> dropWhile is_digit (xs @ d # ys) = d # ys"
  by (induction xs) auto

lemma takeWhile_digits_id: "list_all is_digit xs \<Longrightarrow> takeWhile is_digit xs = xs"
  by (induction xs) auto

lemma parse_decimal_fixed2:
  assumes "r < 100"
  shows "parse_decimal (show_nat d @ CHR ''.'' # pad2 r) = Some (of_nat d + of_nat r / 100)"
proof -
  have nd: "\<not> is_digit (CHR ''.'')" by (simp add: is_digit_def)
  show ?thesis
    using takeWhile_digits_append[OF show_nat_digits[of d] nd, of "pad2 r"] length_pad2[OF assms]
    by (simp add: parse_decimal_def Let_def takeWhile_digits_id)
qed

section \<open>Discount and tax\<close>

text \<open>A discount as both sides see it: \<open>type\<close> is \<open>'percent'\<close> or \<open>'fixed'\<close>.\<close>

definition discountAmountFor :: "(string \<times> int) option \<Rightarrow> int \<Rightarrow> int" where
  "discountAmountFor discount subtotal =
     (case discount of
        None \<Rightarrow> 0
      | Some (ty, value) \<Rightarrow>
          let raw = (if ty = ''percent'' then js_round (of_int (subtotal * value) / 100) else value)
          in min subtotal (max 0 raw))"

definition taxFor :: "int \<Rightarrow> int \<Rightarrow> int" where
  "taxFor taxableBase taxRateBps = js_round (of_int (taxableBase * taxRateBps) / 10000)"

lemma discountAmountFor_None [simp]: "discountAmountFor None s = 0"
  by (simp add: discountAmountFor_def)

lemma discountAmountFor_le: "0 \<le> s \<Longrightarrow> discountAmountFor d s \<le> s"
  by (cases d) (auto simp: discountAmountFor_def Let_def split: prod.splits)

lemma discountAmountFor_nonneg: "0 \<le> s \<Longrightarrow> 0 \<le> discountAmountFor d s"
  by (cases d) (auto simp: discountAmountFor_def Let_def split: prod.splits)

lemma taxFor_nonneg: "0 \<le> b \<Longrightarrow> 0 \<le> r \<Longrightarrow> 0 \<le> taxFor b r"
  unfolding taxFor_def by (rule js_round_nonneg) simp

lemma taxFor_mono: "b \<le> b' \<Longrightarrow> 0 \<le> r \<Longrightarrow> taxFor b r \<le> taxFor b' r"
  unfolding taxFor_def
  by (rule js_round_mono) (simp add: divide_right_mono mult_right_mono del: of_int_mult)

lemma taxFor_0 [simp]: "taxFor 0 r = 0" "taxFor b 0 = 0"
  by (simp_all add: taxFor_def)

end
