(* ===== verification/Access.thy ===== *)
theory Access
  imports Prelude
begin

text \<open>
  Roles (\<open>apps/backend/src/common/constants/roles.ts\<close>) and the guard that enforces them
  (\<open>auth/guards/roles.guard.ts\<close>). A role is the string the token carries; the hierarchy is
  looked up by its lower-case form and an unknown role weighs nothing. Shown here: the guard is
  monotone in the caller's weight, and it admits a caller exactly when the weight reaches the
  lowest weight that the route requires.
\<close>

section \<open>Roles\<close>

datatype user_role = RUser | RManager | RAdmin | RSysadmin | RPlatformAdmin

fun role_string :: "user_role \<Rightarrow> string" where
  "role_string RUser = ''user''"
| "role_string RManager = ''manager''"
| "role_string RAdmin = ''admin''"
| "role_string RSysadmin = ''sysadmin''"
| "role_string RPlatformAdmin = ''platform_admin''"

definition USER_ROLES :: "user_role list" where
  "USER_ROLES = [RUser, RManager, RAdmin, RSysadmin, RPlatformAdmin]"

fun ROLE_HIERARCHY :: "user_role \<Rightarrow> nat" where
  "ROLE_HIERARCHY RPlatformAdmin = 100"
| "ROLE_HIERARCHY RSysadmin = 50"
| "ROLE_HIERARCHY RAdmin = 50"
| "ROLE_HIERARCHY RManager = 30"
| "ROLE_HIERARCHY RUser = 10"

definition INVITABLE_ROLES :: "user_role list" where
  "INVITABLE_ROLES = [RManager, RAdmin, RSysadmin]"

definition role_of_string :: "string \<Rightarrow> user_role option" where
  "role_of_string s = find (\<lambda>r. role_string r = s) USER_ROLES"

lemma role_of_string_inverse [simp]: "role_of_string (role_string r) = Some r"
  by (cases r) (simp_all add: role_of_string_def USER_ROLES_def)


section \<open>The roles guard\<close>

definition weightOf :: "string \<Rightarrow> nat" where
  "weightOf r = (case role_of_string (js_lower r) of None \<Rightarrow> 0 | Some x \<Rightarrow> ROLE_HIERARCHY x)"

text \<open>
  \<open>canActivate\<close>: the roles the route requires (absent or empty: no restriction) and the role on
  the request, absent when there is no user or the user carries none.
\<close>

definition canActivate :: "string list option \<Rightarrow> string option \<Rightarrow> bool" where
  "canActivate requiredRoles role =
     (case requiredRoles of
        None \<Rightarrow> True
      | Some rs \<Rightarrow>
          if rs = [] then True
          else (case role of
                  None \<Rightarrow> False
                | Some r \<Rightarrow>
                    if r = [] then False
                    else list_ex (\<lambda>reqRole. weightOf reqRole \<le> weightOf r) rs))"

lemma js_lower_role [simp]: "js_lower (role_string r) = role_string r"
  by (cases r) (simp_all add: js_lower_def js_lower_char_def)

lemma weightOf_role [simp]: "weightOf (role_string r) = ROLE_HIERARCHY r"
  by (simp add: weightOf_def)

lemma role_string_nonempty [simp]: "role_string r \<noteq> []"
  by (cases r) simp_all

lemma canActivate_roles:
  "rs \<noteq> [] \<Longrightarrow>
   canActivate (Some (map role_string rs)) (Some (role_string r)) \<longleftrightarrow>
     (\<exists>q \<in> set rs. ROLE_HIERARCHY q \<le> ROLE_HIERARCHY r)"
  by (simp add: canActivate_def list_ex_iff)

lemma canActivate_mono:
  "canActivate rs (Some r) \<Longrightarrow> weightOf r \<le> weightOf r' \<Longrightarrow> r' \<noteq> [] \<Longrightarrow> canActivate rs (Some r')"
  by (auto simp: canActivate_def list_ex_iff split: option.splits if_splits intro: le_trans)

end
