(* ===== verification/Platform_DB.thy ===== *)
theory Platform_DB
  imports Prelude Order_Status
begin

text \<open>
  The database of the platform as the order, payment and user services see it
  (\<open>apps/backend/src/database/schema.ts\<close>): one record per table row, the tables as lists of rows
  in insertion order, and the writes with the constraints the schema declares on them. Around the
  database stand the other stores a handler changes: the Redis cache, the log of effects sent
  elsewhere (audit rows, realtime messages, queue jobs, usage events), the clock, the supply of
  row ids and whether the job queue can be reached. \<open>transactionM\<close> restores the database, and only the database, when its body throws.

  Columns no modelled code reads or writes (addresses, provisioning, slugs, images) are left out.
  Timestamps are milliseconds. A nullable column is an option; \<open>jsonb\<close> columns hold JSON.
\<close>

type_synonym uuid = string

section \<open>Rows\<close>

record order_row =
  ord_id :: uuid
  ord_organizationId :: uuid
  ord_locationId :: "uuid option"
  ord_customerId :: "uuid option"
  ord_tableId :: "uuid option"
  ord_customerName :: string
  ord_customerPhone :: string
  ord_status :: order_status
  ord_totalAmount :: int
  ord_subtotal :: "int option"
  ord_taxAmount :: "int option"
  ord_tipAmount :: "int option"
  ord_serviceChargeAmount :: "int option"
  ord_loyaltyPointsEarned :: "int option"
  ord_loyaltyPointsRedeemed :: "int option"
  ord_discountAmount :: "int option"
  ord_discountName :: "string option"
  ord_discountId :: "uuid option"
  ord_orderType :: "string option"
  ord_specialInstructions :: "string option"
  ord_source :: "string option"
  ord_sourceId :: "uuid option"
  ord_integrationAccountId :: "uuid option"
  ord_externalOrderId :: "string option"
  ord_paymentMethod :: "string option"
  ord_paidAt :: "int option"
  ord_ticketNumber :: "int option"
  ord_clientOrderId :: "string option"
  ord_fireMode :: string
  ord_deletedAt :: "int option"
  ord_createdAt :: int
  ord_updatedAt :: int

record order_item_row =
  oi_id :: uuid
  oi_orderId :: uuid
  oi_menuItemId :: uuid
  oi_quantity :: int
  oi_price :: int
  oi_modifiers :: "json option"
  oi_notes :: "string option"
  oi_course :: "int option"
  oi_firedAt :: "int option"

record payment_row =
  pay_id :: uuid
  pay_organizationId :: uuid
  pay_locationId :: "uuid option"
  pay_orderId :: uuid
  pay_method :: string
  pay_amount :: int
  pay_tipAmount :: int
  pay_cashReceived :: "int option"
  pay_changeGiven :: "int option"
  pay_createdBy :: "uuid option"
  pay_createdAt :: int

record order_mutation_row =
  om_organizationId :: uuid
  om_orderId :: uuid
  om_clientMutationId :: string
  om_kind :: string

record menu_item_row =
  mi_id :: uuid
  mi_name :: string
  mi_price :: int
  mi_categoryId :: uuid
  mi_locationId :: "uuid option"
  mi_isAvailable :: bool
  mi_taxExempt :: bool
  mi_stockQuantity :: "int option"
  mi_deletedAt :: "int option"

record category_row =
  cat_id :: uuid
  cat_organizationId :: uuid

record menu_modifier_row =
  mm_id :: uuid
  mm_name :: string
  mm_organizationId :: uuid
  mm_isRequired :: bool
  mm_multiSelect :: bool
  mm_maxSelections :: "int option"
  mm_deletedAt :: "int option"

record menu_item_modifier_row =
  mim_id :: uuid
  mim_modifierId :: uuid
  mim_name :: string
  mim_priceAdjustment :: int
  mim_deletedAt :: "int option"

record menu_item_to_modifier_row =
  mitm_menuItemId :: uuid
  mitm_modifierId :: uuid

record discount_row =
  disc_id :: uuid
  disc_organizationId :: uuid
  disc_name :: string
  disc_code :: "string option"
  disc_type :: string
  disc_value :: int
  disc_requiresManager :: bool
  disc_active :: bool
  disc_deletedAt :: "int option"

record customer_row =
  cust_id :: uuid
  cust_organizationId :: uuid
  cust_name :: string
  cust_phone :: "string option"
  cust_loyaltyPoints :: int
  cust_updatedAt :: int

record location_row =
  loc_id :: uuid
  loc_organizationId :: uuid
  loc_timezone :: "string option"
  loc_taxRateBps :: int
  loc_serviceChargeBps :: int
  loc_printSettings :: "json option"
  loc_autoStartAiOrders :: bool
  loc_deletedAt :: "int option"

record user_row =
  usr_id :: uuid
  usr_email :: string
  usr_passwordHash :: string
  usr_role :: string
  usr_firstName :: "string option"
  usr_lastName :: "string option"
  usr_phoneNumber :: "string option"
  usr_companyName :: "string option"
  usr_emailVerifiedAt :: "int option"
  usr_onboardingCompletedAt :: "int option"
  usr_failedLoginAttempts :: int
  usr_lockedUntil :: "int option"
  usr_lastLoginAt :: "int option"
  usr_organizationId :: "uuid option"
  usr_locationId :: "uuid option"
  usr_posPinHash :: "string option"
  usr_posPinFailedAttempts :: int
  usr_posPinLockedUntil :: "int option"
  usr_deletedAt :: "int option"
  usr_updatedAt :: int

record time_clock_row =
  tc_id :: uuid
  tc_organizationId :: uuid
  tc_userId :: uuid
  tc_locationId :: "uuid option"
  tc_clockInAt :: int
  tc_clockOutAt :: "int option"

record refresh_token_row =
  rt_id :: uuid
  rt_token :: string
  rt_userId :: uuid
  rt_ttlSecs :: int
  rt_expiresAt :: int

record password_reset_row =
  prt_id :: uuid
  prt_userId :: uuid
  prt_tokenHash :: string
  prt_expiresAt :: int
  prt_usedAt :: "int option"

record email_verification_row =
  evt_id :: uuid
  evt_userId :: uuid
  evt_tokenHash :: string
  evt_expiresAt :: int

text \<open>The print payload the order services build, and the jobs that carry it.\<close>

record print_item =
  pi_menuItemName :: string
  pi_quantity :: int
  pi_price :: int
  pi_modifiers :: "json option"
  pi_notes :: "string option"
  pi_course :: "int option"

record print_payload =
  pp_orderId :: uuid
  pp_ticketNumber :: "int option"
  pp_updated :: bool
  pp_customerName :: string
  pp_customerPhone :: string
  pp_subtotal :: "int option"
  pp_taxAmount :: "int option"
  pp_tipAmount :: "int option"
  pp_discountAmount :: "int option"
  pp_discountName :: "string option"
  pp_totalAmount :: int
  pp_orderType :: "string option"
  pp_specialInstructions :: "string option"
  pp_course :: "int option"
  pp_items :: "print_item list"
  pp_createdAt :: int
  pp_printerId :: "string option"

datatype job_payload = OrderPayload print_payload | ReportPayload json

record print_job_row =
  pj_id :: uuid
  pj_organizationId :: uuid
  pj_orderId :: "uuid option"
  pj_jobType :: string
  pj_status :: string
  pj_printerId :: "string option"
  pj_attempts :: int
  pj_lastError :: "string option"
  pj_payload :: job_payload

record db =
  t_orders :: "order_row list"
  t_orderItems :: "order_item_row list"
  t_payments :: "payment_row list"
  t_orderMutations :: "order_mutation_row list"
  t_menuItems :: "menu_item_row list"
  t_categories :: "category_row list"
  t_menuModifiers :: "menu_modifier_row list"
  t_menuItemModifiers :: "menu_item_modifier_row list"
  t_menuItemToModifiers :: "menu_item_to_modifier_row list"
  t_discounts :: "discount_row list"
  t_customers :: "customer_row list"
  t_locations :: "location_row list"
  t_users :: "user_row list"
  t_timeClockEntries :: "time_clock_row list"
  t_refreshTokens :: "refresh_token_row list"
  t_passwordResetTokens :: "password_reset_row list"
  t_emailVerificationTokens :: "email_verification_row list"
  t_printJobs :: "print_job_row list"

section \<open>The order with its lines and payments\<close>

record full_item =
  fi_id :: uuid
  fi_menuItemId :: uuid
  fi_menuItemName :: string
  fi_quantity :: int
  fi_price :: int
  fi_modifiers :: "json option"
  fi_notes :: "string option"
  fi_course :: "int option"
  fi_firedAt :: "int option"

record full_order =
  fo_order :: order_row
  fo_items :: "full_item list"
  fo_payments :: "payment_row list"

section \<open>The world around the database\<close>

text \<open>
  What a handler sends elsewhere, in the order it sends it. An audit entry carries what the audit
  service was given: action, actor, organization, entity and new value (the previous value, which
  the handlers copy from the row they change, is left out); a realtime message its
  event name and body.
\<close>

datatype effect =
    Audit string "uuid option" "uuid option" string json
  | EmitOrder uuid string full_order
  | EmitOrderStatus uuid string uuid order_status
  | EmitPrintJob uuid string print_job_row
  | BusOrder string uuid full_order
  | EnqueuePrint string print_job_row "int option"
  | RecordUsage uuid uuid string int uuid
  | SendMail string string string

text \<open>
  A cached value with the time it expires at: a reservation or a completed response of the
  idempotency store, or the organization a user id resolved to.
\<close>

datatype cache_value =
    Inflight int
  | Done int json int
  | OrgOf uuid

record world =
  w_db :: db
  w_cache :: "string \<rightharpoonup> cache_value \<times> int"
  w_fx :: "effect list"
  w_now :: int
  w_ids :: "nat \<Rightarrow> uuid"
  w_nextId :: nat
  w_queueUp :: bool

type_synonym 'a handler = "(world, 'a) program"

definition readDb :: "(db \<Rightarrow> 'a) \<Rightarrow> 'a handler" where
  "readDb f = getsM (\<lambda>w. f (w_db w))"

definition writeDb :: "(db \<Rightarrow> db) \<Rightarrow> unit handler" where
  "writeDb f = modifyM (\<lambda>w. w\<lparr>w_db := f (w_db w)\<rparr>)"

definition emitM :: "effect \<Rightarrow> unit handler" where
  "emitM e = modifyM (\<lambda>w. w\<lparr>w_fx := w_fx w @ [e]\<rparr>)"

text \<open>\<open>gen_random_uuid()\<close>: the next id of the supply.\<close>

definition freshId :: "uuid handler" where
  "freshId w = (Inr (w_ids w (w_nextId w)), w\<lparr>w_nextId := Suc (w_nextId w)\<rparr>)"

fun freshIds :: "nat \<Rightarrow> uuid list handler" where
  "freshIds 0 = returnM []"
| "freshIds (Suc n) = bindM freshId (\<lambda>i. bindM (freshIds n) (\<lambda>is. returnM (i # is)))"

text \<open>\<open>db.transaction(body)\<close>: a thrown error rolls the database back and is rethrown.\<close>

definition transactionM :: "'a handler \<Rightarrow> 'a handler" where
  "transactionM m w =
     (case m w of
        (Inl e, w') \<Rightarrow> (Inl e, w'\<lparr>w_db := w_db w\<rparr>)
      | (Inr a, w') \<Rightarrow> (Inr a, w'))"

lemma readDb_simps [prog, simp]:
  "readDb f w = (Inr (f (w_db w)), w)"
  "bindM (readDb f) g w = g (f (w_db w)) w"
  by (simp_all add: readDb_def)

lemma writeDb_simps [prog, simp]:
  "writeDb f w = (Inr (), w\<lparr>w_db := f (w_db w)\<rparr>)"
  "thenM (writeDb f) n w = n (w\<lparr>w_db := f (w_db w)\<rparr>)"
  by (simp_all add: writeDb_def)

lemma emitM_simps [prog, simp]:
  "emitM e w = (Inr (), w\<lparr>w_fx := w_fx w @ [e]\<rparr>)"
  "thenM (emitM e) n w = n (w\<lparr>w_fx := w_fx w @ [e]\<rparr>)"
  by (simp_all add: emitM_def)

lemma freshId_simps [prog, simp]:
  "freshId w = (Inr (w_ids w (w_nextId w)), w\<lparr>w_nextId := Suc (w_nextId w)\<rparr>)"
  "bindM freshId g w = g (w_ids w (w_nextId w)) (w\<lparr>w_nextId := Suc (w_nextId w)\<rparr>)"
  by (simp_all add: freshId_def bindM_def)

lemma freshIds_run:
  "freshIds n w = (Inr (map (w_ids w) [w_nextId w..<w_nextId w + n]), w\<lparr>w_nextId := w_nextId w + n\<rparr>)"
proof (induction n arbitrary: w)
  case (Suc n)
  have "[w_nextId w..<w_nextId w + Suc n] = w_nextId w # [Suc (w_nextId w)..<Suc (w_nextId w) + n]"
    by (simp add: upt_conv_Cons)
  with Suc show ?case by (simp add: bindM_def del: upt_Suc)
qed simp

lemma freshIds_bind [prog, simp]:
  "bindM (freshIds n) g w = g (map (w_ids w) [w_nextId w..<w_nextId w + n]) (w\<lparr>w_nextId := w_nextId w + n\<rparr>)"
  by (simp add: bindM_def freshIds_run)

lemma transactionM_Inr: "transactionM m w = (Inr a, w') \<longleftrightarrow> m w = (Inr a, w')"
  by (auto simp: transactionM_def split: prod.splits sum.splits)

lemma transactionM_Inl_db: "transactionM m w = (Inl e, w') \<Longrightarrow> w_db w' = w_db w"
  by (auto simp: transactionM_def split: prod.splits sum.splits)

lemma transactionM_Inl:
  "m w = (Inl e, w1) \<Longrightarrow> transactionM m w = (Inl e, w1\<lparr>w_db := w_db w\<rparr>)"
  by (simp add: transactionM_def)

section \<open>Queues\<close>

text \<open>A job that throws is tried again until its third attempt (\<open>queues/queues.module.ts\<close>).\<close>

definition ATTEMPTS :: nat where
  "ATTEMPTS = 3"

section \<open>Writes and the constraints on them\<close>

text \<open>Rows of \<open>orders\<close>: the unique client key per organization, and the three CHECKs.\<close>

definition order_unique_conflict :: "db \<Rightarrow> order_row \<Rightarrow> bool" where
  "order_unique_conflict d r \<longleftrightarrow>
     (case ord_clientOrderId r of
        None \<Rightarrow> False
      | Some k \<Rightarrow>
          list_ex (\<lambda>o'. ord_organizationId o' = ord_organizationId r \<and>
                        ord_clientOrderId o' = Some k) (t_orders d))"

definition order_checks :: "order_row \<Rightarrow> bool" where
  "order_checks r \<longleftrightarrow>
     (case ord_tipAmount r of None \<Rightarrow> True | Some t \<Rightarrow> 0 \<le> t) \<and>
     (ord_fireMode r = ''all'' \<or> ord_fireMode r = ''by_course'')"

definition insertOrder :: "order_row \<Rightarrow> order_row handler" where
  "insertOrder r = bindM (readDb id) (\<lambda>d.
     thenM (throw_if (\<not> order_checks r) (ConstraintViolation ''orders''))
    (thenM (throw_if (order_unique_conflict d r) (UniqueViolation ''idx_orders_org_client_id''))
    (thenM (writeDb (\<lambda>d. d\<lparr>t_orders := t_orders d @ [r]\<rparr>))
    (returnM r))))"

definition updateOrder :: "uuid \<Rightarrow> (order_row \<Rightarrow> order_row) \<Rightarrow> unit handler" where
  "updateOrder oid f =
     writeDb (\<lambda>d. d\<lparr>t_orders := update_where (\<lambda>r. ord_id r = oid) f (t_orders d)\<rparr>)"

definition item_checks :: "order_item_row \<Rightarrow> bool" where
  "item_checks r \<longleftrightarrow> 0 < oi_quantity r \<and> 0 \<le> oi_price r"

definition insertOrderItems :: "order_item_row list \<Rightarrow> unit handler" where
  "insertOrderItems rs =
     thenM (throw_if (\<not> list_all item_checks rs) (ConstraintViolation ''order_items''))
           (writeDb (\<lambda>d. d\<lparr>t_orderItems := t_orderItems d @ rs\<rparr>))"

definition deleteOrderItems :: "uuid \<Rightarrow> unit handler" where
  "deleteOrderItems oid =
     writeDb (\<lambda>d. d\<lparr>t_orderItems := filter (\<lambda>r. oi_orderId r \<noteq> oid) (t_orderItems d)\<rparr>)"

text \<open>
  Rows of \<open>payments\<close>: the tender CHECK, the non-zero CHECK, and the foreign key of the recorder.
  An id that is no user's (and that includes a recorder that is no UUID at all) is an error.
\<close>

definition payment_methods :: "string list" where
  "payment_methods = [''cash'', ''card'', ''gift_card'', ''store_credit'', ''other'']"

definition payment_checks :: "db \<Rightarrow> payment_row \<Rightarrow> bool" where
  "payment_checks d p \<longleftrightarrow>
     pay_method p \<in> set payment_methods \<and> pay_amount p \<noteq> 0 \<and>
     (case pay_createdBy p of
        None \<Rightarrow> True
      | Some u \<Rightarrow> list_ex (\<lambda>r. usr_id r = u) (t_users d))"

definition insertPayments :: "payment_row list \<Rightarrow> unit handler" where
  "insertPayments ps = bindM (readDb id) (\<lambda>d.
     thenM (throw_if (\<not> list_all (payment_checks d) ps) (ConstraintViolation ''payments''))
           (writeDb (\<lambda>d. d\<lparr>t_payments := t_payments d @ ps\<rparr>)))"

lemma insertPayments_Inr:
  "insertPayments ps w = (Inr u, w') \<longleftrightarrow>
     list_all (payment_checks (w_db w)) ps \<and>
     w' = w\<lparr>w_db := (w_db w)\<lparr>t_payments := t_payments (w_db w) @ ps\<rparr>\<rparr>"
  by (auto simp: insertPayments_def prog_step)

lemma insertPayments_eval [prog]:
  "list_all (payment_checks (w_db w)) ps \<Longrightarrow>
   insertPayments ps w = (Inr (), w\<lparr>w_db := (w_db w)\<lparr>t_payments := t_payments (w_db w) @ ps\<rparr>\<rparr>)"
  by (simp add: insertPayments_Inr)

lemma updateOrder_eval [prog, simp]:
  "updateOrder oid f w =
     (Inr (), w\<lparr>w_db := (w_db w)\<lparr>t_orders := update_where (\<lambda>r. ord_id r = oid) f (t_orders (w_db w))\<rparr>\<rparr>)"
  "thenM (updateOrder oid f) n w =
     n (w\<lparr>w_db := (w_db w)\<lparr>t_orders := update_where (\<lambda>r. ord_id r = oid) f (t_orders (w_db w))\<rparr>\<rparr>)"
  by (simp_all add: updateOrder_def)

lemma insertOrderItems_Inr:
  "insertOrderItems rs w = (Inr u, w') \<longleftrightarrow>
     list_all item_checks rs \<and>
     w' = w\<lparr>w_db := (w_db w)\<lparr>t_orderItems := t_orderItems (w_db w) @ rs\<rparr>\<rparr>"
  by (auto simp: insertOrderItems_def prog_step)

lemma thenM_insertPayments:
  "thenM (insertPayments ps) n w =
     (if list_all (payment_checks (w_db w)) ps
      then n (w\<lparr>w_db := (w_db w)\<lparr>t_payments := t_payments (w_db w) @ ps\<rparr>\<rparr>)
      else (Inl (ConstraintViolation ''payments''), w))"
  by (auto simp: insertPayments_def prog_step thenM_def bindM_def throw_if_def)

lemma thenM_insertOrderItems:
  "thenM (insertOrderItems rs) n w =
     (if list_all item_checks rs
      then n (w\<lparr>w_db := (w_db w)\<lparr>t_orderItems := t_orderItems (w_db w) @ rs\<rparr>\<rparr>)
      else (Inl (ConstraintViolation ''order_items''), w))"
  by (auto simp: insertOrderItems_def prog_step thenM_def bindM_def throw_if_def)

lemma insertOrder_Inr:
  "insertOrder r w = (Inr a, w') \<longleftrightarrow>
     order_checks r \<and> \<not> order_unique_conflict (w_db w) r \<and> a = r \<and>
     w' = w\<lparr>w_db := (w_db w)\<lparr>t_orders := t_orders (w_db w) @ [r]\<rparr>\<rparr>"
  by (auto simp: insertOrder_def prog_step)

lemma bindM_insertOrder:
  "bindM (insertOrder r) f w =
     (if \<not> order_checks r then (Inl (ConstraintViolation ''orders''), w)
      else if order_unique_conflict (w_db w) r
      then (Inl (UniqueViolation ''idx_orders_org_client_id''), w)
      else f r (w\<lparr>w_db := (w_db w)\<lparr>t_orders := t_orders (w_db w) @ [r]\<rparr>\<rparr>))"
  by (auto simp: bindM_def insertOrder_def prog_step)

section \<open>Reads the services share\<close>

text \<open>\<open>where id = orderId and organizationId = orgId limit 1\<close>\<close>

definition findOrder :: "db \<Rightarrow> uuid \<Rightarrow> uuid \<Rightarrow> order_row option" where
  "findOrder d orgId oid =
     first_row (\<lambda>r. ord_id r = oid \<and> ord_organizationId r = orgId) (t_orders d)"

definition itemsOf :: "db \<Rightarrow> uuid \<Rightarrow> order_item_row list" where
  "itemsOf d oid = filter (\<lambda>r. oi_orderId r = oid) (t_orderItems d)"

definition paymentsOf :: "db \<Rightarrow> uuid \<Rightarrow> payment_row list" where
  "paymentsOf d oid = filter (\<lambda>p. pay_orderId p = oid) (t_payments d)"

text \<open>\<open>coalesce(sum(amount), 0)\<close> over the payments of an order.\<close>

definition paidSum :: "db \<Rightarrow> uuid \<Rightarrow> int" where
  "paidSum d oid = sum_by pay_amount (paymentsOf d oid)"

lemma findOrder_SomeD:
  "findOrder d g oid = Some r \<Longrightarrow> r \<in> set (t_orders d) \<and> ord_id r = oid \<and> ord_organizationId r = g"
  unfolding findOrder_def by (auto dest: first_row_SomeD)

lemma findOrder_update [simp]:
  "(\<And>r. ord_id (f r) = ord_id r) \<Longrightarrow> (\<And>r. ord_organizationId (f r) = ord_organizationId r) \<Longrightarrow>
   first_row (\<lambda>r. ord_id r = oid \<and> ord_organizationId r = g)
     (update_where (\<lambda>r. ord_id r = oid') f rs) =
   map_option (\<lambda>r. if ord_id r = oid' then f r else r)
     (first_row (\<lambda>r. ord_id r = oid \<and> ord_organizationId r = g) rs)"
  by (rule first_row_update_where) simp

lemma paymentsOf_append [simp]:
  "paymentsOf (d\<lparr>t_payments := t_payments d @ ps\<rparr>) oid =
     paymentsOf d oid @ filter (\<lambda>p. pay_orderId p = oid) ps"
  by (simp add: paymentsOf_def)

section \<open>Frames of the basic writes\<close>

text \<open>The tables that hold what guests ordered and paid.\<close>

definition ledger :: "world \<Rightarrow> order_row list \<times> order_item_row list \<times> payment_row list" where
  "ledger w = (t_orders (w_db w), t_orderItems (w_db w), t_payments (w_db w))"

lemma preserves_readDb [frame]: "preserves f (readDb g)"
  by (simp add: preserves_def)

lemma preserves_writeDb: "(\<And>w. f (w\<lparr>w_db := g (w_db w)\<rparr>) = f w) \<Longrightarrow> preserves f (writeDb g)"
  by (simp add: preserves_def)

lemma preserves_emitM: "(\<And>w e. f (w\<lparr>w_fx := w_fx w @ [e]\<rparr>) = f w) \<Longrightarrow> preserves f (emitM e)"
  by (simp add: preserves_def)

lemma preserves_db_emitM [frame]:
  "preserves w_db (emitM e)" "preserves ledger (emitM e)" "preserves w_now (emitM e)"
  by (simp_all add: preserves_def ledger_def)

lemma preserves_db_freshId [frame]: "preserves w_db freshId" "preserves ledger freshId"
  by (simp_all add: preserves_def ledger_def)

lemma preserves_transactionM [frame]: "preserves ledger m \<Longrightarrow> preserves ledger (transactionM m)"
proof (rule preservesI)
  fix w r w' assume "preserves ledger m" and "transactionM m w = (r, w')"
  then show "ledger w' = ledger w"
    using preservesD[of ledger m w]
    by (cases "m w") (auto simp: transactionM_def ledger_def split: sum.splits)
qed

end
