(* ===== verification/Manager_Gate.thy ===== *)
theory Manager_Gate
  imports Platform_DB
begin

text \<open>
  The interface between the user service and the operations a manager has to approve: a check
  that answers with the approving manager or with nothing. Its laws are what the refund and
  adjustment handlers rely on: the check always answers, whoever it names is a user of the
  organization, and it leaves orders, lines and payments alone. The client lemmas say what a
  handler of the shape \<open>const manager = await verify(...); if (!manager) throw ...\<close> does.
\<close>

locale manager_gate =
  fixes verify :: "uuid \<Rightarrow> string \<Rightarrow> user_row option handler"
  assumes verify_answers: "\<exists>r w'. verify g pin w = (Inr r, w')"
    and verify_ledger: "preserves ledger (verify g pin)"
    and verify_member: "verify g pin w = (Inr (Some m), w') \<Longrightarrow>
       m \<in> set (t_users (w_db w)) \<and> usr_organizationId m = Some g"
    and verify_users: "verify g pin w = (Inr r, w') \<Longrightarrow>
       map usr_id (t_users (w_db w')) = map usr_id (t_users (w_db w))"
begin

lemma gated_InrE:
  assumes "bindM (verify g pin) (\<lambda>m. bindM (orThrow m e) body) w = (Inr x, w')"
  obtains m w1 where "verify g pin w = (Inr (Some m), w1)" and "body m w1 = (Inr x, w')"
    and "ledger w1 = ledger w" and "usr_id m \<in> set (map usr_id (t_users (w_db w1)))"
proof -
  from assms obtain r w1 where r: "verify g pin w = (Inr r, w1)"
    and rest: "bindM (orThrow r e) body w1 = (Inr x, w')"
    by (rule bindM_InrE)
  from rest obtain m where m: "r = Some m" and body: "body m w1 = (Inr x, w')"
    by (cases r) auto
  have "ledger w1 = ledger w"
    using preservesD[OF verify_ledger r] .
  moreover have "usr_id m \<in> set (map usr_id (t_users (w_db w1)))"
    using verify_member[of g pin w m w1] verify_users[OF r] r m by auto
  ultimately show thesis
    using that r m body by blast
qed

lemma gated_refused:
  assumes "verify g pin w = (Inr None, w1)"
  shows "bindM (verify g pin) (\<lambda>m. bindM (orThrow m e) body) w = (Inl e, w1)"
    and "ledger w1 = ledger w"
  using assms preservesD[OF verify_ledger assms] by (simp_all add: bindM_eval)

end

end
