(* ===== verification/Cache_Store.thy ===== *)
theory Cache_Store
  imports Prelude Platform_DB
begin

text \<open>
  The Redis cache behind the backend: the Redis commands the code issues, with their documented
  meaning (a key holds a value until it expires, \<open>SET NX\<close> fails on a live key), the Keyv adapter
  over them (\<open>apps/backend/src/common/cache/ioredis-keyv.store.ts\<close>), the cache manager's
  \<open>get\<close>/\<open>set\<close>/\<open>del\<close> as the services call them, and the organization a principal acts for
  (\<open>getRequiredOrg\<close> of \<open>billing/billing.service.ts\<close>), which is cached. How the cache manager is
  wired is a parameter: whether it exposes its Redis client, and the prefix Keyv puts before a key.
\<close>

section \<open>Redis\<close>

definition liveValue :: "world \<Rightarrow> string \<Rightarrow> cache_value option" where
  "liveValue w k =
     (case w_cache w k of
        None \<Rightarrow> None
      | Some (v, expires) \<Rightarrow> if w_now w < expires then Some v else None)"

definition redisGet :: "string \<Rightarrow> cache_value option handler" where
  "redisGet k = getsM (\<lambda>w. liveValue w k)"

definition redisSet :: "string \<Rightarrow> cache_value \<Rightarrow> int \<Rightarrow> unit handler" where
  "redisSet k v ttl = modifyM (\<lambda>w. w\<lparr>w_cache := (w_cache w)(k \<mapsto> (v, w_now w + ttl))\<rparr>)"

definition redisSetNX :: "string \<Rightarrow> cache_value \<Rightarrow> int \<Rightarrow> bool handler" where
  "redisSetNX k v ttl = bindM (redisGet k) (\<lambda>old.
     if old \<noteq> None then returnM False else thenM (redisSet k v ttl) (returnM True))"

definition redisDel :: "string \<Rightarrow> int handler" where
  "redisDel k = bindM (redisGet k) (\<lambda>old.
     thenM (modifyM (\<lambda>w. w\<lparr>w_cache := (w_cache w)(k := None)\<rparr>))
           (returnM (if old = None then 0 else 1)))"

section \<open>The Keyv adapter\<close>

definition storeGet :: "string \<Rightarrow> cache_value option handler" where
  "storeGet key = redisGet key"

text \<open>Every caller passes a positive time to live, so a value always expires.\<close>

definition storeSet :: "string \<Rightarrow> cache_value \<Rightarrow> int \<Rightarrow> unit handler" where
  "storeSet key v ttl = redisSet key v ttl"

definition storeDelete :: "string \<Rightarrow> bool handler" where
  "storeDelete key = bindM (redisDel key) (\<lambda>n. returnM (0 < n))"

definition storeHas :: "string \<Rightarrow> bool handler" where
  "storeHas key = bindM (redisGet key) (\<lambda>v. returnM (v \<noteq> None))"

section \<open>The cache manager\<close>

record cache_wiring =
  cw_client :: bool
  cw_prefix :: string

definition cacheGet :: "cache_wiring \<Rightarrow> string \<Rightarrow> cache_value option handler" where
  "cacheGet cw k = storeGet (cw_prefix cw @ k)"

definition cacheSet :: "cache_wiring \<Rightarrow> string \<Rightarrow> cache_value \<Rightarrow> int \<Rightarrow> unit handler" where
  "cacheSet cw k v ttl = storeSet (cw_prefix cw @ k) v ttl"

definition cacheDel :: "cache_wiring \<Rightarrow> string \<Rightarrow> unit handler" where
  "cacheDel cw k = bindM (storeDelete (cw_prefix cw @ k)) (\<lambda>_. returnM ())"

lemmas cache_defs = cacheGet_def cacheSet_def cacheDel_def storeGet_def storeSet_def storeDelete_def
  storeHas_def redisGet_def redisSet_def redisDel_def redisSetNX_def

text \<open>Everything but the cache.\<close>

definition uncached :: "world \<Rightarrow> world" where
  "uncached w = w\<lparr>w_cache := Map.empty\<rparr>"

lemma uncached_update [simp]: "uncached (w\<lparr>w_cache := c\<rparr>) = uncached w"
  by (simp add: uncached_def)

lemma uncached_parts:
  assumes "uncached w' = uncached w"
  shows "w_db w' = w_db w" "w_fx w' = w_fx w" "w_now w' = w_now w" "ledger w' = ledger w"
proof -
  have "w_db (uncached w') = w_db (uncached w)" "w_fx (uncached w') = w_fx (uncached w)"
    "w_now (uncached w') = w_now (uncached w)"
    using assms by simp_all
  then show "w_db w' = w_db w" "w_fx w' = w_fx w" "w_now w' = w_now w" "ledger w' = ledger w"
    by (simp_all add: uncached_def ledger_def)
qed

lemma preserves_uncached_cache [frame]:
  "preserves uncached (cacheGet cw k)" "preserves uncached (cacheSet cw k v ttl)"
  "preserves uncached (cacheDel cw k)" "preserves uncached (redisSetNX k v ttl)"
  "preserves uncached (redisDel k)"
  by (auto simp: cache_defs preserves_def bindM_def thenM_def)

lemma preserves_ledger_cache [frame]:
  "preserves ledger (cacheGet cw k)" "preserves ledger (cacheSet cw k v ttl)"
  by (auto simp: cache_defs preserves_def ledger_def)

lemma cacheGet_set:
  assumes "cacheSet cw k v ttl w = (Inr (), w1)" and "w_cache w2 = w_cache w1"
    and "w_now w2 < w_now w + ttl"
  shows "cacheGet cw k w2 = (Inr (Some v), w2)"
  using assms by (auto simp: cache_defs liveValue_def)

section \<open>Principals and their organization\<close>

record principal =
  pr_id :: uuid
  pr_role :: string
  pr_organizationId :: "uuid option"
  pr_locationId :: "uuid option"
  pr_isPlatformAdmin :: bool

text \<open>The synthetic principal of API-key requests (\<open>public-api/api-principal.ts\<close>).\<close>

definition apiPrincipal :: "uuid \<Rightarrow> principal" where
  "apiPrincipal organizationId = \<lparr>pr_id = ''public-api'', pr_role = ''api'',
     pr_organizationId = Some organizationId, pr_locationId = None, pr_isPlatformAdmin = False\<rparr>"

definition ORG_RESOLUTION_TTL_MS :: int where
  "ORG_RESOLUTION_TTL_MS = 60000"

definition cachedOrg :: "cache_value option \<Rightarrow> uuid option" where
  "cachedOrg v = (case v of Some (OrgOf g) \<Rightarrow> or_null (Some g) | _ \<Rightarrow> None)"

definition orgOfUserId :: "cache_wiring \<Rightarrow> uuid \<Rightarrow> uuid handler" where
  "orgOfUserId cw userId =
     (let cacheKey = ''orgByUser:'' @ userId in
      bindM (cacheGet cw cacheKey) (\<lambda>v. case cachedOrg v of
        Some g \<Rightarrow> returnM g
      | None \<Rightarrow>
          bindM (readDb (\<lambda>d. first_row (\<lambda>u. usr_id u = userId) (t_users d))) (\<lambda>u.
          bindM (orThrow u (NotFoundException ''User not found.'')) (\<lambda>user.
          bindM (orThrow (or_null (usr_organizationId user)) (ForbiddenException
             ''User does not belong to an organization. Contact your administrator.'')) (\<lambda>g.
          thenM (cacheSet cw cacheKey (OrgOf g) ORG_RESOLUTION_TTL_MS) (returnM g))))))"

definition getRequiredOrg :: "cache_wiring \<Rightarrow> principal \<Rightarrow> uuid handler" where
  "getRequiredOrg cw user =
     (if truthy (pr_organizationId user) then returnM (the (pr_organizationId user))
      else orgOfUserId cw (pr_id user))"

lemma preserves_getRequiredOrg [frame]: "preserves uncached (getRequiredOrg cw user)"
  unfolding getRequiredOrg_def orgOfUserId_def Let_def
  by (intro preserves_if frame)

lemma getRequiredOrg_uncached: "getRequiredOrg cw user w = (r, w') \<Longrightarrow> uncached w' = uncached w"
  using preservesD[OF preserves_getRequiredOrg] .

lemma getRequiredOrg_ledger [frame]: "preserves ledger (getRequiredOrg cw user)"
  by (rule preservesI) (auto dest: getRequiredOrg_uncached uncached_parts)

lemma getRequiredOrg_claim:
  "pr_organizationId user = Some g \<Longrightarrow> g \<noteq> [] \<Longrightarrow> getRequiredOrg cw user = returnM g"
  by (simp add: getRequiredOrg_def)

lemma getRequiredOrg_nonempty: "getRequiredOrg cw user w = (Inr g, w') \<Longrightarrow> g \<noteq> []"
  by (auto simp: getRequiredOrg_def orgOfUserId_def Let_def truthy_def cachedOrg_def or_null_def
      cache_defs prog_step
      elim!: bindM_InrE thenM_InrE split: option.splits cache_value.splits if_splits)

text \<open>
  Resolving the organization of a principal touches nothing but the cache; a principal whose
  token carries no organization gets the organization of its user row, or one that was cached for
  it within the last minute, never an empty one.
\<close>

theorem getRequiredOrg_resolves:
  assumes "getRequiredOrg cw user w = (Inr g, w')" and "\<not> truthy (pr_organizationId user)"
  shows "g \<noteq> [] \<and> uncached w' = uncached w \<and>
    (liveValue w (cw_prefix cw @ ''orgByUser:'' @ pr_id user) = Some (OrgOf g) \<or>
     (\<exists>u \<in> set (t_users (w_db w)). usr_id u = pr_id user \<and> usr_organizationId u = Some g))"
proof -
  have "liveValue w (cw_prefix cw @ ''orgByUser:'' @ pr_id user) = Some (OrgOf g) \<or>
     (\<exists>u \<in> set (t_users (w_db w)). usr_id u = pr_id user \<and> usr_organizationId u = Some g)"
    using assms
    by (auto simp: getRequiredOrg_def orgOfUserId_def Let_def cachedOrg_def or_null_def truthy_def
        cacheGet_def storeGet_def redisGet_def prog_step
        elim!: bindM_InrE thenM_InrE dest!: first_row_SomeD
        split: option.splits cache_value.splits if_splits)
  then show ?thesis
    using getRequiredOrg_nonempty getRequiredOrg_uncached assms(1) by blast
qed

end
