(* ===== verification/Idempotency.thy ===== *)
theory Idempotency
  imports Prelude Platform_DB Cache_Store
begin

text \<open>
  Idempotency keys (\<open>apps/backend/src/common/services/idempotency.service.ts\<close>) and the wrapper
  around a partial refund that uses them (\<open>withIdempotency\<close> of
  \<open>orders/order-payment.service.ts\<close>). The wrapper takes the service as an argument, as the code
  does; the locale states what it relies on, and the service is shown to provide it for every
  wiring of the cache.
\<close>

section \<open>The service\<close>

definition TTL_SECONDS :: int where
  "TTL_SECONDS = 24 * 60 * 60"

definition idemKey :: "string \<Rightarrow> string \<Rightarrow> string" where
  "idemKey scope k = ''idem'' @ '':'' @ scope @ '':'' @ k"

definition idemBegin :: "cache_wiring \<Rightarrow> string \<Rightarrow> string \<Rightarrow> bool handler" where
  "idemBegin cw scope key = bindM (getsM w_now) (\<lambda>now.
     let k = idemKey scope key; reservation = Inflight now in
     if cw_client cw then redisSetNX k reservation (TTL_SECONDS * 1000)
     else bindM (cacheGet cw k) (\<lambda>existing.
       if existing \<noteq> None then returnM False
       else thenM (cacheSet cw k reservation (TTL_SECONDS * 1000)) (returnM True)))"

definition idemComplete :: "cache_wiring \<Rightarrow> string \<Rightarrow> string \<Rightarrow> int \<Rightarrow> json \<Rightarrow> unit handler" where
  "idemComplete cw scope key status body = bindM (getsM w_now) (\<lambda>now.
     cacheSet cw (idemKey scope key) (Done status body now) (TTL_SECONDS * 1000))"

definition idemReplay :: "cache_wiring \<Rightarrow> string \<Rightarrow> string \<Rightarrow> (int \<times> json) option handler" where
  "idemReplay cw scope key = bindM (cacheGet cw (idemKey scope key)) (\<lambda>v.
     returnM (case v of Some (Done status body _) \<Rightarrow> Some (status, body) | _ \<Rightarrow> None))"

definition idemDrop :: "cache_wiring \<Rightarrow> string \<Rightarrow> string \<Rightarrow> unit handler" where
  "idemDrop cw scope key =
     (let k = idemKey scope key in
      if cw_client cw then bindM (redisDel k) (\<lambda>_. returnM ()) else cacheDel cw k)"

definition requireKeyOrThrow :: "string option \<Rightarrow> error + string" where
  "requireKeyOrThrow value =
     (if \<not> truthy value \<or> length (nvl value []) < 8 \<or> length (nvl value []) > 128
      then Inl (BadRequestException ''Idempotency-Key header is required (8-128 chars).'')
      else Inr (nvl value []))"

record idem_service =
  is_begin :: "string \<Rightarrow> string \<Rightarrow> bool handler"
  is_complete :: "string \<Rightarrow> string \<Rightarrow> int \<Rightarrow> json \<Rightarrow> unit handler"
  is_replay :: "string \<Rightarrow> string \<Rightarrow> (int \<times> json) option handler"
  is_drop :: "string \<Rightarrow> string \<Rightarrow> unit handler"

definition idempotencyService :: "cache_wiring \<Rightarrow> idem_service" where
  "idempotencyService cw = \<lparr>is_begin = idemBegin cw, is_complete = idemComplete cw,
     is_replay = idemReplay cw, is_drop = idemDrop cw\<rparr>"

section \<open>The wrapper\<close>

definition withIdempotency ::
  "idem_service \<Rightarrow> string \<Rightarrow> string option \<Rightarrow> json handler \<Rightarrow> json handler" where
  "withIdempotency s scope key fn =
     (if \<not> truthy key then fn
      else bindM (is_replay s scope (the key)) (\<lambda>replay. case replay of
        Some (_, body) \<Rightarrow> returnM body
      | None \<Rightarrow>
          bindM (is_begin s scope (the key)) (\<lambda>won.
          thenM (throw_if (\<not> won) (ConflictException
                   ''A refund with this Idempotency-Key is already in flight.''))
          (catchM (bindM fn (\<lambda>result.
                     thenM (is_complete s scope (the key) 200 result) (returnM result)))
                  (\<lambda>err. thenM (is_drop s scope (the key)) (throwM err))))))"

section \<open>What the wrapper relies on\<close>

text \<open>
  Laws of the store: a completed response is replayed until its day is over, on any later world
  whose cache still has the entry where the store keeps the answer (\<open>slot\<close>), whatever else changed;
  and, on any later world with the same cache, a reservation that was won is lost to everyone else meanwhile
  and replays nothing, a dropped key can be won again, and only the cache changes.
\<close>

definition dayMs :: int where
  "dayMs = 86400000"

locale idem_store =
  fixes s :: idem_service and slot :: "string \<Rightarrow> string \<Rightarrow> string"
  assumes replay_reads: "\<exists>r. is_replay s sc k w = (Inr r, w)"
    and begin_answers: "\<exists>b w'. is_begin s sc k w = (Inr b, w') \<and> uncached w' = uncached w"
    and complete_answers: "\<exists>w'. is_complete s sc k st r w = (Inr (), w') \<and> uncached w' = uncached w"
    and drop_answers: "\<exists>w'. is_drop s sc k w = (Inr (), w') \<and> uncached w' = uncached w"
    and complete_replay: "is_complete s sc k st r w = (Inr (), w1) \<Longrightarrow> w_cache w2 (slot sc k) = w_cache w1 (slot sc k) \<Longrightarrow>
      w_now w2 < w_now w + dayMs \<Longrightarrow> is_replay s sc k w2 = (Inr (Some (st, r)), w2)"
    and begin_excludes: "is_replay s sc k w = (Inr None, w) \<Longrightarrow>
      is_begin s sc k w = (Inr True, w1) \<Longrightarrow> w_cache w2 = w_cache w1 \<Longrightarrow>
      w_now w \<le> w_now w2 \<Longrightarrow> w_now w2 < w_now w + dayMs \<Longrightarrow>
      is_replay s sc k w2 = (Inr None, w2) \<and> is_begin s sc k w2 = (Inr False, w2)"
    and drop_frees: "is_drop s sc k w = (Inr (), w1) \<Longrightarrow> w_cache w2 = w_cache w1 \<Longrightarrow>
      \<exists>w3. is_begin s sc k w2 = (Inr True, w3)"
begin

text \<open>A call with a key that finds nothing to replay and wins the key, up to the wrapped operation.\<close>

lemma fresh_call:
  assumes "is_replay s sc k w = (Inr None, w)" and "is_begin s sc k w = (Inr True, w0)" and "k \<noteq> []"
  shows "withIdempotency s sc (Some k) fn w =
    (case fn w0 of
       (Inr r, w1) \<Rightarrow> (Inr r, snd (is_complete s sc k 200 r w1))
     | (Inl e, w1) \<Rightarrow> (Inl e, snd (is_drop s sc k w1)))"
proof -
  obtain x w1 where fn: "fn w0 = (x, w1)" by (cases "fn w0")
  obtain w3 where d: "is_drop s sc k w1 = (Inr (), w3)"
    using drop_answers by blast
  show ?thesis
  proof (cases x)
    case (Inr r)
    obtain w2 where "is_complete s sc k 200 r w1 = (Inr (), w2)"
      using complete_answers by blast
    with Inr show ?thesis
      using assms fn by (simp add: withIdempotency_def bindM_def thenM_def catchM_def)
  qed (use assms fn d in \<open>simp add: withIdempotency_def bindM_def thenM_def catchM_def\<close>)
qed

text \<open>What a call can come to: an answer without running the operation, or exactly its outcome.\<close>

lemma wrapper_cases:
  assumes "withIdempotency s sc key fn w = (r, w')"
  shows "uncached w' = uncached w \<or>
    (\<exists>w0 w1. uncached w0 = uncached w \<and> fn w0 = (r, w1) \<and> uncached w' = uncached w1)"
proof (cases "truthy key")
  case False
  with assms show ?thesis by (auto simp: withIdempotency_def)
next
  case True
  then obtain k where key: "key = Some k" and k: "k \<noteq> []"
    by (cases key) auto
  obtain x where x: "is_replay s sc k w = (Inr x, w)"
    using replay_reads by blast
  obtain b w0 where b: "is_begin s sc k w = (Inr b, w0)" "uncached w0 = uncached w"
    using begin_answers by blast
  show ?thesis
  proof (cases "x = None \<and> b")
    case False
    with assms x b k show ?thesis
      by (auto simp: withIdempotency_def key bindM_def thenM_def split: option.splits prod.splits)
  next
    case True
    obtain y w1 where y: "fn w0 = (y, w1)" by (cases "fn w0")
    have c: "uncached (snd (is_complete s sc k 200 a w1)) = uncached w1" for a
      using complete_answers by (metis snd_conv)
    obtain w3 where d: "is_drop s sc k w1 = (Inr (), w3)" "uncached w3 = uncached w1"
      using drop_answers by blast
    from True x b have run: "withIdempotency s sc key fn w =
      (case fn w0 of (Inr r, w1) \<Rightarrow> (Inr r, snd (is_complete s sc k 200 r w1))
       | (Inl e, w1) \<Rightarrow> (Inl e, snd (is_drop s sc k w1)))"
      unfolding key using k by (intro fresh_call) auto
    show ?thesis
      using assms y c d b unfolding run by (cases y) auto
  qed
qed

text \<open>A retry after a success is answered from the cache and changes nothing.\<close>

lemma retry_replays:
  assumes "withIdempotency s sc (Some k) fn w = (Inr r, w1)" and "k \<noteq> []"
    and "is_replay s sc k w = (Inr None, w)" and "is_begin s sc k w = (Inr True, w0)"
    and "w_cache w2 (slot sc k) = w_cache w1 (slot sc k)" and "w_now w2 < w_now (snd (fn w0)) + dayMs"
  shows "withIdempotency s sc (Some k) fn' w2 = (Inr r, w2)"
proof -
  from assms(1) obtain wf where fn: "fn w0 = (Inr r, wf)"
    and w1: "w1 = snd (is_complete s sc k 200 r wf)"
    unfolding fresh_call[OF assms(3,4,2)] by (auto split: prod.splits sum.splits)
  obtain wc where c: "is_complete s sc k 200 r wf = (Inr (), wc)"
    using complete_answers by blast
  have "is_replay s sc k w2 = (Inr (Some (200, r)), w2)"
    by (rule complete_replay[OF c]) (use assms(5,6) w1 c fn in auto)
  then show ?thesis
    using assms(2) by (simp add: withIdempotency_def bindM_def)
qed

text \<open>While the operation runs, a second request with the key is refused and changes nothing.\<close>

lemma inflight_refused:
  assumes "is_replay s sc k w = (Inr None, w)" and "is_begin s sc k w = (Inr True, w0)" and "k \<noteq> []"
    and "w_cache w2 = w_cache w0" and "w_now w \<le> w_now w2" and "w_now w2 < w_now w + dayMs"
  shows "withIdempotency s sc (Some k) fn' w2 =
    (Inl (ConflictException ''A refund with this Idempotency-Key is already in flight.''), w2)"
  using begin_excludes[OF assms(1,2,4,5,6)] assms(3)
  by (simp add: withIdempotency_def bindM_def thenM_def)

text \<open>A failed operation frees its key: the retry runs.\<close>

lemma failure_frees:
  assumes "withIdempotency s sc (Some k) fn w = (Inl e, w1)" and "k \<noteq> []"
    and "is_replay s sc k w = (Inr None, w)" and "is_begin s sc k w = (Inr True, w0)"
    and "w_cache w2 = w_cache w1"
  shows "\<exists>w3. is_begin s sc k w2 = (Inr True, w3)"
proof -
  from assms(1) obtain wf where "fn w0 = (Inl e, wf)" and w1: "w1 = snd (is_drop s sc k wf)"
    unfolding fresh_call[OF assms(3,4,2)] by (auto split: prod.splits sum.splits)
  obtain wd where "is_drop s sc k wf = (Inr (), wd)"
    using drop_answers by blast
  then show ?thesis
    using drop_frees w1 assms(5) by fastforce
qed

end

section \<open>The service provides it\<close>

interpretation idem: idem_store "idempotencyService cw" "\<lambda>sc k. cw_prefix cw @ idemKey sc k"
proof
  fix sc k w w1 w2 st r
  show "\<exists>r. is_replay (idempotencyService cw) sc k w = (Inr r, w)"
    by (simp add: idempotencyService_def idemReplay_def cache_defs)
  show "\<exists>b w'. is_begin (idempotencyService cw) sc k w = (Inr b, w') \<and> uncached w' = uncached w"
    by (auto simp: idempotencyService_def idemBegin_def cache_defs Let_def)
  show "\<exists>w'. is_complete (idempotencyService cw) sc k st r w = (Inr (), w') \<and> uncached w' = uncached w"
    by (simp add: idempotencyService_def idemComplete_def cache_defs)
  show "\<exists>w'. is_drop (idempotencyService cw) sc k w = (Inr (), w') \<and> uncached w' = uncached w"
    by (simp add: idempotencyService_def idemDrop_def cache_defs Let_def bindM_def thenM_def)
  show "is_complete (idempotencyService cw) sc k st r w = (Inr (), w1) \<Longrightarrow>
      w_cache w2 (cw_prefix cw @ idemKey sc k) = w_cache w1 (cw_prefix cw @ idemKey sc k) \<Longrightarrow>
      w_now w2 < w_now w + dayMs \<Longrightarrow> is_replay (idempotencyService cw) sc k w2 = (Inr (Some (st, r)), w2)"
    by (auto simp: idempotencyService_def idemComplete_def idemReplay_def cache_defs liveValue_def
        TTL_SECONDS_def dayMs_def)
  show "is_drop (idempotencyService cw) sc k w = (Inr (), w1) \<Longrightarrow> w_cache w2 = w_cache w1 \<Longrightarrow>
      \<exists>w3. is_begin (idempotencyService cw) sc k w2 = (Inr True, w3)"
    by (cases "cw_client cw") (auto simp: idempotencyService_def idemDrop_def idemBegin_def
        cache_defs liveValue_def Let_def bindM_def thenM_def)
  show "is_replay (idempotencyService cw) sc k w2 = (Inr None, w2) \<and>
        is_begin (idempotencyService cw) sc k w2 = (Inr False, w2)"
    if "is_replay (idempotencyService cw) sc k w = (Inr None, w)"
      "is_begin (idempotencyService cw) sc k w = (Inr True, w1)" "w_cache w2 = w_cache w1"
      "w_now w \<le> w_now w2" "w_now w2 < w_now w + dayMs"
    using that
    by (cases "cw_client cw")
       (auto simp: idempotencyService_def idemReplay_def idemBegin_def cache_defs liveValue_def Let_def
          bindM_def thenM_def TTL_SECONDS_def dayMs_def split: option.splits if_splits cache_value.splits)
qed

text \<open>
  A retry with the same key within a day of a success is answered with the stored response:
  the second call changes nothing, whatever operation it carries. A call that failed leaves its
  key free, so the retry wins it again.
\<close>

theorem idempotent_retry:
  assumes "withIdempotency (idempotencyService cw) sc (Some k) fn w = (x, w1)" and "k \<noteq> []"
    and "idemReplay cw sc k w = (Inr None, w)" and "idemBegin cw sc k w = (Inr True, w0)"
    and "w_cache w2 = w_cache w1" and "w_now w2 < w_now (snd (fn w0)) + 86400000"
  shows "case x of
      Inr r \<Rightarrow> withIdempotency (idempotencyService cw) sc (Some k) fn' w2 = (Inr r, w2)
    | Inl e \<Rightarrow> \<exists>w3. idemBegin cw sc k w2 = (Inr True, w3)"
proof -
  have "is_replay (idempotencyService cw) sc k w = (Inr None, w)"
    and "is_begin (idempotencyService cw) sc k w = (Inr True, w0)"
    using assms(3,4) by (simp_all add: idempotencyService_def)
  then show ?thesis
    using assms idem.retry_replays[of cw sc k fn w _ w1 w0 w2 fn']
      idem.failure_frees[of cw sc k fn w _ w1 w0 w2]
    by (cases x) (auto simp: dayMs_def idempotencyService_def)
qed

text \<open>
  While an operation holds its key, a second request with the key is refused with a conflict
  and changes nothing, for a day at most.
\<close>

theorem inflight_conflict:
  assumes "idemReplay cw sc k w = (Inr None, w)" and "idemBegin cw sc k w = (Inr True, w0)"
    and "k \<noteq> []" and "w_cache w2 = w_cache w0" and "w_now w \<le> w_now w2"
    and "w_now w2 < w_now w + 86400000"
  shows "withIdempotency (idempotencyService cw) sc (Some k) fn w2 =
    (Inl (ConflictException ''A refund with this Idempotency-Key is already in flight.''), w2)"
  using assms idem.inflight_refused[of cw sc k w w0 w2 fn]
  by (simp add: dayMs_def idempotencyService_def)

end
