(* ===== verification/Order_Pricing.thy ===== *)
theory Order_Pricing
  imports Prelude Money Platform_DB
begin

text \<open>
  The pricing service of the backend (\<open>apps/backend/src/orders/order-pricing.service.ts\<close>): the
  server-side price of a register cart, stock, discounts, the location an order belongs to, ticket
  numbers, the customer behind a phone number and the tax rate. The queries of \<open>priceCartItems\<close>
  are definitions of their own; \<open>priceLine\<close> is the body of its loop. Shown here: a priced cart
  takes every price from the menu of the organization (or from the override), respects the limits
  of every modifier group, and its subtotal is the sum of its lines.
\<close>

section \<open>Cart lines in and out\<close>

record cart_item =
  ci_menuItemId :: uuid
  ci_quantity :: int
  ci_optionIds :: "uuid list option"
  ci_notes :: "string option"
  ci_course :: "int option"
  ci_priceOverride :: "int option"
  ci_priceOverrideReason :: "string option"

record snapshot =
  sn_optionId :: uuid
  sn_modifier :: string
  sn_option :: string
  sn_priceAdjustment :: int

record resolved_item =
  ri_menuItemId :: uuid
  ri_quantity :: int
  ri_price :: int
  ri_modifiers :: "snapshot list option"
  ri_notes :: "string option"
  ri_course :: "int option"
  ri_taxExempt :: bool
  ri_priceOverridden :: bool
  ri_priceOverrideReason :: "string option"

text \<open>The snapshots as the \<open>jsonb\<close> column stores them.\<close>

definition snapshots_json :: "snapshot list option \<Rightarrow> json option" where
  "snapshots_json ss = map_option (\<lambda>xs. JList (map (\<lambda>s. JObj
     [(''optionId'', JStr (sn_optionId s)), (''modifier'', JStr (sn_modifier s)),
      (''option'', JStr (sn_option s)), (''priceAdjustment'', JInt (sn_priceAdjustment s))]) xs)) ss"

section \<open>The three queries of priceCartItems\<close>

definition orgCategory :: "db \<Rightarrow> uuid \<Rightarrow> uuid \<Rightarrow> bool" where
  "orgCategory d orgId c \<longleftrightarrow>
     list_ex (\<lambda>r. cat_id r = c \<and> cat_organizationId r = orgId) (t_categories d)"

definition cartMenuItems :: "db \<Rightarrow> uuid \<Rightarrow> uuid list \<Rightarrow> menu_item_row list" where
  "cartMenuItems d orgId itemIds =
     filter (\<lambda>m. mi_id m \<in> set itemIds \<and> orgCategory d orgId (mi_categoryId m) \<and>
                 mi_deletedAt m = None \<and> mi_isAvailable m) (t_menuItems d)"

record option_info =
  op_id :: uuid
  op_name :: string
  op_priceAdjustment :: int
  op_modifierId :: uuid
  op_modifierName :: string

definition cartOptions :: "db \<Rightarrow> uuid \<Rightarrow> uuid list \<Rightarrow> option_info list" where
  "cartOptions d orgId optionIds =
     [\<lparr>op_id = mim_id x, op_name = mim_name x, op_priceAdjustment = mim_priceAdjustment x,
       op_modifierId = mim_modifierId x, op_modifierName = mm_name g\<rparr>.
        x \<leftarrow> t_menuItemModifiers d, g \<leftarrow> t_menuModifiers d,
        mm_id g = mim_modifierId x \<and> mim_id x \<in> set optionIds \<and>
        mm_organizationId g = orgId \<and> mim_deletedAt x = None \<and> mm_deletedAt g = None]"

record attached_group =
  ag_menuItemId :: uuid
  ag_modifierId :: uuid
  ag_isRequired :: bool
  ag_multiSelect :: bool
  ag_maxSelections :: "int option"

definition attachedRows :: "db \<Rightarrow> uuid list \<Rightarrow> attached_group list" where
  "attachedRows d itemIds =
     [\<lparr>ag_menuItemId = mitm_menuItemId x, ag_modifierId = mitm_modifierId x,
       ag_isRequired = mm_isRequired g, ag_multiSelect = mm_multiSelect g,
       ag_maxSelections = mm_maxSelections g\<rparr>.
        x \<leftarrow> t_menuItemToModifiers d, g \<leftarrow> t_menuModifiers d,
        mm_id g = mitm_modifierId x \<and> mitm_menuItemId x \<in> set itemIds \<and> mm_deletedAt g = None]"

text \<open>\<open>attachedByItem.get(id) ?? []\<close>: the rows of one item, in row order.\<close>

definition attachedTo :: "attached_group list \<Rightarrow> uuid \<Rightarrow> attached_group list" where
  "attachedTo rows itemId = filter (\<lambda>a. ag_menuItemId a = itemId) rows"

section \<open>One line\<close>

definition resolveOption ::
  "(uuid \<rightharpoonup> option_info) \<Rightarrow> attached_group list \<Rightarrow> uuid \<Rightarrow> uuid \<Rightarrow> error + option_info" where
  "resolveOption optionMap attached itemId optionId =
     (case optionMap optionId of
        None \<Rightarrow> Inl (NotFoundException
                 (''Modifier option '' @ optionId @ '' not found in this organization.''))
      | Some opt \<Rightarrow>
          if op_modifierId opt \<notin> set (map ag_modifierId attached)
          then Inl (BadRequestException (''Modifier option \"'' @ op_name opt @
                 ''\" does not apply to menu item '' @ itemId @ ''.''))
          else Inr opt)"

text \<open>\<open>selectionCounts.get(group) ?? 0\<close>: how many selected options belong to the group.\<close>

definition selectionCount :: "option_info list \<Rightarrow> uuid \<Rightarrow> int" where
  "selectionCount opts g = int (length (filter (\<lambda>o'. op_modifierId o' = g) opts))"

fun checkGroups :: "uuid \<Rightarrow> option_info list \<Rightarrow> attached_group list \<Rightarrow> error + unit" where
  "checkGroups itemId opts [] = Inr ()"
| "checkGroups itemId opts (g # gs) =
     (let count = selectionCount opts (ag_modifierId g) in
      if ag_isRequired g \<and> count = 0
      then Inl (BadRequestException
             (''Menu item '' @ itemId @ '' is missing a required modifier selection.''))
      else if \<not> ag_multiSelect g \<and> count > 1
      then Inl (BadRequestException
             (''Modifier group allows only 1 selection, but multiple were provided for menu item ''
              @ itemId @ ''.''))
      else if ag_multiSelect g \<and> (case ag_maxSelections g of None \<Rightarrow> False | Some m \<Rightarrow> count > m)
      then Inl (BadRequestException
             (''Modifier group allows up to '' @ show_int (nvl (ag_maxSelections g) 0) @
              '' selections, but '' @ show_int count @ '' were provided.''))
      else checkGroups itemId opts gs)"

definition optionSnapshot :: "option_info \<Rightarrow> snapshot" where
  "optionSnapshot opt = \<lparr>sn_optionId = op_id opt, sn_modifier = op_modifierName opt,
     sn_option = op_name opt, sn_priceAdjustment = op_priceAdjustment opt\<rparr>"

definition unitPrice :: "cart_item \<Rightarrow> menu_item_row \<Rightarrow> snapshot list \<Rightarrow> int" where
  "unitPrice line menuItem snapshots =
     (case ci_priceOverride line of
        Some p \<Rightarrow> p
      | None \<Rightarrow> mi_price menuItem + sum_by sn_priceAdjustment snapshots)"

definition priceLine ::
  "(uuid \<rightharpoonup> menu_item_row) \<Rightarrow> (uuid \<rightharpoonup> option_info) \<Rightarrow> attached_group list \<Rightarrow> cart_item \<Rightarrow>
   error + resolved_item" where
  "priceLine dbItemsMap optionMap attachRows line =
     (case dbItemsMap (ci_menuItemId line) of
        None \<Rightarrow> Inl (NotFoundException (''Menu item '' @ ci_menuItemId line @
                  '' not found, unavailable, or not in this organization.''))
      | Some menuItem \<Rightarrow>
          (let attached = attachedTo attachRows (ci_menuItemId line) in
           case mapE (resolveOption optionMap attached (ci_menuItemId line))
                  (nvl (ci_optionIds line) []) of
             Inl e \<Rightarrow> Inl e
           | Inr opts \<Rightarrow>
               (case checkGroups (ci_menuItemId line) opts attached of
                  Inl e \<Rightarrow> Inl e
                | Inr _ \<Rightarrow>
                    (let snapshots = map optionSnapshot opts in
                     Inr \<lparr>ri_menuItemId = ci_menuItemId line,
                          ri_quantity = ci_quantity line,
                          ri_price = unitPrice line menuItem snapshots,
                          ri_modifiers = (if snapshots = [] then None else Some snapshots),
                          ri_notes = or_null (map_option js_trim (ci_notes line)),
                          ri_course = ci_course line,
                          ri_taxExempt = mi_taxExempt menuItem,
                          ri_priceOverridden = (ci_priceOverride line \<noteq> None),
                          ri_priceOverrideReason =
                            (if ci_priceOverride line \<noteq> None
                             then or_null (map_option js_trim (ci_priceOverrideReason line))
                             else None)\<rparr>))))"

definition lineTotal :: "resolved_item \<Rightarrow> int" where
  "lineTotal r = ri_price r * ri_quantity r"

definition priceCart :: "db \<Rightarrow> uuid \<Rightarrow> cart_item list \<Rightarrow> error + (resolved_item list \<times> int)" where
  "priceCart d orgId items =
     (let itemIds = js_dedup (map ci_menuItemId items);
          dbItemsMap = js_map (map (\<lambda>m. (mi_id m, m)) (cartMenuItems d orgId itemIds));
          allOptionIds = js_dedup (concat (map (\<lambda>i. nvl (ci_optionIds i) []) items));
          optionMap = js_map (map (\<lambda>x. (op_id x, x)) (cartOptions d orgId allOptionIds));
          attachRows = attachedRows d itemIds
      in case mapE (priceLine dbItemsMap optionMap attachRows) items of
           Inl e \<Rightarrow> Inl e
         | Inr resolvedItems \<Rightarrow> Inr (resolvedItems, sum_by lineTotal resolvedItems))"

definition priceCartItems :: "uuid \<Rightarrow> cart_item list \<Rightarrow> (resolved_item list \<times> int) handler" where
  "priceCartItems orgId items = bindM (readDb id) (\<lambda>d. liftE (priceCart d orgId items))"

section \<open>Tax base, stock and discounts\<close>

definition taxableSubtotal :: "resolved_item list \<Rightarrow> int" where
  "taxableSubtotal items = sum_by (\<lambda>i. if ri_taxExempt i then 0 else lineTotal i) items"

text \<open>One \<open>UPDATE\<close> per sold line; untracked stock (null) is left alone.\<close>

definition sellOne :: "uuid \<Rightarrow> int \<Rightarrow> menu_item_row list \<Rightarrow> menu_item_row list" where
  "sellOne itemId q = update_where
     (\<lambda>m. mi_id m = itemId \<and> mi_stockQuantity m \<noteq> None)
     (\<lambda>m. m\<lparr>mi_stockQuantity := map_option (\<lambda>s. max (s - q) 0) (mi_stockQuantity m)\<rparr>)"

definition decrementStock :: "(uuid \<times> int) list \<Rightarrow> unit handler" where
  "decrementStock items = forM items (\<lambda>(itemId, q).
     writeDb (\<lambda>d. d\<lparr>t_menuItems := sellOne itemId q (t_menuItems d)\<rparr>))"

definition resolveDiscount ::
  "uuid \<Rightarrow> string \<Rightarrow> string option \<Rightarrow> string option \<Rightarrow> discount_row option handler" where
  "resolveDiscount orgId role discountId promoCode =
     (if \<not> truthy discountId \<and> \<not> truthy (map_option js_trim promoCode) then returnM None
      else bindM (readDb (\<lambda>d. first_row (\<lambda>r.
             disc_organizationId r = orgId \<and> disc_active r \<and> disc_deletedAt r = None \<and>
             (if truthy discountId then Some (disc_id r) = discountId
              else disc_code r = map_option (js_upper \<circ> js_trim) promoCode)) (t_discounts d)))
       (\<lambda>row. bindM (orThrow row (NotFoundException
             (if truthy discountId then ''Discount not found or inactive.''
              else ''Promo code \"'' @ nvl promoCode [] @ ''\" not found or inactive.'')))
       (\<lambda>discount.
          thenM (throw_if (disc_requiresManager discount \<and> role = ''user'')
                  (ForbiddenException (''\"'' @ disc_name discount @ ''\" requires manager approval.'')))
                (returnM (Some discount)))))"

text \<open>The service's \<open>discountAmountFor\<close>, on a row of the table.\<close>

definition discountAmountForRow :: "discount_row option \<Rightarrow> int \<Rightarrow> int" where
  "discountAmountForRow discount subtotal =
     (case discount of
        None \<Rightarrow> 0
      | Some r \<Rightarrow>
          let raw = (if disc_type r = ''percent''
                     then js_round (of_int (subtotal * disc_value r) / 100) else disc_value r)
          in min subtotal (max 0 raw))"

section \<open>Locations, ticket numbers, customers\<close>

definition resolveOrderLocation ::
  "uuid \<Rightarrow> uuid option \<Rightarrow> uuid option list \<Rightarrow> uuid option handler" where
  "resolveOrderLocation orgId hinted itemLocationIds =
     (if truthy hinted then returnM hinted
      else let distinctItemLocations =
                 js_dedup (map the (filter truthy itemLocationIds))
           in if length distinctItemLocations = 1 then returnM (Some (hd distinctItemLocations))
           else readDb (\<lambda>d.
             let orgLocations = take 2 (filter (\<lambda>l. loc_organizationId l = orgId \<and>
                                   loc_deletedAt l = None) (t_locations d))
             in if length orgLocations = 1 then Some (loc_id (hd orgLocations)) else None))"

definition DEFAULT_TIMEZONE :: string where
  "DEFAULT_TIMEZONE = ''America/New_York''"

definition getLocationTimezone :: "uuid \<Rightarrow> string handler" where
  "getLocationTimezone locationId = readDb (\<lambda>d.
     case first_row (\<lambda>l. loc_id l = locationId) (t_locations d) of
       None \<Rightarrow> DEFAULT_TIMEZONE
     | Some l \<Rightarrow> nvl (loc_timezone l) DEFAULT_TIMEZONE)"

text \<open>\<open>coalesce(max(ticket_number), 0)\<close> over the orders of a location; null numbers are skipped.\<close>

definition maxTicket :: "order_row list \<Rightarrow> uuid \<Rightarrow> int" where
  "maxTicket rows locationId =
     (let ns = List.map_filter ord_ticketNumber
                 (filter (\<lambda>r. ord_locationId r = Some locationId) rows)
      in if ns = [] then 0 else foldr max ns (hd ns))"

definition nextTicketNumber :: "uuid \<Rightarrow> int handler" where
  "nextTicketNumber locationId = readDb (\<lambda>d. maxTicket (t_orders d) locationId + 1)"

definition realCustomerName :: "string option \<Rightarrow> string option" where
  "realCustomerName name =
     (case name of
        None \<Rightarrow> None
      | Some n \<Rightarrow> if js_trim n \<noteq> [] \<and> js_lower (js_trim n) \<noteq> ''walk-in''
                  then Some (js_trim n) else None)"

definition resolveCustomerIdByPhone ::
  "uuid \<Rightarrow> string option \<Rightarrow> string option \<Rightarrow> uuid option handler" where
  "resolveCustomerIdByPhone orgId phone name =
     (case or_null (map_option js_trim phone) of
        None \<Rightarrow> returnM None
      | Some trimmedPhone \<Rightarrow>
          bindM (readDb (\<lambda>d. first_row (\<lambda>c. cust_organizationId c = orgId \<and>
                   cust_phone c = Some trimmedPhone) (t_customers d)))
          (\<lambda>existing. case existing of
             Some c \<Rightarrow>
               thenM (whenM (realCustomerName name \<noteq> None \<and> js_lower (cust_name c) = ''walk-in'')
                 (bindM (getsM w_now) (\<lambda>now.
                    writeDb (\<lambda>d. d\<lparr>t_customers := update_where (\<lambda>r. cust_id r = cust_id c)
                      (\<lambda>r. r\<lparr>cust_name := the (realCustomerName name), cust_updatedAt := now\<rparr>)
                      (t_customers d)\<rparr>))))
               (returnM (Some (cust_id c)))
           | None \<Rightarrow>
               bindM freshId (\<lambda>cid. bindM (getsM w_now) (\<lambda>now.
                 thenM (writeDb (\<lambda>d. d\<lparr>t_customers := t_customers d @
                    [\<lparr>cust_id = cid, cust_organizationId = orgId,
                      cust_name = nvl (realCustomerName name) trimmedPhone,
                      cust_phone = Some trimmedPhone, cust_loyaltyPoints = 0,
                      cust_updatedAt = now\<rparr>]\<rparr>))
                 (returnM (Some cid))))))"

definition requireOrgCustomer :: "uuid \<Rightarrow> uuid \<Rightarrow> unit handler" where
  "requireOrgCustomer orgId customerId =
     bindM (readDb (\<lambda>d. first_row (\<lambda>c. cust_id c = customerId \<and> cust_organizationId c = orgId)
              (t_customers d)))
     (\<lambda>c. throw_if (c = None) (NotFoundException ''Customer not found in your organization.''))"

definition taxRateOf :: "db \<Rightarrow> uuid option \<Rightarrow> int" where
  "taxRateOf d locationId =
     (if \<not> truthy locationId then 0
      else case first_row (\<lambda>l. Some (loc_id l) = locationId) (t_locations d) of
             None \<Rightarrow> 0 | Some l \<Rightarrow> loc_taxRateBps l)"

definition getTaxRate :: "uuid option \<Rightarrow> int handler" where
  "getTaxRate locationId = readDb (\<lambda>d. taxRateOf d locationId)"

section \<open>What a priced cart guarantees\<close>

text \<open>
  The contract of \<open>priceCart\<close>, over the tables alone: the item is orderable in the organization,
  every selected option belongs to a live group of the organization that is attached to the item,
  every attached live group is within its limits, and the price is the override or the menu price
  plus the adjustments.
\<close>

definition orderable :: "db \<Rightarrow> uuid \<Rightarrow> menu_item_row \<Rightarrow> bool" where
  "orderable d orgId m \<longleftrightarrow> m \<in> set (t_menuItems d) \<and> orgCategory d orgId (mi_categoryId m) \<and>
     mi_deletedAt m = None \<and> mi_isAvailable m"

definition validOption :: "db \<Rightarrow> uuid \<Rightarrow> uuid \<Rightarrow> option_info \<Rightarrow> bool" where
  "validOption d orgId itemId opt \<longleftrightarrow>
     (\<exists>x \<in> set (t_menuItemModifiers d). \<exists>g \<in> set (t_menuModifiers d).
        op_id opt = mim_id x \<and> op_priceAdjustment opt = mim_priceAdjustment x \<and>
        op_modifierId opt = mim_modifierId x \<and> mim_deletedAt x = None \<and>
        mm_id g = mim_modifierId x \<and> mm_organizationId g = orgId \<and> mm_deletedAt g = None) \<and>
     (\<exists>a \<in> set (t_menuItemToModifiers d).
        mitm_menuItemId a = itemId \<and> mitm_modifierId a = op_modifierId opt)"

definition withinLimits :: "option_info list \<Rightarrow> menu_modifier_row \<Rightarrow> bool" where
  "withinLimits opts g \<longleftrightarrow>
     (let n = selectionCount opts (mm_id g) in
      (mm_isRequired g \<longrightarrow> 1 \<le> n) \<and> (\<not> mm_multiSelect g \<longrightarrow> n \<le> 1) \<and>
      (\<forall>m. mm_multiSelect g \<and> mm_maxSelections g = Some m \<longrightarrow> n \<le> m))"

definition priced :: "db \<Rightarrow> uuid \<Rightarrow> cart_item \<Rightarrow> resolved_item \<Rightarrow> bool" where
  "priced d orgId line r \<longleftrightarrow>
     (\<exists>m opts. orderable d orgId m \<and> mi_id m = ci_menuItemId line \<and>
        map op_id opts = nvl (ci_optionIds line) [] \<and>
        (\<forall>opt \<in> set opts. validOption d orgId (mi_id m) opt) \<and>
        (\<forall>a \<in> set (t_menuItemToModifiers d). \<forall>g \<in> set (t_menuModifiers d).
           mitm_menuItemId a = mi_id m \<and> mm_id g = mitm_modifierId a \<and> mm_deletedAt g = None \<longrightarrow>
           withinLimits opts g) \<and>
        ri_menuItemId r = mi_id m \<and> ri_quantity r = ci_quantity line \<and>
        ri_taxExempt r = mi_taxExempt m \<and>
        ri_price r = (case ci_priceOverride line of Some p \<Rightarrow> p
                      | None \<Rightarrow> mi_price m + sum_by op_priceAdjustment opts))"

lemma checkGroups_Inr:
  "checkGroups itemId opts gs = Inr u \<longleftrightarrow>
     (\<forall>g \<in> set gs. let n = selectionCount opts (ag_modifierId g) in
        (ag_isRequired g \<longrightarrow> 1 \<le> n) \<and> (\<not> ag_multiSelect g \<longrightarrow> n \<le> 1) \<and>
        (\<forall>m. ag_multiSelect g \<and> ag_maxSelections g = Some m \<longrightarrow> n \<le> m))"
proof (induction gs)
  case (Cons g gs)
  have "0 \<le> selectionCount opts (ag_modifierId g)"
    by (simp add: selectionCount_def)
  then show ?case
    using Cons.IH by (cases "ag_maxSelections g") (auto simp: Let_def)
qed simp

lemma resolveOption_Inr:
  "resolveOption om ats itemId oid = Inr opt \<longleftrightarrow>
     om oid = Some opt \<and> op_modifierId opt \<in> ag_modifierId ` set ats"
  by (auto simp: resolveOption_def split: option.splits)

lemma cartOptions_map:
  "js_map (map (\<lambda>x. (op_id x, x)) (cartOptions d orgId ids)) k = Some opt \<Longrightarrow>
   op_id opt = k \<and> (\<exists>x \<in> set (t_menuItemModifiers d). \<exists>g \<in> set (t_menuModifiers d).
     op_id opt = mim_id x \<and> op_priceAdjustment opt = mim_priceAdjustment x \<and>
     op_modifierId opt = mim_modifierId x \<and> mim_deletedAt x = None \<and>
     mm_id g = mim_modifierId x \<and> mm_organizationId g = orgId \<and> mm_deletedAt g = None)"
  by (drule js_map_in) (auto simp: cartOptions_def split: if_splits)

lemma attachedTo_rows:
  "a \<in> set (attachedTo (attachedRows d ids) itemId) \<Longrightarrow>
   \<exists>x \<in> set (t_menuItemToModifiers d). mitm_menuItemId x = itemId \<and> mitm_modifierId x = ag_modifierId a"
  by (auto simp: attachedTo_def attachedRows_def split: if_splits)

lemma attachedRows_complete:
  assumes "x \<in> set (t_menuItemToModifiers d)" and "g \<in> set (t_menuModifiers d)"
    and "mm_id g = mitm_modifierId x" and "mm_deletedAt g = None" and "mitm_menuItemId x \<in> set ids"
  shows "\<lparr>ag_menuItemId = mitm_menuItemId x, ag_modifierId = mitm_modifierId x,
           ag_isRequired = mm_isRequired g, ag_multiSelect = mm_multiSelect g,
           ag_maxSelections = mm_maxSelections g\<rparr>
         \<in> set (attachedTo (attachedRows d ids) (mitm_menuItemId x))"
  using assms unfolding attachedTo_def attachedRows_def by force

lemma mapE_resolveOption:
  "mapE (resolveOption om ats itemId) ids = Inr opts \<Longrightarrow>
   length opts = length ids \<and>
   (\<forall>i < length ids. om (ids ! i) = Some (opts ! i) \<and> op_modifierId (opts ! i) \<in> ag_modifierId ` set ats)"
  by (auto simp: mapE_Inr list_all2_conv_all_nth resolveOption_Inr)

lemma cartMenuItems_map:
  "js_map (map (\<lambda>m. (mi_id m, m)) (cartMenuItems d orgId ids)) k = Some m \<Longrightarrow>
   orderable d orgId m \<and> mi_id m = k"
  by (drule js_map_in) (auto simp: cartMenuItems_def orderable_def)

lemma priceLine_priced:
  assumes "priceLine (js_map (map (\<lambda>m. (mi_id m, m)) (cartMenuItems d orgId itemIds)))
             (js_map (map (\<lambda>x. (op_id x, x)) (cartOptions d orgId optIds)))
             (attachedRows d itemIds) line = Inr r"
    and "ci_menuItemId line \<in> set itemIds"
  shows "priced d orgId line r"
proof -
  let ?items = "js_map (map (\<lambda>m. (mi_id m, m)) (cartMenuItems d orgId itemIds))"
  let ?om = "js_map (map (\<lambda>x. (op_id x, x)) (cartOptions d orgId optIds))"
  let ?ats = "attachedTo (attachedRows d itemIds) (ci_menuItemId line)"
  let ?ids = "nvl (ci_optionIds line) []"
  from assms(1) obtain m opts where m: "?items (ci_menuItemId line) = Some m"
    and opts: "mapE (resolveOption ?om ?ats (ci_menuItemId line)) ?ids = Inr opts"
    and groups: "checkGroups (ci_menuItemId line) opts ?ats = Inr ()"
    and r: "ri_menuItemId r = ci_menuItemId line" "ri_quantity r = ci_quantity line"
      "ri_taxExempt r = mi_taxExempt m" "ri_price r = unitPrice line m (map optionSnapshot opts)"
    by (auto simp: priceLine_def Let_def split: option.splits sum.splits)
  note mm = cartMenuItems_map[OF m]
  note res = mapE_resolveOption[OF opts]
  have ids: "map op_id opts = ?ids"
    by (rule nth_equalityI) (use res cartOptions_map[of d orgId optIds] in auto)
  have valid: "validOption d orgId (mi_id m) opt" if "opt \<in> set opts" for opt
  proof -
    from that obtain i where i: "i < length opts" "opt = opts ! i"
      by (auto simp: in_set_conv_nth)
    with res have "?om (?ids ! i) = Some opt" "op_modifierId opt \<in> ag_modifierId ` set ?ats"
      by auto
    then show ?thesis
      using cartOptions_map attachedTo_rows mm unfolding validOption_def by force
  qed
  have limits: "withinLimits opts g"
    if "a \<in> set (t_menuItemToModifiers d)" "g \<in> set (t_menuModifiers d)"
      "mitm_menuItemId a = mi_id m" "mm_id g = mitm_modifierId a" "mm_deletedAt g = None" for a g
    using groups attachedRows_complete[OF that(1,2,4,5), of itemIds] that(3,4) assms(2) mm
    unfolding checkGroups_Inr withinLimits_def Let_def by fastforce
  have "sum_by sn_priceAdjustment (map optionSnapshot opts) = sum_by op_priceAdjustment opts"
    by (simp add: sum_by_def optionSnapshot_def comp_def)
  then show ?thesis
    unfolding priced_def using mm ids valid limits r
    by (intro exI[of _ m] exI[of _ opts]) (auto simp: unitPrice_def split: option.splits)
qed

text \<open>
  C9. A cart that prices: every line is priced from an orderable item of the organization with
  valid options inside the limits of every attached group, line for line in order, and the
  subtotal is the sum of the line totals.
\<close>

theorem priceCart_sound:
  assumes "priceCart d orgId items = Inr (ris, subtotal)"
  shows "list_all2 (priced d orgId) items ris \<and> subtotal = sum_by lineTotal ris"
proof -
  let ?ids = "js_dedup (map ci_menuItemId items)"
  from assms have
    "list_all2 (\<lambda>x y. priceLine (js_map (map (\<lambda>m. (mi_id m, m)) (cartMenuItems d orgId ?ids)))
       (js_map (map (\<lambda>x. (op_id x, x))
          (cartOptions d orgId (js_dedup (concat (map (\<lambda>i. nvl (ci_optionIds i) []) items))))))
       (attachedRows d ?ids) x = Inr y) items ris"
    and sub: "subtotal = sum_by lineTotal ris"
    by (auto simp: priceCart_def Let_def mapE_Inr split: sum.splits)
  then have "list_all2 (priced d orgId) items ris"
    by (auto intro!: priceLine_priced simp: list_all2_conv_all_nth)
  with sub show ?thesis by simp
qed

section \<open>Stock, tickets, tax base\<close>

definition soldOf :: "(uuid \<times> int) list \<Rightarrow> uuid \<Rightarrow> int" where
  "soldOf items itemId = sum_by snd (filter (\<lambda>x. fst x = itemId) items)"

definition stockAfter :: "(uuid \<times> int) list \<Rightarrow> menu_item_row \<Rightarrow> menu_item_row" where
  "stockAfter items m =
     m\<lparr>mi_stockQuantity := map_option (\<lambda>s. max (s - soldOf items (mi_id m)) 0) (mi_stockQuantity m)\<rparr>"

lemma soldOf_simps [simp]:
  "soldOf [] i = 0"
  "soldOf ((j, q) # items) i = (if j = i then q else 0) + soldOf items i"
  by (simp_all add: soldOf_def)

lemma soldOf_nonneg: "list_all (\<lambda>x. 0 \<le> snd x) items \<Longrightarrow> 0 \<le> soldOf items i"
  unfolding soldOf_def by (rule sum_by_nonneg) (auto simp: list_all_iff)

lemma stockAfter_step:
  assumes "0 \<le> q" and "list_all (\<lambda>x. 0 \<le> snd x) items"
  shows "stockAfter items (if mi_id m = i \<and> mi_stockQuantity m \<noteq> None
           then m\<lparr>mi_stockQuantity := map_option (\<lambda>s. max (s - q) 0) (mi_stockQuantity m)\<rparr> else m)
         = stockAfter ((i, q) # items) m"
  using assms soldOf_nonneg[OF assms(2), of "mi_id m"]
  by (cases "mi_stockQuantity m") (auto simp: stockAfter_def)

lemma decrementStock_run:
  assumes "list_all (\<lambda>x. 0 \<le> snd x) items"
    and "\<forall>m \<in> set (t_menuItems (w_db w)). \<forall>s. mi_stockQuantity m = Some s \<longrightarrow> 0 \<le> s"
  shows "decrementStock items w =
     (Inr (), w\<lparr>w_db := (w_db w)\<lparr>t_menuItems := map (stockAfter items) (t_menuItems (w_db w))\<rparr>\<rparr>)"
  using assms
proof (induction items arbitrary: w)
  case Nil
  have "stockAfter [] m = m" if "m \<in> set (t_menuItems (w_db w))" for m
    using that Nil.prems(2) by (cases m; cases "mi_stockQuantity m") (fastforce simp: stockAfter_def)+
  then have "map (stockAfter []) (t_menuItems (w_db w)) = t_menuItems (w_db w)"
    by (rule map_idI)
  then show ?case by (simp add: decrementStock_def)
next
  case (Cons x items)
  obtain i q where x: "x = (i, q)" by (cases x)
  let ?w = "w\<lparr>w_db := (w_db w)\<lparr>t_menuItems := sellOne i q (t_menuItems (w_db w))\<rparr>\<rparr>"
  have "decrementStock (x # items) w = decrementStock items ?w"
    by (simp add: decrementStock_def x)
  also have "\<dots> = (Inr (), ?w\<lparr>w_db := (w_db ?w)\<lparr>t_menuItems :=
       map (stockAfter items) (t_menuItems (w_db ?w))\<rparr>\<rparr>)"
    using Cons.prems by (intro Cons.IH) (auto simp: sellOne_def set_update_where)
  also have "map (stockAfter items) (t_menuItems (w_db ?w)) =
      map (stockAfter (x # items)) (t_menuItems (w_db w))"
    using Cons.prems(1) stockAfter_step[of q items]
    unfolding sellOne_def update_where_def by (simp only: x list.map_comp comp_def) simp
  finally show ?case by simp
qed

lemma maxTicket_ge:
  assumes "r \<in> set rows" and "ord_locationId r = Some l" and "ord_ticketNumber r = Some n"
  shows "n \<le> maxTicket rows l"
proof -
  have ge: "x \<in> set xs \<Longrightarrow> x \<le> foldr max xs (b::int)" for x xs b
    by (induction xs) (auto simp: le_max_iff_disj)
  have "n \<in> set (List.map_filter ord_ticketNumber (filter (\<lambda>r. ord_locationId r = Some l) rows))"
    using assms by (force simp: List.map_filter_def)
  then show ?thesis
    using ge unfolding maxTicket_def Let_def by (auto split: if_splits)
qed

text \<open>
  A ticket number names one order: the number a location gets next is larger than that of
  every order the location already has.
\<close>

theorem nextTicketNumber_fresh:
  assumes "nextTicketNumber l w = (Inr n, w')"
    and "r \<in> set (t_orders (w_db w))" and "ord_locationId r = Some l"
    and "ord_ticketNumber r = Some k"
  shows "k < n \<and> w' = w"
  using assms maxTicket_ge[OF assms(2-4)] by (auto simp: nextTicketNumber_def)

text \<open>
  Selling a list of lines lowers every tracked stock by everything sold of the item, floored
  at zero, whatever the order of the lines; untracked items and the rest of the world stay.
\<close>

theorem decrementStock_sells:
  assumes "list_all (\<lambda>x. 0 \<le> snd x) items"
    and "\<forall>m \<in> set (t_menuItems (w_db w)). \<forall>s. mi_stockQuantity m = Some s \<longrightarrow> 0 \<le> s"
  shows "decrementStock items w =
     (Inr (), w\<lparr>w_db := (w_db w)\<lparr>t_menuItems := map (stockAfter items) (t_menuItems (w_db w))\<rparr>\<rparr>)"
  using assms by (rule decrementStock_run)

lemma taxableSubtotal_bounds:
  assumes "\<And>r. r \<in> set ris \<Longrightarrow> 0 \<le> lineTotal r"
  shows "0 \<le> taxableSubtotal ris \<and> taxableSubtotal ris \<le> sum_by lineTotal ris"
  unfolding taxableSubtotal_def using assms by (auto intro!: sum_by_nonneg sum_by_mono)

lemma discountAmountForRow_eq:
  "discountAmountForRow r s = discountAmountFor (map_option (\<lambda>r. (disc_type r, disc_value r)) r) s"
  by (cases r) (simp_all add: discountAmountForRow_def discountAmountFor_def)

lemma discountAmountForRow_bounds:
  "0 \<le> s \<Longrightarrow> 0 \<le> discountAmountForRow r s \<and> discountAmountForRow r s \<le> s"
  by (simp add: discountAmountForRow_eq discountAmountFor_nonneg discountAmountFor_le)

end
