(* ===== verification/Users.thy ===== *)
theory Users
  imports Prelude Platform_DB Manager_Gate
begin

text \<open>
  The user service (\<open>apps/backend/src/users/users.service.ts\<close>): accounts, the POS manager PIN with
  its lockout, and the time clock. Password and PIN hashing is the library's (bcrypt): every
  operation takes the comparison \<open>cmp plain hash\<close>, and a setter also the hash it was given.
  Shown here: a PIN that verifies belongs to a live, unlocked manager of the organization; five
  wrong PINs lock an account for fifteen minutes, in both modes; a PIN that was set names one
  employee; and PIN checks never touch orders or payments.
\<close>

type_synonym pin_compare = "string \<Rightarrow> string \<Rightarrow> bool"

section \<open>Accounts\<close>

definition normalizeEmail :: "string \<Rightarrow> string" where
  "normalizeEmail email = js_lower (js_trim email)"

definition findOneByEmail :: "db \<Rightarrow> string \<Rightarrow> user_row option" where
  "findOneByEmail d email = first_row (\<lambda>u. usr_deletedAt u = None \<and>
     js_lower (usr_email u) = normalizeEmail email) (t_users d)"

definition findOneById :: "db \<Rightarrow> uuid \<Rightarrow> user_row option" where
  "findOneById d uid = first_row (\<lambda>u. usr_deletedAt u = None \<and> usr_id u = uid) (t_users d)"

text \<open>\<open>users.email\<close> is unique over all rows, the soft-deleted ones included.\<close>

definition insertUser :: "user_row \<Rightarrow> user_row handler" where
  "insertUser u = bindM (readDb t_users) (\<lambda>us.
     thenM (throw_if (list_ex (\<lambda>v. usr_email v = usr_email u) us) (UniqueViolation ''users_email_unique''))
    (thenM (writeDb (\<lambda>d. d\<lparr>t_users := t_users d @ [u]\<rparr>))
    (returnM u)))"

record new_user =
  nu_email :: string
  nu_role :: string
  nu_organizationId :: "uuid option"
  nu_firstName :: "string option"
  nu_lastName :: "string option"
  nu_phoneNumber :: "string option"
  nu_companyName :: "string option"

definition create :: "string \<Rightarrow> new_user \<Rightarrow> user_row handler" where
  "create passwordHash n = bindM freshId (\<lambda>uid. bindM (getsM w_now) (\<lambda>now.
     insertUser \<lparr>usr_id = uid, usr_email = normalizeEmail (nu_email n),
       usr_passwordHash = passwordHash, usr_role = nu_role n,
       usr_firstName = nu_firstName n, usr_lastName = nu_lastName n,
       usr_phoneNumber = nu_phoneNumber n, usr_companyName = nu_companyName n,
       usr_emailVerifiedAt = None, usr_onboardingCompletedAt = None, usr_failedLoginAttempts = 0,
       usr_lockedUntil = None, usr_lastLoginAt = None, usr_organizationId = nu_organizationId n,
       usr_locationId = None,
       usr_posPinHash = None, usr_posPinFailedAttempts = 0, usr_posPinLockedUntil = None,
       usr_deletedAt = None, usr_updatedAt = now\<rparr>))"

text \<open>What leaves the service: no hash, only whether a PIN is set.\<close>

record safe_user =
  su_id :: uuid
  su_email :: string
  su_role :: string
  su_organizationId :: "uuid option"
  su_onboardingCompletedAt :: "int option"
  su_posPinSet :: bool

definition sanitizeUser :: "user_row \<Rightarrow> safe_user" where
  "sanitizeUser u = \<lparr>su_id = usr_id u, su_email = usr_email u, su_role = usr_role u,
     su_organizationId = usr_organizationId u,
     su_onboardingCompletedAt = usr_onboardingCompletedAt u,
     su_posPinSet = truthy (usr_posPinHash u)\<rparr>"

definition createTeamMember :: "uuid \<Rightarrow> string \<Rightarrow> new_user \<Rightarrow> safe_user handler" where
  "createTeamMember organizationId passwordHash dto =
     bindM (readDb (\<lambda>d. findOneByEmail d (nu_email dto))) (\<lambda>existing.
       thenM (throw_if (existing \<noteq> None) (ConflictException ''Email address is already in use.''))
      (bindM (create passwordHash (dto\<lparr>nu_organizationId := Some organizationId\<rparr>)) (\<lambda>user.
         returnM (sanitizeUser user))))"

definition createUserGlobal :: "string \<Rightarrow> new_user \<Rightarrow> safe_user handler" where
  "createUserGlobal passwordHash dto =
     bindM (readDb (\<lambda>d. findOneByEmail d (nu_email dto))) (\<lambda>existing.
       thenM (throw_if (existing \<noteq> None) (ConflictException ''Email address is already in use.''))
      (bindM (create passwordHash (dto\<lparr>
           nu_firstName := or_null (nu_firstName dto), nu_lastName := or_null (nu_lastName dto),
           nu_phoneNumber := or_null (nu_phoneNumber dto),
           nu_companyName := or_null (nu_companyName dto)\<rparr>)) (\<lambda>user.
         returnM (sanitizeUser user))))"

text \<open>A partial update: absent fields keep the column.\<close>

record user_patch =
  up_firstName :: "string option"
  up_lastName :: "string option"
  up_role :: "string option"
  up_email :: "string option"
  up_phoneNumber :: "string option"
  up_companyName :: "string option"
  up_organizationId :: "uuid option"
  up_passwordHash :: "string option"

definition set_opt :: "'a option \<Rightarrow> 'a option \<Rightarrow> 'a option" where
  "set_opt new old = (case new of None \<Rightarrow> old | Some x \<Rightarrow> Some x)"

definition patchUser :: "user_patch \<Rightarrow> int \<Rightarrow> user_row \<Rightarrow> user_row" where
  "patchUser p now u = u\<lparr>
     usr_firstName := set_opt (up_firstName p) (usr_firstName u),
     usr_lastName := set_opt (up_lastName p) (usr_lastName u),
     usr_role := nvl (up_role p) (usr_role u),
     usr_email := (case up_email p of None \<Rightarrow> usr_email u | Some e \<Rightarrow> normalizeEmail e),
     usr_phoneNumber := set_opt (up_phoneNumber p) (usr_phoneNumber u),
     usr_companyName := set_opt (up_companyName p) (usr_companyName u),
     usr_organizationId := set_opt (up_organizationId p) (usr_organizationId u),
     usr_passwordHash := nvl (up_passwordHash p) (usr_passwordHash u),
     usr_updatedAt := now\<rparr>"

definition emailTaken :: "db \<Rightarrow> user_patch \<Rightarrow> user_row \<Rightarrow> bool" where
  "emailTaken d p user \<longleftrightarrow>
     (case up_email p of
        None \<Rightarrow> False
      | Some e \<Rightarrow> e \<noteq> [] \<and> js_lower e \<noteq> js_lower (usr_email user) \<and> findOneByEmail d e \<noteq> None)"

text \<open>The \<open>UPDATE users ... RETURNING\<close> every editing operation ends with.\<close>

definition writeUser :: "uuid \<Rightarrow> user_patch \<Rightarrow> user_row handler" where
  "writeUser uid p = bindM (getsM w_now) (\<lambda>now. bindM (readDb t_users) (\<lambda>us.
     thenM (throw_if (case up_email p of None \<Rightarrow> False
              | Some e \<Rightarrow> list_ex (\<lambda>v. usr_id v \<noteq> uid \<and> usr_email v = normalizeEmail e) us)
            (UniqueViolation ''users_email_unique''))
    (thenM (writeDb (\<lambda>d. d\<lparr>t_users := update_where (\<lambda>u. usr_id u = uid) (patchUser p now) (t_users d)\<rparr>))
    (bindM (readDb (\<lambda>d. first_row (\<lambda>u. usr_id u = uid) (t_users d))) (\<lambda>r.
       orThrow r (GenericError ''no row returned''))))))"

definition verifyUserOrgOwnership :: "uuid \<Rightarrow> uuid \<Rightarrow> user_row handler" where
  "verifyUserOrgOwnership uid organizationId =
     bindM (readDb (\<lambda>d. findOneById d uid)) (\<lambda>u.
     bindM (orThrow u (NotFoundException (''User '' @ uid @ '' not found.''))) (\<lambda>user.
     thenM (throw_if (usr_organizationId user \<noteq> Some organizationId)
             (ForbiddenException ''You do not have access to this user.''))
     (returnM user)))"

definition updateUserGlobal :: "uuid \<Rightarrow> user_patch \<Rightarrow> safe_user handler" where
  "updateUserGlobal uid dto =
     bindM (readDb (\<lambda>d. findOneById d uid)) (\<lambda>u.
     bindM (orThrow u (NotFoundException (''User '' @ uid @ '' not found.''))) (\<lambda>user.
     bindM (readDb (\<lambda>d. emailTaken d dto user)) (\<lambda>taken.
     thenM (throw_if taken (ConflictException ''Email address is already in use.''))
    (bindM (writeUser uid dto) (\<lambda>updated.
     thenM (emitM (Audit ''user.update'' (Some (usr_id updated)) (usr_organizationId updated) (usr_id updated)
              (JObj [(''role'', JStr (usr_role updated)), (''email'', JStr (usr_email updated))])))
     (returnM (sanitizeUser updated)))))))"

definition softDelete :: "uuid \<Rightarrow> unit handler" where
  "softDelete uid = bindM (getsM w_now) (\<lambda>now.
     writeDb (\<lambda>d. d\<lparr>t_users := update_where (\<lambda>u. usr_id u = uid)
       (\<lambda>u. u\<lparr>usr_deletedAt := Some now, usr_updatedAt := now\<rparr>) (t_users d)\<rparr>))"

definition deleteUserGlobal :: "uuid \<Rightarrow> unit handler" where
  "deleteUserGlobal uid =
     bindM (readDb (\<lambda>d. findOneById d uid)) (\<lambda>u.
     bindM (orThrow u (NotFoundException (''User '' @ uid @ '' not found.''))) (\<lambda>user.
     thenM (softDelete uid)
     (emitM (Audit ''user.delete'' (Some (usr_id user)) (usr_organizationId user) (usr_id user) JNull))))"

definition updateUser :: "uuid \<Rightarrow> uuid \<Rightarrow> user_patch \<Rightarrow> safe_user handler" where
  "updateUser uid organizationId dto =
     bindM (verifyUserOrgOwnership uid organizationId) (\<lambda>user.
     bindM (readDb (\<lambda>d. emailTaken d dto user)) (\<lambda>taken.
     thenM (throw_if taken (ConflictException ''Email address is already in use by another user.''))
    (bindM (writeUser uid (dto\<lparr>up_organizationId := None, up_passwordHash := None\<rparr>)) (\<lambda>updated.
     returnM (sanitizeUser updated)))))"

definition forceLogout :: "uuid \<Rightarrow> uuid \<Rightarrow> unit handler" where
  "forceLogout uid organizationId =
     bindM (verifyUserOrgOwnership uid organizationId) (\<lambda>_.
     thenM (writeDb (\<lambda>d. d\<lparr>t_refreshTokens := filter (\<lambda>t. rt_userId t \<noteq> uid) (t_refreshTokens d)\<rparr>))
     (emitM (Audit ''user.force_logout'' (Some uid) (Some organizationId) uid JNull)))"

definition deleteUser :: "uuid \<Rightarrow> uuid \<Rightarrow> unit handler" where
  "deleteUser uid organizationId =
     bindM (verifyUserOrgOwnership uid organizationId) (\<lambda>_.
     thenM (softDelete uid)
    (thenM (forceLogout uid organizationId)
     (emitM (Audit ''user.delete'' (Some uid) (Some organizationId) uid JNull))))"

definition forceLogoutGlobal :: "uuid \<Rightarrow> unit handler" where
  "forceLogoutGlobal uid =
     bindM (readDb (\<lambda>d. findOneById d uid)) (\<lambda>u.
     bindM (orThrow u (NotFoundException (''User '' @ uid @ '' not found.''))) (\<lambda>user.
     thenM (writeDb (\<lambda>d. d\<lparr>t_refreshTokens := filter (\<lambda>t. rt_userId t \<noteq> uid) (t_refreshTokens d)\<rparr>))
     (emitM (Audit ''user.force_logout'' (Some uid) (usr_organizationId user) uid JNull))))"

definition updateMe :: "uuid \<Rightarrow> user_patch \<Rightarrow> safe_user handler" where
  "updateMe uid dto =
     bindM (readDb (\<lambda>d. findOneById d uid)) (\<lambda>u.
     bindM (orThrow u (NotFoundException ''User not found.'')) (\<lambda>user.
     bindM (readDb (\<lambda>d. emailTaken d dto user)) (\<lambda>taken.
     thenM (throw_if taken (ConflictException ''Email address is already in use.''))
    (bindM (writeUser uid (dto\<lparr>up_role := None, up_organizationId := None, up_passwordHash := None\<rparr>))
      (\<lambda>updated. returnM (sanitizeUser updated))))))"

definition completeOnboarding :: "uuid \<Rightarrow> string handler" where
  "completeOnboarding uid =
     bindM (readDb (\<lambda>d. findOneById d uid)) (\<lambda>u.
     bindM (orThrow u (NotFoundException ''User not found.'')) (\<lambda>user.
     bindM (getsM w_now) (\<lambda>now.
     thenM (whenM (usr_onboardingCompletedAt user = None)
       (writeDb (\<lambda>d. d\<lparr>t_users := update_where (\<lambda>v. usr_id v = uid)
          (\<lambda>v. v\<lparr>usr_onboardingCompletedAt := Some now, usr_updatedAt := now\<rparr>) (t_users d)\<rparr>)))
     (returnM ''Onboarding completed.''))))"

definition changeMyPassword :: "pin_compare \<Rightarrow> uuid \<Rightarrow> string \<Rightarrow> string \<Rightarrow> string handler" where
  "changeMyPassword cmp uid currentPassword newHash =
     bindM (readDb (\<lambda>d. findOneById d uid)) (\<lambda>u.
     bindM (orThrow u (NotFoundException ''User not found.'')) (\<lambda>user.
     thenM (throw_if (\<not> cmp currentPassword (usr_passwordHash user))
             (UnauthorizedException ''Current password is incorrect.''))
    (bindM (getsM w_now) (\<lambda>now.
     thenM (writeDb (\<lambda>d. d\<lparr>t_users := update_where (\<lambda>v. usr_id v = uid)
          (\<lambda>v. v\<lparr>usr_passwordHash := newHash, usr_updatedAt := now\<rparr>) (t_users d)\<rparr>))
     (returnM ''Password updated successfully.'')))))"

definition deleteMe :: "uuid \<Rightarrow> unit handler" where
  "deleteMe uid =
     bindM (readDb (\<lambda>d. findOneById d uid)) (\<lambda>u.
     thenM (throw_if (u = None) (NotFoundException ''User not found.''))
     (softDelete uid))"

section \<open>The POS manager PIN\<close>

definition POS_PIN_ROLES :: "string list" where
  "POS_PIN_ROLES = [''manager'', ''admin'', ''sysadmin'', ''platform_admin'']"

definition POS_PIN_MAX_ATTEMPTS :: int where
  "POS_PIN_MAX_ATTEMPTS = 5"

definition POS_PIN_LOCKOUT_MINUTES :: int where
  "POS_PIN_LOCKOUT_MINUTES = 15"

text \<open>The rows both modes of the check select: live managers of the organization with a PIN.\<close>

definition pinManager :: "uuid \<Rightarrow> user_row \<Rightarrow> bool" where
  "pinManager organizationId u \<longleftrightarrow> usr_organizationId u = Some organizationId \<and>
     usr_posPinHash u \<noteq> None \<and> usr_role u \<in> set POS_PIN_ROLES \<and> usr_deletedAt u = None"

definition pinLocked :: "int \<Rightarrow> user_row \<Rightarrow> bool" where
  "pinLocked now u \<longleftrightarrow> (case usr_posPinLockedUntil u of None \<Rightarrow> False | Some t \<Rightarrow> now < t)"

definition setPosPin :: "pin_compare \<Rightarrow> string \<Rightarrow> uuid \<Rightarrow> string \<Rightarrow> unit handler" where
  "setPosPin cmp pinHash userId pin =
     bindM (readDb (\<lambda>d. first_row (\<lambda>u. usr_id u = userId) (t_users d))) (\<lambda>t.
     bindM (orThrow t (NotFoundException (''User '' @ userId @ '' not found''))) (\<lambda>target.
     bindM (readDb (\<lambda>d. filter (\<lambda>u. usr_organizationId u = usr_organizationId target \<and>
              usr_posPinHash u \<noteq> None \<and> usr_deletedAt u = None) (t_users d))) (\<lambda>peers.
     thenM (throw_if (truthy (usr_organizationId target) \<and>
              list_ex (\<lambda>peer. usr_id peer \<noteq> userId \<and> truthy (usr_posPinHash peer) \<and>
                              cmp pin (the (usr_posPinHash peer))) peers)
             (ConflictException
               ''That PIN is already in use by another employee. Choose a different one.''))
    (bindM (getsM w_now) (\<lambda>now.
     writeDb (\<lambda>d. d\<lparr>t_users := update_where (\<lambda>u. usr_id u = userId)
        (\<lambda>u. u\<lparr>usr_posPinHash := Some pinHash, usr_posPinFailedAttempts := 0,
               usr_posPinLockedUntil := None, usr_updatedAt := now\<rparr>) (t_users d)\<rparr>))))))"

definition recordPinFailure :: "uuid \<Rightarrow> uuid option \<Rightarrow> string \<Rightarrow> unit handler" where
  "recordPinFailure organizationId userId reason =
     emitM (Audit ''pos.pin.verify_failed'' userId (Some organizationId) (nvl userId ''unknown'')
       (JObj [(''reason'', JStr reason)]))"

definition registerFailedPinAttempt :: "uuid \<Rightarrow> unit handler" where
  "registerFailedPinAttempt userId = bindM (getsM w_now) (\<lambda>now.
     writeDb (\<lambda>d. d\<lparr>t_users := update_where (\<lambda>u. usr_id u = userId)
       (\<lambda>u. u\<lparr>usr_posPinFailedAttempts := usr_posPinFailedAttempts u + 1,
              usr_posPinLockedUntil :=
                (if POS_PIN_MAX_ATTEMPTS \<le> usr_posPinFailedAttempts u + 1
                 then Some (now + POS_PIN_LOCKOUT_MINUTES * 60000)
                 else usr_posPinLockedUntil u)\<rparr>) (t_users d)\<rparr>))"

definition clearPinFailures :: "uuid \<Rightarrow> unit handler" where
  "clearPinFailures userId = writeDb (\<lambda>d. d\<lparr>t_users := update_where (\<lambda>u. usr_id u = userId)
     (\<lambda>u. u\<lparr>usr_posPinFailedAttempts := 0, usr_posPinLockedUntil := None\<rparr>) (t_users d)\<rparr>)"

text \<open>The mode that checks one user's PIN.\<close>

definition verifyActingPin :: "pin_compare \<Rightarrow> uuid \<Rightarrow> string \<Rightarrow> uuid \<Rightarrow> user_row option handler" where
  "verifyActingPin cmp organizationId pin actingUserId =
     bindM (readDb (\<lambda>d. first_row (\<lambda>u. usr_id u = actingUserId \<and> pinManager organizationId u) (t_users d)))
     (\<lambda>found. bindM (getsM w_now) (\<lambda>now.
       case found of
         None \<Rightarrow> thenM (recordPinFailure organizationId (Some actingUserId) ''unknown_user'') (returnM None)
       | Some user \<Rightarrow>
           if \<not> truthy (usr_posPinHash user)
           then thenM (recordPinFailure organizationId (Some actingUserId) ''unknown_user'') (returnM None)
           else if pinLocked now user
           then thenM (recordPinFailure organizationId (Some (usr_id user)) ''locked_out'') (returnM None)
           else if cmp pin (the (usr_posPinHash user))
           then thenM (whenM (0 < usr_posPinFailedAttempts user \<or> usr_posPinLockedUntil user \<noteq> None)
                        (clearPinFailures (usr_id user)))
                (returnM (Some user))
           else thenM (registerFailedPinAttempt (usr_id user))
               (thenM (recordPinFailure organizationId (Some (usr_id user)) ''wrong_pin'')
                (returnM None))))"

text \<open>The mode that tries every manager of the organization: the first match wins.\<close>

definition pinMatches :: "pin_compare \<Rightarrow> int \<Rightarrow> string \<Rightarrow> user_row \<Rightarrow> bool" where
  "pinMatches cmp now pin m \<longleftrightarrow>
     truthy (usr_posPinHash m) \<and> \<not> pinLocked now m \<and> cmp pin (the (usr_posPinHash m))"

definition verifyOrgPin :: "pin_compare \<Rightarrow> uuid \<Rightarrow> string \<Rightarrow> user_row option handler" where
  "verifyOrgPin cmp organizationId pin =
     bindM (readDb (\<lambda>d. filter (pinManager organizationId) (t_users d))) (\<lambda>managers.
     bindM (getsM w_now) (\<lambda>now.
       case first_row (pinMatches cmp now pin) managers of
         Some manager \<Rightarrow>
           thenM (whenM (0 < usr_posPinFailedAttempts manager) (clearPinFailures (usr_id manager)))
                 (returnM (Some manager))
       | None \<Rightarrow>
           thenM (recordPinFailure organizationId None ''wrong_pin_org_wide'') (returnM None)))"

definition verifyManagerPin ::
  "pin_compare \<Rightarrow> uuid \<Rightarrow> string \<Rightarrow> uuid option \<Rightarrow> user_row option handler" where
  "verifyManagerPin cmp organizationId pin actingUserId =
     (if truthy actingUserId then verifyActingPin cmp organizationId pin (the actingUserId)
      else verifyOrgPin cmp organizationId pin)"

section \<open>The time clock\<close>

text \<open>\<open>ORDER BY clock_in_at DESC LIMIT 1\<close> of the open entries: the latest one, the first of equals.\<close>

definition latest_clock :: "time_clock_row list \<Rightarrow> time_clock_row option" where
  "latest_clock rs = foldl (\<lambda>best r. case best of None \<Rightarrow> Some r
     | Some b \<Rightarrow> if tc_clockInAt b < tc_clockInAt r then Some r else Some b) None rs"

definition getOpenClockEntry :: "db \<Rightarrow> uuid \<Rightarrow> uuid \<Rightarrow> time_clock_row option" where
  "getOpenClockEntry d organizationId userId =
     latest_clock (filter (\<lambda>e. tc_organizationId e = organizationId \<and> tc_userId e = userId \<and>
       tc_clockOutAt e = None) (t_timeClockEntries d))"

definition clockIn :: "uuid \<Rightarrow> uuid \<Rightarrow> uuid option \<Rightarrow> time_clock_row handler" where
  "clockIn organizationId userId locationId =
     bindM (readDb (\<lambda>d. getOpenClockEntry d organizationId userId)) (\<lambda>open'.
       case open' of
         Some e \<Rightarrow> returnM e
       | None \<Rightarrow> bindM freshId (\<lambda>eid. bindM (getsM w_now) (\<lambda>now.
           let e = \<lparr>tc_id = eid, tc_organizationId = organizationId, tc_userId = userId,
                    tc_locationId = locationId, tc_clockInAt = now, tc_clockOutAt = None\<rparr>
           in thenM (writeDb (\<lambda>d. d\<lparr>t_timeClockEntries := t_timeClockEntries d @ [e]\<rparr>))
                    (returnM e))))"

definition clockOut :: "uuid \<Rightarrow> uuid \<Rightarrow> time_clock_row handler" where
  "clockOut organizationId userId =
     bindM (readDb (\<lambda>d. getOpenClockEntry d organizationId userId)) (\<lambda>o'.
     bindM (orThrow o' (ConflictException ''No open shift to clock out of.'')) (\<lambda>e.
     bindM (getsM w_now) (\<lambda>now.
     thenM (writeDb (\<lambda>d. d\<lparr>t_timeClockEntries := update_where (\<lambda>r. tc_id r = tc_id e)
              (\<lambda>r. r\<lparr>tc_clockOutAt := Some now\<rparr>) (t_timeClockEntries d)\<rparr>))
     (returnM (e\<lparr>tc_clockOutAt := Some now\<rparr>)))))"

section \<open>Frames\<close>

lemma preserves_pin_writes [frame]:
  "preserves ledger (recordPinFailure g u r)"
  "preserves ledger (registerFailedPinAttempt uid)"
  "preserves ledger (clearPinFailures uid)"
  unfolding recordPinFailure_def registerFailedPinAttempt_def clearPinFailures_def
  by (auto intro!: frame preserves_writeDb simp: ledger_def)

lemma preserves_verifyManagerPin [frame]: "preserves ledger (verifyManagerPin cmp g pin a)"
  unfolding verifyManagerPin_def verifyActingPin_def verifyOrgPin_def
  by (auto intro!: frame split: option.split)

lemma verifyManagerPin_answers: "\<exists>r w'. verifyManagerPin cmp g pin a w = (Inr r, w')"
  unfolding verifyManagerPin_def verifyActingPin_def verifyOrgPin_def recordPinFailure_def
    registerFailedPinAttempt_def clearPinFailures_def
  by (auto simp: whenM_def bindM_def thenM_def split: option.split)

lemma verifyManagerPin_ids:
  "verifyManagerPin cmp g pin a w = (Inr r, w') \<Longrightarrow>
   map usr_id (t_users (w_db w')) = map usr_id (t_users (w_db w))"
  unfolding verifyManagerPin_def verifyActingPin_def verifyOrgPin_def recordPinFailure_def
    registerFailedPinAttempt_def clearPinFailures_def
  by (auto simp: whenM_def bindM_def thenM_def map_update_where split: option.splits if_splits)

section \<open>What a verified PIN means\<close>

lemma verifyManagerPin_SomeD:
  assumes "verifyManagerPin cmp g pin a w = (Inr (Some u), w')"
  shows "u \<in> set (t_users (w_db w)) \<and> pinManager g u \<and> pinMatches cmp (w_now w) pin u \<and>
         (truthy a \<longrightarrow> Some (usr_id u) = a)"
proof (cases "truthy a")
  case True
  then have "verifyActingPin cmp g pin (the a) w = (Inr (Some u), w')"
    using assms by (simp add: verifyManagerPin_def)
  then have "first_row (\<lambda>u. usr_id u = the a \<and> pinManager g u) (t_users (w_db w)) = Some u \<and>
      pinMatches cmp (w_now w) pin u"
    by (auto simp: verifyActingPin_def pinMatches_def recordPinFailure_def registerFailedPinAttempt_def
        bindM_def thenM_def split: option.splits if_splits prod.splits sum.splits)
  with True show ?thesis
    by (auto dest!: first_row_SomeD simp: truthy_def split: option.splits)
next
  case False
  then have "verifyOrgPin cmp g pin w = (Inr (Some u), w')"
    using assms by (simp add: verifyManagerPin_def)
  then have "first_row (pinMatches cmp (w_now w) pin) (filter (pinManager g) (t_users (w_db w))) = Some u"
    by (auto simp: verifyOrgPin_def recordPinFailure_def bindM_def thenM_def
        split: option.splits prod.splits sum.splits)
  with False show ?thesis
    by (auto dest!: first_row_SomeD)
qed

interpretation pin_gate: manager_gate "\<lambda>g pin. verifyManagerPin cmp g pin None"
proof
  show "verifyManagerPin cmp g pin None w = (Inr (Some m), w') \<Longrightarrow>
      m \<in> set (t_users (w_db w)) \<and> usr_organizationId m = Some g" for g pin w m w'
    by (drule verifyManagerPin_SomeD) (auto simp: pinManager_def)
qed (use verifyManagerPin_answers verifyManagerPin_ids in \<open>auto intro: frame\<close>)

text \<open>
  C14. A PIN that verifies names a live user of the organization with a PIN-capable role, whose
  stored PIN matches and whose PIN is not locked at that moment; when the check is for one acting
  user, it is that user.
\<close>

theorem verifyManagerPin_sound:
  assumes "verifyManagerPin cmp g pin a w = (Inr (Some u), w')"
  shows "u \<in> set (t_users (w_db w)) \<and> usr_organizationId u = Some g \<and> usr_deletedAt u = None \<and>
    usr_role u \<in> set POS_PIN_ROLES \<and> cmp pin (the (usr_posPinHash u)) \<and>
    \<not> pinLocked (w_now w) u \<and> (truthy a \<longrightarrow> a = Some (usr_id u))"
  using verifyManagerPin_SomeD[OF assms] by (auto simp: pinManager_def pinMatches_def)

section \<open>The lockout\<close>

text \<open>The row an acting check looks at.\<close>

definition pinRow :: "world \<Rightarrow> uuid \<Rightarrow> uuid \<Rightarrow> user_row option" where
  "pinRow w g uid = first_row (\<lambda>u. usr_id u = uid \<and> pinManager g u) (t_users (w_db w))"

definition failOnce :: "int \<Rightarrow> user_row \<Rightarrow> user_row" where
  "failOnce now u = u\<lparr>usr_posPinFailedAttempts := usr_posPinFailedAttempts u + 1,
     usr_posPinLockedUntil := (if POS_PIN_MAX_ATTEMPTS \<le> usr_posPinFailedAttempts u + 1
        then Some (now + POS_PIN_LOCKOUT_MINUTES * 60000) else usr_posPinLockedUntil u)\<rparr>"

lemma pinManager_failOnce [simp]: "pinManager g (failOnce now u) = pinManager g u"
  by (simp add: pinManager_def failOnce_def)

lemma failOnce_fields [simp]:
  "usr_id (failOnce now u) = usr_id u" "usr_posPinHash (failOnce now u) = usr_posPinHash u"
  "usr_posPinFailedAttempts (failOnce now u) = usr_posPinFailedAttempts u + 1"
  by (simp_all add: failOnce_def)

lemma wrong_pin_step:
  assumes "pinRow w g uid = Some u" and "uid \<noteq> []" and "truthy (usr_posPinHash u)"
    and "\<not> pinLocked (w_now w) u" and "\<not> cmp pin (the (usr_posPinHash u))"
  shows "\<exists>w'. verifyManagerPin cmp g pin (Some uid) w = (Inr None, w') \<and> w_now w' = w_now w \<and>
    t_users (w_db w') = update_where (\<lambda>v. usr_id v = uid) (failOnce (w_now w)) (t_users (w_db w)) \<and>
    pinRow w' g uid = Some (failOnce (w_now w) u)"
proof -
  from assms(1) have id: "usr_id u = uid"
    by (auto simp: pinRow_def dest: first_row_SomeD)
  have f: "failOnce now = (\<lambda>u. u\<lparr>usr_posPinFailedAttempts := usr_posPinFailedAttempts u + 1,
     usr_posPinLockedUntil := (if POS_PIN_MAX_ATTEMPTS \<le> usr_posPinFailedAttempts u + 1
        then Some (now + POS_PIN_LOCKOUT_MINUTES * 60000) else usr_posPinLockedUntil u)\<rparr>)" for now
    by (rule ext) (simp add: failOnce_def)
  have run: "verifyManagerPin cmp g pin (Some uid) w = (Inr None, snd (verifyManagerPin cmp g pin (Some uid) w)) \<and>
     w_now (snd (verifyManagerPin cmp g pin (Some uid) w)) = w_now w \<and>
     t_users (w_db (snd (verifyManagerPin cmp g pin (Some uid) w))) =
       update_where (\<lambda>v. usr_id v = uid) (failOnce (w_now w)) (t_users (w_db w))"
    using assms id
    by (simp add: verifyManagerPin_def verifyActingPin_def pinRow_def f
        registerFailedPinAttempt_def recordPinFailure_def thenM_def bindM_def)
  let ?w = "snd (verifyManagerPin cmp g pin (Some uid) w)"
  have "pinRow ?w g uid = map_option (\<lambda>v. if usr_id v = uid then failOnce (w_now w) v else v) (pinRow w g uid)"
    unfolding pinRow_def using run by (simp add: first_row_update_where)
  then have "pinRow ?w g uid = Some (failOnce (w_now w) u)"
    using assms(1) id by simp
  with run show ?thesis by blast
qed

text \<open>Entering a list of PINs for one acting user.\<close>

definition enterPins :: "pin_compare \<Rightarrow> uuid \<Rightarrow> uuid \<Rightarrow> string list \<Rightarrow> unit handler" where
  "enterPins cmp g uid pins = forM pins (\<lambda>p. bindM (verifyManagerPin cmp g p (Some uid)) (\<lambda>_. returnM ()))"

lemma wrong_pins_run:
  assumes "pinRow w g uid = Some u" and "uid \<noteq> []" and "truthy (usr_posPinHash u)"
    and "list_all (\<lambda>p. \<not> cmp p (the (usr_posPinHash u))) pins"
    and "\<not> pinLocked (w_now w) u" and "pins \<noteq> []"
    and "usr_posPinFailedAttempts u + int (length pins) = POS_PIN_MAX_ATTEMPTS"
  shows "\<exists>w' u'. enterPins cmp g uid pins w = (Inr (), w') \<and> w_now w' = w_now w \<and>
    map usr_id (t_users (w_db w')) = map usr_id (t_users (w_db w)) \<and>
    pinRow w' g uid = Some u' \<and> usr_posPinHash u' = usr_posPinHash u \<and>
    usr_posPinLockedUntil u' = Some (w_now w + POS_PIN_LOCKOUT_MINUTES * 60000)"
  using assms
proof (induction pins arbitrary: w u)
  case (Cons p pins)
  from Cons.prems obtain w1 where w1: "verifyManagerPin cmp g p (Some uid) w = (Inr None, w1)"
    "w_now w1 = w_now w" "pinRow w1 g uid = Some (failOnce (w_now w) u)"
    "t_users (w_db w1) = update_where (\<lambda>v. usr_id v = uid) (failOnce (w_now w)) (t_users (w_db w))"
    using wrong_pin_step[of w g uid u cmp p] by auto
  have ids: "map usr_id (t_users (w_db w1)) = map usr_id (t_users (w_db w))"
    unfolding w1(4) by (rule map_update_where) simp
  have step: "enterPins cmp g uid (p # pins) w = enterPins cmp g uid pins w1"
    using w1(1) by (simp add: enterPins_def thenM_def bindM_def)
  show ?case
  proof (cases "pins = []")
    case True
    with Cons.prems(7) have "usr_posPinFailedAttempts u + 1 = POS_PIN_MAX_ATTEMPTS" by simp
    then have "usr_posPinLockedUntil (failOnce (w_now w) u) = Some (w_now w + POS_PIN_LOCKOUT_MINUTES * 60000)"
      by (simp add: failOnce_def)
    with True w1 ids step show ?thesis by (auto simp: enterPins_def)
  next
    case False
    then have "0 < int (length pins)" by simp
    with Cons.prems(7) have "usr_posPinFailedAttempts u + 1 < POS_PIN_MAX_ATTEMPTS"
      unfolding length_Cons of_nat_Suc by linarith
    then have unlocked: "\<not> pinLocked (w_now w1) (failOnce (w_now w) u)"
      using Cons.prems(5) w1(2) by (simp add: pinLocked_def failOnce_def)
    have "\<exists>w' u'. enterPins cmp g uid pins w1 = (Inr (), w') \<and> w_now w' = w_now w1 \<and>
        map usr_id (t_users (w_db w')) = map usr_id (t_users (w_db w1)) \<and>
        pinRow w' g uid = Some u' \<and> usr_posPinHash u' = usr_posPinHash (failOnce (w_now w) u) \<and>
        usr_posPinLockedUntil u' = Some (w_now w1 + POS_PIN_LOCKOUT_MINUTES * 60000)"
      by (rule Cons.IH[OF w1(3)]) (use Cons.prems unlocked False in auto)
    with w1(2) ids step show ?thesis by auto
  qed
qed simp

text \<open>
  Five wrong PINs lock: after them, until fifteen minutes have passed, no PIN verifies for
  that user, neither when the check names the user nor in the organization-wide mode.
\<close>

theorem five_wrong_pins_lock:
  assumes "pinRow w g uid = Some u" and "uid \<noteq> []" and "distinct (map usr_id (t_users (w_db w)))"
    and "truthy (usr_posPinHash u)" and "usr_posPinFailedAttempts u = 0"
    and "usr_posPinLockedUntil u = None" and "length pins = 5"
    and "list_all (\<lambda>p. \<not> cmp p (the (usr_posPinHash u))) pins"
    and "enterPins cmp g uid pins w = (r, w1)" and "w_db w2 = w_db w1"
    and "w_now w2 < w_now w + 15 * 60000"
    and "verifyManagerPin cmp g pin a w2 = (Inr (Some m), w3)"
  shows "usr_id m \<noteq> uid"
proof -
  have "\<exists>w' u'. enterPins cmp g uid pins w = (Inr (), w') \<and> w_now w' = w_now w \<and>
    map usr_id (t_users (w_db w')) = map usr_id (t_users (w_db w)) \<and>
    pinRow w' g uid = Some u' \<and> usr_posPinHash u' = usr_posPinHash u \<and>
    usr_posPinLockedUntil u' = Some (w_now w + POS_PIN_LOCKOUT_MINUTES * 60000)"
    using assms by (intro wrong_pins_run) (auto simp: POS_PIN_MAX_ATTEMPTS_def pinLocked_def)
  then obtain u' where u': "pinRow w1 g uid = Some u'"
    "usr_posPinLockedUntil u' = Some (w_now w + POS_PIN_LOCKOUT_MINUTES * 60000)"
    and ids: "map usr_id (t_users (w_db w1)) = map usr_id (t_users (w_db w))"
    using assms(9) by auto
  from u'(1) have row: "u' \<in> set (t_users (w_db w2))" "usr_id u' = uid"
    using assms(10) by (auto simp: pinRow_def dest: first_row_SomeD)
  from verifyManagerPin_SomeD[OF assms(12)]
  have m: "m \<in> set (t_users (w_db w2))" "\<not> pinLocked (w_now w2) m"
    by (auto simp: pinMatches_def)
  have "distinct (map usr_id (t_users (w_db w2)))"
    using assms(3,10) ids by simp
  then have "usr_id m = uid \<Longrightarrow> m = u'"
    using row m(1) by (metis distinct_map inj_onD)
  moreover have "m \<noteq> u'"
    using m(2) u'(2) assms(11) by (auto simp: pinLocked_def POS_PIN_LOCKOUT_MINUTES_def)
  ultimately show ?thesis by blast
qed

text \<open>
  A PIN names one employee: once it is set for a user, an organization-wide check with that
  PIN can only be answered with that user.
\<close>

theorem setPosPin_names_one:
  assumes "setPosPin cmp h uid pin w = (Inr (), w1)"
    and "first_row (\<lambda>u. usr_id u = uid) (t_users (w_db w)) = Some t"
    and "usr_organizationId t = Some g" and "g \<noteq> []"
    and "w_db w2 = w_db w1" and "verifyManagerPin cmp g pin None w2 = (Inr (Some m), w3)"
  shows "usr_id m = uid"
proof (rule ccontr)
  assume other: "usr_id m \<noteq> uid"
  from assms(1-4) have users: "t_users (w_db w1) = update_where (\<lambda>u. usr_id u = uid)
        (\<lambda>u. u\<lparr>usr_posPinHash := Some h, usr_posPinFailedAttempts := 0,
               usr_posPinLockedUntil := None, usr_updatedAt := w_now w\<rparr>) (t_users (w_db w))"
    and nodup: "\<not> list_ex (\<lambda>peer. usr_id peer \<noteq> uid \<and> truthy (usr_posPinHash peer) \<and>
        cmp pin (the (usr_posPinHash peer)))
        (filter (\<lambda>u. usr_organizationId u = Some g \<and> usr_posPinHash u \<noteq> None \<and> usr_deletedAt u = None)
          (t_users (w_db w)))"
    by (auto simp: setPosPin_def prog_step split: if_splits)
  from verifyManagerPin_SomeD[OF assms(6)] have m: "m \<in> set (t_users (w_db w1))"
    "pinManager g m" "pinMatches cmp (w_now w2) pin m"
    using assms(5) by auto
  from m(1) other have "m \<in> set (t_users (w_db w))"
    unfolding users by (auto simp: set_update_where split: if_splits)
  with m(2,3) other nodup show False
    by (auto simp: pinManager_def pinMatches_def list_ex_iff)
qed

section \<open>The time clock\<close>

lemma latest_clock_in: "latest_clock rs = Some e \<Longrightarrow> e \<in> set rs"
proof -
  have "foldl (\<lambda>best r. case best of None \<Rightarrow> Some r
     | Some b \<Rightarrow> if tc_clockInAt b < tc_clockInAt r then Some r else Some b) acc rs = Some e \<Longrightarrow>
     e \<in> set rs \<or> acc = Some e" for acc
    by (induction rs arbitrary: acc) (fastforce split: option.splits if_splits)+
  then show "latest_clock rs = Some e \<Longrightarrow> e \<in> set rs"
    unfolding latest_clock_def by blast
qed

lemma latest_clock_Cons: "latest_clock (r # rs) \<noteq> None"
proof -
  have "foldl (\<lambda>best r. case best of None \<Rightarrow> Some r
     | Some b \<Rightarrow> if tc_clockInAt b < tc_clockInAt r then Some r else Some b) (Some x) rs \<noteq> None" for x
    by (induction rs arbitrary: x) auto
  then show ?thesis by (simp add: latest_clock_def)
qed

definition openShifts :: "db \<Rightarrow> uuid \<Rightarrow> uuid \<Rightarrow> time_clock_row list" where
  "openShifts d g uid = filter (\<lambda>e. tc_organizationId e = g \<and> tc_userId e = uid \<and>
     tc_clockOutAt e = None) (t_timeClockEntries d)"

lemma getOpenClockEntry_None: "getOpenClockEntry d g uid = None \<longleftrightarrow> openShifts d g uid = []"
proof -
  have "getOpenClockEntry d g uid = latest_clock (openShifts d g uid)"
    by (simp add: getOpenClockEntry_def openShifts_def)
  then show ?thesis
    by (cases "openShifts d g uid") (simp add: latest_clock_def, simp add: latest_clock_Cons)
qed

text \<open>
  Clocking in keeps at most one open shift: starting with at most one, there is exactly one
  open shift of the user afterwards, and it is the entry returned.
\<close>

theorem clockIn_one_open:
  assumes "length (openShifts (w_db w) g uid) \<le> 1" and "clockIn g uid loc w = (Inr e, w')"
  shows "openShifts (w_db w') g uid = [e]"
proof (cases "getOpenClockEntry (w_db w) g uid")
  case None
  with assms(2) getOpenClockEntry_None[of "w_db w" g uid] show ?thesis
    by (auto simp: clockIn_def openShifts_def Let_def)
next
  case (Some e')
  then have "e' \<in> set (openShifts (w_db w) g uid)"
    unfolding getOpenClockEntry_def openShifts_def by (rule latest_clock_in)
  with assms Some show ?thesis
    by (cases "openShifts (w_db w) g uid") (auto simp: clockIn_def)
qed

end
