(* ===== verification/Order_Print.thy ===== *)
theory Order_Print
  imports Prelude Money Platform_DB
begin

text \<open>
  Printing of orders: the print-job table and queue
  (\<open>apps/backend/src/printers/print-jobs.service.ts\<close>), the per-location event matrix, the payload
  and the events that print (\<open>orders/order-print.service.ts\<close>), and the full order they print
  (\<open>getOrderByIdForOrg\<close> of \<open>orders.service.ts\<close>). A job-queue outage makes \<open>createPrintJob\<close> throw
  after its row is written; the print service swallows it. Shown here: copies stay between one
  and five, printing an order never fails the order and never touches orders, lines or payments, and
  a coursed order sends nothing to the kitchen outside an explicit fire.
\<close>

section \<open>The full order\<close>

definition fullItem :: "db \<Rightarrow> order_item_row \<Rightarrow> full_item" where
  "fullItem d r = \<lparr>fi_id = oi_id r, fi_menuItemId = oi_menuItemId r,
     fi_menuItemName = (case first_row (\<lambda>m. mi_id m = oi_menuItemId r) (t_menuItems d) of
        None \<Rightarrow> ''Item no longer on menu'' | Some m \<Rightarrow> mi_name m),
     fi_quantity = oi_quantity r, fi_price = oi_price r, fi_modifiers = oi_modifiers r,
     fi_notes = oi_notes r, fi_course = oi_course r, fi_firedAt = oi_firedAt r\<rparr>"

definition getOrderByIdForOrg :: "uuid \<Rightarrow> uuid \<Rightarrow> full_order handler" where
  "getOrderByIdForOrg orgId orderId = bindM (readDb id) (\<lambda>d.
     bindM (orThrow (findOrder d orgId orderId) (NotFoundException ''Order not found.'')) (\<lambda>order.
       returnM \<lparr>fo_order = order, fo_items = map (fullItem d) (itemsOf d orderId),
                fo_payments = paymentsOf d orderId\<rparr>))"

section \<open>Print jobs\<close>

definition MAX_ATTEMPTS :: int where
  "MAX_ATTEMPTS = 3"

definition createPrintJob ::
  "uuid \<Rightarrow> uuid option \<Rightarrow> string \<Rightarrow> string option \<Rightarrow> job_payload \<Rightarrow> print_job_row handler" where
  "createPrintJob organizationId orderId jobType printerId payload =
     bindM freshId (\<lambda>jid.
       let job = \<lparr>pj_id = jid, pj_organizationId = organizationId, pj_orderId = or_null orderId,
                  pj_jobType = jobType, pj_status = ''queued'', pj_printerId = printerId,
                  pj_attempts = 0, pj_lastError = None, pj_payload = payload\<rparr>
       in thenM (writeDb (\<lambda>d. d\<lparr>t_printJobs := t_printJobs d @ [job]\<rparr>))
         (thenM (emitM (EmitPrintJob organizationId ''printJob.created'' job))
         (bindM (getsM w_queueUp) (\<lambda>up.
          thenM (throw_if (\<not> up) (GenericError ''print queue unreachable''))
         (thenM (emitM (EnqueuePrint ''print-queue'' job (Some MAX_ATTEMPTS)))
          (returnM job))))))"

definition getPrintJob :: "db \<Rightarrow> uuid \<Rightarrow> uuid option \<Rightarrow> print_job_row option" where
  "getPrintJob d jid organizationId = first_row (\<lambda>j. pj_id j = jid \<and>
     (truthy organizationId \<longrightarrow> Some (pj_organizationId j) = organizationId)) (t_printJobs d)"

definition updatePrintJobStatus ::
  "uuid \<Rightarrow> string \<Rightarrow> int option \<Rightarrow> string option \<Rightarrow> print_job_row option handler" where
  "updatePrintJobStatus jid status attempts lastError =
     thenM (writeDb (\<lambda>d. d\<lparr>t_printJobs := update_where (\<lambda>j. pj_id j = jid)
       (\<lambda>j. j\<lparr>pj_status := status, pj_attempts := nvl attempts (pj_attempts j),
              pj_lastError := (case lastError of None \<Rightarrow> pj_lastError j | Some e \<Rightarrow> Some e)\<rparr>)
       (t_printJobs d)\<rparr>))
    (bindM (readDb (\<lambda>d. first_row (\<lambda>j. pj_id j = jid) (t_printJobs d))) (\<lambda>updated.
     thenM (case updated of None \<Rightarrow> returnM ()
            | Some j \<Rightarrow> emitM (EmitPrintJob (pj_organizationId j) ''printJob.updated'' j))
     (returnM updated)))"

definition listPrintJobs ::
  "db \<Rightarrow> uuid \<Rightarrow> string option \<Rightarrow> string option \<Rightarrow> string option \<Rightarrow> print_job_row list" where
  "listPrintJobs d organizationId status jobType printerId =
     filter (\<lambda>j. pj_organizationId j = organizationId \<and>
       (truthy status \<longrightarrow> Some (pj_status j) = status) \<and>
       (truthy jobType \<longrightarrow> Some (pj_jobType j) = jobType) \<and>
       (truthy printerId \<longrightarrow> pj_printerId j = printerId)) (t_printJobs d)"

definition listOrderPrintJobs ::
  "db \<Rightarrow> uuid \<Rightarrow> uuid \<Rightarrow> string option \<Rightarrow> string option \<Rightarrow> print_job_row list" where
  "listOrderPrintJobs d organizationId orderId status jobType =
     filter (\<lambda>j. pj_organizationId j = organizationId \<and> pj_orderId j = Some orderId \<and>
       (truthy status \<longrightarrow> Some (pj_status j) = status) \<and>
       (truthy jobType \<longrightarrow> Some (pj_jobType j) = jobType)) (t_printJobs d)"

definition getOrganizationPrintJobById :: "uuid \<Rightarrow> uuid \<Rightarrow> print_job_row handler" where
  "getOrganizationPrintJobById organizationId jid =
     bindM (readDb (\<lambda>d. first_row (\<lambda>j. pj_id j = jid \<and> pj_organizationId j = organizationId)
              (t_printJobs d)))
     (\<lambda>j. orThrow j (GenericError ''Print job not found.''))"

definition getDeadLetterJobs :: "db \<Rightarrow> uuid \<Rightarrow> print_job_row list" where
  "getDeadLetterJobs d organizationId =
     filter (\<lambda>j. MAX_ATTEMPTS \<le> pj_attempts j)
       (listPrintJobs d organizationId (Some ''failed'') None None)"

definition requeueJob :: "uuid \<Rightarrow> uuid \<Rightarrow> unit handler" where
  "requeueJob jobId organizationId =
     bindM (readDb (\<lambda>d. first_row (\<lambda>j. pj_id j = jobId \<and> pj_organizationId j = organizationId)
              (t_printJobs d)))
     (\<lambda>j. bindM (orThrow j (NotFoundException ''Print job not found.'')) (\<lambda>job.
        thenM (writeDb (\<lambda>d. d\<lparr>t_printJobs := update_where (\<lambda>j. pj_id j = jobId)
           (\<lambda>j. j\<lparr>pj_status := ''queued'', pj_attempts := 0, pj_lastError := None\<rparr>) (t_printJobs d)\<rparr>))
       (bindM (getsM w_queueUp) (\<lambda>up.
        thenM (throw_if (\<not> up) (GenericError ''print queue unreachable''))
              (emitM (EnqueuePrint ''print-queue'' job None))))))"

section \<open>The print plan\<close>

text \<open>
  \<open>Number(v)\<close> on a settings value: integers, booleans and null, and strings that are an optional
  sign and decimal digits with an optional fraction (blank is zero). Everything else reads as NaN.
\<close>

definition js_number_string :: "string \<Rightarrow> rat option" where
  "js_number_string s =
     (let t = js_trim s;
          neg = (t \<noteq> [] \<and> hd t = CHR ''-'');
          body = (if t \<noteq> [] \<and> (hd t = CHR ''-'' \<or> hd t = CHR ''+'') then tl t else t)
      in if t = [] then Some 0
         else if list_all (\<lambda>c. is_digit c \<or> c = CHR ''.'') body \<and>
                 length (filter (\<lambda>c. c = CHR ''.'') body) \<le> 1
         then map_option (\<lambda>x. if neg then - x else x) (parse_decimal body)
         else None)"

fun js_number :: "json option \<Rightarrow> rat option" where
  "js_number None = None"
| "js_number (Some JNull) = Some 0"
| "js_number (Some (JBool b)) = Some (if b then 1 else 0)"
| "js_number (Some (JInt n)) = Some (of_int n)"
| "js_number (Some (JStr s)) = js_number_string s"
| "js_number (Some _) = None"

definition clampCopies :: "json option \<Rightarrow> int" where
  "clampCopies v =
     (let r = (case js_number v of None \<Rightarrow> 0 | Some x \<Rightarrow> js_round x)
      in min 5 (max 1 (if r = 0 then 1 else r)))"

record doc_plan =
  dp_onSave :: bool
  dp_onUpdate :: bool
  dp_onPaid :: bool
  dp_copies :: int

record print_plan =
  pl_kitchen :: doc_plan
  pl_receipt :: doc_plan

definition defaultPlan :: print_plan where
  "defaultPlan = \<lparr>
     pl_kitchen = \<lparr>dp_onSave = True, dp_onUpdate = True, dp_onPaid = False, dp_copies = 1\<rparr>,
     pl_receipt = \<lparr>dp_onSave = False, dp_onUpdate = False, dp_onPaid = True, dp_copies = 1\<rparr>\<rparr>"

definition is_true :: "json option \<Rightarrow> bool" where
  "is_true v \<longleftrightarrow> v = Some (JBool True)"

text \<open>The row of the matrix for \<open>'kitchen'\<close> or \<open>'receipt'\<close>; an object or array counts as the new shape.\<close>

definition matrixRow :: "json \<Rightarrow> string \<Rightarrow> doc_plan" where
  "matrixRow s doc =
     (let legacy =
        (let enabled = (json_field s (doc @ ''Enabled'') \<noteq> Some (JBool False));
             copies = clampCopies (json_field s (doc @ ''Copies''))
         in if doc = ''kitchen''
            then (let hold = is_true (json_field s ''holdUnpaidKitchen'')
                  in \<lparr>dp_onSave = enabled \<and> \<not> hold, dp_onUpdate = enabled \<and> \<not> hold,
                      dp_onPaid = enabled \<and> hold, dp_copies = copies\<rparr>)
            else \<lparr>dp_onSave = False, dp_onUpdate = False, dp_onPaid = enabled, dp_copies = copies\<rparr>);
          fromMatrix = (\<lambda>m. \<lparr>dp_onSave = is_true (json_field m ''onSave''),
             dp_onUpdate = is_true (json_field m ''onUpdate''),
             dp_onPaid = is_true (json_field m ''onPaid''),
             dp_copies = clampCopies (json_field m ''copies'')\<rparr>)
      in case json_field s doc of
           Some (JObj kvs) \<Rightarrow> fromMatrix (JObj kvs)
         | Some (JList xs) \<Rightarrow> fromMatrix (JList xs)
         | _ \<Rightarrow> legacy)"

definition printPlanOf :: "db \<Rightarrow> uuid option \<Rightarrow> print_plan" where
  "printPlanOf d locationId =
     (if \<not> truthy locationId then defaultPlan
      else let s = (case first_row (\<lambda>l. Some (loc_id l) = locationId) (t_locations d) of
                      None \<Rightarrow> JObj [] | Some l \<Rightarrow> nvl (loc_printSettings l) (JObj []))
           in \<lparr>pl_kitchen = matrixRow s ''kitchen'', pl_receipt = matrixRow s ''receipt''\<rparr>)"

definition getPrintPlan :: "uuid option \<Rightarrow> print_plan handler" where
  "getPrintPlan locationId = readDb (\<lambda>d. printPlanOf d locationId)"

section \<open>Payloads and events\<close>

definition buildPrintPayload :: "full_order \<Rightarrow> bool \<Rightarrow> int option \<Rightarrow> print_payload" where
  "buildPrintPayload fo updated course =
     (let o' = fo_order fo;
          items = (case course of None \<Rightarrow> fo_items fo
                   | Some c \<Rightarrow> filter (\<lambda>i. fi_course i = Some c) (fo_items fo))
      in \<lparr>pp_orderId = ord_id o', pp_ticketNumber = ord_ticketNumber o', pp_updated = updated,
          pp_customerName = ord_customerName o', pp_customerPhone = ord_customerPhone o',
          pp_subtotal = ord_subtotal o', pp_taxAmount = ord_taxAmount o',
          pp_tipAmount = ord_tipAmount o', pp_discountAmount = ord_discountAmount o',
          pp_discountName = ord_discountName o', pp_totalAmount = ord_totalAmount o',
          pp_orderType = ord_orderType o', pp_specialInstructions = ord_specialInstructions o',
          pp_course = course,
          pp_items = map (\<lambda>i. \<lparr>pi_menuItemName = fi_menuItemName i, pi_quantity = fi_quantity i,
             pi_price = fi_price i, pi_modifiers = fi_modifiers i, pi_notes = fi_notes i,
             pi_course = fi_course i\<rparr>) items,
          pp_createdAt = ord_createdAt o', pp_printerId = None\<rparr>)"

datatype print_event = OnSave | OnUpdate | OnPaid

definition triggered :: "doc_plan \<Rightarrow> print_event list \<Rightarrow> bool" where
  "triggered cfg events \<longleftrightarrow>
     (OnSave \<in> set events \<and> dp_onSave cfg) \<or>
     (OnUpdate \<in> set events \<and> dp_onUpdate cfg) \<or>
     (OnPaid \<in> set events \<and> dp_onPaid cfg)"

definition printDocument ::
  "uuid \<Rightarrow> uuid \<Rightarrow> string \<Rightarrow> print_payload \<Rightarrow> int \<Rightarrow> unit handler" where
  "printDocument orgId orderId jobType payload copies =
     repeatM (nat copies) (thenM
       (createPrintJob orgId (Some orderId) jobType None (OrderPayload payload)) (returnM ()))"

definition printForEvents :: "uuid \<Rightarrow> full_order \<Rightarrow> print_event list \<Rightarrow> bool \<Rightarrow> unit handler" where
  "printForEvents orgId fo events updated =
     catchM
       (bindM (getPrintPlan (ord_locationId (fo_order fo))) (\<lambda>plan.
          let payload = buildPrintPayload fo updated None in
          thenM (whenM (ord_fireMode (fo_order fo) \<noteq> ''by_course'' \<and> triggered (pl_kitchen plan) events)
                   (printDocument orgId (ord_id (fo_order fo)) ''kitchen'' payload (dp_copies (pl_kitchen plan))))
                (whenM (triggered (pl_receipt plan) events)
                   (printDocument orgId (ord_id (fo_order fo)) ''receipt'' payload (dp_copies (pl_receipt plan))))))
       (\<lambda>_. returnM ())"

definition printCourse :: "uuid \<Rightarrow> full_order \<Rightarrow> int \<Rightarrow> unit handler" where
  "printCourse orgId fo course =
     catchM
       (bindM (getPrintPlan (ord_locationId (fo_order fo))) (\<lambda>plan.
          let payload = buildPrintPayload fo False (Some course) in
          whenM (pp_items payload \<noteq> [])
            (printDocument orgId (ord_id (fo_order fo)) ''kitchen'' payload (dp_copies (pl_kitchen plan)))))
       (\<lambda>_. returnM ())"

definition printOrder :: "uuid \<Rightarrow> full_order \<Rightarrow> string option \<Rightarrow> (uuid \<times> uuid) handler" where
  "printOrder orgId fo printerId =
     (let o' = fo_order fo;
          payload = OrderPayload \<lparr>pp_orderId = ord_id o', pp_ticketNumber = None, pp_updated = False,
            pp_customerName = ord_customerName o', pp_customerPhone = ord_customerPhone o',
            pp_subtotal = ord_subtotal o', pp_taxAmount = ord_taxAmount o',
            pp_tipAmount = ord_tipAmount o', pp_discountAmount = ord_discountAmount o',
            pp_discountName = ord_discountName o', pp_totalAmount = ord_totalAmount o',
            pp_orderType = None, pp_specialInstructions = None, pp_course = None,
            pp_items = map (\<lambda>i. \<lparr>pi_menuItemName = fi_menuItemName i, pi_quantity = fi_quantity i,
              pi_price = fi_price i, pi_modifiers = None, pi_notes = None, pi_course = None\<rparr>) (fo_items fo),
            pp_createdAt = ord_createdAt o', pp_printerId = printerId\<rparr>
      in bindM (createPrintJob orgId (Some (ord_id o')) ''kitchen'' printerId payload) (\<lambda>k.
         bindM (createPrintJob orgId (Some (ord_id o')) ''receipt'' printerId payload) (\<lambda>r.
         returnM (pj_id k, pj_id r))))"

section \<open>What printing leaves alone, and how much it prints\<close>

lemma preserves_createPrintJob [frame]: "preserves ledger (createPrintJob g oid ty pr pl)"
  unfolding createPrintJob_def Let_def
  by (auto intro!: frame preserves_writeDb simp: ledger_def)

lemma preserves_printDocument [frame]: "preserves ledger (printDocument g oid ty pl n)"
  unfolding printDocument_def by (intro frame)

lemma preserves_getPrintPlan [frame]: "preserves f (getPrintPlan l)"
  unfolding getPrintPlan_def by (rule preserves_readDb)

lemma preserves_printForEvents [frame]: "preserves ledger (printForEvents g fo evs u)"
  unfolding printForEvents_def Let_def by (intro frame)

lemma preserves_printCourse [frame]: "preserves ledger (printCourse g fo c)"
  unfolding printCourse_def Let_def by (intro frame)

lemma catchM_answers: "\<exists>w'. catchM m (\<lambda>_. returnM ()) w = (Inr (), w')"
  by (cases "m w"; cases "fst (m w)") (auto simp: catchM_def)

text \<open>The interface through which the order services print: it always answers, with a frame.\<close>

locale print_sink =
  fixes sink :: "uuid \<Rightarrow> full_order \<Rightarrow> unit handler"
  assumes sink_answers: "\<exists>w'. sink g fo w = (Inr (), w')"
    and sink_ledger: "preserves ledger (sink g fo)"
begin

lemma after_sink:
  "\<exists>w1. thenM (sink g fo) n w = n w1 \<and> ledger w1 = ledger w"
proof -
  obtain w1 where "sink g fo w = (Inr (), w1)" using sink_answers by blast
  then show ?thesis
    using preservesD[OF sink_ledger] by (auto simp: thenM_eval)
qed

end

lemma printing_answers:
  "\<exists>w'. printForEvents g fo evs u w = (Inr (), w')" "\<exists>w'. printCourse g fo c w = (Inr (), w')"
  unfolding printForEvents_def printCourse_def by (rule catchM_answers)+

interpretation events_sink: print_sink "\<lambda>g fo. printForEvents g fo evs u"
  by unfold_locales (rule printing_answers preserves_printForEvents)+

interpretation course_sink: print_sink "\<lambda>g fo. printCourse g fo c"
  by unfold_locales (rule printing_answers preserves_printCourse)+

lemma clampCopies_bounds: "1 \<le> clampCopies v \<and> clampCopies v \<le> 5"
  by (simp add: clampCopies_def Let_def)

lemma matrixRow_copies: "1 \<le> dp_copies (matrixRow s doc) \<and> dp_copies (matrixRow s doc) \<le> 5"
  using clampCopies_bounds
  by (auto simp: matrixRow_def Let_def split: option.split json.split)

lemma printPlan_copies:
  "1 \<le> dp_copies (pl_kitchen (printPlanOf d l)) \<and> dp_copies (pl_kitchen (printPlanOf d l)) \<le> 5 \<and>
   1 \<le> dp_copies (pl_receipt (printPlanOf d l)) \<and> dp_copies (pl_receipt (printPlanOf d l)) \<le> 5"
  using matrixRow_copies by (simp add: printPlanOf_def defaultPlan_def Let_def)

text \<open>The jobs of one kind an outcome added to the table.\<close>

definition jobsOf :: "world \<Rightarrow> uuid \<Rightarrow> string \<Rightarrow> print_job_row list" where
  "jobsOf w oid ty = filter (\<lambda>j. pj_orderId j = Some oid \<and> pj_jobType j = ty) (t_printJobs (w_db w))"

lemma printDocument_jobs:
  assumes "w_queueUp w" and "oid \<noteq> []"
  shows "\<exists>w'. printDocument g oid ty pl n w = (Inr (), w') \<and> w_queueUp w' \<and>
    t_locations (w_db w') = t_locations (w_db w) \<and>
    length (jobsOf w' oid ty) = length (jobsOf w oid ty) + nat n \<and>
    (\<forall>ty'. ty' \<noteq> ty \<longrightarrow> jobsOf w' oid ty' = jobsOf w oid ty')"
proof -
  have or: "or_null (Some oid) = Some oid" using assms(2) by (cases oid) auto
  have "\<exists>w'. repeatM k (thenM (createPrintJob g (Some oid) ty None (OrderPayload pl)) (returnM ())) w
      = (Inr (), w') \<and> w_queueUp w' \<and> t_locations (w_db w') = t_locations (w_db w) \<and>
    length (jobsOf w' oid ty) = length (jobsOf w oid ty) + k \<and>
    (\<forall>ty'. ty' \<noteq> ty \<longrightarrow> jobsOf w' oid ty' = jobsOf w oid ty')" for k
    using assms(1)
  proof (induction k arbitrary: w)
    case (Suc k)
    obtain w1 where w1: "thenM (createPrintJob g (Some oid) ty None (OrderPayload pl)) (returnM ()) w
        = (Inr (), w1)" "w_queueUp w1" "t_locations (w_db w1) = t_locations (w_db w)"
      "length (jobsOf w1 oid ty) = Suc (length (jobsOf w oid ty))"
      "\<forall>ty'. ty' \<noteq> ty \<longrightarrow> jobsOf w1 oid ty' = jobsOf w oid ty'"
      using Suc.prems by (auto simp: createPrintJob_def Let_def jobsOf_def or thenM_def bindM_def)
    from Suc.IH[OF w1(2)] w1 show ?case
      by (auto simp: thenM_eval)
  qed simp
  then show ?thesis unfolding printDocument_def by blast
qed

text \<open>
  With the queue up, an event prints each document at most once: the kitchen gets its copies
  when the matrix asks for it and the order is not coursed, the receipt gets its copies when the
  matrix asks for it, each between one and five, and nothing else is printed for the order.
\<close>

theorem printForEvents_jobs:
  assumes "w_queueUp w" and "ord_id (fo_order fo) \<noteq> []"
    and "printForEvents g fo evs u w = (r, w')"
    and "plan = printPlanOf (w_db w) (ord_locationId (fo_order fo))"
  shows "(length (jobsOf w' (ord_id (fo_order fo)) ''kitchen'') =
      length (jobsOf w (ord_id (fo_order fo)) ''kitchen'') +
      (if ord_fireMode (fo_order fo) \<noteq> ''by_course'' \<and> triggered (pl_kitchen plan) evs
       then nat (dp_copies (pl_kitchen plan)) else 0)) \<and>
    (length (jobsOf w' (ord_id (fo_order fo)) ''receipt'') =
      length (jobsOf w (ord_id (fo_order fo)) ''receipt'') +
      (if triggered (pl_receipt plan) evs then nat (dp_copies (pl_receipt plan)) else 0))"
proof -
  let ?oid = "ord_id (fo_order fo)"
  let ?pl = "buildPrintPayload fo u None"
  let ?k = "ord_fireMode (fo_order fo) \<noteq> ''by_course'' \<and> triggered (pl_kitchen plan) evs"
  let ?r = "triggered (pl_receipt plan) evs"
  obtain w1 where w1: "whenM ?k (printDocument g ?oid ''kitchen'' ?pl (dp_copies (pl_kitchen plan))) w
      = (Inr (), w1)" "w_queueUp w1"
    "length (jobsOf w1 ?oid ''kitchen'') = length (jobsOf w ?oid ''kitchen'') +
       (if ?k then nat (dp_copies (pl_kitchen plan)) else 0)"
    "jobsOf w1 ?oid ''receipt'' = jobsOf w ?oid ''receipt''"
    using printDocument_jobs[OF assms(1,2), of g "''kitchen''" ?pl "dp_copies (pl_kitchen plan)"] assms(1)
    by (cases ?k) auto
  obtain w2 where w2: "whenM ?r (printDocument g ?oid ''receipt'' ?pl (dp_copies (pl_receipt plan))) w1
      = (Inr (), w2)"
    "length (jobsOf w2 ?oid ''receipt'') = length (jobsOf w1 ?oid ''receipt'') +
       (if ?r then nat (dp_copies (pl_receipt plan)) else 0)"
    "jobsOf w2 ?oid ''kitchen'' = jobsOf w1 ?oid ''kitchen''"
    using printDocument_jobs[OF w1(2) assms(2), of g "''receipt''" ?pl "dp_copies (pl_receipt plan)"]
    by (cases ?r) auto
  have "printForEvents g fo evs u w = (Inr (), w2)"
    unfolding printForEvents_def getPrintPlan_def Let_def
    using w1(1) w2(1) by (simp add: catchM_eval thenM_eval assms(4))
  with assms(3) have "w' = w2" by simp
  with w1 w2 show ?thesis by simp
qed

text \<open>
  A print outage never fails an order: printing for events and firing a course always return,
  whatever the queue does, and leave orders, lines and payments as they are; and a plan never
  asks for fewer than one or more than five copies of a document.
\<close>

theorem printing_is_harmless:
  shows "(\<exists>w'. printForEvents g fo evs u w = (Inr (), w') \<and> ledger w' = ledger w) \<and>
    (\<exists>w'. printCourse g fo c w = (Inr (), w') \<and> ledger w' = ledger w) \<and>
    dp_copies (pl_kitchen (printPlanOf d l)) \<in> {1..5} \<and> dp_copies (pl_receipt (printPlanOf d l)) \<in> {1..5}"
proof -
  obtain w1 where "printForEvents g fo evs u w = (Inr (), w1)"
    using events_sink.sink_answers by blast
  moreover obtain w2 where "printCourse g fo c w = (Inr (), w2)"
    using course_sink.sink_answers by blast
  ultimately show ?thesis
    using preservesD[OF events_sink.sink_ledger] preservesD[OF course_sink.sink_ledger]
      printPlan_copies[of d l]
    by simp
qed

end
