(* ===== verification/Order_Payment.thy ===== *)
theory Order_Payment
  imports Prelude Money Platform_DB Manager_Gate Cache_Store Idempotency Order_Pricing Users Order_Print
begin

text \<open>
  Payments, refunds and adjustments of orders
  (\<open>apps/backend/src/orders/order-payment.service.ts\<close>). The advisory lock serializes the
  transactions of one order, so a transaction is one step here and reads the balance it acts on.
  Shown here: a payment never overpays, a refund gives back exactly the net paid amount,
  a partial refund never more than it, an adjustment never leaves more paid than the new total,
  a wrong manager PIN changes nothing, and along every history of these operations an order's net
  payments stay between zero and its total.
\<close>

section \<open>Reads\<close>

definition paidSumFor :: "uuid \<Rightarrow> int handler" where
  "paidSumFor orderId = readDb (\<lambda>d. paidSum d orderId)"

definition orderForUpdate :: "uuid \<Rightarrow> uuid \<Rightarrow> order_row handler" where
  "orderForUpdate orgId orderId =
     bindM (readDb (\<lambda>d. findOrder d orgId orderId)) (\<lambda>order.
       orThrow order (NotFoundException ''Order not found.''))"

text \<open>\<open>(cents / 100).toFixed(2)\<close>\<close>

definition toFixed2 :: "int \<Rightarrow> string" where
  "toFixed2 cents = (if cents < 0 then ''-'' else []) @ show_nat (nat \<bar>cents\<bar> div 100) @ ''.'' @
     pad2 (nat \<bar>cents\<bar> mod 100)"

section \<open>Recording a payment\<close>

record payment_dto =
  pd_method :: string
  pd_amount :: "rat option"
  pd_cashReceived :: "rat option"
  pd_tipAmount :: "rat option"

record payment_outcome =
  po_applied :: int
  po_tip :: int
  po_cashReceived :: "int option"
  po_changeGiven :: "int option"
  po_coversTotal :: bool
  po_remaining :: int

record payment_result =
  pr_applied :: int
  pr_changeGiven :: "int option"
  pr_remaining :: int
  pr_paid :: bool
  pr_order :: full_order

text \<open>\<open>selectDistinct(method)\<close> over the order's payments: one method names itself, several are 'split'.\<close>

definition summaryMethod :: "db \<Rightarrow> uuid \<Rightarrow> string \<Rightarrow> string" where
  "summaryMethod d orderId fallback =
     (let methodRows = js_dedup (map pay_method (paymentsOf d orderId))
      in if length methodRows > 1 then ''split''
         else if methodRows = [] then fallback else hd methodRows)"

text \<open>
  The guards and the amounts: what a payment request against an order comes to, given what has
  been paid before.
\<close>

definition assessPayment :: "order_row \<Rightarrow> int \<Rightarrow> payment_dto \<Rightarrow> error + payment_outcome" where
  "assessPayment order priorPaid dto =
     (if ord_paidAt order \<noteq> None
      then Inl (BadRequestException ''This order has already been paid.'')
      else if ord_status order = Cancelled
      then Inl (BadRequestException ''Cancelled orders cannot be paid.'')
      else
        let tip = max 0 (js_round (nvl (pd_tipAmount dto) 0));
            newTotal = ord_totalAmount order + tip;
            remainingBefore = newTotal - priorPaid
        in if remainingBefore \<le> 0
        then Inl (BadRequestException ''This order has no remaining balance.'')
        else
          let requested = (case pd_amount dto of Some a \<Rightarrow> js_round a | None \<Rightarrow> remainingBefore)
          in if requested \<le> 0
          then Inl (BadRequestException ''Payment amount must be positive.'')
          else
            let applied = min requested remainingBefore;
                cashReceived = (if pd_method dto = ''cash''
                                then map_option js_round (pd_cashReceived dto) else None)
            in if (case cashReceived of None \<Rightarrow> False | Some c \<Rightarrow> c < applied)
            then Inl (BadRequestException ''Cash received is less than the payment amount.'')
            else Inr \<lparr>po_applied = applied, po_tip = tip, po_cashReceived = cashReceived,
                      po_changeGiven = map_option (\<lambda>c. c - applied) cashReceived,
                      po_coversTotal = (newTotal \<le> priorPaid + applied),
                      po_remaining = newTotal - priorPaid - applied\<rparr>)"

text \<open>The row a payment inserts, and what it sets on the order.\<close>

definition paymentRow ::
  "uuid \<Rightarrow> principal \<Rightarrow> order_row \<Rightarrow> uuid \<Rightarrow> payment_dto \<Rightarrow> payment_outcome \<Rightarrow> uuid \<Rightarrow> int \<Rightarrow> payment_row" where
  "paymentRow orgId user order orderId dto out pid now =
     \<lparr>pay_id = pid, pay_organizationId = orgId, pay_locationId = ord_locationId order,
      pay_orderId = orderId, pay_method = pd_method dto, pay_amount = po_applied out,
      pay_tipAmount = po_tip out, pay_cashReceived = po_cashReceived out,
      pay_changeGiven = po_changeGiven out, pay_createdBy = Some (pr_id user), pay_createdAt = now\<rparr>"

definition settleOrder ::
  "order_row \<Rightarrow> payment_outcome \<Rightarrow> string \<Rightarrow> int \<Rightarrow> order_row \<Rightarrow> order_row" where
  "settleOrder order out method now r = r\<lparr>
     ord_tipAmount := Some (nvl (ord_tipAmount order) 0 + po_tip out),
     ord_totalAmount := ord_totalAmount order + po_tip out,
     ord_paymentMethod := Some method,
     ord_paidAt := (if po_coversTotal out then Some now else ord_paidAt r),
     ord_status := (if po_coversTotal out
                    then (if ord_status order = Pending then Confirmed else ord_status order)
                    else ord_status r),
     ord_updatedAt := now\<rparr>"

definition takePayment :: "uuid \<Rightarrow> principal \<Rightarrow> uuid \<Rightarrow> payment_dto \<Rightarrow> payment_outcome handler" where
  "takePayment orgId user orderId dto =
     bindM (orderForUpdate orgId orderId) (\<lambda>order.
     bindM (paidSumFor orderId) (\<lambda>priorPaid.
     bindM (liftE (assessPayment order priorPaid dto)) (\<lambda>out.
     bindM freshId (\<lambda>pid. bindM (getsM w_now) (\<lambda>now.
     thenM (insertPayments [paymentRow orgId user order orderId dto out pid now])
    (bindM (readDb (\<lambda>d. summaryMethod d orderId (pd_method dto))) (\<lambda>method.
     thenM (updateOrder orderId (settleOrder order out method now))
     (returnM out))))))))"

definition opt_json :: "int option \<Rightarrow> json" where
  "opt_json x = (case x of None \<Rightarrow> JNull | Some n \<Rightarrow> JInt n)"

definition str_json :: "string option \<Rightarrow> json" where
  "str_json x = (case x of None \<Rightarrow> JNull | Some s \<Rightarrow> JStr s)"

definition recordPayment ::
  "cache_wiring \<Rightarrow> principal \<Rightarrow> uuid \<Rightarrow> payment_dto \<Rightarrow>
   (uuid \<Rightarrow> uuid \<Rightarrow> full_order handler) \<Rightarrow> payment_result handler" where
  "recordPayment cw user orderId dto getFullOrder =
     bindM (getRequiredOrg cw user) (\<lambda>orgId.
     bindM (getFullOrder orgId orderId) (\<lambda>_.
     bindM (transactionM (takePayment orgId user orderId dto)) (\<lambda>outcome.
     bindM (getFullOrder orgId orderId) (\<lambda>fullOrder.
     thenM (whenM (po_coversTotal outcome) (printForEvents orgId fullOrder [OnPaid] False))
    (thenM (emitM (Audit ''order.payment.recorded'' (Some (pr_id user)) (Some orgId) orderId (JObj
         [(''method'', JStr (pd_method dto)), (''applied'', JInt (po_applied outcome)),
          (''tipAmount'', JInt (po_tip outcome)), (''cashReceived'', opt_json (po_cashReceived outcome)),
          (''changeGiven'', opt_json (po_changeGiven outcome)),
          (''paid'', JBool (po_coversTotal outcome))])))
    (thenM (emitM (EmitOrder orgId ''order.updated'' fullOrder))
     (returnM \<lparr>pr_applied = po_applied outcome, pr_changeGiven = po_changeGiven outcome,
        pr_remaining = po_remaining outcome, pr_paid = po_coversTotal outcome,
        pr_order = fullOrder\<rparr>)))))))"

definition payOrder ::
  "cache_wiring \<Rightarrow> principal \<Rightarrow> uuid \<Rightarrow> string \<Rightarrow> rat option \<Rightarrow>
   (uuid \<Rightarrow> uuid \<Rightarrow> full_order handler) \<Rightarrow> full_order handler" where
  "payOrder cw user orderId paymentMethod tipAmount getFullOrder =
     bindM (recordPayment cw user orderId
       \<lparr>pd_method = paymentMethod, pd_amount = None, pd_cashReceived = None, pd_tipAmount = tipAmount\<rparr>
       getFullOrder) (\<lambda>r. returnM (pr_order r))"

section \<open>Voiding and refunding a paid order\<close>

text \<open>
  The loop over the order's payments: each positive payment gives back what it can of the amount
  still to refund. The result pairs the payment with what it gives back.
\<close>

fun refundSplit :: "int \<Rightarrow> payment_row list \<Rightarrow> (payment_row \<times> int) list" where
  "refundSplit remaining [] = []"
| "refundSplit remaining (p # ps) =
     (if pay_amount p \<le> 0 \<or> remaining \<le> 0 then refundSplit remaining ps
      else let amount = min (pay_amount p) remaining
           in (p, amount) # refundSplit (remaining - amount) ps)"

text \<open>\<open>covers && x ? -x : null\<close>: zero is falsy.\<close>

definition mirrored :: "bool \<Rightarrow> int option \<Rightarrow> int option" where
  "mirrored coversPayment x =
     (case x of None \<Rightarrow> None | Some c \<Rightarrow> if coversPayment \<and> c \<noteq> 0 then Some (- c) else None)"

definition refundRow :: "uuid \<Rightarrow> int \<Rightarrow> uuid \<Rightarrow> payment_row \<times> int \<Rightarrow> payment_row" where
  "refundRow managerId now pid pa =
     (case pa of (p, amount) \<Rightarrow>
        (let coversPayment = (amount = pay_amount p) in
         \<lparr>pay_id = pid, pay_organizationId = pay_organizationId p,
          pay_locationId = pay_locationId p, pay_orderId = pay_orderId p,
          pay_method = pay_method p, pay_amount = - amount,
          pay_tipAmount = (if coversPayment then - pay_tipAmount p else 0),
          pay_cashReceived = mirrored coversPayment (pay_cashReceived p),
          pay_changeGiven = mirrored coversPayment (pay_changeGiven p),
          pay_createdBy = Some managerId, pay_createdAt = now\<rparr>))"

definition voidOrder :: "uuid \<Rightarrow> user_row \<Rightarrow> uuid \<Rightarrow> string option \<Rightarrow> unit handler" where
  "voidOrder orgId manager orderId reason =
     bindM (orderForUpdate orgId orderId) (\<lambda>order.
     thenM (throw_if (ord_status order = Cancelled)
              (BadRequestException ''Order is already cancelled/refunded.''))
    (thenM (throw_if (ord_paidAt order = None \<and> \<not> truthy (ord_paymentMethod order))
              (BadRequestException ''Order is not paid.''))
    (bindM (readDb (\<lambda>d. paymentsOf d (ord_id order))) (\<lambda>orderPayments.
       let remaining = sum_by pay_amount orderPayments in
     thenM (throw_if (remaining \<le> 0) (BadRequestException ''Order has no refundable balance.''))
    (bindM (getsM w_now) (\<lambda>now.
     thenM (updateOrder orderId (\<lambda>r. r\<lparr>ord_status := Cancelled, ord_updatedAt := now\<rparr>))
    (let split = refundSplit remaining orderPayments in
     bindM (freshIds (length split)) (\<lambda>pids.
     let refundRows = map2 (refundRow (usr_id manager) now) pids split in
     thenM (whenM (refundRows \<noteq> []) (insertPayments refundRows))
           (emitM (Audit ''order.refunded'' (Some (usr_id manager)) (Some orgId) (ord_id order)
              (JObj [(''orderId'', JStr (ord_id order)), (''originalTotal'', JInt (ord_totalAmount order)),
                     (''reason'', str_json reason)])))))))))))"

definition refundPaidOrder ::
  "cache_wiring \<Rightarrow> pin_compare \<Rightarrow> principal \<Rightarrow> uuid \<Rightarrow> string \<Rightarrow> string option \<Rightarrow> string handler" where
  "refundPaidOrder cw cmp user orderId managerPin reason =
     bindM (getRequiredOrg cw user) (\<lambda>orgId.
     bindM (verifyManagerPin cmp orgId managerPin None) (\<lambda>m.
     bindM (orThrow m (ForbiddenException ''Invalid manager PIN.'')) (\<lambda>manager.
     thenM (transactionM (voidOrder orgId manager orderId reason))
    (thenM (emitM (EmitOrderStatus orgId ''order.updated'' orderId Cancelled))
     (returnM ''Order voided and refunded.'')))))"

section \<open>Partial refunds\<close>

record partial_refund_dto =
  rf_managerPin :: string
  rf_amount :: int
  rf_reason :: "string option"

text \<open>The negative payment that gives back part of an order's payments.\<close>

definition partRow :: "user_row \<Rightarrow> order_row \<Rightarrow> int \<Rightarrow> uuid \<Rightarrow> int \<Rightarrow> payment_row" where
  "partRow manager order amount pid now = \<lparr>pay_id = pid, pay_organizationId = ord_organizationId order,
     pay_locationId = ord_locationId order, pay_orderId = ord_id order,
     pay_method = or_else (nvl (ord_paymentMethod order) []) ''cash'', pay_amount = - amount,
     pay_tipAmount = 0, pay_cashReceived = None, pay_changeGiven = None,
     pay_createdBy = Some (usr_id manager), pay_createdAt = now\<rparr>"

definition refundPart :: "uuid \<Rightarrow> user_row \<Rightarrow> uuid \<Rightarrow> partial_refund_dto \<Rightarrow> unit handler" where
  "refundPart orgId manager orderId dto =
     bindM (orderForUpdate orgId orderId) (\<lambda>order.
     thenM (throw_if (ord_status order = Cancelled) (BadRequestException ''Order is cancelled.''))
    (thenM (throw_if (ord_paidAt order = None) (BadRequestException ''Order is not paid.''))
    (bindM (paidSumFor (ord_id order)) (\<lambda>netPaid.
     thenM (throw_if (rf_amount dto > netPaid) (BadRequestException
              (''Refund exceeds the remaining refundable balance of $'' @ toFixed2 netPaid @ ''.'')))
    (bindM freshId (\<lambda>pid. bindM (getsM w_now) (\<lambda>now.
     thenM (insertPayments [partRow manager order (rf_amount dto) pid now])
           (emitM (Audit ''order.refund_partial'' (Some (usr_id manager)) (Some orgId) (ord_id order)
              (JObj [(''amount'', JInt (rf_amount dto)), (''reason'', str_json (rf_reason dto))]))))))))))"

definition refundPartialOnce ::
  "pin_compare \<Rightarrow> uuid \<Rightarrow> uuid \<Rightarrow> partial_refund_dto \<Rightarrow> json handler" where
  "refundPartialOnce cmp orgId orderId dto =
     bindM (verifyManagerPin cmp orgId (rf_managerPin dto) None) (\<lambda>m.
     bindM (orThrow m (ForbiddenException ''Invalid manager PIN.'')) (\<lambda>manager.
     thenM (transactionM (refundPart orgId manager orderId dto))
     (returnM (JObj [(''success'', JBool True),
        (''message'', JStr (''Refunded $'' @ toFixed2 (rf_amount dto)))]))))"

definition refundPartialOrder ::
  "cache_wiring \<Rightarrow> pin_compare \<Rightarrow> principal \<Rightarrow> uuid \<Rightarrow> partial_refund_dto \<Rightarrow> string option \<Rightarrow>
   json handler" where
  "refundPartialOrder cw cmp user orderId dto idempotencyKey =
     bindM (getRequiredOrg cw user) (\<lambda>orgId.
       withIdempotency (idempotencyService cw) ''refund-partial'' idempotencyKey
         (refundPartialOnce cmp orgId orderId dto))"

section \<open>Adjusting the items of an order\<close>

record adjust_dto =
  ad_managerPin :: string
  ad_items :: "cart_item list"
  ad_reason :: "string option"

record adjust_pricing =
  ap_items :: "resolved_item list"
  ap_subtotal :: int
  ap_discount :: int
  ap_taxRateBps :: int

text \<open>
  The discount an order carries is a fixed amount, taken off again up to the new subtotal. The
  service's \<open>discountAmountFor\<close> on a fixed discount is the register's (\<open>discountAmountForRow_eq\<close>).
\<close>

definition snapshotDiscount :: "order_row \<Rightarrow> int \<Rightarrow> int" where
  "snapshotDiscount order newSubtotal =
     discountAmountFor (case ord_discountAmount order of
         Some v \<Rightarrow> if 0 < v then Some (''fixed'', v) else None
       | None \<Rightarrow> None) newSubtotal"

definition adjustedItemRow :: "uuid \<Rightarrow> uuid \<Rightarrow> resolved_item \<Rightarrow> order_item_row" where
  "adjustedItemRow orderId iid it = \<lparr>oi_id = iid, oi_orderId = orderId,
     oi_menuItemId = ri_menuItemId it, oi_quantity = ri_quantity it, oi_price = ri_price it,
     oi_modifiers = snapshots_json (ri_modifiers it), oi_notes = ri_notes it,
     oi_course = None, oi_firedAt = None\<rparr>"

text \<open>Lines inside an audit entry; an absent field is written as null.\<close>

definition items_json :: "cart_item list \<Rightarrow> json" where
  "items_json is = JList (map (\<lambda>i. JObj [(''menuItemId'', JStr (ci_menuItemId i)),
     (''quantity'', JInt (ci_quantity i)),
     (''optionIds'', case ci_optionIds i of None \<Rightarrow> JNull | Some xs \<Rightarrow> JList (map JStr xs)),
     (''notes'', str_json (ci_notes i)), (''course'', opt_json (ci_course i)),
     (''priceOverride'', opt_json (ci_priceOverride i)),
     (''priceOverrideReason'', str_json (ci_priceOverrideReason i))]) is)"

definition resolved_json :: "resolved_item list \<Rightarrow> json" where
  "resolved_json ris = JList (map (\<lambda>i. JObj [(''menuItemId'', JStr (ri_menuItemId i)),
     (''quantity'', JInt (ri_quantity i)), (''price'', JInt (ri_price i)),
     (''modifiers'', nvl (snapshots_json (ri_modifiers i)) JNull), (''notes'', str_json (ri_notes i)),
     (''course'', opt_json (ri_course i)), (''taxExempt'', JBool (ri_taxExempt i)),
     (''priceOverridden'', JBool (ri_priceOverridden i)),
     (''priceOverrideReason'', str_json (ri_priceOverrideReason i))]) ris)"

text \<open>The totals of the adjusted order, from the row read under the lock.\<close>

definition adjustedTax :: "adjust_pricing \<Rightarrow> int" where
  "adjustedTax p = (let liveStart = ap_subtotal p - ap_discount p
     in js_round (of_int (liveStart * ap_taxRateBps p) / 10000))"

definition adjustedTotal :: "order_row \<Rightarrow> adjust_pricing \<Rightarrow> int" where
  "adjustedTotal orderLocked p = (let liveTip = nvl (ord_tipAmount orderLocked) 0;
        liveStart = ap_subtotal p - ap_discount p
     in max 0 liveStart + adjustedTax p + liveTip)"

definition adjustOrder :: "order_row \<Rightarrow> adjust_pricing \<Rightarrow> int \<Rightarrow> int \<Rightarrow> order_row \<Rightarrow> order_row" where
  "adjustOrder orderLocked p liveNetPaid now r =
     (let liveTotal = adjustedTotal orderLocked p;
          liveBalance = max 0 (liveTotal - liveNetPaid)
      in r\<lparr>ord_subtotal := Some (ap_subtotal p), ord_discountAmount := Some (ap_discount p),
           ord_taxAmount := Some (adjustedTax p), ord_totalAmount := liveTotal, ord_updatedAt := now,
           ord_paidAt := (if 0 < liveBalance then None else ord_paidAt orderLocked)\<rparr>)"

definition overwriteItems :: "uuid \<Rightarrow> resolved_item list \<Rightarrow> unit handler" where
  "overwriteItems orderId resolvedItems =
     thenM (deleteOrderItems orderId)
       (whenM (resolvedItems \<noteq> []) (bindM (freshIds (length resolvedItems)) (\<lambda>iids.
          insertOrderItems (map2 (adjustedItemRow orderId) iids resolvedItems))))"

definition refundExcess :: "user_row \<Rightarrow> order_row \<Rightarrow> int \<Rightarrow> int \<Rightarrow> unit handler" where
  "refundExcess manager order liveNetPaid liveTotal =
     whenM (liveTotal < liveNetPaid) (bindM freshId (\<lambda>pid. bindM (getsM w_now) (\<lambda>now.
       let refundAmt = min liveNetPaid (liveNetPaid - liveTotal)
       in insertPayments [partRow manager order refundAmt pid now])))"

definition adjustInTx ::
  "uuid \<Rightarrow> user_row \<Rightarrow> order_row \<Rightarrow> adjust_pricing \<Rightarrow> adjust_dto \<Rightarrow> unit handler" where
  "adjustInTx orgId manager order p dto =
     bindM (orderForUpdate orgId (ord_id order)) (\<lambda>orderLocked.
     bindM (paidSumFor (ord_id orderLocked)) (\<lambda>liveNetPaid.
     bindM (getsM w_now) (\<lambda>now.
     let liveTotal = adjustedTotal orderLocked p in
     thenM (updateOrder (ord_id order) (adjustOrder orderLocked p liveNetPaid now))
    (thenM (overwriteItems (ord_id order) (ap_items p))
    (thenM (refundExcess manager order liveNetPaid liveTotal)
     (emitM (Audit ''order.adjust_items'' (Some (usr_id manager)) (Some orgId) (ord_id order)
        (JObj [(''items'', items_json (ad_items dto)), (''totalAmount'', JInt liveTotal),
               (''subtotal'', JInt (ap_subtotal p)), (''discountAmount'', JInt (ap_discount p)),
               (''taxAmount'', JInt (adjustedTax p)), (''reason'', str_json (ad_reason dto)),
               (''balanceDiff'', JInt (liveTotal - ord_totalAmount order))]))))))))"

text \<open>The part of an adjustment behind the PIN check.\<close>

definition adjustApproved :: "uuid \<Rightarrow> uuid \<Rightarrow> adjust_dto \<Rightarrow> user_row \<Rightarrow> json handler" where
  "adjustApproved orgId orderId dto manager =
     bindM (readDb (\<lambda>d. findOrder d orgId orderId)) (\<lambda>o'.
     bindM (orThrow o' (NotFoundException ''Order not found.'')) (\<lambda>order.
     bindM (priceCartItems orgId (ad_items dto)) (\<lambda>(resolvedItems, newSubtotal).
     bindM (getTaxRate (ord_locationId order)) (\<lambda>taxRateBps.
     let newDiscountAmount = snapshotDiscount order newSubtotal;
         taxableBase = max 0 (newSubtotal - newDiscountAmount);
         newTax = js_round (of_int (taxableBase * taxRateBps) / 10000);
         newTotal = taxableBase + newTax + nvl (ord_tipAmount order) 0;
         balanceDiff = newTotal - ord_totalAmount order
     in
     thenM (transactionM (adjustInTx orgId manager order
              \<lparr>ap_items = resolvedItems, ap_subtotal = newSubtotal, ap_discount = newDiscountAmount,
               ap_taxRateBps = taxRateBps\<rparr> dto))
    (thenM (emitM (EmitOrderStatus orgId ''order.updated'' (ord_id order) (ord_status order)))
     (returnM (JObj [(''success'', JBool True),
        (''message'', JStr (if balanceDiff < 0
            then ''Adjusted. Refunded $'' @ toFixed2 \<bar>balanceDiff\<bar> @ ''.'' else ''Items adjusted.'')),
        (''newTotal'', JInt newTotal), (''balanceDiff'', JInt balanceDiff)])))))))"

definition adjustOrderItems ::
  "cache_wiring \<Rightarrow> pin_compare \<Rightarrow> principal \<Rightarrow> uuid \<Rightarrow> adjust_dto \<Rightarrow> json handler" where
  "adjustOrderItems cw cmp user orderId dto =
     bindM (getRequiredOrg cw user) (\<lambda>orgId.
     bindM (verifyManagerPin cmp orgId (ad_managerPin dto) None) (\<lambda>m.
     bindM (orThrow m (ForbiddenException ''Invalid manager PIN.'')) (adjustApproved orgId orderId dto)))"

section \<open>What a transaction on an order does\<close>

lemma assessPayment_Inr:
  assumes "assessPayment order prior dto = Inr out"
  shows "ord_paidAt order = None" "ord_status order \<noteq> Cancelled" "0 < po_applied out" "0 \<le> po_tip out"
    "po_remaining out = ord_totalAmount order + po_tip out - prior - po_applied out"
    "0 \<le> po_remaining out" "po_coversTotal out \<longleftrightarrow> po_remaining out = 0"
    "pd_method dto \<noteq> ''cash'' \<Longrightarrow> po_cashReceived out = None"
    "po_changeGiven out = map_option (\<lambda>c. c - po_applied out) (po_cashReceived out)"
    "po_cashReceived out = Some c \<Longrightarrow> po_applied out \<le> c"
  using assms by (auto simp: assessPayment_def Let_def split: if_splits option.splits)

lemma takePayment_Inr:
  assumes "takePayment g user oid dto w = (Inr out, w')"
  obtains order row meth where "findOrder (w_db w) g oid = Some order"
    and "assessPayment order (paidSum (w_db w) oid) dto = Inr out"
    and "row = paymentRow g user order oid dto out (w_ids w (w_nextId w)) (w_now w)"
    and "payment_checks (w_db w) row"
    and "w_db w' = (w_db w)\<lparr>t_payments := t_payments (w_db w) @ [row],
       t_orders := update_where (\<lambda>r. ord_id r = oid) (settleOrder order out meth (w_now w)) (t_orders (w_db w))\<rparr>"
proof -
  from assms obtain order where order: "findOrder (w_db w) g oid = Some order"
    unfolding takePayment_def orderForUpdate_def
    by (cases "findOrder (w_db w) g oid") (simp_all add: bindM_assoc prog_step)
  note run = assms[unfolded takePayment_def orderForUpdate_def paidSumFor_def]
  have out: "assessPayment order (paidSum (w_db w) oid) dto = Inr out"
    using run order
    by (cases "assessPayment order (paidSum (w_db w) oid) dto")
       (simp_all add: bindM_assoc prog_step thenM_insertPayments split: if_splits)
  let ?row = "paymentRow g user order oid dto out (w_ids w (w_nextId w)) (w_now w)"
  have "payment_checks (w_db w) ?row"
    using run order out by (simp add: bindM_assoc prog_step thenM_insertPayments split: if_splits)
  moreover from this have "w' = w\<lparr>w_nextId := Suc (w_nextId w), w_db := (w_db w)\<lparr>t_payments := t_payments (w_db w) @ [?row],
       t_orders := update_where (\<lambda>r. ord_id r = oid) (settleOrder order out
         (summaryMethod ((w_db w)\<lparr>t_payments := t_payments (w_db w) @ [?row]\<rparr>) oid (pd_method dto)) (w_now w))
         (t_orders (w_db w))\<rparr>\<rparr>"
    using run order out by (simp add: bindM_assoc prog_step thenM_insertPayments)
  ultimately show thesis
    using that[OF order out refl] by simp
qed

lemma payment_checks_users [simp]:
  "payment_checks (d\<lparr>t_orders := os\<rparr>) = payment_checks d"
  "payment_checks (d\<lparr>t_orderItems := is\<rparr>) = payment_checks d"
  by (auto simp: fun_eq_iff payment_checks_def split: option.split)

lemma refundSplit_done [simp]: "remaining \<le> 0 \<Longrightarrow> refundSplit remaining ps = []"
  by (induction ps) auto

lemma refundSplit_sum:
  assumes "remaining \<le> sum_by (\<lambda>p. max 0 (pay_amount p)) ps" and "0 \<le> remaining"
  shows "sum_by snd (refundSplit remaining ps) = remaining"
  using assms by (induction remaining ps rule: refundSplit.induct) (auto simp: Let_def min_def max_def split: if_splits)

lemma refundSplit_each:
  "(p, a) \<in> set (refundSplit remaining ps) \<Longrightarrow> p \<in> set ps \<and> 0 < a \<and> a \<le> pay_amount p"
  by (induction remaining ps rule: refundSplit.induct) (auto simp: Let_def split: if_splits)

lemma sum_le_positive_part: "sum_by f xs \<le> sum_by (\<lambda>x. max 0 (f x)) xs"
  by (rule sum_by_mono) simp

lemma refundRow_fields [simp]:
  "pay_amount (refundRow m now i pa) = - snd pa" "pay_orderId (refundRow m now i pa) = pay_orderId (fst pa)"
  "pay_method (refundRow m now i pa) = pay_method (fst pa)"
  "pay_createdBy (refundRow m now i pa) = Some m" "pay_organizationId (refundRow m now i pa) = pay_organizationId (fst pa)"
  by (cases pa; simp add: refundRow_def Let_def)+

lemma map2_refundRow_sum:
  "length ids = length xs \<Longrightarrow> sum_by pay_amount (map2 (refundRow m now) ids xs) = - sum_by snd xs"
  by (induction ids xs rule: list_induct2) simp_all

lemma voidOrder_Inr:
  assumes "voidOrder g manager oid reason w = (Inr u, w')"
  obtains order ids where "findOrder (w_db w) g oid = Some order" and "ord_status order \<noteq> Cancelled"
    and "ord_paidAt order \<noteq> None \<or> truthy (ord_paymentMethod order)" and "0 < paidSum (w_db w) oid"
    and "length ids = length (refundSplit (paidSum (w_db w) oid) (paymentsOf (w_db w) oid))"
    and "list_all (payment_checks (w_db w)) (map2 (refundRow (usr_id manager) (w_now w)) ids
           (refundSplit (paidSum (w_db w) oid) (paymentsOf (w_db w) oid)))"
    and "w_db w' = (w_db w)\<lparr>
       t_orders := update_where (\<lambda>r. ord_id r = oid)
         (\<lambda>r. r\<lparr>ord_status := Cancelled, ord_updatedAt := w_now w\<rparr>) (t_orders (w_db w)),
       t_payments := t_payments (w_db w) @ map2 (refundRow (usr_id manager) (w_now w)) ids
         (refundSplit (paidSum (w_db w) oid) (paymentsOf (w_db w) oid))\<rparr>"
proof -
  let ?ps = "refundSplit (paidSum (w_db w) oid) (paymentsOf (w_db w) oid)"
  let ?ids = "map (w_ids w) [w_nextId w..<w_nextId w + length ?ps]"
  from assms obtain order where order: "findOrder (w_db w) g oid = Some order"
    unfolding voidOrder_def orderForUpdate_def
    by (cases "findOrder (w_db w) g oid") (simp_all add: bindM_assoc prog_step)
  then have [simp]: "ord_id order = oid"
    by (auto dest: findOrder_SomeD)
  note run = assms[unfolded voidOrder_def orderForUpdate_def]
  have w': "ord_status order \<noteq> Cancelled" "ord_paidAt order \<noteq> None \<or> truthy (ord_paymentMethod order)"
    "0 < paidSum (w_db w) oid"
    using run order
    by (auto simp: bindM_assoc prog_step Let_def paidSum_def[symmetric] split: if_splits)
  show thesis
    by (rule that[OF order w', of ?ids])
       (use run order w' in \<open>auto simp: bindM_assoc prog_step Let_def paidSum_def[symmetric] whenM_def
          thenM_insertPayments split: if_splits\<close>)
qed

lemma refundPart_Inr:
  assumes "refundPart g manager oid dto w = (Inr u, w')"
  obtains order row where "findOrder (w_db w) g oid = Some order" and "ord_status order \<noteq> Cancelled"
    and "ord_paidAt order \<noteq> None" and "rf_amount dto \<le> paidSum (w_db w) oid"
    and "row = partRow manager order (rf_amount dto) (w_ids w (w_nextId w)) (w_now w)"
    and "payment_checks (w_db w) row"
    and "w_db w' = (w_db w)\<lparr>t_payments := t_payments (w_db w) @ [row]\<rparr>"
proof -
  from assms obtain order where order: "findOrder (w_db w) g oid = Some order"
    unfolding refundPart_def orderForUpdate_def
    by (cases "findOrder (w_db w) g oid") (simp_all add: bindM_assoc prog_step)
  then have [simp]: "ord_id order = oid"
    by (auto dest: findOrder_SomeD)
  show thesis
    by (rule that[OF order _ _ _ refl])
       (use assms order in \<open>simp_all add: refundPart_def orderForUpdate_def paidSumFor_def bindM_assoc
          prog_step thenM_insertPayments partRow_def split: if_splits\<close>, auto)
qed

lemma refundPart_rejects:
  assumes "findOrder (w_db w) g oid = Some order" and "ord_paymentMethod order = Some ''split''"
  shows "\<exists>e w'. refundPart g manager oid dto w = (Inl e, w')"
  using assms by (cases "findOrder (w_db w) g oid")
    (auto simp: refundPart_def orderForUpdate_def paidSumFor_def bindM_assoc
      prog_step thenM_insertPayments payment_checks_def partRow_def or_else_def payment_methods_def)

lemma overwriteItems_Inr:
  assumes "overwriteItems oid ris w = (Inr u, w')"
  obtains iids n where "length iids = length ris"
    and "list_all item_checks (map2 (adjustedItemRow oid) iids ris)"
    and "w' = w\<lparr>w_nextId := n, w_db := (w_db w)\<lparr>t_orderItems :=
       filter (\<lambda>r. oi_orderId r \<noteq> oid) (t_orderItems (w_db w)) @ map2 (adjustedItemRow oid) iids ris\<rparr>\<rparr>"
proof -
  let ?iids = "map (w_ids w) [w_nextId w..<w_nextId w + length ris]"
  have "list_all item_checks (map2 (adjustedItemRow oid) ?iids ris) \<and>
    w' = w\<lparr>w_nextId := w_nextId w + length ris, w_db := (w_db w)\<lparr>t_orderItems :=
       filter (\<lambda>r. oi_orderId r \<noteq> oid) (t_orderItems (w_db w)) @ map2 (adjustedItemRow oid) ?iids ris\<rparr>\<rparr>"
    using assms by (cases "ris = []")
      (auto simp: overwriteItems_def deleteOrderItems_def whenM_def insertOrderItems_Inr)
  then show thesis using that[of ?iids] by simp
qed

lemma refundExcess_Inr:
  assumes "refundExcess manager order net tot w = (Inr u, w')"
  obtains rows n where "rows = [] \<and> net \<le> tot \<or>
      (\<exists>pid. tot < net \<and> rows = [partRow manager order (min net (net - tot)) pid (w_now w)])"
    and "list_all (payment_checks (w_db w)) rows"
    and "w' = w\<lparr>w_nextId := n, w_db := (w_db w)\<lparr>t_payments := t_payments (w_db w) @ rows\<rparr>\<rparr>"
proof (cases "tot < net")
  case True
  then show thesis
    using assms that[of "[partRow manager order (min net (net - tot)) (w_ids w (w_nextId w)) (w_now w)]"
        "Suc (w_nextId w)"]
    by (auto simp: refundExcess_def Let_def insertPayments_Inr)
next
  case False
  with assms have "w' = w" by (simp add: refundExcess_def)
  with False show thesis
    by (intro that[of "[]" "w_nextId w"]) simp_all
qed

lemma adjustInTx_Inr:
  assumes "adjustInTx g manager order p dto w = (Inr u, w')"
    and "findOrder (w_db w) g (ord_id order) = Some order"
    and "net = paidSum (w_db w) (ord_id order)" and "tot = adjustedTotal order p"
  obtains iids rows where "length iids = length (ap_items p)"
    and "list_all item_checks (map2 (adjustedItemRow (ord_id order)) iids (ap_items p))"
    and "rows = [] \<and> net \<le> tot \<or>
      (\<exists>pid. tot < net \<and> rows = [partRow manager order (min net (net - tot)) pid (w_now w)])"
    and "list_all (payment_checks (w_db w)) rows"
    and "w_db w' = (w_db w)\<lparr>
       t_orders := update_where (\<lambda>r. ord_id r = ord_id order) (adjustOrder order p net (w_now w)) (t_orders (w_db w)),
       t_orderItems := filter (\<lambda>r. oi_orderId r \<noteq> ord_id order) (t_orderItems (w_db w)) @
         map2 (adjustedItemRow (ord_id order)) iids (ap_items p),
       t_payments := t_payments (w_db w) @ rows\<rparr>"
proof -
  let ?w1 = "w\<lparr>w_db := (w_db w)\<lparr>t_orders := update_where (\<lambda>r. ord_id r = ord_id order)
    (adjustOrder order p net (w_now w)) (t_orders (w_db w))\<rparr>\<rparr>"
  from assms have "thenM (overwriteItems (ord_id order) (ap_items p))
    (thenM (refundExcess manager order net tot)
     (emitM (Audit ''order.adjust_items'' (Some (usr_id manager)) (Some g) (ord_id order)
        (JObj [(''items'', items_json (ad_items dto)), (''totalAmount'', JInt tot),
               (''subtotal'', JInt (ap_subtotal p)), (''discountAmount'', JInt (ap_discount p)),
               (''taxAmount'', JInt (adjustedTax p)), (''reason'', str_json (ad_reason dto)),
               (''balanceDiff'', JInt (tot - ord_totalAmount order))])))) ?w1 = (Inr u, w')"
    by (simp add: adjustInTx_def orderForUpdate_def paidSumFor_def bindM_assoc prog_step Let_def)
  then obtain w2 w3 where w2: "overwriteItems (ord_id order) (ap_items p) ?w1 = (Inr (), w2)"
    and w3: "refundExcess manager order net tot w2 = (Inr (), w3)" and w': "w_db w' = w_db w3"
    by (auto elim!: thenM_InrE)
  from w2 obtain iids n where ii: "length iids = length (ap_items p)"
    "list_all item_checks (map2 (adjustedItemRow (ord_id order)) iids (ap_items p))"
    "w2 = ?w1\<lparr>w_nextId := n, w_db := (w_db ?w1)\<lparr>t_orderItems :=
       filter (\<lambda>r. oi_orderId r \<noteq> ord_id order) (t_orderItems (w_db ?w1)) @
       map2 (adjustedItemRow (ord_id order)) iids (ap_items p)\<rparr>\<rparr>"
    by (rule overwriteItems_Inr)
  from w3 obtain rows n' where rows: "rows = [] \<and> net \<le> tot \<or>
      (\<exists>pid. tot < net \<and> rows = [partRow manager order (min net (net - tot)) pid (w_now w2)])"
    "list_all (payment_checks (w_db w2)) rows"
    "w3 = w2\<lparr>w_nextId := n', w_db := (w_db w2)\<lparr>t_payments := t_payments (w_db w2) @ rows\<rparr>\<rparr>"
    by (rule refundExcess_Inr)
  show thesis
    by (rule that[OF ii(1,2)]) (use rows w' ii(3) in auto)
qed

section \<open>Around the transaction\<close>

definition sites :: "world \<Rightarrow> location_row list" where
  "sites w = t_locations (w_db w)"

lemma preserves_sites_basic [frame]:
  "preserves sites (emitM e)" "preserves sites freshId" "preserves sites (freshIds n)"
  "preserves sites (updateOrder oid f)" "preserves sites (insertPayments ps)"
  "preserves sites (insertOrderItems rs)" "preserves sites (deleteOrderItems oid)"
  by (auto simp: preserves_def sites_def freshIds_run insertPayments_def insertOrderItems_def
      deleteOrderItems_def prog_step thenM_def bindM_def throw_if_def)

lemma preserves_sites_transactionM [frame]: "preserves sites m \<Longrightarrow> preserves sites (transactionM m)"
proof (rule preservesI)
  fix w r w' assume "preserves sites m" and "transactionM m w = (r, w')"
  then show "sites w' = sites w"
    using preservesD[of sites m w]
    by (cases "m w") (auto simp: transactionM_def sites_def split: sum.splits)
qed

lemma preserves_sites_pin [frame]: "preserves sites (verifyManagerPin cmp g pin a)"
proof -
  have "preserves sites (recordPinFailure g u r)" "preserves sites (registerFailedPinAttempt uid)"
    "preserves sites (clearPinFailures uid)" for g u r uid
    unfolding recordPinFailure_def registerFailedPinAttempt_def clearPinFailures_def
    by (auto intro!: frame preserves_writeDb simp: sites_def)
  then show ?thesis
    unfolding verifyManagerPin_def verifyActingPin_def verifyOrgPin_def
    by (auto intro!: frame split: option.split)
qed

lemma preserves_sites_org [frame]: "preserves sites (getRequiredOrg cw user)"
  by (rule preservesI) (simp add: sites_def uncached_parts(1)[OF getRequiredOrg_uncached])

lemma preserves_sites_print [frame]: "preserves sites (printForEvents g fo evs u)"
proof -
  have "preserves sites (createPrintJob g oid ty pr pl)" for g oid ty pr pl
    unfolding createPrintJob_def Let_def
    by (auto intro!: frame preserves_writeDb simp: sites_def)
  then show ?thesis
    unfolding printForEvents_def printDocument_def Let_def by (intro frame)
qed

lemma getOrderByIdForOrg_reads:
  "getOrderByIdForOrg g oid w = (case findOrder (w_db w) g oid of
     None \<Rightarrow> (Inl (NotFoundException ''Order not found.''), w)
   | Some r \<Rightarrow> (Inr \<lparr>fo_order = r, fo_items = map (fullItem (w_db w)) (itemsOf (w_db w) oid),
                 fo_payments = paymentsOf (w_db w) oid\<rparr>, w))"
  by (simp add: getOrderByIdForOrg_def prog_step split: option.split)

lemma preserves_getOrder [frame]: "preserves f (getOrderByIdForOrg g oid)"
  unfolding getOrderByIdForOrg_def by (intro frame)

text \<open>
  A program that runs one transaction after a prefix and before a suffix that both leave the
  ledger alone changes the ledger exactly when the body of the transaction returned.
\<close>

lemma tx_ledger:
  assumes "bindM (transactionM m) n w = (r, w')" and "\<And>a. preserves ledger (n a)"
  shows "ledger w' = ledger w \<or> (\<exists>a w1. m w = (Inr a, w1) \<and> ledger w' = ledger w1)"
proof (cases "m w")
  case (Pair x w1)
  show ?thesis
  proof (cases x)
    case (Inl e)
    with Pair assms(1) have "w' = w1\<lparr>w_db := w_db w\<rparr>"
      by (simp add: bindM_def transactionM_Inl)
    then show ?thesis by (simp add: ledger_def)
  next
    case (Inr a)
    with Pair assms(1) have "n a w1 = (r, w')"
      by (simp add: bindM_def transactionM_def)
    then have "ledger w' = ledger w1"
      using preservesD[OF assms(2)] by blast
    with Pair Inr show ?thesis by blast
  qed
qed

lemma tx_ledger':
  assumes "thenM (transactionM m) n w = (r, w')" and "preserves ledger n"
  shows "ledger w' = ledger w \<or> (\<exists>a w1. m w = (Inr a, w1) \<and> ledger w' = ledger w1)"
  using tx_ledger[of m "\<lambda>_. n"] assms unfolding thenM_def by blast

text \<open>The suffix of a payment: a second read of the order, printing, audit and the realtime event.\<close>

lemma recordPayment_ledger:
  assumes "recordPayment cw user oid dto getOrderByIdForOrg w = (r, w')"
  obtains "ledger w' = ledger w" and "\<exists>e. r = Inl e"
  | g out w1 w2 where "getRequiredOrg cw user w = (Inr g, w1)" and "uncached w1 = uncached w"
      and "takePayment g user oid dto w1 = (Inr out, w2)" and "ledger w' = ledger w2"
      and "\<exists>res. r = Inr res \<and> pr_applied res = po_applied out \<and> pr_changeGiven res = po_changeGiven out \<and>
        pr_remaining res = po_remaining out \<and> pr_paid res = po_coversTotal out"
proof -
  obtain x w1 where org: "getRequiredOrg cw user w = (x, w1)" by (cases "getRequiredOrg cw user w")
  then have u: "uncached w1 = uncached w" by (rule getRequiredOrg_uncached)
  show thesis
  proof (cases x)
    case (Inl e)
    with org assms that(1) u show thesis
      by (auto simp: recordPayment_def bindM_def dest: uncached_parts)
  next
    case (Inr g)
    obtain y w2 where take: "takePayment g user oid dto w1 = (y, w2)" by (cases "takePayment g user oid dto w1")
    show thesis
    proof (cases y)
      case (Inl e)
      with org Inr assms take that(1) u show thesis
        by (auto simp: recordPayment_def bindM_def transactionM_def getOrderByIdForOrg_reads ledger_def
            split: option.splits dest!: uncached_parts)
    next
      case (Inr out)
      obtain order meth where order: "findOrder (w_db w1) g oid = Some order"
        and upd: "t_orders (w_db w2) = update_where (\<lambda>r. ord_id r = oid) (settleOrder order out meth (w_now w1)) (t_orders (w_db w1))"
        using take Inr by (auto elim!: takePayment_Inr)
      have "findOrder (w_db w2) g oid \<noteq> None"
        using order unfolding findOrder_def upd by (simp add: settleOrder_def)
      then obtain order' where order': "findOrder (w_db w2) g oid = Some order'" by blast
      obtain w3 where w3: "whenM b (printForEvents g fo [OnPaid] False) w2 = (Inr (), w3 b fo)
          \<and> ledger (w3 b fo) = ledger w2" for b fo
      proof -
        have "\<exists>w3. whenM b (printForEvents g fo [OnPaid] False) w2 = (Inr (), w3) \<and> ledger w3 = ledger w2" for b fo
          using events_sink.sink_answers[where g = g and fo = fo and w = w2]
            preservesD[OF events_sink.sink_ledger] by (cases b) fastforce+
        then show thesis using that by metis
      qed
      show thesis
        by (rule that(2)[OF _ u, of g out w2])
           (use org assms take \<open>x = Inr g\<close> Inr order order' w3 in
            \<open>auto simp: recordPayment_def bindM_def thenM_def transactionM_def getOrderByIdForOrg_reads ledger_def\<close>)
    qed
  qed
qed

section \<open>Payments\<close>

lemma paidSum_append:
  "paidSum (d\<lparr>t_payments := t_payments d @ ps, t_orders := os\<rparr>) oid =
     paidSum d oid + sum_by pay_amount (filter (\<lambda>p. pay_orderId p = oid) ps)"
  by (simp add: paidSum_def paymentsOf_def)

lemma settleOrder_fields [simp]:
  "ord_id (settleOrder o' out m now r) = ord_id r"
  "ord_organizationId (settleOrder o' out m now r) = ord_organizationId r"
  "ord_totalAmount (settleOrder o' out m now r) = ord_totalAmount o' + po_tip out"
  "ord_tipAmount (settleOrder o' out m now r) = Some (nvl (ord_tipAmount o') 0 + po_tip out)"
  "ord_paidAt (settleOrder o' out m now r) = (if po_coversTotal out then Some now else ord_paidAt r)"
  by (simp_all add: settleOrder_def)

lemma paymentRow_fields [simp]:
  "pay_orderId (paymentRow g u o' oid dto out i now) = oid"
  "pay_amount (paymentRow g u o' oid dto out i now) = po_applied out"
  "pay_tipAmount (paymentRow g u o' oid dto out i now) = po_tip out"
  "pay_cashReceived (paymentRow g u o' oid dto out i now) = po_cashReceived out"
  "pay_createdBy (paymentRow g u o' oid dto out i now) = Some (pr_id u)"
  by (simp_all add: paymentRow_def)

lemma filter_update_other:
  "(\<And>r. ord_id (f r) = ord_id r) \<Longrightarrow>
   filter (\<lambda>r. ord_id r \<noteq> oid) (update_where (\<lambda>r. ord_id r = oid) f rs) = filter (\<lambda>r. ord_id r \<noteq> oid) rs"
  by (induction rs) auto

lemma findOrder_update_where:
  "(\<And>r. ord_id (f r) = ord_id r) \<Longrightarrow> (\<And>r. ord_organizationId (f r) = ord_organizationId r) \<Longrightarrow>
   t_orders d' = update_where (\<lambda>r. ord_id r = oid) f (t_orders d) \<Longrightarrow> findOrder d g oid = Some r \<Longrightarrow>
   findOrder d' g oid = Some (f r)"
  by (auto simp: findOrder_def dest: first_row_SomeD)

lemma ledger_parts:
  "ledger w' = ledger w \<Longrightarrow> t_orders (w_db w') = t_orders (w_db w) \<and>
     t_orderItems (w_db w') = t_orderItems (w_db w) \<and> t_payments (w_db w') = t_payments (w_db w)"
  by (simp add: ledger_def)

lemma ledger_reads:
  assumes "ledger w' = ledger w"
  shows "findOrder (w_db w') g oid = findOrder (w_db w) g oid"
    "paidSum (w_db w') oid = paidSum (w_db w) oid" "paymentsOf (w_db w') oid = paymentsOf (w_db w) oid"
  using ledger_parts[OF assms] by (simp_all add: findOrder_def paidSum_def paymentsOf_def)

text \<open>
  C3. A recorded payment never overpays: it adds one positive payment to an unpaid order of the
  organization, what is paid plus what it says remains is the order's total with the tip, the
  order is paid exactly when nothing remains, change is what was handed over beyond the payment,
  and no other order, line or payment changes.
\<close>

theorem recordPayment_settles:
  assumes "recordPayment cw user oid dto getOrderByIdForOrg w = (Inr res, w')"
  shows "\<exists>g order order' p. findOrder (w_db w) g oid = Some order \<and> ord_paidAt order = None \<and>
    findOrder (w_db w') g oid = Some order' \<and>
    t_payments (w_db w') = t_payments (w_db w) @ [p] \<and> pay_orderId p = oid \<and>
    pay_amount p = pr_applied res \<and> 0 < pr_applied res \<and> 0 \<le> pr_remaining res \<and>
    0 \<le> pay_tipAmount p \<and> ord_totalAmount order' = ord_totalAmount order + pay_tipAmount p \<and>
    paidSum (w_db w') oid + pr_remaining res = ord_totalAmount order' \<and>
    (pr_paid res \<longleftrightarrow> pr_remaining res = 0) \<and> (pr_paid res \<longleftrightarrow> ord_paidAt order' \<noteq> None) \<and>
    (case pr_changeGiven res of None \<Rightarrow> True
     | Some c \<Rightarrow> 0 \<le> c \<and> pay_cashReceived p = Some (pr_applied res + c)) \<and>
    filter (\<lambda>r. ord_id r \<noteq> oid) (t_orders (w_db w')) = filter (\<lambda>r. ord_id r \<noteq> oid) (t_orders (w_db w)) \<and>
    t_orderItems (w_db w') = t_orderItems (w_db w)"
proof -
  from assms obtain g out w1 w2 where u: "uncached w1 = uncached w"
    and take: "takePayment g user oid dto w1 = (Inr out, w2)" and l: "ledger w' = ledger w2"
    and res: "pr_applied res = po_applied out" "pr_changeGiven res = po_changeGiven out"
      "pr_remaining res = po_remaining out" "pr_paid res = po_coversTotal out"
    by (rule recordPayment_ledger) auto
  from take obtain order row meth where o: "findOrder (w_db w1) g oid = Some order"
    and out: "assessPayment order (paidSum (w_db w1) oid) dto = Inr out"
    and row: "row = paymentRow g user order oid dto out (w_ids w1 (w_nextId w1)) (w_now w1)"
    and db: "w_db w2 = (w_db w1)\<lparr>t_payments := t_payments (w_db w1) @ [row],
       t_orders := update_where (\<lambda>r. ord_id r = oid) (settleOrder order out meth (w_now w1)) (t_orders (w_db w1))\<rparr>"
    by (rule takePayment_Inr)
  note a = assessPayment_Inr[OF out] and d = uncached_parts(1)[OF u]
  have o': "findOrder (w_db w') g oid = Some (settleOrder order out meth (w_now w1) order)"
    unfolding ledger_reads[OF l] by (rule findOrder_update_where[OF _ _ _ o]) (simp_all add: db)
  have change: "case pr_changeGiven res of None \<Rightarrow> True
     | Some c \<Rightarrow> 0 \<le> c \<and> pay_cashReceived row = Some (pr_applied res + c)"
    using a(9,10) by (cases "po_cashReceived out") (simp_all add: res row)
  show ?thesis
    by (rule exI[of _ g], rule exI[of _ order], rule exI[of _ "settleOrder order out meth (w_now w1) order"],
        rule exI[of _ row])
       (use o o' a(1-7) change res ledger_parts[OF l] ledger_reads(2)[OF l] in
        \<open>auto simp: db row d filter_update_other paidSum_append\<close>)
qed

text \<open>
  The public-API principal is no user, so the recorder of its payment violates the foreign key
  of the payments table: every payment it records fails and changes nothing.
\<close>

theorem api_payment_fails:
  assumes "g \<noteq> []" and "''public-api'' \<notin> usr_id ` set (t_users (w_db w))"
  shows "\<exists>e w'. recordPayment cw (apiPrincipal g) oid dto getOrderByIdForOrg w = (Inl e, w') \<and>
    ledger w' = ledger w"
proof -
  obtain r w' where run: "recordPayment cw (apiPrincipal g) oid dto getOrderByIdForOrg w = (r, w')"
    by (cases "recordPayment cw (apiPrincipal g) oid dto getOrderByIdForOrg w")
  have no: False if "takePayment g' (apiPrincipal g) oid dto w1 = (Inr out, w2)" "w_db w1 = w_db w" for g' out w1 w2
    using that(1) by (rule takePayment_Inr)
      (use assms(2) that(2) in \<open>force simp: payment_checks_def apiPrincipal_def list_ex_iff\<close>)
  from run show ?thesis
    by (rule recordPayment_ledger) (use run no uncached_parts(1) in blast)+
qed

section \<open>Refunds\<close>

lemma refundSplit_rows_of:
  "set ps \<subseteq> {p. pay_orderId p = oid} \<Longrightarrow> length ids = length (refundSplit n ps) \<Longrightarrow>
   filter (\<lambda>p. pay_orderId p = oid) (map2 (refundRow m now) ids (refundSplit n ps)) =
     map2 (refundRow m now) ids (refundSplit n ps)"
  by (rule filter_True) (auto dest!: set_zip_rightD refundSplit_each)

lemma voidOrder_paid:
  assumes "voidOrder g manager oid reason w = (Inr u, w')"
  obtains order order' rows where "findOrder (w_db w) g oid = Some order" and "ord_status order \<noteq> Cancelled"
    and "findOrder (w_db w') g oid = Some order'" and "ord_status order' = Cancelled"
    and "t_payments (w_db w') = t_payments (w_db w) @ rows" and "paidSum (w_db w') oid = 0"
    and "\<forall>r \<in> set rows. pay_orderId r = oid \<and> pay_createdBy r = Some (usr_id manager) \<and>
      (\<exists>p \<in> set (paymentsOf (w_db w) oid). pay_method r = pay_method p \<and>
         - pay_amount p \<le> pay_amount r \<and> pay_amount r < 0)"
    and "t_orders (w_db w') = update_where (\<lambda>r. ord_id r = oid)
         (\<lambda>r. r\<lparr>ord_status := Cancelled, ord_updatedAt := w_now w\<rparr>) (t_orders (w_db w))"
    and "t_orderItems (w_db w') = t_orderItems (w_db w)"
proof -
  let ?ps = "paymentsOf (w_db w) oid" and ?n = "paidSum (w_db w) oid"
  let ?split = "refundSplit ?n ?ps"
  from assms obtain order ids where o: "findOrder (w_db w) g oid = Some order" "ord_status order \<noteq> Cancelled"
    and pos: "0 < ?n" and len: "length ids = length ?split"
    and db: "w_db w' = (w_db w)\<lparr>
       t_orders := update_where (\<lambda>r. ord_id r = oid)
         (\<lambda>r. r\<lparr>ord_status := Cancelled, ord_updatedAt := w_now w\<rparr>) (t_orders (w_db w)),
       t_payments := t_payments (w_db w) @ map2 (refundRow (usr_id manager) (w_now w)) ids ?split\<rparr>"
    by (rule voidOrder_Inr)
  let ?rows = "map2 (refundRow (usr_id manager) (w_now w)) ids ?split"
  have oids: "set ?ps \<subseteq> {p. pay_orderId p = oid}"
    by (auto simp: paymentsOf_def)
  have "sum_by snd ?split = ?n"
    using pos by (intro refundSplit_sum) (auto simp: paidSum_def sum_le_positive_part)
  then have "sum_by pay_amount ?rows = - ?n"
    using map2_refundRow_sum[OF len] by simp
  moreover have "filter (\<lambda>p. pay_orderId p = oid) ?rows = ?rows"
    using refundSplit_rows_of[OF oids len] .
  ultimately have zero: "paidSum (w_db w') oid = 0"
    by (simp add: db paidSum_def paymentsOf_def)
  have o': "findOrder (w_db w') g oid = Some (order\<lparr>ord_status := Cancelled, ord_updatedAt := w_now w\<rparr>)"
    by (rule findOrder_update_where[OF _ _ _ o(1)]) (simp_all add: db)
  have rows: "\<forall>r \<in> set ?rows. pay_orderId r = oid \<and> pay_createdBy r = Some (usr_id manager) \<and>
      (\<exists>p \<in> set ?ps. pay_method r = pay_method p \<and> - pay_amount p \<le> pay_amount r \<and> pay_amount r < 0)"
    using oids by (auto dest!: set_zip_rightD refundSplit_each)
  show thesis
    by (rule that[OF o o' _ _ zero rows]) (simp_all add: db)
qed

text \<open>
  A user who may approve with a PIN: a live manager of the organization with an unlocked PIN that
  the entered one matches.
\<close>

definition approves :: "pin_compare \<Rightarrow> uuid \<Rightarrow> string \<Rightarrow> world \<Rightarrow> user_row \<Rightarrow> bool" where
  "approves cmp g pin w m \<longleftrightarrow> m \<in> set (t_users (w_db w)) \<and> usr_organizationId m = Some g \<and>
     usr_deletedAt m = None \<and> usr_role m \<in> {''manager'', ''admin'', ''sysadmin'', ''platform_admin''} \<and>
     truthy (usr_posPinHash m) \<and> cmp pin (the (usr_posPinHash m)) \<and> \<not> pinLocked (w_now w) m"

lemma verified_approves:
  "verifyManagerPin cmp g pin None w = (Inr (Some m), w') \<Longrightarrow> approves cmp g pin w m"
  by (drule verifyManagerPin_SomeD) (auto simp: approves_def pinManager_def pinMatches_def POS_PIN_ROLES_def)

lemma approves_member: "approves cmp g pin w m \<Longrightarrow> m \<in> set (t_users (w_db w)) \<and> usr_organizationId m = Some g"
  by (simp add: approves_def)

lemma approves_cong: "w_db w1 = w_db w \<Longrightarrow> w_now w1 = w_now w \<Longrightarrow> approves cmp g pin w1 m = approves cmp g pin w m"
  by (simp add: approves_def)

text \<open>What every operation behind the manager PIN starts with.\<close>

lemma gated_cases:
  assumes "bindM (verifyManagerPin cmp g pin None)
      (\<lambda>m. bindM (orThrow m (ForbiddenException ''Invalid manager PIN.'')) body) w = (r, w')"
  obtains "r = Inl (ForbiddenException ''Invalid manager PIN.'')" and "ledger w' = ledger w"
  | m w1 where "m \<in> set (t_users (w_db w))" and "usr_organizationId m = Some g"
      and "approves cmp g pin w m" and "ledger w1 = ledger w" and "sites w1 = sites w" and "w_now w1 = w_now w" and "body m w1 = (r, w')"
      and "\<exists>us. w_db w1 = (w_db w)\<lparr>t_users := us\<rparr>"
proof -
  obtain x w1 where x: "verifyManagerPin cmp g pin None w = (Inr x, w1)"
    using pin_gate.verify_answers by blast
  have frames: "ledger w1 = ledger w" "sites w1 = sites w"
    using preservesD[OF pin_gate.verify_ledger x] preservesD[OF preserves_sites_pin x] by simp_all
  have now: "w_now w1 = w_now w" and us: "\<exists>us. w_db w1 = (w_db w)\<lparr>t_users := us\<rparr>"
    using x unfolding verifyManagerPin_def verifyOrgPin_def recordPinFailure_def clearPinFailures_def
    by (auto simp: bindM_def thenM_def whenM_def split: option.splits if_splits
        intro: exI[of _ "t_users (w_db w)"])
  show thesis
  proof (cases x)
    case None
    with assms x that(1) frames show thesis by (simp add: bindM_def)
  next
    case (Some m)
    with x have "approves cmp g pin w m" by (simp add: verified_approves)
    with Some assms x that(2)[of m w1] frames now us pin_gate.verify_member[of cmp g pin w m w1] show thesis
      by (simp add: bindM_def)
  qed
qed

text \<open>
  C4. A refund voids the order and gives back exactly what was paid: the net paid amount is zero
  afterwards, every row it adds is a negative payment that takes back at most one of the order's
  payments in the same tender, and is recorded by the manager who approved it: a live user of the
  organization with a manager role, whose PIN was entered and was not locked. A second refund of the
  order is refused.
\<close>

theorem refundPaidOrder_gives_back:
  assumes "refundPaidOrder cw cmp user oid pin reason w = (Inr msg, w')"
  shows "\<exists>g m order' rows. approves cmp g pin w m \<and>
    findOrder (w_db w') g oid = Some order' \<and> ord_status order' = Cancelled \<and>
    t_payments (w_db w') = t_payments (w_db w) @ rows \<and> paidSum (w_db w') oid = 0 \<and>
    (\<forall>r \<in> set rows. pay_orderId r = oid \<and> pay_createdBy r = Some (usr_id m) \<and>
      (\<exists>p \<in> set (paymentsOf (w_db w) oid). pay_method r = pay_method p \<and>
         - pay_amount p \<le> pay_amount r \<and> pay_amount r < 0)) \<and>
    (\<forall>manager reason' w2. ledger w2 = ledger w' \<longrightarrow>
       voidOrder g manager oid reason' w2 = (Inl (BadRequestException ''Order is already cancelled/refunded.''), w2))"
proof -
  from assms obtain g w1 where org: "getRequiredOrg cw user w = (Inr g, w1)"
    and rest: "bindM (verifyManagerPin cmp g pin None) (\<lambda>m. bindM (orThrow m (ForbiddenException ''Invalid manager PIN.''))
       (\<lambda>manager. thenM (transactionM (voidOrder g manager oid reason))
         (thenM (emitM (EmitOrderStatus g ''order.updated'' oid Cancelled))
           (returnM ''Order voided and refunded.'')))) w1 = (Inr msg, w')"
    unfolding refundPaidOrder_def by (rule bindM_InrE)
  note u = uncached_parts[OF getRequiredOrg_uncached[OF org]]
  from rest obtain m w2 where m: "approves cmp g pin w1 m"
    and l2: "ledger w2 = ledger w1" and body: "thenM (transactionM (voidOrder g m oid reason))
         (thenM (emitM (EmitOrderStatus g ''order.updated'' oid Cancelled))
           (returnM ''Order voided and refunded.'')) w2 = (Inr msg, w')"
    by (rule gated_cases) auto
  from body obtain w3 where void: "voidOrder g m oid reason w2 = (Inr (), w3)" and w': "w_db w' = w_db w3"
    by (auto elim!: thenM_InrE simp: transactionM_Inr)
  from void obtain order order' rows where o: "findOrder (w_db w3) g oid = Some order'" "ord_status order' = Cancelled"
    "t_payments (w_db w3) = t_payments (w_db w2) @ rows" "paidSum (w_db w3) oid = 0"
    "\<forall>r \<in> set rows. pay_orderId r = oid \<and> pay_createdBy r = Some (usr_id m) \<and>
      (\<exists>p \<in> set (paymentsOf (w_db w2) oid). pay_method r = pay_method p \<and>
         - pay_amount p \<le> pay_amount r \<and> pay_amount r < 0)"
    by (rule voidOrder_paid)
  have l: "ledger w2 = ledger w"
    using l2 u(4) by simp
  have again: "voidOrder g manager oid reason' w4 = (Inl (BadRequestException ''Order is already cancelled/refunded.''), w4)"
    if "ledger w4 = ledger w'" for manager reason' w4
  proof -
    have "findOrder (w_db w4) g oid = Some order'"
      using ledger_reads(1)[OF that] w' o(1) by simp
    with o(2) show ?thesis
      by (simp add: voidOrder_def orderForUpdate_def bindM_assoc prog_step)
  qed
  show ?thesis
    by (rule exI[of _ g], rule exI[of _ m], rule exI[of _ order'], rule exI[of _ rows])
       (use m o again w' approves_cong[OF u(1,3)] ledger_parts[OF l] ledger_reads(3)[OF l] in auto)
qed

lemma partRow_fields [simp]:
  "pay_amount (partRow m o' a i now) = - a" "pay_orderId (partRow m o' a i now) = ord_id o'"
  "pay_createdBy (partRow m o' a i now) = Some (usr_id m)"
  by (simp_all add: partRow_def)

lemma refundPartialOnce_cases:
  assumes "refundPartialOnce cmp g oid dto w = (r, w')"
  obtains e where "r = Inl e" and "ledger w' = ledger w"
  | m order row where "approves cmp g (rf_managerPin dto) w m"
      and "findOrder (w_db w) g oid = Some order" and "ord_paidAt order \<noteq> None"
      and "ord_status order \<noteq> Cancelled" and "rf_amount dto \<le> paidSum (w_db w) oid"
      and "pay_orderId row = oid" and "pay_amount row = - rf_amount dto"
      and "pay_createdBy row = Some (usr_id m)" and "pay_method row \<in> set payment_methods"
      and "t_orders (w_db w') = t_orders (w_db w)" and "t_orderItems (w_db w') = t_orderItems (w_db w)"
      and "t_payments (w_db w') = t_payments (w_db w) @ [row]" and "\<exists>j. r = Inr j"
  using assms unfolding refundPartialOnce_def
proof (rule gated_cases)
  fix m w1 assume m: "approves cmp g (rf_managerPin dto) w m" and l: "ledger w1 = ledger w"
    and body: "thenM (transactionM (refundPart g m oid dto))
      (returnM (JObj [(''success'', JBool True), (''message'', JStr (''Refunded $'' @ toFixed2 (rf_amount dto)))])) w1 = (r, w')"
  obtain x w2 where x: "refundPart g m oid dto w1 = (x, w2)" by (cases "refundPart g m oid dto w1")
  show thesis
  proof (cases x)
    case (Inl e)
    with x body have "r = Inl e" "w' = w2\<lparr>w_db := w_db w1\<rparr>"
      by (simp_all add: thenM_def bindM_def transactionM_def)
    with l that(1) show thesis by (simp add: ledger_def)
  next
    case (Inr y)
    with x body have r: "\<exists>j. r = Inr j" and w': "w' = w2"
      by (auto simp: thenM_def bindM_def transactionM_def)
    from x Inr have "refundPart g m oid dto w1 = (Inr y, w2)" by simp
    then obtain order row where o: "findOrder (w_db w1) g oid = Some order" "ord_status order \<noteq> Cancelled"
      "ord_paidAt order \<noteq> None" "rf_amount dto \<le> paidSum (w_db w1) oid"
      and row: "row = partRow m order (rf_amount dto) (w_ids w1 (w_nextId w1)) (w_now w1)"
      and checks: "payment_checks (w_db w1) row"
      and db: "w_db w2 = (w_db w1)\<lparr>t_payments := t_payments (w_db w1) @ [row]\<rparr>"
      by (rule refundPart_Inr)
    show thesis
      by (rule that(2)[OF m, of order row])
         (use o row checks db w' r ledger_parts[OF l] ledger_reads[OF l] findOrder_SomeD[OF o(1)] in
          \<open>auto simp: payment_checks_def\<close>)
  qed
qed (use that(1) in auto)

lemma refundPartialOrder_spec:
  assumes "refundPartialOrder cw cmp user oid dto key w = (r, w')"
  shows "ledger w' = ledger w \<or>
    (\<exists>g m order row j. r = Inr j \<and> findOrder (w_db w) g oid = Some order \<and> ord_paidAt order \<noteq> None \<and>
       approves cmp g (rf_managerPin dto) w m \<and> pay_createdBy row = Some (usr_id m) \<and>
       pay_orderId row = oid \<and> pay_amount row = - rf_amount dto \<and>
       rf_amount dto \<le> paidSum (w_db w) oid \<and>
       t_orders (w_db w') = t_orders (w_db w) \<and> t_orderItems (w_db w') = t_orderItems (w_db w) \<and>
       t_payments (w_db w') = t_payments (w_db w) @ [row])"
proof -
  obtain x w1 where org: "getRequiredOrg cw user w = (x, w1)" by (cases "getRequiredOrg cw user w")
  note u = uncached_parts[OF getRequiredOrg_uncached[OF org]]
  show ?thesis
  proof (cases x)
    case (Inl e)
    with org assms u show ?thesis by (simp add: refundPartialOrder_def bindM_def)
  next
    case (Inr g)
    with org assms have "withIdempotency (idempotencyService cw) ''refund-partial'' key
        (refundPartialOnce cmp g oid dto) w1 = (r, w')"
      by (simp add: refundPartialOrder_def bindM_def)
    then consider "uncached w' = uncached w1"
      | w2 w3 where "uncached w2 = uncached w1" "refundPartialOnce cmp g oid dto w2 = (r, w3)"
          "uncached w' = uncached w3"
      using idem.wrapper_cases by blast
    then show ?thesis
    proof cases
      case 1
      from u(4) uncached_parts(4)[OF 1] have "ledger w' = ledger w" by (rule trans[rotated])
      then show ?thesis ..
    next
      case 2
      note d = uncached_parts(1)[OF 2(1)] uncached_parts(1)[OF 2(3)] u(1)
      have a: "approves cmp g pin w2 m = approves cmp g pin w m" for pin m
        using uncached_parts(1,3)[OF 2(1)] u(1,3) by (intro approves_cong) simp_all
      from 2(2) show ?thesis
      proof (rule refundPartialOnce_cases)
        assume "ledger w3 = ledger w2"
        with d show ?thesis by (simp add: ledger_def)
      next
        fix m order row assume found: "findOrder (w_db w2) g oid = Some order" "approves cmp g (rf_managerPin dto) w2 m"
          and rest: "ord_paidAt order \<noteq> None" "rf_amount dto \<le> paidSum (w_db w2) oid" "pay_orderId row = oid"
            "pay_amount row = - rf_amount dto" "pay_createdBy row = Some (usr_id m)"
            "t_orders (w_db w3) = t_orders (w_db w2)" "t_orderItems (w_db w3) = t_orderItems (w_db w2)"
            "t_payments (w_db w3) = t_payments (w_db w2) @ [row]" "\<exists>j. r = Inr j"
        then obtain j where "r = Inr j" by blast
        with found rest d a show ?thesis
          by (intro disjI2 exI[of _ g] exI[of _ m] exI[of _ order] exI[of _ row] exI[of _ j]) simp
      qed
    qed
  qed
qed

text \<open>
  C6. A partial refund never exceeds what is still paid, whatever key it carries: it either leaves
  orders, lines and payments alone (an error, a replay, a conflict) or adds exactly one negative
  payment of the requested amount to a paid order whose net payments cover it, recorded by the manager
  who approved it: a live user of the organization with a manager role, whose PIN was entered and was
  not locked.
\<close>

theorem refundPartialOrder_capped:
  assumes "refundPartialOrder cw cmp user oid dto key w = (r, w')"
  shows "ledger w' = ledger w \<or>
    (\<exists>g m order row j. r = Inr j \<and> findOrder (w_db w) g oid = Some order \<and> ord_paidAt order \<noteq> None \<and>
       approves cmp g (rf_managerPin dto) w m \<and> pay_createdBy row = Some (usr_id m) \<and>
       pay_orderId row = oid \<and> pay_amount row = - rf_amount dto \<and>
       rf_amount dto \<le> paidSum (w_db w) oid \<and>
       t_orders (w_db w') = t_orders (w_db w) \<and> t_orderItems (w_db w') = t_orderItems (w_db w) \<and>
       t_payments (w_db w') = t_payments (w_db w) @ [row])"
  using assms by (rule refundPartialOrder_spec)

lemma preserves_now_basic [frame]:
  "preserves w_now freshId" "preserves w_now (insertPayments ps)"
  by (auto simp: preserves_def insertPayments_def prog_step)

lemma preserves_now_transactionM [frame]: "preserves w_now m \<Longrightarrow> preserves w_now (transactionM m)"
  by (auto simp: preserves_def transactionM_def split: prod.splits sum.splits) (metis snd_conv)+

lemma preserves_now_pin [frame]: "preserves w_now (verifyManagerPin cmp g pin a)"
proof -
  have "preserves w_now (recordPinFailure g u r)" "preserves w_now (registerFailedPinAttempt uid)"
    "preserves w_now (clearPinFailures uid)" for g u r uid
    unfolding recordPinFailure_def registerFailedPinAttempt_def clearPinFailures_def
    by (auto intro!: frame preserves_writeDb)
  then show ?thesis
    unfolding verifyManagerPin_def verifyActingPin_def verifyOrgPin_def
    by (auto intro!: frame split: option.split)
qed

lemma preserves_now_refund: "preserves w_now (refundPartialOnce cmp g oid dto)"
  unfolding refundPartialOnce_def refundPart_def orderForUpdate_def paidSumFor_def
  by (intro frame)

lemma idemBegin_now: "idemBegin cw sc k w = (r, w') \<Longrightarrow> w_now w' = w_now w"
  by (auto simp: idemBegin_def cache_defs Let_def bindM_def thenM_def split: if_splits)


text \<open>
  An order paid in several tenders is recorded as 'split', which is no tender: a partial refund
  of it always fails at the database and nothing is refunded.
\<close>

theorem split_refund_fails:
  assumes "findOrder (w_db w) g oid = Some order" and "ord_paymentMethod order = Some ''split''"
  shows "\<exists>e w'. refundPartialOnce cmp g oid dto w = (Inl e, w') \<and> ledger w' = ledger w"
proof -
  obtain r w' where run: "refundPartialOnce cmp g oid dto w = (r, w')"
    by (cases "refundPartialOnce cmp g oid dto w")
  then have "(\<exists>e. r = Inl e) \<and> ledger w' = ledger w"
    unfolding refundPartialOnce_def
  proof (rule gated_cases)
    fix m w1 assume l: "ledger w1 = ledger w"
      and body: "thenM (transactionM (refundPart g m oid dto))
        (returnM (JObj [(''success'', JBool True), (''message'', JStr (''Refunded $'' @ toFixed2 (rf_amount dto)))])) w1 = (r, w')"
    have "findOrder (w_db w1) g oid = Some order"
      using assms(1) ledger_reads(1)[OF l] by simp
    then obtain e w2 where "refundPart g m oid dto w1 = (Inl e, w2)"
      using refundPart_rejects assms(2) by blast
    with body l show ?thesis
      by (auto simp: thenM_def bindM_def transactionM_def ledger_def)
  qed auto
  with run show ?thesis by blast
qed

section \<open>Adjustments\<close>

lemma priceCart_users [simp]: "priceCart (d\<lparr>t_users := us\<rparr>) g items = priceCart d g items"
proof -
  have "cartMenuItems (d\<lparr>t_users := us\<rparr>) = cartMenuItems d"
    "cartOptions (d\<lparr>t_users := us\<rparr>) = cartOptions d" "attachedRows (d\<lparr>t_users := us\<rparr>) = attachedRows d"
    by (simp_all add: fun_eq_iff cartMenuItems_def cartOptions_def attachedRows_def orgCategory_def)
  then show ?thesis by (simp add: priceCart_def)
qed

lemma taxRateOf_users [simp]: "taxRateOf (d\<lparr>t_users := us\<rparr>) = taxRateOf d"
  by (simp add: fun_eq_iff taxRateOf_def)

lemma db_reads_users [simp]:
  "findOrder (d\<lparr>t_users := us\<rparr>) g oid = findOrder d g oid"
  "paidSum (d\<lparr>t_users := us\<rparr>) oid = paidSum d oid"
  by (simp_all add: findOrder_def paidSum_def paymentsOf_def)

lemma adjustOrder_fields [simp]:
  "ord_id (adjustOrder o' p net now r) = ord_id r"
  "ord_organizationId (adjustOrder o' p net now r) = ord_organizationId r"
  "ord_totalAmount (adjustOrder o' p net now r) = adjustedTotal o' p"
  "ord_subtotal (adjustOrder o' p net now r) = Some (ap_subtotal p)"
  "ord_discountAmount (adjustOrder o' p net now r) = Some (ap_discount p)"
  "ord_tipAmount (adjustOrder o' p net now r) = ord_tipAmount r"
  "ord_paidAt (adjustOrder o' p net now r) = (if net < adjustedTotal o' p then None else ord_paidAt o')"
  by (simp_all add: adjustOrder_def Let_def)

text \<open>The pricing an adjustment computes before its transaction.\<close>

definition adjustPricing :: "db \<Rightarrow> order_row \<Rightarrow> resolved_item list \<Rightarrow> int \<Rightarrow> adjust_pricing" where
  "adjustPricing d order ris sub = \<lparr>ap_items = ris, ap_subtotal = sub,
     ap_discount = snapshotDiscount order sub, ap_taxRateBps = taxRateOf d (ord_locationId order)\<rparr>"

lemma adjustApproved_cases:
  assumes "adjustApproved g oid dto m w = (r, w')"
  obtains e where "r = Inl e" and "ledger w' = ledger w"
  | order ris sub w2 j where "r = Inr j"
      and "findOrder (w_db w) g oid = Some order" and "priceCart (w_db w) g (ad_items dto) = Inr (ris, sub)"
      and "adjustInTx g m order (adjustPricing (w_db w) order ris sub) dto w = (Inr (), w2)"
      and "w_db w' = w_db w2"
proof (cases "findOrder (w_db w) g oid")
  case None
  with assms that(1) show thesis by (auto simp: adjustApproved_def prog_step)
next
  case (Some order)
  show thesis
  proof (cases "priceCart (w_db w) g (ad_items dto)")
    case (Inl e)
    with assms Some that(1) show thesis
      by (auto simp: adjustApproved_def prog_step priceCartItems_def bindM_assoc)
  next
    case (Inr q)
    obtain ris sub where q: "q = (ris, sub)" by (cases q)
    let ?p = "adjustPricing (w_db w) order ris sub"
    obtain y w2 where y: "adjustInTx g m order ?p dto w = (y, w2)"
      by (cases "adjustInTx g m order ?p dto w")
    note run = assms Some Inr q y
    show thesis
    proof (cases y)
      case (Inl e)
      with run that(1) show thesis
        by (auto simp: adjustApproved_def priceCartItems_def getTaxRate_def prog_step bindM_assoc Let_def
            adjustPricing_def thenM_def bindM_def transactionM_def ledger_def)
    next
      case (Inr z)
      with run have "(\<exists>j. r = Inr j) \<and> w_db w' = w_db w2"
        by (auto simp: adjustApproved_def priceCartItems_def getTaxRate_def prog_step bindM_assoc Let_def
            adjustPricing_def thenM_def bindM_def transactionM_def)
      with that(2)[of _ order ris sub w2] run Inr show thesis by auto
    qed
  qed
qed

lemma adjustOrderItems_cases:
  assumes "adjustOrderItems cw cmp user oid dto w = (r, w')"
  obtains e where "r = Inl e" and "ledger w' = ledger w"
  | g m order ris sub us w1 w2 j where "r = Inr j" and "m \<in> set (t_users (w_db w))" and "usr_organizationId m = Some g"
      and "findOrder (w_db w) g oid = Some order" and "priceCart (w_db w) g (ad_items dto) = Inr (ris, sub)"
      and "w_db w1 = (w_db w)\<lparr>t_users := us\<rparr>" and "w_now w1 = w_now w"
      and "adjustInTx g m order (adjustPricing (w_db w) order ris sub) dto w1 = (Inr (), w2)"
      and "w_db w' = w_db w2"
proof -
  obtain x w0 where org: "getRequiredOrg cw user w = (x, w0)" by (cases "getRequiredOrg cw user w")
  note u = uncached_parts[OF getRequiredOrg_uncached[OF org]]
  show thesis
  proof (cases x)
    case (Inl e)
    with org assms u that(1) show thesis by (auto simp: adjustOrderItems_def bindM_def)
  next
    case (Inr g)
    with assms org have "bindM (verifyManagerPin cmp g (ad_managerPin dto) None)
      (\<lambda>m. bindM (orThrow m (ForbiddenException ''Invalid manager PIN.'')) (adjustApproved g oid dto)) w0 = (r, w')"
      by (simp add: adjustOrderItems_def bindM_def)
    then show thesis
    proof (rule gated_cases)
      fix m w1 assume m: "m \<in> set (t_users (w_db w0))" "usr_organizationId m = Some g"
        and l: "ledger w1 = ledger w0" and now: "w_now w1 = w_now w0"
        and us: "\<exists>us. w_db w1 = (w_db w0)\<lparr>t_users := us\<rparr>" and body: "adjustApproved g oid dto m w1 = (r, w')"
      from us obtain us where us: "w_db w1 = (w_db w)\<lparr>t_users := us\<rparr>" using u(1) by auto
      from body show thesis
      proof (rule adjustApproved_cases)
        fix e assume "r = Inl e" "ledger w' = ledger w1"
        with l u(4) that(1) show thesis by simp
      next
        fix order ris sub w2 j
        assume "r = Inr j" "findOrder (w_db w1) g oid = Some order" "priceCart (w_db w1) g (ad_items dto) = Inr (ris, sub)"
          "adjustInTx g m order (adjustPricing (w_db w1) order ris sub) dto w1 = (Inr (), w2)" "w_db w' = w_db w2"
        then show thesis
          using m u(1,3) us now by (intro that(2)[of j m g order ris sub w1 us w2]) (simp_all add: adjustPricing_def)
      qed
    qed (use u(4) that(1) in auto)
  qed
qed

definition itemCore :: "order_item_row \<Rightarrow> uuid \<times> int \<times> int" where
  "itemCore r = (oi_menuItemId r, oi_quantity r, oi_price r)"

lemma adjustedItemRow_core [simp]:
  "itemCore (adjustedItemRow oid i ri) = (ri_menuItemId ri, ri_quantity ri, ri_price ri)"
  "oi_orderId (adjustedItemRow oid i ri) = oid"
  by (simp_all add: itemCore_def adjustedItemRow_def)

lemma itemsOf_overwrite:
  "length ids = length ris \<Longrightarrow>
   map itemCore (filter (\<lambda>r. oi_orderId r = oid)
     (filter (\<lambda>r. oi_orderId r \<noteq> oid) rows @ map2 (adjustedItemRow oid) ids ris)) =
   map (\<lambda>ri. (ri_menuItemId ri, ri_quantity ri, ri_price ri)) ris"
  by (induction ids ris rule: list_induct2) simp_all

text \<open>
  C5. An adjustment replaces the order's lines with the priced cart, sets the total to the
  discounted subtotal plus tax plus the tip already given, and settles the difference: nothing is
  paid back when the new total covers what was paid, otherwise payments are refunded down to the
  new total; the order is unpaid exactly when the new total exceeds what was paid, and keeps its
  payment time otherwise.
\<close>

theorem adjustOrderItems_settles:
  assumes "adjustOrderItems cw cmp user oid dto w = (Inr j, w')"
  shows "\<exists>g order order' ris sub. findOrder (w_db w) g oid = Some order \<and>
    priceCart (w_db w) g (ad_items dto) = Inr (ris, sub) \<and>
    findOrder (w_db w') g oid = Some order' \<and>
    map itemCore (itemsOf (w_db w') oid) = map (\<lambda>ri. (ri_menuItemId ri, ri_quantity ri, ri_price ri)) ris \<and>
    ord_subtotal order' = Some sub \<and> ord_discountAmount order' = Some (snapshotDiscount order sub) \<and>
    ord_totalAmount order' = max 0 (sub - snapshotDiscount order sub) +
      js_round (of_int ((sub - snapshotDiscount order sub) * taxRateOf (w_db w) (ord_locationId order)) / 10000) +
      nvl (ord_tipAmount order) 0 \<and>
    paidSum (w_db w') oid = (if paidSum (w_db w) oid \<le> ord_totalAmount order' then paidSum (w_db w) oid
                             else max 0 (ord_totalAmount order')) \<and>
    ord_paidAt order' = (if paidSum (w_db w) oid < ord_totalAmount order' then None else ord_paidAt order)"
  using assms
proof (rule adjustOrderItems_cases)
  fix g m order ris sub us w1 w2 j'
  assume o: "findOrder (w_db w) g oid = Some order" and cart: "priceCart (w_db w) g (ad_items dto) = Inr (ris, sub)"
    and us: "w_db w1 = (w_db w)\<lparr>t_users := us\<rparr>"
    and tx: "adjustInTx g m order (adjustPricing (w_db w) order ris sub) dto w1 = (Inr (), w2)"
    and w': "w_db w' = w_db w2"
  let ?p = "adjustPricing (w_db w) order ris sub" and ?net = "paidSum (w_db w) oid"
  let ?tot = "adjustedTotal order ?p"
  have id: "ord_id order = oid" using findOrder_SomeD[OF o] by simp
  have o1: "findOrder (w_db w1) g (ord_id order) = Some order" using o us id by simp
  from tx o1 refl refl obtain iids rows where len: "length iids = length (ap_items ?p)"
    and rows: "rows = [] \<and> paidSum (w_db w1) (ord_id order) \<le> ?tot \<or>
      (\<exists>pid. ?tot < paidSum (w_db w1) (ord_id order) \<and> rows = [partRow m order (min (paidSum (w_db w1) (ord_id order))
         (paidSum (w_db w1) (ord_id order) - ?tot)) pid (w_now w1)])"
    and db: "w_db w2 = (w_db w1)\<lparr>
       t_orders := update_where (\<lambda>r. ord_id r = ord_id order)
         (adjustOrder order ?p (paidSum (w_db w1) (ord_id order)) (w_now w1)) (t_orders (w_db w1)),
       t_orderItems := filter (\<lambda>r. oi_orderId r \<noteq> ord_id order) (t_orderItems (w_db w1)) @
         map2 (adjustedItemRow (ord_id order)) iids (ap_items ?p),
       t_payments := t_payments (w_db w1) @ rows\<rparr>" by (rule adjustInTx_Inr)
  let ?o' = "adjustOrder order ?p ?net (w_now w1) order"
  have o': "findOrder (w_db w') g oid = Some ?o'"
    unfolding w' by (rule findOrder_update_where[OF _ _ _ o]) (simp_all add: db id us)
  have items: "map itemCore (itemsOf (w_db w') oid) = map (\<lambda>ri. (ri_menuItemId ri, ri_quantity ri, ri_price ri)) ris"
    using itemsOf_overwrite[of iids ris oid] len by (simp add: w' itemsOf_def db id adjustPricing_def)
  have paid: "paidSum (w_db w') oid = (if ?net \<le> ?tot then ?net else max 0 ?tot)"
    using rows by (auto simp: w' db us id paidSum_def paymentsOf_def)
  have tot: "?tot = max 0 (sub - snapshotDiscount order sub) +
      js_round (of_int ((sub - snapshotDiscount order sub) * taxRateOf (w_db w) (ord_locationId order)) / 10000) +
      nvl (ord_tipAmount order) 0"
    by (simp add: adjustedTotal_def adjustedTax_def adjustPricing_def Let_def)
  show ?thesis
    by (rule exI[of _ g], rule exI[of _ order], rule exI[of _ ?o'], rule exI[of _ ris], rule exI[of _ sub])
       (use o cart o' items paid tot in \<open>simp add: adjustPricing_def\<close>)
qed simp

section \<open>Histories of payments\<close>

text \<open>
  The requests the controller accepts. A partial refund asks for at least one cent
  (\<open>dto/partial-refund.dto.ts\<close>).
\<close>

datatype payment_call =
    PayCall principal uuid payment_dto
  | RefundCall principal uuid string "string option"
  | PartialCall principal uuid partial_refund_dto "string option"
  | AdjustCall principal uuid adjust_dto

fun acceptedCall :: "payment_call \<Rightarrow> bool" where
  "acceptedCall (PartialCall user oid dto key) = (1 \<le> rf_amount dto)"
| "acceptedCall _ = True"

fun runCall :: "cache_wiring \<Rightarrow> pin_compare \<Rightarrow> payment_call \<Rightarrow> world \<Rightarrow> world" where
  "runCall cw cmp (PayCall user oid dto) w = snd (recordPayment cw user oid dto getOrderByIdForOrg w)"
| "runCall cw cmp (RefundCall user oid pin reason) w = snd (refundPaidOrder cw cmp user oid pin reason w)"
| "runCall cw cmp (PartialCall user oid dto key) w = snd (refundPartialOrder cw cmp user oid dto key w)"
| "runCall cw cmp (AdjustCall user oid dto) w = snd (adjustOrderItems cw cmp user oid dto w)"

inductive payment_step :: "cache_wiring \<Rightarrow> pin_compare \<Rightarrow> world \<Rightarrow> world \<Rightarrow> bool" for cw cmp where
  call: "acceptedCall c \<Longrightarrow> payment_step cw cmp w (runCall cw cmp c w)"
| tick: "w_now w \<le> t \<Longrightarrow> payment_step cw cmp w (w\<lparr>w_now := t\<rparr>)"
| queue: "payment_step cw cmp w (w\<lparr>w_queueUp := up\<rparr>)"

inductive_cases payment_stepE: "payment_step cw cmp w w'"

text \<open>
  The invariant, with what the schema declares: order ids are a primary key, tips are not
  negative, and rates of locations are not negative.
\<close>

definition balanced :: "world \<Rightarrow> bool" where
  "balanced w \<longleftrightarrow> distinct (map ord_id (t_orders (w_db w))) \<and>
     (\<forall>l \<in> set (sites w). 0 \<le> loc_taxRateBps l) \<and>
     (\<forall>r \<in> set (t_orders (w_db w)). 0 \<le> nvl (ord_tipAmount r) 0 \<and>
        0 \<le> paidSum (w_db w) (ord_id r) \<and> paidSum (w_db w) (ord_id r) \<le> ord_totalAmount r)"

lemma balanced_cong: "ledger w' = ledger w \<Longrightarrow> sites w' = sites w \<Longrightarrow> balanced w' = balanced w"
  using ledger_parts[of w' w] by (simp add: balanced_def paidSum_def paymentsOf_def)

text \<open>One order's row and its payments change; everything else stays.\<close>

lemma balanced_step:
  assumes "balanced w" and "sites w' = sites w"
    and "t_orders (w_db w') = update_where (\<lambda>r. ord_id r = oid) f (t_orders (w_db w))"
    and "\<And>r. ord_id (f r) = ord_id r"
    and "t_payments (w_db w') = t_payments (w_db w) @ rows" and "\<forall>p \<in> set rows. pay_orderId p = oid"
    and "findOrder (w_db w) g oid = Some order"
    and "0 \<le> nvl (ord_tipAmount (f order)) 0" and "0 \<le> paidSum (w_db w') oid"
    and "paidSum (w_db w') oid \<le> ord_totalAmount (f order)"
  shows "balanced w'"
proof -
  have ids: "map ord_id (t_orders (w_db w')) = map ord_id (t_orders (w_db w))"
    unfolding assms(3) by (rule map_update_where) (simp add: assms(4))
  have other: "paidSum (w_db w') i = paidSum (w_db w) i" if "i \<noteq> oid" for i
  proof -
    have "filter (\<lambda>p. pay_orderId p = i) rows = []"
      using that assms(6) by (auto simp: filter_empty_conv)
    then show ?thesis by (simp add: paidSum_def paymentsOf_def assms(5))
  qed
  have "0 \<le> nvl (ord_tipAmount r) 0 \<and> 0 \<le> paidSum (w_db w') (ord_id r) \<and>
      paidSum (w_db w') (ord_id r) \<le> ord_totalAmount r" if r: "r \<in> set (t_orders (w_db w'))" for r
  proof -
    from r obtain r0 where r0: "r0 \<in> set (t_orders (w_db w))" "r = (if ord_id r0 = oid then f r0 else r0)"
      unfolding assms(3) set_update_where by auto
    show ?thesis
    proof (cases "ord_id r0 = oid")
      case True
      with r0 findOrder_SomeD[OF assms(7)] assms(1) have "r0 = order"
        by (auto simp: balanced_def distinct_map inj_on_def)
      with True r0 assms(4,8,9,10) show ?thesis by simp
    next
      case False
      with r0 assms(1) other show ?thesis by (auto simp: balanced_def)
    qed
  qed
  with ids assms(1,2) show ?thesis by (simp add: balanced_def)
qed

lemma sites_calls:
  "preserves sites (recordPayment cw user oid dto getOrderByIdForOrg)"
  "preserves sites (refundPaidOrder cw cmp user oid pin reason)"
  "preserves sites (refundPartialOrder cw cmp user oid pdto key)"
  "preserves sites (adjustOrderItems cw cmp user oid adto)"
proof -
  show "preserves sites (recordPayment cw user oid dto getOrderByIdForOrg)"
    unfolding recordPayment_def takePayment_def orderForUpdate_def paidSumFor_def by (intro frame)
  show "preserves sites (refundPaidOrder cw cmp user oid pin reason)"
    unfolding refundPaidOrder_def voidOrder_def orderForUpdate_def Let_def by (intro frame)
  have once: "preserves sites (refundPartialOnce cmp g oid pdto)" for g
    unfolding refundPartialOnce_def refundPart_def orderForUpdate_def paidSumFor_def by (intro frame)
  have "preserves sites (withIdempotency (idempotencyService cw) sc key fn)" if "preserves sites fn" for sc fn
  proof (rule preservesI)
    fix w r w' assume "withIdempotency (idempotencyService cw) sc key fn w = (r, w')"
    then show "sites w' = sites w"
      using idem.wrapper_cases[of cw sc key fn w r w'] preservesD[OF that]
      by (auto simp: sites_def dest!: uncached_parts(1))
  qed
  then show "preserves sites (refundPartialOrder cw cmp user oid pdto key)"
    unfolding refundPartialOrder_def by (intro frame once) (simp add: once)
  show "preserves sites (adjustOrderItems cw cmp user oid adto)"
    unfolding adjustOrderItems_def adjustApproved_def adjustInTx_def orderForUpdate_def paidSumFor_def
      overwriteItems_def refundExcess_def priceCartItems_def getTaxRate_def Let_def
    by (intro frame | simp only: split_beta)+
qed

lemma balanced_row:
  assumes "balanced w" and "findOrder (w_db w) g oid = Some order"
  shows "0 \<le> paidSum (w_db w) oid" "paidSum (w_db w) oid \<le> ord_totalAmount order"
    "0 \<le> nvl (ord_tipAmount order) 0"
  using assms findOrder_SomeD[OF assms(2)] by (auto simp: balanced_def)

lemma balanced_uncached: "uncached w' = uncached w \<Longrightarrow> balanced w' = balanced w"
  using uncached_parts(1,4)[of w' w] balanced_cong[of w' w] by (simp add: sites_def)

lemma balanced_pay:
  assumes "balanced w" and "recordPayment cw user oid dto getOrderByIdForOrg w = (r, w')"
  shows "balanced w'"
  using assms(2)
proof (rule recordPayment_ledger)
  assume "ledger w' = ledger w"
  from balanced_cong[OF this preservesD[OF sites_calls(1) assms(2)]] assms(1) show ?thesis by simp
next
  fix g out w1 w2
  assume u: "uncached w1 = uncached w" and take: "takePayment g user oid dto w1 = (Inr out, w2)"
    and l: "ledger w' = ledger w2"
  from take obtain order row meth where o: "findOrder (w_db w1) g oid = Some order"
    and out: "assessPayment order (paidSum (w_db w1) oid) dto = Inr out"
    and row: "row = paymentRow g user order oid dto out (w_ids w1 (w_nextId w1)) (w_now w1)"
    and db: "w_db w2 = (w_db w1)\<lparr>t_payments := t_payments (w_db w1) @ [row],
       t_orders := update_where (\<lambda>r. ord_id r = oid) (settleOrder order out meth (w_now w1)) (t_orders (w_db w1))\<rparr>"
    by (rule takePayment_Inr)
  note a = assessPayment_Inr[OF out] and d = uncached_parts(1)[OF u]
  have b1: "balanced w1" using assms(1) balanced_uncached[OF u] by simp
  have s: "sites w' = sites w1"
    using preservesD[OF sites_calls(1) assms(2)] d by (simp add: sites_def)
  have paid: "paidSum (w_db w') oid = paidSum (w_db w1) oid + po_applied out"
    unfolding ledger_reads(2)[OF l] by (simp add: db row paidSum_append)
  show ?thesis
    by (rule balanced_step[OF b1 s, of oid "settleOrder order out meth (w_now w1)" "[row]" g order])
       (use o a balanced_row[OF b1 o] ledger_parts[OF l] paid in \<open>simp_all add: db row\<close>)
qed

lemma refundPaidOrder_cases:
  assumes "refundPaidOrder cw cmp user oid pin reason w = (r, w')"
  obtains e where "r = Inl e" and "ledger w' = ledger w"
  | g m w1 w2 where "r = Inr ''Order voided and refunded.''" and "ledger w1 = ledger w" and "sites w1 = sites w"
      and "voidOrder g m oid reason w1 = (Inr (), w2)" and "ledger w' = ledger w2"
proof -
  obtain x w0 where org: "getRequiredOrg cw user w = (x, w0)" by (cases "getRequiredOrg cw user w")
  note u = uncached_parts[OF getRequiredOrg_uncached[OF org]]
  show thesis
  proof (cases x)
    case (Inl e)
    with org assms u that(1)[of e] show thesis by (auto simp: refundPaidOrder_def bindM_def)
  next
    case (Inr g)
    with org assms have "bindM (verifyManagerPin cmp g pin None)
      (\<lambda>m. bindM (orThrow m (ForbiddenException ''Invalid manager PIN.''))
       (\<lambda>manager. thenM (transactionM (voidOrder g manager oid reason))
         (thenM (emitM (EmitOrderStatus g ''order.updated'' oid Cancelled))
           (returnM ''Order voided and refunded.'')))) w0 = (r, w')"
      by (simp add: refundPaidOrder_def bindM_def)
    then show thesis
    proof (rule gated_cases)
      fix m w1 assume l1: "ledger w1 = ledger w0" and s1: "sites w1 = sites w0"
        and body: "thenM (transactionM (voidOrder g m oid reason))
          (thenM (emitM (EmitOrderStatus g ''order.updated'' oid Cancelled))
           (returnM ''Order voided and refunded.'')) w1 = (r, w')"
      obtain y w2 where y: "voidOrder g m oid reason w1 = (y, w2)" by (cases "voidOrder g m oid reason w1")
      show thesis
      proof (cases y)
        case (Inl e)
        with y body have "r = Inl e" "ledger w' = ledger w1"
          by (auto simp: thenM_def bindM_def transactionM_def ledger_def)
        with that(1)[of e] l1 u(4) show thesis by simp
      next
        case (Inr z)
        with y body have "r = Inr ''Order voided and refunded.''" "ledger w' = ledger w2"
          by (auto simp: thenM_def bindM_def transactionM_def ledger_def)
        with that(2)[of w1 g m w2] l1 s1 u(1,4) y Inr show thesis by (simp add: sites_def)
      qed
    qed (use that(1) u in auto)
  qed
qed

lemma balanced_refund:
  assumes "balanced w" and "refundPaidOrder cw cmp user oid pin reason w = (r, w')"
  shows "balanced w'"
proof -
  have s: "sites w' = sites w"
    using preservesD[OF sites_calls(2) assms(2)] .
  from assms(2) show ?thesis
  proof (rule refundPaidOrder_cases)
    assume "ledger w' = ledger w"
    from balanced_cong[OF this s] assms(1) show ?thesis by simp
  next
    fix g m w1 w2 assume l1: "ledger w1 = ledger w" and s1: "sites w1 = sites w"
      and void: "voidOrder g m oid reason w1 = (Inr (), w2)" and l2: "ledger w' = ledger w2"
    have b1: "balanced w1" using assms(1) balanced_cong[OF l1 s1] by simp
    from void obtain order order' rows where o: "findOrder (w_db w1) g oid = Some order"
      "t_payments (w_db w2) = t_payments (w_db w1) @ rows" "paidSum (w_db w2) oid = 0"
      "\<forall>r \<in> set rows. pay_orderId r = oid \<and> pay_createdBy r = Some (usr_id m) \<and>
        (\<exists>p \<in> set (paymentsOf (w_db w1) oid). pay_method r = pay_method p \<and>
           - pay_amount p \<le> pay_amount r \<and> pay_amount r < 0)"
      "t_orders (w_db w2) = update_where (\<lambda>r. ord_id r = oid)
        (\<lambda>r. r\<lparr>ord_status := Cancelled, ord_updatedAt := w_now w1\<rparr>) (t_orders (w_db w1))"
      by (rule voidOrder_paid)
    show ?thesis
      by (rule balanced_step[OF b1, of w' oid "\<lambda>r. r\<lparr>ord_status := Cancelled, ord_updatedAt := w_now w1\<rparr>" rows g order])
         (use o s s1 balanced_row[OF b1 o(1)] ledger_parts[OF l2] ledger_reads(2)[OF l2] in simp_all)
  qed
qed

lemma balanced_partial:
  assumes "balanced w" and "1 \<le> rf_amount dto" and "refundPartialOrder cw cmp user oid dto key w = (r, w')"
  shows "balanced w'"
proof -
  have s: "sites w' = sites w"
    using preservesD[OF sites_calls(3) assms(3)] .
  from refundPartialOrder_spec[OF assms(3)] show ?thesis
  proof (elim disjE exE conjE)
    assume "ledger w' = ledger w"
    from balanced_cong[OF this s] assms(1) show ?thesis by simp
  next
    fix g m order row j
    assume o: "findOrder (w_db w) g oid = Some order" and row: "pay_orderId row = oid" "pay_amount row = - rf_amount dto"
      and cap: "rf_amount dto \<le> paidSum (w_db w) oid" and os: "t_orders (w_db w') = t_orders (w_db w)"
      and ps: "t_payments (w_db w') = t_payments (w_db w) @ [row]"
    have paid: "paidSum (w_db w') oid = paidSum (w_db w) oid - rf_amount dto"
      using row by (simp add: paidSum_def paymentsOf_def ps)
    have upd: "t_orders (w_db w') = update_where (\<lambda>r. ord_id r = oid) (\<lambda>r. r) (t_orders (w_db w))"
      by (simp add: os update_where_def)
    show ?thesis
      by (rule balanced_step[OF assms(1) s upd, of "[row]" g order])
         (use o row cap paid ps assms(2) balanced_row[OF assms(1) o] in simp_all)
  qed
qed

lemma priceCart_sub: "priceCart d g items = Inr (ris, sub) \<Longrightarrow> sub = sum_by lineTotal ris"
  by (auto simp: priceCart_def Let_def split: sum.splits)

lemma checked_rows_total:
  assumes "length ids = length ris" and "list_all item_checks (map2 (adjustedItemRow oid) ids ris)"
  shows "0 \<le> sum_by lineTotal ris"
  using assms
  by (induction ids ris rule: list_induct2) (auto simp: item_checks_def adjustedItemRow_def lineTotal_def)

lemma snapshotDiscount_bounds:
  "0 \<le> s \<Longrightarrow> 0 \<le> snapshotDiscount order s \<and> snapshotDiscount order s \<le> s"
  by (simp add: snapshotDiscount_def discountAmountFor_nonneg discountAmountFor_le)

lemma adjustedTotal_nonneg:
  assumes "0 \<le> ap_subtotal p - ap_discount p" and "0 \<le> ap_taxRateBps p" and "0 \<le> nvl (ord_tipAmount order) 0"
  shows "0 \<le> adjustedTotal order p"
proof -
  have "0 \<le> adjustedTax p"
    unfolding adjustedTax_def Let_def using assms(1,2) by (intro js_round_nonneg) simp
  with assms show ?thesis by (simp add: adjustedTotal_def Let_def)
qed

lemma taxRateOf_nonneg: "\<forall>l \<in> set (t_locations d). 0 \<le> loc_taxRateBps l \<Longrightarrow> 0 \<le> taxRateOf d loc"
  by (auto simp: taxRateOf_def dest!: first_row_SomeD split: option.split)

lemma balanced_adjust:
  assumes "balanced w" and "adjustOrderItems cw cmp user oid dto w = (r, w')"
  shows "balanced w'"
proof -
  have s: "sites w' = sites w"
    using preservesD[OF sites_calls(4) assms(2)] .
  from assms(2) show ?thesis
  proof (rule adjustOrderItems_cases)
    assume "ledger w' = ledger w"
    from balanced_cong[OF this s] assms(1) show ?thesis by simp
  next
    fix g m order ris sub us w1 w2 j
    assume o: "findOrder (w_db w) g oid = Some order" and cart: "priceCart (w_db w) g (ad_items dto) = Inr (ris, sub)"
      and us: "w_db w1 = (w_db w)\<lparr>t_users := us\<rparr>"
      and tx: "adjustInTx g m order (adjustPricing (w_db w) order ris sub) dto w1 = (Inr (), w2)"
      and w': "w_db w' = w_db w2"
    let ?p = "adjustPricing (w_db w) order ris sub" and ?net = "paidSum (w_db w) oid"
    let ?tot = "adjustedTotal order ?p"
    have id: "ord_id order = oid" using findOrder_SomeD[OF o] by simp
    have o1: "findOrder (w_db w1) g (ord_id order) = Some order" using o us id by simp
    from tx o1 refl refl obtain iids rows where len: "length iids = length (ap_items ?p)"
      and checks: "list_all item_checks (map2 (adjustedItemRow (ord_id order)) iids (ap_items ?p))"
      and rows: "rows = [] \<and> paidSum (w_db w1) (ord_id order) \<le> ?tot \<or>
        (\<exists>pid. ?tot < paidSum (w_db w1) (ord_id order) \<and> rows = [partRow m order (min (paidSum (w_db w1) (ord_id order))
           (paidSum (w_db w1) (ord_id order) - ?tot)) pid (w_now w1)])"
      and db: "w_db w2 = (w_db w1)\<lparr>
         t_orders := update_where (\<lambda>r. ord_id r = ord_id order)
           (adjustOrder order ?p (paidSum (w_db w1) (ord_id order)) (w_now w1)) (t_orders (w_db w1)),
         t_orderItems := filter (\<lambda>r. oi_orderId r \<noteq> ord_id order) (t_orderItems (w_db w1)) @
           map2 (adjustedItemRow (ord_id order)) iids (ap_items ?p),
         t_payments := t_payments (w_db w1) @ rows\<rparr>" by (rule adjustInTx_Inr)
    note row = balanced_row[OF assms(1) o]
    have "0 \<le> sub"
      using checked_rows_total[of iids ris oid] len checks priceCart_sub[OF cart] id
      by (simp add: adjustPricing_def)
    then have tot: "0 \<le> ?tot"
      using row(3) snapshotDiscount_bounds[of sub order] taxRateOf_nonneg[of "w_db w"] assms(1)
      by (intro adjustedTotal_nonneg) (auto simp: adjustPricing_def balanced_def sites_def)
    have paid: "paidSum (w_db w') oid = (if ?net \<le> ?tot then ?net else ?tot)"
      using rows tot by (auto simp: w' db us id paidSum_def paymentsOf_def)
    show ?thesis
      by (rule balanced_step[OF assms(1) s, of oid "adjustOrder order ?p ?net (w_now w1)" rows g order])
         (use o rows paid row tot in \<open>auto simp: w' db us id\<close>)
  qed
qed

text \<open>
  C2. Along every history of payments, refunds, partial refunds and adjustments, interleaved with
  time passing and the queue going up and down, whatever fails or is retried: an order is never
  overpaid and never refunded beyond what was paid, that is its net payments stay between zero and
  its total.
\<close>

theorem payments_stay_balanced:
  assumes "(payment_step cw cmp)\<^sup>*\<^sup>* w w'" and "balanced w"
  shows "balanced w'"
  using assms
proof (induction rule: rtranclp_induct)
  case (step w1 w2)
  then have "balanced w1" by simp
  from \<open>payment_step cw cmp w1 w2\<close> show ?case
  proof (rule payment_stepE)
    fix c assume w2: "w2 = runCall cw cmp c w1" and "acceptedCall c"
    with \<open>balanced w1\<close> show ?thesis
      by (cases c) (auto intro: balanced_pay balanced_refund balanced_partial balanced_adjust
          simp del: One_nat_def intro!: prod.collapse[symmetric])
  qed (use \<open>balanced w1\<close> in \<open>auto simp: balanced_def sites_def\<close>)
qed

text \<open>
  C8. A request that fails changes no order, no line and no payment: whatever a payment, a refund
  or an adjustment had already written is rolled back with its transaction.
\<close>

theorem failed_call_changes_nothing:
  shows "(case recordPayment cw user oid dto getOrderByIdForOrg w of (Inl e, w') \<Rightarrow> ledger w' = ledger w | _ \<Rightarrow> True) \<and>
    (case refundPaidOrder cw cmp user oid pin reason w of (Inl e, w') \<Rightarrow> ledger w' = ledger w | _ \<Rightarrow> True) \<and>
    (case refundPartialOrder cw cmp user oid pdto key w of (Inl e, w') \<Rightarrow> ledger w' = ledger w | _ \<Rightarrow> True) \<and>
    (case adjustOrderItems cw cmp user oid adto w of (Inl e, w') \<Rightarrow> ledger w' = ledger w | _ \<Rightarrow> True)"
proof (intro conjI)
  show "case recordPayment cw user oid dto getOrderByIdForOrg w of (Inl e, w') \<Rightarrow> ledger w' = ledger w | _ \<Rightarrow> True"
    by (auto split: prod.split sum.split elim!: recordPayment_ledger)
  show "case refundPartialOrder cw cmp user oid pdto key w of (Inl e, w') \<Rightarrow> ledger w' = ledger w | _ \<Rightarrow> True"
    by (auto split: prod.split sum.split dest!: refundPartialOrder_spec)
  show "case adjustOrderItems cw cmp user oid adto w of (Inl e, w') \<Rightarrow> ledger w' = ledger w | _ \<Rightarrow> True"
    by (auto split: prod.split sum.split elim!: adjustOrderItems_cases)
  show "case refundPaidOrder cw cmp user oid pin reason w of (Inl e, w') \<Rightarrow> ledger w' = ledger w | _ \<Rightarrow> True"
    by (auto split: prod.split sum.split elim!: refundPaidOrder_cases)
qed

end
