(* ===== verification/Orders_Service.thy ===== *)
theory Orders_Service
  imports Prelude Money Order_Status Platform_DB Cache_Store Order_Pricing Order_Print Order_Payment
begin

text \<open>
  Creating, editing and advancing orders (\<open>apps/backend/src/orders/orders.service.ts\<close>): the
  three creation paths (phone and AI orders, marketplace orders, register orders), replacing and
  appending lines, firing a course, and the status changes. The creation paths share their replay
  on the client's order key; the edits share the open-tab guards. Shown here: a client key creates
  one order however often it is retried, also when a concurrent request wins the race; the total
  of a register order; edits only ever touch open, unpaid orders; an append under a
  mutation id happens once; a course is fired once; and every status change follows the machine.
\<close>

section \<open>The client's order key\<close>

text \<open>The columns an insert leaves out take the schema's default.\<close>

definition newOrder :: "uuid \<Rightarrow> uuid \<Rightarrow> int \<Rightarrow> order_row" where
  "newOrder oid orgId now = \<lparr>ord_id = oid, ord_organizationId = orgId, ord_locationId = None,
     ord_customerId = None, ord_tableId = None, ord_customerName = [], ord_customerPhone = [],
     ord_status = Pending, ord_totalAmount = 0, ord_subtotal = None, ord_taxAmount = None,
     ord_tipAmount = None, ord_serviceChargeAmount = None, ord_loyaltyPointsEarned = None,
     ord_loyaltyPointsRedeemed = None, ord_discountAmount = None, ord_discountName = None,
     ord_discountId = None, ord_orderType = None, ord_specialInstructions = None, ord_source = None,
     ord_sourceId = None, ord_integrationAccountId = None, ord_externalOrderId = None,
     ord_paymentMethod = None, ord_paidAt = None, ord_ticketNumber = None, ord_clientOrderId = None,
     ord_fireMode = ''all'', ord_deletedAt = None, ord_createdAt = now, ord_updatedAt = now\<rparr>"

definition keyedOrder :: "db \<Rightarrow> uuid \<Rightarrow> string \<Rightarrow> order_row option" where
  "keyedOrder d orgId key = first_row (\<lambda>r. ord_organizationId r = orgId \<and>
     ord_clientOrderId r = Some key) (t_orders d)"

definition findByClientOrderId :: "uuid \<Rightarrow> string \<Rightarrow> full_order option handler" where
  "findByClientOrderId orgId clientOrderId =
     bindM (readDb (\<lambda>d. keyedOrder d orgId clientOrderId)) (\<lambda>existing. case existing of
       None \<Rightarrow> returnM None
     | Some r \<Rightarrow> bindM (getOrderByIdForOrg orgId (ord_id r)) (\<lambda>fo. returnM (Some fo)))"

definition replayOnClientOrderIdConflict :: "error \<Rightarrow> uuid \<Rightarrow> string \<Rightarrow> full_order option handler" where
  "replayOnClientOrderIdConflict err orgId clientOrderId =
     (if err = UniqueViolation ''idx_orders_org_client_id''
      then findByClientOrderId orgId clientOrderId else returnM None)"

text \<open>
  The \<open>try\<close> around the insert every creation path has: the id of the inserted order, or the order a
  concurrent request created under the same key.
\<close>

definition insertOrReplay :: "uuid \<Rightarrow> string option \<Rightarrow> uuid handler \<Rightarrow> (uuid + full_order) handler" where
  "insertOrReplay orgId key tx =
     catchM (bindM (transactionM tx) (\<lambda>i. returnM (Inl i)))
       (\<lambda>err. bindM (case key of None \<Rightarrow> returnM None
                     | Some k \<Rightarrow> replayOnClientOrderIdConflict err orgId k)
          (\<lambda>winner. case winner of Some fo \<Rightarrow> returnM (Inr fo) | None \<Rightarrow> throwM err))"

text \<open>
  The two inserts the transaction of a creation starts with: the order, then its lines under the id
  the order got.
\<close>

definition insertWithItems ::
  "(uuid \<Rightarrow> int \<Rightarrow> order_row) \<Rightarrow> (int \<Rightarrow> uuid \<Rightarrow> uuid \<Rightarrow> 'i \<Rightarrow> order_item_row) \<Rightarrow> 'i list \<Rightarrow> uuid handler" where
  "insertWithItems orderValues itemValues items =
     bindM freshId (\<lambda>oid. bindM (getsM w_now) (\<lambda>now.
     bindM (insertOrder (orderValues oid now)) (\<lambda>order.
     bindM (freshIds (length items)) (\<lambda>iids.
     thenM (insertOrderItems (map2 (itemValues now (ord_id order)) iids items))
     (returnM (ord_id order))))))"

definition ticketFor :: "uuid option \<Rightarrow> int option handler" where
  "ticketFor locationId =
     (case or_null locationId of
        Some l \<Rightarrow> bindM (nextTicketNumber l) (\<lambda>n. returnM (Some n))
      | None \<Rightarrow> returnM None)"

section \<open>Side effects of a creation\<close>

definition dispatchOrderSideEffects ::
  "uuid \<Rightarrow> uuid \<Rightarrow> uuid option \<Rightarrow> json \<Rightarrow> full_order handler" where
  "dispatchOrderSideEffects orgId orderId userId auditNewValue =
     bindM (getOrderByIdForOrg orgId orderId) (\<lambda>fullOrder.
     thenM (printForEvents orgId fullOrder
              (if ord_paidAt (fo_order fullOrder) \<noteq> None then [OnSave, OnPaid] else [OnSave]) False)
    (thenM (whenM (ord_fireMode (fo_order fullOrder) = ''by_course'') (printCourse orgId fullOrder 1))
    (thenM (emitM (Audit ''order.create'' userId (Some orgId) (ord_id (fo_order fullOrder)) auditNewValue))
    (thenM (case or_null (ord_locationId (fo_order fullOrder)) of
              Some l \<Rightarrow> emitM (RecordUsage orgId l ''order_volume'' 1 (ord_id (fo_order fullOrder)))
            | None \<Rightarrow> returnM ())
    (thenM (emitM (EmitOrder orgId ''order.created'' fullOrder))
    (thenM (emitM (BusOrder ''order.created'' orgId fullOrder))
     (returnM fullOrder)))))))"

definition finishCreation ::
  "uuid \<Rightarrow> uuid option \<Rightarrow> json \<Rightarrow> uuid + full_order \<Rightarrow> full_order handler" where
  "finishCreation orgId userId auditNewValue placed =
     (case placed of
        Inl orderId \<Rightarrow> dispatchOrderSideEffects orgId orderId userId auditNewValue
      | Inr winner \<Rightarrow> returnM winner)"

section \<open>Phone and AI orders\<close>

record ai_item =
  ai_menuItemId :: uuid
  ai_quantity :: int
  ai_modifiers :: "string list option"

record ai_order =
  ao_customerName :: string
  ao_customerPhone :: string
  ao_items :: "ai_item list"
  ao_userId :: "uuid option"
  ao_locationId :: "uuid option"
  ao_orderType :: "string option"
  ao_specialInstructions :: "string option"
  ao_clientOrderId :: "string option"

definition priceAiItem :: "(uuid \<rightharpoonup> menu_item_row) \<Rightarrow> ai_item \<Rightarrow> error + (ai_item \<times> int)" where
  "priceAiItem dbItemsMap item =
     (case dbItemsMap (ai_menuItemId item) of
        None \<Rightarrow> Inl (NotFoundException (''Menu item '' @ ai_menuItemId item @
                  '' not found, unavailable, or not in this organization.''))
      | Some m \<Rightarrow> Inr (item, mi_price m))"

definition ai_json :: "(ai_item \<times> int) list \<Rightarrow> json" where
  "ai_json ips = JList (map (\<lambda>(i, price). JObj [(''menuItemId'', JStr (ai_menuItemId i)),
     (''quantity'', JInt (ai_quantity i)), (''price'', JInt price),
     (''modifiers'', case ai_modifiers i of None \<Rightarrow> JNull | Some xs \<Rightarrow> JList (map JStr xs))]) ips)"

text \<open>Free-text requests in the register's snapshot shape.\<close>

definition requests_json :: "string list option \<Rightarrow> json option" where
  "requests_json ms =
     (case ms of None \<Rightarrow> None
      | Some xs \<Rightarrow> if xs = [] then None else Some (JList (map (\<lambda>name. JObj
          [(''modifier'', JStr ''Request''), (''option'', JStr name), (''priceAdjustment'', JInt 0)]) xs)))"

definition aiItemRow :: "uuid \<Rightarrow> uuid \<Rightarrow> ai_item \<times> int \<Rightarrow> order_item_row" where
  "aiItemRow orderId iid ip = \<lparr>oi_id = iid, oi_orderId = orderId,
     oi_menuItemId = ai_menuItemId (fst ip), oi_quantity = ai_quantity (fst ip), oi_price = snd ip,
     oi_modifiers = requests_json (ai_modifiers (fst ip)), oi_notes = None, oi_course = None,
     oi_firedAt = None\<rparr>"

definition aiOrderRow ::
  "uuid \<Rightarrow> ai_order \<Rightarrow> uuid option \<Rightarrow> int \<Rightarrow> int \<Rightarrow> int option \<Rightarrow> uuid \<Rightarrow> int \<Rightarrow> order_row" where
  "aiOrderRow orgId p locationId subtotal taxAmount ticketNumber oid now =
     (newOrder oid orgId now)\<lparr>ord_locationId := locationId,
       ord_customerName := ao_customerName p, ord_customerPhone := ao_customerPhone p,
       ord_status := Pending, ord_subtotal := Some subtotal, ord_taxAmount := Some taxAmount,
       ord_totalAmount := subtotal + taxAmount, ord_orderType := ao_orderType p,
       ord_specialInstructions := ao_specialInstructions p, ord_source := Some ''ai_phone'',
       ord_ticketNumber := ticketNumber, ord_clientOrderId := ao_clientOrderId p\<rparr>"

definition placeAiOrder ::
  "uuid \<Rightarrow> ai_order \<Rightarrow> (ai_item \<times> int) list \<Rightarrow> uuid option \<Rightarrow> int \<Rightarrow> int \<Rightarrow> uuid handler" where
  "placeAiOrder orgId p resolvedItems locationId subtotal taxAmount =
     bindM (ticketFor locationId) (\<lambda>ticketNumber.
       insertWithItems (aiOrderRow orgId p locationId subtotal taxAmount ticketNumber)
         (\<lambda>_. aiItemRow) resolvedItems)"

text \<open>Everything behind the replay check: pricing, location, tax, the insert and its side effects.\<close>

definition priceAndPlaceAi :: "uuid \<Rightarrow> ai_order \<Rightarrow> full_order handler" where
  "priceAndPlaceAi g p = bindM (readDb (\<lambda>d. cartMenuItems d g (map ai_menuItemId (ao_items p)))) (\<lambda>dbItems.
     bindM (liftE (mapE (priceAiItem (js_map (map (\<lambda>m. (mi_id m, m)) dbItems))) (ao_items p))) (\<lambda>resolvedItems.
     bindM (resolveOrderLocation g (ao_locationId p) (map mi_locationId dbItems)) (\<lambda>locationId.
     bindM (getTaxRate locationId) (\<lambda>taxRateBps.
     let subtotal = sum_by (\<lambda>(i, price). price * ai_quantity i) resolvedItems;
         taxAmount = js_round (of_int (subtotal * taxRateBps) / 10000)
     in bindM (insertOrReplay g (or_null (ao_clientOrderId p))
                 (placeAiOrder g p resolvedItems locationId subtotal taxAmount))
         (finishCreation g (ao_userId p)
            (JObj [(''totalAmount'', JInt (subtotal + taxAmount)), (''items'', ai_json resolvedItems),
                   (''status'', JStr ''pending'')]))))))"

definition createOrderForOrg :: "uuid \<Rightarrow> ai_order \<Rightarrow> full_order handler" where
  "createOrderForOrg orgId p =
     thenM (throw_if (ao_items p = []) (BadRequestException ''Order must contain at least one item.''))
    (bindM (case or_null (ao_clientOrderId p) of
              None \<Rightarrow> returnM None | Some k \<Rightarrow> findByClientOrderId orgId k) (\<lambda>replayed. case replayed of
       Some fo \<Rightarrow> returnM fo
     | None \<Rightarrow> priceAndPlaceAi orgId p))"

definition createOrder :: "cache_wiring \<Rightarrow> principal \<Rightarrow> string \<Rightarrow> string \<Rightarrow> ai_item list \<Rightarrow> full_order handler" where
  "createOrder cw user customerName customerPhone items =
     bindM (getRequiredOrg cw user) (\<lambda>orgId. createOrderForOrg orgId
       \<lparr>ao_customerName = customerName, ao_customerPhone = customerPhone, ao_items = items,
        ao_userId = Some (pr_id user), ao_locationId = None, ao_orderType = None,
        ao_specialInstructions = None, ao_clientOrderId = None\<rparr>)"

text \<open>The \<open>order.incoming\<close> event; a location may send AI orders straight to the kitchen.\<close>

definition handleOrderIncomingEvent :: "uuid \<Rightarrow> ai_order \<Rightarrow> order_row handler" where
  "handleOrderIncomingEvent orgId payload =
     bindM (createOrderForOrg orgId (payload\<lparr>ao_userId := None, ao_clientOrderId := None\<rparr>)) (\<lambda>fo.
     let order = fo_order fo in
     case or_null (ao_locationId payload) of
       None \<Rightarrow> returnM order
     | Some l \<Rightarrow>
         bindM (readDb (\<lambda>d. first_row (\<lambda>r. loc_id r = l) (t_locations d))) (\<lambda>loc.
           if ord_id order \<noteq> [] \<and> (case loc of None \<Rightarrow> False | Some r \<Rightarrow> loc_autoStartAiOrders r)
           then bindM (getsM w_now) (\<lambda>now.
                thenM (updateOrder (ord_id order) (\<lambda>r. r\<lparr>ord_status := Preparing, ord_updatedAt := now\<rparr>))
               (bindM (readDb (\<lambda>d. first_row (\<lambda>r. ord_id r = ord_id order) (t_orders d))) (\<lambda>started.
                returnM (nvl started order))))
           else returnM order))"

section \<open>Marketplace orders\<close>

record market_item =
  ki_menuItemId :: uuid
  ki_quantity :: int
  ki_price :: int
  ki_modifiers :: "json option"
  ki_notes :: "string option"

record market_order =
  mo_locationId :: "uuid option"
  mo_source :: string
  mo_sourceId :: "uuid option"
  mo_integrationAccountId :: uuid
  mo_externalOrderId :: string
  mo_clientOrderId :: string
  mo_customerName :: string
  mo_customerPhone :: string
  mo_orderType :: "string option"
  mo_specialInstructions :: "string option"
  mo_subtotal :: "int option"
  mo_taxAmount :: "int option"
  mo_tipAmount :: "int option"
  mo_totalAmount :: int
  mo_items :: "market_item list"

definition marketItemRow :: "uuid \<Rightarrow> uuid \<Rightarrow> market_item \<Rightarrow> order_item_row" where
  "marketItemRow orderId iid it = \<lparr>oi_id = iid, oi_orderId = orderId,
     oi_menuItemId = ki_menuItemId it, oi_quantity = ki_quantity it, oi_price = ki_price it,
     oi_modifiers = ki_modifiers it, oi_notes = ki_notes it, oi_course = None, oi_firedAt = None\<rparr>"

definition market_json :: "market_item list \<Rightarrow> json" where
  "market_json is = JList (map (\<lambda>i. JObj [(''menuItemId'', JStr (ki_menuItemId i)),
     (''quantity'', JInt (ki_quantity i)), (''price'', JInt (ki_price i)),
     (''modifiers'', nvl (ki_modifiers i) JNull), (''notes'', str_json (ki_notes i))]) is)"

definition marketOrderRow ::
  "uuid \<Rightarrow> market_order \<Rightarrow> uuid option \<Rightarrow> int option \<Rightarrow> uuid \<Rightarrow> int \<Rightarrow> order_row" where
  "marketOrderRow orgId p customerId ticketNumber oid now =
     (newOrder oid orgId now)\<lparr>ord_locationId := mo_locationId p,
       ord_customerId := customerId, ord_customerName := mo_customerName p,
       ord_customerPhone := mo_customerPhone p, ord_status := Pending,
       ord_subtotal := mo_subtotal p, ord_taxAmount := mo_taxAmount p,
       ord_tipAmount := mo_tipAmount p, ord_totalAmount := mo_totalAmount p,
       ord_orderType := mo_orderType p, ord_specialInstructions := mo_specialInstructions p,
       ord_source := Some (mo_source p), ord_sourceId := mo_sourceId p,
       ord_integrationAccountId := Some (mo_integrationAccountId p),
       ord_externalOrderId := Some (mo_externalOrderId p), ord_ticketNumber := ticketNumber,
       ord_clientOrderId := Some (mo_clientOrderId p)\<rparr>"

definition placeMarketOrder :: "uuid \<Rightarrow> market_order \<Rightarrow> uuid option \<Rightarrow> uuid handler" where
  "placeMarketOrder orgId p customerId =
     bindM (ticketFor (mo_locationId p)) (\<lambda>ticketNumber.
       insertWithItems (marketOrderRow orgId p customerId ticketNumber) (\<lambda>_. marketItemRow) (mo_items p))"

definition linkAndPlaceMarket :: "uuid \<Rightarrow> market_order \<Rightarrow> full_order handler" where
  "linkAndPlaceMarket g p = bindM (resolveCustomerIdByPhone g (Some (mo_customerPhone p)) (Some (mo_customerName p))) (\<lambda>customerId.
     bindM (insertOrReplay g (Some (mo_clientOrderId p)) (placeMarketOrder g p customerId))
       (finishCreation g None
          (JObj [(''totalAmount'', JInt (mo_totalAmount p)), (''items'', market_json (mo_items p)),
                 (''status'', JStr ''pending''),
                 (''source'', JStr (mo_source p)), (''externalOrderId'', JStr (mo_externalOrderId p))])))"

definition createMarketplaceOrder :: "uuid \<Rightarrow> market_order \<Rightarrow> full_order handler" where
  "createMarketplaceOrder orgId p =
     thenM (throw_if (mo_items p = []) (BadRequestException ''Order must contain at least one item.''))
    (bindM (findByClientOrderId orgId (mo_clientOrderId p)) (\<lambda>replayed. case replayed of
       Some fo \<Rightarrow> returnM fo
     | None \<Rightarrow> linkAndPlaceMarket orgId p))"

section \<open>Register orders\<close>

record pos_order =
  cp_locationId :: uuid
  cp_customerId :: "uuid option"
  cp_customerName :: "string option"
  cp_customerPhone :: "string option"
  cp_tableId :: "uuid option"
  cp_orderType :: "string option"
  cp_specialInstructions :: "string option"
  cp_paymentMethod :: "string option"
  cp_tipAmount :: "rat option"
  cp_applyServiceCharge :: bool
  cp_redeemPoints :: "rat option"
  cp_discountId :: "uuid option"
  cp_promoCode :: "string option"
  cp_clientOrderId :: "string option"
  cp_fireMode :: "string option"
  cp_items :: "cart_item list"

text \<open>The money of a register order, from the priced cart, the discount and the location's rates.\<close>

record tender =
  tn_discountAmount :: int
  tn_serviceChargeAmount :: int
  tn_taxAmount :: int
  tn_tipAmount :: int
  tn_redemptionAmount :: int
  tn_totalAmount :: int

definition posTender ::
  "resolved_item list \<Rightarrow> int \<Rightarrow> int \<Rightarrow> bool \<Rightarrow> int \<Rightarrow> int \<Rightarrow> rat option \<Rightarrow> int \<Rightarrow> tender" where
  "posTender resolvedItems subtotal discountAmount applyServiceCharge serviceChargeBps taxRateBps tip redeemPoints =
     (let taxableBase = subtotal - discountAmount;
          taxableSub = taxableSubtotal resolvedItems;
          taxableAfterDiscount = (if 0 < subtotal
            then of_int taxableSub - of_int (discountAmount * taxableSub) / of_int subtotal else 0 :: rat);
          serviceChargeAmount = (if applyServiceCharge
            then js_round (of_int (taxableBase * serviceChargeBps) / 10000) else 0);
          taxAmount = js_round ((taxableAfterDiscount + of_int serviceChargeAmount) * of_int taxRateBps / 10000);
          tipAmount = max 0 (js_round (nvl tip 0));
          preRedemptionTotal = taxableBase + serviceChargeAmount + taxAmount + tipAmount;
          redemptionAmount = min redeemPoints preRedemptionTotal
      in \<lparr>tn_discountAmount = discountAmount, tn_serviceChargeAmount = serviceChargeAmount,
          tn_taxAmount = taxAmount, tn_tipAmount = tipAmount, tn_redemptionAmount = redemptionAmount,
          tn_totalAmount = preRedemptionTotal - redemptionAmount\<rparr>)"

text \<open>\<open>n || null\<close>\<close>

definition int_or_null :: "int \<Rightarrow> int option" where
  "int_or_null n = (if n = 0 then None else Some n)"

definition loyaltyEarned :: "pos_order \<Rightarrow> tender \<Rightarrow> int" where
  "loyaltyEarned dto t = (if truthy (cp_paymentMethod dto) then tn_totalAmount t div 100 else 0)"

text \<open>The checks on a linked customer and the points it redeems; the points that will be redeemed.\<close>

definition checkRedemption :: "uuid \<Rightarrow> pos_order \<Rightarrow> int handler" where
  "checkRedemption orgId dto =
     bindM (if truthy (cp_customerId dto)
            then thenM (requireOrgCustomer orgId (the (cp_customerId dto)))
              (if nvl (cp_redeemPoints dto) 0 \<noteq> 0
               then readDb (\<lambda>d. case first_row (\<lambda>c. Some (cust_id c) = cp_customerId dto) (t_customers d) of
                      None \<Rightarrow> 0 | Some c \<Rightarrow> cust_loyaltyPoints c)
               else returnM 0)
            else returnM 0) (\<lambda>customerLoyaltyPoints.
     let redeemPoints = max 0 (js_round (nvl (cp_redeemPoints dto) 0)) in
     thenM (throw_if (0 < redeemPoints \<and> \<not> truthy (cp_customerId dto))
              (BadRequestException ''A linked customer is required to redeem loyalty points.''))
    (thenM (throw_if (0 < redeemPoints \<and> customerLoyaltyPoints < redeemPoints)
              (BadRequestException (''Customer only has '' @ show_int customerLoyaltyPoints @ '' loyalty points.'')))
     (returnM redeemPoints)))"

definition posItemRow :: "bool \<Rightarrow> int \<Rightarrow> uuid \<Rightarrow> uuid \<Rightarrow> resolved_item \<Rightarrow> order_item_row" where
  "posItemRow byCourse now orderId iid it = \<lparr>oi_id = iid, oi_orderId = orderId,
     oi_menuItemId = ri_menuItemId it, oi_quantity = ri_quantity it, oi_price = ri_price it,
     oi_modifiers = snapshots_json (ri_modifiers it), oi_notes = ri_notes it, oi_course = ri_course it,
     oi_firedAt = (if byCourse \<and> ri_course it = Some 1 then Some now else None)\<rparr>"

definition posOrderRow ::
  "uuid \<Rightarrow> pos_order \<Rightarrow> int \<Rightarrow> tender \<Rightarrow> discount_row option \<Rightarrow> uuid option \<Rightarrow> int \<Rightarrow> uuid \<Rightarrow> int \<Rightarrow> order_row" where
  "posOrderRow orgId dto subtotal t discount customerId ticketNumber oid now =
     (newOrder oid orgId now)\<lparr>ord_locationId := Some (cp_locationId dto), ord_customerId := customerId,
       ord_tableId := or_null (cp_tableId dto),
       ord_customerName := or_else (js_trim (nvl (cp_customerName dto) [])) ''Walk-in'',
       ord_customerPhone := js_trim (nvl (cp_customerPhone dto) []),
       ord_status := Confirmed, ord_subtotal := Some subtotal, ord_taxAmount := Some (tn_taxAmount t),
       ord_tipAmount := Some (tn_tipAmount t), ord_serviceChargeAmount := Some (tn_serviceChargeAmount t),
       ord_loyaltyPointsEarned := int_or_null (loyaltyEarned dto t),
       ord_loyaltyPointsRedeemed := int_or_null (tn_redemptionAmount t),
       ord_discountAmount := Some (tn_discountAmount t), ord_discountName := map_option disc_name discount,
       ord_discountId := map_option disc_id discount, ord_totalAmount := tn_totalAmount t,
       ord_orderType := Some (nvl (cp_orderType dto) ''dine_in''),
       ord_specialInstructions := cp_specialInstructions dto, ord_source := Some ''pos'',
       ord_paymentMethod := cp_paymentMethod dto,
       ord_paidAt := (if truthy (cp_paymentMethod dto) then Some now else None),
       ord_ticketNumber := Some ticketNumber, ord_clientOrderId := cp_clientOrderId dto,
       ord_fireMode := (if cp_fireMode dto = Some ''by_course'' then ''by_course'' else ''all'')\<rparr>"

definition updateLoyalty :: "pos_order \<Rightarrow> tender \<Rightarrow> int \<Rightarrow> unit handler" where
  "updateLoyalty dto t now =
     whenM (truthy (cp_customerId dto) \<and> (0 < tn_redemptionAmount t \<or> 0 < loyaltyEarned dto t))
       (writeDb (\<lambda>d. d\<lparr>t_customers := update_where (\<lambda>c. Some (cust_id c) = cp_customerId dto)
          (\<lambda>c. c\<lparr>cust_loyaltyPoints := max (cust_loyaltyPoints c - tn_redemptionAmount t + loyaltyEarned dto t) 0,
                 cust_updatedAt := now\<rparr>) (t_customers d)\<rparr>))"

definition auditOverrides :: "uuid \<Rightarrow> principal \<Rightarrow> uuid \<Rightarrow> resolved_item list \<Rightarrow> unit handler" where
  "auditOverrides orgId user oid resolvedItems =
     whenM (list_ex ri_priceOverridden resolvedItems)
       (emitM (Audit ''order.item.price_override'' (Some (pr_id user)) (Some orgId) oid
          (JObj [(''items'', JList (map (\<lambda>i. JObj [(''menuItemId'', JStr (ri_menuItemId i)),
             (''price'', JInt (ri_price i)), (''reason'', str_json (ri_priceOverrideReason i))])
             (filter ri_priceOverridden resolvedItems)))])))"

definition placePosOrder ::
  "uuid \<Rightarrow> principal \<Rightarrow> pos_order \<Rightarrow> resolved_item list \<Rightarrow> int \<Rightarrow> tender \<Rightarrow> discount_row option \<Rightarrow>
   uuid option \<Rightarrow> uuid handler" where
  "placePosOrder orgId user dto resolvedItems subtotal t discount customerId =
     bindM (nextTicketNumber (cp_locationId dto)) (\<lambda>ticketNumber.
     bindM (insertWithItems (posOrderRow orgId dto subtotal t discount customerId ticketNumber)
              (posItemRow (cp_fireMode dto = Some ''by_course'')) resolvedItems) (\<lambda>oid.
     bindM (getsM w_now) (\<lambda>now.
     thenM (decrementStock (map (\<lambda>i. (ri_menuItemId i, ri_quantity i)) resolvedItems))
    (thenM (updateLoyalty dto t now)
    (thenM (auditOverrides orgId user oid resolvedItems)
     (returnM oid))))))"

text \<open>\<open>createPosOrder\<close> behind its replay check, and the whole of it once the organization is known.\<close>

definition priceAndPlacePos :: "uuid \<Rightarrow> principal \<Rightarrow> pos_order \<Rightarrow> full_order handler" where
  "priceAndPlacePos g user dto =
     bindM (readDb (\<lambda>d. first_row (\<lambda>l. loc_id l = cp_locationId dto \<and> loc_organizationId l = g \<and>
              loc_deletedAt l = None) (t_locations d))) (\<lambda>l.
     bindM (orThrow l (NotFoundException ''Location not found in your organization.'')) (\<lambda>location.
     bindM (checkRedemption g dto) (\<lambda>redeemPoints.
     bindM (priceCartItems g (cp_items dto)) (\<lambda>(resolvedItems, subtotal).
     bindM (resolveDiscount g (pr_role user) (cp_discountId dto) (cp_promoCode dto)) (\<lambda>discount.
     let t = posTender resolvedItems subtotal (discountAmountForRow discount subtotal)
               (cp_applyServiceCharge dto) (loc_serviceChargeBps location) (loc_taxRateBps location)
               (cp_tipAmount dto) redeemPoints
     in
     bindM (if truthy (cp_customerId dto) then returnM (cp_customerId dto)
            else resolveCustomerIdByPhone g (cp_customerPhone dto) (cp_customerName dto)) (\<lambda>customerId.
     bindM (insertOrReplay g (or_null (cp_clientOrderId dto))
              (placePosOrder g user dto resolvedItems subtotal t discount customerId))
       (finishCreation g (Some (pr_id user))
          (JObj [(''subtotal'', JInt subtotal), (''taxAmount'', JInt (tn_taxAmount t)),
                 (''tipAmount'', JInt (tn_tipAmount t)), (''discountAmount'', JInt (tn_discountAmount t)),
                 (''discountName'', str_json (map_option disc_name discount)),
                 (''totalAmount'', JInt (tn_totalAmount t)), (''items'', resolved_json resolvedItems),
                 (''status'', JStr ''confirmed''),
                 (''source'', JStr ''pos''), (''paymentMethod'', str_json (cp_paymentMethod dto))]))))))))"

definition createPosOrderFor :: "uuid \<Rightarrow> principal \<Rightarrow> pos_order \<Rightarrow> full_order handler" where
  "createPosOrderFor orgId user dto =
     thenM (throw_if (cp_items dto = []) (BadRequestException ''Order must contain at least one item.''))
    (bindM (case or_null (cp_clientOrderId dto) of
              None \<Rightarrow> returnM None | Some k \<Rightarrow> findByClientOrderId orgId k) (\<lambda>replayed. case replayed of
       Some fo \<Rightarrow> returnM fo
     | None \<Rightarrow> priceAndPlacePos orgId user dto))"

definition createPosOrder :: "cache_wiring \<Rightarrow> principal \<Rightarrow> pos_order \<Rightarrow> full_order handler" where
  "createPosOrder cw user dto =
     bindM (getRequiredOrg cw user) (\<lambda>orgId. createPosOrderFor orgId user dto)"

section \<open>Editing an open order\<close>

definition openStatus :: "order_status \<Rightarrow> bool" where
  "openStatus s \<longleftrightarrow> s \<in> set [Pending, Confirmed]"

text \<open>The guards the two edits share: unpaid, still open, nothing collected yet.\<close>

definition guardEditable :: "order_row \<Rightarrow> uuid \<Rightarrow> unit handler" where
  "guardEditable order orderId =
     thenM (throw_if (ord_paidAt order \<noteq> None)
              (BadRequestException ''Paid orders cannot be edited. Use a refund/void instead.''))
    (thenM (throw_if (\<not> openStatus (ord_status order))
              (BadRequestException (''Orders in status \"'' @ status_string (ord_status order) @
                 ''\" can no longer be edited.'')))
    (bindM (paidSumFor orderId) (\<lambda>paid.
       throw_if (0 < paid) (BadRequestException ''Orders with recorded payments cannot be edited.''))))"

record edit_order =
  eo_customerId :: "uuid option"
  eo_customerName :: "string option"
  eo_customerPhone :: "string option"
  eo_tableId :: "uuid option"
  eo_orderType :: "string option"
  eo_specialInstructions :: "string option"
  eo_discountId :: "uuid option"
  eo_promoCode :: "string option"
  eo_items :: "cart_item list"

text \<open>\<open>v !== undefined ? { column: f(v) } : {}\<close>\<close>

definition given :: "'a option \<Rightarrow> ('a \<Rightarrow> 'b) \<Rightarrow> 'b \<Rightarrow> 'b" where
  "given v f old = (case v of None \<Rightarrow> old | Some x \<Rightarrow> f x)"

record edit_totals =
  et_subtotal :: int
  et_taxAmount :: int
  et_discountAmount :: int
  et_totalAmount :: int

text \<open>The money of an edited order: the discount comes off, tax on the rest, the tip stays.\<close>

definition editTotals :: "discount_row option \<Rightarrow> int \<Rightarrow> int \<Rightarrow> int option \<Rightarrow> edit_totals" where
  "editTotals discount subtotal taxRateBps tip =
     (let discountAmount = discountAmountForRow discount subtotal;
          taxableBase = subtotal - discountAmount;
          taxAmount = js_round (of_int (taxableBase * taxRateBps) / 10000)
      in \<lparr>et_subtotal = subtotal, et_taxAmount = taxAmount, et_discountAmount = discountAmount,
          et_totalAmount = taxableBase + taxAmount + nvl tip 0\<rparr>)"

definition editedRow :: "edit_order \<Rightarrow> edit_totals \<Rightarrow> discount_row option \<Rightarrow> int \<Rightarrow> order_row \<Rightarrow> order_row" where
  "editedRow dto t discount now r = r\<lparr>ord_subtotal := Some (et_subtotal t),
     ord_taxAmount := Some (et_taxAmount t), ord_discountAmount := Some (et_discountAmount t),
     ord_discountName := map_option disc_name discount, ord_discountId := map_option disc_id discount,
     ord_totalAmount := et_totalAmount t,
     ord_customerId := given (eo_customerId dto) (\<lambda>c. or_null (Some c)) (ord_customerId r),
     ord_tableId := given (eo_tableId dto) (\<lambda>x. or_null (Some x)) (ord_tableId r),
     ord_customerName := given (eo_customerName dto) (\<lambda>n. or_else (js_trim n) ''Walk-in'') (ord_customerName r),
     ord_orderType := given (eo_orderType dto) Some (ord_orderType r),
     ord_specialInstructions := given (eo_specialInstructions dto) (\<lambda>s. or_null (Some s)) (ord_specialInstructions r),
     ord_customerPhone := given (eo_customerPhone dto) js_trim (ord_customerPhone r),
     ord_updatedAt := now\<rparr>"

definition cartItemRow :: "uuid \<Rightarrow> uuid \<Rightarrow> resolved_item \<Rightarrow> order_item_row" where
  "cartItemRow orderId iid it = posItemRow False 0 orderId iid it"

definition replaceItems ::
  "uuid \<Rightarrow> edit_order \<Rightarrow> edit_totals \<Rightarrow> discount_row option \<Rightarrow> resolved_item list \<Rightarrow> unit handler" where
  "replaceItems orderId dto t discount resolvedItems =
     bindM (getsM w_now) (\<lambda>now.
     thenM (updateOrder orderId (editedRow dto t discount now))
    (thenM (deleteOrderItems orderId)
    (bindM (freshIds (length resolvedItems)) (\<lambda>iids.
       insertOrderItems (map2 (cartItemRow orderId) iids resolvedItems)))))"

text \<open>What follows an edit: the update ticket, the audit entry and the realtime event.\<close>

definition announceEdit :: "uuid \<Rightarrow> principal \<Rightarrow> uuid \<Rightarrow> string \<Rightarrow> json \<Rightarrow> full_order \<Rightarrow> full_order handler" where
  "announceEdit orgId user orderId action newValue fullOrder =
     thenM (printForEvents orgId fullOrder [OnUpdate] True)
    (thenM (emitM (Audit action (Some (pr_id user)) (Some orgId) orderId newValue))
    (thenM (emitM (EmitOrder orgId ''order.updated'' fullOrder))
     (returnM fullOrder)))"

definition updateOrderItemsFor :: "uuid \<Rightarrow> principal \<Rightarrow> uuid \<Rightarrow> edit_order \<Rightarrow> full_order handler" where
  "updateOrderItemsFor orgId user orderId dto =
     thenM (throw_if (eo_items dto = []) (BadRequestException ''Order must contain at least one item.''))
    (bindM (getOrderByIdForOrg orgId orderId) (\<lambda>fo.
     let order = fo_order fo in
     thenM (guardEditable order orderId)
    (thenM (whenM (truthy (eo_customerId dto)) (requireOrgCustomer orgId (the (eo_customerId dto))))
    (bindM (priceCartItems orgId (eo_items dto)) (\<lambda>(resolvedItems, subtotal).
     bindM (getTaxRate (ord_locationId order)) (\<lambda>taxRateBps.
     bindM (resolveDiscount orgId (pr_role user) (eo_discountId dto) (eo_promoCode dto)) (\<lambda>discount.
     let t = editTotals discount subtotal taxRateBps (ord_tipAmount order) in
     thenM (transactionM (replaceItems orderId dto t discount resolvedItems))
    (bindM (getOrderByIdForOrg orgId orderId)
       (announceEdit orgId user orderId ''order.items.update''
         (JObj [(''subtotal'', JInt (et_subtotal t)), (''taxAmount'', JInt (et_taxAmount t)),
                (''totalAmount'', JInt (et_totalAmount t)), (''items'', resolved_json resolvedItems)]))))))))))"

definition updateOrderItems :: "cache_wiring \<Rightarrow> principal \<Rightarrow> uuid \<Rightarrow> edit_order \<Rightarrow> full_order handler" where
  "updateOrderItems cw user orderId dto =
     bindM (getRequiredOrg cw user) (\<lambda>orgId. updateOrderItemsFor orgId user orderId dto)"

section \<open>Mutations by id: appends and fires\<close>

text \<open>
  \<open>INSERT ... ON CONFLICT DO NOTHING\<close> into \<open>order_mutations\<close>: false when the organization has
  already used the id. The order has to exist (a foreign key).
\<close>

definition claimMutation :: "uuid \<Rightarrow> uuid \<Rightarrow> string \<Rightarrow> string \<Rightarrow> bool handler" where
  "claimMutation orgId orderId key kind = bindM (readDb id) (\<lambda>d.
     if list_ex (\<lambda>m. om_organizationId m = orgId \<and> om_clientMutationId m = key) (t_orderMutations d)
     then returnM False
     else thenM (throw_if (\<not> list_ex (\<lambda>r. ord_id r = orderId) (t_orders d))
                  (ConstraintViolation ''order_mutations''))
         (thenM (writeDb (\<lambda>d. d\<lparr>t_orderMutations := t_orderMutations d @
            [\<lparr>om_organizationId = orgId, om_orderId = orderId, om_clientMutationId = key, om_kind = kind\<rparr>]\<rparr>))
          (returnM True)))"

definition claimOnce :: "uuid \<Rightarrow> uuid \<Rightarrow> string option \<Rightarrow> string \<Rightarrow> bool handler" where
  "claimOnce orgId orderId key kind =
     (if truthy key then claimMutation orgId orderId (the key) kind else returnM True)"

definition liveOrder :: "uuid \<Rightarrow> uuid \<Rightarrow> order_row handler" where
  "liveOrder orgId orderId =
     bindM (readDb (\<lambda>d. first_row (\<lambda>r. ord_id r = orderId \<and> ord_organizationId r = orgId \<and>
              ord_deletedAt r = None) (t_orders d)))
     (\<lambda>o'. orThrow o' (NotFoundException (''Order '' @ orderId @ '' not found'')))"

record append_dto =
  ap_clientMutationId :: "string option"
  ap_cart :: "cart_item list"

definition appendedRow :: "edit_totals \<Rightarrow> discount_row option \<Rightarrow> int \<Rightarrow> order_row \<Rightarrow> order_row" where
  "appendedRow t discount now r = r\<lparr>ord_subtotal := Some (et_subtotal t),
     ord_taxAmount := Some (et_taxAmount t), ord_discountAmount := Some (et_discountAmount t),
     ord_discountName := map_option disc_name discount, ord_totalAmount := et_totalAmount t,
     ord_updatedAt := now\<rparr>"

text \<open>
  The transaction of an append, behind the claim and with it; true when the mutation id was
  already claimed.
\<close>

definition appendClaimed :: "uuid \<Rightarrow> principal \<Rightarrow> uuid \<Rightarrow> append_dto \<Rightarrow> bool handler" where
  "appendClaimed orgId user orderId dto =
     bindM (liveOrder orgId orderId) (\<lambda>order.
     thenM (guardEditable order orderId)
    (bindM (priceCartItems orgId (ap_cart dto)) (\<lambda>(resolvedItems, addedSubtotal).
     bindM (readDb (\<lambda>d. sum_by (\<lambda>i. oi_price i * oi_quantity i) (itemsOf d orderId))) (\<lambda>existingSubtotal.
     let subtotal = existingSubtotal + addedSubtotal in
     bindM (getTaxRate (ord_locationId order)) (\<lambda>taxRateBps.
     bindM (resolveDiscount orgId (pr_role user) (ord_discountId order) None) (\<lambda>discount.
     let t = editTotals discount subtotal taxRateBps (ord_tipAmount order) in
     bindM (freshIds (length resolvedItems)) (\<lambda>iids.
     thenM (insertOrderItems (map2 (cartItemRow orderId) iids resolvedItems))
    (thenM (decrementStock (map (\<lambda>i. (ri_menuItemId i, ri_quantity i)) resolvedItems))
    (bindM (getsM w_now) (\<lambda>now.
     thenM (updateOrder orderId (appendedRow t discount now))
     (returnM False)))))))))))"

definition appendInTx :: "uuid \<Rightarrow> principal \<Rightarrow> uuid \<Rightarrow> append_dto \<Rightarrow> bool handler" where
  "appendInTx orgId user orderId dto =
     bindM (claimOnce orgId orderId (ap_clientMutationId dto) ''append'') (\<lambda>claimed.
     if \<not> claimed then returnM True else appendClaimed orgId user orderId dto)"

definition appendOrderItemsFor :: "uuid \<Rightarrow> principal \<Rightarrow> uuid \<Rightarrow> append_dto \<Rightarrow> full_order handler" where
  "appendOrderItemsFor orgId user orderId dto =
     thenM (throw_if (ap_cart dto = []) (BadRequestException ''No items to append.''))
    (bindM (transactionM (appendInTx orgId user orderId dto)) (\<lambda>replayed.
     bindM (getOrderByIdForOrg orgId orderId) (\<lambda>fullOrder.
     if replayed then returnM fullOrder
     else announceEdit orgId user orderId ''order.items.append''
        (JObj [(''appended'', items_json (ap_cart dto)),
               (''totalAmount'', JInt (ord_totalAmount (fo_order fullOrder)))]) fullOrder)))"

definition appendOrderItems :: "cache_wiring \<Rightarrow> principal \<Rightarrow> uuid \<Rightarrow> append_dto \<Rightarrow> full_order handler" where
  "appendOrderItems cw user orderId dto =
     bindM (getRequiredOrg cw user) (\<lambda>orgId. appendOrderItemsFor orgId user orderId dto)"

record fire_dto =
  fd_course :: int
  fd_clientMutationId :: "string option"

definition unfired :: "uuid \<Rightarrow> int \<Rightarrow> order_item_row \<Rightarrow> bool" where
  "unfired orderId course r \<longleftrightarrow> oi_orderId r = orderId \<and> oi_course r = Some course \<and> oi_firedAt r = None"

definition fireClaimed :: "uuid \<Rightarrow> uuid \<Rightarrow> fire_dto \<Rightarrow> bool handler" where
  "fireClaimed orgId orderId dto =
     bindM (liveOrder orgId orderId) (\<lambda>order.
     thenM (throw_if (ord_paidAt order \<noteq> None)
              (BadRequestException ''This order is already paid; there is nothing left to fire.''))
    (thenM (throw_if (\<not> openStatus (ord_status order))
              (BadRequestException (''Orders in status \"'' @ status_string (ord_status order) @
                 ''\" can no longer be fired.'')))
    (bindM (getsM w_now) (\<lambda>now.
     bindM (readDb (\<lambda>d. filter (unfired orderId (fd_course dto)) (t_orderItems d))) (\<lambda>stamped.
     thenM (writeDb (\<lambda>d. d\<lparr>t_orderItems := update_where (unfired orderId (fd_course dto))
              (\<lambda>r. r\<lparr>oi_firedAt := Some now\<rparr>) (t_orderItems d)\<rparr>))
     (returnM (stamped \<noteq> [])))))))"

definition fireInTx :: "uuid \<Rightarrow> uuid \<Rightarrow> fire_dto \<Rightarrow> bool handler" where
  "fireInTx orgId orderId dto =
     bindM (claimOnce orgId orderId (fd_clientMutationId dto) ''fire'') (\<lambda>claimed.
     if \<not> claimed then returnM False else fireClaimed orgId orderId dto)"

definition fireCourseFor :: "uuid \<Rightarrow> principal \<Rightarrow> uuid \<Rightarrow> fire_dto \<Rightarrow> full_order handler" where
  "fireCourseFor orgId user orderId dto =
     bindM (transactionM (fireInTx orgId orderId dto)) (\<lambda>fired.
     bindM (getOrderByIdForOrg orgId orderId) (\<lambda>fullOrder.
     if \<not> fired then returnM fullOrder
     else
     thenM (printCourse orgId fullOrder (fd_course dto))
    (thenM (emitM (Audit ''order.course.fire'' (Some (pr_id user)) (Some orgId) orderId
        (JObj [(''course'', JInt (fd_course dto))])))
    (thenM (emitM (EmitOrder orgId ''order.updated'' fullOrder))
     (returnM fullOrder)))))"

definition fireCourse :: "cache_wiring \<Rightarrow> principal \<Rightarrow> uuid \<Rightarrow> fire_dto \<Rightarrow> full_order handler" where
  "fireCourse cw user orderId dto =
     bindM (getRequiredOrg cw user) (\<lambda>orgId. fireCourseFor orgId user orderId dto)"

section \<open>Status changes\<close>

definition updateOrderStatus :: "cache_wiring \<Rightarrow> principal \<Rightarrow> uuid \<Rightarrow> string \<Rightarrow> full_order handler" where
  "updateOrderStatus cw user orderId status =
     bindM (getRequiredOrg cw user) (\<lambda>orgId.
     bindM (orThrow (case status_of_string status of
              None \<Rightarrow> None
            | Some s \<Rightarrow> if s \<in> set MANUAL_ORDER_STATUSES then Some s else None)
              (BadRequestException (''Invalid order status: '' @ status))) (\<lambda>next.
     bindM (readDb (\<lambda>d. findOrder d orgId orderId)) (\<lambda>o'.
     bindM (orThrow o' (NotFoundException (''Order '' @ orderId @ '' not found''))) (\<lambda>order.
     thenM (throw_if (next \<notin> set (ORDER_STATUS_TRANSITIONS (ord_status order)))
              (BadRequestException (''Cannot transition order status from '' @ [CHR 0x27] @
                 status_string (ord_status order) @ [CHR 0x27] @ '' to '' @ [CHR 0x27] @ status @ [CHR 0x27] @ ''.'')))
    (bindM (getsM w_now) (\<lambda>now.
     thenM (updateOrder orderId (\<lambda>r. r\<lparr>ord_status := next, ord_updatedAt := now\<rparr>))
    (thenM (emitM (Audit ''order.status_update'' (Some (pr_id user)) (Some orgId) orderId
        (JObj [(''status'', JStr status)])))
    (bindM (bindM (getRequiredOrg cw user) (\<lambda>orgId. getOrderByIdForOrg orgId orderId)) (\<lambda>updatedOrder.
     thenM (emitM (EmitOrder orgId ''order.updated'' updatedOrder))
    (thenM (emitM (BusOrder ''order.updated'' orgId updatedOrder))
     (returnM updatedOrder)))))))))))"

definition updateStatusForAggregator :: "uuid \<Rightarrow> uuid \<Rightarrow> order_status \<Rightarrow> full_order handler" where
  "updateStatusForAggregator orgId orderId newStatus =
     bindM (readDb (\<lambda>d. findOrder d orgId orderId)) (\<lambda>o'.
     bindM (orThrow o' (NotFoundException (''Order '' @ orderId @ '' not found''))) (\<lambda>order.
     if ord_status order = newStatus then getOrderByIdForOrg orgId orderId
     else
     bindM (getsM w_now) (\<lambda>now.
     thenM (updateOrder orderId (\<lambda>r. r\<lparr>ord_status := newStatus, ord_updatedAt := now\<rparr>))
    (thenM (emitM (Audit ''order.status_update'' None (Some orgId) orderId
        (JObj [(''status'', JStr (status_string newStatus)), (''via'', JStr ''aggregator'')])))
    (bindM (getOrderByIdForOrg orgId orderId) (\<lambda>updatedOrder.
     thenM (emitM (EmitOrder orgId ''order.updated'' updatedOrder))
    (thenM (emitM (BusOrder ''order.updated'' orgId updatedOrder))
     (returnM updatedOrder))))))))"

section \<open>Print entry points\<close>

definition getOrderPrintJobs ::
  "cache_wiring \<Rightarrow> principal \<Rightarrow> uuid \<Rightarrow> string option \<Rightarrow> string option \<Rightarrow> print_job_row list handler" where
  "getOrderPrintJobs cw user orderId status jobType =
     bindM (getRequiredOrg cw user) (\<lambda>orgId.
     bindM (getOrderByIdForOrg orgId orderId) (\<lambda>_.
     readDb (\<lambda>d. listOrderPrintJobs d orgId orderId status jobType)))"

definition printOrderById :: "cache_wiring \<Rightarrow> principal \<Rightarrow> uuid \<Rightarrow> string option \<Rightarrow> (uuid \<times> uuid) handler" where
  "printOrderById cw user orderId printerId =
     bindM (getRequiredOrg cw user) (\<lambda>orgId.
     bindM (getOrderByIdForOrg orgId orderId) (\<lambda>fullOrder.
     printOrder orgId fullOrder printerId))"

section \<open>Frames of the steps of a creation\<close>

lemma preserves_ledger_decrementStock [frame]: "preserves ledger (decrementStock items)"
  unfolding decrementStock_def
  by (rule preserves_forM) (auto simp: preserves_def ledger_def split: prod.split)

lemma preserves_ledger_updateLoyalty [frame]: "preserves ledger (updateLoyalty dto t now)"
  unfolding updateLoyalty_def by (intro frame preserves_writeDb) (simp add: ledger_def)

lemma preserves_ledger_auditOverrides [frame]: "preserves ledger (auditOverrides g u oid ris)"
  unfolding auditOverrides_def by (intro frame)

lemma preserves_ledger_resolveCustomer [frame]: "preserves ledger (resolveCustomerIdByPhone g ph nm)"
  unfolding resolveCustomerIdByPhone_def
  by (intro frame preserves_writeDb) (simp_all add: ledger_def)

lemma preserves_requireOrgCustomer [frame]: "preserves f (requireOrgCustomer g c)"
  unfolding requireOrgCustomer_def by (intro frame)

lemma preserves_checkRedemption [frame]: "preserves f (checkRedemption g dto)"
  unfolding checkRedemption_def Let_def by (intro frame)

lemma preserves_pricing [frame]:
  "preserves f (priceCartItems g items)" "preserves f (getTaxRate l)"
  "preserves f (resolveDiscount g role di pc)" "preserves f (resolveOrderLocation g l ls)"
  "preserves f (nextTicketNumber l')"
  unfolding priceCartItems_def getTaxRate_def resolveDiscount_def resolveOrderLocation_def
    nextTicketNumber_def Let_def
  by (intro frame)+

lemma preserves_findByClientOrderId [frame]: "preserves f (findByClientOrderId g k)"
  unfolding findByClientOrderId_def by (intro frame)

lemma preserves_ledger_dispatch [frame]: "preserves ledger (dispatchOrderSideEffects g oid uid a)"
  unfolding dispatchOrderSideEffects_def by (intro frame)

lemma preserves_ledger_finish [frame]: "preserves ledger (finishCreation g uid a p)"
  unfolding finishCreation_def by (cases p) (auto intro: frame)

section \<open>One order per key\<close>

lemma findByClientOrderId_run:
  "findByClientOrderId g k w = (case keyedOrder (w_db w) g k of
     None \<Rightarrow> (Inr None, w)
   | Some r \<Rightarrow> (Inr (Some \<lparr>fo_order = the (findOrder (w_db w) g (ord_id r)),
        fo_items = map (fullItem (w_db w)) (itemsOf (w_db w) (ord_id r)),
        fo_payments = paymentsOf (w_db w) (ord_id r)\<rparr>), w))"
proof (cases "keyedOrder (w_db w) g k")
  case (Some r)
  then have "r \<in> set (t_orders (w_db w))" "ord_organizationId r = g"
    by (auto simp: keyedOrder_def dest: first_row_SomeD)
  then obtain r' where "findOrder (w_db w) g (ord_id r) = Some r'"
    unfolding findOrder_def
    using first_row_NoneD[of "\<lambda>x. ord_id x = ord_id r \<and> ord_organizationId x = g" "t_orders (w_db w)" r]
    by (cases "first_row (\<lambda>x. ord_id x = ord_id r \<and> ord_organizationId x = g) (t_orders (w_db w))") simp_all
  with Some show ?thesis
    by (simp add: findByClientOrderId_def bindM_def getOrderByIdForOrg_reads)
qed (simp add: findByClientOrderId_def)

text \<open>The order a client key names, as a creation returns it.\<close>

definition fullOf :: "db \<Rightarrow> uuid \<Rightarrow> order_row \<Rightarrow> full_order" where
  "fullOf d g r = \<lparr>fo_order = the (findOrder d g (ord_id r)),
     fo_items = map (fullItem d) (itemsOf d (ord_id r)), fo_payments = paymentsOf d (ord_id r)\<rparr>"

text \<open>
  The part the three insert transactions have in common: when they return, one order was
  appended, under the given organization and key, which no other order of the organization had.
\<close>

definition insertsUnder :: "uuid \<Rightarrow> string option \<Rightarrow> uuid handler \<Rightarrow> bool" where
  "insertsUnder g key tx \<longleftrightarrow> (\<forall>w oid w'. tx w = (Inr oid, w') \<longrightarrow>
     (\<exists>r. t_orders (w_db w') = t_orders (w_db w) @ [r] \<and> ord_id r = oid \<and> ord_organizationId r = g \<and>
          ord_clientOrderId r = key \<and> \<not> order_unique_conflict (w_db w) r))"

lemma insertWithItems_Inr:
  "insertWithItems mk mkItem items w = (Inr oid, w') \<longleftrightarrow>
     (\<exists>iids. length iids = length items \<and> iids = map (w_ids w) [Suc (w_nextId w)..<Suc (w_nextId w) + length items] \<and>
      order_checks (mk (w_ids w (w_nextId w)) (w_now w)) \<and>
      \<not> order_unique_conflict (w_db w) (mk (w_ids w (w_nextId w)) (w_now w)) \<and>
      oid = ord_id (mk (w_ids w (w_nextId w)) (w_now w)) \<and>
      list_all item_checks (map2 (mkItem (w_now w) oid) iids items) \<and>
      w' = w\<lparr>w_nextId := Suc (w_nextId w) + length items, w_db := (w_db w)\<lparr>
        t_orders := t_orders (w_db w) @ [mk (w_ids w (w_nextId w)) (w_now w)],
        t_orderItems := t_orderItems (w_db w) @ map2 (mkItem (w_now w) oid) iids items\<rparr>\<rparr>)"
  by (auto simp: insertWithItems_def bindM_insertOrder thenM_insertOrderItems order_unique_conflict_def
      simp del: upt_Suc split: if_splits option.splits)

lemma newOrder_simps [simp]:
  "ord_id (newOrder i g now) = i" "ord_organizationId (newOrder i g now) = g"
  by (simp_all add: newOrder_def)

lemma posOrderRow_simps [simp]:
  "ord_id (posOrderRow g dto s t disc c n oid now) = oid"
  "ord_organizationId (posOrderRow g dto s t disc c n oid now) = g"
  "ord_clientOrderId (posOrderRow g dto s t disc c n oid now) = cp_clientOrderId dto"
  "ord_totalAmount (posOrderRow g dto s t disc c n oid now) = tn_totalAmount t"
  "ord_paymentMethod (posOrderRow g dto s t disc c n oid now) = cp_paymentMethod dto"
  "ord_status (posOrderRow g dto s t disc c n oid now) = Confirmed"
  "ord_paidAt (posOrderRow g dto s t disc c n oid now) =
     (if truthy (cp_paymentMethod dto) then Some now else None)"
  by (simp_all add: posOrderRow_def)

lemma ticketFor_frame: "ticketFor l w = (r, w') \<Longrightarrow> w' = w"
  by (auto simp: ticketFor_def nextTicketNumber_def split: option.splits)

lemma insertWithItems_inserts:
  assumes "\<And>i now. ord_id (mk i now) = i \<and> ord_organizationId (mk i now) = g \<and> ord_clientOrderId (mk i now) = key"
  shows "insertsUnder g key (insertWithItems mk mkItem items)"
  using assms by (auto simp: insertsUnder_def insertWithItems_Inr)

lemma insertsUnder_before:
  assumes "\<And>a. insertsUnder g key (f a)" and "\<And>w a w'. m w = (Inr a, w') \<Longrightarrow> w' = w"
  shows "insertsUnder g key (bindM m f)"
  using assms unfolding insertsUnder_def by (metis bindM_InrE)

lemma insertsUnder_after:
  assumes "insertsUnder g key m" and "\<And>a. preserves ledger (f a)"
    and "\<And>a w b w'. f a w = (Inr b, w') \<Longrightarrow> b = a"
  shows "insertsUnder g key (bindM m f)"
  unfolding insertsUnder_def
proof (intro allI impI)
  fix w oid w' assume "bindM m f w = (Inr oid, w')"
  then obtain a w1 where m: "m w = (Inr a, w1)" and f: "f a w1 = (Inr oid, w')" by (rule bindM_InrE)
  from assms(3)[OF f] preservesD[OF assms(2) f] m assms(1)
  show "\<exists>r. t_orders (w_db w') = t_orders (w_db w) @ [r] \<and> ord_id r = oid \<and> ord_organizationId r = g \<and>
      ord_clientOrderId r = key \<and> \<not> order_unique_conflict (w_db w) r"
    unfolding insertsUnder_def by (auto simp: ledger_def)
qed

lemma placeAiOrder_inserts: "insertsUnder g (ao_clientOrderId p) (placeAiOrder g p ris l s t)"
  unfolding placeAiOrder_def
  by (intro insertsUnder_before insertWithItems_inserts) (auto simp: aiOrderRow_def dest: ticketFor_frame)

lemma placeMarketOrder_inserts: "insertsUnder g (Some (mo_clientOrderId p)) (placeMarketOrder g p c)"
  unfolding placeMarketOrder_def
  by (intro insertsUnder_before insertWithItems_inserts) (auto simp: marketOrderRow_def dest: ticketFor_frame)

lemma placePosOrder_inserts: "insertsUnder g (cp_clientOrderId dto) (placePosOrder g u dto ris s t disc c)"
  unfolding placePosOrder_def
proof (rule insertsUnder_before)
  fix n
  show "insertsUnder g (cp_clientOrderId dto)
    (bindM (insertWithItems (posOrderRow g dto s t disc c n) (posItemRow (cp_fireMode dto = Some ''by_course'')) ris)
      (\<lambda>oid. bindM (getsM w_now) (\<lambda>now. thenM (decrementStock (map (\<lambda>i. (ri_menuItemId i, ri_quantity i)) ris))
        (thenM (updateLoyalty dto t now) (thenM (auditOverrides g u oid ris) (returnM oid))))))"
    by (rule insertsUnder_after, rule insertWithItems_inserts, simp, intro frame, auto elim!: thenM_InrE)
qed (simp add: nextTicketNumber_def)

lemma insertOrReplay_cases:
  assumes "insertOrReplay g key tx w = (x, w')" and "insertsUnder g raw tx"
  obtains oid r where "x = Inr (Inl oid)" and "t_orders (w_db w') = t_orders (w_db w) @ [r]"
      and "ord_organizationId r = g" and "ord_clientOrderId r = raw" and "\<not> order_unique_conflict (w_db w) r"
  | k r where "x = Inr (Inr (fullOf (w_db w) g r))" and "key = Some k" and "keyedOrder (w_db w) g k = Some r"
      and "w_db w' = w_db w"
  | e where "x = Inl e" and "w_db w' = w_db w"
proof -
  obtain y w1 where y: "tx w = (y, w1)" by (cases "tx w")
  show thesis
  proof (cases y)
    case (Inr oid)
    with y assms(2) obtain r where "t_orders (w_db w1) = t_orders (w_db w) @ [r]"
      "ord_organizationId r = g" "ord_clientOrderId r = raw" "\<not> order_unique_conflict (w_db w) r"
      unfolding insertsUnder_def by blast
    moreover from y Inr assms(1) have "x = Inr (Inl oid)" "w' = w1"
      by (simp_all add: insertOrReplay_def catchM_def bindM_def transactionM_def)
    ultimately show thesis using that(1) by blast
  next
    case (Inl e)
    let ?w = "w1\<lparr>w_db := w_db w\<rparr>"
    have run: "insertOrReplay g key tx w = bindM (case key of None \<Rightarrow> returnM None
        | Some k \<Rightarrow> replayOnClientOrderIdConflict e g k)
       (\<lambda>winner. case winner of Some fo \<Rightarrow> returnM (Inr fo) | None \<Rightarrow> throwM e) ?w"
      using y Inl by (simp add: insertOrReplay_def catchM_def bindM_def transactionM_def)
    show thesis
    proof (cases key)
      case None
      with run assms(1) that(3) show thesis by auto
    next
      case (Some k)
      show thesis
      proof (cases "e = UniqueViolation ''idx_orders_org_client_id'' \<and> keyedOrder (w_db w) g k \<noteq> None")
        case True
        then obtain r where "keyedOrder (w_db w) g k = Some r" by blast
        with True run assms(1) Some that(2)[of r k] show thesis
          by (auto simp: replayOnClientOrderIdConflict_def findByClientOrderId_run bindM_def fullOf_def)
      next
        case False
        with run assms(1) Some that(3) show thesis
          by (auto simp: replayOnClientOrderIdConflict_def findByClientOrderId_run bindM_def split: if_splits)
      qed
    qed
  qed
qed

section \<open>What a retry relies on\<close>

text \<open>
  The contract of a creation path: an order that already carries the key is returned and nothing
  changes; a creation that returned left an order with its key behind; and a run adds at most one
  order, under a key the organization had not used.
\<close>

definition retryAll :: "('p \<Rightarrow> full_order handler) \<Rightarrow> 'p list \<Rightarrow> unit handler" where
  "retryAll mkOrder ps = forM ps (\<lambda>p. bindM (mkOrder p) (\<lambda>_. returnM ()))"

locale order_creation =
  fixes mkOrder :: "uuid \<Rightarrow> 'p \<Rightarrow> full_order handler"
    and key :: "'p \<Rightarrow> string option" and accepted :: "'p \<Rightarrow> bool"
  assumes replays: "accepted p \<Longrightarrow> key p = Some k \<Longrightarrow> keyedOrder (w_db w) g k = Some r \<Longrightarrow>
      mkOrder g p w = (Inr (fullOf (w_db w) g r), w)"
    and keyed: "mkOrder g p w = (Inr fo, w') \<Longrightarrow> key p = Some k \<Longrightarrow> keyedOrder (w_db w') g k \<noteq> None"
    and grows: "mkOrder g p w = (x, w') \<Longrightarrow> t_orders (w_db w') = t_orders (w_db w) \<or>
      (\<exists>r. t_orders (w_db w') = t_orders (w_db w) @ [r] \<and> \<not> order_unique_conflict (w_db w) r)"
begin

lemma retry:
  assumes "mkOrder g p w = (Inr fo, w1)" and "key p = Some k" and "accepted p'" and "key p' = Some k"
    and "t_orders (w_db w2) = t_orders (w_db w1)"
  shows "\<exists>fo'. mkOrder g p' w2 = (Inr fo', w2)"
proof -
  have "keyedOrder (w_db w2) g k \<noteq> None"
    using keyed[OF assms(1,2)] assms(5) by (simp add: keyedOrder_def)
  then show ?thesis
    using replays[OF assms(3,4)] by blast
qed

lemma retries_change_nothing:
  assumes "mkOrder g p w = (Inr fo, w1)" and "key p = Some k"
    and "\<forall>p' \<in> set ps. accepted p' \<and> key p' = Some k"
  shows "retryAll (mkOrder g) ps w1 = (Inr (), w1)"
  using assms(3)
proof (induction ps)
  case (Cons q ps)
  obtain fo' where "mkOrder g q w1 = (Inr fo', w1)"
    using retry[OF assms(1,2), of q w1] Cons.prems by auto
  with Cons show ?case by (simp add: retryAll_def thenM_def bindM_def)
qed (simp add: retryAll_def)

end

text \<open>The unique constraint on the key, as an invariant of the table.\<close>

definition keys_unique :: "world \<Rightarrow> bool" where
  "keys_unique w \<longleftrightarrow> (\<forall>g k. length (filter (\<lambda>r. ord_organizationId r = g \<and> ord_clientOrderId r = Some k)
     (t_orders (w_db w))) \<le> 1)"

lemma keys_unique_append:
  assumes "keys_unique w" and "t_orders (w_db w') = t_orders (w_db w) @ [r]" and "\<not> order_unique_conflict (w_db w) r"
  shows "keys_unique w'"
proof -
  have "length (filter (\<lambda>r. ord_organizationId r = g \<and> ord_clientOrderId r = Some k) (t_orders (w_db w'))) \<le> 1" for g k
  proof (cases "ord_organizationId r = g \<and> ord_clientOrderId r = Some k")
    case True
    with assms(3) have "filter (\<lambda>r. ord_organizationId r = g \<and> ord_clientOrderId r = Some k) (t_orders (w_db w)) = []"
      by (auto simp: order_unique_conflict_def list_ex_iff filter_empty_conv)
    with True show ?thesis by (simp add: assms(2))
  next
    case False
    then have "filter (\<lambda>r. ord_organizationId r = g \<and> ord_clientOrderId r = Some k) (t_orders (w_db w')) =
        filter (\<lambda>r. ord_organizationId r = g \<and> ord_clientOrderId r = Some k) (t_orders (w_db w))"
      by (auto simp: assms(2))
    with assms(1) show ?thesis by (simp add: keys_unique_def)
  qed
  then show ?thesis by (simp add: keys_unique_def)
qed

context order_creation
begin

lemma create_keeps_keys_unique:
  assumes "keys_unique w" and "mkOrder g p w = (x, w')"
  shows "keys_unique w'"
  using grows[OF assms(2)] assms(1) keys_unique_append by (auto simp: keys_unique_def)

end

section \<open>The three paths keep the contract\<close>

lemma keyedOrder_new:
  "t_orders d' = t_orders d @ [r] \<Longrightarrow> ord_organizationId r = g \<Longrightarrow> ord_clientOrderId r = Some k \<Longrightarrow>
   keyedOrder d' g k \<noteq> None"
  by (auto simp: keyedOrder_def first_row_append split: option.split)

lemma ledger_orders: "ledger w' = ledger w \<Longrightarrow> t_orders (w_db w') = t_orders (w_db w)"
  by (simp add: ledger_def)

text \<open>Everything after the replay check: reads, then the insert, then the side effects.\<close>

lemma placed_cases:
  assumes "bindM (insertOrReplay g key tx) (finishCreation g uid a) w = (x, w')" and "insertsUnder g raw tx"
  obtains r where "t_orders (w_db w') = t_orders (w_db w) @ [r]" and "ord_organizationId r = g"
      and "ord_clientOrderId r = raw" and "\<not> order_unique_conflict (w_db w) r"
  | k r where "x = Inr (fullOf (w_db w) g r)" and "key = Some k" and "keyedOrder (w_db w) g k = Some r"
      and "t_orders (w_db w') = t_orders (w_db w)"
  | e where "x = Inl e" and "t_orders (w_db w') = t_orders (w_db w)"
proof -
  obtain y w1 where y: "insertOrReplay g key tx w = (y, w1)" by (cases "insertOrReplay g key tx w")
  from y assms(2) show thesis
  proof (rule insertOrReplay_cases)
    fix oid r assume y': "y = Inr (Inl oid)" and os: "t_orders (w_db w1) = t_orders (w_db w) @ [r]"
      and r: "ord_organizationId r = g" "ord_clientOrderId r = raw" "\<not> order_unique_conflict (w_db w) r"
    from assms(1) y y' have "finishCreation g uid a (Inl oid) w1 = (x, w')" by (simp add: bindM_def)
    from ledger_orders[OF preservesD[OF preserves_ledger_finish this]] os r that(1) show thesis by simp
  next
    fix k r assume "y = Inr (Inr (fullOf (w_db w) g r))" "key = Some k" "keyedOrder (w_db w) g k = Some r" "w_db w1 = w_db w"
    with assms(1) y that(2) show thesis by (auto simp: bindM_def finishCreation_def)
  next
    fix e assume "y = Inl e" "w_db w1 = w_db w"
    with assms(1) y that(3) show thesis by (auto simp: bindM_def)
  qed
qed

text \<open>
  The shape all three share: a check, the replay, then steps that leave orders alone, then the
  insert. A predicate on what follows the replay check.
\<close>

definition placesUnder :: "uuid \<Rightarrow> string option \<Rightarrow> string option \<Rightarrow> full_order handler \<Rightarrow> bool" where
  "placesUnder g key raw m \<longleftrightarrow> (\<forall>w x w'. m w = (x, w') \<longrightarrow>
     (\<exists>r. t_orders (w_db w') = t_orders (w_db w) @ [r] \<and> ord_organizationId r = g \<and>
          ord_clientOrderId r = raw \<and> \<not> order_unique_conflict (w_db w) r) \<or>
     (\<exists>k. key = Some k \<and> keyedOrder (w_db w) g k \<noteq> None \<and> t_orders (w_db w') = t_orders (w_db w)) \<or>
     (\<exists>e. x = Inl e) \<and> t_orders (w_db w') = t_orders (w_db w))"

lemma placesUnder_insert:
  "insertsUnder g raw tx \<Longrightarrow> placesUnder g key raw (bindM (insertOrReplay g key tx) (finishCreation g uid a))"
  unfolding placesUnder_def by (intro allI impI, erule placed_cases) auto

lemma placesUnder_bind:
  assumes "preserves ledger m" and "\<And>a. placesUnder g key raw (f a)"
  shows "placesUnder g key raw (bindM m f)"
  unfolding placesUnder_def
proof (intro allI impI)
  fix w x w' assume run: "bindM m f w = (x, w')"
  obtain y w1 where y: "m w = (y, w1)" by (cases "m w")
  have os: "t_orders (w_db w1) = t_orders (w_db w)"
    using ledger_orders[OF preservesD[OF assms(1) y]] .
  have conf: "order_unique_conflict (w_db w1) r = order_unique_conflict (w_db w) r" for r
    by (simp add: order_unique_conflict_def os split: option.split)
  have key: "keyedOrder (w_db w1) = keyedOrder (w_db w)"
    by (simp add: fun_eq_iff keyedOrder_def os)
  show "(\<exists>r. t_orders (w_db w') = t_orders (w_db w) @ [r] \<and> ord_organizationId r = g \<and>
          ord_clientOrderId r = raw \<and> \<not> order_unique_conflict (w_db w) r) \<or>
     (\<exists>k. key = Some k \<and> keyedOrder (w_db w) g k \<noteq> None \<and> t_orders (w_db w') = t_orders (w_db w)) \<or>
     (\<exists>e. x = Inl e) \<and> t_orders (w_db w') = t_orders (w_db w)"
  proof (cases y)
    case (Inl e)
    with run y os show ?thesis by (auto simp: bindM_def)
  next
    case (Inr b)
    with run y have "f b w1 = (x, w')" by (simp add: bindM_def)
    with assms(2)[of b] show ?thesis
      unfolding placesUnder_def os[symmetric] conf[symmetric] key[symmetric] by blast
  qed
qed

lemma creation_contract:
  assumes "\<And>k. key = Some k \<Longrightarrow> raw = Some k" and "placesUnder g key raw place"
    and "mkOrder = thenM (throw_if bad err) (bindM (case key of None \<Rightarrow> returnM None
           | Some k \<Rightarrow> findByClientOrderId g k) (\<lambda>replayed. case replayed of Some fo \<Rightarrow> returnM fo | None \<Rightarrow> place))"
  shows "\<not> bad \<Longrightarrow> key = Some k \<Longrightarrow> keyedOrder (w_db w) g k = Some r \<Longrightarrow> mkOrder w = (Inr (fullOf (w_db w) g r), w)"
    and "mkOrder w = (Inr fo, w') \<Longrightarrow> key = Some k \<Longrightarrow> keyedOrder (w_db w') g k \<noteq> None"
    and "mkOrder w = (x, w') \<Longrightarrow> t_orders (w_db w') = t_orders (w_db w) \<or>
      (\<exists>r. t_orders (w_db w') = t_orders (w_db w) @ [r] \<and> \<not> order_unique_conflict (w_db w) r)"
proof -
  show "mkOrder w = (Inr (fullOf (w_db w) g r), w)" if "\<not> bad" "key = Some k" "keyedOrder (w_db w) g k = Some r"
    using that by (simp add: assms(3) findByClientOrderId_run bindM_def fullOf_def)
  have run: "mkOrder w = (if bad then (Inl err, w) else case key of None \<Rightarrow> place w
     | Some k \<Rightarrow> (case keyedOrder (w_db w) g k of None \<Rightarrow> place w | Some r \<Rightarrow> (Inr (fullOf (w_db w) g r), w)))"
    by (simp add: assms(3) findByClientOrderId_run bindM_def fullOf_def prog_step split: option.split)
  show "keyedOrder (w_db w') g k \<noteq> None" if "mkOrder w = (Inr fo, w')" "key = Some k"
  proof (cases "keyedOrder (w_db w) g k")
    case (Some r)
    with that run show ?thesis by (auto split: if_splits)
  next
    case None
    with that run have "place w = (Inr fo, w')" by (auto split: if_splits)
    with assms(2) None that(2) assms(1)[OF that(2)] show ?thesis
      unfolding placesUnder_def using keyedOrder_new by fastforce
  qed
  show "t_orders (w_db w') = t_orders (w_db w) \<or>
      (\<exists>r. t_orders (w_db w') = t_orders (w_db w) @ [r] \<and> \<not> order_unique_conflict (w_db w) r)"
    if "mkOrder w = (x, w')"
  proof (cases "place w = (x, w')")
    case True
    with assms(2) show ?thesis unfolding placesUnder_def by blast
  next
    case False
    with that run show ?thesis by (auto split: if_splits option.splits)
  qed
qed

lemma or_null_Some: "or_null raw = Some k \<Longrightarrow> raw = Some k"
  by (auto simp: or_null_def split: if_splits)

lemmas placing = placesUnder_bind placesUnder_insert placeAiOrder_inserts placeMarketOrder_inserts
  placePosOrder_inserts

interpretation ai: order_creation createOrderForOrg "\<lambda>p. or_null (ao_clientOrderId p)" "\<lambda>p. ao_items p \<noteq> []"
proof -
  have "placesUnder g (or_null (ao_clientOrderId p)) (ao_clientOrderId p) (priceAndPlaceAi g p)" for g p
    unfolding priceAndPlaceAi_def Let_def by (intro placing frame)
  note c = creation_contract[OF or_null_Some this createOrderForOrg_def]
  show "order_creation createOrderForOrg (\<lambda>p. or_null (ao_clientOrderId p)) (\<lambda>p. ao_items p \<noteq> [])"
    by unfold_locales (use c in blast)+
qed

interpretation market: order_creation createMarketplaceOrder "\<lambda>p. Some (mo_clientOrderId p)" "\<lambda>p. mo_items p \<noteq> []"
proof -
  have place: "placesUnder g (Some (mo_clientOrderId p)) (Some (mo_clientOrderId p)) (linkAndPlaceMarket g p)" for g p
    unfolding linkAndPlaceMarket_def by (intro placing frame)
  have shape: "createMarketplaceOrder g p = thenM (throw_if (mo_items p = []) (BadRequestException ''Order must contain at least one item.''))
    (bindM (case Some (mo_clientOrderId p) of None \<Rightarrow> returnM None | Some k \<Rightarrow> findByClientOrderId g k)
      (\<lambda>replayed. case replayed of Some fo \<Rightarrow> returnM fo | None \<Rightarrow> linkAndPlaceMarket g p))" for g p
    by (simp add: createMarketplaceOrder_def)
  note c = creation_contract[OF _ place shape]
  show "order_creation createMarketplaceOrder (\<lambda>p. Some (mo_clientOrderId p)) (\<lambda>p. mo_items p \<noteq> [])"
    by unfold_locales (use c in blast)+
qed

interpretation pos: order_creation "\<lambda>g. createPosOrderFor g user" "\<lambda>p. or_null (cp_clientOrderId p)" "\<lambda>p. cp_items p \<noteq> []"
proof -
  have "placesUnder g (or_null (cp_clientOrderId p)) (cp_clientOrderId p) (priceAndPlacePos g user p)" for g p
    unfolding priceAndPlacePos_def Let_def split_beta by (intro placing frame)
  note c = creation_contract[OF or_null_Some this createPosOrderFor_def]
  show "order_creation (\<lambda>g. createPosOrderFor g user) (\<lambda>p. or_null (cp_clientOrderId p)) (\<lambda>p. cp_items p \<noteq> [])"
    by unfold_locales (use c in blast)+
qed

section \<open>Creation: what holds of the code\<close>

definition ordersUnder :: "db \<Rightarrow> uuid \<Rightarrow> string \<Rightarrow> order_row list" where
  "ordersUnder d g k = filter (\<lambda>r. ord_organizationId r = g \<and> ord_clientOrderId r = Some k) (t_orders d)"

lemma ordersUnder_one:
  "keys_unique w \<Longrightarrow> keyedOrder (w_db w) g k \<noteq> None \<Longrightarrow> length (ordersUnder (w_db w) g k) = 1"
proof -
  assume u: "keys_unique w" and "keyedOrder (w_db w) g k \<noteq> None"
  then obtain r where "r \<in> set (ordersUnder (w_db w) g k)"
    by (auto simp: keyedOrder_def ordersUnder_def dest!: first_row_SomeD)
  then have "ordersUnder (w_db w) g k \<noteq> []" by auto
  with u show ?thesis
    unfolding keys_unique_def ordersUnder_def[symmetric]
    by (metis One_nat_def le_antisym length_greater_0_conv less_eq_Suc_le)
qed

text \<open>
  C1. A register order is created once per client key: after a creation that returned, any number
  of retries with the key, whatever they carry, return and change nothing, and the organization
  has exactly one order under the key.
\<close>

theorem pos_order_created_once:
  assumes "keys_unique w" and "createPosOrderFor g user dto w = (Inr fo, w1)"
    and "cp_clientOrderId dto = Some k" and "k \<noteq> []"
    and "\<forall>d \<in> set retries. cp_items d \<noteq> [] \<and> cp_clientOrderId d = Some k"
  shows "retryAll (createPosOrderFor g user) retries w1 = (Inr (), w1) \<and>
    length (ordersUnder (w_db w1) g k) = 1"
proof -
  have k: "or_null (Some k) = Some k" using assms(4) by (cases k) auto
  have "retryAll (createPosOrderFor g user) retries w1 = (Inr (), w1)"
    by (rule pos.retries_change_nothing[where k = k]) (use assms k in auto)
  moreover have "keyedOrder (w_db w1) g k \<noteq> None"
    by (rule pos.keyed[OF assms(2)]) (simp add: assms(3) k)
  ultimately show ?thesis
    using ordersUnder_one pos.create_keeps_keys_unique[OF assms(1,2)] by blast
qed

text \<open>
  A marketplace webhook delivered again returns the order it created the first time: however
  often it is repeated, nothing changes and one order exists under its key.
\<close>

theorem marketplace_redelivery:
  assumes "keys_unique w" and "createMarketplaceOrder g p w = (Inr fo, w1)"
    and "\<forall>q \<in> set again. mo_items q \<noteq> [] \<and> mo_clientOrderId q = mo_clientOrderId p"
  shows "retryAll (createMarketplaceOrder g) again w1 = (Inr (), w1) \<and>
    length (ordersUnder (w_db w1) g (mo_clientOrderId p)) = 1"
proof -
  have "retryAll (createMarketplaceOrder g) again w1 = (Inr (), w1)"
    by (rule market.retries_change_nothing[OF assms(2), where k = "mo_clientOrderId p"]) (use assms(3) in auto)
  moreover have "keyedOrder (w_db w1) g (mo_clientOrderId p) \<noteq> None"
    by (rule market.keyed[OF assms(2)]) simp
  ultimately show ?thesis
    using ordersUnder_one market.create_keeps_keys_unique[OF assms(1,2)] by blast
qed

lemma posTender_tip: "0 \<le> tn_tipAmount (posTender ris s disc svc sb tb tip rp)"
  by (simp add: posTender_def Let_def)

lemma posOrderRow_checks:
  "0 \<le> tn_tipAmount t \<Longrightarrow> order_checks (posOrderRow g dto s t disc c n oid now)"
  by (simp add: order_checks_def posOrderRow_def)

lemma keyed_conflict:
  "keyedOrder d g k = Some r \<Longrightarrow> ord_organizationId row = g \<Longrightarrow> ord_clientOrderId row = Some k \<Longrightarrow>
   order_unique_conflict d row"
  by (auto simp: keyedOrder_def order_unique_conflict_def list_ex_iff dest!: first_row_SomeD)

text \<open>
  The race two registers can run: when the order with the key appears between a request's
  replay check and its insert, the insert is rolled back and the request is answered with the
  winner's order.
\<close>

theorem pos_race_returns_winner:
  assumes "keyedOrder (w_db w) g k = Some r" and "cp_clientOrderId dto = Some k"
    and "t = posTender ris s disc svc sb tb tip rp"
  shows "\<exists>w'. insertOrReplay g (Some k) (placePosOrder g user dto ris s t d c) w = (Inr (Inr (fullOf (w_db w) g r)), w') \<and>
    w_db w' = w_db w \<and> w_fx w' = w_fx w"
proof -
  have checks: "order_checks (posOrderRow g dto s t d c n oid now)" for n oid now
    using posOrderRow_checks posTender_tip assms(3) by simp
  have conf: "order_unique_conflict (w_db w) (posOrderRow g dto s t d c n oid now)" for n oid now
    using keyed_conflict[OF assms(1)] assms(2) by simp
  have "placePosOrder g user dto ris s t d c w =
     (Inl (UniqueViolation ''idx_orders_org_client_id''), w\<lparr>w_nextId := Suc (w_nextId w)\<rparr>)"
    using checks conf by (simp add: placePosOrder_def insertWithItems_def nextTicketNumber_def bindM_insertOrder bindM_assoc)
  then show ?thesis
    using assms(1)
    by (simp add: insertOrReplay_def catchM_def bindM_def transactionM_def replayOnClientOrderIdConflict_def
        findByClientOrderId_run fullOf_def)
qed

section \<open>The total of a register order\<close>

lemma taxable_after_discount:
  assumes "0 \<le> disc" and "disc \<le> s" and "0 \<le> x" and "x \<le> s" and "0 < s"
  shows "0 \<le> of_int x - of_int (disc * x) / (of_int s :: rat)"
    and "of_int x - of_int (disc * x) / (of_int s :: rat) \<le> of_int (s - disc)"
proof -
  have s: "0 < (of_int s :: rat)" using assms(5) by simp
  have "disc * x \<le> s * x" using assms by (simp add: mult_right_mono)
  then have "(of_int (disc * x) :: rat) \<le> of_int x * of_int s"
    unfolding of_int_mult[symmetric] of_int_le_iff by (simp add: mult.commute)
  then show "0 \<le> of_int x - of_int (disc * x) / (of_int s :: rat)"
    using s by (simp add: divide_le_eq)
  have "x * s - disc * x \<le> (s - disc) * s"
  proof -
    have "(s - disc) * x \<le> (s - disc) * s" using assms by (simp add: mult_left_mono)
    then show ?thesis by (simp add: algebra_simps)
  qed
  then have "(of_int (x * s - disc * x) :: rat) \<le> of_int ((s - disc) * s)"
    by (simp only: of_int_le_iff)
  then have "(of_int x * of_int s - of_int (disc * x)) / of_int s \<le> (of_int (s - disc) :: rat)"
    using s by (simp add: divide_le_eq)
  then show "of_int x - of_int (disc * x) / (of_int s :: rat) \<le> of_int (s - disc)"
    using s by (simp add: diff_divide_distrib)
qed

text \<open>
  C10. The total of a register order: the discounted subtotal, plus service charge, tax and tip,
  minus the redeemed points; it is never negative, no part of it is, the points redeemed are at
  most those asked for, and the tax is at most the rate on everything but the tip.
\<close>

theorem posTender_total:
  assumes "s = sum_by lineTotal ris" and "\<forall>r \<in> set ris. 0 \<le> lineTotal r"
    and "0 \<le> disc" and "disc \<le> s" and "0 \<le> sb" and "0 \<le> tb" and "0 \<le> rp"
    and "t = posTender ris s disc svc sb tb tip rp"
  shows "tn_totalAmount t = s - disc + tn_serviceChargeAmount t + tn_taxAmount t + tn_tipAmount t - tn_redemptionAmount t \<and>
    0 \<le> tn_totalAmount t \<and> 0 \<le> tn_serviceChargeAmount t \<and> 0 \<le> tn_taxAmount t \<and> 0 \<le> tn_tipAmount t \<and>
    0 \<le> tn_redemptionAmount t \<and> tn_redemptionAmount t \<le> rp \<and>
    tn_taxAmount t \<le> js_round (of_int ((s - disc + tn_serviceChargeAmount t) * tb) / 10000)"
proof -
  let ?x = "taxableSubtotal ris"
  let ?y = "(if 0 < s then of_int ?x - of_int (disc * ?x) / of_int s else 0 :: rat)"
  let ?svc = "if svc then js_round (of_int ((s - disc) * sb) / 10000) else 0"
  have x: "0 \<le> ?x" "?x \<le> s"
    using taxableSubtotal_bounds[of ris] assms(1,2) by auto
  have y: "0 \<le> ?y" "?y \<le> of_int (s - disc)"
    using taxable_after_discount[of disc s ?x] x assms(3,4) by auto
  have sv: "0 \<le> ?svc"
    using assms(3-5) by (auto intro!: js_round_nonneg simp del: of_int_mult of_int_diff)
  have tax0: "0 \<le> js_round ((?y + of_int ?svc) * of_int tb / 10000)"
    using y(1) sv assms(6) by (intro js_round_nonneg divide_nonneg_pos mult_nonneg_nonneg add_nonneg_nonneg) auto
  have "(?y + of_int ?svc) * of_int tb / 10000 \<le> (of_int ((s - disc + ?svc) * tb) / 10000 :: rat)"
  proof (rule divide_right_mono)
    have "(?y + of_int ?svc) * of_int tb \<le> (of_int (s - disc) + of_int ?svc) * (of_int tb :: rat)"
      using y(2) assms(6) by (intro mult_right_mono) auto
    then show "(?y + of_int ?svc) * of_int tb \<le> (of_int ((s - disc + ?svc) * tb) :: rat)"
      by simp
  qed simp
  then have tax1: "js_round ((?y + of_int ?svc) * of_int tb / 10000) \<le> js_round (of_int ((s - disc + ?svc) * tb) / 10000)"
    by (rule js_round_mono)
  have fields: "tn_serviceChargeAmount t = ?svc" "tn_taxAmount t = js_round ((?y + of_int ?svc) * of_int tb / 10000)"
    "tn_tipAmount t = max 0 (js_round (nvl tip 0))"
    "tn_redemptionAmount t = min rp (s - disc + tn_serviceChargeAmount t + tn_taxAmount t + tn_tipAmount t)"
    "tn_totalAmount t = s - disc + tn_serviceChargeAmount t + tn_taxAmount t + tn_tipAmount t - tn_redemptionAmount t"
    by (simp_all only: assms(8) posTender_def Let_def tender.simps)
  have parts: "0 \<le> tn_serviceChargeAmount t" "0 \<le> tn_taxAmount t" "0 \<le> tn_tipAmount t"
    using sv tax0 fields(1-3) by simp_all
  show ?thesis
    using fields(4,5) parts tax1 assms(3,4,7) unfolding fields(1,2) by linarith
qed

section \<open>Editing\<close>

lemma guardEditable_Inr:
  "guardEditable order oid w = (Inr u, w') \<longleftrightarrow>
     w' = w \<and> ord_paidAt order = None \<and> openStatus (ord_status order) \<and> paidSum (w_db w) oid \<le> 0"
  by (auto simp: guardEditable_def prog_step paidSumFor_def throw_if_def)

lemma editedRow_fields [simp]:
  "ord_id (editedRow dto t disc now r) = ord_id r"
  "ord_organizationId (editedRow dto t disc now r) = ord_organizationId r"
  "ord_paidAt (editedRow dto t disc now r) = ord_paidAt r"
  "ord_status (editedRow dto t disc now r) = ord_status r"
  "ord_subtotal (editedRow dto t disc now r) = Some (et_subtotal t)"
  "ord_totalAmount (editedRow dto t disc now r) = et_totalAmount t"
  by (simp_all add: editedRow_def)

lemma appendedRow_fields [simp]:
  "ord_id (appendedRow t disc now r) = ord_id r"
  "ord_organizationId (appendedRow t disc now r) = ord_organizationId r"
  "ord_paidAt (appendedRow t disc now r) = ord_paidAt r"
  "ord_status (appendedRow t disc now r) = ord_status r"
  "ord_deletedAt (appendedRow t disc now r) = ord_deletedAt r"
  "ord_subtotal (appendedRow t disc now r) = Some (et_subtotal t)"
  "ord_totalAmount (appendedRow t disc now r) = et_totalAmount t"
  by (simp_all add: appendedRow_def)

lemma cartItemRow_core [simp]:
  "itemCore (cartItemRow oid i ri) = (ri_menuItemId ri, ri_quantity ri, ri_price ri)"
  "oi_orderId (cartItemRow oid i ri) = oid" "oi_firedAt (cartItemRow oid i ri) = None"
  by (simp_all add: itemCore_def cartItemRow_def posItemRow_def)

lemma cartItemRows_core:
  "length ids = length ris \<Longrightarrow>
   map itemCore (map2 (cartItemRow oid) ids ris) = map (\<lambda>ri. (ri_menuItemId ri, ri_quantity ri, ri_price ri)) ris"
  by (induction ids ris rule: list_induct2) simp_all

lemma cartItemRows_own: "filter (\<lambda>r. oi_orderId r = oid) (map2 (cartItemRow oid) ids ris) = map2 (cartItemRow oid) ids ris"
  by (rule filter_True) (auto dest: set_zip_rightD)

lemma replaceItems_Inr:
  assumes "replaceItems oid dto t disc ris w = (Inr u, w')"
  obtains ids where "length ids = length ris" and "list_all item_checks (map2 (cartItemRow oid) ids ris)"
    and "w_db w' = (w_db w)\<lparr>
      t_orders := update_where (\<lambda>r. ord_id r = oid) (editedRow dto t disc (w_now w)) (t_orders (w_db w)),
      t_orderItems := filter (\<lambda>r. oi_orderId r \<noteq> oid) (t_orderItems (w_db w)) @ map2 (cartItemRow oid) ids ris\<rparr>"
  using assms that[of "map (w_ids w) [w_nextId w..<w_nextId w + length ris]"]
  by (simp add: replaceItems_def deleteOrderItems_def insertOrderItems_Inr)

lemma sum_rows_total:
  "length ids = length ris \<Longrightarrow>
   sum_by (\<lambda>i. oi_price i * oi_quantity i) (map2 (cartItemRow oid) ids ris) = sum_by lineTotal ris"
  by (induction ids ris rule: list_induct2) (simp_all add: cartItemRow_def posItemRow_def lineTotal_def)

definition linesTotal :: "db \<Rightarrow> uuid \<Rightarrow> int" where
  "linesTotal d oid = sum_by (\<lambda>i. oi_price i * oi_quantity i) (itemsOf d oid)"

lemma preserves_ledger_announce [frame]: "preserves ledger (announceEdit g user oid act a fo)"
  unfolding announceEdit_def by (intro frame)

text \<open>Steps that only read.\<close>

lemma reads_only:
  "priceCartItems g items w = (Inr x, w') \<Longrightarrow> w' = w \<and> priceCart (w_db w) g items = Inr x"
  "getTaxRate l w = (Inr n, w') \<Longrightarrow> w' = w \<and> n = taxRateOf (w_db w) l"
  "resolveDiscount g role di pc w = (r, w') \<Longrightarrow> w' = w \<and> fst (resolveDiscount g role di pc w) = r"
  "whenM b (requireOrgCustomer g c) w = (r', w') \<Longrightarrow> w' = w"
proof -
  show "resolveDiscount g role di pc w = (r, w') \<Longrightarrow> w' = w \<and> fst (resolveDiscount g role di pc w) = r"
    using preservesD[OF preserves_pricing(3), of g role di pc w r w' "\<lambda>w. w"] by simp
  show "whenM b (requireOrgCustomer g c) w = (r', w') \<Longrightarrow> w' = w"
    using preservesD[OF preserves_whenM[OF preserves_requireOrgCustomer], of b g c w r' w' "\<lambda>w. w"] by simp
qed (auto simp: priceCartItems_def getTaxRate_def liftE_iff)

lemma getOrder_Inr:
  "getOrderByIdForOrg g oid w = (Inr fo, w') \<Longrightarrow> w' = w \<and> findOrder (w_db w) g oid = Some (fo_order fo)"
  by (auto simp: getOrderByIdForOrg_reads split: option.splits)

lemma updateOrderItemsFor_Inr:
  assumes "updateOrderItemsFor g user oid dto w = (Inr fo, w')"
  obtains order ris sub disc w2 where "findOrder (w_db w) g oid = Some order"
    and "ord_paidAt order = None" and "openStatus (ord_status order)" and "paidSum (w_db w) oid \<le> 0"
    and "priceCart (w_db w) g (eo_items dto) = Inr (ris, sub)"
    and "fst (resolveDiscount g (pr_role user) (eo_discountId dto) (eo_promoCode dto) w) = Inr disc"
    and "replaceItems oid dto (editTotals disc sub (taxRateOf (w_db w) (ord_locationId order)) (ord_tipAmount order))
           disc ris w = (Inr (), w2)"
    and "ledger w' = ledger w2"
  using assms unfolding updateOrderItemsFor_def Let_def split_beta
  by (elim thenM_InrE bindM_InrE)
     (auto simp: throw_if_iff guardEditable_Inr transactionM_Inr dest!: getOrder_Inr reads_only
        dest: preservesD[OF preserves_ledger_announce])

text \<open>
  Replacing the lines of an order succeeds only while it is open and nothing has been
  collected for it; afterwards it has exactly the priced lines, its subtotal is their sum, its
  total that subtotal less the discount plus tax plus the tip it had, it is still unpaid in the
  same status, and no payment changed.
\<close>

theorem updateOrderItems_open_only:
  assumes "updateOrderItemsFor g user oid dto w = (Inr fo, w')"
  shows "\<exists>order order' ris sub disc. findOrder (w_db w) g oid = Some order \<and> ord_paidAt order = None \<and>
    openStatus (ord_status order) \<and> paidSum (w_db w) oid \<le> 0 \<and>
    priceCart (w_db w) g (eo_items dto) = Inr (ris, sub) \<and>
    fst (resolveDiscount g (pr_role user) (eo_discountId dto) (eo_promoCode dto) w) = Inr disc \<and>
    findOrder (w_db w') g oid = Some order' \<and> ord_paidAt order' = None \<and> ord_status order' = ord_status order \<and>
    map itemCore (itemsOf (w_db w') oid) = map (\<lambda>ri. (ri_menuItemId ri, ri_quantity ri, ri_price ri)) ris \<and>
    ord_subtotal order' = Some (linesTotal (w_db w') oid) \<and> linesTotal (w_db w') oid = sub \<and>
    ord_totalAmount order' = et_totalAmount (editTotals disc sub (taxRateOf (w_db w) (ord_locationId order)) (ord_tipAmount order)) \<and>
    t_payments (w_db w') = t_payments (w_db w)"
  using assms
proof (rule updateOrderItemsFor_Inr)
  fix order ris sub disc w2
  assume o: "findOrder (w_db w) g oid = Some order" and guard: "ord_paidAt order = None" "openStatus (ord_status order)"
      "paidSum (w_db w) oid \<le> 0"
    and cart: "priceCart (w_db w) g (eo_items dto) = Inr (ris, sub)"
    and di: "fst (resolveDiscount g (pr_role user) (eo_discountId dto) (eo_promoCode dto) w) = Inr disc"
    and tx: "replaceItems oid dto (editTotals disc sub (taxRateOf (w_db w) (ord_locationId order)) (ord_tipAmount order))
           disc ris w = (Inr (), w2)" and l: "ledger w' = ledger w2"
  let ?t = "editTotals disc sub (taxRateOf (w_db w) (ord_locationId order)) (ord_tipAmount order)"
  let ?o' = "editedRow dto ?t disc (w_now w) order"
  from tx obtain ids where len: "length ids = length ris" and db: "w_db w2 = (w_db w)\<lparr>
      t_orders := update_where (\<lambda>r. ord_id r = oid) (editedRow dto ?t disc (w_now w)) (t_orders (w_db w)),
      t_orderItems := filter (\<lambda>r. oi_orderId r \<noteq> oid) (t_orderItems (w_db w)) @ map2 (cartItemRow oid) ids ris\<rparr>"
    by (rule replaceItems_Inr)
  have o': "findOrder (w_db w') g oid = Some ?o'"
    unfolding ledger_reads(1)[OF l] by (rule findOrder_update_where[OF _ _ _ o]) (simp_all add: db)
  have items: "itemsOf (w_db w') oid = map2 (cartItemRow oid) ids ris"
    using ledger_parts[OF l] by (simp add: itemsOf_def db cartItemRows_own)
  have "linesTotal (w_db w') oid = sub"
    using sum_rows_total[OF len] priceCart_sub[OF cart] by (simp add: linesTotal_def items)
  then show ?thesis
    by (intro exI[of _ order] exI[of _ ?o'] exI[of _ ris] exI[of _ sub] exI[of _ disc])
       (use o guard cart di o' items cartItemRows_core[OF len] ledger_parts[OF l] in
        \<open>simp add: db editTotals_def Let_def\<close>)
qed

section \<open>Mutations happen once\<close>

definition mutations :: "world \<Rightarrow> order_mutation_row list" where
  "mutations w = t_orderMutations (w_db w)"

definition mutationUsed :: "world \<Rightarrow> uuid \<Rightarrow> string \<Rightarrow> bool" where
  "mutationUsed w g k \<longleftrightarrow> (\<exists>m \<in> set (mutations w). om_organizationId m = g \<and> om_clientMutationId m = k)"

lemma preserves_mutations_print [frame]:
  "preserves mutations (printForEvents g fo evs u)" "preserves mutations (printCourse g fo c)"
  "preserves mutations (emitM e)"
proof -
  have job: "preserves mutations (createPrintJob g oid ty pr pl)" for g oid ty pr pl
    unfolding createPrintJob_def Let_def
    by (intro frame preserves_writeDb) (auto simp: preserves_def mutations_def)
  then show "preserves mutations (printForEvents g fo evs u)" "preserves mutations (printCourse g fo c)"
    unfolding printForEvents_def printCourse_def printDocument_def Let_def by (intro frame job)+
  show "preserves mutations (emitM e)" by (simp add: preserves_def mutations_def)
qed

lemma preserves_mutations_announce [frame]: "preserves mutations (announceEdit g user oid act a fo)"
  unfolding announceEdit_def by (intro frame)

lemma claimOnce_cases:
  assumes "claimOnce g oid key kind w = (Inr b, w')"
  obtains k where "\<not> b" and "w' = w" and "key = Some k" and "k \<noteq> []" and "mutationUsed w g k"
  | k ms where "b" and "key = Some k" and "k \<noteq> []" and "\<not> mutationUsed w g k" and "mutationUsed w' g k"
      and "w' = w\<lparr>w_db := (w_db w)\<lparr>t_orderMutations := ms\<rparr>\<rparr>"
  | "b" and "\<not> truthy key" and "w' = w"
proof (cases "truthy key")
  case False
  with assms that(3) show thesis by (simp add: claimOnce_def)
next
  case True
  then obtain k where k: "key = Some k" "k \<noteq> []" by (cases key) auto
  show thesis
  proof (cases "mutationUsed w g k")
    case used: True
    then have "list_ex (\<lambda>m. om_organizationId m = g \<and> om_clientMutationId m = k) (t_orderMutations (w_db w))"
      by (auto simp: mutationUsed_def mutations_def list_ex_iff)
    with assms k used that(1) show thesis by (simp add: claimOnce_def claimMutation_def)
  next
    case False
    then have no: "\<not> list_ex (\<lambda>m. om_organizationId m = g \<and> om_clientMutationId m = k) (t_orderMutations (w_db w))"
      by (auto simp: mutationUsed_def mutations_def list_ex_iff)
    let ?ms = "t_orderMutations (w_db w) @
      [\<lparr>om_organizationId = g, om_orderId = oid, om_clientMutationId = k, om_kind = kind\<rparr>]"
    from assms k no have "b" "w' = w\<lparr>w_db := (w_db w)\<lparr>t_orderMutations := ?ms\<rparr>\<rparr>"
      by (auto simp: claimOnce_def claimMutation_def prog_step split: if_splits)
    with that(2)[of k ?ms] k False show thesis
      by (simp add: mutationUsed_def mutations_def)
  qed
qed

lemma priceCart_mutations [simp]: "priceCart (d\<lparr>t_orderMutations := ms\<rparr>) g items = priceCart d g items"
proof -
  have "cartMenuItems (d\<lparr>t_orderMutations := ms\<rparr>) = cartMenuItems d"
    "cartOptions (d\<lparr>t_orderMutations := ms\<rparr>) = cartOptions d"
    "attachedRows (d\<lparr>t_orderMutations := ms\<rparr>) = attachedRows d"
    by (simp_all add: fun_eq_iff cartMenuItems_def cartOptions_def attachedRows_def orgCategory_def)
  then show ?thesis by (simp add: priceCart_def)
qed

lemma reads_mutations [simp]:
  "taxRateOf (d\<lparr>t_orderMutations := ms\<rparr>) = taxRateOf d" "paidSum (d\<lparr>t_orderMutations := ms\<rparr>) oid = paidSum d oid"
  "itemsOf (d\<lparr>t_orderMutations := ms\<rparr>) oid = itemsOf d oid" "linesTotal (d\<lparr>t_orderMutations := ms\<rparr>) oid = linesTotal d oid"
  by (simp_all add: fun_eq_iff taxRateOf_def paidSum_def paymentsOf_def itemsOf_def linesTotal_def)

definition liveRow :: "db \<Rightarrow> uuid \<Rightarrow> uuid \<Rightarrow> order_row option" where
  "liveRow d g oid = first_row (\<lambda>r. ord_id r = oid \<and> ord_organizationId r = g \<and> ord_deletedAt r = None) (t_orders d)"

lemma liveOrder_Inr: "liveOrder g oid w = (Inr r, w') \<longleftrightarrow> w' = w \<and> liveRow (w_db w) g oid = Some r"
  by (auto simp: liveOrder_def liveRow_def prog_step orThrow_iff)

lemma decrementStock_frames:
  "decrementStock items w = (r, w') \<Longrightarrow> ledger w' = ledger w \<and> mutations w' = mutations w \<and> w_now w' = w_now w \<and>
     t_locations (w_db w') = t_locations (w_db w)"
proof -
  have "preserves f (decrementStock items)"
    if "\<And>w x. f (w\<lparr>w_db := (w_db w)\<lparr>t_menuItems := x\<rparr>\<rparr>) = f w" for f :: "world \<Rightarrow> 'x"
    unfolding decrementStock_def by (rule preserves_forM) (auto simp: preserves_def that split: prod.split)
  note p = preservesD[OF this]
  show "decrementStock items w = (r, w') \<Longrightarrow> ledger w' = ledger w \<and> mutations w' = mutations w \<and> w_now w' = w_now w \<and>
     t_locations (w_db w') = t_locations (w_db w)"
    by (intro conjI; rule p) (auto simp: ledger_def mutations_def)
qed

lemma discount_mutations:
  "w_db w1 = (w_db w)\<lparr>t_orderMutations := ms\<rparr> \<Longrightarrow>
   fst (resolveDiscount g role di pc w1) = fst (resolveDiscount g role di pc w)"
  by (simp add: resolveDiscount_def Let_def bindM_def thenM_def orThrow_def throw_if_def split: option.split)

lemma appendClaimed_Inr:
  assumes "appendClaimed g user oid dto w = (Inr b, w')"
  obtains order ris sub disc w3 w4 where "\<not> b"
    and "liveRow (w_db w) g oid = Some order" and "ord_paidAt order = None" and "openStatus (ord_status order)"
    and "paidSum (w_db w) oid \<le> 0" and "priceCart (w_db w) g (ap_cart dto) = Inr (ris, sub)"
    and "fst (resolveDiscount g (pr_role user) (ord_discountId order) None w) = Inr disc"
    and "insertOrderItems (map2 (cartItemRow oid) (map (w_ids w) [w_nextId w..<w_nextId w + length ris]) ris)
          (w\<lparr>w_nextId := w_nextId w + length ris\<rparr>) = (Inr (), w3)"
    and "decrementStock (map (\<lambda>i. (ri_menuItemId i, ri_quantity i)) ris) w3 = (Inr (), w4)"
    and "w' = w4\<lparr>w_db := (w_db w4)\<lparr>t_orders := update_where (\<lambda>r. ord_id r = oid) (appendedRow (editTotals disc
             (linesTotal (w_db w) oid + sub) (taxRateOf (w_db w) (ord_locationId order)) (ord_tipAmount order)) disc (w_now w4))
             (t_orders (w_db w4))\<rparr>\<rparr>"
  using assms unfolding appendClaimed_def Let_def linesTotal_def
  by (elim thenM_InrE bindM_InrE)
     (auto simp: liveOrder_Inr guardEditable_Inr freshIds_run simp del: upt_Suc elim!: thenM_InrE bindM_InrE dest!: reads_only)

lemma appendInTx_cases:
  assumes "appendInTx g user oid dto w = (Inr b, w')"
  obtains k where "b" and "w' = w" and "ap_clientMutationId dto = Some k" and "k \<noteq> []" and "mutationUsed w g k"
  | order ris sub disc ids where "\<not> b" and "liveRow (w_db w) g oid = Some order" and "ord_paidAt order = None"
      and "openStatus (ord_status order)" and "paidSum (w_db w) oid \<le> 0"
      and "priceCart (w_db w) g (ap_cart dto) = Inr (ris, sub)" and "length ids = length ris"
      and "fst (resolveDiscount g (pr_role user) (ord_discountId order) None w) = Inr disc"
      and "list_all item_checks (map2 (cartItemRow oid) ids ris)"
      and "t_orderItems (w_db w') = t_orderItems (w_db w) @ map2 (cartItemRow oid) ids ris"
      and "t_orders (w_db w') = update_where (\<lambda>r. ord_id r = oid) (appendedRow (editTotals disc
             (linesTotal (w_db w) oid + sub) (taxRateOf (w_db w) (ord_locationId order)) (ord_tipAmount order)) disc (w_now w))
             (t_orders (w_db w))"
      and "t_payments (w_db w') = t_payments (w_db w)"
      and "\<forall>k. ap_clientMutationId dto = Some k \<and> k \<noteq> [] \<longrightarrow> \<not> mutationUsed w g k \<and> mutationUsed w' g k"
proof -
  from assms obtain c w1 where claim: "claimOnce g oid (ap_clientMutationId dto) ''append'' w = (Inr c, w1)"
    and rest: "(if \<not> c then returnM True else appendClaimed g user oid dto) w1 = (Inr b, w')"
    unfolding appendInTx_def by (rule bindM_InrE)
  show thesis
  proof (cases c)
    case False
    with claim rest that(1) show thesis by (auto elim: claimOnce_cases)
  next
    case True
    have d: "\<exists>ms. w_db w1 = (w_db w)\<lparr>t_orderMutations := ms\<rparr>" "w_now w1 = w_now w"
      using claim True by (auto elim!: claimOnce_cases intro: exI[of _ "t_orderMutations (w_db w)"])
    have used: "\<forall>k. ap_clientMutationId dto = Some k \<and> k \<noteq> [] \<longrightarrow> \<not> mutationUsed w g k \<and> mutationUsed w1 g k"
      using claim True by (auto elim!: claimOnce_cases)
    from rest True have "appendClaimed g user oid dto w1 = (Inr b, w')" by simp
    then obtain order ris sub disc w3 w4 where b: "\<not> b"
      and o: "liveRow (w_db w1) g oid = Some order" and guard: "ord_paidAt order = None" "openStatus (ord_status order)"
        "paidSum (w_db w1) oid \<le> 0"
      and cart: "priceCart (w_db w1) g (ap_cart dto) = Inr (ris, sub)"
      and di: "fst (resolveDiscount g (pr_role user) (ord_discountId order) None w1) = Inr disc"
      and ins: "insertOrderItems (map2 (cartItemRow oid) (map (w_ids w1) [w_nextId w1..<w_nextId w1 + length ris]) ris)
          (w1\<lparr>w_nextId := w_nextId w1 + length ris\<rparr>) = (Inr (), w3)"
      and dec: "decrementStock (map (\<lambda>i. (ri_menuItemId i, ri_quantity i)) ris) w3 = (Inr (), w4)"
      and w': "w' = w4\<lparr>w_db := (w_db w4)\<lparr>t_orders := update_where (\<lambda>r. ord_id r = oid) (appendedRow (editTotals disc
             (linesTotal (w_db w1) oid + sub) (taxRateOf (w_db w1) (ord_locationId order)) (ord_tipAmount order)) disc (w_now w4))
             (t_orders (w_db w4))\<rparr>\<rparr>"
      by (rule appendClaimed_Inr)
    let ?ids = "map (w_ids w1) [w_nextId w1..<w_nextId w1 + length ris]"
    note f = decrementStock_frames[OF dec]
    from ins have w3: "w_db w3 = (w_db w1)\<lparr>t_orderItems := t_orderItems (w_db w1) @ map2 (cartItemRow oid) ?ids ris\<rparr>"
      and checks: "list_all item_checks (map2 (cartItemRow oid) ?ids ris)" "w_now w3 = w_now w1"
      by (auto simp: insertOrderItems_Inr)
    show thesis
      by (rule that(2)[OF b _ guard(1,2) _ _ _ _ checks(1)])
         (use o guard cart d di used w3 checks(2) w' f in
          \<open>auto simp: liveRow_def ledger_def mutations_def mutationUsed_def discount_mutations\<close>)
  qed
qed

lemma liveRow_SomeD: "liveRow d g oid = Some r \<Longrightarrow> r \<in> set (t_orders d) \<and> ord_id r = oid \<and> ord_organizationId r = g"
  by (auto simp: liveRow_def dest: first_row_SomeD)

lemma liveRow_found: "liveRow d g oid = Some r \<Longrightarrow> \<exists>r'. findOrder d g oid = Some r'"
  using first_row_NoneD[of "\<lambda>r. ord_id r = oid \<and> ord_organizationId r = g" "t_orders d" r]
  by (cases "findOrder d g oid") (auto simp: findOrder_def dest!: liveRow_SomeD)

lemma liveRow_update:
  "(\<And>r. ord_id (f r) = ord_id r \<and> ord_organizationId (f r) = ord_organizationId r \<and> ord_deletedAt (f r) = ord_deletedAt r) \<Longrightarrow>
   t_orders d' = update_where (\<lambda>r. ord_id r = oid) f (t_orders d) \<Longrightarrow> liveRow d g oid = Some r \<Longrightarrow>
   liveRow d' g oid = Some (f r)"
  by (auto simp: liveRow_def first_row_update_where dest: first_row_SomeD)

lemma appendOrderItemsFor_Inr:
  assumes "appendOrderItemsFor g user oid dto w = (Inr fo, w')"
  obtains b w1 where "appendInTx g user oid dto w = (Inr b, w1)" and "ledger w' = ledger w1"
    and "mutations w' = mutations w1" and "ap_cart dto \<noteq> []" and "findOrder (w_db w1) g oid \<noteq> None"
  using assms unfolding appendOrderItemsFor_def
  by (elim thenM_InrE bindM_InrE)
     (auto simp: throw_if_iff transactionM_Inr split: if_splits dest!: getOrder_Inr
        dest: preservesD[OF preserves_ledger_announce] preservesD[OF preserves_mutations_announce])

lemma appendInTx_used:
  "appendInTx g user oid dto w = (Inr b, w') \<Longrightarrow> ap_clientMutationId dto = Some k \<Longrightarrow> k \<noteq> [] \<Longrightarrow> mutationUsed w' g k"
  by (erule appendInTx_cases) auto

lemma appendInTx_replays:
  "mutationUsed w g k \<Longrightarrow> ap_clientMutationId dto = Some k \<Longrightarrow> k \<noteq> [] \<Longrightarrow> appendInTx g user oid dto w = (Inr True, w)"
  by (auto simp: appendInTx_def claimOnce_def claimMutation_def bindM_def mutationUsed_def mutations_def list_ex_iff)

text \<open>
  C11. An append under a mutation id happens once: after one that returned, another request with
  the same id, from anyone and with any lines, returns the order and changes nothing.
\<close>

theorem append_once:
  assumes "appendOrderItemsFor g user oid dto w = (Inr fo, w1)" and "ap_clientMutationId dto = Some k" and "k \<noteq> []"
    and "w_db w2 = w_db w1" and "ap_clientMutationId dto2 = Some k" and "ap_cart dto2 \<noteq> []"
  shows "\<exists>fo2. appendOrderItemsFor g user2 oid dto2 w2 = (Inr fo2, w2)"
  using assms(1)
proof (rule appendOrderItemsFor_Inr)
  fix b v assume tx: "appendInTx g user oid dto w = (Inr b, v)" and l: "ledger w1 = ledger v" and m: "mutations w1 = mutations v"
    and found: "findOrder (w_db v) g oid \<noteq> None"
  from appendInTx_used[OF tx assms(2,3)] m assms(4) have "mutationUsed w2 g k"
    by (simp add: mutationUsed_def mutations_def)
  note replay = appendInTx_replays[OF this assms(5,3)]
  from found obtain order where "findOrder (w_db w2) g oid = Some order"
    unfolding assms(4) ledger_reads(1)[OF l] by blast
  with replay assms(6) show ?thesis
    by (simp add: appendOrderItemsFor_def transactionM_def bindM_def getOrderByIdForOrg_reads)
qed

text \<open>
  C12. An append that was not a repetition adds exactly the priced lines behind those the order had,
  on an open, unpaid order only; the subtotal is then the sum of all its lines, the total follows
  it, the order stays unpaid in its status, and no payment changes.
\<close>

theorem append_keeps_lines:
  assumes "appendOrderItemsFor g user oid dto w = (Inr fo, w')"
    and "\<forall>k. ap_clientMutationId dto = Some k \<and> k \<noteq> [] \<longrightarrow> \<not> mutationUsed w g k"
  shows "\<exists>order order' ris sub disc rows. liveRow (w_db w) g oid = Some order \<and> ord_paidAt order = None \<and>
    openStatus (ord_status order) \<and> paidSum (w_db w) oid \<le> 0 \<and> priceCart (w_db w) g (ap_cart dto) = Inr (ris, sub) \<and>
    fst (resolveDiscount g (pr_role user) (ord_discountId order) None w) = Inr disc \<and>
    itemsOf (w_db w') oid = itemsOf (w_db w) oid @ rows \<and>
    map itemCore rows = map (\<lambda>ri. (ri_menuItemId ri, ri_quantity ri, ri_price ri)) ris \<and>
    liveRow (w_db w') g oid = Some order' \<and> ord_paidAt order' = None \<and> ord_status order' = ord_status order \<and>
    ord_subtotal order' = Some (linesTotal (w_db w') oid) \<and>
    ord_totalAmount order' = et_totalAmount (editTotals disc (linesTotal (w_db w') oid)
      (taxRateOf (w_db w) (ord_locationId order)) (ord_tipAmount order)) \<and>
    t_payments (w_db w') = t_payments (w_db w)"
  using assms(1)
proof (rule appendOrderItemsFor_Inr)
  fix b v assume tx: "appendInTx g user oid dto w = (Inr b, v)" and l: "ledger w' = ledger v"
  note l' = ledger_parts[OF l]
  from tx show ?thesis
  proof (rule appendInTx_cases)
    fix k assume "ap_clientMutationId dto = Some k" "k \<noteq> []" "mutationUsed w g k"
    with assms(2) show ?thesis by blast
  next
    fix order ris sub disc ids
    assume o: "liveRow (w_db w) g oid = Some order" and guard: "ord_paidAt order = None" "openStatus (ord_status order)"
        "paidSum (w_db w) oid \<le> 0" and cart: "priceCart (w_db w) g (ap_cart dto) = Inr (ris, sub)"
      and di: "fst (resolveDiscount g (pr_role user) (ord_discountId order) None w) = Inr disc"
      and len: "length ids = length ris"
      and items: "t_orderItems (w_db v) = t_orderItems (w_db w) @ map2 (cartItemRow oid) ids ris"
      and orders: "t_orders (w_db v) = update_where (\<lambda>r. ord_id r = oid) (appendedRow (editTotals disc
             (linesTotal (w_db w) oid + sub) (taxRateOf (w_db w) (ord_locationId order)) (ord_tipAmount order)) disc (w_now w))
             (t_orders (w_db w))"
      and pays: "t_payments (w_db v) = t_payments (w_db w)"
    let ?t = "editTotals disc (linesTotal (w_db w) oid + sub) (taxRateOf (w_db w) (ord_locationId order)) (ord_tipAmount order)"
    have its: "itemsOf (w_db w') oid = itemsOf (w_db w) oid @ map2 (cartItemRow oid) ids ris"
      by (simp add: itemsOf_def l' items cartItemRows_own)
    then have lt: "linesTotal (w_db w') oid = linesTotal (w_db w) oid + sub"
      using sum_rows_total[OF len] priceCart_sub[OF cart] by (simp add: linesTotal_def)
    have o': "liveRow (w_db w') g oid = Some (appendedRow ?t disc (w_now w) order)"
      by (rule liveRow_update[OF _ _ o]) (simp_all add: l' orders)
    show ?thesis
      by (intro exI[of _ order] exI[of _ "appendedRow ?t disc (w_now w) order"] exI[of _ ris] exI[of _ sub] exI[of _ disc]
          exI[of _ "map2 (cartItemRow oid) ids ris"])
         (use o guard cart di its o' lt cartItemRows_core[OF len] in \<open>simp add: l' pays editTotals_def Let_def\<close>)
  qed
qed

section \<open>Firing a course\<close>

lemma claimOnce_reads:
  "claimOnce g oid key kind w = (Inr b, w') \<Longrightarrow> ledger w' = ledger w \<and> w_now w' = w_now w"
  by (erule claimOnce_cases) (simp_all add: ledger_def)

lemma fireInTx_cases:
  assumes "fireInTx g oid dto w = (Inr b, w')"
  obtains k where "\<not> b" and "w' = w" and "fd_clientMutationId dto = Some k" and "k \<noteq> []" and "mutationUsed w g k"
  | order where "liveRow (w_db w) g oid = Some order" and "ord_paidAt order = None" and "openStatus (ord_status order)"
      and "b = (filter (unfired oid (fd_course dto)) (t_orderItems (w_db w)) \<noteq> [])"
      and "t_orders (w_db w') = t_orders (w_db w)" and "t_payments (w_db w') = t_payments (w_db w)"
      and "t_orderItems (w_db w') = update_where (unfired oid (fd_course dto)) (\<lambda>r. r\<lparr>oi_firedAt := Some (w_now w)\<rparr>)
             (t_orderItems (w_db w))"
proof -
  from assms obtain c w1 where claim: "claimOnce g oid (fd_clientMutationId dto) ''fire'' w = (Inr c, w1)"
    and rest: "(if \<not> c then returnM False else fireClaimed g oid dto) w1 = (Inr b, w')"
    unfolding fireInTx_def by (rule bindM_InrE)
  show thesis
  proof (cases c)
    case False
    with claim rest that(1) show thesis by (auto elim: claimOnce_cases)
  next
    case True
    note f = claimOnce_reads[OF claim]
    from rest True have "fireClaimed g oid dto w1 = (Inr b, w')" by simp
    then show thesis
      using f that(2) unfolding fireClaimed_def
      by (elim thenM_InrE bindM_InrE)
         (auto simp: liveOrder_Inr throw_if_iff liveRow_def ledger_def)
  qed
qed

lemma fireInTx_fx:
  "fireInTx g oid dto w = (r, w') \<Longrightarrow> t_printJobs (w_db w') = t_printJobs (w_db w) \<and> w_fx w' = w_fx w"
proof -
  have "preserves (\<lambda>w. (t_printJobs (w_db w), w_fx w)) (fireInTx g oid dto)"
    unfolding fireInTx_def fireClaimed_def claimOnce_def claimMutation_def liveOrder_def
    by (intro frame preserves_writeDb) simp_all
  then show "fireInTx g oid dto w = (r, w') \<Longrightarrow> ?thesis" by (drule_tac preservesD) auto
qed

lemma update_where_none [simp]: "filter P xs = [] \<Longrightarrow> update_where P f xs = xs"
  by (induction xs) (auto split: if_splits)

lemma unfired_after: "filter (unfired oid c) (update_where (unfired oid c) (\<lambda>r. r\<lparr>oi_firedAt := Some t\<rparr>) xs) = []"
  by (induction xs) (auto simp: unfired_def)

lemma fireCourseFor_Inr:
  assumes "fireCourseFor g user oid dto w = (Inr fo, w')"
  obtains b w1 where "fireInTx g oid dto w = (Inr b, w1)" and "ledger w' = ledger w1" and "\<not> b \<Longrightarrow> w' = w1"
  using assms unfolding fireCourseFor_def
  by (elim thenM_InrE bindM_InrE)
     (auto simp: transactionM_Inr split: if_splits elim!: thenM_InrE dest!: getOrder_Inr preservesD[OF preserves_printCourse]
        simp: ledger_def)

text \<open>
  Firing a course stamps exactly the lines of the order in that course that were not yet fired,
  and leaves no line of the course unfired; lines of other courses and orders, the orders and the
  payments stay as they are.
\<close>

theorem fireCourse_stamps:
  assumes "fireCourseFor g user oid dto w = (Inr fo, w')"
    and "\<forall>k. fd_clientMutationId dto = Some k \<and> k \<noteq> [] \<longrightarrow> \<not> mutationUsed w g k"
  shows "t_orderItems (w_db w') = map (\<lambda>r. if oi_orderId r = oid \<and> oi_course r = Some (fd_course dto) \<and> oi_firedAt r = None
      then r\<lparr>oi_firedAt := Some (w_now w)\<rparr> else r) (t_orderItems (w_db w)) \<and>
    filter (unfired oid (fd_course dto)) (t_orderItems (w_db w')) = [] \<and>
    t_orders (w_db w') = t_orders (w_db w) \<and> t_payments (w_db w') = t_payments (w_db w)"
  using assms(1)
proof (rule fireCourseFor_Inr)
  fix b v assume tx: "fireInTx g oid dto w = (Inr b, v)" and l: "ledger w' = ledger v"
  from tx show ?thesis
  proof (rule fireInTx_cases)
    fix k assume "fd_clientMutationId dto = Some k" "k \<noteq> []" "mutationUsed w g k"
    with assms(2) show ?thesis by blast
  next
    assume s: "t_orderItems (w_db v) = update_where (unfired oid (fd_course dto)) (\<lambda>r. r\<lparr>oi_firedAt := Some (w_now w)\<rparr>)
             (t_orderItems (w_db w))"
      and "t_orders (w_db v) = t_orders (w_db w)" "t_payments (w_db v) = t_payments (w_db w)"
    then show ?thesis
      using unfired_after ledger_parts[OF l] by (simp add: update_where_def unfired_def)
  qed
qed

lemma fire_unfired:
  assumes "fireCourseFor g user oid dto w = (Inr fo, w')"
    and "\<forall>k. fd_clientMutationId dto = Some k \<and> k \<noteq> [] \<longrightarrow> \<not> mutationUsed w g k"
  shows "filter (unfired oid (fd_course dto)) (t_orderItems (w_db w')) = []"
  using assms(1)
proof (rule fireCourseFor_Inr)
  fix b v assume "fireInTx g oid dto w = (Inr b, v)" and l: "ledger w' = ledger v"
  then show ?thesis
    by (rule_tac fireInTx_cases) (use assms(2) unfired_after ledger_parts[OF l] in auto)
qed

text \<open>
  A course reaches the kitchen once: after a fire that returned, firing the course again, with
  whatever mutation id and by whoever, prints nothing, sends nothing and stamps nothing.
\<close>

theorem fire_once:
  assumes "fireCourseFor g user oid dto w = (Inr fo, w1)"
    and "\<forall>k. fd_clientMutationId dto = Some k \<and> k \<noteq> [] \<longrightarrow> \<not> mutationUsed w g k"
    and "w_db w2 = w_db w1" and "fd_course dto2 = fd_course dto"
    and "fireCourseFor g user2 oid dto2 w2 = (Inr fo2, w3)"
  shows "t_printJobs (w_db w3) = t_printJobs (w_db w2) \<and> w_fx w3 = w_fx w2 \<and> ledger w3 = ledger w2"
  using assms(5)
proof (rule fireCourseFor_Inr)
  fix b v assume tx: "fireInTx g oid dto2 w2 = (Inr b, v)" and same: "\<not> b \<Longrightarrow> w3 = v"
  have none: "filter (unfired oid (fd_course dto2)) (t_orderItems (w_db w2)) = []"
    using fire_unfired[OF assms(1,2)] assms(3,4) by simp
  from tx have "\<not> b" by (rule fireInTx_cases) (simp_all add: none)
  moreover have "t_printJobs (w_db v) = t_printJobs (w_db w2) \<and> w_fx v = w_fx w2"
    using fireInTx_fx[OF tx] .
  moreover have "ledger v = ledger w2"
    using tx by (rule fireInTx_cases) (simp_all add: none ledger_def)
  ultimately show ?thesis using same by simp
qed

section \<open>A paid register order and its refund\<close>

text \<open>
  A register order rung up with a payment method is marked paid, but no payment is recorded
  for it: a refund of it is always refused and changes no order, line or payment.
\<close>

theorem paid_pos_order_not_refundable:
  assumes "placePosOrder g user dto ris s t d c w = (Inr oid, w1)" and "truthy (cp_paymentMethod dto)"
    and "\<forall>r \<in> set (t_orders (w_db w)). ord_id r \<noteq> oid" and "\<forall>p \<in> set (t_payments (w_db w)). pay_orderId p \<noteq> oid"
    and "ledger w2 = ledger w1" and "refundPaidOrder cw cmp user' oid pin reason w2 = (x, w3)"
  shows "(\<exists>r. findOrder (w_db w2) g oid = Some r \<and> ord_paidAt r = Some (w_now w)) \<and>
    (\<exists>e. x = Inl e) \<and> ledger w3 = ledger w2"
proof -
  let ?row = "posOrderRow g dto s t d c"
  from assms(1) obtain n v where ins: "insertWithItems (?row n) (posItemRow (cp_fireMode dto = Some ''by_course'')) ris w = (Inr oid, v)"
    and rest: "ledger w1 = ledger v"
    unfolding placePosOrder_def
    by (elim thenM_InrE bindM_InrE)
       (auto simp: nextTicketNumber_def dest!: preservesD[OF preserves_ledger_decrementStock]
         preservesD[OF preserves_ledger_updateLoyalty] preservesD[OF preserves_ledger_auditOverrides])
  note l = ledger_parts[OF rest] ledger_parts[OF assms(5)]
  have orders: "t_orders (w_db w2) = t_orders (w_db w) @ [?row n oid (w_now w)]" "t_payments (w_db w2) = t_payments (w_db w)"
    using ins by (auto simp: insertWithItems_Inr l)
  have o: "findOrder (w_db w2) g oid = Some (?row n oid (w_now w))"
    using assms(3) by (auto simp: findOrder_def orders first_row_append split: option.split dest: first_row_SomeD)
  have none: "paidSum (w_db w2) oid = 0"
    using assms(4) by (simp add: paidSum_def paymentsOf_def orders)
  from assms(6) show ?thesis
  proof (rule refundPaidOrder_cases)
    fix e assume "x = Inl e" "ledger w3 = ledger w2"
    with o assms(2) show ?thesis by simp
  next
    fix g' m u u' assume l': "ledger u = ledger w2" and "voidOrder g' m oid reason u = (Inr (), u')"
    then have "0 < paidSum (w_db u) oid" by (auto elim!: voidOrder_Inr)
    with none ledger_reads(2)[OF l'] show ?thesis by simp
  qed
qed

section \<open>Status changes follow the machine\<close>

lemma uncachedD: "uncached w' = uncached w \<Longrightarrow> w_db w' = w_db w \<and> w_now w' = w_now w"
  using uncached_parts by blast

lemma updateOrderStatus_Inr:
  assumes "updateOrderStatus cw user oid s w = (Inr fo, w')"
  obtains g w1 order nx where "getRequiredOrg cw user w = (Inr g, w1)" and "s = status_string nx"
    and "nx \<in> set MANUAL_ORDER_STATUSES" and "findOrder (w_db w) g oid = Some order"
    and "status_step (ord_status order) nx"
    and "w_db w' = (w_db w)\<lparr>t_orders := update_where (\<lambda>r. ord_id r = oid)
           (\<lambda>r. r\<lparr>ord_status := nx, ord_updatedAt := w_now w\<rparr>) (t_orders (w_db w))\<rparr>"
  using assms unfolding updateOrderStatus_def
  by (elim thenM_InrE bindM_InrE)
     (auto simp: orThrow_iff throw_if_iff status_step.simps canTransitionOrderStatus_def
       split: option.splits if_splits elim!: thenM_InrE bindM_InrE
       dest!: getRequiredOrg_uncached status_of_string_Some getOrder_Inr uncachedD)

text \<open>
  A status change that is accepted is one step of the order's status machine to a status a
  person may set; it changes the status and the time of that order, and nothing else in the database.
\<close>

theorem updateOrderStatus_steps:
  assumes "updateOrderStatus cw user oid s w = (Inr fo, w')"
  shows "\<exists>g order nx. findOrder (w_db w) g oid = Some order \<and> status_step (ord_status order) nx \<and>
    s = status_string nx \<and> nx \<noteq> Refunded \<and>
    findOrder (w_db w') g oid = Some (order\<lparr>ord_status := nx, ord_updatedAt := w_now w\<rparr>) \<and>
    w_db w' = (w_db w)\<lparr>t_orders := update_where (\<lambda>r. ord_id r = oid)
      (\<lambda>r. r\<lparr>ord_status := nx, ord_updatedAt := w_now w\<rparr>) (t_orders (w_db w))\<rparr>"
  using assms
proof (rule updateOrderStatus_Inr)
  fix g w1 order nx
  assume "s = status_string nx" "nx \<in> set MANUAL_ORDER_STATUSES" and o: "findOrder (w_db w) g oid = Some order"
    and "status_step (ord_status order) nx"
    and db: "w_db w' = (w_db w)\<lparr>t_orders := update_where (\<lambda>r. ord_id r = oid)
           (\<lambda>r. r\<lparr>ord_status := nx, ord_updatedAt := w_now w\<rparr>) (t_orders (w_db w))\<rparr>"
  moreover have "findOrder (w_db w') g oid = Some (order\<lparr>ord_status := nx, ord_updatedAt := w_now w\<rparr>)"
    by (rule findOrder_update_where[OF _ _ _ o]) (simp_all add: db)
  ultimately show ?thesis
    by (intro exI[of _ g] exI[of _ order] exI[of _ nx]) (auto simp: MANUAL_ORDER_STATUSES_def)
qed

definition changeAll :: "cache_wiring \<Rightarrow> uuid \<Rightarrow> (principal \<times> string) list \<Rightarrow> unit handler" where
  "changeAll cw oid reqs = forM reqs (\<lambda>(user, s). bindM (updateOrderStatus cw user oid s) (\<lambda>_. returnM ()))"

lemma changeAll_reach:
  "changeAll cw oid reqs w = (Inr (), w') \<Longrightarrow> \<forall>(u, s) \<in> set reqs. pr_organizationId u = Some g \<Longrightarrow> g \<noteq> [] \<Longrightarrow>
   findOrder (w_db w) g oid = Some order \<Longrightarrow> status_reach s0 (ord_status order) n \<Longrightarrow>
   \<exists>order'. findOrder (w_db w') g oid = Some order' \<and> status_reach s0 (ord_status order') (n + length reqs)"
proof (induction reqs arbitrary: w order n)
  case (Cons req reqs)
  obtain user s where req: "req = (user, s)" by (cases req)
  from Cons.prems(1) obtain fo w1 where step: "updateOrderStatus cw user oid s w = (Inr fo, w1)"
    and rest: "changeAll cw oid reqs w1 = (Inr (), w')"
    by (auto simp: changeAll_def req elim!: thenM_InrE bindM_InrE)
  from step show ?case
  proof (rule updateOrderStatus_Inr)
    fix g' v order' nx
    assume "getRequiredOrg cw user w = (Inr g', v)" "findOrder (w_db w) g' oid = Some order'"
      and st: "status_step (ord_status order') nx"
      and db: "w_db w1 = (w_db w)\<lparr>t_orders := update_where (\<lambda>r. ord_id r = oid)
           (\<lambda>r. r\<lparr>ord_status := nx, ord_updatedAt := w_now w\<rparr>) (t_orders (w_db w))\<rparr>"
    then have "order' = order"
      using Cons.prems(2-4) by (simp add: req getRequiredOrg_claim)
    with st have "status_reach s0 nx (Suc n)"
      using status_reach.move[OF Cons.prems(5)] by simp
    moreover have "findOrder (w_db w1) g oid = Some (order\<lparr>ord_status := nx, ord_updatedAt := w_now w\<rparr>)"
      by (rule findOrder_update_where[OF _ _ _ Cons.prems(4)]) (simp_all add: db)
    ultimately show ?thesis
      using Cons.IH[OF rest _ Cons.prems(3), of _ "Suc n"] Cons.prems(2) by auto
  qed
qed (auto simp: changeAll_def)

text \<open>
  C13. An order's status never comes back: accepted status changes of one order are a path of the
  machine, and there are never more than five of them.
\<close>

theorem status_changes_bounded:
  assumes "changeAll cw oid reqs w = (Inr (), w')" and "\<forall>(u, s) \<in> set reqs. pr_organizationId u = Some g" and "g \<noteq> []"
    and "findOrder (w_db w) g oid = Some order"
  shows "length reqs \<le> 5 \<and> (\<exists>order'. findOrder (w_db w') g oid = Some order' \<and>
    status_reach (ord_status order) (ord_status order') (length reqs))"
proof -
  obtain order' where o: "findOrder (w_db w') g oid = Some order'"
    and r: "status_reach (ord_status order) (ord_status order') (length reqs)"
    using changeAll_reach[OF assms status_reach.stay] by auto
  have "length reqs \<le> status_rank (ord_status order')"
    using status_reach_rank[OF r] by simp
  also have "\<dots> \<le> 5" by (rule status_rank_le)
  finally show ?thesis using o r by blast
qed

end
