(* ===== verification/Demo_Store.thy ===== *)
theory Demo_Store
  imports Prelude Platform_DB Users Cache_Store Idempotency Order_Pricing Order_Print Order_Payment Orders_Service
begin

text \<open>
  A small store on which the theorems of the other theories are applied to concrete requests: one
  organization \<open>g\<close> with one location (10% tax), one menu item at 0.10, a cashier \<open>u\<close> and a manager
  \<open>b\<close> whose PIN is \<open>1234\<close>; PINs are compared with equality. Every witness runs an operation of the
  model here and reads the theorem off that run.
\<close>

section \<open>A store with one menu item, a manager and a cashier\<close>

definition returned :: "'a handler \<Rightarrow> world \<Rightarrow> bool" where
  "returned m w = (case fst (m w) of Inl _ \<Rightarrow> False | Inr _ \<Rightarrow> True)"

definition answer :: "'a handler \<Rightarrow> world \<Rightarrow> 'a" where
  "answer m w = (case fst (m w) of Inr a \<Rightarrow> a)"

definition after :: "'a handler \<Rightarrow> world \<Rightarrow> world" where
  "after m w = snd (m w)"

lemma returned_run: "returned m w \<Longrightarrow> m w = (Inr (answer m w), after m w)"
  by (cases "m w") (auto simp: returned_def answer_def after_def split: sum.splits)

definition demoUser :: "uuid \<Rightarrow> string \<Rightarrow> string option \<Rightarrow> user_row" where
  "demoUser i role pin = \<lparr>usr_id = i, usr_email = i, usr_passwordHash = [], usr_role = role,
     usr_firstName = None, usr_lastName = None, usr_phoneNumber = None, usr_companyName = None,
     usr_emailVerifiedAt = None, usr_onboardingCompletedAt = None, usr_failedLoginAttempts = 0,
     usr_lockedUntil = None, usr_lastLoginAt = None, usr_organizationId = Some ''g'', usr_locationId = None,
     usr_posPinHash = pin,
     usr_posPinFailedAttempts = 0, usr_posPinLockedUntil = None, usr_deletedAt = None, usr_updatedAt = 0\<rparr>"

definition demoItem :: menu_item_row where
  "demoItem = \<lparr>mi_id = ''m'', mi_name = ''Soup'', mi_price = 10, mi_categoryId = ''c'',
     mi_locationId = None, mi_isAvailable = True, mi_taxExempt = False, mi_stockQuantity = Some 9,
     mi_deletedAt = None\<rparr>"

definition demoLocation :: location_row where
  "demoLocation = \<lparr>loc_id = ''l'', loc_organizationId = ''g'', loc_timezone = None, loc_taxRateBps = 1000,
     loc_serviceChargeBps = 1800, loc_printSettings = None, loc_autoStartAiOrders = False,
     loc_deletedAt = None\<rparr>"

definition demoDb :: db where
  "demoDb = \<lparr>t_orders = [], t_orderItems = [], t_payments = [], t_orderMutations = [],
     t_menuItems = [demoItem], t_categories = [\<lparr>cat_id = ''c'', cat_organizationId = ''g''\<rparr>],
     t_menuModifiers = [], t_menuItemModifiers = [], t_menuItemToModifiers = [], t_discounts = [],
     t_customers = [], t_locations = [demoLocation],
     t_users = [demoUser ''u'' ''user'' None, demoUser ''b'' ''manager'' (Some ''1234'')],
     t_timeClockEntries = [], t_refreshTokens = [], t_passwordResetTokens = [],
     t_emailVerificationTokens = [], t_printJobs = []\<rparr>"

definition demoWorld :: world where
  "demoWorld = \<lparr>w_db = demoDb, w_cache = Map.empty, w_fx = [], w_now = 0,
     w_ids = (\<lambda>n. replicate (Suc n) CHR ''i''), w_nextId = 0, w_queueUp = True\<rparr>"

definition demoCashier :: principal where
  "demoCashier = \<lparr>pr_id = ''u'', pr_role = ''user'', pr_organizationId = Some ''g'',
     pr_locationId = None, pr_isPlatformAdmin = False\<rparr>"

definition demoCache :: cache_wiring where
  "demoCache = \<lparr>cw_client = False, cw_prefix = []\<rparr>"

definition demoLine :: cart_item where
  "demoLine = \<lparr>ci_menuItemId = ''m'', ci_quantity = 2, ci_optionIds = None, ci_notes = None,
     ci_course = Some 2, ci_priceOverride = None, ci_priceOverrideReason = None\<rparr>"

definition demoSale :: "string option \<Rightarrow> pos_order" where
  "demoSale paid = \<lparr>cp_locationId = ''l'', cp_customerId = None, cp_customerName = None,
     cp_customerPhone = None, cp_tableId = None, cp_orderType = None, cp_specialInstructions = None,
     cp_paymentMethod = paid, cp_tipAmount = None, cp_applyServiceCharge = False, cp_redeemPoints = None,
     cp_discountId = None, cp_promoCode = None, cp_clientOrderId = Some ''k'', cp_fireMode = None,
     cp_items = [demoLine]\<rparr>"

text \<open>The same store with one open tab of two soups, 0.22 with tax, or that order paid in some tender.\<close>

definition demoTab :: "string option \<Rightarrow> order_row" where
  "demoTab method = (newOrder ''o'' ''g'' 0)\<lparr>ord_locationId := Some ''l'', ord_status := Confirmed,
     ord_subtotal := Some 20, ord_taxAmount := Some 2, ord_totalAmount := 22,
     ord_paymentMethod := method, ord_paidAt := (if method = None then None else Some 0),
     ord_clientOrderId := Some ''k'', ord_fireMode := ''by_course''\<rparr>"

definition demoTabLine :: order_item_row where
  "demoTabLine = \<lparr>oi_id = ''oi'', oi_orderId = ''o'', oi_menuItemId = ''m'', oi_quantity = 2, oi_price = 10,
     oi_modifiers = None, oi_notes = None, oi_course = Some 2, oi_firedAt = None\<rparr>"

definition demoPayment :: "string \<Rightarrow> payment_row" where
  "demoPayment method = \<lparr>pay_id = ''p'', pay_organizationId = ''g'', pay_locationId = Some ''l'',
     pay_orderId = ''o'', pay_method = method, pay_amount = 22, pay_tipAmount = 0,
     pay_cashReceived = None, pay_changeGiven = None, pay_createdBy = Some ''u'', pay_createdAt = 0\<rparr>"

definition demoOpenTab :: world where
  "demoOpenTab = demoWorld\<lparr>w_db := demoDb\<lparr>t_orders := [demoTab None], t_orderItems := [demoTabLine]\<rparr>\<rparr>"

definition paidTab :: "string \<Rightarrow> world" where
  "paidTab method = demoWorld\<lparr>w_db := demoDb\<lparr>t_orders := [demoTab (Some method)],
     t_orderItems := [demoTabLine], t_payments := [demoPayment method]\<rparr>\<rparr>"
section \<open>Organizations and idempotency keys\<close>

lemma demo_cache: "storeGet k demoWorld = (Inr None, demoWorld)"
  by (simp add: storeGet_def redisGet_def liveValue_def demoWorld_def)

theorem getRequiredOrg_resolves_witness:
  "\<exists>g w'. getRequiredOrg demoCache (demoCashier\<lparr>pr_organizationId := None\<rparr>) demoWorld = (Inr g, w') \<and>
     g \<noteq> [] \<and> uncached w' = uncached demoWorld"
proof -
  have "returned (getRequiredOrg demoCache (demoCashier\<lparr>pr_organizationId := None\<rparr>)) demoWorld" by code_simp
  note run = returned_run[OF this]
  from getRequiredOrg_resolves[OF run] run show ?thesis by auto
qed

definition demoReserved :: "string \<Rightarrow> string \<Rightarrow> world \<Rightarrow> world" where
  "demoReserved sc k w = w\<lparr>w_cache := [idemKey sc k \<mapsto> (Inflight 0, 86400000)]\<rparr>"

lemma demo_reserve:
  assumes "w_cache w = Map.empty" and "w_now w = 0"
  shows "idemReplay demoCache sc k w = (Inr None, w)"
    and "idemBegin demoCache sc k w = (Inr True, demoReserved sc k w)"
  using assms by (simp_all add: idemReplay_def idemBegin_def cache_defs liveValue_def demoCache_def
      demoReserved_def TTL_SECONDS_def bindM_def thenM_def Let_def)

lemma demo_start: "w_cache demoWorld = Map.empty" "w_now demoWorld = 0"
  by (simp_all add: demoWorld_def)

theorem idempotent_retry_witness:
  "\<exists>w1. withIdempotency (idempotencyService demoCache) ''s'' (Some ''k'') (returnM (JInt 1)) demoWorld = (Inr (JInt 1), w1) \<and>
     withIdempotency (idempotencyService demoCache) ''s'' (Some ''k'') (throwM (GenericError [])) w1 = (Inr (JInt 1), w1)"
proof -
  let ?call = "withIdempotency (idempotencyService demoCache) ''s'' (Some ''k'')"
  have first: "?call (returnM (JInt 1)) demoWorld = (Inr (JInt 1),
      snd (idemComplete demoCache ''s'' ''k'' 200 (JInt 1) (demoReserved ''s'' ''k'' demoWorld)))" (is "_ = (_, ?w1)")
    by (simp add: withIdempotency_def idempotencyService_def bindM_def thenM_def demo_reserve demo_start catchM_def
        idemComplete_def cacheSet_def storeSet_def redisSet_def TTL_SECONDS_def)
  have now: "w_now ?w1 = 0"
    by (simp add: idemComplete_def cacheSet_def storeSet_def redisSet_def TTL_SECONDS_def demoReserved_def demoWorld_def)
  from idempotent_retry[OF first _ demo_reserve[OF demo_start] refl, of "throwM (GenericError [])"] first now show ?thesis
    by (auto simp: demoReserved_def demoWorld_def)
qed

theorem inflight_conflict_witness:
  "withIdempotency (idempotencyService demoCache) ''s'' (Some ''k'') (returnM JNull) (demoReserved ''s'' ''k'' demoWorld) =
     (Inl (ConflictException ''A refund with this Idempotency-Key is already in flight.''), demoReserved ''s'' ''k'' demoWorld)"
  by (rule inflight_conflict[OF demo_reserve[OF demo_start]]) (simp_all add: demoReserved_def demoWorld_def)

section \<open>Payments\<close>

definition demoCash :: payment_dto where
  "demoCash = \<lparr>pd_method = ''cash'', pd_amount = Some 10, pd_cashReceived = Some 20, pd_tipAmount = Some 1\<rparr>"

theorem recordPayment_settles_witness:
  "\<exists>res w'. recordPayment demoCache demoCashier ''o'' demoCash getOrderByIdForOrg demoOpenTab = (Inr res, w') \<and>
     t_orderItems (w_db w') = t_orderItems (w_db demoOpenTab) \<and> 0 < pr_applied res"
proof -
  have "returned (recordPayment demoCache demoCashier ''o'' demoCash getOrderByIdForOrg) demoOpenTab" by code_simp
  note run = returned_run[OF this]
  let ?res = "answer (recordPayment demoCache demoCashier ''o'' demoCash getOrderByIdForOrg) demoOpenTab"
  let ?w' = "after (recordPayment demoCache demoCashier ''o'' demoCash getOrderByIdForOrg) demoOpenTab"
  from recordPayment_settles[OF run]
  have "t_orderItems (w_db ?w') = t_orderItems (w_db demoOpenTab) \<and> 0 < pr_applied ?res"
    by (elim exE conjE) (rule conjI; assumption)
  with run show ?thesis by blast
qed

theorem api_payment_fails_witness:
  "\<exists>e w'. recordPayment demoCache (apiPrincipal ''g'') ''o'' demoCash getOrderByIdForOrg demoOpenTab = (Inl e, w') \<and>
     ledger w' = ledger demoOpenTab"
  by (rule api_payment_fails) (simp_all add: demoOpenTab_def demoDb_def demoUser_def)

theorem refundPaidOrder_gives_back_witness:
  "\<exists>msg w'. refundPaidOrder demoCache (=) demoCashier ''o'' ''1234'' None (paidTab ''cash'') = (Inr msg, w') \<and>
     paidSum (w_db w') ''o'' = 0"
proof -
  have "returned (refundPaidOrder demoCache (=) demoCashier ''o'' ''1234'' None) (paidTab ''cash'')" by code_simp
  note run = returned_run[OF this]
  from refundPaidOrder_gives_back[OF run] run show ?thesis by blast
qed

definition demoRefund :: partial_refund_dto where
  "demoRefund = \<lparr>rf_managerPin = ''1234'', rf_amount = 5, rf_reason = None\<rparr>"

theorem refundPartialOrder_capped_witness:
  "\<exists>j w'. refundPartialOrder demoCache (=) demoCashier ''o'' demoRefund None (paidTab ''cash'') = (Inr j, w') \<and>
     (ledger w' = ledger (paidTab ''cash'') \<or>
      (\<exists>row. pay_amount row = - 5 \<and> t_payments (w_db w') = t_payments (w_db (paidTab ''cash'')) @ [row]))"
proof -
  have "returned (refundPartialOrder demoCache (=) demoCashier ''o'' demoRefund None) (paidTab ''cash'')" by code_simp
  note run = returned_run[OF this]
  from refundPartialOrder_capped[OF run] run show ?thesis by (auto simp: demoRefund_def)
qed

theorem split_refund_fails_witness:
  "\<exists>e w'. refundPartialOnce (=) ''g'' ''o'' demoRefund (paidTab ''split'') = (Inl e, w') \<and>
     ledger w' = ledger (paidTab ''split'')"
  by (rule split_refund_fails[of _ _ _ "demoTab (Some ''split'')"])
     (simp_all add: paidTab_def findOrder_def demoTab_def)


definition demoAdjust :: adjust_dto where
  "demoAdjust = \<lparr>ad_managerPin = ''1234'', ad_items = [demoLine\<lparr>ci_quantity := 3\<rparr>], ad_reason = None\<rparr>"

definition demoRow :: resolved_item where
  "demoRow = \<lparr>ri_menuItemId = ''m'', ri_quantity = 3, ri_price = 10, ri_modifiers = None, ri_notes = None,
     ri_course = Some 2, ri_taxExempt = False, ri_priceOverridden = False, ri_priceOverrideReason = None\<rparr>"

definition demoBoss :: user_row where
  "demoBoss = demoUser ''b'' ''manager'' (Some ''1234'')"

lemma demo_adjusts: "returned (adjustOrderItems demoCache (=) demoCashier ''o'' demoAdjust) (paidTab ''cash'')"
proof -
  let ?w = "paidTab ''cash''" and ?p = "\<lparr>ap_items = [demoRow], ap_subtotal = 30, ap_discount = 0, ap_taxRateBps = 1000\<rparr>"
  have cart: "priceCart (w_db ?w) ''g'' (ad_items demoAdjust) = Inr ([demoRow], 30)" by code_simp
  have order: "findOrder (w_db ?w) ''g'' ''o'' = Some (demoTab (Some ''cash''))"
    "ord_id (demoTab (Some ''cash'')) = ''o''" "ord_locationId (demoTab (Some ''cash'')) = Some ''l''"
    by code_simp+
  have rates: "taxRateOf (w_db ?w) (Some ''l'') = 1000" "snapshotDiscount (demoTab (Some ''cash'')) 30 = 0"
    by code_simp+
  have "returned (adjustInTx ''g'' demoBoss (demoTab (Some ''cash'')) ?p demoAdjust) ?w" by code_simp
  note tx = returned_run[OF this]
  have pin: "verifyManagerPin (=) ''g'' (ad_managerPin demoAdjust) None ?w = (Inr (Some demoBoss), ?w)"
    by (simp add: verifyManagerPin_def verifyOrgPin_def demoAdjust_def paidTab_def demoWorld_def demoDb_def demoBoss_def
        demoUser_def pinManager_def pinLocked_def pinMatches_def POS_PIN_ROLES_def bindM_def thenM_def)
  have "\<exists>j w'. adjustApproved ''g'' ''o'' demoAdjust demoBoss ?w = (Inr j, w')"
    by (simp add: adjustApproved_def order rates priceCartItems_def getTaxRate_def cart bindM_liftE Let_def
        transactionM_def tx thenM_def bindM_def split: prod.split sum.split)
  then show ?thesis
    by (auto simp: adjustOrderItems_def getRequiredOrg_def demoCashier_def pin returned_def bindM_def)
qed

theorem adjustOrderItems_settles_witness:
  "\<exists>j w' g order' sub. adjustOrderItems demoCache (=) demoCashier ''o'' demoAdjust (paidTab ''cash'') = (Inr j, w') \<and>
     findOrder (w_db w') g ''o'' = Some order' \<and> ord_subtotal order' = Some sub"
proof -
  let ?m = "adjustOrderItems demoCache (=) demoCashier ''o'' demoAdjust"
  note run = returned_run[OF demo_adjusts]
  from adjustOrderItems_settles[OF run]
  have "\<exists>g order' sub. findOrder (w_db (after ?m (paidTab ''cash''))) g ''o'' = Some order' \<and> ord_subtotal order' = Some sub"
    by (elim exE conjE) (rule exI, rule exI, rule exI, rule conjI; assumption)
  with run show ?thesis by blast
qed

theorem payments_stay_balanced_witness:
  "balanced (runCall demoCache (=) (RefundCall demoCashier ''o'' ''1234'' None) (paidTab ''cash''))"
proof (rule payments_stay_balanced)
  show "(payment_step demoCache (=))\<^sup>*\<^sup>* (paidTab ''cash'')
      (runCall demoCache (=) (RefundCall demoCashier ''o'' ''1234'' None) (paidTab ''cash''))"
    by (rule r_into_rtranclp, rule payment_step.call) simp
  show "balanced (paidTab ''cash'')"
    by (simp add: balanced_def paidTab_def sites_def demoDb_def demoTab_def newOrder_def demoLocation_def
        paidSum_def paymentsOf_def demoPayment_def)
qed

section \<open>Pricing and printing\<close>

theorem priceCart_sound_witness:
  "\<exists>ris. priceCart demoDb ''g'' [demoLine] = Inr (ris, 20) \<and> list_all2 (priced demoDb ''g'') [demoLine] ris"
proof -
  have "(case priceCart demoDb ''g'' [demoLine] of Inl _ \<Rightarrow> 0 | Inr (_, s) \<Rightarrow> s) = 20" by code_simp
  then obtain ris where "priceCart demoDb ''g'' [demoLine] = Inr (ris, 20)" by (auto split: sum.splits)
  with priceCart_sound[OF this] show ?thesis by blast
qed

definition numbered :: world where
  "numbered = demoWorld\<lparr>w_db := demoDb\<lparr>t_orders := [(demoTab None)\<lparr>ord_ticketNumber := Some 7\<rparr>]\<rparr>\<rparr>"

theorem nextTicketNumber_fresh_witness: "\<exists>n. nextTicketNumber ''l'' numbered = (Inr n, numbered) \<and> 7 < n"
proof -
  obtain n where run: "nextTicketNumber ''l'' numbered = (Inr n, numbered)"
    by (simp add: nextTicketNumber_def)
  from nextTicketNumber_fresh[OF run, of "(demoTab None)\<lparr>ord_ticketNumber := Some 7\<rparr>" 7] run show ?thesis
    by (simp add: numbered_def demoTab_def)
qed

theorem decrementStock_sells_witness:
  "map mi_stockQuantity (t_menuItems (w_db (after (decrementStock [(''m'', 2), (''m'', 20)]) demoWorld))) = [Some 0]"
  using decrementStock_sells[of "[(''m'', 2), (''m'', 20)]" demoWorld]
  by (simp add: after_def demoWorld_def demoDb_def demoItem_def stockAfter_def)

definition demoTicket :: full_order where
  "demoTicket = \<lparr>fo_order = (demoTab None)\<lparr>ord_fireMode := ''all''\<rparr>, fo_items = [], fo_payments = []\<rparr>"

theorem printForEvents_jobs_witness:
  "\<exists>w'. printForEvents ''g'' demoTicket [OnSave] False demoWorld = (Inr (), w') \<and>
     length (jobsOf w' ''o'' ''kitchen'') = 1 \<and> length (jobsOf w' ''o'' ''receipt'') = 0"
proof -
  obtain w' where run: "printForEvents ''g'' demoTicket [OnSave] False demoWorld = (Inr (), w')"
    using printing_answers(1) by blast
  have o: "ord_id (fo_order demoTicket) = ''o''" "ord_locationId (fo_order demoTicket) = Some ''l''"
    "ord_fireMode (fo_order demoTicket) = ''all''"
    by (simp_all add: demoTicket_def demoTab_def newOrder_def)
  have plan: "triggered (pl_kitchen (printPlanOf demoDb (Some ''l''))) [OnSave]"
    "\<not> triggered (pl_receipt (printPlanOf demoDb (Some ''l''))) [OnSave]"
    "dp_copies (pl_kitchen (printPlanOf demoDb (Some ''l''))) = 1"
    by code_simp+
  have db: "w_db demoWorld = demoDb" "w_queueUp demoWorld" "jobsOf demoWorld oid ty = []" for oid ty
    by (simp_all add: demoWorld_def demoDb_def jobsOf_def)
  from printForEvents_jobs[OF db(2) _ run refl] run show ?thesis
    unfolding o db by (simp add: plan)
qed

section \<open>Creating and editing orders\<close>

lemma demo_keys: "keys_unique demoWorld"
  by (simp add: keys_unique_def demoWorld_def demoDb_def)

theorem pos_order_created_once_witness:
  "\<exists>fo w1. createPosOrderFor ''g'' demoCashier (demoSale None) demoWorld = (Inr fo, w1) \<and>
     retryAll (createPosOrderFor ''g'' demoCashier) [demoSale (Some ''cash''), demoSale None] w1 = (Inr (), w1) \<and>
     length (ordersUnder (w_db w1) ''g'' ''k'') = 1"
proof -
  have "returned (createPosOrderFor ''g'' demoCashier (demoSale None)) demoWorld" by code_simp
  note run = returned_run[OF this]
  from pos_order_created_once[OF demo_keys run, of "''k''" "[demoSale (Some ''cash''), demoSale None]"] run show ?thesis
    by (auto simp: demoSale_def)
qed

definition demoMarket :: market_order where
  "demoMarket = \<lparr>mo_locationId = Some ''l'', mo_source = ''ubereats'', mo_sourceId = None,
     mo_integrationAccountId = ''a'', mo_externalOrderId = ''x'', mo_clientOrderId = ''ubereats:x'',
     mo_customerName = ''Ann'', mo_customerPhone = ''555'', mo_orderType = None,
     mo_specialInstructions = None, mo_subtotal = Some 20, mo_taxAmount = Some 2, mo_tipAmount = None,
     mo_totalAmount = 22, mo_items = [\<lparr>ki_menuItemId = ''m'', ki_quantity = 2, ki_price = 10,
       ki_modifiers = None, ki_notes = None\<rparr>]\<rparr>"

theorem marketplace_redelivery_witness:
  "\<exists>fo w1. createMarketplaceOrder ''g'' demoMarket demoWorld = (Inr fo, w1) \<and>
     retryAll (createMarketplaceOrder ''g'') [demoMarket, demoMarket] w1 = (Inr (), w1) \<and>
     length (ordersUnder (w_db w1) ''g'' (mo_clientOrderId demoMarket)) = 1"
proof -
  have "returned (createMarketplaceOrder ''g'' demoMarket) demoWorld" by code_simp
  note run = returned_run[OF this]
  have "mo_items demoMarket \<noteq> []" by (simp add: demoMarket_def)
  with marketplace_redelivery[OF demo_keys run, of "[demoMarket, demoMarket]"] run show ?thesis by auto
qed

theorem pos_race_returns_winner_witness:
  "\<exists>w'. insertOrReplay ''g'' (Some ''k'') (placePosOrder ''g'' demoCashier (demoSale None) [demoRow] 30
        (posTender [demoRow] 30 0 False 1800 1000 None 0) None None) demoOpenTab =
      (Inr (Inr (fullOf (w_db demoOpenTab) ''g'' (demoTab None))), w') \<and> w_db w' = w_db demoOpenTab"
proof -
  have "keyedOrder (w_db demoOpenTab) ''g'' ''k'' = Some (demoTab None)"
    by (simp add: keyedOrder_def demoOpenTab_def demoTab_def)
  from pos_race_returns_winner[OF this, of "demoSale None"] show ?thesis
    by (fastforce simp: demoSale_def)
qed

theorem posTender_total_witness:
  "tn_totalAmount (posTender [demoRow] 30 5 True 1800 1000 (Some 3) 4) =
     30 - 5 + tn_serviceChargeAmount (posTender [demoRow] 30 5 True 1800 1000 (Some 3) 4)
       + tn_taxAmount (posTender [demoRow] 30 5 True 1800 1000 (Some 3) 4) +
       tn_tipAmount (posTender [demoRow] 30 5 True 1800 1000 (Some 3) 4) -
       tn_redemptionAmount (posTender [demoRow] 30 5 True 1800 1000 (Some 3) 4)"
  using posTender_total[of 30 "[demoRow]" 5 1800 1000 4 "posTender [demoRow] 30 5 True 1800 1000 (Some 3) 4" True "Some 3"]
  by (simp add: demoRow_def lineTotal_def)

definition demoEdit :: edit_order where
  "demoEdit = \<lparr>eo_customerId = None, eo_customerName = None, eo_customerPhone = None, eo_tableId = None,
     eo_orderType = None, eo_specialInstructions = None, eo_discountId = None, eo_promoCode = None,
     eo_items = [demoLine\<lparr>ci_quantity := 3\<rparr>]\<rparr>"

lemma demo_edits: "returned (updateOrderItemsFor ''g'' demoCashier ''o'' demoEdit) demoOpenTab"
proof -
  let ?t = "editTotals None 30 1000 None"
  have cart: "priceCart (w_db demoOpenTab) ''g'' (eo_items demoEdit) = Inr ([demoRow], 30)" by code_simp
  have order: "findOrder (w_db demoOpenTab) ''g'' ''o'' = Some (demoTab None)" "ord_paidAt (demoTab None) = None"
    "openStatus (ord_status (demoTab None))" "paidSum (w_db demoOpenTab) ''o'' = 0"
    "ord_locationId (demoTab None) = Some ''l''" "ord_tipAmount (demoTab None) = None"
    "taxRateOf (w_db demoOpenTab) (Some ''l'') = 1000"
    by code_simp+
  have dto: "eo_items demoEdit \<noteq> []" "eo_customerId demoEdit = None" "eo_discountId demoEdit = None" "eo_promoCode demoEdit = None"
    by (simp_all add: demoEdit_def)
  have "returned (replaceItems ''o'' demoEdit ?t None [demoRow]) demoOpenTab" by code_simp
  note tx = returned_run[OF this]
  have "findOrder (w_db (after (replaceItems ''o'' demoEdit ?t None [demoRow]) demoOpenTab)) ''g'' ''o'' \<noteq> None" by code_simp
  then obtain r where r: "findOrder (w_db (after (replaceItems ''o'' demoEdit ?t None [demoRow]) demoOpenTab)) ''g'' ''o'' = Some r"
    by blast
  have "\<exists>v. announceEdit ''g'' demoCashier ''o'' act a fo u = (Inr fo, v)" for act a fo u
    using printing_answers(1)[of "''g''" fo "[OnUpdate]" True u] by (auto simp: announceEdit_def thenM_def bindM_def)
  then obtain v where print: "announceEdit ''g'' demoCashier ''o'' act a fo u = (Inr fo, v act a fo u)" for act a fo u
    by metis
  have "\<exists>fo w'. updateOrderItemsFor ''g'' demoCashier ''o'' demoEdit demoOpenTab = (Inr fo, w')"
    by (simp add: updateOrderItemsFor_def print dto order cart r tx guardEditable_def paidSumFor_def priceCartItems_def
        getTaxRate_def resolveDiscount_def getOrderByIdForOrg_reads transactionM_def bindM_def thenM_def Let_def liftE_def)
  then show ?thesis by (auto simp: returned_def)
qed

theorem updateOrderItems_open_only_witness:
  "\<exists>fo w'. updateOrderItemsFor ''g'' demoCashier ''o'' demoEdit demoOpenTab = (Inr fo, w') \<and>
     t_payments (w_db w') = t_payments (w_db demoOpenTab)"
proof -
  note run = returned_run[OF demo_edits]
  from updateOrderItems_open_only[OF run]
  have "t_payments (w_db (after (updateOrderItemsFor ''g'' demoCashier ''o'' demoEdit) demoOpenTab)) = t_payments (w_db demoOpenTab)"
    by (elim exE conjE)
  with run show ?thesis by blast
qed

definition demoAppend :: append_dto where
  "demoAppend = \<lparr>ap_clientMutationId = Some ''x'', ap_cart = [demoLine]\<rparr>"

lemma demo_appends: "returned (appendOrderItemsFor ''g'' demoCashier ''o'' demoAppend) demoOpenTab"
  by code_simp

theorem append_once_witness:
  "\<exists>fo w1 fo2. appendOrderItemsFor ''g'' demoCashier ''o'' demoAppend demoOpenTab = (Inr fo, w1) \<and>
     appendOrderItemsFor ''g'' demoCashier ''o'' demoAppend w1 = (Inr fo2, w1)"
proof -
  note run = returned_run[OF demo_appends]
  from append_once[OF run _ _ refl, of "''x''" demoAppend demoCashier] run show ?thesis
    by (auto simp: demoAppend_def)
qed

theorem append_keeps_lines_witness:
  "\<exists>fo w' rows. appendOrderItemsFor ''g'' demoCashier ''o'' demoAppend demoOpenTab = (Inr fo, w') \<and>
     itemsOf (w_db w') ''o'' = itemsOf (w_db demoOpenTab) ''o'' @ rows"
proof -
  note run = returned_run[OF demo_appends]
  have unused: "\<forall>k. ap_clientMutationId demoAppend = Some k \<and> k \<noteq> [] \<longrightarrow> \<not> mutationUsed demoOpenTab ''g'' k"
    by (simp add: mutationUsed_def mutations_def demoOpenTab_def demoDb_def)
  from append_keeps_lines[OF run unused]
  have "\<exists>rows. itemsOf (w_db (after (appendOrderItemsFor ''g'' demoCashier ''o'' demoAppend) demoOpenTab)) ''o'' =
      itemsOf (w_db demoOpenTab) ''o'' @ rows"
    by (elim exE conjE) (rule exI)
  with run show ?thesis by blast
qed

definition demoFire :: fire_dto where
  "demoFire = \<lparr>fd_course = 2, fd_clientMutationId = Some ''y''\<rparr>"

lemma demo_fires:
  "returned (fireCourseFor ''g'' demoCashier ''o'' demoFire) demoOpenTab"
  "\<forall>k. fd_clientMutationId demoFire = Some k \<and> k \<noteq> [] \<longrightarrow> \<not> mutationUsed demoOpenTab ''g'' k"
proof -
  show "returned (fireCourseFor ''g'' demoCashier ''o'' demoFire) demoOpenTab" by code_simp
qed (simp add: mutationUsed_def mutations_def demoOpenTab_def demoDb_def)

theorem fireCourse_stamps_witness:
  "\<exists>fo w'. fireCourseFor ''g'' demoCashier ''o'' demoFire demoOpenTab = (Inr fo, w') \<and>
     map oi_firedAt (t_orderItems (w_db w')) = [Some 0]"
proof -
  note run = returned_run[OF demo_fires(1)]
  from fireCourse_stamps[OF run demo_fires(2)] run show ?thesis
    by (auto simp: demoOpenTab_def demoFire_def demoTabLine_def demoWorld_def)
qed

theorem fire_once_witness:
  "\<exists>w1 fo2 w3. w1 = after (fireCourseFor ''g'' demoCashier ''o'' demoFire) demoOpenTab \<and>
     fireCourseFor ''g'' demoCashier ''o'' (demoFire\<lparr>fd_clientMutationId := None\<rparr>) w1 = (Inr fo2, w3) \<and> w_fx w3 = w_fx w1"
proof -
  let ?w1 = "after (fireCourseFor ''g'' demoCashier ''o'' demoFire) demoOpenTab"
  note run = returned_run[OF demo_fires(1)]
  have "returned (fireCourseFor ''g'' demoCashier ''o'' (demoFire\<lparr>fd_clientMutationId := None\<rparr>)) ?w1" by code_simp
  note run2 = returned_run[OF this]
  from fire_once[OF run demo_fires(2) refl _ run2] run2 show ?thesis by auto
qed

theorem paid_pos_order_not_refundable_witness:
  "\<exists>oid w1 e w3. placePosOrder ''g'' demoCashier (demoSale (Some ''cash'')) [demoRow] 30
        (posTender [demoRow] 30 0 False 1800 1000 None 0) None None demoWorld = (Inr oid, w1) \<and>
     refundPaidOrder demoCache (=) demoCashier oid ''1234'' None w1 = (Inl e, w3)"
proof -
  let ?place = "placePosOrder ''g'' demoCashier (demoSale (Some ''cash'')) [demoRow] 30
        (posTender [demoRow] 30 0 False 1800 1000 None 0) None None"
  have "returned ?place demoWorld" by code_simp
  note run = returned_run[OF this]
  obtain x w3 where refund: "refundPaidOrder demoCache (=) demoCashier (answer ?place demoWorld) ''1234'' None (after ?place demoWorld) = (x, w3)"
    by (cases "refundPaidOrder demoCache (=) demoCashier (answer ?place demoWorld) ''1234'' None (after ?place demoWorld)")
  from paid_pos_order_not_refundable[OF run _ _ _ refl refund] run refund show ?thesis
    by (fastforce simp: demoSale_def demoWorld_def demoDb_def)
qed

theorem updateOrderStatus_steps_witness:
  "\<exists>fo w'. updateOrderStatus demoCache demoCashier ''o'' ''preparing'' demoOpenTab = (Inr fo, w') \<and>
     (\<exists>g order nx. findOrder (w_db demoOpenTab) g ''o'' = Some order \<and> status_step (ord_status order) nx)"
proof -
  have "returned (updateOrderStatus demoCache demoCashier ''o'' ''preparing'') demoOpenTab" by code_simp
  note run = returned_run[OF this]
  from updateOrderStatus_steps[OF run] run show ?thesis by blast
qed

theorem status_changes_bounded_witness:
  "\<exists>w'. changeAll demoCache ''o'' [(demoCashier, ''preparing''), (demoCashier, ''ready'')] demoOpenTab = (Inr (), w') \<and>
     (\<exists>order'. findOrder (w_db w') ''g'' ''o'' = Some order' \<and> status_reach Confirmed (ord_status order') 2)"
proof -
  have "returned (changeAll demoCache ''o'' [(demoCashier, ''preparing''), (demoCashier, ''ready'')]) demoOpenTab" by code_simp
  then have run: "changeAll demoCache ''o'' [(demoCashier, ''preparing''), (demoCashier, ''ready'')] demoOpenTab =
      (Inr (), after (changeAll demoCache ''o'' [(demoCashier, ''preparing''), (demoCashier, ''ready'')]) demoOpenTab)"
    by (auto dest: returned_run)
  have o: "findOrder (w_db demoOpenTab) ''g'' ''o'' = Some (demoTab None)" "ord_status (demoTab None) = Confirmed"
    by (simp_all add: demoOpenTab_def findOrder_def demoTab_def)
  from status_changes_bounded[OF run _ _ o(1)] run show ?thesis
    by (simp add: demoCashier_def o(2) numeral_2_eq_2)
qed

section \<open>Managers and the time clock\<close>

theorem verifyManagerPin_sound_witness:
  "\<exists>u w'. verifyManagerPin (=) ''g'' ''1234'' None demoWorld = (Inr (Some u), w') \<and>
     usr_organizationId u = Some ''g'' \<and> usr_role u \<in> set POS_PIN_ROLES"
proof -
  have run: "verifyManagerPin (=) ''g'' ''1234'' None demoWorld = (Inr (Some demoBoss), demoWorld)"
    by (simp add: verifyManagerPin_def verifyOrgPin_def demoWorld_def demoDb_def demoBoss_def
        demoUser_def pinManager_def pinLocked_def pinMatches_def POS_PIN_ROLES_def bindM_def thenM_def)
  from verifyManagerPin_sound[OF run] run show ?thesis by blast
qed

text \<open>A second manager, whose PIN still works after five wrong PINs for the first.\<close>

definition twoBosses :: world where
  "twoBosses = demoWorld\<lparr>w_db := demoDb\<lparr>t_users := [demoBoss, demoUser ''a'' ''admin'' (Some ''9'')]\<rparr>\<rparr>"

definition wrongPins :: "string list" where
  "wrongPins = [''0'', ''0'', ''0'', ''0'', ''0'']"

theorem five_wrong_pins_lock_witness:
  "\<exists>m w3. verifyManagerPin (=) ''g'' ''9'' None (after (enterPins (=) ''g'' ''b'' wrongPins) twoBosses) = (Inr (Some m), w3) \<and>
     usr_id m \<noteq> ''b''"
proof -
  let ?w1 = "after (enterPins (=) ''g'' ''b'' wrongPins) twoBosses"
  have "(case fst (verifyManagerPin (=) ''g'' ''9'' None ?w1) of Inl _ \<Rightarrow> False | Inr m \<Rightarrow> m \<noteq> None)" by code_simp
  then obtain m w3 where m: "verifyManagerPin (=) ''g'' ''9'' None ?w1 = (Inr (Some m), w3)"
    by (cases "verifyManagerPin (=) ''g'' ''9'' None ?w1") (auto split: sum.splits)
  have row: "pinRow twoBosses ''g'' ''b'' = Some demoBoss"
    by (simp add: pinRow_def twoBosses_def demoBoss_def demoUser_def pinManager_def POS_PIN_ROLES_def)
  have run: "enterPins (=) ''g'' ''b'' wrongPins twoBosses = (fst (enterPins (=) ''g'' ''b'' wrongPins twoBosses), ?w1)"
    by (simp add: after_def)
  have "w_now ?w1 = 0" by code_simp
  then have "w_now ?w1 < w_now twoBosses + 15 * 60000" by (simp add: twoBosses_def demoWorld_def)
  from five_wrong_pins_lock[OF row _ _ _ _ _ _ _ run refl this m] m show ?thesis
    by (fastforce simp: twoBosses_def demoBoss_def demoUser_def wrongPins_def)
qed

theorem setPosPin_names_one_witness:
  "\<exists>w1 m w3. setPosPin (=) ''77'' ''b'' ''77'' demoWorld = (Inr (), w1) \<and>
     verifyManagerPin (=) ''g'' ''77'' None w1 = (Inr (Some m), w3) \<and> usr_id m = ''b''"
proof -
  let ?w1 = "after (setPosPin (=) ''77'' ''b'' ''77'') demoWorld"
  have "returned (setPosPin (=) ''77'' ''b'' ''77'') demoWorld" by code_simp
  then have run: "setPosPin (=) ''77'' ''b'' ''77'' demoWorld = (Inr (), ?w1)" by (auto dest: returned_run)
  have "(case fst (verifyManagerPin (=) ''g'' ''77'' None ?w1) of Inl _ \<Rightarrow> False | Inr m \<Rightarrow> m \<noteq> None)" by code_simp
  then obtain m w3 where m: "verifyManagerPin (=) ''g'' ''77'' None ?w1 = (Inr (Some m), w3)"
    by (cases "verifyManagerPin (=) ''g'' ''77'' None ?w1") (auto split: sum.splits)
  have "first_row (\<lambda>u. usr_id u = ''b'') (t_users (w_db demoWorld)) = Some demoBoss"
    by (simp add: demoWorld_def demoDb_def demoUser_def demoBoss_def)
  from setPosPin_names_one[OF run this _ _ refl m] m run show ?thesis
    by (auto simp: demoBoss_def demoUser_def)
qed

theorem clockIn_one_open_witness:
  "\<exists>e w'. clockIn ''g'' ''u'' None demoWorld = (Inr e, w') \<and> openShifts (w_db w') ''g'' ''u'' = [e]"
proof -
  have "returned (clockIn ''g'' ''u'' None) demoWorld" by code_simp
  note run = returned_run[OF this]
  from clockIn_one_open[OF _ run] run show ?thesis
    by (auto simp: openShifts_def demoWorld_def demoDb_def)
qed

end
