(* ===== verification/Register_Cart.thy ===== *)
theory Register_Cart
  imports Money "HOL-Library.Multiset"
begin

text \<open>
  The register's cart (\<open>apps/pos/src/state/cartOps.ts\<close>, with the types of
  \<open>apps/pos/src/types.ts\<close>): lines with an identity of their own, the operations the cashier has
  on them, the totals, the mapping between a cart and the order stored on the device, the delta
  an open tab sends, and split checks. An id that \<open>newLineId\<close> would mint is an argument (or an
  index into a supply of ids); the device's collation order, which \<open>localeCompare\<close> uses, is the
  parameter \<open>collate\<close>, the position of a string in that order.

  Shown here: two lines have the same merge signature exactly when they are interchangeable, and
  every cart operation keeps the ids distinct, the quantities positive and the lines merged.
\<close>

type_synonym local_id = string

section \<open>Types\<close>

record modifier_option =
  opt_id :: local_id
  opt_name :: string
  opt_priceAdjustment :: int

record modifier_group =
  mg_id :: local_id
  mg_name :: string
  mg_isRequired :: bool
  mg_multiSelect :: bool
  mg_maxSelections :: "int option"
  mg_options :: "modifier_option list"

record product =
  prod_id :: local_id
  prod_categoryId :: local_id
  prod_name :: string
  prod_description :: "string option"
  prod_price :: int
  prod_imageUrl :: "string option"
  prod_isAvailable :: bool
  prod_isFavorite :: bool
  prod_sortOrder :: int
  prod_modifiers :: "modifier_group list"
  prod_sku :: "string option"
  prod_isCombo :: bool
  prod_taxExempt :: bool
  prod_stockQuantity :: "int option"
  prod_lowStockThreshold :: "int option"

record selected_modifier =
  sm_modifierId :: local_id
  sm_optionId :: local_id
  sm_name :: string
  sm_priceAdjustment :: int
  sm_quantity :: "int option"

record pos_customer =
  pc_id :: local_id
  pc_name :: string
  pc_phone :: "string option"
  pc_email :: "string option"
  pc_notes :: "string option"
  pc_dirty :: bool
  pc_updatedAt :: int
  pc_loyaltyPoints :: int

record dining_table =
  dt_id :: local_id
  dt_floorPlanId :: local_id
  dt_floorPlanName :: string
  dt_floorPlanWidth :: int
  dt_floorPlanHeight :: int
  dt_name :: string
  dt_capacity :: int
  dt_shape :: string
  dt_status :: string
  dt_activeOrderId :: "local_id option"
  dt_activeOrderTotal :: int
  dt_posX :: int
  dt_posY :: int

record pos_discount =
  rd_id :: local_id
  rd_name :: string
  rd_code :: "string option"
  rd_type :: string
  rd_value :: int
  rd_requiresManager :: bool

record cart_line =
  ln_id :: local_id
  ln_product :: product
  ln_quantity :: int
  ln_notes :: "string option"
  ln_course :: "int option"
  ln_selectedModifiers :: "selected_modifier list option"
  ln_priceOverride :: "int option"
  ln_priceOverrideReason :: "string option"

datatype local_order_status = Held | OpenTab | PendingSync | Synced | SyncFailed | Incoming

record local_order_item =
  li_lineId :: "local_id option"
  li_menuItemId :: local_id
  li_name :: string
  li_unitPrice :: int
  li_quantity :: int
  li_notes :: "string option"
  li_course :: "int option"
  li_firedAt :: "int option"
  li_priceOverride :: "int option"
  li_priceOverrideReason :: "string option"
  li_modifiers :: "selected_modifier list option"

record local_order =
  lo_id :: local_id
  lo_serverId :: "string option"
  lo_ticketNumber :: "int option"
  lo_status :: local_order_status
  lo_items :: "local_order_item list"
  lo_customerId :: "local_id option"
  lo_customerName :: string
  lo_customerPhone :: string
  lo_tableId :: "local_id option"
  lo_tableName :: "string option"
  lo_guests :: "int option"
  lo_orderType :: string
  lo_subtotal :: int
  lo_discountId :: "local_id option"
  lo_discountName :: "string option"
  lo_discountAmount :: int
  lo_taxAmount :: int
  lo_totalAmount :: int
  lo_paymentMethod :: "string option"
  lo_tenderedAmount :: "int option"
  lo_changeAmount :: "int option"
  lo_tipAmount :: int
  lo_serviceChargeAmount :: int
  lo_loyaltyPointsRedeemed :: int
  lo_specialInstructions :: "string option"
  lo_errorMessage :: "string option"
  lo_createdAt :: int
  lo_syncedAt :: "int option"
  lo_tabOpenedAt :: "int option"
  lo_fireMode :: string
  lo_businessDayId :: "local_id option"

section \<open>Line identity\<close>

text \<open>\<open>xs.join(sep)\<close>\<close>

fun js_join :: "string \<Rightarrow> string list \<Rightarrow> string" where
  "js_join sep [] = []"
| "js_join sep [x] = x"
| "js_join sep (x # y # xs) = x @ sep @ js_join sep (y # xs)"

definition modifierKey :: "selected_modifier \<Rightarrow> string" where
  "modifierKey m = sm_optionId m @ ''x'' @ show_int (nvl (sm_quantity m) 1)"

definition mergeSignature :: "(string \<Rightarrow> rat) \<Rightarrow> cart_line \<Rightarrow> string" where
  "mergeSignature collate line =
     (let mods = js_join '','' (sort_key collate (map modifierKey (nvl (ln_selectedModifiers line) [])))
      in js_join ''|'' [prod_id (ln_product line), show_int (nvl (ln_course line) 0),
           nvl (ln_notes line) [], (case ln_priceOverride line of None \<Rightarrow> [] | Some p \<Rightarrow> show_int p), mods])"

definition lineIdForItem :: "local_order_item \<Rightarrow> local_id" where
  "lineIdForItem item = nvl (li_lineId item) (li_menuItemId item @ '':'' @ show_int (nvl (li_course item) 0))"

section \<open>Line transitions\<close>

text \<open>The index of the first element with a property (\<open>findIndex\<close>, \<open>None\<close> for -1).\<close>

fun find_index :: "('a \<Rightarrow> bool) \<Rightarrow> 'a list \<Rightarrow> nat option" where
  "find_index P [] = None"
| "find_index P (x # xs) = (if P x then Some 0 else map_option Suc (find_index P xs))"

text \<open>The line an add would append; it has no price override.\<close>

definition incomingLine ::
  "local_id \<Rightarrow> product \<Rightarrow> int \<Rightarrow> string option \<Rightarrow> int option \<Rightarrow> selected_modifier list option \<Rightarrow> cart_line" where
  "incomingLine newLineId product quantity notes course selectedModifiers =
     \<lparr>ln_id = newLineId, ln_product = product, ln_quantity = quantity, ln_notes = notes,
      ln_course = course, ln_selectedModifiers = selectedModifiers,
      ln_priceOverride = None, ln_priceOverrideReason = None\<rparr>"

definition addLineWithOptions ::
  "(string \<Rightarrow> rat) \<Rightarrow> local_id \<Rightarrow> cart_line list \<Rightarrow> product \<Rightarrow> int \<Rightarrow> string option \<Rightarrow> int option \<Rightarrow>
   selected_modifier list option \<Rightarrow> cart_line list" where
  "addLineWithOptions collate newLineId ls product quantity notes course selectedModifiers =
     (let incoming = incomingLine newLineId product quantity notes course selectedModifiers;
          signature = mergeSignature collate incoming
      in case find_index (\<lambda>l. mergeSignature collate l = signature) ls of
           None \<Rightarrow> ls @ [incoming]
         | Some idx \<Rightarrow> ls[idx := (ls ! idx)\<lparr>ln_quantity := ln_quantity (ls ! idx) + quantity\<rparr>])"

definition addLine :: "(string \<Rightarrow> rat) \<Rightarrow> local_id \<Rightarrow> cart_line list \<Rightarrow> product \<Rightarrow> int option \<Rightarrow> cart_line list" where
  "addLine collate newLineId ls product course = addLineWithOptions collate newLineId ls product 1 None course None"

definition modifierAdjustmentFor :: "cart_line \<Rightarrow> int" where
  "modifierAdjustmentFor line =
     sum_by (\<lambda>m. sm_priceAdjustment m * nvl (sm_quantity m) 1) (nvl (ln_selectedModifiers line) [])"

definition optionIdsFor :: "selected_modifier list option \<Rightarrow> local_id list" where
  "optionIdsFor mods = concat (map (\<lambda>m. replicate (nat (max 1 (nvl (sm_quantity m) 1))) (sm_optionId m)) (nvl mods []))"

definition lineUnitPrice :: "cart_line \<Rightarrow> int" where
  "lineUnitPrice line = nvl (ln_priceOverride line) (prod_price (ln_product line) + modifierAdjustmentFor line)"

definition setLinePriceOverride :: "cart_line list \<Rightarrow> local_id \<Rightarrow> int option \<Rightarrow> string option \<Rightarrow> cart_line list" where
  "setLinePriceOverride ls lineId priceOverride reason =
     update_where (\<lambda>l. ln_id l = lineId)
       (\<lambda>l. l\<lparr>ln_priceOverride := priceOverride, ln_priceOverrideReason := reason\<rparr>) ls"

definition removeLineFrom :: "cart_line list \<Rightarrow> local_id \<Rightarrow> cart_line list" where
  "removeLineFrom ls lineId = filter (\<lambda>l. ln_id l \<noteq> lineId) ls"

definition setLineQuantity :: "cart_line list \<Rightarrow> local_id \<Rightarrow> int \<Rightarrow> cart_line list" where
  "setLineQuantity ls lineId quantity =
     (if quantity \<le> 0 then filter (\<lambda>l. ln_id l \<noteq> lineId) ls
      else update_where (\<lambda>l. ln_id l = lineId) (\<lambda>l. l\<lparr>ln_quantity := quantity\<rparr>) ls)"

definition updateLineDetails ::
  "(string \<Rightarrow> rat) \<Rightarrow> cart_line list \<Rightarrow> local_id \<Rightarrow> int \<Rightarrow> string option \<Rightarrow> int option \<Rightarrow>
   selected_modifier list option \<Rightarrow> cart_line list" where
  "updateLineDetails collate ls lineId quantity notes course selectedModifiers =
     (if quantity \<le> 0 then filter (\<lambda>l. ln_id l \<noteq> lineId) ls
      else let edited = update_where (\<lambda>l. ln_id l = lineId)
             (\<lambda>l. l\<lparr>ln_quantity := quantity, ln_notes := notes, ln_course := course,
                    ln_selectedModifiers := selectedModifiers\<rparr>) ls
        in case find (\<lambda>l. ln_id l = lineId) edited of
             None \<Rightarrow> edited
           | Some target \<Rightarrow>
               let signature = mergeSignature collate target;
                   twins = filter (\<lambda>l. ln_id l \<noteq> lineId \<and> mergeSignature collate l = signature) edited
               in if twins = [] then edited
                  else let absorbed = sum_by ln_quantity twins
                    in update_where (\<lambda>l. ln_id l = lineId) (\<lambda>l. l\<lparr>ln_quantity := ln_quantity l + absorbed\<rparr>)
                         (filter (\<lambda>l. \<not> list_ex (\<lambda>t. ln_id t = ln_id l) twins) edited))"

section \<open>Totals\<close>

record cart_totals =
  ct_subtotal :: int
  ct_discountAmount :: int
  ct_serviceChargeAmount :: int
  ct_taxAmount :: int
  ct_totalAmount :: int
  ct_itemCount :: int

definition cartTotals :: "cart_line list \<Rightarrow> pos_discount option \<Rightarrow> int \<Rightarrow> int \<Rightarrow> bool \<Rightarrow> cart_totals" where
  "cartTotals ls discount taxRateBps serviceChargeBps applyServiceCharge =
     (let subtotal = sum_by (\<lambda>l. lineUnitPrice l * ln_quantity l) ls;
          discountAmount = discountAmountFor (map_option (\<lambda>d. (rd_type d, rd_value d)) discount) subtotal;
          taxableBase = subtotal - discountAmount;
          serviceChargeAmount = (if applyServiceCharge
            then js_round (of_int (taxableBase * serviceChargeBps) / 10000) else 0);
          taxAmount = taxFor (taxableBase + serviceChargeAmount) taxRateBps
      in \<lparr>ct_subtotal = subtotal, ct_discountAmount = discountAmount,
          ct_serviceChargeAmount = serviceChargeAmount, ct_taxAmount = taxAmount,
          ct_totalAmount = taxableBase + serviceChargeAmount + taxAmount,
          ct_itemCount = sum_by ln_quantity ls\<rparr>)"

section \<open>Orders and carts\<close>

definition linesFromOrder :: "local_order \<Rightarrow> cart_line list" where
  "linesFromOrder order =
     map (\<lambda>item. \<lparr>ln_id = lineIdForItem item,
        ln_product = \<lparr>prod_id = li_menuItemId item, prod_categoryId = [], prod_name = li_name item,
          prod_description = None, prod_price = li_unitPrice item, prod_imageUrl = None,
          prod_isAvailable = True, prod_isFavorite = False, prod_sortOrder = 0, prod_modifiers = [],
          prod_sku = None, prod_isCombo = False, prod_taxExempt = False, prod_stockQuantity = None,
          prod_lowStockThreshold = None\<rparr>,
        ln_quantity = li_quantity item, ln_notes = li_notes item, ln_course = li_course item,
        ln_selectedModifiers = li_modifiers item, ln_priceOverride = li_priceOverride item,
        ln_priceOverrideReason = li_priceOverrideReason item\<rparr>) (lo_items order)"

definition customerFromOrder :: "local_order \<Rightarrow> pos_customer option" where
  "customerFromOrder order =
     (if \<not> truthy (lo_customerId order) \<and> lo_customerName order = ''Walk-in'' then None
      else Some \<lparr>pc_id = nvl (lo_customerId order) [], pc_name = lo_customerName order,
        pc_phone = or_null (Some (lo_customerPhone order)), pc_email = None, pc_notes = None,
        pc_dirty = False, pc_updatedAt = lo_createdAt order, pc_loyaltyPoints = 0\<rparr>)"

definition tableFromOrder :: "local_order \<Rightarrow> dining_table option" where
  "tableFromOrder order =
     (if \<not> truthy (lo_tableId order) \<or> \<not> truthy (lo_tableName order) then None
      else Some \<lparr>dt_id = the (lo_tableId order), dt_floorPlanId = [], dt_floorPlanName = [],
        dt_floorPlanWidth = 800, dt_floorPlanHeight = 600, dt_name = the (lo_tableName order),
        dt_capacity = nvl (lo_guests order) 4, dt_shape = ''rectangle'', dt_status = ''vacant'',
        dt_activeOrderId = None, dt_activeOrderTotal = 0, dt_posX = 0, dt_posY = 0\<rparr>)"

text \<open>The cached discounts (\<open>getDiscounts()\<close>) are the first argument.\<close>

definition discountFromOrder :: "pos_discount list \<Rightarrow> local_order \<Rightarrow> pos_discount option" where
  "discountFromOrder cached order =
     (if \<not> truthy (lo_discountId order) then None
      else Some (nvl (find (\<lambda>d. Some (rd_id d) = lo_discountId order) cached)
        \<lparr>rd_id = the (lo_discountId order), rd_name = nvl (lo_discountName order) ''Discount'',
         rd_code = None, rd_type = ''fixed'', rd_value = lo_discountAmount order,
         rd_requiresManager = False\<rparr>))"

text \<open>A line of a delta: what \<open>append\<close> and the server's cart schema take.\<close>

record delta_line =
  dl_menuItemId :: local_id
  dl_quantity :: int
  dl_notes :: "string option"
  dl_course :: "int option"
  dl_optionIds :: "local_id list option"
  dl_priceOverride :: "int option"
  dl_priceOverrideReason :: "string option"

definition linesDelta :: "cart_line list \<Rightarrow> cart_line list \<Rightarrow> delta_line list" where
  "linesDelta baseline current =
     (let before = js_map (map (\<lambda>l. (ln_id l, ln_quantity l)) baseline)
      in concat (map (\<lambda>line.
           let added = ln_quantity line - nvl (before (ln_id line)) 0
           in if 0 < added
              then [\<lparr>dl_menuItemId = prod_id (ln_product line), dl_quantity = added,
                dl_notes = ln_notes line, dl_course = ln_course line,
                dl_optionIds = Some (optionIdsFor (ln_selectedModifiers line)),
                dl_priceOverride = ln_priceOverride line,
                dl_priceOverrideReason = ln_priceOverrideReason line\<rparr>]
              else []) current))"

record cart_snapshot =
  cs_lines :: "cart_line list"
  cs_customer :: "pos_customer option"
  cs_table :: "dining_table option"
  cs_guests :: "int option"
  cs_orderType :: string
  cs_discount :: "pos_discount option"
  cs_resumedOrderId :: "local_id option"
  cs_tabOrderId :: "local_id option"
  cs_tabOpenedAt :: "int option"
  cs_fireMode :: "string option"
  cs_firedAtByLine :: "local_id \<rightharpoonup> int"

text \<open>\<open>now\<close> is the clock, \<open>newId\<close> the id minted when the cart has none, \<open>overrides\<close> the spread of the
  caller's partial order over the result.\<close>

definition buildLocalOrder ::
  "int \<Rightarrow> local_id \<Rightarrow> cart_snapshot \<Rightarrow> int \<Rightarrow> (local_order \<Rightarrow> local_order) \<Rightarrow> local_order" where
  "buildLocalOrder now newId snap taxRateBps overrides =
     (let t = cartTotals (cs_lines snap) (cs_discount snap) taxRateBps 0 False
      in overrides \<lparr>
        lo_id = nvl (cs_tabOrderId snap) (nvl (cs_resumedOrderId snap) newId),
        lo_serverId = None, lo_ticketNumber = None, lo_status = Held,
        lo_items = map (\<lambda>l. \<lparr>li_lineId = Some (ln_id l), li_menuItemId = prod_id (ln_product l),
          li_name = prod_name (ln_product l), li_unitPrice = prod_price (ln_product l),
          li_quantity = ln_quantity l, li_notes = ln_notes l, li_course = ln_course l,
          li_firedAt = cs_firedAtByLine snap (ln_id l), li_priceOverride = ln_priceOverride l,
          li_priceOverrideReason = ln_priceOverrideReason l,
          li_modifiers = ln_selectedModifiers l\<rparr>) (cs_lines snap),
        lo_customerId = or_null (map_option pc_id (cs_customer snap)),
        lo_customerName = or_else (nvl (map_option pc_name (cs_customer snap)) []) ''Walk-in'',
        lo_customerPhone = nvl (Option.bind (cs_customer snap) pc_phone) [],
        lo_tableId = map_option dt_id (cs_table snap),
        lo_tableName = map_option dt_name (cs_table snap),
        lo_guests = cs_guests snap, lo_orderType = cs_orderType snap,
        lo_subtotal = ct_subtotal t, lo_discountId = map_option rd_id (cs_discount snap),
        lo_discountName = map_option rd_name (cs_discount snap),
        lo_discountAmount = ct_discountAmount t, lo_taxAmount = ct_taxAmount t,
        lo_totalAmount = ct_totalAmount t, lo_paymentMethod = None, lo_tenderedAmount = None,
        lo_changeAmount = None, lo_tipAmount = 0, lo_serviceChargeAmount = 0,
        lo_loyaltyPointsRedeemed = 0, lo_specialInstructions = None, lo_errorMessage = None,
        lo_createdAt = now, lo_syncedAt = None, lo_tabOpenedAt = cs_tabOpenedAt snap,
        lo_fireMode = nvl (cs_fireMode snap) ''all'', lo_businessDayId = None\<rparr>)"

section \<open>Split checks\<close>

text \<open>\<open>groups[i].push(x)\<close>: a check that does not exist is a \<open>TypeError\<close>.\<close>

definition pushTo :: "nat \<Rightarrow> 'a \<Rightarrow> 'a list list \<Rightarrow> error + 'a list list" where
  "pushTo i x groups =
     (if i < length groups then Inr (groups[i := groups ! i @ [x]]) else Inl (GenericError ''TypeError''))"

fun pushAll :: "(nat \<times> 'a) list \<Rightarrow> 'a list list \<Rightarrow> error + 'a list list" where
  "pushAll [] groups = Inr groups"
| "pushAll ((i, x) # pieces) groups =
     (case pushTo i x groups of Inl e \<Rightarrow> Inl e | Inr groups' \<Rightarrow> pushAll pieces groups')"

definition selectedChecks :: "bool list option \<Rightarrow> nat list" where
  "selectedChecks flags = (case flags of None \<Rightarrow> [] | Some fs \<Rightarrow> filter (\<lambda>i. fs ! i) [0..<length fs])"

text \<open>The share of position \<open>i\<close> when \<open>amount\<close> is divided into \<open>n\<close> parts, the remainder over the first ones.\<close>

definition shareAt :: "int \<Rightarrow> int \<Rightarrow> nat \<Rightarrow> int" where
  "shareAt amount n i = amount div n + (if int i < amount - amount div n * n then 1 else 0)"

text \<open>
  The pieces of one line and the checks they go to; \<open>ids k\<close>, \<open>ids (k + 1)\<close>, ... are the ids minted
  for them.
\<close>

definition piecesOf :: "(nat \<Rightarrow> local_id) \<Rightarrow> nat \<Rightarrow> cart_line \<Rightarrow> nat list \<Rightarrow> (nat \<times> cart_line) list" where
  "piecesOf ids k line selected =
     (if selected = [] then [(0, line)]
      else let n = int (length selected); base = ln_quantity line div n
        in if base = 0 then
             (let totalCost = lineUnitPrice line * ln_quantity line
              in map (\<lambda>(i, checkIndex). (checkIndex, line\<lparr>ln_id := ids (k + i), ln_quantity := 1,
                   ln_priceOverride := Some (shareAt totalCost n i),
                   ln_priceOverrideReason := Some ''Split check share''\<rparr>)) (enumerate 0 selected))
           else map (\<lambda>(j, checkIndex, quantity). (checkIndex, line\<lparr>ln_id := ids (k + j), ln_quantity := quantity\<rparr>))
             (enumerate 0 (filter (\<lambda>(checkIndex, quantity). 0 < quantity)
               (map (\<lambda>(i, checkIndex). (checkIndex, shareAt (ln_quantity line) n i)) (enumerate 0 selected)))))"

text \<open>The ids the pieces of a line use up: none when the line goes whole to the first check.\<close>

definition idsUsed :: "(nat \<times> cart_line) list \<Rightarrow> nat list \<Rightarrow> nat" where
  "idsUsed pieces selected = (if selected = [] then 0 else length pieces)"

fun splitInto ::
  "(nat \<Rightarrow> local_id) \<Rightarrow> nat \<Rightarrow> cart_line list \<Rightarrow> (local_id \<rightharpoonup> bool list) \<Rightarrow> cart_line list list \<Rightarrow>
   error + cart_line list list" where
  "splitInto ids k [] assignment groups = Inr groups"
| "splitInto ids k (line # ls) assignment groups =
     (let selected = selectedChecks (assignment (ln_id line));
          pieces = piecesOf ids k line selected
      in case pushAll pieces groups of
           Inl e \<Rightarrow> Inl e
         | Inr groups' \<Rightarrow> splitInto ids (k + idsUsed pieces selected) ls assignment groups')"

definition splitLines ::
  "(nat \<Rightarrow> local_id) \<Rightarrow> cart_line list \<Rightarrow> (local_id \<rightharpoonup> bool list) \<Rightarrow> nat \<Rightarrow> error + cart_line list list" where
  "splitLines ids ls assignment checkCount = splitInto ids 0 ls assignment (replicate checkCount [])"

section \<open>Interchangeable lines\<close>

lemma show_int_chars: "c \<in> set (show_int n) \<Longrightarrow> is_digit c \<or> c = CHR ''-''"
  using show_nat_digits by (auto simp: show_int_def list_all_iff split: if_splits)

lemma show_int_nonempty [simp]: "show_int n \<noteq> []"
  by (simp add: show_int_def)

lemma show_int_clean [simp]:
  "CHR ''|'' \<notin> set (show_int n)" "CHR '','' \<notin> set (show_int n)" "CHR ''x'' \<notin> set (show_int n)"
  by (auto dest!: show_int_chars simp: is_digit_def)

lemma show_nat_no_minus: "show_nat m \<noteq> CHR ''-'' # s"
proof
  assume "show_nat m = CHR ''-'' # s"
  then have "is_digit (CHR ''-'')"
    using show_nat_digits[of m] by simp
  then show False by (simp add: is_digit_def)
qed

lemma show_int_inj: "show_int m = show_int n \<longleftrightarrow> m = n"
  using show_nat_no_minus by (auto simp: show_int_def show_nat_inj nat_eq_iff split: if_splits) metis+

lemma split_at_first:
  "c \<notin> set a \<Longrightarrow> c \<notin> set b \<Longrightarrow> a @ c # s = b @ c # t \<longleftrightarrow> a = b \<and> s = t"
proof (induction a arbitrary: b)
  case Nil
  then show ?case by (cases b) auto
next
  case (Cons d a)
  then show ?case by (cases b) auto
qed

lemma split_at_last:
  "c \<notin> set s \<Longrightarrow> c \<notin> set t \<Longrightarrow> a @ c # s = b @ c # t \<longleftrightarrow> a = b \<and> s = t"
  using split_at_first[of c "rev s" "rev t" "rev a" "rev b"]
  by (metis (no_types, lifting) append.assoc append_Cons append_Nil rev.simps(2) rev_append rev_rev_ident set_rev)

lemma js_join_Cons: "xs \<noteq> [] \<Longrightarrow> js_join sep (x # xs) = x @ sep @ js_join sep xs"
  by (cases xs) simp_all

lemma js_join_inj:
  assumes "\<forall>x \<in> set xs \<union> set ys. x \<noteq> [] \<and> c \<notin> set x"
  shows "js_join [c] xs = js_join [c] ys \<longleftrightarrow> xs = ys"
  using assms
proof (induction xs arbitrary: ys)
  case Nil
  then show ?case by (cases ys; cases "tl ys") auto
next
  case (Cons x xs)
  show ?case
  proof (cases ys)
    case (Cons y ys')
    note ys = this
    have c: "c \<notin> set x" "c \<notin> set y"
      using Cons.prems ys by auto
    show ?thesis
    proof (cases "xs = []")
      case True
      with c ys show ?thesis
        by (cases "ys' = []") (auto simp: js_join_Cons)
    next
      case False
      with Cons.prems Cons.IH[of ys'] c ys show ?thesis
        by (cases "ys' = []") (auto simp: js_join_Cons split_at_first)
    qed
  qed (use Cons.prems in \<open>cases xs; auto\<close>)
qed

lemma set_js_join: "set (js_join [c] xs) \<subseteq> insert c (\<Union> (set ` set xs))"
  by (induction "[c]" xs rule: js_join.induct) auto

text \<open>What the signature compares.\<close>

definition modifierUnits :: "cart_line \<Rightarrow> (local_id \<times> int) multiset" where
  "modifierUnits l = mset (map (\<lambda>m. (sm_optionId m, nvl (sm_quantity m) 1)) (nvl (ln_selectedModifiers l) []))"

definition interchangeable :: "cart_line \<Rightarrow> cart_line \<Rightarrow> bool" where
  "interchangeable a b \<longleftrightarrow> prod_id (ln_product a) = prod_id (ln_product b) \<and>
     nvl (ln_course a) 0 = nvl (ln_course b) 0 \<and> nvl (ln_notes a) [] = nvl (ln_notes b) [] \<and>
     ln_priceOverride a = ln_priceOverride b \<and> modifierUnits a = modifierUnits b"

text \<open>Ids as the server mints them, without the characters the signature separates with.\<close>

definition cleanIds :: "cart_line \<Rightarrow> bool" where
  "cleanIds l \<longleftrightarrow> CHR ''|'' \<notin> set (prod_id (ln_product l)) \<and>
     (\<forall>m \<in> set (nvl (ln_selectedModifiers l) []).
        CHR ''|'' \<notin> set (sm_optionId m) \<and> CHR '','' \<notin> set (sm_optionId m))"

lemma modifierKey_inj:
  "modifierKey m = modifierKey m' \<longleftrightarrow>
     (sm_optionId m, nvl (sm_quantity m) 1) = (sm_optionId m', nvl (sm_quantity m') 1)"
  by (simp add: modifierKey_def split_at_last show_int_inj)

lemma mset_modifierKeys:
  "image_mset modifierKey (mset (nvl (ln_selectedModifiers a) [])) =
     image_mset modifierKey (mset (nvl (ln_selectedModifiers b) []))
   \<longleftrightarrow> modifierUnits a = modifierUnits b"
proof -
  let ?k = "\<lambda>p :: local_id \<times> int. fst p @ ''x'' @ show_int (snd p)"
  have inj: "inj ?k"
    by (auto simp: inj_def split_at_last show_int_inj)
  have "image_mset modifierKey (mset (nvl (ln_selectedModifiers l) [])) = image_mset ?k (modifierUnits l)" for l
    by (simp add: modifierUnits_def modifierKey_def[abs_def] multiset.map_comp comp_def)
  then show ?thesis
    using inj_eq[OF multiset.inj_map[OF inj]] by simp
qed

lemma override_field:
  "(case p of None \<Rightarrow> [] | Some i \<Rightarrow> show_int i) = (case q of None \<Rightarrow> [] | Some i \<Rightarrow> show_int i) \<longleftrightarrow> p = q"
  by (auto simp: show_int_inj dest: sym split: option.splits)

lemma sorted_keys_eq:
  assumes "inj collate"
  shows "sort_key collate xs = sort_key collate ys \<longleftrightarrow> mset xs = mset ys"
proof
  assume "mset xs = mset ys"
  then show "sort_key collate xs = sort_key collate ys"
    by (intro sort_key_inj_key_eq) (auto intro: inj_on_subset[OF assms])
next
  assume "sort_key collate xs = sort_key collate ys"
  then show "mset xs = mset ys"
    by (metis mset_sort)
qed

lemma mods_clean:
  assumes "cleanIds l"
  shows "\<forall>x \<in> set (sort_key collate (map modifierKey (nvl (ln_selectedModifiers l) []))).
    x \<noteq> [] \<and> CHR '','' \<notin> set x \<and> CHR ''|'' \<notin> set x"
  using assms by (auto simp: cleanIds_def modifierKey_def)

lemma mods_no_bar:
  assumes "cleanIds l"
  shows "CHR ''|'' \<notin> set (js_join '','' (sort_key collate (map modifierKey (nvl (ln_selectedModifiers l) []))))"
  using mods_clean[OF assms, of collate] set_js_join[of "CHR '',''"] by fastforce

lemma override_clean: "CHR ''|'' \<notin> set (case p of None \<Rightarrow> [] | Some i \<Rightarrow> show_int i)"
  by (simp split: option.splits)

lemma mergeSignature_iff:
  assumes "inj collate" and "cleanIds a" and "cleanIds b"
  shows "mergeSignature collate a = mergeSignature collate b \<longleftrightarrow> interchangeable a b"
proof -
  let ?mods = "\<lambda>l. js_join '','' (sort_key collate (map modifierKey (nvl (ln_selectedModifiers l) [])))"
  let ?over = "\<lambda>l. case ln_priceOverride l of None \<Rightarrow> [] | Some p \<Rightarrow> show_int p"
  have ids: "CHR ''|'' \<notin> set (prod_id (ln_product a))" "CHR ''|'' \<notin> set (prod_id (ln_product b))"
    using assms(2,3) by (simp_all add: cleanIds_def)
  have mods: "?mods a = ?mods b \<longleftrightarrow> modifierUnits a = modifierUnits b"
    using js_join_inj[where c = "CHR '',''"] mods_clean[OF assms(2), of collate] mods_clean[OF assms(3), of collate]
    by (simp add: sorted_keys_eq[OF assms(1)] mset_modifierKeys ball_Un)
  have tail: "nvl (ln_notes a) [] @ CHR ''|'' # ?over a @ CHR ''|'' # ?mods a =
      nvl (ln_notes b) [] @ CHR ''|'' # ?over b @ CHR ''|'' # ?mods b \<longleftrightarrow>
    nvl (ln_notes a) [] = nvl (ln_notes b) [] \<and> ?over a = ?over b \<and> ?mods a = ?mods b"
    using split_at_last[OF mods_no_bar[OF assms(2)] mods_no_bar[OF assms(3)],
        where a = "nvl (ln_notes a) [] @ CHR ''|'' # ?over a" and b = "nvl (ln_notes b) [] @ CHR ''|'' # ?over b"]
      split_at_last[OF override_clean override_clean,
        where a = "nvl (ln_notes a) []" and b = "nvl (ln_notes b) []"]
    by auto
  show ?thesis
    unfolding mergeSignature_def Let_def interchangeable_def
    by (simp add: split_at_first ids tail mods override_field show_int_inj)
qed

lemma mergeSignature_ignores [simp]:
  "mergeSignature collate (l\<lparr>ln_quantity := q\<rparr>) = mergeSignature collate l"
  "mergeSignature collate (l\<lparr>ln_id := i\<rparr>) = mergeSignature collate l"
  by (simp_all add: mergeSignature_def)

section \<open>Carts\<close>

text \<open>
  What the register keeps of a cart: no two lines share an id, every quantity is positive; and, as
  long as no price is overridden, no two lines are interchangeable.
\<close>

definition cart_ok :: "cart_line list \<Rightarrow> bool" where
  "cart_ok ls \<longleftrightarrow> distinct (map ln_id ls) \<and> (\<forall>l \<in> set ls. 0 < ln_quantity l)"

definition lines_merged :: "(string \<Rightarrow> rat) \<Rightarrow> cart_line list \<Rightarrow> bool" where
  "lines_merged collate ls \<longleftrightarrow> distinct (map (mergeSignature collate) ls)"

text \<open>The cashier's operations; an add takes the next id of the supply.\<close>

datatype cart_op =
    AddOp product int "string option" "int option" "selected_modifier list option"
  | QuantityOp local_id int
  | EditOp local_id int "string option" "int option" "selected_modifier list option"
  | RemoveOp local_id
  | OverrideOp local_id "int option" "string option"

fun applyOp :: "(string \<Rightarrow> rat) \<Rightarrow> local_id \<Rightarrow> cart_op \<Rightarrow> cart_line list \<Rightarrow> cart_line list" where
  "applyOp collate i (AddOp p q n c ms) ls = addLineWithOptions collate i ls p q n c ms"
| "applyOp collate i (QuantityOp x q) ls = setLineQuantity ls x q"
| "applyOp collate i (EditOp x q n c ms) ls = updateLineDetails collate ls x q n c ms"
| "applyOp collate i (RemoveOp x) ls = removeLineFrom ls x"
| "applyOp collate i (OverrideOp x p r) ls = setLinePriceOverride ls x p r"

fun applyOps :: "(string \<Rightarrow> rat) \<Rightarrow> (nat \<Rightarrow> local_id) \<Rightarrow> nat \<Rightarrow> cart_op list \<Rightarrow> cart_line list \<Rightarrow> cart_line list" where
  "applyOps collate ids k [] ls = ls"
| "applyOps collate ids k (op # ops) ls = applyOps collate ids (Suc k) ops (applyOp collate (ids k) op ls)"

definition opAdds :: "cart_op \<Rightarrow> bool" where
  "opAdds op = (case op of AddOp _ q _ _ _ \<Rightarrow> 0 < q | _ \<Rightarrow> True)"

definition opMerges :: "cart_op \<Rightarrow> bool" where
  "opMerges op = (case op of OverrideOp _ _ _ \<Rightarrow> False | _ \<Rightarrow> True)"

lemma find_index_None: "find_index P xs = None \<longleftrightarrow> (\<forall>x \<in> set xs. \<not> P x)"
  by (induction xs) auto

lemma find_index_Some: "find_index P xs = Some i \<Longrightarrow> i < length xs \<and> P (xs ! i)"
  by (induction xs arbitrary: i) (auto split: if_splits)

lemma map_list_update_same: "f x = f (xs ! i) \<Longrightarrow> map f (xs[i := x]) = map f xs"
  by (metis list_update_beyond list_update_id map_update not_le nth_map)

lemma addLineWithOptions_cases:
  obtains (new) "mergeSignature collate (incomingLine i p q n c ms) \<notin> mergeSignature collate ` set ls"
      and "addLineWithOptions collate i ls p q n c ms = ls @ [incomingLine i p q n c ms]"
    | (absorbed) j where "j < length ls"
      and "mergeSignature collate (ls ! j) = mergeSignature collate (incomingLine i p q n c ms)"
      and "addLineWithOptions collate i ls p q n c ms = ls[j := (ls ! j)\<lparr>ln_quantity := ln_quantity (ls ! j) + q\<rparr>]"
proof (cases "find_index (\<lambda>l. mergeSignature collate l = mergeSignature collate (incomingLine i p q n c ms)) ls")
  case None
  show ?thesis
  proof (rule new)
    show "mergeSignature collate (incomingLine i p q n c ms) \<notin> mergeSignature collate ` set ls"
      using None by (auto simp: find_index_None)
  qed (simp add: addLineWithOptions_def Let_def None)
next
  case (Some j)
  then show ?thesis
    using find_index_Some[OF Some] by (intro absorbed[of j]) (auto simp: addLineWithOptions_def Let_def)
qed

lemma add_merged: "lines_merged collate ls \<Longrightarrow> lines_merged collate (addLineWithOptions collate i ls p q n c ms)"
  by (rule addLineWithOptions_cases[of collate i p q n c ms ls])
     (auto simp: lines_merged_def map_list_update_same)

lemma add_ok:
  assumes "cart_ok ls" and "0 < q" and "i \<notin> ln_id ` set ls"
  shows "cart_ok (addLineWithOptions collate i ls p q n c ms)"
proof (cases rule: addLineWithOptions_cases[of collate i p q n c ms ls])
  case new
  with assms show ?thesis by (auto simp: cart_ok_def incomingLine_def)
next
  case (absorbed j)
  have "0 < ln_quantity (ls ! j)"
    using assms(1) absorbed(1) by (auto simp: cart_ok_def)
  with assms absorbed show ?thesis
    by (auto simp: cart_ok_def map_list_update_same intro!: add_pos_pos dest!: set_update_subset_insert[THEN subsetD])
qed

lemma add_ids: "ln_id ` set (addLineWithOptions collate i ls p q n c ms) \<subseteq> insert i (ln_id ` set ls)"
  by (rule addLineWithOptions_cases[of collate i p q n c ms ls])
     (auto simp: incomingLine_def dest!: set_update_subset_insert[THEN subsetD])

text \<open>Where a cart has a line with an id, that line is the only one, and the rest is around it.\<close>

lemma cart_split:
  assumes "distinct (map ln_id ls)" and "x \<in> ln_id ` set ls"
  obtains A l B where "ls = A @ l # B" and "ln_id l = x" and "x \<notin> ln_id ` set A" and "x \<notin> ln_id ` set B"
proof -
  from assms(2) obtain l where "l \<in> set ls" "ln_id l = x" by auto
  then obtain A B where "ls = A @ l # B" by (meson split_list)
  with assms(1) \<open>ln_id l = x\<close> show ?thesis
    by (intro that[of A l B]) auto
qed

lemma update_where_id: "\<forall>l \<in> set ls. \<not> P l \<Longrightarrow> update_where P f ls = ls"
  by (induction ls) auto

lemma absent_id: "x \<notin> ln_id ` set ls \<Longrightarrow> update_where (\<lambda>l. ln_id l = x) f ls = ls"
  "x \<notin> ln_id ` set ls \<Longrightarrow> filter (\<lambda>l. ln_id l \<noteq> x) ls = ls"
  "x \<notin> ln_id ` set ls \<Longrightarrow> find (\<lambda>l. ln_id l = x) ls = None"
  by (induction ls) auto

lemma find_append: "find P (xs @ ys) = (case find P xs of None \<Rightarrow> find P ys | Some x \<Rightarrow> Some x)"
  by (induction xs) auto

lemma other_ids: "x \<notin> ln_id ` set ls \<Longrightarrow> filter (\<lambda>l. ln_id l \<noteq> x \<and> P l) ls = filter P ls"
  by (induction ls) auto

definition editedLine ::
  "cart_line \<Rightarrow> int \<Rightarrow> string option \<Rightarrow> int option \<Rightarrow> selected_modifier list option \<Rightarrow> cart_line" where
  "editedLine l q n c ms =
     l\<lparr>ln_quantity := q, ln_notes := n, ln_course := c, ln_selectedModifiers := ms\<rparr>"

text \<open>An edit leaves the lines around the edited one that differ from it, and folds the others in.\<close>

lemma updateLineDetails_run:
  assumes "distinct (map ln_id (A @ l # B))" and "ln_id l = x" and "0 < q"
  shows "updateLineDetails collate (A @ l # B) x q n c ms =
    (let e = editedLine l q n c ms; differs = (\<lambda>t. mergeSignature collate t \<noteq> mergeSignature collate e)
     in filter differs A @
        e\<lparr>ln_quantity := q + sum_by ln_quantity (filter (\<lambda>t. \<not> differs t) (A @ B))\<rparr> # filter differs B)"
proof -
  let ?e = "editedLine l q n c ms"
  let ?same = "\<lambda>t. mergeSignature collate t = mergeSignature collate ?e"
  define twins where "twins = filter ?same (A @ B)"
  have x: "x \<notin> ln_id ` set A" "x \<notin> ln_id ` set B" "ln_id ?e = x"
    using assms(1,2) by (auto simp: editedLine_def)
  have folded: "filter (\<lambda>l. ln_id l \<noteq> x \<and> ?same l) (A @ ?e # B) = twins"
    using x by (simp add: other_ids twins_def)
  have inj: "inj_on ln_id (set (A @ B))"
    by (rule inj_on_subset[OF conjunct2[OF iffD1[OF distinct_map assms(1)]]]) auto
  have twin_iff: "list_ex (\<lambda>t. ln_id t = ln_id y) twins \<longleftrightarrow> ?same y" if "y \<in> set (A @ B)" for y
    using that inj_onD[OF inj, of _ y] unfolding list_ex_iff twins_def by (metis (mono_tags, lifting) mem_Collect_eq set_filter)
  have gone: "\<not> list_ex (\<lambda>t. ln_id t = ln_id ?e) twins"
    using x by (auto simp: list_ex_iff image_iff twins_def dest: sym)
  have rest: "filter (\<lambda>l. \<not> list_ex (\<lambda>t. ln_id t = ln_id l) twins) (A @ ?e # B) =
      filter (\<lambda>t. \<not> ?same t) A @ ?e # filter (\<lambda>t. \<not> ?same t) B"
  proof -
    have "filter (\<lambda>l. \<not> list_ex (\<lambda>t. ln_id t = ln_id l) twins) ys = filter (\<lambda>t. \<not> ?same t) ys"
      if "set ys \<subseteq> set (A @ B)" for ys
      using that twin_iff by (intro filter_cong[OF refl]) blast
    from this[of A] this[of B] show ?thesis
      by (simp add: gone)
  qed
  have upd: "update_where (\<lambda>l. ln_id l = x) f (filter (\<lambda>t. \<not> ?same t) A @ ?e # filter (\<lambda>t. \<not> ?same t) B) =
      filter (\<lambda>t. \<not> ?same t) A @ f ?e # filter (\<lambda>t. \<not> ?same t) B" for f
    using x by (auto simp: image_iff intro!: update_where_id dest: sym)
  have edited: "update_where (\<lambda>l. ln_id l = x)
      (\<lambda>l. l\<lparr>ln_quantity := q, ln_notes := n, ln_course := c, ln_selectedModifiers := ms\<rparr>) (A @ l # B) = A @ ?e # B"
    using x assms(2) by (simp add: absent_id editedLine_def)
  have found: "find (\<lambda>l. ln_id l = x) (A @ ?e # B) = Some ?e"
    using x by (simp add: find_append absent_id)
  have q: "ln_quantity ?e = q" by (simp add: editedLine_def)
  have tw: "filter (\<lambda>t. \<not> (mergeSignature collate t \<noteq> mergeSignature collate ?e)) (A @ B) = twins"
    by (simp add: twins_def)
  have q0: "(q \<le> 0) = False" using assms(3) by simp
  have run: "updateLineDetails collate (A @ l # B) x q n c ms =
      (if twins = [] then A @ ?e # B
       else filter (\<lambda>t. \<not> ?same t) A @
            ?e\<lparr>ln_quantity := ln_quantity ?e + sum_by ln_quantity twins\<rparr> # filter (\<lambda>t. \<not> ?same t) B)"
    by (simp only: updateLineDetails_def Let_def edited found folded option.case q0 if_False rest upd)
  show ?thesis
  proof (cases "twins = []")
    case True
    then have "filter (\<lambda>t. \<not> ?same t) A = A" "filter (\<lambda>t. \<not> ?same t) B = B"
      by (auto simp: twins_def filter_empty_conv intro!: filter_True)
    moreover have "?e\<lparr>ln_quantity := q\<rparr> = ?e"
      by (simp add: editedLine_def)
    ultimately show ?thesis
      using True unfolding run Let_def tw by simp
  next
    case False
    then show ?thesis
      using q unfolding run Let_def tw by simp
  qed
qed

lemma updateLineDetails_absent:
  assumes "x \<notin> ln_id ` set ls"
  shows "updateLineDetails collate ls x q n c ms = ls"
  using assms by (simp add: updateLineDetails_def absent_id)

lemma edit_ok:
  assumes "cart_ok ls"
  shows "cart_ok (updateLineDetails collate ls x q n c ms)"
    and "lines_merged collate ls \<Longrightarrow> lines_merged collate (updateLineDetails collate ls x q n c ms)"
    and "ln_id ` set (updateLineDetails collate ls x q n c ms) \<subseteq> ln_id ` set ls"
proof -
  let ?ls' = "updateLineDetails collate ls x q n c ms"
  have "cart_ok ?ls' \<and> (lines_merged collate ls \<longrightarrow> lines_merged collate ?ls') \<and> ln_id ` set ?ls' \<subseteq> ln_id ` set ls"
  proof (cases "0 < q \<and> x \<in> ln_id ` set ls")
    case True
    then obtain A l B where s: "ls = A @ l # B" "ln_id l = x" "x \<notin> ln_id ` set A" "x \<notin> ln_id ` set B"
      using assms cart_split unfolding cart_ok_def by metis
    have "0 \<le> sum_by ln_quantity (filter P (A @ B))" for P
      using assms s(1) by (intro sum_by_nonneg) (auto simp: cart_ok_def intro: less_imp_le)
    then have pos: "0 < q + sum_by ln_quantity (filter P (A @ B))" for P
      using True by (simp add: add_pos_nonneg del: filter_append)
    have d: "distinct (map ln_id (A @ l # B))"
      using assms s(1) by (simp add: cart_ok_def)
    have e: "ln_id (editedLine l q n c ms) = x"
      using s(2) by (simp add: editedLine_def)
    show ?thesis
      using assms True pos s(3,4) unfolding s(1) updateLineDetails_run[OF d s(2) conjunct1[OF True]]
      by (auto simp: cart_ok_def lines_merged_def Let_def e s(2) distinct_map_filter simp del: filter_append)
  next
    case False
    then show ?thesis
      using assms by (auto simp: updateLineDetails_def cart_ok_def lines_merged_def absent_id distinct_map_filter)
  qed
  then show "cart_ok ?ls'" "lines_merged collate ls \<Longrightarrow> lines_merged collate ?ls'" "ln_id ` set ?ls' \<subseteq> ln_id ` set ls"
    by auto
qed

lemma quantity_ok:
  assumes "cart_ok ls"
  shows "cart_ok (setLineQuantity ls x q)"
    and "lines_merged collate ls \<Longrightarrow> lines_merged collate (setLineQuantity ls x q)"
    and "ln_id ` set (setLineQuantity ls x q) \<subseteq> ln_id ` set ls"
  using assms
  by (auto simp: setLineQuantity_def cart_ok_def lines_merged_def set_update_where map_update_where distinct_map_filter)

lemma remove_ok:
  assumes "cart_ok ls"
  shows "cart_ok (removeLineFrom ls x)"
    and "lines_merged collate ls \<Longrightarrow> lines_merged collate (removeLineFrom ls x)"
    and "ln_id ` set (removeLineFrom ls x) \<subseteq> ln_id ` set ls"
  using assms by (auto simp: removeLineFrom_def cart_ok_def lines_merged_def distinct_map_filter)

lemma override_ok:
  assumes "cart_ok ls"
  shows "cart_ok (setLinePriceOverride ls x p r)"
    and "ln_id ` set (setLinePriceOverride ls x p r) \<subseteq> ln_id ` set ls"
  using assms
  by (auto simp: setLinePriceOverride_def cart_ok_def set_update_where map_update_where)

lemma applyOp_ok:
  assumes "cart_ok ls" and "opAdds op" and "i \<notin> ln_id ` set ls"
  shows "cart_ok (applyOp collate i op ls)"
    and "opMerges op \<Longrightarrow> lines_merged collate ls \<Longrightarrow> lines_merged collate (applyOp collate i op ls)"
    and "ln_id ` set (applyOp collate i op ls) \<subseteq> insert i (ln_id ` set ls)"
proof -
  show "cart_ok (applyOp collate i op ls)"
    using assms by (cases op) (simp_all add: opAdds_def add_ok edit_ok(1) quantity_ok(1) remove_ok(1) override_ok(1))
  show "lines_merged collate (applyOp collate i op ls)" if "opMerges op" "lines_merged collate ls"
    using assms that by (cases op) (simp_all add: opMerges_def add_merged edit_ok(2) quantity_ok(2) remove_ok(2))
  show "ln_id ` set (applyOp collate i op ls) \<subseteq> insert i (ln_id ` set ls)"
    using assms(1) add_ids edit_ok(3) quantity_ok(3) remove_ok(3) override_ok(2)
    by (cases op) (simp_all add: subset_insertI2)
qed

lemma applyOps_ok:
  assumes "cart_ok ls" and "list_all opAdds ops" and "inj ids" and "ln_id ` set ls \<subseteq> ids ` {..<k}"
  shows "cart_ok (applyOps collate ids k ops ls) \<and>
    (list_all opMerges ops \<longrightarrow> lines_merged collate ls \<longrightarrow> lines_merged collate (applyOps collate ids k ops ls))"
  using assms(1,2,4)
proof (induction ops arbitrary: k ls)
  case (Cons op ops)
  have new: "ids k \<notin> ln_id ` set ls"
    using Cons.prems(3) inj_image_mem_iff[OF assms(3), of k "{..<k}"] by auto
  note ok = applyOp_ok[OF Cons.prems(1) _ new, of op collate]
  have "ln_id ` set (applyOp collate (ids k) op ls) \<subseteq> ids ` {..<Suc k}"
    using ok(3) Cons.prems(2,3) by (auto simp: lessThan_Suc)
  then show ?case
    using Cons.IH[of "applyOp collate (ids k) op ls" "Suc k"] ok(1,2) Cons.prems(2) by auto
qed simp

text \<open>
  C19. Whatever the cashier does to a cart, no two of its lines share an id and every quantity is
  positive; and unless a price was overridden, no two of its lines are interchangeable: what a
  guest ordered twice is one line, and what differs in any respect is two.
\<close>

theorem cart_stays_merged:
  assumes "inj ids" and "inj collate" and "list_all opAdds ops"
    and "ls = applyOps collate ids 0 ops []" and "\<forall>l \<in> set ls. cleanIds l"
  shows "distinct (map ln_id ls) \<and> (\<forall>l \<in> set ls. 0 < ln_quantity l) \<and>
    (list_all opMerges ops \<longrightarrow>
       (\<forall>i < length ls. \<forall>j < length ls. interchangeable (ls ! i) (ls ! j) \<longleftrightarrow> i = j))"
proof -
  have ok: "cart_ok ls \<and> (list_all opMerges ops \<longrightarrow> lines_merged collate ls)"
    using applyOps_ok[of "[]" ops ids 0 collate] assms(1,3,4) by (simp add: cart_ok_def lines_merged_def)
  have "interchangeable (ls ! i) (ls ! j) \<longleftrightarrow> i = j"
    if "list_all opMerges ops" "i < length ls" "j < length ls" for i j
  proof -
    have "interchangeable (ls ! i) (ls ! j) \<longleftrightarrow> mergeSignature collate (ls ! i) = mergeSignature collate (ls ! j)"
      using mergeSignature_iff[OF assms(2)] assms(5) that by simp
    also have "\<dots> \<longleftrightarrow> i = j"
      using ok that nth_eq_iff_index_eq[of "map (mergeSignature collate) ls" i j] by (simp add: lines_merged_def)
    finally show ?thesis .
  qed
  with ok show ?thesis
    by (auto simp: cart_ok_def)
qed

section \<open>What a split keeps\<close>

definition lineCost :: "cart_line \<Rightarrow> int" where
  "lineCost l = lineUnitPrice l * ln_quantity l"

lemma lineUnitPrice_ignores [simp]:
  "lineUnitPrice (l\<lparr>ln_quantity := q\<rparr>) = lineUnitPrice l"
  "lineUnitPrice (l\<lparr>ln_id := i\<rparr>) = lineUnitPrice l"
  "lineUnitPrice (l\<lparr>ln_priceOverrideReason := r\<rparr>) = lineUnitPrice l"
  "lineUnitPrice (l\<lparr>ln_priceOverride := Some p\<rparr>) = p"
  by (simp_all add: lineUnitPrice_def modifierAdjustmentFor_def)

lemma pushTo_Inr: "pushTo i x gs = Inr gs' \<longleftrightarrow> i < length gs \<and> gs' = gs[i := gs ! i @ [x]]"
  by (auto simp: pushTo_def)

lemma sum_push: "i < length gs \<Longrightarrow> sum_by (sum_by f) (gs[i := gs ! i @ [x]]) = sum_by (sum_by f) gs + f x"
  by (induction gs arbitrary: i) (auto split: nat.splits simp: less_Suc_eq_0_disj)

lemma pushAll_Inr:
  "pushAll pieces gs = Inr gs' \<Longrightarrow>
     length gs' = length gs \<and> (\<forall>p \<in> set pieces. fst p < length gs) \<and>
     sum_by (sum_by f) gs' = sum_by (sum_by f) gs + sum_by (\<lambda>p. f (snd p)) pieces"
  by (induction pieces gs rule: pushAll.induct) (auto simp: pushTo_Inr sum_push split: sum.splits)

lemma pushAll_total:
  "\<forall>p \<in> set pieces. fst p < length gs \<Longrightarrow> \<exists>gs'. pushAll pieces gs = Inr gs'"
  by (induction pieces gs rule: pushAll.induct) (auto simp: pushTo_def)

lemma sum_first_ones: "0 \<le> r \<Longrightarrow> sum_by (\<lambda>i. if int i < r then 1 else 0) [0..<n] = min (int n) r"
  by (induction n) auto

lemma sum_by_const: "sum_by (\<lambda>_. c) xs = int (length xs) * c"
  by (induction xs) (auto simp: algebra_simps)

lemma sum_shares:
  assumes "0 < n"
  shows "sum_by (shareAt a (int n)) [0..<n] = a"
proof -
  let ?r = "a - a div int n * int n"
  have r: "?r = a mod int n" by (simp add: minus_div_mult_eq_mod)
  have "sum_by (shareAt a (int n)) [0..<n] = int n * (a div int n) + min (int n) ?r"
    unfolding shareAt_def using sum_first_ones[of ?r n] assms
    by (simp add: sum_by_add sum_by_const r)
  also have "\<dots> = a"
    using assms pos_mod_bound[of "int n" a] unfolding r by simp
  finally show ?thesis .
qed

lemma sum_by_enumerate: "sum_by (\<lambda>p. f (fst p)) (enumerate 0 xs) = sum_by f [0..<length xs]"
  using sum_by_map[of f fst "enumerate 0 xs"] by (simp add: comp_def del: sum_by_map)

lemma filter_all_positive:
  assumes "0 < n" and "0 \<le> a" and "a div n \<noteq> 0"
  shows "filter (\<lambda>(c, q). 0 < q) (map (\<lambda>(i, c). (c, shareAt a n i)) xs) = map (\<lambda>(i, c). (c, shareAt a n i)) xs"
proof -
  have "0 < a div n"
    using assms pos_imp_zdiv_nonneg_iff[of n a] by linarith
  then show ?thesis
    by (auto simp: shareAt_def intro!: filter_True)
qed

lemma sum_by_mult: "sum_by (\<lambda>x. c * f x) xs = c * sum_by f xs"
  by (induction xs) (simp_all add: algebra_simps)

text \<open>The pieces of a line together cost what the line costs.\<close>

lemma sum_pieces:
  assumes "0 \<le> ln_quantity line"
  shows "sum_by (\<lambda>p. lineCost (snd p)) (piecesOf ids k line selected) = lineCost line"
proof (cases "selected = []")
  case False
  let ?n = "int (length selected)"
  have n: "0 < length selected" using False by simp
  show ?thesis
  proof (cases "ln_quantity line div ?n = 0")
    case True
    then show ?thesis
      using False sum_shares[OF n, of "lineCost line"]
      by (simp add: piecesOf_def Let_def comp_def case_prod_unfold lineCost_def sum_by_enumerate)
  next
    case False
    let ?pieces = "map (\<lambda>(i, c). (c, shareAt (ln_quantity line) ?n i)) (enumerate 0 selected)"
    have "sum_by (\<lambda>p. lineCost (snd p)) (piecesOf ids k line selected) =
        sum_by (\<lambda>p. lineUnitPrice line * snd (snd p)) (enumerate 0 ?pieces)"
      using False n assms by (simp add: piecesOf_def Let_def filter_all_positive[unfolded case_prod_unfold] comp_def case_prod_unfold lineCost_def)
    also have "\<dots> = sum_by (\<lambda>p. lineUnitPrice line * snd p) ?pieces"
      using sum_by_map[of "\<lambda>p. lineUnitPrice line * snd p" snd "enumerate 0 ?pieces"]
      by (simp add: comp_def del: sum_by_map)
    also have "\<dots> = lineUnitPrice line * sum_by (shareAt (ln_quantity line) ?n) [0..<length selected]"
      by (simp add: comp_def case_prod_unfold sum_by_mult sum_by_enumerate)
    finally show ?thesis
      using sum_shares[OF n] by (simp add: lineCost_def)
  qed
qed (simp add: piecesOf_def)

lemma splitInto_keeps:
  assumes "splitInto ids k ls assignment gs = Inr gs'" and "\<forall>l \<in> set ls. 0 \<le> ln_quantity l"
  shows "length gs' = length gs \<and>
    sum_by (sum_by lineCost) gs' = sum_by (sum_by lineCost) gs + sum_by lineCost ls"
  using assms
proof (induction ids k ls assignment gs rule: splitInto.induct)
  case (2 ids k line ls assignment gs)
  let ?sel = "selectedChecks (assignment (ln_id line))"
  let ?pieces = "piecesOf ids k line ?sel"
  from 2(2) obtain gs1 where p: "pushAll ?pieces gs = Inr gs1"
    and rest: "splitInto ids (k + idsUsed ?pieces ?sel) ls assignment gs1 = Inr gs'"
    by (auto simp: Let_def split: sum.splits)
  have "sum_by (\<lambda>p. lineCost (snd p)) ?pieces = lineCost line"
    using 2(3) by (intro sum_pieces) simp
  then show ?case
    using 2(1)[OF refl refl p rest] 2(3) pushAll_Inr[OF p, of lineCost] by simp
qed simp

lemma enumerate_mem: "(i, x) \<in> set (enumerate n xs) \<Longrightarrow> x \<in> set xs"
  by (induction xs arbitrary: n) auto

lemma fst_pieces: "p \<in> set (piecesOf ids k line sel) \<Longrightarrow> fst p \<in> (if sel = [] then {0} else set sel)"
  by (auto simp: piecesOf_def Let_def split: if_splits dest!: enumerate_mem)

lemma selected_lt: "i \<in> set (selectedChecks flags) \<Longrightarrow> \<exists>fs. flags = Some fs \<and> i < length fs"
  by (auto simp: selectedChecks_def split: option.splits)

lemma splitInto_total:
  assumes "\<forall>l \<in> set ls. \<forall>fs. assignment (ln_id l) = Some fs \<longrightarrow> length fs \<le> length gs" and "gs \<noteq> []"
  shows "\<exists>gs'. splitInto ids k ls assignment gs = Inr gs'"
  using assms
proof (induction ids k ls assignment gs rule: splitInto.induct)
  case (2 ids k line ls assignment gs)
  let ?sel = "selectedChecks (assignment (ln_id line))"
  have "\<forall>p \<in> set (piecesOf ids k line ?sel). fst p < length gs"
  proof
    fix p
    assume "p \<in> set (piecesOf ids k line ?sel)"
    then have p: "fst p \<in> (if ?sel = [] then {0} else set ?sel)" by (rule fst_pieces)
    show "fst p < length gs"
    proof (cases "?sel = []")
      case False
      with p obtain fs where "assignment (ln_id line) = Some fs" "fst p < length fs"
        using selected_lt by auto
      with 2(2) show ?thesis by fastforce
    qed (use p 2(3) in auto)
  qed
  then obtain gs1 where p: "pushAll (piecesOf ids k line ?sel) gs = Inr gs1"
    using pushAll_total by blast
  have "length gs1 = length gs" using pushAll_Inr[OF p] by blast
  with 2(1)[OF refl refl p] 2(2,3)
  obtain gs' where "splitInto ids (k + idsUsed (piecesOf ids k line ?sel) ?sel) ls assignment gs1 = Inr gs'"
    by (metis length_0_conv list.set_intros(2))
  then show ?case
    by (simp add: Let_def p)
qed simp

text \<open>
  A split bill: when every assignment names only checks that exist, the split returns that many
  checks, and together they cost exactly what the cart costs, to the cent.
\<close>

theorem splitLines_conserves:
  assumes "0 < n" and "\<forall>l \<in> set ls. 0 \<le> ln_quantity l"
    and "\<forall>l \<in> set ls. \<forall>fs. assignment (ln_id l) = Some fs \<longrightarrow> length fs \<le> n"
  shows "\<exists>checks. splitLines ids ls assignment n = Inr checks \<and> length checks = n \<and>
    sum_by (\<lambda>check. ct_subtotal (cartTotals check None tax svc b)) checks =
      ct_subtotal (cartTotals ls None tax svc b)"
proof -
  have zero: "sum_by (sum_by lineCost) (replicate n []) = 0"
    by (induction n) auto
  obtain checks where c: "splitLines ids ls assignment n = Inr checks"
    using splitInto_total[of ls assignment "replicate n []"] assms(1,3) unfolding splitLines_def by fastforce
  moreover have "ct_subtotal (cartTotals check None tax svc b) = sum_by lineCost check" for check
    by (simp add: cartTotals_def Let_def lineCost_def[abs_def])
  ultimately show ?thesis
    using splitInto_keeps[OF c[unfolded splitLines_def] assms(2)] zero by simp
qed

section \<open>What an open tab sends\<close>

lemma js_map_distinct:
  assumes "distinct (map fst kvs)"
  shows "js_map kvs k = map_of kvs k"
  using assms map_of_inject_set[of "rev kvs" kvs] by (simp add: js_map_def rev_map[symmetric])

text \<open>The quantity of an item in a cart and in a delta.\<close>

definition unitsIn :: "cart_line list \<Rightarrow> local_id \<Rightarrow> int" where
  "unitsIn ls i = sum_by ln_quantity (filter (\<lambda>l. prod_id (ln_product l) = i) ls)"

definition unitsSent :: "delta_line list \<Rightarrow> local_id \<Rightarrow> int" where
  "unitsSent ds i = sum_by dl_quantity (filter (\<lambda>d. dl_menuItemId d = i) ds)"

text \<open>The quantity a line had when the tab was loaded.\<close>

definition baselineQuantity :: "cart_line list \<Rightarrow> local_id \<Rightarrow> int" where
  "baselineQuantity baseline x = nvl (js_map (map (\<lambda>l. (ln_id l, ln_quantity l)) baseline) x) 0"

lemma baselineQuantity_mem:
  assumes "distinct (map ln_id baseline)" and "b \<in> set baseline"
  shows "baselineQuantity baseline (ln_id b) = ln_quantity b"
proof -
  have d: "distinct (map fst (map (\<lambda>l. (ln_id l, ln_quantity l)) baseline))"
    using assms(1) by (simp add: comp_def)
  have "map_of (map (\<lambda>l. (ln_id l, ln_quantity l)) baseline) (ln_id b) = Some (ln_quantity b)"
    using assms(2) by (intro map_of_is_SomeI[OF d]) auto
  then show ?thesis
    by (simp only: baselineQuantity_def js_map_distinct[OF d] nvl_simps)
qed

lemma baselineQuantity_absent: "x \<notin> ln_id ` set baseline \<Longrightarrow> baselineQuantity baseline x = 0"
  by (cases "js_map (map (\<lambda>l. (ln_id l, ln_quantity l)) baseline) x")
     (auto simp: baselineQuantity_def dest!: js_map_SomeD)

lemma unitsSent_delta:
  "unitsSent (linesDelta baseline current) i =
     sum_by (\<lambda>l. max 0 (ln_quantity l - baselineQuantity baseline (ln_id l)))
       (filter (\<lambda>l. prod_id (ln_product l) = i) current)"
  by (induction current) (auto simp: unitsSent_def linesDelta_def baselineQuantity_def Let_def)

lemma sum_by_set:
  assumes "distinct (map ln_id ls)"
  shows "sum_by f (filter P ls) = (\<Sum>l \<in> {l \<in> set ls. P l}. f l)"
  using assms by (simp add: sum_by_def sum_list_distinct_conv_sum_set distinct_map)

text \<open>A cart that grew: every line of the baseline is still there, with the same item and no less of it.\<close>

definition grew :: "cart_line list \<Rightarrow> cart_line list \<Rightarrow> bool" where
  "grew baseline current \<longleftrightarrow> (\<forall>b \<in> set baseline. \<exists>c \<in> set current. ln_id c = ln_id b \<and>
     prod_id (ln_product c) = prod_id (ln_product b) \<and> ln_quantity b \<le> ln_quantity c)"

lemma grew_unique:
  assumes "grew baseline current" and "distinct (map ln_id current)"
    and "b \<in> set baseline" and "c \<in> set current" and "ln_id c = ln_id b"
  shows "prod_id (ln_product c) = prod_id (ln_product b) \<and> ln_quantity b \<le> ln_quantity c"
  using assms unfolding grew_def by (metis distinct_map inj_onD)

lemma baseline_units:
  assumes "distinct (map ln_id baseline)" and "distinct (map ln_id current)" and "grew baseline current"
  shows "(\<Sum>l \<in> {l \<in> set current. prod_id (ln_product l) = i}. baselineQuantity baseline (ln_id l)) = unitsIn baseline i"
proof -
  let ?of = "\<lambda>ls. {l \<in> set ls. prod_id (ln_product l) = i}"
  let ?g = "baselineQuantity baseline"
  have inj: "inj_on ln_id (?of ls)" if "distinct (map ln_id ls)" for ls
    using that by (auto simp: distinct_map inj_on_def)
  have sub: "ln_id ` ?of baseline \<subseteq> ln_id ` ?of current"
    using assms(3) unfolding grew_def by (fastforce simp: image_iff)
  have zero: "?g x = 0" if "x \<in> ln_id ` ?of current - ln_id ` ?of baseline" for x
  proof (rule baselineQuantity_absent, rule notI)
    assume "x \<in> ln_id ` set baseline"
    with that show False
      using grew_unique[OF assms(3,2)] by (auto simp: image_iff)
  qed
  have "(\<Sum>l \<in> ?of current. ?g (ln_id l)) = (\<Sum>x \<in> ln_id ` ?of current. ?g x)"
    using inj[OF assms(2)] by (simp add: sum.reindex)
  also have "\<dots> = (\<Sum>x \<in> ln_id ` ?of baseline. ?g x)"
    using sub zero by (intro sum.mono_neutral_right) auto
  also have "\<dots> = (\<Sum>l \<in> ?of baseline. ?g (ln_id l))"
    using inj[OF assms(1)] by (simp add: sum.reindex)
  also have "\<dots> = unitsIn baseline i"
    using assms(1) by (auto simp: unitsIn_def sum_by_set baselineQuantity_mem intro!: sum.cong)
  finally show ?thesis .
qed

text \<open>
  What an open tab sends: when lines were only added and quantities only raised, the units of
  every item the server was told before plus the units in the delta are the units in the cart.
\<close>

theorem linesDelta_accounts:
  assumes "distinct (map ln_id baseline)" and "distinct (map ln_id current)" and "grew baseline current"
    and "\<forall>l \<in> set current. 0 < ln_quantity l"
  shows "unitsIn baseline i + unitsSent (linesDelta baseline current) i = unitsIn current i \<and>
    (\<forall>d \<in> set (linesDelta baseline current). 0 < dl_quantity d)"
proof -
  let ?of = "{l \<in> set current. prod_id (ln_product l) = i}"
  let ?g = "\<lambda>l. baselineQuantity baseline (ln_id l)"
  have le: "?g l \<le> ln_quantity l" if "l \<in> set current" for l
  proof (cases "ln_id l \<in> ln_id ` set baseline")
    case True
    then obtain b where b: "b \<in> set baseline" "ln_id b = ln_id l" by auto
    then show ?thesis
      using grew_unique[OF assms(3,2) b(1) that] baselineQuantity_mem[OF assms(1) b(1)] by simp
  next
    case False
    then show ?thesis
      using baselineQuantity_absent assms(4) that by (simp add: less_imp_le)
  qed
  have "unitsSent (linesDelta baseline current) i = (\<Sum>l \<in> ?of. ln_quantity l - ?g l)"
    using le by (simp add: unitsSent_delta sum_by_set[OF assms(2)] max_def)
  also have "\<dots> = unitsIn current i - unitsIn baseline i"
    using baseline_units[OF assms(1-3), of i] by (simp add: sum_subtractf unitsIn_def sum_by_set[OF assms(2)])
  finally show ?thesis
    by (auto simp: linesDelta_def Let_def split: if_splits)
qed

section \<open>A stored order is the cart it was built from\<close>

text \<open>A line read back from an order keeps everything but the parts of its product no total reads.\<close>

definition sameLine :: "cart_line \<Rightarrow> cart_line \<Rightarrow> bool" where
  "sameLine a b \<longleftrightarrow> ln_id a = ln_id b \<and> ln_quantity a = ln_quantity b \<and> ln_notes a = ln_notes b \<and>
     ln_course a = ln_course b \<and> ln_selectedModifiers a = ln_selectedModifiers b \<and>
     ln_priceOverride a = ln_priceOverride b \<and> ln_priceOverrideReason a = ln_priceOverrideReason b \<and>
     prod_id (ln_product a) = prod_id (ln_product b) \<and> prod_name (ln_product a) = prod_name (ln_product b) \<and>
     prod_price (ln_product a) = prod_price (ln_product b)"

lemma linesFromOrder_same:
  assumes "lo_items (ov x) = lo_items x"
    and "x = buildLocalOrder now i snap tax id"
  shows "list_all2 sameLine (linesFromOrder (buildLocalOrder now i snap tax ov)) (cs_lines snap)"
  using assms
  by (simp add: buildLocalOrder_def Let_def linesFromOrder_def list_all2_conv_all_nth sameLine_def lineIdForItem_def)

lemma sameLine_unit: "sameLine a b \<Longrightarrow> lineUnitPrice a = lineUnitPrice b"
  by (simp add: sameLine_def lineUnitPrice_def modifierAdjustmentFor_def)

lemma sameLine_quantity: "sameLine a b \<Longrightarrow> ln_quantity a = ln_quantity b"
  by (simp add: sameLine_def)

lemma same_totals: "list_all2 sameLine ls ls' \<Longrightarrow> cartTotals ls d t s b = cartTotals ls' d t s b"
proof -
  assume a: "list_all2 sameLine ls ls'"
  then have "sum_by (\<lambda>l. lineUnitPrice l * ln_quantity l) ls = sum_by (\<lambda>l. lineUnitPrice l * ln_quantity l) ls'"
    "sum_by ln_quantity ls = sum_by ln_quantity ls'"
    by (induction ls ls' rule: list_all2_induct) (auto simp: sameLine_unit sameLine_quantity)
  then show ?thesis by (simp add: cartTotals_def)
qed

lemma same_baseline:
  "list_all2 sameLine ls ls' \<Longrightarrow> map (\<lambda>l. (ln_id l, ln_quantity l)) ls = map (\<lambda>l. (ln_id l, ln_quantity l)) ls'"
  by (induction ls ls' rule: list_all2_induct) (auto simp: sameLine_def)

text \<open>
  C20. Saving a cart as an order and loading it again loses nothing the bill or the kitchen depends
  on: the same lines in the same order, the same totals under every discount and rate, and, the
  ids being distinct, nothing to send: reopening a tab does not fire its lines again.
\<close>

theorem saved_cart_reloads:
  assumes "distinct (map ln_id (cs_lines snap))"
    and "order = buildLocalOrder now i snap tax ov"
    and "lo_items (ov (buildLocalOrder now i snap tax id)) = lo_items (buildLocalOrder now i snap tax id)"
  shows "list_all2 sameLine (linesFromOrder order) (cs_lines snap) \<and>
    cartTotals (linesFromOrder order) d t s b = cartTotals (cs_lines snap) d t s b \<and>
    linesDelta (linesFromOrder order) (cs_lines snap) = []"
proof -
  have same: "list_all2 sameLine (linesFromOrder order) (cs_lines snap)"
    using linesFromOrder_same[where ov = ov and x = "buildLocalOrder now i snap tax id"] assms(2,3) by simp
  have "baselineQuantity (linesFromOrder order) (ln_id l) = ln_quantity l" if "l \<in> set (cs_lines snap)" for l
    using baselineQuantity_mem[OF assms(1) that] by (simp add: baselineQuantity_def same_baseline[OF same])
  then have "linesDelta (linesFromOrder order) (cs_lines snap) = []"
    by (simp add: linesDelta_def Let_def baselineQuantity_def)
  with same same_totals[OF same] show ?thesis by blast
qed

end
