(* ===== verification/Register_DB.thy ===== *)
theory Register_DB
  imports Register_Cart "HOL-Library.List_Lexorder" "HOL-Library.Char_ord"
begin

text \<open>
  The register's own SQLite database (\<open>apps/pos/src/db/database.ts\<close>): one record per row, a
  table is the list of its rows in rowid order, \<open>ORDER BY\<close> is a stable sort, a JSON column that
  does not parse is \<open>None\<close>. Timestamps are milliseconds: the ISO strings the register compares
  sort as the instants they name. The clock and the supply of ids (\<open>newId\<close>) are part of the state.
  The cached menu, customers and tables are replaced by every pull; the orders, the outbox, the
  drawer, the business days, the stations and the print jobs live on the device alone.
\<close>

section \<open>Rows\<close>

record order_db_row =
  ro_id :: local_id
  ro_server_id :: "string option"
  ro_ticket_number :: "int option"
  ro_status :: local_order_status
  ro_items_json :: "local_order_item list option"
  ro_customer_id :: "local_id option"
  ro_customer_name :: string
  ro_customer_phone :: string
  ro_table_id :: "local_id option"
  ro_table_name :: "string option"
  ro_guests :: "int option"
  ro_order_type :: string
  ro_subtotal :: int
  ro_discount_id :: "local_id option"
  ro_discount_name :: "string option"
  ro_discount_amount :: "int option"
  ro_tax_amount :: int
  ro_total_amount :: int
  ro_payment_method :: "string option"
  ro_tendered_amount :: "int option"
  ro_change_amount :: "int option"
  ro_tip_amount :: "int option"
  ro_service_charge_amount :: "int option"
  ro_loyalty_points_redeemed :: "int option"
  ro_special_instructions :: "string option"
  ro_error_message :: "string option"
  ro_created_at :: int
  ro_synced_at :: "int option"
  ro_tab_opened_at :: "int option"
  ro_fire_mode :: "string option"
  ro_business_day_id :: "local_id option"

datatype mutation_kind = MCreate | MAppend | MSettle | MFire

text \<open>The body of a queued operation: none, the added lines, the tender, the course.\<close>

datatype mutation_payload =
    NoPayload
  | ItemsPayload "delta_line list"
  | TenderPayload string "int option"
  | CoursePayload int

record mutation_row =
  mt_id :: local_id
  mt_order_id :: local_id
  mt_kind :: mutation_kind
  mt_payload_json :: "mutation_payload option"
  mt_created_at :: int
  mt_attempts :: int
  mt_last_error :: "string option"

text \<open>The cached locations.\<close>

record pos_location =
  pl_id :: local_id
  pl_name :: string
  pl_organizationName :: "string option"
  pl_taxRateBps :: int
  pl_serviceChargeBps :: int
  pl_address :: "string option"
  pl_city :: "string option"
  pl_state :: "string option"
  pl_postalCode :: "string option"
  pl_phoneNumber :: "string option"

record pos_category =
  pcat_id :: local_id
  pcat_name :: string
  pcat_sortOrder :: int

record drawer_session =
  dw_id :: local_id
  dw_status :: string
  dw_openedAt :: int
  dw_closedAt :: "int option"
  dw_openingAmount :: int
  dw_cashSales :: int
  dw_otherSales :: int
  dw_expectedAmount :: "int option"
  dw_countedAmount :: "int option"
  dw_difference :: "int option"
  dw_remarks :: "string option"

record business_day =
  bd_id :: local_id
  bd_date :: string
  bd_openedAt :: int
  bd_closedAt :: "int option"
  bd_openedBy :: string
  bd_closedBy :: "string option"

record printer_station =
  ps_id :: local_id
  ps_name :: string
  ps_enabled :: bool
  ps_printerTarget :: string
  ps_printerDeviceName :: string
  ps_sortOrder :: int

text \<open>A line of a receipt or a kitchen ticket and how it is printed.\<close>

record receipt_line =
  rl_text :: string
  rl_align :: string
  rl_bold :: bool
  rl_size :: string

datatype print_job_status = Queued | Printing | Printed | PrintFailed

record pos_print_job =
  job_id :: local_id
  job_orderId :: local_id
  job_stationName :: string
  job_target :: string
  job_lines :: "receipt_line list option"
  job_status :: print_job_status
  job_attempts :: int
  job_lastError :: "string option"
  job_createdAt :: int
  job_updatedAt :: int

record register =
  rg_orders :: "order_db_row list"
  rg_mutations :: "mutation_row list"
  rg_customers :: "pos_customer list"
  rg_categories :: "pos_category list"
  rg_products :: "product list"
  rg_locations :: "pos_location list"
  rg_discounts :: "pos_discount list"
  rg_tables :: "dining_table list"
  rg_sessions :: "drawer_session list"
  rg_days :: "business_day list"
  rg_stations :: "printer_station list"
  rg_categoryStations :: "local_id \<rightharpoonup> local_id"
  rg_printJobs :: "pos_print_job list"
  rg_meta :: "string \<rightharpoonup> string"
  rg_now :: int
  rg_ids :: "nat \<Rightarrow> local_id"
  rg_nextId :: nat

text \<open>\<open>newId()\<close>: the id it mints; a caller moves the supply on.\<close>

definition mintId :: "register \<Rightarrow> local_id" where
  "mintId rg = rg_ids rg (rg_nextId rg)"

text \<open>
  SQLite's \<open>LIKE\<close> on ASCII: \<open>%\<close> stands for any characters, \<open>_\<close> for one, letters match in either
  case.
\<close>

fun sql_like :: "string \<Rightarrow> string \<Rightarrow> bool" where
  "sql_like [] s = (s = [])"
| "sql_like (p # ps) s =
     (if p = CHR ''%'' then sql_like ps s \<or> (case s of [] \<Rightarrow> False | _ # cs \<Rightarrow> sql_like (p # ps) cs)
      else (case s of [] \<Rightarrow> False
        | c # cs \<Rightarrow> (p = CHR ''_'' \<or> js_lower_char p = js_lower_char c) \<and> sql_like ps cs))"

definition like_contains :: "string \<Rightarrow> string" where
  "like_contains s = ''%'' @ s @ ''%''"

end
