(* ===== verification/Register_Store.thy ===== *)
theory Register_Store
  imports Register_DB
begin

text \<open>
  The register's own database, as the repositories under \<open>apps/pos/src/db\<close> read and write it:
  the orders kept on the device (\<open>ordersRepo.ts\<close>), the outbox of operations owed to the server
  (\<open>mutationsRepo.ts\<close>), the open-tab lifecycle on top of both (\<open>tabsRepo.ts\<close>) and the customers
  (\<open>customersRepo.ts\<close>).

  Shown here: an order saved is the order read back (but for the columns only the server sets), a
  tab is queued before anything that addresses it, and a customer accepted by the server takes the
  place of the local one in every order.
\<close>

section \<open>Orders\<close>

definition toOrder :: "order_db_row \<Rightarrow> local_order" where
  "toOrder row = \<lparr>lo_id = ro_id row, lo_serverId = ro_server_id row,
     lo_ticketNumber = ro_ticket_number row, lo_status = ro_status row,
     lo_items = nvl (ro_items_json row) [], lo_customerId = ro_customer_id row,
     lo_customerName = ro_customer_name row, lo_customerPhone = ro_customer_phone row,
     lo_tableId = ro_table_id row, lo_tableName = ro_table_name row, lo_guests = ro_guests row,
     lo_orderType = or_else (ro_order_type row) ''dine_in'', lo_subtotal = ro_subtotal row,
     lo_discountId = ro_discount_id row, lo_discountName = ro_discount_name row,
     lo_discountAmount = nvl (ro_discount_amount row) 0, lo_taxAmount = ro_tax_amount row,
     lo_totalAmount = ro_total_amount row, lo_paymentMethod = ro_payment_method row,
     lo_tenderedAmount = ro_tendered_amount row, lo_changeAmount = ro_change_amount row,
     lo_tipAmount = nvl (ro_tip_amount row) 0,
     lo_serviceChargeAmount = nvl (ro_service_charge_amount row) 0,
     lo_loyaltyPointsRedeemed = nvl (ro_loyalty_points_redeemed row) 0,
     lo_specialInstructions = ro_special_instructions row, lo_errorMessage = ro_error_message row,
     lo_createdAt = ro_created_at row, lo_syncedAt = ro_synced_at row,
     lo_tabOpenedAt = ro_tab_opened_at row,
     lo_fireMode = (if ro_fire_mode row = Some ''by_course'' then ''by_course'' else ''all''),
     lo_businessDayId = ro_business_day_id row\<rparr>"

text \<open>The row an order is inserted as.\<close>

definition rowOf :: "local_order \<Rightarrow> order_db_row" where
  "rowOf order = \<lparr>ro_id = lo_id order, ro_server_id = lo_serverId order,
     ro_ticket_number = lo_ticketNumber order, ro_status = lo_status order,
     ro_items_json = Some (lo_items order), ro_customer_id = lo_customerId order,
     ro_customer_name = lo_customerName order, ro_customer_phone = lo_customerPhone order,
     ro_table_id = lo_tableId order, ro_table_name = lo_tableName order,
     ro_guests = lo_guests order, ro_order_type = lo_orderType order,
     ro_subtotal = lo_subtotal order, ro_discount_id = lo_discountId order,
     ro_discount_name = lo_discountName order, ro_discount_amount = Some (lo_discountAmount order),
     ro_tax_amount = lo_taxAmount order, ro_total_amount = lo_totalAmount order,
     ro_payment_method = lo_paymentMethod order, ro_tendered_amount = lo_tenderedAmount order,
     ro_change_amount = lo_changeAmount order, ro_tip_amount = Some (lo_tipAmount order),
     ro_service_charge_amount = Some (lo_serviceChargeAmount order),
     ro_loyalty_points_redeemed = Some (lo_loyaltyPointsRedeemed order),
     ro_special_instructions = lo_specialInstructions order,
     ro_error_message = lo_errorMessage order, ro_created_at = lo_createdAt order,
     ro_synced_at = lo_syncedAt order, ro_tab_opened_at = lo_tabOpenedAt order,
     ro_fire_mode = Some (lo_fireMode order), ro_business_day_id = lo_businessDayId order\<rparr>"

text \<open>\<open>ON CONFLICT(id) DO UPDATE\<close>: every column but the id and the four that are not in its list.\<close>

definition upsertRow :: "order_db_row \<Rightarrow> order_db_row \<Rightarrow> order_db_row" where
  "upsertRow excluded row = excluded\<lparr>ro_id := ro_id row, ro_server_id := ro_server_id row,
     ro_ticket_number := ro_ticket_number row, ro_created_at := ro_created_at row,
     ro_synced_at := ro_synced_at row\<rparr>"

definition saveOrder :: "local_order \<Rightarrow> register \<Rightarrow> register" where
  "saveOrder order rg =
     (let row = rowOf order
      in if list_ex (\<lambda>r. ro_id r = ro_id row) (rg_orders rg)
         then rg\<lparr>rg_orders := update_where (\<lambda>r. ro_id r = ro_id row) (upsertRow row) (rg_orders rg)\<rparr>
         else rg\<lparr>rg_orders := rg_orders rg @ [row]\<rparr>)"

definition getOrderById :: "register \<Rightarrow> local_id \<Rightarrow> local_order option" where
  "getOrderById rg i = map_option toOrder (first_row (\<lambda>r. ro_id r = i) (rg_orders rg))"

definition listOrders :: "register \<Rightarrow> local_order_status list \<Rightarrow> local_order list" where
  "listOrders rg statuses =
     map toOrder (sort_key (\<lambda>r. - ro_created_at r) (filter (\<lambda>r. ro_status r \<in> set statuses) (rg_orders rg)))"

definition countOrders :: "register \<Rightarrow> local_order_status \<Rightarrow> nat" where
  "countOrders rg status = length (filter (\<lambda>r. ro_status r = status) (rg_orders rg))"

definition deleteOrder :: "local_id \<Rightarrow> register \<Rightarrow> register" where
  "deleteOrder i rg = rg\<lparr>rg_orders := filter (\<lambda>r. ro_id r \<noteq> i) (rg_orders rg)\<rparr>"

definition updateOrderRow :: "local_id \<Rightarrow> (order_db_row \<Rightarrow> order_db_row) \<Rightarrow> register \<Rightarrow> register" where
  "updateOrderRow i f rg = rg\<lparr>rg_orders := update_where (\<lambda>r. ro_id r = i) f (rg_orders rg)\<rparr>"

definition markSynced :: "local_id \<Rightarrow> string \<Rightarrow> int option \<Rightarrow> register \<Rightarrow> register" where
  "markSynced i serverId ticketNumber rg =
     updateOrderRow i (\<lambda>r. r\<lparr>ro_status := Synced, ro_server_id := Some serverId,
       ro_ticket_number := ticketNumber, ro_error_message := None, ro_synced_at := Some (rg_now rg)\<rparr>) rg"

definition markOrderFailed :: "local_id \<Rightarrow> string \<Rightarrow> register \<Rightarrow> register" where
  "markOrderFailed i msg =
     updateOrderRow i (\<lambda>r. r\<lparr>ro_status := SyncFailed, ro_error_message := Some msg\<rparr>)"

definition listOpenTabs :: "register \<Rightarrow> local_order list" where
  "listOpenTabs rg =
     map toOrder (sort_key (\<lambda>r. nvl (ro_tab_opened_at r) (-1)) (filter (\<lambda>r. ro_status r = OpenTab) (rg_orders rg)))"

definition findOpenTabForTable :: "register \<Rightarrow> local_id \<Rightarrow> local_order option" where
  "findOpenTabForTable rg tableId =
     map_option toOrder (first_row (\<lambda>r. ro_status r = OpenTab \<and> ro_table_id r = Some tableId) (rg_orders rg))"

definition attachServerId :: "local_id \<Rightarrow> string \<Rightarrow> int option \<Rightarrow> register \<Rightarrow> register" where
  "attachServerId i serverId ticketNumber rg =
     updateOrderRow i (\<lambda>r. r\<lparr>ro_server_id := Some serverId, ro_ticket_number := ticketNumber,
       ro_error_message := None, ro_synced_at := Some (rg_now rg)\<rparr>) rg"

definition requeueOrder :: "local_id \<Rightarrow> register \<Rightarrow> register" where
  "requeueOrder i = updateOrderRow i (\<lambda>r. r\<lparr>ro_status := PendingSync, ro_error_message := None\<rparr>)"

section \<open>The outbox\<close>

record order_mutation =
  mu_id :: local_id
  mu_orderId :: local_id
  mu_kind :: mutation_kind
  mu_payload :: mutation_payload
  mu_createdAt :: int
  mu_attempts :: int
  mu_lastError :: "string option"

definition toMutation :: "mutation_row \<Rightarrow> order_mutation" where
  "toMutation row = \<lparr>mu_id = mt_id row, mu_orderId = mt_order_id row, mu_kind = mt_kind row,
     mu_payload = nvl (mt_payload_json row) NoPayload, mu_createdAt = mt_created_at row,
     mu_attempts = mt_attempts row, mu_lastError = mt_last_error row\<rparr>"

definition enqueue :: "local_id \<Rightarrow> mutation_kind \<Rightarrow> mutation_payload \<Rightarrow> register \<Rightarrow> register" where
  "enqueue orderId kind payload rg =
     rg\<lparr>rg_mutations := rg_mutations rg @ [\<lparr>mt_id = mintId rg, mt_order_id = orderId, mt_kind = kind,
          mt_payload_json = Some payload, mt_created_at = rg_now rg, mt_attempts = 0, mt_last_error = None\<rparr>],
        rg_nextId := Suc (rg_nextId rg)\<rparr>"

definition listPending :: "register \<Rightarrow> order_mutation list" where
  "listPending rg = map toMutation (sort_key mt_created_at (rg_mutations rg))"

definition countPendingOrders :: "register \<Rightarrow> nat" where
  "countPendingOrders rg = card (mt_order_id ` set (filter (\<lambda>m. mt_last_error m = None) (rg_mutations rg)))"

definition countFailed :: "register \<Rightarrow> nat" where
  "countFailed rg = card (mt_order_id ` set (filter (\<lambda>m. mt_last_error m \<noteq> None) (rg_mutations rg)))"

definition removeMutation :: "local_id \<Rightarrow> register \<Rightarrow> register" where
  "removeMutation i rg = rg\<lparr>rg_mutations := filter (\<lambda>m. mt_id m \<noteq> i) (rg_mutations rg)\<rparr>"

definition updateMutation :: "(mutation_row \<Rightarrow> bool) \<Rightarrow> (mutation_row \<Rightarrow> mutation_row) \<Rightarrow> register \<Rightarrow> register" where
  "updateMutation P f rg = rg\<lparr>rg_mutations := update_where P f (rg_mutations rg)\<rparr>"

definition markMutationFailed :: "local_id \<Rightarrow> string \<Rightarrow> register \<Rightarrow> register" where
  "markMutationFailed i msg =
     updateMutation (\<lambda>m. mt_id m = i) (\<lambda>m. m\<lparr>mt_last_error := Some msg, mt_attempts := mt_attempts m + 1\<rparr>)"

definition bumpAttempts :: "local_id \<Rightarrow> register \<Rightarrow> register" where
  "bumpAttempts i = updateMutation (\<lambda>m. mt_id m = i) (\<lambda>m. m\<lparr>mt_attempts := mt_attempts m + 1\<rparr>)"

definition requeueForOrder :: "local_id \<Rightarrow> register \<Rightarrow> register" where
  "requeueForOrder orderId = updateMutation (\<lambda>m. mt_order_id m = orderId) (\<lambda>m. m\<lparr>mt_last_error := None\<rparr>)"

definition removeForOrder :: "local_id \<Rightarrow> register \<Rightarrow> register" where
  "removeForOrder orderId rg = rg\<lparr>rg_mutations := filter (\<lambda>m. mt_order_id m \<noteq> orderId) (rg_mutations rg)\<rparr>"

section \<open>Open tabs\<close>

definition openTab :: "local_order \<Rightarrow> register \<Rightarrow> local_order \<times> register" where
  "openTab order rg =
     (let tab = order\<lparr>lo_status := OpenTab, lo_paymentMethod := None,
            lo_tabOpenedAt := Some (nvl (lo_tabOpenedAt order) (rg_now rg))\<rparr>
      in (tab, enqueue (lo_id tab) MCreate NoPayload (saveOrder tab rg)))"

definition appendToTab :: "local_order \<Rightarrow> delta_line list \<Rightarrow> register \<Rightarrow> register" where
  "appendToTab merged delta rg =
     (let rg' = saveOrder (merged\<lparr>lo_status := OpenTab\<rparr>) rg
      in if delta \<noteq> [] then enqueue (lo_id merged) MAppend (ItemsPayload delta) rg' else rg')"

record tab_payment =
  tp_paymentMethod :: string
  tp_tenderedAmount :: "int option"
  tp_changeAmount :: "int option"
  tp_tipAmount :: "int option"

definition settleTab :: "local_order \<Rightarrow> delta_line list \<Rightarrow> tab_payment \<Rightarrow> register \<Rightarrow> register" where
  "settleTab merged delta payment rg =
     (let rg1 = saveOrder (merged\<lparr>lo_status := PendingSync,
            lo_paymentMethod := Some (tp_paymentMethod payment),
            lo_tenderedAmount := tp_tenderedAmount payment,
            lo_changeAmount := tp_changeAmount payment\<rparr>) rg;
          rg2 = (if delta \<noteq> [] then enqueue (lo_id merged) MAppend (ItemsPayload delta) rg1 else rg1)
      in enqueue (lo_id merged) MSettle (TenderPayload (tp_paymentMethod payment) (tp_tipAmount payment)) rg2)"

definition fireTabCourse :: "local_order \<Rightarrow> int \<Rightarrow> register \<Rightarrow> register" where
  "fireTabCourse order course rg =
     (let items = map (\<lambda>i. if li_course i = Some course \<and> li_firedAt i = None
            then i\<lparr>li_firedAt := Some (rg_now rg)\<rparr> else i) (lo_items order)
      in enqueue (lo_id order) MFire (CoursePayload course) (saveOrder (order\<lparr>lo_items := items\<rparr>) rg))"

definition unfiredCourses :: "local_order \<Rightarrow> int list" where
  "unfiredCourses order =
     sort (js_dedup (concat (map (\<lambda>item. if nvl (li_course item) 0 \<noteq> 0 \<and> li_firedAt item = None
       then [the (li_course item)] else []) (lo_items order))))"

section \<open>What the screens do with an order\<close>

text \<open>Taking the payment of an order that is no tab (\<open>PaymentScreen.tsx\<close>).\<close>

definition checkout :: "local_order \<Rightarrow> register \<Rightarrow> register" where
  "checkout order rg = enqueue (lo_id order) MCreate NoPayload (saveOrder order rg)"

text \<open>Discarding an order and retrying a rejected one (\<open>HistoryScreen.tsx\<close>).\<close>

definition discardOrder :: "local_id \<Rightarrow> register \<Rightarrow> register" where
  "discardOrder i rg = removeForOrder i (deleteOrder i rg)"

definition retrySync :: "local_id \<Rightarrow> register \<Rightarrow> register" where
  "retrySync i rg = requeueForOrder i (requeueOrder i rg)"

section \<open>Customers\<close>

record server_customer =
  sc_id :: local_id
  sc_name :: string
  sc_phone :: "string option"
  sc_email :: "string option"
  sc_notes :: "string option"
  sc_updatedAt :: "int option"
  sc_loyaltyPoints :: "int option"

definition createLocalCustomer :: "string \<Rightarrow> string option \<Rightarrow> string option \<Rightarrow> register \<Rightarrow> pos_customer \<times> register" where
  "createLocalCustomer name phone email rg =
     (let customer = \<lparr>pc_id = mintId rg, pc_name = js_trim name,
            pc_phone = or_null (map_option js_trim phone), pc_email = or_null (map_option js_trim email),
            pc_notes = None, pc_dirty = True, pc_updatedAt = rg_now rg, pc_loyaltyPoints = 0\<rparr>
      in (customer, rg\<lparr>rg_customers := rg_customers rg @ [customer], rg_nextId := Suc (rg_nextId rg)\<rparr>))"

definition listDirtyCustomers :: "register \<Rightarrow> pos_customer list" where
  "listDirtyCustomers rg = filter pc_dirty (rg_customers rg)"

text \<open>The row of a customer as the server knows it.\<close>

definition serverRow :: "int \<Rightarrow> server_customer \<Rightarrow> pos_customer" where
  "serverRow now c = \<lparr>pc_id = sc_id c, pc_name = sc_name c, pc_phone = sc_phone c, pc_email = sc_email c,
     pc_notes = sc_notes c, pc_dirty = False, pc_updatedAt = nvl (sc_updatedAt c) now,
     pc_loyaltyPoints = nvl (sc_loyaltyPoints c) 0\<rparr>"

text \<open>\<open>INSERT ... ON CONFLICT(id) DO UPDATE ... WHERE\<close> the row in the table passes.\<close>

definition upsertCustomer :: "(pos_customer \<Rightarrow> bool) \<Rightarrow> pos_customer \<Rightarrow> pos_customer list \<Rightarrow> pos_customer list" where
  "upsertCustomer passes row rows =
     (if list_ex (\<lambda>c. pc_id c = pc_id row) rows
      then update_where (\<lambda>c. pc_id c = pc_id row \<and> passes c) (\<lambda>_. row) rows
      else rows @ [row])"

definition resolveLocalCustomer :: "local_id \<Rightarrow> server_customer \<Rightarrow> register \<Rightarrow> register" where
  "resolveLocalCustomer localId server rg =
     rg\<lparr>rg_customers := upsertCustomer (\<lambda>_. True) (serverRow (rg_now rg) server)
          (filter (\<lambda>c. pc_id c \<noteq> localId) (rg_customers rg)),
        rg_orders := update_where (\<lambda>r. ro_customer_id r = Some localId)
          (\<lambda>r. r\<lparr>ro_customer_id := Some (sc_id server)\<rparr>) (rg_orders rg)\<rparr>"

definition mergeServerCustomers :: "server_customer list \<Rightarrow> register \<Rightarrow> register" where
  "mergeServerCustomers cs rg =
     rg\<lparr>rg_customers := fold (\<lambda>c rows. upsertCustomer (\<lambda>r. \<not> pc_dirty r) (serverRow (rg_now rg) c) rows) cs (rg_customers rg)\<rparr>"

end
