(* ===== verification/Register_Catalog.thy ===== *)
theory Register_Catalog
  imports Register_DB "HOL-Library.Product_Lexorder"
begin

text \<open>
  The cached menu, locations, discounts and floor plan of the register
  (\<open>apps/pos/src/db/catalogRepo.ts\<close>), its kitchen stations
  (\<open>apps/pos/src/db/printerStationsRepo.ts\<close>) and the \<open>meta\<close> table. A replacement runs in a
  transaction: a duplicate id in what the server sent is an error and leaves the cache as it was.
\<close>

section \<open>What the server sends\<close>

record menu_item_payload =
  mp_id :: local_id
  mp_name :: string
  mp_description :: "string option"
  mp_price :: int
  mp_imageUrl :: "string option"
  mp_isAvailable :: "bool option"
  mp_isFavorite :: "bool option"
  mp_sortOrder :: "int option"
  mp_modifiers :: "modifier_group list option"
  mp_sku :: "string option"
  mp_isCombo :: "bool option"
  mp_taxExempt :: "bool option"
  mp_stockQuantity :: "int option"
  mp_lowStockThreshold :: "int option"

record menu_category_payload =
  mc_id :: local_id
  mc_name :: string
  mc_sortOrder :: "int option"
  mc_items :: "menu_item_payload list option"

record table_payload =
  tpl_id :: local_id
  tpl_name :: string
  tpl_capacity :: "int option"
  tpl_shape :: "string option"
  tpl_status :: "string option"
  tpl_activeOrderId :: "local_id option"
  tpl_activeOrderTotal :: "int option"
  tpl_posX :: "int option"
  tpl_posY :: "int option"

record floor_plan_payload =
  fp_id :: local_id
  fp_name :: string
  fp_width :: "int option"
  fp_height :: "int option"
  fp_tables :: "table_payload list option"

section \<open>Replacing a cached table\<close>

text \<open>\<open>INSERT\<close> of row after row into a table with a primary key.\<close>

fun insertAll :: "('a \<Rightarrow> local_id) \<Rightarrow> string \<Rightarrow> 'a list \<Rightarrow> 'a list \<Rightarrow> error + 'a list" where
  "insertAll key c [] rows = Inr rows"
| "insertAll key c (r # rs) rows =
     (if list_ex (\<lambda>x. key x = key r) rows then Inl (UniqueViolation c)
      else insertAll key c rs (rows @ [r]))"

definition productRow :: "local_id \<Rightarrow> menu_item_payload \<Rightarrow> product" where
  "productRow categoryId item = \<lparr>prod_id = mp_id item, prod_categoryId = categoryId,
     prod_name = mp_name item, prod_description = mp_description item, prod_price = mp_price item,
     prod_imageUrl = mp_imageUrl item, prod_isAvailable = (mp_isAvailable item \<noteq> Some False),
     prod_isFavorite = nvl (mp_isFavorite item) False, prod_sortOrder = nvl (mp_sortOrder item) 0,
     prod_modifiers = nvl (mp_modifiers item) [], prod_sku = mp_sku item,
     prod_isCombo = nvl (mp_isCombo item) False, prod_taxExempt = nvl (mp_taxExempt item) False,
     prod_stockQuantity = mp_stockQuantity item, prod_lowStockThreshold = mp_lowStockThreshold item\<rparr>"

fun insertCatalog ::
  "menu_category_payload list \<Rightarrow> pos_category list \<Rightarrow> product list \<Rightarrow> error + (pos_category list \<times> product list)" where
  "insertCatalog [] cats prods = Inr (cats, prods)"
| "insertCatalog (cat # rest) cats prods =
     (case insertAll pcat_id ''categories.id''
             [\<lparr>pcat_id = mc_id cat, pcat_name = mc_name cat, pcat_sortOrder = nvl (mc_sortOrder cat) 0\<rparr>] cats of
        Inl e \<Rightarrow> Inl e
      | Inr cats' \<Rightarrow>
          (case insertAll prod_id ''products.id'' (map (productRow (mc_id cat)) (nvl (mc_items cat) [])) prods of
             Inl e \<Rightarrow> Inl e
           | Inr prods' \<Rightarrow> insertCatalog rest cats' prods'))"

text \<open>A transaction on the register: an error leaves the database as it was.\<close>

definition inTransaction :: "error + register \<Rightarrow> register \<Rightarrow> (error + unit) \<times> register" where
  "inTransaction result rg = (case result of Inl e \<Rightarrow> (Inl e, rg) | Inr rg' \<Rightarrow> (Inr (), rg'))"

definition replaceCatalog :: "menu_category_payload list \<Rightarrow> register \<Rightarrow> (error + unit) \<times> register" where
  "replaceCatalog categories rg =
     inTransaction (case insertCatalog categories [] [] of
       Inl e \<Rightarrow> Inl e
     | Inr (cats, prods) \<Rightarrow> Inr (rg\<lparr>rg_categories := cats, rg_products := prods\<rparr>)) rg"

definition replaceLocations :: "pos_location list \<Rightarrow> register \<Rightarrow> (error + unit) \<times> register" where
  "replaceLocations ls rg =
     inTransaction (case insertAll pl_id ''locations.id'' ls [] of
       Inl e \<Rightarrow> Inl e | Inr rows \<Rightarrow> Inr (rg\<lparr>rg_locations := rows\<rparr>)) rg"

definition replaceDiscounts :: "pos_discount list \<Rightarrow> register \<Rightarrow> (error + unit) \<times> register" where
  "replaceDiscounts ds rg =
     inTransaction (case insertAll rd_id ''discounts.id'' ds [] of
       Inl e \<Rightarrow> Inl e | Inr rows \<Rightarrow> Inr (rg\<lparr>rg_discounts := rows\<rparr>)) rg"

definition tableRow :: "floor_plan_payload \<Rightarrow> table_payload \<Rightarrow> dining_table" where
  "tableRow plan table = \<lparr>dt_id = tpl_id table, dt_floorPlanId = fp_id plan,
     dt_floorPlanName = fp_name plan, dt_floorPlanWidth = nvl (fp_width plan) 800,
     dt_floorPlanHeight = nvl (fp_height plan) 600, dt_name = tpl_name table,
     dt_capacity = nvl (tpl_capacity table) 4, dt_shape = nvl (tpl_shape table) ''rectangle'',
     dt_status = nvl (tpl_status table) ''available'', dt_activeOrderId = tpl_activeOrderId table,
     dt_activeOrderTotal = nvl (tpl_activeOrderTotal table) 0,
     dt_posX = nvl (tpl_posX table) 0, dt_posY = nvl (tpl_posY table) 0\<rparr>"

definition replaceTables :: "floor_plan_payload list \<Rightarrow> register \<Rightarrow> (error + unit) \<times> register" where
  "replaceTables plans rg =
     inTransaction (case insertAll dt_id ''dining_tables.id''
         (concat (map (\<lambda>plan. map (tableRow plan) (nvl (fp_tables plan) [])) plans)) [] of
       Inl e \<Rightarrow> Inl e | Inr rows \<Rightarrow> Inr (rg\<lparr>rg_tables := rows\<rparr>)) rg"

section \<open>Reading the cache\<close>

definition getCategories :: "register \<Rightarrow> pos_category list" where
  "getCategories rg = sort_key (\<lambda>c. (pcat_sortOrder c, pcat_name c)) (rg_categories rg)"

definition byOrderAndName :: "product list \<Rightarrow> product list" where
  "byOrderAndName = sort_key (\<lambda>p. (prod_sortOrder p, prod_name p))"

definition inCategory :: "local_id option \<Rightarrow> product \<Rightarrow> bool" where
  "inCategory categoryId p \<longleftrightarrow> (truthy categoryId \<longrightarrow> categoryId = Some (prod_categoryId p))"

definition getProducts :: "register \<Rightarrow> local_id option \<Rightarrow> string option \<Rightarrow> product list" where
  "getProducts rg categoryId search =
     byOrderAndName (filter (\<lambda>p. prod_isAvailable p \<and> inCategory categoryId p \<and>
       (truthy (map_option js_trim search) \<longrightarrow> sql_like (like_contains (js_trim (the search))) (prod_name p)))
       (rg_products rg))"

definition getAllProducts :: "register \<Rightarrow> local_id option \<Rightarrow> product list" where
  "getAllProducts rg categoryId = byOrderAndName (filter (inCategory categoryId) (rg_products rg))"

definition getProductById :: "register \<Rightarrow> local_id \<Rightarrow> product option" where
  "getProductById rg i = first_row (\<lambda>p. prod_id p = i) (rg_products rg)"

definition findProductBySku :: "register \<Rightarrow> string \<Rightarrow> product option" where
  "findProductBySku rg sku =
     (let normalized = js_trim sku
      in if normalized = [] then None
         else first_row (\<lambda>p. prod_sku p = Some normalized \<and> prod_isAvailable p) (rg_products rg))"

definition getLocations :: "register \<Rightarrow> pos_location list" where
  "getLocations rg = sort_key pl_name (rg_locations rg)"

definition updateLocationTax :: "local_id \<Rightarrow> int \<Rightarrow> int \<Rightarrow> register \<Rightarrow> register" where
  "updateLocationTax locationId taxRateBps serviceChargeBps rg =
     rg\<lparr>rg_locations := update_where (\<lambda>l. pl_id l = locationId)
       (\<lambda>l. l\<lparr>pl_taxRateBps := taxRateBps, pl_serviceChargeBps := serviceChargeBps\<rparr>) (rg_locations rg)\<rparr>"

definition getDiscounts :: "register \<Rightarrow> pos_discount list" where
  "getDiscounts rg =
     map (\<lambda>d. d\<lparr>rd_type := (if rd_type d = ''fixed'' then ''fixed'' else ''percent'')\<rparr>)
       (sort_key rd_name (rg_discounts rg))"

definition findDiscountByCode :: "register \<Rightarrow> string \<Rightarrow> pos_discount option" where
  "findDiscountByCode rg code =
     (let normalized = js_upper (js_trim code)
      in if normalized = [] then None
         else find (\<lambda>d. map_option js_upper (rd_code d) = Some normalized) (getDiscounts rg))"

definition tableStatus :: "string \<Rightarrow> string" where
  "tableStatus s = (if s \<in> {''occupied'', ''billed'', ''reserved''} then s else ''vacant'')"

text \<open>The tab of a table: the last open order on it.\<close>

definition localTabs :: "register \<Rightarrow> local_id \<rightharpoonup> (local_id \<times> int)" where
  "localTabs rg = js_map (map (\<lambda>r. (the (ro_table_id r), (ro_id r, ro_total_amount r)))
     (filter (\<lambda>r. ro_status r = OpenTab \<and> ro_table_id r \<noteq> None) (rg_orders rg)))"

definition getTables :: "register \<Rightarrow> dining_table list" where
  "getTables rg =
     map (\<lambda>r. let localTab = localTabs rg (dt_id r) in
       r\<lparr>dt_status := (if localTab \<noteq> None then ''occupied'' else tableStatus (dt_status r)),
         dt_activeOrderId := (case localTab of Some (i, _) \<Rightarrow> Some i | None \<Rightarrow> dt_activeOrderId r),
         dt_activeOrderTotal := (case localTab of Some (_, t) \<Rightarrow> t | None \<Rightarrow> dt_activeOrderTotal r)\<rparr>)
       (sort_key dt_name (rg_tables rg))"

section \<open>Kitchen stations\<close>

definition listStations :: "register \<Rightarrow> printer_station list" where
  "listStations rg = sort_key (\<lambda>s. (ps_sortOrder s, ps_name s)) (rg_stations rg)"

definition getStation :: "register \<Rightarrow> local_id \<Rightarrow> printer_station option" where
  "getStation rg i = first_row (\<lambda>s. ps_id s = i) (rg_stations rg)"

definition createStation :: "string \<Rightarrow> string \<Rightarrow> string \<Rightarrow> register \<Rightarrow> printer_station \<times> register" where
  "createStation name printerTarget printerDeviceName rg =
     (let station = \<lparr>ps_id = mintId rg, ps_name = name, ps_enabled = True,
            ps_printerTarget = printerTarget, ps_printerDeviceName = printerDeviceName,
            ps_sortOrder = int (length (rg_stations rg))\<rparr>
      in (station, rg\<lparr>rg_stations := rg_stations rg @ [station], rg_nextId := Suc (rg_nextId rg)\<rparr>))"

text \<open>\<open>patch\<close> is the spread of the caller's partial station.\<close>

definition updateStation :: "local_id \<Rightarrow> (printer_station \<Rightarrow> printer_station) \<Rightarrow> register \<Rightarrow> register" where
  "updateStation i patch rg =
     (case getStation rg i of
        None \<Rightarrow> rg
      | Some current \<Rightarrow>
          let n = patch current
          in rg\<lparr>rg_stations := update_where (\<lambda>s. ps_id s = i)
               (\<lambda>s. s\<lparr>ps_name := ps_name n, ps_enabled := ps_enabled n,
                      ps_printerTarget := ps_printerTarget n,
                      ps_printerDeviceName := ps_printerDeviceName n\<rparr>) (rg_stations rg)\<rparr>)"

text \<open>The rows of \<open>category_stations\<close> that point at the station go with it (\<open>ON DELETE CASCADE\<close>).\<close>

definition deleteStation :: "local_id \<Rightarrow> register \<Rightarrow> register" where
  "deleteStation i rg =
     rg\<lparr>rg_stations := filter (\<lambda>s. ps_id s \<noteq> i) (rg_stations rg),
        rg_categoryStations := (\<lambda>c. if rg_categoryStations rg c = Some i then None else rg_categoryStations rg c)\<rparr>"

definition getCategoryStationMap :: "register \<Rightarrow> local_id \<rightharpoonup> local_id" where
  "getCategoryStationMap rg = rg_categoryStations rg"

text \<open>Pointing a category at a station that does not exist violates the foreign key.\<close>

definition setCategoryStation :: "local_id \<Rightarrow> local_id option \<Rightarrow> register \<Rightarrow> (error + unit) \<times> register" where
  "setCategoryStation categoryId stationId rg =
     (case stationId of
        None \<Rightarrow> (Inr (), rg\<lparr>rg_categoryStations := (rg_categoryStations rg)(categoryId := None)\<rparr>)
      | Some i \<Rightarrow>
          if getStation rg i = None then (Inl (ConstraintViolation ''category_stations''), rg)
          else (Inr (), rg\<lparr>rg_categoryStations := (rg_categoryStations rg)(categoryId \<mapsto> i)\<rparr>))"

section \<open>Meta values\<close>

definition getMeta :: "register \<Rightarrow> string \<Rightarrow> string option" where
  "getMeta rg key = rg_meta rg key"

definition setMeta :: "string \<Rightarrow> string \<Rightarrow> register \<Rightarrow> register" where
  "setMeta key value rg = rg\<lparr>rg_meta := (rg_meta rg)(key \<mapsto> value)\<rparr>"

section \<open>A replacement is all or nothing\<close>

lemma list_ex_key: "list_ex (\<lambda>x. key x = k) rows \<longleftrightarrow> k \<in> key ` set rows"
  by (auto simp: list_ex_iff image_iff dest: sym)

lemma insertAll_Inr:
  "insertAll key c rs rows = Inr rows' \<longleftrightarrow>
     rows' = rows @ rs \<and> distinct (map key rs) \<and> key ` set rs \<inter> key ` set rows = {}"
  by (induction key c rs rows rule: insertAll.induct) (auto simp: list_ex_key)

lemma insertAll_Inl:
  assumes "insertAll key c new rows = Inl e"
  shows "\<not> (distinct (map key (new @ rest)) \<and> key ` set (new @ rest) \<inter> key ` set rows = {})"
  using assms insertAll_Inr[of key c new rows "rows @ new"] by auto

text \<open>The products a menu describes.\<close>

definition menuProducts :: "menu_category_payload list \<Rightarrow> product list" where
  "menuProducts cats = concat (map (\<lambda>cat. map (productRow (mc_id cat)) (nvl (mc_items cat) [])) cats)"

definition categoryRow :: "menu_category_payload \<Rightarrow> pos_category" where
  "categoryRow cat = \<lparr>pcat_id = mc_id cat, pcat_name = mc_name cat, pcat_sortOrder = nvl (mc_sortOrder cat) 0\<rparr>"

lemma categoryRow_id [simp]: "pcat_id (categoryRow cat) = mc_id cat"
  by (simp add: categoryRow_def)

lemma menuProducts_simps [simp]:
  "menuProducts [] = []"
  "menuProducts (cat # cats) = map (productRow (mc_id cat)) (nvl (mc_items cat) []) @ menuProducts cats"
  by (simp_all add: menuProducts_def)

lemma insertCatalog_Inr:
  "insertCatalog cats cs ps = Inr r \<longleftrightarrow>
     r = (cs @ map categoryRow cats, ps @ menuProducts cats) \<and>
     distinct (map mc_id cats) \<and> mc_id ` set cats \<inter> pcat_id ` set cs = {} \<and>
     distinct (map prod_id (menuProducts cats)) \<and> prod_id ` set (menuProducts cats) \<inter> prod_id ` set ps = {}"
proof (induction cats cs ps rule: insertCatalog.induct)
  case (2 cat rest cats prods)
  let ?row = "\<lparr>pcat_id = mc_id cat, pcat_name = mc_name cat, pcat_sortOrder = nvl (mc_sortOrder cat) 0\<rparr>"
  let ?new = "map (productRow (mc_id cat)) (nvl (mc_items cat) [])"
  show ?case
  proof (cases "insertAll pcat_id ''categories.id'' [?row] cats")
    case (Inl e)
    then show ?thesis
      by (auto simp: list_ex_key split: if_splits)
  next
    case (Inr cats')
    then have c: "cats' = cats @ [categoryRow cat]" "mc_id cat \<notin> pcat_id ` set cats"
      unfolding insertAll_Inr by (auto simp: categoryRow_def)
    show ?thesis
    proof (cases "insertAll prod_id ''products.id'' ?new prods")
      case (Inl e)
      have "insertCatalog (cat # rest) cats prods = Inl e"
        using Inl \<open>insertAll pcat_id _ _ _ = _\<close> by (simp del: insertAll.simps)
      then show ?thesis
        using insertAll_Inl[OF Inl, of "menuProducts rest"]
        by (simp only: menuProducts_simps sum.distinct) blast
    next
      case (Inr prods')
      define new where "new = ?new"
      have p: "prods' = prods @ new" "distinct (map prod_id new)" "prod_id ` set new \<inter> prod_id ` set prods = {}"
        using Inr unfolding insertAll_Inr new_def by simp_all
      have run: "insertCatalog (cat # rest) cats prods = insertCatalog rest cats' prods'"
        using Inr \<open>insertAll pcat_id _ _ _ = _\<close> by (simp del: insertAll.simps)
      have menu: "menuProducts (cat # rest) = new @ menuProducts rest"
        by (simp add: new_def)
      show ?thesis
        unfolding run menu c(1) p(1) 2[OF \<open>insertAll pcat_id _ _ _ = _\<close> Inr, unfolded c(1) p(1)]
        using c(2) p(2,3) by auto
    qed
  qed
qed auto

text \<open>
  A pull replaces the cached menu all or nothing: when the ids of the categories and of the
  items are distinct, the cache holds exactly the server's menu afterwards, in its order; when an
  id occurs twice, the pull fails and the cache, like everything else, is as before.
\<close>

theorem replaceCatalog_all_or_nothing:
  "replaceCatalog categories rg =
     (if distinct (map mc_id categories) \<and> distinct (map prod_id (menuProducts categories))
      then (Inr (), rg\<lparr>rg_categories := map categoryRow categories, rg_products := menuProducts categories\<rparr>)
      else (Inl (projl (fst (replaceCatalog categories rg))), rg))"
proof (cases "insertCatalog categories [] []")
  case (Inl e)
  then have "\<not> (distinct (map mc_id categories) \<and> distinct (map prod_id (menuProducts categories)))"
    using insertCatalog_Inr[of categories "[]" "[]" "(map categoryRow categories, menuProducts categories)"] by auto
  with Inl show ?thesis
    by (simp add: replaceCatalog_def inTransaction_def)
next
  case (Inr r)
  with insertCatalog_Inr[of categories "[]" "[]" r] show ?thesis
    by (simp add: replaceCatalog_def inTransaction_def)
qed

end
