(* ===== verification/Register_Day.thy ===== *)
theory Register_Day
  imports Register_DB
begin

text \<open>
  The cash drawer and the business day of the register (\<open>apps/pos/src/db/drawerRepo.ts\<close>,
  \<open>apps/pos/src/db/businessDayRepo.ts\<close>): sessions opened with a float and closed with a count, the
  takings that are compared with the count, and the day that gates order-taking. \<open>label\<close> is the
  local calendar date of an instant, which depends on the device's time zone. Shown here: closing a
  session reconciles the count with the float and exactly the cash orders since it was opened, and
  there is never more than one open day nor two days with the same date.
\<close>

text \<open>\<open>ORDER BY\<close> a descending time, \<open>LIMIT 1\<close>.\<close>

definition latest :: "('a \<Rightarrow> int) \<Rightarrow> 'a list \<Rightarrow> 'a option" where
  "latest time rows = (case sort_key (\<lambda>r. - time r) rows of [] \<Rightarrow> None | r # _ \<Rightarrow> Some r)"

lemma latest_Some: "latest time rows = Some r \<Longrightarrow> r \<in> set rows"
  unfolding latest_def by (metis list.set_intros(1) list.simps(4,5) neq_Nil_conv option.inject option.simps(3) set_sort)

lemma latest_None: "latest time rows = None \<longleftrightarrow> rows = []"
proof
  assume "latest time rows = None"
  then have "sort_key (\<lambda>r. - time r) rows = []"
    unfolding latest_def by (cases "sort_key (\<lambda>r. - time r) rows") simp_all
  then show "rows = []"
    by (metis length_0_conv length_sort)
qed (simp add: latest_def)

section \<open>The drawer\<close>

definition getOpenSession :: "register \<Rightarrow> drawer_session option" where
  "getOpenSession rg = latest dw_openedAt (filter (\<lambda>s. dw_status s = ''open'') (rg_sessions rg))"

definition openSession :: "int \<Rightarrow> register \<Rightarrow> drawer_session \<times> register" where
  "openSession openingAmount rg =
     (let session = \<lparr>dw_id = mintId rg, dw_status = ''open'', dw_openedAt = rg_now rg, dw_closedAt = None,
            dw_openingAmount = openingAmount, dw_cashSales = 0, dw_otherSales = 0,
            dw_expectedAmount = None, dw_countedAmount = None, dw_difference = None, dw_remarks = None\<rparr>
      in (session, rg\<lparr>rg_sessions := rg_sessions rg @ [session], rg_nextId := Suc (rg_nextId rg)\<rparr>))"

text \<open>An order that went through the payment flow.\<close>

definition tookPayment :: "order_db_row \<Rightarrow> bool" where
  "tookPayment r \<longleftrightarrow> ro_status r \<in> {PendingSync, Synced, SyncFailed} \<and> ro_payment_method r \<noteq> None"

definition salesOf :: "order_db_row list \<Rightarrow> int \<times> int" where
  "salesOf rows =
     (sum_by (\<lambda>r. if ro_payment_method r = Some ''cash'' then ro_total_amount r else 0) rows,
      sum_by (\<lambda>r. if ro_payment_method r \<noteq> Some ''cash'' then ro_total_amount r else 0) rows)"

definition salesSince :: "register \<Rightarrow> int \<Rightarrow> int \<times> int" where
  "salesSince rg since = salesOf (filter (\<lambda>r. tookPayment r \<and> since \<le> ro_created_at r) (rg_orders rg))"

definition salesForBusinessDay :: "register \<Rightarrow> local_id \<Rightarrow> int \<times> int" where
  "salesForBusinessDay rg day =
     salesOf (filter (\<lambda>r. tookPayment r \<and> ro_business_day_id r = Some day) (rg_orders rg))"

definition closeSession :: "local_id \<Rightarrow> int \<Rightarrow> string option \<Rightarrow> register \<Rightarrow> drawer_session option \<times> register" where
  "closeSession i countedAmount remarks rg =
     (case getOpenSession rg of
        None \<Rightarrow> (None, rg)
      | Some open_session \<Rightarrow>
          if dw_id open_session \<noteq> i then (None, rg)
          else
            let (cashSales, otherSales) = salesSince rg (dw_openedAt open_session);
                expectedAmount = dw_openingAmount open_session + cashSales;
                difference = countedAmount - expectedAmount;
                close = (\<lambda>s. s\<lparr>dw_status := ''closed'', dw_closedAt := Some (rg_now rg),
                  dw_cashSales := cashSales, dw_otherSales := otherSales,
                  dw_expectedAmount := Some expectedAmount, dw_countedAmount := Some countedAmount,
                  dw_difference := Some difference, dw_remarks := remarks\<rparr>)
            in (Some (close open_session),
                rg\<lparr>rg_sessions := update_where (\<lambda>s. dw_id s = i) close (rg_sessions rg)\<rparr>))"

definition listClosedSessions :: "register \<Rightarrow> nat \<Rightarrow> drawer_session list" where
  "listClosedSessions rg limit =
     take limit (sort_key (\<lambda>s. - nvl (dw_closedAt s) (-1)) (filter (\<lambda>s. dw_status s = ''closed'') (rg_sessions rg)))"

record paid_summary =
  psum_id :: local_id
  psum_ticketNumber :: "int option"
  psum_customerName :: string
  psum_totalAmount :: int
  psum_paymentMethod :: "string option"
  psum_createdAt :: int

definition paidSummaries :: "order_db_row list \<Rightarrow> paid_summary list" where
  "paidSummaries rows = map (\<lambda>r. \<lparr>psum_id = ro_id r, psum_ticketNumber = ro_ticket_number r,
     psum_customerName = ro_customer_name r, psum_totalAmount = ro_total_amount r,
     psum_paymentMethod = ro_payment_method r, psum_createdAt = ro_created_at r\<rparr>)
     (sort_key (\<lambda>r. - ro_created_at r) rows)"

definition paidOrdersSince :: "register \<Rightarrow> int \<Rightarrow> paid_summary list" where
  "paidOrdersSince rg since = paidSummaries (filter (\<lambda>r. tookPayment r \<and> since \<le> ro_created_at r) (rg_orders rg))"

definition paidOrdersForBusinessDay :: "register \<Rightarrow> local_id \<Rightarrow> paid_summary list" where
  "paidOrdersForBusinessDay rg day =
     paidSummaries (filter (\<lambda>r. tookPayment r \<and> ro_business_day_id r = Some day) (rg_orders rg))"

section \<open>The business day\<close>

definition getOpenDay :: "register \<Rightarrow> business_day option" where
  "getOpenDay rg = latest bd_openedAt (filter (\<lambda>d. bd_closedAt d = None) (rg_days rg))"

definition startDay :: "(int \<Rightarrow> string) \<Rightarrow> string \<Rightarrow> register \<Rightarrow> (error + business_day) \<times> register" where
  "startDay label openedBy rg =
     (case getOpenDay rg of
        Some existing \<Rightarrow>
          (Inl (GenericError (''A business day is already open ('' @ bd_date existing @ ''). Close it first.'')), rg)
      | None \<Rightarrow>
          let today = label (rg_now rg)
          in case latest bd_openedAt (filter (\<lambda>d. bd_date d = today) (rg_days rg)) of
               Some recentClosed \<Rightarrow>
                 (Inr (recentClosed\<lparr>bd_closedAt := None, bd_closedBy := None\<rparr>),
                  rg\<lparr>rg_days := update_where (\<lambda>d. bd_id d = bd_id recentClosed)
                    (\<lambda>d. d\<lparr>bd_closedAt := None, bd_closedBy := None\<rparr>) (rg_days rg)\<rparr>)
             | None \<Rightarrow>
                 let day = \<lparr>bd_id = mintId rg, bd_date = today, bd_openedAt = rg_now rg,
                       bd_closedAt = None, bd_openedBy = openedBy, bd_closedBy = None\<rparr>
                 in (Inr day, rg\<lparr>rg_days := rg_days rg @ [day], rg_nextId := Suc (rg_nextId rg)\<rparr>))"

definition endDay :: "local_id \<Rightarrow> string \<Rightarrow> register \<Rightarrow> business_day option \<times> register" where
  "endDay i closedBy rg =
     (case getOpenDay rg of
        None \<Rightarrow> (None, rg)
      | Some open_day \<Rightarrow>
          if bd_id open_day \<noteq> i then (None, rg)
          else (Some (open_day\<lparr>bd_closedAt := Some (rg_now rg), bd_closedBy := Some closedBy\<rparr>),
                rg\<lparr>rg_days := update_where (\<lambda>d. bd_id d = i)
                  (\<lambda>d. d\<lparr>bd_closedAt := Some (rg_now rg), bd_closedBy := Some closedBy\<rparr>) (rg_days rg)\<rparr>))"

definition listRecentDays :: "register \<Rightarrow> nat \<Rightarrow> business_day list" where
  "listRecentDays rg limit = take limit (sort_key (\<lambda>d. - bd_openedAt d) (rg_days rg))"

section \<open>Closing the drawer\<close>

lemma salesOf_sum: "fst (salesOf rows) + snd (salesOf rows) = sum_by ro_total_amount rows"
  by (induction rows) (auto simp: salesOf_def)

text \<open>
  Closing the drawer: a session that closes is the open one; what it expects is the float plus
  the cash orders taken since it was opened, the difference is the count minus that, cash and
  other sales together are every paid order since then, and the stored session says the same; a
  close that is refused changes nothing.
\<close>

theorem closeSession_reconciles:
  assumes "distinct (map dw_id (rg_sessions rg))" and "closeSession i counted remarks rg = (r, rg')"
  shows "case r of
      None \<Rightarrow> rg' = rg
    | Some s \<Rightarrow>
        (\<exists>s0. getOpenSession rg = Some s0 \<and> dw_id s0 = i \<and> dw_id s = i \<and>
           dw_openingAmount s = dw_openingAmount s0 \<and> dw_openedAt s = dw_openedAt s0) \<and>
        dw_status s = ''closed'' \<and> dw_countedAmount s = Some counted \<and>
        dw_expectedAmount s = Some (dw_openingAmount s + dw_cashSales s) \<and>
        dw_difference s = Some (counted - (dw_openingAmount s + dw_cashSales s)) \<and>
        dw_cashSales s + dw_otherSales s = sum_by ro_total_amount
          (filter (\<lambda>o'. tookPayment o' \<and> dw_openedAt s \<le> ro_created_at o') (rg_orders rg)) \<and>
        first_row (\<lambda>x. dw_id x = i) (rg_sessions rg') = Some s \<and> rg_orders rg' = rg_orders rg"
proof (cases r)
  case None
  with assms(2) show ?thesis
    by (auto simp: closeSession_def Let_def split: option.splits if_splits prod.splits)
next
  case (Some s)
  from assms(2) Some obtain s0 where open0: "getOpenSession rg = Some s0" and i: "dw_id s0 = i"
    by (auto simp: closeSession_def split: option.splits if_splits)
  let ?sales = "salesSince rg (dw_openedAt s0)"
  let ?close = "\<lambda>s. s\<lparr>dw_status := ''closed'', dw_closedAt := Some (rg_now rg),
    dw_cashSales := fst ?sales, dw_otherSales := snd ?sales,
    dw_expectedAmount := Some (dw_openingAmount s0 + fst ?sales), dw_countedAmount := Some counted,
    dw_difference := Some (counted - (dw_openingAmount s0 + fst ?sales)), dw_remarks := remarks\<rparr>"
  have s: "s = ?close s0" and rg': "rg' = rg\<lparr>rg_sessions := update_where (\<lambda>s. dw_id s = i) ?close (rg_sessions rg)\<rparr>"
    using assms(2) Some open0 i by (auto simp: closeSession_def Let_def split: prod.splits)
  have "s0 \<in> set (rg_sessions rg)"
    using latest_Some open0 unfolding getOpenSession_def by fastforce
  then have "first_row (\<lambda>x. dw_id x = i) (rg_sessions rg) = Some s0"
    using assms(1) i
    by (cases "first_row (\<lambda>x. dw_id x = i) (rg_sessions rg)")
       (auto dest!: first_row_SomeD first_row_NoneD simp: distinct_map inj_on_def)
  then have "first_row (\<lambda>x. dw_id x = i) (rg_sessions rg') = Some s"
    unfolding rg' s using i by (simp add: first_row_update_where)
  then show ?thesis
    using Some open0 i s rg' salesOf_sum unfolding salesSince_def by simp
qed

section \<open>One day at a time\<close>

definition days_ok :: "register \<Rightarrow> bool" where
  "days_ok rg \<longleftrightarrow> length (filter (\<lambda>d. bd_closedAt d = None) (rg_days rg)) \<le> 1 \<and>
     distinct (map bd_date (rg_days rg)) \<and> distinct (map bd_id (rg_days rg)) \<and>
     inj (rg_ids rg) \<and> bd_id ` set (rg_days rg) \<subseteq> rg_ids rg ` {..<rg_nextId rg}"

text \<open>
  What can happen to the days of a register: a day is started or ended, and anything else the
  register does, which leaves the days and the ids it has minted.
\<close>

inductive day_step :: "(int \<Rightarrow> string) \<Rightarrow> register \<Rightarrow> register \<Rightarrow> bool" for label where
  Start: "day_step label rg (snd (startDay label openedBy rg))"
| End: "day_step label rg (snd (endDay i closedBy rg))"
| Other: "rg_days rg' = rg_days rg \<Longrightarrow> rg_ids rg' = rg_ids rg \<Longrightarrow> rg_nextId rg \<le> rg_nextId rg' \<Longrightarrow>
    day_step label rg rg'"

inductive_cases day_stepE: "day_step label rg rg'"

lemma image_update_where:
  "(\<And>x. P x \<Longrightarrow> g (f x) = g x) \<Longrightarrow> g ` set (update_where P f xs) = g ` set xs"
  by (induction xs) auto

lemma getOpenDay_None: "getOpenDay rg = None \<longleftrightarrow> filter (\<lambda>d. bd_closedAt d = None) (rg_days rg) = []"
  by (simp add: getOpenDay_def latest_None)

lemma filter_update_one:
  assumes "distinct (map key xs)" and "x \<in> set xs" and "filter P xs = []"
  shows "filter P (update_where (\<lambda>y. key y = key x) f xs) = (if P (f x) then [f x] else [])"
  using assms
proof (induction xs)
  case (Cons y ys)
  have none: "filter P (update_where (\<lambda>z. key z = key x) f zs) = []"
    if "key x \<notin> key ` set zs" "filter P zs = []" for zs
    using that by (induction zs) (auto split: if_splits)
  show ?case
  proof (cases "y = x")
    case True
    with Cons.prems none[of ys] show ?thesis by (auto split: if_splits)
  next
    case False
    with Cons.prems have "key y \<noteq> key x"
      by (metis distinct.simps(2) image_eqI list.set_map list.simps(9) set_ConsD)
    with Cons False show ?thesis by (auto split: if_splits)
  qed
qed simp

lemma open_after_close:
  "length (filter (\<lambda>d. bd_closedAt d = None) (update_where P (\<lambda>d. d\<lparr>bd_closedAt := Some t, bd_closedBy := c\<rparr>) ds)) \<le>
     length (filter (\<lambda>d. bd_closedAt d = None) ds)"
  by (induction ds) (auto intro: le_SucI)

lemma startDay_ok: "days_ok rg \<Longrightarrow> days_ok (snd (startDay label who rg))"
proof -
  assume ok: "days_ok rg"
  show ?thesis
  proof (cases "getOpenDay rg")
    case None
    note closed = None[unfolded getOpenDay_None]
    let ?today = "label (rg_now rg)"
    show ?thesis
    proof (cases "latest bd_openedAt (filter (\<lambda>d. bd_date d = ?today) (rg_days rg))")
      case None
      then have new: "?today \<notin> bd_date ` set (rg_days rg)"
        by (auto simp: latest_None filter_empty_conv)
      have "mintId rg \<notin> bd_id ` set (rg_days rg)"
        using ok inj_image_mem_iff[of "rg_ids rg" "rg_nextId rg" "{..<rg_nextId rg}"]
        by (auto simp: days_ok_def mintId_def)
      with new None closed ok \<open>getOpenDay rg = None\<close> show ?thesis
        by (auto simp: startDay_def days_ok_def Let_def mintId_def lessThan_Suc)
    next
      case (Some d)
      then have d: "d \<in> set (rg_days rg)"
        by (auto dest: latest_Some)
      have "filter (\<lambda>d. bd_closedAt d = None) (update_where (\<lambda>x. bd_id x = bd_id d)
          (\<lambda>d. d\<lparr>bd_closedAt := None, bd_closedBy := None\<rparr>) (rg_days rg)) = [d\<lparr>bd_closedAt := None, bd_closedBy := None\<rparr>]"
        using filter_update_one[where key = bd_id, OF _ d closed] ok by (simp add: days_ok_def)
      with Some ok \<open>getOpenDay rg = None\<close> show ?thesis
        by (auto simp: startDay_def days_ok_def Let_def map_update_where image_update_where)
    qed
  qed (use ok in \<open>simp add: startDay_def\<close>)
qed

lemma endDay_ok: "days_ok rg \<Longrightarrow> days_ok (snd (endDay i who rg))"
  by (auto simp: endDay_def days_ok_def map_update_where image_update_where
        intro: order_trans[OF open_after_close] split: option.splits)

lemma day_step_ok: "day_step label rg rg' \<Longrightarrow> days_ok rg \<Longrightarrow> days_ok rg'"
proof (induction rule: day_step.induct)
  case (Other rg' rg)
  then have "rg_ids rg ` {..<rg_nextId rg} \<subseteq> rg_ids rg ` {..<rg_nextId rg'}"
    by (intro image_mono) auto
  with Other show ?case
    by (simp add: days_ok_def) (meson subset_trans)
qed (simp_all add: startDay_ok endDay_ok)


end
