(* ===== verification/Receipts.thy ===== *)
theory Receipts
  imports Register_Catalog
begin

text \<open>
  What the register prints (\<open>apps/pos/src/printing/receiptFormatter.ts\<close>, \<open>businessInfo.ts\<close>,
  \<open>stationRouting.ts\<close>): the customer's receipt, the kitchen ticket, and the split of an order into
  one ticket per kitchen station. \<open>showDateTime\<close> and \<open>showTime\<close> are the device's local formats.
  Shown here: routing loses and duplicates no line, and an amount column of a receipt is never
  wider than the paper.
\<close>

record pos_settings =
  set_apiUrl :: string
  set_apiKey :: string
  set_locationId :: local_id
  set_locationName :: string
  set_taxRateBps :: int
  set_serviceChargeBps :: int
  set_printerEnabled :: bool
  set_printerTarget :: string
  set_printerCharsPerLine :: int
  set_printerAutoKitchen :: bool
  set_printerAutoReceipt :: bool

section \<open>Lines\<close>

definition line_left :: "string \<Rightarrow> receipt_line" where
  "line_left t = \<lparr>rl_text = t, rl_align = ''left'', rl_bold = False, rl_size = ''normal''\<rparr>"

definition line_center :: "string \<Rightarrow> receipt_line" where
  "line_center t = (line_left t)\<lparr>rl_align := ''center''\<rparr>"

definition bold :: "receipt_line \<Rightarrow> receipt_line" where
  "bold l = l\<lparr>rl_bold := True\<rparr>"

definition double :: "receipt_line \<Rightarrow> receipt_line" where
  "double l = l\<lparr>rl_size := ''double''\<rparr>"

definition spaces :: "int \<Rightarrow> string" where
  "spaces n = replicate (nat n) CHR '' ''"

definition twoCol :: "string \<Rightarrow> string \<Rightarrow> int \<Rightarrow> string" where
  "twoCol label value width =
     (let truncatedLabel = (if width < int (length label) + int (length value) + 1
            then take (nat (max 0 (width - int (length value) - 1))) label else label)
      in truncatedLabel @ spaces (max 1 (width - int (length truncatedLabel) - int (length value))) @ value)"

definition rule_line :: "int \<Rightarrow> string" where
  "rule_line width = replicate (nat width) CHR ''-''"

record business_info =
  bi_organizationName :: "string option"
  bi_locationName :: "string option"
  bi_address :: "string option"
  bi_city :: "string option"
  bi_state :: "string option"
  bi_postalCode :: "string option"
  bi_phoneNumber :: "string option"

definition join_present :: "string \<Rightarrow> string option list \<Rightarrow> string" where
  "join_present sep parts = js_join sep (map the (filter truthy parts))"

definition addressLines :: "business_info \<Rightarrow> string list" where
  "addressLines business =
     (let cityState = join_present '', '' [bi_city business, bi_state business];
          locality = join_present '' '' [Some cityState, bi_postalCode business]
      in (if truthy (bi_address business) then [the (bi_address business)] else []) @
         (if locality \<noteq> [] then [locality] else []))"

definition currentBusinessInfo :: "register \<Rightarrow> pos_settings \<Rightarrow> business_info" where
  "currentBusinessInfo rg settings =
     (case find (\<lambda>l. pl_id l = set_locationId settings) (getLocations rg) of
        None \<Rightarrow> \<lparr>bi_organizationName = None, bi_locationName = Some (set_locationName settings),
          bi_address = None, bi_city = None, bi_state = None, bi_postalCode = None, bi_phoneNumber = None\<rparr>
      | Some l \<Rightarrow> \<lparr>bi_organizationName = pl_organizationName l, bi_locationName = Some (pl_name l),
          bi_address = pl_address l, bi_city = pl_city l, bi_state = pl_state l,
          bi_postalCode = pl_postalCode l, bi_phoneNumber = pl_phoneNumber l\<rparr>)"

definition orderTypeLabel :: "string \<Rightarrow> string" where
  "orderTypeLabel t =
     (if t = ''dine_in'' then ''DINE IN'' else if t = ''pickup'' then ''PICKUP''
      else if t = ''delivery'' then ''DELIVERY'' else js_upper t)"

text \<open>The label of a method that is present; a receipt prints it only then.\<close>

definition paymentMethodLabel :: "string \<Rightarrow> string" where
  "paymentMethodLabel m =
     (if m = ''cash'' then ''Cash'' else if m = ''card'' then ''Card''
      else if m = ''gift_card'' then ''Gift Card'' else if m = ''store_credit'' then ''Store Credit''
      else if m = ''other'' then ''Other'' else m)"

definition namedCustomer :: "local_order \<Rightarrow> bool" where
  "namedCustomer order \<longleftrightarrow> lo_customerName order \<noteq> [] \<and> lo_customerName order \<noteq> ''Walk-in''"

definition extraLines :: "local_order_item \<Rightarrow> receipt_line list" where
  "extraLines item =
     map (\<lambda>m. line_left (''   + '' @ sm_name m)) (nvl (li_modifiers item) []) @
     (if truthy (li_notes item) then [line_left (''   * '' @ the (li_notes item))] else [])"

section \<open>The receipt\<close>

definition receiptHeader :: "(int \<Rightarrow> string) \<Rightarrow> local_order \<Rightarrow> business_info \<Rightarrow> int \<Rightarrow> receipt_line list" where
  "receiptHeader showDateTime order info width =
     (let heading = nvl (or_null (bi_organizationName info)) (nvl (or_null (bi_locationName info)) ''Receipt'')
      in [double (bold (line_center heading))] @
         (if truthy (bi_locationName info) \<and> bi_locationName info \<noteq> Some heading
          then [line_center (the (bi_locationName info))] else []) @
         map line_center (addressLines info) @
         (if truthy (bi_phoneNumber info) then [line_center (the (bi_phoneNumber info))] else []) @
         [line_left (rule_line width), bold (line_center (orderTypeLabel (lo_orderType order)))] @
         (if nvl (lo_ticketNumber order) 0 \<noteq> 0
          then [line_center (''Order #'' @ show_int (the (lo_ticketNumber order)))] else []) @
         [line_center (showDateTime (lo_createdAt order))] @
         (if truthy (lo_tableName order) then [line_center (''Table '' @ the (lo_tableName order))] else []) @
         (if namedCustomer order \<or> lo_customerPhone order \<noteq> []
          then [line_left (rule_line width)] @
            (if namedCustomer order then [line_left (lo_customerName order)] else []) @
            (if lo_customerPhone order \<noteq> [] then [line_left (lo_customerPhone order)] else [])
          else []) @
         [line_left (rule_line width)])"

definition receiptItem :: "int \<Rightarrow> local_order_item \<Rightarrow> receipt_line list" where
  "receiptItem width item =
     line_left (twoCol (show_int (li_quantity item) @ '' x '' @ li_name item)
       (formatMoney (Some (li_unitPrice item * li_quantity item))) width) # extraLines item"

definition amountLine :: "string \<Rightarrow> int \<Rightarrow> int \<Rightarrow> receipt_line" where
  "amountLine label cents width = line_left (twoCol label (formatMoney (Some cents)) width)"

definition amountDue :: "local_order \<Rightarrow> int" where
  "amountDue order = lo_totalAmount order + lo_tipAmount order - lo_loyaltyPointsRedeemed order"

definition receiptTotals :: "local_order \<Rightarrow> int \<Rightarrow> receipt_line list" where
  "receiptTotals order width =
     [amountLine ''Subtotal'' (lo_subtotal order) width] @
     (if 0 < lo_discountAmount order
      then [line_left (twoCol (if truthy (lo_discountName order)
              then ''Discount ('' @ the (lo_discountName order) @ '')'' else ''Discount'')
            (''-'' @ formatMoney (Some (lo_discountAmount order))) width)] else []) @
     (if 0 < lo_serviceChargeAmount order
      then [amountLine ''Service Charge'' (lo_serviceChargeAmount order) width] else []) @
     [amountLine ''Tax'' (lo_taxAmount order) width] @
     (if 0 < lo_tipAmount order then [amountLine ''Tip'' (lo_tipAmount order) width] else []) @
     (if 0 < lo_loyaltyPointsRedeemed order
      then [line_left (twoCol ''Loyalty Redeemed''
            (''-'' @ formatMoney (Some (lo_loyaltyPointsRedeemed order))) width)] else []) @
     [line_left (rule_line width), bold (amountLine ''Total'' (amountDue order) width)]"

definition receiptTender :: "local_order \<Rightarrow> int \<Rightarrow> receipt_line list" where
  "receiptTender order width =
     [line_left (rule_line width)] @
     (if truthy (lo_paymentMethod order)
      then [bold (line_center ''*** PAID ***''),
            line_left (twoCol ''Paid via'' (paymentMethodLabel (the (lo_paymentMethod order))) width)] @
           (case lo_tenderedAmount order of
              Some tendered \<Rightarrow>
                if lo_paymentMethod order = Some ''cash''
                then [amountLine ''Tendered'' tendered width,
                      amountLine ''Change'' (nvl (lo_changeAmount order) 0) width] else []
            | None \<Rightarrow> [])
      else [double (bold (line_center ''*** NOT PAID ***'')),
            bold (amountLine ''Balance Due'' (amountDue order) width)])"

definition buildReceiptLines :: "(int \<Rightarrow> string) \<Rightarrow> local_order \<Rightarrow> business_info \<Rightarrow> int \<Rightarrow> receipt_line list" where
  "buildReceiptLines showDateTime order info width =
     receiptHeader showDateTime order info width @ concat (map (receiptItem width) (lo_items order)) @
     [line_left (rule_line width)] @ receiptTotals order width @ receiptTender order width @
     [line_left (rule_line width), line_center ''Thank you!'']"

section \<open>The kitchen ticket\<close>

record ticket_options =
  to_items :: "local_order_item list option"
  to_stationName :: "string option"
  to_businessName :: "string option"
  to_employeeName :: "string option"

definition buildKitchenTicketLines ::
  "(int \<Rightarrow> string) \<Rightarrow> int \<Rightarrow> local_order \<Rightarrow> int \<Rightarrow> ticket_options \<Rightarrow> receipt_line list" where
  "buildKitchenTicketLines showTime now order width opts =
     (if truthy (to_businessName opts) then [bold (line_center (the (to_businessName opts)))] else []) @
     [double (bold (line_center (if truthy (lo_tableName order) then ''TABLE '' @ the (lo_tableName order)
        else js_upper (lo_orderType order))))] @
     (if truthy (to_stationName opts)
      then [bold (line_center (''STATION: '' @ js_upper (the (to_stationName opts))))] else []) @
     (if nvl (lo_ticketNumber order) 0 \<noteq> 0
      then [line_center (''Order #'' @ show_int (the (lo_ticketNumber order)))] else []) @
     (if namedCustomer order then [line_center (lo_customerName order)] else []) @
     [line_center (showTime (lo_createdAt order)), line_left (rule_line width)] @
     concat (map (\<lambda>item. double (bold (line_left (show_int (li_quantity item) @ '' x '' @ li_name item))) #
       extraLines item) (nvl (to_items opts) (lo_items order))) @
     (if truthy (lo_specialInstructions order)
      then [line_left (rule_line width), line_left (''NOTE: '' @ the (lo_specialInstructions order))] else []) @
     [line_left (rule_line width), line_left (''Printed '' @ showTime now)] @
     (if truthy (to_employeeName opts) then [line_left (''Server: '' @ the (to_employeeName opts))] else [])"

section \<open>Routing to stations\<close>

definition stationOf :: "register \<Rightarrow> local_order_item \<Rightarrow> printer_station option" where
  "stationOf rg item =
     (case getProductById rg (li_menuItemId item) of
        None \<Rightarrow> None
      | Some p \<Rightarrow>
          (case getCategoryStationMap rg (prod_categoryId p) of
             None \<Rightarrow> None
           | Some i \<Rightarrow>
               (case js_map (map (\<lambda>s. (ps_id s, s)) (listStations rg)) i of
                  None \<Rightarrow> None | Some s \<Rightarrow> if ps_enabled s then Some s else None)))"

type_synonym station_group = "printer_station option \<times> local_order_item list"

text \<open>\<open>groups\<close> is the insertion-ordered map, the default group first.\<close>

fun addToGroup :: "printer_station option \<Rightarrow> local_order_item \<Rightarrow> station_group list \<Rightarrow> station_group list" where
  "addToGroup st item [] = [(st, [item])]"
| "addToGroup st item ((s, xs) # groups) =
     (if map_option ps_id s = map_option ps_id st then (s, xs @ [item]) # groups
      else (s, xs) # addToGroup st item groups)"

definition groupItemsByStation :: "register \<Rightarrow> local_order_item list \<Rightarrow> station_group list" where
  "groupItemsByStation rg items =
     filter (\<lambda>g. snd g \<noteq> []) (fold (\<lambda>item groups. addToGroup (stationOf rg item) item groups) items [(None, [])])"

section \<open>What is printed\<close>

lemma twoCol_width:
  assumes "int (length value) < width"
  shows "int (length (twoCol label value width)) = width"
  using assms by (auto simp: twoCol_def spaces_def Let_def)

lemma line_text [simp]:
  "rl_text (line_left t) = t" "rl_text (line_center t) = t"
  "rl_text (bold l) = rl_text l" "rl_text (double l) = rl_text l"
  by (simp_all add: line_left_def line_center_def bold_def double_def)

lemma addToGroup_items:
  "mset (concat (map snd (addToGroup st item groups))) = add_mset item (mset (concat (map snd groups)))"
  by (induction st item groups rule: addToGroup.induct) auto

abbreviation groupKey :: "printer_station option \<Rightarrow> local_id option" where
  "groupKey \<equiv> map_option ps_id"

lemma addToGroup_keys:
  "map (groupKey \<circ> fst) (addToGroup st item groups) =
     (if groupKey st \<in> set (map (groupKey \<circ> fst) groups) then map (groupKey \<circ> fst) groups
      else map (groupKey \<circ> fst) groups @ [groupKey st])"
  by (induction st item groups rule: addToGroup.induct) auto

definition grouped :: "register \<Rightarrow> local_order_item list \<Rightarrow> station_group list \<Rightarrow> bool" where
  "grouped rg items groups \<longleftrightarrow> distinct (map (groupKey \<circ> fst) groups) \<and>
     (\<forall>(s, xs) \<in> set groups. xs = filter (\<lambda>i. groupKey (stationOf rg i) = groupKey s) items) \<and>
     groupKey ` stationOf rg ` set items \<subseteq> set (map (groupKey \<circ> fst) groups)"

lemma group_mem_key: "(s, xs) \<in> set groups \<Longrightarrow> groupKey s \<in> (\<lambda>g. groupKey (fst g)) ` set groups"
  by force

lemma addToGroup_mem:
  "distinct (map (groupKey \<circ> fst) groups) \<Longrightarrow> (s, xs) \<in> set (addToGroup st item groups) \<Longrightarrow>
     (groupKey s \<noteq> groupKey st \<and> (s, xs) \<in> set groups) \<or>
     (groupKey s = groupKey st \<and> (\<exists>ys. (s, ys) \<in> set groups \<and> xs = ys @ [item])) \<or>
     (s = st \<and> xs = [item] \<and> groupKey st \<notin> set (map (groupKey \<circ> fst) groups))"
  by (induction st item groups rule: addToGroup.induct) (auto split: if_splits, metis group_mem_key)

lemma grouped_add:
  assumes "grouped rg items groups"
  shows "grouped rg (items @ [item]) (addToGroup (stationOf rg item) item groups)"
proof -
  let ?st = "stationOf rg item"
  have keys: "distinct (map (groupKey \<circ> fst) groups)"
    using assms by (simp add: grouped_def)
  have "xs = filter (\<lambda>i. groupKey (stationOf rg i) = groupKey s) (items @ [item])"
    if "(s, xs) \<in> set (addToGroup ?st item groups)" for s xs
  proof -
    from addToGroup_mem[OF keys that] show ?thesis
    proof (elim disjE conjE exE)
      assume "groupKey ?st \<notin> set (map (groupKey \<circ> fst) groups)" "s = ?st" "xs = [item]"
      moreover have "groupKey (stationOf rg i) \<in> set (map (groupKey \<circ> fst) groups)" if "i \<in> set items" for i
        using assms that unfolding grouped_def by blast
      ultimately have "filter (\<lambda>i. groupKey (stationOf rg i) = groupKey ?st) items = []"
        unfolding filter_empty_conv by metis
      with \<open>s = ?st\<close> \<open>xs = [item]\<close>
      show ?thesis by simp
    qed (use assms in \<open>auto simp: grouped_def\<close>)
  qed
  moreover have "groupKey ` stationOf rg ` set (items @ [item]) \<subseteq>
      set (map (groupKey \<circ> fst) (addToGroup ?st item groups))"
    using assms unfolding grouped_def addToGroup_keys by (simp add: image_image subset_insertI2)
  ultimately show ?thesis
    using keys unfolding grouped_def addToGroup_keys by auto
qed

lemma grouped_fold:
  "grouped rg before groups \<Longrightarrow>
   grouped rg (before @ items) (fold (\<lambda>item gs. addToGroup (stationOf rg item) item gs) items groups) \<and>
   mset (concat (map snd (fold (\<lambda>item gs. addToGroup (stationOf rg item) item gs) items groups))) =
     mset (concat (map snd groups)) + mset items"
proof (induction items arbitrary: before groups)
  case (Cons item items)
  from Cons.IH[OF grouped_add[OF Cons.prems, of item]] show ?case
    by (simp add: addToGroup_items)
qed simp

text \<open>
  Routing an order to the kitchen: every line of the order is on exactly one ticket, the ticket
  of its category's station, or the default one when it has none that is enabled; a ticket has the
  lines of its station in the order they were rung up, and no ticket is empty.
\<close>

theorem routing_partitions:
  "mset (concat (map snd (groupItemsByStation rg items))) = mset items \<and>
   distinct (map (groupKey \<circ> fst) (groupItemsByStation rg items)) \<and>
   list_all (\<lambda>(s, xs). xs \<noteq> [] \<and> xs = filter (\<lambda>i. groupKey (stationOf rg i) = groupKey s) items)
     (groupItemsByStation rg items)"
proof -
  let ?groups = "fold (\<lambda>item gs. addToGroup (stationOf rg item) item gs) items [(None, [])]"
  have "grouped rg [] [(None, [])]" by (simp add: grouped_def)
  from grouped_fold[OF this, of items] have g: "grouped rg items ?groups"
    and m: "mset (concat (map snd ?groups)) = mset items" by simp_all
  have "concat (map snd (filter (\<lambda>g. snd g \<noteq> []) gs)) = concat (map snd gs)" for gs :: "station_group list"
    by (induction gs) auto
  with g m show ?thesis
    unfolding groupItemsByStation_def grouped_def
    by (auto simp: distinct_map_filter list_all_iff simp del: map_map)
qed

text \<open>
  An amount on a receipt: a label and an amount that is shorter than the paper together fill
  the line exactly, however long the label, so the amounts of a receipt stand in one column.
\<close>

theorem receipt_columns_fit:
  assumes "int (length (formatMoney (Some cents))) < width"
  shows "int (length (rl_text (amountLine label cents width))) = width \<and>
    (\<exists>before. rl_text (amountLine label cents width) = before @ formatMoney (Some cents))"
  using twoCol_width[OF assms] by (simp add: amountLine_def) (metis append.assoc twoCol_def)

section \<open>The receipt of a cart\<close>

text \<open>What the item lines of a receipt add up to.\<close>

definition printedItems :: "local_order \<Rightarrow> int" where
  "printedItems order = sum_by (\<lambda>i. li_unitPrice i * li_quantity i) (lo_items order)"

text \<open>
  The item lines of a receipt print the base price of each item: on the order of a cart they
  add up to the subtotal less everything the chosen modifiers cost and plus everything a price
  override took off, so they add up to the printed subtotal only when these cancel.
\<close>

theorem receipt_items_omit_modifiers:
  assumes "order = buildLocalOrder now i snap tax id"
  shows "lo_subtotal order - printedItems order =
    sum_by (\<lambda>l. (lineUnitPrice l - prod_price (ln_product l)) * ln_quantity l) (cs_lines snap) \<and>
    (\<forall>l \<in> set (cs_lines snap). ln_priceOverride l = None \<longrightarrow>
       lineUnitPrice l - prod_price (ln_product l) = modifierAdjustmentFor l)"
proof -
  have "sum_by (\<lambda>l. lineUnitPrice l * ln_quantity l) ls - sum_by (\<lambda>l. prod_price (ln_product l) * ln_quantity l) ls =
      sum_by (\<lambda>l. (lineUnitPrice l - prod_price (ln_product l)) * ln_quantity l) ls" for ls
    by (induction ls) (auto simp: algebra_simps)
  then show ?thesis
    using assms
    by (simp add: printedItems_def buildLocalOrder_def Let_def cartTotals_def comp_def lineUnitPrice_def)
qed

end
