(* ===== verification/Print_Queue.thy ===== *)
theory Print_Queue
  imports Receipts
begin

text \<open>
  The register's kitchen print queue: the jobs kept on the device
  (\<open>apps/pos/src/db/printQueueRepo.ts\<close>) and the service that drains them
  (\<open>apps/pos/src/printing/printQueueService.ts\<close>). The Bluetooth printer is the parameter
  \<open>device\<close>, which takes a target and the lines and answers with an error message or with none.
  A call that arrives while the queue is being drained only sets the \<open>rerun\<close> flag; \<open>pokes n\<close>
  says whether one arrived during pass \<open>n\<close>, and what else changed on the register meanwhile is
  \<open>meanwhile n\<close>. A dash in a message that is no 8-bit character is written as a hyphen.

  Shown here: a pass prints every printable job exactly once, oldest first; nothing is stranded
  after a restart; and a job that failed five times is never printed again, however often it is
  retried.
\<close>

section \<open>The jobs\<close>

definition enqueueJob :: "local_id \<Rightarrow> string \<Rightarrow> string \<Rightarrow> receipt_line list \<Rightarrow> register \<Rightarrow> pos_print_job \<times> register" where
  "enqueueJob orderId stationName target ls rg =
     (let job = \<lparr>job_id = mintId rg, job_orderId = orderId, job_stationName = stationName,
            job_target = target, job_lines = Some ls, job_status = Queued, job_attempts = 0,
            job_lastError = None, job_createdAt = rg_now rg, job_updatedAt = rg_now rg\<rparr>
      in (job, rg\<lparr>rg_printJobs := rg_printJobs rg @ [job], rg_nextId := Suc (rg_nextId rg)\<rparr>))"

definition linesFor :: "register \<Rightarrow> local_id \<Rightarrow> receipt_line list option" where
  "linesFor rg jobId = Option.bind (first_row (\<lambda>j. job_id j = jobId) (rg_printJobs rg)) job_lines"

definition claimable :: "register \<Rightarrow> pos_print_job list" where
  "claimable rg = sort_key job_createdAt (filter (\<lambda>j. job_status j \<in> {Queued, PrintFailed}) (rg_printJobs rg))"

definition updateJobs :: "(pos_print_job \<Rightarrow> bool) \<Rightarrow> (pos_print_job \<Rightarrow> pos_print_job) \<Rightarrow> register \<Rightarrow> register" where
  "updateJobs P f rg = rg\<lparr>rg_printJobs := update_where P f (rg_printJobs rg)\<rparr>"

definition marked :: "print_job_status \<Rightarrow> bool \<Rightarrow> string option \<Rightarrow> int \<Rightarrow> pos_print_job \<Rightarrow> pos_print_job" where
  "marked status incrementAttempts err now j =
     j\<lparr>job_status := status, job_attempts := job_attempts j + (if incrementAttempts then 1 else 0),
       job_lastError := err, job_updatedAt := now\<rparr>"

definition markStatus :: "local_id \<Rightarrow> print_job_status \<Rightarrow> bool \<Rightarrow> string option \<Rightarrow> register \<Rightarrow> register" where
  "markStatus jobId status incrementAttempts err rg =
     updateJobs (\<lambda>j. job_id j = jobId) (marked status incrementAttempts err (rg_now rg)) rg"

definition recoverStranded :: "register \<Rightarrow> nat \<times> register" where
  "recoverStranded rg =
     (length (filter (\<lambda>j. job_status j = Printing) (rg_printJobs rg)),
      updateJobs (\<lambda>j. job_status j = Printing)
        (\<lambda>j. j\<lparr>job_status := PrintFailed,
               job_lastError := Some ''Interrupted - the app closed mid-print.'',
               job_updatedAt := rg_now rg\<rparr>) rg)"

definition listForOrder :: "register \<Rightarrow> local_id \<Rightarrow> pos_print_job list" where
  "listForOrder rg orderId = sort_key job_createdAt (filter (\<lambda>j. job_orderId j = orderId) (rg_printJobs rg))"

definition failedCount :: "register \<Rightarrow> nat" where
  "failedCount rg = length (filter (\<lambda>j. job_status j = PrintFailed) (rg_printJobs rg))"

definition rollUp :: "print_job_status list \<Rightarrow> string" where
  "rollUp statuses =
     (if statuses = [] then ''none'' else if PrintFailed \<in> set statuses then ''failed''
      else if Printing \<in> set statuses then ''printing'' else if Queued \<in> set statuses then ''queued''
      else ''printed'')"

definition statusForOrder :: "register \<Rightarrow> local_id \<Rightarrow> string" where
  "statusForOrder rg orderId = rollUp (map job_status (listForOrder rg orderId))"

definition statusesForOrders :: "register \<Rightarrow> local_id list \<Rightarrow> local_id \<rightharpoonup> string" where
  "statusesForOrders rg orderIds i =
     (if i \<in> set orderIds
      then Some (rollUp (map job_status (filter (\<lambda>j. job_orderId j = i) (rg_printJobs rg)))) else None)"

definition requeuePrintJob :: "local_id \<Rightarrow> register \<Rightarrow> register" where
  "requeuePrintJob jobId = markStatus jobId Queued False None"

definition requeueAllFailed :: "register \<Rightarrow> nat \<times> register" where
  "requeueAllFailed rg =
     (failedCount rg,
      updateJobs (\<lambda>j. job_status j = PrintFailed)
        (\<lambda>j. j\<lparr>job_status := Queued, job_lastError := None, job_updatedAt := rg_now rg\<rparr>) rg)"

section \<open>Printing a ticket\<close>

type_synonym 'p print_device = "string \<Rightarrow> receipt_line list \<Rightarrow> 'p \<Rightarrow> string option \<times> 'p"

text \<open>The printer service: its answer is an error message, or none when the ticket was printed.\<close>

definition printLines :: "'p print_device \<Rightarrow> pos_settings \<Rightarrow> receipt_line list \<Rightarrow> string \<Rightarrow> 'p \<Rightarrow> string option \<times> 'p" where
  "printLines device settings ls target p =
     (if \<not> set_printerEnabled settings \<or> target = []
      then (Some ''No printer configured - set one up in Settings, Printer.'', p)
      else device target ls p)"

section \<open>Draining the queue\<close>

definition MAX_PRINT_ATTEMPTS :: int where
  "MAX_PRINT_ATTEMPTS = 5"

definition processJob ::
  "'p print_device \<Rightarrow> pos_settings \<Rightarrow> pos_print_job \<Rightarrow> register \<times> 'p \<Rightarrow> register \<times> 'p" where
  "processJob device settings job = (\<lambda>(rg, p).
     if job_target job = [] then
       (markStatus (job_id job) PrintFailed True (Some (''No printer paired for '' @ job_stationName job @ ''.'')) rg, p)
     else if MAX_PRINT_ATTEMPTS \<le> job_attempts job then (rg, p)
     else case linesFor rg (job_id job) of
       None \<Rightarrow> (markStatus (job_id job) PrintFailed True (Some ''Ticket data was lost; reprint from the order.'') rg, p)
     | Some ls \<Rightarrow>
         (let rg1 = markStatus (job_id job) Printing False None rg;
              (err, p') = printLines device settings ls (job_target job) p
          in (markStatus (job_id job) (if err = None then Printed else PrintFailed) True err rg1, p')))"

definition drainPass :: "'p print_device \<Rightarrow> pos_settings \<Rightarrow> register \<times> 'p \<Rightarrow> register \<times> 'p" where
  "drainPass device settings s = fold (processJob device settings) (claimable (fst s)) s"

text \<open>
  The \<open>do ... while (rerun)\<close> loop: the passes numbered from \<open>n\<close>, each followed by what changed
  meanwhile, for as long as calls kept arriving during them; \<open>fuel\<close> bounds their number.
\<close>

fun drainLoop ::
  "nat \<Rightarrow> 'p print_device \<Rightarrow> pos_settings \<Rightarrow> (nat \<Rightarrow> bool) \<Rightarrow> (nat \<Rightarrow> register \<Rightarrow> register) \<Rightarrow> nat \<Rightarrow>
   register \<times> 'p \<Rightarrow> (register \<times> 'p) option" where
  "drainLoop 0 device settings pokes meanwhile n s = None"
| "drainLoop (Suc fuel) device settings pokes meanwhile n s =
     (let (rg, p) = drainPass device settings s; s' = (meanwhile n rg, p)
      in if pokes n then drainLoop fuel device settings pokes meanwhile (Suc n) s' else Some s')"

text \<open>One call of \<open>process\<close> that finds the queue idle and is not disturbed.\<close>

definition processQueue :: "'p print_device \<Rightarrow> pos_settings \<Rightarrow> register \<times> 'p \<Rightarrow> register \<times> 'p" where
  "processQueue device settings s = the (drainLoop 1 device settings (\<lambda>_. False) (\<lambda>_ rg. rg) 0 s)"

text \<open>The ticket and the printer of a station group.\<close>

definition enqueueGroup ::
  "(int \<Rightarrow> string) \<Rightarrow> local_order \<Rightarrow> pos_settings \<Rightarrow> string option \<Rightarrow> string \<Rightarrow> station_group \<Rightarrow>
   register \<Rightarrow> register" where
  "enqueueGroup showTime order settings employeeName businessName grp rg =
     (let (st, items) = grp;
          stationName = (case st of None \<Rightarrow> ''Kitchen'' | Some s \<Rightarrow> ps_name s);
          target = (case st of None \<Rightarrow> set_printerTarget settings | Some s \<Rightarrow> ps_printerTarget s);
          ls = buildKitchenTicketLines showTime (rg_now rg) order (set_printerCharsPerLine settings)
            \<lparr>to_items = Some items, to_stationName = map_option ps_name st,
             to_businessName = Some businessName, to_employeeName = employeeName\<rparr>
      in if items = [] then rg else snd (enqueueJob (lo_id order) stationName target ls rg))"

definition enqueueOrder ::
  "(int \<Rightarrow> string) \<Rightarrow> 'p print_device \<Rightarrow> local_order \<Rightarrow> pos_settings \<Rightarrow> string option \<Rightarrow> string \<Rightarrow>
   register \<times> 'p \<Rightarrow> nat \<times> (register \<times> 'p)" where
  "enqueueOrder showTime device order settings employeeName businessName s =
     (let groups = groupItemsByStation (fst s) (lo_items order);
          rg = fold (enqueueGroup showTime order settings employeeName businessName) groups (fst s)
      in (length (filter (\<lambda>g. snd g \<noteq> []) groups), processQueue device settings (rg, snd s)))"

definition recoverAndProcess :: "'p print_device \<Rightarrow> pos_settings \<Rightarrow> register \<times> 'p \<Rightarrow> register \<times> 'p" where
  "recoverAndProcess device settings s = processQueue device settings (snd (recoverStranded (fst s)), snd s)"

definition retryJob :: "'p print_device \<Rightarrow> pos_settings \<Rightarrow> local_id \<Rightarrow> register \<times> 'p \<Rightarrow> register \<times> 'p" where
  "retryJob device settings jobId s = processQueue device settings (requeuePrintJob jobId (fst s), snd s)"

definition retryAllFailed :: "'p print_device \<Rightarrow> pos_settings \<Rightarrow> register \<times> 'p \<Rightarrow> register \<times> 'p" where
  "retryAllFailed device settings s =
     (let (n, rg) = requeueAllFailed (fst s)
      in if 0 < n then processQueue device settings (rg, snd s) else (rg, snd s))"

section \<open>Looking up a job\<close>

definition jobOf :: "register \<Rightarrow> local_id \<Rightarrow> pos_print_job option" where
  "jobOf rg i = first_row (\<lambda>j. job_id j = i) (rg_printJobs rg)"

lemma job_id_marked [simp]: "job_id (marked st b e now j) = job_id j"
  by (simp add: marked_def)

lemma jobOf_updateJobs:
  "(\<And>j. job_id (f j) = job_id j) \<Longrightarrow>
   jobOf (updateJobs P f rg) i = map_option (\<lambda>j. if P j then f j else j) (jobOf rg i)"
  unfolding jobOf_def updateJobs_def by (simp add: first_row_update_where)

lemma jobOf_id: "jobOf rg i = Some j \<Longrightarrow> job_id j = i"
  unfolding jobOf_def by (drule first_row_SomeD) simp

lemma jobOf_markStatus:
  "jobOf (markStatus k st b e rg) i =
     (if i = k then map_option (marked st b e (rg_now rg)) (jobOf rg i) else jobOf rg i)"
  unfolding markStatus_def by (cases "jobOf rg i") (auto simp: jobOf_updateJobs dest: jobOf_id)

lemma jobOf_mem:
  assumes "distinct (map job_id (rg_printJobs rg))" and "j \<in> set (rg_printJobs rg)"
  shows "jobOf rg (job_id j) = Some j"
  using assms unfolding jobOf_def
  by (cases "first_row (\<lambda>x. job_id x = job_id j) (rg_printJobs rg)")
     (auto dest!: first_row_SomeD first_row_NoneD simp: distinct_map inj_on_def)

lemma linesFor_jobOf: "linesFor rg i = Option.bind (jobOf rg i) job_lines"
  by (simp add: linesFor_def jobOf_def)

lemma ids_updateJobs:
  "(\<And>j. job_id (f j) = job_id j) \<Longrightarrow>
   map job_id (rg_printJobs (updateJobs P f rg)) = map job_id (rg_printJobs rg)"
  by (simp add: updateJobs_def map_update_where)

lemma ids_markStatus [simp]:
  "map job_id (rg_printJobs (markStatus k st b e rg)) = map job_id (rg_printJobs rg)"
  by (simp add: markStatus_def ids_updateJobs)

lemma processJob_frame:
  "map job_id (rg_printJobs (fst (processJob device settings job s))) = map job_id (rg_printJobs (fst s))"
  "i \<noteq> job_id job \<Longrightarrow> jobOf (fst (processJob device settings job s)) i = jobOf (fst s) i"
  by (auto simp: processJob_def jobOf_markStatus Let_def split: prod.splits option.splits)

lemma fold_processJob_frame:
  "map job_id (rg_printJobs (fst (fold (processJob device settings) js s))) = map job_id (rg_printJobs (fst s))"
  "i \<notin> job_id ` set js \<Longrightarrow> jobOf (fst (fold (processJob device settings) js s)) i = jobOf (fst s) i"
  by (induction js arbitrary: s) (auto simp: processJob_frame)

lemma claimable_mem:
  "j \<in> set (claimable rg) \<longleftrightarrow> j \<in> set (rg_printJobs rg) \<and> job_status j \<in> {Queued, PrintFailed}"
  by (auto simp: claimable_def)

lemma distinct_map_sort_key: "distinct (map f (sort_key g xs)) \<longleftrightarrow> distinct (map f xs)"
  by (metis distinct_map distinct_sort set_sort)

lemma claimable_distinct:
  "distinct (map job_id (rg_printJobs rg)) \<Longrightarrow> distinct (map job_id (claimable rg))"
  by (simp add: claimable_def distinct_map_sort_key distinct_map_filter)

lemma processQueue_pass: "processQueue device settings s = drainPass device settings s"
  by (cases "drainPass device settings s") (simp add: processQueue_def)

section \<open>One pass\<close>

definition printable :: "pos_print_job \<Rightarrow> bool" where
  "printable j \<longleftrightarrow> job_target j \<noteq> [] \<and> job_attempts j < MAX_PRINT_ATTEMPTS \<and> job_lines j \<noteq> None"

text \<open>A printer that answers as \<open>outcome\<close> says and keeps what it was sent.\<close>

definition recording :: "(nat \<Rightarrow> string option) \<Rightarrow> (string \<times> receipt_line list) list print_device" where
  "recording outcome target ls paper = (outcome (length paper), paper @ [(target, ls)])"

definition ticket :: "pos_print_job \<Rightarrow> string \<times> receipt_line list" where
  "ticket j = (job_target j, the (job_lines j))"

lemma processJob_printable:
  assumes "set_printerEnabled settings" and "jobOf rg (job_id j) = Some j" and "printable j"
  shows "processJob (recording outcome) settings j (rg, paper) =
    (markStatus (job_id j) (if outcome (length paper) = None then Printed else PrintFailed) True
       (outcome (length paper)) (markStatus (job_id j) Printing False None rg), paper @ [ticket j])"
  using assms
  by (auto simp: processJob_def printable_def linesFor_jobOf printLines_def recording_def ticket_def Let_def)

lemma processJob_unprintable:
  assumes "jobOf rg (job_id j) = Some j" and "\<not> printable j"
  shows "snd (processJob device settings j (rg, p)) = p"
  using assms by (auto simp: processJob_def printable_def linesFor_jobOf split: option.splits)

lemma fold_processJob:
  assumes "set_printerEnabled settings"
    and "distinct (map job_id js)" and "\<forall>j \<in> set js. jobOf rg (job_id j) = Some j"
  shows "snd (fold (processJob (recording outcome) settings) js (rg, paper)) = paper @ map ticket (filter printable js) \<and>
    (\<forall>k < length (filter printable js). \<exists>j'.
       jobOf (fst (fold (processJob (recording outcome) settings) js (rg, paper))) (job_id (filter printable js ! k)) = Some j' \<and>
       job_status j' = (if outcome (length paper + k) = None then Printed else PrintFailed))"
  using assms(2,3)
proof (induction js arbitrary: rg paper)
  case (Cons j js)
  let ?step = "processJob (recording outcome) settings j (rg, paper)"
  obtain rg1 paper1 where step: "?step = (rg1, paper1)" by (cases ?step)
  have here: "jobOf rg (job_id j) = Some j" using Cons.prems by simp
  have rest: "\<forall>x \<in> set js. jobOf rg1 (job_id x) = Some x"
  proof
    fix x
    assume x: "x \<in> set js"
    with Cons.prems(1) have "job_id x \<noteq> job_id j" by (auto simp: image_iff)
    with x show "jobOf rg1 (job_id x) = Some x"
      using Cons.prems(2) processJob_frame(2)[of "job_id x" j "recording outcome" settings "(rg, paper)"] step by simp
  qed
  note ih = Cons.IH[OF _ rest, of paper1]
  show ?case
  proof (cases "printable j")
    case True
    from processJob_printable[OF assms(1) here True, of outcome paper] step
    have r: "paper1 = paper @ [ticket j]"
      "rg1 = markStatus (job_id j) (if outcome (length paper) = None then Printed else PrintFailed) True
         (outcome (length paper)) (markStatus (job_id j) Printing False None rg)" by simp_all
    then have "\<exists>j'. jobOf rg1 (job_id j) = Some j' \<and>
        job_status j' = (if outcome (length paper) = None then Printed else PrintFailed)"
      using here by (simp add: jobOf_markStatus marked_def)
    moreover have "jobOf (fst (fold (processJob (recording outcome) settings) js (rg1, paper1))) (job_id j) = jobOf rg1 (job_id j)"
      using Cons.prems(1) by (simp add: fold_processJob_frame)
    ultimately show ?thesis
      using ih Cons.prems(1) True step r(1) by (auto simp: nth_Cons less_Suc_eq_0_disj split: nat.splits)
  next
    case False
    then have "paper1 = paper"
      using processJob_unprintable[OF here False, of "recording outcome" settings paper] step by simp
    with ih Cons.prems(1) False step show ?thesis by simp
  qed
qed simp

text \<open>
  C21. Draining the print queue: a pass sends every job that can be printed to its printer exactly
  once, the oldest first, and nothing else; a job whose printer answered without an error is
  printed afterwards, one whose printer did not is failed and stays to be tried again.
\<close>

theorem drain_prints_each_once:
  assumes "distinct (map job_id (rg_printJobs rg))" and "set_printerEnabled settings"
    and "jobs = filter printable (claimable rg)"
    and "drainPass (recording outcome) settings (rg, []) = (rg', paper)"
  shows "paper = map ticket jobs \<and> sorted (map job_createdAt jobs) \<and>
    (\<forall>k < length jobs. \<exists>j'. jobOf rg' (job_id (jobs ! k)) = Some j' \<and>
       job_status j' = (if outcome k = None then Printed else PrintFailed)) \<and>
    (\<forall>j \<in> set (rg_printJobs rg). job_status j \<in> {Printed, Printing} \<longrightarrow> jobOf rg' (job_id j) = Some j)"
proof -
  have here: "\<forall>j \<in> set (claimable rg). jobOf rg (job_id j) = Some j"
    using jobOf_mem[OF assms(1)] by (auto simp: claimable_mem)
  note pass = fold_processJob[OF assms(2) claimable_distinct[OF assms(1)] here, of outcome "[]"]
  have run: "fold (processJob (recording outcome) settings) (claimable rg) (rg, []) = (rg', paper)"
    using assms(4) by (simp add: drainPass_def)
  have "jobOf rg' (job_id j) = Some j"
    if "j \<in> set (rg_printJobs rg)" "job_status j \<in> {Printed, Printing}" for j
  proof -
    have "job_id j \<notin> job_id ` set (claimable rg)"
    proof
      assume "job_id j \<in> job_id ` set (claimable rg)"
      then obtain x where "x \<in> set (claimable rg)" "job_id x = job_id j" by auto
      with here have "jobOf rg (job_id j) = Some x" by metis
      with jobOf_mem[OF assms(1) that(1)] have "x = j" by simp
      with \<open>x \<in> set (claimable rg)\<close> that(2) show False by (auto simp: claimable_mem)
    qed
    then show ?thesis
      using fold_processJob_frame(2)[of "job_id j" "claimable rg" "recording outcome" settings "(rg, [])"]
        jobOf_mem[OF assms(1) that(1)] run by simp
  qed
  moreover have "sorted (map job_createdAt jobs)"
    unfolding assms(3) claimable_def by (simp add: sorted_filter)
  moreover have "paper = map ticket jobs"
    using pass unfolding run assms(3) by simp
  moreover have "\<forall>k < length jobs. \<exists>j'. jobOf rg' (job_id (jobs ! k)) = Some j' \<and>
      job_status j' = (if outcome k = None then Printed else PrintFailed)"
    using pass unfolding run assms(3) by simp
  ultimately show ?thesis by blast
qed

section \<open>Reprinting\<close>

datatype queue_op = RetryJob local_id | RetryAll | Process | Recover

fun queueOp :: "'p print_device \<Rightarrow> pos_settings \<Rightarrow> queue_op \<Rightarrow> register \<times> 'p \<Rightarrow> register \<times> 'p" where
  "queueOp device settings (RetryJob i) s = retryJob device settings i s"
| "queueOp device settings RetryAll s = retryAllFailed device settings s"
| "queueOp device settings Process s = processQueue device settings s"
| "queueOp device settings Recover s = recoverAndProcess device settings s"

text \<open>A job the queue has given up on: not printed, out of attempts.\<close>

definition given_up :: "pos_print_job option \<Rightarrow> bool" where
  "given_up x = (case x of None \<Rightarrow> False
   | Some j \<Rightarrow> job_status j \<in> {Queued, PrintFailed} \<and> job_target j \<noteq> [] \<and> MAX_PRINT_ATTEMPTS \<le> job_attempts j)"

lemma given_upD: "given_up x \<Longrightarrow> \<exists>j. x = Some j \<and> job_status j \<in> {Queued, PrintFailed} \<and>
    job_target j \<noteq> [] \<and> MAX_PRINT_ATTEMPTS \<le> job_attempts j"
  by (auto simp: given_up_def split: option.splits)

lemma given_up_requeue:
  "given_up (jobOf rg i) \<Longrightarrow> given_up (jobOf (requeuePrintJob k rg) i)"
  "given_up (jobOf rg i) \<Longrightarrow> given_up (jobOf (snd (requeueAllFailed rg)) i)"
  "given_up (jobOf rg i) \<Longrightarrow> given_up (jobOf (snd (recoverStranded rg)) i)"
  by (cases "jobOf rg i"; auto simp: given_up_def requeuePrintJob_def requeueAllFailed_def recoverStranded_def
        jobOf_markStatus jobOf_updateJobs marked_def)+

lemma given_up_pass:
  assumes "distinct (map job_id (rg_printJobs (fst s)))" and "given_up (jobOf (fst s) i)"
  shows "jobOf (fst (drainPass device settings s)) i = jobOf (fst s) i"
proof -
  from assms(2) obtain j where j: "jobOf (fst s) i = Some j" "job_target j \<noteq> []" "MAX_PRINT_ATTEMPTS \<le> job_attempts j"
    by (auto dest: given_upD)
  have "jobOf (fst (fold (processJob device settings) js s)) i = Some j"
    if "\<forall>x \<in> set js. job_id x = i \<longrightarrow> x = j" "jobOf (fst s) i = Some j" for js s
    using that
  proof (induction js arbitrary: s)
    case (Cons x js)
    have "jobOf (fst (processJob device settings x s)) i = Some j"
      using Cons.prems j(2,3) processJob_frame(2)[of i x device settings s]
      by (cases "job_id x = i") (auto simp: processJob_def split: prod.splits)
    with Cons show ?case by simp
  qed simp
  moreover have "x = j" if "x \<in> set (claimable (fst s))" "job_id x = i" for x
    using that j(1) jobOf_mem[OF assms(1)] by (auto simp: claimable_mem)
  ultimately show ?thesis
    using j(1) unfolding drainPass_def by auto
qed

lemma queueOp_given_up:
  assumes "distinct (map job_id (rg_printJobs (fst s)))" and "given_up (jobOf (fst s) i)"
  shows "given_up (jobOf (fst (queueOp device settings op s)) i) \<and>
    distinct (map job_id (rg_printJobs (fst (queueOp device settings op s))))"
proof -
  have ids: "map job_id (rg_printJobs (requeuePrintJob k rg)) = map job_id (rg_printJobs rg)"
    "map job_id (rg_printJobs (snd (requeueAllFailed rg))) = map job_id (rg_printJobs rg)"
    "map job_id (rg_printJobs (snd (recoverStranded rg))) = map job_id (rg_printJobs rg)" for k rg
    by (simp_all add: requeuePrintJob_def requeueAllFailed_def recoverStranded_def ids_updateJobs)
  have pass: "given_up (jobOf (fst (drainPass device settings (rg, p))) i) \<and>
      distinct (map job_id (rg_printJobs (fst (drainPass device settings (rg, p)))))"
    if "distinct (map job_id (rg_printJobs rg))" "given_up (jobOf rg i)" for rg p
    using that given_up_pass[of "(rg, p)"] by (simp add: drainPass_def fold_processJob_frame)
  show ?thesis
  proof (cases op)
    case (RetryJob k)
    with pass[of "requeuePrintJob k (fst s)" "snd s"] show ?thesis
      using assms(1) given_up_requeue(1)[OF assms(2)] ids(1) by (simp add: retryJob_def processQueue_pass)
  next
    case RetryAll
    with pass[of "snd (requeueAllFailed (fst s))" "snd s"] show ?thesis
      using assms(1) given_up_requeue(2)[OF assms(2)] ids(2)
      by (simp add: retryAllFailed_def processQueue_pass Let_def case_prod_unfold)
  next
    case Process
    with pass[of "fst s" "snd s"] show ?thesis
      using assms by (simp add: processQueue_pass)
  next
    case Recover
    with pass[of "snd (recoverStranded (fst s))" "snd s"] show ?thesis
      using assms(1) given_up_requeue(3)[OF assms(2)] ids(3) by (simp add: recoverAndProcess_def processQueue_pass)
  qed
qed

text \<open>
  A ticket that failed five times is never printed again: whatever is retried, one job, all
  failed ones, or the queue after a restart, and however often, the job stays unprinted; retrying
  it only takes it off the count of failed tickets the register shows.
\<close>

theorem exhausted_job_never_prints:
  assumes "distinct (map job_id (rg_printJobs rg))" and "jobOf rg i = Some j"
    and "job_status j = PrintFailed" and "job_target j \<noteq> []" and "MAX_PRINT_ATTEMPTS \<le> job_attempts j"
  shows "\<exists>j'. jobOf (fst (fold (queueOp device settings) ops (rg, p))) i = Some j' \<and> job_status j' \<noteq> Printed \<and>
    (\<exists>q. jobOf (fst (retryJob device settings i (rg, p))) i = Some q \<and> job_status q = Queued)"
proof -
  have keep: "given_up (jobOf (fst (fold (queueOp device settings) ops s)) i)"
    if "distinct (map job_id (rg_printJobs (fst s)))" "given_up (jobOf (fst s) i)" for s
    using that
  proof (induction ops arbitrary: s)
    case (Cons op ops)
    with queueOp_given_up[OF Cons.prems, of device settings op] show ?case by simp
  qed simp
  have g: "given_up (jobOf rg i)"
    using assms(2-5) by (auto simp: given_up_def)
  have q: "jobOf (requeuePrintJob i rg) i = Some (marked Queued False None (rg_now rg) j)"
    using assms(2) by (simp add: requeuePrintJob_def jobOf_markStatus)
  have "jobOf (fst (retryJob device settings i (rg, p))) i = jobOf (requeuePrintJob i rg) i"
    unfolding retryJob_def processQueue_pass
    using given_up_pass[of "(requeuePrintJob i rg, p)" i device settings] given_up_requeue(1)[OF g] assms(1)
    by (simp add: requeuePrintJob_def)
  with q keep[of "(rg, p)"] assms(1) g show ?thesis
    by (auto simp: marked_def dest: given_upD)
qed

end
