(* ===== verification/Sync_Engine.thy ===== *)
theory Sync_Engine
  imports Register_Store Receipts "HOL-Library.Sublist"
begin

text \<open>
  The offline-first synchronizer of the register (\<open>apps/pos/src/sync/syncEngine.ts\<close>) and the API
  client it talks through (\<open>apps/pos/src/api/client.ts\<close>). The network and the server behind it are
  the parameter \<open>server\<close>: what \<open>fetch\<close> answers to a request, an error message or an HTTP response
  with its decoded body, and the server's next state. \<open>isoText\<close> is the text of an instant.

  Shown here: the outbox is drained in order, an order's operations reach the server as a prefix of
  its queue, nothing leaves the queue before the server accepted it, an accepting server empties
  it, and a clock set back while an order is queued stops the register from syncing for good.
\<close>

section \<open>The API client\<close>

record pos_order_payload =
  wo_locationId :: local_id
  wo_customerId :: "local_id option"
  wo_customerName :: "string option"
  wo_customerPhone :: "string option"
  wo_tableId :: "local_id option"
  wo_orderType :: string
  wo_specialInstructions :: "string option"
  wo_paymentMethod :: "string option"
  wo_discountId :: "local_id option"
  wo_tipAmount :: "int option"
  wo_applyServiceCharge :: "bool option"
  wo_redeemPoints :: "int option"
  wo_clientOrderId :: local_id
  wo_fireMode :: string
  wo_items :: "delta_line list"

text \<open>The requests of the synchronizer; an order is addressed by its server id.\<close>

datatype api_request =
    PostPosOrder pos_order_payload
  | PostOrderItems string local_id "delta_line list option"
  | PostFire string local_id "int option"
  | PostPay string mutation_payload
  | PostCustomer string "string option" "string option" "string option"
  | GetMenu "local_id option"
  | GetCustomers
  | GetLocations
  | GetDiscounts
  | GetFloorPlans local_id

datatype api_reply =
    OrderReply string "int option"
  | CustomerReply server_customer
  | MenuReply "menu_category_payload list option"
  | CustomersReply "server_customer list option"
  | LocationsReply "pos_location list option"
  | DiscountsReply "pos_discount list option"
  | FloorPlansReply "floor_plan_payload list option"
  | OtherReply

text \<open>The \<open>message\<close> of an error body: a text, or the texts of a failed validation.\<close>

datatype error_text = OneText string | ManyTexts "string list"

record http_response =
  hr_status :: int
  hr_message :: "error_text option"
  hr_body :: api_reply

type_synonym 's server = "api_request \<Rightarrow> 's \<Rightarrow> (string + http_response) \<times> 's"

datatype api_error = ApiNetworkError string | ApiRequestError int string | OtherError string

fun errorMessage :: "api_error \<Rightarrow> string" where
  "errorMessage (ApiNetworkError m) = m"
| "errorMessage (ApiRequestError _ m) = m"
| "errorMessage (OtherError m) = m"

definition isConfigured :: "pos_settings \<Rightarrow> bool" where
  "isConfigured settings \<longleftrightarrow> set_apiUrl settings \<noteq> [] \<and> set_apiKey settings \<noteq> []"

definition responseOk :: "http_response \<Rightarrow> bool" where
  "responseOk r \<longleftrightarrow> 200 \<le> hr_status r \<and> hr_status r \<le> 299"

definition errorText :: "http_response \<Rightarrow> string" where
  "errorText r =
     (case hr_message r of
        Some (OneText m) \<Rightarrow> if m = [] then ''HTTP '' @ show_int (hr_status r) else m
      | Some (ManyTexts ms) \<Rightarrow> js_join ''; '' ms
      | None \<Rightarrow> ''HTTP '' @ show_int (hr_status r))"

definition apiRequest :: "'s server \<Rightarrow> api_request \<Rightarrow> 's \<Rightarrow> (api_error + api_reply) \<times> 's" where
  "apiRequest server req s =
     (case server req s of
        (Inl m, s') \<Rightarrow> (Inl (ApiNetworkError m), s')
      | (Inr r, s') \<Rightarrow>
          (if responseOk r then Inr (hr_body r) else Inl (ApiRequestError (hr_status r) (errorText r)), s'))"

section \<open>The engine\<close>

record sync_state =
  ss_syncing :: bool
  ss_lastSyncAt :: "string option"
  ss_pendingOrders :: nat
  ss_failedOrders :: nat
  ss_lastError :: "string option"

record 's sync_world =
  sw_reg :: register
  sw_state :: sync_state
  sw_server :: 's

definition onReg :: "(register \<Rightarrow> register) \<Rightarrow> 's sync_world \<Rightarrow> 's sync_world" where
  "onReg f w = w\<lparr>sw_reg := f (sw_reg w)\<rparr>"

definition refreshCounts :: "'s sync_world \<Rightarrow> 's sync_world" where
  "refreshCounts w = w\<lparr>sw_state := (sw_state w)\<lparr>ss_pendingOrders := countPendingOrders (sw_reg w),
     ss_failedOrders := countFailed (sw_reg w)\<rparr>\<rparr>"

definition initSync :: "'s sync_world \<Rightarrow> 's sync_world" where
  "initSync w = refreshCounts (w\<lparr>sw_state := (sw_state w)\<lparr>ss_lastSyncAt := getMeta (sw_reg w) ''lastSyncAt''\<rparr>\<rparr>)"

definition callApi :: "'s server \<Rightarrow> api_request \<Rightarrow> 's sync_world \<Rightarrow> (api_error + api_reply) \<times> 's sync_world" where
  "callApi server req w = (let (r, s) = apiRequest server req (sw_server w) in (r, w\<lparr>sw_server := s\<rparr>))"

text \<open>A step that may throw, then the rest.\<close>

definition andThen ::
  "('w \<Rightarrow> (api_error + 'a) \<times> 'w) \<Rightarrow> ('a \<Rightarrow> 'w \<Rightarrow> (api_error + 'b) \<times> 'w) \<Rightarrow> 'w \<Rightarrow> (api_error + 'b) \<times> 'w" where
  "andThen m f w = (case m w of (Inl e, w') \<Rightarrow> (Inl e, w') | (Inr a, w') \<Rightarrow> f a w')"

section \<open>One queued operation\<close>

definition orNull :: "int \<Rightarrow> int option" where
  "orNull n = (if n = 0 then None else Some n)"

definition createPayload :: "pos_settings \<Rightarrow> local_order \<Rightarrow> pos_order_payload" where
  "createPayload settings order =
     \<lparr>wo_locationId = set_locationId settings, wo_customerId = lo_customerId order,
      wo_customerName = or_null (Some (lo_customerName order)),
      wo_customerPhone = or_null (Some (lo_customerPhone order)), wo_tableId = lo_tableId order,
      wo_orderType = lo_orderType order, wo_specialInstructions = lo_specialInstructions order,
      wo_paymentMethod = lo_paymentMethod order, wo_discountId = lo_discountId order,
      wo_tipAmount = orNull (lo_tipAmount order),
      wo_applyServiceCharge = (if 0 < lo_serviceChargeAmount order then Some True else None),
      wo_redeemPoints = orNull (lo_loyaltyPointsRedeemed order), wo_clientOrderId = lo_id order,
      wo_fireMode = lo_fireMode order,
      wo_items = map (\<lambda>i. \<lparr>dl_menuItemId = li_menuItemId i, dl_quantity = li_quantity i,
        dl_notes = li_notes i, dl_course = li_course i,
        dl_optionIds = map_option (map sm_optionId) (li_modifiers i),
        dl_priceOverride = li_priceOverride i,
        dl_priceOverrideReason = li_priceOverrideReason i\<rparr>) (lo_items order)\<rparr>"

definition requireServerId :: "local_order \<Rightarrow> api_error + string" where
  "requireServerId order =
     (if truthy (lo_serverId order) then Inr (the (lo_serverId order))
      else Inl (ApiNetworkError (''Order '' @ lo_id order @ '' has no server id yet; its create has not landed.'')))"

definition payload_items :: "mutation_payload \<Rightarrow> delta_line list option" where
  "payload_items p = (case p of ItemsPayload items \<Rightarrow> Some items | _ \<Rightarrow> None)"

definition payload_course :: "mutation_payload \<Rightarrow> int option" where
  "payload_course p = (case p of CoursePayload c \<Rightarrow> Some c | _ \<Rightarrow> None)"

text \<open>The request an operation makes; only a create needs no server id.\<close>

definition requestFor :: "pos_settings \<Rightarrow> order_mutation \<Rightarrow> local_order \<Rightarrow> api_error + api_request" where
  "requestFor settings m order =
     (case mu_kind m of
        MCreate \<Rightarrow> Inr (PostPosOrder (createPayload settings order))
      | MAppend \<Rightarrow> map_sum id (\<lambda>i. PostOrderItems i (mu_id m) (payload_items (mu_payload m))) (requireServerId order)
      | MFire \<Rightarrow> map_sum id (\<lambda>i. PostFire i (mu_id m) (payload_course (mu_payload m))) (requireServerId order)
      | MSettle \<Rightarrow> map_sum id (\<lambda>i. PostPay i (mu_payload m)) (requireServerId order))"

text \<open>What the register records when the server accepted it.\<close>

definition applyReply :: "order_mutation \<Rightarrow> local_order \<Rightarrow> api_reply \<Rightarrow> register \<Rightarrow> (api_error + unit) \<times> register" where
  "applyReply m order reply rg =
     (case mu_kind m of
        MCreate \<Rightarrow>
          (case reply of
             OrderReply i ticket \<Rightarrow>
               (Inr (), (if lo_status order = OpenTab then attachServerId else markSynced) (lo_id order) i ticket rg)
           | _ \<Rightarrow> (Inl (OtherError ''TypeError''), rg))
      | MSettle \<Rightarrow> (Inr (), markSynced (lo_id order) (the (lo_serverId order)) (lo_ticketNumber order) rg)
      | _ \<Rightarrow> (Inr (), rg))"

definition dispatch ::
  "'s server \<Rightarrow> pos_settings \<Rightarrow> order_mutation \<Rightarrow> local_order \<Rightarrow> 's sync_world \<Rightarrow> (api_error + unit) \<times> 's sync_world" where
  "dispatch server settings m order w =
     (case requestFor settings m order of
        Inl e \<Rightarrow> (Inl e, w)
      | Inr req \<Rightarrow>
          andThen (callApi server req) (\<lambda>reply w.
            let (r, rg) = applyReply m order reply (sw_reg w) in (r, w\<lparr>sw_reg := rg\<rparr>)) w)"

section \<open>Draining the outbox\<close>

text \<open>The server understood the request and rejected it.\<close>

definition rejected :: "api_error \<Rightarrow> bool" where
  "rejected e = (case e of ApiRequestError status _ \<Rightarrow> status < 500 | _ \<Rightarrow> False)"

fun pushLoop ::
  "'s server \<Rightarrow> pos_settings \<Rightarrow> order_mutation list \<Rightarrow> local_id set \<Rightarrow> 's sync_world \<Rightarrow> (api_error + unit) \<times> 's sync_world" where
  "pushLoop server settings [] blocked w = (Inr (), w)"
| "pushLoop server settings (m # ms) blocked w =
     (if truthy (mu_lastError m) then pushLoop server settings ms (insert (mu_orderId m) blocked) w
      else if mu_orderId m \<in> blocked then pushLoop server settings ms blocked w
      else case getOrderById (sw_reg w) (mu_orderId m) of
        None \<Rightarrow> pushLoop server settings ms blocked (onReg (removeMutation (mu_id m)) w)
      | Some order \<Rightarrow>
          (case dispatch server settings m order w of
             (Inr _, w') \<Rightarrow>
               pushLoop server settings ms blocked (refreshCounts (onReg (removeMutation (mu_id m)) w'))
           | (Inl e, w') \<Rightarrow>
               if rejected e then
                 pushLoop server settings ms (insert (mu_orderId m) blocked)
                   (refreshCounts (onReg (markOrderFailed (mu_orderId m) (errorMessage e))
                     (onReg (markMutationFailed (mu_id m) (errorMessage e)) w')))
               else (Inl e, refreshCounts (onReg (bumpAttempts (mu_id m)) w'))))"

definition pushMutations :: "'s server \<Rightarrow> pos_settings \<Rightarrow> 's sync_world \<Rightarrow> (api_error + unit) \<times> 's sync_world" where
  "pushMutations server settings w = pushLoop server settings (listPending (sw_reg w)) {} w"

section \<open>The rest of a sync\<close>

fun pushCustomerLoop :: "'s server \<Rightarrow> pos_customer list \<Rightarrow> 's sync_world \<Rightarrow> (api_error + unit) \<times> 's sync_world" where
  "pushCustomerLoop server [] w = (Inr (), w)"
| "pushCustomerLoop server (c # cs) w =
     andThen (callApi server (PostCustomer (pc_name c) (pc_phone c) (pc_email c) (pc_notes c))) (\<lambda>reply w.
       case reply of
         CustomerReply sc \<Rightarrow> pushCustomerLoop server cs (onReg (resolveLocalCustomer (pc_id c) sc) w)
       | _ \<Rightarrow> (Inl (OtherError ''TypeError''), w)) w"

definition pushCustomers :: "'s server \<Rightarrow> 's sync_world \<Rightarrow> (api_error + unit) \<times> 's sync_world" where
  "pushCustomers server w = pushCustomerLoop server (listDirtyCustomers (sw_reg w)) w"

text \<open>A repository call that may throw a database error.\<close>

definition inDb :: "(register \<Rightarrow> (error + unit) \<times> register) \<Rightarrow> 's sync_world \<Rightarrow> (api_error + unit) \<times> 's sync_world" where
  "inDb f w = (let (r, rg) = f (sw_reg w)
     in (map_sum (\<lambda>_. OtherError ''UNIQUE constraint failed'') id r, w\<lparr>sw_reg := rg\<rparr>))"

text \<open>The lists of the replies; anything else reads as absent.\<close>

definition menuOf :: "api_reply \<Rightarrow> menu_category_payload list" where
  "menuOf r = (case r of MenuReply xs \<Rightarrow> nvl xs [] | _ \<Rightarrow> [])"

definition customersOf :: "api_reply \<Rightarrow> server_customer list" where
  "customersOf r = (case r of CustomersReply xs \<Rightarrow> nvl xs [] | _ \<Rightarrow> [])"

definition locationsOf :: "api_reply \<Rightarrow> pos_location list" where
  "locationsOf r = (case r of LocationsReply xs \<Rightarrow> nvl xs [] | _ \<Rightarrow> [])"

definition discountsOf :: "api_reply \<Rightarrow> pos_discount list" where
  "discountsOf r = (case r of DiscountsReply xs \<Rightarrow> nvl xs [] | _ \<Rightarrow> [])"

definition plansOf :: "api_reply \<Rightarrow> floor_plan_payload list" where
  "plansOf r = (case r of FloorPlansReply xs \<Rightarrow> nvl xs [] | _ \<Rightarrow> [])"

text \<open>
  The four requests of \<open>Promise.all\<close> are all sent, in some order; the first failure is the one
  that is thrown, and then nothing is stored.
\<close>

definition pullAll :: "'s server \<Rightarrow> pos_settings \<Rightarrow> 's sync_world \<Rightarrow> (api_error + unit) \<times> 's sync_world" where
  "pullAll server settings w0 =
     (let (menu, w1) = callApi server (GetMenu (or_null (Some (set_locationId settings)))) w0;
          (customers, w2) = callApi server GetCustomers w1;
          (locations, w3) = callApi server GetLocations w2;
          (discounts, w4) = callApi server GetDiscounts w3
      in case (menu, customers, locations, discounts) of
           (Inr m, Inr c, Inr l, Inr d) \<Rightarrow>
             andThen (inDb (replaceCatalog (menuOf m))) (\<lambda>_.
             andThen (\<lambda>w. (Inr (), onReg (mergeServerCustomers (customersOf c)) w)) (\<lambda>_.
             andThen (inDb (replaceLocations (locationsOf l))) (\<lambda>_.
             andThen (inDb (replaceDiscounts (discountsOf d))) (\<lambda>_ w.
               if set_locationId settings \<noteq> []
               then andThen (callApi server (GetFloorPlans (set_locationId settings)))
                      (\<lambda>plans. inDb (replaceTables (plansOf plans))) w
               else (Inr (), w))))) w4
         | (Inl e, _) \<Rightarrow> (Inl e, w4)
         | (_, Inl e, _) \<Rightarrow> (Inl e, w4)
         | (_, _, Inl e, _) \<Rightarrow> (Inl e, w4)
         | (_, _, _, Inl e) \<Rightarrow> (Inl e, w4))"

definition updateState :: "(sync_state \<Rightarrow> sync_state) \<Rightarrow> 's sync_world \<Rightarrow> 's sync_world" where
  "updateState f w = w\<lparr>sw_state := f (sw_state w)\<rparr>"

definition finishSync :: "(int \<Rightarrow> string) \<Rightarrow> 's sync_world \<Rightarrow> (api_error + unit) \<times> 's sync_world" where
  "finishSync isoText w =
     (let w' = onReg (setMeta ''lastSyncAt'' (isoText (rg_now (sw_reg w)))) w
      in (Inr (), updateState (\<lambda>s. s\<lparr>ss_lastSyncAt := getMeta (sw_reg w') ''lastSyncAt''\<rparr>) w'))"

definition syncAll :: "(int \<Rightarrow> string) \<Rightarrow> 's server \<Rightarrow> pos_settings \<Rightarrow> 's sync_world \<Rightarrow> 's sync_world" where
  "syncAll isoText server settings w =
     (if \<not> isConfigured settings \<or> ss_syncing (sw_state w) then w
      else
        let (r, w') = andThen (pushCustomers server) (\<lambda>_. andThen (pushMutations server settings) (\<lambda>_.
              andThen (pullAll server settings) (\<lambda>_. finishSync isoText)))
              (updateState (\<lambda>s. s\<lparr>ss_syncing := True, ss_lastError := None\<rparr>) w);
            w'' = (case r of Inl e \<Rightarrow> updateState (\<lambda>s. s\<lparr>ss_lastError := Some (errorMessage e)\<rparr>) w' | Inr _ \<Rightarrow> w')
        in updateState (\<lambda>s. s\<lparr>ss_syncing := False\<rparr>) (refreshCounts w''))"

end
