(* ===== verification/Demo_Register.thy ===== *)
theory Demo_Register
  imports Register_Cart Register_Store Register_Catalog Register_Day Receipts Print_Queue Sync_Engine
begin

text \<open>
  A small register on which the theorems of the register's theories are applied to concrete carts,
  drawers and print jobs: a menu of one dish, one open tab, one printer. Ids are unary numbers and
  the collation order is the numeral a string spells in base 257.
\<close>

section \<open>Ids and a collation order\<close>

definition demoIds :: "nat \<Rightarrow> local_id" where
  "demoIds n = replicate n CHR ''n''"

lemma demoIds_inj: "inj demoIds"
  by (rule injI) (metis demoIds_def length_replicate)

fun stringCode :: "string \<Rightarrow> nat" where
  "stringCode [] = 0"
| "stringCode (c # cs) = 1 + of_char c + 257 * stringCode cs"

lemma stringCode_digits:
  "stringCode (c # cs) mod 257 = 1 + of_char c" "stringCode (c # cs) div 257 = stringCode cs"
proof -
  have digit: "1 + of_char c < (257::nat)" by (cases c) (simp add: of_char_def)
  then show "stringCode (c # cs) mod 257 = 1 + of_char c" by simp
  have "(1 + of_char c + 257 * stringCode cs) div 257 = stringCode cs + (1 + of_char c) div 257"
    by (rule div_mult_self2) simp
  with digit show "stringCode (c # cs) div 257 = stringCode cs" by simp
qed

lemma stringCode_inj: "stringCode s = stringCode t \<Longrightarrow> s = t"
proof (induction s arbitrary: t)
  case Nil
  then show ?case by (cases t) auto
next
  case (Cons c s)
  then obtain d t' where t: "t = d # t'" by (cases t) auto
  have "(1 + of_char c :: nat) = 1 + of_char d" "stringCode s = stringCode t'"
    using stringCode_digits[of c s] stringCode_digits[of d t'] Cons.prems t by metis+
  with Cons.IH t show ?case by simp
qed

definition demoCollate :: "string \<Rightarrow> rat" where
  "demoCollate s = of_nat (stringCode s)"

lemma demoCollate_inj: "inj demoCollate"
  by (rule injI) (simp add: demoCollate_def stringCode_inj)

section \<open>A cart\<close>

definition demoDish :: product where
  "demoDish = \<lparr>prod_id = ''d'', prod_categoryId = ''c'', prod_name = ''Dal'', prod_description = None,
     prod_price = 1000, prod_imageUrl = None, prod_isAvailable = True, prod_isFavorite = False,
     prod_sortOrder = 0, prod_modifiers = [], prod_sku = None, prod_isCombo = False,
     prod_taxExempt = False, prod_stockQuantity = None, prod_lowStockThreshold = None\<rparr>"

definition demoSpicy :: selected_modifier where
  "demoSpicy = \<lparr>sm_modifierId = ''h'', sm_optionId = ''s'', sm_name = ''Spicy'', sm_priceAdjustment = 50,
     sm_quantity = Some 2\<rparr>"

text \<open>One spicy dish, then two plain ones rung up one by one.\<close>

definition demoOps :: "cart_op list" where
  "demoOps = [AddOp demoDish 1 None None (Some [demoSpicy]), AddOp demoDish 1 None None None,
     AddOp demoDish 1 None None None]"

definition demoCart :: "cart_line list" where
  "demoCart = [incomingLine [] demoDish 1 None None (Some [demoSpicy]),
     (incomingLine ''n'' demoDish 1 None None None)\<lparr>ln_quantity := 2\<rparr>]"

lemma demoCart_ops: "applyOps demoCollate demoIds 0 demoOps [] = demoCart"
  by (simp add: demoOps_def demoCart_def addLineWithOptions_def Let_def mergeSignature_iff[OF demoCollate_inj]
      cleanIds_def interchangeable_def modifierUnits_def incomingLine_def demoDish_def demoSpicy_def demoIds_def)

theorem cart_stays_merged_witness:
  "distinct (map ln_id demoCart) \<and> interchangeable (demoCart ! 1) (demoCart ! 1) \<and>
   \<not> interchangeable (demoCart ! 0) (demoCart ! 1)"
proof -
  have ops: "list_all opAdds demoOps" "list_all opMerges demoOps" "\<forall>l \<in> set demoCart. cleanIds l"
    by code_simp+
  have "length demoCart = 2" by code_simp
  then show ?thesis
    using cart_stays_merged[OF demoIds_inj demoCollate_inj ops(1) demoCart_ops[symmetric] ops(3)] ops(2)
    by auto
qed

text \<open>A check for two: both share the spicy dish, the plain ones are the second guest's.\<close>

definition demoShares :: "local_id \<rightharpoonup> bool list" where
  "demoShares = [[] \<mapsto> [True, True], ''n'' \<mapsto> [False, True]]"

theorem splitLines_conserves_witness:
  "\<exists>checks. splitLines demoIds demoCart demoShares 2 = Inr checks \<and> length checks = 2 \<and>
     sum_by (\<lambda>check. ct_subtotal (cartTotals check None 1000 0 False)) checks =
       ct_subtotal (cartTotals demoCart None 1000 0 False)"
  by (rule splitLines_conserves) (simp_all add: demoCart_def demoShares_def incomingLine_def)

theorem linesDelta_accounts_witness:
  "unitsIn (take 1 demoCart) ''d'' + unitsSent (linesDelta (take 1 demoCart) demoCart) ''d'' =
     unitsIn demoCart ''d''"
  by (rule linesDelta_accounts[THEN conjunct1]) (simp_all add: demoCart_def incomingLine_def grew_def)

definition demoSnapshot :: cart_snapshot where
  "demoSnapshot = \<lparr>cs_lines = demoCart, cs_customer = None, cs_table = None, cs_guests = None,
     cs_orderType = ''dine_in'', cs_discount = None, cs_resumedOrderId = None, cs_tabOrderId = None,
     cs_tabOpenedAt = None, cs_fireMode = None, cs_firedAtByLine = Map.empty\<rparr>"

definition demoOrder :: local_order where
  "demoOrder = buildLocalOrder 5 ''o'' demoSnapshot 1000 id"

theorem saved_cart_reloads_witness:
  "list_all2 sameLine (linesFromOrder demoOrder) demoCart \<and>
   cartTotals (linesFromOrder demoOrder) None 1000 0 False = cartTotals demoCart None 1000 0 False \<and>
   linesDelta (linesFromOrder demoOrder) demoCart = []"
  using saved_cart_reloads[of demoSnapshot demoOrder 5 "''o''" 1000 id]
  by (simp add: demoSnapshot_def demoOrder_def demoCart_def incomingLine_def)

theorem receipt_items_omit_modifiers_witness:
  "lo_subtotal demoOrder - printedItems demoOrder =
     sum_by (\<lambda>l. (lineUnitPrice l - prod_price (ln_product l)) * ln_quantity l) demoCart \<and>
   lo_subtotal demoOrder - printedItems demoOrder = 100"
proof -
  have "lo_subtotal demoOrder - printedItems demoOrder = 100" by code_simp
  with receipt_items_omit_modifiers[OF demoOrder_def] show ?thesis by (simp add: demoSnapshot_def)
qed

theorem receipt_columns_fit_witness:
  "int (length (rl_text (amountLine ''Subtotal'' 3100 32))) = 32"
proof -
  have "int (length (formatMoney (Some 3100))) < 32" by code_simp
  from receipt_columns_fit[OF this] show ?thesis by blast
qed

section \<open>A register\<close>

definition demoRegister :: register where
  "demoRegister = \<lparr>rg_orders = [], rg_mutations = [], rg_customers = [], rg_categories = [],
     rg_products = [], rg_locations = [], rg_discounts = [], rg_tables = [], rg_sessions = [],
     rg_days = [], rg_stations = [], rg_categoryStations = Map.empty, rg_printJobs = [],
     rg_meta = Map.empty, rg_now = 7, rg_ids = demoIds, rg_nextId = 0\<rparr>"

definition demoSettings :: pos_settings where
  "demoSettings = \<lparr>set_apiUrl = ''https'', set_apiKey = ''key'', set_locationId = ''l'',
     set_locationName = ''Main'', set_taxRateBps = 800, set_serviceChargeBps = 1800,
     set_printerEnabled = True, set_printerTarget = ''p'',
     set_printerCharsPerLine = 32, set_printerAutoKitchen = True, set_printerAutoReceipt = True\<rparr>"

text \<open>A drawer opened with 50.00, one cash order of 10.00 taken since.\<close>

definition demoDrawer :: register where
  "demoDrawer = saveOrder (demoOrder\<lparr>lo_status := Synced, lo_paymentMethod := Some ''cash'',
     lo_totalAmount := 1000, lo_createdAt := 8\<rparr>) (snd (openSession 5000 demoRegister))"

theorem closeSession_reconciles_witness:
  "\<exists>s. fst (closeSession [] 5900 None demoDrawer) = Some s \<and>
     dw_expectedAmount s = Some 6000 \<and> dw_difference s = Some (- 100)"
proof -
  obtain r rg' where run: "closeSession [] 5900 None demoDrawer = (r, rg')" by fastforce
  have "distinct (map dw_id (rg_sessions demoDrawer))" by code_simp
  note ok = closeSession_reconciles[OF this run]
  have "map_option dw_cashSales r = Some 1000 \<and> map_option dw_openingAmount r = Some 5000"
  proof -
    have "map_option dw_cashSales (fst (closeSession [] 5900 None demoDrawer)) = Some 1000 \<and>
        map_option dw_openingAmount (fst (closeSession [] 5900 None demoDrawer)) = Some 5000"
      by code_simp
    then show ?thesis by (simp add: run)
  qed
  with ok run show ?thesis by (auto split: option.splits)
qed

definition demoLabel :: "int \<Rightarrow> string" where
  "demoLabel t = (if t < 100 then ''today'' else ''tomorrow'')"


section \<open>Print jobs\<close>

definition demoJob :: "local_id \<Rightarrow> print_job_status \<Rightarrow> int \<Rightarrow> pos_print_job" where
  "demoJob i st attempts = \<lparr>job_id = i, job_orderId = ''o'', job_stationName = ''Kitchen'', job_target = ''p'',
     job_lines = Some [line_left ''1 x Dal''], job_status = st, job_attempts = attempts, job_lastError = None,
     job_createdAt = 0, job_updatedAt = 0\<rparr>"

definition demoQueue :: register where
  "demoQueue = demoRegister\<lparr>rg_printJobs :=
     [demoJob ''a'' Queued 0, demoJob ''b'' Printed 1, demoJob ''c'' PrintFailed 1]\<rparr>"

text \<open>The second ticket jams.\<close>

definition demoOutcome :: "nat \<Rightarrow> string option" where
  "demoOutcome k = (if k = 1 then Some ''jam'' else None)"

theorem drain_prints_each_once_witness:
  "snd (drainPass (recording demoOutcome) demoSettings (demoQueue, [])) =
     map ticket [demoJob ''a'' Queued 0, demoJob ''c'' PrintFailed 1]"
proof -
  have "distinct (map job_id (rg_printJobs demoQueue))" "set_printerEnabled demoSettings"
    "[demoJob ''a'' Queued 0, demoJob ''c'' PrintFailed 1] = filter printable (claimable demoQueue)"
    by code_simp+
  from drain_prints_each_once[OF this, of demoOutcome] show ?thesis
    by (metis prod.collapse)
qed

definition demoStuck :: register where
  "demoStuck = demoRegister\<lparr>rg_printJobs := [demoJob ''a'' PrintFailed 5]\<rparr>"

theorem exhausted_job_never_prints_witness:
  "\<exists>j'. jobOf (fst (fold (queueOp (recording (\<lambda>_. None)) demoSettings)
      [RetryJob ''a'', Recover, RetryAll] (demoStuck, []))) ''a'' = Some j' \<and> job_status j' \<noteq> Printed"
proof -
  have "distinct (map job_id (rg_printJobs demoStuck))" "jobOf demoStuck ''a'' = Some (demoJob ''a'' PrintFailed 5)"
    "job_status (demoJob ''a'' PrintFailed 5) = PrintFailed" "job_target (demoJob ''a'' PrintFailed 5) \<noteq> []"
    "MAX_PRINT_ATTEMPTS \<le> job_attempts (demoJob ''a'' PrintFailed 5)"
    by code_simp+
  from exhausted_job_never_prints[OF this, of "recording (\<lambda>_. None)" demoSettings
      "[RetryJob ''a'', Recover, RetryAll]" "[]"] show ?thesis by blast
qed

end
