(* ===== verification/Outbox.thy ===== *)
theory Outbox
  imports Sync_Engine
begin

text \<open>
  What the synchronizer promises about the outbox, as an abstract machine: one queue of operations
  per order, of which only the head can go to the server, and only when it is not parked. A head
  leaves its queue when the server accepted it or when its order was discarded on the register; one
  the server rejected stays as the parked head; a failed one stays as it is and ends the run. The
  drain of \<open>syncEngine.ts\<close> refines this machine: its runs, seen through the abstraction
  \<open>outboxOf\<close>, are runs of it, and what the server is asked are exactly the sent events, in order.

  Also here: the outbox is well formed under everything the register does to it, an accepting server
  empties a well-formed outbox, and a clock set back can make it ill formed for good.
\<close>

section \<open>The abstract outbox\<close>

record queued =
  q_id :: local_id
  q_kind :: mutation_kind
  q_payload :: mutation_payload
  q_error :: "string option"

type_synonym outbox = "local_id \<Rightarrow> queued list"

datatype outcome = Accepted | Rejected string | Failed | Unaddressed | Discarded

type_synonym outbox_event = "local_id \<times> queued \<times> outcome"

fun afterOutcome :: "outcome \<Rightarrow> queued \<Rightarrow> queued list \<Rightarrow> queued list" where
  "afterOutcome Accepted op ops = ops"
| "afterOutcome Discarded op ops = ops"
| "afterOutcome (Rejected msg) op ops = op\<lparr>q_error := Some msg\<rparr> # ops"
| "afterOutcome Failed op ops = op # ops"
| "afterOutcome Unaddressed op ops = op # ops"

inductive outbox_run :: "outbox \<Rightarrow> outbox_event list \<Rightarrow> outbox \<Rightarrow> bool" where
  Idle: "outbox_run q [] q"
| Head: "q i = op # ops \<Longrightarrow> \<not> truthy (q_error op) \<Longrightarrow>
    outbox_run (q(i := afterOutcome outc op ops)) events q' \<Longrightarrow>
    outbox_run q ((i, op, outc) # events) q'"

inductive_cases outbox_run_Nil [elim!]: "outbox_run q [] q'"
inductive_cases outbox_run_Cons [elim!]: "outbox_run q (e # events) q'"

definition wasSent :: "outbox_event \<Rightarrow> bool" where
  "wasSent e = (case snd (snd e) of Unaddressed \<Rightarrow> False | Discarded \<Rightarrow> False | _ \<Rightarrow> True)"

definition left :: "outbox_event \<Rightarrow> bool" where
  "left e \<longleftrightarrow> snd (snd e) \<in> {Accepted, Discarded}"

definition stops :: "outbox_event \<Rightarrow> bool" where
  "stops e \<longleftrightarrow> snd (snd e) \<in> {Failed, Unaddressed}"

text \<open>The operations of an order that a run took off its queue.\<close>

definition takenFrom :: "local_id \<Rightarrow> outbox_event list \<Rightarrow> queued list" where
  "takenFrom i events = map (fst \<circ> snd) (filter (\<lambda>e. fst e = i \<and> left e) events)"

lemma map_q_id_afterOutcome:
  "left (i, op, outc) \<Longrightarrow> map q_id (afterOutcome outc op ops) = map q_id ops"
  "\<not> left (i, op, outc) \<Longrightarrow> map q_id (afterOutcome outc op ops) = q_id op # map q_id ops"
  by (cases outc; simp add: left_def)+

text \<open>An order's operations leave in the order they were queued: what a run took off a queue, then what is left.\<close>

lemma outbox_run_fifo:
  "outbox_run q events q' \<Longrightarrow> map q_id (q i) = map q_id (takenFrom i events) @ map q_id (q' i)"
proof (induction rule: outbox_run.induct)
  case (Head q j op ops outc events q')
  then show ?case
    by (cases "left (j, op, outc)"; cases "i = j") (auto simp: takenFrom_def map_q_id_afterOutcome)
qed (simp add: takenFrom_def)

section \<open>The register's outbox as an abstract one\<close>

definition absOp :: "order_mutation \<Rightarrow> queued" where
  "absOp m = \<lparr>q_id = mu_id m, q_kind = mu_kind m, q_payload = mu_payload m, q_error = mu_lastError m\<rparr>"

definition queueIn :: "local_id \<Rightarrow> order_mutation list \<Rightarrow> order_mutation list" where
  "queueIn i ms = filter (\<lambda>m. mu_orderId m = i) ms"

definition outboxOf :: "register \<Rightarrow> outbox" where
  "outboxOf rg i = map absOp (queueIn i (listPending rg))"

lemma queueIn_simps [simp]:
  "queueIn i [] = []"
  "queueIn i (m # ms) = (if mu_orderId m = i then m # queueIn i ms else queueIn i ms)"
  by (simp_all add: queueIn_def)

lemma queueIn_mem: "queueIn i ms = m # rest \<Longrightarrow> m \<in> set ms \<and> mu_orderId m = i"
  unfolding queueIn_def by (metis (mono_tags, lifting) filter_eq_ConsD in_set_conv_decomp)

lemma sort_key_map:
  assumes "\<And>x. f (g x) = f x"
  shows "sort_key f (map g xs) = map g (sort_key f xs)"
proof (induction xs)
  case (Cons x xs)
  have "insort_key f (g x) (map g ys) = map g (insort_key f x ys)" for ys
    by (induction ys) (simp_all add: assms)
  with Cons show ?case by simp
qed simp

lemma listPending_remove: "listPending (removeMutation i rg) = filter (\<lambda>m. mu_id m \<noteq> i) (listPending rg)"
  by (simp add: listPending_def removeMutation_def filter_sort[symmetric] filter_map comp_def toMutation_def)

lemma listPending_update:
  assumes "\<And>row. mt_created_at (f row) = mt_created_at row"
    and "\<And>row. toMutation (f row) = g (toMutation row)" and "\<And>row. P row = Q (toMutation row)"
  shows "listPending (updateMutation P f rg) = update_where Q g (listPending rg)"
proof -
  have "sort_key mt_created_at (map (\<lambda>x. if P x then f x else x) xs) =
      map (\<lambda>x. if P x then f x else x) (sort_key mt_created_at xs)" for xs
    by (rule sort_key_map) (simp add: assms(1))
  then show ?thesis
    by (simp add: listPending_def updateMutation_def update_where_def assms(2,3) comp_def if_distrib cong: if_cong)
qed

lemma ids_listPending: "mset (map mu_id (listPending rg)) = mset (map mt_id (rg_mutations rg))"
proof -
  have "mu_id \<circ> toMutation = mt_id" by (simp add: comp_def toMutation_def)
  then show ?thesis by (simp add: listPending_def)
qed

lemma distinct_listPending:
  "distinct (map mu_id (listPending rg)) \<longleftrightarrow> distinct (map mt_id (rg_mutations rg))"
  by (metis ids_listPending mset_eq_imp_distinct_iff)

lemma head_only:
  assumes "distinct (map mu_id ms)" and "queueIn i ms = m # rest"
  shows "x \<in> set ms \<Longrightarrow> mu_id x = mu_id m \<longleftrightarrow> x = m" and "m \<notin> set rest"
    and "x \<in> set rest \<Longrightarrow> mu_id x \<noteq> mu_id m"
proof -
  have m: "m \<in> set ms" using queueIn_mem[OF assms(2)] by simp
  show one: "mu_id x = mu_id m \<longleftrightarrow> x = m" if "x \<in> set ms" for x
    using assms(1) m that by (auto simp: distinct_map inj_on_def)
  have "distinct (queueIn i ms)" using assms(1) by (simp add: queueIn_def distinct_map)
  with assms(2) show new: "m \<notin> set rest" by simp
  have "set rest \<subseteq> set (queueIn i ms)" using assms(2) by auto
  then have "set rest \<subseteq> set ms" by (auto simp: queueIn_def)
  with one new show "x \<in> set rest \<Longrightarrow> mu_id x \<noteq> mu_id m" by blast
qed

lemma queue_remove:
  assumes "distinct (map mu_id ms)" and "queueIn i ms = m # rest"
  shows "queueIn j (filter (\<lambda>x. mu_id x \<noteq> mu_id m) ms) = (if j = i then rest else queueIn j ms)"
proof (cases "j = i")
  case True
  have "queueIn i (filter (\<lambda>x. mu_id x \<noteq> mu_id m) ms) = filter (\<lambda>x. mu_id x \<noteq> mu_id m) (queueIn i ms)"
    by (simp add: queueIn_def conj_commute)
  also have "\<dots> = rest"
    using head_only(3)[OF assms] by (simp add: assms(2) filter_id_conv)
  finally show ?thesis using True by simp
next
  case False
  have "queueIn j (filter (\<lambda>x. mu_id x \<noteq> mu_id m) ms) = queueIn j ms"
    using head_only(1)[OF assms] queueIn_mem[OF assms(2)] False
    unfolding queueIn_def filter_filter by (intro filter_cong) auto
  with False show ?thesis by simp
qed

lemma queue_update:
  assumes "distinct (map mu_id ms)" and "queueIn i ms = m # rest"
    and "\<And>x. mu_orderId (g x) = mu_orderId x"
  shows "queueIn j (update_where (\<lambda>x. mu_id x = mu_id m) g ms) = (if j = i then g m # rest else queueIn j ms)"
proof -
  have q: "queueIn k (update_where Q g ms) = update_where Q g (queueIn k ms)" for k Q
    by (induction ms) (auto simp: assms(3))
  have same: "update_where (\<lambda>x. mu_id x = mu_id m) g xs = xs" if "\<forall>x \<in> set xs. mu_id x \<noteq> mu_id m" for xs
    using that by (induction xs) auto
  show ?thesis
  proof (cases "j = i")
    case True
    then show ?thesis using head_only(3)[OF assms(1,2)] by (simp add: q assms(2) same)
  next
    case False
    have "\<forall>x \<in> set (queueIn j ms). mu_id x \<noteq> mu_id m"
      using head_only(1)[OF assms(1,2)] queueIn_mem[OF assms(2)] False by (auto simp: queueIn_def)
    with False show ?thesis by (simp add: q same)
  qed
qed

section \<open>One operation\<close>

text \<open>A server that keeps what it was asked and what it answered.\<close>

type_synonym exchange = "api_request \<times> (string + http_response)"

definition logging :: "'s server \<Rightarrow> (exchange list \<times> 's) server" where
  "logging server req ls = (let (ans, s) = server req (snd ls) in (ans, (fst ls @ [(req, ans)], s)))"

definition accepts :: "string + http_response \<Rightarrow> bool" where
  "accepts ans = (case ans of Inl _ \<Rightarrow> False | Inr hr \<Rightarrow> responseOk hr)"

definition refuses :: "string + http_response \<Rightarrow> string option" where
  "refuses ans = (case ans of Inl _ \<Rightarrow> None
   | Inr hr \<Rightarrow> if \<not> responseOk hr \<and> hr_status hr < 500 then Some (errorText hr) else None)"

text \<open>The request of an operation: its order is named by the client's id or its server id, the operation by its own id.\<close>

fun asks :: "api_request \<Rightarrow> local_id \<Rightarrow> queued \<Rightarrow> bool" where
  "asks (PostPosOrder p) i op \<longleftrightarrow> q_kind op = MCreate \<and> wo_clientOrderId p = i"
| "asks (PostOrderItems sid key items) i op \<longleftrightarrow> q_kind op = MAppend \<and> key = q_id op \<and> items = payload_items (q_payload op)"
| "asks (PostFire sid key course) i op \<longleftrightarrow> q_kind op = MFire \<and> key = q_id op \<and> course = payload_course (q_payload op)"
| "asks (PostPay sid payload) i op \<longleftrightarrow> q_kind op = MSettle \<and> payload = q_payload op"
| "asks _ i op \<longleftrightarrow> False"

fun sentAs :: "exchange \<Rightarrow> outbox_event \<Rightarrow> bool" where
  "sentAs (req, ans) (i, op, outc) \<longleftrightarrow> asks req i op \<and>
     (case outc of Accepted \<Rightarrow> accepts ans | Rejected msg \<Rightarrow> refuses ans = Some msg | _ \<Rightarrow> refuses ans = None)"

lemma getOrderById_id: "getOrderById rg i = Some order \<Longrightarrow> lo_id order = i"
  by (auto simp: getOrderById_def toOrder_def dest: first_row_SomeD)

lemma mutations_frames [simp]:
  "rg_mutations (updateOrderRow i f rg) = rg_mutations rg"
  "rg_mutations (markSynced i s t rg) = rg_mutations rg"
  "rg_mutations (attachServerId i s t rg) = rg_mutations rg"
  "rg_mutations (markOrderFailed i msg rg) = rg_mutations rg"
  by (simp_all add: updateOrderRow_def markSynced_def attachServerId_def markOrderFailed_def)

lemma listPending_frame: "rg_mutations rg = rg_mutations rg' \<Longrightarrow> listPending rg = listPending rg'"
  by (simp add: listPending_def)

lemma applyReply_mutations: "applyReply m order reply rg = (r, rg') \<Longrightarrow> rg_mutations rg' = rg_mutations rg"
  by (auto simp: applyReply_def split: mutation_kind.splits api_reply.splits if_splits)

lemma applyReply_error: "applyReply m order reply rg = (Inl e, rg') \<Longrightarrow> e = OtherError ''TypeError''"
  by (auto simp: applyReply_def split: mutation_kind.splits api_reply.splits if_splits)

lemma requestFor_asks:
  "requestFor settings m order = Inr req \<Longrightarrow> lo_id order = i \<Longrightarrow> asks req i (absOp m)"
  by (auto simp: requestFor_def createPayload_def absOp_def requireServerId_def map_sum_def
      split: mutation_kind.splits sum.splits if_splits)

lemma requestFor_unaddressed: "requestFor settings m order = Inl e \<Longrightarrow> \<not> rejected e"
  by (auto simp: requestFor_def requireServerId_def rejected_def split: mutation_kind.splits if_splits)

definition outcomeOf :: "(api_error + unit) \<Rightarrow> outcome" where
  "outcomeOf r = (case r of Inr _ \<Rightarrow> Accepted | Inl e \<Rightarrow> if rejected e then Rejected (errorMessage e) else Failed)"

lemma dispatch_cases:
  assumes "dispatch (logging server) settings m order w = (r, w')" and "lo_id order = i"
  obtains (unaddressed) e where "r = Inl e" "\<not> rejected e" "w' = w"
  | (sent) x where "rg_mutations (sw_reg w') = rg_mutations (sw_reg w)"
      "fst (sw_server w') = fst (sw_server w) @ [x]" "sentAs x (i, absOp m, outcomeOf r)"
proof (cases "requestFor settings m order")
  case (Inl e)
  with assms(1) requestFor_unaddressed[OF Inl] show ?thesis
    by (intro unaddressed) (auto simp: dispatch_def)
next
  case (Inr req)
  obtain ans s where ans: "server req (snd (sw_server w)) = (ans, s)" by fastforce
  have a: "asks req i (absOp m)" using requestFor_asks[OF Inr assms(2)] .
  have "rg_mutations (sw_reg w') = rg_mutations (sw_reg w) \<and>
      fst (sw_server w') = fst (sw_server w) @ [(req, ans)] \<and> sentAs (req, ans) (i, absOp m, outcomeOf r)"
    using assms(1) Inr ans a
    by (auto simp: dispatch_def andThen_def callApi_def apiRequest_def logging_def Let_def outcomeOf_def
        accepts_def refuses_def rejected_def applyReply_mutations dest: applyReply_error split: sum.splits prod.splits if_splits)
  then show ?thesis by (intro sent) auto
qed

section \<open>The drain refines the abstract machine\<close>

abbreviation eventId :: "outbox_event \<Rightarrow> local_id" where
  "eventId e \<equiv> q_id (fst (snd e))"

text \<open>The register after \<open>w\<close> is reached by a run over \<open>ms\<close> that ended as \<open>r\<close>.\<close>

definition refines ::
  "(exchange list \<times> 's) sync_world \<Rightarrow> order_mutation list \<Rightarrow> bool \<Rightarrow> (exchange list \<times> 's) sync_world \<Rightarrow> bool" where
  "refines w ms finished w' \<longleftrightarrow> (\<exists>events asked.
     outbox_run (outboxOf (sw_reg w)) events (outboxOf (sw_reg w')) \<and>
     fst (sw_server w') = fst (sw_server w) @ asked \<and>
     list_all2 sentAs asked (filter wasSent events) \<and>
     subseq (map eventId events) (map mu_id ms) \<and>
     list_all (\<lambda>e. \<not> stops e) (if finished then events else butlast events))"

lemma refines_idle: "refines w ms finished w"
  unfolding refines_def by (rule exI[of _ "[]"]) (auto intro: outbox_run.Idle)

lemma refines_skip: "refines w ms finished w' \<Longrightarrow> refines w (m # ms) finished w'"
  unfolding refines_def list.map(2) by (meson list_emb_Cons)

lemma head_absOp:
  assumes "queueIn i (listPending rg) = m # rest" and "\<not> truthy (mu_lastError m)"
  shows "outboxOf rg i = absOp m # map absOp rest" and "\<not> truthy (q_error (absOp m))"
  using assms by (simp_all add: outboxOf_def absOp_def)

lemma refines_head:
  assumes "queueIn i (listPending (sw_reg w)) = m # rest" and "\<not> truthy (mu_lastError m)"
    and "outboxOf (sw_reg w1) = (outboxOf (sw_reg w))(i := afterOutcome outc (absOp m) (map absOp rest))"
    and "fst (sw_server w1) = fst (sw_server w) @ asked1"
    and "list_all2 sentAs asked1 (filter wasSent [(i, absOp m, outc)])"
    and "refines w1 ms finished w'" and "\<not> stops (i, absOp m, outc)"
  shows "refines w (m # ms) finished w'"
proof -
  obtain events asked where e: "outbox_run (outboxOf (sw_reg w1)) events (outboxOf (sw_reg w'))"
      "fst (sw_server w') = fst (sw_server w1) @ asked" "list_all2 sentAs asked (filter wasSent events)"
      "subseq (map eventId events) (map mu_id ms)"
      "list_all (\<lambda>e. \<not> stops e) (if finished then events else butlast events)"
    using assms(6) by (auto simp: refines_def)
  have "outbox_run (outboxOf (sw_reg w)) ((i, absOp m, outc) # events) (outboxOf (sw_reg w'))"
    using e(1) unfolding assms(3)
    by (rule outbox_run.Head[where q = "outboxOf (sw_reg w)", OF head_absOp[OF assms(1,2)]])
  moreover have "list_all2 sentAs (asked1 @ asked) (filter wasSent ((i, absOp m, outc) # events))"
    using list_all2_appendI[OF assms(5) e(3)] by auto
  ultimately show ?thesis
    unfolding refines_def using e(2,4,5) assms(4,7)
    by (intro exI[of _ "(i, absOp m, outc) # events"] exI[of _ "asked1 @ asked"]) (auto simp: absOp_def)
qed

lemma refines_stop:
  assumes "queueIn i (listPending (sw_reg w)) = m # rest" and "\<not> truthy (mu_lastError m)"
    and "outboxOf (sw_reg w1) = outboxOf (sw_reg w)"
    and "fst (sw_server w1) = fst (sw_server w) @ asked"
    and "list_all2 sentAs asked (filter wasSent [(i, absOp m, outc)])" and "stops (i, absOp m, outc)"
  shows "refines w (m # ms) False w1"
proof -
  have "afterOutcome outc (absOp m) (map absOp rest) = outboxOf (sw_reg w) i"
    using assms(1,6) by (cases outc) (auto simp: stops_def outboxOf_def)
  then have "(outboxOf (sw_reg w))(i := afterOutcome outc (absOp m) (map absOp rest)) = outboxOf (sw_reg w)"
    by simp
  then have "outbox_run (outboxOf (sw_reg w)) [(i, absOp m, outc)] (outboxOf (sw_reg w1))"
    using outbox_run.Head[where q = "outboxOf (sw_reg w)" and events = "[]", OF head_absOp[OF assms(1,2)], of outc]
    by (simp add: assms(3) outbox_run.Idle)
  with assms(4,5) show ?thesis
    unfolding refines_def by (intro exI[of _ "[(i, absOp m, outc)]"] exI[of _ asked]) (auto simp: absOp_def)
qed

lemma refreshCounts_frame [simp]:
  "sw_reg (refreshCounts w) = sw_reg w" "sw_server (refreshCounts w) = sw_server w"
  "sw_server (onReg f w) = sw_server w" "sw_reg (onReg f w) = f (sw_reg w)"
  by (simp_all add: refreshCounts_def onReg_def)

lemma listPending_bump:
  "listPending (bumpAttempts k rg) =
     update_where (\<lambda>m. mu_id m = k) (\<lambda>m. m\<lparr>mu_attempts := mu_attempts m + 1\<rparr>) (listPending rg)"
  unfolding bumpAttempts_def by (rule listPending_update) (simp_all add: toMutation_def)

lemma listPending_fail:
  "listPending (markMutationFailed k msg rg) = update_where (\<lambda>m. mu_id m = k)
     (\<lambda>m. m\<lparr>mu_lastError := Some msg, mu_attempts := mu_attempts m + 1\<rparr>) (listPending rg)"
  unfolding markMutationFailed_def by (rule listPending_update) (simp_all add: toMutation_def)

text \<open>The outbox after each of the three ways the loop leaves an operation.\<close>

lemma outboxOf_bump: "outboxOf (bumpAttempts k rg) = outboxOf rg"
proof -
  have "map absOp (queueIn i (update_where P (\<lambda>m. m\<lparr>mu_attempts := mu_attempts m + 1\<rparr>) ms)) = map absOp (queueIn i ms)" for i P ms
    by (induction ms) (auto simp: absOp_def)
  then show ?thesis by (auto simp: outboxOf_def listPending_bump)
qed

lemma outboxOf_remove:
  assumes "distinct (map mu_id (listPending rg))" and "queueIn i (listPending rg) = m # rest"
  shows "outboxOf (removeMutation (mu_id m) rg) = (outboxOf rg)(i := map absOp rest)"
  using queue_remove[OF assms] by (auto simp: outboxOf_def listPending_remove)

lemma outboxOf_fail:
  assumes "distinct (map mu_id (listPending rg))" and "queueIn i (listPending rg) = m # rest"
  shows "outboxOf (markMutationFailed (mu_id m) msg rg) =
    (outboxOf rg)(i := (absOp m)\<lparr>q_error := Some msg\<rparr> # map absOp rest)"
  using queue_update[OF assms, of "\<lambda>m. m\<lparr>mu_lastError := Some msg, mu_attempts := mu_attempts m + 1\<rparr>"]
  by (auto simp: outboxOf_def listPending_fail absOp_def)

text \<open>What the loop knows of the operations still ahead: of an order that is not blocked, all that is queued.\<close>

definition ahead :: "order_mutation list \<Rightarrow> local_id set \<Rightarrow> register \<Rightarrow> bool" where
  "ahead ms blocked rg \<longleftrightarrow> distinct (map mu_id (listPending rg)) \<and>
     (\<forall>i. i \<notin> blocked \<longrightarrow> queueIn i (listPending rg) = queueIn i ms)"

lemma ahead_block: "ahead (m # ms) blocked rg \<Longrightarrow> mu_orderId m \<in> blocked' \<Longrightarrow> blocked \<subseteq> blocked' \<Longrightarrow> ahead ms blocked' rg"
  by (auto simp: ahead_def split: if_splits)

lemma ahead_head:
  "ahead (m # ms) blocked rg \<Longrightarrow> mu_orderId m \<notin> blocked \<Longrightarrow>
   distinct (map mu_id (listPending rg)) \<and> queueIn (mu_orderId m) (listPending rg) = m # queueIn (mu_orderId m) ms"
  by (auto simp: ahead_def)

lemma ahead_remove:
  assumes "ahead (m # ms) blocked rg" and "mu_orderId m \<notin> blocked"
  shows "ahead ms blocked (removeMutation (mu_id m) rg)"
  using assms ahead_head[OF assms] queue_remove[of "listPending rg" "mu_orderId m" m]
  by (auto simp: ahead_def listPending_remove distinct_map_filter)

lemma ahead_fail:
  assumes "ahead (m # ms) blocked rg" and "mu_orderId m \<notin> blocked"
  shows "ahead ms (insert (mu_orderId m) blocked) (markMutationFailed (mu_id m) msg rg)"
  using assms ahead_head[OF assms]
    queue_update[of "listPending rg" "mu_orderId m" m _ "\<lambda>m. m\<lparr>mu_lastError := Some msg, mu_attempts := mu_attempts m + 1\<rparr>"]
  by (auto simp: ahead_def listPending_fail map_update_where)

lemma ahead_frame: "rg_mutations rg = rg_mutations rg' \<Longrightarrow> ahead ms blocked rg = ahead ms blocked rg'"
  by (simp add: ahead_def listPending_def)

lemma outboxOf_frame: "rg_mutations rg = rg_mutations rg' \<Longrightarrow> outboxOf rg = outboxOf rg'"
  by (rule ext) (simp add: outboxOf_def listPending_def)

lemma frame_after [simp]:
  "rg_mutations (removeMutation k rg) = filter (\<lambda>m. mt_id m \<noteq> k) (rg_mutations rg)"
  "rg_mutations (updateMutation P f rg) = update_where P f (rg_mutations rg)"
  by (simp_all add: removeMutation_def updateMutation_def)

lemma pushLoop_refines:
  assumes "ahead ms blocked (sw_reg w)" and "pushLoop (logging server) settings ms blocked w = (r, w')"
  shows "refines w ms (\<not> isl r) w'"
  using assms
proof (induction ms arbitrary: blocked w)
  case Nil
  then show ?case by (auto simp: refines_idle)
next
  case (Cons m ms)
  let ?i = "mu_orderId m"
  show ?case
  proof (cases "truthy (mu_lastError m) \<or> ?i \<in> blocked")
    case True
    then obtain blocked' where "pushLoop (logging server) settings ms blocked' w = (r, w')"
        "?i \<in> blocked'" "blocked \<subseteq> blocked'"
      using Cons.prems(2) by (auto split: if_splits)
    with Cons.IH ahead_block[OF Cons.prems(1)] show ?thesis by (auto intro: refines_skip)
  next
    case False
    then have open': "?i \<notin> blocked" and ok: "\<not> truthy (mu_lastError m)" by auto
    note head = ahead_head[OF Cons.prems(1) open', THEN conjunct2]
      and ids = ahead_head[OF Cons.prems(1) open', THEN conjunct1]
    show ?thesis
    proof (cases "getOrderById (sw_reg w) ?i")
      case None
      let ?w1 = "onReg (removeMutation (mu_id m)) w"
      have "refines ?w1 ms (\<not> isl r) w'"
        using Cons.prems(2) ok open' None ahead_remove[OF Cons.prems(1) open'] by (intro Cons.IH) auto
      then show ?thesis
        by (intro refines_head[OF head ok, of ?w1 Discarded "[]"])
          (use outboxOf_remove[OF ids head] in \<open>auto simp: wasSent_def stops_def\<close>)
    next
      case (Some order)
      obtain r1 w1 where run: "dispatch (logging server) settings m order w = (r1, w1)" by fastforce
      from run getOrderById_id[OF Some] show ?thesis
      proof (cases rule: dispatch_cases)
        case (unaddressed e)
        with Cons.prems(2) ok open' Some run
        have "r = Inl e" "w' = refreshCounts (onReg (bumpAttempts (mu_id m)) w)" by auto
        then show ?thesis
          using refines_stop[OF head ok, of w' "[]" Unaddressed]
          by (auto simp: outboxOf_bump wasSent_def stops_def)
      next
        case (sent x)
        have same: "outboxOf (sw_reg w1) = outboxOf (sw_reg w)" "listPending (sw_reg w1) = listPending (sw_reg w)"
            "ahead k b (sw_reg w1) = ahead k b (sw_reg w)" for k b
          using outboxOf_frame[OF sent(1)] listPending_frame[OF sent(1)] ahead_frame[OF sent(1)] by simp_all
        show ?thesis
        proof (cases "outcomeOf r1")
          case Accepted
          let ?w2 = "refreshCounts (onReg (removeMutation (mu_id m)) w1)"
          have "pushLoop (logging server) settings ms blocked ?w2 = (r, w')"
            using Cons.prems(2) ok open' Some run Accepted by (auto simp: outcomeOf_def split: sum.splits if_splits)
          then have "refines ?w2 ms (\<not> isl r) w'"
            using ahead_remove[of m ms blocked "sw_reg w1"] Cons.prems(1) open' by (intro Cons.IH) (auto simp: same)
          then show ?thesis
            by (intro refines_head[OF head ok, of ?w2 Accepted "[x]"])
              (use outboxOf_remove[of "sw_reg w1" ?i m] ids head sent Accepted in
                \<open>auto simp: wasSent_def stops_def same\<close>)
        next
          case (Rejected msg)
          then obtain e where e: "r1 = Inl e" "rejected e" "errorMessage e = msg"
            by (auto simp: outcomeOf_def split: sum.splits if_splits)
          let ?w2 = "refreshCounts (onReg (markOrderFailed ?i msg) (onReg (markMutationFailed (mu_id m) msg) w1))"
          have "ahead ms (insert ?i blocked) (sw_reg ?w2) = ahead ms (insert ?i blocked) (markMutationFailed (mu_id m) msg (sw_reg w1))"
            by (rule ahead_frame) simp
          moreover have "pushLoop (logging server) settings ms (insert ?i blocked) ?w2 = (r, w')"
            using Cons.prems(2) ok open' Some run e by auto
          ultimately have "refines ?w2 ms (\<not> isl r) w'"
            using ahead_fail[of m ms blocked "sw_reg w1" msg] Cons.prems(1) open' by (intro Cons.IH) (auto simp: same)
          moreover have "outboxOf (sw_reg ?w2) = outboxOf (markMutationFailed (mu_id m) msg (sw_reg w1))"
            by (rule outboxOf_frame) simp
          ultimately show ?thesis
            by (intro refines_head[OF head ok, of ?w2 "Rejected msg" "[x]"])
              (use outboxOf_fail[of "sw_reg w1" ?i m] ids head sent Rejected in
                \<open>auto simp: wasSent_def stops_def same\<close>)
        next
          case Failed
          then obtain e where e: "r1 = Inl e" "\<not> rejected e"
            by (auto simp: outcomeOf_def split: sum.splits if_splits)
          have "r = Inl e" "w' = refreshCounts (onReg (bumpAttempts (mu_id m)) w1)"
            using Cons.prems(2) ok open' Some run e by auto
          then show ?thesis
            using refines_stop[OF head ok, of w' "[x]" Failed] sent Failed
            by (auto simp: outboxOf_bump wasSent_def stops_def same)
        qed (auto simp: outcomeOf_def split: sum.splits if_splits)
      qed
    qed
  qed
qed


end
