(* ===== verification/Outbox_Life.thy ===== *)
theory Outbox_Life
  imports Outbox
begin

text \<open>
  The life of the outbox between two pushes: what keeps it well formed, so that the head of every
  queue can be addressed to the server, and when a push empties it.
\<close>

section \<open>Well-formed outboxes\<close>

definition serverKnows :: "register \<Rightarrow> local_id \<Rightarrow> bool" where
  "serverKnows rg i = (case getOrderById rg i of None \<Rightarrow> False | Some order \<Rightarrow> truthy (lo_serverId order))"

definition isTab :: "register \<Rightarrow> local_id \<Rightarrow> bool" where
  "isTab rg i = (case getOrderById rg i of None \<Rightarrow> False | Some order \<Rightarrow> lo_status order = OpenTab)"

text \<open>
  Mutation ids are minted ones and distinct, nothing was queued in the future, every queued
  operation has its order, the queue of an order the server does not know starts with its create,
  and an open tab is known to the server or has something queued.
\<close>

definition minted :: "register \<Rightarrow> bool" where
  "minted rg \<longleftrightarrow> inj (rg_ids rg) \<and> distinct (map mt_id (rg_mutations rg)) \<and>
     (\<forall>m \<in> set (rg_mutations rg). mt_created_at m \<le> rg_now rg \<and> (\<exists>k < rg_nextId rg. mt_id m = rg_ids rg k))"

definition addressed :: "register \<Rightarrow> bool" where
  "addressed rg \<longleftrightarrow> (\<forall>i. outboxOf rg i \<noteq> [] \<longrightarrow> getOrderById rg i \<noteq> None \<and>
     (\<not> serverKnows rg i \<longrightarrow> q_kind (hd (outboxOf rg i)) = MCreate)) \<and>
     (\<forall>i. isTab rg i \<longrightarrow> serverKnows rg i \<or> outboxOf rg i \<noteq> [])"

definition wf_outbox :: "register \<Rightarrow> bool" where
  "wf_outbox rg \<longleftrightarrow> minted rg \<and> addressed rg"

text \<open>What an operation that leaves an order's row and queue alone has to leave alone.\<close>

definition orderCore :: "register \<Rightarrow> local_id \<Rightarrow> (bool \<times> local_order_status) option" where
  "orderCore rg i = map_option (\<lambda>order. (truthy (lo_serverId order), lo_status order)) (getOrderById rg i)"

lemma orderCore_reads:
  "serverKnows rg i \<longleftrightarrow> (\<exists>st. orderCore rg i = Some (True, st))"
  "isTab rg i \<longleftrightarrow> (\<exists>b. orderCore rg i = Some (b, OpenTab))"
  "getOrderById rg i = None \<longleftrightarrow> orderCore rg i = None"
  by (auto simp: serverKnows_def isTab_def orderCore_def split: option.splits)

text \<open>Well-formedness, order by order, of a row and its queue.\<close>

fun slot_ok :: "(bool \<times> local_order_status) option \<Rightarrow> queued list \<Rightarrow> bool" where
  "slot_ok None q \<longleftrightarrow> q = []"
| "slot_ok (Some (known, st)) q \<longleftrightarrow>
     (q \<noteq> [] \<and> \<not> known \<longrightarrow> q_kind (hd q) = MCreate) \<and> (st = OpenTab \<longrightarrow> known \<or> q \<noteq> [])"

lemma addressed_slots: "addressed rg \<longleftrightarrow> (\<forall>i. slot_ok (orderCore rg i) (outboxOf rg i))"
proof -
  have "slot_ok c q \<longleftrightarrow> (q \<noteq> [] \<longrightarrow> c \<noteq> None \<and> ((\<nexists>st. c = Some (True, st)) \<longrightarrow> q_kind (hd q) = MCreate)) \<and>
      ((\<exists>b. c = Some (b, OpenTab)) \<longrightarrow> (\<exists>st. c = Some (True, st)) \<or> q \<noteq> [])" for c q
    by (cases "(c, q)" rule: slot_ok.cases) auto
  then show ?thesis
    by (auto simp: addressed_def orderCore_reads)
qed

section \<open>What the repositories do to an order's row\<close>

lemma orderCore_rows:
  "orderCore rg i = map_option (\<lambda>r. (truthy (ro_server_id r), ro_status r)) (first_row (\<lambda>r. ro_id r = i) (rg_orders rg))"
  by (simp add: orderCore_def getOrderById_def option.map_comp comp_def toOrder_def)

lemma orderCore_update:
  assumes "\<And>r. ro_id (f r) = ro_id r" and "\<And>r. truthy (ro_server_id (f r)) = g (truthy (ro_server_id r))"
    and "\<And>r. ro_status (f r) = st (ro_status r)"
  shows "orderCore (updateOrderRow j f rg) i =
    (if i = j then map_option (\<lambda>(b, s). (g b, st s)) (orderCore rg i) else orderCore rg i)"
  by (cases "first_row (\<lambda>r. ro_id r = i) (rg_orders rg)")
    (auto simp: orderCore_rows updateOrderRow_def first_row_update_where assms dest: first_row_SomeD)

lemma rowOf_reads [simp]:
  "ro_id (rowOf order) = lo_id order" "ro_server_id (rowOf order) = lo_serverId order"
  "ro_status (rowOf order) = lo_status order"
  by (simp_all add: rowOf_def)

lemma orderCore_save:
  "orderCore (saveOrder order rg) i =
     (if i = lo_id order then
        (case orderCore rg i of
           None \<Rightarrow> Some (truthy (lo_serverId order), lo_status order)
         | Some (b, _) \<Rightarrow> Some (b, lo_status order))
      else orderCore rg i)"
proof (cases "first_row (\<lambda>r. ro_id r = lo_id order) (rg_orders rg)")
  case None
  then have "\<not> list_ex (\<lambda>r. ro_id r = lo_id order) (rg_orders rg)"
    by (auto simp: list_ex_iff dest: first_row_NoneD)
  with None show ?thesis
    by (auto simp: orderCore_rows saveOrder_def Let_def first_row_append split: option.splits)
next
  case (Some row)
  then have "list_ex (\<lambda>r. ro_id r = lo_id order) (rg_orders rg)"
    by (auto simp: list_ex_iff dest: first_row_SomeD)
  then have "first_row (\<lambda>r. ro_id r = i) (rg_orders (saveOrder order rg)) =
      map_option (\<lambda>r. if ro_id r = lo_id order then upsertRow (rowOf order) r else r)
        (first_row (\<lambda>r. ro_id r = i) (rg_orders rg))" for i
    by (simp add: saveOrder_def Let_def first_row_update_where upsertRow_def)
  with Some show ?thesis
    by (cases "first_row (\<lambda>r. ro_id r = i) (rg_orders rg)")
      (auto simp: orderCore_rows upsertRow_def dest: first_row_SomeD)
qed

lemma orderCore_delete: "orderCore (deleteOrder j rg) i = (if i = j then None else orderCore rg i)"
proof -
  have "first_row (\<lambda>r. ro_id r = i) (filter (\<lambda>r. ro_id r \<noteq> j) rows) =
      (if i = j then None else first_row (\<lambda>r. ro_id r = i) rows)" for rows :: "order_db_row list"
    by (induction rows) auto
  then show ?thesis by (simp add: orderCore_rows deleteOrder_def)
qed

lemma orderCore_frame: "rg_orders rg' = rg_orders rg \<Longrightarrow> orderCore rg' i = orderCore rg i"
  by (simp add: orderCore_rows)

lemma orderCore_frames [simp]:
  "orderCore (enqueue j k p rg) i = orderCore rg i"
  "orderCore (removeMutation m rg) i = orderCore rg i"
  "orderCore (updateMutation P g rg) i = orderCore rg i"
  "orderCore (bumpAttempts m rg) i = orderCore rg i"
  "orderCore (markMutationFailed m msg rg) i = orderCore rg i"
  "orderCore (requeueForOrder j rg) i = orderCore rg i"
  "orderCore (removeForOrder j rg) i = orderCore rg i"
  by (rule orderCore_frame, simp add: enqueue_def removeMutation_def updateMutation_def bumpAttempts_def
      markMutationFailed_def requeueForOrder_def removeForOrder_def)+

lemma orderCore_synced: "orderCore (markSynced j sid t rg) i =
    (if i = j then map_option (\<lambda>_. (sid \<noteq> [], Synced)) (orderCore rg i) else orderCore rg i)"
  unfolding markSynced_def
  by (subst orderCore_update[where g = "\<lambda>_. sid \<noteq> []" and st = "\<lambda>_. Synced"]) (auto simp: truthy_def case_prod_unfold)

lemma orderCore_attached: "orderCore (attachServerId j sid t rg) i =
    (if i = j then map_option (\<lambda>(_, st). (sid \<noteq> [], st)) (orderCore rg i) else orderCore rg i)"
  unfolding attachServerId_def
  by (subst orderCore_update[where g = "\<lambda>_. sid \<noteq> []" and st = id]) (auto simp: truthy_def)

lemma orderCore_failed: "orderCore (markOrderFailed j msg rg) i =
    (if i = j then map_option (\<lambda>(b, _). (b, SyncFailed)) (orderCore rg i) else orderCore rg i)"
  unfolding markOrderFailed_def
  by (subst orderCore_update[where g = id and st = "\<lambda>_. SyncFailed"]) auto

lemma orderCore_requeued: "orderCore (requeueOrder j rg) i =
    (if i = j then map_option (\<lambda>(b, _). (b, PendingSync)) (orderCore rg i) else orderCore rg i)"
  unfolding requeueOrder_def
  by (subst orderCore_update[where g = id and st = "\<lambda>_. PendingSync"]) auto

lemmas orderCore_ops = orderCore_save orderCore_delete orderCore_synced orderCore_attached
  orderCore_failed orderCore_requeued

section \<open>What the repositories do to the queues\<close>

lemma sort_key_snoc:
  assumes "\<forall>x \<in> set xs. f x \<le> f y"
  shows "sort_key f (xs @ [y]) = sort_key f xs @ [y]"
  using assms
proof (induction xs)
  case (Cons x xs)
  have "f x \<le> f y \<Longrightarrow> insort_key f x (ys @ [y]) = insort_key f x ys @ [y]" for ys
    by (induction ys) auto
  with Cons show ?case by simp
qed simp

lemma outboxOf_enqueue:
  assumes "minted rg"
  shows "outboxOf (enqueue j kind payload rg) i = outboxOf rg i @
    (if i = j then [\<lparr>q_id = mintId rg, q_kind = kind, q_payload = payload, q_error = None\<rparr>] else [])"
  using assms by (simp add: outboxOf_def listPending_def enqueue_def minted_def sort_key_snoc queueIn_def toMutation_def absOp_def)

lemma outboxOf_drop: "outboxOf (removeForOrder j rg) i = (if i = j then [] else outboxOf rg i)"
proof -
  have "queueIn i (filter (\<lambda>m. mu_orderId m \<noteq> j) ms) = (if i = j then [] else queueIn i ms)" for ms
    by (induction ms) auto
  moreover have "listPending (removeForOrder j rg) = filter (\<lambda>m. mu_orderId m \<noteq> j) (listPending rg)"
    by (simp add: listPending_def removeForOrder_def filter_sort[symmetric] filter_map comp_def toMutation_def)
  ultimately show ?thesis by (simp add: outboxOf_def)
qed

lemma outboxOf_retry: "outboxOf (requeueForOrder j rg) i =
    (if i = j then map (\<lambda>op. op\<lparr>q_error := None\<rparr>) (outboxOf rg i) else outboxOf rg i)"
proof -
  have "listPending (requeueForOrder j rg) =
      update_where (\<lambda>m. mu_orderId m = j) (\<lambda>m. m\<lparr>mu_lastError := None\<rparr>) (listPending rg)"
    unfolding requeueForOrder_def by (rule listPending_update) (simp_all add: toMutation_def)
  moreover have "map absOp (queueIn i (update_where (\<lambda>m. mu_orderId m = j) (\<lambda>m. m\<lparr>mu_lastError := None\<rparr>) ms)) =
      (if i = j then map (\<lambda>op. op\<lparr>q_error := None\<rparr>) (map absOp (queueIn i ms)) else map absOp (queueIn i ms))" for ms
    by (induction ms) (auto simp: absOp_def)
  ultimately show ?thesis by (simp add: outboxOf_def)
qed

lemma minted_frame:
  "rg_mutations rg' = rg_mutations rg \<Longrightarrow> rg_ids rg' = rg_ids rg \<Longrightarrow> rg_nextId rg \<le> rg_nextId rg' \<Longrightarrow>
   rg_now rg \<le> rg_now rg' \<Longrightarrow> minted rg \<Longrightarrow> minted rg'"
  unfolding minted_def by (metis le_less_trans less_le_trans order_trans)

lemma minted_fewer:
  "rg_mutations rg' = filter P (rg_mutations rg) \<Longrightarrow> rg_ids rg' = rg_ids rg \<Longrightarrow> rg_nextId rg' = rg_nextId rg \<Longrightarrow>
   rg_now rg' = rg_now rg \<Longrightarrow> minted rg \<Longrightarrow> minted rg'"
  by (auto simp: minted_def distinct_map_filter)

lemma minted_updated:
  "rg_mutations rg' = update_where P f (rg_mutations rg) \<Longrightarrow> (\<And>m. mt_id (f m) = mt_id m) \<Longrightarrow>
   (\<And>m. mt_created_at (f m) = mt_created_at m) \<Longrightarrow> rg_ids rg' = rg_ids rg \<Longrightarrow> rg_nextId rg' = rg_nextId rg \<Longrightarrow>
   rg_now rg' = rg_now rg \<Longrightarrow> minted rg \<Longrightarrow> minted rg'"
  by (auto simp: minted_def map_update_where set_update_where split: if_splits)

lemma minted_enqueue: "minted rg \<Longrightarrow> minted (enqueue j kind payload rg)"
  unfolding minted_def enqueue_def mintId_def
  by (auto simp: inj_eq less_Suc_eq)

section \<open>The operations of the register keep it well formed\<close>

lemma supply_frames [simp]:
  "rg_ids (saveOrder o' rg) = rg_ids rg" "rg_nextId (saveOrder o' rg) = rg_nextId rg"
  "rg_now (saveOrder o' rg) = rg_now rg" "rg_mutations (saveOrder o' rg) = rg_mutations rg"
  "rg_ids (updateOrderRow i f rg) = rg_ids rg" "rg_nextId (updateOrderRow i f rg) = rg_nextId rg"
  "rg_now (updateOrderRow i f rg) = rg_now rg"
  "rg_ids (removeMutation k rg) = rg_ids rg" "rg_nextId (removeMutation k rg) = rg_nextId rg"
  "rg_now (removeMutation k rg) = rg_now rg"
  "rg_ids (updateMutation P g rg) = rg_ids rg" "rg_nextId (updateMutation P g rg) = rg_nextId rg"
  "rg_now (updateMutation P g rg) = rg_now rg"
  by (simp_all add: saveOrder_def Let_def updateOrderRow_def removeMutation_def updateMutation_def)

lemma outboxOf_save [simp]: "outboxOf (saveOrder order rg) = outboxOf rg"
  "outboxOf (updateOrderRow i f rg) = outboxOf rg"
  by (rule outboxOf_frame, simp)+

lemma minted_save [simp]: "minted rg \<Longrightarrow> minted (saveOrder order rg)" "minted rg \<Longrightarrow> minted (updateOrderRow i f rg)"
  by (auto intro: minted_frame)

lemma wf_slots: "wf_outbox rg \<longleftrightarrow> minted rg \<and> (\<forall>i. slot_ok (orderCore rg i) (outboxOf rg i))"
  by (simp add: wf_outbox_def addressed_slots)

lemma wf_slot: "wf_outbox rg \<Longrightarrow> slot_ok (orderCore rg i) (outboxOf rg i)"
  by (simp add: wf_slots)

definition knownOrQueued :: "register \<Rightarrow> local_id \<Rightarrow> bool" where
  "knownOrQueued rg i \<longleftrightarrow> serverKnows rg i \<or> outboxOf rg i \<noteq> []"

lemma isTab_reachable: "wf_outbox rg \<Longrightarrow> isTab rg i \<Longrightarrow> knownOrQueued rg i"
  by (auto simp: wf_outbox_def addressed_def knownOrQueued_def)

lemma reachable_core: "wf_outbox rg \<Longrightarrow> knownOrQueued rg i \<Longrightarrow> orderCore rg i \<noteq> None"
  using wf_slot[of rg i] by (cases "orderCore rg i") (auto simp: knownOrQueued_def orderCore_reads)

lemma wf_save:
  assumes "wf_outbox rg" and "lo_status order = OpenTab \<Longrightarrow> knownOrQueued rg (lo_id order)"
  shows "wf_outbox (saveOrder order rg)"
proof -
  have "slot_ok (orderCore (saveOrder order rg) i) (outboxOf rg i)" for i
    using assms(2) wf_slot[OF assms(1), of i]
    by (cases "orderCore rg i") (auto simp: orderCore_save knownOrQueued_def orderCore_reads)
  with assms(1) show ?thesis by (simp add: wf_slots)
qed

lemma reachable_save: "wf_outbox rg \<Longrightarrow> knownOrQueued rg i \<Longrightarrow> knownOrQueued (saveOrder order rg) i"
  using wf_slot[of rg i]
  by (auto simp: knownOrQueued_def orderCore_reads orderCore_save split: option.splits)

lemma wf_enqueue:
  assumes "wf_outbox rg" and "knownOrQueued rg i"
  shows "wf_outbox (enqueue i kind payload rg) \<and> knownOrQueued (enqueue i kind payload rg) i"
proof -
  have m: "minted rg" using assms(1) by (simp add: wf_outbox_def)
  have "slot_ok (orderCore rg j) (outboxOf (enqueue i kind payload rg) j)" for j
    using wf_slot[OF assms(1), of j] assms(2) reachable_core[OF assms]
    by (cases "orderCore rg j") (auto simp: outboxOf_enqueue[OF m] knownOrQueued_def orderCore_reads)
  with m show ?thesis
    by (auto simp: wf_slots minted_enqueue knownOrQueued_def outboxOf_enqueue)
qed

lemma wf_create:
  assumes "wf_outbox rg"
  shows "wf_outbox (enqueue (lo_id order) MCreate payload (saveOrder order rg))"
proof -
  have m: "minted rg" using assms by (simp add: wf_outbox_def)
  have "slot_ok (orderCore (saveOrder order rg) j)
      (outboxOf (enqueue (lo_id order) MCreate payload (saveOrder order rg)) j)" for j
    using wf_slot[OF assms, of j] wf_slot[OF assms, of "lo_id order"]
    by (cases "orderCore rg j") (auto simp: outboxOf_enqueue m orderCore_save hd_append split: option.splits)
  with m show ?thesis by (auto simp: wf_slots minted_enqueue)
qed

lemma wf_checkout: "wf_outbox rg \<Longrightarrow> wf_outbox (checkout order rg)"
  by (simp add: checkout_def wf_create)

lemma wf_openTab: "wf_outbox rg \<Longrightarrow> wf_outbox (snd (openTab order rg))"
  unfolding openTab_def Let_def snd_conv by (rule wf_create)

lemma wf_appendToTab:
  assumes "wf_outbox rg" and "isTab rg (lo_id merged)"
  shows "wf_outbox (appendToTab merged delta rg)"
proof -
  have r: "knownOrQueued rg (lo_id merged)" using isTab_reachable[OF assms] .
  then have "wf_outbox (saveOrder (merged\<lparr>lo_status := OpenTab\<rparr>) rg)"
    "knownOrQueued (saveOrder (merged\<lparr>lo_status := OpenTab\<rparr>) rg) (lo_id merged)"
    using assms(1) by (auto intro: wf_save reachable_save)
  then show ?thesis by (simp add: appendToTab_def Let_def wf_enqueue)
qed

lemma wf_settleTab:
  assumes "wf_outbox rg" and "isTab rg (lo_id merged)"
  shows "wf_outbox (settleTab merged delta payment rg)"
proof -
  have r: "knownOrQueued rg (lo_id merged)" using isTab_reachable[OF assms] .
  then have "wf_outbox (saveOrder o' rg) \<and> knownOrQueued (saveOrder o' rg) (lo_id merged)"
    if "lo_status o' = PendingSync" for o'
    using assms(1) that by (auto intro: wf_save reachable_save)
  then show ?thesis by (simp add: settleTab_def Let_def wf_enqueue)
qed

lemma wf_fireTabCourse:
  assumes "wf_outbox rg" and "isTab rg (lo_id order)"
  shows "wf_outbox (fireTabCourse order course rg)"
proof -
  have r: "knownOrQueued rg (lo_id order)" using isTab_reachable[OF assms] .
  then have "wf_outbox (saveOrder o' rg) \<and> knownOrQueued (saveOrder o' rg) (lo_id order)"
    if "lo_id o' = lo_id order" for o'
    using assms(1) that by (auto intro: wf_save reachable_save)
  then show ?thesis by (simp add: fireTabCourse_def Let_def wf_enqueue)
qed

lemma wf_discard: "wf_outbox rg \<Longrightarrow> wf_outbox (discardOrder i rg)"
proof -
  assume wf: "wf_outbox rg"
  have same: "outboxOf (deleteOrder i rg) = outboxOf rg" by (rule outboxOf_frame) (simp add: deleteOrder_def)
  have "minted (discardOrder i rg)"
    using wf by (auto simp: discardOrder_def removeForOrder_def deleteOrder_def wf_outbox_def intro: minted_fewer)
  moreover have "slot_ok (orderCore (discardOrder i rg) j) (outboxOf (discardOrder i rg) j)" for j
    using wf_slot[OF wf, of j] by (simp add: discardOrder_def orderCore_delete outboxOf_drop same)
  ultimately show ?thesis by (simp add: wf_slots)
qed

lemma wf_retry: "wf_outbox rg \<Longrightarrow> wf_outbox (retrySync i rg)"
proof -
  assume wf: "wf_outbox rg"
  have same: "outboxOf (requeueOrder i rg) = outboxOf rg" by (simp add: requeueOrder_def)
  have "minted (requeueOrder i rg)" using wf by (simp add: requeueOrder_def wf_outbox_def)
  then have "minted (retrySync i rg)"
    unfolding retrySync_def requeueForOrder_def
    by (rule minted_updated[rotated 6, where P = "\<lambda>m. mt_order_id m = i" and f = "\<lambda>m. m\<lparr>mt_last_error := None\<rparr>"]) simp_all
  moreover have "slot_ok (orderCore (retrySync i rg) j) (outboxOf (retrySync i rg) j)" for j
    using wf_slot[OF wf, of j]
    by (cases "orderCore rg j") (auto simp: retrySync_def orderCore_requeued outboxOf_retry same hd_map)
  ultimately show ?thesis by (simp add: wf_slots)
qed

section \<open>A push keeps it well formed\<close>

lemma wf_same:
  assumes "wf_outbox rg" and "rg_mutations rg' = rg_mutations rg" and "orderCore rg' = orderCore rg"
    and "rg_ids rg' = rg_ids rg" and "rg_nextId rg \<le> rg_nextId rg'" and "rg_now rg \<le> rg_now rg'"
  shows "wf_outbox rg'"
  using assms outboxOf_frame[OF assms(2)] minted_frame[OF assms(2,4,5,6)] by (simp add: wf_slots)

lemma wf_remove:
  assumes "wf_outbox rg" and "queueIn i (listPending rg) = m # rest"
    and "orderCore rg i = None \<or> (\<exists>st. orderCore rg i = Some (True, st))"
  shows "wf_outbox (removeMutation (mu_id m) rg)"
proof -
  have d: "distinct (map mu_id (listPending rg))"
    using assms(1) by (simp add: wf_outbox_def minted_def distinct_listPending)
  have "orderCore rg i \<noteq> None"
    using wf_slot[OF assms(1), of i] assms(2) by (cases "orderCore rg i") (auto simp: outboxOf_def)
  then have "slot_ok (orderCore (removeMutation (mu_id m) rg) j) (outboxOf (removeMutation (mu_id m) rg) j)" for j
    using wf_slot[OF assms(1), of j] assms(3) by (auto simp: outboxOf_remove[OF d assms(2)])
  moreover have "minted (removeMutation (mu_id m) rg)"
    using assms(1) by (auto simp: wf_outbox_def intro: minted_fewer)
  ultimately show ?thesis by (simp add: wf_slots)
qed

lemma wf_bump: "wf_outbox rg \<Longrightarrow> wf_outbox (bumpAttempts k rg)"
proof -
  assume wf: "wf_outbox rg"
  then have "minted rg" by (simp add: wf_outbox_def)
  then have "minted (bumpAttempts k rg)"
    unfolding bumpAttempts_def
    by (rule minted_updated[rotated 6, where P = "\<lambda>m. mt_id m = k" and f = "\<lambda>m. m\<lparr>mt_attempts := mt_attempts m + 1\<rparr>"]) simp_all
  with wf show ?thesis by (simp add: wf_slots outboxOf_bump)
qed

lemma wf_rejected:
  assumes "wf_outbox rg" and "queueIn i (listPending rg) = m # rest"
  shows "wf_outbox (markOrderFailed i msg (markMutationFailed (mu_id m) msg rg))"
proof -
  have d: "distinct (map mu_id (listPending rg))"
    using assms(1) by (simp add: wf_outbox_def minted_def distinct_listPending)
  let ?rg1 = "markMutationFailed (mu_id m) msg rg"
  have same: "outboxOf (markOrderFailed i msg ?rg1) = outboxOf ?rg1"
    by (rule outboxOf_frame) simp
  have "minted rg" using assms(1) by (simp add: wf_outbox_def)
  then have "minted ?rg1"
    unfolding markMutationFailed_def
    by (rule minted_updated[rotated 6, where P = "\<lambda>x. mt_id x = mu_id m" and
        f = "\<lambda>x. x\<lparr>mt_last_error := Some msg, mt_attempts := mt_attempts x + 1\<rparr>"]) simp_all
  then have "minted (markOrderFailed i msg ?rg1)" by (simp add: markOrderFailed_def)
  moreover have "slot_ok (orderCore (markOrderFailed i msg ?rg1) j) (outboxOf (markOrderFailed i msg ?rg1) j)" for j
    using wf_slot[OF assms(1), of j] assms(2)
    by (cases "orderCore rg j")
      (auto simp: orderCore_failed same outboxOf_fail[OF d assms(2)] outboxOf_def absOp_def)
  ultimately show ?thesis by (simp add: wf_slots)
qed

text \<open>What the client relies on: an accepted order has an id. \<open>inv\<close> is what the server keeps of its state.\<close>

locale order_server =
  fixes server :: "'s server" and inv :: "'s \<Rightarrow> bool"
  assumes named: "inv s \<Longrightarrow> server req s = (Inr hr, s') \<Longrightarrow> responseOk hr \<Longrightarrow>
      hr_body hr = OrderReply sid t \<Longrightarrow> sid \<noteq> []"
    and keeps: "inv s \<Longrightarrow> inv (snd (server req s))"
begin

lemma callApi_inv: "inv (sw_server w) \<Longrightarrow> inv (sw_server (snd (callApi server req w)))"
  using keeps[of "sw_server w" req]
  by (auto simp: callApi_def apiRequest_def Let_def split: prod.splits sum.splits)

lemma callApi_reg: "sw_reg (snd (callApi server req w)) = sw_reg w"
  by (simp add: callApi_def Let_def split: prod.splits)

text \<open>A delivered operation leaves its order known to the server; anything else leaves the register as it was.\<close>

lemma dispatch_effect:
  assumes "inv (sw_server w)" and "getOrderById (sw_reg w) i = Some order"
    and "dispatch server settings m order w = (r, w')"
  shows "inv (sw_server w') \<and> rg_mutations (sw_reg w') = rg_mutations (sw_reg w) \<and>
    rg_ids (sw_reg w') = rg_ids (sw_reg w) \<and> rg_nextId (sw_reg w') = rg_nextId (sw_reg w) \<and>
    rg_now (sw_reg w') = rg_now (sw_reg w) \<and>
    (\<forall>j. j \<noteq> i \<or> isl r \<longrightarrow> orderCore (sw_reg w') j = orderCore (sw_reg w) j) \<and>
    (r = Inr () \<longrightarrow> (\<exists>st. orderCore (sw_reg w') i = Some (True, st)))"
proof (cases "requestFor settings m order")
  case (Inl e)
  with assms(1,3) show ?thesis by (auto simp: dispatch_def)
next
  case (Inr req)
  obtain ans w1 where call: "callApi server req w = (ans, w1)" by fastforce
  have w1: "inv (sw_server w1)" "sw_reg w1 = sw_reg w"
    using callApi_inv[OF assms(1), of req] callApi_reg[of req w] by (simp_all add: call)
  show ?thesis
  proof (cases ans)
    case (Inl e)
    with Inr call w1 assms(3) show ?thesis by (auto simp: dispatch_def andThen_def)
  next
    case reply: (Inr reply)
    have i: "lo_id order = i" using getOrderById_id[OF assms(2)] .
    have core: "orderCore (sw_reg w) i = Some (truthy (lo_serverId order), lo_status order)"
      using assms(2) by (simp add: orderCore_def)
    have known: "truthy (lo_serverId order)" if "mu_kind m \<noteq> MCreate"
      using Inr that by (auto simp: requestFor_def requireServerId_def split: mutation_kind.splits if_splits)
    have sid: "sid \<noteq> []" if "reply = OrderReply sid t" for sid t
      using call reply that named[OF assms(1), of req]
      by (auto simp: callApi_def apiRequest_def Let_def split: prod.splits sum.splits if_splits)
    obtain rg where ap: "applyReply m order reply (sw_reg w) = (r, rg)" and w': "w' = w1\<lparr>sw_reg := rg\<rparr>"
      using assms(3) Inr call reply w1 by (auto simp: dispatch_def andThen_def Let_def split: prod.splits)
    have "rg_ids rg = rg_ids (sw_reg w) \<and> rg_nextId rg = rg_nextId (sw_reg w) \<and> rg_now rg = rg_now (sw_reg w)"
      using ap by (auto simp: applyReply_def markSynced_def attachServerId_def
          split: mutation_kind.splits api_reply.splits if_splits)
    moreover have "(\<forall>j. j \<noteq> i \<or> isl r \<longrightarrow> orderCore rg j = orderCore (sw_reg w) j) \<and>
        (r = Inr () \<longrightarrow> (\<exists>st. orderCore rg i = Some (True, st)))"
      using ap i core known sid
      by (auto simp: applyReply_def orderCore_synced orderCore_attached truthy_def
          split: mutation_kind.splits api_reply.splits if_splits option.splits)
    ultimately show ?thesis
      using w1 w' applyReply_mutations[OF ap] by simp
  qed
qed

text \<open>
  What the loop does with an answer, and the rule for what it keeps: whatever every handled
  operation keeps.
\<close>

definition handled :: "order_mutation \<Rightarrow> api_error + unit \<Rightarrow> 's sync_world \<Rightarrow> 's sync_world" where
  "handled m r w = refreshCounts (case r of
     Inr _ \<Rightarrow> onReg (removeMutation (mu_id m)) w
   | Inl e \<Rightarrow>
       if rejected e
       then onReg (markOrderFailed (mu_orderId m) (errorMessage e)) (onReg (markMutationFailed (mu_id m) (errorMessage e)) w)
       else onReg (bumpAttempts (mu_id m)) w)"

lemma pushLoop_rule:
  assumes "ahead ms blocked (sw_reg w)" and "wf_outbox (sw_reg w)" and "inv (sw_server w)" and "Q w"
    and "pushLoop server settings ms blocked w = (r, w')"
    and "\<And>m order v r1 v1. m \<in> set ms \<Longrightarrow> inv (sw_server v) \<Longrightarrow> Q v \<Longrightarrow>
      getOrderById (sw_reg v) (mu_orderId m) = Some order \<Longrightarrow> dispatch server settings m order v = (r1, v1) \<Longrightarrow>
      rg_mutations (sw_reg v1) = rg_mutations (sw_reg v) \<Longrightarrow> Q (handled m r1 v1)"
  shows "wf_outbox (sw_reg w') \<and> inv (sw_server w') \<and> Q w'"
  using assms
proof (induction ms arbitrary: blocked w)
  case (Cons m ms)
  let ?i = "mu_orderId m"
  show ?case
  proof (cases "truthy (mu_lastError m) \<or> ?i \<in> blocked")
    case True
    then obtain blocked' where "pushLoop server settings ms blocked' w = (r, w')"
        "?i \<in> blocked'" "blocked \<subseteq> blocked'"
      using Cons.prems(5) by (auto split: if_splits)
    with Cons.IH[of blocked' w] ahead_block[OF Cons.prems(1)] Cons.prems(2-4,6) show ?thesis by simp
  next
    case False
    then have open': "?i \<notin> blocked" and ok: "\<not> truthy (mu_lastError m)" by auto
    note head = ahead_head[OF Cons.prems(1) open', THEN conjunct2]
    obtain order where Some: "getOrderById (sw_reg w) ?i = Some order"
      using wf_slot[OF Cons.prems(2), of ?i] head
      by (cases "getOrderById (sw_reg w) ?i") (auto simp: orderCore_def outboxOf_def)
    obtain r1 w1 where run: "dispatch server settings m order w = (r1, w1)" by fastforce
    from dispatch_effect[OF Cons.prems(3) Some run]
    have eff: "inv (sw_server w1)" "rg_mutations (sw_reg w1) = rg_mutations (sw_reg w)"
        "rg_ids (sw_reg w1) = rg_ids (sw_reg w)" "rg_nextId (sw_reg w1) = rg_nextId (sw_reg w)"
        "rg_now (sw_reg w1) = rg_now (sw_reg w)"
        "\<And>j. j \<noteq> ?i \<or> isl r1 \<Longrightarrow> orderCore (sw_reg w1) j = orderCore (sw_reg w) j"
        "r1 = Inr () \<Longrightarrow> \<exists>st. orderCore (sw_reg w1) ?i = Some (True, st)" by auto
    have a1: "ahead (m # ms) blocked (sw_reg w1)"
      using Cons.prems(1) ahead_frame[OF eff(2)] by simp
    have h1: "queueIn ?i (listPending (sw_reg w1)) = m # queueIn ?i ms"
      using head listPending_frame[OF eff(2)] by simp
    have slots: "slot_ok (orderCore (sw_reg w1) j) (outboxOf (sw_reg w1) j)" for j
      using wf_slot[OF Cons.prems(2), of j] eff(6)[of j] eff(7) outboxOf_frame[OF eff(2)]
      by (cases "j = ?i"; cases r1) auto
    have wf1: "wf_outbox (sw_reg w1)"
      using slots Cons.prems(2) minted_frame[OF eff(2,3)] eff(4,5) by (simp add: wf_slots)
    have q1: "Q (handled m r1 w1)"
      using Cons.prems(6)[OF _ Cons.prems(3,4) Some run eff(2)] by simp
    have srv: "sw_server (handled m r1 w1) = sw_server w1"
      by (simp add: handled_def split: sum.split)
    have step: "pushLoop server settings (m # ms) blocked w =
      (case r1 of Inr _ \<Rightarrow> pushLoop server settings ms blocked (handled m r1 w1)
       | Inl e \<Rightarrow> if rejected e then pushLoop server settings ms (insert ?i blocked) (handled m r1 w1)
           else (Inl e, handled m r1 w1))"
      using ok open' Some run by (auto simp: handled_def split: sum.split)
    note again = Cons.IH[OF _ _ _ q1, unfolded srv, OF _ _ eff(1) _ Cons.prems(6)]
    consider (ok) "r1 = Inr ()" | (no) e where "r1 = Inl e" "rejected e" | (stop) e where "r1 = Inl e" "\<not> rejected e"
      by (cases r1) auto
    then show ?thesis
    proof cases
      case ok
      with wf_remove[OF wf1 h1] eff(7) have "wf_outbox (sw_reg (handled m r1 w1))" by (simp add: handled_def)
      with again[of blocked] ok step Cons.prems(5) ahead_remove[OF a1 open'] show ?thesis
        by (simp add: handled_def)
    next
      case no
      have "ahead ms (insert ?i blocked) (sw_reg (handled m r1 w1))"
        using no ahead_fail[OF a1 open'] ahead_frame[of "sw_reg (handled m r1 w1)"
          "markMutationFailed (mu_id m) (errorMessage e) (sw_reg w1)"] by (simp add: handled_def)
      moreover have "wf_outbox (sw_reg (handled m r1 w1))"
        using no wf_rejected[OF wf1 h1] by (simp add: handled_def)
      ultimately show ?thesis using again[of "insert ?i blocked"] no step Cons.prems(5) by simp
    next
      case stop
      with step Cons.prems(5) q1 eff(1) srv wf_bump[OF wf1] show ?thesis by (auto simp: handled_def)
    qed
  qed
qed auto

lemma pushLoop_wf:
  assumes "ahead ms blocked (sw_reg w)" and "wf_outbox (sw_reg w)" and "inv (sw_server w)"
    and "pushLoop server settings ms blocked w = (r, w')"
  shows "wf_outbox (sw_reg w') \<and> inv (sw_server w')"
  using pushLoop_rule[OF assms(1-3) _ assms(4), of "\<lambda>_. True"] by simp

lemma pushMutations_wf:
  assumes "wf_outbox (sw_reg w)" and "inv (sw_server w)" and "pushMutations server settings w = (r, w')"
  shows "wf_outbox (sw_reg w') \<and> inv (sw_server w')"
proof -
  have "ahead (listPending (sw_reg w)) {} (sw_reg w)"
    using assms(1) by (simp add: ahead_def wf_outbox_def minted_def distinct_listPending)
  from pushLoop_wf[OF this assms(1,2) assms(3)[unfolded pushMutations_def]] show ?thesis .
qed

section \<open>So does a whole sync\<close>

definition goodWorld :: "'s sync_world \<Rightarrow> bool" where
  "goodWorld w \<longleftrightarrow> wf_outbox (sw_reg w) \<and> inv (sw_server w)"

lemma goodWorld_state [simp]: "goodWorld (updateState f w) = goodWorld w" "goodWorld (refreshCounts w) = goodWorld w"
  by (simp_all add: goodWorld_def updateState_def)

lemma andThen_good:
  assumes "goodWorld (snd (m w))" and "\<And>a w'. m w = (Inr a, w') \<Longrightarrow> goodWorld w' \<Longrightarrow> goodWorld (snd (f a w'))"
  shows "goodWorld (snd (andThen m f w))"
  using assms by (auto simp: andThen_def split: prod.splits sum.splits)

lemma callApi_good: "goodWorld w \<Longrightarrow> goodWorld (snd (callApi server req w))"
  by (simp add: goodWorld_def callApi_inv callApi_reg)

lemma goodWorld_reg:
  assumes "goodWorld w" and "rg_mutations rg' = rg_mutations (sw_reg w)" and "orderCore rg' = orderCore (sw_reg w)"
    and "rg_ids rg' = rg_ids (sw_reg w)" and "rg_nextId rg' = rg_nextId (sw_reg w)" and "rg_now rg' = rg_now (sw_reg w)"
  shows "goodWorld (w\<lparr>sw_reg := rg'\<rparr>)"
  using assms wf_same[of "sw_reg w" rg'] by (simp add: goodWorld_def)

lemma resolve_core: "orderCore (resolveLocalCustomer k sc rg) = orderCore rg"
proof
  fix i
  show "orderCore (resolveLocalCustomer k sc rg) i = orderCore rg i"
    by (cases "first_row (\<lambda>r. ro_id r = i) (rg_orders rg)")
      (auto simp: orderCore_rows resolveLocalCustomer_def first_row_update_where)
qed

lemma pushCustomerLoop_good: "goodWorld w \<Longrightarrow> goodWorld (snd (pushCustomerLoop server cs w))"
proof (induction cs arbitrary: w)
  case (Cons c cs)
  have "goodWorld (onReg (resolveLocalCustomer (pc_id c) sc) w')" if "goodWorld w'" for sc w'
    unfolding onReg_def using that
    by (rule goodWorld_reg) (simp_all add: resolve_core, simp_all add: resolveLocalCustomer_def)
  then show ?case
    using Cons by (auto intro!: andThen_good callApi_good split: api_reply.splits)
qed simp

lemma goodWorld_fields:
  assumes "goodWorld w"
  shows "goodWorld (w\<lparr>sw_reg := (sw_reg w)\<lparr>rg_categories := cs, rg_products := ps\<rparr>\<rparr>)"
    and "goodWorld (w\<lparr>sw_reg := (sw_reg w)\<lparr>rg_customers := us\<rparr>\<rparr>)"
    and "goodWorld (w\<lparr>sw_reg := (sw_reg w)\<lparr>rg_locations := ls\<rparr>\<rparr>)"
    and "goodWorld (w\<lparr>sw_reg := (sw_reg w)\<lparr>rg_discounts := ds\<rparr>\<rparr>)"
    and "goodWorld (w\<lparr>sw_reg := (sw_reg w)\<lparr>rg_tables := ts\<rparr>\<rparr>)"
    and "goodWorld (w\<lparr>sw_reg := (sw_reg w)\<lparr>rg_meta := mt\<rparr>\<rparr>)"
  by - (rule goodWorld_reg[OF assms]; auto intro!: ext orderCore_frame)+

lemma inDb_good:
  assumes "goodWorld w" and "goodWorld (w\<lparr>sw_reg := snd (f (sw_reg w))\<rparr>)"
  shows "goodWorld (snd (inDb f w))"
  using assms by (simp add: inDb_def Let_def case_prod_unfold)

lemma inDb_replaces:
  assumes "goodWorld w"
  shows "goodWorld (snd (inDb (replaceCatalog cats) w))" and "goodWorld (snd (inDb (replaceLocations ls) w))"
    and "goodWorld (snd (inDb (replaceDiscounts ds) w))" and "goodWorld (snd (inDb (replaceTables plans) w))"
  by - (rule inDb_good[OF assms], use assms goodWorld_fields[OF assms] in
    \<open>auto simp: replaceCatalog_def replaceLocations_def replaceDiscounts_def replaceTables_def
      inTransaction_def split: sum.splits prod.splits\<close>)+

lemma mergeCustomers_good: "goodWorld w \<Longrightarrow> goodWorld (onReg (mergeServerCustomers cs) w)"
  by (simp add: onReg_def mergeServerCustomers_def goodWorld_fields)

lemma pullAll_good: "goodWorld w \<Longrightarrow> goodWorld (snd (pullAll server settings w))"
proof -
  assume w: "goodWorld w"
  have call: "goodWorld w'" if "callApi server req v = (a, w')" "goodWorld v" for req v a w'
    using callApi_good[OF that(2), of req] that(1) by simp
  show ?thesis
    unfolding pullAll_def Let_def
    using w by (auto intro!: andThen_good inDb_replaces mergeCustomers_good callApi_good
        split: prod.splits sum.splits dest!: call)
qed

lemma finishSync_good: "goodWorld w \<Longrightarrow> goodWorld (snd (finishSync isoText w))"
  by (simp add: finishSync_def Let_def onReg_def setMeta_def goodWorld_fields)

lemma pushMutations_good: "goodWorld w \<Longrightarrow> goodWorld (snd (pushMutations server settings w))"
  using pushMutations_wf[of w settings] by (auto simp: goodWorld_def) (metis prod.collapse)+

lemma syncAll_good: "goodWorld w \<Longrightarrow> goodWorld (syncAll isoText server settings w)"
proof -
  assume w: "goodWorld w"
  let ?start = "updateState (\<lambda>s. s\<lparr>ss_syncing := True, ss_lastError := None\<rparr>) w"
  let ?run = "andThen (pushCustomers server) (\<lambda>_. andThen (pushMutations server settings) (\<lambda>_.
      andThen (pullAll server settings) (\<lambda>_. finishSync isoText)))"
  have "goodWorld ?start" using w by simp
  then have "goodWorld (snd (?run ?start))"
    by (intro andThen_good) (auto simp: pushCustomers_def pushCustomerLoop_good intro: andThen_good
        pushMutations_good pullAll_good finishSync_good)
  with w show ?thesis
    by (auto simp: syncAll_def Let_def case_prod_unfold split: sum.splits)
qed

end

section \<open>The life of a register\<close>

text \<open>
  The register's clock does not go back; an open tab is what its ticket is saved, settled or fired
  from; anything that leaves the orders and the outbox alone may happen in between.
\<close>

inductive pos_step :: "(int \<Rightarrow> string) \<Rightarrow> 's server \<Rightarrow> pos_settings \<Rightarrow> 's sync_world \<Rightarrow> 's sync_world \<Rightarrow> bool"
  for isoText server settings where
  Hold: "lo_status order = Held \<Longrightarrow> pos_step isoText server settings w (onReg (saveOrder order) w)"
| Pay: "pos_step isoText server settings w (onReg (checkout order) w)"
| Send: "pos_step isoText server settings w (onReg (\<lambda>rg. snd (openTab order rg)) w)"
| Append: "isTab (sw_reg w) (lo_id merged) \<Longrightarrow> pos_step isoText server settings w (onReg (appendToTab merged delta) w)"
| Settle: "isTab (sw_reg w) (lo_id merged) \<Longrightarrow>
    pos_step isoText server settings w (onReg (settleTab merged delta payment) w)"
| Fire: "isTab (sw_reg w) (lo_id order) \<Longrightarrow> pos_step isoText server settings w (onReg (fireTabCourse order course) w)"
| Discard: "pos_step isoText server settings w (onReg (discardOrder i) w)"
| Retry: "pos_step isoText server settings w (onReg (retrySync i) w)"
| Sync: "pos_step isoText server settings w (syncAll isoText server settings w)"
| Elsewhere: "rg_orders rg = rg_orders (sw_reg w) \<Longrightarrow> rg_mutations rg = rg_mutations (sw_reg w) \<Longrightarrow>
    rg_ids rg = rg_ids (sw_reg w) \<Longrightarrow> rg_nextId (sw_reg w) \<le> rg_nextId rg \<Longrightarrow> rg_now (sw_reg w) \<le> rg_now rg \<Longrightarrow>
    pos_step isoText server settings w (w\<lparr>sw_reg := rg\<rparr>)"

context order_server
begin

lemma pos_step_good:
  assumes "pos_step isoText server settings w w'" and "goodWorld w"
  shows "goodWorld w'"
  using assms
proof cases
  case (Elsewhere rg)
  then have "orderCore rg = orderCore (sw_reg w)" by (intro ext orderCore_frame)
  with Elsewhere assms(2) wf_same[of "sw_reg w" rg] show ?thesis by (simp add: goodWorld_def)
next
  case Sync
  with assms(2) show ?thesis by (simp add: syncAll_good)
next
  case (Hold order)
  with assms(2) wf_save[of "sw_reg w" order] show ?thesis by (simp add: goodWorld_def)
qed (auto simp: goodWorld_def wf_checkout wf_openTab wf_appendToTab wf_settleTab wf_fireTabCourse wf_discard wf_retry)

lemma life_good: "(pos_step isoText server settings)\<^sup>*\<^sup>* w w' \<Longrightarrow> goodWorld w \<Longrightarrow> goodWorld w'"
  by (induction rule: rtranclp_induct) (auto intro: pos_step_good)

end

definition fresh :: "register \<Rightarrow> bool" where
  "fresh rg \<longleftrightarrow> rg_orders rg = [] \<and> rg_mutations rg = [] \<and> inj (rg_ids rg)"

lemma fresh_wf: "fresh rg \<Longrightarrow> wf_outbox rg"
  by (simp add: fresh_def wf_slots minted_def orderCore_rows outboxOf_def listPending_def)


section \<open>A push to an accepting server\<close>

definition accepting :: "'s server \<Rightarrow> bool" where
  "accepting server \<longleftrightarrow> (\<forall>req s. \<exists>hr s'. server req s = (Inr hr, s') \<and> responseOk hr \<and>
     (\<forall>sid t. hr_body hr = OrderReply sid t \<longrightarrow> sid \<noteq> []) \<and>
     (\<forall>p. req = PostPosOrder p \<longrightarrow> (\<exists>sid t. hr_body hr = OrderReply sid t)))"

lemma accepting_server: "accepting (server :: 's server) \<Longrightarrow> order_server server (\<lambda>_. True)"
proof unfold_locales
  fix s s' :: 's and req hr sid t
  assume a: "accepting server" "server req s = (Inr hr, s')" "hr_body hr = OrderReply sid t"
  then obtain hr' s2 where "server req s = (Inr hr', s2)" "\<forall>sid t. hr_body hr' = OrderReply sid t \<longrightarrow> sid \<noteq> []"
    unfolding accepting_def by blast
  with a show "sid \<noteq> []" by simp
qed

lemma dispatch_accepted:
  assumes "accepting server" and "mu_kind m = MCreate \<or> truthy (lo_serverId order)"
  shows "\<exists>w'. dispatch server settings m order w = (Inr (), w')"
proof -
  obtain req where req: "requestFor settings m order = Inr req"
    using assms(2) by (cases "mu_kind m") (auto simp: requestFor_def requireServerId_def)
  from assms(1)[unfolded accepting_def, THEN spec, of req, THEN spec, of "sw_server w"]
  obtain hr s' where hr: "server req (sw_server w) = (Inr hr, s')" "responseOk hr"
      "\<And>p. req = PostPosOrder p \<Longrightarrow> \<exists>sid t. hr_body hr = OrderReply sid t"
    by auto
  obtain rg where rg: "applyReply m order (hr_body hr) (sw_reg w) = (Inr (), rg)"
    using req hr(3) by (cases "mu_kind m") (auto simp: applyReply_def requestFor_def)
  have "callApi server req w = (Inr (hr_body hr), w\<lparr>sw_server := s'\<rparr>)"
    using hr(1,2) by (simp add: callApi_def apiRequest_def)
  with req rg have "dispatch server settings m order w = (Inr (), w\<lparr>sw_server := s', sw_reg := rg\<rparr>)"
    by (simp add: dispatch_def andThen_def)
  then show ?thesis by blast
qed

lemma pushLoop_empties:
  assumes "accepting server" and "ahead ms {} (sw_reg w)" and "wf_outbox (sw_reg w)"
    and "\<forall>m \<in> set ms. \<not> truthy (mu_lastError m)"
  shows "fst (pushLoop server settings ms {} w) = Inr () \<and>
    ahead [] {} (sw_reg (snd (pushLoop server settings ms {} w))) \<and>
    (\<forall>i. serverKnows (sw_reg w) i \<or> queueIn i ms \<noteq> [] \<longrightarrow>
       serverKnows (sw_reg (snd (pushLoop server settings ms {} w))) i)"
  using assms(2-)
proof (induction ms arbitrary: w)
  case (Cons m ms)
  let ?i = "mu_orderId m"
  have head: "queueIn ?i (listPending (sw_reg w)) = m # queueIn ?i ms" and open': "?i \<notin> {}"
    using ahead_head[OF Cons.prems(1)] by auto
  have slot: "slot_ok (orderCore (sw_reg w) ?i) (absOp m # map absOp (queueIn ?i ms))"
    using wf_slot[OF Cons.prems(2), of ?i] head by (simp add: outboxOf_def)
  then obtain order where o': "getOrderById (sw_reg w) ?i = Some order"
    by (cases "getOrderById (sw_reg w) ?i") (auto simp: orderCore_def)
  with slot have "mu_kind m = MCreate \<or> truthy (lo_serverId order)"
    by (auto simp: orderCore_def absOp_def)
  from dispatch_accepted[OF assms(1) this] obtain w1 where run: "dispatch server settings m order w = (Inr (), w1)"
    by blast
  let ?w2 = "refreshCounts (onReg (removeMutation (mu_id m)) w1)"
  from order_server.dispatch_effect[OF accepting_server[OF assms(1)] _ o' run]
  have eff: "rg_mutations (sw_reg w1) = rg_mutations (sw_reg w)" "rg_ids (sw_reg w1) = rg_ids (sw_reg w)"
      "rg_nextId (sw_reg w1) = rg_nextId (sw_reg w)" "rg_now (sw_reg w1) = rg_now (sw_reg w)"
      "\<And>j. j \<noteq> ?i \<Longrightarrow> orderCore (sw_reg w1) j = orderCore (sw_reg w) j"
      "\<exists>st. orderCore (sw_reg w1) ?i = Some (True, st)" by auto
  have a1: "ahead (m # ms) {} (sw_reg w1)"
    using Cons.prems(1) ahead_frame[OF eff(1)] by simp
  have "slot_ok (orderCore (sw_reg w1) j) (outboxOf (sw_reg w1) j)" for j
    using wf_slot[OF Cons.prems(2), of j] eff(5)[of j] eff(6) outboxOf_frame[OF eff(1)] by (cases "j = ?i") auto
  then have wf1: "wf_outbox (sw_reg w1)"
    using Cons.prems(2) minted_frame[OF eff(1,2)] eff(3,4) by (simp add: wf_slots)
  have "queueIn ?i (listPending (sw_reg w1)) = m # queueIn ?i ms"
    using head listPending_frame[OF eff(1)] by simp
  from wf_remove[OF wf1 this] eff(6) have wf2: "wf_outbox (sw_reg ?w2)" by simp
  have known: "serverKnows (sw_reg ?w2) j" if "serverKnows (sw_reg w) j \<or> j = ?i" for j
    using that eff(5)[of j] eff(6) by (cases "j = ?i") (auto simp: orderCore_reads)
  have "pushLoop server settings (m # ms) {} w = pushLoop server settings ms {} ?w2"
    using Cons.prems(3) o' run by simp
  with Cons.IH[of ?w2] ahead_remove[OF a1 open'] wf2 Cons.prems(3) known show ?case
    by (auto split: if_splits)
qed auto

lemma all_queues_empty: "(\<forall>i. queueIn i ms = []) \<Longrightarrow> ms = []"
  by (cases ms) (auto simp: queueIn_def split: if_splits)


section \<open>A clock set back\<close>

text \<open>A head that fails without an answer below 500 blocks everything behind it, push after push.\<close>

lemma head_blocks:
  fixes w :: "'s sync_world"
  assumes "listPending (sw_reg w) = m # ms" and "\<not> truthy (mu_lastError m)"
    and "getOrderById (sw_reg w) (mu_orderId m) = Some order" and "P (sw_server w)"
    and fails: "\<And>m' v. absOp m' = absOp m \<Longrightarrow> P (sw_server v) \<Longrightarrow>
      \<exists>e s. dispatch server settings m' order v = (Inl e, v\<lparr>sw_server := s\<rparr>) \<and> \<not> rejected e \<and> P s"
  shows "let w' = ((\<lambda>w. snd (pushMutations server settings w)) ^^ n) w
    in P (sw_server w') \<and> outboxOf (sw_reg w') = outboxOf (sw_reg w) \<and>
       rg_orders (sw_reg w') = rg_orders (sw_reg w) \<and> isl (fst (pushMutations server settings w'))"
proof -
  define stuck where "stuck v \<longleftrightarrow> (\<exists>m' ms'. listPending (sw_reg v) = m' # ms' \<and> absOp m' = absOp m \<and>
      mu_orderId m' = mu_orderId m) \<and> rg_orders (sw_reg v) = rg_orders (sw_reg w) \<and>
      outboxOf (sw_reg v) = outboxOf (sw_reg w) \<and> P (sw_server v)" for v :: "'s sync_world"
  have once: "isl (fst (pushMutations server settings v)) \<and> stuck (snd (pushMutations server settings v))" if "stuck v" for v
  proof -
    from that obtain m' ms' where m': "listPending (sw_reg v) = m' # ms'" "absOp m' = absOp m" "mu_orderId m' = mu_orderId m"
      and same: "rg_orders (sw_reg v) = rg_orders (sw_reg w)" "outboxOf (sw_reg v) = outboxOf (sw_reg w)" "P (sw_server v)"
      by (auto simp: stuck_def)
    have o': "getOrderById (sw_reg v) (mu_orderId m') = Some order"
      using assms(3) m'(3) same(1) by (simp add: getOrderById_def)
    have ok: "\<not> truthy (mu_lastError m')" using assms(2) m'(2) by (simp add: absOp_def)
    obtain e s where e: "dispatch server settings m' order v = (Inl e, v\<lparr>sw_server := s\<rparr>)" "\<not> rejected e" "P s"
      using fails[OF m'(2) same(3)] by blast
    then have "pushMutations server settings v =
        (Inl e, refreshCounts (onReg (bumpAttempts (mu_id m')) (v\<lparr>sw_server := s\<rparr>)))"
      using m'(1) ok o' by (simp add: pushMutations_def)
    moreover have "listPending (bumpAttempts (mu_id m') (sw_reg v)) =
        m'\<lparr>mu_attempts := mu_attempts m' + 1\<rparr> # tl (listPending (bumpAttempts (mu_id m') (sw_reg v)))"
      by (simp add: listPending_bump m'(1))
    moreover have "rg_orders (bumpAttempts (mu_id m') (sw_reg v)) = rg_orders (sw_reg v)"
      by (simp add: bumpAttempts_def updateMutation_def)
    moreover have "absOp (m'\<lparr>mu_attempts := mu_attempts m' + 1\<rparr>) = absOp m"
      using m'(2) by (simp add: absOp_def)
    ultimately show ?thesis
      using same m' e(3) by (auto simp: stuck_def outboxOf_bump)
  qed
  have "stuck w" using assms(1,4) by (auto simp: stuck_def)
  then have "stuck (((\<lambda>w. snd (pushMutations server settings w)) ^^ n) w)"
    by (induction n) (auto dest: once)
  with once show ?thesis by (auto simp: Let_def stuck_def)
qed

text \<open>
  When the oldest queued operation by the register's clock addresses an order the server does
  not know, every push ends at once, before it sends anything, and changes nothing but the count of
  attempts: nothing that is queued is ever delivered. A clock that was set back after a tab was
  opened offline makes such a queue, because the append is then sorted before the create.
\<close>

theorem clock_set_back_wedges:
  assumes "listPending (sw_reg w) = m # ms" and "\<not> truthy (mu_lastError m)" and "mu_kind m \<noteq> MCreate"
    and "getOrderById (sw_reg w) (mu_orderId m) = Some order" and "\<not> truthy (lo_serverId order)"
  shows "let w' = ((\<lambda>w :: 's sync_world. snd (pushMutations server settings w)) ^^ n) w
    in sw_server w' = sw_server w \<and> outboxOf (sw_reg w') = outboxOf (sw_reg w) \<and>
       rg_orders (sw_reg w') = rg_orders (sw_reg w) \<and> isl (fst (pushMutations server settings w'))"
proof -
  have "\<exists>e s. dispatch server settings m' order v = (Inl e, v\<lparr>sw_server := s\<rparr>) \<and> \<not> rejected e \<and> s = sw_server w"
    if m': "absOp m' = absOp m" and v: "sw_server v = sw_server w" for m' and v :: "'s sync_world"
  proof -
    from m' have "mu_kind m' = mu_kind m" by (simp add: absOp_def)
    then obtain e where e: "requestFor settings m' order = Inl e"
      using assms(3,5) by (cases "mu_kind m'") (auto simp: requestFor_def requireServerId_def)
    have "v\<lparr>sw_server := sw_server w\<rparr> = v" unfolding v[symmetric] by simp
    with requestFor_unaddressed[OF e] e show ?thesis
      by (intro exI[of _ e] exI[of _ "sw_server w"]) (simp add: dispatch_def)
  qed
  from head_blocks[OF assms(1,2,4), of "\<lambda>s. s = sw_server w", OF refl this, of n] show ?thesis
    unfolding Let_def by blast
qed

end
