(* ===== verification/Delivery.thy ===== *)
theory Delivery
  imports Outbox_Life
begin

text \<open>
  Delivery over a network that loses requests and responses. The register sends an operation again
  until the server answers; the interface \<open>order_ledger\<close> says what a server has to do for that to be
  safe: what it accepted is on record, and stays there. Shown here: a push takes nothing out of the
  outbox before it is on record.
\<close>

section \<open>A network that loses messages\<close>

text \<open>The fate of the n-th request; a lost one is an error of \<open>fetch\<close>.\<close>

datatype fate = Arrives | RequestLost | ResponseLost

definition lossy :: "(nat \<Rightarrow> fate) \<Rightarrow> 's server \<Rightarrow> (nat \<times> 's) server" where
  "lossy fates server req ns =
     (case fates (fst ns) of
        Arrives \<Rightarrow> (let (r, s) = server req (snd ns) in (r, (Suc (fst ns), s)))
      | RequestLost \<Rightarrow> (Inl ''Network request failed'', (Suc (fst ns), snd ns))
      | ResponseLost \<Rightarrow> (Inl ''Network request failed'', (Suc (fst ns), snd (server req (snd ns)))))"

lemma lossy_state: "snd (snd (lossy fates server req ns)) \<in> {snd ns, snd (server req (snd ns))}"
  by (auto simp: lossy_def split: fate.split prod.split)

lemma lossy_answer:
  "lossy fates server req ns = (Inr hr, ns') \<Longrightarrow> server req (snd ns) = (Inr hr, snd ns')"
  by (auto simp: lossy_def split: fate.splits prod.splits)

section \<open>A server that keeps records\<close>

locale order_ledger = order_server server inv for server :: "'s server" and inv :: "'s \<Rightarrow> bool" +
  fixes recorded :: "'s \<Rightarrow> order_mutation \<Rightarrow> bool"
  assumes records: "inv s \<Longrightarrow> requestFor settings m order = Inr req \<Longrightarrow> lo_id order = mu_orderId m \<Longrightarrow>
      server req s = (Inr hr, s') \<Longrightarrow> responseOk hr \<Longrightarrow> recorded s' m"
    and keeps_records: "inv s \<Longrightarrow> recorded s m \<Longrightarrow> recorded (snd (server req s)) m"
begin

definition settled :: "order_mutation list \<Rightarrow> 's sync_world \<Rightarrow> bool" where
  "settled ms0 w \<longleftrightarrow> (\<forall>m \<in> set ms0. mu_id m \<in> mt_id ` set (rg_mutations (sw_reg w)) \<or> recorded (sw_server w) m)"

lemma dispatch_records:
  assumes "inv (sw_server w)" and "lo_id order = mu_orderId m" and "dispatch server settings m order w = (r, w')"
  shows "(r = Inr () \<longrightarrow> recorded (sw_server w') m) \<and>
    (\<forall>x. recorded (sw_server w) x \<longrightarrow> recorded (sw_server w') x)"
proof (cases "requestFor settings m order")
  case (Inl e)
  with assms(3) show ?thesis by (auto simp: dispatch_def)
next
  case (Inr req)
  obtain ans s' where ans: "server req (sw_server w) = (ans, s')" by fastforce
  have "sw_server w' = s'"
    using assms(3) Inr ans
    by (auto simp: dispatch_def andThen_def callApi_def apiRequest_def split: sum.splits prod.splits if_splits)
  moreover have "\<exists>hr. ans = Inr hr \<and> responseOk hr" if "r = Inr ()"
    using assms(3) Inr ans that
    by (auto simp: dispatch_def andThen_def callApi_def apiRequest_def split: sum.splits prod.splits if_splits)
  ultimately show ?thesis
    using records[OF assms(1) Inr assms(2)] keeps_records[OF assms(1), of _ req] ans by auto
qed

lemma handled_settled:
  assumes "inv (sw_server v)" and "settled ms0 v" and "m \<in> set ms0" and "distinct (map mu_id ms0)"
    and "getOrderById (sw_reg v) (mu_orderId m) = Some order"
    and "dispatch server settings m order v = (r1, v1)"
    and "rg_mutations (sw_reg v1) = rg_mutations (sw_reg v)"
  shows "settled ms0 (handled m r1 v1)"
proof -
  note rec = dispatch_records[OF assms(1) getOrderById_id[OF assms(5)] assms(6)]
  have srv: "sw_server (handled m r1 v1) = sw_server v1"
    by (simp add: handled_def split: sum.split)
  have same: "x = m" if "x \<in> set ms0" "mu_id x = mu_id m" for x
    using assms(3,4) that by (auto simp: distinct_map inj_on_def)
  have ids: "mt_id ` set (update_where P f ms) = mt_id ` set ms" if "\<And>m. mt_id (f m) = mt_id m" for P f ms
    using that by (induction ms) auto
  show ?thesis
  proof (cases r1)
    case (Inl e)
    then have "mt_id ` set (rg_mutations (sw_reg (handled m r1 v1))) = mt_id ` set (rg_mutations (sw_reg v))"
      by (simp add: handled_def assms(7) ids markMutationFailed_def bumpAttempts_def)
    with rec assms(2) srv show ?thesis by (simp add: settled_def) blast
  next
    case (Inr u)
    have "mu_id x \<in> mt_id ` set (rg_mutations (sw_reg (handled m r1 v1))) \<or> recorded (sw_server v1) x"
      if x: "x \<in> set ms0" for x
    proof (cases "mu_id x = mu_id m")
      case True
      with same[OF x] rec Inr show ?thesis by simp
    next
      case False
      moreover have "mu_id x \<in> mt_id ` set (rg_mutations (sw_reg v)) \<or> recorded (sw_server v) x"
        using x assms(2) by (simp add: settled_def)
      ultimately show ?thesis using rec Inr by (fastforce simp: handled_def assms(7))
    qed
    with srv show ?thesis by (simp add: settled_def)
  qed
qed

lemma push_settles:
  assumes "goodWorld w" and "pushMutations server settings w = (r, w')"
  shows "goodWorld w' \<and> settled (listPending (sw_reg w)) w'"
proof -
  let ?ms = "listPending (sw_reg w)"
  have wf: "wf_outbox (sw_reg w)" and inv: "inv (sw_server w)" using assms(1) by (auto simp: goodWorld_def)
  then have d: "distinct (map mu_id ?ms)" by (simp add: wf_outbox_def minted_def distinct_listPending)
  then have "ahead ?ms {} (sw_reg w)" by (simp add: ahead_def)
  moreover have "settled ?ms w"
    by (auto simp: settled_def listPending_def toMutation_def)
  ultimately show ?thesis
    using pushLoop_rule[of ?ms "{}" w "settled ?ms" settings r w'] wf inv d assms(2) handled_settled
    by (auto simp: goodWorld_def pushMutations_def)
qed

end

end
