(* ===== verification/Public_Orders.thy ===== *)
theory Public_Orders
  imports Orders_Service Delivery
begin

text \<open>
  The public API the register talks to: the API-key guard, the orders controller
  (\<open>public-api/guards/api-key-auth.guard.ts\<close>, \<open>public-api/public-orders.controller.ts\<close>) and the filter
  that turns what a handler throws into a response (\<open>common/filters/http-exception.filter.ts\<close>), on
  top of the order services; and a network that loses requests and responses.

  The request pipes of the framework and the controllers of menus, customers, locations, discounts
  and floor plans are fields of the environment. Shown here: whatever is lost and repeated, one
  order exists per client order id and every mutation id is claimed once; and a queued settlement
  the server would take blocks the outbox for good, because the API's payments fail.
\<close>

section \<open>The guard\<close>

record api_key_row =
  ak_id :: uuid
  ak_organizationId :: uuid
  ak_keyHash :: string
  ak_expiresAt :: "int option"

record organization_row =
  org_id :: uuid
  org_status :: string

text \<open>\<open>sha\<close> is the hex digest of SHA-256; the note of the last use is left out.\<close>

definition canUseApi ::
  "(string \<Rightarrow> string) \<Rightarrow> api_key_row list \<Rightarrow> organization_row list \<Rightarrow> int \<Rightarrow> string option \<Rightarrow> error + uuid" where
  "canUseApi sha keys orgs now apiKey =
     (if \<not> truthy apiKey then Inl (UnauthorizedException ''API key is missing'')
      else case first_row (\<lambda>k. ak_keyHash k = sha (the apiKey)) keys of
        None \<Rightarrow> Inl (UnauthorizedException ''Invalid API key'')
      | Some key \<Rightarrow>
          if (case ak_expiresAt key of None \<Rightarrow> False | Some t \<Rightarrow> t < now)
          then Inl (UnauthorizedException ''API key has expired'')
          else case first_row (\<lambda>o'. org_id o' = ak_organizationId key) orgs of
            None \<Rightarrow> Inl (UnauthorizedException ''Organization is inactive; API access is disabled.'')
          | Some org \<Rightarrow>
              if org_status org = ''suspended'' \<or> org_status org = ''archived''
              then Inl (UnauthorizedException ''Organization is inactive; API access is disabled.'')
              else Inr (ak_organizationId key))"

section \<open>Responses\<close>

fun httpStatus :: "error \<Rightarrow> int" where
  "httpStatus (BadRequestException m) = 400"
| "httpStatus (NotFoundException m) = 404"
| "httpStatus (ForbiddenException m) = 403"
| "httpStatus (ConflictException m) = 409"
| "httpStatus (UnauthorizedException m) = 401"
| "httpStatus (TooManyRequestsException m) = 429"
| "httpStatus (ConstraintViolation m) = 500"
| "httpStatus (UniqueViolation m) = 500"
| "httpStatus (GenericError m) = 500"

fun httpMessage :: "error \<Rightarrow> string" where
  "httpMessage (BadRequestException m) = m"
| "httpMessage (NotFoundException m) = m"
| "httpMessage (ForbiddenException m) = m"
| "httpMessage (ConflictException m) = m"
| "httpMessage (UnauthorizedException m) = m"
| "httpMessage (TooManyRequestsException m) = m"
| "httpMessage _ = ''An unexpected error occurred. Please try again later.''"

definition errorResponse :: "error \<Rightarrow> http_response" where
  "errorResponse e = \<lparr>hr_status = httpStatus e, hr_message = Some (OneText (httpMessage e)), hr_body = OtherReply\<rparr>"

definition respond :: "int \<Rightarrow> ('a \<Rightarrow> api_reply) \<Rightarrow> 'a handler \<Rightarrow> world \<Rightarrow> http_response \<times> world" where
  "respond status reply m w =
     (case m w of
        (Inl e, w') \<Rightarrow> (errorResponse e, w')
      | (Inr a, w') \<Rightarrow> (\<lparr>hr_status = status, hr_message = None, hr_body = reply a\<rparr>, w'))"

section \<open>The orders controller\<close>

record platform_env =
  pe_sha256 :: "string \<Rightarrow> string"
  pe_keys :: "api_key_row list"
  pe_orgs :: "organization_row list"
  pe_apiKey :: "string option"
  pe_cache :: cache_wiring
  pe_pipes :: "api_request \<Rightarrow> error_text option"
  pe_others :: "uuid \<Rightarrow> api_request \<Rightarrow> world \<Rightarrow> http_response \<times> world"

text \<open>The bodies of the requests as the services take them.\<close>

definition cartItemOf :: "delta_line \<Rightarrow> cart_item" where
  "cartItemOf l = \<lparr>ci_menuItemId = dl_menuItemId l, ci_quantity = dl_quantity l, ci_optionIds = dl_optionIds l,
     ci_notes = dl_notes l, ci_course = dl_course l, ci_priceOverride = dl_priceOverride l,
     ci_priceOverrideReason = dl_priceOverrideReason l\<rparr>"

definition posOrderDto :: "pos_order_payload \<Rightarrow> pos_order" where
  "posOrderDto p = \<lparr>cp_locationId = wo_locationId p, cp_customerId = wo_customerId p,
     cp_customerName = wo_customerName p, cp_customerPhone = wo_customerPhone p, cp_tableId = wo_tableId p,
     cp_orderType = Some (wo_orderType p), cp_specialInstructions = wo_specialInstructions p,
     cp_paymentMethod = wo_paymentMethod p, cp_tipAmount = map_option of_int (wo_tipAmount p),
     cp_applyServiceCharge = nvl (wo_applyServiceCharge p) False,
     cp_redeemPoints = map_option of_int (wo_redeemPoints p), cp_discountId = wo_discountId p,
     cp_promoCode = None, cp_clientOrderId = Some (wo_clientOrderId p), cp_fireMode = Some (wo_fireMode p),
     cp_items = map cartItemOf (wo_items p)\<rparr>"

definition payloadMethod :: "mutation_payload \<Rightarrow> string" where
  "payloadMethod p = (case p of TenderPayload m _ \<Rightarrow> m | _ \<Rightarrow> [])"

definition payloadTip :: "mutation_payload \<Rightarrow> rat option" where
  "payloadTip p = (case p of TenderPayload _ t \<Rightarrow> map_option of_int t | _ \<Rightarrow> None)"

text \<open>The client reads the id and the ticket number of a created order and no other order reply.\<close>

definition createdReply :: "full_order \<Rightarrow> api_reply" where
  "createdReply fo = OrderReply (ord_id (fo_order fo)) (ord_ticketNumber (fo_order fo))"

definition serveOrders :: "platform_env \<Rightarrow> uuid \<Rightarrow> api_request \<Rightarrow> world \<Rightarrow> http_response \<times> world" where
  "serveOrders env orgId req =
     (case req of
        PostPosOrder p \<Rightarrow>
          respond 201 createdReply (createPosOrder (pe_cache env) (apiPrincipal orgId) (posOrderDto p))
      | PostOrderItems i key items \<Rightarrow>
          respond 200 (\<lambda>_. OtherReply) (appendOrderItems (pe_cache env) (apiPrincipal orgId) i
            \<lparr>ap_clientMutationId = Some key, ap_cart = map cartItemOf (nvl items [])\<rparr>)
      | PostFire i key course \<Rightarrow>
          respond 200 (\<lambda>_. OtherReply) (fireCourse (pe_cache env) (apiPrincipal orgId) i
            \<lparr>fd_course = nvl course 0, fd_clientMutationId = Some key\<rparr>)
      | PostPay i payload \<Rightarrow>
          respond 200 (\<lambda>_. OtherReply) (payOrder (pe_cache env) (apiPrincipal orgId) i
            (payloadMethod payload) (payloadTip payload) getOrderByIdForOrg)
      | _ \<Rightarrow> pe_others env orgId req)"

text \<open>A request: the guard, the pipes, the controller.\<close>

definition platform :: "platform_env \<Rightarrow> world server" where
  "platform env req w =
     (case canUseApi (pe_sha256 env) (pe_keys env) (pe_orgs env) (w_now w) (pe_apiKey env) of
        Inl e \<Rightarrow> (Inr (errorResponse e), w)
      | Inr orgId \<Rightarrow>
          (case pe_pipes env req of
             Some message \<Rightarrow> (Inr \<lparr>hr_status = 400, hr_message = Some message, hr_body = OtherReply\<rparr>, w)
           | None \<Rightarrow> (let (r, w') = serveOrders env orgId req w in (Inr r, w'))))"

section \<open>What every request keeps\<close>

text \<open>
  One order per key, one claim per mutation id, order ids that are texts, as an invariant of the
  database and its supply of ids; and a set of facts the database holds and never loses.
\<close>

datatype fact = Ordered uuid string | Claimed uuid string

definition claimsOf :: "db \<Rightarrow> uuid \<Rightarrow> string \<Rightarrow> order_mutation_row list" where
  "claimsOf d g k = filter (\<lambda>m. om_organizationId m = g \<and> om_clientMutationId m = k) (t_orderMutations d)"

fun holds :: "db \<Rightarrow> fact \<Rightarrow> bool" where
  "holds d (Ordered g k) \<longleftrightarrow> ordersUnder d g k \<noteq> []"
| "holds d (Claimed g k) \<longleftrightarrow> claimsOf d g k \<noteq> []"

definition onceDb :: "fact set \<Rightarrow> db \<Rightarrow> bool" where
  "onceDb K d \<longleftrightarrow> (\<forall>g k. length (ordersUnder d g k) \<le> 1 \<and> length (claimsOf d g k) \<le> 1) \<and>
     (\<forall>r \<in> set (t_orders d). ord_id r \<noteq> []) \<and> (\<forall>f \<in> K. holds d f)"

definition once :: "fact set \<Rightarrow> world \<Rightarrow> bool" where
  "once K w \<longleftrightarrow> onceDb K (w_db w) \<and> (\<forall>n. w_ids w n \<noteq> [])"

lemma onceDb_frame:
  assumes "t_orders d' = t_orders d" "t_orderMutations d' = t_orderMutations d" shows "onceDb K d' = onceDb K d"
proof -
  have "ordersUnder d' g k = ordersUnder d g k" "claimsOf d' g k = claimsOf d g k" for g k
    using assms by (simp_all add: ordersUnder_def claimsOf_def)
  moreover from this have "holds d' f = holds d f" for f by (cases f) simp_all
  ultimately show ?thesis using assms by (simp add: onceDb_def)
qed

lemma onceDb_order:
  assumes "onceDb K d" and "ord_id r \<noteq> []" and "\<not> order_unique_conflict d r"
  shows "onceDb K (d\<lparr>t_orders := t_orders d @ [r]\<rparr>)"
proof -
  let ?d = "d\<lparr>t_orders := t_orders d @ [r]\<rparr>"
  have o': "ordersUnder ?d g k = ordersUnder d g k @
      (if ord_organizationId r = g \<and> ord_clientOrderId r = Some k then [r] else [])" for g k
    by (simp add: ordersUnder_def)
  have c: "claimsOf ?d g k = claimsOf d g k" for g k by (simp add: claimsOf_def)
  have "ordersUnder d (ord_organizationId r) k = []" if "ord_clientOrderId r = Some k" for k
    using assms(3) that by (auto simp: order_unique_conflict_def ordersUnder_def list_ex_iff filter_empty_conv)
  moreover have "holds d f \<Longrightarrow> holds ?d f" for f by (cases f) (simp_all add: o' c)
  ultimately show ?thesis using assms(1,2) by (auto simp: onceDb_def o' c)
qed

lemma onceDb_claim:
  assumes "onceDb K d" and "claimsOf d (om_organizationId m) (om_clientMutationId m) = []"
  shows "onceDb K (d\<lparr>t_orderMutations := t_orderMutations d @ [m]\<rparr>)"
proof -
  let ?d = "d\<lparr>t_orderMutations := t_orderMutations d @ [m]\<rparr>"
  have c: "claimsOf ?d g k = claimsOf d g k @
      (if om_organizationId m = g \<and> om_clientMutationId m = k then [m] else [])" for g k
    by (simp add: claimsOf_def)
  have o': "ordersUnder ?d g k = ordersUnder d g k" for g k by (simp add: ordersUnder_def)
  moreover have "holds d f \<Longrightarrow> holds ?d f" for f by (cases f) (simp_all add: o' c)
  ultimately show ?thesis using assms by (auto simp: onceDb_def o' c)
qed

text \<open>
  \<open>gives P m\<close>: from a world with the invariant, \<open>m\<close> ends in one, and what it returns satisfies \<open>P\<close>.
\<close>

definition gives :: "('a \<Rightarrow> bool) \<Rightarrow> 'a handler \<Rightarrow> bool" where
  "gives P m \<longleftrightarrow> (\<forall>K w r w'. once K w \<longrightarrow> m w = (r, w') \<longrightarrow> once K w' \<and> (\<forall>a. r = Inr a \<longrightarrow> P a))"

abbreviation maintains :: "'a handler \<Rightarrow> bool" where
  "maintains \<equiv> gives (\<lambda>_. True)"

named_theorems keeps_once "programs that keep one order per key and one claim per mutation"

lemma givesI: "(\<And>K w r w'. once K w \<Longrightarrow> m w = (r, w') \<Longrightarrow> once K w' \<and> (\<forall>a. r = Inr a \<longrightarrow> P a)) \<Longrightarrow> gives P m"
  by (simp add: gives_def)

lemma givesD: "gives P m \<Longrightarrow> m w = (r, w') \<Longrightarrow> once K w \<Longrightarrow> once K w' \<and> (\<forall>a. r = Inr a \<longrightarrow> P a)"
  by (simp add: gives_def)

lemma gives_maintains: "gives P m \<Longrightarrow> maintains m"
  by (simp add: gives_def)

lemma gives_bindM:
  assumes "gives P m" and "\<And>a. P a \<Longrightarrow> gives Q (f a)"
  shows "gives Q (bindM m f)"
proof (rule givesI)
  fix K w r w' assume w: "once K w" and run: "bindM m f w = (r, w')"
  obtain x w1 where m: "m w = (x, w1)" by fastforce
  note m1 = givesD[OF assms(1) m w]
  show "once K w' \<and> (\<forall>a. r = Inr a \<longrightarrow> Q a)"
    using m1 run givesD[OF assms(2)] m by (cases x) (auto simp: bindM_def)
qed

lemma gives_thenM: "maintains m \<Longrightarrow> gives Q n \<Longrightarrow> gives Q (thenM m n)"
  unfolding thenM_def by (rule gives_bindM)

lemma gives_catchM:
  assumes "gives P m" and "\<And>e. gives P (h e)"
  shows "gives P (catchM m h)"
proof (rule givesI)
  fix K w r w' assume w: "once K w" and run: "catchM m h w = (r, w')"
  obtain x w1 where m: "m w = (x, w1)" by fastforce
  note m1 = givesD[OF assms(1) m w]
  show "once K w' \<and> (\<forall>a. r = Inr a \<longrightarrow> P a)"
    using m1 run givesD[OF assms(2)] m by (cases x) (auto simp: catchM_def)
qed

lemma gives_transactionM:
  assumes "gives P m"
    and "\<And>w r w'. m w = (r, w') \<Longrightarrow> w_ids w' = w_ids w"
  shows "gives P (transactionM m)"
proof (rule givesI)
  fix K w r w' assume w: "once K w" and run: "transactionM m w = (r, w')"
  obtain x w1 where m: "m w = (x, w1)" by fastforce
  show "once K w' \<and> (\<forall>a. r = Inr a \<longrightarrow> P a)"
    using givesD[OF assms(1) m w] run m assms(2)[OF m] w
    by (cases x) (auto simp: transactionM_def once_def)
qed

lemma gives_return: "P a \<Longrightarrow> gives P (returnM a)"
  by (simp add: gives_def)

lemma maintains_reads: "preserves (\<lambda>w. (w_db w, w_ids w)) m \<Longrightarrow> maintains m"
  by (auto simp: gives_def once_def dest!: preservesD)

lemma maintains_basic [keeps_once]:
  "maintains (returnM a)" "maintains (throwM e)" "maintains (getsM g)" "maintains (readDb h)"
  "maintains (throw_if c e)" "maintains (orThrow x e)" "maintains (liftE r)" "maintains freshId"
  "maintains (emitM ef)"
  by (cases c; cases x; cases r; simp add: gives_def once_def)+

lemmas maintains_glue [keeps_once] = gives_bindM[of "\<lambda>_. True" m "\<lambda>_. True" for m]
  gives_thenM[of m "\<lambda>_. True" for m] gives_catchM[of "\<lambda>_. True"]

lemma maintains_whenM [keeps_once]: "maintains m \<Longrightarrow> maintains (whenM b m)"
  by (cases b) (simp_all add: maintains_basic)

lemma maintains_forM [keeps_once]: "(\<And>x. maintains (f x)) \<Longrightarrow> maintains (forM xs f)"
  by (induction xs) (simp_all add: maintains_basic gives_thenM)

lemma maintains_repeatM [keeps_once]: "maintains m \<Longrightarrow> maintains (repeatM n m)"
  by (induction n) (simp_all add: maintains_basic gives_thenM)

lemma gives_if [keeps_once]: "gives P m \<Longrightarrow> gives P n \<Longrightarrow> gives P (if b then m else n)"
  by simp

lemma gives_option [keeps_once]:
  "gives P n \<Longrightarrow> (\<And>a. gives P (g a)) \<Longrightarrow> gives P (case x of None \<Rightarrow> n | Some a \<Rightarrow> g a)"
  by (cases x) simp_all

lemma maintains_freshIds [keeps_once]: "maintains (freshIds n)"
  by (auto simp: gives_def freshIds_run once_def)

lemma maintains_writeDb:
  "(\<And>d. t_orders (f d) = t_orders d \<and> t_orderMutations (f d) = t_orderMutations d) \<Longrightarrow> maintains (writeDb f)"
  by (simp add: gives_def once_def onceDb_frame[of "f d" d for d])

lemma maintains_updateOrder:
  assumes "\<And>r. ord_id (f r) = ord_id r \<and> ord_organizationId (f r) = ord_organizationId r \<and>
      ord_clientOrderId (f r) = ord_clientOrderId r"
  shows "maintains (updateOrder oid f)"
proof -
  let ?d = "\<lambda>d. d\<lparr>t_orders := update_where (\<lambda>r. ord_id r = oid) f (t_orders d)\<rparr>"
  have "length (filter (\<lambda>r. ord_organizationId r = g \<and> ord_clientOrderId r = Some k)
      (update_where (\<lambda>r. ord_id r = oid) f rows)) =
    length (filter (\<lambda>r. ord_organizationId r = g \<and> ord_clientOrderId r = Some k) rows)" for g k rows
    using assms by (induction rows) auto
  then have len: "length (ordersUnder (?d d) g k) = length (ordersUnder d g k)" "claimsOf (?d d) g k = claimsOf d g k" for d g k
    by (simp_all add: ordersUnder_def claimsOf_def)
  have "holds (?d d) x = holds d x" for d x
  proof (cases x)
    case (Ordered g k)
    show ?thesis unfolding Ordered holds.simps length_0_conv[symmetric] len ..
  next
    case (Claimed g k)
    show ?thesis unfolding Claimed holds.simps len ..
  qed
  with len have "onceDb K d \<Longrightarrow> onceDb K (?d d)" for K d
    using assms by (auto simp: onceDb_def set_update_where)
  then show ?thesis by (simp add: gives_def once_def)
qed

text \<open>No step changes the supply of ids.\<close>

lemma preserves_ids_writes [frame]:
  "preserves w_ids (writeDb f)" "preserves w_ids (emitM e)" "preserves w_ids freshId" "preserves w_ids (freshIds n)"
  "preserves w_ids (updateOrder oid g)" "preserves w_ids (redisSet k v ttl)"
  by (auto simp: preserves_def freshIds_run redisSet_def)

lemma preserves_ids_transactionM [frame]: "preserves w_ids m \<Longrightarrow> preserves w_ids (transactionM m)"
  unfolding preserves_def transactionM_def by (auto split: prod.splits sum.splits) (metis snd_conv)+

lemma maintains_transactionM [keeps_once]:
  "preserves w_ids m \<Longrightarrow> maintains m \<Longrightarrow> maintains (transactionM m)"
  by (rule gives_transactionM) (auto dest: preservesD)

section \<open>The steps of the order services keep it\<close>

lemma ids_services [frame]:
  "preserves w_ids (getRequiredOrg cw u)" "preserves w_ids (decrementStock is)"
  "preserves w_ids (updateLoyalty dto t now)" "preserves w_ids (auditOverrides g u oid ris)"
  "preserves w_ids (insertOrder r)" "preserves w_ids (insertOrderItems rs)" "preserves w_ids (insertPayments ps)"
  "preserves w_ids (claimOnce g oid key kind)"
  unfolding getRequiredOrg_def orgOfUserId_def cacheGet_def cacheSet_def storeGet_def storeSet_def redisGet_def Let_def
    decrementStock_def updateLoyalty_def auditOverrides_def insertOrder_def insertOrderItems_def insertPayments_def
    claimOnce_def claimMutation_def case_prod_unfold
  by (intro frame)+

lemma ids_insertWithItems [frame]: "preserves w_ids (insertWithItems mk mkItem items)"
  unfolding insertWithItems_def by (intro frame)

lemma once_getRequiredOrg [keeps_once]: "maintains (getRequiredOrg cw u)"
proof (rule givesI)
  fix K w r w' assume "once K w" "getRequiredOrg cw u w = (r, w')"
  then show "once K w' \<and> (\<forall>a. r = Inr a \<longrightarrow> True)"
    using preservesD[OF preserves_getRequiredOrg] preservesD[OF ids_services(1)]
    by (metis once_def uncached_parts(1))
qed

lemma once_reads [keeps_once]:
  "maintains (getOrderByIdForOrg g oid)" "maintains (requireOrgCustomer g c)" "maintains (checkRedemption g dto)"
  "maintains (priceCartItems g items)" "maintains (getTaxRate l)" "maintains (resolveDiscount g role di pc)"
  "maintains (nextTicketNumber l')" "maintains (getPrintPlan l)" "maintains (paidSumFor oid)"
  "maintains (liveOrder g oid)" "maintains (orderForUpdate g oid)" "maintains (guardEditable ord oid)"
  unfolding liveOrder_def orderForUpdate_def guardEditable_def paidSumFor_def
  by (intro maintains_reads frame)+

lemma once_writes [keeps_once]:
  "maintains (decrementStock items)" "maintains (updateLoyalty dto t now)" "maintains (auditOverrides g u oid ris)"
  "maintains (resolveCustomerIdByPhone g ph nm)" "maintains (insertOrderItems rs)" "maintains (insertPayments ps)"
  "maintains (createPrintJob g oid' ty pr pl)"
  unfolding decrementStock_def updateLoyalty_def auditOverrides_def resolveCustomerIdByPhone_def insertOrderItems_def
    insertPayments_def createPrintJob_def Let_def case_prod_unfold
  by (intro keeps_once maintains_writeDb; simp)+

lemma once_printing [keeps_once]:
  "maintains (printForEvents g fo evs u)" "maintains (printCourse g fo c)"
  unfolding printForEvents_def printCourse_def printDocument_def Let_def
  by (intro keeps_once)+

lemma once_claimOnce [keeps_once]: "maintains (claimOnce g oid key kind)"
proof -
  have "maintains (claimMutation g oid k kind)" for k
  proof (rule givesI)
    fix K w r w' assume w: "once K w" and run: "claimMutation g oid k kind w = (r, w')"
    let ?m = "\<lparr>om_organizationId = g, om_orderId = oid, om_clientMutationId = k, om_kind = kind\<rparr>"
    have "w' = w \<or> claimsOf (w_db w) g k = [] \<and>
        w' = w\<lparr>w_db := (w_db w)\<lparr>t_orderMutations := t_orderMutations (w_db w) @ [?m]\<rparr>\<rparr>"
      using run by (auto simp: claimMutation_def prog_step claimsOf_def list_ex_iff filter_empty_conv split: if_splits)
    with w onceDb_claim[of K "w_db w" ?m] show "once K w' \<and> (\<forall>a. r = Inr a \<longrightarrow> True)"
      by (auto simp: once_def)
  qed
  then show ?thesis unfolding claimOnce_def by (intro keeps_once)
qed

lemma once_insertOrder: "ord_id r \<noteq> [] \<Longrightarrow> maintains (insertOrder r)"
proof (rule givesI)
  fix K w x w' assume named: "ord_id r \<noteq> []" and w: "once K w" and run: "insertOrder r w = (x, w')"
  show "once K w' \<and> (\<forall>a. x = Inr a \<longrightarrow> True)"
  proof (cases x)
    case (Inl e)
    with run have "w' = w"
      by (cases "order_checks r"; cases "order_unique_conflict (w_db w) r") (auto simp: insertOrder_def)
    with w show ?thesis by simp
  next
    case (Inr a)
    with run have new: "\<not> order_unique_conflict (w_db w) r"
        and w': "w' = w\<lparr>w_db := (w_db w)\<lparr>t_orders := t_orders (w_db w) @ [r]\<rparr>\<rparr>"
      by (auto simp: insertOrder_Inr)
    from w have "onceDb K (w_db w)" by (simp add: once_def)
    from onceDb_order[OF this named new] w show ?thesis by (simp add: w' once_def)
  qed
qed

lemma once_insertWithItems [keeps_once]:
  assumes "\<And>i now. ord_id (mk i now) = i"
  shows "maintains (insertWithItems mk mkItem items)"
proof -
  have "gives (\<lambda>i. i \<noteq> []) freshId" by (auto simp: gives_def once_def)
  then show ?thesis
    unfolding insertWithItems_def
    by (rule gives_bindM) (auto intro!: keeps_once once_insertOrder simp: assms)
qed

text \<open>The order a creation returns has an id, because it was read back from the table.\<close>

definition named :: "full_order \<Rightarrow> bool" where
  "named fo \<longleftrightarrow> ord_id (fo_order fo) \<noteq> []"

lemma named_getOrder: "gives named (getOrderByIdForOrg g oid)"
  by (rule givesI) (auto simp: getOrderByIdForOrg_reads named_def once_def onceDb_def
      dest!: findOrder_SomeD split: option.splits)

lemma named_findByClientOrderId: "gives (pred_option named) (findByClientOrderId g k)"
  unfolding findByClientOrderId_def
  by (rule gives_bindM[where P = "\<lambda>_. True"])
    (auto intro!: keeps_once gives_bindM[OF named_getOrder] gives_return gives_option)

lemma named_replay: "gives (pred_option named) (replayOnClientOrderIdConflict e g k)"
  unfolding replayOnClientOrderIdConflict_def by (auto intro: named_findByClientOrderId gives_return)

lemma throw_gives: "gives P (throwM e)"
  by (simp add: gives_def)

definition placedNamed :: "uuid + full_order \<Rightarrow> bool" where
  "placedNamed x \<longleftrightarrow> (case x of Inl _ \<Rightarrow> True | Inr fo \<Rightarrow> named fo)"

lemma named_insertOrReplay:
  assumes "maintains tx" and "preserves w_ids tx"
  shows "gives placedNamed (insertOrReplay g key tx)"
proof -
  have "gives placedNamed (bindM (transactionM tx) (\<lambda>i. returnM (Inl i)))"
    using maintains_transactionM[OF assms(2,1)]
    by (rule gives_bindM) (simp add: gives_return placedNamed_def)
  moreover have "gives (pred_option named) (case key of None \<Rightarrow> returnM None
      | Some k \<Rightarrow> replayOnClientOrderIdConflict e g k)" for e
    by (cases key) (simp_all add: gives_return named_replay)
  ultimately show ?thesis
    unfolding insertOrReplay_def
    by (auto intro!: gives_catchM gives_bindM[of "pred_option named"] gives_return throw_gives
        simp: placedNamed_def split: option.split)
qed

lemma named_finish:
  assumes "placedNamed placed" shows "gives named (finishCreation g u a placed)"
proof -
  have "gives named (dispatchOrderSideEffects g oid u a)" for oid
    unfolding dispatchOrderSideEffects_def
    by (rule gives_bindM[OF named_getOrder]) (intro gives_thenM keeps_once gives_return)
  with assms show ?thesis
    by (cases placed) (auto simp: finishCreation_def placedNamed_def intro: gives_return)
qed

lemma place_once: "maintains (placePosOrder g u dto ris s t disc c)"
  unfolding placePosOrder_def by (intro keeps_once) simp_all

lemma place_ids: "preserves w_ids (placePosOrder g u dto ris s t disc c)"
  unfolding placePosOrder_def by (intro frame)

lemma gives_replayed:
  "pred_option P x \<Longrightarrow> gives P m \<Longrightarrow> gives P (case x of None \<Rightarrow> m | Some a \<Rightarrow> returnM a)"
  by (cases x) (simp_all add: gives_return)

lemma named_createPosOrder: "gives named (createPosOrder cw u dto)"
proof -
  have "gives named (priceAndPlacePos g u dto)" for g
    unfolding priceAndPlacePos_def Let_def case_prod_unfold
    by (intro gives_bindM[of "\<lambda>_. True"] gives_bindM[OF named_insertOrReplay] named_finish place_once place_ids)
      (intro keeps_once; assumption?)+
  moreover have "gives (pred_option named) (case or_null (cp_clientOrderId dto) of
      None \<Rightarrow> returnM None | Some k \<Rightarrow> findByClientOrderId g k)" for g
    by (cases "or_null (cp_clientOrderId dto)") (simp_all add: gives_return named_findByClientOrderId)
  ultimately have "gives named (createPosOrderFor g u dto)" for g
    unfolding createPosOrderFor_def
    by (intro gives_thenM maintains_basic gives_bindM[of "pred_option named"] gives_replayed)
  then show ?thesis
    unfolding createPosOrder_def by (intro gives_bindM[of "\<lambda>_. True"] keeps_once)
qed

lemma ids_edits [frame]:
  "preserves w_ids (appendInTx g u oid ap)" "preserves w_ids (fireInTx g oid fd)"
  "preserves w_ids (takePayment g u oid pd)"
  unfolding appendInTx_def appendClaimed_def fireInTx_def fireClaimed_def takePayment_def liveOrder_def
    orderForUpdate_def guardEditable_def paidSumFor_def Let_def case_prod_unfold
  by (intro frame)+

lemma once_transactions [keeps_once]:
  "maintains (appendClaimed g u oid ap)" "maintains (appendInTx g u oid ap)"
  "maintains (fireClaimed g oid fd)" "maintains (fireInTx g oid fd)" "maintains (takePayment g u oid pd)"
proof -
  show a: "maintains (appendClaimed g u oid ap)"
    unfolding appendClaimed_def Let_def case_prod_unfold
    by (intro keeps_once maintains_updateOrder) (simp add: appendedRow_def)
  show f: "maintains (fireClaimed g oid fd)"
    unfolding fireClaimed_def by (intro keeps_once maintains_writeDb) simp
  show "maintains (appendInTx g u oid ap)" "maintains (fireInTx g oid fd)"
    unfolding appendInTx_def fireInTx_def by (intro keeps_once a f)+
  show "maintains (takePayment g u oid pd)"
    unfolding takePayment_def by (intro keeps_once maintains_updateOrder) (simp add: settleOrder_def)
qed

lemma once_announce [keeps_once]: "maintains (announceEdit g u oid action v fo)"
  unfolding announceEdit_def by (intro keeps_once)

lemma once_edits:
  "maintains (appendOrderItems cw u oid ap)" "maintains (fireCourse cw u oid fd)"
  "maintains (payOrder cw u oid m tip getOrderByIdForOrg)"
  unfolding appendOrderItems_def appendOrderItemsFor_def fireCourse_def fireCourseFor_def payOrder_def recordPayment_def
  by (intro keeps_once frame)+

section \<open>What a request that succeeded leaves behind\<close>

definition ensures :: "fact \<Rightarrow> 'a handler \<Rightarrow> bool" where
  "ensures f m \<longleftrightarrow> (\<forall>K w a w'. once K w \<longrightarrow> m w = (Inr a, w') \<longrightarrow> holds (w_db w') f)"

lemma ensuresD: "ensures f m \<Longrightarrow> m w = (Inr a, w') \<Longrightarrow> once K w \<Longrightarrow> holds (w_db w') f"
  by (auto simp: ensures_def)

lemma ensures_first:
  assumes "ensures f m" and "maintains m" and "\<And>a. maintains (g a)"
  shows "ensures f (bindM m g)"
  unfolding ensures_def
proof (intro allI impI)
  fix K w b w' assume w: "once K w" and run: "bindM m g w = (Inr b, w')"
  from run obtain a w1 where m: "m w = (Inr a, w1)" and g: "g a w1 = (Inr b, w')" by (rule bindM_InrE)
  have "once {f} w1"
    using givesD[OF assms(2) m w] ensuresD[OF assms(1) m w] by (simp add: once_def onceDb_def)
  from givesD[OF assms(3) g this] show "holds (w_db w') f" by (simp add: once_def onceDb_def)
qed

lemma ensures_rest: "maintains m \<Longrightarrow> (\<And>a. ensures f (g a)) \<Longrightarrow> ensures f (bindM m g)"
  unfolding ensures_def by (metis bindM_InrE givesD)

lemma ensures_thenM: "maintains m \<Longrightarrow> ensures f n \<Longrightarrow> ensures f (thenM m n)"
  unfolding thenM_def by (rule ensures_rest)

lemma ensures_transactionM: "ensures f m \<Longrightarrow> ensures f (transactionM m)"
  by (simp add: ensures_def transactionM_Inr)

lemma ensures_claimOnce: "k \<noteq> [] \<Longrightarrow> ensures (Claimed g k) (claimOnce g oid (Some k) kind)"
  by (auto simp: ensures_def claimOnce_def claimMutation_def claimsOf_def prog_step list_ex_iff filter_empty_conv
      truthy_def split: if_splits)

lemma ensures_createPosOrder:
  assumes "g \<noteq> []" and "cp_clientOrderId dto = Some k" and "k \<noteq> []"
  shows "ensures (Ordered g k) (createPosOrder cw (apiPrincipal g) dto)"
proof -
  have "holds (w_db w') (Ordered g k)" if "createPosOrderFor g u dto w = (Inr fo, w')" for u w fo w'
    using pos.keyed[OF that, of k] assms(2,3)
    by (auto simp: keyedOrder_def ordersUnder_def or_null_def truthy_def filter_empty_conv
        dest!: first_row_SomeD)
  then show ?thesis
    using assms(1) by (auto simp: ensures_def createPosOrder_def getRequiredOrg_claim apiPrincipal_def)
qed

lemma ensures_appendOrderItems:
  assumes "g \<noteq> []" and "ap_clientMutationId dto = Some k" and "k \<noteq> []"
  shows "ensures (Claimed g k) (appendOrderItems cw (apiPrincipal g) oid dto)"
proof -
  have "ensures (Claimed g k) (appendInTx g u oid dto)" for u
    unfolding appendInTx_def assms(2) by (intro ensures_first ensures_claimOnce assms(3) keeps_once)
  then have "ensures (Claimed g k) (appendOrderItemsFor g u oid dto)" for u
    unfolding appendOrderItemsFor_def
    by (intro ensures_thenM ensures_first ensures_transactionM keeps_once frame)
  then show ?thesis
    using assms(1) by (auto simp: ensures_def appendOrderItems_def getRequiredOrg_claim apiPrincipal_def)
qed

lemma ensures_fireCourse:
  assumes "g \<noteq> []" and "fd_clientMutationId dto = Some k" and "k \<noteq> []"
  shows "ensures (Claimed g k) (fireCourse cw (apiPrincipal g) oid dto)"
proof -
  have "ensures (Claimed g k) (fireInTx g oid dto)"
    unfolding fireInTx_def assms(2)
    by (intro ensures_first ensures_claimOnce assms(3) keeps_once)
  then have "ensures (Claimed g k) (fireCourseFor g u oid dto)" for u
    unfolding fireCourseFor_def
    by (intro ensures_first ensures_transactionM keeps_once frame)
  then show ?thesis
    using assms(1) by (auto simp: ensures_def fireCourse_def getRequiredOrg_claim apiPrincipal_def)
qed

section \<open>The platform behind a lossy network\<close>

text \<open>
  What the other controllers and the keys have to be for it: the others keep the same invariant and
  answer no request with an order that has no id, and a key belongs to an organization.
\<close>

definition fits :: "platform_env \<Rightarrow> bool" where
  "fits env \<longleftrightarrow> (\<forall>key \<in> set (pe_keys env). ak_organizationId key \<noteq> []) \<and>
     (\<forall>K g req w. once K w \<longrightarrow> once K (snd (pe_others env g req w))) \<and>
     (\<forall>g req w sid t. hr_body (fst (pe_others env g req w)) = OrderReply sid t \<longrightarrow> sid \<noteq> [])"

definition apiOrg :: "platform_env \<Rightarrow> uuid option" where
  "apiOrg env = map_option ak_organizationId (first_row (\<lambda>k. ak_keyHash k = pe_sha256 env (the (pe_apiKey env))) (pe_keys env))"

lemma canUseApi_org:
  "fits env \<Longrightarrow> canUseApi (pe_sha256 env) (pe_keys env) (pe_orgs env) now (pe_apiKey env) = Inr g \<Longrightarrow>
   apiOrg env = Some g \<and> g \<noteq> []"
  by (auto simp: canUseApi_def apiOrg_def fits_def dest!: first_row_SomeD split: option.splits if_splits)

lemma errorResponse_refused: "\<not> responseOk (errorResponse e)" "hr_body (errorResponse e) = OtherReply"
  by (cases e; simp add: responseOk_def errorResponse_def)+

lemma once_respond:
  "gives P m \<Longrightarrow> once K w \<Longrightarrow> respond status reply m w = (r, w') \<Longrightarrow>
   once K w' \<and> (responseOk r \<longrightarrow> (\<exists>a. m w = (Inr a, w') \<and> P a \<and> hr_body r = reply a))"
  by (auto simp: respond_def errorResponse_refused split: prod.splits sum.splits dest!: givesD)

lemma serveOrders_once:
  assumes "fits env" and "once K w" and "serveOrders env g req w = (r, w')"
  shows "once K w' \<and> (\<forall>sid t. responseOk r \<and> hr_body r = OrderReply sid t \<longrightarrow> sid \<noteq> [])"
proof (cases req)
  case (PostPosOrder p)
  with once_respond[OF named_createPosOrder assms(2)] assms(3) show ?thesis
    by (force simp: serveOrders_def createdReply_def named_def)
next
  case (PostOrderItems i key items)
  with once_respond[OF once_edits(1) assms(2)] assms(3) show ?thesis
    by (force simp: serveOrders_def)
next
  case (PostFire i key course)
  with once_respond[OF once_edits(2) assms(2)] assms(3) show ?thesis
    by (force simp: serveOrders_def)
next
  case (PostPay i payload)
  with once_respond[OF once_edits(3) assms(2)] assms(3) show ?thesis
    by (force simp: serveOrders_def)
qed (use assms in \<open>simp add: serveOrders_def fits_def; metis fst_conv snd_conv\<close>)+

lemma platform_once:
  assumes "fits env" and "once K w" and "platform env req w = (ans, w')"
  shows "once K w' \<and> (\<forall>hr sid t. ans = Inr hr \<and> responseOk hr \<and> hr_body hr = OrderReply sid t \<longrightarrow> sid \<noteq> [])"
proof (cases "canUseApi (pe_sha256 env) (pe_keys env) (pe_orgs env) (w_now w) (pe_apiKey env)")
  case (Inl e)
  with assms(2,3) show ?thesis by (auto simp: platform_def errorResponse_refused)
next
  case (Inr g)
  obtain r1 w1 where serve: "serveOrders env g req w = (r1, w1)" by fastforce
  show ?thesis
    using assms(2,3) serveOrders_once[OF assms(1,2) serve] Inr serve
    by (cases "pe_pipes env req") (auto simp: platform_def)
qed

text \<open>The record of an operation: the order of a create, the claim of an append or a fire.\<close>

definition recordOf :: "uuid \<Rightarrow> order_mutation \<Rightarrow> fact option" where
  "recordOf g m =
     (case mu_kind m of
        MCreate \<Rightarrow> if mu_orderId m = [] then None else Some (Ordered g (mu_orderId m))
      | MSettle \<Rightarrow> None
      | _ \<Rightarrow> if mu_id m = [] then None else Some (Claimed g (mu_id m)))"

definition onRecord :: "platform_env \<Rightarrow> world \<Rightarrow> order_mutation \<Rightarrow> bool" where
  "onRecord env w m \<longleftrightarrow> (\<exists>g. apiOrg env = Some g \<and> (\<forall>f. recordOf g m = Some f \<longrightarrow> holds (w_db w) f))"

lemma respond_ensures:
  "ensures f m \<Longrightarrow> once K w \<Longrightarrow> respond status reply m w = (r, w') \<Longrightarrow> responseOk r \<Longrightarrow> holds (w_db w') f"
  by (auto simp: respond_def errorResponse_refused split: prod.splits sum.splits dest: ensuresD)

lemma platform_records:
  assumes "fits env" and "once K w" and "requestFor settings m order = Inr req" and "lo_id order = mu_orderId m"
    and "platform env req w = (Inr hr, w')" and "responseOk hr"
  shows "onRecord env w' m"
proof -
  obtain g where g: "apiOrg env = Some g" "g \<noteq> []" and serve: "serveOrders env g req w = (hr, w')"
    using assms(5,6) canUseApi_org[OF assms(1)]
    by (auto simp: platform_def errorResponse_refused split: sum.splits option.splits prod.splits)
      (simp add: responseOk_def)
  have "holds (w_db w') f" if f: "recordOf g m = Some f" for f
  proof (cases "mu_kind m")
    case MCreate
    with f have k: "f = Ordered g (mu_orderId m)" "mu_orderId m \<noteq> []" by (auto simp: recordOf_def split: if_splits)
    have "req = PostPosOrder (createPayload settings order)" using MCreate assms(3) by (simp add: requestFor_def)
    with serve have "respond 201 createdReply (createPosOrder (pe_cache env) (apiPrincipal g)
        (posOrderDto (createPayload settings order))) w = (hr, w')" by (simp add: serveOrders_def)
    from respond_ensures[OF ensures_createPosOrder[OF g(2) _ k(2)] assms(2) this assms(6)] k(1) show ?thesis
      by (simp add: posOrderDto_def createPayload_def assms(4))
  next
    case MAppend
    with f have k: "f = Claimed g (mu_id m)" "mu_id m \<noteq> []" by (auto simp: recordOf_def split: if_splits)
    from MAppend assms(3) obtain i where "req = PostOrderItems i (mu_id m) (payload_items (mu_payload m))"
      by (cases "requireServerId order") (auto simp: requestFor_def)
    with serve have "respond 200 (\<lambda>_. OtherReply) (appendOrderItems (pe_cache env) (apiPrincipal g) i
        \<lparr>ap_clientMutationId = Some (mu_id m), ap_cart = map cartItemOf (nvl (payload_items (mu_payload m)) [])\<rparr>) w = (hr, w')"
      by (simp add: serveOrders_def)
    from respond_ensures[OF ensures_appendOrderItems[OF g(2) _ k(2)] assms(2) this assms(6)] k(1) show ?thesis
      by simp
  next
    case MFire
    with f have k: "f = Claimed g (mu_id m)" "mu_id m \<noteq> []" by (auto simp: recordOf_def split: if_splits)
    from MFire assms(3) obtain i where "req = PostFire i (mu_id m) (payload_course (mu_payload m))"
      by (cases "requireServerId order") (auto simp: requestFor_def)
    with serve have "respond 200 (\<lambda>_. OtherReply) (fireCourse (pe_cache env) (apiPrincipal g) i
        \<lparr>fd_course = nvl (payload_course (mu_payload m)) 0, fd_clientMutationId = Some (mu_id m)\<rparr>) w = (hr, w')"
      by (simp add: serveOrders_def)
    from respond_ensures[OF ensures_fireCourse[OF g(2) _ k(2)] assms(2) this assms(6)] k(1) show ?thesis
      by simp
  next
    case MSettle
    with f show ?thesis by (simp add: recordOf_def)
  qed
  with g(1) show ?thesis by (auto simp: onRecord_def)
qed

lemma once_insert: "once K w \<Longrightarrow> holds (w_db w) f \<Longrightarrow> once (insert f K) w"
  by (simp add: once_def onceDb_def)

lemma platform_keeps_fact:
  "fits env \<Longrightarrow> once K w \<Longrightarrow> holds (w_db w) f \<Longrightarrow> holds (w_db (snd (platform env req w))) f"
proof -
  assume "fits env" "once K w" "holds (w_db w) f"
  then have "once (insert f K) (snd (platform env req w))"
    using platform_once[OF _ once_insert surjective_pairing] by blast
  then show "holds (w_db (snd (platform env req w))) f" by (simp add: once_def onceDb_def)
qed

interpretation shop: order_ledger "lossy fates (platform env)" "\<lambda>s. fits env \<and> once K (snd s)"
  "\<lambda>s. onRecord env (snd s)" for fates env K
proof unfold_locales
  fix s s' :: "nat \<times> world" and req hr sid t
  assume "fits env \<and> once K (snd s)" "lossy fates (platform env) req s = (Inr hr, s')" "responseOk hr"
    "hr_body hr = OrderReply sid t"
  with platform_once[of env K "snd s" req "Inr hr" "snd s'"] lossy_answer show "sid \<noteq> []" by blast
next
  fix s :: "nat \<times> world" and req
  assume "fits env \<and> once K (snd s)"
  with platform_once[of env K "snd s" req] lossy_state[of fates "platform env" req s]
  show "fits env \<and> once K (snd (snd (lossy fates (platform env) req s)))"
    by (cases "platform env req (snd s)") auto
next
  fix s s' :: "nat \<times> world" and req hr settings m order
  assume "fits env \<and> once K (snd s)" "requestFor settings m order = Inr req" "lo_id order = mu_orderId m"
    "lossy fates (platform env) req s = (Inr hr, s')" "responseOk hr"
  with platform_records[of env K "snd s" settings m order req hr "snd s'"] lossy_answer
  show "onRecord env (snd s') m" by blast
next
  fix s :: "nat \<times> world" and req m
  assume "fits env \<and> once K (snd s)" "onRecord env (snd s) m"
  with platform_keeps_fact[of env K "snd s" _ req] lossy_state[of fates "platform env" req s]
  show "onRecord env (snd (snd (lossy fates (platform env) req s))) m"
    by (auto simp: onRecord_def)
qed

section \<open>Exactly once\<close>

fun heldOnce :: "db \<Rightarrow> fact \<Rightarrow> bool" where
  "heldOnce d (Ordered g k) \<longleftrightarrow> length (ordersUnder d g k) = 1"
| "heldOnce d (Claimed g k) \<longleftrightarrow> length (claimsOf d g k) = 1"

lemma once_heldOnce: "once {f} w \<Longrightarrow> heldOnce (w_db w) f"
  by (cases f) (auto simp: once_def onceDb_def intro: le_antisym simp flip: length_greater_0_conv)


section \<open>A queued settlement\<close>

text \<open>
  The recorder of a payment the API takes is the text \<open>public-api\<close>, and that is no user: a payment
  the services would otherwise take violates the foreign key, and the response is a 500.
\<close>

lemma api_payment_500:
  assumes "g \<noteq> []" and "''public-api'' \<notin> usr_id ` set (t_users (w_db w))"
    and "findOrder (w_db w) g oid = Some order"
    and "assessPayment order (paidSum (w_db w) oid) \<lparr>pd_method = method, pd_amount = None, pd_cashReceived = None,
           pd_tipAmount = tip\<rparr> = Inr out"
  shows "payOrder cw (apiPrincipal g) oid method tip getOrderByIdForOrg w =
    (Inl (ConstraintViolation ''payments''), w\<lparr>w_nextId := Suc (w_nextId w)\<rparr>)"
proof -
  have "\<not> payment_checks (w_db w) (paymentRow g (apiPrincipal g) order oid dto out pid now)" for dto pid now
    using assms(2) by (force simp: payment_checks_def paymentRow_def apiPrincipal_def list_ex_iff)
  then show ?thesis
    using assms(1,3,4)
    by (simp add: payOrder_def recordPayment_def takePayment_def orderForUpdate_def paidSumFor_def
        getRequiredOrg_claim apiPrincipal_def getOrderByIdForOrg_reads bindM_def transactionM_def
        thenM_insertPayments)
qed

lemma platform_pay_500:
  assumes "canUseApi (pe_sha256 env) (pe_keys env) (pe_orgs env) (w_now w) (pe_apiKey env) = Inr g" and "g \<noteq> []"
    and "pe_pipes env (PostPay oid payload) = None" and "''public-api'' \<notin> usr_id ` set (t_users (w_db w))"
    and "findOrder (w_db w) g oid = Some row"
    and "assessPayment row (paidSum (w_db w) oid) \<lparr>pd_method = payloadMethod payload, pd_amount = None,
           pd_cashReceived = None, pd_tipAmount = payloadTip payload\<rparr> = Inr out"
  shows "platform env (PostPay oid payload) w =
    (Inr (errorResponse (ConstraintViolation ''payments'')), w\<lparr>w_nextId := Suc (w_nextId w)\<rparr>)"
  using assms(1,3) api_payment_500[OF assms(2,4-6)]
  by (simp add: platform_def serveOrders_def respond_def)

lemma dispatch_unanswered:
  "requestFor settings m order = Inr req \<Longrightarrow> server req (sw_server v) = (ans, s) \<Longrightarrow> \<not> accepts ans \<Longrightarrow>
   refuses ans = None \<Longrightarrow> \<exists>e. dispatch server settings m order v = (Inl e, v\<lparr>sw_server := s\<rparr>) \<and> \<not> rejected e"
  by (auto simp: dispatch_def andThen_def callApi_def apiRequest_def accepts_def refuses_def rejected_def
      split: sum.splits if_splits)

lemma constraint_unanswered:
  "\<not> accepts (Inr (errorResponse (ConstraintViolation c)))" "refuses (Inr (errorResponse (ConstraintViolation c))) = None"
  by (simp_all add: accepts_def refuses_def errorResponse_def responseOk_def)

lemma lossy_unanswered:
  "server req (snd ns) = (Inr hr, s) \<Longrightarrow> \<not> accepts (Inr hr) \<Longrightarrow> refuses (Inr hr) = None \<Longrightarrow>
   \<exists>ans s'. lossy fates server req ns = (ans, s') \<and> \<not> accepts ans \<and> refuses ans = None \<and> snd s' \<in> {snd ns, s}"
  by (cases "fates (fst ns)") (auto simp: lossy_def accepts_def refuses_def)

text \<open>
  A settlement queued at the register that the platform would take blocks everything behind it:
  the API's payment ends in a 500, which the register takes for a network problem, so every push
  ends there with an error, whatever the network does; nothing of the outbox is ever delivered and
  the platform's database stays as it is.
\<close>

theorem queued_settle_blocks:
  assumes "listPending (sw_reg w) = m # ms" and "\<not> truthy (mu_lastError m)" and "mu_kind m = MSettle"
    and "getOrderById (sw_reg w) (mu_orderId m) = Some order" and "lo_serverId order = Some sid" and "sid \<noteq> []"
    and "\<forall>now. canUseApi (pe_sha256 env) (pe_keys env) (pe_orgs env) now (pe_apiKey env) = Inr g" and "g \<noteq> []"
    and "pe_pipes env (PostPay sid (mu_payload m)) = None"
    and "''public-api'' \<notin> usr_id ` set (t_users (w_db (snd (sw_server w))))"
    and "findOrder (w_db (snd (sw_server w))) g sid = Some row"
    and "assessPayment row (paidSum (w_db (snd (sw_server w))) sid) \<lparr>pd_method = payloadMethod (mu_payload m),
           pd_amount = None, pd_cashReceived = None, pd_tipAmount = payloadTip (mu_payload m)\<rparr> = Inr out"
  shows "let w' = ((\<lambda>w. snd (pushMutations (lossy fates (platform env)) settings w)) ^^ n) w
    in w_db (snd (sw_server w')) = w_db (snd (sw_server w)) \<and> outboxOf (sw_reg w') = outboxOf (sw_reg w) \<and>
       rg_orders (sw_reg w') = rg_orders (sw_reg w) \<and>
       isl (fst (pushMutations (lossy fates (platform env)) settings w'))"
proof -
  let ?net = "lossy fates (platform env)"
  have "\<exists>e s. dispatch ?net settings m' order v = (Inl e, v\<lparr>sw_server := s\<rparr>) \<and> \<not> rejected e \<and>
      w_db (snd s) = w_db (snd (sw_server w))"
    if m': "absOp m' = absOp m" and v: "w_db (snd (sw_server v)) = w_db (snd (sw_server w))"
    for m' and v :: "(nat \<times> world) sync_world"
  proof -
    have req: "requestFor settings m' order = Inr (PostPay sid (mu_payload m))"
      using m' assms(3,5,6) by (simp add: absOp_def requestFor_def requireServerId_def)
    have "platform env (PostPay sid (mu_payload m)) (snd (sw_server v)) =
        (Inr (errorResponse (ConstraintViolation ''payments'')), (snd (sw_server v))\<lparr>w_nextId := Suc (w_nextId (snd (sw_server v)))\<rparr>)"
      using assms(7-12) by (intro platform_pay_500) (simp_all add: v)
    from lossy_unanswered[of "platform env" _ "sw_server v", OF this constraint_unanswered, of fates]
    obtain ans s where net: "?net (PostPay sid (mu_payload m)) (sw_server v) = (ans, s)" "\<not> accepts ans" "refuses ans = None"
        and state: "snd s \<in> {snd (sw_server v), (snd (sw_server v))\<lparr>w_nextId := Suc (w_nextId (snd (sw_server v)))\<rparr>}"
      by blast
    from state v have "w_db (snd s) = w_db (snd (sw_server w))" by auto
    with dispatch_unanswered[of settings m' order _ ?net v, OF req net] show ?thesis by blast
  qed
  from head_blocks[OF assms(1,2,4), of "\<lambda>s. w_db (snd s) = w_db (snd (sw_server w))", OF refl this, of n] show ?thesis
    unfolding Let_def by blast
qed

end
