(* ===== verification/Demo_Sync.thy ===== *)
theory Demo_Sync
  imports Public_Orders Demo_Store Demo_Register
begin

text \<open>
  The register of \<open>Demo_Register\<close> offline with one tab: opened, one more soup rung up, and synced
  with the store of \<open>Demo_Store\<close> behind its public API, or with a server that accepts everything.
\<close>

section \<open>A register that opened a tab offline\<close>

definition demoSoup :: product where
  "demoSoup = demoDish\<lparr>prod_id := ''m'', prod_name := ''Soup'', prod_price := 10\<rparr>"

definition demoSoupOrder :: local_order where
  "demoSoupOrder = buildLocalOrder 5 ''o'' (demoSnapshot\<lparr>cs_lines := [incomingLine ''n'' demoSoup 1 None None None]\<rparr>) 1000 id"

definition demoDelta :: "delta_line list" where
  "demoDelta = linesDelta [] [incomingLine ''n'' demoSoup 1 None None None]"

definition demoIdle :: "'s \<Rightarrow> 's sync_world" where
  "demoIdle s = \<lparr>sw_reg = demoRegister\<lparr>rg_nextId := 1\<rparr>,
     sw_state = \<lparr>ss_syncing = False, ss_lastSyncAt = None, ss_pendingOrders = 0, ss_failedOrders = 0,
       ss_lastError = None\<rparr>, sw_server = s\<rparr>"

definition demoOpened :: "'s \<Rightarrow> 's sync_world" where
  "demoOpened s = onReg (\<lambda>rg. snd (openTab demoSoupOrder rg)) (demoIdle s)"

definition demoOffline :: "'s \<Rightarrow> 's sync_world" where
  "demoOffline s = onReg (appendToTab demoSoupOrder demoDelta) (demoOpened s)"

lemma demo_fresh: "fresh (sw_reg (demoIdle s))"
  by (simp add: fresh_def demoIdle_def demoRegister_def demoIds_inj)

lemma demo_send: "pos_step isoText server settings (demoIdle s) (demoOpened s)"
  unfolding demoOpened_def by (rule pos_step.Send)

lemma demo_steps: "(pos_step isoText server settings)\<^sup>*\<^sup>* (demoIdle s) (demoOffline s)"
proof -
  have "isTab (sw_reg (demoOpened s)) (lo_id demoSoupOrder)" by code_simp
  then have "pos_step isoText server settings (demoOpened s) (demoOffline s)"
    unfolding demoOffline_def by (rule pos_step.Append)
  with demo_send show ?thesis by (metis converse_rtranclp_into_rtranclp r_into_rtranclp)
qed

definition acceptAll :: "unit server" where
  "acceptAll req s = (Inr \<lparr>hr_status = 200, hr_message = None, hr_body = OrderReply ''s'' (Some 1)\<rparr>, s)"

lemma acceptAll_named: "\<forall>req s hr s' sid t. acceptAll req s = (Inr hr, s') \<and> responseOk hr \<and> hr_body hr = OrderReply sid t \<longrightarrow> sid \<noteq> []"
  by (auto simp: acceptAll_def)



definition demoLogged :: "(exchange list \<times> unit) sync_world" where
  "demoLogged = demoOffline ([], ())"


text \<open>The same tab, but the clock went from 7 back to 3 before the append.\<close>

definition demoSetBack :: "unit sync_world" where
  "demoSetBack = onReg (\<lambda>rg. appendToTab demoSoupOrder demoDelta (rg\<lparr>rg_now := 3\<rparr>)) (demoOpened ())"

theorem clock_set_back_wedges_witness:
  "let w' = ((\<lambda>w. snd (pushMutations acceptAll demoSettings w)) ^^ 3) demoSetBack
   in outboxOf (sw_reg w') = outboxOf (sw_reg demoSetBack) \<and> isl (fst (pushMutations acceptAll demoSettings w'))"
proof -
  let ?m = "hd (listPending (sw_reg demoSetBack))"
  have "listPending (sw_reg demoSetBack) = ?m # tl (listPending (sw_reg demoSetBack))"
    "\<not> truthy (mu_lastError ?m)" "mu_kind ?m \<noteq> MCreate"
    "getOrderById (sw_reg demoSetBack) (mu_orderId ?m) = Some (the (getOrderById (sw_reg demoSetBack) (mu_orderId ?m)))"
    "\<not> truthy (lo_serverId (the (getOrderById (sw_reg demoSetBack) (mu_orderId ?m))))"
    by code_simp+
  from clock_set_back_wedges[OF this, of 3 acceptAll demoSettings] show ?thesis
    unfolding Let_def by blast
qed

section \<open>The store behind its public API\<close>

definition demoEnv :: platform_env where
  "demoEnv = \<lparr>pe_sha256 = id,
     pe_keys = [\<lparr>ak_id = ''a'', ak_organizationId = ''g'', ak_keyHash = ''key'', ak_expiresAt = None\<rparr>],
     pe_orgs = [\<lparr>org_id = ''g'', org_status = ''active''\<rparr>], pe_apiKey = Some ''key'', pe_cache = demoCache,
     pe_pipes = (\<lambda>_. None),
     pe_others = (\<lambda>_ _ w. (\<lparr>hr_status = 404, hr_message = None, hr_body = OtherReply\<rparr>, w))\<rparr>"

text \<open>The response to the first request is lost.\<close>

definition demoFates :: "nat \<Rightarrow> fate" where
  "demoFates n = (if n = 0 then ResponseLost else Arrives)"

abbreviation demoNet :: "(nat \<times> world) server" where
  "demoNet \<equiv> lossy demoFates (platform demoEnv)"

lemma demo_fits: "fits demoEnv"
  by (simp add: fits_def demoEnv_def)

lemma demo_once: "once {} demoWorld"
  by (simp add: once_def onceDb_def ordersUnder_def claimsOf_def demoWorld_def demoDb_def)

text \<open>After a sync that created the order and never heard of it.\<close>

definition demoUnheard :: "(nat \<times> world) sync_world" where
  "demoUnheard = syncAll (\<lambda>_. []) demoNet demoSettings (demoOpened (0, demoWorld))"

definition demoCaughtUp :: "(nat \<times> world) sync_world" where
  "demoCaughtUp = snd (pushMutations demoNet demoSettings demoUnheard)"

lemma demo_unheard: "(pos_step (\<lambda>_. []) demoNet demoSettings)\<^sup>*\<^sup>* (demoIdle (0, demoWorld)) demoUnheard"
  unfolding demoUnheard_def by (rule rtranclp.rtrancl_into_rtrancl, rule r_into_rtranclp, rule demo_send, rule pos_step.Sync)


section \<open>A settlement of an order the store knows\<close>

definition demoOwed :: "(nat \<times> world) sync_world" where
  "demoOwed = onReg (\<lambda>rg. settleTab (demoSoupOrder\<lparr>lo_serverId := Some ''o''\<rparr>) []
     \<lparr>tp_paymentMethod = ''cash'', tp_tenderedAmount = None, tp_changeAmount = None, tp_tipAmount = None\<rparr> rg)
     (demoIdle (0, demoOpenTab))"

theorem queued_settle_blocks_witness:
  "let w' = ((\<lambda>w. snd (pushMutations demoNet demoSettings w)) ^^ 5) demoOwed
   in w_db (snd (sw_server w')) = w_db (snd (sw_server demoOwed)) \<and>
      isl (fst (pushMutations demoNet demoSettings w'))"
proof -
  let ?m = "hd (listPending (sw_reg demoOwed))" and ?order = "demoSoupOrder\<lparr>lo_serverId := Some ''o'', lo_status := PendingSync, lo_paymentMethod := Some ''cash''\<rparr>"
  let ?dto = "\<lparr>pd_method = payloadMethod (mu_payload ?m), pd_amount = None, pd_cashReceived = None,
    pd_tipAmount = payloadTip (mu_payload ?m)\<rparr>"
  let ?taken = "assessPayment (demoTab None) (paidSum (w_db (snd (sw_server demoOwed))) ''o'') ?dto"
  have head: "listPending (sw_reg demoOwed) = ?m # tl (listPending (sw_reg demoOwed))" "\<not> truthy (mu_lastError ?m)"
    "mu_kind ?m = MSettle" "getOrderById (sw_reg demoOwed) (mu_orderId ?m) = Some ?order" by code_simp+
  have key: "\<forall>now. canUseApi (pe_sha256 demoEnv) (pe_keys demoEnv) (pe_orgs demoEnv) now (pe_apiKey demoEnv) = Inr ''g''"
    by (simp add: canUseApi_def demoEnv_def truthy_def)
  have store: "''public-api'' \<notin> usr_id ` set (t_users (w_db (snd (sw_server demoOwed))))"
    "findOrder (w_db (snd (sw_server demoOwed))) ''g'' ''o'' = Some (demoTab None)" by code_simp+
  have "\<not> isl ?taken" by code_simp
  then have "?taken = Inr (projr ?taken)" by (cases ?taken) auto
  from queued_settle_blocks[where n = 5 and fates = demoFates and settings = demoSettings, OF head _ _ key _ _ store this] show ?thesis
    unfolding Let_def by (simp add: demoEnv_def)
qed

end
