(* ===== verification/Cart_Session.thy ===== *)
theory Cart_Session
  imports Register_Cart Register_Store
begin

text \<open>
  The cart a cashier works on (\<open>apps/pos/src/state/CartContext.tsx\<close>): the React state of the provider
  is one record, each callback a function on it, and the draft in the device's storage is the part
  of the state that survives a restart. Line ids and order ids are arguments.

  Shown here: whatever the cashier taps, what the kitchen was told of a tab stays in the cart, so
  each round of a tab sends each unit once; the edit that breaks this; and what a restart loses.
\<close>

section \<open>The state of the cart\<close>

record cart_session =
  se_lines :: "cart_line list"
  se_customer :: "pos_customer option"
  se_table :: "dining_table option"
  se_guests :: "int option"
  se_orderType :: string
  se_discount :: "pos_discount option"
  se_resumedOrderId :: "local_id option"
  se_tabOrderId :: "local_id option"
  se_tabOpenedAt :: "int option"
  se_tabBaseline :: "cart_line list"
  se_activeCourse :: "int option"
  se_fireMode :: string
  se_firedAtByLine :: "local_id \<rightharpoonup> int"
  se_splitQueue :: "cart_line list list option"
  se_splitTotal :: "nat option"
  se_splitPaidCount :: nat
  se_splitOriginalLines :: "cart_line list option"

definition emptySession :: cart_session where
  "emptySession = \<lparr>se_lines = [], se_customer = None, se_table = None, se_guests = None,
     se_orderType = ''dine_in'', se_discount = None, se_resumedOrderId = None, se_tabOrderId = None,
     se_tabOpenedAt = None, se_tabBaseline = [], se_activeCourse = None, se_fireMode = ''all'',
     se_firedAtByLine = Map.empty, se_splitQueue = None, se_splitTotal = None, se_splitPaidCount = 0,
     se_splitOriginalLines = None\<rparr>"

section \<open>The draft that survives a restart\<close>

record cart_draft =
  cd_lines :: "cart_line list"
  cd_customer :: "pos_customer option"
  cd_table :: "dining_table option"
  cd_guests :: "int option"
  cd_orderType :: string
  cd_discount :: "pos_discount option"
  cd_resumedOrderId :: "local_id option"

text \<open>What the storage holds after every change, and what a launch makes of it.\<close>

definition draftOf :: "cart_session \<Rightarrow> cart_draft option" where
  "draftOf s =
     (if \<not> (\<not> truthy (se_tabOrderId s) \<and> se_splitQueue s = None) \<or> se_lines s = [] then None
      else Some \<lparr>cd_lines = se_lines s, cd_customer = se_customer s, cd_table = se_table s,
             cd_guests = se_guests s, cd_orderType = se_orderType s, cd_discount = se_discount s,
             cd_resumedOrderId = se_resumedOrderId s\<rparr>)"

definition restoreDraft :: "cart_draft option \<Rightarrow> cart_session" where
  "restoreDraft raw =
     (case raw of
        None \<Rightarrow> emptySession
      | Some d \<Rightarrow>
          if cd_lines d = [] then emptySession
          else emptySession\<lparr>se_lines := cd_lines d, se_customer := cd_customer d, se_table := cd_table d,
                 se_guests := cd_guests d, se_orderType := cd_orderType d, se_discount := cd_discount d,
                 se_resumedOrderId := cd_resumedOrderId d\<rparr>)"

section \<open>Ringing up\<close>

definition addProduct ::
  "(string \<Rightarrow> rat) \<Rightarrow> local_id \<Rightarrow> product \<Rightarrow> int option \<Rightarrow> cart_session \<Rightarrow> cart_session" where
  "addProduct collate newId product course s = s\<lparr>se_lines := addLine collate newId (se_lines s) product
     (case course of Some c \<Rightarrow> Some c | None \<Rightarrow> se_activeCourse s)\<rparr>"

definition addProductWithOptions ::
  "(string \<Rightarrow> rat) \<Rightarrow> local_id \<Rightarrow> product \<Rightarrow> int \<Rightarrow> string option \<Rightarrow> int option \<Rightarrow> selected_modifier list option \<Rightarrow>
   cart_session \<Rightarrow> cart_session" where
  "addProductWithOptions collate newId product quantity notes course selectedModifiers s =
     s\<lparr>se_lines := addLineWithOptions collate newId (se_lines s) product quantity notes course selectedModifiers\<rparr>"

text \<open>How many of a line the kitchen has already been told to cook.\<close>

definition firedQuantityFor :: "cart_session \<Rightarrow> local_id \<Rightarrow> int" where
  "firedQuantityFor s lineId =
     (case find (\<lambda>l. ln_id l = lineId) (se_tabBaseline s) of None \<Rightarrow> 0 | Some l \<Rightarrow> ln_quantity l)"

definition setQuantity :: "local_id \<Rightarrow> int \<Rightarrow> cart_session \<Rightarrow> cart_session" where
  "setQuantity lineId quantity s =
     s\<lparr>se_lines := setLineQuantity (se_lines s) lineId (max quantity (firedQuantityFor s lineId))\<rparr>"

definition updateLine ::
  "(string \<Rightarrow> rat) \<Rightarrow> local_id \<Rightarrow> int \<Rightarrow> string option \<Rightarrow> int option \<Rightarrow> selected_modifier list option \<Rightarrow>
   cart_session \<Rightarrow> cart_session" where
  "updateLine collate lineId quantity notes course selectedModifiers s =
     s\<lparr>se_lines := updateLineDetails collate (se_lines s) lineId (max quantity (firedQuantityFor s lineId))
         notes course selectedModifiers\<rparr>"

definition removeLine :: "local_id \<Rightarrow> cart_session \<Rightarrow> cart_session" where
  "removeLine lineId s =
     (if 0 < firedQuantityFor s lineId then s else s\<lparr>se_lines := removeLineFrom (se_lines s) lineId\<rparr>)"

definition setPriceOverride :: "local_id \<Rightarrow> int option \<Rightarrow> string option \<Rightarrow> cart_session \<Rightarrow> cart_session" where
  "setPriceOverride lineId priceOverride reason s =
     s\<lparr>se_lines := setLinePriceOverride (se_lines s) lineId priceOverride reason\<rparr>"

definition setTable :: "dining_table option \<Rightarrow> int option \<Rightarrow> cart_session \<Rightarrow> cart_session" where
  "setTable table guests s = s\<lparr>se_table := table, se_guests := guests,
     se_orderType := (if table \<noteq> None then ''dine_in'' else se_orderType s)\<rparr>"

definition changeOrderType :: "string \<Rightarrow> cart_session \<Rightarrow> cart_session" where
  "changeOrderType type s =
     (let s' = s\<lparr>se_orderType := type\<rparr>
      in if type \<noteq> ''dine_in'' then s'\<lparr>se_table := None, se_guests := None\<rparr> else s')"

definition clearCart :: "cart_session \<Rightarrow> cart_session" where
  "clearCart s = emptySession"

section \<open>Attaching the cart to an order\<close>

text \<open>The split state is not touched.\<close>

definition loadOrder :: "pos_discount list \<Rightarrow> local_order \<Rightarrow> cart_session \<Rightarrow> cart_session" where
  "loadOrder discounts order s = s\<lparr>se_lines := linesFromOrder order, se_customer := customerFromOrder order,
     se_table := tableFromOrder order, se_guests := lo_guests order, se_orderType := lo_orderType order,
     se_discount := discountFromOrder discounts order, se_resumedOrderId := Some (lo_id order),
     se_tabOrderId := None, se_tabOpenedAt := None, se_tabBaseline := [], se_activeCourse := None,
     se_fireMode := lo_fireMode order, se_firedAtByLine := Map.empty\<rparr>"

definition loadTab :: "pos_discount list \<Rightarrow> local_order \<Rightarrow> cart_session \<Rightarrow> cart_session" where
  "loadTab discounts order s =
     (let existing = linesFromOrder order in
      s\<lparr>se_lines := existing, se_customer := customerFromOrder order,
        se_table := tableFromOrder order, se_guests := lo_guests order, se_orderType := lo_orderType order,
        se_discount := discountFromOrder discounts order, se_resumedOrderId := None,
        se_tabOrderId := Some (lo_id order),
        se_tabOpenedAt := Some (nvl (lo_tabOpenedAt order) (lo_createdAt order)),
        se_tabBaseline := existing, se_activeCourse := None, se_fireMode := lo_fireMode order,
        se_firedAtByLine := (\<lambda>i. Option.bind (js_map (map (\<lambda>it. (lineIdForItem it, li_firedAt it)) (lo_items order)) i) id)\<rparr>)"

definition tabDelta :: "cart_session \<Rightarrow> delta_line list" where
  "tabDelta s = linesDelta (se_tabBaseline s) (se_lines s)"

definition snapshotOf :: "cart_session \<Rightarrow> cart_snapshot" where
  "snapshotOf s = \<lparr>cs_lines = se_lines s, cs_customer = se_customer s, cs_table = se_table s,
     cs_guests = se_guests s, cs_orderType = se_orderType s, cs_discount = se_discount s,
     cs_resumedOrderId = se_resumedOrderId s, cs_tabOrderId = se_tabOrderId s,
     cs_tabOpenedAt = se_tabOpenedAt s, cs_fireMode = Some (se_fireMode s),
     cs_firedAtByLine = se_firedAtByLine s\<rparr>"

definition buildOrder ::
  "int \<Rightarrow> local_id \<Rightarrow> local_id option \<Rightarrow> int \<Rightarrow> (local_order \<Rightarrow> local_order) \<Rightarrow> cart_session \<Rightarrow> local_order" where
  "buildOrder now newId businessDayId taxRateBps overrides s =
     buildLocalOrder now newId (snapshotOf s) taxRateBps
       (\<lambda>order. overrides (order\<lparr>lo_businessDayId := businessDayId\<rparr>))"

section \<open>Split checks\<close>

definition startSplitChecks :: "cart_line list list \<Rightarrow> cart_session \<Rightarrow> cart_session" where
  "startSplitChecks groups s =
     (case groups of
        [] \<Rightarrow> s
      | first # rest \<Rightarrow> s\<lparr>se_splitOriginalLines := Some (se_lines s), se_splitTotal := Some (length groups),
          se_splitPaidCount := 0, se_splitQueue := Some rest, se_lines := first\<rparr>)"

definition advanceSplitCheck :: "cart_session \<Rightarrow> bool \<times> cart_session" where
  "advanceSplitCheck s =
     (let s' = s\<lparr>se_splitPaidCount := Suc (se_splitPaidCount s)\<rparr> in
      case se_splitQueue s of
        Some (check # rest) \<Rightarrow> (True, s'\<lparr>se_lines := check, se_splitQueue := Some rest\<rparr>)
      | _ \<Rightarrow> (False, s'\<lparr>se_splitQueue := None, se_splitTotal := None, se_splitOriginalLines := None\<rparr>))"

definition cancelSplit :: "cart_session \<Rightarrow> cart_session" where
  "cancelSplit s = s\<lparr>se_lines := nvl (se_splitOriginalLines s) (se_lines s), se_splitQueue := None,
     se_splitTotal := None, se_splitPaidCount := 0, se_splitOriginalLines := None\<rparr>"

section \<open>Everything a cashier does to a cart\<close>

datatype session_op =
    Tap product "int option"
  | Customize product int "string option" "int option" "selected_modifier list option"
  | Step local_id int
  | Edit local_id int "string option" "int option" "selected_modifier list option"
  | Remove local_id
  | Reprice local_id "int option" "string option"
  | PickTable "dining_table option" "int option"
  | PickType string
  | PickCustomer "pos_customer option"
  | PickDiscount "pos_discount option"
  | PickCourse "int option"
  | PickFireMode string

fun sessionOp :: "(string \<Rightarrow> rat) \<Rightarrow> local_id \<Rightarrow> session_op \<Rightarrow> cart_session \<Rightarrow> cart_session" where
  "sessionOp collate newId (Tap p c) s = addProduct collate newId p c s"
| "sessionOp collate newId (Customize p q n c ms) s = addProductWithOptions collate newId p q n c ms s"
| "sessionOp collate newId (Step x q) s = setQuantity x q s"
| "sessionOp collate newId (Edit x q n c ms) s = updateLine collate x q n c ms s"
| "sessionOp collate newId (Remove x) s = removeLine x s"
| "sessionOp collate newId (Reprice x p r) s = setPriceOverride x p r s"
| "sessionOp collate newId (PickTable t g) s = setTable t g s"
| "sessionOp collate newId (PickType t) s = changeOrderType t s"
| "sessionOp collate newId (PickCustomer c) s = s\<lparr>se_customer := c\<rparr>"
| "sessionOp collate newId (PickDiscount d) s = s\<lparr>se_discount := d\<rparr>"
| "sessionOp collate newId (PickCourse c) s = s\<lparr>se_activeCourse := c\<rparr>"
| "sessionOp collate newId (PickFireMode m) s = s\<lparr>se_fireMode := m\<rparr>"

text \<open>An edit that makes a line interchangeable with another one the kitchen was told of.\<close>

definition absorbsFired ::
  "(string \<Rightarrow> rat) \<Rightarrow> local_id \<Rightarrow> string option \<Rightarrow> int option \<Rightarrow> selected_modifier list option \<Rightarrow>
   cart_session \<Rightarrow> bool" where
  "absorbsFired collate x n c ms s =
     list_ex (\<lambda>l. ln_id l = x \<and>
       list_ex (\<lambda>t. ln_id t \<noteq> x \<and> ln_id t \<in> ln_id ` set (se_tabBaseline s) \<and>
         mergeSignature collate t = mergeSignature collate (editedLine l 1 n c ms)) (se_lines s)) (se_lines s)"

definition opAllowed :: "(string \<Rightarrow> rat) \<Rightarrow> local_id \<Rightarrow> session_op \<Rightarrow> cart_session \<Rightarrow> bool" where
  "opAllowed collate newId op s =
     (newId \<notin> ln_id ` set (se_lines s) \<and>
      (case op of
         Customize p q n c ms \<Rightarrow> 0 < q
       | Edit x q n c ms \<Rightarrow> \<not> absorbsFired collate x n c ms s
       | _ \<Rightarrow> True))"

inductive rung_up :: "(string \<Rightarrow> rat) \<Rightarrow> cart_session \<Rightarrow> cart_session \<Rightarrow> bool" for collate s where
  start: "rung_up collate s s"
| tapped: "rung_up collate s s' \<Longrightarrow> opAllowed collate newId op s' \<Longrightarrow> rung_up collate s (sessionOp collate newId op s')"

section \<open>What the kitchen was told stays\<close>

definition tab_ok :: "cart_session \<Rightarrow> bool" where
  "tab_ok s \<longleftrightarrow> cart_ok (se_lines s) \<and> cart_ok (se_tabBaseline s) \<and> grew (se_tabBaseline s) (se_lines s)"

lemma grew_refl [simp]: "grew ls ls"
  unfolding grew_def by blast

lemma grew_trans:
  assumes "grew a b" and "grew b c"
  shows "grew a c"
  unfolding grew_def
proof
  fix x assume "x \<in> set a"
  then obtain y where y: "y \<in> set b" "ln_id y = ln_id x" "prod_id (ln_product y) = prod_id (ln_product x)"
      "ln_quantity x \<le> ln_quantity y"
    using assms(1) unfolding grew_def by blast
  then obtain z where "z \<in> set c" "ln_id z = ln_id y" "prod_id (ln_product z) = prod_id (ln_product y)"
      "ln_quantity y \<le> ln_quantity z"
    using assms(2) unfolding grew_def by blast
  with y show "\<exists>z \<in> set c. ln_id z = ln_id x \<and> prod_id (ln_product z) = prod_id (ln_product x) \<and>
      ln_quantity x \<le> ln_quantity z"
    by (intro bexI[of _ z]) auto
qed

lemma grew_update:
  assumes "grew baseline ls"
    and "\<And>l. ln_id (f l) = ln_id l \<and> prod_id (ln_product (f l)) = prod_id (ln_product l)"
    and "\<And>l b. l \<in> set ls \<Longrightarrow> P l \<Longrightarrow> b \<in> set baseline \<Longrightarrow> ln_id b = ln_id l \<Longrightarrow>
      ln_quantity b \<le> ln_quantity l \<Longrightarrow> ln_quantity b \<le> ln_quantity (f l)"
  shows "grew baseline (update_where P f ls)"
  unfolding grew_def
proof
  fix b assume b: "b \<in> set baseline"
  then obtain c where c: "c \<in> set ls" "ln_id c = ln_id b" "prod_id (ln_product c) = prod_id (ln_product b)"
      "ln_quantity b \<le> ln_quantity c"
    using assms(1) unfolding grew_def by blast
  then show "\<exists>c \<in> set (update_where P f ls). ln_id c = ln_id b \<and>
      prod_id (ln_product c) = prod_id (ln_product b) \<and> ln_quantity b \<le> ln_quantity c"
    using assms(2)[of c] assms(3)[of c b] b
    by (intro bexI[of _ "if P c then f c else c"]) (auto simp: set_update_where)
qed

lemma grew_filter:
  assumes "grew baseline ls" and "\<And>l. l \<in> set ls \<Longrightarrow> ln_id l \<in> ln_id ` set baseline \<Longrightarrow> P l"
  shows "grew baseline (filter P ls)"
  using assms unfolding grew_def by (simp add: image_iff) metis

lemma grew_add:
  assumes "grew baseline ls" and "0 < q"
  shows "grew baseline (addLineWithOptions collate i ls p q n c ms)"
proof (cases rule: addLineWithOptions_cases[of collate i p q n c ms ls])
  case new
  with assms(1) show ?thesis
    by (auto simp: grew_def)
next
  case (absorbed j)
  have "\<exists>c' \<in> set (ls[j := (ls ! j)\<lparr>ln_quantity := ln_quantity (ls ! j) + q\<rparr>]). ln_id c' = ln_id c \<and>
      prod_id (ln_product c') = prod_id (ln_product c) \<and> ln_quantity c \<le> ln_quantity c'" if c: "c \<in> set ls" for c
  proof -
    obtain k where k: "k < length ls" "c = ls ! k" using c unfolding in_set_conv_nth by blast
    let ?l = "if k = j then (ls ! j)\<lparr>ln_quantity := ln_quantity (ls ! j) + q\<rparr> else c"
    have "ls[j := (ls ! j)\<lparr>ln_quantity := ln_quantity (ls ! j) + q\<rparr>] ! k = ?l"
      using k by simp
    then have "?l \<in> set (ls[j := (ls ! j)\<lparr>ln_quantity := ln_quantity (ls ! j) + q\<rparr>])"
      using k(1) by (metis length_list_update nth_mem)
    then show ?thesis
      using assms(2) k by (intro bexI[of _ ?l]) auto
  qed
  then show ?thesis
    unfolding absorbed(3) by (intro grew_trans[OF assms(1)]) (simp add: grew_def)
qed

lemma fired_is:
  assumes "cart_ok (se_tabBaseline s)" and "b \<in> set (se_tabBaseline s)"
  shows "firedQuantityFor s (ln_id b) = ln_quantity b"
proof (cases "find (\<lambda>l. ln_id l = ln_id b) (se_tabBaseline s)")
  case None
  with assms(2) show ?thesis by (auto simp: find_None_iff)
next
  case (Some l)
  then have "l \<in> set (se_tabBaseline s)" "ln_id l = ln_id b" by (auto simp: find_Some_iff)
  with assms have "l = b" by (auto simp: cart_ok_def distinct_map dest: inj_onD)
  with Some show ?thesis by (simp add: firedQuantityFor_def)
qed

lemma fired_nonneg: "cart_ok (se_tabBaseline s) \<Longrightarrow> 0 \<le> firedQuantityFor s x"
  by (auto simp: firedQuantityFor_def cart_ok_def find_Some_iff less_imp_le split: option.split)

lemma fired_pos:
  assumes "cart_ok (se_tabBaseline s)" and "x \<in> ln_id ` set (se_tabBaseline s)"
  shows "0 < firedQuantityFor s x"
  using assms fired_is[OF assms(1)] by (auto simp: cart_ok_def)

lemma grew_setQuantity:
  assumes "tab_ok s" and "f \<le> q" and "f = firedQuantityFor s x"
  shows "grew (se_tabBaseline s) (setLineQuantity (se_lines s) x q)"
proof -
  note ok = assms(1)[unfolded tab_ok_def]
  have b: "ln_quantity b \<le> q" if "b \<in> set (se_tabBaseline s)" "ln_id b = x" for b
    using fired_is[of s b] ok that assms by simp
  have p: "x \<notin> ln_id ` set (se_tabBaseline s)" if "q \<le> 0"
    using fired_pos[of s x] ok that assms by fastforce
  show ?thesis
    using ok b p by (auto simp: setLineQuantity_def intro!: grew_filter grew_update)
qed

lemma grew_edit:
  assumes "tab_ok s" and "\<not> absorbsFired collate x n c ms s" and "firedQuantityFor s x \<le> q"
  shows "grew (se_tabBaseline s) (updateLineDetails collate (se_lines s) x q n c ms)"
proof (cases "q \<le> 0 \<or> x \<notin> ln_id ` set (se_lines s)")
  case True
  then show ?thesis
    using assms fired_pos[of s x]
    by (auto simp: updateLineDetails_def absent_id tab_ok_def intro!: grew_filter)
next
  case False
  note ok = assms(1)[unfolded tab_ok_def]
  obtain A l B where s: "se_lines s = A @ l # B" "ln_id l = x" "x \<notin> ln_id ` set A" "x \<notin> ln_id ` set B"
    using ok False cart_split unfolding cart_ok_def by metis
  let ?e = "editedLine l q n c ms"
  let ?differs = "\<lambda>t. mergeSignature collate t \<noteq> mergeSignature collate ?e"
  have same: "mergeSignature collate (editedLine l 1 n c ms) = mergeSignature collate ?e"
    by (simp add: editedLine_def mergeSignature_def)
  have fired: "?differs t" if "t \<in> set A \<union> set B" "ln_id t \<in> ln_id ` set (se_tabBaseline s)" for t
  proof
    assume "mergeSignature collate t = mergeSignature collate ?e"
    moreover have "ln_id t \<noteq> x"
      using that(1) s(3,4) by (metis Un_iff image_eqI)
    ultimately have "\<exists>t \<in> set (A @ l # B). ln_id t \<noteq> x \<and> ln_id t \<in> ln_id ` set (se_tabBaseline s) \<and>
        mergeSignature collate t = mergeSignature collate (editedLine l 1 n c ms)"
      using that same by (intro bexI[of _ t]) auto
    then have "absorbsFired collate x n c ms s"
      unfolding absorbsFired_def list_ex_iff s(1)
      by (intro bexI[where x = l and P = "\<lambda>l. ln_id l = x \<and> _ l"] conjI s(2)) simp_all
    with assms(2) show False ..
  qed
  have "0 \<le> sum_by ln_quantity (filter P (A @ B))" for P
    using ok s(1) by (intro sum_by_nonneg) (auto simp: cart_ok_def intro: less_imp_le)
  then have q: "ln_quantity b \<le> q + sum_by ln_quantity (filter P (A @ B))" 
    if "b \<in> set (se_tabBaseline s)" "ln_id b = x" for b P
    using that fired_is[of s b] ok assms(3) by (simp add: add_increasing2 del: filter_append)
  show ?thesis
    unfolding grew_def
  proof
    fix b assume b: "b \<in> set (se_tabBaseline s)"
    then obtain t where t: "t \<in> set (A @ l # B)" "ln_id t = ln_id b" 
        "prod_id (ln_product t) = prod_id (ln_product b)" "ln_quantity b \<le> ln_quantity t"
      using ok s(1) unfolding grew_def by metis
    have d: "distinct (map ln_id (A @ l # B))" using ok s(1) by (simp add: cart_ok_def)
    have "0 < q" using False by simp
    note run = updateLineDetails_run[OF d s(2) this]
    show "\<exists>t \<in> set (updateLineDetails collate (se_lines s) x q n c ms). ln_id t = ln_id b \<and>
        prod_id (ln_product t) = prod_id (ln_product b) \<and> ln_quantity b \<le> ln_quantity t"
    proof (cases "t = l")
      case True
      with t s(2) b have x: "ln_id b = x" by simp
      show ?thesis
        using True t x q[OF b x, of "\<lambda>t. \<not> ?differs t"] s(2)
        unfolding s(1) run by (simp add: Let_def editedLine_def del: filter_append)
    next
      case other: False
      then have "t \<in> set A \<union> set B" using t(1) by auto
      then show ?thesis
        using t b fired[of t] unfolding s(1) run by (auto simp: Let_def image_iff)
    qed
  qed
qed

lemma sessionOp_tab_ok:
  assumes "tab_ok s" and "opAllowed collate newId op s"
  shows "tab_ok (sessionOp collate newId op s) \<and> se_tabBaseline (sessionOp collate newId op s) = se_tabBaseline s"
proof (cases op)
  case (Step x q)
  with assms(1) show ?thesis
    using grew_setQuantity[OF assms(1), of "firedQuantityFor s x" "max q (firedQuantityFor s x)" x]
    by (simp add: tab_ok_def setQuantity_def quantity_ok(1))
next
  case (Edit x q n c ms)
  with assms show ?thesis
    using grew_edit[OF assms(1), of collate x n c ms "max q (firedQuantityFor s x)"]
    by (simp add: tab_ok_def updateLine_def edit_ok(1) opAllowed_def)
next
  case (Remove x)
  with assms(1) show ?thesis
    using fired_pos[of s x] by (auto simp: tab_ok_def removeLine_def remove_ok(1) removeLineFrom_def
      intro!: remove_ok(1)[unfolded removeLineFrom_def] grew_filter)
next
  case (Reprice x p r)
  with assms(1) show ?thesis
    by (auto simp: tab_ok_def setPriceOverride_def override_ok(1) setLinePriceOverride_def
      intro!: override_ok(1)[unfolded setLinePriceOverride_def] grew_update)
qed (use assms in \<open>auto simp: tab_ok_def opAllowed_def addProduct_def addProductWithOptions_def addLine_def
      setTable_def changeOrderType_def Let_def add_ok intro!: grew_add add_ok\<close>)

lemma rung_up_ok:
  "rung_up collate s s' \<Longrightarrow> tab_ok s \<Longrightarrow> tab_ok s' \<and> se_tabBaseline s' = se_tabBaseline s"
  by (induction rule: rung_up.induct) (auto dest: sessionOp_tab_ok)

section \<open>A round of a tab\<close>

lemma loadTab_simps [simp]:
  "se_lines (loadTab ds order s) = linesFromOrder order"
  "se_tabBaseline (loadTab ds order s) = linesFromOrder order"
  "se_tabOrderId (loadTab ds order s) = Some (lo_id order)"
  by (simp_all add: loadTab_def Let_def)

lemma sessionOp_tab [simp]: "se_tabOrderId (sessionOp collate newId op s) = se_tabOrderId s"
  by (cases op) (simp_all add: addProduct_def addProductWithOptions_def setQuantity_def updateLine_def
      removeLine_def setPriceOverride_def setTable_def changeOrderType_def Let_def)

lemma rung_up_tab: "rung_up collate s s' \<Longrightarrow> se_tabOrderId s' = se_tabOrderId s"
  by (induction rule: rung_up.induct) simp_all

lemma buildOrder_simps [simp]:
  "lo_id (buildOrder now newId day tax id s) = nvl (se_tabOrderId s) (nvl (se_resumedOrderId s) newId)"
  "list_all2 sameLine (linesFromOrder (buildOrder now newId day tax id s)) (se_lines s)"
  using linesFromOrder_same[of "\<lambda>order. order\<lparr>lo_businessDayId := day\<rparr>"
      "buildLocalOrder now newId (snapshotOf s) tax id" now newId "snapshotOf s" tax]
  by (simp_all add: buildOrder_def buildLocalOrder_def Let_def snapshotOf_def)

lemma same_units: "list_all2 sameLine ls ls' \<Longrightarrow> unitsIn ls i = unitsIn ls' i"
  by (induction ls ls' rule: list_all2_induct) (auto simp: unitsIn_def sameLine_def)

lemma same_ok: "list_all2 sameLine ls ls' \<Longrightarrow> cart_ok ls = cart_ok ls'"
  unfolding cart_ok_def
proof (induction ls ls' rule: list_all2_induct)
  case (Cons x xs y ys)
  have "ln_id ` set xs = ln_id ` set ys"
    using Cons.hyps(2) by (induction xs ys rule: list_all2_induct) (auto simp: sameLine_def)
  with Cons show ?case by (auto simp: sameLine_def)
qed simp

lemma linesFromOrder_cong: "lo_items o1 = lo_items o2 \<Longrightarrow> linesFromOrder o1 = linesFromOrder o2"
  by (simp add: linesFromOrder_def)

lemma saveOrder_lines:
  "\<exists>stored. getOrderById (saveOrder order rg) (lo_id order) = Some stored \<and> lo_items stored = lo_items order"
proof (cases "first_row (\<lambda>r. ro_id r = lo_id order) (rg_orders rg)")
  case None
  then have "\<not> list_ex (\<lambda>r. ro_id r = lo_id order) (rg_orders rg)"
    by (auto simp: list_ex_iff dest: first_row_NoneD)
  with None show ?thesis
    by (simp add: saveOrder_def getOrderById_def Let_def rowOf_def first_row_append toOrder_def)
next
  case (Some r)
  then have "list_ex (\<lambda>r. ro_id r = lo_id order) (rg_orders rg)"
    by (auto simp: list_ex_iff dest: first_row_SomeD)
  with Some first_row_SomeD[OF Some] show ?thesis
    by (simp add: saveOrder_def getOrderById_def Let_def rowOf_def first_row_update_where upsertRow_def toOrder_def)
qed

lemma saveOrder_queue [simp]: "rg_mutations (saveOrder order rg) = rg_mutations rg"
  by (simp add: saveOrder_def Let_def)


text \<open>
  The edit that breaks it: of a tab with two lines of one dish, told apart by their options, the
  cashier edits the first to be like the second. The cart merges them into the first and keeps the
  quantity, but the delta compares line by line: the second line's units are sent to the kitchen again.
\<close>

theorem merging_edit_resends:
  assumes "linesFromOrder order = [a, b]" and "ln_id a \<noteq> ln_id b" and "0 < ln_quantity a" and "0 < ln_quantity b"
    and "prod_id (ln_product b) = prod_id (ln_product a)"
    and "mergeSignature collate (editedLine a (ln_quantity a) n c ms) = mergeSignature collate b"
    and "s = updateLine collate (ln_id a) (ln_quantity a) n c ms (loadTab ds order s0)"
  shows "unitsIn (se_lines s) (prod_id (ln_product a)) = unitsIn (linesFromOrder order) (prod_id (ln_product a)) \<and>
    unitsSent (tabDelta s) (prod_id (ln_product a)) = ln_quantity b"
proof -
  have fired: "firedQuantityFor (loadTab ds order s0) (ln_id a) = ln_quantity a"
    using assms(1) by (simp add: firedQuantityFor_def)
  have l: "se_lines s = [(editedLine a (ln_quantity a) n c ms)\<lparr>ln_quantity := ln_quantity a + ln_quantity b\<rparr>]"
    using updateLineDetails_run[of "[]" a "[b]" "ln_id a" "ln_quantity a" collate n c ms] assms(1-6)
    by (simp add: assms(7) updateLine_def fired)
  have base: "se_tabBaseline s = [a, b]"
    using assms(1) by (simp add: assms(7) updateLine_def)
  have q: "baselineQuantity [a, b] (ln_id a) = ln_quantity a"
    using baselineQuantity_mem[of "[a, b]" a] assms(2) by simp
  show ?thesis
    using assms(1-5) by (simp add: tabDelta_def base l unitsSent_delta unitsIn_def editedLine_def q)
qed

section \<open>A restart\<close>

text \<open>
  A restart: a plain cart comes back with its lines, customer, table, guests, type, discount and
  the order it resumes; how the kitchen is to fire it and the course being rung up do not come back.
\<close>

theorem restart_keeps_draft:
  assumes "se_lines s \<noteq> []" and "\<not> truthy (se_tabOrderId s)" and "se_splitQueue s = None"
  shows "draftOf (restoreDraft (draftOf s)) = draftOf s \<and> se_lines (restoreDraft (draftOf s)) = se_lines s \<and>
    cartTotals (se_lines (restoreDraft (draftOf s))) (se_discount (restoreDraft (draftOf s))) t sv b =
      cartTotals (se_lines s) (se_discount s) t sv b \<and>
    se_fireMode (restoreDraft (draftOf s)) = ''all'' \<and> se_activeCourse (restoreDraft (draftOf s)) = None"
  using assms by (simp add: draftOf_def restoreDraft_def emptySession_def)

end
