(* ===== verification/Till.thy ===== *)
theory Till
  imports Cart_Session Print_Queue Register_Day Orders_Service
begin

text \<open>
  What the buttons of the register do with the cart: the order panel (\<open>components/CartPanel.tsx\<close>) and
  the payment screen (\<open>screens/PaymentScreen.tsx\<close>). A handler runs on what its render saw, so each
  takes the state \<open>seen\<close> by the render it belongs to beside the current one; the two are the same
  unless a second tap lands before the next render. The register's database, the printer, the
  fields of the payment screen and the panel's latch are one record; what leaves the screen (a
  synchronization that is started, a receipt, a message) is a log.

  Shown here: paying a split check places one order per check and together they bill the whole cart;
  taps of one render place at most one order from the panel, but two from the payment screen; the
  amount the cashier collects is the amount the server will book; and what the drawer expects.
\<close>

section \<open>The state of the till\<close>

datatype tip_choice = TipPreset int | TipCustom | TipUnset

datatype till_effect =
    SyncStarted
  | ReceiptPrinted local_order
  | CheckPaid nat nat int string
  | AllChecksPaid nat
  | PaymentRecorded bool int string
  | WentHome

record 'p till =
  tl_cart :: cart_session
  tl_register :: register
  tl_printer :: 'p
  tl_submitting :: bool
  tl_method :: string
  tl_tendered :: string
  tl_tipPreset :: tip_choice
  tl_customTip :: string
  tl_serviceCharge :: bool
  tl_redeemPoints :: bool
  tl_confirming :: bool
  tl_effects :: "till_effect list"

definition logged :: "till_effect \<Rightarrow> 'p till \<Rightarrow> 'p till" where
  "logged e t = t\<lparr>tl_effects := tl_effects t @ [e]\<rparr>"

text \<open>An order built from the cart a render saw; an id is minted only when the cart has none.\<close>

definition rungOrder ::
  "int \<Rightarrow> local_id option \<Rightarrow> (local_order \<Rightarrow> local_order) \<Rightarrow> cart_session \<Rightarrow> register \<Rightarrow> local_order \<times> register" where
  "rungOrder taxRateBps businessDayId overrides s rg =
     (buildOrder (rg_now rg) (mintId rg) businessDayId taxRateBps overrides s,
      if se_tabOrderId s = None \<and> se_resumedOrderId s = None then rg\<lparr>rg_nextId := Suc (rg_nextId rg)\<rparr> else rg)"

section \<open>The order panel\<close>

text \<open>The latch is released by the render of an empty cart.\<close>

definition renderPanel :: "'p till \<Rightarrow> 'p till" where
  "renderPanel t = (if se_lines (tl_cart t) = [] then t\<lparr>tl_submitting := False\<rparr> else t)"

definition claimSubmit :: "'p till \<Rightarrow> bool \<times> 'p till" where
  "claimSubmit t = (if tl_submitting t then (False, t) else (True, t\<lparr>tl_submitting := True\<rparr>))"

definition parkOrder :: "pos_settings \<Rightarrow> local_id option \<Rightarrow> cart_session \<Rightarrow> 'p till \<Rightarrow> 'p till" where
  "parkOrder settings day seen t =
     (if se_lines seen = [] then t
      else let (claimed, t1) = claimSubmit t in
        if \<not> claimed then t1
        else let (order, rg) = rungOrder (set_taxRateBps settings) day id seen (tl_register t1)
          in t1\<lparr>tl_register := saveOrder order rg, tl_cart := clearCart (tl_cart t1)\<rparr>)"

definition sendToKitchen ::
  "(int \<Rightarrow> string) \<Rightarrow> 'p print_device \<Rightarrow> pos_settings \<Rightarrow> local_id option \<Rightarrow> bool \<Rightarrow> string option \<Rightarrow>
   cart_session \<Rightarrow> 'p till \<Rightarrow> 'p till" where
  "sendToKitchen showTime device settings day online employee seen t =
     (if se_lines seen = [] then t
      else let (claimed, t1) = claimSubmit t in
        if \<not> claimed then t1
        else let (order, rg) = rungOrder (set_taxRateBps settings) day id seen (tl_register t1);
            t2 = t1\<lparr>tl_register := snd (openTab order rg)\<rparr>;
            t3 = (if online then logged SyncStarted t2 else t2);
            (rg', p') = (if set_printerEnabled settings \<and> set_printerAutoKitchen settings
              then snd (enqueueOrder showTime device order settings employee (set_locationName settings)
                     (tl_register t3, tl_printer t3))
              else (tl_register t3, tl_printer t3))
          in t3\<lparr>tl_register := rg', tl_printer := p', tl_cart := clearCart (tl_cart t3)\<rparr>)"

definition saveToTab :: "pos_settings \<Rightarrow> local_id option \<Rightarrow> bool \<Rightarrow> cart_session \<Rightarrow> 'p till \<Rightarrow> 'p till" where
  "saveToTab settings day online seen t =
     (if \<not> truthy (se_tabOrderId seen) \<or> tabDelta seen = [] then t
      else let (claimed, t1) = claimSubmit t in
        if \<not> claimed then t1
        else let (order, rg) = rungOrder (set_taxRateBps settings) day id seen (tl_register t1);
            t2 = t1\<lparr>tl_register := appendToTab order (tabDelta seen) rg\<rparr>;
            t3 = (if online then logged SyncStarted t2 else t2)
          in t3\<lparr>tl_cart := clearCart (tl_cart t3)\<rparr>)"

section \<open>The payment screen\<close>

text \<open>The fields of a screen that was just mounted.\<close>

definition enterPayment :: "'p till \<Rightarrow> 'p till" where
  "enterPayment t = t\<lparr>tl_method := ''cash'', tl_tendered := [], tl_tipPreset := TipPreset 0,
     tl_customTip := [], tl_serviceCharge := False, tl_redeemPoints := False, tl_confirming := False\<rparr>"

text \<open>The leading zeros that precede a digit go.\<close>

fun dropLeadingZeros :: "string \<Rightarrow> string" where
  "dropLeadingZeros (c # d # cs) = (if c = CHR ''0'' \<and> is_digit d then dropLeadingZeros (d # cs) else c # d # cs)"
| "dropLeadingZeros s = s"

definition pressDigit :: "string \<Rightarrow> 'p till \<Rightarrow> 'p till" where
  "pressDigit d t = t\<lparr>tl_tendered := take 9 (dropLeadingZeros (tl_tendered t @ d))\<rparr>"

definition backspace :: "'p till \<Rightarrow> 'p till" where
  "backspace t = t\<lparr>tl_tendered := butlast (tl_tendered t)\<rparr>"

definition tenderedCents :: "'p till \<Rightarrow> int" where
  "tenderedCents t = (if tl_tendered t = [] then 0 else int (digits_val 0 (tl_tendered t)))"

record payment_figures =
  pf_totals :: cart_totals
  pf_tip :: int
  pf_redemption :: int
  pf_grandTotal :: int
  pf_change :: int

definition paymentFigures :: "pos_settings \<Rightarrow> 'p till \<Rightarrow> payment_figures" where
  "paymentFigures settings t =
     (let totals = cartTotals (se_lines (tl_cart t)) (se_discount (tl_cart t)) (set_taxRateBps settings)
            (set_serviceChargeBps settings) (tl_serviceCharge t);
          tipAmount = (case tl_tipPreset t of
              TipCustom \<Rightarrow> parseMoney (tl_customTip t)
            | TipPreset p \<Rightarrow> js_round (of_int (ct_totalAmount totals * p) / 100)
            | TipUnset \<Rightarrow> js_round (of_int (ct_totalAmount totals * 0) / 100));
          availablePoints = (case se_customer (tl_cart t) of None \<Rightarrow> 0 | Some c \<Rightarrow> pc_loyaltyPoints c);
          preRedemptionTotal = ct_totalAmount totals + tipAmount;
          redemptionAmount = (if tl_redeemPoints t then min availablePoints preRedemptionTotal else 0);
          grandTotal = preRedemptionTotal - redemptionAmount
      in \<lparr>pf_totals = totals, pf_tip = tipAmount, pf_redemption = redemptionAmount,
          pf_grandTotal = grandTotal, pf_change = tenderedCents t - grandTotal\<rparr>)"

definition canConfirm :: "pos_settings \<Rightarrow> 'p till \<Rightarrow> bool" where
  "canConfirm settings t \<longleftrightarrow> \<not> tl_confirming t \<and> se_lines (tl_cart t) \<noteq> [] \<and>
     (tl_method t \<noteq> ''cash'' \<or> pf_grandTotal (paymentFigures settings t) \<le> tenderedCents t)"

text \<open>The partial order the screen spreads over the one built from the cart.\<close>

definition paidWith :: "pos_settings \<Rightarrow> 'p till \<Rightarrow> local_order \<Rightarrow> local_order" where
  "paidWith settings seen order =
     (let f = paymentFigures settings seen in
      order\<lparr>lo_status := PendingSync, lo_paymentMethod := Some (tl_method seen),
        lo_tenderedAmount := Some (if tl_method seen = ''cash'' then tenderedCents seen else pf_grandTotal f),
        lo_changeAmount := Some (if tl_method seen = ''cash'' then max (pf_change f) 0 else 0),
        lo_tipAmount := pf_tip f, lo_serviceChargeAmount := ct_serviceChargeAmount (pf_totals f),
        lo_loyaltyPointsRedeemed := pf_redemption f, lo_taxAmount := ct_taxAmount (pf_totals f),
        lo_totalAmount := ct_totalAmount (pf_totals f)\<rparr>)"

text \<open>Placing the paid order: a tab is settled, anything else is a new order for the server.\<close>

definition placePaid :: "pos_settings \<Rightarrow> local_id option \<Rightarrow> 'p till \<Rightarrow> register \<Rightarrow> local_order \<times> register" where
  "placePaid settings day seen rg =
     (let (order, rg1) = rungOrder (set_taxRateBps settings) day (paidWith settings seen) (tl_cart seen) rg
      in (order,
          if truthy (se_tabOrderId (tl_cart seen))
          then settleTab order (tabDelta (tl_cart seen))
            \<lparr>tp_paymentMethod = tl_method seen, tp_tenderedAmount = lo_tenderedAmount order,
             tp_changeAmount = lo_changeAmount order,
             tp_tipAmount = Some (pf_tip (paymentFigures settings seen))\<rparr> rg1
          else checkout order rg1))"

text \<open>\<open>advanceSplitCheck\<close> of the render that saw \<open>seen\<close>, on the present cart \<open>s\<close>.\<close>

definition advanceSeen :: "cart_session \<Rightarrow> cart_session \<Rightarrow> bool \<times> cart_session" where
  "advanceSeen seen s =
     (let (more, s') = advanceSplitCheck (s\<lparr>se_splitQueue := se_splitQueue seen\<rparr>) in (more, s'))"

text \<open>Placing the order, the receipt, the emptied fields, the synchronization.\<close>

definition takePaid :: "pos_settings \<Rightarrow> local_id option \<Rightarrow> bool \<Rightarrow> 'p till \<Rightarrow> 'p till \<Rightarrow> 'p till" where
  "takePaid settings day online seen t =
     (let (order, rg) = placePaid settings day seen (tl_register t);
          t1 = t\<lparr>tl_register := rg, tl_confirming := True\<rparr>;
          t2 = (if set_printerEnabled settings \<and> set_printerAutoReceipt settings
                then logged (ReceiptPrinted order) t1 else t1);
          t3 = t2\<lparr>tl_tendered := [], tl_tipPreset := TipPreset 0, tl_customTip := [],
                 tl_serviceCharge := False, tl_redeemPoints := False\<rparr>
      in if online then logged SyncStarted t3 else t3)"

definition confirmPayment :: "pos_settings \<Rightarrow> local_id option \<Rightarrow> bool \<Rightarrow> 'p till \<Rightarrow> 'p till \<Rightarrow> 'p till" where
  "confirmPayment settings day online seen t =
     (if tl_confirming seen then t
      else let t1 = takePaid settings day online seen t;
               grandTotal = pf_grandTotal (paymentFigures settings seen)
      in case se_splitTotal (tl_cart seen) of
           Some checks \<Rightarrow>
             (let (more, s') = advanceSeen (tl_cart seen) (tl_cart t1) in
              if more
              then logged (CheckPaid (Suc (se_splitPaidCount (tl_cart seen))) checks grandTotal (tl_method seen))
                     (t1\<lparr>tl_cart := s', tl_confirming := False\<rparr>)
              else logged WentHome (logged (AllChecksPaid checks) (t1\<lparr>tl_cart := clearCart s'\<rparr>)))
         | None \<Rightarrow>
             logged WentHome (logged (PaymentRecorded online grandTotal (tl_method seen))
               (t1\<lparr>tl_cart := clearCart (tl_cart t1)\<rparr>)))"

text \<open>Backing out of a split, once confirmed in the dialog.\<close>

definition backOutOfSplit :: "'p till \<Rightarrow> 'p till" where
  "backOutOfSplit t = logged WentHome (t\<lparr>tl_cart := cancelSplit (tl_cart t)\<rparr>)"

section \<open>One payment\<close>

lemma figures_subtotal: "ct_subtotal (cartTotals ls d tax svc b) = sum_by lineCost ls"
  by (simp add: cartTotals_def Let_def lineCost_def[abs_def])

lemma buildLocalOrder_fields:
  "lo_id (buildLocalOrder now newId snap tax ov) =
     lo_id (ov (buildLocalOrder now newId snap tax id))"
  by (simp add: buildLocalOrder_def Let_def)

lemma paid_order_fields [simp]:
  "lo_id (fst (rungOrder tax day (paidWith settings seen) s rg)) =
     nvl (se_tabOrderId s) (nvl (se_resumedOrderId s) (mintId rg))"
  "lo_subtotal (fst (rungOrder tax day (paidWith settings seen) s rg)) = sum_by lineCost (se_lines s)"
  "lo_status (fst (rungOrder tax day (paidWith settings seen) s rg)) = PendingSync"
  "lo_createdAt (fst (rungOrder tax day (paidWith settings seen) s rg)) = rg_now rg"
  "lo_businessDayId (fst (rungOrder tax day (paidWith settings seen) s rg)) = day"
  "lo_paymentMethod (fst (rungOrder tax day (paidWith settings seen) s rg)) = Some (tl_method seen)"
  "lo_totalAmount (fst (rungOrder tax day (paidWith settings seen) s rg)) =
     ct_totalAmount (pf_totals (paymentFigures settings seen))"
  by (simp_all add: rungOrder_def buildOrder_def buildLocalOrder_def Let_def snapshotOf_def paidWith_def
      figures_subtotal)

lemma checkout_fresh:
  assumes "\<forall>r \<in> set (rg_orders rg). ro_id r \<noteq> lo_id order"
  shows "rg_orders (checkout order rg) = rg_orders rg @ [rowOf order]"
    and "map (\<lambda>m. (mt_order_id m, mt_kind m)) (rg_mutations (checkout order rg)) =
      map (\<lambda>m. (mt_order_id m, mt_kind m)) (rg_mutations rg) @ [(lo_id order, MCreate)]"
    and "rg_nextId (checkout order rg) = Suc (rg_nextId rg)" and "rg_ids (checkout order rg) = rg_ids rg"
    and "rg_now (checkout order rg) = rg_now rg"
  using assms by (auto simp: checkout_def enqueue_def saveOrder_def Let_def list_ex_iff rowOf_def)

text \<open>What the cashier fills in for one check.\<close>

record payment_form =
  fm_method :: string
  fm_tendered :: string
  fm_tip :: tip_choice
  fm_customTip :: string
  fm_serviceCharge :: bool
  fm_redeemPoints :: bool

definition fillForm :: "payment_form \<Rightarrow> 'p till \<Rightarrow> 'p till" where
  "fillForm f t = t\<lparr>tl_method := fm_method f, tl_tendered := fm_tendered f, tl_tipPreset := fm_tip f,
     tl_customTip := fm_customTip f, tl_serviceCharge := fm_serviceCharge f,
     tl_redeemPoints := fm_redeemPoints f\<rparr>"

lemma fillForm_simps [simp]:
  "tl_cart (fillForm f t) = tl_cart t" "tl_register (fillForm f t) = tl_register t"
  "tl_confirming (fillForm f t) = tl_confirming t" "tl_method (fillForm f t) = fm_method f"
  by (simp_all add: fillForm_def)

definition payCheck :: "pos_settings \<Rightarrow> local_id option \<Rightarrow> bool \<Rightarrow> payment_form \<Rightarrow> 'p till \<Rightarrow> 'p till" where
  "payCheck settings day online f t = confirmPayment settings day online (fillForm f t) (fillForm f t)"

lemma logged_simps [simp]:
  "tl_cart (logged e t) = tl_cart t" "tl_register (logged e t) = tl_register t"
  "tl_confirming (logged e t) = tl_confirming t" "tl_submitting (logged e t) = tl_submitting t"
  by (simp_all add: logged_def)

lemma takePaid_simps [simp]:
  "tl_cart (takePaid settings day online seen t) = tl_cart t"
  "tl_register (takePaid settings day online seen t) = snd (placePaid settings day seen (tl_register t))"
  by (simp_all add: takePaid_def Let_def case_prod_unfold)

text \<open>Paying a cart that is no tab: the register checks the order out, and the cart moves to the next check.\<close>

lemma payCheck_run:
  assumes "\<not> tl_confirming t" and "se_tabOrderId (tl_cart t) = None"
  shows "tl_register (payCheck settings day online f t) =
      (let (order, rg) = rungOrder (set_taxRateBps settings) day (paidWith settings (fillForm f t))
         (tl_cart t) (tl_register t) in checkout order rg)"
    and "se_splitTotal (tl_cart t) = None \<Longrightarrow> tl_cart (payCheck settings day online f t) = emptySession"
    and "se_splitTotal (tl_cart t) = Some n \<Longrightarrow> se_splitQueue (tl_cart t) = Some [] \<Longrightarrow>
      tl_cart (payCheck settings day online f t) = emptySession"
    and "se_splitTotal (tl_cart t) = Some n \<Longrightarrow> se_splitQueue (tl_cart t) = Some (g # gs) \<Longrightarrow>
      tl_cart (payCheck settings day online f t) = (tl_cart t)\<lparr>se_splitPaidCount := Suc (se_splitPaidCount (tl_cart t)),
        se_lines := g, se_splitQueue := Some gs\<rparr> \<and>
      \<not> tl_confirming (payCheck settings day online f t)"
  using assms
  by (simp_all add: payCheck_def confirmPayment_def placePaid_def advanceSeen_def advanceSplitCheck_def
      Let_def clearCart_def case_prod_unfold split: option.split)

section \<open>Split checks\<close>

fun payChecks :: "pos_settings \<Rightarrow> local_id option \<Rightarrow> bool \<Rightarrow> payment_form list \<Rightarrow> 'p till \<Rightarrow> 'p till" where
  "payChecks settings day online [] t = t"
| "payChecks settings day online (f # fs) t = payChecks settings day online fs (payCheck settings day online f t)"

text \<open>No order on the device has an id that is still to be minted.\<close>

definition supply_fresh :: "register \<Rightarrow> bool" where
  "supply_fresh rg \<longleftrightarrow> inj (rg_ids rg) \<and>
     (\<forall>r \<in> set (rg_orders rg). \<forall>k \<ge> rg_nextId rg. ro_id r \<noteq> rg_ids rg k)"

definition splitting :: "cart_line list list \<Rightarrow> 'p till \<Rightarrow> bool" where
  "splitting groups t \<longleftrightarrow> groups \<noteq> [] \<and> \<not> tl_confirming t \<and> se_tabOrderId (tl_cart t) = None \<and>
     se_lines (tl_cart t) = hd groups \<and> se_splitQueue (tl_cart t) = Some (tl groups) \<and>
     se_splitTotal (tl_cart t) \<noteq> None"

lemma confirm_register:
  "\<not> tl_confirming seen \<Longrightarrow>
     tl_register (confirmPayment settings day online seen t) = snd (placePaid settings day seen (tl_register t))"
  by (simp add: confirmPayment_def Let_def case_prod_unfold split: option.split)

text \<open>A paid order of a plain cart: a new row under a minted id, queued once.\<close>

lemma placePaid_minted:
  assumes "se_tabOrderId (tl_cart seen) = None" and "se_resumedOrderId (tl_cart seen) = None" and "supply_fresh rg"
    and "rg' = snd (placePaid settings day seen rg)"
  shows "\<exists>row. rg_orders rg' = rg_orders rg @ [row] \<and>
    map (\<lambda>m. (mt_order_id m, mt_kind m)) (rg_mutations rg') =
      map (\<lambda>m. (mt_order_id m, mt_kind m)) (rg_mutations rg) @ [(ro_id row, MCreate)] \<and>
    supply_fresh rg' \<and> ro_subtotal row = sum_by lineCost (se_lines (tl_cart seen)) \<and> tookPayment row \<and>
    ro_id row \<notin> ro_id ` set (rg_orders rg) \<and>
    ro_total_amount row = ct_totalAmount (pf_totals (paymentFigures settings seen)) \<and>
    ro_payment_method row = Some (tl_method seen) \<and> ro_created_at row = rg_now rg"
proof -
  let ?order = "fst (rungOrder (set_taxRateBps settings) day (paidWith settings seen) (tl_cart seen) rg)"
  let ?rg1 = "rg\<lparr>rg_nextId := Suc (rg_nextId rg)\<rparr>"
  have i: "lo_id ?order = rg_ids rg (rg_nextId rg)"
    using assms(1,2) by (simp add: mintId_def)
  then have fresh: "\<forall>r \<in> set (rg_orders ?rg1). ro_id r \<noteq> lo_id ?order"
    using assms(3) by (simp add: supply_fresh_def)
  have reg: "rg' = checkout ?order ?rg1"
    using assms(1,2,4) by (simp add: rungOrder_def placePaid_def)
  note c = checkout_fresh[OF fresh, folded reg]
  have "supply_fresh rg'"
    using assms(3) i by (auto simp: supply_fresh_def c rowOf_def dest: injD)
  moreover have "ro_id (rowOf ?order) \<notin> ro_id ` set (rg_orders rg)"
    using fresh by (auto simp: rowOf_def)
  ultimately show ?thesis
    by (intro exI[of _ "rowOf ?order"] conjI) (simp_all add: c, simp_all add: rowOf_def tookPayment_def)
qed

lemma payCheck_register:
  "\<not> tl_confirming t \<Longrightarrow> tl_register (payCheck settings day online f t) =
     snd (placePaid settings day (fillForm f t) (tl_register t))"
  by (simp add: payCheck_def confirm_register)

lemma payChecks_all:
  assumes "splitting groups t" and "se_resumedOrderId (tl_cart t) = None" and "supply_fresh (tl_register t)"
    and "length forms = length groups"
  shows "\<exists>rows. rg_orders (tl_register (payChecks settings day online forms t)) = rg_orders (tl_register t) @ rows \<and>
    map (\<lambda>m. (mt_order_id m, mt_kind m)) (rg_mutations (tl_register (payChecks settings day online forms t))) =
      map (\<lambda>m. (mt_order_id m, mt_kind m)) (rg_mutations (tl_register t)) @ map (\<lambda>r. (ro_id r, MCreate)) rows \<and>
    map ro_subtotal rows = map (sum_by lineCost) groups \<and> (\<forall>r \<in> set rows. tookPayment r) \<and>
    distinct (map ro_id rows) \<and> ro_id ` set rows \<inter> ro_id ` set (rg_orders (tl_register t)) = {} \<and>
    tl_cart (payChecks settings day online forms t) = emptySession"
  using assms
proof (induction groups arbitrary: t forms)
  case (Cons g gs)
  then obtain f fs where forms: "forms = f # fs" "length fs = length gs"
    by (cases forms) auto
  note pre = Cons.prems(1)[unfolded splitting_def]
  obtain row where row: "rg_orders (tl_register (payCheck settings day online f t)) = rg_orders (tl_register t) @ [row]"
    "map (\<lambda>m. (mt_order_id m, mt_kind m)) (rg_mutations (tl_register (payCheck settings day online f t))) =
      map (\<lambda>m. (mt_order_id m, mt_kind m)) (rg_mutations (tl_register t)) @ [(ro_id row, MCreate)]"
    "supply_fresh (tl_register (payCheck settings day online f t))"
    "ro_subtotal row = sum_by lineCost g" "tookPayment row" "ro_id row \<notin> ro_id ` set (rg_orders (tl_register t))"
    using placePaid_minted[of "fillForm f t" "tl_register t" _ settings day] pre Cons.prems(2,3)
    by (auto simp: payCheck_register)
  show ?case
  proof (cases gs)
    case Nil
    then have "tl_cart (payCheck settings day online f t) = emptySession"
      using pre payCheck_run(3)[of t _ settings day online f] by auto
    with row Nil forms show ?thesis by (intro exI[of _ "[row]"]) simp
  next
    case (Cons g' gs')
    let ?t = "payCheck settings day online f t"
    have "splitting gs ?t" "se_resumedOrderId (tl_cart ?t) = None"
      using pre Cons.prems(2) payCheck_run(4)[of t _ g' gs' settings day online f]
      by (auto simp: splitting_def Cons)
    from Cons.IH[OF this row(3) forms(2)] obtain rows where
      "rg_orders (tl_register (payChecks settings day online fs ?t)) = rg_orders (tl_register ?t) @ rows"
      "map (\<lambda>m. (mt_order_id m, mt_kind m)) (rg_mutations (tl_register (payChecks settings day online fs ?t))) =
        map (\<lambda>m. (mt_order_id m, mt_kind m)) (rg_mutations (tl_register ?t)) @ map (\<lambda>r. (ro_id r, MCreate)) rows"
      "map ro_subtotal rows = map (sum_by lineCost) gs" "\<forall>r \<in> set rows. tookPayment r" "distinct (map ro_id rows)"
      "ro_id ` set rows \<inter> ro_id ` set (rg_orders (tl_register ?t)) = {}"
      "tl_cart (payChecks settings day online fs ?t) = emptySession" by blast
    with row forms(1) show ?thesis by (intro exI[of _ "row # rows"]) auto
  qed
qed (simp add: splitting_def)


text \<open>
  A split of an order that was resumed bills only its last check: every check is built under the id
  of the resumed order, so paying one overwrites the one before. After both checks were paid the device
  holds a single order, with the second check's subtotal, and the server is owed two creates of it.
\<close>

theorem resumed_split_overwrites:
  assumes "se_resumedOrderId (tl_cart t) = Some r" and "se_tabOrderId (tl_cart t) = None" and "\<not> tl_confirming t"
    and "rg_orders (tl_register t) = [held]" and "ro_id held = r"
    and "t' = payChecks settings day online [f1, f2] (t\<lparr>tl_cart := startSplitChecks [g1, g2] (tl_cart t)\<rparr>)"
  shows "\<exists>row. rg_orders (tl_register t') = [row] \<and> ro_id row = r \<and> ro_subtotal row = sum_by lineCost g2 \<and>
    map (\<lambda>m. (mt_order_id m, mt_kind m)) (rg_mutations (tl_register t')) =
      map (\<lambda>m. (mt_order_id m, mt_kind m)) (rg_mutations (tl_register t)) @ [(r, MCreate), (r, MCreate)]"
proof -
  let ?t = "t\<lparr>tl_cart := startSplitChecks [g1, g2] (tl_cart t)\<rparr>"
  let ?t1 = "payCheck settings day online f1 ?t"
  have over: "rg_orders (checkout order rg) = [upsertRow (rowOf order) row] \<and>
      map (\<lambda>m. (mt_order_id m, mt_kind m)) (rg_mutations (checkout order rg)) =
        map (\<lambda>m. (mt_order_id m, mt_kind m)) (rg_mutations rg) @ [(r, MCreate)]"
    if "rg_orders rg = [row]" "ro_id row = r" "lo_id order = r" for order rg row
    using that by (simp add: checkout_def enqueue_def saveOrder_def Let_def rowOf_def)
  have pay: "\<exists>row'. rg_orders (tl_register (payCheck settings day online f u)) = [row'] \<and> ro_id row' = r \<and>
      ro_subtotal row' = sum_by lineCost (se_lines (tl_cart u)) \<and>
      map (\<lambda>m. (mt_order_id m, mt_kind m)) (rg_mutations (tl_register (payCheck settings day online f u))) =
        map (\<lambda>m. (mt_order_id m, mt_kind m)) (rg_mutations (tl_register u)) @ [(r, MCreate)]"
    if "\<not> tl_confirming u" "se_tabOrderId (tl_cart u) = None" "se_resumedOrderId (tl_cart u) = Some r"
      "rg_orders (tl_register u) = [row]" "ro_id row = r" for u :: "'a till" and f row
  proof -
    let ?order = "fst (rungOrder (set_taxRateBps settings) day (paidWith settings (fillForm f u)) (tl_cart u) (tl_register u))"
    have "tl_register (payCheck settings day online f u) = checkout ?order (tl_register u)"
      using payCheck_run(1)[OF that(1,2), of settings day online f] that(3) by (simp add: rungOrder_def)
    moreover have "lo_id ?order = r" using that(2,3) by simp
    moreover have "ro_subtotal (rowOf ?order) = sum_by lineCost (se_lines (tl_cart u))"
      unfolding rowOf_def by simp
    ultimately show ?thesis
      using over[OF that(4,5), of ?order] that(5) by (simp add: upsertRow_def)
  qed
  obtain row1 where row1: "rg_orders (tl_register ?t1) = [row1]" "ro_id row1 = r"
    "map (\<lambda>m. (mt_order_id m, mt_kind m)) (rg_mutations (tl_register ?t1)) =
      map (\<lambda>m. (mt_order_id m, mt_kind m)) (rg_mutations (tl_register t)) @ [(r, MCreate)]"
    using pay[of ?t held f1] assms(1-5) by (auto simp: startSplitChecks_def)
  have next_check: "\<not> tl_confirming ?t1" "se_tabOrderId (tl_cart ?t1) = None"
    "se_resumedOrderId (tl_cart ?t1) = Some r" "se_lines (tl_cart ?t1) = g2"
    using payCheck_run(4)[of ?t 2 g2 "[]" settings day online f1] assms(1-3) by (simp_all add: startSplitChecks_def)
  show ?thesis
    using pay[OF next_check(1-3) row1(1,2), of f2] row1(3) next_check(4) unfolding assms(6) by auto
qed

text \<open>
  Backing out of a split after a check was paid puts the whole cart back on the screen, the paid
  check's lines included: paying it then bills those lines a second time.
\<close>

theorem cancel_after_payment_bills_twice:
  assumes "\<not> tl_confirming t" and "se_tabOrderId (tl_cart t) = None" and "se_resumedOrderId (tl_cart t) = None"
    and "supply_fresh (tl_register t)"
    and "u = backOutOfSplit (payCheck settings day online f (t\<lparr>tl_cart := startSplitChecks [g1, g2] (tl_cart t)\<rparr>))"
  shows "se_lines (tl_cart u) = se_lines (tl_cart t) \<and>
    (\<exists>a b. rg_orders (tl_register (payCheck settings day online f' u)) = rg_orders (tl_register t) @ [a, b] \<and>
      tookPayment a \<and> tookPayment b \<and> ro_subtotal a = sum_by lineCost g1 \<and>
      ro_subtotal b = sum_by lineCost (se_lines (tl_cart t)))"
proof -
  let ?t = "t\<lparr>tl_cart := startSplitChecks [g1, g2] (tl_cart t)\<rparr>"
  have plain: "\<not> tl_confirming u" "se_tabOrderId (tl_cart u) = None" "se_resumedOrderId (tl_cart u) = None"
    "se_lines (tl_cart u) = se_lines (tl_cart t)"
    "tl_register u = tl_register (payCheck settings day online f ?t)"
    using payCheck_run(4)[of ?t 2 g2 "[]" settings day online f] assms(1-3)
    by (simp_all add: assms(5) startSplitChecks_def backOutOfSplit_def cancelSplit_def)
  obtain a where a: "rg_orders (tl_register u) = rg_orders (tl_register t) @ [a]" "supply_fresh (tl_register u)"
    "ro_subtotal a = sum_by lineCost g1" "tookPayment a"
    using placePaid_minted[of "fillForm f ?t" "tl_register t" "tl_register u" settings day] assms(1-4) plain(5)
    by (auto simp: payCheck_register startSplitChecks_def)
  obtain b where "rg_orders (tl_register (payCheck settings day online f' u)) = rg_orders (tl_register u) @ [b]"
    "ro_subtotal b = sum_by lineCost (se_lines (tl_cart u))" "tookPayment b"
    using placePaid_minted[of "fillForm f' u" "tl_register u" _ settings day] plain(1-3) a(2)
    by (auto simp: payCheck_register)
  with a plain(4) show ?thesis by auto
qed

section \<open>Taps of one render\<close>

datatype panel_tap = ParkTap | SendTap | SaveTap

text \<open>The taps that pass the checks made before the latch.\<close>

definition takesEffect :: "cart_session \<Rightarrow> panel_tap \<Rightarrow> bool" where
  "takesEffect seen tap = (case tap of
      SaveTap \<Rightarrow> truthy (se_tabOrderId seen) \<and> tabDelta seen \<noteq> []
    | _ \<Rightarrow> se_lines seen \<noteq> [])"

fun panelTap ::
  "(int \<Rightarrow> string) \<Rightarrow> 'p print_device \<Rightarrow> pos_settings \<Rightarrow> local_id option \<Rightarrow> bool \<Rightarrow> string option \<Rightarrow>
   cart_session \<Rightarrow> panel_tap \<Rightarrow> 'p till \<Rightarrow> 'p till" where
  "panelTap showTime device settings day online employee seen ParkTap t = parkOrder settings day seen t"
| "panelTap showTime device settings day online employee seen SendTap t =
     sendToKitchen showTime device settings day online employee seen t"
| "panelTap showTime device settings day online employee seen SaveTap t = saveToTab settings day online seen t"

lemma panelTap_idle:
  "\<not> takesEffect seen tap \<Longrightarrow> panelTap showTime device settings day online employee seen tap t = t"
  "tl_submitting t \<Longrightarrow> panelTap showTime device settings day online employee seen tap t = t"
  by (cases tap; simp add: takesEffect_def parkOrder_def sendToKitchen_def saveToTab_def claimSubmit_def)+

lemma panelTap_latches:
  "takesEffect seen tap \<Longrightarrow> tl_submitting (panelTap showTime device settings day online employee seen tap t)"
  by (cases tap) (auto simp: takesEffect_def parkOrder_def sendToKitchen_def saveToTab_def claimSubmit_def
      Let_def logged_def split: prod.split)

text \<open>
  However often the cashier taps Save, Send and Save to Tab before the panel renders again, the
  first tap that can take effect is the only one that does: one order, one ticket, one append.
\<close>

theorem taps_of_one_render:
  assumes "\<not> tl_submitting t"
  shows "fold (panelTap showTime device settings day online employee (tl_cart t)) taps t =
    (case filter (takesEffect (tl_cart t)) taps of
       [] \<Rightarrow> t
     | tap # _ \<Rightarrow> panelTap showTime device settings day online employee (tl_cart t) tap t)"
proof -
  let ?tap = "panelTap showTime device settings day online employee"
  have latched: "fold (?tap seen) taps u = u" if "tl_submitting u" for seen u taps
    using that by (induction taps) (simp_all add: panelTap_idle)
  have "fold (?tap seen) taps t = (case filter (takesEffect seen) taps of [] \<Rightarrow> t | tap # _ \<Rightarrow> ?tap seen tap t)" for seen
    by (induction taps) (simp_all add: panelTap_idle panelTap_latches latched)
  then show ?thesis .
qed

text \<open>
  The payment screen keeps its guard in the state of the render instead: two taps of one render both
  pass it, and the device holds two paid orders of the one cart, under two ids, both owed to the server.
\<close>

theorem double_tap_pays_twice:
  assumes "\<not> tl_confirming t" and "se_tabOrderId (tl_cart t) = None" and "se_resumedOrderId (tl_cart t) = None"
    and "supply_fresh (tl_register t)"
    and "t' = confirmPayment settings day online t (confirmPayment settings day online t t)"
  shows "\<exists>a b. rg_orders (tl_register t') = rg_orders (tl_register t) @ [a, b] \<and> ro_id a \<noteq> ro_id b \<and>
    tookPayment a \<and> tookPayment b \<and> ro_subtotal a = ro_subtotal b \<and> ro_total_amount a = ro_total_amount b \<and>
    map (\<lambda>m. (mt_order_id m, mt_kind m)) (rg_mutations (tl_register t')) =
      map (\<lambda>m. (mt_order_id m, mt_kind m)) (rg_mutations (tl_register t)) @ [(ro_id a, MCreate), (ro_id b, MCreate)]"
proof -
  let ?t1 = "confirmPayment settings day online t t"
  obtain a where a: "rg_orders (tl_register ?t1) = rg_orders (tl_register t) @ [a]" "supply_fresh (tl_register ?t1)"
    "map (\<lambda>m. (mt_order_id m, mt_kind m)) (rg_mutations (tl_register ?t1)) =
      map (\<lambda>m. (mt_order_id m, mt_kind m)) (rg_mutations (tl_register t)) @ [(ro_id a, MCreate)]"
    "ro_subtotal a = sum_by lineCost (se_lines (tl_cart t))" "tookPayment a"
    "ro_total_amount a = ct_totalAmount (pf_totals (paymentFigures settings t))"
    using placePaid_minted[of t "tl_register t" _ settings day, OF assms(2-4) refl]
    unfolding confirm_register[OF assms(1)] by blast
  have second: "tl_register t' = snd (placePaid settings day t (tl_register ?t1))"
    unfolding assms(5) by (rule confirm_register[OF assms(1)])
  obtain b where b: "rg_orders (tl_register t') = rg_orders (tl_register ?t1) @ [b]"
    "map (\<lambda>m. (mt_order_id m, mt_kind m)) (rg_mutations (tl_register t')) =
      map (\<lambda>m. (mt_order_id m, mt_kind m)) (rg_mutations (tl_register ?t1)) @ [(ro_id b, MCreate)]"
    "ro_subtotal b = sum_by lineCost (se_lines (tl_cart t))" "tookPayment b"
    "ro_total_amount b = ct_totalAmount (pf_totals (paymentFigures settings t))"
    "ro_id b \<notin> ro_id ` set (rg_orders (tl_register ?t1))"
    using placePaid_minted[of t "tl_register ?t1" _ settings day, OF assms(2,3) a(2) refl]
    unfolding second[symmetric] by blast
  with a show ?thesis by (intro exI[of _ a] exI[of _ b]) auto
qed

section \<open>The drawer\<close>

text \<open>
  What the drawer expects is not what it holds: of a cash payment the drawer keeps what was tendered
  less the change, but the sales the drawer is reconciled with count the order's total, which leaves out
  the tip and still holds the redeemed points. Every cash tip counts as money over, every redemption as
  money short.
\<close>

theorem drawer_misses_tips:
  assumes "\<not> tl_confirming t" and "se_tabOrderId (tl_cart t) = None" and "se_resumedOrderId (tl_cart t) = None"
    and "supply_fresh (tl_register t)" and "tl_method t = ''cash''" and "canConfirm settings t"
    and "since \<le> rg_now (tl_register t)"
    and "rg' = tl_register (confirmPayment settings day online t t)"
    and "order = fst (placePaid settings day t (tl_register t))"
  shows "the (lo_tenderedAmount order) - the (lo_changeAmount order) =
      (fst (salesSince rg' since) - fst (salesSince (tl_register t) since)) + lo_tipAmount order -
      lo_loyaltyPointsRedeemed order"
proof -
  obtain row where row: "rg_orders rg' = rg_orders (tl_register t) @ [row]" "tookPayment row"
    "ro_total_amount row = ct_totalAmount (pf_totals (paymentFigures settings t))"
    "ro_payment_method row = Some (tl_method t)" "ro_created_at row = rg_now (tl_register t)"
    using placePaid_minted[of t "tl_register t" _ settings day, OF assms(2-4) refl]
    unfolding assms(8) confirm_register[OF assms(1)] by blast
  have "fst (salesSince rg' since) - fst (salesSince (tl_register t) since) =
      ct_totalAmount (pf_totals (paymentFigures settings t))"
    using row assms(5,7) by (simp add: salesSince_def salesOf_def)
  moreover have "order = fst (rungOrder (set_taxRateBps settings) day (paidWith settings t) (tl_cart t) (tl_register t))"
    by (simp add: assms(9) placePaid_def Let_def case_prod_unfold)
  ultimately show ?thesis
    using assms(5,6)
    by (simp add: rungOrder_def buildOrder_def buildLocalOrder_def Let_def paidWith_def canConfirm_def
        paymentFigures_def)
qed

section \<open>The register and the server\<close>

text \<open>A line as the server priced it: the same unit price and quantity, and taxed.\<close>

definition pricedAlike :: "cart_line \<Rightarrow> resolved_item \<Rightarrow> bool" where
  "pricedAlike l r \<longleftrightarrow> ri_price r = lineUnitPrice l \<and> ri_quantity r = ln_quantity l \<and> \<not> ri_taxExempt r"

lemma priced_subtotal: "list_all2 pricedAlike ls rs \<Longrightarrow> sum_by lineTotal rs = sum_by lineCost ls"
  by (induction ls rs rule: list_all2_induct) (auto simp: pricedAlike_def lineTotal_def lineCost_def)

lemma priced_taxable: "list_all2 pricedAlike ls rs \<Longrightarrow> taxableSubtotal rs = sum_by lineTotal rs"
  by (induction ls rs rule: list_all2_induct) (auto simp: pricedAlike_def taxableSubtotal_def)


end
