(* ===== verification/Demo_Till.thy ===== *)
theory Demo_Till
  imports Till Demo_Register
begin

text \<open>
  The theorems about the cart a cashier works on and the till, applied to the small register: the
  cart with one spicy dish and two plain ones, split between two guests, tapped twice, paid in cash.
\<close>

section \<open>A tab and its next round\<close>

definition demoTabCart :: cart_session where
  "demoTabCart = loadTab [] demoOrder emptySession"

definition demoRound :: cart_session where
  "demoRound = sessionOp demoCollate ''x'' (Tap demoDish None) demoTabCart"


theorem merging_edit_resends_witness:
  "unitsSent (tabDelta (updateLine demoCollate [] 1 None None None demoTabCart)) ''d'' = 2"
proof -
  let ?ls = "linesFromOrder demoOrder"
  have l: "?ls = [?ls ! 0, ?ls ! 1]" "ln_id (?ls ! 0) \<noteq> ln_id (?ls ! 1)" "0 < ln_quantity (?ls ! 0)" "0 < ln_quantity (?ls ! 1)"
    "prod_id (ln_product (?ls ! 1)) = prod_id (ln_product (?ls ! 0))"
    "mergeSignature demoCollate (editedLine (?ls ! 0) (ln_quantity (?ls ! 0)) None None None) =
      mergeSignature demoCollate (?ls ! 1)"
    and v: "ln_id (?ls ! 0) = []" "ln_quantity (?ls ! 0) = 1" "prod_id (ln_product (?ls ! 0)) = ''d''" "ln_quantity (?ls ! 1) = 2"
    by code_simp+
  from merging_edit_resends[OF l refl, of "[]" emptySession] show ?thesis
    unfolding v demoTabCart_def by blast
qed

section \<open>A till\<close>

definition demoTill :: "unit till" where
  "demoTill = \<lparr>tl_cart = emptySession\<lparr>se_lines := demoCart\<rparr>, tl_register = demoRegister, tl_printer = (),
     tl_submitting = False, tl_method = ''cash'', tl_tendered = ''9999'', tl_tipPreset = TipPreset 10,
     tl_customTip = [], tl_serviceCharge = True, tl_redeemPoints = False, tl_confirming = False, tl_effects = []\<rparr>"

definition demoForm :: payment_form where
  "demoForm = \<lparr>fm_method = ''card'', fm_tendered = [], fm_tip = TipPreset 0, fm_customTip = [],
     fm_serviceCharge = False, fm_redeemPoints = False\<rparr>"

lemma demoTill_plain:
  "\<not> tl_confirming demoTill" "\<not> tl_submitting demoTill" "se_tabOrderId (tl_cart demoTill) = None"
  "se_resumedOrderId (tl_cart demoTill) = None" "tl_register demoTill = demoRegister"
  "se_lines (tl_cart demoTill) = demoCart" "supply_fresh (tl_register demoTill)"
  "rg_orders (tl_register demoTill) = []"
  using demoIds_inj by (simp_all add: demoTill_def emptySession_def supply_fresh_def demoRegister_def)


definition demoResumed :: "unit till" where
  "demoResumed = demoTill\<lparr>tl_cart := (tl_cart demoTill)\<lparr>se_resumedOrderId := Some ''o''\<rparr>,
     tl_register := demoRegister\<lparr>rg_orders := [rowOf demoOrder]\<rparr>\<rparr>"

theorem resumed_split_overwrites_witness:
  "\<exists>row. rg_orders (tl_register (payChecks demoSettings None False [demoForm, demoForm]
       (demoResumed\<lparr>tl_cart := startSplitChecks [take 1 demoCart, drop 1 demoCart] (tl_cart demoResumed)\<rparr>))) = [row] \<and>
     ro_subtotal row = 2000"
proof -
  have r: "se_resumedOrderId (tl_cart demoResumed) = Some ''o''" "se_tabOrderId (tl_cart demoResumed) = None"
    "\<not> tl_confirming demoResumed" "rg_orders (tl_register demoResumed) = [rowOf demoOrder]"
    using demoTill_plain by (simp_all add: demoResumed_def)
  have "ro_id (rowOf demoOrder) = ''o''" "sum_by lineCost (drop 1 demoCart) = 2000" by code_simp+
  then show ?thesis
    using resumed_split_overwrites[OF r _ refl, of demoSettings None False demoForm demoForm
        "take 1 demoCart" "drop 1 demoCart"] by metis
qed

theorem cancel_after_payment_bills_twice_witness:
  "\<exists>a b. rg_orders (tl_register (payCheck demoSettings None False demoForm
       (backOutOfSplit (payCheck demoSettings None False demoForm
         (demoTill\<lparr>tl_cart := startSplitChecks [take 1 demoCart, drop 1 demoCart] (tl_cart demoTill)\<rparr>))))) = [a, b] \<and>
     ro_subtotal a + ro_subtotal b = 4200"
proof -
  have "sum_by lineCost (take 1 demoCart) = 1100" "sum_by lineCost demoCart = 3100" by code_simp+
  with cancel_after_payment_bills_twice[of demoTill _ demoSettings None False demoForm "take 1 demoCart" "drop 1 demoCart" demoForm]
  show ?thesis using demoTill_plain by fastforce
qed

theorem taps_of_one_render_witness:
  "fold (panelTap (\<lambda>_. []) (\<lambda>_ _ p. (None, p)) demoSettings None False None (tl_cart demoTill))
     [SaveTap, SendTap, ParkTap, SendTap] demoTill =
   sendToKitchen (\<lambda>_. []) (\<lambda>_ _ p. (None, p)) demoSettings None False None (tl_cart demoTill) demoTill"
proof -
  have "filter (takesEffect (tl_cart demoTill)) [SaveTap, SendTap, ParkTap, SendTap] = [SendTap, ParkTap, SendTap]"
    by code_simp
  then show ?thesis
    by (simp only: taps_of_one_render[OF demoTill_plain(2)] list.case panelTap.simps)
qed

theorem double_tap_pays_twice_witness:
  "\<exists>a b. rg_orders (tl_register (confirmPayment demoSettings None True demoTill
       (confirmPayment demoSettings None True demoTill demoTill))) = [a, b] \<and> ro_id a \<noteq> ro_id b \<and>
     ro_subtotal a = ro_subtotal b"
  using double_tap_pays_twice[OF demoTill_plain(1,3,4,7) refl, of demoSettings None True] demoTill_plain(8) by auto

theorem drawer_misses_tips_witness:
  "the (lo_tenderedAmount (fst (placePaid demoSettings None demoTill demoRegister))) -
     the (lo_changeAmount (fst (placePaid demoSettings None demoTill demoRegister))) =
   fst (salesSince (tl_register (confirmPayment demoSettings None False demoTill demoTill)) 0) + 395"
proof -
  have c: "canConfirm demoSettings demoTill" and m: "tl_method demoTill = ''cash''"
    and v: "lo_tipAmount (fst (placePaid demoSettings None demoTill demoRegister)) = 395"
      "lo_loyaltyPointsRedeemed (fst (placePaid demoSettings None demoTill demoRegister)) = 0"
      "fst (salesSince demoRegister 0) = 0" "0 \<le> rg_now demoRegister"
    by code_simp+
  show ?thesis
    using drawer_misses_tips[OF demoTill_plain(1,3,4,7) m c _ refl refl, of 0 None False] v
    unfolding demoTill_plain(5) by simp
qed


end
