(* ===== verification/Auth.thy ===== *)
theory Auth
  imports Users Cache_Store
begin

text \<open>
  Sessions and account recovery (\<open>apps/backend/src/auth/auth.service.ts\<close>, with the routes of
  \<open>auth.controller.ts\<close> that carry the refresh token in a cookie, and \<open>strategies/jwt.strategy.ts\<close>,
  which turns an access token into the acting user). What the libraries compute is a parameter: the
  hash of a token (SHA-256), the comparison of a password with a hash (bcrypt), the signing of tokens,
  which is a function of the payload, the lifetime and the second, and their verification. Random
  bytes come from the supply of ids.

  Shown here: the rows of sessions and recovery tokens stay well formed under every operation; what a
  refresh that succeeds proves and changes; a rotated token revokes the family when it is replayed; a
  reset token works once, until the next is issued, and ends every session; wrong passwords lock an
  account; and who acts in which organization.
\<close>

section \<open>Tokens\<close>

record access_payload =
  ap_email :: string
  ap_sub :: uuid
  ap_role :: string
  ap_organizationId :: "uuid option"

record auth_env =
  ae_hash :: "string \<Rightarrow> string"
  ae_compare :: pin_compare
  ae_signAccess :: "access_payload \<Rightarrow> int \<Rightarrow> string"
  ae_signRefresh :: "uuid \<Rightarrow> int \<Rightarrow> int \<Rightarrow> string"
  ae_verifyRefresh :: "string \<Rightarrow> int \<Rightarrow> error + uuid"
  ae_maxFailedAttempts :: int
  ae_lockoutDurationMs :: int

definition RESET_TOKEN_TTL_MS :: int where
  "RESET_TOKEN_TTL_MS = 60 * 60 * 1000"

definition VERIFY_TOKEN_TTL_MS :: int where
  "VERIFY_TOKEN_TTL_MS = 24 * 60 * 60 * 1000"

definition REFRESH_TTL_DEFAULT :: int where
  "REFRESH_TTL_DEFAULT = 24 * 60 * 60"

definition REFRESH_TTL_REMEMBER_ME :: int where
  "REFRESH_TTL_REMEMBER_ME = 30 * 24 * 60 * 60"

text \<open>A token carries the second it was signed in (\<open>iat\<close>), and expires by it.\<close>

definition signRefresh :: "auth_env \<Rightarrow> uuid \<Rightarrow> int \<Rightarrow> int \<Rightarrow> string" where
  "signRefresh env sub ttlSecs now = ae_signRefresh env sub ttlSecs (now div 1000)"

definition signAccess :: "auth_env \<Rightarrow> access_payload \<Rightarrow> int \<Rightarrow> string" where
  "signAccess env payload now = ae_signAccess env payload (now div 1000)"

section \<open>Logging in\<close>

record validated_user =
  vu_id :: uuid
  vu_email :: string
  vu_role :: string
  vu_organizationId :: "uuid option"
  vu_emailVerifiedAt :: "int option"

definition accountLocked :: "int \<Rightarrow> user_row \<Rightarrow> bool" where
  "accountLocked now user = (case usr_lockedUntil user of None \<Rightarrow> False | Some t \<Rightarrow> now < t)"

definition updateUserRow :: "uuid \<Rightarrow> (user_row \<Rightarrow> user_row) \<Rightarrow> unit handler" where
  "updateUserRow uid f = writeDb (\<lambda>d. d\<lparr>t_users := update_where (\<lambda>u. usr_id u = uid) f (t_users d)\<rparr>)"

definition lockedMessage :: string where
  "lockedMessage = ''Account temporarily locked due to too many failed attempts. Please try again later.''"

text \<open>The wrong password: count it and, at the limit, lock.\<close>

definition failedLogin :: "auth_env \<Rightarrow> user_row \<Rightarrow> int \<Rightarrow> validated_user option handler" where
  "failedLogin env user now =
     thenM (updateUserRow (usr_id user)
              (\<lambda>v. v\<lparr>usr_failedLoginAttempts := usr_failedLoginAttempts v + 1, usr_updatedAt := now\<rparr>))
    (bindM (readDb (\<lambda>d. first_row (\<lambda>v. usr_id v = usr_id user) (t_users d))) (\<lambda>updated.
       let newAttempts = nvl (map_option usr_failedLoginAttempts updated) 1 in
       thenM (whenM (ae_maxFailedAttempts env \<le> newAttempts)
                (updateUserRow (usr_id user)
                   (\<lambda>v. v\<lparr>usr_lockedUntil := Some (now + ae_lockoutDurationMs env), usr_updatedAt := now\<rparr>)))
         (returnM None)))"

definition validateUser :: "auth_env \<Rightarrow> string \<Rightarrow> string \<Rightarrow> validated_user option handler" where
  "validateUser env email pass =
     bindM (readDb (\<lambda>d. findOneByEmail d email)) (\<lambda>found.
       case found of
         None \<Rightarrow> returnM None
       | Some user \<Rightarrow> bindM (getsM w_now) (\<lambda>now.
           thenM (throw_if (accountLocked now user) (TooManyRequestsException lockedMessage))
             (if \<not> ae_compare env pass (usr_passwordHash user) then failedLogin env user now
              else thenM (updateUserRow (usr_id user)
                     (\<lambda>v. v\<lparr>usr_failedLoginAttempts := 0, usr_lockedUntil := None,
                            usr_lastLoginAt := Some now, usr_updatedAt := now\<rparr>))
                (returnM (Some \<lparr>vu_id = usr_id user, vu_email = usr_email user, vu_role = usr_role user,
                   vu_organizationId = usr_organizationId user,
                   vu_emailVerifiedAt = usr_emailVerifiedAt user\<rparr>)))))"

text \<open>A row of \<open>refresh_tokens\<close>: its token is unique and its user exists.\<close>

definition insertRefreshToken :: "string \<Rightarrow> uuid \<Rightarrow> int \<Rightarrow> int \<Rightarrow> unit handler" where
  "insertRefreshToken tokenHash userId ttlSecs expiresAt =
     bindM freshId (\<lambda>i. bindM (readDb id) (\<lambda>d.
       thenM (throw_if (list_ex (\<lambda>t. rt_token t = tokenHash) (t_refreshTokens d))
                (UniqueViolation ''refresh_tokens_token_unique''))
      (thenM (throw_if (\<not> list_ex (\<lambda>u. usr_id u = userId) (t_users d)) (ConstraintViolation ''refresh_tokens''))
        (writeDb (\<lambda>d. d\<lparr>t_refreshTokens := t_refreshTokens d @
           [\<lparr>rt_id = i, rt_token = tokenHash, rt_userId = userId, rt_ttlSecs = ttlSecs,
             rt_expiresAt = expiresAt\<rparr>]\<rparr>)))))"

definition deleteRefreshTokens :: "(refresh_token_row \<Rightarrow> bool) \<Rightarrow> unit handler" where
  "deleteRefreshTokens P =
     writeDb (\<lambda>d. d\<lparr>t_refreshTokens := filter (\<lambda>t. \<not> P t) (t_refreshTokens d)\<rparr>)"

record login_user =
  lu_id :: uuid
  lu_email :: string
  lu_role :: string
  lu_organizationId :: "uuid option"
  lu_emailVerified :: bool

record login_result =
  lr_access_token :: string
  lr_refresh_token :: string
  lr_user :: login_user

definition login :: "auth_env \<Rightarrow> validated_user \<Rightarrow> bool \<Rightarrow> login_result handler" where
  "login env user rememberMe =
     bindM (getsM w_now) (\<lambda>now.
       let accessToken = signAccess env \<lparr>ap_email = vu_email user, ap_sub = vu_id user, ap_role = vu_role user,
             ap_organizationId = vu_organizationId user\<rparr> now;
           refreshTtlSecs = (if rememberMe then REFRESH_TTL_REMEMBER_ME else REFRESH_TTL_DEFAULT);
           refreshToken = signRefresh env (vu_id user) refreshTtlSecs now;
           tokenHash = ae_hash env refreshToken
       in thenM (insertRefreshToken tokenHash (vu_id user) refreshTtlSecs (now + refreshTtlSecs * 1000))
         (thenM (emitM (Audit ''auth.login'' (Some (vu_id user)) (vu_organizationId user) [] JNull))
         (returnM \<lparr>lr_access_token = accessToken, lr_refresh_token = refreshToken,
            lr_user = \<lparr>lu_id = vu_id user, lu_email = vu_email user, lu_role = vu_role user,
              lu_organizationId = vu_organizationId user,
              lu_emailVerified = (vu_emailVerifiedAt user \<noteq> None)\<rparr>\<rparr>)))"

section \<open>Refreshing a session\<close>

record refresh_result =
  rr_access_token :: string
  rr_refresh_token :: string
  rr_refreshTtlSecs :: int

text \<open>The token was signed by the platform but is not stored: it was rotated away, so all sessions go.\<close>

definition reuseDetected :: "uuid \<Rightarrow> refresh_result handler" where
  "reuseDetected sub =
     thenM (deleteRefreshTokens (\<lambda>t. rt_userId t = sub))
    (thenM (emitM (Audit ''auth.refresh_token_reuse'' (Some sub) None [] JNull))
       (throwM (UnauthorizedException ''Refresh token is invalid or expired.'')))"

definition rotate :: "auth_env \<Rightarrow> string \<Rightarrow> refresh_token_row \<Rightarrow> user_row \<Rightarrow> int \<Rightarrow> refresh_result handler" where
  "rotate env tokenHash storedToken user now =
     thenM (deleteRefreshTokens (\<lambda>t. rt_token t = tokenHash))
       (let newAccessToken = signAccess env \<lparr>ap_email = usr_email user, ap_sub = usr_id user,
              ap_role = usr_role user, ap_organizationId = usr_organizationId user\<rparr> now;
            refreshTtlSecs = rt_ttlSecs storedToken;
            newRefreshToken = signRefresh env (usr_id user) refreshTtlSecs now
        in thenM (insertRefreshToken (ae_hash env newRefreshToken) (usr_id user) refreshTtlSecs
                    (now + refreshTtlSecs * 1000))
          (returnM \<lparr>rr_access_token = newAccessToken, rr_refresh_token = newRefreshToken,
             rr_refreshTtlSecs = refreshTtlSecs\<rparr>))"

definition refreshBody :: "auth_env \<Rightarrow> string \<Rightarrow> refresh_result handler" where
  "refreshBody env token =
     bindM (getsM w_now) (\<lambda>now.
     bindM (liftE (ae_verifyRefresh env token now)) (\<lambda>sub.
     let tokenHash = ae_hash env token in
     bindM (readDb (\<lambda>d. first_row (\<lambda>t. rt_token t = tokenHash) (t_refreshTokens d))) (\<lambda>stored.
       case stored of
         None \<Rightarrow> reuseDetected sub
       | Some storedToken \<Rightarrow>
           if rt_expiresAt storedToken < now
           then thenM (deleteRefreshTokens (\<lambda>t. rt_token t = tokenHash))
                  (throwM (UnauthorizedException ''Refresh token is invalid or expired.''))
           else bindM (readDb (\<lambda>d. findOneById d sub)) (\<lambda>found.
             bindM (orThrow found (UnauthorizedException ''User not found.'')) (\<lambda>user.
               rotate env tokenHash storedToken user now)))))"

definition refresh :: "auth_env \<Rightarrow> string \<Rightarrow> refresh_result handler" where
  "refresh env token =
     catchM (refreshBody env token) (\<lambda>_. throwM (UnauthorizedException ''Invalid refresh token.''))"

definition logout :: "auth_env \<Rightarrow> string \<Rightarrow> unit handler" where
  "logout env token = deleteRefreshTokens (\<lambda>t. rt_token t = ae_hash env token)"

section \<open>Resetting a password\<close>

definition unusedResetOf :: "uuid \<Rightarrow> password_reset_row \<Rightarrow> bool" where
  "unusedResetOf userId r \<longleftrightarrow> prt_userId r = userId \<and> prt_usedAt r = None"

definition forgotPassword :: "auth_env \<Rightarrow> string \<Rightarrow> unit handler" where
  "forgotPassword env email =
     bindM (readDb (\<lambda>d. findOneByEmail d email)) (\<lambda>found.
       case found of
         None \<Rightarrow> returnM ()
       | Some user \<Rightarrow>
           if usr_deletedAt user \<noteq> None then returnM ()
           else bindM freshId (\<lambda>rawToken. bindM (getsM w_now) (\<lambda>now.
             let tokenHash = ae_hash env rawToken in
             thenM (writeDb (\<lambda>d. d\<lparr>t_passwordResetTokens :=
                      filter (\<lambda>r. \<not> unusedResetOf (usr_id user) r) (t_passwordResetTokens d)\<rparr>))
            (bindM freshId (\<lambda>i. bindM (readDb t_passwordResetTokens) (\<lambda>rs.
             thenM (throw_if (list_ex (\<lambda>r. prt_tokenHash r = tokenHash) rs)
                      (UniqueViolation ''password_reset_tokens_token_hash_unique''))
            (thenM (writeDb (\<lambda>d. d\<lparr>t_passwordResetTokens := t_passwordResetTokens d @
                      [\<lparr>prt_id = i, prt_userId = usr_id user, prt_tokenHash = tokenHash,
                        prt_expiresAt = now + RESET_TOKEN_TTL_MS, prt_usedAt = None\<rparr>]\<rparr>))
              (emitM (SendMail ''Reset your password'' email rawToken)))))))))"

text \<open>\<open>newHash\<close> is what bcrypt made of the new password.\<close>

definition resetPassword :: "auth_env \<Rightarrow> string \<Rightarrow> string \<Rightarrow> unit handler" where
  "resetPassword env rawToken newHash =
     bindM (readDb (\<lambda>d. first_row (\<lambda>r. prt_tokenHash r = ae_hash env rawToken) (t_passwordResetTokens d))) (\<lambda>found.
     bindM (orThrow found (BadRequestException ''Reset token is invalid.'')) (\<lambda>record.
     thenM (throw_if (prt_usedAt record \<noteq> None) (BadRequestException ''Reset token has already been used.''))
    (bindM (getsM w_now) (\<lambda>now.
     thenM (throw_if (prt_expiresAt record < now) (BadRequestException ''Reset token has expired.''))
    (thenM (updateUserRow (prt_userId record) (\<lambda>u. u\<lparr>usr_passwordHash := newHash, usr_updatedAt := now\<rparr>))
    (thenM (writeDb (\<lambda>d. d\<lparr>t_passwordResetTokens := update_where (\<lambda>r. prt_id r = prt_id record)
              (\<lambda>r. r\<lparr>prt_usedAt := Some now\<rparr>) (t_passwordResetTokens d)\<rparr>))
    (thenM (deleteRefreshTokens (\<lambda>t. rt_userId t = prt_userId record))
      (emitM (Audit ''auth.password_reset'' (Some (prt_userId record)) None [] JNull)))))))))"

section \<open>Verifying an email address\<close>

definition sendVerificationEmail :: "auth_env \<Rightarrow> uuid \<Rightarrow> string \<Rightarrow> unit handler" where
  "sendVerificationEmail env userId email =
     bindM freshId (\<lambda>rawToken. bindM (getsM w_now) (\<lambda>now.
       let tokenHash = ae_hash env rawToken in
       thenM (writeDb (\<lambda>d. d\<lparr>t_emailVerificationTokens :=
                filter (\<lambda>r. evt_userId r \<noteq> userId) (t_emailVerificationTokens d)\<rparr>))
      (bindM freshId (\<lambda>i. bindM (readDb id) (\<lambda>d.
       thenM (throw_if (list_ex (\<lambda>r. evt_tokenHash r = tokenHash) (t_emailVerificationTokens d))
                (UniqueViolation ''email_verification_tokens_token_hash_unique''))
      (thenM (throw_if (\<not> list_ex (\<lambda>u. usr_id u = userId) (t_users d)) (ConstraintViolation ''email_verification_tokens''))
      (thenM (writeDb (\<lambda>d. d\<lparr>t_emailVerificationTokens := t_emailVerificationTokens d @
                [\<lparr>evt_id = i, evt_userId = userId, evt_tokenHash = tokenHash,
                  evt_expiresAt = now + VERIFY_TOKEN_TTL_MS\<rparr>]\<rparr>))
        (emitM (SendMail ''Verify your email address'' email rawToken)))))))))"

definition verifyEmail :: "auth_env \<Rightarrow> string \<Rightarrow> unit handler" where
  "verifyEmail env rawToken =
     bindM (readDb (\<lambda>d. first_row (\<lambda>r. evt_tokenHash r = ae_hash env rawToken) (t_emailVerificationTokens d))) (\<lambda>found.
     bindM (orThrow found (BadRequestException ''Verification token is invalid.'')) (\<lambda>record.
     bindM (getsM w_now) (\<lambda>now.
     thenM (throw_if (evt_expiresAt record < now)
              (BadRequestException ''Verification token has expired. Request a new one.''))
    (thenM (updateUserRow (evt_userId record) (\<lambda>u. u\<lparr>usr_emailVerifiedAt := Some now, usr_updatedAt := now\<rparr>))
      (writeDb (\<lambda>d. d\<lparr>t_emailVerificationTokens :=
         filter (\<lambda>r. evt_id r \<noteq> evt_id record) (t_emailVerificationTokens d)\<rparr>))))))"

definition resendVerification :: "auth_env \<Rightarrow> uuid \<Rightarrow> unit handler" where
  "resendVerification env userId =
     bindM (readDb (\<lambda>d. findOneById d userId)) (\<lambda>found.
     bindM (orThrow found (BadRequestException ''User not found.'')) (\<lambda>user.
     thenM (throw_if (usr_emailVerifiedAt user \<noteq> None) (BadRequestException ''Email is already verified.''))
       (sendVerificationEmail env userId (usr_email user))))"

section \<open>The acting user\<close>

definition is_hex :: "char \<Rightarrow> bool" where
  "is_hex c \<longleftrightarrow> (let n = of_char c :: nat in (48 \<le> n \<and> n \<le> 57) \<or> (65 \<le> n \<and> n \<le> 70) \<or> (97 \<le> n \<and> n \<le> 102))"

definition UUID_RE :: "string \<Rightarrow> bool" where
  "UUID_RE s \<longleftrightarrow> length s = 36 \<and>
     list_all (\<lambda>i. if i \<in> {8, 13, 18, 23} then s ! i = CHR ''-'' else is_hex (s ! i)) [0..<36]"

text \<open>The verified payload's subject and the \<open>orgId\<close> of the query string.\<close>

definition validate :: "uuid \<Rightarrow> string option \<Rightarrow> principal handler" where
  "validate sub queryOrgId =
     bindM (readDb (\<lambda>d. findOneById d sub)) (\<lambda>found.
     bindM (orThrow found (UnauthorizedException ''User not found or session invalid.'')) (\<lambda>user.
       let isPlatformAdmin = (usr_role user = ''platform_admin'');
           orgId = (if isPlatformAdmin
             then (case queryOrgId of
                     Some override \<Rightarrow> if UUID_RE override then Some override else usr_organizationId user
                   | None \<Rightarrow> usr_organizationId user)
             else usr_organizationId user)
       in returnM \<lparr>pr_id = usr_id user, pr_role = (if isPlatformAdmin then ''platform_admin'' else usr_role user),
            pr_organizationId = orgId, pr_locationId = usr_locationId user,
            pr_isPlatformAdmin = isPlatformAdmin\<rparr>))"

section \<open>The routes that carry the refresh token\<close>

datatype cookie_op = SetRefreshCookie string int | ClearRefreshCookie

text \<open>What a route does to the cookie and answers.\<close>

type_synonym 'a reply = "world \<Rightarrow> cookie_op list \<times> (error + 'a) \<times> world"

record login_body =
  lb_access_token :: string
  lb_refresh_token :: "string option"
  lb_user :: login_user

definition loginRoute :: "auth_env \<Rightarrow> bool \<Rightarrow> string \<Rightarrow> string \<Rightarrow> bool option \<Rightarrow> login_body reply" where
  "loginRoute env exposeRefreshInBody email password remember w =
     (let rememberMe = nvl remember False in
      case bindM (validateUser env email password) (\<lambda>found.
             bindM (orThrow found (UnauthorizedException ''Invalid email or password.'')) (\<lambda>user.
               login env user rememberMe)) w of
        (Inl e, w') \<Rightarrow> ([], Inl e, w')
      | (Inr r, w') \<Rightarrow>
          ([SetRefreshCookie (lr_refresh_token r)
              ((if rememberMe then REFRESH_TTL_REMEMBER_ME else REFRESH_TTL_DEFAULT) * 1000)],
           Inr \<lparr>lb_access_token = lr_access_token r,
             lb_refresh_token = (if exposeRefreshInBody then Some (lr_refresh_token r) else None),
             lb_user = lr_user r\<rparr>, w'))"

text \<open>The token of the cookie or, when there is none, of the body; empty strings count as absent.\<close>

definition presentedToken :: "string option \<Rightarrow> string option \<Rightarrow> string option" where
  "presentedToken cookie body = (let t = (case cookie of None \<Rightarrow> body | Some c \<Rightarrow> Some c) in if truthy t then t else None)"

definition refreshRoute :: "auth_env \<Rightarrow> string option \<Rightarrow> string option \<Rightarrow> (string \<times> string) reply" where
  "refreshRoute env cookie body w =
     (case presentedToken cookie body of
        None \<Rightarrow> ([ClearRefreshCookie], Inl (UnauthorizedException ''Refresh token is required.''), w)
      | Some token \<Rightarrow>
          (case refresh env token w of
             (Inl e, w') \<Rightarrow> ([ClearRefreshCookie], Inl e, w')
           | (Inr r, w') \<Rightarrow> ([SetRefreshCookie (rr_refresh_token r) (rr_refreshTtlSecs r * 1000)],
               Inr (rr_access_token r, rr_refresh_token r), w')))"

definition logoutRoute :: "auth_env \<Rightarrow> string option \<Rightarrow> string option \<Rightarrow> unit reply" where
  "logoutRoute env cookie body w =
     (case presentedToken cookie body of
        None \<Rightarrow> ([ClearRefreshCookie], Inr (), w)
      | Some token \<Rightarrow> (case logout env token w of (r, w') \<Rightarrow> ([ClearRefreshCookie], r, w')))"

section \<open>Programs that keep an invariant of the database\<close>

named_theorems keep "programs that keep an invariant of the database"

definition keeps :: "(db \<Rightarrow> bool) \<Rightarrow> 'a handler \<Rightarrow> bool" where
  "keeps P m \<longleftrightarrow> (\<forall>w. P (w_db w) \<longrightarrow> P (w_db (snd (m w))))"

lemma keepsD: "keeps P m \<Longrightarrow> P (w_db w) \<Longrightarrow> P (w_db (snd (m w)))"
  by (simp add: keeps_def)

lemma keeps_basic [keep]:
  "keeps P (returnM a)" "keeps P (throwM e)" "keeps P (getsM g)" "keeps P (readDb h)"
  "keeps P (throw_if c e)" "keeps P (orThrow x e)" "keeps P (liftE r)" "keeps P (emitM f)" "keeps P freshId"
  by (cases c; cases x; cases r; simp add: keeps_def)+

lemma keeps_bindM [keep]: "keeps P m \<Longrightarrow> (\<And>a. keeps P (g a)) \<Longrightarrow> keeps P (bindM m g)"
  unfolding keeps_def bindM_def by (auto split: prod.splits sum.splits)

lemma keeps_thenM [keep]: "keeps P m \<Longrightarrow> keeps P n \<Longrightarrow> keeps P (thenM m n)"
  unfolding thenM_def by (rule keeps_bindM)

lemma keeps_whenM [keep]: "keeps P m \<Longrightarrow> keeps P (whenM b m)"
  by (cases b) (simp_all add: keeps_def)

lemma keeps_catchM [keep]: "keeps P m \<Longrightarrow> (\<And>e. keeps P (h e)) \<Longrightarrow> keeps P (catchM m h)"
  unfolding keeps_def catchM_def by (auto split: prod.splits sum.splits)

lemma keeps_if [keep]: "keeps P m \<Longrightarrow> keeps P n \<Longrightarrow> keeps P (if b then m else n)"
  by simp

lemma keeps_option [keep]:
  "keeps P n \<Longrightarrow> (\<And>a. keeps P (g a)) \<Longrightarrow> keeps P (case x of None \<Rightarrow> n | Some a \<Rightarrow> g a)"
  by (cases x) simp_all

lemma keeps_writeDb: "(\<And>d. P d \<Longrightarrow> P (f d)) \<Longrightarrow> keeps P (writeDb f)"
  by (simp add: keeps_def)

section \<open>Well-formed rows\<close>

text \<open>
  No two sessions share a token, no two recovery rows a hash, a user has at most one reset token that
  was not used and at most one verification token, and every row belongs to a user.
\<close>

definition auth_ok :: "db \<Rightarrow> bool" where
  "auth_ok d \<longleftrightarrow>
     distinct (map rt_token (t_refreshTokens d)) \<and> distinct (map prt_tokenHash (t_passwordResetTokens d)) \<and>
     distinct (map evt_tokenHash (t_emailVerificationTokens d)) \<and>
     distinct (map prt_userId (filter (\<lambda>r. prt_usedAt r = None) (t_passwordResetTokens d))) \<and>
     distinct (map evt_userId (t_emailVerificationTokens d)) \<and>
     rt_userId ` set (t_refreshTokens d) \<union> prt_userId ` set (t_passwordResetTokens d) \<union>
       evt_userId ` set (t_emailVerificationTokens d) \<subseteq> usr_id ` set (t_users d)"

lemma keeps_updateUserRow [keep]:
  "(\<And>u. usr_id (f u) = usr_id u) \<Longrightarrow> keeps auth_ok (updateUserRow uid f)"
  unfolding updateUserRow_def
proof (rule keeps_writeDb)
  fix d assume ok: "auth_ok d" and "\<And>u. usr_id (f u) = usr_id u"
  then have "map usr_id (update_where (\<lambda>u. usr_id u = uid) f us) = map usr_id us" for us
    by (intro map_update_where) simp
  from this[THEN arg_cong[of _ _ set]] ok
  show "auth_ok (d\<lparr>t_users := update_where (\<lambda>u. usr_id u = uid) f (t_users d)\<rparr>)"
    by (simp add: auth_ok_def)
qed

lemma keeps_deleteRefreshTokens [keep]: "keeps auth_ok (deleteRefreshTokens P)"
  unfolding deleteRefreshTokens_def by (rule keeps_writeDb) (auto simp: auth_ok_def distinct_map_filter)

lemma insertRefreshToken_run:
  "insertRefreshToken h u ttl expiry w =
     (let w1 = w\<lparr>w_nextId := Suc (w_nextId w)\<rparr> in
      if \<exists>t \<in> set (t_refreshTokens (w_db w)). rt_token t = h then (Inl (UniqueViolation ''refresh_tokens_token_unique''), w1)
      else if u \<notin> usr_id ` set (t_users (w_db w)) then (Inl (ConstraintViolation ''refresh_tokens''), w1)
      else (Inr (), w1\<lparr>w_db := (w_db w)\<lparr>t_refreshTokens := t_refreshTokens (w_db w) @
        [\<lparr>rt_id = w_ids w (w_nextId w), rt_token = h, rt_userId = u, rt_ttlSecs = ttl, rt_expiresAt = expiry\<rparr>]\<rparr>\<rparr>))"
  by (auto simp: insertRefreshToken_def prog_step Let_def list_ex_iff)

lemma keeps_insertRefreshToken [keep]: "keeps auth_ok (insertRefreshToken h u ttl expiry)"
  by (auto simp: keeps_def insertRefreshToken_run Let_def auth_ok_def image_iff)

lemma keeps_markUsed [keep]:
  "keeps auth_ok (writeDb (\<lambda>d. d\<lparr>t_passwordResetTokens := update_where (\<lambda>r. prt_id r = i)
     (\<lambda>r. r\<lparr>prt_usedAt := Some now\<rparr>) (t_passwordResetTokens d)\<rparr>))"
proof (rule keeps_writeDb)
  fix d assume ok: "auth_ok d"
  let ?upd = "update_where (\<lambda>r. prt_id r = i) (\<lambda>r. r\<lparr>prt_usedAt := Some now\<rparr>)
    :: password_reset_row list \<Rightarrow> password_reset_row list"
  have "map prt_userId (filter (\<lambda>r. prt_usedAt r = None) (?upd rs)) =
      map prt_userId (filter (\<lambda>r. prt_id r \<noteq> i) (filter (\<lambda>r. prt_usedAt r = None) rs))" for rs
    by (induction rs) auto
  moreover have "map prt_tokenHash (?upd rs) = map prt_tokenHash rs" "prt_userId ` set (?upd rs) = prt_userId ` set rs" for rs
    by (induction rs) auto
  ultimately show "auth_ok (d\<lparr>t_passwordResetTokens := ?upd (t_passwordResetTokens d)\<rparr>)"
    using ok by (simp add: auth_ok_def distinct_map_filter del: filter_filter)
qed

lemma keeps_dropVerification [keep]:
  "keeps auth_ok (writeDb (\<lambda>d. d\<lparr>t_emailVerificationTokens := filter P (t_emailVerificationTokens d)\<rparr>))"
  by (rule keeps_writeDb) (auto simp: auth_ok_def distinct_map_filter)

lemma findOneByEmail_mem: "findOneByEmail d email = Some u \<Longrightarrow> u \<in> set (t_users d) \<and> usr_deletedAt u = None"
  unfolding findOneByEmail_def by (auto dest: first_row_SomeD)

lemma findOneById_mem: "findOneById d uid = Some u \<Longrightarrow> u \<in> set (t_users d) \<and> usr_id u = uid \<and> usr_deletedAt u = None"
  unfolding findOneById_def by (auto dest: first_row_SomeD)

lemma distinct_map_filter_conj:
  "distinct (map f (filter P xs)) \<Longrightarrow> distinct (map f (filter (\<lambda>x. P x \<and> Q x) xs))"
  using distinct_map_filter[of f "filter P xs" Q] by (simp add: conj_commute)

lemma forgotPassword_run:
  assumes "findOneByEmail (w_db w) email = Some user"
  shows "forgotPassword env email w =
    (let rest = filter (\<lambda>r. \<not> unusedResetOf (usr_id user) r) (t_passwordResetTokens (w_db w));
         raw = w_ids w (w_nextId w);
         w1 = w\<lparr>w_nextId := Suc (Suc (w_nextId w)), w_db := (w_db w)\<lparr>t_passwordResetTokens := rest\<rparr>\<rparr>
     in if \<exists>r \<in> set rest. prt_tokenHash r = ae_hash env raw
        then (Inl (UniqueViolation ''password_reset_tokens_token_hash_unique''), w1)
        else (Inr (), w1\<lparr>w_db := (w_db w)\<lparr>t_passwordResetTokens := rest @
               [\<lparr>prt_id = w_ids w (Suc (w_nextId w)), prt_userId = usr_id user, prt_tokenHash = ae_hash env raw,
                 prt_expiresAt = w_now w + RESET_TOKEN_TTL_MS, prt_usedAt = None\<rparr>]\<rparr>,
             w_fx := w_fx w @ [SendMail ''Reset your password'' email raw]\<rparr>))"
  using findOneByEmail_mem[OF assms]
  by (simp add: forgotPassword_def assms Let_def list_ex_iff thenM_def bindM_def throw_if_def)

lemma keeps_forgotPassword [keep]: "keeps auth_ok (forgotPassword env email)"
proof (unfold keeps_def, intro allI impI)
  fix w :: world assume ok: "auth_ok (w_db w)"
  show "auth_ok (w_db (snd (forgotPassword env email w)))"
  proof (cases "findOneByEmail (w_db w) email")
    case None
    with ok show ?thesis by (simp add: forgotPassword_def)
  next
    case (Some u)
    let ?P = "\<lambda>r. \<not> unusedResetOf (usr_id u) r" and ?rs = "t_passwordResetTokens (w_db w)"
    have "distinct (map prt_userId (filter (\<lambda>r. prt_usedAt r = None \<and> ?P r) ?rs))"
      "distinct (map prt_tokenHash (filter ?P ?rs))"
      using ok by (auto simp: auth_ok_def intro: distinct_map_filter distinct_map_filter_conj)
    moreover have "usr_id u \<notin> prt_userId ` set (filter (\<lambda>r. prt_usedAt r = None \<and> ?P r) ?rs)"
      by (auto simp: unusedResetOf_def)
    ultimately show ?thesis
      using ok findOneByEmail_mem[OF Some]
      by (simp add: forgotPassword_run[OF Some] Let_def auth_ok_def conj_commute image_iff) blast
  qed
qed

lemma keeps_sendVerificationEmail [keep]: "keeps auth_ok (sendVerificationEmail env uid email)"
proof (unfold keeps_def, intro allI impI)
  fix w :: world assume ok: "auth_ok (w_db w)"
  then show "auth_ok (w_db (snd (sendVerificationEmail env uid email w)))"
    by (auto simp: sendVerificationEmail_def prog_step Let_def auth_ok_def list_ex_iff distinct_map_filter image_iff)
qed

lemma keeps_all [keep]:
  "keeps auth_ok (validateUser env email pass)" "keeps auth_ok (login env user remember)"
  "keeps auth_ok (refresh env token)" "keeps auth_ok (logout env token)"
  "keeps auth_ok (resetPassword env token newHash)" "keeps auth_ok (verifyEmail env token)"
  "keeps auth_ok (resendVerification env uid)"
  unfolding validateUser_def failedLogin_def login_def refresh_def refreshBody_def reuseDetected_def rotate_def
    logout_def resetPassword_def verifyEmail_def resendVerification_def Let_def
  by (intro keep; simp)+

inductive auth_step :: "auth_env \<Rightarrow> world \<Rightarrow> world \<Rightarrow> bool" for env where
  Validate: "auth_step env w (snd (validateUser env email pass w))"
| Login: "auth_step env w (snd (login env user remember w))"
| Refresh: "auth_step env w (snd (refresh env token w))"
| Logout: "auth_step env w (snd (logout env token w))"
| Forgot: "auth_step env w (snd (forgotPassword env email w))"
| Reset: "auth_step env w (snd (resetPassword env token newHash w))"
| Send: "auth_step env w (snd (sendVerificationEmail env uid email w))"
| Verify: "auth_step env w (snd (verifyEmail env token w))"
| Resend: "auth_step env w (snd (resendVerification env uid w))"
| Elsewhere: "t_refreshTokens (w_db w') = t_refreshTokens (w_db w) \<Longrightarrow>
    t_passwordResetTokens (w_db w') = t_passwordResetTokens (w_db w) \<Longrightarrow>
    t_emailVerificationTokens (w_db w') = t_emailVerificationTokens (w_db w) \<Longrightarrow>
    usr_id ` set (t_users (w_db w)) \<subseteq> usr_id ` set (t_users (w_db w')) \<Longrightarrow> auth_step env w w'"

lemma auth_step_ok: "auth_step env w w' \<Longrightarrow> auth_ok (w_db w) \<Longrightarrow> auth_ok (w_db w')"
proof (induction rule: auth_step.induct)
  case (Elsewhere w' w)
  then show ?case unfolding auth_ok_def by (simp only:) (blast dest: subset_trans)
qed (erule keepsD[rotated], rule keep)+

text \<open>
  C29. Whatever sequence of logins, refreshes, logouts, resets and verifications runs, successful or
  not, with anything else the platform does to accounts in between: no two sessions share a token, no
  two recovery rows a hash, a user has at most one unused reset token and at most one verification
  token, and every row belongs to a user.
\<close>

theorem auth_rows_stay_ok:
  assumes "(auth_step env)\<^sup>*\<^sup>* w w'" and "auth_ok (w_db w)"
  shows "auth_ok (w_db w')"
  using assms by (induction rule: rtranclp_induct) (simp_all add: auth_step_ok)

section \<open>A refresh and its replay\<close>

lemma first_row_unique:
  "distinct (map f xs) \<Longrightarrow> first_row (\<lambda>x. f x = k) xs = Some a \<Longrightarrow> filter (\<lambda>x. f x \<noteq> k) xs = filter (\<lambda>x. x \<noteq> a) xs"
proof (induction xs)
  case (Cons x xs)
  then show ?case
    by (cases "f x = k") (auto dest: first_row_SomeD intro!: filter_cong[OF refl], (metis image_eqI)+)
qed simp

lemma refresh_Inr:
  assumes "refresh env token w = (Inr r, w')"
  obtains stored user where "first_row (\<lambda>t. rt_token t = ae_hash env token) (t_refreshTokens (w_db w)) = Some stored"
    and "w_now w \<le> rt_expiresAt stored" and "findOneById (w_db w) (usr_id user) = Some user"
    and "ae_verifyRefresh env token (w_now w) = Inr (usr_id user)"
    and "w_db w' = (w_db w)\<lparr>t_refreshTokens := filter (\<lambda>t. rt_token t \<noteq> ae_hash env token) (t_refreshTokens (w_db w)) @
      [\<lparr>rt_id = w_ids w (w_nextId w), rt_token = ae_hash env (rr_refresh_token r), rt_userId = usr_id user,
        rt_ttlSecs = rt_ttlSecs stored, rt_expiresAt = w_now w + rt_ttlSecs stored * 1000\<rparr>]\<rparr>"
    and "rr_refresh_token r = signRefresh env (usr_id user) (rt_ttlSecs stored) (w_now w)"
    and "rr_refreshTtlSecs r = rt_ttlSecs stored"
proof -
  have body: "refreshBody env token w = (Inr r, w')"
    using assms by (auto simp: refresh_def catchM_def split: prod.splits sum.splits)
  obtain sub where sub: "ae_verifyRefresh env token (w_now w) = Inr sub"
    using body by (auto simp: refreshBody_def bindM_liftE split: sum.splits)
  note b = body[unfolded refreshBody_def, simplified, unfolded bindM_liftE sub sum.case Let_def, simplified]
  obtain stored where st: "first_row (\<lambda>t. rt_token t = ae_hash env token) (t_refreshTokens (w_db w)) = Some stored"
    using b by (auto simp: reuseDetected_def deleteRefreshTokens_def split: option.splits)
  have live: "w_now w \<le> rt_expiresAt stored"
    using b st by (auto simp: deleteRefreshTokens_def split: if_splits)
  obtain user where user: "findOneById (w_db w) sub = Some user"
    using b st live by (cases "findOneById (w_db w) sub") auto
  have u: "usr_id user = sub" "sub \<in> usr_id ` set (t_users (w_db w))"
    using findOneById_mem[OF user] by auto
  have "rotate env (ae_hash env token) stored user (w_now w) w = (Inr r, w')"
    using b st live user by simp
  then have "w_db w' = (w_db w)\<lparr>t_refreshTokens := filter (\<lambda>t. rt_token t \<noteq> ae_hash env token) (t_refreshTokens (w_db w)) @
      [\<lparr>rt_id = w_ids w (w_nextId w), rt_token = ae_hash env (rr_refresh_token r), rt_userId = usr_id user,
        rt_ttlSecs = rt_ttlSecs stored, rt_expiresAt = w_now w + rt_ttlSecs stored * 1000\<rparr>]\<rparr>"
    "rr_refresh_token r = signRefresh env (usr_id user) (rt_ttlSecs stored) (w_now w)" "rr_refreshTtlSecs r = rt_ttlSecs stored"
    by (auto simp: rotate_def deleteRefreshTokens_def Let_def thenM_def bindM_def insertRefreshToken_run split: if_splits)
  then show thesis
    by (intro that[OF st live, of user]) (simp_all add: user sub u(1))
qed

text \<open>
  C30. A refresh that succeeds proves that the token was signed by the platform and is unexpired, that
  its session is stored and live, and that its user was not deleted; it takes that one session away,
  opens one with the same lifetime for the new token, and touches nothing else in the database. The
  old token, presented again while it still verifies, ends every session of the user and no other.
\<close>

theorem refresh_rotates_once:
  assumes "refresh env token w = (Inr r, w1)" and "auth_ok (w_db w)" and "inj (ae_hash env)"
    and "rr_refresh_token r \<noteq> token"
    and "ae_verifyRefresh env token (w_now w) = Inr uid" and "ae_verifyRefresh env token (w_now w2) = Inr uid"
    and "t_refreshTokens (w_db w2) = t_refreshTokens (w_db w1)"
  shows "\<exists>stored new w3. stored \<in> set (t_refreshTokens (w_db w)) \<and> rt_token stored = ae_hash env token \<and>
    w_now w \<le> rt_expiresAt stored \<and> findOneById (w_db w) uid \<noteq> None \<and>
    w_db w1 = (w_db w)\<lparr>t_refreshTokens := filter (\<lambda>t. t \<noteq> stored) (t_refreshTokens (w_db w)) @ [new]\<rparr> \<and>
    rt_token new = ae_hash env (rr_refresh_token r) \<and> rt_userId new = uid \<and> rt_ttlSecs new = rt_ttlSecs stored \<and>
    refresh env token w2 = (Inl (UnauthorizedException ''Invalid refresh token.''), w3) \<and>
    t_refreshTokens (w_db w3) = filter (\<lambda>t. rt_userId t \<noteq> uid) (t_refreshTokens (w_db w2))"
proof (rule refresh_Inr[OF assms(1)])
  fix stored user
  assume st: "first_row (\<lambda>t. rt_token t = ae_hash env token) (t_refreshTokens (w_db w)) = Some stored"
    and live: "w_now w \<le> rt_expiresAt stored" and user: "findOneById (w_db w) (usr_id user) = Some user"
    and sub: "ae_verifyRefresh env token (w_now w) = Inr (usr_id user)"
    and db: "w_db w1 = (w_db w)\<lparr>t_refreshTokens := filter (\<lambda>t. rt_token t \<noteq> ae_hash env token) (t_refreshTokens (w_db w)) @
      [\<lparr>rt_id = w_ids w (w_nextId w), rt_token = ae_hash env (rr_refresh_token r), rt_userId = usr_id user,
        rt_ttlSecs = rt_ttlSecs stored, rt_expiresAt = w_now w + rt_ttlSecs stored * 1000\<rparr>]\<rparr>"
  have uid: "usr_id user = uid" using sub assms(5) by simp
  have "ae_hash env (rr_refresh_token r) \<noteq> ae_hash env token"
    using assms(3,4) by (auto dest: injD)
  then have gone: "first_row (\<lambda>t. rt_token t = ae_hash env token) (t_refreshTokens (w_db w2)) = None"
    by (auto simp: assms(7) db first_row_def find_None_iff)
  have kept: "filter (\<lambda>t. rt_token t \<noteq> ae_hash env token) (t_refreshTokens (w_db w)) =
      filter (\<lambda>t. t \<noteq> stored) (t_refreshTokens (w_db w))"
    using first_row_unique[OF _ st] assms(2) by (simp add: auth_ok_def)
  have replay: "\<exists>w3. refresh env token w2 = (Inl (UnauthorizedException ''Invalid refresh token.''), w3) \<and>
      t_refreshTokens (w_db w3) = filter (\<lambda>t. rt_userId t \<noteq> uid) (t_refreshTokens (w_db w2))"
    by (simp add: refresh_def refreshBody_def catchM_def bindM_liftE assms(6) gone reuseDetected_def
        deleteRefreshTokens_def Let_def)
  then obtain w3 where w3: "refresh env token w2 = (Inl (UnauthorizedException ''Invalid refresh token.''), w3)"
    "t_refreshTokens (w_db w3) = filter (\<lambda>t. rt_userId t \<noteq> uid) (t_refreshTokens (w_db w2))" by blast
  show ?thesis
    by (rule exI[of _ stored], rule exI[of _ "\<lparr>rt_id = w_ids w (w_nextId w), rt_token = ae_hash env (rr_refresh_token r),
        rt_userId = uid, rt_ttlSecs = rt_ttlSecs stored, rt_expiresAt = w_now w + rt_ttlSecs stored * 1000\<rparr>"],
        rule exI[of _ w3])
      (use first_row_SomeD[OF st] live user w3 in \<open>simp add: db kept uid\<close>)
qed

text \<open>
  Two logins of one account within a second, with the same choice of \<open>remember me\<close>: both sign the
  same refresh token, whose hash has to be unique, so the second fails at the database.
\<close>

theorem same_second_login_fails:
  assumes "login env user remember w = (Inr r, w1)" and "w_now w2 div 1000 = w_now w div 1000"
    and "t_refreshTokens (w_db w2) = t_refreshTokens (w_db w1)"
  shows "fst (login env user remember w2) = Inl (UniqueViolation ''refresh_tokens_token_unique'')"
proof -
  let ?ttl = "if remember then REFRESH_TTL_REMEMBER_ME else REFRESH_TTL_DEFAULT"
  have "\<exists>t \<in> set (t_refreshTokens (w_db w1)). rt_token t = ae_hash env (signRefresh env (vu_id user) ?ttl (w_now w))"
    using assms(1) by (auto simp: login_def Let_def thenM_def bindM_def insertRefreshToken_run split: if_splits)
  then have "\<exists>t \<in> set (t_refreshTokens (w_db w2)). rt_token t = ae_hash env (signRefresh env (vu_id user) ?ttl (w_now w2))"
    by (simp add: assms(2,3) signRefresh_def)
  then show ?thesis
    by (simp add: login_def Let_def thenM_def bindM_def insertRefreshToken_run)
qed

section \<open>Resetting a password\<close>

text \<open>
  A password reset that succeeds was asked for with an unused, unexpired token of the platform; it
  leaves the user with the new password and without a single session, and the token is spent: it never
  resets a password again.
\<close>

theorem reset_token_works_once:
  assumes "resetPassword env raw newHash w = (Inr u, w1)"
    and "t_passwordResetTokens (w_db w2) = t_passwordResetTokens (w_db w1)"
  shows "\<exists>r \<in> set (t_passwordResetTokens (w_db w)). prt_tokenHash r = ae_hash env raw \<and> prt_usedAt r = None \<and>
    w_now w \<le> prt_expiresAt r \<and>
    (\<forall>v \<in> set (t_users (w_db w1)). usr_id v = prt_userId r \<longrightarrow> usr_passwordHash v = newHash) \<and>
    (\<forall>t \<in> set (t_refreshTokens (w_db w1)). rt_userId t \<noteq> prt_userId r) \<and>
    resetPassword env raw other w2 = (Inl (BadRequestException ''Reset token has already been used.''), w2)"
proof -
  obtain r where r: "first_row (\<lambda>r. prt_tokenHash r = ae_hash env raw) (t_passwordResetTokens (w_db w)) = Some r"
    using assms(1) by (cases "first_row (\<lambda>r. prt_tokenHash r = ae_hash env raw) (t_passwordResetTokens (w_db w))")
      (auto simp: resetPassword_def)
  have ok: "prt_usedAt r = None" "w_now w \<le> prt_expiresAt r"
    using assms(1) r by (auto simp: resetPassword_def thenM_def throw_if_def split: if_splits)
  have w1: "w_db w1 = (w_db w)\<lparr>
      t_users := update_where (\<lambda>u. usr_id u = prt_userId r) (\<lambda>u. u\<lparr>usr_passwordHash := newHash, usr_updatedAt := w_now w\<rparr>) (t_users (w_db w)),
      t_passwordResetTokens := update_where (\<lambda>x. prt_id x = prt_id r) (\<lambda>x. x\<lparr>prt_usedAt := Some (w_now w)\<rparr>) (t_passwordResetTokens (w_db w)),
      t_refreshTokens := filter (\<lambda>t. rt_userId t \<noteq> prt_userId r) (t_refreshTokens (w_db w))\<rparr>"
    using assms(1) r ok by (auto simp: resetPassword_def updateUserRow_def deleteRefreshTokens_def)
  have "first_row (\<lambda>r. prt_tokenHash r = ae_hash env raw) (t_passwordResetTokens (w_db w2)) =
      Some (r\<lparr>prt_usedAt := Some (w_now w)\<rparr>)"
    by (simp add: assms(2) w1 first_row_update_where r)
  then have "resetPassword env raw other w2 = (Inl (BadRequestException ''Reset token has already been used.''), w2)"
    by (simp add: resetPassword_def)
  with first_row_SomeD[OF r] ok w1 show ?thesis
    by (intro bexI[of _ r]) (auto simp: set_update_where split: if_splits)
qed

text \<open>
  C32. Asking for a reset again: the token mailed last works for an hour, and the ones mailed before it
  no longer do.
\<close>

theorem only_newest_reset_works:
  assumes "forgotPassword env email w = (Inr u, w1)" and "findOneByEmail (w_db w) email = Some user"
    and "auth_ok (w_db w)" and "raw = w_ids w (w_nextId w)" and "inj (ae_hash env)"
    and "w_now w \<le> now" and "now \<le> w_now w + RESET_TOKEN_TTL_MS"
    and "old \<in> set (t_passwordResetTokens (w_db w))" and "prt_userId old = usr_id user" and "prt_usedAt old = None"
    and "prt_tokenHash old = ae_hash env oldRaw" and "oldRaw \<noteq> raw"
  shows "last (w_fx w1) = SendMail ''Reset your password'' email raw \<and>
    (\<exists>w2. resetPassword env raw newHash (w1\<lparr>w_now := now\<rparr>) = (Inr (), w2)) \<and>
    resetPassword env oldRaw newHash (w1\<lparr>w_now := now\<rparr>) =
      (Inl (BadRequestException ''Reset token is invalid.''), w1\<lparr>w_now := now\<rparr>)"
proof -
  let ?rest = "filter (\<lambda>r. \<not> unusedResetOf (usr_id user) r) (t_passwordResetTokens (w_db w))"
  note run = assms(1)[unfolded forgotPassword_run[OF assms(2)] Let_def, folded assms(4)]
  have new: "\<forall>r \<in> set ?rest. prt_tokenHash r \<noteq> ae_hash env raw"
    using run by (auto split: if_splits)
  have w1: "t_passwordResetTokens (w_db w1) = ?rest @ [\<lparr>prt_id = w_ids w (Suc (w_nextId w)), prt_userId = usr_id user,
        prt_tokenHash = ae_hash env raw, prt_expiresAt = w_now w + RESET_TOKEN_TTL_MS, prt_usedAt = None\<rparr>]"
      "w_fx w1 = w_fx w @ [SendMail ''Reset your password'' email raw]"
    using run by (auto split: if_splits)
  have "first_row (\<lambda>r. prt_tokenHash r = ae_hash env raw) ?rest = None"
    using new by (auto simp: first_row_def find_None_iff)
  then have "\<exists>w2. resetPassword env raw newHash (w1\<lparr>w_now := now\<rparr>) = (Inr (), w2)"
    using assms(7) by (simp add: resetPassword_def w1 first_row_append updateUserRow_def deleteRefreshTokens_def)
  moreover have "ae_hash env oldRaw \<noteq> ae_hash env raw"
    using assms(5,12) by (auto dest: injD)
  moreover have "first_row (\<lambda>r. prt_tokenHash r = ae_hash env oldRaw) ?rest = None"
  proof -
    have "x = old" if "x \<in> set (t_passwordResetTokens (w_db w))" "prt_tokenHash x = ae_hash env oldRaw" for x
    proof -
      have "inj_on prt_tokenHash (set (t_passwordResetTokens (w_db w)))"
        using assms(3) by (simp add: auth_ok_def distinct_map)
      then show ?thesis by (rule inj_onD) (use assms(8,11) that in simp_all)
    qed
    then show ?thesis
      using assms(9,10) by (auto simp: first_row_def find_None_iff unusedResetOf_def)
  qed
  ultimately show ?thesis
    by (simp add: resetPassword_def w1 first_row_append)
qed

section \<open>Locking an account\<close>

definition failStep :: "auth_env \<Rightarrow> int \<Rightarrow> user_row \<Rightarrow> user_row" where
  "failStep env now u = u\<lparr>usr_failedLoginAttempts := usr_failedLoginAttempts u + 1, usr_updatedAt := now,
     usr_lockedUntil := (if ae_maxFailedAttempts env \<le> usr_failedLoginAttempts u + 1
       then Some (now + ae_lockoutDurationMs env) else usr_lockedUntil u)\<rparr>"

lemma first_row_by_id:
  "distinct (map usr_id us) \<Longrightarrow> u \<in> set us \<Longrightarrow> first_row (\<lambda>v. usr_id v = usr_id u) us = Some u"
  by (induction us) auto

lemma update_where_twice:
  "(\<And>x. P x \<Longrightarrow> P (f x)) \<Longrightarrow> update_where P g (update_where P f xs) = update_where P (g \<circ> f) xs"
  by (induction xs) auto

lemma update_where_one:
  "distinct (map usr_id us) \<Longrightarrow> u \<in> set us \<Longrightarrow> f u = g u \<Longrightarrow>
   update_where (\<lambda>v. usr_id v = usr_id u) f us = update_where (\<lambda>v. usr_id v = usr_id u) g us"
  unfolding update_where_def by (rule map_cong[OF refl]) (auto simp: distinct_map dest: inj_onD)

lemma world_db_users_cong:
  "us = us' \<Longrightarrow> w\<lparr>w_db := (w_db w)\<lparr>t_users := us\<rparr>\<rparr> = w\<lparr>w_db := (w_db w)\<lparr>t_users := us'\<rparr>\<rparr>"
  by simp

lemma validateUser_wrong:
  assumes "findOneByEmail (w_db w) email = Some user" and "distinct (map usr_id (t_users (w_db w)))"
    and "\<not> accountLocked (w_now w) user" and "\<not> ae_compare env wrong (usr_passwordHash user)"
  shows "validateUser env email wrong w = (Inr None, w\<lparr>w_db := (w_db w)\<lparr>t_users :=
    update_where (\<lambda>v. usr_id v = usr_id user) (failStep env (w_now w)) (t_users (w_db w))\<rparr>\<rparr>)"
proof -
  have mem: "user \<in> set (t_users (w_db w))" using findOneByEmail_mem[OF assms(1)] by simp
  note row = first_row_by_id[OF assms(2) mem]
  show ?thesis
    using assms(3,4)
    by (auto simp: validateUser_def assms(1) failedLogin_def updateUserRow_def first_row_update_where row Let_def
        update_where_twice whenM_def o_def failStep_def intro!: world_db_users_cong update_where_one[OF assms(2) mem])
qed

lemma wrong_passwords_lock_row:
  assumes "findOneByEmail (w_db w) email = Some user" and "distinct (map usr_id (t_users (w_db w)))"
    and "\<not> accountLocked (w_now w) user" and "\<not> ae_compare env wrong (usr_passwordHash user)"
    and "ae_maxFailedAttempts env \<le> usr_failedLoginAttempts user + int n" and "0 < n" and "0 < ae_lockoutDurationMs env"
  shows "\<exists>u. findOneByEmail (w_db (snd (repeatM n (thenM (validateUser env email wrong) (returnM ())) w))) email = Some u \<and>
    usr_lockedUntil u = Some (w_now w + ae_lockoutDurationMs env) \<and> ae_maxFailedAttempts env \<le> usr_failedLoginAttempts u"
  using assms
proof (induction n arbitrary: w user)
  case (Suc n)
  let ?w1 = "w\<lparr>w_db := (w_db w)\<lparr>t_users :=
    update_where (\<lambda>v. usr_id v = usr_id user) (failStep env (w_now w)) (t_users (w_db w))\<rparr>\<rparr>"
  note run = validateUser_wrong[OF Suc.prems(1-4)]
  have found: "findOneByEmail (w_db ?w1) email = Some (failStep env (w_now w) user)"
    using Suc.prems(1) by (simp add: findOneByEmail_def first_row_update_where failStep_def)
  let ?m = "thenM (validateUser env email wrong) (returnM ())"
  have step: "?m w = (Inr (), ?w1)"
    by (simp add: thenM_def bindM_def run)
  have rep: "repeatM (Suc n) ?m w = repeatM n ?m ?w1"
    unfolding repeatM.simps by (rule thenM_eval(1), rule step)
  show ?case
  proof (cases "ae_maxFailedAttempts env \<le> usr_failedLoginAttempts user + 1")
    case True
    then have locked: "accountLocked (w_now w) (failStep env (w_now w) user)"
      using Suc.prems(7) by (simp add: accountLocked_def failStep_def)
    have "validateUser env email wrong ?w1 = (Inl (TooManyRequestsException lockedMessage), ?w1)"
      using locked by (simp add: validateUser_def found[simplified])
    then have "snd (repeatM n ?m ?w1) = ?w1"
      by (cases n) (simp_all add: thenM_def bindM_def)
    with True found show ?thesis unfolding rep by (simp add: failStep_def)
  next
    case False
    have "distinct (map usr_id (t_users (w_db ?w1)))"
      using Suc.prems(2) by (simp add: map_update_where failStep_def)
    moreover have "\<not> accountLocked (w_now ?w1) (failStep env (w_now w) user)"
      using Suc.prems(3) False by (simp add: accountLocked_def failStep_def)
    moreover have "0 < n" using False Suc.prems(5) by (cases n) simp_all
    ultimately show ?thesis
      using Suc.IH[OF found] Suc.prems(4,5,7) unfolding rep by (simp add: failStep_def)
  qed
qed simp

text \<open>
  C31. Wrong passwords lock an account: once as many were entered as are missing to the limit, every
  login is refused until the lock has run out, the right password included. The counter is not reset
  when a lock runs out, so from then on a single wrong password is enough.
\<close>

theorem wrong_passwords_lock:
  assumes "findOneByEmail (w_db w) email = Some user" and "distinct (map usr_id (t_users (w_db w)))"
    and "\<not> accountLocked (w_now w) user" and "\<not> ae_compare env wrong (usr_passwordHash user)"
    and "ae_maxFailedAttempts env \<le> usr_failedLoginAttempts user + int n" and "0 < n" and "0 < ae_lockoutDurationMs env"
    and "w1 = snd (repeatM n (thenM (validateUser env email wrong) (returnM ())) w)"
    and "w_db w2 = w_db w1" and "w_now w2 < w_now w + ae_lockoutDurationMs env"
  shows "validateUser env email pass w2 = (Inl (TooManyRequestsException lockedMessage), w2) \<and>
    (\<exists>u. findOneByEmail (w_db w2) email = Some u \<and> ae_maxFailedAttempts env \<le> usr_failedLoginAttempts u)"
  using wrong_passwords_lock_row[OF assms(1-7)] assms(8-10)
  by (auto simp: validateUser_def accountLocked_def)

section \<open>Who acts where\<close>

text \<open>
  The user a request acts as is a live user as the database has it now, not as the token has it;
  only a platform administrator acts in an organization other than its own, and only in the well-formed
  one the query names.
\<close>

theorem acting_organization:
  assumes "validate sub query w = (Inr p, w')"
  shows "w' = w \<and> (\<exists>user \<in> set (t_users (w_db w)). usr_deletedAt user = None \<and> usr_id user = sub \<and>
    pr_id p = sub \<and> pr_role p = usr_role user \<and> pr_isPlatformAdmin p = (usr_role user = ''platform_admin'') \<and>
    pr_locationId p = usr_locationId user \<and>
    (pr_organizationId p = usr_organizationId user \<or>
     usr_role user = ''platform_admin'' \<and> (\<exists>q. query = Some q \<and> UUID_RE q \<and> pr_organizationId p = Some q)))"
proof (cases "findOneById (w_db w) sub")
  case (Some user)
  with assms findOneById_mem[OF Some] show ?thesis
    by (auto simp: validate_def Let_def split: option.splits if_splits intro!: bexI[of _ user])
qed (use assms in \<open>simp add: validate_def\<close>)

end
