(* ===== verification/Demo_Auth.thy ===== *)
theory Demo_Auth
  imports Auth Demo_Store
begin

text \<open>
  The theorems of \<open>Auth\<close> applied to the small store of \<open>Demo_Store\<close>: the user \<open>u\<close> whose password is
  the empty one, a hash that prefixes a letter, and tokens that spell out their subject and
  whether they were signed in the first second, and verify at any time.
\<close>

definition demoEnvAuth :: auth_env where
  "demoEnvAuth = \<lparr>ae_hash = (#) CHR ''h'', ae_compare = (=),
     ae_signAccess = (\<lambda>p iat. ap_sub p),
     ae_signRefresh = (\<lambda>sub ttl iat. sub @ (if iat = 0 then ''.0'' else ''.1'')),
     ae_verifyRefresh = (\<lambda>token now. Inr (takeWhile (\<lambda>c. c \<noteq> CHR ''.'') token)),
     ae_maxFailedAttempts = 5, ae_lockoutDurationMs = 60000\<rparr>"

lemma demoEnvAuth_inj: "inj (ae_hash demoEnvAuth)"
  by (simp add: demoEnvAuth_def inj_def)

definition demoValid :: validated_user where
  "demoValid = \<lparr>vu_id = ''u'', vu_email = ''u'', vu_role = ''user'', vu_organizationId = Some ''g'',
     vu_emailVerifiedAt = None\<rparr>"

definition demoLogin :: "login_result handler" where
  "demoLogin = login demoEnvAuth demoValid False"

definition demoLoggedIn :: world where
  "demoLoggedIn = (after demoLogin demoWorld)\<lparr>w_now := 5000\<rparr>"

definition demoToken :: string where
  "demoToken = lr_refresh_token (answer demoLogin demoWorld)"

definition demoRefresh :: "refresh_result handler" where
  "demoRefresh = refresh demoEnvAuth demoToken"

lemma demoUser_fields:
  "usr_id (demoUser i r p) = i" "usr_lockedUntil (demoUser i r p) = None"
  "usr_passwordHash (demoUser i r p) = []" "usr_failedLoginAttempts (demoUser i r p) = 0"
  by (simp_all add: demoUser_def)

lemma demoWorld_now: "w_now demoWorld = 0"
  by (simp add: demoWorld_def)

lemma demoStore_ok: "auth_ok (w_db demoWorld)"
  by (simp add: auth_ok_def demoWorld_def demoDb_def)

theorem auth_rows_stay_ok_witness: "auth_ok (w_db (after demoRefresh demoLoggedIn))"
proof (rule auth_rows_stay_ok)
  have "auth_step demoEnvAuth demoWorld (after demoLogin demoWorld)"
    unfolding after_def demoLogin_def by (rule Login)
  moreover have "auth_step demoEnvAuth (after demoLogin demoWorld) demoLoggedIn"
    by (rule Elsewhere) (simp_all add: demoLoggedIn_def)
  moreover have "auth_step demoEnvAuth demoLoggedIn (after demoRefresh demoLoggedIn)"
    unfolding after_def demoRefresh_def by (rule Refresh)
  ultimately show "(auth_step demoEnvAuth)\<^sup>*\<^sup>* demoWorld (after demoRefresh demoLoggedIn)"
    by (meson rtranclp.rtrancl_into_rtrancl rtranclp.rtrancl_refl)
qed (rule demoStore_ok)

lemma demoLoggedIn_ok: "auth_ok (w_db demoLoggedIn)"
proof -
  have "auth_step demoEnvAuth demoWorld (after demoLogin demoWorld)"
    unfolding after_def demoLogin_def by (rule Login)
  from auth_step_ok[OF this demoStore_ok] show ?thesis by (simp add: demoLoggedIn_def)
qed

theorem refresh_rotates_once_witness:
  "fst (refresh demoEnvAuth demoToken (after demoRefresh demoLoggedIn)) =
     Inl (UnauthorizedException ''Invalid refresh token.'')"
proof -
  have ok: "returned demoRefresh demoLoggedIn" by code_simp
  have run: "refresh demoEnvAuth demoToken demoLoggedIn = (Inr (answer demoRefresh demoLoggedIn), after demoRefresh demoLoggedIn)"
    using returned_run[OF ok] by (simp only: demoRefresh_def)
  have other: "rr_refresh_token (answer demoRefresh demoLoggedIn) \<noteq> demoToken" by code_simp
  have "takeWhile (\<lambda>c. c \<noteq> CHR ''.'') demoToken = ''u''" by code_simp
  then have sub: "ae_verifyRefresh demoEnvAuth demoToken t = Inr ''u''" for t
    by (simp add: demoEnvAuth_def)
  from refresh_rotates_once[OF run demoLoggedIn_ok demoEnvAuth_inj other sub sub refl] show ?thesis
    by (elim exE conjE) (simp only: fst_conv)
qed

theorem same_second_login_fails_witness:
  "fst (demoLogin ((after demoLogin demoWorld)\<lparr>w_now := 999\<rparr>)) =
     Inl (UniqueViolation ''refresh_tokens_token_unique'')"
proof -
  have ok: "returned demoLogin demoWorld" by code_simp
  have "login demoEnvAuth demoValid False demoWorld = (Inr (answer demoLogin demoWorld), after demoLogin demoWorld)"
    using returned_run[OF ok] by (simp only: demoLogin_def)
  from same_second_login_fails[OF this, of "(after demoLogin demoWorld)\<lparr>w_now := 999\<rparr>"]
  have "fst (login demoEnvAuth demoValid False ((after demoLogin demoWorld)\<lparr>w_now := 999\<rparr>)) =
      Inl (UniqueViolation ''refresh_tokens_token_unique'')"
    by (simp only: world.simps demoWorld_now) simp
  then show ?thesis by (simp only: demoLogin_def)
qed

theorem wrong_passwords_lock_witness:
  "fst (validateUser demoEnvAuth ''u'' [] ((snd (repeatM 5 (thenM (validateUser demoEnvAuth ''u'' ''x'') (returnM ())) demoWorld))
     \<lparr>w_now := 59999\<rparr>)) = Inl (TooManyRequestsException lockedMessage)"
proof -
  have user: "findOneByEmail (w_db demoWorld) ''u'' = Some (demoUser ''u'' ''user'' None)" by code_simp
  have ids: "map usr_id (t_users (w_db demoWorld)) = [''u'', ''b'']" by code_simp
  show ?thesis
    by (subst wrong_passwords_lock[where wrong = "''x''" and n = 5, OF user _ _ _ _ _ _ refl, THEN conjunct1])
      (simp_all add: ids demoWorld_now demoUser_fields accountLocked_def demoEnvAuth_def)
qed

definition demoForgot :: "unit handler" where
  "demoForgot = forgotPassword demoEnvAuth ''u''"

definition demoAskedTwice :: world where
  "demoAskedTwice = after demoForgot (after demoForgot demoWorld)"

theorem only_newest_reset_works_witness:
  "fst (resetPassword demoEnvAuth ''iii'' ''new'' (demoAskedTwice\<lparr>w_now := 3600000\<rparr>)) = Inr () \<and>
   fst (resetPassword demoEnvAuth ''i'' ''new'' (demoAskedTwice\<lparr>w_now := 3600000\<rparr>)) =
     Inl (BadRequestException ''Reset token is invalid.'')"
proof -
  let ?w = "after demoForgot demoWorld"
  have ok: "returned demoForgot ?w" by code_simp
  have run: "forgotPassword demoEnvAuth ''u'' ?w = (Inr (answer demoForgot ?w), demoAskedTwice)"
    unfolding demoForgot_def[symmetric] demoAskedTwice_def by (rule returned_run[OF ok])
  have "auth_step demoEnvAuth demoWorld ?w"
    unfolding after_def demoForgot_def by (rule Forgot)
  note rows = auth_step_ok[OF this demoStore_ok]
  have user: "findOneByEmail (w_db ?w) ''u'' = Some (demoUser ''u'' ''user'' None)" by code_simp
  have raw: "''iii'' = w_ids ?w (w_nextId ?w)" by code_simp
  have old: "t_passwordResetTokens (w_db ?w) = [\<lparr>prt_id = ''ii'', prt_userId = ''u'', prt_tokenHash = ''hi'',
    prt_expiresAt = 3600000, prt_usedAt = None\<rparr>]" by code_simp
  have now: "w_now ?w = 0" by code_simp
  have "(\<exists>w2. resetPassword demoEnvAuth ''iii'' ''new'' (demoAskedTwice\<lparr>w_now := 3600000\<rparr>) = (Inr (), w2)) \<and>
    resetPassword demoEnvAuth ''i'' ''new'' (demoAskedTwice\<lparr>w_now := 3600000\<rparr>) =
      (Inl (BadRequestException ''Reset token is invalid.''), demoAskedTwice\<lparr>w_now := 3600000\<rparr>)"
    by (rule only_newest_reset_works[OF run user rows raw demoEnvAuth_inj,
          where old = "\<lparr>prt_id = ''ii'', prt_userId = ''u'', prt_tokenHash = ''hi'',
            prt_expiresAt = 3600000, prt_usedAt = None\<rparr>", THEN conjunct2])
      (simp_all add: old now RESET_TOKEN_TTL_MS_def demoUser_fields demoEnvAuth_def)
  then show ?thesis by auto
qed

theorem reset_token_works_once_witness:
  "fst (resetPassword demoEnvAuth ''i'' ''newer'' (after (resetPassword demoEnvAuth ''i'' ''new'') (after demoForgot demoWorld))) =
     Inl (BadRequestException ''Reset token has already been used.'')"
proof -
  have ok: "returned (resetPassword demoEnvAuth ''i'' ''new'') (after demoForgot demoWorld)" by code_simp
  from reset_token_works_once[OF returned_run[OF ok] refl, of "''newer''"] show ?thesis
    by (elim bexE conjE) (simp only: fst_conv)
qed

definition demoSupport :: world where
  "demoSupport = demoWorld\<lparr>w_db := demoDb\<lparr>t_users := [demoUser ''s'' ''platform_admin'' None]\<rparr>\<rparr>"

definition demoOrgQuery :: string where
  "demoOrgQuery = ''01234567-89ab-cdef-0123-456789ABCDEF''"

theorem acting_organization_witness:
  "pr_organizationId (answer (validate ''s'' (Some demoOrgQuery)) demoSupport) \<in> {Some ''g'', Some demoOrgQuery} \<and>
   answer (validate ''s'' (Some ''g2'')) demoSupport = answer (validate ''s'' None) demoSupport"
proof
  have ok: "returned (validate ''s'' (Some demoOrgQuery)) demoSupport" by code_simp
  have users: "set (t_users (w_db demoSupport)) = {demoUser ''s'' ''platform_admin'' None}"
    by (simp add: demoSupport_def)
  from acting_organization[OF returned_run[OF ok]]
  show "pr_organizationId (answer (validate ''s'' (Some demoOrgQuery)) demoSupport) \<in> {Some ''g'', Some demoOrgQuery}"
    unfolding users by (auto simp: demoUser_def)
qed code_simp

end
