(* ===== verification/Marketplace_Feeds.thy ===== *)
theory Marketplace_Feeds
  imports Order_Status Order_Print
begin

text \<open>
  What a marketplace sends and is sent, without a network or a database
  (\<open>aggregator/core/models\<close>, \<open>aggregator/providers/kitchenhub/kitchenhub.mapper.ts\<close>,
  \<open>aggregator/providers/ubereats/ubereats.mapper.ts\<close>, \<open>order-status-transition.service.ts\<close>): the
  order every provider's payload is turned into, the event a webhook carries, the bodies that accept,
  deny and cancel, and the menu published to Uber Eats. KitchenHub sends decimal amounts and may send
  them as text, Uber Eats sends cents. Absent JSON fields are \<open>None\<close>; dates stay text.

  Shown here: prices published to KitchenHub come back to the cent; every reference of the menu
  published to Uber Eats is defined in it, once per group; and a cart line of several units is booked
  at the line's total per unit.
\<close>

section \<open>The normalized order\<close>

record normalized_modifier =
  nmo_externalModifierId :: string
  nmo_name :: string
  nmo_priceAdjustment :: int

record normalized_item =
  nit_externalItemId :: string
  nit_name :: string
  nit_quantity :: int
  nit_price :: int
  nit_modifiers :: "normalized_modifier list option"
  nit_specialInstructions :: "string option"

record normalized_order =
  nor_externalOrderId :: string
  nor_externalStatus :: string
  nor_sourceChannel :: "string option"
  nor_externalCreatedAt :: "string option"
  nor_totalAmount :: int
  nor_subtotal :: "int option"
  nor_taxAmount :: "int option"
  nor_tipAmount :: "int option"
  nor_orderType :: "string option"
  nor_specialInstructions :: "string option"
  nor_items :: "normalized_item list"
  nor_customerName :: "string option"
  nor_customerPhone :: "string option"

datatype event_type = OrderCreated | OrderUpdated | OrderCanceled | DeliveryStatus | MenuSyncStatus
  | StoreProvisioned | StoreDeprovisioned | StoreStatus | UnknownEvent

record webhook_event =
  wev_externalEventId :: string
  wev_eventType :: event_type
  wev_externalOrderId :: "string option"

text \<open>\<open>x ?? y\<close> between optional values.\<close>

definition coalesce :: "'a option \<Rightarrow> 'a option \<Rightarrow> 'a option" where
  "coalesce x y = (case x of None \<Rightarrow> y | Some a \<Rightarrow> Some a)"

text \<open>\<open>[first, last].filter(Boolean).join(' ').trim() || undefined\<close>\<close>

definition fullName :: "string option \<Rightarrow> string option \<Rightarrow> string option" where
  "fullName firstName lastName = or_null (Some (js_trim
     (if truthy firstName then the firstName @ (if truthy lastName then CHR '' '' # the lastName else []) else nvl lastName [])))"

section \<open>KitchenHub\<close>

datatype num_or_text = AsNumber rat | AsText string

record kh_modifier =
  khm_id :: "string option"
  khm_name :: "string option"
  khm_price :: "num_or_text option"

record kh_item =
  khi_id :: "string option"
  khi_external_id :: "string option"
  khi_name :: "string option"
  khi_quantity :: "int option"
  khi_price :: "num_or_text option"
  khi_modifiers :: "kh_modifier list option"
  khi_notes :: "string option"

record kh_customer =
  khc_name :: "string option"
  khc_first_name :: "string option"
  khc_last_name :: "string option"
  khc_phone :: "string option"

record kh_order =
  kho_id :: "string option"
  kho_external_id :: "string option"
  kho_order_number :: "string option"
  kho_provider :: "string option"
  kho_source :: "string option"
  kho_status :: "string option"
  kho_created_at :: "string option"
  kho_type :: "string option"
  kho_customer :: "kh_customer option"
  kho_items :: "kh_item list option"
  kho_subtotal :: "num_or_text option"
  kho_tax :: "num_or_text option"
  kho_tip :: "num_or_text option"
  kho_total :: "num_or_text option"
  kho_notes :: "string option"

text \<open>The envelope; without a nested order it is the order itself, so it has an order's fields too.\<close>

record kh_body = kh_order +
  khb_event_id :: "string option"
  khb_event :: "string option"
  khb_order :: "kh_order option"
  khb_data :: "kh_order option"

definition toCents :: "num_or_text option \<Rightarrow> int" where
  "toCents v = (case v of
       None \<Rightarrow> 0
     | Some (AsNumber n) \<Rightarrow> js_round (n * 100)
     | Some (AsText s) \<Rightarrow> if s = [] then 0 else
         (case js_number_string s of None \<Rightarrow> 0 | Some n \<Rightarrow> js_round (n * 100)))"

definition fromCents :: "int \<Rightarrow> rat" where
  "fromCents cents = of_int cents / 100"

definition normalizeMarketplace :: "string option \<Rightarrow> string option" where
  "normalizeMarketplace raw = (if \<not> truthy raw then None else
     (let key = filter (\<lambda>c. \<not> (js_space c \<or> c = CHR ''_'' \<or> c = CHR ''-'')) (js_lower (the raw)) in
      if js_includes key ''doordash'' then Some ''doordash''
      else if js_includes key ''ubereats'' \<or> key = ''uber'' then Some ''ubereats''
      else if js_includes key ''grubhub'' then Some ''grubhub''
      else None))"

definition khCustomerName :: "kh_order \<Rightarrow> string option" where
  "khCustomerName order = (case kho_customer order of
       None \<Rightarrow> None
     | Some c \<Rightarrow> if truthy (khc_name c) then khc_name c else fullName (khc_first_name c) (khc_last_name c))"

definition extractOrder :: "kh_body \<Rightarrow> kh_order" where
  "extractOrder body = nvl (coalesce (khb_order body) (khb_data body)) (kh_order.truncate body)"

definition orderExternalId :: "kh_order \<Rightarrow> string" where
  "orderExternalId order = nvl (coalesce (kho_id order) (coalesce (kho_external_id order) (kho_order_number order))) []"

definition khModifier :: "kh_modifier \<Rightarrow> normalized_modifier" where
  "khModifier m = \<lparr>nmo_externalModifierId = nvl (khm_id m) [], nmo_name = nvl (khm_name m) [],
     nmo_priceAdjustment = toCents (khm_price m)\<rparr>"

definition khOrderItem :: "kh_item \<Rightarrow> normalized_item" where
  "khOrderItem item =
     (let modifiers = map khModifier (nvl (khi_modifiers item) [])
      in \<lparr>nit_externalItemId = nvl (coalesce (khi_external_id item) (khi_id item)) [],
          nit_name = nvl (khi_name item) ''Item'', nit_quantity = nvl (khi_quantity item) 1,
          nit_price = toCents (khi_price item) + sum_by nmo_priceAdjustment modifiers,
          nit_modifiers = (if modifiers = [] then None else Some modifiers),
          nit_specialInstructions = khi_notes item\<rparr>)"

definition khOrder :: "kh_order \<Rightarrow> normalized_order" where
  "khOrder order =
     (let subtotal = map_option (\<lambda>v. toCents (Some v)) (kho_subtotal order);
          taxAmount = map_option (\<lambda>v. toCents (Some v)) (kho_tax order);
          tipAmount = map_option (\<lambda>v. toCents (Some v)) (kho_tip order)
      in \<lparr>nor_externalOrderId = orderExternalId order, nor_externalStatus = nvl (kho_status order) ''new'',
          nor_sourceChannel = normalizeMarketplace (coalesce (kho_provider order) (kho_source order)),
          nor_externalCreatedAt = kho_created_at order,
          nor_totalAmount = (case kho_total order of Some v \<Rightarrow> toCents (Some v)
            | None \<Rightarrow> nvl subtotal 0 + nvl taxAmount 0 + nvl tipAmount 0),
          nor_subtotal = subtotal, nor_taxAmount = taxAmount, nor_tipAmount = tipAmount,
          nor_orderType = kho_type order, nor_specialInstructions = kho_notes order,
          nor_items = map khOrderItem (nvl (kho_items order) []),
          nor_customerName = khCustomerName order,
          nor_customerPhone = (case kho_customer order of None \<Rightarrow> None | Some c \<Rightarrow> khc_phone c)\<rparr>)"

definition khEventType :: "string option \<Rightarrow> event_type" where
  "khEventType type =
     (let t = js_lower (nvl type []) in
      if t \<in> {''order'', ''order.created'', ''neworder''} then OrderCreated
      else if t \<in> {''order.updated'', ''orderstatus''} then OrderUpdated
      else if t \<in> {''order.canceled'', ''order.cancelled''} then OrderCanceled
      else if t = ''delivery'' then DeliveryStatus
      else if t = ''menu'' then MenuSyncStatus
      else UnknownEvent)"

definition khParseWebhook :: "kh_body \<Rightarrow> webhook_event" where
  "khParseWebhook body =
     (let oid = orderExternalId (extractOrder body) in
      \<lparr>wev_externalEventId =
         nvl (coalesce (khb_event_id body) (coalesce (kho_id body)
                (case khb_data body of None \<Rightarrow> None | Some d \<Rightarrow> kho_id d)))
           (if oid \<noteq> [] then ''order:'' @ oid else []),
       wev_eventType = khEventType (coalesce (kho_type body) (khb_event body)),
       wev_externalOrderId = or_null (Some oid)\<rparr>)"

definition khOrderFromWebhook :: "kh_body \<Rightarrow> normalized_order option" where
  "khOrderFromWebhook body =
     (let order = extractOrder body in if orderExternalId order = [] then None else Some (khOrder order))"

lemma kitchenhub_price_comes_back: "toCents (Some (AsNumber (fromCents cents))) = cents"
  by (simp add: toCents_def fromCents_def)

section \<open>Uber Eats: orders\<close>

record uber_money =
  um_amount :: "rat option"

record uber_price =
  upr_unit_price :: "uber_money option"
  upr_total_price :: "uber_money option"

record uber_selected =
  use_id :: "string option"
  use_title :: "string option"
  use_price :: "uber_price option"

datatype uber_quantity = Units int | Amount "int option"

record uber_cart_item =
  uci_id :: "string option"
  uci_instance_id :: "string option"
  uci_title :: "string option"
  uci_quantity :: "uber_quantity option"
  uci_price :: "uber_price option"
  uci_selected_modifier_groups :: "uber_selected list option list option"
  uci_special_instructions :: "string option"

record uber_eater =
  uea_first_name :: "string option"
  uea_last_name :: "string option"
  uea_phone :: "string option"

record uber_cart =
  uca_items :: "uber_cart_item list option"
  uca_special_instructions :: "string option"

record uber_charges =
  uch_total :: "uber_money option"
  uch_sub_total :: "uber_money option"
  uch_tax :: "uber_money option"
  uch_tip :: "uber_money option"

record uber_order =
  uor_id :: "string option"
  uor_display_id :: "string option"
  uor_current_state :: "string option"
  uor_placed_at :: "string option"
  uor_type :: "string option"
  uor_eater :: "uber_eater option"
  uor_eaters :: "uber_eater list option"
  uor_customers :: "uber_eater list option"
  uor_cart :: "uber_cart option"
  uor_carts :: "uber_cart list option"
  uor_charges :: "uber_charges option"
  uor_special_instructions :: "string option"
  uor_store_instructions :: "string option"

definition moneyToCents :: "uber_money option \<Rightarrow> int" where
  "moneyToCents m = (case m of None \<Rightarrow> 0 | Some u \<Rightarrow> (case um_amount u of None \<Rightarrow> 0 | Some a \<Rightarrow> js_round a))"

definition itemQuantity :: "uber_cart_item \<Rightarrow> int" where
  "itemQuantity item = (case uci_quantity item of
       Some (Units n) \<Rightarrow> n | Some (Amount a) \<Rightarrow> nvl a 1 | None \<Rightarrow> 1)"

definition uberModifier :: "uber_selected \<Rightarrow> normalized_modifier" where
  "uberModifier sel = \<lparr>nmo_externalModifierId = nvl (use_id sel) [], nmo_name = nvl (use_title sel) [],
     nmo_priceAdjustment = moneyToCents (case use_price sel of None \<Rightarrow> None
       | Some p \<Rightarrow> coalesce (upr_total_price p) (upr_unit_price p))\<rparr>"

definition mapCartItem :: "uber_cart_item \<Rightarrow> normalized_item" where
  "mapCartItem item =
     (let modifiers = concat (map (\<lambda>g. map uberModifier (nvl g [])) (nvl (uci_selected_modifier_groups item) []));
          total_price = (case uci_price item of None \<Rightarrow> None | Some p \<Rightarrow> upr_total_price p);
          unit_price = (case uci_price item of None \<Rightarrow> None | Some p \<Rightarrow> upr_unit_price p);
          inclusiveUnitPrice = (if total_price \<noteq> None then moneyToCents total_price
            else moneyToCents unit_price + sum_by nmo_priceAdjustment modifiers)
      in \<lparr>nit_externalItemId = nvl (coalesce (uci_id item) (uci_instance_id item)) [],
          nit_name = nvl (uci_title item) ''Item'', nit_quantity = itemQuantity item,
          nit_price = inclusiveUnitPrice,
          nit_modifiers = (if modifiers = [] then None else Some modifiers),
          nit_specialInstructions = uci_special_instructions item\<rparr>)"

definition firstOf :: "'a list option \<Rightarrow> 'a option" where
  "firstOf xs = (case xs of Some (x # _) \<Rightarrow> Some x | _ \<Rightarrow> None)"

definition uberOrder :: "uber_order \<Rightarrow> normalized_order" where
  "uberOrder order =
     (let charge = (\<lambda>f. case uor_charges order of None \<Rightarrow> None | Some c \<Rightarrow> f c);
          eater = coalesce (uor_eater order) (coalesce (firstOf (uor_eaters order)) (firstOf (uor_customers order)));
          cart = coalesce (uor_cart order) (firstOf (uor_carts order));
          cents = map_option (\<lambda>m. moneyToCents (Some m))
      in \<lparr>nor_externalOrderId = nvl (coalesce (uor_id order) (uor_display_id order)) [],
          nor_externalStatus = nvl (uor_current_state order) ''CREATED'',
          nor_sourceChannel = Some ''ubereats'', nor_externalCreatedAt = uor_placed_at order,
          nor_totalAmount = moneyToCents (charge uch_total), nor_subtotal = cents (charge uch_sub_total),
          nor_taxAmount = cents (charge uch_tax), nor_tipAmount = cents (charge uch_tip),
          nor_orderType = uor_type order,
          nor_specialInstructions = coalesce (case cart of None \<Rightarrow> None | Some c \<Rightarrow> uca_special_instructions c)
            (coalesce (uor_special_instructions order) (uor_store_instructions order)),
          nor_items = map mapCartItem (nvl (case cart of None \<Rightarrow> None | Some c \<Rightarrow> uca_items c) []),
          nor_customerName = (case eater of None \<Rightarrow> None | Some e \<Rightarrow> fullName (uea_first_name e) (uea_last_name e)),
          nor_customerPhone = (case eater of None \<Rightarrow> None | Some e \<Rightarrow> uea_phone e)\<rparr>)"

text \<open>What a line costs on the order: its unit price times its quantity.\<close>

definition normalizedLine :: "normalized_item \<Rightarrow> int" where
  "normalizedLine it = nit_price it * nit_quantity it"

text \<open>
  A cart line of Uber Eats that states its total, the price of all its units together: the mapper
  books that total as the price of one unit, so the line costs the order quantity times what the
  customer paid for it.
\<close>

theorem uber_line_counted_per_unit:
  assumes "uci_price item = Some p" and "upr_total_price p = Some t" and "um_amount t = Some (of_int paid)"
  shows "normalizedLine (mapCartItem item) = itemQuantity item * paid"
  using assms by (simp add: mapCartItem_def normalizedLine_def moneyToCents_def Let_def)

section \<open>Uber Eats: events and answers\<close>

record uber_meta =
  ume_resource_id :: "string option"
  ume_status :: "string option"
  ume_user_id :: "string option"
  ume_store_id :: "string option"

record uber_body =
  ubo_event_id :: "string option"
  ubo_event_type :: "string option"
  ubo_resource_href :: "string option"
  ubo_meta :: "uber_meta option"

definition uberEventType :: "string option \<Rightarrow> event_type" where
  "uberEventType eventType =
     (let t = js_lower (nvl eventType []) in
      if t \<in> {''orders.notification'', ''orders.scheduled.notification''} then OrderCreated
      else if t \<in> {''orders.cancel'', ''orders.failure''} then OrderCanceled
      else if t \<in> {''orders.release'', ''order.fulfillment_issues.resolved''} then OrderUpdated
      else if t = ''store.provisioned'' then StoreProvisioned
      else if t = ''store.deprovisioned'' then StoreDeprovisioned
      else if t = ''store.status.changed'' then StoreStatus
      else UnknownEvent)"

definition webhookStoreId :: "uber_body \<Rightarrow> string option" where
  "webhookStoreId body = (case ubo_meta body of None \<Rightarrow> None | Some m \<Rightarrow> coalesce (ume_user_id m) (ume_store_id m))"

text \<open>\<open>s.split('/').filter(Boolean)\<close>: the non-empty segments; the last one, when there is any.\<close>

fun segments :: "string \<Rightarrow> string \<Rightarrow> string list" where
  "segments acc [] = (if acc = [] then [] else [rev acc])"
| "segments acc (c # s) = (if c = CHR ''/'' then (if acc = [] then [] else [rev acc]) @ segments [] s
     else segments (c # acc) s)"

definition webhookOrderId :: "uber_body \<Rightarrow> string option" where
  "webhookOrderId body =
     (let resource = (case ubo_meta body of None \<Rightarrow> None | Some m \<Rightarrow> ume_resource_id m) in
      if truthy resource then resource
      else if truthy (ubo_resource_href body)
           then (let parts = segments [] (the (ubo_resource_href body)) in if parts = [] then None else Some (last parts))
           else None)"

definition uberParseWebhook :: "uber_body \<Rightarrow> webhook_event" where
  "uberParseWebhook body =
     (let orderId = webhookOrderId body in
      \<lparr>wev_externalEventId = nvl (ubo_event_id body) (if truthy orderId then ''order:'' @ the orderId else []),
       wev_eventType = uberEventType (ubo_event_type body), wev_externalOrderId = orderId\<rparr>)"

definition DENY_REASON_CODES :: "string list" where
  "DENY_REASON_CODES = [''STORE_CLOSED'', ''POS_NOT_READY'', ''POS_OFFLINE'', ''ITEM_AVAILABILITY'', ''MISSING_ITEM'',
     ''MISSING_INFO'', ''PRICING'', ''CAPACITY'', ''ADDRESS'', ''SPECIAL_INSTRUCTIONS'', ''OTHER'']"

definition CANCEL_REASON_CODES :: "string list" where
  "CANCEL_REASON_CODES = [''OUT_OF_ITEMS'', ''KITCHEN_CLOSED'', ''CUSTOMER_CALLED_TO_CANCEL'', ''RESTAURANT_TOO_BUSY'',
     ''CANNOT_COMPLETE_CUSTOMER_NOTE'', ''OTHER'']"

text \<open>\<open>replace(/[\s-]+/g, '_')\<close>; the flag says that the previous character was replaced.\<close>

fun underscored :: "bool \<Rightarrow> string \<Rightarrow> string" where
  "underscored gap [] = []"
| "underscored gap (c # s) =
     (if js_space c \<or> c = CHR ''-'' then (if gap then [] else [CHR ''_'']) @ underscored True s
      else c # underscored False s)"

definition matchCode :: "string option \<Rightarrow> string list \<Rightarrow> string option" where
  "matchCode reason codes = (if \<not> truthy reason then None
     else (let normalized = underscored False (js_upper (js_trim (the reason)))
           in find (\<lambda>code. code = normalized) codes))"

record uber_deny =
  udn_code :: string
  udn_explanation :: string

record uber_cancel =
  ucn_reason :: string
  ucn_details :: "string option"

definition toDenyBody :: "string option \<Rightarrow> uber_deny" where
  "toDenyBody reason = \<lparr>udn_code = nvl (matchCode reason DENY_REASON_CODES) ''OTHER'',
     udn_explanation = or_else (js_trim (nvl reason [])) ''Denied by the restaurant''\<rparr>"

definition toCancelBody :: "string option \<Rightarrow> uber_cancel" where
  "toCancelBody reason = (case matchCode reason CANCEL_REASON_CODES of
       Some code \<Rightarrow> \<lparr>ucn_reason = code, ucn_details = None\<rparr>
     | None \<Rightarrow> \<lparr>ucn_reason = ''OTHER'',
         ucn_details = Some (or_else (js_trim (nvl reason [])) ''Cancelled by the restaurant'')\<rparr>)"

lemma answers_use_the_codes:
  "udn_code (toDenyBody reason) \<in> set DENY_REASON_CODES" "ucn_reason (toCancelBody reason) \<in> set CANCEL_REASON_CODES"
  by (auto simp: toDenyBody_def toCancelBody_def matchCode_def find_Some_iff Let_def DENY_REASON_CODES_def
      CANCEL_REASON_CODES_def nvl_def split: option.splits)

section \<open>Statuses of a marketplace\<close>

definition externalStatuses :: "(string \<times> order_status) list" where
  "externalStatuses = [(''new'', Pending), (''accepted'', Confirmed), (''confirmed'', Confirmed),
     (''preparing'', Preparing), (''ready'', Ready), (''completed'', Completed), (''canceled'', Cancelled),
     (''cancelled'', Cancelled), (''refunded'', Refunded), (''picked_up'', Completed), (''delivered'', Completed),
     (''created'', Pending), (''denied'', Cancelled), (''finished'', Completed)]"

definition mapExternalStatus :: "string \<Rightarrow> order_status" where
  "mapExternalStatus externalStatus = nvl (map_of externalStatuses (js_trim (js_lower externalStatus))) Pending"

section \<open>The menu published to Uber Eats\<close>

record normalized_option =
  nop_internalModifierId :: uuid
  nop_name :: string
  nop_priceAdjustment :: int

record normalized_group =
  ngr_internalModifierGroupId :: uuid
  ngr_name :: string
  ngr_isRequired :: bool
  ngr_multiSelect :: bool
  ngr_maxSelections :: "int option"
  ngr_modifiers :: "normalized_option list"

record normalized_menu_item =
  nmi_internalItemId :: uuid
  nmi_name :: string
  nmi_description :: "string option"
  nmi_price :: int
  nmi_modifierGroups :: "normalized_group list"

record normalized_category =
  nca_internalCategoryId :: uuid
  nca_name :: string
  nca_items :: "normalized_menu_item list"

record uber_item_entry =
  uie_id :: uuid
  uie_title :: string
  uie_description :: "string option"
  uie_price :: int
  uie_modifier_group_ids :: "uuid list"

record uber_group_entry =
  uge_id :: uuid
  uge_title :: string
  uge_min_permitted :: int
  uge_max_permitted :: int
  uge_modifier_options :: "uuid list"

record uber_category_entry =
  uce_id :: uuid
  uce_title :: string
  uce_entities :: "uuid list"

record uber_menu =
  uma_category_ids :: "uuid list"
  uma_categories :: "uber_category_entry list"
  uma_items :: "uber_item_entry list"
  uma_modifier_groups :: "uber_group_entry list"

text \<open>The two growing lists and the two sets of ids seen.\<close>

record menu_build =
  mbu_items :: "uber_item_entry list"
  mbu_groups :: "uber_group_entry list"
  mbu_seenGroups :: "uuid list"
  mbu_seenOptions :: "uuid list"

definition pushOption :: "normalized_option \<Rightarrow> menu_build \<Rightarrow> menu_build" where
  "pushOption opt b =
     (if nop_internalModifierId opt \<in> set (mbu_seenOptions b) then b
      else b\<lparr>mbu_seenOptions := nop_internalModifierId opt # mbu_seenOptions b,
             mbu_items := mbu_items b @ [\<lparr>uie_id = nop_internalModifierId opt, uie_title = nop_name opt,
               uie_description = None, uie_price = nop_priceAdjustment opt, uie_modifier_group_ids = []\<rparr>]\<rparr>)"

definition groupEntry :: "normalized_group \<Rightarrow> uber_group_entry" where
  "groupEntry grp = \<lparr>uge_id = ngr_internalModifierGroupId grp, uge_title = ngr_name grp,
     uge_min_permitted = (if ngr_isRequired grp then 1 else 0),
     uge_max_permitted = (if ngr_multiSelect grp
       then nvl (ngr_maxSelections grp) (int (length (ngr_modifiers grp))) else 1),
     uge_modifier_options = map nop_internalModifierId (ngr_modifiers grp)\<rparr>"

definition pushGroup :: "normalized_group \<Rightarrow> menu_build \<Rightarrow> menu_build" where
  "pushGroup grp b =
     (let b = fold pushOption (ngr_modifiers grp) b in
      if ngr_internalModifierGroupId grp \<in> set (mbu_seenGroups b) then b
      else b\<lparr>mbu_seenGroups := ngr_internalModifierGroupId grp # mbu_seenGroups b,
             mbu_groups := mbu_groups b @ [groupEntry grp]\<rparr>)"

definition pushItem :: "normalized_menu_item \<Rightarrow> menu_build \<Rightarrow> menu_build" where
  "pushItem item b = fold pushGroup (nmi_modifierGroups item)
     (b\<lparr>mbu_items := mbu_items b @ [\<lparr>uie_id = nmi_internalItemId item, uie_title = nmi_name item,
        uie_description = or_null (nmi_description item), uie_price = nmi_price item,
        uie_modifier_group_ids = map ngr_internalModifierGroupId (nmi_modifierGroups item)\<rparr>]\<rparr>)"

definition categoryEntry :: "normalized_category \<Rightarrow> uber_category_entry" where
  "categoryEntry cat = \<lparr>uce_id = nca_internalCategoryId cat, uce_title = nca_name cat,
     uce_entities = map nmi_internalItemId (nca_items cat)\<rparr>"

definition toUberMenu :: "normalized_category list \<Rightarrow> uber_menu" where
  "toUberMenu menu =
     (let b = fold (\<lambda>cat. fold pushItem (nca_items cat)) menu
            \<lparr>mbu_items = [], mbu_groups = [], mbu_seenGroups = [], mbu_seenOptions = []\<rparr>;
          categories = map categoryEntry menu
      in \<lparr>uma_category_ids = map uce_id categories, uma_categories = categories,
          uma_items = mbu_items b, uma_modifier_groups = mbu_groups b\<rparr>)"

section \<open>The menu is closed\<close>

abbreviation itemIds :: "menu_build \<Rightarrow> uuid set" where
  "itemIds b \<equiv> uie_id ` set (mbu_items b)"

abbreviation groupIds :: "menu_build \<Rightarrow> uuid set" where
  "groupIds b \<equiv> uge_id ` set (mbu_groups b)"

definition build_ok :: "menu_build \<Rightarrow> bool" where
  "build_ok b \<longleftrightarrow> set (mbu_seenOptions b) \<subseteq> itemIds b \<and> set (mbu_seenGroups b) = groupIds b \<and>
     distinct (map uge_id (mbu_groups b)) \<and> (\<forall>g \<in> set (mbu_groups b). set (uge_modifier_options g) \<subseteq> itemIds b)"

text \<open>What a step may do: add items that refer to no group, and add groups.\<close>

definition extends :: "menu_build \<Rightarrow> menu_build \<Rightarrow> bool" where
  "extends b b' \<longleftrightarrow> set (mbu_items b) \<subseteq> set (mbu_items b') \<and> set (mbu_groups b) \<subseteq> set (mbu_groups b') \<and>
     (\<forall>i \<in> set (mbu_items b'). i \<in> set (mbu_items b) \<or> uie_modifier_group_ids i = [])"

lemma extends_refl: "extends b b"
  by (simp add: extends_def)

lemma extends_trans: "extends a b \<Longrightarrow> extends b c \<Longrightarrow> extends a c"
  unfolding extends_def by blast

lemma pushOption_ok:
  assumes "build_ok b"
  shows "build_ok (pushOption opt b) \<and> extends b (pushOption opt b) \<and> nop_internalModifierId opt \<in> itemIds (pushOption opt b)"
  using assms by (auto simp: pushOption_def build_ok_def extends_def)

lemma pushOptions_ok:
  "build_ok b \<Longrightarrow> build_ok (fold pushOption opts b) \<and> extends b (fold pushOption opts b) \<and>
   set (map nop_internalModifierId opts) \<subseteq> itemIds (fold pushOption opts b)"
proof (induction opts arbitrary: b)
  case (Cons opt opts)
  note one = pushOption_ok[OF Cons.prems, of opt]
  note rest = Cons.IH[OF one[THEN conjunct1]]
  have "nop_internalModifierId opt \<in> itemIds (fold pushOption opts (pushOption opt b))"
    using one rest unfolding extends_def by blast
  with one rest show ?case by (auto intro: extends_trans)
qed (simp add: extends_refl)

lemma pushGroup_ok:
  assumes "build_ok b"
  shows "build_ok (pushGroup g b) \<and> extends b (pushGroup g b) \<and> ngr_internalModifierGroupId g \<in> groupIds (pushGroup g b)"
proof -
  let ?b = "fold pushOption (ngr_modifiers g) b"
  note opts = pushOptions_ok[OF assms, of "ngr_modifiers g"]
  have "build_ok (pushGroup g b) \<and> extends ?b (pushGroup g b) \<and> ngr_internalModifierGroupId g \<in> groupIds (pushGroup g b)"
    using opts by (auto simp: pushGroup_def Let_def build_ok_def extends_def groupEntry_def)
  with opts show ?thesis by (auto intro: extends_trans)
qed

lemma pushGroups_ok:
  "build_ok b \<Longrightarrow> build_ok (fold pushGroup gs b) \<and> extends b (fold pushGroup gs b) \<and>
   set (map ngr_internalModifierGroupId gs) \<subseteq> groupIds (fold pushGroup gs b)"
proof (induction gs arbitrary: b)
  case (Cons g gs)
  note one = pushGroup_ok[OF Cons.prems, of g]
  note rest = Cons.IH[OF one[THEN conjunct1]]
  have "ngr_internalModifierGroupId g \<in> groupIds (fold pushGroup gs (pushGroup g b))"
    using one rest unfolding extends_def by blast
  with one rest show ?case by (auto intro: extends_trans)
qed (simp add: extends_refl)

definition refs_ok :: "menu_build \<Rightarrow> bool" where
  "refs_ok b \<longleftrightarrow> (\<forall>i \<in> set (mbu_items b). set (uie_modifier_group_ids i) \<subseteq> groupIds b)"

definition published :: "normalized_menu_item \<Rightarrow> menu_build \<Rightarrow> bool" where
  "published item b \<longleftrightarrow> (\<exists>e \<in> set (mbu_items b). uie_id e = nmi_internalItemId item \<and> uie_price e = nmi_price item \<and>
     uie_modifier_group_ids e = map ngr_internalModifierGroupId (nmi_modifierGroups item))"

lemma published_id: "published item b \<Longrightarrow> nmi_internalItemId item \<in> itemIds b"
  unfolding published_def by force

lemma pushItem_ok:
  assumes "build_ok b" and "refs_ok b"
  shows "build_ok (pushItem item b) \<and> refs_ok (pushItem item b) \<and> published item (pushItem item b) \<and>
    set (mbu_items b) \<subseteq> set (mbu_items (pushItem item b))"
proof -
  let ?e = "\<lparr>uie_id = nmi_internalItemId item, uie_title = nmi_name item,
    uie_description = or_null (nmi_description item), uie_price = nmi_price item,
    uie_modifier_group_ids = map ngr_internalModifierGroupId (nmi_modifierGroups item)\<rparr>"
  let ?b = "b\<lparr>mbu_items := mbu_items b @ [?e]\<rparr>"
  have "build_ok ?b" using assms(1) by (auto simp: build_ok_def)
  note gs = pushGroups_ok[OF this, of "nmi_modifierGroups item", folded pushItem_def]
  have "set (uie_modifier_group_ids i) \<subseteq> groupIds (pushItem item b)" if "i \<in> set (mbu_items (pushItem item b))" for i
  proof -
    from that gs consider "i \<in> set (mbu_items b)" | "i = ?e" | "uie_modifier_group_ids i = []"
      by (auto simp: extends_def)
    then show ?thesis
    proof cases
      case 1
      then have "set (uie_modifier_group_ids i) \<subseteq> groupIds b" using assms(2) by (simp add: refs_ok_def)
      moreover have "set (mbu_groups b) \<subseteq> set (mbu_groups (pushItem item b))" using gs by (simp add: extends_def)
      ultimately show ?thesis by blast
    qed (use gs in auto)
  qed
  then have "refs_ok (pushItem item b)" unfolding refs_ok_def by blast
  moreover have new: "?e \<in> set (mbu_items (pushItem item b))" "set (mbu_items b) \<subseteq> set (mbu_items (pushItem item b))"
    using gs unfolding extends_def by auto
  moreover have "published item (pushItem item b)"
    unfolding published_def by (rule bexI[OF _ new(1)]) simp
  ultimately show ?thesis using gs by blast
qed

lemma pushItems_ok:
  "build_ok b \<Longrightarrow> refs_ok b \<Longrightarrow> build_ok (fold pushItem items b) \<and> refs_ok (fold pushItem items b) \<and>
   (\<forall>item \<in> set items. published item (fold pushItem items b)) \<and> set (mbu_items b) \<subseteq> set (mbu_items (fold pushItem items b))"
proof (induction items arbitrary: b)
  case (Cons item items)
  note one = pushItem_ok[OF Cons.prems, of item]
  from one have "build_ok (pushItem item b)" "refs_ok (pushItem item b)" by auto
  note rest = Cons.IH[OF this]
  have "published item (fold pushItem items (pushItem item b))"
    using one rest unfolding published_def by blast
  with one rest show ?case by auto
qed simp

text \<open>
  The menu published to Uber Eats is closed: every entity of a category, every option of a group and
  every group of an item is defined in it, each group once, and every item of every category is there
  at its own price with its own groups.
\<close>

theorem uber_menu_closed:
  assumes "m = toUberMenu menu"
  shows "(\<forall>c \<in> set (uma_categories m). set (uce_entities c) \<subseteq> uie_id ` set (uma_items m)) \<and>
    (\<forall>i \<in> set (uma_items m). set (uie_modifier_group_ids i) \<subseteq> uge_id ` set (uma_modifier_groups m)) \<and>
    (\<forall>g \<in> set (uma_modifier_groups m). set (uge_modifier_options g) \<subseteq> uie_id ` set (uma_items m)) \<and>
    distinct (map uge_id (uma_modifier_groups m)) \<and>
    (\<forall>c \<in> set menu. \<forall>i \<in> set (nca_items c). \<exists>e \<in> set (uma_items m). uie_id e = nmi_internalItemId i \<and>
      uie_price e = nmi_price i \<and> uie_modifier_group_ids e = map ngr_internalModifierGroupId (nmi_modifierGroups i))"
proof -
  have fold_concat: "fold (\<lambda>cat. fold pushItem (nca_items cat)) cats b = fold pushItem (concat (map nca_items cats)) b" for cats b
    by (induction cats arbitrary: b) simp_all
  let ?b0 = "\<lparr>mbu_items = [], mbu_groups = [], mbu_seenGroups = [], mbu_seenOptions = []\<rparr>"
  obtain b where b: "fold pushItem (concat (map nca_items menu)) ?b0 = b" by blast
  have ok: "build_ok b \<and> refs_ok b \<and> (\<forall>c \<in> set menu. \<forall>i \<in> set (nca_items c). published i b)"
    using pushItems_ok[of ?b0 "concat (map nca_items menu)"] by (auto simp: b build_ok_def refs_ok_def)
  have m: "uma_categories m = map categoryEntry menu" "uma_items m = mbu_items b" "uma_modifier_groups m = mbu_groups b"
    by (simp_all add: assms toUberMenu_def Let_def fold_concat b)
  have "\<forall>c \<in> set (uma_categories m). set (uce_entities c) \<subseteq> uie_id ` set (uma_items m)"
    using ok published_id by (force simp: m categoryEntry_def)
  with ok show ?thesis
    unfolding m by (simp add: build_ok_def refs_ok_def published_def)
qed

end
