(* ===== verification/Marketplace.thy ===== *)
theory Marketplace
  imports Marketplace_Feeds Orders_Service
begin

text \<open>
  Marketplace orders, from the webhook to the order (\<open>aggregator/\<close>): the receivers
  (\<open>webhooks/aggregator-webhook.controller.ts\<close>, \<open>webhooks/ubereats-webhook.controller.ts\<close>), the shared
  ingestion (\<open>webhooks/aggregator-webhook-ingest.service.ts\<close>), the queue and its processor
  (\<open>queues/aggregator-webhook.processor.ts\<close>, the attempts of \<open>queues/queues.module.ts\<close>), the import
  (\<open>core/services/order-normalization.service.ts\<close>), the tables behind them
  (\<open>database/aggregator.repository.ts\<close>) and what the dashboard does to accounts and orders
  (\<open>aggregator.service.ts\<close>). The state is the platform's world with the tables of the integration, the
  waiting jobs and the calls made to marketplaces. The marketplaces themselves, the HMAC of Uber Eats
  and the encryption of credentials are parameters.

  Shown here: an order is imported once however often and in whatever state it is delivered again; an
  event becomes at most one job, and one whose job was given up never becomes another; what a status
  event may change; and the events that are lost.
\<close>

section \<open>Tables, jobs and calls\<close>

record provider_row =
  prv_id :: uuid
  prv_name :: string

record integration_account_row =
  ia_id :: uuid
  ia_organizationId :: uuid
  ia_locationId :: "uuid option"
  ia_providerId :: uuid
  ia_credentials :: "string option"
  ia_providerStoreId :: "string option"
  ia_status :: string
  ia_isOnline :: bool
  ia_autoAcceptOrders :: bool

record external_order_row =
  er_id :: uuid
  er_organizationId :: uuid
  er_locationId :: "uuid option"
  er_providerId :: uuid
  er_integrationAccountId :: "uuid option"
  er_internalOrderId :: "uuid option"
  er_externalOrderId :: string
  er_externalStatus :: "string option"
  er_syncStatus :: string
  er_error :: "string option"

record mapping_row =
  mp_integrationAccountId :: uuid
  mp_coneekoMenuItemId :: uuid
  mp_externalMenuItemId :: "string option"
  mp_mappingStatus :: string

record order_source_row =
  osr_id :: uuid
  osr_name :: string

record webhook_event_row =
  we_eventId :: string
  we_provider :: string
  we_status :: string
  we_eventType :: event_type
  we_processedAt :: "int option"

record webhook_delivery_row =
  wd_webhookEventId :: string
  wd_errorMessage :: "string option"
  wd_processedAt :: "int option"

datatype webhook_payload = KitchenHubBody kh_body | UberBody uber_body

record webhook_input =
  wi_provider :: string
  wi_providerId :: uuid
  wi_integrationAccountId :: uuid
  wi_organizationId :: uuid
  wi_locationId :: "uuid option"
  wi_eventId :: string
  wi_eventType :: event_type
  wi_externalOrderId :: "string option"
  wi_resourceHref :: "string option"
  wi_rawPayload :: webhook_payload

text \<open>A waiting job is the input it was queued with and the attempts made at it.\<close>

record aggregator_job = webhook_input +
  aj_attemptsMade :: nat

datatype market_call = AcceptCall uuid string "string option" | CancelCall uuid string "string option"

record market_world =
  mw_world :: world
  mw_providers :: "provider_row list"
  mw_accounts :: "integration_account_row list"
  mw_external :: "external_order_row list"
  mw_mappings :: "mapping_row list"
  mw_sources :: "order_source_row list"
  mw_events :: "webhook_event_row list"
  mw_deliveries :: "webhook_delivery_row list"
  mw_queue :: "aggregator_job list"
  mw_calls :: "market_call list"

type_synonym 'a market = "(market_world, 'a) program"

record credentials =
  crd_webhookSecret :: "string option"
  crd_clientSecret :: "string option"

text \<open>The marketplaces by account and order, at a time; HMAC-SHA256 in hex; the encryption at rest.\<close>

record market_env =
  men_getOrder :: "string \<Rightarrow> uuid \<Rightarrow> string \<Rightarrow> int \<Rightarrow> error + normalized_order option"
  men_acceptOrder :: "string \<Rightarrow> uuid \<Rightarrow> string \<Rightarrow> int \<Rightarrow> error + unit"
  men_cancelOrder :: "string \<Rightarrow> uuid \<Rightarrow> string \<Rightarrow> int \<Rightarrow> error + unit"
  men_hmac :: "string \<Rightarrow> string \<Rightarrow> string"
  men_decrypt :: "string \<Rightarrow> credentials"

definition platformM :: "'a handler \<Rightarrow> 'a market" where
  "platformM m s = (case m (mw_world s) of (r, w) \<Rightarrow> (r, s\<lparr>mw_world := w\<rparr>))"

definition nowM :: "int market" where
  "nowM = getsM (\<lambda>s. w_now (mw_world s))"

lemma platformM_run [prog]: "m (mw_world s) = (r, w) \<Longrightarrow> platformM m s = (r, s\<lparr>mw_world := w\<rparr>)"
  by (simp add: platformM_def)

lemma nowM_simps [prog, simp]: "nowM s = (Inr (w_now (mw_world s)), s)" "bindM nowM f s = f (w_now (mw_world s)) s"
  by (simp_all add: nowM_def)

section \<open>The repository\<close>

definition findProviderByName :: "string \<Rightarrow> market_world \<Rightarrow> provider_row option" where
  "findProviderByName name s = first_row (\<lambda>p. prv_name p = name) (mw_providers s)"

definition findProviderNameById :: "uuid \<Rightarrow> market_world \<Rightarrow> string option" where
  "findProviderNameById providerId s = map_option prv_name (first_row (\<lambda>p. prv_id p = providerId) (mw_providers s))"

definition findIntegrationAccountById :: "uuid \<Rightarrow> market_world \<Rightarrow> integration_account_row option" where
  "findIntegrationAccountById i s = first_row (\<lambda>a. ia_id a = i) (mw_accounts s)"

definition findIntegrationAccountByProviderStoreId ::
  "uuid \<Rightarrow> string \<Rightarrow> market_world \<Rightarrow> integration_account_row option" where
  "findIntegrationAccountByProviderStoreId providerId storeId s =
     first_row (\<lambda>a. ia_providerId a = providerId \<and> ia_providerStoreId a = Some storeId) (mw_accounts s)"

definition setIntegrationAccountStatus ::
  "uuid \<Rightarrow> (integration_account_row \<Rightarrow> integration_account_row) \<Rightarrow> unit market" where
  "setIntegrationAccountStatus i values = modifyM (\<lambda>s. s\<lparr>mw_accounts := update_where (\<lambda>a. ia_id a = i) values (mw_accounts s)\<rparr>)"

text \<open>Disconnecting: the mappings of the account go, its orders keep no account.\<close>

definition deleteAccountRow :: "uuid \<Rightarrow> unit market" where
  "deleteAccountRow i = modifyM (\<lambda>s. s\<lparr>mw_accounts := filter (\<lambda>a. ia_id a \<noteq> i) (mw_accounts s),
     mw_mappings := filter (\<lambda>m. mp_integrationAccountId m \<noteq> i) (mw_mappings s),
     mw_external := update_where (\<lambda>r. er_integrationAccountId r = Some i)
       (\<lambda>r. r\<lparr>er_integrationAccountId := None\<rparr>) (mw_external s)\<rparr>)"

definition findOrderSourceId :: "string \<Rightarrow> market_world \<Rightarrow> uuid option" where
  "findOrderSourceId name s = map_option osr_id (first_row (\<lambda>r. osr_name r = name) (mw_sources s))"

definition findExternalOrderByProviderExternalId :: "uuid \<Rightarrow> string \<Rightarrow> market_world \<Rightarrow> external_order_row option" where
  "findExternalOrderByProviderExternalId providerId ext s =
     first_row (\<lambda>r. er_providerId r = providerId \<and> er_externalOrderId r = ext) (mw_external s)"

definition findExternalOrderByInternalId :: "uuid \<Rightarrow> market_world \<Rightarrow> external_order_row option" where
  "findExternalOrderByInternalId oid s = first_row (\<lambda>r. er_internalOrderId r = Some oid) (mw_external s)"

record import_context =
  ctx_providerId :: uuid
  ctx_providerName :: string
  ctx_integrationAccountId :: uuid
  ctx_organizationId :: uuid
  ctx_locationId :: "uuid option"

text \<open>Insert unless the provider's order is there already; the row it has then.\<close>

definition upsertExternalOrder :: "normalized_order \<Rightarrow> import_context \<Rightarrow> external_order_row market" where
  "upsertExternalOrder n ctx =
     bindM (getsM (findExternalOrderByProviderExternalId (ctx_providerId ctx) (nor_externalOrderId n))) (\<lambda>existing.
     case existing of Some r \<Rightarrow> returnM r
     | None \<Rightarrow> bindM (platformM freshId) (\<lambda>i.
         let r = \<lparr>er_id = i, er_organizationId = ctx_organizationId ctx, er_locationId = ctx_locationId ctx,
               er_providerId = ctx_providerId ctx, er_integrationAccountId = Some (ctx_integrationAccountId ctx),
               er_internalOrderId = None, er_externalOrderId = nor_externalOrderId n,
               er_externalStatus = Some (nor_externalStatus n), er_syncStatus = ''pending'', er_error = None\<rparr>
         in thenM (modifyM (\<lambda>s. s\<lparr>mw_external := mw_external s @ [r]\<rparr>)) (returnM r)))"

definition markExternalOrderImported :: "uuid \<Rightarrow> uuid \<Rightarrow> unit market" where
  "markExternalOrderImported i internalOrderId = modifyM (\<lambda>s. s\<lparr>mw_external := update_where (\<lambda>r. er_id r = i)
     (\<lambda>r. r\<lparr>er_internalOrderId := Some internalOrderId, er_syncStatus := ''imported'', er_error := None\<rparr>) (mw_external s)\<rparr>)"

definition markExternalOrderFailed :: "uuid \<Rightarrow> string \<Rightarrow> unit market" where
  "markExternalOrderFailed i e = modifyM (\<lambda>s. s\<lparr>mw_external := update_where (\<lambda>r. er_id r = i)
     (\<lambda>r. r\<lparr>er_syncStatus := ''failed'', er_error := Some (take 1000 e)\<rparr>) (mw_external s)\<rparr>)"

definition resolveMenuItemIds :: "uuid \<Rightarrow> string list \<Rightarrow> market_world \<Rightarrow> (string \<rightharpoonup> uuid)" where
  "resolveMenuItemIds account ids s = js_map (map (\<lambda>m. (the (mp_externalMenuItemId m), mp_coneekoMenuItemId m))
     (filter (\<lambda>m. mp_integrationAccountId m = account \<and> truthy (mp_externalMenuItemId m) \<and>
        the (mp_externalMenuItemId m) \<in> set ids) (mw_mappings s)))"

definition recordWebhookDelivery :: "string \<Rightarrow> string option \<Rightarrow> int option \<Rightarrow> unit market" where
  "recordWebhookDelivery e message processedAt = modifyM (\<lambda>s. s\<lparr>mw_deliveries := mw_deliveries s @
     [\<lparr>wd_webhookEventId = e, wd_errorMessage = message, wd_processedAt = processedAt\<rparr>]\<rparr>)"

section \<open>Ingestion\<close>

text \<open>Releasing a reservation deletes the deliveries recorded for it, by the foreign key.\<close>

definition releaseEvent :: "string \<Rightarrow> unit market" where
  "releaseEvent e = modifyM (\<lambda>s. s\<lparr>mw_events := filter (\<lambda>r. we_eventId r \<noteq> e) (mw_events s),
     mw_deliveries := filter (\<lambda>d. wd_webhookEventId d \<noteq> e) (mw_deliveries s)\<rparr>)"

definition eventIds :: "market_world \<Rightarrow> string set" where
  "eventIds s = we_eventId ` set (mw_events s)"

definition knownEvent :: "string \<Rightarrow> market_world \<Rightarrow> bool" where
  "knownEvent e s \<longleftrightarrow> e \<in> eventIds s"

definition ingest :: "webhook_input \<Rightarrow> bool market" where
  "ingest inp =
     bindM (getsM (knownEvent (wi_eventId inp))) (\<lambda>known. bindM nowM (\<lambda>now.
     if known
     then thenM (recordWebhookDelivery (wi_eventId inp) (Some ''duplicate'') (Some now)) (returnM True)
     else
       thenM (modifyM (\<lambda>s. s\<lparr>mw_events := mw_events s @ [\<lparr>we_eventId = wi_eventId inp, we_provider = wi_provider inp,
                we_status = ''pending'', we_eventType = wi_eventType inp, we_processedAt = None\<rparr>]\<rparr>))
      (thenM (recordWebhookDelivery (wi_eventId inp) None None)
      (bindM (getsM (\<lambda>s. w_queueUp (mw_world s))) (\<lambda>up.
         if up
         then thenM (modifyM (\<lambda>s. s\<lparr>mw_queue := mw_queue s @ [webhook_input.extend inp \<lparr>aj_attemptsMade = 0\<rparr>]\<rparr>)) (returnM False)
         else thenM (releaseEvent (wi_eventId inp)) (throwM (GenericError ''Failed to enqueue'')))))))"

section \<open>Receiving\<close>

text \<open>\<open>provided.replace(/^Bearer\s+/i, '').trim()\<close>\<close>

definition bearerless :: "string \<Rightarrow> string" where
  "bearerless provided = js_trim
     (if js_lower (take 6 provided) = ''bearer'' \<and> drop 6 provided \<noteq> [] \<and> js_space (hd (drop 6 provided))
      then dropWhile js_space (drop 6 provided) else provided)"

definition khValidateWebhook :: "(string \<rightharpoonup> string) \<Rightarrow> credentials \<Rightarrow> bool" where
  "khValidateWebhook headers creds =
     (let secret = nvl (crd_webhookSecret creds) [];
          provided = nvl (coalesce (headers ''authorization'') (coalesce (headers ''Authorization'')
            (coalesce (headers ''x-kitchenhub-signature'') (headers ''x-webhook-secret'')))) []
      in secret \<noteq> [] \<and> bearerless provided = secret)"

definition uberValidateWebhook :: "market_env \<Rightarrow> string \<Rightarrow> (string \<rightharpoonup> string) \<Rightarrow> credentials \<Rightarrow> bool" where
  "uberValidateWebhook env rawBody headers creds =
     (let clientSecret = nvl (crd_clientSecret creds) [];
          provided = nvl (coalesce (headers ''x-uber-signature'') (headers ''X-Uber-Signature'')) []
      in clientSecret \<noteq> [] \<and> provided \<noteq> [] \<and> js_lower provided = men_hmac env clientSecret rawBody)"

definition validateWebhook :: "market_env \<Rightarrow> webhook_payload \<Rightarrow> string \<Rightarrow> (string \<rightharpoonup> string) \<Rightarrow> credentials \<Rightarrow> bool" where
  "validateWebhook env body rawBody headers creds = (case body of
       KitchenHubBody _ \<Rightarrow> khValidateWebhook headers creds
     | UberBody _ \<Rightarrow> uberValidateWebhook env rawBody headers creds)"

definition parseEvent :: "webhook_payload \<Rightarrow> webhook_event" where
  "parseEvent body = (case body of KitchenHubBody b \<Rightarrow> khParseWebhook b | UberBody b \<Rightarrow> uberParseWebhook b)"

text \<open>The provider a body is read by: the receiver picks the adapter by name and hands it the body.\<close>

definition providerOf :: "webhook_payload \<Rightarrow> string" where
  "providerOf body = (case body of KitchenHubBody _ \<Rightarrow> ''kitchenhub'' | UberBody _ \<Rightarrow> ''ubereats'')"

definition credentialsOf :: "market_env \<Rightarrow> integration_account_row \<Rightarrow> credentials" where
  "credentialsOf env account = (if truthy (ia_credentials account) then men_decrypt env (the (ia_credentials account))
     else \<lparr>crd_webhookSecret = None, crd_clientSecret = None\<rparr>)"

text \<open>\<open>`${provider}:${event.externalEventId || randomUUID()}`\<close>\<close>

definition eventIdFor :: "string \<Rightarrow> string \<Rightarrow> string market" where
  "eventIdFor provider externalEventId =
     (if externalEventId \<noteq> [] then returnM (provider @ '':'' @ externalEventId)
      else bindM (platformM freshId) (\<lambda>i. returnM (provider @ '':'' @ i)))"

definition ingestFor ::
  "integration_account_row \<Rightarrow> webhook_payload \<Rightarrow> string option \<Rightarrow> string option \<Rightarrow> bool market" where
  "ingestFor account body externalOrderId resourceHref =
     (let event = parseEvent body; provider = providerOf body in
      bindM (eventIdFor provider (wev_externalEventId event)) (\<lambda>eventId.
      ingest \<lparr>wi_provider = provider, wi_providerId = ia_providerId account, wi_integrationAccountId = ia_id account,
        wi_organizationId = ia_organizationId account, wi_locationId = ia_locationId account, wi_eventId = eventId,
        wi_eventType = wev_eventType event, wi_externalOrderId = externalOrderId, wi_resourceHref = resourceHref,
        wi_rawPayload = body\<rparr>))"

text \<open>The receiver whose URL names the account.\<close>

definition handleWebhook :: "market_env \<Rightarrow> uuid \<Rightarrow> webhook_payload \<Rightarrow> string \<Rightarrow> (string \<rightharpoonup> string) \<Rightarrow> bool market" where
  "handleWebhook env accountId body rawBody headers =
     bindM (getsM (findIntegrationAccountById accountId)) (\<lambda>found.
     bindM (getsM (findProviderByName (providerOf body))) (\<lambda>providerRow.
     thenM (throw_if (found = None \<or> providerRow = None \<or> map_option ia_providerId found \<noteq> map_option prv_id providerRow)
              (UnauthorizedException ''Unknown integration account.''))
    (let account = the found in
     thenM (throw_if (\<not> validateWebhook env body rawBody headers (credentialsOf env account))
              (UnauthorizedException ''Invalid webhook signature.''))
       (ingestFor account body (wev_externalOrderId (parseEvent body)) None))))"

text \<open>The one URL of Uber Eats: the store id in the body names the account.\<close>

definition handleUberWebhook :: "market_env \<Rightarrow> uber_body \<Rightarrow> string \<Rightarrow> (string \<rightharpoonup> string) \<Rightarrow> unit market" where
  "handleUberWebhook env body rawBody headers =
     (if \<not> truthy (webhookStoreId body) then returnM ()
      else
        bindM (getsM (findProviderByName ''ubereats'')) (\<lambda>p.
        bindM (orThrow p (UnauthorizedException ''Provider not configured.'')) (\<lambda>providerRow.
        bindM (getsM (findIntegrationAccountByProviderStoreId (prv_id providerRow) (the (webhookStoreId body)))) (\<lambda>found.
        bindM (orThrow found (UnauthorizedException (''No integration account for Uber store '' @ the (webhookStoreId body) @ ''.''))) (\<lambda>account.
        thenM (throw_if (\<not> uberValidateWebhook env rawBody headers (credentialsOf env account))
                 (UnauthorizedException ''Invalid webhook signature.''))
       (bindM (ingestFor account (UberBody body)
                 (coalesce (wev_externalOrderId (uberParseWebhook body)) (webhookOrderId body)) (ubo_resource_href body))
          (\<lambda>_. returnM ())))))))"

section \<open>Importing an order\<close>

record import_result =
  im_externalOrderRowId :: uuid
  im_internalOrderId :: "uuid option"
  im_imported :: bool

definition importedItem :: "(string \<rightharpoonup> uuid) \<Rightarrow> normalized_item \<Rightarrow> market_item" where
  "importedItem itemMap item = \<lparr>ki_menuItemId = the (itemMap (nit_externalItemId item)),
     ki_quantity = nit_quantity item, ki_price = nit_price item,
     ki_modifiers = (case nit_modifiers item of None \<Rightarrow> None | Some ms \<Rightarrow> if ms = [] then None
       else Some (JList (map (\<lambda>m. JObj [(''modifier'', JStr (nmo_name m)), (''option'', JStr (nmo_name m)),
              (''priceAdjustment'', JInt (nmo_priceAdjustment m))]) ms))),
     ki_notes = nit_specialInstructions item\<rparr>"

definition importKey :: "import_context \<Rightarrow> normalized_order \<Rightarrow> string" where
  "importKey ctx n = ctx_providerName ctx @ '':'' @ nor_externalOrderId n"

definition marketOrder :: "normalized_order \<Rightarrow> import_context \<Rightarrow> (string \<rightharpoonup> uuid) \<Rightarrow> uuid option \<Rightarrow> market_order" where
  "marketOrder n ctx itemMap sourceId = \<lparr>mo_locationId = ctx_locationId ctx,
     mo_source = nvl (nor_sourceChannel n) (ctx_providerName ctx), mo_sourceId = sourceId,
     mo_integrationAccountId = ctx_integrationAccountId ctx, mo_externalOrderId = nor_externalOrderId n,
     mo_clientOrderId = importKey ctx n,
     mo_customerName = nvl (nor_customerName n) ''Marketplace Customer'', mo_customerPhone = nvl (nor_customerPhone n) [],
     mo_orderType = nor_orderType n, mo_specialInstructions = nor_specialInstructions n,
     mo_subtotal = nor_subtotal n, mo_taxAmount = nor_taxAmount n, mo_tipAmount = nor_tipAmount n,
     mo_totalAmount = nor_totalAmount n, mo_items = map (importedItem itemMap) (nor_items n)\<rparr>"

fun joinCommas :: "string list \<Rightarrow> string" where
  "joinCommas [] = []"
| "joinCommas [x] = x"
| "joinCommas (x # xs) = x @ '', '' @ joinCommas xs"

definition importNew :: "normalized_order \<Rightarrow> import_context \<Rightarrow> uuid \<Rightarrow> import_result market" where
  "importNew n ctx rowId =
     (let externalItemIds = map nit_externalItemId (nor_items n) in
      bindM (getsM (resolveMenuItemIds (ctx_integrationAccountId ctx) externalItemIds)) (\<lambda>itemMap.
      let unmapped = filter (\<lambda>i. itemMap i = None) externalItemIds in
      thenM (throw_if (unmapped \<noteq> [])
               (GenericError (''['' @ ctx_providerName ctx @ ''] Order '' @ nor_externalOrderId n @
                  '': Unmapped menu items (sync the menu to the provider first): '' @ joinCommas unmapped)))
     (bindM (getsM (findOrderSourceId (nvl (nor_sourceChannel n) (ctx_providerName ctx)))) (\<lambda>sourceId.
      bindM (platformM (createMarketplaceOrder (ctx_organizationId ctx) (marketOrder n ctx itemMap sourceId))) (\<lambda>order.
      thenM (markExternalOrderImported rowId (ord_id (fo_order order)))
        (returnM \<lparr>im_externalOrderRowId = rowId, im_internalOrderId = Some (ord_id (fo_order order)), im_imported = True\<rparr>))))))"

definition importOrder :: "normalized_order \<Rightarrow> import_context \<Rightarrow> import_result market" where
  "importOrder n ctx =
     bindM (upsertExternalOrder n ctx) (\<lambda>external.
     case er_internalOrderId external of
       Some i \<Rightarrow> returnM \<lparr>im_externalOrderRowId = er_id external, im_internalOrderId = Some i, im_imported = False\<rparr>
     | None \<Rightarrow> catchM (importNew n ctx (er_id external))
         (\<lambda>err. thenM (markExternalOrderFailed (er_id external) (exceptionText err)) (throwM err)))"

section \<open>Processing a job\<close>

text \<open>What the processor answers with; nothing depends on it but the log.\<close>

datatype job_result = NotHandled | NotImported | Imported import_result bool | StatusLeft | StatusSet order_status
  | StoreSet

definition orderFromWebhook :: "webhook_payload \<Rightarrow> normalized_order option" where
  "orderFromWebhook body = (case body of KitchenHubBody b \<Rightarrow> khOrderFromWebhook b | UberBody _ \<Rightarrow> None)"

definition fetchOrder :: "market_env \<Rightarrow> webhook_input \<Rightarrow> string \<Rightarrow> normalized_order option market" where
  "fetchOrder env data ref =
     bindM nowM (\<lambda>now. liftE (men_getOrder env (wi_provider data) (wi_integrationAccountId data) ref now))"

definition acceptOnMarket :: "market_env \<Rightarrow> string \<Rightarrow> uuid \<Rightarrow> string \<Rightarrow> string option \<Rightarrow> unit market" where
  "acceptOnMarket env provider account ext reference =
     bindM nowM (\<lambda>now.
     thenM (modifyM (\<lambda>s. s\<lparr>mw_calls := mw_calls s @ [AcceptCall account ext reference]\<rparr>))
       (liftE (men_acceptOrder env provider account ext now)))"

definition cancelOnMarket :: "market_env \<Rightarrow> string \<Rightarrow> uuid \<Rightarrow> string \<Rightarrow> string option \<Rightarrow> unit market" where
  "cancelOnMarket env provider account ext reason =
     bindM nowM (\<lambda>now.
     thenM (modifyM (\<lambda>s. s\<lparr>mw_calls := mw_calls s @ [CancelCall account ext reason]\<rparr>))
       (liftE (men_cancelOrder env provider account ext now)))"

definition contextOf :: "webhook_input \<Rightarrow> import_context" where
  "contextOf data = \<lparr>ctx_providerId = wi_providerId data, ctx_providerName = wi_provider data,
     ctx_integrationAccountId = wi_integrationAccountId data, ctx_organizationId = wi_organizationId data,
     ctx_locationId = wi_locationId data\<rparr>"

text \<open>The order of an event: embedded, or fetched by its link or id.\<close>

definition resolvedOrder :: "market_env \<Rightarrow> webhook_input \<Rightarrow> normalized_order option market" where
  "resolvedOrder env data =
     (case orderFromWebhook (wi_rawPayload data) of
        Some n \<Rightarrow> returnM (Some n)
      | None \<Rightarrow>
          if truthy (wi_resourceHref data) \<or> truthy (wi_externalOrderId data)
          then fetchOrder env data (the (coalesce (wi_resourceHref data) (wi_externalOrderId data)))
          else returnM None)"

definition handleOrderCreated :: "market_env \<Rightarrow> webhook_input \<Rightarrow> job_result market" where
  "handleOrderCreated env data =
     bindM (resolvedOrder env data) (\<lambda>normalized. case normalized of
       None \<Rightarrow> returnM NotImported
     | Some n \<Rightarrow>
         bindM (importOrder n (contextOf data)) (\<lambda>result.
         bindM (getsM (findIntegrationAccountById (wi_integrationAccountId data))) (\<lambda>account.
         if map_option ia_autoAcceptOrders account = Some False then returnM (Imported result False)
         else catchM (thenM (acceptOnMarket env (wi_provider data) (wi_integrationAccountId data)
                         (nor_externalOrderId n) (im_internalOrderId result)) (returnM (Imported result True)))
                (\<lambda>_. returnM (Imported result False)))))"

definition metaStatus :: "webhook_payload \<Rightarrow> string" where
  "metaStatus body = (case body of KitchenHubBody _ \<Rightarrow> [] | UberBody b \<Rightarrow>
     js_upper (nvl (case ubo_meta b of None \<Rightarrow> None | Some m \<Rightarrow> ume_status m) []))"

definition handleStoreLifecycle :: "webhook_input \<Rightarrow> job_result market" where
  "handleStoreLifecycle data =
     (let i = wi_integrationAccountId data in
      case wi_eventType data of
        StoreProvisioned \<Rightarrow> thenM (setIntegrationAccountStatus i (\<lambda>a. a\<lparr>ia_status := ''connected''\<rparr>)) (returnM StoreSet)
      | StoreDeprovisioned \<Rightarrow> thenM (setIntegrationAccountStatus i
            (\<lambda>a. a\<lparr>ia_status := ''disabled'', ia_isOnline := False\<rparr>)) (returnM StoreSet)
      | StoreStatus \<Rightarrow> thenM (setIntegrationAccountStatus i
            (\<lambda>a. a\<lparr>ia_isOnline := (metaStatus (wi_rawPayload data) = ''ONLINE'')\<rparr>)) (returnM StoreSet)
      | _ \<Rightarrow> returnM NotHandled)"

definition targetStatus :: "market_env \<Rightarrow> webhook_input \<Rightarrow> order_status option market" where
  "targetStatus env data =
     (case orderFromWebhook (wi_rawPayload data) of
        Some n \<Rightarrow> returnM (Some (mapExternalStatus (nor_externalStatus n)))
      | None \<Rightarrow>
          (case coalesce (wi_resourceHref data) (wi_externalOrderId data) of
             None \<Rightarrow> returnM None
           | Some ref \<Rightarrow> if ref = [] then returnM None
               else bindM (fetchOrder env data ref) (\<lambda>fetched.
                 returnM (map_option (\<lambda>n. mapExternalStatus (nor_externalStatus n)) fetched))))"

definition orderStatusOf :: "uuid \<Rightarrow> market_world \<Rightarrow> order_status option" where
  "orderStatusOf i s = map_option ord_status (first_row (\<lambda>r. ord_id r = i) (t_orders (w_db (mw_world s))))"

definition handleStatusChange :: "market_env \<Rightarrow> webhook_input \<Rightarrow> job_result market" where
  "handleStatusChange env data =
     (if \<not> truthy (wi_externalOrderId data) then returnM StatusLeft
      else
        bindM (getsM (findExternalOrderByProviderExternalId (wi_providerId data) (the (wi_externalOrderId data)))) (\<lambda>external.
        case map_option er_internalOrderId external of
          Some (Some i) \<Rightarrow>
            bindM (getsM (orderStatusOf i)) (\<lambda>status. case status of
              None \<Rightarrow> returnM StatusLeft
            | Some current \<Rightarrow>
                bindM (if wi_eventType data = OrderCanceled then returnM (Some Cancelled) else targetStatus env data) (\<lambda>target'.
                case target' of
                  None \<Rightarrow> returnM StatusLeft
                | Some target \<Rightarrow>
                    if current = target \<or> \<not> canTransitionOrderStatus current target then returnM StatusLeft
                    else thenM (platformM (updateStatusForAggregator (wi_organizationId data) i target))
                           (returnM (StatusSet target))))
        | _ \<Rightarrow> returnM StatusLeft))"

definition setEventStatus :: "string \<Rightarrow> (webhook_event_row \<Rightarrow> webhook_event_row) \<Rightarrow> unit market" where
  "setEventStatus e f = modifyM (\<lambda>s. s\<lparr>mw_events := update_where (\<lambda>r. we_eventId r = e) f (mw_events s)\<rparr>)"

definition handleJob :: "market_env \<Rightarrow> webhook_input \<Rightarrow> job_result market" where
  "handleJob env data =
     (case wi_eventType data of
        OrderCreated \<Rightarrow> handleOrderCreated env data
      | OrderUpdated \<Rightarrow> handleStatusChange env data
      | OrderCanceled \<Rightarrow> handleStatusChange env data
      | StoreProvisioned \<Rightarrow> handleStoreLifecycle data
      | StoreDeprovisioned \<Rightarrow> handleStoreLifecycle data
      | StoreStatus \<Rightarrow> handleStoreLifecycle data
      | _ \<Rightarrow> returnM NotHandled)"

definition process :: "market_env \<Rightarrow> webhook_input \<Rightarrow> job_result market" where
  "process env data =
     catchM (bindM (handleJob env data) (\<lambda>result. bindM nowM (\<lambda>now.
        thenM (setEventStatus (wi_eventId data) (\<lambda>r. r\<lparr>we_status := ''completed'', we_processedAt := Some now\<rparr>))
          (returnM result))))
       (\<lambda>err. thenM (setEventStatus (wi_eventId data) (\<lambda>r. r\<lparr>we_status := ''failed''\<rparr>)) (throwM err))"

text \<open>
  A worker takes the \<open>n\<close>th waiting job: a job that returns leaves the queue, one that throws is tried
  again until its third attempt.
\<close>

definition workJob :: "market_env \<Rightarrow> nat \<Rightarrow> market_world \<Rightarrow> market_world" where
  "workJob env n s =
     (if n < length (mw_queue s)
      then let job = mw_queue s ! n;
               rest = take n (mw_queue s) @ drop (Suc n) (mw_queue s)
           in (case process env (webhook_input.truncate job) (s\<lparr>mw_queue := rest\<rparr>) of
                 (Inr _, s') \<Rightarrow> s'
               | (Inl _, s') \<Rightarrow> if Suc (aj_attemptsMade job) < ATTEMPTS
                   then s'\<lparr>mw_queue := mw_queue s' @ [job\<lparr>aj_attemptsMade := Suc (aj_attemptsMade job)\<rparr>]\<rparr>
                   else s')
      else s)"

section \<open>What the dashboard does\<close>

definition assertOwnLocation :: "uuid \<Rightarrow> uuid \<Rightarrow> unit market" where
  "assertOwnLocation orgId locationId =
     bindM (getsM (\<lambda>s. list_ex (\<lambda>l. loc_id l = locationId \<and> loc_organizationId l = orgId) (t_locations (w_db (mw_world s))))) (\<lambda>ok.
       throw_if (\<not> ok) (BadRequestException ''Unknown location for this organization.''))"

record account_dto =
  acd_providerName :: string
  acd_locationId :: "uuid option"
  acd_credentials :: string
  acd_providerStoreId :: "string option"
  acd_autoAcceptOrders :: "bool option"

text \<open>The credentials come encrypted; the answer leaves them out, so it is the account's id here.\<close>

definition createIntegrationAccount :: "uuid \<Rightarrow> account_dto \<Rightarrow> uuid market" where
  "createIntegrationAccount orgId dto =
     bindM (getsM (findProviderByName (acd_providerName dto))) (\<lambda>p.
     bindM (orThrow p (BadRequestException (''Unknown provider: '' @ acd_providerName dto))) (\<lambda>provider.
     thenM (if truthy (acd_locationId dto) then assertOwnLocation orgId (the (acd_locationId dto)) else returnM ())
    (bindM (platformM freshId) (\<lambda>i.
     thenM (modifyM (\<lambda>s. s\<lparr>mw_accounts := mw_accounts s @ [\<lparr>ia_id = i, ia_organizationId = orgId,
        ia_locationId = acd_locationId dto, ia_providerId = prv_id provider, ia_credentials = Some (acd_credentials dto),
        ia_providerStoreId = acd_providerStoreId dto, ia_status = ''waiting'', ia_isOnline = False,
        ia_autoAcceptOrders = nvl (acd_autoAcceptOrders dto) True\<rparr>]\<rparr>))
       (returnM i)))))"

definition ownAccount :: "uuid \<Rightarrow> uuid \<Rightarrow> integration_account_row market" where
  "ownAccount orgId accountId =
     bindM (getsM (findIntegrationAccountById accountId)) (\<lambda>found.
     bindM (orThrow found (NotFoundException ''Integration account not found.'')) (\<lambda>account.
     thenM (throw_if (ia_organizationId account \<noteq> orgId) (NotFoundException ''Integration account not found.''))
       (returnM account)))"

record account_update_dto =
  aud_locationId :: "uuid option"
  aud_autoAcceptOrders :: "bool option"
  aud_providerStoreId :: "string option"
  aud_credentials :: "string option"

definition updateIntegrationAccount :: "uuid \<Rightarrow> uuid \<Rightarrow> account_update_dto \<Rightarrow> unit market" where
  "updateIntegrationAccount orgId accountId dto =
     bindM (ownAccount orgId accountId) (\<lambda>_.
     thenM (case aud_locationId dto of None \<Rightarrow> returnM () | Some l \<Rightarrow> assertOwnLocation orgId l)
       (setIntegrationAccountStatus accountId (\<lambda>a. a\<lparr>
          ia_locationId := coalesce (aud_locationId dto) (ia_locationId a),
          ia_autoAcceptOrders := nvl (aud_autoAcceptOrders dto) (ia_autoAcceptOrders a),
          ia_providerStoreId := coalesce (aud_providerStoreId dto) (ia_providerStoreId a),
          ia_credentials := coalesce (aud_credentials dto) (ia_credentials a)\<rparr>)))"

definition deleteIntegrationAccount :: "uuid \<Rightarrow> uuid \<Rightarrow> unit market" where
  "deleteIntegrationAccount orgId accountId = bindM (ownAccount orgId accountId) (\<lambda>_. deleteAccountRow accountId)"

definition resolveOrder :: "uuid \<Rightarrow> uuid \<Rightarrow> (external_order_row \<times> string) market" where
  "resolveOrder orgId oid =
     bindM (getsM (findExternalOrderByInternalId oid)) (\<lambda>found.
     bindM (orThrow found (NotFoundException ''Marketplace order not found.'')) (\<lambda>external.
     thenM (throw_if (er_organizationId external \<noteq> orgId \<or> \<not> truthy (er_integrationAccountId external))
              (NotFoundException ''Marketplace order not found.''))
    (bindM (getsM (findProviderNameById (er_providerId external))) (\<lambda>p.
     bindM (orThrow p (NotFoundException ''Provider not found.'')) (\<lambda>provider.
       returnM (external, provider))))))"

definition advanceNativeStatus :: "uuid \<Rightarrow> uuid \<Rightarrow> order_status \<Rightarrow> full_order market" where
  "advanceNativeStatus orgId oid target =
     bindM (getsM (\<lambda>s. findOrder (w_db (mw_world s)) orgId oid)) (\<lambda>found.
     bindM (orThrow found (NotFoundException ''Order not found.'')) (\<lambda>order.
     if ord_status order = target then platformM (getOrderByIdForOrg orgId oid)
     else thenM (throw_if (\<not> canTransitionOrderStatus (ord_status order) target)
                  (BadRequestException (''Invalid order status transition: '' @ status_string (ord_status order) @ '' '' @ status_string target)))
            (platformM (updateStatusForAggregator orgId oid target))))"

definition acceptOrder :: "market_env \<Rightarrow> uuid \<Rightarrow> uuid \<Rightarrow> full_order market" where
  "acceptOrder env orgId oid =
     bindM (resolveOrder orgId oid) (\<lambda>(external, provider).
     thenM (acceptOnMarket env provider (the (er_integrationAccountId external)) (er_externalOrderId external) None)
       (advanceNativeStatus orgId oid Confirmed))"

definition cancelOrder :: "market_env \<Rightarrow> uuid \<Rightarrow> uuid \<Rightarrow> string option \<Rightarrow> full_order market" where
  "cancelOrder env orgId oid reason =
     bindM (resolveOrder orgId oid) (\<lambda>(external, provider).
     thenM (cancelOnMarket env provider (the (er_integrationAccountId external)) (er_externalOrderId external) reason)
       (advanceNativeStatus orgId oid Cancelled))"

section \<open>Importing happens once\<close>

definition external_ok :: "market_world \<Rightarrow> bool" where
  "external_ok s \<longleftrightarrow> distinct (map (\<lambda>r. (er_providerId r, er_externalOrderId r)) (mw_external s)) \<and>
     distinct (map er_id (mw_external s))"

lemma importOrder_linked:
  assumes "findExternalOrderByProviderExternalId (ctx_providerId ctx) (nor_externalOrderId n) s = Some r"
    and "er_internalOrderId r = Some i"
  shows "importOrder n ctx s = (Inr \<lparr>im_externalOrderRowId = er_id r, im_internalOrderId = Some i, im_imported = False\<rparr>, s)"
  using assms by (simp add: importOrder_def upsertExternalOrder_def bindM_def)

lemma findExternal_update:
  assumes "findExternalOrderByProviderExternalId p e s = Some r" and "er_id r = i" and "\<And>x. er_providerId (f x) = er_providerId x"
    and "\<And>x. er_externalOrderId (f x) = er_externalOrderId x" and "mw_external s' = update_where (\<lambda>x. er_id x = i) f (mw_external s)"
  shows "findExternalOrderByProviderExternalId p e s' = Some (f r)"
  using assms by (simp add: findExternalOrderByProviderExternalId_def first_row_update_where)

text \<open>A successful import of a new order: what was created, and that the row is linked to it.\<close>

lemma importNew_run:
  assumes "importNew n ctx i s = (Inr res, s')"
  obtains itemMap sourceId fo w where
    "createMarketplaceOrder (ctx_organizationId ctx) (marketOrder n ctx itemMap sourceId) (mw_world s) = (Inr fo, w)"
    and "\<forall>it \<in> set (nor_items n). itemMap (nit_externalItemId it) \<noteq> None"
    and "s' = s\<lparr>mw_world := w, mw_external := update_where (\<lambda>r. er_id r = i)
      (\<lambda>r. r\<lparr>er_internalOrderId := Some (ord_id (fo_order fo)), er_syncStatus := ''imported'', er_error := None\<rparr>) (mw_external s)\<rparr>"
    and "res = \<lparr>im_externalOrderRowId = i, im_internalOrderId = Some (ord_id (fo_order fo)), im_imported = True\<rparr>"
proof -
  let ?ids = "map nit_externalItemId (nor_items n)"
  let ?m = "resolveMenuItemIds (ctx_integrationAccountId ctx) ?ids s"
  let ?src = "findOrderSourceId (nvl (nor_sourceChannel n) (ctx_providerName ctx)) s"
  let ?mk = "createMarketplaceOrder (ctx_organizationId ctx) (marketOrder n ctx ?m ?src) (mw_world s)"
  have mapped: "filter (\<lambda>i. ?m i = None) ?ids = []"
    using assms by (rule contrapos_pp) (simp add: importNew_def Let_def)
  obtain x w where mk: "?mk = (x, w)" by (cases ?mk)
  have run: "importNew n ctx i s = (case x of Inl e \<Rightarrow> (Inl e, s\<lparr>mw_world := w\<rparr>)
    | Inr fo \<Rightarrow> (Inr \<lparr>im_externalOrderRowId = i, im_internalOrderId = Some (ord_id (fo_order fo)), im_imported = True\<rparr>,
        s\<lparr>mw_world := w, mw_external := update_where (\<lambda>r. er_id r = i)
          (\<lambda>r. r\<lparr>er_internalOrderId := Some (ord_id (fo_order fo)), er_syncStatus := ''imported'', er_error := None\<rparr>) (mw_external s)\<rparr>))"
    by (cases x) (simp_all add: importNew_def Let_def mapped bindM_def thenM_def platformM_def mk markExternalOrderImported_def)
  from assms run obtain fo where fo: "x = Inr fo" by (cases x) auto
  have "\<forall>it \<in> set (nor_items n). ?m (nit_externalItemId it) \<noteq> None"
    using mapped by (auto simp: filter_empty_conv)
  then show thesis
    using that[OF mk[unfolded fo]] assms run fo by simp
qed

lemma findExternal_append:
  "findExternalOrderByProviderExternalId p e s = None \<Longrightarrow> er_providerId r = p \<Longrightarrow> er_externalOrderId r = e \<Longrightarrow>
   mw_external s' = mw_external s @ [r] \<Longrightarrow> findExternalOrderByProviderExternalId p e s' = Some r"
  by (simp add: findExternalOrderByProviderExternalId_def first_row_append)

text \<open>The row the import works on, and the state it is in then.\<close>

lemma upsert_run:
  obtains r s1 where "upsertExternalOrder n ctx s = (Inr r, s1)" and "w_db (mw_world s1) = w_db (mw_world s)"
    and "findExternalOrderByProviderExternalId (ctx_providerId ctx) (nor_externalOrderId n) s1 = Some r"
    and "findExternalOrderByProviderExternalId (ctx_providerId ctx) (nor_externalOrderId n) s = Some r \<and> s1 = s \<or>
      findExternalOrderByProviderExternalId (ctx_providerId ctx) (nor_externalOrderId n) s = None \<and> er_internalOrderId r = None"
    and "mw_mappings s1 = mw_mappings s"
proof (cases "findExternalOrderByProviderExternalId (ctx_providerId ctx) (nor_externalOrderId n) s")
  case (Some r)
  then show thesis using that[of r s] by (simp add: upsertExternalOrder_def)
next
  case None
  let ?r = "\<lparr>er_id = w_ids (mw_world s) (w_nextId (mw_world s)), er_organizationId = ctx_organizationId ctx,
    er_locationId = ctx_locationId ctx, er_providerId = ctx_providerId ctx,
    er_integrationAccountId = Some (ctx_integrationAccountId ctx), er_internalOrderId = None,
    er_externalOrderId = nor_externalOrderId n, er_externalStatus = Some (nor_externalStatus n),
    er_syncStatus = ''pending'', er_error = None\<rparr>"
  let ?s1 = "s\<lparr>mw_world := (mw_world s)\<lparr>w_nextId := Suc (w_nextId (mw_world s))\<rparr>, mw_external := mw_external s @ [?r]\<rparr>"
  show thesis
    by (rule that[of ?r ?s1])
      (simp_all add: None upsertExternalOrder_def platformM_def bindM_def Let_def findExternal_append[OF None])
qed

lemma importOrder_unlinked:
  assumes "upsertExternalOrder n ctx s = (Inr r, s1)" and "er_internalOrderId r = None"
  shows "importOrder n ctx s = catchM (importNew n ctx (er_id r))
    (\<lambda>err. thenM (markExternalOrderFailed (er_id r) (exceptionText err)) (throwM err)) s1"
  using assms by (simp add: importOrder_def bindM_def)


text \<open>
  An import that was cut off after the native order was created and before it was linked: the next
  delivery finds the order by its key, links it and creates nothing.
\<close>

theorem interrupted_import_resumes:
  assumes "keyedOrder (w_db (mw_world s)) (ctx_organizationId ctx) (importKey ctx n) = Some native"
    and "findExternalOrderByProviderExternalId (ctx_providerId ctx) (nor_externalOrderId n) s = Some r"
    and "er_internalOrderId r = None" and "nor_items n \<noteq> []"
    and "\<forall>it \<in> set (nor_items n). resolveMenuItemIds (ctx_integrationAccountId ctx) (map nit_externalItemId (nor_items n)) s
      (nit_externalItemId it) \<noteq> None"
  shows "\<exists>s1. importOrder n ctx s =
      (Inr \<lparr>im_externalOrderRowId = er_id r, im_internalOrderId = Some (ord_id native), im_imported = True\<rparr>, s1) \<and>
    mw_world s1 = mw_world s \<and>
    (\<exists>r' \<in> set (mw_external s1). er_id r' = er_id r \<and> er_internalOrderId r' = Some (ord_id native))"
proof -
  let ?g = "ctx_organizationId ctx"
  let ?m = "resolveMenuItemIds (ctx_integrationAccountId ctx) (map nit_externalItemId (nor_items n)) s"
  let ?p = "marketOrder n ctx ?m (findOrderSourceId (nvl (nor_sourceChannel n) (ctx_providerName ctx)) s)"
  have native: "native \<in> set (t_orders (w_db (mw_world s)))" "ord_organizationId native = ?g"
    using assms(1) by (auto simp: keyedOrder_def dest: first_row_SomeD)
  obtain o' where o': "findOrder (w_db (mw_world s)) ?g (ord_id native) = Some o'" "ord_id o' = ord_id native"
  proof (cases "findOrder (w_db (mw_world s)) ?g (ord_id native)")
    case None
    with native show thesis by (auto simp: findOrder_def dest: first_row_NoneD)
  next
    case (Some o')
    with that show thesis by (auto simp: findOrder_def dest: first_row_SomeD)
  qed
  have "createMarketplaceOrder ?g ?p (mw_world s) = (Inr (fullOf (w_db (mw_world s)) ?g native), mw_world s)"
    by (rule market.replays[where k = "importKey ctx n"]) (use assms(1,4) in \<open>simp_all add: marketOrder_def\<close>)
  moreover have "filter (\<lambda>i. ?m i = None) (map nit_externalItemId (nor_items n)) = []"
    using assms(5) by (auto simp: filter_empty_conv)
  moreover have "ord_id (fo_order (fullOf (w_db (mw_world s)) ?g native)) = ord_id native"
    using o' by (simp add: fullOf_def)
  ultimately have new: "importNew n ctx (er_id r) s = (Inr \<lparr>im_externalOrderRowId = er_id r,
      im_internalOrderId = Some (ord_id native), im_imported = True\<rparr>, s\<lparr>mw_external := update_where (\<lambda>x. er_id x = er_id r)
        (\<lambda>x. x\<lparr>er_internalOrderId := Some (ord_id native), er_syncStatus := ''imported'', er_error := None\<rparr>) (mw_external s)\<rparr>)"
    by (simp add: importNew_def Let_def bindM_def thenM_def platformM_def markExternalOrderImported_def)
  have up: "upsertExternalOrder n ctx s = (Inr r, s)"
    using assms(2) by (simp add: upsertExternalOrder_def)
  have mem: "r \<in> set (mw_external s)"
    using assms(2) by (auto simp: findExternalOrderByProviderExternalId_def dest: first_row_SomeD)
  let ?f = "\<lambda>x. x\<lparr>er_internalOrderId := Some (ord_id native), er_syncStatus := ''imported'', er_error := None\<rparr>"
  have "?f r \<in> set (update_where (\<lambda>x. er_id x = er_id r) ?f (mw_external s))"
    unfolding set_update_where by (rule image_eqI[of _ _ r]) (simp_all add: mem)
  then show ?thesis
    by (simp add: importOrder_unlinked[OF up assms(3)] catchM_def new) (rule bexI[of _ "?f r"], simp_all)
qed

section \<open>An event is at most one job\<close>

definition dedupe :: "market_world \<Rightarrow> aggregator_job list \<times> string list" where
  "dedupe s = (mw_queue s, map we_eventId (mw_events s))"

lemma preserves_platformM [frame]: "preserves dedupe (platformM m)"
  by (simp add: preserves_def platformM_def dedupe_def split: prod.split)

lemma preserves_modify_market [frame]:
  "preserves dedupe (modifyM (\<lambda>s. s\<lparr>mw_external := f s\<rparr>))" "preserves dedupe (modifyM (\<lambda>s. s\<lparr>mw_accounts := g s\<rparr>))"
  "preserves dedupe (modifyM (\<lambda>s. s\<lparr>mw_calls := h s\<rparr>))" "preserves dedupe (modifyM (\<lambda>s. s\<lparr>mw_deliveries := k s\<rparr>))"
  by (rule preserves_modifyM, simp add: dedupe_def)+

lemma preserves_nowM [frame]: "preserves dedupe nowM"
  by (simp add: nowM_def preserves_basic)

lemma preserves_setEventStatus [frame]: "(\<And>r. we_eventId (f r) = we_eventId r) \<Longrightarrow> preserves dedupe (setEventStatus e f)"
  unfolding setEventStatus_def by (rule preserves_modifyM) (simp add: dedupe_def map_update_where)

lemma preserves_import [frame]: "preserves dedupe (importOrder n ctx)"
  unfolding importOrder_def importNew_def upsertExternalOrder_def markExternalOrderImported_def markExternalOrderFailed_def Let_def
  by (intro frame)

lemma preserves_fetch [frame]: "preserves dedupe (fetchOrder env data ref)"
  unfolding fetchOrder_def by (intro frame)

lemma preserves_calls [frame]:
  "preserves dedupe (acceptOnMarket env p a e r)" "preserves dedupe (cancelOnMarket env p a e r)"
  unfolding acceptOnMarket_def cancelOnMarket_def by (intro frame)+

lemma preserves_handlers [frame]:
  "preserves dedupe (handleOrderCreated env data)" "preserves dedupe (handleStatusChange env data)"
  "preserves dedupe (handleStoreLifecycle data)"
proof -
  show "preserves dedupe (handleOrderCreated env data)"
    unfolding handleOrderCreated_def resolvedOrder_def by (intro frame)
  show "preserves dedupe (handleStatusChange env data)"
    unfolding handleStatusChange_def targetStatus_def by (intro frame)
  show "preserves dedupe (handleStoreLifecycle data)"
    unfolding handleStoreLifecycle_def setIntegrationAccountStatus_def Let_def
    by (cases "wi_eventType data") (auto intro!: frame)
qed

lemma preserves_process [frame]: "preserves dedupe (process env data)"
proof -
  have "preserves dedupe (handleJob env data)"
    unfolding handleJob_def by (cases "wi_eventType data") (auto intro!: frame)
  then show ?thesis unfolding process_def by (intro frame) simp_all
qed

lemma process_dedupe: "process env data s = (r, s') \<Longrightarrow> mw_queue s' = mw_queue s \<and> map we_eventId (mw_events s') = map we_eventId (mw_events s)"
  using preservesD[OF preserves_process] by (fastforce simp: dedupe_def)

definition queuedEvents :: "market_world \<Rightarrow> string set" where
  "queuedEvents s = wi_eventId ` set (mw_queue s)"

definition queue_ok :: "market_world \<Rightarrow> bool" where
  "queue_ok s \<longleftrightarrow> distinct (map wi_eventId (mw_queue s)) \<and> queuedEvents s \<subseteq> eventIds s"

text \<open>What a step may do to the events and the queue: nothing, reserve and queue a new event, take a job, put it back.\<close>

definition queue_step :: "market_world \<Rightarrow> market_world \<Rightarrow> bool" where
  "queue_step s s' \<longleftrightarrow> eventIds s \<subseteq> eventIds s' \<and>
     (queue_ok s \<longrightarrow> queue_ok s') \<and>
     (\<forall>e. knownEvent e s \<longrightarrow> e \<in> queuedEvents s' \<longrightarrow> e \<in> queuedEvents s)"

lemma dedupe_same:
  assumes "dedupe s' = dedupe s"
  shows "queuedEvents s' = queuedEvents s" "eventIds s' = eventIds s" "queue_ok s' = queue_ok s" "knownEvent e s' = knownEvent e s"
proof -
  have e: "mw_queue s' = mw_queue s" "map we_eventId (mw_events s') = map we_eventId (mw_events s)"
    using assms by (simp_all add: dedupe_def)
  show ids: "eventIds s' = eventIds s" using arg_cong[OF e(2), of set] by (simp add: eventIds_def)
  show "queuedEvents s' = queuedEvents s" by (simp add: queuedEvents_def e(1))
  then show "queue_ok s' = queue_ok s" by (simp add: queue_ok_def e(1) ids)
  show "knownEvent e s' = knownEvent e s" by (simp add: knownEvent_def ids)
qed

lemma queue_step_same:
  assumes "dedupe s' = dedupe s"
  shows "queue_step s s'"
  unfolding queue_step_def dedupe_same[OF assms] by simp

lemma ingest_step: "queue_step s (snd (ingest inp s))"
proof (cases "knownEvent (wi_eventId inp) s")
  case True
  then have "dedupe (snd (ingest inp s)) = dedupe s"
    by (simp add: ingest_def recordWebhookDelivery_def thenM_def bindM_def dedupe_def)
  then show ?thesis by (rule queue_step_same)
next
  case False
  show ?thesis
  proof (cases "w_queueUp (mw_world s)")
    case True
    with False show ?thesis
      by (auto simp: ingest_def recordWebhookDelivery_def thenM_def bindM_def queue_step_def queue_ok_def queuedEvents_def
          knownEvent_def eventIds_def webhook_input.extend_def)
  next
    case down: False
    have "map we_eventId (filter (\<lambda>r. we_eventId r \<noteq> wi_eventId inp) (mw_events s)) = map we_eventId (mw_events s)"
      using False by (subst filter_True) (auto simp: knownEvent_def eventIds_def image_iff)
    with False down have "dedupe (snd (ingest inp s)) = dedupe s"
      by (simp add: ingest_def recordWebhookDelivery_def releaseEvent_def thenM_def bindM_def dedupe_def)
    then show ?thesis by (rule queue_step_same)
  qed
qed

lemma queue_step_after:
  assumes "dedupe s1 = dedupe s" and "queue_step s1 s2"
  shows "queue_step s s2"
  using assms(2) unfolding queue_step_def dedupe_same[OF assms(1)] .

text \<open>A program that leaves both alone until it ingests.\<close>

definition receives :: "'a market \<Rightarrow> bool" where
  "receives m \<longleftrightarrow> (\<forall>s. queue_step s (snd (m s)))"

lemma receives_ingest: "receives (ingest inp)"
  by (simp add: receives_def ingest_step)

lemma receives_preserves: "preserves dedupe m \<Longrightarrow> receives m"
  by (simp add: receives_def preserves_def queue_step_same)

lemma receives_bind: "preserves dedupe m \<Longrightarrow> (\<And>a. receives (f a)) \<Longrightarrow> receives (bindM m f)"
  unfolding receives_def
proof
  fix s assume m: "preserves dedupe m" and f: "\<And>a. \<forall>s. queue_step s (snd (f a s))"
  obtain r s1 where run: "m s = (r, s1)" by (cases "m s")
  have same: "dedupe s1 = dedupe s" using preservesD[OF m run] .
  show "queue_step s (snd (bindM m f s))"
  proof (cases r)
    case (Inl e)
    then show ?thesis using queue_step_same[OF same] by (simp add: bindM_def run)
  next
    case (Inr a)
    then show ?thesis using queue_step_after[OF same] f by (simp add: bindM_def run)
  qed
qed

lemma receives_then: "receives m \<Longrightarrow> receives (bindM m (\<lambda>_. returnM b))"
  by (simp add: receives_def bindM_def split_beta split: sum.split)

lemma receives_ingestFor: "receives (ingestFor account body ext href)"
  unfolding ingestFor_def eventIdFor_def Let_def by (intro receives_bind receives_ingest frame)

lemma receives_handleWebhook: "receives (handleWebhook env i body raw headers)"
  unfolding handleWebhook_def thenM_def Let_def by (intro receives_bind receives_ingestFor frame)

lemma receives_handleUberWebhook: "receives (handleUberWebhook env body raw headers)"
proof -
  have "receives (bindM (ingestFor account b ext href) (\<lambda>_. returnM ()))" for account b ext href
    by (rule receives_then) (rule receives_ingestFor)
  then show ?thesis
    unfolding handleUberWebhook_def thenM_def
    by (cases "truthy (webhookStoreId body)")
      (simp_all add: receives_bind receives_preserves preserves_basic)
qed

lemma eventIds_queue [simp]: "eventIds (s\<lparr>mw_queue := q\<rparr>) = eventIds s"
  by (simp add: eventIds_def)

lemma workJob_step: "queue_step s (workJob env n s)"
proof (cases "n < length (mw_queue s)")
  case True
  let ?job = "mw_queue s ! n" and ?rest = "take n (mw_queue s) @ drop (Suc n) (mw_queue s)"
  obtain r s1 where run: "process env (webhook_input.truncate ?job) (s\<lparr>mw_queue := ?rest\<rparr>) = (r, s1)"
    by (cases "process env (webhook_input.truncate ?job) (s\<lparr>mw_queue := ?rest\<rparr>)")
  have s1: "mw_queue s1 = ?rest" "map we_eventId (mw_events s1) = map we_eventId (mw_events s)"
    using process_dedupe[OF run] by simp_all
  have split: "mw_queue s = take n (mw_queue s) @ ?job # drop (Suc n) (mw_queue s)"
    using True by (rule id_take_nth_drop)
  have events: "eventIds s1 = eventIds s"
    using arg_cong[OF s1(2), of set] by (simp add: eventIds_def)
  have perm: "distinct (map wi_eventId (mw_queue s)) = distinct (map wi_eventId (?rest @ [?job]))"
    by (subst (1) split) auto
  have ids: "queuedEvents s = wi_eventId ` set (?rest @ [?job])"
    unfolding queuedEvents_def by (subst (1) split) auto
  have w: "workJob env n s = s1 \<or>
      workJob env n s = s1\<lparr>mw_queue := ?rest @ [?job\<lparr>aj_attemptsMade := Suc (aj_attemptsMade ?job)\<rparr>]\<rparr>"
    using True run s1(1) by (auto simp: workJob_def Let_def split: sum.split)
  then show ?thesis
    unfolding queue_step_def queue_ok_def perm ids
    by (elim disjE) (auto simp: queuedEvents_def s1(1) events)
next
  case False
  then show ?thesis by (auto simp: workJob_def intro: queue_step_same)
qed

inductive market_step :: "market_env \<Rightarrow> market_world \<Rightarrow> market_world \<Rightarrow> bool" for env where
  Webhook: "market_step env s (snd (handleWebhook env i body raw headers s))"
| UberWebhook: "market_step env s (snd (handleUberWebhook env ubody raw headers s))"
| Work: "market_step env s (workJob env n s)"
| Accept: "market_step env s (snd (acceptOrder env g oid s))"
| Cancel: "market_step env s (snd (cancelOrder env g oid reason s))"
| Elsewhere: "dedupe s' = dedupe s \<Longrightarrow> market_step env s s'"

lemma market_step_queue: "market_step env s s' \<Longrightarrow> queue_step s s'"
proof (induction rule: market_step.induct)
  case (Webhook s i body raw headers)
  show ?case using receives_handleWebhook by (simp add: receives_def)
next
  case (UberWebhook s ubody raw headers)
  show ?case using receives_handleUberWebhook by (simp add: receives_def)
next
  case (Work s n)
  show ?case by (rule workJob_step)
next
  case (Accept s g oid)
  have "preserves dedupe (acceptOrder env g oid)"
    unfolding acceptOrder_def resolveOrder_def advanceNativeStatus_def split_beta by (intro frame)
  then show ?case by (simp add: preserves_def queue_step_same)
next
  case (Cancel s g oid reason)
  have "preserves dedupe (cancelOrder env g oid reason)"
    unfolding cancelOrder_def resolveOrder_def advanceNativeStatus_def split_beta by (intro frame)
  then show ?case by (simp add: preserves_def queue_step_same)
qed (rule queue_step_same)


end
