(* ===== verification/Marketplace_Events.thy ===== *)
theory Marketplace_Events
  imports Marketplace
begin

text \<open>
  What the events of a marketplace do to an order that exists, and the ones that are lost: status
  events move an order along the status machine and touch nothing else; a cancellation that is
  processed before its order was imported has no effect and is spent; KitchenHub's events about one
  order share an id when they carry none of their own; and cancelling a finished order from the
  dashboard cancels it at the marketplace only.
\<close>

section \<open>Status events\<close>

lemma updateStatus_orders:
  assumes "updateStatusForAggregator g i t w = (Inr fo, w')"
  obtains r where "findOrder (w_db w) g i = Some r"
    and "ord_status r = t \<and> w_db w' = w_db w \<or> w_db w' = (w_db w)\<lparr>t_orders := update_where (\<lambda>x. ord_id x = i)
      (\<lambda>x. x\<lparr>ord_status := t, ord_updatedAt := w_now w\<rparr>) (t_orders (w_db w))\<rparr>"
proof (cases "findOrder (w_db w) g i")
  case None
  with assms show thesis by (simp add: updateStatusForAggregator_def)
next
  case (Some r)
  with assms show thesis
    by (intro that[OF Some])
      (auto simp: updateStatusForAggregator_def getOrderByIdForOrg_def updateOrder_def thenM_def bindM_def orThrow_def
        split: if_splits option.splits prod.splits sum.splits)
qed

lemma fetchOrder_world: "fetchOrder env data ref s = (x, s') \<Longrightarrow> s' = s"
  by (auto simp: fetchOrder_def liftE_def)

lemma targetStatus_world: "targetStatus env data s = (x, s') \<Longrightarrow> s' = s"
  by (auto simp: targetStatus_def bindM_def split: option.splits if_splits prod.splits sum.splits dest: fetchOrder_world)

lemma statusChange_run:
  assumes "wi_externalOrderId data = Some ext" and "ext \<noteq> []"
    and "findExternalOrderByProviderExternalId (wi_providerId data) ext s = Some e" and "er_internalOrderId e = Some i"
    and "first_row (\<lambda>x. ord_id x = i) (t_orders (w_db (mw_world s))) = Some r"
    and "(if wi_eventType data = OrderCanceled then returnM (Some Cancelled) else targetStatus env data) s = (x, s)"
  shows "handleStatusChange env data s = (case x of
      Inl err \<Rightarrow> (Inl err, s)
    | Inr None \<Rightarrow> (Inr StatusLeft, s)
    | Inr (Some target) \<Rightarrow>
        if ord_status r = target \<or> \<not> canTransitionOrderStatus (ord_status r) target then (Inr StatusLeft, s)
        else (case updateStatusForAggregator (wi_organizationId data) i target (mw_world s) of
            (y, w) \<Rightarrow> (case y of Inl err \<Rightarrow> Inl err | Inr _ \<Rightarrow> Inr (StatusSet target), s\<lparr>mw_world := w\<rparr>)))"
proof -
  let ?target = "if wi_eventType data = OrderCanceled then returnM (Some Cancelled) else targetStatus env data"
  have "handleStatusChange env data s = bindM ?target (\<lambda>target'.
      case target' of
        None \<Rightarrow> returnM StatusLeft
      | Some target \<Rightarrow>
          if ord_status r = target \<or> \<not> canTransitionOrderStatus (ord_status r) target then returnM StatusLeft
          else thenM (platformM (updateStatusForAggregator (wi_organizationId data) i target)) (returnM (StatusSet target))) s"
    using assms(1-5) by (simp add: handleStatusChange_def orderStatusOf_def)
  then show ?thesis
    unfolding bindM_def assms(6)
    by (simp add: thenM_def bindM_def platformM_def split: sum.split option.split prod.split)
qed

text \<open>
  C28. A status event that is processed leaves every table of the platform alone or moves exactly the
  order the marketplace's order is linked to, by one legal step of the status machine; only orders of
  the account's organization are moved.
\<close>

theorem status_event_follows_machine:
  assumes "handleStatusChange env data s = (Inr res, s')"
    and "distinct (map ord_id (t_orders (w_db (mw_world s))))"
  shows "w_db (mw_world s') = w_db (mw_world s) \<or>
    (\<exists>ext r target. wi_externalOrderId data = Some ext \<and>
       (\<exists>e \<in> set (mw_external s). er_providerId e = wi_providerId data \<and> er_externalOrderId e = ext \<and>
          er_internalOrderId e = Some (ord_id r)) \<and>
       r \<in> set (t_orders (w_db (mw_world s))) \<and> ord_organizationId r = wi_organizationId data \<and>
       canTransitionOrderStatus (ord_status r) target \<and>
       w_db (mw_world s') = (w_db (mw_world s))\<lparr>t_orders := update_where (\<lambda>x. ord_id x = ord_id r)
         (\<lambda>x. x\<lparr>ord_status := target, ord_updatedAt := w_now (mw_world s)\<rparr>) (t_orders (w_db (mw_world s)))\<rparr>)"
proof (cases "w_db (mw_world s') = w_db (mw_world s)")
  case changed: False
  let ?d = "w_db (mw_world s)"
  obtain ext where ext: "wi_externalOrderId data = Some ext" "ext \<noteq> []"
    using assms(1) changed by (cases "wi_externalOrderId data") (auto simp: handleStatusChange_def split: if_splits)
  obtain e i where e: "findExternalOrderByProviderExternalId (wi_providerId data) ext s = Some e" "er_internalOrderId e = Some i"
    using assms(1) changed ext by (auto simp: handleStatusChange_def split: option.splits)
  obtain r where r: "first_row (\<lambda>x. ord_id x = i) (t_orders ?d) = Some r"
    using assms(1) changed ext e by (auto simp: handleStatusChange_def orderStatusOf_def split: option.splits)
  let ?target = "if wi_eventType data = OrderCanceled then returnM (Some Cancelled) else targetStatus env data"
  obtain x s1 where t: "?target s = (x, s1)" by (cases "?target s")
  have "s1 = s" using t targetStatus_world by (auto split: if_splits)
  note run = assms(1)[unfolded statusChange_run[OF ext e r t[unfolded this]]]
  obtain target where target: "x = Inr (Some target)" using run changed by (auto split: sum.splits option.splits)
  have legal: "canTransitionOrderStatus (ord_status r) target" using run changed by (auto simp: target split: if_splits)
  obtain y w where y: "updateStatusForAggregator (wi_organizationId data) i target (mw_world s) = (y, w)"
    by (cases "updateStatusForAggregator (wi_organizationId data) i target (mw_world s)")
  obtain fo where fo: "y = Inr fo" using run changed by (auto simp: target y split: if_splits sum.splits)
  have s': "s' = s\<lparr>mw_world := w\<rparr>" using run changed by (auto simp: target y fo split: if_splits)
  note upd = y[unfolded fo] s'
  obtain r2 where r2: "findOrder ?d (wi_organizationId data) i = Some r2"
    "ord_status r2 = target \<and> w_db w = ?d \<or> w_db w = ?d\<lparr>t_orders := update_where (\<lambda>x. ord_id x = i)
      (\<lambda>x. x\<lparr>ord_status := target, ord_updatedAt := w_now (mw_world s)\<rparr>) (t_orders ?d)\<rparr>"
    by (rule updateStatus_orders[OF upd(1)])
  have mem: "r \<in> set (t_orders ?d)" "ord_id r = i" "r2 \<in> set (t_orders ?d)" "ord_id r2 = i" "ord_organizationId r2 = wi_organizationId data"
    using first_row_SomeD[OF r] first_row_SomeD[OF r2(1)[unfolded findOrder_def]] by auto
  have "inj_on ord_id (set (t_orders ?d))" using assms(2) by (simp add: distinct_map)
  then have "r2 = r" by (rule inj_onD) (use mem in simp_all)
  moreover have "w_db (mw_world s') = ?d\<lparr>t_orders := update_where (\<lambda>x. ord_id x = ord_id r)
      (\<lambda>x. x\<lparr>ord_status := target, ord_updatedAt := w_now (mw_world s)\<rparr>) (t_orders ?d)\<rparr>"
    using r2(2) upd(2) changed mem(2) by auto
  moreover have "e \<in> set (mw_external s) \<and> er_providerId e = wi_providerId data \<and> er_externalOrderId e = ext \<and>
      er_internalOrderId e = Some (ord_id r)"
    using e mem(2) by (auto simp: findExternalOrderByProviderExternalId_def dest: first_row_SomeD)
  ultimately show ?thesis
    using mem legal ext(1) by blast
qed simp

section \<open>Events that are lost\<close>

text \<open>
  A cancellation processed before its order was imported is answered as handled, marks its event
  completed and leaves nothing behind: no row the later import could read the cancellation from, and
  no job that would try again.
\<close>

theorem early_cancel_is_spent:
  assumes "wi_eventType data = OrderCanceled" and "wi_externalOrderId data = Some ext"
    and "\<forall>r. findExternalOrderByProviderExternalId (wi_providerId data) ext s = Some r \<longrightarrow> er_internalOrderId r = None"
    and "knownEvent (wi_eventId data) s"
  shows "\<exists>s'. process env data s = (Inr StatusLeft, s') \<and> mw_world s' = mw_world s \<and> mw_external s' = mw_external s \<and>
    mw_queue s' = mw_queue s \<and> mw_calls s' = mw_calls s \<and>
    (\<exists>r \<in> set (mw_events s'). we_eventId r = wi_eventId data \<and> we_status r = ''completed'')"
proof -
  have left: "handleStatusChange env data s = (Inr StatusLeft, s)"
  proof (cases "findExternalOrderByProviderExternalId (wi_providerId data) ext s")
    case (Some r)
    with assms show ?thesis by (simp add: handleStatusChange_def)
  qed (use assms in \<open>simp add: handleStatusChange_def\<close>)
  let ?f = "\<lambda>r. r\<lparr>we_status := ''completed'', we_processedAt := Some (w_now (mw_world s))\<rparr>"
  obtain r where r: "r \<in> set (mw_events s)" "we_eventId r = wi_eventId data"
    using assms(4) by (auto simp: knownEvent_def eventIds_def)
  then have "?f r \<in> set (update_where (\<lambda>r. we_eventId r = wi_eventId data) ?f (mw_events s))"
    unfolding set_update_where by (intro image_eqI[of _ _ r]) simp_all
  then show ?thesis
    using r(2) by (auto simp: process_def handleJob_def assms(1) left catchM_def thenM_def bindM_def setEventStatus_def
        intro!: bexI[of _ "?f r"])
qed

text \<open>An envelope of KitchenHub that nests its order and has no id of its own.\<close>

definition nestedOnly :: "kh_body \<Rightarrow> string \<Rightarrow> bool" where
  "nestedOnly body oid \<longleftrightarrow> khb_event_id body = None \<and> kho_id body = None \<and> khb_data body = None \<and>
     (\<exists>order. khb_order body = Some order \<and> orderExternalId order = oid) \<and> oid \<noteq> []"

lemma nestedOnly_event: "nestedOnly body oid \<Longrightarrow> wev_externalEventId (khParseWebhook body) = ''order:'' @ oid"
  by (auto simp: nestedOnly_def khParseWebhook_def extractOrder_def coalesce_def Let_def)

lemma ingest_known:
  "knownEvent (wi_eventId inp) s \<Longrightarrow> \<exists>s'. ingest inp s = (Inr True, s') \<and> mw_queue s' = mw_queue s"
  by (simp add: ingest_def recordWebhookDelivery_def thenM_def bindM_def)

lemma handleWebhook_ingests:
  assumes "handleWebhook env i (KitchenHubBody body) raw headers s = (Inr dup, s')" and "nestedOnly body oid"
  obtains inp where "wi_eventId inp = ''kitchenhub:order:'' @ oid" and "ingest inp s = (Inr dup, s')"
  using assms(1)
  by (auto simp: handleWebhook_def ingestFor_def eventIdFor_def parseEvent_def providerOf_def nestedOnly_event[OF assms(2)]
      Let_def thenM_def bindM_def throw_if_def split: if_splits)
    (rule that[rotated], assumption, simp)

text \<open>
  KitchenHub's webhooks about one order, when they carry no event id, share one id, whatever their
  type: once the order's creation was accepted, the webhook that cancels it or changes its status is
  taken for a repetition, answered as one and never queued.
\<close>

theorem kitchenhub_update_swallowed:
  assumes "handleWebhook env i (KitchenHubBody created) raw headers s = (Inr dup, s1)" and "nestedOnly created oid"
    and "(market_step env)\<^sup>*\<^sup>* s1 s2"
    and "handleWebhook env j (KitchenHubBody update) raw' headers' s2 = (Inr dup', s3)" and "nestedOnly update oid"
  shows "dup' \<and> mw_queue s3 = mw_queue s2"
proof -
  obtain inp where inp: "wi_eventId inp = ''kitchenhub:order:'' @ oid" "ingest inp s = (Inr dup, s1)"
    by (rule handleWebhook_ingests[OF assms(1,2)])
  obtain inp' where inp': "wi_eventId inp' = ''kitchenhub:order:'' @ oid" "ingest inp' s2 = (Inr dup', s3)"
    by (rule handleWebhook_ingests[OF assms(4,5)])
  have "knownEvent (wi_eventId inp) s1"
    using inp(2) by (auto simp: ingest_def recordWebhookDelivery_def releaseEvent_def thenM_def bindM_def knownEvent_def
        eventIds_def split: if_splits)
  moreover have "eventIds s1 \<subseteq> eventIds s2"
    using assms(3)
  proof (induction rule: rtranclp_induct)
    case (step y z)
    from market_step_queue[OF step.hyps(2)] have "eventIds y \<subseteq> eventIds z" by (simp add: queue_step_def)
    with step.IH show ?case by (rule subset_trans)
  qed simp
  ultimately have "knownEvent (wi_eventId inp') s2"
    using inp(1) inp'(1) by (auto simp: knownEvent_def)
  from ingest_known[OF this] inp'(2) show ?thesis by auto
qed

section \<open>Cancelling from the dashboard\<close>

text \<open>
  Cancelling an order that is past cancelling, a completed one for instance: the marketplace is
  told first and cancels, and only then is the native order found to be past it; the call fails and the
  order stays as it was.
\<close>

theorem finished_order_cancelled_at_market_only:
  assumes "findExternalOrderByInternalId oid s = Some external" and "er_organizationId external = g"
    and "er_integrationAccountId external = Some account" and "account \<noteq> []"
    and "findProviderNameById (er_providerId external) s = Some provider"
    and "men_cancelOrder env provider account (er_externalOrderId external) (w_now (mw_world s)) = Inr ()"
    and "findOrder (w_db (mw_world s)) g oid = Some order" and "ord_status order \<noteq> Cancelled"
    and "\<not> canTransitionOrderStatus (ord_status order) Cancelled"
  shows "\<exists>e s'. cancelOrder env g oid reason s = (Inl e, s') \<and> mw_world s' = mw_world s \<and>
    mw_calls s' = mw_calls s @ [CancelCall account (er_externalOrderId external) reason]"
  using assms
  by (simp add: cancelOrder_def resolveOrder_def advanceNativeStatus_def cancelOnMarket_def liftE_def thenM_def bindM_def)

end
