(* ===== verification/Demo_Market.thy ===== *)
theory Demo_Market
  imports Marketplace_Events Demo_Store
begin

text \<open>
  The theorems of the marketplace theories applied to the small store of \<open>Demo_Store\<close>, connected to
  KitchenHub: one account \<open>a\<close> with the webhook secret \<open>s\<close>, the marketplace's item \<open>x\<close> mapped to the
  store's one menu item, and a marketplace that accepts and cancels whatever it is told.
\<close>

definition demoMarketEnv :: market_env where
  "demoMarketEnv = \<lparr>men_getOrder = (\<lambda>p a ref t. Inr None), men_acceptOrder = (\<lambda>p a ext t. Inr ()),
     men_cancelOrder = (\<lambda>p a ext t. Inr ()), men_hmac = (\<lambda>key raw. key @ raw),
     men_decrypt = (\<lambda>c. \<lparr>crd_webhookSecret = Some c, crd_clientSecret = Some c\<rparr>)\<rparr>"

definition demoMarketWorld :: market_world where
  "demoMarketWorld = \<lparr>mw_world = demoWorld, mw_providers = [\<lparr>prv_id = ''k'', prv_name = ''kitchenhub''\<rparr>],
     mw_accounts = [\<lparr>ia_id = ''a'', ia_organizationId = ''g'', ia_locationId = Some ''l'', ia_providerId = ''k'',
       ia_credentials = Some ''s'', ia_providerStoreId = None, ia_status = ''connected'', ia_isOnline = True,
       ia_autoAcceptOrders = True\<rparr>],
     mw_external = [], mw_mappings = [\<lparr>mp_integrationAccountId = ''a'', mp_coneekoMenuItemId = ''m'',
       mp_externalMenuItemId = Some ''x'', mp_mappingStatus = ''mapped''\<rparr>],
     mw_sources = [], mw_events = [], mw_deliveries = [], mw_queue = [], mw_calls = []\<rparr>"

definition demoKhOrder :: "string \<Rightarrow> string \<Rightarrow> kh_order" where
  "demoKhOrder oid item = \<lparr>kho_id = Some oid, kho_external_id = None, kho_order_number = None, kho_provider = None,
     kho_source = None, kho_status = None, kho_created_at = None, kho_type = None, kho_customer = None,
     kho_items = Some [\<lparr>khi_id = None, khi_external_id = Some item, khi_name = None, khi_quantity = Some 2,
       khi_price = Some (AsNumber 5), khi_modifiers = None, khi_notes = None\<rparr>],
     kho_subtotal = None, kho_tax = None, kho_tip = None, kho_total = Some (AsNumber 10), kho_notes = None\<rparr>"

definition demoBody :: "string \<Rightarrow> string \<Rightarrow> kh_body" where
  "demoBody type item = \<lparr>kho_id = None, kho_external_id = None, kho_order_number = None, kho_provider = None,
     kho_source = None, kho_status = None, kho_created_at = None, kho_type = Some type, kho_customer = None,
     kho_items = None, kho_subtotal = None, kho_tax = None, kho_tip = None, kho_total = None, kho_notes = None,
     khb_event_id = None, khb_event = None, khb_order = Some (demoKhOrder ''1'' item), khb_data = None\<rparr>"

definition demoHeaders :: "string \<rightharpoonup> string" where
  "demoHeaders = [''authorization'' \<mapsto> ''Bearer s'']"

definition demoContext :: import_context where
  "demoContext = \<lparr>ctx_providerId = ''k'', ctx_providerName = ''kitchenhub'', ctx_integrationAccountId = ''a'',
     ctx_organizationId = ''g'', ctx_locationId = Some ''l''\<rparr>"

text \<open>Running a program of the integration.\<close>

definition ran :: "'a market \<Rightarrow> market_world \<Rightarrow> bool" where
  "ran m s = (case fst (m s) of Inl _ \<Rightarrow> False | Inr _ \<Rightarrow> True)"

definition outcome_of :: "'a market \<Rightarrow> market_world \<Rightarrow> 'a" where
  "outcome_of m s = (case fst (m s) of Inr a \<Rightarrow> a)"

lemma ran_run: "ran m s \<Longrightarrow> m s = (Inr (outcome_of m s), snd (m s))"
  by (cases "m s") (auto simp: ran_def outcome_of_def split: sum.splits)

section \<open>Importing\<close>

definition demoImport :: "import_result market" where
  "demoImport = importOrder (khOrder (demoKhOrder ''1'' ''x'')) demoContext"


definition demoInterrupted :: market_world where
  "demoInterrupted = (let s = snd (demoImport demoMarketWorld)
     in s\<lparr>mw_external := map (\<lambda>r. r\<lparr>er_internalOrderId := None\<rparr>) (mw_external s)\<rparr>)"

theorem interrupted_import_resumes_witness:
  "mw_world (snd (demoImport demoInterrupted)) = mw_world demoInterrupted \<and>
   im_internalOrderId (outcome_of demoImport demoInterrupted) = im_internalOrderId (outcome_of demoImport demoMarketWorld)"
proof -
  let ?n = "khOrder (demoKhOrder ''1'' ''x'')"
  obtain native where native: "keyedOrder (w_db (mw_world demoInterrupted)) (ctx_organizationId demoContext) (importKey demoContext ?n) = Some native"
    "im_internalOrderId (outcome_of demoImport demoMarketWorld) = Some (ord_id native)"
  proof -
    have "map_option (\<lambda>r. Some (ord_id r)) (keyedOrder (w_db (mw_world demoInterrupted)) (ctx_organizationId demoContext) (importKey demoContext ?n)) =
        Some (im_internalOrderId (outcome_of demoImport demoMarketWorld))" by code_simp
    with that show thesis by (auto simp: map_option_eq_Some)
  qed
  obtain r where r: "findExternalOrderByProviderExternalId (ctx_providerId demoContext) (nor_externalOrderId ?n) demoInterrupted = Some r"
    "er_internalOrderId r = None"
  proof -
    have "map_option er_internalOrderId (findExternalOrderByProviderExternalId (ctx_providerId demoContext) (nor_externalOrderId ?n) demoInterrupted) =
        Some None" by code_simp
    with that show thesis by (auto simp: map_option_eq_Some)
  qed
  have items: "nor_items ?n \<noteq> []" by code_simp
  have "list_all (\<lambda>it. resolveMenuItemIds (ctx_integrationAccountId demoContext) (map nit_externalItemId (nor_items ?n)) demoInterrupted
      (nit_externalItemId it) \<noteq> None) (nor_items ?n)" by code_simp
  then have mapped: "\<forall>it \<in> set (nor_items ?n). resolveMenuItemIds (ctx_integrationAccountId demoContext)
      (map nit_externalItemId (nor_items ?n)) demoInterrupted (nit_externalItemId it) \<noteq> None"
    by (simp only: list_all_iff)
  from interrupted_import_resumes[OF native(1) r items mapped, folded demoImport_def] show ?thesis
    by (elim exE conjE) (simp add: native(2) outcome_of_def[of demoImport demoInterrupted])
qed

section \<open>Events\<close>

definition demoReceive :: "string \<Rightarrow> string \<Rightarrow> bool market" where
  "demoReceive type item = handleWebhook demoMarketEnv ''a'' (KitchenHubBody (demoBody type item)) [] demoHeaders"

text \<open>An order of an item that is not mapped: its three attempts fail.\<close>

definition demoGivenUp :: market_world where
  "demoGivenUp = (workJob demoMarketEnv 0 ^^ 3) (snd (demoReceive ''order'' ''y'' demoMarketWorld))"


theorem kitchenhub_update_swallowed_witness:
  "outcome_of (demoReceive ''order.canceled'' ''x'') (snd (demoReceive ''order'' ''x'' demoMarketWorld)) \<and>
   length (mw_queue (snd (demoReceive ''order.canceled'' ''x'' (snd (demoReceive ''order'' ''x'' demoMarketWorld))))) = 1"
proof -
  let ?s1 = "snd (demoReceive ''order'' ''x'' demoMarketWorld)"
  have nested: "nestedOnly (demoBody t ''x'') ''1''" for t
    by (simp add: nestedOnly_def demoBody_def demoKhOrder_def orderExternalId_def coalesce_def)
  have ok: "ran (demoReceive ''order'' ''x'') demoMarketWorld" "ran (demoReceive ''order.canceled'' ''x'') ?s1" by code_simp+
  have len: "length (mw_queue ?s1) = 1" by code_simp
  from kitchenhub_update_swallowed[OF ran_run[OF ok(1), unfolded demoReceive_def] nested
      rtranclp.rtrancl_refl ran_run[OF ok(2), unfolded demoReceive_def] nested, folded demoReceive_def] len
  show ?thesis by simp
qed

definition demoJob :: "event_type \<Rightarrow> string \<Rightarrow> webhook_input" where
  "demoJob type eventId = \<lparr>wi_provider = ''kitchenhub'', wi_providerId = ''k'', wi_integrationAccountId = ''a'',
     wi_organizationId = ''g'', wi_locationId = Some ''l'', wi_eventId = eventId, wi_eventType = type,
     wi_externalOrderId = Some ''1'', wi_resourceHref = None, wi_rawPayload = KitchenHubBody (demoBody [] ''x'')\<rparr>"

theorem early_cancel_is_spent_witness:
  "fst (process demoMarketEnv (demoJob OrderCanceled ''e'')
     (demoMarketWorld\<lparr>mw_events := [\<lparr>we_eventId = ''e'', we_provider = ''kitchenhub'', we_status = ''pending'',
        we_eventType = OrderCanceled, we_processedAt = None\<rparr>]\<rparr>)) = Inr StatusLeft"
proof -
  let ?s = "demoMarketWorld\<lparr>mw_events := [\<lparr>we_eventId = ''e'', we_provider = ''kitchenhub'', we_status = ''pending'',
        we_eventType = OrderCanceled, we_processedAt = None\<rparr>]\<rparr>"
  from early_cancel_is_spent[where data = "demoJob OrderCanceled ''e''" and ext = "''1''" and s = ?s and env = demoMarketEnv]
  show ?thesis
    by (auto simp: demoJob_def demoMarketWorld_def findExternalOrderByProviderExternalId_def knownEvent_def eventIds_def)
qed

definition demoImported :: market_world where
  "demoImported = snd (demoImport demoMarketWorld)"

theorem status_event_follows_machine_witness:
  "map ord_status (t_orders (w_db (mw_world (snd (handleStatusChange demoMarketEnv (demoJob OrderCanceled ''e'') demoImported))))) = [Cancelled] \<and>
   (\<exists>r \<in> set (t_orders (w_db (mw_world demoImported))). canTransitionOrderStatus (ord_status r) Cancelled)"
proof -
  let ?m = "handleStatusChange demoMarketEnv (demoJob OrderCanceled ''e'')"
  have ok: "ran ?m demoImported" by code_simp
  have "distinct (map ord_id (t_orders (w_db (mw_world demoImported))))" by code_simp
  note moved = status_event_follows_machine[OF ran_run[OF ok] this]
  have before: "map ord_status (t_orders (w_db (mw_world demoImported))) = [Pending]" by code_simp
  have after_: "map ord_status (t_orders (w_db (mw_world (snd (?m demoImported))))) = [Cancelled]" by code_simp
  from moved show ?thesis
  proof
    assume "w_db (mw_world (snd (?m demoImported))) = w_db (mw_world demoImported)"
    with before after_ show ?thesis by simp
  next
    assume "\<exists>ext r target. wi_externalOrderId (demoJob OrderCanceled ''e'') = Some ext \<and>
       (\<exists>e \<in> set (mw_external demoImported). er_providerId e = wi_providerId (demoJob OrderCanceled ''e'') \<and> er_externalOrderId e = ext \<and>
          er_internalOrderId e = Some (ord_id r)) \<and>
       r \<in> set (t_orders (w_db (mw_world demoImported))) \<and> ord_organizationId r = wi_organizationId (demoJob OrderCanceled ''e'') \<and>
       canTransitionOrderStatus (ord_status r) target \<and>
       w_db (mw_world (snd (?m demoImported))) = (w_db (mw_world demoImported))\<lparr>t_orders := update_where (\<lambda>x. ord_id x = ord_id r)
         (\<lambda>x. x\<lparr>ord_status := target, ord_updatedAt := w_now (mw_world demoImported)\<rparr>) (t_orders (w_db (mw_world demoImported)))\<rparr>"
    then obtain r where r: "r \<in> set (t_orders (w_db (mw_world demoImported)))" by blast
    with before have "ord_status r = Pending" by (cases "t_orders (w_db (mw_world demoImported))") auto
    with r after_ show ?thesis by (intro conjI bexI[of _ r]) (simp_all add: canTransitionOrderStatus_def)
  qed
qed

definition demoExternal :: external_order_row where
  "demoExternal = \<lparr>er_id = ''r'', er_organizationId = ''g'', er_locationId = None, er_providerId = ''k'',
     er_integrationAccountId = Some ''a'', er_internalOrderId = Some ''o'', er_externalOrderId = ''1'',
     er_externalStatus = None, er_syncStatus = ''imported'', er_error = None\<rparr>"

definition demoFinished :: market_world where
  "demoFinished = demoMarketWorld\<lparr>mw_world := demoWorld\<lparr>w_db := demoDb\<lparr>t_orders := [(demoTab None)\<lparr>ord_status := Completed\<rparr>]\<rparr>\<rparr>,
     mw_external := [demoExternal]\<rparr>"

theorem finished_order_cancelled_at_market_only_witness:
  "mw_calls (snd (cancelOrder demoMarketEnv ''g'' ''o'' None demoFinished)) = [CancelCall ''a'' ''1'' None] \<and>
   mw_world (snd (cancelOrder demoMarketEnv ''g'' ''o'' None demoFinished)) = mw_world demoFinished"
proof -
  from finished_order_cancelled_at_market_only[where oid = "''o''" and s = demoFinished and external = demoExternal and
      g = "''g''" and account = "''a''" and provider = "''kitchenhub''" and env = demoMarketEnv and reason = None and
      order = "(demoTab None)\<lparr>ord_status := Completed\<rparr>"]
  show ?thesis
    by (auto simp: findExternalOrderByInternalId_def findProviderNameById_def demoFinished_def demoExternal_def demoMarketWorld_def
        demoMarketEnv_def findOrder_def demoTab_def newOrder_def canTransitionOrderStatus_def)
qed

section \<open>Uber Eats\<close>

definition demoCartItem :: uber_cart_item where
  "demoCartItem = \<lparr>uci_id = None, uci_instance_id = None, uci_title = None, uci_quantity = Some (Units 3),
     uci_price = Some \<lparr>upr_unit_price = Some \<lparr>um_amount = Some 100\<rparr>, upr_total_price = Some \<lparr>um_amount = Some 300\<rparr>\<rparr>,
     uci_selected_modifier_groups = None, uci_special_instructions = None\<rparr>"

theorem uber_line_counted_per_unit_witness: "normalizedLine (mapCartItem demoCartItem) = 900"
  using uber_line_counted_per_unit[where item = demoCartItem and paid = 300 and t = "\<lparr>um_amount = Some 300\<rparr>"
      and p = "\<lparr>upr_unit_price = Some \<lparr>um_amount = Some 100\<rparr>, upr_total_price = Some \<lparr>um_amount = Some 300\<rparr>\<rparr>"]
  by (simp add: demoCartItem_def itemQuantity_def)

definition demoGroup :: normalized_group where
  "demoGroup = \<lparr>ngr_internalModifierGroupId = ''G'', ngr_name = ''Size'', ngr_isRequired = True, ngr_multiSelect = False,
     ngr_maxSelections = None, ngr_modifiers = [\<lparr>nop_internalModifierId = ''O'', nop_name = ''Large'', nop_priceAdjustment = 50\<rparr>]\<rparr>"

definition demoMenu :: "normalized_category list" where
  "demoMenu = [\<lparr>nca_internalCategoryId = ''C'', nca_name = ''Soups'', nca_items = map (\<lambda>i. \<lparr>nmi_internalItemId = i,
     nmi_name = i, nmi_description = None, nmi_price = 100, nmi_modifierGroups = [demoGroup]\<rparr>) [''I'', ''J'']\<rparr>]"

theorem uber_menu_closed_witness:
  "distinct (map uge_id (uma_modifier_groups (toUberMenu demoMenu))) \<and>
   map uie_id (uma_items (toUberMenu demoMenu)) = [''I'', ''O'', ''J'']"
proof
  show "distinct (map uge_id (uma_modifier_groups (toUberMenu demoMenu)))"
    using uber_menu_closed[OF refl, of demoMenu] by (elim conjE)
qed code_simp

end
