(* ===== verification/Tenancy.thy ===== *)
theory Tenancy
  imports Phone_Numbers Public_Orders Auth
begin

text \<open>
  The tables around a restaurant's account (\<open>organizations\<close>, \<open>locations\<close>, \<open>org_invitations\<close>,
  \<open>org_provisioning_steps\<close>, \<open>subscriptions\<close> of \<open>database/schema.ts\<close>, with their unique indexes), the
  world the provisioning of an account runs in, and the requests made to the telephony service
  (\<open>telnyx/telnyx.service.ts\<close>). The service itself is a parameter: its answer to a request may depend on
  every request made before. An organization and a location extend the rows that the API guard and the
  order services read.
\<close>

section \<open>Tables\<close>

record company_row = organization_row +
  cmp_name :: string
  cmp_slug :: "string option"
  cmp_webhookApiKey :: "string option"
  cmp_deletedAt :: "int option"
  cmp_featureFlags :: json

record ai_settings =
  ai_baseAgentId :: "string option"
  ai_dynamicVariables :: "(string \<times> string) list option"
  ai_menuUrl :: "string option"
  ai_useAgentPhoneNumber :: bool

record site_row = location_row +
  ste_name :: string
  ste_slug :: string
  ste_country :: string
  ste_state :: "string option"
  ste_city :: "string option"
  ste_aiSettings :: "ai_settings option"
  ste_phoneNumber :: "string option"
  ste_telnyxPhoneNumberId :: "string option"
  ste_telnyxAssistantId :: "string option"
  ste_masterAgentId :: "string option"
  ste_status :: string
  ste_provisioningError :: "string option"
  ste_provisioningCompletedAt :: "int option"
  ste_webhookApiKey :: "string option"

record invitation_row =
  iv_id :: uuid
  iv_organizationId :: uuid
  iv_locationId :: "uuid option"
  iv_email :: string
  iv_role :: string
  iv_tokenHash :: string
  iv_status :: string
  iv_expiresAt :: int
  iv_acceptedAt :: "int option"
  iv_invitedByUserId :: uuid

text \<open>What a step stores for those after it: the keys the processor writes, all optional.\<close>

record step_meta =
  md_selectedPhoneNumber :: "string option"
  md_numberOrderId :: "string option"
  md_phoneNumber :: "string option"
  md_telnyxPhoneNumberId :: "string option"
  md_assistantId :: "string option"
  md_masterAgentId :: "string option"
  md_texmlAppId :: "string option"

definition noMeta :: step_meta where
  "noMeta = \<lparr>md_selectedPhoneNumber = None, md_numberOrderId = None, md_phoneNumber = None,
     md_telnyxPhoneNumberId = None, md_assistantId = None, md_masterAgentId = None, md_texmlAppId = None\<rparr>"

record step_row =
  st_id :: uuid
  st_locationId :: uuid
  st_organizationId :: uuid
  st_stepName :: string
  st_stepOrder :: int
  st_status :: string
  st_attempts :: int
  st_lastError :: "string option"
  st_metadata :: "step_meta option"
  st_startedAt :: "int option"
  st_completedAt :: "int option"

record subscription_row =
  sub_id :: uuid
  sub_organizationId :: uuid
  sub_locationId :: "uuid option"
  sub_planId :: string
  sub_status :: string

section \<open>Requests to the telephony service\<close>

datatype telnyx_request =
    GetAssistants
  | GetAssistant string
  | CloneAssistant string
  | RenameAssistant string string
  | PatchVariables string "(string \<times> string) list"
  | DeleteAssistant string
  | SearchNumbers string "string option" "string option" int
  | NumbersByConnection string
  | NumbersByNumber string
  | CreateNumberOrder string
  | GetNumberOrder "string option"
  | RouteNumber string string
  | DeletePhoneNumber string

text \<open>An assistant comes bare or wrapped in \<open>data\<close>.\<close>

record assistant =
  as_id :: "string option"
  as_texmlAppId :: "string option"
  as_variables :: "(string \<times> string) list option"

record assistant_reply = assistant +
  as_data :: "assistant option"

record phone_number =
  no_id :: "string option"
  no_phoneNumber :: "string option"

record number_order =
  ono_id :: "string option"
  ono_status :: "string option"

record telnyx =
  tx_assistant :: "telnyx_request list \<Rightarrow> telnyx_request \<Rightarrow> error + assistant_reply"
  tx_numbers :: "telnyx_request list \<Rightarrow> telnyx_request \<Rightarrow> error + phone_number list option"
  tx_order :: "telnyx_request list \<Rightarrow> telnyx_request \<Rightarrow> error + number_order option"
  tx_update :: "telnyx_request list \<Rightarrow> telnyx_request \<Rightarrow> error + unit"

section \<open>The world of an account\<close>

text \<open>The id of a job: \<open>provision-<location>\<close>, or that with the time of a retry.\<close>

datatype job_key = FirstRun uuid | RetryRun uuid int

record provision_job =
  pj_key :: job_key
  pj_organizationId :: uuid
  pj_locationId :: uuid
  pj_adminEmail :: "string option"
  pj_attemptsMade :: nat

record import_job =
  ij_orgId :: uuid
  ij_url :: string
  ij_locationId :: uuid

record tenancy =
  tn_world :: world
  tn_orgs :: "company_row list"
  tn_sites :: "site_row list"
  tn_invitations :: "invitation_row list"
  tn_steps :: "step_row list"
  tn_subscriptions :: "subscription_row list"
  tn_jobs :: "provision_job list"
  tn_imports :: "import_job list"
  tn_telnyx :: "telnyx_request list"

type_synonym 'a tenant = "(tenancy, 'a) program"

definition worldM :: "'a handler \<Rightarrow> 'a tenant" where
  "worldM m s = (case m (tn_world s) of (r, w) \<Rightarrow> (r, s\<lparr>tn_world := w\<rparr>))"

definition clockM :: "int tenant" where
  "clockM = getsM (\<lambda>s. w_now (tn_world s))"

lemma worldM_run [prog]: "m (tn_world s) = (r, w) \<Longrightarrow> worldM m s = (r, s\<lparr>tn_world := w\<rparr>)"
  by (simp add: worldM_def)

lemma clockM_simps [prog, simp]:
  "clockM s = (Inr (w_now (tn_world s)), s)" "bindM clockM f s = f (w_now (tn_world s)) s"
  by (simp_all add: clockM_def)

definition auditM :: "string \<Rightarrow> uuid option \<Rightarrow> uuid \<Rightarrow> string \<Rightarrow> json \<Rightarrow> unit tenant" where
  "auditM action user org entity v = worldM (emitM (Audit action user (Some org) entity v))"

text \<open>\<open>db.transaction\<close>: a thrown error restores every table.\<close>

definition atomicM :: "'a tenant \<Rightarrow> 'a tenant" where
  "atomicM m s =
     (case m s of
        (Inl e, s') \<Rightarrow> (Inl e, s'\<lparr>tn_world := (tn_world s')\<lparr>w_db := w_db (tn_world s)\<rparr>, tn_orgs := tn_orgs s,
           tn_sites := tn_sites s, tn_invitations := tn_invitations s, tn_steps := tn_steps s,
           tn_subscriptions := tn_subscriptions s\<rparr>)
      | (Inr a, s') \<Rightarrow> (Inr a, s'))"

definition orgById :: "uuid \<Rightarrow> tenancy \<Rightarrow> company_row option" where
  "orgById i s = first_row (\<lambda>r. org_id r = i) (tn_orgs s)"

definition siteById :: "uuid \<Rightarrow> tenancy \<Rightarrow> site_row option" where
  "siteById i s = first_row (\<lambda>r. loc_id r = i) (tn_sites s)"

text \<open>Reading a field of a row that is not there.\<close>

definition undefinedRead :: error where
  "undefinedRead = GenericError ''Cannot read properties of undefined''"

definition siteM :: "uuid \<Rightarrow> site_row tenant" where
  "siteM i = bindM (getsM (siteById i)) (\<lambda>r. orThrow r undefinedRead)"

definition orgM :: "uuid \<Rightarrow> company_row tenant" where
  "orgM i = bindM (getsM (orgById i)) (\<lambda>r. orThrow r undefinedRead)"

definition setOrg :: "uuid \<Rightarrow> (company_row \<Rightarrow> company_row) \<Rightarrow> unit tenant" where
  "setOrg i f = modifyM (\<lambda>s. s\<lparr>tn_orgs := update_where (\<lambda>r. org_id r = i) f (tn_orgs s)\<rparr>)"

definition setSite :: "uuid \<Rightarrow> (site_row \<Rightarrow> site_row) \<Rightarrow> unit tenant" where
  "setSite i f = modifyM (\<lambda>s. s\<lparr>tn_sites := update_where (\<lambda>r. loc_id r = i) f (tn_sites s)\<rparr>)"

text \<open>A phone number backs one live location.\<close>

definition phoneTaken :: "string option \<Rightarrow> uuid \<Rightarrow> tenancy \<Rightarrow> bool" where
  "phoneTaken phone i s \<longleftrightarrow> phone \<noteq> None \<and>
     list_ex (\<lambda>r. loc_deletedAt r = None \<and> ste_phoneNumber r = phone \<and> loc_id r \<noteq> i) (tn_sites s)"

definition claimPhone :: "uuid \<Rightarrow> string option \<Rightarrow> string option \<Rightarrow> unit tenant" where
  "claimPhone i phone telnyxId =
     bindM (getsM (phoneTaken phone i)) (\<lambda>taken.
       thenM (throw_if taken (UniqueViolation ''idx_locations_phone_number_unique''))
         (setSite i (\<lambda>r. r\<lparr>ste_phoneNumber := phone, ste_telnyxPhoneNumberId := telnyxId\<rparr>)))"

definition insertCompany :: "company_row \<Rightarrow> unit tenant" where
  "insertCompany r = bindM (getsM tn_orgs) (\<lambda>rs.
     thenM (throw_if (list_ex (\<lambda>x. cmp_deletedAt x = None \<and> js_lower (cmp_name x) = js_lower (cmp_name r)) rs)
              (UniqueViolation ''idx_organizations_name_unique''))
       (modifyM (\<lambda>s. s\<lparr>tn_orgs := tn_orgs s @ [r]\<rparr>)))"

definition insertSite :: "site_row \<Rightarrow> unit tenant" where
  "insertSite r = bindM (getsM tn_sites) (\<lambda>rs.
     thenM (throw_if (list_ex (\<lambda>x. loc_deletedAt x = None \<and> loc_organizationId x = loc_organizationId r \<and>
                         js_lower (ste_name x) = js_lower (ste_name r)) rs)
              (UniqueViolation ''idx_locations_org_name_unique''))
    (bindM (getsM (phoneTaken (ste_phoneNumber r) (loc_id r))) (\<lambda>taken.
     thenM (throw_if taken (UniqueViolation ''idx_locations_phone_number_unique''))
       (modifyM (\<lambda>s. s\<lparr>tn_sites := tn_sites s @ [r]\<rparr>)))))"

text \<open>A request is on record whether or not it is answered.\<close>

definition askM :: "(telnyx_request list \<Rightarrow> telnyx_request \<Rightarrow> error + 'a) \<Rightarrow> telnyx_request \<Rightarrow> 'a tenant" where
  "askM answer req = bindM (getsM tn_telnyx) (\<lambda>log.
     thenM (modifyM (\<lambda>s. s\<lparr>tn_telnyx := log @ [req]\<rparr>)) (liftE (answer log req)))"

lemma askM_run: "askM answer req s = (answer (tn_telnyx s) req, s\<lparr>tn_telnyx := tn_telnyx s @ [req]\<rparr>)"
  by (simp add: askM_def liftE_def)

lemma bindM_askM: "bindM (askM answer req) f s =
    (case answer (tn_telnyx s) req of Inl e \<Rightarrow> (Inl e, s\<lparr>tn_telnyx := tn_telnyx s @ [req]\<rparr>)
     | Inr a \<Rightarrow> f a (s\<lparr>tn_telnyx := tn_telnyx s @ [req]\<rparr>))"
  by (simp add: bindM_def askM_run)

text \<open>\<open>{ ...existing, ...variables }\<close>\<close>

definition mergeVariables :: "(string \<times> string) list \<Rightarrow> (string \<times> string) list \<Rightarrow> (string \<times> string) list" where
  "mergeVariables existing variables = fold (\<lambda>kv. AList.update (fst kv) (snd kv)) variables existing"

definition unwrapAssistant :: "assistant_reply \<Rightarrow> assistant" where
  "unwrapAssistant r = nvl (as_data r) (assistant.truncate r)"

definition setAssistantDynamicVariablesOrThrow :: "telnyx \<Rightarrow> string \<Rightarrow> (string \<times> string) list \<Rightarrow> unit tenant" where
  "setAssistantDynamicVariablesOrThrow tx i variables =
     bindM (askM (tx_assistant tx) (GetAssistant i)) (\<lambda>res.
       let a = unwrapAssistant res in
       if \<not> truthy (as_id a)
       then throwM (GenericError (''Assistant '' @ i @ '' not found when trying to update dynamic variables.''))
       else askM (tx_update tx) (PatchVariables i (mergeVariables (nvl (as_variables a) []) variables)))"

section \<open>Slugs\<close>

text \<open>
  \<open>name.toLowerCase().replace(/[^a-z0-9]+/g, '-').replace(/(^-|-$)/g, '')\<close>: the runs of other
  characters become one dash each, and a dash at either end goes.
\<close>

definition slugChar :: "char \<Rightarrow> bool" where
  "slugChar c \<longleftrightarrow> is_digit c \<or> 97 \<le> (of_char c :: nat) \<and> (of_char c :: nat) \<le> 122"

fun dashed :: "bool \<Rightarrow> string \<Rightarrow> string" where
  "dashed inRun [] = []"
| "dashed inRun (c # s) =
     (if slugChar c then c # dashed False s else if inRun then dashed True s else CHR ''-'' # dashed True s)"

definition dropDash :: "string \<Rightarrow> string" where
  "dropDash s = (if take 1 s = ''-'' then drop 1 s else s)"

definition slugBase :: "string \<Rightarrow> string" where
  "slugBase name = rev (dropDash (rev (dropDash (dashed False (js_lower name)))))"

definition generateUniqueSlug :: "string \<Rightarrow> string tenant" where
  "generateUniqueSlug name = bindM (worldM freshId) (\<lambda>suffix. returnM (slugBase name @ ''-'' @ suffix))"

end
