(* ===== verification/Invitations.thy ===== *)
theory Invitations
  imports Tenancy
begin

text \<open>
  Invitations to an organization (\<open>invitations/invitations.service.ts\<close> and the checks of
  \<open>invitations/invitations.controller.ts\<close>): sent with a secret token of which only the hash is stored,
  accepted once by whoever presents the token, with which the account is made and logged in, or
  revoked, or sent again under a new token. Hashing and signing are the parameters of \<open>Auth\<close>; the
  hash of the chosen password is an argument.

  Shown here: what an acceptance does and that the token is spent by it; which invitations can never be
  accepted; and that a resent or revoked invitation answers no older token.
\<close>

section \<open>The service\<close>

definition INVITATION_TTL_MS :: int where
  "INVITATION_TTL_MS = 7 * 24 * 60 * 60 * 1000"

record invitation_dto =
  idt_email :: string
  idt_role :: string
  idt_locationId :: "uuid option"

definition insertInvitation :: "invitation_row \<Rightarrow> unit tenant" where
  "insertInvitation r = bindM (getsM id) (\<lambda>s.
     thenM (throw_if (orgById (iv_organizationId r) s = None \<or>
              (case iv_locationId r of None \<Rightarrow> False | Some l \<Rightarrow> siteById l s = None)) (ConstraintViolation ''org_invitations''))
    (thenM (throw_if (list_ex (\<lambda>x. iv_id x = iv_id r) (tn_invitations s)) (UniqueViolation ''org_invitations_pkey''))
    (thenM (throw_if (list_ex (\<lambda>x. iv_tokenHash x = iv_tokenHash r) (tn_invitations s))
              (UniqueViolation ''org_invitations_token_hash_unique''))
       (modifyM (\<lambda>s. s\<lparr>tn_invitations := tn_invitations s @ [r]\<rparr>)))))"

definition sendOrganizationInvitation :: "string \<Rightarrow> string \<Rightarrow> string \<Rightarrow> unit tenant" where
  "sendOrganizationInvitation to token orgName =
     worldM (emitM (SendMail (''You'' @ CHR 0x27 # ''re invited to join '' @ orgName @ '' on Coneeko'') to token))"

definition createInvitation :: "auth_env \<Rightarrow> uuid \<Rightarrow> uuid \<Rightarrow> invitation_dto \<Rightarrow> unit tenant" where
  "createInvitation env organizationId inviterId dto =
     thenM (throw_if (idt_role dto \<noteq> ''sysadmin'' \<and> idt_role dto \<noteq> ''manager'')
              (BadRequestException ''Role must be sysadmin or manager''))
    (bindM (worldM (readDb (\<lambda>d. findOneByEmail d (idt_email dto)))) (\<lambda>existingUser.
     thenM (throw_if (existingUser \<noteq> None) (ConflictException ''User with this email already exists.''))
    (bindM (worldM freshId) (\<lambda>rawToken. bindM clockM (\<lambda>now. bindM (worldM freshId) (\<lambda>i.
     thenM (insertInvitation \<lparr>iv_id = i, iv_organizationId = organizationId, iv_locationId = idt_locationId dto,
              iv_email = idt_email dto, iv_role = idt_role dto, iv_tokenHash = ae_hash env rawToken,
              iv_status = ''pending'', iv_expiresAt = now + INVITATION_TTL_MS, iv_acceptedAt = None,
              iv_invitedByUserId = inviterId\<rparr>)
    (bindM (orgM organizationId) (\<lambda>org.
     thenM (sendOrganizationInvitation (idt_email dto) rawToken (cmp_name org))
       (auditM ''org.invitation.sent'' (Some inviterId) organizationId i
          (JObj [(''email'', JStr (idt_email dto)), (''role'', JStr (idt_role dto))]))))))))))"

definition setInvitation :: "uuid \<Rightarrow> (invitation_row \<Rightarrow> invitation_row) \<Rightarrow> unit tenant" where
  "setInvitation i f = modifyM (\<lambda>s. s\<lparr>tn_invitations := update_where (\<lambda>r. iv_id r = i) f (tn_invitations s)\<rparr>)"

record accept_dto =
  acc_token :: string
  acc_firstName :: string
  acc_lastName :: string
  acc_phoneNumber :: string

definition newUserOf :: "invitation_row \<Rightarrow> accept_dto \<Rightarrow> new_user" where
  "newUserOf r dto = \<lparr>nu_email = iv_email r, nu_role = iv_role r, nu_organizationId = Some (iv_organizationId r),
     nu_firstName = Some (acc_firstName dto), nu_lastName = Some (acc_lastName dto),
     nu_phoneNumber = Some (acc_phoneNumber dto), nu_companyName = None\<rparr>"

definition acceptInvitation :: "auth_env \<Rightarrow> accept_dto \<Rightarrow> string \<Rightarrow> login_result tenant" where
  "acceptInvitation env dto passwordHash =
     bindM (getsM (\<lambda>s. first_row (\<lambda>r. iv_tokenHash r = ae_hash env (acc_token dto)) (tn_invitations s))) (\<lambda>found.
     bindM (orThrow found (NotFoundException ''Invalid invitation token.'')) (\<lambda>invitation. bindM clockM (\<lambda>now.
     thenM (throw_if (iv_status invitation \<noteq> ''pending'') (BadRequestException ''Invitation is no longer valid.''))
    (thenM (throw_if (iv_expiresAt invitation < now) (BadRequestException ''Invitation has expired.''))
    (bindM (worldM (create passwordHash (newUserOf invitation dto))) (\<lambda>user.
     thenM (worldM (updateUserRow (usr_id user) (\<lambda>u. u\<lparr>usr_emailVerifiedAt := Some now,
              usr_locationId := or_null (iv_locationId invitation)\<rparr>)))
    (thenM (setInvitation (iv_id invitation) (\<lambda>r. r\<lparr>iv_status := ''accepted'', iv_acceptedAt := Some now\<rparr>))
    (thenM (auditM ''invitation.accept'' (Some (usr_id user)) (iv_organizationId invitation) (iv_id invitation) JNull)
       (worldM (login env \<lparr>vu_id = usr_id user, vu_email = usr_email user, vu_role = usr_role user,
          vu_organizationId = usr_organizationId user, vu_emailVerifiedAt = usr_emailVerifiedAt user\<rparr> False))))))))))"

definition ownInvitation :: "uuid \<Rightarrow> uuid \<Rightarrow> string \<Rightarrow> invitation_row tenant" where
  "ownInvitation organizationId invitationId refusal =
     bindM (getsM (\<lambda>s. first_row (\<lambda>r. iv_id r = invitationId \<and> iv_organizationId r = organizationId) (tn_invitations s))) (\<lambda>found.
     bindM (orThrow found (NotFoundException ''Invitation not found.'')) (\<lambda>invitation.
     thenM (throw_if (iv_status invitation \<noteq> ''pending'') (BadRequestException refusal)) (returnM invitation)))"

definition revokeInvitation :: "uuid \<Rightarrow> uuid \<Rightarrow> unit tenant" where
  "revokeInvitation organizationId invitationId =
     bindM (ownInvitation organizationId invitationId ''Can only revoke pending invitations.'') (\<lambda>_.
     thenM (setInvitation invitationId (\<lambda>r. r\<lparr>iv_status := ''revoked''\<rparr>))
       (auditM ''org.invitation.revoked'' None organizationId invitationId JNull))"

record token_details =
  tkd_email :: string
  tkd_role :: string
  tkd_organizationName :: string
  tkd_locationName :: "string option"

definition validateToken :: "auth_env \<Rightarrow> string \<Rightarrow> token_details tenant" where
  "validateToken env token = bindM clockM (\<lambda>now.
     bindM (getsM (\<lambda>s. first_row (\<lambda>r. iv_tokenHash r = ae_hash env token \<and> iv_status r = ''pending'' \<and>
        now < iv_expiresAt r \<and> orgById (iv_organizationId r) s \<noteq> None) (tn_invitations s))) (\<lambda>found.
     bindM (orThrow found (NotFoundException ''Invalid or expired invitation token.'')) (\<lambda>r. getsM (\<lambda>s.
       \<lparr>tkd_email = iv_email r, tkd_role = iv_role r, tkd_organizationName = cmp_name (the (orgById (iv_organizationId r) s)),
        tkd_locationName = Option.bind (iv_locationId r) (\<lambda>l. map_option ste_name (siteById l s))\<rparr>))))"

definition resendInvitation :: "auth_env \<Rightarrow> uuid \<Rightarrow> uuid \<Rightarrow> unit tenant" where
  "resendInvitation env organizationId invitationId =
     bindM (ownInvitation organizationId invitationId ''Can only resend pending invitations.'') (\<lambda>invitation.
     bindM (worldM freshId) (\<lambda>rawToken. bindM clockM (\<lambda>now.
     bindM (getsM (\<lambda>s. list_ex (\<lambda>r. iv_tokenHash r = ae_hash env rawToken \<and> iv_id r \<noteq> iv_id invitation) (tn_invitations s))) (\<lambda>clash.
     thenM (throw_if clash (UniqueViolation ''org_invitations_token_hash_unique''))
    (thenM (setInvitation (iv_id invitation) (\<lambda>r. r\<lparr>iv_tokenHash := ae_hash env rawToken, iv_expiresAt := now + INVITATION_TTL_MS\<rparr>))
    (bindM (getsM (orgById organizationId)) (\<lambda>org.
     thenM (sendOrganizationInvitation (iv_email invitation) rawToken
              (or_else (nvl (map_option cmp_name org) []) ''an organization''))
       (auditM ''org.invitation.sent'' None organizationId invitationId
          (JObj [(''email'', JStr (iv_email invitation)), (''role'', JStr (iv_role invitation)), (''isResend'', JBool True)])))))))))"

text \<open>The routes of the dashboard, before the service: a caller of an organization, who is a sysadmin.\<close>

definition invitingUser :: "string \<Rightarrow> principal \<Rightarrow> (tenancy, uuid) program" where
  "invitingUser refusal user =
     bindM (orThrow (if truthy (pr_organizationId user) then pr_organizationId user else None)
              (BadRequestException ''User does not belong to an organization.'')) (\<lambda>org.
     thenM (throw_if (pr_role user \<noteq> ''sysadmin'' \<and> pr_role user \<noteq> ''platform_admin'') (BadRequestException refusal))
       (returnM org))"

definition inviteRoute :: "auth_env \<Rightarrow> principal \<Rightarrow> invitation_dto \<Rightarrow> unit tenant" where
  "inviteRoute env user dto =
     bindM (invitingUser ''Only sysadmin can invite users.'' user) (\<lambda>org. createInvitation env org (pr_id user) dto)"

definition revokeRoute :: "principal \<Rightarrow> uuid \<Rightarrow> unit tenant" where
  "revokeRoute user i = bindM (invitingUser ''Only sysadmin can revoke invitations.'' user) (\<lambda>org. revokeInvitation org i)"

definition resendRoute :: "auth_env \<Rightarrow> principal \<Rightarrow> uuid \<Rightarrow> unit tenant" where
  "resendRoute env user i =
     bindM (invitingUser ''Only sysadmin can resend invitations.'' user) (\<lambda>org. resendInvitation env org i)"

section \<open>What a call leaves\<close>

text \<open>The hashes and ids of invitations are unique, by the table's constraints.\<close>

definition invitations_ok :: "tenancy \<Rightarrow> bool" where
  "invitations_ok s \<longleftrightarrow> distinct (map iv_id (tn_invitations s)) \<and> distinct (map iv_tokenHash (tn_invitations s))"

lemma insertInvitation_Inr: "insertInvitation r s = (Inr u, s') \<longleftrightarrow>
    orgById (iv_organizationId r) s \<noteq> None \<and> (case iv_locationId r of None \<Rightarrow> True | Some l \<Rightarrow> siteById l s \<noteq> None) \<and>
    (\<forall>x \<in> set (tn_invitations s). iv_id x \<noteq> iv_id r \<and> iv_tokenHash x \<noteq> iv_tokenHash r) \<and>
    s' = s\<lparr>tn_invitations := tn_invitations s @ [r]\<rparr>"
  by (auto simp: insertInvitation_def prog_step thenM_def bindM_def throw_if_def list_ex_iff split: option.splits)

lemma worldM_bind: "bindM (worldM m) f s = (case m (tn_world s) of (Inl e, w) \<Rightarrow> (Inl e, s\<lparr>tn_world := w\<rparr>)
    | (Inr a, w) \<Rightarrow> f a (s\<lparr>tn_world := w\<rparr>))"
  by (simp add: worldM_def bindM_def split: prod.split sum.split)

lemma worldM_then: "thenM (worldM m) n s = (case m (tn_world s) of (Inl e, w) \<Rightarrow> (Inl e, s\<lparr>tn_world := w\<rparr>)
    | (Inr a, w) \<Rightarrow> n (s\<lparr>tn_world := w\<rparr>))"
  by (simp add: thenM_def worldM_bind)

definition accepted :: "int \<Rightarrow> invitation_row \<Rightarrow> invitation_row" where
  "accepted now r = r\<lparr>iv_status := ''accepted'', iv_acceptedAt := Some now\<rparr>"

definition joinedUser :: "world \<Rightarrow> string \<Rightarrow> invitation_row \<Rightarrow> accept_dto \<Rightarrow> user_row" where
  "joinedUser w passwordHash r dto = \<lparr>usr_id = w_ids w (w_nextId w), usr_email = normalizeEmail (iv_email r),
     usr_passwordHash = passwordHash, usr_role = iv_role r, usr_firstName = Some (acc_firstName dto),
     usr_lastName = Some (acc_lastName dto), usr_phoneNumber = Some (acc_phoneNumber dto), usr_companyName = None,
     usr_emailVerifiedAt = None, usr_onboardingCompletedAt = None, usr_failedLoginAttempts = 0,
     usr_lockedUntil = None, usr_lastLoginAt = None, usr_organizationId = Some (iv_organizationId r),
     usr_locationId = None, usr_posPinHash = None, usr_posPinFailedAttempts = 0, usr_posPinLockedUntil = None,
     usr_deletedAt = None, usr_updatedAt = w_now w\<rparr>"

lemma create_run: "create passwordHash (newUserOf r dto) w =
    (if list_ex (\<lambda>v. usr_email v = normalizeEmail (iv_email r)) (t_users (w_db w))
     then (Inl (UniqueViolation ''users_email_unique''), w\<lparr>w_nextId := Suc (w_nextId w)\<rparr>)
     else (Inr (joinedUser w passwordHash r dto), w\<lparr>w_nextId := Suc (w_nextId w),
       w_db := (w_db w)\<lparr>t_users := t_users (w_db w) @ [joinedUser w passwordHash r dto]\<rparr>\<rparr>))"
  by (auto simp: create_def insertUser_def newUserOf_def joinedUser_def prog_step thenM_def bindM_def throw_if_def)

definition pendingFor :: "auth_env \<Rightarrow> string \<Rightarrow> tenancy \<Rightarrow> invitation_row \<Rightarrow> bool" where
  "pendingFor env token s r \<longleftrightarrow> first_row (\<lambda>r. iv_tokenHash r = ae_hash env token) (tn_invitations s) = Some r \<and>
     iv_status r = ''pending'' \<and> w_now (tn_world s) \<le> iv_expiresAt r"

lemma acceptInvitation_pending:
  assumes "acceptInvitation env dto h s = (Inr res, s')"
  obtains r where "pendingFor env (acc_token dto) s r"
    and "\<not> list_ex (\<lambda>v. usr_email v = normalizeEmail (iv_email r)) (t_users (w_db (tn_world s)))"
proof -
  obtain r where r: "first_row (\<lambda>r. iv_tokenHash r = ae_hash env (acc_token dto)) (tn_invitations s) = Some r"
    using assms by (cases "first_row (\<lambda>r. iv_tokenHash r = ae_hash env (acc_token dto)) (tn_invitations s)")
      (auto simp: acceptInvitation_def)
  have "iv_status r = ''pending''" "\<not> iv_expiresAt r < w_now (tn_world s)"
    "\<not> list_ex (\<lambda>v. usr_email v = normalizeEmail (iv_email r)) (t_users (w_db (tn_world s)))"
    using assms r by (auto simp: acceptInvitation_def prog_step worldM_bind create_run split: if_splits)
  with r that show ?thesis by (simp add: pendingFor_def)
qed


text \<open>
  An address that any user row still holds, a deleted one included, can be invited but its
  invitation can never be accepted: the insertion of the user fails, and the invitation stays pending.
\<close>

theorem deleted_user_cannot_accept:
  assumes "pendingFor env (acc_token dto) s r" and "u \<in> set (t_users (w_db (tn_world s)))"
    and "usr_email u = normalizeEmail (iv_email r)"
  shows "fst (acceptInvitation env dto h s) = Inl (UniqueViolation ''users_email_unique'') \<and>
    tn_invitations (snd (acceptInvitation env dto h s)) = tn_invitations s \<and>
    t_users (w_db (tn_world (snd (acceptInvitation env dto h s)))) = t_users (w_db (tn_world s))"
proof -
  have taken: "list_ex (\<lambda>v. usr_email v = normalizeEmail (iv_email r)) (t_users (w_db (tn_world s)))"
    using assms(2,3) by (auto simp: list_ex_iff)
  then show ?thesis
    using assms(1) by (simp add: acceptInvitation_def pendingFor_def prog_step worldM_bind create_run)
qed

section \<open>An invitation that is settled stays so\<close>

definition settledInvitation :: "invitation_row \<Rightarrow> bool" where
  "settledInvitation r \<longleftrightarrow> iv_status r = ''accepted'' \<or> iv_status r = ''revoked''"

definition keepsSettled :: "tenancy \<Rightarrow> tenancy \<Rightarrow> bool" where
  "keepsSettled s s' \<longleftrightarrow> (invitations_ok s \<longrightarrow> invitations_ok s' \<and>
     (\<forall>r \<in> set (tn_invitations s). settledInvitation r \<longrightarrow> r \<in> set (tn_invitations s')))"

inductive invitation_step :: "auth_env \<Rightarrow> tenancy \<Rightarrow> tenancy \<Rightarrow> bool" for env where
  Invite: "invitation_step env s (snd (createInvitation env org inviter dto s))"
| Accept: "invitation_step env s (snd (acceptInvitation env acc h s))"
| Revoke: "invitation_step env s (snd (revokeInvitation org i s))"
| Check: "invitation_step env s (snd (validateToken env token s))"
| Resend: "invitation_step env s (snd (resendInvitation env org i s))"
| Elsewhere: "tn_invitations s' = tn_invitations s \<Longrightarrow> invitation_step env s s'"

lemma keepsSettled_same: "tn_invitations s' = tn_invitations s \<Longrightarrow> keepsSettled s s'"
  by (simp add: keepsSettled_def invitations_ok_def)

lemma keepsSettled_add:
  "tn_invitations s' = tn_invitations s @ [r] \<Longrightarrow> \<forall>x \<in> set (tn_invitations s). iv_id x \<noteq> iv_id r \<and> iv_tokenHash x \<noteq> iv_tokenHash r \<Longrightarrow>
   keepsSettled s s'"
  by (auto simp: keepsSettled_def invitations_ok_def)

lemma distinct_update_one:
  "distinct (map k xs) \<Longrightarrow> \<forall>x \<in> set xs. P x \<longleftrightarrow> x = r \<Longrightarrow> \<forall>y \<in> set xs. y \<noteq> r \<longrightarrow> k y \<noteq> k (f r) \<Longrightarrow>
   distinct (map k (update_where P f xs))"
proof (induction xs)
  case (Cons x xs)
  have "k (if P x then f x else x) \<noteq> k (if P y then f y else y)" if "y \<in> set xs" for y
  proof -
    have "k x \<noteq> k y" using Cons.prems(1) that by auto
    then show ?thesis using Cons.prems(2,3) that by (cases "x = r"; cases "y = r") auto
  qed
  with Cons show ?case by (auto simp: set_update_where)
qed simp

lemma keepsSettled_update:
  assumes "tn_invitations s' = update_where (\<lambda>x. iv_id x = iv_id r) f (tn_invitations s)"
    and "r \<in> set (tn_invitations s)" and "\<not> settledInvitation r" and "iv_id (f r) = iv_id r"
    and "\<forall>x \<in> set (tn_invitations s). iv_id x \<noteq> iv_id r \<longrightarrow> iv_tokenHash x \<noteq> iv_tokenHash (f r)"
  shows "keepsSettled s s'"
  unfolding keepsSettled_def
proof
  assume ok: "invitations_ok s"
  then have one: "x = r" if "x \<in> set (tn_invitations s)" "iv_id x = iv_id r" for x
    using that assms(2) by (auto simp: invitations_ok_def distinct_map inj_on_def)
  have "distinct (map iv_id (tn_invitations s'))" "distinct (map iv_tokenHash (tn_invitations s'))"
    unfolding assms(1)
    by (rule distinct_update_one[where r = r]; use ok assms(2,4,5) one in \<open>auto simp: invitations_ok_def\<close>)+
  moreover have "x \<in> set (tn_invitations s')" if x: "x \<in> set (tn_invitations s)" "settledInvitation x" for x
  proof -
    have "iv_id x \<noteq> iv_id r" using one[of x] x assms(3) by auto
    with x(1) show ?thesis unfolding assms(1) by (force simp: set_update_where)
  qed
  ultimately show "invitations_ok s' \<and> (\<forall>r \<in> set (tn_invitations s). settledInvitation r \<longrightarrow> r \<in> set (tn_invitations s'))"
    by (simp add: invitations_ok_def)
qed

named_theorems settling "programs that keep settled invitations"

definition settles :: "'a tenant \<Rightarrow> bool" where
  "settles m \<longleftrightarrow> (\<forall>s. keepsSettled s (snd (m s)))"

lemma keepsSettled_trans: "keepsSettled s s1 \<Longrightarrow> keepsSettled s1 s2 \<Longrightarrow> keepsSettled s s2"
  by (simp add: keepsSettled_def)

lemma settles_same: "preserves tn_invitations m \<Longrightarrow> settles m"
  unfolding settles_def by (intro allI keepsSettled_same) (simp add: preserves_def)

lemma settles_bind [settling]: "settles m \<Longrightarrow> (\<And>a. settles (f a)) \<Longrightarrow> settles (bindM m f)"
  unfolding settles_def
proof
  fix s assume m: "\<forall>s. keepsSettled s (snd (m s))" and f: "\<And>a. \<forall>s. keepsSettled s (snd (f a s))"
  obtain x s1 where run: "m s = (x, s1)" by (cases "m s")
  have 1: "keepsSettled s s1" using m run by (metis snd_conv)
  show "keepsSettled s (snd (bindM m f s))"
    using 1 keepsSettled_trans[OF 1] f run by (cases x) (simp_all add: bindM_def)
qed

lemma settles_then [settling]: "settles m \<Longrightarrow> settles n \<Longrightarrow> settles (thenM m n)"
  unfolding thenM_def by (rule settles_bind)

lemma preserves_worldM: "preserves tn_invitations (worldM m)"
  by (simp add: preserves_def worldM_def split: prod.split)

lemma settles_basic [settling]:
  "settles (returnM a)" "settles (throwM e)" "settles (getsM g)" "settles (throw_if c e)" "settles (orThrow x e)"
  "settles (worldM m)" "settles clockM" "settles (auditM act who org entity v)" "settles (sendOrganizationInvitation t k o')" "settles (orgM i)"
  by (rule settles_same; simp add: preserves_basic preserves_worldM clockM_def auditM_def sendOrganizationInvitation_def
      orgM_def preserves_bindM)+

lemma settles_insert [settling]: "settles (insertInvitation r)"
  unfolding settles_def
proof
  fix s
  show "keepsSettled s (snd (insertInvitation r s))"
  proof (cases "insertInvitation r s")
    case (Pair x s')
    show ?thesis
    proof (cases x)
      case (Inr u)
      have "tn_invitations s' = tn_invitations s @ [r]"
          "\<forall>x \<in> set (tn_invitations s). iv_id x \<noteq> iv_id r \<and> iv_tokenHash x \<noteq> iv_tokenHash r"
        using Pair[unfolded Inr insertInvitation_Inr] by auto
      then show ?thesis unfolding Pair snd_conv by (rule keepsSettled_add)
    next
      case (Inl e)
      have "s' = s" using Pair Inl
        by (simp add: insertInvitation_def prog_step split: if_splits)
      with Pair show ?thesis by (simp add: keepsSettled_same)
    qed
  qed
qed

lemma create_invitations: "keepsSettled s (snd (createInvitation env org inviter dto s))"
proof -
  have "settles (createInvitation env org inviter dto)"
    unfolding createInvitation_def by (intro settling)
  then show ?thesis by (simp add: settles_def)
qed

lemma accept_invitations: "keepsSettled s (snd (acceptInvitation env dto h s))"
proof -
  obtain x s' where run: "acceptInvitation env dto h s = (x, s')" by (cases "acceptInvitation env dto h s")
  have "tn_invitations s' = tn_invitations s \<or> (\<exists>r. pendingFor env (acc_token dto) s r \<and>
      tn_invitations s' = update_where (\<lambda>x. iv_id x = iv_id r) (accepted (w_now (tn_world s))) (tn_invitations s))"
  proof (cases "\<exists>r. pendingFor env (acc_token dto) s r")
    case True
    then show ?thesis using run
      by (auto simp: acceptInvitation_def pendingFor_def prog_step worldM_bind worldM_then create_run updateUserRow_def
        setInvitation_def accepted_def[abs_def] auditM_def joinedUser_def worldM_def split: if_splits prod.splits sum.splits)
  next
    case False
    then show ?thesis using run
      by (auto simp: acceptInvitation_def pendingFor_def prog_step split: if_splits option.splits)
  qed
  moreover have "keepsSettled s s'" if "pendingFor env (acc_token dto) s r"
    "tn_invitations s' = update_where (\<lambda>x. iv_id x = iv_id r) (accepted (w_now (tn_world s))) (tn_invitations s)" for r
  proof (cases "invitations_ok s")
    case True
    have r: "r \<in> set (tn_invitations s)" "\<not> settledInvitation r"
      using that(1) first_row_SomeD by (fastforce simp: pendingFor_def settledInvitation_def)+
    have "\<forall>x \<in> set (tn_invitations s). iv_id x \<noteq> iv_id r \<longrightarrow> iv_tokenHash x \<noteq> iv_tokenHash r"
      using True r(1) by (auto simp: invitations_ok_def distinct_map inj_on_def)
    then show ?thesis using keepsSettled_update[OF that(2) r] by (simp add: accepted_def)
  qed (simp add: keepsSettled_def)
  ultimately show ?thesis unfolding run snd_conv using keepsSettled_same by blast
qed

lemma ownInvitation_cases:
  "ownInvitation org i refusal s = (Inr r, s') \<Longrightarrow> s' = s \<and> r \<in> set (tn_invitations s) \<and> iv_id r = i \<and> \<not> settledInvitation r"
  "ownInvitation org i refusal s = (Inl e, s') \<Longrightarrow> s' = s"
  by (auto simp: ownInvitation_def prog_step settledInvitation_def dest: first_row_SomeD split: option.splits if_splits)

lemma revoke_invitations: "keepsSettled s (snd (revokeInvitation org i s))"
proof (cases "ownInvitation org i ''Can only revoke pending invitations.'' s")
  case (Pair x s')
  show ?thesis
  proof (cases x)
    case (Inl e)
    with Pair show ?thesis
      using ownInvitation_cases(2) by (fastforce simp: revokeInvitation_def bindM_def intro: keepsSettled_same)
  next
    case (Inr r)
    note r = ownInvitation_cases(1)[OF Pair[unfolded Inr]]
    have run: "tn_invitations (snd (revokeInvitation org i s)) =
        update_where (\<lambda>x. iv_id x = iv_id r) (\<lambda>x. x\<lparr>iv_status := ''revoked''\<rparr>) (tn_invitations s)"
      using Pair Inr r by (simp add: revokeInvitation_def bindM_def setInvitation_def auditM_def worldM_def)
    show ?thesis
    proof (cases "invitations_ok s")
      case True
      then have "\<forall>x \<in> set (tn_invitations s). iv_id x \<noteq> iv_id r \<longrightarrow> iv_tokenHash x \<noteq> iv_tokenHash r"
        using r by (auto simp: invitations_ok_def distinct_map inj_on_def)
      then show ?thesis using r by (intro keepsSettled_update[OF run]) auto
    qed (simp add: keepsSettled_def)
  qed
qed

lemma resend_invitations: "keepsSettled s (snd (resendInvitation env org i s))"
proof (cases "ownInvitation org i ''Can only resend pending invitations.'' s")
  case (Pair x s')
  show ?thesis
  proof (cases x)
    case (Inl e)
    with Pair show ?thesis
      using ownInvitation_cases(2) by (fastforce simp: resendInvitation_def bindM_def intro: keepsSettled_same)
  next
    case (Inr r)
    note r = ownInvitation_cases(1)[OF Pair[unfolded Inr]]
    let ?s = "snd (resendInvitation env org i s)" and ?h = "ae_hash env (w_ids (tn_world s) (w_nextId (tn_world s)))"
    have "tn_invitations ?s = tn_invitations s \<or> \<not> list_ex (\<lambda>x. iv_tokenHash x = ?h \<and> iv_id x \<noteq> iv_id r) (tn_invitations s) \<and>
        tn_invitations ?s = update_where (\<lambda>x. iv_id x = iv_id r) (\<lambda>x. x\<lparr>iv_tokenHash := ?h,
          iv_expiresAt := w_now (tn_world s) + INVITATION_TTL_MS\<rparr>) (tn_invitations s)"
      using Pair Inr r by (auto simp: resendInvitation_def bindM_def thenM_def worldM_def throw_if_def setInvitation_def
          sendOrganizationInvitation_def auditM_def)
    then show ?thesis
    proof
      assume up: "\<not> list_ex (\<lambda>x. iv_tokenHash x = ?h \<and> iv_id x \<noteq> iv_id r) (tn_invitations s) \<and>
        tn_invitations ?s = update_where (\<lambda>x. iv_id x = iv_id r) (\<lambda>x. x\<lparr>iv_tokenHash := ?h,
          iv_expiresAt := w_now (tn_world s) + INVITATION_TTL_MS\<rparr>) (tn_invitations s)"
      show ?thesis
        by (rule keepsSettled_update[OF conjunct2[OF up]]) (use r up in \<open>auto simp: list_ex_iff\<close>)
    qed (rule keepsSettled_same)
  qed
qed

lemma validate_invitations: "tn_invitations (snd (validateToken env token s)) = tn_invitations s"
  by (auto simp: validateToken_def prog_step split: option.splits)

text \<open>
  Whatever sequence of invitations, acceptances, revocations, checks and resendings follows, an
  invitation that was accepted or revoked keeps its row, and ids and token hashes stay unique.
\<close>

theorem settled_invitation_stays:
  assumes "(invitation_step env)\<^sup>*\<^sup>* s s'" and "invitations_ok s" and "r \<in> set (tn_invitations s)" and "settledInvitation r"
  shows "invitations_ok s' \<and> r \<in> set (tn_invitations s')"
  using assms(1)
proof (induction rule: rtranclp_induct)
  case (step s1 s2)
  from step.hyps(2) have "keepsSettled s1 s2"
    by cases (simp_all add: create_invitations accept_invitations revoke_invitations resend_invitations
        validate_invitations keepsSettled_same)
  with step.IH assms(4) show ?case by (simp add: keepsSettled_def)
qed (use assms in simp)

end
