(* ===== verification/Provisioning_Run.thy ===== *)
theory Provisioning_Run
  imports Invitations
begin

text \<open>
  The worker that provisions a location (\<open>provisioning/provisioning.processor.ts\<close>): it reads the steps of
  the location once, then runs those that are not completed in order, each with what the steps stored
  when they were read, and stops at the first that fails, which the queue tries again
  (\<open>queues/queues.module.ts\<close>). What a step hands to later ones it stores in its own row.

  Shown here: a run never repeats a completed step and buys at most one number, none once the location
  holds one; a first run always stops, whatever the telephony service answers, because a step's result
  is not visible to the run that produced it.
\<close>

section \<open>Parameters\<close>

text \<open>The telephony service, the secrets, and the two configured defaults.\<close>

record provision_env =
  pn_telnyx :: telnyx
  pn_auth :: auth_env
  pn_masterAgentId :: "string option"
  pn_connectionId :: "string option"

record provision_data =
  pd_organizationId :: uuid
  pd_locationId :: uuid
  pd_adminEmail :: "string option"

type_synonym stored = "string \<rightharpoonup> step_meta"

text \<open>\<open>a || b\<close> on optional strings.\<close>

definition orStr :: "string option \<Rightarrow> string option \<Rightarrow> string option" where
  "orStr a b = (if truthy a then a else b)"

section \<open>The steps\<close>

definition searchPhoneNumber :: "provision_env \<Rightarrow> uuid \<Rightarrow> step_meta \<Rightarrow> step_meta tenant" where
  "searchPhoneNumber env locationId metadata =
     bindM (siteM locationId) (\<lambda>location.
       if truthy (ste_phoneNumber location)
       then returnM (metadata\<lparr>md_selectedPhoneNumber := ste_phoneNumber location\<rparr>)
       else bindM (askM (tx_numbers (pn_telnyx env)) (SearchNumbers (or_else (ste_country location) ''US'')
                (or_null (ste_state location)) (or_null (ste_city location)) 1)) (\<lambda>res.
         case res of
           Some (n # _) \<Rightarrow> returnM (metadata\<lparr>md_selectedPhoneNumber := no_phoneNumber n\<rparr>)
         | _ \<Rightarrow> throwM (GenericError ''No phone numbers available for the specified criteria.'')))"

text \<open>Up to ten polls, two seconds apart; each checks the status it read before.\<close>

fun pollOrder :: "provision_env \<Rightarrow> string option \<Rightarrow> nat \<Rightarrow> string option \<Rightarrow> unit tenant" where
  "pollOrder env orderId 0 status =
     throw_if (status \<noteq> Some ''success'') (GenericError ''Phone number purchase timed out.'')"
| "pollOrder env orderId (Suc n) status =
     (if status = Some ''success'' then returnM ()
      else thenM (modifyM (\<lambda>s. s\<lparr>tn_world := (tn_world s)\<lparr>w_now := w_now (tn_world s) + 2000\<rparr>\<rparr>))
        (bindM (askM (tx_order (pn_telnyx env)) (GetNumberOrder orderId)) (\<lambda>res.
           let status' = Option.bind res ono_status
           in thenM (throw_if (status' = Some ''failure'') (GenericError ''Phone number purchase failed upstream.''))
                (pollOrder env orderId n status'))))"

definition buyNumber :: "provision_env \<Rightarrow> uuid \<Rightarrow> step_meta \<Rightarrow> string \<Rightarrow> step_meta tenant" where
  "buyNumber env locationId metadata phoneNumber =
     bindM (askM (tx_order (pn_telnyx env)) (CreateNumberOrder phoneNumber)) (\<lambda>res.
       let orderId = Option.bind res ono_id
       in thenM (pollOrder env orderId 10 (Some ''pending''))
         (bindM (askM (tx_numbers (pn_telnyx env)) (NumbersByNumber phoneNumber)) (\<lambda>found.
            case found of
              Some (n # _) \<Rightarrow> thenM (claimPhone locationId (Some phoneNumber) (no_id n))
                (returnM (metadata\<lparr>md_numberOrderId := orderId, md_phoneNumber := Some phoneNumber,
                   md_telnyxPhoneNumberId := no_id n\<rparr>))
            | _ \<Rightarrow> throwM (GenericError ''Phone number purchased but could not retrieve its ID.''))))"

definition purchasePhoneNumber :: "provision_env \<Rightarrow> uuid \<Rightarrow> step_meta \<Rightarrow> stored \<Rightarrow> step_meta tenant" where
  "purchasePhoneNumber env locationId metadata previous =
     bindM (getsM (siteById locationId)) (\<lambda>existing.
       if truthy (Option.bind existing ste_telnyxPhoneNumberId)
       then returnM (metadata\<lparr>md_phoneNumber := Option.bind existing ste_phoneNumber,
              md_telnyxPhoneNumberId := Option.bind existing ste_telnyxPhoneNumberId\<rparr>)
       else let phoneNumber = Option.bind (previous ''search_phone_number'') md_selectedPhoneNumber
         in if truthy phoneNumber then buyNumber env locationId metadata (the phoneNumber)
            else throwM (GenericError ''No phone number found from previous step.''))"

definition cloneNew :: "provision_env \<Rightarrow> uuid \<Rightarrow> step_meta \<Rightarrow> string \<Rightarrow> step_meta tenant" where
  "cloneNew env locationId metadata masterAgentId =
     bindM (askM (tx_assistant (pn_telnyx env)) (CloneAssistant masterAgentId)) (\<lambda>res.
       let assistantId = orStr (as_id res) (Option.bind (as_data res) as_id);
           texmlAppId = orStr (as_texmlAppId res) (Option.bind (as_data res) as_texmlAppId)
       in if \<not> truthy assistantId then throwM (GenericError ''Failed to clone assistant.'')
          else thenM (setSite locationId (\<lambda>r. r\<lparr>ste_telnyxAssistantId := assistantId, ste_masterAgentId := Some masterAgentId\<rparr>))
            (returnM (metadata\<lparr>md_assistantId := assistantId, md_masterAgentId := Some masterAgentId,
               md_texmlAppId := (if truthy texmlAppId then texmlAppId else md_texmlAppId metadata)\<rparr>)))"

definition cloneAgent :: "provision_env \<Rightarrow> uuid \<Rightarrow> step_meta \<Rightarrow> step_meta tenant" where
  "cloneAgent env locationId metadata =
     bindM (siteM locationId) (\<lambda>location.
       if truthy (ste_telnyxAssistantId location)
       then returnM (metadata\<lparr>md_assistantId := ste_telnyxAssistantId location,
              md_masterAgentId := (case ste_masterAgentId location of None \<Rightarrow> md_masterAgentId metadata | m \<Rightarrow> m)\<rparr>)
       else let masterAgentId = orStr (Option.bind (ste_aiSettings location) ai_baseAgentId) (pn_masterAgentId env)
         in if truthy masterAgentId then cloneNew env locationId metadata (the masterAgentId)
            else throwM (GenericError ''No base agent selected and TELNYX_MASTER_AGENT_ID not configured.''))"

definition assignPhoneToAgent :: "provision_env \<Rightarrow> uuid \<Rightarrow> stored \<Rightarrow> unit tenant" where
  "assignPhoneToAgent env locationId previous =
     bindM (getsM (siteById locationId)) (\<lambda>location.
       let bought = Option.bind (previous ''purchase_phone_number'') md_telnyxPhoneNumberId;
           telnyxPhoneNumberId = (if truthy bought then bought else Option.bind location ste_telnyxPhoneNumberId);
           connectionId = orStr (Option.bind (previous ''clone_agent'') md_texmlAppId) (pn_connectionId env)
       in thenM (throw_if (\<not> truthy telnyxPhoneNumberId) (GenericError ''No telnyxPhoneNumberId from previous step.''))
         (thenM (throw_if (\<not> truthy connectionId)
                   (GenericError ''No TeXML App ID found on agent and TELNYX_CONNECTION_ID not configured.''))
            (askM (tx_update (pn_telnyx env)) (RouteNumber (the telnyxPhoneNumberId) (the connectionId)))))"

definition configureAgent :: "provision_env \<Rightarrow> uuid \<Rightarrow> stored \<Rightarrow> unit tenant" where
  "configureAgent env locationId previous =
     (let assistantId = Option.bind (previous ''clone_agent'') md_assistantId
      in thenM (throw_if (\<not> truthy assistantId) (GenericError ''No assistantId from previous step.''))
        (bindM (siteM locationId) (\<lambda>location.
         thenM (askM (tx_update (pn_telnyx env)) (RenameAssistant (the assistantId) (ste_name location @ '' Assistant'')))
           (case Option.bind (ste_aiSettings location) ai_dynamicVariables of
              None \<Rightarrow> returnM ()
            | Some vs \<Rightarrow> setAssistantDynamicVariablesOrThrow (pn_telnyx env) (the assistantId)
                (AList.delete ''order_key'' (normalizePhoneVariables vs))))))"

definition importMenu :: "uuid \<Rightarrow> unit tenant" where
  "importMenu locationId = bindM (siteM locationId) (\<lambda>location.
     let url = Option.bind (ste_aiSettings location) ai_menuUrl in
     if truthy url
     then bindM (getsM (\<lambda>s. w_queueUp (tn_world s))) (\<lambda>up.
       thenM (throw_if (\<not> up) (GenericError ''Connection is closed.''))
         (modifyM (\<lambda>s. s\<lparr>tn_imports := tn_imports s @
            [\<lparr>ij_orgId = loc_organizationId location, ij_url = the url, ij_locationId = locationId\<rparr>]\<rparr>)))
     else returnM ())"

definition registerWebhook :: "provision_env \<Rightarrow> uuid \<Rightarrow> uuid \<Rightarrow> unit tenant" where
  "registerWebhook env organizationId locationId =
     bindM (worldM freshId) (\<lambda>random.
       let newKey = ''sk_live_'' @ random; keyHash = ae_hash (pn_auth env) newKey
       in thenM (setSite locationId (\<lambda>r. r\<lparr>ste_webhookApiKey := Some keyHash\<rparr>))
         (thenM (setOrg organizationId (\<lambda>r. r\<lparr>cmp_webhookApiKey := Some keyHash\<rparr>))
         (bindM (getsM (siteById locationId)) (\<lambda>location.
           let assistantId = Option.bind location ste_telnyxAssistantId
           in thenM (throw_if (\<not> truthy assistantId)
                (GenericError ''Cannot register the webhook key: the location has no Voice AI assistant yet.''))
              (setAssistantDynamicVariablesOrThrow (pn_telnyx env) (the assistantId) [(''order_key'', newKey)])))))"

definition systemUserId :: uuid where
  "systemUserId = ''00000000-0000-0000-0000-000000000000''"

definition sendAdminInvitation :: "provision_env \<Rightarrow> uuid \<Rightarrow> string \<Rightarrow> unit tenant" where
  "sendAdminInvitation env organizationId adminEmail =
     createInvitation (pn_auth env) organizationId systemUserId
       \<lparr>idt_email = adminEmail, idt_role = ''sysadmin'', idt_locationId = None\<rparr>"

section \<open>A run\<close>

definition stepStatusSet :: "string \<Rightarrow> step_meta option \<Rightarrow> string \<Rightarrow> int \<Rightarrow> step_row \<Rightarrow> step_row" where
  "stepStatusSet status metadata err now r = r\<lparr>st_status := status,
     st_metadata := (case metadata of None \<Rightarrow> st_metadata r | m \<Rightarrow> m),
     st_lastError := (if err = [] then st_lastError r else Some err),
     st_startedAt := (if status = ''in_progress'' then Some now else st_startedAt r),
     st_completedAt := (if status = ''completed'' \<or> status = ''failed'' then Some now else st_completedAt r),
     st_attempts := (if status = ''in_progress'' then st_attempts r + 1 else st_attempts r)\<rparr>"

text \<open>The column of the last error holds 2048 characters.\<close>

definition updateStepStatus :: "uuid \<Rightarrow> string \<Rightarrow> step_meta option \<Rightarrow> string \<Rightarrow> unit tenant" where
  "updateStepStatus stepId status metadata err = bindM clockM (\<lambda>now.
     thenM (throw_if (2048 < length err) (GenericError ''value too long for type character varying(2048)''))
       (modifyM (\<lambda>s. s\<lparr>tn_steps := update_where (\<lambda>r. st_id r = stepId) (stepStatusSet status metadata err now) (tn_steps s)\<rparr>)))"

definition getPreviousStepsMetadata :: "step_row list \<Rightarrow> stored" where
  "getPreviousStepsMetadata steps =
     js_map (map (\<lambda>r. (st_stepName r, the (st_metadata r))) (filter (\<lambda>r. st_metadata r \<noteq> None) steps))"

definition stepBody :: "provision_env \<Rightarrow> provision_data \<Rightarrow> string \<Rightarrow> step_meta \<Rightarrow> stored \<Rightarrow> step_meta tenant" where
  "stepBody env data name metadata previous =
     (let locationId = pd_locationId data in
      if name = ''search_phone_number'' then searchPhoneNumber env locationId metadata
      else if name = ''purchase_phone_number'' then purchasePhoneNumber env locationId metadata previous
      else if name = ''clone_agent'' then cloneAgent env locationId metadata
      else thenM
        (if name = ''assign_phone_to_agent'' then assignPhoneToAgent env locationId previous
         else if name = ''configure_agent'' then configureAgent env locationId previous
         else if name = ''import_menu'' then importMenu locationId
         else if name = ''register_webhook'' then registerWebhook env (pd_organizationId data) locationId
         else if name = ''send_admin_invitation'' \<and> truthy (pd_adminEmail data)
         then sendAdminInvitation env (pd_organizationId data) (the (pd_adminEmail data))
         else returnM ())
        (returnM metadata))"

definition stepDone :: "step_row \<Rightarrow> bool" where
  "stepDone r \<longleftrightarrow> st_status r = ''completed'' \<or> st_status r = ''skipped''"

definition tryStep :: "provision_env \<Rightarrow> provision_data \<Rightarrow> stored \<Rightarrow> step_row \<Rightarrow> step_meta tenant" where
  "tryStep env data previous step =
     bindM (stepBody env data (st_stepName step) (nvl (st_metadata step) noMeta) previous) (\<lambda>metadata.
       thenM (updateStepStatus (st_id step) ''completed'' (Some metadata) [])
      (thenM (auditM ''org.provisioning.step_completed'' None (pd_organizationId data) (st_id step) JNull)
         (returnM metadata)))"

definition stepFailed :: "provision_data \<Rightarrow> step_row \<Rightarrow> error \<Rightarrow> 'a tenant" where
  "stepFailed data step err =
     thenM (updateStepStatus (st_id step) ''failed'' None (exceptionText err))
    (thenM (auditM ''org.provisioning.step_failed'' None (pd_organizationId data) (st_id step) JNull)
    (thenM (setSite (pd_locationId data) (\<lambda>r. r\<lparr>ste_status := ''provisioning'', ste_provisioningError := Some (exceptionText err)\<rparr>))
       (throwM err)))"

text \<open>
  One turn of the loop, with the row as it stands in memory afterwards: metadata that was read is
  updated in place, and metadata that was absent starts as an object of its own.
\<close>

definition runStep :: "provision_env \<Rightarrow> provision_data \<Rightarrow> stored \<Rightarrow> step_row \<Rightarrow> step_row tenant" where
  "runStep env data previous step =
     (if stepDone step then returnM step
      else thenM (updateStepStatus (st_id step) ''in_progress'' None [])
        (bindM (catchM (tryStep env data previous step) (stepFailed data step)) (\<lambda>metadata.
           returnM (if st_metadata step = None then step else step\<lparr>st_metadata := Some metadata\<rparr>))))"

fun runSteps :: "provision_env \<Rightarrow> provision_data \<Rightarrow> step_row list \<Rightarrow> step_row list \<Rightarrow> unit tenant" where
  "runSteps env data seen [] = returnM ()"
| "runSteps env data seen (step # steps) =
     bindM (runStep env data (getPreviousStepsMetadata (seen @ step # steps)) step) (\<lambda>step'.
       runSteps env data (seen @ [step']) steps)"

definition stepsOf :: "uuid \<Rightarrow> uuid \<Rightarrow> tenancy \<Rightarrow> step_row list" where
  "stepsOf organizationId locationId s = sort_key st_stepOrder
     (filter (\<lambda>r. st_locationId r = locationId \<and> st_organizationId r = organizationId) (tn_steps s))"

definition finishProvisioning :: "provision_data \<Rightarrow> unit tenant" where
  "finishProvisioning data = bindM clockM (\<lambda>now.
     thenM (setSite (pd_locationId data) (\<lambda>r. r\<lparr>ste_status := ''active'', ste_provisioningCompletedAt := Some now\<rparr>))
    (thenM (setOrg (pd_organizationId data) (\<lambda>r. r\<lparr>org_status := ''active''\<rparr>))
       (auditM ''org.provisioning.completed'' None (pd_organizationId data) [] JNull)))"

definition handleProvisionOrganization :: "provision_env \<Rightarrow> provision_data \<Rightarrow> unit tenant" where
  "handleProvisionOrganization env data =
     bindM (getsM (stepsOf (pd_organizationId data) (pd_locationId data))) (\<lambda>steps.
       thenM (whenM (list_ex (\<lambda>r. st_status r = ''pending'') steps)
                (auditM ''org.provisioning.started'' None (pd_organizationId data) [] JNull))
      (thenM (runSteps env data [] steps) (finishProvisioning data)))"

text \<open>A worker takes a waiting job; one that throws waits again until its third attempt.\<close>

definition workProvision :: "provision_env \<Rightarrow> nat \<Rightarrow> tenancy \<Rightarrow> tenancy" where
  "workProvision env n s =
     (if n < length (tn_jobs s)
      then let job = tn_jobs s ! n;
               rest = take n (tn_jobs s) @ drop (Suc n) (tn_jobs s)
           in (case handleProvisionOrganization env \<lparr>pd_organizationId = pj_organizationId job,
                      pd_locationId = pj_locationId job, pd_adminEmail = pj_adminEmail job\<rparr> (s\<lparr>tn_jobs := rest\<rparr>) of
                 (Inr _, s') \<Rightarrow> s'
               | (Inl _, s') \<Rightarrow> if Suc (pj_attemptsMade job) < ATTEMPTS
                   then s'\<lparr>tn_jobs := tn_jobs s' @ [job\<lparr>pj_attemptsMade := Suc (pj_attemptsMade job)\<rparr>]\<rparr>
                   else s')
      else s)"

section \<open>Programs that move the state along a relation\<close>

named_theorems moving "programs that move the state along a transitive relation"

definition moves :: "('w \<Rightarrow> 'w \<Rightarrow> bool) \<Rightarrow> ('w, 'a) program \<Rightarrow> bool" where
  "moves R m \<longleftrightarrow> (\<forall>s. R s (snd (m s)))"

definition preorder :: "('w \<Rightarrow> 'w \<Rightarrow> bool) \<Rightarrow> bool" where
  "preorder R \<longleftrightarrow> reflp R \<and> transp R"

lemma movesD: "moves R m \<Longrightarrow> m s = (r, s') \<Longrightarrow> R s s'"
  unfolding moves_def by (metis snd_conv)

lemma moves_basic [moving]:
  assumes "preorder R"
  shows "moves R (returnM a)" "moves R (throwM e)" "moves R (getsM g)" "moves R (throw_if c e)" "moves R (orThrow x e)"
    "moves R (liftE r)"
  using assms by (cases c; cases x; cases r; simp add: preorder_def moves_def reflpD)+

lemma moves_bind [moving]:
  assumes "preorder R" and "moves R m" and "\<And>a. moves R (f a)"
  shows "moves R (bindM m f)"
  unfolding moves_def
proof
  fix s
  obtain x s1 where run: "m s = (x, s1)" by (cases "m s")
  have 1: "R s s1" using movesD[OF assms(2) run] .
  show "R s (snd (bindM m f s))"
  proof (cases x)
    case (Inr a)
    have "R s1 (snd (f a s1))" using assms(3) by (simp add: moves_def)
    with 1 Inr run show ?thesis using assms(1) by (auto simp: bindM_def preorder_def dest: transpD)
  qed (use 1 run in \<open>simp add: bindM_def\<close>)
qed

lemma moves_then [moving]: "preorder R \<Longrightarrow> moves R m \<Longrightarrow> moves R n \<Longrightarrow> moves R (thenM m n)"
  unfolding thenM_def by (rule moves_bind)

lemma moves_catch [moving]:
  assumes "preorder R" and "moves R m" and "\<And>e. moves R (h e)"
  shows "moves R (catchM m h)"
  unfolding moves_def
proof
  fix s
  obtain x s1 where run: "m s = (x, s1)" by (cases "m s")
  have 1: "R s s1" using movesD[OF assms(2) run] .
  show "R s (snd (catchM m h s))"
  proof (cases x)
    case (Inl e)
    have "R s1 (snd (h e s1))" using assms(3) by (simp add: moves_def)
    with 1 Inl run show ?thesis using assms(1) by (auto simp: catchM_def preorder_def dest: transpD)
  qed (use 1 run in \<open>simp add: catchM_def\<close>)
qed

lemma moves_if [moving]: "(b \<Longrightarrow> moves R m) \<Longrightarrow> (\<not> b \<Longrightarrow> moves R n) \<Longrightarrow> moves R (if b then m else n)"
  by simp

lemma moves_option [moving]:
  "moves R n \<Longrightarrow> (\<And>a. moves R (g a)) \<Longrightarrow> moves R (case x of None \<Rightarrow> n | Some a \<Rightarrow> g a)"
  by (cases x) simp_all

lemma moves_list [moving]:
  "moves R n \<Longrightarrow> (\<And>a as. moves R (g a as)) \<Longrightarrow> moves R (case xs of [] \<Rightarrow> n | a # as \<Rightarrow> g a as)"
  by (cases xs) simp_all

lemma moves_when [moving]: "preorder R \<Longrightarrow> moves R m \<Longrightarrow> moves R (whenM b m)"
  by (cases b) (simp_all add: moves_basic)

lemma moves_forM [moving]: "preorder R \<Longrightarrow> (\<And>x. moves R (g x)) \<Longrightarrow> moves R (forM xs g)"
  by (induction xs) (simp_all add: moves_basic moves_then)

lemma moves_weaken: "moves R m \<Longrightarrow> (\<And>s s'. R s s' \<Longrightarrow> R' s s') \<Longrightarrow> moves R' m"
  by (simp add: moves_def)

lemma moves_modify: "(\<And>s. R s (g s)) \<Longrightarrow> moves R (modifyM g)"
  by (simp add: moves_def)

section \<open>The number a location holds\<close>

definition keepsNumber :: "uuid \<Rightarrow> tenancy \<Rightarrow> tenancy \<Rightarrow> bool" where
  "keepsNumber i s s' \<longleftrightarrow> (\<forall>l. siteById i s = Some l \<and> truthy (ste_telnyxPhoneNumberId l) \<longrightarrow>
     (\<exists>l'. siteById i s' = Some l' \<and> ste_telnyxPhoneNumberId l' = ste_telnyxPhoneNumberId l \<and>
        ste_phoneNumber l' = ste_phoneNumber l) \<and>
     (\<exists>reqs. tn_telnyx s' = tn_telnyx s @ reqs \<and> (\<forall>p. CreateNumberOrder p \<notin> set reqs)))"

lemma keepsNumber_preorder: "preorder (keepsNumber i)"
  unfolding preorder_def
proof (intro conjI reflpI transpI)
  show "keepsNumber i s s" for s by (simp add: keepsNumber_def)
  show "keepsNumber i s s2" if "keepsNumber i s s1" "keepsNumber i s1 s2" for s s1 s2
    unfolding keepsNumber_def
  proof (intro allI impI, elim conjE)
    fix l assume l: "siteById i s = Some l" "truthy (ste_telnyxPhoneNumberId l)"
    from that(1) l obtain l1 r1 where 1: "siteById i s1 = Some l1" "ste_telnyxPhoneNumberId l1 = ste_telnyxPhoneNumberId l"
      "ste_phoneNumber l1 = ste_phoneNumber l" "tn_telnyx s1 = tn_telnyx s @ r1" "\<forall>p. CreateNumberOrder p \<notin> set r1"
      unfolding keepsNumber_def by blast
    with that(2) l obtain l2 r2 where 2: "siteById i s2 = Some l2" "ste_telnyxPhoneNumberId l2 = ste_telnyxPhoneNumberId l"
      "ste_phoneNumber l2 = ste_phoneNumber l" "tn_telnyx s2 = tn_telnyx s1 @ r2" "\<forall>p. CreateNumberOrder p \<notin> set r2"
      unfolding keepsNumber_def by metis
    from 1 2 show "(\<exists>l'. siteById i s2 = Some l' \<and> ste_telnyxPhoneNumberId l' = ste_telnyxPhoneNumberId l \<and>
        ste_phoneNumber l' = ste_phoneNumber l) \<and>
     (\<exists>reqs. tn_telnyx s2 = tn_telnyx s @ reqs \<and> (\<forall>p. CreateNumberOrder p \<notin> set reqs))"
      by (auto intro!: exI[of _ "r1 @ r2"])
  qed
qed

lemma siteById_setSite: "(\<And>l. loc_id (f l) = loc_id l) \<Longrightarrow>
   siteById i (s\<lparr>tn_sites := update_where (\<lambda>r. loc_id r = j) f (tn_sites s)\<rparr>) =
     map_option (\<lambda>l. if i = j then f l else l) (siteById i s)"
  by (auto simp: siteById_def first_row_update_where option.map_comp comp_def dest: first_row_SomeD
      intro!: option.map_cong0)

lemma keepsNumber_sites:
  "tn_sites s' = update_where (\<lambda>r. loc_id r = j) f (tn_sites s) \<Longrightarrow> tn_telnyx s' = tn_telnyx s \<Longrightarrow>
   (\<And>l. loc_id (f l) = loc_id l \<and> ste_telnyxPhoneNumberId (f l) = ste_telnyxPhoneNumberId l \<and>
      ste_phoneNumber (f l) = ste_phoneNumber l) \<Longrightarrow> keepsNumber i s s'"
  by (auto simp: keepsNumber_def siteById_def first_row_update_where)

lemma keepsNumber_same: "tn_sites s' = tn_sites s \<Longrightarrow> tn_telnyx s' = tn_telnyx s \<Longrightarrow> keepsNumber i s s'"
  by (auto simp: keepsNumber_def siteById_def)

lemma keepsNumber_worldM [moving]: "moves (keepsNumber i) (worldM m)"
  by (auto simp: moves_def worldM_def intro!: keepsNumber_same split: prod.split)

lemma keepsNumber_audit [moving]: "moves (keepsNumber i) (auditM act who org entity v)"
  unfolding auditM_def by (rule keepsNumber_worldM)

lemma keepsNumber_ask [moving]: "(\<And>p. req \<noteq> CreateNumberOrder p) \<Longrightarrow> moves (keepsNumber i) (askM answer req)"
  by (auto simp: moves_def askM_run keepsNumber_def siteById_def)

lemma keepsNumber_setSite [moving]:
  "(\<And>l. loc_id (f l) = loc_id l \<and> ste_telnyxPhoneNumberId (f l) = ste_telnyxPhoneNumberId l \<and>
      ste_phoneNumber (f l) = ste_phoneNumber l) \<Longrightarrow> moves (keepsNumber i) (setSite j f)"
  unfolding moves_def setSite_def by (simp add: keepsNumber_sites)

lemma keepsNumber_modify [moving]:
  "(\<And>s. tn_sites (g s) = tn_sites s \<and> tn_telnyx (g s) = tn_telnyx s) \<Longrightarrow> moves (keepsNumber i) (modifyM g)"
  by (simp add: moves_def keepsNumber_same)

lemma keepsNumber_setOrg [moving]: "moves (keepsNumber i) (setOrg j f)"
  unfolding setOrg_def by (intro keepsNumber_modify) simp

lemma keepsNumber_clock [moving]: "moves (keepsNumber i) clockM" "moves (keepsNumber i) (siteM j)" "moves (keepsNumber i) (orgM j)"
  unfolding clockM_def siteM_def orgM_def by (intro moving keepsNumber_preorder)+

lemma keepsNumber_purchase [moving]: "moves (keepsNumber i) (purchasePhoneNumber env i metadata previous)"
  unfolding moves_def
proof
  fix s
  show "keepsNumber i s (snd (purchasePhoneNumber env i metadata previous s))"
  proof (cases "truthy (Option.bind (siteById i s) ste_telnyxPhoneNumberId)")
    case True
    then show ?thesis by (simp add: purchasePhoneNumber_def keepsNumber_same)
  qed (auto simp: keepsNumber_def)
qed

lemma keepsNumber_variables [moving]: "moves (keepsNumber i) (setAssistantDynamicVariablesOrThrow tx a vs)"
  unfolding setAssistantDynamicVariablesOrThrow_def Let_def
  by (intro moving keepsNumber_preorder) simp_all

lemma keepsNumber_create [moving]: "moves (keepsNumber i) (createInvitation env org inviter dto)"
  unfolding createInvitation_def insertInvitation_def sendOrganizationInvitation_def
  by (intro moving keepsNumber_preorder) simp_all

lemma keepsNumber_body [moving]: "moves (keepsNumber (pd_locationId data)) (stepBody env data name metadata previous)"
  unfolding stepBody_def searchPhoneNumber_def cloneAgent_def cloneNew_def assignPhoneToAgent_def configureAgent_def
    importMenu_def registerWebhook_def sendAdminInvitation_def Let_def
  by (intro moving keepsNumber_preorder; simp)+

lemma moves_runSteps [moving]:
  "preorder R \<Longrightarrow> (\<And>previous x. moves R (runStep env data previous x)) \<Longrightarrow> moves R (runSteps env data ys xs)"
  by (induction xs arbitrary: ys) (simp_all add: moves_basic moves_bind)

lemma keepsNumber_step [moving]: "moves (keepsNumber (pd_locationId data)) (runStep env data previous step)"
  unfolding runStep_def tryStep_def stepFailed_def updateStepStatus_def
  by (intro moving keepsNumber_preorder; simp)+

lemma keepsNumber_run: "moves (keepsNumber (pd_locationId data)) (handleProvisionOrganization env data)"
  unfolding handleProvisionOrganization_def finishProvisioning_def
  by (intro moving keepsNumber_preorder; simp)+

section \<open>The rows of the steps\<close>

text \<open>Only rows of the given ids change, and those keep what they are steps of.\<close>

definition stepCore :: "step_row \<Rightarrow> uuid \<times> uuid \<times> uuid \<times> string \<times> int" where
  "stepCore r = (st_id r, st_locationId r, st_organizationId r, st_stepName r, st_stepOrder r)"

definition touches :: "uuid set \<Rightarrow> tenancy \<Rightarrow> tenancy \<Rightarrow> bool" where
  "touches ids s s' \<longleftrightarrow> (\<exists>g. tn_steps s' = map g (tn_steps s) \<and>
     (\<forall>r. stepCore (g r) = stepCore r \<and> (st_id r \<notin> ids \<longrightarrow> g r = r)))"

lemma stepCore_eqD: "stepCore r' = stepCore r \<Longrightarrow> st_id r' = st_id r \<and> st_locationId r' = st_locationId r \<and>
    st_organizationId r' = st_organizationId r \<and> st_stepName r' = st_stepName r \<and> st_stepOrder r' = st_stepOrder r"
  by (simp add: stepCore_def)

lemma touches_preorder: "preorder (touches ids)"
  unfolding preorder_def
proof (intro conjI reflpI transpI)
  show "touches ids s s" for s by (auto simp: touches_def intro!: exI[of _ id])
  show "touches ids s s2" if a: "touches ids s s1" "touches ids s1 s2" for s s1 s2
  proof -
    obtain g where g: "tn_steps s1 = map g (tn_steps s)" "\<forall>r. stepCore (g r) = stepCore r \<and> (st_id r \<notin> ids \<longrightarrow> g r = r)"
      using a(1) by (auto simp: touches_def)
    obtain h where h: "tn_steps s2 = map h (tn_steps s1)" "\<forall>r. stepCore (h r) = stepCore r \<and> (st_id r \<notin> ids \<longrightarrow> h r = r)"
      using a(2) by (auto simp: touches_def)
    show ?thesis
      unfolding touches_def using g h by (intro exI[of _ "h \<circ> g"]) (auto simp: stepCore_def)
  qed
qed

lemma touches_same: "tn_steps s' = tn_steps s \<Longrightarrow> touches ids s s'"
  by (auto simp: touches_def intro!: exI[of _ id])

lemma touches_mono: "touches ids s s' \<Longrightarrow> ids \<subseteq> ids' \<Longrightarrow> touches ids' s s'"
  by (auto simp: touches_def)

lemma preserves_steps_touches: "preserves tn_steps m \<Longrightarrow> moves (touches ids) m"
  by (simp add: moves_def preserves_def touches_same)

lemma steps_basic [frame]:
  "preserves tn_steps (worldM m)" "preserves tn_steps clockM" "preserves tn_steps (auditM act who org entity v)"
  "preserves tn_steps (setSite i f)" "preserves tn_steps (setOrg i h)" "preserves tn_steps (siteM i)" "preserves tn_steps (orgM i)"
  "preserves tn_steps (askM answer req)"
  by (auto simp: preserves_def worldM_def auditM_def setSite_def setOrg_def siteM_def orgM_def askM_run bindM_def orThrow_def
      split: prod.split option.split)

lemma steps_modify [frame]: "(\<And>s. tn_steps (g s) = tn_steps s) \<Longrightarrow> preserves tn_steps (modifyM g)"
  by (simp add: preserves_def)

lemma steps_list [frame]: "preserves f n \<Longrightarrow> (\<And>a as. preserves f (g a as)) \<Longrightarrow> preserves f (case xs of [] \<Rightarrow> n | a # as \<Rightarrow> g a as)"
  by (cases xs) simp_all

lemma steps_pollOrder [frame]: "preserves tn_steps (pollOrder env orderId n status)"
proof (induction n arbitrary: status)
  case (Suc n)
  show ?case
    unfolding pollOrder.simps Let_def by (intro frame Suc; simp)
qed (simp add: preserves_basic)

lemma steps_body [frame]: "preserves tn_steps (stepBody env data name metadata previous)"
  unfolding stepBody_def searchPhoneNumber_def cloneAgent_def cloneNew_def assignPhoneToAgent_def configureAgent_def
    importMenu_def registerWebhook_def sendAdminInvitation_def purchasePhoneNumber_def buyNumber_def claimPhone_def
    createInvitation_def insertInvitation_def sendOrganizationInvitation_def setAssistantDynamicVariablesOrThrow_def Let_def
  by (intro frame; simp)+

lemma touches_status: "moves (touches {i}) (updateStepStatus i status metadata err)"
  unfolding moves_def
proof
  fix s :: tenancy
  let ?g = "\<lambda>r. if st_id r = i then stepStatusSet status metadata err (w_now (tn_world s)) r else r"
  have "snd (updateStepStatus i status metadata err s) = s \<or>
      snd (updateStepStatus i status metadata err s) = s\<lparr>tn_steps := map ?g (tn_steps s)\<rparr>"
    by (simp add: updateStepStatus_def prog_step update_where_def)
  moreover have "touches {i} s (s\<lparr>tn_steps := map ?g (tn_steps s)\<rparr>)"
    unfolding touches_def by (intro exI[of _ ?g]) (simp add: stepCore_def stepStatusSet_def)
  ultimately show "touches {i} s (snd (updateStepStatus i status metadata err s))"
    using touches_same[of "snd (updateStepStatus i status metadata err s)" s] by fastforce
qed

text \<open>
  A step whose metadata is not stored yet leaves the rows in memory as they are, so that every step of
  the run sees the same stored results.
\<close>

definition tryAlone :: "provision_env \<Rightarrow> provision_data \<Rightarrow> stored \<Rightarrow> step_row \<Rightarrow> unit tenant" where
  "tryAlone env data previous step =
     bindM (stepBody env data (st_stepName step) (nvl (st_metadata step) noMeta) previous) (\<lambda>metadata.
       thenM (updateStepStatus (st_id step) ''completed'' (Some metadata) [])
         (auditM ''org.provisioning.step_completed'' None (pd_organizationId data) (st_id step) JNull))"

definition stepAlone :: "provision_env \<Rightarrow> provision_data \<Rightarrow> stored \<Rightarrow> step_row \<Rightarrow> unit tenant" where
  "stepAlone env data previous step =
     (if stepDone step then returnM ()
      else thenM (updateStepStatus (st_id step) ''in_progress'' None [])
             (catchM (tryAlone env data previous step) (stepFailed data step)))"

lemma stepFailed_run:
  obtains e s' where "(stepFailed data step err s :: (error + unit) \<times> tenancy) = (Inl e, s')"
    and "(stepFailed data step err s :: (error + step_meta) \<times> tenancy) = (Inl e, s')"
proof -
  obtain r s1 where up: "updateStepStatus (st_id step) ''failed'' None (exceptionText err) s = (r, s1)" by fastforce
  show thesis
  proof (cases r)
    case (Inl e)
    with up show thesis by (intro that[of e s1]) (simp_all add: stepFailed_def thenM_eval)
  next
    case (Inr u)
    have step: "(thenM (updateStepStatus (st_id step) ''failed'' None (exceptionText err)) m s :: (error + 'x) \<times> tenancy) = m s1" for m
      using up Inr by (simp add: thenM_eval)
    let ?s2 = "snd (thenM (auditM ''org.provisioning.step_failed'' None (pd_organizationId data) (st_id step) JNull)
      (setSite (pd_locationId data) (\<lambda>r. r\<lparr>ste_status := ''provisioning'', ste_provisioningError := Some (exceptionText err)\<rparr>)) s1)"
    show thesis
      by (rule that[of err ?s2]; unfold stepFailed_def step; simp add: auditM_def worldM_def emitM_def setSite_def thenM_def bindM_def)
  qed
qed

lemma stepFailed_throws: "\<exists>e s'. (stepFailed data step err s :: (error + unit) \<times> tenancy) = (Inl e, s')"
  by (rule stepFailed_run) blast

lemma tryAlone_run: "tryAlone env data previous step = thenM (tryStep env data previous step) (returnM ())"
proof
  fix s
  show "tryAlone env data previous step s = thenM (tryStep env data previous step) (returnM ()) s"
    by (auto simp: tryAlone_def tryStep_def thenM_def bindM_def split: prod.split sum.split)
qed

lemma catch_alone: "catchM (tryAlone env data previous step) (stepFailed data step) s =
    thenM (catchM (tryStep env data previous step) (stepFailed data step)) (returnM ()) s"
proof (cases "tryStep env data previous step s")
  case (Pair r s1)
  show ?thesis
  proof (cases r)
    case (Inl e)
    obtain e' s' where "(stepFailed data step e s1 :: (error + unit) \<times> tenancy) = (Inl e', s')"
      "(stepFailed data step e s1 :: (error + step_meta) \<times> tenancy) = (Inl e', s')" by (rule stepFailed_run)
    then show ?thesis using Pair Inl by (simp add: tryAlone_run catchM_def thenM_def bindM_def)
  qed (simp add: Pair tryAlone_run catchM_def thenM_def bindM_def)
qed

lemma stepAlone_run: "stepAlone env data previous step = thenM (runStep env data previous step) (returnM ())"
proof
  fix s
  show "stepAlone env data previous step s = thenM (runStep env data previous step) (returnM ()) s"
    by (auto simp: stepAlone_def runStep_def thenM_def bindM_def catch_alone[unfolded thenM_def bindM_def]
        split: prod.split sum.split)
qed

text \<open>The row in memory after a turn.\<close>

lemma runStep_row:
  assumes "runStep env data previous step s = (Inr step', s')"
  shows "st_stepName step' = st_stepName step" and "st_metadata step = None \<or> stepDone step \<Longrightarrow> step' = step"
proof -
  have "step' = step \<or> \<not> stepDone step \<and> st_metadata step \<noteq> None \<and> (\<exists>m. step' = step\<lparr>st_metadata := Some m\<rparr>)"
    using assms unfolding runStep_def by (cases "stepDone step") (auto elim!: thenM_InrE bindM_InrE split: if_splits)
  then show "st_stepName step' = st_stepName step" "st_metadata step = None \<or> stepDone step \<Longrightarrow> step' = step" by auto
qed

lemma runSteps_forM:
  "\<forall>x \<in> set xs. stepDone x \<or> st_metadata x = None \<Longrightarrow>
   runSteps env data ys xs = forM xs (stepAlone env data (getPreviousStepsMetadata (ys @ xs)))"
proof (induction xs arbitrary: ys)
  case (Cons x xs)
  let ?prev = "getPreviousStepsMetadata (ys @ x # xs)"
  have next_steps: "runSteps env data (ys @ [x]) xs = forM xs (stepAlone env data ?prev)"
    using Cons.IH[of "ys @ [x]"] Cons.prems by simp
  show ?case
  proof
    fix s
    show "runSteps env data ys (x # xs) s = forM (x # xs) (stepAlone env data ?prev) s"
    proof (cases "runStep env data ?prev x s")
      case (Pair r s1)
      show ?thesis
      proof (cases r)
        case (Inr x')
        then have "x' = x" using runStep_row(2)[of env data ?prev x s x' s1] Pair Cons.prems by auto
        then show ?thesis using Pair Inr next_steps by (simp add: stepAlone_run thenM_def bindM_def)
      qed (use Pair in \<open>simp add: stepAlone_run thenM_def bindM_def\<close>)
    qed
  qed
qed simp

lemma touches_stepAlone: "moves (touches {st_id step}) (stepAlone env data previous step)"
  unfolding stepAlone_def tryAlone_def stepFailed_def
  by (intro moving touches_preorder touches_status preserves_steps_touches frame)

lemma touches_run: "moves (touches (st_id ` set steps)) (forM steps (stepAlone env data previous))"
proof (induction steps)
  case (Cons x xs)
  have "moves (touches (st_id ` set (x # xs))) (stepAlone env data previous x)"
    by (rule moves_weaken[OF touches_stepAlone]) (erule touches_mono, simp)
  moreover have "moves (touches (st_id ` set (x # xs))) (forM xs (stepAlone env data previous))"
    by (rule moves_weaken[OF Cons]) (erule touches_mono, auto)
  ultimately show ?case by (simp add: moves_then touches_preorder)
qed (simp add: moves_basic touches_preorder)

lemma stepsOf_touched:
  assumes "touches ids s s'"
  obtains g where "stepsOf o' i s' = map g (stepsOf o' i s)"
    and "\<And>r. stepCore (g r) = stepCore r" and "\<And>r. st_id r \<notin> ids \<Longrightarrow> g r = r"
proof -
  obtain g where g: "tn_steps s' = map g (tn_steps s)" "\<And>r. stepCore (g r) = stepCore r" "\<And>r. st_id r \<notin> ids \<Longrightarrow> g r = r"
    using assms unfolding touches_def by blast
  have core: "st_locationId (g r) = st_locationId r" "st_organizationId (g r) = st_organizationId r" "st_stepOrder (g r) = st_stepOrder r" for r
    using stepCore_eqD[OF g(2)[of r]] by simp_all
  have "filter (\<lambda>r. st_locationId r = i \<and> st_organizationId r = o') (map g xs) =
      map g (filter (\<lambda>r. st_locationId r = i \<and> st_organizationId r = o') xs)" for xs
    by (simp add: filter_map comp_def core)
  then have "stepsOf o' i s' = map g (stepsOf o' i s)"
    unfolding stepsOf_def g(1) using sort_key_map[of st_stepOrder g] by (simp add: core)
  then show thesis using g(2,3) that by blast
qed

section \<open>A first run stops\<close>

lemma forM_append: "forM (xs @ ys) f = thenM (forM xs f) (forM ys f)"
proof (induction xs)
  case (Cons x xs)
  then show ?case by (simp add: thenM_def bindM_assoc)
qed (simp add: thenM_def bindM_def fun_eq_iff)

lemma forM_Inr_each: "forM xs f s = (Inr u, s') \<Longrightarrow> x \<in> set xs \<Longrightarrow> \<exists>s1 s2 v. f x s1 = (Inr v, s2)"
proof (induction xs arbitrary: s)
  case (Cons y xs)
  from Cons.prems(1) obtain s1 where "f y s = (Inr (), s1)" "forM xs f s1 = (Inr u, s')"
    by (auto elim: thenM_InrE)
  with Cons show ?case by auto
qed simp

lemma forM_InlE:
  assumes "forM xs f s = (Inl e, s')"
  obtains ys x zs s1 where "xs = ys @ x # zs" and "forM ys f s = (Inr (), s1)" and "f x s1 = (Inl e, s')"
  using assms
proof (induction xs arbitrary: s thesis)
  case (Cons y xs)
  show ?case
  proof (cases "f y s")
    case (Pair r s1)
    show ?thesis
    proof (cases r)
      case (Inl e')
      with Pair Cons.prems show ?thesis by (intro Cons.prems(1)[of "[]" y xs s]) (auto simp: thenM_def bindM_def)
    next
      case (Inr v)
      have "forM xs f s1 = (Inl e, s')" using Cons.prems(2) Pair Inr by (simp add: thenM_def bindM_def)
      then obtain ys x zs s2 where split: "xs = ys @ x # zs" "forM ys f s1 = (Inr (), s2)" "f x s2 = (Inl e, s')"
        using Cons.IH by blast
      have "forM (y # ys) f s = (Inr (), s2)" using Pair Inr split(2) by (simp add: thenM_def bindM_def)
      with split show ?thesis by (intro Cons.prems(1)[of "y # ys" x zs s2]) simp_all
    qed
  qed
qed simp

lemma stepAlone_Inr:
  assumes "stepAlone env data previous step s = (Inr u, s')" and "\<not> stepDone step"
  obtains s1 metadata s2 where "stepBody env data (st_stepName step) (nvl (st_metadata step) noMeta) previous s1 = (Inr metadata, s2)"
proof -
  obtain s1 where "catchM (tryAlone env data previous step) (stepFailed data step) s1 = (Inr u, s')"
    using assms by (auto simp: stepAlone_def elim: thenM_InrE)
  then obtain v where "tryAlone env data previous step s1 = (Inr v, s')"
    using stepFailed_throws[of data step] by (auto simp: catchM_def split: prod.splits sum.splits) (metis Pair_inject Inl_Inr_False)
  then show thesis unfolding tryAlone_def by (elim bindM_InrE) (rule that)
qed

text \<open>The state in which the body of an open step runs.\<close>

definition started :: "step_row \<Rightarrow> tenancy \<Rightarrow> tenancy" where
  "started step s = s\<lparr>tn_steps := update_where (\<lambda>r. st_id r = st_id step)
     (stepStatusSet ''in_progress'' None [] (w_now (tn_world s))) (tn_steps s)\<rparr>"

lemma updateStepStatus_run: "length err \<le> 2048 \<Longrightarrow> updateStepStatus i status metadata err s =
    (Inr (), s\<lparr>tn_steps := update_where (\<lambda>r. st_id r = i) (stepStatusSet status metadata err (w_now (tn_world s))) (tn_steps s)\<rparr>)"
  by (simp add: updateStepStatus_def prog_step)

lemma stepAlone_open: "\<not> stepDone step \<Longrightarrow>
    stepAlone env data previous step s = catchM (tryAlone env data previous step) (stepFailed data step) (started step s)"
  by (simp add: stepAlone_def thenM_def bindM_def updateStepStatus_run started_def)

definition storedAgent :: "step_row list \<Rightarrow> bool" where
  "storedAgent steps \<longleftrightarrow> truthy (Option.bind (getPreviousStepsMetadata steps ''clone_agent'') md_assistantId)"

definition storedNumber :: "step_row list \<Rightarrow> bool" where
  "storedNumber steps \<longleftrightarrow> truthy (Option.bind (getPreviousStepsMetadata steps ''search_phone_number'') md_selectedPhoneNumber)"

lemma previous_row:
  "getPreviousStepsMetadata steps name = Some m \<Longrightarrow> \<exists>r \<in> set steps. st_stepName r = name \<and> st_metadata r = Some m"
  unfolding getPreviousStepsMetadata_def by (drule js_map_SomeD) auto

text \<open>
  As long as the steps read at the start of a run hold no assistant and the assistant is not
  configured yet, the run fails, whatever the telephony service and the database answer: cloning the
  assistant in the same run does not help, for its result is stored where only a later run reads it.
  So the first run of every new location fails.
\<close>

lemma runSteps_configured:
  "runSteps env data ys xs s = (Inr u, s') \<Longrightarrow>
   \<forall>r \<in> set (ys @ xs). st_stepName r = ''clone_agent'' \<longrightarrow> st_metadata r = None \<Longrightarrow>
   r \<in> set xs \<Longrightarrow> st_stepName r = ''configure_agent'' \<Longrightarrow> stepDone r"
proof (induction xs arbitrary: ys s)
  case (Cons x xs)
  let ?prev = "getPreviousStepsMetadata (ys @ x # xs)"
  obtain x' s1 where x': "runStep env data ?prev x s = (Inr x', s1)" "runSteps env data (ys @ [x']) xs s1 = (Inr u, s')"
    using Cons.prems(1) by (auto elim: bindM_InrE)
  have none: "?prev ''clone_agent'' = None"
    using previous_row[of "ys @ x # xs" "''clone_agent''"] Cons.prems(2) by (cases "?prev ''clone_agent''") fastforce+
  show ?case
  proof (cases "r = x")
    case True
    show ?thesis
    proof (rule ccontr)
      assume "\<not> stepDone r"
      moreover have "stepAlone env data ?prev x s = (Inr (), s1)" using x'(1) by (simp add: stepAlone_run thenM_eval)
      ultimately obtain s2 m s3 where "stepBody env data ''configure_agent'' (nvl (st_metadata r) noMeta) ?prev s2 = (Inr m, s3)"
        using True Cons.prems(4) by (auto elim: stepAlone_Inr)
      then show False using none by (simp add: stepBody_def configureAgent_def)
    qed
  next
    case False
    have "\<forall>r \<in> set ((ys @ [x']) @ xs). st_stepName r = ''clone_agent'' \<longrightarrow> st_metadata r = None"
      using Cons.prems(2) runStep_row[OF x'(1)] by auto
    from Cons.IH[OF x'(2) this _ Cons.prems(4)] False Cons.prems(3) show ?thesis by auto
  qed
qed simp

lemma run_without_assistant_fails:
  assumes "steps = stepsOf (pd_organizationId data) (pd_locationId data) s"
    and "\<forall>r \<in> set steps. st_stepName r = ''clone_agent'' \<longrightarrow> st_metadata r = None"
    and "r \<in> set steps" and "st_stepName r = ''configure_agent''" and "\<not> stepDone r"
  shows "\<exists>e. fst (handleProvisionOrganization env data s) = Inl e"
proof (rule ccontr)
  assume "\<nexists>e. fst (handleProvisionOrganization env data s) = Inl e"
  then obtain u s' where "handleProvisionOrganization env data s = (Inr u, s')"
    by (metis sum.exhaust_sel prod.collapse)
  then obtain s1 s2 v where "runSteps env data [] steps s1 = (Inr v, s2)"
    unfolding handleProvisionOrganization_def bindM_basic assms(1) by (elim thenM_InrE)
  from runSteps_configured[OF this _ assms(3,4)] assms(2,5) show False by simp
qed

definition siteNumber :: "uuid \<Rightarrow> tenancy \<Rightarrow> string option" where
  "siteNumber i s = Option.bind (siteById i s) ste_telnyxPhoneNumberId"

definition sameNumber :: "uuid \<Rightarrow> tenancy \<Rightarrow> tenancy \<Rightarrow> bool" where
  "sameNumber i s s' \<longleftrightarrow> siteNumber i s' = siteNumber i s"

lemma sameNumber_preorder: "preorder (sameNumber i)"
  by (auto simp: preorder_def sameNumber_def intro!: reflpI transpI)

lemma sameNumber_frames [moving]:
  "moves (sameNumber i) (worldM m)" "moves (sameNumber i) (auditM act who org entity v)" "moves (sameNumber i) clockM"
  "moves (sameNumber i) (siteM j)" "moves (sameNumber i) (askM answer req)"
  by (auto simp: moves_def sameNumber_def siteNumber_def siteById_def worldM_def auditM_def siteM_def askM_run bindM_def
      orThrow_def split: prod.split option.split)

lemma sameNumber_setSite [moving]:
  "(\<And>l. loc_id (f l) = loc_id l \<and> ste_telnyxPhoneNumberId (f l) = ste_telnyxPhoneNumberId l) \<Longrightarrow> moves (sameNumber i) (setSite j f)"
  unfolding moves_def
proof
  fix s
  assume "\<And>l. loc_id (f l) = loc_id l \<and> ste_telnyxPhoneNumberId (f l) = ste_telnyxPhoneNumberId l"
  then show "sameNumber i s (snd (setSite j f s))"
    by (cases "first_row (\<lambda>r. loc_id r = i) (tn_sites s)")
      (simp_all add: sameNumber_def siteNumber_def siteById_def setSite_def first_row_update_where)
qed

lemma sameNumber_modify [moving]: "(\<And>s. tn_sites (g s) = tn_sites s) \<Longrightarrow> moves (sameNumber i) (modifyM g)"
  by (simp add: moves_def sameNumber_def siteNumber_def siteById_def)

lemma sameNumber_search: "st_stepName y = ''search_phone_number'' \<Longrightarrow> moves (sameNumber i) (stepAlone env data previous y)"
  unfolding stepAlone_def tryAlone_def stepFailed_def stepBody_def searchPhoneNumber_def updateStepStatus_def Let_def
  by (simp, intro moving sameNumber_preorder conjI impI; simp)

lemma purchase_unsearched:
  assumes "\<not> truthy (siteNumber (pd_locationId data) s)"
    and "\<not> truthy (Option.bind (previous ''search_phone_number'') md_selectedPhoneNumber)"
    and "st_stepName p = ''purchase_phone_number''" and "\<not> stepDone p"
  shows "\<exists>e. fst (stepAlone env data previous p s) = Inl e"
proof -
  let ?e = "GenericError ''No phone number found from previous step.''"
  have "tryAlone env data previous p (started p s) = (Inl ?e, started p s)"
    using assms(1-3)
    by (simp add: tryAlone_def stepBody_def purchasePhoneNumber_def siteNumber_def siteById_def started_def Let_def bindM_assoc)
  then show ?thesis
    using assms(4) stepFailed_throws[of data p ?e "started p s"] by (auto simp: stepAlone_open catchM_def)
qed

text \<open>
  A new location that has to buy its number, as its steps are written when it is created: the first
  attempt stops at the purchase at the latest, and the second one stops before the assistant is
  configured, whatever the telephony service answers. Of the three attempts the queue makes, only the
  third can succeed.
\<close>

lemma first_two_attempts_fail:
  assumes "stepsOf (pd_organizationId data) (pd_locationId data) s = ys @ p # zs"
    and "\<forall>y \<in> set ys. st_stepName y = ''search_phone_number''"
    and "st_stepName p = ''purchase_phone_number''" and "\<not> stepDone p"
    and "c \<in> set zs" and "st_stepName c = ''configure_agent''" and "\<not> stepDone c"
    and "\<forall>r \<in> set (ys @ p # zs). st_metadata r = None" and "distinct (map st_id (ys @ p # zs))"
    and "\<not> truthy (siteNumber (pd_locationId data) s)"
    and "handleProvisionOrganization env data s = (x, s1)" and "tn_steps s2 = tn_steps s1"
  shows "(\<exists>e. x = Inl e) \<and> (\<exists>e. fst (handleProvisionOrganization env' data s2) = Inl e)"
proof -
  let ?S = "ys @ p # zs" and ?prev = "getPreviousStepsMetadata (ys @ p # zs)" and ?i = "pd_locationId data" and ?o = "pd_organizationId data"
  let ?f = "stepAlone env data ?prev" and ?ids = "st_id ` set (ys @ [p])"
  have none: "?prev name = None" for name
    using previous_row[of ?S name] assms(8) by (cases "?prev name") auto
  let ?s = "snd (whenM (list_ex (\<lambda>r. st_status r = ''pending'') ?S) (auditM ''org.provisioning.started'' None ?o [] JNull) s)"
  have alone: "runSteps env data [] ?S = forM ?S ?f"
    using runSteps_forM[of ?S env data "[]"] assms(8) by simp
  have start: "handleProvisionOrganization env data s = thenM (forM ?S ?f) (finishProvisioning data) ?s"
    "siteNumber ?i ?s = siteNumber ?i s" "tn_steps ?s = tn_steps s"
    using alone unfolding handleProvisionOrganization_def assms(1)[symmetric]
    by (cases "list_ex (\<lambda>r. st_status r = ''pending'') (stepsOf ?o ?i s)"; simp add: auditM_def worldM_def thenM_def bindM_def
        siteNumber_def siteById_def)+
  have "moves (sameNumber ?i) (forM us (stepAlone env data previous))"
      if "\<forall>y \<in> set us. st_stepName y = ''search_phone_number''" for us previous
    using that
  proof (induction us)
    case (Cons y ys)
    then show ?case by (simp add: moves_then sameNumber_preorder sameNumber_search)
  qed (simp add: moves_basic sameNumber_preorder)
  note search = this[OF assms(2), of ?prev]
  then have number: "\<not> truthy (siteNumber ?i sa)" if "forM ys ?f ?s = (r, sa)" for r sa
    using movesD[OF search that] assms(10) start(2) by (simp add: sameNumber_def)
  have stop: "\<exists>e s'. forM (ys @ [p]) ?f ?s = (Inl e, s')"
  proof (cases "forM ys ?f ?s")
    case (Pair r sa)
    show ?thesis
    proof (cases r)
      case (Inr u)
      obtain e where "fst (?f p sa) = Inl e"
        using purchase_unsearched[OF number[OF Pair] _ assms(3,4), of ?prev env] none by auto
      then obtain sb where "?f p sa = (Inl e, sb)" by (cases "?f p sa") auto
      with Pair Inr show ?thesis by (simp add: forM_append thenM_def bindM_def)
    qed (use Pair in \<open>simp add: forM_append thenM_def bindM_def\<close>)
  qed
  then obtain e s' where halt: "forM (ys @ [p]) ?f ?s = (Inl e, s')" by blast
  then have "forM ?S ?f ?s = (Inl e, s')"
    using forM_append[of "ys @ [p]" zs ?f] by (simp add: thenM_def bindM_def)
  then have x: "x = Inl e" "s1 = s'"
    using start(1) assms(11) by (simp_all add: thenM_def bindM_def)
  have "touches ?ids ?s s1"
    using movesD[OF touches_run halt] x by simp
  then have "touches ?ids s s2"
    using start(3) assms(12) by (auto simp: touches_def)
  then obtain g where g: "stepsOf ?o ?i s2 = map g ?S" "\<And>r. stepCore (g r) = stepCore r" "\<And>r. st_id r \<notin> ?ids \<Longrightarrow> g r = r"
    using stepsOf_touched[of ?ids s s2 ?o ?i] assms(1) by metis
  have same: "g r = r" if "r \<in> set zs" for r
  proof (rule g(3))
    have "st_id r \<in> st_id ` set zs" using that by simp
    then show "st_id r \<notin> ?ids" using assms(9) by auto
  qed
  have "\<forall>r \<in> set (stepsOf ?o ?i s2). st_stepName r = ''clone_agent'' \<longrightarrow> st_metadata r = None"
  proof (intro ballI impI)
    fix r' assume r': "r' \<in> set (stepsOf ?o ?i s2)" "st_stepName r' = ''clone_agent''"
    then obtain r where r: "r \<in> set ?S" "r' = g r" unfolding g(1) by auto
    have "st_stepName r = ''clone_agent''" using r r'(2) stepCore_eqD[OF g(2)[of r]] by simp
    then have "r \<in> set zs" using r(1) assms(2,3) by auto
    then show "st_metadata r' = None" using same[of r] r(2) assms(8) by auto
  qed
  moreover have "c \<in> set (stepsOf ?o ?i s2)"
    unfolding g(1) using same[OF assms(5)] assms(5) by force
  ultimately show ?thesis
    using run_without_assistant_fails[OF refl _ _ assms(6,7)] x by blast
qed

end
