(* ===== verification/Provisioning_Live.thy ===== *)
theory Provisioning_Live
  imports Provisioning_Run
begin

text \<open>
  When the telephony service answers every request, the queue's third attempt at a location completes
  it. What a run needs of an earlier one is the number the search found and the assistant that was
  cloned, and each failing run stores one of the two.
\<close>

section \<open>What a run relies on\<close>

definition siteAgent :: "uuid \<Rightarrow> tenancy \<Rightarrow> string option" where
  "siteAgent i s = Option.bind (siteById i s) ste_telnyxAssistantId"

text \<open>The service answers everything, with usable ids; the numbers it offers back no other location.\<close>

definition answersAll :: "provision_env \<Rightarrow> bool" where
  "answersAll env \<longleftrightarrow> truthy (pn_masterAgentId env) \<and> truthy (pn_connectionId env) \<and>
     (\<forall>log req. tx_update (pn_telnyx env) log req = Inr ()) \<and>
     (\<forall>log req. \<exists>r. tx_assistant (pn_telnyx env) log req = Inr r \<and> truthy (as_id (unwrapAssistant r))) \<and>
     (\<forall>log req. \<exists>r. tx_order (pn_telnyx env) log req = Inr (Some r) \<and> ono_status r = Some ''success'') \<and>
     (\<forall>log req. \<exists>n ns. tx_numbers (pn_telnyx env) log req = Inr (Some (n # ns)) \<and> truthy (no_id n) \<and> truthy (no_phoneNumber n))"

definition offersFree :: "provision_env \<Rightarrow> uuid \<Rightarrow> tenancy \<Rightarrow> bool" where
  "offersFree env i s \<longleftrightarrow> (\<forall>log req n ns. tx_numbers (pn_telnyx env) log req = Inr (Some (n # ns)) \<longrightarrow>
     \<not> phoneTaken (no_phoneNumber n) i s)"

definition goodNumber :: "uuid \<Rightarrow> tenancy \<Rightarrow> step_meta \<Rightarrow> bool" where
  "goodNumber i s m \<longleftrightarrow> truthy (md_selectedPhoneNumber m) \<and> \<not> phoneTaken (md_selectedPhoneNumber m) i s"

text \<open>The location is there, its number is its own, and jobs can be queued.\<close>

definition siteSound :: "uuid \<Rightarrow> tenancy \<Rightarrow> bool" where
  "siteSound i s \<longleftrightarrow> w_queueUp (tn_world s) \<and>
     (\<exists>l. siteById i s = Some l \<and> \<not> phoneTaken (ste_phoneNumber l) i s)"

text \<open>What a step's row promises to the runs after it.\<close>

definition resultKept :: "uuid \<Rightarrow> tenancy \<Rightarrow> step_row \<Rightarrow> bool" where
  "resultKept i s r \<longleftrightarrow>
     (st_stepName r = ''search_phone_number'' \<longrightarrow> (\<forall>m. st_metadata r = Some m \<longrightarrow> goodNumber i s m) \<and>
        (stepDone r \<longrightarrow> st_metadata r \<noteq> None)) \<and>
     (st_stepName r = ''clone_agent'' \<longrightarrow> (\<forall>m. st_metadata r = Some m \<longrightarrow> truthy (md_assistantId m)) \<and>
        (stepDone r \<longrightarrow> st_metadata r \<noteq> None \<and> truthy (siteAgent i s))) \<and>
     (st_stepName r = ''purchase_phone_number'' \<and> stepDone r \<longrightarrow> truthy (siteNumber i s)) \<and>
     (stepDone r \<or> st_metadata r = None)"

definition provisionable :: "uuid \<Rightarrow> uuid \<Rightarrow> tenancy \<Rightarrow> bool" where
  "provisionable g i s \<longleftrightarrow> siteSound i s \<and> distinct (map st_id (stepsOf g i s)) \<and>
     distinct (map st_stepName (stepsOf g i s)) \<and> (\<forall>r \<in> set (stepsOf g i s). resultKept i s r)"

text \<open>The order the steps are created in.\<close>

definition precedes :: "string \<Rightarrow> string \<Rightarrow> string list \<Rightarrow> bool" where
  "precedes a b names \<longleftrightarrow> (\<forall>ys zs. names = ys @ b # zs \<longrightarrow> a \<in> set ys)"

definition noneAfter :: "string \<Rightarrow> string \<Rightarrow> string list \<Rightarrow> bool" where
  "noneAfter a b names \<longleftrightarrow> (\<forall>ys zs. names = ys @ b # zs \<longrightarrow> a \<notin> set zs)"

definition inOrder :: "bool \<Rightarrow> string list \<Rightarrow> bool" where
  "inOrder held names \<longleftrightarrow> precedes ''search_phone_number'' ''purchase_phone_number'' names \<and>
     (held \<or> precedes ''purchase_phone_number'' ''assign_phone_to_agent'' names) \<and>
     precedes ''clone_agent'' ''configure_agent'' names \<and> noneAfter ''purchase_phone_number'' ''configure_agent'' names \<and>
     precedes ''clone_agent'' ''register_webhook'' names"

lemma precedesD: "precedes a b (map f ys @ f x # zs) \<Longrightarrow> f x = b \<Longrightarrow> \<exists>r \<in> set ys. f r = a"
  unfolding precedes_def by (drule spec[of _ "map f ys"], drule spec[of _ zs]) auto

lemma noneAfterD: "noneAfter a b (ys @ x # zs) \<Longrightarrow> x = b \<Longrightarrow> a \<notin> set zs"
  unfolding noneAfter_def by blast

section \<open>What every step leaves alone\<close>

definition grows :: "uuid \<Rightarrow> tenancy \<Rightarrow> tenancy \<Rightarrow> bool" where
  "grows i s s' \<longleftrightarrow> (\<forall>p. phoneTaken p i s' = phoneTaken p i s) \<and> (siteSound i s \<longrightarrow> siteSound i s') \<and>
     (truthy (siteAgent i s) \<longrightarrow> truthy (siteAgent i s'))"

lemma grows_preorder: "preorder (grows i)"
  by (auto simp: preorder_def grows_def intro!: reflpI transpI)

lemma grows_sites: "tn_sites s' = tn_sites s \<Longrightarrow> w_queueUp (tn_world s') = w_queueUp (tn_world s) \<Longrightarrow> grows i s s'"
  by (simp add: grows_def phoneTaken_def siteSound_def siteAgent_def siteById_def)

lemma grows_worldM: "preserves w_queueUp m \<Longrightarrow> moves (grows i) (worldM m)"
  unfolding moves_def
proof
  fix s :: tenancy
  assume frame: "preserves w_queueUp m"
  obtain r w where run: "m (tn_world s) = (r, w)" by (cases "m (tn_world s)")
  show "grows i s (snd (worldM m s))"
    using preservesD[OF frame run] by (simp add: worldM_def run grows_sites)
qed

lemma grows_ask [moving]: "moves (grows i) (askM answer req)"
  by (simp add: moves_def askM_run grows_sites)

lemma grows_world [moving]:
  "moves (grows i) (worldM (emitM e))" "moves (grows i) (worldM freshId)" "moves (grows i) (worldM (readDb h))"
  by (rule grows_worldM; simp add: preserves_def)+

lemma grows_basic [moving]:
  "moves (grows i) (auditM act who org entity v)" "moves (grows i) clockM" "moves (grows i) (siteM j)" "moves (grows i) (orgM j)"
  unfolding auditM_def clockM_def siteM_def orgM_def by (intro moving grows_preorder)+

lemma grows_modify [moving]: "(\<And>s. tn_sites (g s) = tn_sites s \<and> w_queueUp (tn_world (g s)) = w_queueUp (tn_world s)) \<Longrightarrow>
    moves (grows i) (modifyM g)"
  by (simp add: moves_def grows_sites)

lemma grows_setOrg [moving]: "moves (grows i) (setOrg j f)"
  unfolding setOrg_def by (intro moving) simp

lemma phoneTaken_update: "(\<And>l. loc_id (f l) = loc_id l) \<Longrightarrow>
    phoneTaken p i (s\<lparr>tn_sites := update_where (\<lambda>r. loc_id r = i) f (tn_sites s)\<rparr>) = phoneTaken p i s"
  by (auto simp: phoneTaken_def list_ex_iff set_update_where)

lemma grows_setSite [moving]:
  "(\<And>l. loc_id (f l) = loc_id l \<and> ste_phoneNumber (f l) = ste_phoneNumber l \<and>
      (truthy (ste_telnyxAssistantId l) \<longrightarrow> truthy (ste_telnyxAssistantId (f l)))) \<Longrightarrow> moves (grows i) (setSite i f)"
  unfolding moves_def
proof
  fix s
  assume f: "\<And>l. loc_id (f l) = loc_id l \<and> ste_phoneNumber (f l) = ste_phoneNumber l \<and>
      (truthy (ste_telnyxAssistantId l) \<longrightarrow> truthy (ste_telnyxAssistantId (f l)))"
  then show "grows i s (snd (setSite i f s))"
    by (cases "siteById i s") (auto simp: grows_def setSite_def siteSound_def siteAgent_def siteById_setSite phoneTaken_update)
qed

lemma grows_claimPhone [moving]: "moves (grows i) (claimPhone i p n)"
  unfolding moves_def
proof
  fix s
  show "grows i s (snd (claimPhone i p n s))"
  proof (cases "phoneTaken p i s")
    case True
    then show ?thesis by (simp add: claimPhone_def prog_step grows_sites)
  next
    case False
    then show ?thesis
      by (cases "siteById i s")
        (auto simp: claimPhone_def prog_step setSite_def grows_def siteSound_def siteAgent_def siteById_setSite phoneTaken_update)
  qed
qed

lemma grows_variables [moving]: "moves (grows i) (setAssistantDynamicVariablesOrThrow tx a vs)"
  unfolding setAssistantDynamicVariablesOrThrow_def Let_def by (intro moving grows_preorder)

lemma grows_pollOrder [moving]: "moves (grows i) (pollOrder env orderId n status)"
proof (induction n arbitrary: status)
  case (Suc n)
  show ?case unfolding pollOrder.simps Let_def by (intro moving grows_preorder Suc; simp)
qed (simp add: moves_basic grows_preorder)

lemma grows_create [moving]: "moves (grows i) (createInvitation env org inviter dto)"
  unfolding createInvitation_def insertInvitation_def sendOrganizationInvitation_def
  by (intro moving grows_preorder; simp)+

lemma grows_body [moving]: "moves (grows (pd_locationId data)) (stepBody env data name metadata previous)"
  unfolding stepBody_def searchPhoneNumber_def purchasePhoneNumber_def buyNumber_def cloneAgent_def cloneNew_def assignPhoneToAgent_def
    configureAgent_def importMenu_def registerWebhook_def sendAdminInvitation_def Let_def
  by (intro moving grows_preorder; simp)+

section \<open>A step that runs, and what it leaves\<close>

definition leaves :: "uuid \<Rightarrow> string \<Rightarrow> step_meta \<Rightarrow> tenancy \<Rightarrow> bool" where
  "leaves i name m s \<longleftrightarrow> (name = ''search_phone_number'' \<longrightarrow> goodNumber i s m) \<and>
     (name = ''clone_agent'' \<longrightarrow> truthy (md_assistantId m) \<and> truthy (siteAgent i s)) \<and>
     (name = ''purchase_phone_number'' \<longrightarrow> truthy (siteNumber i s))"

lemma phoneTaken_log [simp]: "phoneTaken p i (s\<lparr>tn_telnyx := q\<rparr>) = phoneTaken p i s"
  by (simp add: phoneTaken_def)

lemma phoneTaken_world [simp]: "phoneTaken p i (s\<lparr>tn_world := w\<rparr>) = phoneTaken p i s"
  by (simp add: phoneTaken_def)

lemma siteById_log [simp]: "siteById i (s\<lparr>tn_telnyx := q\<rparr>) = siteById i s" "siteById i (s\<lparr>tn_world := w\<rparr>) = siteById i s"
    "siteById i (s\<lparr>tn_steps := r\<rparr>) = siteById i s"
  by (simp_all add: siteById_def)

lemma siteM_run: "siteById i s = Some l \<Longrightarrow> bindM (siteM i) f s = f l s"
  by (simp add: siteM_def bindM_assoc)

lemma askM_assistant:
  assumes "answersAll env"
  obtains r where "bindM (askM (tx_assistant (pn_telnyx env)) req) f s = f r (s\<lparr>tn_telnyx := tn_telnyx s @ [req]\<rparr>)"
    and "truthy (as_id (unwrapAssistant r))"
  using assms that by (simp add: answersAll_def bindM_askM) (metis sum.case(2))

lemma askM_numbers:
  assumes "answersAll env"
  obtains n ns where "bindM (askM (tx_numbers (pn_telnyx env)) req) f s = f (Some (n # ns)) (s\<lparr>tn_telnyx := tn_telnyx s @ [req]\<rparr>)"
    and "truthy (no_id n)" and "truthy (no_phoneNumber n)" and "tx_numbers (pn_telnyx env) (tn_telnyx s) req = Inr (Some (n # ns))"
  using assms that by (simp add: answersAll_def bindM_askM) (metis sum.case(2))

lemma askM_update: "answersAll env \<Longrightarrow> askM (tx_update (pn_telnyx env)) req s = (Inr (), s\<lparr>tn_telnyx := tn_telnyx s @ [req]\<rparr>)"
  by (simp add: answersAll_def askM_run)

lemma update_then: "answersAll env \<Longrightarrow> thenM (askM (tx_update (pn_telnyx env)) req) rest s = rest (s\<lparr>tn_telnyx := tn_telnyx s @ [req]\<rparr>)"
  by (simp add: thenM_def bindM_def askM_update)

lemma search_runs:
  assumes "answersAll env" and "offersFree env i s" and "siteSound i s"
  shows "\<exists>m' s'. searchPhoneNumber env i m s = (Inr m', s') \<and> goodNumber i s' m'"
proof -
  obtain l where l: "siteById i s = Some l" "\<not> phoneTaken (ste_phoneNumber l) i s"
    using assms(3) by (auto simp: siteSound_def)
  show ?thesis
  proof (cases "truthy (ste_phoneNumber l)")
    case True
    then show ?thesis using l by (simp add: searchPhoneNumber_def siteM_run goodNumber_def)
  next
    case False
    let ?req = "SearchNumbers (or_else (ste_country l) ''US'') (or_null (ste_state l)) (or_null (ste_city l)) 1"
    obtain n ns where n: "truthy (no_phoneNumber n)" "tx_numbers (pn_telnyx env) (tn_telnyx s) ?req = Inr (Some (n # ns))"
      using assms(1) unfolding answersAll_def by metis
    then have "\<not> phoneTaken (no_phoneNumber n) i s" using assms(2) by (auto simp: offersFree_def)
    with n l False show ?thesis by (simp add: searchPhoneNumber_def siteM_run bindM_askM goodNumber_def)
  qed
qed

lemma poll_runs:
  assumes "answersAll env"
  shows "\<exists>w q. pollOrder env k (Suc (Suc n)) (Some ''pending'') s = (Inr (), s\<lparr>tn_world := w, tn_telnyx := q\<rparr>)"
proof -
  let ?s = "s\<lparr>tn_world := (tn_world s)\<lparr>w_now := w_now (tn_world s) + 2000\<rparr>\<rparr>"
  obtain r where r: "tx_order (pn_telnyx env) (tn_telnyx s) (GetNumberOrder k) = Inr (Some r)" "ono_status r = Some ''success''"
    using assms unfolding answersAll_def by metis
  then show ?thesis by (auto simp: bindM_askM)
qed

lemma siteById_id: "siteById i s = Some l \<Longrightarrow> loc_id l = i"
  unfolding siteById_def by (drule first_row_SomeD) simp

lemma claimPhone_then: "\<not> phoneTaken p i s \<Longrightarrow> thenM (claimPhone i p n) rest s =
    rest (s\<lparr>tn_sites := update_where (\<lambda>r. loc_id r = i) (\<lambda>r. r\<lparr>ste_phoneNumber := p, ste_telnyxPhoneNumberId := n\<rparr>) (tn_sites s)\<rparr>)"
  by (simp add: claimPhone_def setSite_def thenM_def bindM_assoc bindM_def)

lemma buy_runs:
  assumes "answersAll env" and "\<not> phoneTaken (Some p) i s" and "siteById i s = Some l"
  shows "\<exists>m' s'. buyNumber env i m p s = (Inr m', s') \<and> truthy (siteNumber i s')"
proof -
  obtain r where r: "tx_order (pn_telnyx env) (tn_telnyx s) (CreateNumberOrder p) = Inr (Some r)"
    using assms(1) unfolding answersAll_def by metis
  let ?s = "s\<lparr>tn_telnyx := tn_telnyx s @ [CreateNumberOrder p]\<rparr>"
  obtain w q where poll: "pollOrder env (ono_id r) 10 (Some ''pending'') ?s = (Inr (), ?s\<lparr>tn_world := w, tn_telnyx := q\<rparr>)"
    using poll_runs[OF assms(1), of "ono_id r" 8 ?s] by (auto simp: eval_nat_numeral)
  obtain n ns where n: "truthy (no_id n)" "tx_numbers (pn_telnyx env) q (NumbersByNumber p) = Inr (Some (n # ns))"
    using assms(1) unfolding answersAll_def by metis
  have polled: "thenM (pollOrder env (ono_id r) 10 (Some ''pending'')) rest ?s = rest (?s\<lparr>tn_world := w, tn_telnyx := q\<rparr>)" for rest
    by (simp add: thenM_def bindM_def poll)
  show ?thesis
    using assms(2,3) siteById_id[OF assms(3)] r n
    by (simp add: buyNumber_def bindM_askM polled claimPhone_then siteNumber_def siteById_def first_row_update_where Let_def)
qed

lemma purchase_runs:
  assumes "answersAll env" and "siteSound i s"
    and "truthy (siteNumber i s) \<or> (\<exists>m. previous ''search_phone_number'' = Some m \<and> goodNumber i s m)"
  shows "\<exists>m' s'. purchasePhoneNumber env i m previous s = (Inr m', s') \<and> truthy (siteNumber i s')"
proof (cases "truthy (siteNumber i s)")
  case True
  then show ?thesis by (simp add: purchasePhoneNumber_def siteNumber_def)
next
  case False
  with assms(3) obtain sm where sm: "previous ''search_phone_number'' = Some sm" "goodNumber i s sm" by blast
  then obtain p where p: "md_selectedPhoneNumber sm = Some p" "p \<noteq> []" "\<not> phoneTaken (Some p) i s"
    by (cases "md_selectedPhoneNumber sm") (auto simp: goodNumber_def)
  obtain l where "siteById i s = Some l" using assms(2) by (auto simp: siteSound_def)
  from buy_runs[OF assms(1) p(3) this, of m] False sm p show ?thesis
    by (simp add: purchasePhoneNumber_def siteNumber_def)
qed

lemma clone_runs:
  assumes "answersAll env" and "siteSound i s"
  shows "\<exists>m' s'. cloneAgent env i m s = (Inr m', s') \<and> truthy (md_assistantId m') \<and> truthy (siteAgent i s')"
proof -
  obtain l where l: "siteById i s = Some l" using assms(2) by (auto simp: siteSound_def)
  show ?thesis
  proof (cases "truthy (ste_telnyxAssistantId l)")
    case True
    then show ?thesis using l by (simp add: cloneAgent_def siteM_run siteAgent_def)
  next
    case False
    let ?master = "orStr (Option.bind (ste_aiSettings l) ai_baseAgentId) (pn_masterAgentId env)"
    have master: "truthy ?master" using assms(1) by (simp add: orStr_def answersAll_def)
    obtain r where r: "tx_assistant (pn_telnyx env) (tn_telnyx s) (CloneAssistant (the ?master)) = Inr r"
        "truthy (as_id (unwrapAssistant r))"
      using assms(1) unfolding answersAll_def by metis
    have "truthy (orStr (as_id r) (Option.bind (as_data r) as_id))"
      using r(2) by (cases "as_data r") (auto simp: orStr_def unwrapAssistant_def assistant.truncate_def)
    with l siteById_id[OF l] r False master show ?thesis
      by (simp add: cloneAgent_def siteM_run cloneNew_def bindM_askM Let_def setSite_def siteAgent_def)
        (simp add: siteById_def first_row_update_where)
  qed
qed

lemma variables_run:
  assumes "answersAll env"
  shows "\<exists>s'. setAssistantDynamicVariablesOrThrow (pn_telnyx env) a vs s = (Inr (), s')"
proof -
  obtain r where r: "tx_assistant (pn_telnyx env) (tn_telnyx s) (GetAssistant a) = Inr r" "truthy (as_id (unwrapAssistant r))"
    using assms unfolding answersAll_def by metis
  then show ?thesis
    using assms by (simp add: setAssistantDynamicVariablesOrThrow_def bindM_askM Let_def askM_update)
qed

lemma assign_runs:
  assumes "answersAll env" and "truthy (siteNumber i s)"
  shows "\<exists>s'. assignPhoneToAgent env i previous s = (Inr (), s')"
  using assms(2) askM_update[OF assms(1)] assms(1)
  by (simp add: assignPhoneToAgent_def prog_step Let_def siteNumber_def orStr_def answersAll_def)

lemma configure_runs:
  assumes "answersAll env" and "siteSound i s" and "truthy (Option.bind (previous ''clone_agent'') md_assistantId)"
  shows "\<exists>s'. configureAgent env i previous s = (Inr (), s')"
proof -
  obtain l where l: "siteById i s = Some l" using assms(2) by (auto simp: siteSound_def)
  show ?thesis
    using assms(3)
    by (cases "Option.bind (ste_aiSettings l) ai_dynamicVariables")
      (simp_all add: configureAgent_def prog_step siteM_run[OF l] Let_def update_then[OF assms(1)] variables_run[OF assms(1)])
qed

lemma import_runs: "siteSound i s \<Longrightarrow> \<exists>s'. importMenu i s = (Inr (), s')"
  by (auto simp: siteSound_def importMenu_def siteM_run Let_def prog_step)

lemma webhook_runs:
  assumes "answersAll env" and "siteSound i s" and "truthy (siteAgent i s)"
  shows "\<exists>s'. registerWebhook env g i s = (Inr (), s')"
proof -
  obtain l where l: "siteById i s = Some l" using assms(2) by (auto simp: siteSound_def)
  then have "truthy (ste_telnyxAssistantId l)" using assms(3) by (simp add: siteAgent_def)
  then show ?thesis
    using l variables_run[OF assms(1)]
    by (auto simp: registerWebhook_def worldM_bind setSite_def setOrg_def Let_def prog_step siteById_def first_row_update_where)
qed

lemma body_runs:
  assumes "answersAll env" and "offersFree env i s" and "siteSound i s" and "i = pd_locationId data" and "\<not> truthy (pd_adminEmail data)"
    and "name = ''purchase_phone_number'' \<Longrightarrow> truthy (siteNumber i s) \<or> (\<exists>m. previous ''search_phone_number'' = Some m \<and> goodNumber i s m)"
    and "name = ''configure_agent'' \<Longrightarrow> truthy (Option.bind (previous ''clone_agent'') md_assistantId)"
    and "name = ''assign_phone_to_agent'' \<Longrightarrow> truthy (siteNumber i s)"
    and "name = ''register_webhook'' \<Longrightarrow> truthy (siteAgent i s)"
  shows "\<exists>m' s'. stepBody env data name m previous s = (Inr m', s') \<and> leaves i name m' s'"
proof -
  have after: "\<exists>s'. thenM p (returnM m) s = (Inr m, s')" if "\<exists>s'. p s = (Inr (), s')" for p :: "unit tenant"
    using that by (auto simp: thenM_def bindM_def)
  consider "name = ''search_phone_number''" | "name = ''purchase_phone_number''" | "name = ''clone_agent''"
    | "name = ''assign_phone_to_agent''" | "name = ''configure_agent''" | "name = ''import_menu''" | "name = ''register_webhook''"
    | "name \<noteq> ''search_phone_number'' \<and> name \<noteq> ''purchase_phone_number'' \<and> name \<noteq> ''clone_agent'' \<and>
        name \<noteq> ''assign_phone_to_agent'' \<and> name \<noteq> ''configure_agent'' \<and> name \<noteq> ''import_menu'' \<and> name \<noteq> ''register_webhook''"
    by argo
  then show ?thesis
  proof cases
    case 1
    then show ?thesis using search_runs[OF assms(1-3)] by (simp add: stepBody_def leaves_def assms(4)[symmetric])
  next
    case 2
    then show ?thesis using purchase_runs[of env i s previous m, OF assms(1,3) assms(6)[OF 2]] by (simp add: stepBody_def leaves_def assms(4)[symmetric])
  next
    case 3
    then show ?thesis using clone_runs[OF assms(1,3)] by (simp add: stepBody_def leaves_def assms(4)[symmetric])
  next
    case 4
    then show ?thesis using after[of "assignPhoneToAgent env i previous", OF assign_runs[OF assms(1) assms(8)[OF 4]]] by (auto simp: stepBody_def leaves_def assms(4)[symmetric])
  next
    case 5
    then show ?thesis using after[of "configureAgent env i previous", OF configure_runs[of env i s previous, OF assms(1,3) assms(7)[OF 5]]] by (auto simp: stepBody_def leaves_def assms(4)[symmetric])
  next
    case 6
    then show ?thesis using after[of "importMenu i", OF import_runs[OF assms(3)]] by (auto simp: stepBody_def leaves_def assms(4)[symmetric])
  next
    case 7
    then show ?thesis using after[of "registerWebhook env (pd_organizationId data) i", OF webhook_runs[OF assms(1,3) assms(9)[OF 7]]] by (auto simp: stepBody_def leaves_def assms(4)[symmetric])
  next
    case 8
    then show ?thesis using assms(5) by (simp add: stepBody_def leaves_def Let_def)
  qed
qed

lemma body_leaves:
  assumes "answersAll env" and "offersFree env i s" and "siteSound i s" and "i = pd_locationId data"
    and "\<And>m. previous ''search_phone_number'' = Some m \<Longrightarrow> goodNumber i s m"
    and "stepBody env data name m previous s = (Inr m', s')"
  shows "leaves i name m' s'"
proof (cases "name = ''purchase_phone_number''")
  case True
  then have run: "purchasePhoneNumber env i m previous s = (Inr m', s')"
    using assms(4,6) by (simp add: stepBody_def)
  have "truthy (siteNumber i s) \<or> (\<exists>m. previous ''search_phone_number'' = Some m \<and> goodNumber i s m)"
  proof (rule ccontr)
    assume a: "\<not> ?thesis"
    then have "previous ''search_phone_number'' = None" using assms(5) by (cases "previous ''search_phone_number''") auto
    with a run show False by (simp add: purchasePhoneNumber_def siteNumber_def)
  qed
  from purchase_runs[of env i s previous m, OF assms(1,3) this] run True show ?thesis by (auto simp: leaves_def)
next
  case False
  show ?thesis
  proof (cases "name = ''search_phone_number'' \<or> name = ''clone_agent''")
    case True
    then show ?thesis
    proof
      assume n: "name = ''search_phone_number''"
      then have run: "searchPhoneNumber env i m s = (Inr m', s')" using assms(4,6) by (simp add: stepBody_def)
      have "goodNumber i s' m'" using search_runs[OF assms(1-3), of m] unfolding run by auto
      with n show ?thesis by (simp add: leaves_def)
    next
      assume n: "name = ''clone_agent''"
      then have run: "cloneAgent env i m s = (Inr m', s')" using assms(4,6) by (simp add: stepBody_def)
      have "truthy (md_assistantId m') \<and> truthy (siteAgent i s')" using clone_runs[OF assms(1,3), of m] unfolding run by auto
      with n show ?thesis by (simp add: leaves_def)
    qed
  qed (use False in \<open>simp add: leaves_def\<close>)
qed

section \<open>A run from step to step\<close>

lemma number_kept: "keepsNumber i s s' \<Longrightarrow> truthy (siteNumber i s) \<Longrightarrow> truthy (siteNumber i s')"
  by (cases "siteById i s") (auto simp: keepsNumber_def siteNumber_def)

lemma keepsNumber_stepAlone: "moves (keepsNumber (pd_locationId data)) (stepAlone env data previous step)"
  unfolding stepAlone_def tryAlone_def stepFailed_def updateStepStatus_def
  by (intro moving keepsNumber_preorder; simp)+

lemma grows_stepAlone: "moves (grows (pd_locationId data)) (stepAlone env data previous step)"
  unfolding stepAlone_def tryAlone_def stepFailed_def updateStepStatus_def
  by (intro moving grows_preorder; simp)+

lemma resultKept_later:
  "resultKept i s r \<Longrightarrow> grows i s s' \<Longrightarrow> keepsNumber i s s' \<Longrightarrow> resultKept i s' r"
  using number_kept[of i s s'] by (auto simp: resultKept_def grows_def goodNumber_def)

lemma stepsOf_update:
  assumes "tn_steps s' = update_where (\<lambda>r. st_id r = j) f (tn_steps s)" and "\<And>r. stepCore (f r) = stepCore r"
  shows "stepsOf g i s' = map (\<lambda>r. if st_id r = j then f r else r) (stepsOf g i s)"
proof -
  let ?h = "\<lambda>r. if st_id r = j then f r else r"
  have core: "stepCore (?h r) = stepCore r" for r using assms(2) by simp
  note fields = stepCore_eqD[OF core]
  have "filter (\<lambda>r. st_locationId r = i \<and> st_organizationId r = g) (map ?h xs) =
      map ?h (filter (\<lambda>r. st_locationId r = i \<and> st_organizationId r = g) xs)" for xs
    unfolding filter_map comp_def using fields by metis
  moreover have "sort_key st_stepOrder (map ?h xs) = map ?h (sort_key st_stepOrder xs)" for xs
    by (rule sort_key_map) (use fields in blast)
  ultimately show ?thesis
    unfolding stepsOf_def assms(1) update_where_def by metis
qed

lemma stepStatusSet_core: "stepCore (stepStatusSet status m e now r) = stepCore r"
  by (simp add: stepStatusSet_def stepCore_def)

text \<open>What a run of an open step does to the rows.\<close>

definition marked :: "string \<Rightarrow> step_meta option \<Rightarrow> step_row \<Rightarrow> step_row \<Rightarrow> bool" where
  "marked status m r r' \<longleftrightarrow> stepCore r' = stepCore r \<and> st_status r' = status \<and>
     st_metadata r' = (case m of None \<Rightarrow> st_metadata r | _ \<Rightarrow> m)"

lemma stepAlone_rows:
  assumes "stepAlone env data previous x s = (r, s')" and "\<not> stepDone x"
  obtains (completes) m s1 f where "r = Inr ()"
      and "stepBody env data (st_stepName x) (nvl (st_metadata x) noMeta) previous (started x s) = (Inr m, s1)"
      and "tn_sites s' = tn_sites s1" and "\<And>g i. stepsOf g i s' = map (\<lambda>r. if st_id r = st_id x then f r else r) (stepsOf g i s)"
      and "\<And>r. marked ''completed'' (Some m) r (f r)"
    | (stops) e f where "r = Inl e"
      and "\<And>m s1. stepBody env data (st_stepName x) (nvl (st_metadata x) noMeta) previous (started x s) \<noteq> (Inr m, s1)"
      and "\<And>g i. stepsOf g i s' = map (\<lambda>r. if st_id r = st_id x then f r else r) (stepsOf g i s)"
      and "\<And>r. \<exists>status. marked status None r (f r) \<and> status \<in> {''in_progress'', ''failed''}"
proof -
  let ?body = "stepBody env data (st_stepName x) (nvl (st_metadata x) noMeta) previous"
  let ?initial = "stepStatusSet ''in_progress'' None [] (w_now (tn_world s))"
  obtain b s1 where b: "?body (started x s) = (b, s1)" by (cases "?body (started x s)")
  have steps1: "tn_steps s1 = update_where (\<lambda>r. st_id r = st_id x) ?initial (tn_steps s)"
    using preservesD[OF steps_body b] by (simp add: started_def)
  have run: "catchM (tryAlone env data previous x) (stepFailed data x) (started x s) = (r, s')"
    using assms by (simp add: stepAlone_open)
  show thesis
  proof (cases b)
    case (Inr m)
    let ?final = "stepStatusSet ''completed'' (Some m) [] (w_now (tn_world s1))"
    have s': "r = Inr ()" "tn_sites s' = tn_sites s1"
      "tn_steps s' = update_where (\<lambda>r. st_id r = st_id x) ?final (tn_steps s1)"
      using run b Inr by (auto simp: tryAlone_def catchM_def bindM_def thenM_def updateStepStatus_run auditM_def worldM_def)
    have "tn_steps s' = update_where (\<lambda>r. st_id r = st_id x) (?final \<circ> ?initial) (tn_steps s)"
      unfolding s'(3) steps1 by (simp add: update_where_def stepStatusSet_def)
    from stepsOf_update[OF this] have "stepsOf g i s' = map (\<lambda>r. if st_id r = st_id x then (?final \<circ> ?initial) r else r) (stepsOf g i s)" for g i
      by (simp add: stepStatusSet_core)
    then show thesis
      using s' b Inr by (intro completes[of m s1 "?final \<circ> ?initial"]) (auto simp: marked_def stepStatusSet_core, simp_all add: stepStatusSet_def)
  next
    case (Inl e)
    let ?final = "stepStatusSet ''failed'' None (exceptionText e) (w_now (tn_world s1))"
    have fail: "stepFailed data x e s1 = (r, s')"
      using run b Inl by (simp add: tryAlone_def catchM_def bindM_def)
    have nobody: "?body (started x s) \<noteq> (Inr m, s2)" for m s2 using b Inl by simp
    obtain e' where r: "r = Inl e'" using stepFailed_throws[of data x e s1] fail by auto
    show thesis
    proof (cases "length (exceptionText e) \<le> 2048")
      case True
      have "tn_steps s' = update_where (\<lambda>r. st_id r = st_id x) ?final (tn_steps s1)"
        using fail True by (auto simp: stepFailed_def thenM_def bindM_def updateStepStatus_run auditM_def worldM_def setSite_def)
      then have "tn_steps s' = update_where (\<lambda>r. st_id r = st_id x) (?final \<circ> ?initial) (tn_steps s)"
        unfolding steps1 by (simp add: update_where_def stepStatusSet_def)
      from stepsOf_update[OF this] have "stepsOf g i s' = map (\<lambda>r. if st_id r = st_id x then (?final \<circ> ?initial) r else r) (stepsOf g i s)" for g i
        by (simp add: stepStatusSet_core)
      then show thesis
        by (rule stops[OF r nobody, of "?final \<circ> ?initial"]) (rule exI[of _ "''failed''"], simp add: marked_def stepStatusSet_core, simp add: stepStatusSet_def)
    next
      case False
      then have "tn_steps s' = update_where (\<lambda>r. st_id r = st_id x) ?initial (tn_steps s)"
        using fail steps1 by (simp add: stepFailed_def updateStepStatus_def prog_step thenM_def bindM_def throw_if_def clockM_def)
      from stepsOf_update[OF this] have "stepsOf g i s' = map (\<lambda>r. if st_id r = st_id x then ?initial r else r) (stepsOf g i s)" for g i
        by (simp add: stepStatusSet_core)
      then show thesis
        by (rule stops[OF r nobody, of ?initial]) (rule exI[of _ "''in_progress''"], simp add: marked_def stepStatusSet_core, simp add: stepStatusSet_def)
    qed
  qed
qed

definition midRun :: "provision_env \<Rightarrow> provision_data \<Rightarrow> step_row list \<Rightarrow> step_row set \<Rightarrow> tenancy \<Rightarrow> bool" where
  "midRun env data S D t \<longleftrightarrow> siteSound (pd_locationId data) t \<and> offersFree env (pd_locationId data) t \<and>
     (\<forall>m. getPreviousStepsMetadata S ''search_phone_number'' = Some m \<longrightarrow> goodNumber (pd_locationId data) t m) \<and>
     (\<exists>h. stepsOf (pd_organizationId data) (pd_locationId data) t = map h S \<and>
        (\<forall>r. stepCore (h r) = stepCore r) \<and> (\<forall>r \<in> set S. resultKept (pd_locationId data) t (h r)) \<and>
        (\<forall>r \<in> set S. stepDone r \<or> r \<in> D \<longrightarrow> stepDone (h r)) \<and>
        (\<forall>r \<in> set S. \<not> stepDone r \<and> r \<notin> D \<longrightarrow> \<not> stepDone (h r)) \<and>
        (\<forall>r \<in> set S. st_metadata r \<noteq> None \<longrightarrow> st_metadata (h r) \<noteq> None))"

lemma started_simps [simp]:
  "siteSound i (started x s) = siteSound i s" "offersFree env i (started x s) = offersFree env i s"
  "siteNumber i (started x s) = siteNumber i s" "siteAgent i (started x s) = siteAgent i s"
  "goodNumber i (started x s) m = goodNumber i s m"
  by (simp_all add: started_def siteSound_def offersFree_def siteNumber_def siteAgent_def goodNumber_def phoneTaken_def siteById_def)

lemma marked_name: "marked status m r r' \<Longrightarrow> st_stepName r' = st_stepName r"
  unfolding marked_def using stepCore_eqD by blast

lemma completed_kept:
  assumes "marked ''completed'' (Some m) r r'" and "leaves i (st_stepName r) m s1" and "tn_sites s' = tn_sites s1"
  shows "resultKept i s' r'"
  using assms marked_name[OF assms(1)]
  by (auto simp: resultKept_def leaves_def marked_def stepDone_def goodNumber_def siteNumber_def siteAgent_def siteById_def phoneTaken_def)

lemma stopped_kept:
  assumes "marked status None r r'" and "status \<in> {''in_progress'', ''failed''}" and "resultKept i s r" and "\<not> stepDone r"
  shows "resultKept i s r'"
proof -
  have "\<not> stepDone r'" using assms(1,2) by (auto simp: marked_def stepDone_def)
  moreover have "st_metadata r' = st_metadata r" using assms(1) by (simp add: marked_def)
  ultimately show ?thesis
    using assms(3,4) by (simp add: resultKept_def marked_name[OF assms(1)])
qed

definition afterRun :: "provision_env \<Rightarrow> provision_data \<Rightarrow> step_row list \<Rightarrow> tenancy \<Rightarrow> bool" where
  "afterRun env data S t \<longleftrightarrow> (\<exists>D. midRun env data S D t)"

definition carried :: "uuid \<Rightarrow> step_row list \<Rightarrow> step_row set \<Rightarrow> tenancy \<Rightarrow> (step_row \<Rightarrow> step_row) \<Rightarrow> bool" where
  "carried i S D t h \<longleftrightarrow> (\<forall>r. stepCore (h r) = stepCore r) \<and> (\<forall>r \<in> set S. resultKept i t (h r)) \<and>
     (\<forall>r \<in> set S. stepDone r \<or> r \<in> D \<longrightarrow> stepDone (h r)) \<and>
     (\<forall>r \<in> set S. \<not> stepDone r \<and> r \<notin> D \<longrightarrow> \<not> stepDone (h r)) \<and>
     (\<forall>r \<in> set S. st_metadata r \<noteq> None \<longrightarrow> st_metadata (h r) \<noteq> None)"

lemma midRunE:
  assumes "midRun env data S D t"
  obtains h where "stepsOf (pd_organizationId data) (pd_locationId data) t = map h S" and "carried (pd_locationId data) S D t h"
  using assms unfolding midRun_def carried_def by blast

lemma carriedD:
  assumes "carried i S D t h"
  shows "stepCore (h r) = stepCore r" "r \<in> set S \<Longrightarrow> resultKept i t (h r)" "r \<in> set S \<Longrightarrow> stepDone r \<or> r \<in> D \<Longrightarrow> stepDone (h r)"
    "r \<in> set S \<Longrightarrow> st_metadata r \<noteq> None \<Longrightarrow> st_metadata (h r) \<noteq> None"
    "r \<in> set S \<Longrightarrow> \<not> stepDone r \<Longrightarrow> r \<notin> D \<Longrightarrow> \<not> stepDone (h r)"
  using assms unfolding carried_def by blast+

lemma midRun_stepAlone:
  assumes mid: "midRun env data S D t" and "answersAll env" and "x \<in> set S" and "x \<notin> D" and "distinct (map st_id S)"
    and run: "stepAlone env data (getPreviousStepsMetadata S) x t = (r, t')"
  shows "midRun env data S (case r of Inl _ \<Rightarrow> D | Inr _ \<Rightarrow> insert x D) t'"
proof (cases "stepDone x")
  case True
  with run have "r = Inr ()" "t' = t" by (simp_all add: stepAlone_def)
  with mid True assms(3) show ?thesis by (auto simp: midRun_def)
next
  case False
  let ?i = "pd_locationId data" and ?g = "pd_organizationId data" and ?prev = "getPreviousStepsMetadata S"
  obtain h where hmap: "stepsOf ?g ?i t = map h S" and hc: "carried ?i S D t h"
    by (rule midRunE[OF mid])
  note h = hmap carriedD[OF hc]
  have base: "siteSound ?i t" "offersFree env ?i t" "?prev ''search_phone_number'' = Some m \<Longrightarrow> goodNumber ?i t m" for m
    using mid by (simp_all add: midRun_def)
  have grow: "grows ?i t t'" and keep: "keepsNumber ?i t t'"
    using movesD[OF grows_stepAlone run] movesD[OF keepsNumber_stepAlone run] .
  have sound: "siteSound ?i t'" "offersFree env ?i t'" "?prev ''search_phone_number'' = Some m \<Longrightarrow> goodNumber ?i t' m" for m
    using base grow by (auto simp: grows_def offersFree_def goodNumber_def)
  have later: "resultKept ?i t' (h r)" if "r \<in> set S" for r
    using resultKept_later[OF h(3)[OF that] grow keep] .
  have one: "st_id (h r) = st_id x \<longleftrightarrow> r = x" if "r \<in> set S" for r
    using stepCore_eqD[OF h(2)[of r]] that assms(3,5) by (auto simp: distinct_map inj_on_def)
  show ?thesis
    using run False
  proof (cases rule: stepAlone_rows)
    case (completes m s1 f)
    have leave: "leaves ?i (st_stepName (h x)) m s1"
      using body_leaves[OF assms(2) _ _ refl _ completes(2)] base stepCore_eqD[OF h(2)[of x]] by simp
    have kept: "resultKept ?i t' (f (h x))"
      by (rule completed_kept[OF completes(5) leave completes(3)])
    have "stepsOf ?g ?i t' = map (\<lambda>r. if st_id (h r) = st_id x then f (h r) else h r) S"
      unfolding completes(4) h(1) by simp
    then show ?thesis
      unfolding midRun_def completes(1) sum.case
      using sound later kept h one completes(5)
      by (intro conjI exI[of _ "\<lambda>r. if st_id (h r) = st_id x then f (h r) else h r"])
        (auto simp: marked_def stepDone_def)
  next
    case (stops e f)
    obtain status where status: "marked status None (h x) (f (h x))" "status \<in> {''in_progress'', ''failed''}"
      using stops(4)[of "h x"] by blast
    have kept: "resultKept ?i t' (f (h x))"
      by (rule stopped_kept[OF status later[OF assms(3)] h(6)[OF assms(3) False assms(4)]])
    have meta: "st_metadata (f r) = st_metadata r" "stepCore (f r) = stepCore r" "\<not> stepDone (f r)" for r
      using stops(4)[of r] by (auto simp: marked_def stepDone_def)
    have "stepsOf ?g ?i t' = map (\<lambda>r. if st_id (h r) = st_id x then f (h r) else h r) S"
      unfolding stops(3) h(1) by simp
    then show ?thesis
      unfolding midRun_def stops(1) sum.case
      using sound later kept h one meta False assms(4)
      by (intro conjI exI[of _ "\<lambda>r. if st_id (h r) = st_id x then f (h r) else h r"]) auto
  qed
qed

lemma midRun_forM:
  assumes "answersAll env" and "distinct (map st_id S)"
  shows "midRun env data S D t \<Longrightarrow> set xs \<subseteq> set S \<Longrightarrow> distinct xs \<Longrightarrow> D \<inter> set xs = {} \<Longrightarrow>
    forM xs (stepAlone env data (getPreviousStepsMetadata S)) t = (Inr u, t') \<Longrightarrow> midRun env data S (D \<union> set xs) t'"
proof (induction xs arbitrary: D t)
  case (Cons x xs)
  obtain t1 where t1: "stepAlone env data (getPreviousStepsMetadata S) x t = (Inr (), t1)"
    "forM xs (stepAlone env data (getPreviousStepsMetadata S)) t1 = (Inr u, t')"
    using Cons.prems(5) by (auto elim: thenM_InrE)
  have "midRun env data S (insert x D) t1"
    using midRun_stepAlone[OF Cons.prems(1) assms(1) _ _ assms(2) t1(1)] Cons.prems by simp
  from Cons.IH[OF this _ _ _ t1(2)] Cons.prems show ?case by auto
qed simp

section \<open>The third attempt\<close>

definition storedSearch :: "step_row list \<Rightarrow> bool" where
  "storedSearch S \<longleftrightarrow> getPreviousStepsMetadata S ''search_phone_number'' \<noteq> None"

lemma previous_some: "r \<in> set S \<Longrightarrow> st_metadata r \<noteq> None \<Longrightarrow> getPreviousStepsMetadata S (st_stepName r) \<noteq> None"
  unfolding getPreviousStepsMetadata_def js_map_def map_of_eq_None_iff by (auto simp: image_iff)

lemma storedAgent_row:
  assumes "r \<in> set S" and "st_stepName r = ''clone_agent''" and "stepDone r" and "\<forall>r \<in> set S. resultKept i s r"
  shows "storedAgent S"
proof -
  have "st_metadata r \<noteq> None" using assms by (auto simp: resultKept_def)
  then obtain m where m: "getPreviousStepsMetadata S ''clone_agent'' = Some m"
    using previous_some[OF assms(1)] assms(2) by (cases "getPreviousStepsMetadata S ''clone_agent''") auto
  from previous_row[OF this] obtain r' where "r' \<in> set S" "st_stepName r' = ''clone_agent''" "st_metadata r' = Some m" by blast
  with assms(4) m show ?thesis by (auto simp: storedAgent_def resultKept_def)
qed

lemma storedSearch_row:
  assumes "r \<in> set S" and "st_stepName r = ''search_phone_number''" and "stepDone r" and "\<forall>r \<in> set S. resultKept i s r"
  shows "storedSearch S"
  using assms previous_some[OF assms(1)] by (auto simp: storedSearch_def resultKept_def)

text \<open>The state after the log of the start; nothing that matters is different there.\<close>

lemma run_start:
  assumes "provisionable (pd_organizationId data) (pd_locationId data) s"
  obtains sa where "handleProvisionOrganization env data s = thenM (forM (stepsOf (pd_organizationId data) (pd_locationId data) s)
      (stepAlone env data (getPreviousStepsMetadata (stepsOf (pd_organizationId data) (pd_locationId data) s)))) (finishProvisioning data) sa"
    and "tn_sites sa = tn_sites s" and "tn_steps sa = tn_steps s" and "w_queueUp (tn_world sa) = w_queueUp (tn_world s)"
proof -
  let ?S = "stepsOf (pd_organizationId data) (pd_locationId data) s"
  obtain sa where "whenM (list_ex (\<lambda>r. st_status r = ''pending'') ?S)
      (auditM ''org.provisioning.started'' None (pd_organizationId data) [] JNull) s = (Inr (), sa)"
      "tn_sites sa = tn_sites s" "tn_steps sa = tn_steps s" "w_queueUp (tn_world sa) = w_queueUp (tn_world s)"
    by (cases "list_ex (\<lambda>r. st_status r = ''pending'') ?S") (auto simp: auditM_def worldM_def)
  moreover have "\<forall>x \<in> set ?S. stepDone x \<or> st_metadata x = None"
    using assms by (auto simp: provisionable_def resultKept_def)
  ultimately show thesis
    using runSteps_forM[of ?S env data "[]"]
    by (intro that[of sa]) (simp_all add: handleProvisionOrganization_def thenM_eval)
qed

lemma midRun_start:
  assumes "provisionable g i s" and "offersFree env i s" and "g = pd_organizationId data" and "i = pd_locationId data"
    and "tn_sites sa = tn_sites s" and "tn_steps sa = tn_steps s" and "w_queueUp (tn_world sa) = w_queueUp (tn_world s)"
  shows "midRun env data (stepsOf g i s) {} sa"
proof -
  have same: "siteById j sa = siteById j s" "phoneTaken p j sa = phoneTaken p j s" "stepsOf g i sa = stepsOf g i s" for j p
    using assms(5,6) by (simp_all add: siteById_def phoneTaken_def stepsOf_def)
  have "goodNumber i sa m" if m: "getPreviousStepsMetadata (stepsOf g i s) ''search_phone_number'' = Some m" for m
    using previous_row[OF m] assms(1) same by (auto simp: provisionable_def resultKept_def goodNumber_def)
  moreover have "resultKept i sa r" if "r \<in> set (stepsOf g i s)" for r
    using assms(1) that same by (auto simp: provisionable_def resultKept_def goodNumber_def siteNumber_def siteAgent_def)
  ultimately show ?thesis
    unfolding midRun_def assms(3,4)[symmetric]
    using assms(1,2,7) same by (intro conjI exI[of _ id]) (auto simp: provisionable_def siteSound_def offersFree_def)
qed

text \<open>A run that stops has, by then, stored what it stopped for.\<close>

lemma run_stops:
  assumes "answersAll env" and "offersFree env i s" and "\<not> truthy (pd_adminEmail data)" and "provisionable g i s"
    and "inOrder (truthy (siteNumber i s)) (map st_stepName (stepsOf g i s))"
    and "g = pd_organizationId data" and "i = pd_locationId data"
    and "handleProvisionOrganization env data s = (Inl e, s')"
  shows "afterRun env data (stepsOf g i s) s' \<and>
    (\<not> storedSearch (stepsOf g i s) \<and> storedSearch (stepsOf g i s') \<and>
       (\<exists>x \<in> set (stepsOf g i s). st_stepName x = ''purchase_phone_number'' \<and> \<not> stepDone x) \<or>
     \<not> storedAgent (stepsOf g i s) \<and> storedAgent (stepsOf g i s') \<and>
       (\<forall>x \<in> set (stepsOf g i s'). st_stepName x = ''purchase_phone_number'' \<longrightarrow> stepDone x))"
proof -
  let ?S = "stepsOf g i s" and ?prev = "getPreviousStepsMetadata (stepsOf g i s)"
  obtain sa where sa: "handleProvisionOrganization env data s = thenM (forM ?S (stepAlone env data ?prev)) (finishProvisioning data) sa"
      "tn_sites sa = tn_sites s" "tn_steps sa = tn_steps s" "w_queueUp (tn_world sa) = w_queueUp (tn_world s)"
    using run_start[OF assms(4)[unfolded assms(6,7)], of env] unfolding assms(6,7) by blast
  have finish: "\<exists>u w. finishProvisioning data t = (Inr u, w)" for t
    by (simp add: finishProvisioning_def thenM_def bindM_def clockM_def setSite_def setOrg_def auditM_def worldM_def)
  have "forM ?S (stepAlone env data ?prev) sa = (Inl e, s')"
  proof (cases "forM ?S (stepAlone env data ?prev) sa")
    case (Pair r t)
    then show ?thesis
      using assms(8) sa(1) finish[of t] by (cases r) (auto simp: thenM_def bindM_def)
  qed
  then obtain ys x zs t where split: "?S = ys @ x # zs" "forM ys (stepAlone env data ?prev) sa = (Inr (), t)"
      "stepAlone env data ?prev x t = (Inl e, s')"
    by (rule forM_InlE)
  have dist: "distinct (map st_id ?S)" "distinct (map st_stepName ?S)" using assms(4) by (simp_all add: provisionable_def)
  then have dist': "distinct ys" "x \<notin> set ys" unfolding split(1) by (auto simp: distinct_map)
  have mid: "midRun env data ?S (set ys) t"
    using midRun_forM[OF assms(1) dist(1) midRun_start[OF assms(4,2,6,7) sa(2-4)] _ dist'(1) _ split(2)] split(1) by auto
  have after: "midRun env data ?S (set ys) s'"
    using midRun_stepAlone[OF mid assms(1) _ dist'(2) dist(1) split(3)] split(1) by simp
  have open_x: "\<not> stepDone x"
    using split(3) by (auto simp: stepAlone_def)
  obtain h where hmap: "stepsOf g i t = map h ?S" and hc: "carried i ?S (set ys) t h"
    by (rule midRunE[OF mid, folded assms(6,7)])
  note h = hmap carriedD[OF hc]
  have name: "st_stepName (h r) = st_stepName r" for r using stepCore_eqD[OF h(2)[of r]] by simp
  have order: "inOrder (truthy (siteNumber i s)) (map st_stepName ys @ st_stepName x # map st_stepName zs)"
    using assms(5) unfolding split(1) by simp
  have held: "truthy (siteNumber i s) \<Longrightarrow> truthy (siteNumber i t)"
  proof -
    assume a: "truthy (siteNumber i s)"
    have "moves (keepsNumber i) (forM ys (stepAlone env data ?prev))"
      unfolding assms(7) by (intro moves_forM keepsNumber_preorder keepsNumber_stepAlone)
    from number_kept[OF movesD[OF this split(2)]] a sa(2) show ?thesis by (simp add: siteNumber_def siteById_def)
  qed
  have unready: "st_stepName x = ''purchase_phone_number'' \<and> \<not> storedSearch ?S \<or> st_stepName x = ''configure_agent'' \<and> \<not> storedAgent ?S"
  proof (rule ccontr)
    assume ready: "\<not> ?thesis"
    have sound: "siteSound i t" "offersFree env i t" "?prev ''search_phone_number'' = Some m \<Longrightarrow> goodNumber i t m" for m
      using mid by (simp_all add: midRun_def assms(6,7))
    have "\<exists>m' s1. stepBody env data (st_stepName x) (nvl (st_metadata x) noMeta) ?prev (started x t) = (Inr m', s1) \<and> leaves i (st_stepName x) m' s1"
    proof (rule body_runs[OF assms(1) _ _ assms(7) assms(3)])
      show "st_stepName x = ''purchase_phone_number'' \<Longrightarrow> truthy (siteNumber i (started x t)) \<or>
          (\<exists>m. ?prev ''search_phone_number'' = Some m \<and> goodNumber i (started x t) m)"
        using ready sound(3) by (auto simp: storedSearch_def)
      show "st_stepName x = ''configure_agent'' \<Longrightarrow> truthy (Option.bind (?prev ''clone_agent'') md_assistantId)"
        using ready by (simp add: storedAgent_def)
      show "truthy (siteNumber i (started x t))" if "st_stepName x = ''assign_phone_to_agent''"
      proof (cases "truthy (siteNumber i s)")
        case False
        then have "precedes ''purchase_phone_number'' ''assign_phone_to_agent'' (map st_stepName ys @ st_stepName x # map st_stepName zs)"
          using order by (simp add: inOrder_def)
        from precedesD[OF this that] obtain r where r: "r \<in> set ys" "st_stepName r = ''purchase_phone_number''" by blast
        have "resultKept i t (h r)" "stepDone (h r)" using h(3,4) r(1) split(1) by auto
        then show ?thesis using name[of r] r(2) by (simp add: resultKept_def)
      qed (use held in simp)
      show "truthy (siteAgent i (started x t))" if "st_stepName x = ''register_webhook''"
      proof -
        have "precedes ''clone_agent'' ''register_webhook'' (map st_stepName ys @ st_stepName x # map st_stepName zs)"
          using order by (simp add: inOrder_def)
        from precedesD[OF this that] obtain r where r: "r \<in> set ys" "st_stepName r = ''clone_agent''" by blast
        have "resultKept i t (h r)" "stepDone (h r)" using h(3,4) r(1) split(1) by auto
        then show ?thesis using name[of r] r(2) by (simp add: resultKept_def)
      qed
    qed (use sound in simp_all)
    then obtain m' s1 where body: "stepBody env data (st_stepName x) (nvl (st_metadata x) noMeta) ?prev (started x t) = (Inr m', s1)"
      by blast
    from split(3) open_x show False
    proof (cases rule: stepAlone_rows)
      case (stops e f)
      with body show False by blast
    qed simp
  qed
  obtain k where kmap: "stepsOf g i s' = map k ?S" and kc: "carried i ?S (set ys) s' k"
    by (rule midRunE[OF after, folded assms(6,7)])
  note k = kmap carriedD[OF kc]
  have kname: "st_stepName (k r) = st_stepName r" for r using stepCore_eqD[OF k(2)[of r]] by simp
  have kept: "\<forall>r \<in> set (stepsOf g i s'). resultKept i s' r" using k(1,3) by auto
  have row: "k r \<in> set (stepsOf g i s')" "stepDone (k r)" if "r \<in> set ys" for r
    using k(1,4) that split(1) by auto
  have "afterRun env data ?S s'"
    using after by (auto simp: afterRun_def)
  moreover from unready consider (buy) "st_stepName x = ''purchase_phone_number''" "\<not> storedSearch ?S"
    | (configure) "st_stepName x = ''configure_agent''" "\<not> storedAgent ?S" by blast
  then have "\<not> storedSearch ?S \<and> storedSearch (stepsOf g i s') \<and>
       (\<exists>x \<in> set ?S. st_stepName x = ''purchase_phone_number'' \<and> \<not> stepDone x) \<or>
     \<not> storedAgent ?S \<and> storedAgent (stepsOf g i s') \<and>
       (\<forall>x \<in> set (stepsOf g i s'). st_stepName x = ''purchase_phone_number'' \<longrightarrow> stepDone x)"
  proof cases
    case buy
    have "precedes ''search_phone_number'' ''purchase_phone_number'' (map st_stepName ys @ st_stepName x # map st_stepName zs)"
      using order by (simp add: inOrder_def)
    from precedesD[OF this buy(1)] obtain r where r: "r \<in> set ys" "st_stepName r = ''search_phone_number''" by blast
    have "storedSearch (stepsOf g i s')"
      using storedSearch_row[OF row(1)[OF r(1)] _ row(2)[OF r(1)] kept] kname[of r] r(2) by simp
    with buy open_x split(1) show ?thesis by auto
  next
    case configure
    have "precedes ''clone_agent'' ''configure_agent'' (map st_stepName ys @ st_stepName x # map st_stepName zs)"
      using order by (simp add: inOrder_def)
    from precedesD[OF this configure(1)] obtain r where r: "r \<in> set ys" "st_stepName r = ''clone_agent''" by blast
    have agent: "storedAgent (stepsOf g i s')"
      using storedAgent_row[OF row(1)[OF r(1)] _ row(2)[OF r(1)] kept] kname[of r] r(2) by simp
    have "stepDone y" if asm: "y \<in> set (stepsOf g i s')" "st_stepName y = ''purchase_phone_number''" for y
    proof -
      obtain r where y: "y = k r" "r \<in> set ?S" using asm(1) k(1) by auto
      have "st_stepName r = ''purchase_phone_number''" using asm(2) y(1) kname by simp
      moreover have "''purchase_phone_number'' \<notin> set (map st_stepName zs)"
        by (rule noneAfterD[OF _ configure(1), where ys = "map st_stepName ys"]) (use order in \<open>simp add: inOrder_def\<close>)
      ultimately have "r \<notin> set zs" by (metis image_eqI set_map)
      with \<open>st_stepName r = _\<close> have "r \<in> set ys" using y(2) configure(1) unfolding split(1) by auto
      then show ?thesis using k(4) y by simp
    qed
    with agent configure(2) show ?thesis by blast
  qed
  ultimately show ?thesis by blast
qed

lemma stored_later:
  assumes "afterRun env data S t" and "stepsOf (pd_organizationId data) (pd_locationId data) t = S'" and "storedSearch S"
  shows "storedSearch S'"
proof -
  obtain D where mid: "midRun env data S D t" using assms(1) unfolding afterRun_def by blast
  obtain h where hmap: "S' = map h S" and hc: "carried (pd_locationId data) S D t h"
    by (rule midRunE[OF mid, unfolded assms(2)])
  note h = hmap carriedD[OF hc]
  obtain m where "getPreviousStepsMetadata S ''search_phone_number'' = Some m"
    using assms(3) unfolding storedSearch_def by blast
  from previous_row[OF this] obtain r where r: "r \<in> set S" "st_stepName r = ''search_phone_number''" "st_metadata r \<noteq> None" by auto
  have "h r \<in> set S'" "st_metadata (h r) \<noteq> None" "st_stepName (h r) = ''search_phone_number''"
    using h(1,5) r stepCore_eqD[OF h(2)[of r]] by simp_all
  then show ?thesis using previous_some[of "h r" S'] by (simp add: storedSearch_def)
qed

lemma inOrder_mono: "inOrder False names \<Longrightarrow> inOrder held names"
  by (simp add: inOrder_def)

lemma provisionable_after:
  assumes "afterRun env data (stepsOf g i s) s'" and "provisionable g i s" and "g = pd_organizationId data" and "i = pd_locationId data"
  shows "provisionable g i s'" and "offersFree env i s'" and "map st_stepName (stepsOf g i s') = map st_stepName (stepsOf g i s)"
proof -
  obtain D where mid: "midRun env data (stepsOf g i s) D s'" using assms(1) unfolding afterRun_def by blast
  obtain h where hmap: "stepsOf g i s' = map h (stepsOf g i s)" and hc: "carried i (stepsOf g i s) D s' h"
    by (rule midRunE[OF mid, folded assms(3,4)])
  note h = hmap carriedD[OF hc]
  note fields = stepCore_eqD[OF h(2)]
  show names: "map st_stepName (stepsOf g i s') = map st_stepName (stepsOf g i s)"
    by (simp add: h(1) fields)
  have ids: "map st_id (stepsOf g i s') = map st_id (stepsOf g i s)"
    by (simp add: h(1) fields)
  have "siteSound i s'" using mid by (simp add: midRun_def assms(4))
  moreover have "\<forall>r \<in> set (stepsOf g i s'). resultKept i s' r" using h(1,3) by auto
  ultimately show "provisionable g i s'"
    using assms(2) unfolding provisionable_def names ids by blast
  show "offersFree env i s'" using mid by (simp add: midRun_def assms(4))
qed

text \<open>Between two attempts the queue's own list of jobs changes, and no table.\<close>

definition sameTables :: "tenancy \<Rightarrow> tenancy \<Rightarrow> bool" where
  "sameTables s s' \<longleftrightarrow> tn_sites s' = tn_sites s \<and> tn_steps s' = tn_steps s \<and> w_queueUp (tn_world s') = w_queueUp (tn_world s)"

lemma sameTables_same:
  assumes "sameTables s s'"
  shows "stepsOf g i s' = stepsOf g i s" "siteNumber i s' = siteNumber i s" "offersFree env i s' = offersFree env i s"
    "provisionable g i s' = provisionable g i s"
proof -
  have same: "siteById j s' = siteById j s" "phoneTaken p j s' = phoneTaken p j s" "stepsOf g j s' = stepsOf g j s" for j p g
    using assms by (simp_all add: sameTables_def siteById_def phoneTaken_def stepsOf_def)
  show "stepsOf g i s' = stepsOf g i s" "siteNumber i s' = siteNumber i s" "offersFree env i s' = offersFree env i s"
    using same by (simp_all add: siteNumber_def offersFree_def)
  have "resultKept i s' r = resultKept i s r" for r
    using same by (simp add: resultKept_def goodNumber_def siteNumber_def siteAgent_def)
  then show "provisionable g i s' = provisionable g i s"
    using same assms by (simp add: provisionable_def siteSound_def sameTables_def)
qed

text \<open>
  When the telephony service answers every request and offers numbers that no other location has, a
  location whose steps are in the order they are created in is active after at most three attempts: if
  the first and the second stop, the third returns, with every step completed. (The attempts of a
  further location, and of any retry, carry no address to invite.)
\<close>

lemma third_attempt_completes:
  assumes "answersAll env" and "offersFree env (pd_locationId data) s" and "\<not> truthy (pd_adminEmail data)"
    and "provisionable (pd_organizationId data) (pd_locationId data) s"
    and "inOrder (truthy (siteNumber (pd_locationId data) s)) (map st_stepName (stepsOf (pd_organizationId data) (pd_locationId data) s))"
    and "handleProvisionOrganization env data s = (Inl e1, s1)" and "sameTables s1 t1"
    and "handleProvisionOrganization env data t1 = (Inl e2, s2)" and "sameTables s2 t2"
  shows "\<exists>s3 l. handleProvisionOrganization env data t2 = (Inr (), s3) \<and>
    siteById (pd_locationId data) s3 = Some l \<and> ste_status l = ''active'' \<and>
    (\<forall>r \<in> set (stepsOf (pd_organizationId data) (pd_locationId data) s3). stepDone r)"
proof -
  let ?g = "pd_organizationId data" and ?i = "pd_locationId data" and ?run = "handleProvisionOrganization env data"
  have grown: "truthy (siteNumber ?i s) \<Longrightarrow> truthy (siteNumber ?i s')" if "?run s = (r, s')" for r s s'
    using number_kept[OF movesD[OF keepsNumber_run that]] .
  have order: "inOrder (truthy (siteNumber ?i s')) names" if "inOrder (truthy (siteNumber ?i s)) names" "?run s = (r, s')" for names r s s'
    using that(1) grown[OF that(2)] inOrder_mono[of names] by (cases "truthy (siteNumber ?i s)") auto
  note same1 = sameTables_same[OF assms(7)] and same2 = sameTables_same[OF assms(9)]
  note one = run_stops[OF assms(1-5) refl refl assms(6)]
  note after1 = provisionable_after[OF conjunct1[OF one] assms(4) refl refl, folded same1]
  have order1: "inOrder (truthy (siteNumber ?i t1)) (map st_stepName (stepsOf ?g ?i t1))"
    using order[OF assms(5,6)] after1(3) same1(2) by simp
  note two = run_stops[OF assms(1) after1(2) assms(3) after1(1) order1 refl refl assms(8)]
  note after2 = provisionable_after[OF conjunct1[OF two] after1(1) refl refl, folded same2]
  have order2: "inOrder (truthy (siteNumber ?i t2)) (map st_stepName (stepsOf ?g ?i t2))"
    using order[OF order1 assms(8)] after2(3) same2(2) by simp
  have search: "storedSearch (stepsOf ?g ?i t1) \<Longrightarrow> storedSearch (stepsOf ?g ?i s2)"
    by (rule stored_later[OF conjunct1[OF two] refl])
  have no_third: "?run t2 \<noteq> (Inl e, s3)" for e s3
  proof
    assume "?run t2 = (Inl e, s3)"
    from run_stops[OF assms(1) after2(2) assms(3) after2(1) order2 refl refl this] one two search
    show False unfolding same1 same2 by blast
  qed
  obtain s3 where third: "?run t2 = (Inr (), s3)"
    using no_third by (cases "?run t2"; cases "fst (?run t2)") auto
  obtain sa where sa: "?run t2 = thenM (forM (stepsOf ?g ?i t2) (stepAlone env data (getPreviousStepsMetadata (stepsOf ?g ?i t2))))
        (finishProvisioning data) sa"
      "tn_sites sa = tn_sites t2" "tn_steps sa = tn_steps t2" "w_queueUp (tn_world sa) = w_queueUp (tn_world t2)"
    by (rule run_start[OF after2(1)])
  obtain sb where sb: "forM (stepsOf ?g ?i t2) (stepAlone env data (getPreviousStepsMetadata (stepsOf ?g ?i t2))) sa = (Inr (), sb)"
      "finishProvisioning data sb = (Inr (), s3)"
    using third unfolding sa(1) by (auto elim: thenM_InrE)
  have dist: "distinct (map st_id (stepsOf ?g ?i t2))" using after2(1) by (simp add: provisionable_def)
  have mid: "midRun env data (stepsOf ?g ?i t2) ({} \<union> set (stepsOf ?g ?i t2)) sb"
    using midRun_forM[OF assms(1) dist midRun_start[OF after2(1,2) refl refl sa(2-4)] _ _ _ sb(1)] dist
    by (simp add: distinct_map)
  then have all: "\<forall>r \<in> set (stepsOf ?g ?i sb). stepDone r" by (auto elim!: midRunE dest: carriedD(3))
  obtain l where l: "siteById ?i sb = Some l" using mid by (auto simp: midRun_def siteSound_def)
  have end_state: "tn_steps s3 = tn_steps sb" "siteById ?i s3 = Some (l\<lparr>ste_status := ''active'', ste_provisioningCompletedAt := Some (w_now (tn_world sb))\<rparr>)"
    using sb(2) l siteById_id[OF l]
    by (auto simp: finishProvisioning_def thenM_def bindM_def clockM_def setSite_def setOrg_def auditM_def worldM_def siteById_def first_row_update_where)
  then show ?thesis using third all by (simp add: stepsOf_def)
qed

end
