(* ===== verification/Provisioning.thy ===== *)
theory Provisioning
  imports Provisioning_Live
begin

text \<open>
  What the platform's administrators do to an account (\<open>provisioning/provisioning.service.ts\<close>): create an
  organization with its first location, add a location, watch, retry and skip steps, suspend, archive.
  The rows are written in one transaction and a job is queued for the worker of \<open>Provisioning_Run\<close>.

  Shown here: a new location is in the state from which three attempts
  complete it.
\<close>

section \<open>Creating\<close>

text \<open>A violated unique index becomes a conflict.\<close>

definition runOrConflict :: "'a tenant \<Rightarrow> string \<Rightarrow> 'a tenant" where
  "runOrConflict work message = catchM work (\<lambda>e.
     case e of UniqueViolation _ \<Rightarrow> throwM (ConflictException message) | _ \<Rightarrow> throwM e)"

definition assertOrganizationNameFree :: "string \<Rightarrow> unit tenant" where
  "assertOrganizationNameFree name =
     bindM (getsM (\<lambda>s. list_ex (\<lambda>r. cmp_deletedAt r = None \<and> js_lower (cmp_name r) = js_lower name) (tn_orgs s))) (\<lambda>taken.
       throw_if taken (ConflictException (''An organization named '' @ [CHR 0x22] @ name @ [CHR 0x22] @
         '' already exists. Rename it, or deprovision the existing one first.'')))"

definition assertLocationNameFree :: "uuid \<Rightarrow> string \<Rightarrow> unit tenant" where
  "assertLocationNameFree organizationId name =
     bindM (getsM (\<lambda>s. list_ex (\<lambda>r. loc_deletedAt r = None \<and> loc_organizationId r = organizationId \<and>
         js_lower (ste_name r) = js_lower name) (tn_sites s))) (\<lambda>taken.
       throw_if taken (ConflictException (''This organization already has a location named '' @ [CHR 0x22] @ name @ [CHR 0x22] @ ''.'')))"

record org_dto =
  odt_orgName :: string
  odt_adminEmail :: string
  odt_locationName :: string
  odt_country :: string
  odt_state :: "string option"
  odt_city :: "string option"
  odt_phoneNumber :: "string option"
  odt_baseAgentId :: "string option"
  odt_dynamicVariables :: "(string \<times> string) list option"
  odt_menuUrl :: "string option"
  odt_useAgentPhoneNumber :: "bool option"

record location_dto =
  ldt_locationName :: string
  ldt_country :: string
  ldt_state :: "string option"
  ldt_city :: "string option"

text \<open>The app is read off the bare answer first; \<open>??\<close> keeps an empty string.\<close>

definition getAgentTexmlAppId :: "provision_env \<Rightarrow> string \<Rightarrow> string option tenant" where
  "getAgentTexmlAppId env agentId =
     bindM (askM (tx_assistant (pn_telnyx env)) (GetAssistant agentId)) (\<lambda>res.
       returnM (case as_texmlAppId res of None \<Rightarrow> Option.bind (as_data res) as_texmlAppId | Some a \<Rightarrow> Some a))"

record agent_number =
  agn_phoneNumber :: string
  agn_telnyxPhoneNumberId :: string
  agn_claimedByLocationId :: "uuid option"
  agn_claimedByLocationName :: "string option"

definition ownerOf :: "string \<Rightarrow> tenancy \<Rightarrow> site_row option" where
  "ownerOf phone s = first_row (\<lambda>r. loc_deletedAt r = None \<and> ste_phoneNumber r = Some phone) (tn_sites s)"

definition numberOf :: "tenancy \<Rightarrow> phone_number \<Rightarrow> agent_number" where
  "numberOf s n = (let owner = ownerOf (the (no_phoneNumber n)) s in
     \<lparr>agn_phoneNumber = the (no_phoneNumber n), agn_telnyxPhoneNumberId = the (no_id n),
      agn_claimedByLocationId = map_option loc_id owner, agn_claimedByLocationName = map_option ste_name owner\<rparr>)"

definition getAgentPhoneNumbers :: "provision_env \<Rightarrow> string \<Rightarrow> agent_number list tenant" where
  "getAgentPhoneNumbers env agentId =
     bindM (getAgentTexmlAppId env agentId) (\<lambda>texmlAppId.
       if \<not> truthy texmlAppId then returnM []
       else bindM (askM (tx_numbers (pn_telnyx env)) (NumbersByConnection (the texmlAppId))) (\<lambda>res.
         getsM (\<lambda>s. map (numberOf s) (filter (\<lambda>n. truthy (no_phoneNumber n) \<and> truthy (no_id n)) (nvl res [])))))"

definition resolveAgentPhoneNumberForClaim :: "provision_env \<Rightarrow> string \<Rightarrow> (string \<times> string) tenant" where
  "resolveAgentPhoneNumberForClaim env agentId =
     bindM (getAgentTexmlAppId env agentId) (\<lambda>texmlAppId.
     thenM (throw_if (\<not> truthy texmlAppId) (BadRequestException ''The selected agent has no telephony app configured in Telnyx, so no number can be traced to it. Attach one to the assistant, or provision a new number instead.''))
    (bindM (getAgentPhoneNumbers env agentId) (\<lambda>numbers.
       case numbers of
         [] \<Rightarrow> throwM (BadRequestException (''No phone numbers are routed to the selected agent'' @ [CHR 0x27] @ ''s telephony app. Provision a new number instead.''))
       | n0 # _ \<Rightarrow> (case first_row (\<lambda>n. agn_claimedByLocationId n = None) numbers of
           None \<Rightarrow> throwM (ConflictException (''The agent'' @ [CHR 0x27] @ ''s number ('' @ agn_phoneNumber n0 @ '') is already assigned to '' @ [CHR 0x22] @
             nvl (agn_claimedByLocationName n0) ''another location'' @ [CHR 0x22] @ ''. One number can back only one location.''))
         | Some n \<Rightarrow> returnM (agn_phoneNumber n, agn_telnyxPhoneNumberId n)))))"

definition newSite :: "uuid \<Rightarrow> uuid \<Rightarrow> string \<Rightarrow> string \<Rightarrow> site_row" where
  "newSite i organizationId name slug = \<lparr>loc_id = i, loc_organizationId = organizationId,
     loc_timezone = Some ''America/New_York'', loc_taxRateBps = 0, loc_serviceChargeBps = 0, loc_printSettings = None,
     loc_autoStartAiOrders = False, loc_deletedAt = None, ste_name = name, ste_slug = slug, ste_country = ''US'',
     ste_state = None, ste_city = None, ste_aiSettings = None, ste_phoneNumber = None, ste_telnyxPhoneNumberId = None,
     ste_telnyxAssistantId = None, ste_masterAgentId = None, ste_status = ''provisioning'',
     ste_provisioningError = None, ste_provisioningCompletedAt = None, ste_webhookApiKey = None\<rparr>"

definition newStep :: "uuid \<Rightarrow> uuid \<Rightarrow> uuid \<Rightarrow> string \<Rightarrow> int \<Rightarrow> step_row" where
  "newStep i organizationId locationId name n = \<lparr>st_id = i, st_locationId = locationId, st_organizationId = organizationId,
     st_stepName = name, st_stepOrder = n, st_status = ''pending'', st_attempts = 0, st_lastError = None,
     st_metadata = None, st_startedAt = None, st_completedAt = None\<rparr>"

fun insertSteps :: "uuid \<Rightarrow> uuid \<Rightarrow> int \<Rightarrow> string list \<Rightarrow> unit tenant" where
  "insertSteps organizationId locationId n [] = returnM ()"
| "insertSteps organizationId locationId n (name # names) =
     bindM (worldM freshId) (\<lambda>i.
     thenM (modifyM (\<lambda>s. s\<lparr>tn_steps := tn_steps s @ [newStep i organizationId locationId name n]\<rparr>))
       (insertSteps organizationId locationId (n + 1) names))"

definition insertSubscription :: "uuid \<Rightarrow> uuid \<Rightarrow> unit tenant" where
  "insertSubscription organizationId locationId = bindM (worldM freshId) (\<lambda>i.
     modifyM (\<lambda>s. s\<lparr>tn_subscriptions := tn_subscriptions s @ [\<lparr>sub_id = i, sub_organizationId = organizationId,
       sub_locationId = Some locationId, sub_planId = ''free'', sub_status = ''active''\<rparr>]\<rparr>))"

definition organizationSteps :: "bool \<Rightarrow> string list" where
  "organizationSteps reused = (if reused then [] else [''search_phone_number'', ''purchase_phone_number'']) @
     [''clone_agent'', ''assign_phone_to_agent'', ''configure_agent'', ''import_menu'', ''register_webhook'', ''send_admin_invitation'']"

definition locationSteps :: "string list" where
  "locationSteps = [''search_phone_number'', ''purchase_phone_number'', ''clone_agent'', ''assign_phone_to_agent'', ''configure_agent'']"

text \<open>BullMQ ignores a job whose id is already in the queue.\<close>

definition addJob :: "job_key \<Rightarrow> uuid \<Rightarrow> uuid \<Rightarrow> string option \<Rightarrow> unit tenant" where
  "addJob key organizationId locationId adminEmail =
     bindM (getsM (\<lambda>s. w_queueUp (tn_world s))) (\<lambda>up.
     thenM (throw_if (\<not> up) (GenericError ''Connection is closed.''))
       (modifyM (\<lambda>s. if list_ex (\<lambda>j. pj_key j = key) (tn_jobs s) then s
          else s\<lparr>tn_jobs := tn_jobs s @ [\<lparr>pj_key = key, pj_organizationId = organizationId, pj_locationId = locationId,
            pj_adminEmail = adminEmail, pj_attemptsMade = 0\<rparr>]\<rparr>)))"

definition writeOrganization :: "org_dto \<Rightarrow> string \<Rightarrow> string \<Rightarrow> (string \<times> string) option \<Rightarrow> (uuid \<times> uuid) tenant" where
  "writeOrganization dto slug locationSlug reusedNumber =
     bindM (worldM freshId) (\<lambda>g.
     thenM (insertCompany \<lparr>org_id = g, org_status = ''provisioning'', cmp_name = odt_orgName dto, cmp_slug = Some slug,
              cmp_webhookApiKey = None, cmp_deletedAt = None, cmp_featureFlags = JObj []\<rparr>)
    (bindM (worldM freshId) (\<lambda>l.
     thenM (insertSite ((newSite l g (odt_locationName dto) locationSlug)\<lparr>ste_country := odt_country dto, ste_state := odt_state dto,
              ste_city := odt_city dto,
              ste_phoneNumber := (case reusedNumber of Some n \<Rightarrow> Some (fst n) | None \<Rightarrow> odt_phoneNumber dto),
              ste_telnyxPhoneNumberId := map_option snd reusedNumber,
              ste_aiSettings := Some \<lparr>ai_baseAgentId = odt_baseAgentId dto, ai_dynamicVariables = odt_dynamicVariables dto,
                ai_menuUrl = odt_menuUrl dto, ai_useAgentPhoneNumber = nvl (odt_useAgentPhoneNumber dto) False\<rparr>\<rparr>))
    (thenM (insertSteps g l 1 (organizationSteps (reusedNumber \<noteq> None)))
    (thenM (insertSubscription g l) (returnM (g, l)))))))"

definition createOrganizationProvisioning :: "provision_env \<Rightarrow> org_dto \<Rightarrow> (uuid \<times> uuid) tenant" where
  "createOrganizationProvisioning env dto =
     thenM (assertOrganizationNameFree (odt_orgName dto))
    (bindM (generateUniqueSlug (odt_orgName dto)) (\<lambda>slug. bindM (generateUniqueSlug (odt_locationName dto)) (\<lambda>locationSlug.
     bindM (if nvl (odt_useAgentPhoneNumber dto) False
            then thenM (throw_if (\<not> truthy (odt_baseAgentId dto)) (BadRequestException ''baseAgentId is required when reusing the agent phone number.''))
                   (bindM (resolveAgentPhoneNumberForClaim env (the (odt_baseAgentId dto))) (\<lambda>n. returnM (Some n)))
            else returnM None) (\<lambda>reusedNumber.
     bindM (runOrConflict (atomicM (writeOrganization dto slug locationSlug reusedNumber))
              (''An organization named '' @ [CHR 0x22] @ odt_orgName dto @ [CHR 0x22] @ '' already exists.'')) (\<lambda>result.
     thenM (addJob (FirstRun (snd result)) (fst result) (snd result) (Some (odt_adminEmail dto)))
    (thenM (auditM ''org.created'' None (fst result) [] JNull) (returnM result)))))))"

definition writeLocation :: "uuid \<Rightarrow> location_dto \<Rightarrow> string \<Rightarrow> (uuid \<times> uuid) tenant" where
  "writeLocation organizationId dto slug =
     bindM (worldM freshId) (\<lambda>l.
     thenM (insertSite ((newSite l organizationId (ldt_locationName dto) slug)\<lparr>ste_country := ldt_country dto, ste_state := ldt_state dto,
              ste_city := ldt_city dto\<rparr>))
    (thenM (insertSteps organizationId l 1 locationSteps)
    (thenM (insertSubscription organizationId l) (returnM (organizationId, l)))))"

definition addLocationProvisioning :: "uuid \<Rightarrow> location_dto \<Rightarrow> (uuid \<times> uuid) tenant" where
  "addLocationProvisioning organizationId dto =
     bindM (getsM (orgById organizationId)) (\<lambda>org.
     thenM (throw_if (org = None) (NotFoundException ''Organization not found''))
    (thenM (assertLocationNameFree organizationId (ldt_locationName dto))
    (bindM (generateUniqueSlug (ldt_locationName dto)) (\<lambda>slug.
     bindM (runOrConflict (atomicM (writeLocation organizationId dto slug))
              (''This organization already has a location named '' @ [CHR 0x22] @ ldt_locationName dto @ [CHR 0x22] @ ''.'')) (\<lambda>result.
     thenM (addJob (FirstRun (snd result)) (fst result) (snd result) None)
    (thenM (auditM ''location.created'' None (fst result) (snd result) JNull) (returnM result)))))))"

section \<open>Watching, retrying and skipping\<close>

record provisioning_status =
  pst_organizationStatus :: string
  pst_locationId :: uuid
  pst_locationStatus :: string
  pst_provisioningError :: "string option"
  pst_steps :: "step_row list"

text \<open>The status of each location asked for; the first one doubles as that of the answer.\<close>

definition statusOf :: "tenancy \<Rightarrow> company_row \<Rightarrow> site_row \<Rightarrow> provisioning_status" where
  "statusOf s org l = \<lparr>pst_organizationStatus = org_status org, pst_locationId = loc_id l, pst_locationStatus = ste_status l,
     pst_provisioningError = ste_provisioningError l,
     pst_steps = sort_key st_stepOrder (filter (\<lambda>r. st_locationId r = loc_id l) (tn_steps s))\<rparr>"

definition locationsAsked :: "uuid \<Rightarrow> uuid option \<Rightarrow> tenancy \<Rightarrow> site_row list" where
  "locationsAsked organizationId locationId s = filter (\<lambda>l. loc_organizationId l = organizationId \<and>
     (case or_null locationId of None \<Rightarrow> True | Some i \<Rightarrow> loc_id l = i)) (tn_sites s)"

definition getProvisioningStatus :: "uuid \<Rightarrow> uuid option \<Rightarrow> provisioning_status list tenant" where
  "getProvisioningStatus organizationId locationId =
     bindM (getsM (orgById organizationId)) (\<lambda>found.
     bindM (orThrow found (NotFoundException ''Organization not found.'')) (\<lambda>org.
     bindM (getsM (locationsAsked organizationId locationId)) (\<lambda>ls.
     thenM (throw_if (ls = []) (NotFoundException ''Location not found.''))
       (getsM (\<lambda>s. map (statusOf s org) ls)))))"

definition resetStep :: "step_row \<Rightarrow> step_row" where
  "resetStep r = r\<lparr>st_status := ''pending'', st_lastError := None\<rparr>"

definition retryProvisioning :: "uuid \<Rightarrow> uuid option \<Rightarrow> unit tenant" where
  "retryProvisioning organizationId targetLocationId =
     bindM (getProvisioningStatus organizationId targetLocationId) (\<lambda>statuses.
     let first = pst_locationId (hd statuses);
         locId = (if truthy targetLocationId then the targetLocationId else first) in
     bindM (getsM (siteById locId)) (\<lambda>found.
     bindM (orThrow found (NotFoundException ''Location not found.'')) (\<lambda>loc.
     thenM (throw_if (ste_status loc = ''active'') (BadRequestException ''Location is already active.''))
    (thenM (setSite locId (\<lambda>r. r\<lparr>ste_status := ''provisioning'', ste_provisioningError := None\<rparr>))
    (bindM (getsM (orgById organizationId)) (\<lambda>org.
     thenM (whenM (map_option org_status org \<noteq> Some ''active'') (setOrg organizationId (\<lambda>r. r\<lparr>org_status := ''provisioning''\<rparr>)))
    (thenM (modifyM (\<lambda>s. s\<lparr>tn_steps := update_where (\<lambda>r. st_locationId r = locId \<and>
              (st_status r = ''failed'' \<or> st_status r = ''in_progress'')) resetStep (tn_steps s)\<rparr>))
    (bindM clockM (\<lambda>now. addJob (RetryRun first now) organizationId first None)))))))))"

definition stepOfOrg :: "uuid \<Rightarrow> uuid \<Rightarrow> step_row tenant" where
  "stepOfOrg organizationId stepId =
     bindM (getsM (\<lambda>s. first_row (\<lambda>r. st_id r = stepId \<and> st_organizationId r = organizationId) (tn_steps s))) (\<lambda>found.
       orThrow found (NotFoundException ''Step not found.''))"

definition setStep :: "uuid \<Rightarrow> (step_row \<Rightarrow> step_row) \<Rightarrow> unit tenant" where
  "setStep i f = modifyM (\<lambda>s. s\<lparr>tn_steps := update_where (\<lambda>r. st_id r = i) f (tn_steps s)\<rparr>)"

definition retryStep :: "uuid \<Rightarrow> uuid \<Rightarrow> unit tenant" where
  "retryStep organizationId stepId =
     bindM (stepOfOrg organizationId stepId) (\<lambda>step.
     thenM (setStep (st_id step) resetStep) (retryProvisioning organizationId None))"

definition skipStep :: "uuid \<Rightarrow> uuid \<Rightarrow> unit tenant" where
  "skipStep organizationId stepId =
     bindM (stepOfOrg organizationId stepId) (\<lambda>step.
     thenM (setStep (st_id step) (\<lambda>r. r\<lparr>st_status := ''completed'', st_lastError := None\<rparr>))
    (thenM (auditM ''org.provisioning.step_skipped'' None organizationId (st_id step) JNull)
       (retryProvisioning organizationId None)))"

section \<open>Archiving and suspending\<close>

text \<open>Failures of the telephony service are logged and passed over.\<close>

definition releaseResources :: "provision_env \<Rightarrow> site_row \<Rightarrow> unit tenant" where
  "releaseResources env l =
     (let reused = (case ste_aiSettings l of None \<Rightarrow> False | Some a \<Rightarrow> ai_useAgentPhoneNumber a) in
      thenM (whenM (truthy (ste_telnyxPhoneNumberId l) \<and> \<not> reused)
               (catchM (askM (tx_update (pn_telnyx env)) (DeletePhoneNumber (the (ste_telnyxPhoneNumberId l)))) (\<lambda>_. returnM ())))
        (whenM (truthy (ste_telnyxAssistantId l))
               (catchM (askM (tx_update (pn_telnyx env)) (DeleteAssistant (the (ste_telnyxAssistantId l)))) (\<lambda>_. returnM ()))))"

definition deprovision :: "provision_env \<Rightarrow> uuid \<Rightarrow> unit tenant" where
  "deprovision env organizationId =
     bindM (getsM (\<lambda>s. filter (\<lambda>l. loc_organizationId l = organizationId) (tn_sites s))) (\<lambda>ls.
     thenM (forM ls (releaseResources env))
    (bindM clockM (\<lambda>now.
     thenM (setOrg organizationId (\<lambda>r. r\<lparr>org_status := ''archived'', cmp_deletedAt := Some now\<rparr>))
    (thenM (modifyM (\<lambda>s. s\<lparr>tn_sites := update_where (\<lambda>l. loc_organizationId l = organizationId)
              (\<lambda>l. l\<lparr>ste_status := ''archived'', loc_deletedAt := Some now\<rparr>) (tn_sites s)\<rparr>))
       (auditM ''org.deprovisioned'' None organizationId [] JNull)))))"

definition setStatus :: "uuid \<Rightarrow> string \<Rightarrow> unit tenant" where
  "setStatus organizationId status =
     thenM (throw_if (status \<noteq> ''active'' \<and> status \<noteq> ''suspended'') (BadRequestException ''Status must be active or suspended''))
    (thenM (setOrg organizationId (\<lambda>r. r\<lparr>org_status := status\<rparr>))
       (auditM (if status = ''suspended'' then ''org.suspended'' else ''org.reactivated'') None organizationId [] JNull))"

definition updateOrganization :: "uuid \<Rightarrow> json option \<Rightarrow> unit tenant" where
  "updateOrganization organizationId featureFlags =
     bindM (orThrow featureFlags (BadRequestException ''No valid fields to update'')) (\<lambda>flags.
       thenM (setOrg organizationId (\<lambda>r. r\<lparr>cmp_featureFlags := flags\<rparr>))
         (auditM ''org.updated'' None organizationId [] (JObj [(''featureFlags'', flags)])))"

section \<open>What the dashboard lists\<close>

definition getProvisioningSummary :: "tenancy \<Rightarrow> string \<Rightarrow> nat option" where
  "getProvisioningSummary s status =
     (if status \<in> {''draft'', ''provisioning'', ''active'', ''suspended'', ''archived''}
      then Some (length (filter (\<lambda>r. cmp_deletedAt r = None \<and> org_status r = status) (tn_orgs s))) else None)"

definition getProvisioningFailures :: "tenancy \<Rightarrow> (uuid \<times> uuid \<times> uuid \<times> string \<times> string option \<times> string) list" where
  "getProvisioningFailures s = concat (map (\<lambda>r. map (\<lambda>g. (st_id r, st_organizationId r, st_locationId r, st_stepName r, st_lastError r, cmp_name g))
       (filter (\<lambda>g. org_id g = st_organizationId r \<and> cmp_deletedAt g = None) (tn_orgs s)))
     (rev (sort_key (\<lambda>r. nvl (st_startedAt r) 0) (filter (\<lambda>r. st_status r = ''failed'') (tn_steps s)))))"

section \<open>A further location\<close>

lemma catchM_conflict: "runOrConflict m message s = (Inr r, s') \<longleftrightarrow> m s = (Inr r, s')"
  by (auto simp: runOrConflict_def catchM_def split: prod.split sum.split error.split)

lemma atomicM_Inr: "atomicM m s = (Inr r, s') \<longleftrightarrow> m s = (Inr r, s')"
  by (auto simp: atomicM_def split: prod.split sum.split)

lemma insertSite_Inr: "insertSite r s = (Inr u, s') \<longleftrightarrow>
    \<not> list_ex (\<lambda>x. loc_deletedAt x = None \<and> loc_organizationId x = loc_organizationId r \<and> js_lower (ste_name x) = js_lower (ste_name r)) (tn_sites s) \<and>
    \<not> phoneTaken (ste_phoneNumber r) (loc_id r) s \<and> s' = s\<lparr>tn_sites := tn_sites s @ [r]\<rparr>"
  by (auto simp: insertSite_def prog_step)

lemma worldM_freshId: "bindM (worldM freshId) f s =
    f (w_ids (tn_world s) (w_nextId (tn_world s))) (s\<lparr>tn_world := (tn_world s)\<lparr>w_nextId := Suc (w_nextId (tn_world s))\<rparr>\<rparr>)"
  by (simp add: worldM_bind)

text \<open>The rows a new location starts with.\<close>

definition firstSteps :: "uuid \<Rightarrow> uuid \<Rightarrow> (nat \<Rightarrow> uuid) \<Rightarrow> nat \<Rightarrow> step_row list" where
  "firstSteps g l ids k = [newStep (ids k) g l ''search_phone_number'' 1, newStep (ids (k + 1)) g l ''purchase_phone_number'' 2,
     newStep (ids (k + 2)) g l ''clone_agent'' 3, newStep (ids (k + 3)) g l ''assign_phone_to_agent'' 4,
     newStep (ids (k + 4)) g l ''configure_agent'' 5]"

lemma insertSteps_location: "insertSteps g l 1 locationSteps s = (Inr (), s\<lparr>
    tn_world := (tn_world s)\<lparr>w_nextId := w_nextId (tn_world s) + 5\<rparr>,
    tn_steps := tn_steps s @ firstSteps g l (w_ids (tn_world s)) (w_nextId (tn_world s))\<rparr>)"
  by (simp add: locationSteps_def worldM_freshId firstSteps_def eval_nat_numeral)

lemma addLocation_steps:
  assumes "addLocationProvisioning g dto s = (Inr p, s1)"
  obtains slug sl s2 s3 where "generateUniqueSlug (ldt_locationName dto) s = (Inr slug, sl)"
    and "writeLocation g dto slug sl = (Inr p, s2)" and "addJob (FirstRun (snd p)) (fst p) (snd p) None s2 = (Inr (), s3)"
    and "auditM ''location.created'' None (fst p) (snd p) JNull s3 = (Inr (), s1)"
proof -
  from assms obtain org s0 where org: "getsM (orgById g) s = (Inr org, s0)"
    and after: "thenM (throw_if (org = None) (NotFoundException ''Organization not found''))
       (thenM (assertLocationNameFree g (ldt_locationName dto))
       (bindM (generateUniqueSlug (ldt_locationName dto)) (\<lambda>slug.
     bindM (runOrConflict (atomicM (writeLocation g dto slug))
              (''This organization already has a location named '' @ [CHR 0x22] @ ldt_locationName dto @ [CHR 0x22] @ ''.'')) (\<lambda>result.
     thenM (addJob (FirstRun (snd result)) (fst result) (snd result) None)
    (thenM (auditM ''location.created'' None (fst result) (snd result) JNull) (returnM result)))))) s0 = (Inr p, s1)"
    unfolding addLocationProvisioning_def by (rule bindM_InrE)
  have "s0 = s" using org by simp
  from after obtain sa u sb where sb: "throw_if (org = None) (NotFoundException ''Organization not found'') s0 = (Inr u, sb)"
    and a: "assertLocationNameFree g (ldt_locationName dto) sb = (Inr (), sa)"
    and rest: "bindM (generateUniqueSlug (ldt_locationName dto)) (\<lambda>slug.
     bindM (runOrConflict (atomicM (writeLocation g dto slug))
              (''This organization already has a location named '' @ [CHR 0x22] @ ldt_locationName dto @ [CHR 0x22] @ ''.'')) (\<lambda>result.
     thenM (addJob (FirstRun (snd result)) (fst result) (snd result) None)
    (thenM (auditM ''location.created'' None (fst result) (snd result) JNull) (returnM result)))) sa = (Inr p, s1)"
    by (elim thenM_InrE) simp
  have "sb = s" using throw_if_InrD[OF sb] \<open>s0 = s\<close> by simp
  have "sa = s" using a \<open>sb = s\<close> by (simp add: assertLocationNameFree_def throw_if_iff)
  from rest[unfolded this] show thesis
    by (elim bindM_InrE thenM_InrE) (simp add: catchM_conflict atomicM_Inr that)
qed

definition firstJob :: "uuid \<Rightarrow> uuid \<Rightarrow> provision_job" where
  "firstJob g l = \<lparr>pj_key = FirstRun l, pj_organizationId = g, pj_locationId = l, pj_adminEmail = None, pj_attemptsMade = 0\<rparr>"

lemma addLocation_run:
  assumes add: "addLocationProvisioning g dto s = (Inr (g', l), s1)"
  obtains site where "g' = g" and "l = w_ids (tn_world s) (w_nextId (tn_world s) + 1)"
    and "tn_sites s1 = tn_sites s @ [site]" and "loc_id site = l" and "ste_phoneNumber site = None"
    and "ste_telnyxPhoneNumberId site = None"
    and "tn_steps s1 = tn_steps s @ firstSteps g l (w_ids (tn_world s)) (w_nextId (tn_world s) + 2)" and "w_queueUp (tn_world s1)"
    and "tn_jobs s = [] \<Longrightarrow> tn_jobs s1 = [firstJob g l]"
proof -
  let ?w = "tn_world s"
  let ?l = "w_ids ?w (w_nextId ?w + 1)"
  from add obtain slug sl s2 s3 where slug: "generateUniqueSlug (ldt_locationName dto) s = (Inr slug, sl)"
    and written: "writeLocation g dto slug sl = (Inr (g', l), s2)"
    and job: "addJob (FirstRun l) g' l None s2 = (Inr (), s3)"
    and audit: "auditM ''location.created'' None g' l JNull s3 = (Inr (), s1)"
    by (rule addLocation_steps) auto
  have sl: "sl = s\<lparr>tn_world := ?w\<lparr>w_nextId := Suc (w_nextId ?w)\<rparr>\<rparr>"
    using slug by (simp add: generateUniqueSlug_def worldM_freshId)
  obtain site where site: "tn_sites s2 = tn_sites s @ [site]" "loc_id site = ?l" "ste_phoneNumber site = None"
      "ste_telnyxPhoneNumberId site = None" "g' = g" "l = ?l"
      "tn_steps s2 = tn_steps s @ firstSteps g ?l (w_ids ?w) (w_nextId ?w + 2)" "tn_jobs s2 = tn_jobs s"
    using written unfolding sl writeLocation_def worldM_freshId
    by (auto simp: insertSite_Inr insertSteps_location insertSubscription_def worldM_freshId newSite_def elim!: thenM_InrE)
  have "tn_sites s3 = tn_sites s2 \<and> tn_steps s3 = tn_steps s2 \<and> w_queueUp (tn_world s3) \<and>
      (tn_jobs s2 = [] \<longrightarrow> tn_jobs s3 = [firstJob g' l])"
    using job by (auto simp: addJob_def firstJob_def prog_step split: if_splits)
  moreover have "tn_sites s1 = tn_sites s3 \<and> tn_steps s1 = tn_steps s3 \<and> w_queueUp (tn_world s1) = w_queueUp (tn_world s3) \<and> tn_jobs s1 = tn_jobs s3"
    using audit by (auto simp: auditM_def worldM_def bindM_def split: prod.splits)
  ultimately show thesis
    using that[of site] site by auto
qed

text \<open>Ids are handed out once: no row has an id that is still to come.\<close>

definition idsAhead :: "tenancy \<Rightarrow> bool" where
  "idsAhead s \<longleftrightarrow> inj (w_ids (tn_world s)) \<and> (\<forall>k \<ge> w_nextId (tn_world s).
     (\<forall>r \<in> set (tn_sites s). loc_id r \<noteq> w_ids (tn_world s) k) \<and> (\<forall>r \<in> set (tn_steps s). st_locationId r \<noteq> w_ids (tn_world s) k))"

lemma precedes_Cons: "a \<noteq> b \<Longrightarrow> precedes a b (x # xs) \<longleftrightarrow> x \<noteq> b \<and> (x = a \<or> precedes a b xs)"
proof
  assume "a \<noteq> b" and all: "precedes a b (x # xs)"
  from all[unfolded precedes_def, rule_format, of "[]"] have "x \<noteq> b" by auto
  moreover have "precedes a b xs" if "x \<noteq> a"
    unfolding precedes_def
  proof (intro allI impI)
    fix ys zs assume "xs = ys @ b # zs"
    then show "a \<in> set ys" using all[unfolded precedes_def, rule_format, of "x # ys" zs] that by simp
  qed
  ultimately show "x \<noteq> b \<and> (x = a \<or> precedes a b xs)" by blast
qed (auto simp: precedes_def Cons_eq_append_conv)

lemma noneAfter_Cons: "noneAfter a b (x # xs) \<longleftrightarrow> (x = b \<longrightarrow> a \<notin> set xs) \<and> noneAfter a b xs"
  unfolding noneAfter_def by (auto simp: Cons_eq_append_conv)

lemma order_Nil: "precedes a b []" "noneAfter a b []"
  by (simp_all add: precedes_def noneAfter_def)

lemma locationSteps_inOrder: "inOrder False locationSteps"
  by (simp add: inOrder_def locationSteps_def precedes_Cons noneAfter_Cons order_Nil)

lemma firstSteps_names: "map st_stepName (firstSteps g l ids k) = locationSteps"
  by (simp add: firstSteps_def newStep_def locationSteps_def)

lemma firstSteps_fields: "r \<in> set (firstSteps g l ids k) \<Longrightarrow> st_metadata r = None \<and> \<not> stepDone r"
  by (auto simp: firstSteps_def newStep_def stepDone_def)

lemma firstSteps_ids: "inj ids \<Longrightarrow> distinct (map st_id (firstSteps g l ids k))"
  by (simp add: firstSteps_def newStep_def inj_eq)

lemma firstSteps_found:
  assumes "tn_steps s' = steps @ firstSteps g l ids k" and "\<forall>r \<in> set steps. st_locationId r \<noteq> l"
  shows "stepsOf g l s' = firstSteps g l ids k"
proof -
  have "filter (\<lambda>r. st_locationId r = l \<and> st_organizationId r = g) steps = []"
    using assms(2) by (auto simp: filter_empty_conv)
  then show ?thesis
    by (simp add: stepsOf_def assms(1) firstSteps_def newStep_def)
qed

lemma addLocation_ready:
  assumes "addLocationProvisioning g dto s = (Inr (g', l), s1)" and "idsAhead s"
  shows "g' = g" and "provisionable g l s1" and "siteNumber l s1 = None"
    and "stepsOf g l s1 = firstSteps g l (w_ids (tn_world s)) (w_nextId (tn_world s) + 2)"
proof -
  let ?ids = "w_ids (tn_world s)" and ?k = "w_nextId (tn_world s)"
  from addLocation_run[OF assms(1)] obtain site where run: "g' = g" "l = ?ids (?k + 1)" "tn_sites s1 = tn_sites s @ [site]" "loc_id site = l"
    "ste_phoneNumber site = None" "ste_telnyxPhoneNumberId site = None" "tn_steps s1 = tn_steps s @ firstSteps g l ?ids (?k + 2)"
    "w_queueUp (tn_world s1)" by metis
  have new: "\<forall>r \<in> set (tn_sites s). loc_id r \<noteq> l" "\<forall>r \<in> set (tn_steps s). st_locationId r \<noteq> l"
    using assms(2) run(2) by (auto simp: idsAhead_def)
  have "first_row (\<lambda>r. loc_id r = l) (tn_sites s) = None"
    using new(1) by (cases "first_row (\<lambda>r. loc_id r = l) (tn_sites s)") (auto dest: first_row_SomeD)
  then have site: "siteById l s1 = Some site"
    using run(3,4) by (simp add: siteById_def first_row_append)
  show "g' = g" by (rule run)
  show steps: "stepsOf g l s1 = firstSteps g l ?ids (?k + 2)" by (rule firstSteps_found[OF run(7) new(2)])
  show "siteNumber l s1 = None" by (simp add: siteNumber_def site run(6))
  have "distinct (map st_stepName (stepsOf g l s1))"
    by (simp add: steps firstSteps_names locationSteps_def)
  moreover have "distinct (map st_id (stepsOf g l s1))"
    using assms(2) firstSteps_ids by (simp add: steps idsAhead_def)
  ultimately show "provisionable g l s1"
    using site run(5,8) firstSteps_fields
    by (auto simp: provisionable_def siteSound_def phoneTaken_def resultKept_def steps)
qed

lemma jobs_basic [frame]:
  "preserves tn_jobs (worldM m)" "preserves tn_jobs clockM" "preserves tn_jobs (auditM act who org entity v)"
  "preserves tn_jobs (setSite i f)" "preserves tn_jobs (setOrg i h)" "preserves tn_jobs (siteM i)" "preserves tn_jobs (orgM i)"
  "preserves tn_jobs (askM answer req)"
  by (auto simp: preserves_def worldM_def auditM_def setSite_def setOrg_def siteM_def orgM_def askM_run bindM_def orThrow_def
      split: prod.split option.split)

lemma jobs_modify [frame]: "(\<And>s. tn_jobs (g s) = tn_jobs s) \<Longrightarrow> preserves tn_jobs (modifyM g)"
  by (simp add: preserves_def)

lemma jobs_pollOrder [frame]: "preserves tn_jobs (pollOrder env orderId n status)"
proof (induction n arbitrary: status)
  case (Suc n)
  show ?case
    unfolding pollOrder.simps Let_def by (intro frame Suc; simp)
qed (simp add: preserves_basic)

lemma jobs_body [frame]: "preserves tn_jobs (stepBody env data name metadata previous)"
  unfolding stepBody_def searchPhoneNumber_def cloneAgent_def cloneNew_def assignPhoneToAgent_def configureAgent_def
    importMenu_def registerWebhook_def sendAdminInvitation_def purchasePhoneNumber_def buyNumber_def claimPhone_def
    createInvitation_def insertInvitation_def sendOrganizationInvitation_def setAssistantDynamicVariablesOrThrow_def Let_def
  by (intro frame; simp)+

lemma jobs_step: "preserves tn_jobs (runStep env data previous step)"
  unfolding runStep_def tryStep_def stepFailed_def updateStepStatus_def by (intro frame; simp)

lemma jobs_steps [frame]: "preserves tn_jobs (runSteps env data seen steps)"
  by (induction steps arbitrary: seen) (simp_all add: preserves_basic preserves_bindM jobs_step)

lemma jobs_run: "preserves tn_jobs (handleProvisionOrganization env data)"
  unfolding handleProvisionOrganization_def finishProvisioning_def by (intro frame; simp)

lemma work_only_job:
  assumes "tn_jobs s = [job]" and "handleProvisionOrganization env \<lparr>pd_organizationId = pj_organizationId job,
      pd_locationId = pj_locationId job, pd_adminEmail = pj_adminEmail job\<rparr> (s\<lparr>tn_jobs := []\<rparr>) = (r, s')"
  shows "workProvision env 0 s = (case r of Inr _ \<Rightarrow> s' | Inl _ \<Rightarrow> if Suc (pj_attemptsMade job) < ATTEMPTS
      then s'\<lparr>tn_jobs := [job\<lparr>pj_attemptsMade := Suc (pj_attemptsMade job)\<rparr>]\<rparr> else s')" and "tn_jobs s' = []"
proof -
  show none: "tn_jobs s' = []" using preservesD[OF jobs_run assms(2)] by simp
  show "workProvision env 0 s = (case r of Inr _ \<Rightarrow> s' | Inl _ \<Rightarrow> if Suc (pj_attemptsMade job) < ATTEMPTS
      then s'\<lparr>tn_jobs := [job\<lparr>pj_attemptsMade := Suc (pj_attemptsMade job)\<rparr>]\<rparr> else s')"
    using assms none by (simp add: workProvision_def Let_def split: sum.split)
qed

text \<open>
  C37. A location added to an organization, with no other job waiting, a telephony service that answers
  every request and numbers no other location has: its job fails at the first attempt and at the second,
  and the third and last attempt completes it, with every step completed and the location active. The
  first two cannot succeed whatever the service answers, because a step reads the results of the others
  as they were stored before the run.
\<close>

theorem further_location_takes_three_attempts:
  assumes "addLocationProvisioning g dto s = (Inr (g', l), s0)" and "idsAhead s" and "tn_jobs s = []"
    and "answersAll env" and "offersFree env l s0"
  shows "tn_jobs s0 = [firstJob g l] \<and>
    tn_jobs (workProvision env 0 s0) = [(firstJob g l)\<lparr>pj_attemptsMade := 1\<rparr>] \<and>
    tn_jobs ((workProvision env 0 ^^ 2) s0) = [(firstJob g l)\<lparr>pj_attemptsMade := 2\<rparr>] \<and>
    tn_jobs ((workProvision env 0 ^^ 3) s0) = [] \<and>
    map_option ste_status (siteById l ((workProvision env 0 ^^ 3) s0)) = Some ''active'' \<and>
    list_all stepDone (stepsOf g l ((workProvision env 0 ^^ 3) s0))"
proof -
  let ?data = "\<lparr>pd_organizationId = g, pd_locationId = l, pd_adminEmail = None\<rparr>"
  let ?run = "handleProvisionOrganization env ?data" and ?S = "firstSteps g l (w_ids (tn_world s)) (w_nextId (tn_world s) + 2)"
  note ready = addLocation_ready[OF assms(1,2)]
  have job: "tn_jobs s0 = [firstJob g l]"
    using addLocation_run[OF assms(1)] assms(3) ready(1) by metis
  have same: "sameTables t (t\<lparr>tn_jobs := q\<rparr>)" for t q by (simp add: sameTables_def)
  obtain x1 s1 where r1: "?run (s0\<lparr>tn_jobs := []\<rparr>) = (x1, s1)" by (cases "?run (s0\<lparr>tn_jobs := []\<rparr>)")
  obtain x2 s2 where r2: "?run (s1\<lparr>tn_jobs := []\<rparr>) = (x2, s2)" by (cases "?run (s1\<lparr>tn_jobs := []\<rparr>)")
  have ids: "distinct (map st_id ?S)" using assms(2) firstSteps_ids by (simp add: idsAhead_def)
  have steps0: "stepsOf g l (s0\<lparr>tn_jobs := []\<rparr>) = ?S" using ready(4) sameTables_same(1)[OF same] by simp
  have "(\<exists>e. x1 = Inl e) \<and> (\<exists>e. fst (?run (s1\<lparr>tn_jobs := []\<rparr>)) = Inl e)"
  proof (rule first_two_attempts_fail[OF _ _ _ _ _ _ _ _ _ _ r1])
    show "stepsOf (pd_organizationId ?data) (pd_locationId ?data) (s0\<lparr>tn_jobs := []\<rparr>) = [?S ! 0] @ ?S ! 1 # [?S ! 2, ?S ! 3, ?S ! 4]"
      using steps0 by (simp add: firstSteps_def)
    show "\<not> truthy (siteNumber (pd_locationId ?data) (s0\<lparr>tn_jobs := []\<rparr>))"
      using ready(3) sameTables_same(2)[OF same] by simp
    show "?S ! 4 \<in> set [?S ! 2, ?S ! 3, ?S ! 4]" by simp
    show "distinct (map st_id ([?S ! 0] @ ?S ! 1 # [?S ! 2, ?S ! 3, ?S ! 4]))" using ids by (simp add: firstSteps_def)
  qed (simp_all add: firstSteps_def newStep_def stepDone_def)
  then obtain e1 e2 where x: "x1 = Inl e1" "x2 = Inl e2" using r2 by auto
  have "inOrder (truthy (siteNumber l s0)) (map st_stepName (stepsOf g l s0))"
    using locationSteps_inOrder by (simp add: ready(3,4) firstSteps_names)
  then have "\<exists>s3 l'. ?run (s2\<lparr>tn_jobs := []\<rparr>) = (Inr (), s3) \<and> siteById l s3 = Some l' \<and> ste_status l' = ''active'' \<and>
      (\<forall>r \<in> set (stepsOf g l s3). stepDone r)"
    using third_attempt_completes[OF assms(4) _ _ _ _ r1[unfolded x] same[of s1 "[]"] r2[unfolded x] same[of s2 "[]"]]
      ready(2) assms(5) sameTables_same[OF same] by simp
  then obtain s3 l' where third: "?run (s2\<lparr>tn_jobs := []\<rparr>) = (Inr (), s3)" "siteById l s3 = Some l'" "ste_status l' = ''active''"
      "\<forall>r \<in> set (stepsOf g l s3). stepDone r" by blast
  have w1: "workProvision env 0 s0 = s1\<lparr>tn_jobs := [(firstJob g l)\<lparr>pj_attemptsMade := 1\<rparr>]\<rparr>"
    using work_only_job(1)[OF job, of env x1 s1] r1 x by (simp add: firstJob_def ATTEMPTS_def)
  have w2: "workProvision env 0 (workProvision env 0 s0) = s2\<lparr>tn_jobs := [(firstJob g l)\<lparr>pj_attemptsMade := 2\<rparr>]\<rparr>"
    using work_only_job(1)[of "workProvision env 0 s0" "(firstJob g l)\<lparr>pj_attemptsMade := 1\<rparr>" env x2 s2] r2 x
    by (simp add: w1 firstJob_def ATTEMPTS_def)
  have "workProvision env 0 (workProvision env 0 (workProvision env 0 s0)) = s3 \<and> tn_jobs s3 = []"
    using work_only_job[of "workProvision env 0 (workProvision env 0 s0)" "(firstJob g l)\<lparr>pj_attemptsMade := 2\<rparr>" env "Inr ()" s3] third(1)
    by (simp add: w2 firstJob_def)
  moreover have "tn_jobs (workProvision env 0 s0) = [(firstJob g l)\<lparr>pj_attemptsMade := 1\<rparr>]"
    by (simp add: w1)
  moreover have "tn_jobs (workProvision env 0 (workProvision env 0 s0)) = [(firstJob g l)\<lparr>pj_attemptsMade := 2\<rparr>]"
    by (simp add: w2)
  moreover have "(workProvision env 0 ^^ 2) s0 = workProvision env 0 (workProvision env 0 s0)"
      "(workProvision env 0 ^^ 3) s0 = workProvision env 0 (workProvision env 0 (workProvision env 0 s0))"
    by (simp_all add: eval_nat_numeral)
  ultimately show ?thesis
    using job third(2-4) by (simp add: list_all_iff)
qed

end
