(* ===== verification/Provisioning_Account.thy ===== *)
theory Provisioning_Account
  imports Provisioning
begin

text \<open>
  What holds of an account whatever its administrators and the worker do: a location that has bought a
  number keeps it and never buys another; a creation that fails leaves no row; a run that completes a
  location makes its organization active; and a step cannot be retried or skipped once the first
  location of its organization is active.
\<close>

section \<open>A number is bought once\<close>

text \<open>A location that has a number still has the same one.\<close>

definition holdsNumber :: "uuid \<Rightarrow> tenancy \<Rightarrow> tenancy \<Rightarrow> bool" where
  "holdsNumber i s s' \<longleftrightarrow> (\<forall>l. siteById i s = Some l \<and> truthy (ste_telnyxPhoneNumberId l) \<longrightarrow>
     (\<exists>l'. siteById i s' = Some l' \<and> ste_telnyxPhoneNumberId l' = ste_telnyxPhoneNumberId l \<and> ste_phoneNumber l' = ste_phoneNumber l))"

lemma holdsNumber_preorder: "preorder (holdsNumber i)"
  unfolding preorder_def
proof (intro conjI reflpI transpI)
  show "holdsNumber i s s" for s by (simp add: holdsNumber_def)
  show "holdsNumber i s s2" if "holdsNumber i s s1" "holdsNumber i s1 s2" for s s1 s2
    using that unfolding holdsNumber_def by metis
qed

lemma keeps_holds: "keepsNumber i s s' \<Longrightarrow> holdsNumber i s s'"
  by (auto simp: keepsNumber_def holdsNumber_def)

lemma holds_same: "tn_sites s' = tn_sites s \<Longrightarrow> holdsNumber i s s'"
  by (simp add: holdsNumber_def siteById_def)

lemma holds_sites: "preserves tn_sites m \<Longrightarrow> moves (holdsNumber i) m"
  by (simp add: moves_def preserves_def holds_same)

lemma holds_frames [moving]:
  "moves (holdsNumber i) (worldM m)" "moves (holdsNumber i) clockM" "moves (holdsNumber i) (auditM act who org entity v)"
  "moves (holdsNumber i) (setOrg j f)" "moves (holdsNumber i) (siteM j)" "moves (holdsNumber i) (orgM j)"
  "moves (holdsNumber i) (askM answer req)"
  by (rule holds_sites, simp add: preserves_def worldM_def auditM_def setOrg_def siteM_def orgM_def askM_run bindM_def orThrow_def
      split: prod.split option.split)+

lemma holds_modify [moving]: "(\<And>s. tn_sites (g s) = tn_sites s) \<Longrightarrow> moves (holdsNumber i) (modifyM g)"
  by (simp add: moves_def holds_same)

lemma holds_update:
  "(\<And>l. P l \<Longrightarrow> loc_id l = i \<Longrightarrow> ste_telnyxPhoneNumberId (f l) = ste_telnyxPhoneNumberId l \<and> ste_phoneNumber (f l) = ste_phoneNumber l) \<Longrightarrow>
   (\<And>l. loc_id (f l) = loc_id l) \<Longrightarrow> tn_sites s' = update_where P f (tn_sites s) \<Longrightarrow> holdsNumber i s s'"
  by (auto simp: holdsNumber_def siteById_def first_row_update_where dest!: first_row_SomeD)

lemma holds_setSite [moving]:
  "(\<And>l. loc_id (f l) = loc_id l \<and> ste_telnyxPhoneNumberId (f l) = ste_telnyxPhoneNumberId l \<and>
      ste_phoneNumber (f l) = ste_phoneNumber l) \<Longrightarrow> moves (holdsNumber i) (setSite j f)"
  unfolding setSite_def by (intro moves_modify holds_update[where P = "\<lambda>r. loc_id r = j" and f = f]) simp_all

lemma holds_elsewhere: "i \<noteq> j \<Longrightarrow> (\<And>l. loc_id (f l) = loc_id l) \<Longrightarrow> moves (holdsNumber i) (setSite j f)"
  unfolding setSite_def by (intro moves_modify holds_update[where P = "\<lambda>r. loc_id r = j" and f = f]) auto

lemma holds_claim: "i \<noteq> j \<Longrightarrow> moves (holdsNumber i) (claimPhone j p n)"
  unfolding claimPhone_def by (intro holds_elsewhere moves_bind moves_then moves_basic holdsNumber_preorder; simp)

lemma holds_pollOrder [moving]: "moves (holdsNumber i) (pollOrder env orderId n status)"
proof (induction n arbitrary: status)
  case (Suc n)
  show ?case
    unfolding pollOrder.simps Let_def by (intro moving holdsNumber_preorder Suc; simp)
qed (simp add: moves_basic holdsNumber_preorder)

lemma holds_variables [moving]: "moves (holdsNumber i) (setAssistantDynamicVariablesOrThrow tx a vs)"
  unfolding setAssistantDynamicVariablesOrThrow_def Let_def by (intro moving holdsNumber_preorder)

lemma holds_create [moving]: "moves (holdsNumber i) (createInvitation env org inviter dto)"
  unfolding createInvitation_def insertInvitation_def sendOrganizationInvitation_def
  by (intro moving holdsNumber_preorder) simp_all

lemma holds_body: "i \<noteq> pd_locationId data \<Longrightarrow> moves (holdsNumber i) (stepBody env data name metadata previous)"
  unfolding stepBody_def searchPhoneNumber_def cloneAgent_def cloneNew_def assignPhoneToAgent_def configureAgent_def
    importMenu_def registerWebhook_def sendAdminInvitation_def purchasePhoneNumber_def buyNumber_def Let_def
  by (intro moving holdsNumber_preorder holds_claim; simp)+

lemma holds_runStep: "i \<noteq> pd_locationId data \<Longrightarrow> moves (holdsNumber i) (runStep env data previous step)"
  unfolding runStep_def tryStep_def stepFailed_def updateStepStatus_def by (intro moving holdsNumber_preorder holds_body; simp)

lemma holds_run [moving]: "moves (holdsNumber i) (handleProvisionOrganization env data)"
proof (cases "i = pd_locationId data")
  case True
  then show ?thesis using keepsNumber_run keeps_holds moves_weaken by blast
next
  case False
  then show ?thesis
    unfolding handleProvisionOrganization_def finishProvisioning_def
    by (intro moving holdsNumber_preorder holds_runStep; simp)
qed

lemma holds_jobs [simp]: "holdsNumber i (s\<lparr>tn_jobs := q\<rparr>) s' = holdsNumber i s s'" "holdsNumber i s (s'\<lparr>tn_jobs := q\<rparr>) = holdsNumber i s s'"
  by (simp_all add: holdsNumber_def siteById_def)

lemma holds_work: "holdsNumber i s (workProvision env n s)"
proof (cases "n < length (tn_jobs s)")
  case True
  let ?job = "tn_jobs s ! n" and ?rest = "take n (tn_jobs s) @ drop (Suc n) (tn_jobs s)"
  obtain r s' where run: "handleProvisionOrganization env \<lparr>pd_organizationId = pj_organizationId ?job,
      pd_locationId = pj_locationId ?job, pd_adminEmail = pj_adminEmail ?job\<rparr> (s\<lparr>tn_jobs := ?rest\<rparr>) = (r, s')" by fastforce
  then have "holdsNumber i s s'" using movesD[OF holds_run run] by simp
  with True run show ?thesis by (auto simp: workProvision_def Let_def split: sum.split)
qed (simp add: workProvision_def holds_same)

lemma holds_atomic [moving]: "moves (holdsNumber i) m \<Longrightarrow> moves (holdsNumber i) (atomicM m)"
  by (auto simp: moves_def atomicM_def holds_same split: prod.split sum.split) (metis snd_conv)

lemma holds_insertSite [moving]: "moves (holdsNumber i) (insertSite r)"
  by (auto simp: moves_def insertSite_def prog_step holdsNumber_def siteById_def first_row_append)

lemma holds_insertSteps [moving]: "moves (holdsNumber i) (insertSteps g l n names)"
  by (induction names arbitrary: n) (simp_all, (intro moving holdsNumber_preorder; simp)+)

text \<open>Everything the administrators and the worker do.\<close>

inductive account_step :: "provision_env \<Rightarrow> tenancy \<Rightarrow> tenancy \<Rightarrow> bool" for env where
  work: "account_step env s (workProvision env n s)"
| create: "account_step env s (snd (createOrganizationProvisioning env dto s))"
| add: "account_step env s (snd (addLocationProvisioning g ldto s))"
| retry: "account_step env s (snd (retryProvisioning g l s))"
| retry_step: "account_step env s (snd (retryStep g i s))"
| skip: "account_step env s (snd (skipStep g i s))"
| status: "account_step env s (snd (setStatus g st s))"
| update: "account_step env s (snd (updateOrganization g flags s))"
| archive: "account_step env s (snd (deprovision env g s))"

lemma holds_retry [moving]: "moves (holdsNumber i) (retryProvisioning g l)"
  unfolding retryProvisioning_def getProvisioningStatus_def addJob_def Let_def by (intro moving holdsNumber_preorder; simp)

lemma holds_steps [moving]: "moves (holdsNumber i) (retryStep g j)" "moves (holdsNumber i) (skipStep g j)"
  unfolding retryStep_def skipStep_def stepOfOrg_def setStep_def by (intro moving holdsNumber_preorder; simp)+

lemma holds_status [moving]: "moves (holdsNumber i) (setStatus g st)" "moves (holdsNumber i) (updateOrganization g flags)"
  unfolding setStatus_def updateOrganization_def by (intro moving holdsNumber_preorder)+

lemma holds_archived:
  "moves (holdsNumber i) (modifyM (\<lambda>s. s\<lparr>tn_sites := update_where P (\<lambda>l. l\<lparr>ste_status := a, loc_deletedAt := b\<rparr>) (tn_sites s)\<rparr>))"
proof (rule moves_modify)
  show "holdsNumber i s (s\<lparr>tn_sites := update_where P (\<lambda>l. l\<lparr>ste_status := a, loc_deletedAt := b\<rparr>) (tn_sites s)\<rparr>)" for s
    by (rule holds_update[where P = P and f = "\<lambda>l. l\<lparr>ste_status := a, loc_deletedAt := b\<rparr>"]) simp_all
qed

lemma holds_archive [moving]: "moves (holdsNumber i) (deprovision env g)"
  unfolding deprovision_def releaseResources_def Let_def
  by (intro holds_archived moves_bind moves_then moves_forM moves_when moves_catch moves_basic holds_frames holdsNumber_preorder)

lemma holds_conflict [moving]: "moves (holdsNumber i) m \<Longrightarrow> moves (holdsNumber i) (runOrConflict m message)"
  unfolding runOrConflict_def
proof (intro moves_catch holdsNumber_preorder)
  show "moves (holdsNumber i) (case e of UniqueViolation c \<Rightarrow> throwM (ConflictException message) | _ \<Rightarrow> throwM e)" for e
    by (cases e) (simp_all add: moves_basic holdsNumber_preorder)
qed

lemma holds_add [moving]: "moves (holdsNumber i) (addLocationProvisioning g ldto)"
  unfolding addLocationProvisioning_def assertLocationNameFree_def generateUniqueSlug_def writeLocation_def insertSubscription_def addJob_def
  by (intro moving holdsNumber_preorder; simp)

lemma holds_new [moving]: "moves (holdsNumber i) (createOrganizationProvisioning env dto)"
  unfolding createOrganizationProvisioning_def assertOrganizationNameFree_def generateUniqueSlug_def writeOrganization_def
    insertCompany_def insertSubscription_def addJob_def resolveAgentPhoneNumberForClaim_def getAgentPhoneNumbers_def getAgentTexmlAppId_def
  by (intro moving holdsNumber_preorder; simp)

lemma holds_step: "account_step env s s' \<Longrightarrow> holdsNumber i s s'"
proof (induction rule: account_step.induct)
  case (work s n)
  show ?case by (rule holds_work)
qed (metis moves_def holds_retry holds_steps holds_status holds_archive holds_add holds_new)+

lemma holds_reach: "(account_step env)\<^sup>*\<^sup>* s s' \<Longrightarrow> holdsNumber i s s'"
proof (induction rule: rtranclp_induct)
  case base
  show ?case by (simp add: holds_same)
next
  case (step s1 s2)
  then show ?case using holds_step[of env s1 s2 i] unfolding holdsNumber_def by metis
qed

text \<open>
  C38. Once a location holds a number, no sequence of runs of the worker, further creations, retries,
  skipped steps, suspensions and archives takes it away or changes it, and whatever run of the location
  follows asks the telephony service for no other number.
\<close>

theorem number_never_bought_twice:
  assumes "siteById i s = Some l" and "truthy (ste_telnyxPhoneNumberId l)" and "(account_step env)\<^sup>*\<^sup>* s s1"
    and "pd_locationId data = i"
  shows "\<exists>l' reqs. siteById i (snd (handleProvisionOrganization env data s1)) = Some l' \<and>
    ste_telnyxPhoneNumberId l' = ste_telnyxPhoneNumberId l \<and> ste_phoneNumber l' = ste_phoneNumber l \<and>
    tn_telnyx (snd (handleProvisionOrganization env data s1)) = tn_telnyx s1 @ reqs \<and> (\<forall>p. CreateNumberOrder p \<notin> set reqs)"
proof -
  obtain l1 where l1: "siteById i s1 = Some l1" "ste_telnyxPhoneNumberId l1 = ste_telnyxPhoneNumberId l"
      "ste_phoneNumber l1 = ste_phoneNumber l"
    using holds_reach[OF assms(3)] assms(1,2) unfolding holdsNumber_def by blast
  have "keepsNumber i s1 (snd (handleProvisionOrganization env data s1))"
    using keepsNumber_run[of data env] assms(4) by (simp add: moves_def)
  with l1 assms(2) show ?thesis unfolding keepsNumber_def by force
qed

section \<open>Creations that fail\<close>

definition sameRows :: "tenancy \<Rightarrow> tenancy \<Rightarrow> bool" where
  "sameRows s s' \<longleftrightarrow> tn_orgs s' = tn_orgs s \<and> tn_sites s' = tn_sites s \<and> tn_steps s' = tn_steps s \<and>
     tn_subscriptions s' = tn_subscriptions s \<and> tn_jobs s' = tn_jobs s \<and> w_queueUp (tn_world s') = w_queueUp (tn_world s)"

lemma sameRows_preorder: "preorder sameRows"
  by (auto simp: preorder_def sameRows_def intro!: reflpI transpI)

lemma sameRows_frames [moving]:
  "moves sameRows (askM answer req)" "moves sameRows (worldM freshId)" "moves sameRows (generateUniqueSlug name)"
  by (simp_all add: moves_def sameRows_def askM_run worldM_def freshId_def generateUniqueSlug_def bindM_def)

text \<open>A failing program leaves the rows as they were.\<close>

definition failsClean :: "'a tenant \<Rightarrow> bool" where
  "failsClean m \<longleftrightarrow> (\<forall>s e s'. w_queueUp (tn_world s) \<longrightarrow> m s = (Inl e, s') \<longrightarrow> sameRows s s')"

lemma failsClean_bind: "moves sameRows m \<Longrightarrow> (\<And>a. failsClean (f a)) \<Longrightarrow> failsClean (bindM m f)"
  unfolding failsClean_def
proof (intro allI impI)
  fix s e s'
  assume m: "moves sameRows m" and f: "\<And>a. \<forall>s e s'. w_queueUp (tn_world s) \<longrightarrow> f a s = (Inl e, s') \<longrightarrow> sameRows s s'"
    and up: "w_queueUp (tn_world s)" and run: "bindM m f s = (Inl e, s')"
  obtain r s1 where r: "m s = (r, s1)" by (cases "m s")
  have same: "sameRows s s1" using movesD[OF m r] .
  show "sameRows s s'"
  proof (cases r)
    case (Inl x)
    then show ?thesis using run r same by (simp add: bindM_def)
  next
    case (Inr a)
    have "f a s1 = (Inl e, s')" using run r Inr by (simp add: bindM_def)
    moreover have "w_queueUp (tn_world s1)" using same up by (simp add: sameRows_def)
    ultimately have "sameRows s1 s'" using f[of a] by blast
    then show ?thesis using same by (simp add: sameRows_def)
  qed
qed

lemma failsClean_then: "moves sameRows m \<Longrightarrow> failsClean n \<Longrightarrow> failsClean (thenM m n)"
  unfolding thenM_def by (rule failsClean_bind)

text \<open>The transaction that writes the rows, the job, and the log.\<close>

lemma failsClean_write:
  assumes "preserves (\<lambda>s. (tn_jobs s, w_queueUp (tn_world s))) m"
  shows "failsClean (bindM (runOrConflict (atomicM m) message) (\<lambda>r. thenM (addJob (key r) (g r) (l r) (a r)) (thenM (auditM act who (o' r) (x r) v) (returnM r))))"
  unfolding failsClean_def
proof (intro allI impI)
  fix s e s'
  assume up: "w_queueUp (tn_world s)" and run: "bindM (runOrConflict (atomicM m) message)
      (\<lambda>r. thenM (addJob (key r) (g r) (l r) (a r)) (thenM (auditM act who (o' r) (x r) v) (returnM r))) s = (Inl e, s')"
  obtain r s1 where m: "m s = (r, s1)" by (cases "m s")
  have frame: "tn_jobs s1 = tn_jobs s" "w_queueUp (tn_world s1) = w_queueUp (tn_world s)" using preservesD[OF assms m] by simp_all
  show "sameRows s s'"
  proof (cases r)
    case (Inl e1)
    then obtain s2 where "atomicM m s = (Inl e1, s2)" "sameRows s s2"
      using m frame by (simp add: atomicM_def sameRows_def)
    moreover then have "\<exists>e2. runOrConflict (atomicM m) message s = (Inl e2, s2)"
      by (cases e1) (simp_all add: runOrConflict_def catchM_def)
    ultimately show ?thesis using run by (auto simp: bindM_def)
  next
    case (Inr b)
    then have "runOrConflict (atomicM m) message s = (Inr b, s1)"
      using m by (simp add: catchM_conflict atomicM_Inr)
    then show ?thesis
      using run up frame(2) by (simp add: bindM_def thenM_def addJob_def auditM_def worldM_def throw_if_def)
  qed
qed

abbreviation jobsUp :: "tenancy \<Rightarrow> provision_job list \<times> bool" where
  "jobsUp s \<equiv> (tn_jobs s, w_queueUp (tn_world s))"

lemma jobsUp_frames [frame]:
  "(\<And>s. jobsUp (f s) = jobsUp s) \<Longrightarrow> preserves jobsUp (modifyM f)" "preserves jobsUp (worldM freshId)"
  "preserves jobsUp (insertCompany c)" "preserves jobsUp (insertSite l)" "preserves jobsUp (insertSubscription g i)"
  by (simp_all add: preserves_def worldM_def freshId_def insertCompany_def insertSite_def insertSubscription_def
      bindM_def thenM_def throw_if_def)

lemma jobsUp_steps [frame]: "preserves jobsUp (insertSteps g l n names)"
  by (induction names arbitrary: n) (simp_all add: preserves_basic, (intro frame; simp)+)

lemma jobsUp_write: "preserves jobsUp (writeOrganization dto slug lslug number)" "preserves jobsUp (writeLocation g ldto slug)"
  unfolding writeOrganization_def writeLocation_def by (intro frame)+

lemma resolve_rows [moving]: "moves sameRows (resolveAgentPhoneNumberForClaim env agentId)"
  unfolding resolveAgentPhoneNumberForClaim_def getAgentPhoneNumbers_def getAgentTexmlAppId_def
  by (intro moving sameRows_preorder)

text \<open>
  C40. When creating an organization or adding a location fails, for whatever reason, while the queue is
  up, nothing is left: no organization, location, step or subscription, and no job.
\<close>

theorem failed_creation_leaves_nothing:
  assumes "w_queueUp (tn_world s)"
  shows "(\<forall>e s'. createOrganizationProvisioning env dto s = (Inl e, s') \<longrightarrow> sameRows s s') \<and>
    (\<forall>e s'. addLocationProvisioning g ldto s = (Inl e, s') \<longrightarrow> sameRows s s')"
proof -
  have "failsClean (createOrganizationProvisioning env dto)"
    unfolding createOrganizationProvisioning_def assertOrganizationNameFree_def
    by (intro failsClean_bind failsClean_then failsClean_write jobsUp_write moving sameRows_preorder)
  moreover have "failsClean (addLocationProvisioning g ldto)"
    unfolding addLocationProvisioning_def assertLocationNameFree_def
    by (intro failsClean_bind failsClean_then failsClean_write jobsUp_write moving sameRows_preorder)
  ultimately show ?thesis using assms unfolding failsClean_def by blast
qed

section \<open>Retrying and skipping\<close>

lemma first_location:
  assumes "orgById g s = Some org" and "locationsAsked g None s = l # ls" and "distinct (map loc_id (tn_sites s))"
  shows "siteById (loc_id l) s = Some l"
    and "getProvisioningStatus g None s = (Inr (map (statusOf s org) (l # ls)), s)"
proof -
  have "l \<in> set (tn_sites s)" using assms(2) by (auto simp: locationsAsked_def filter_eq_Cons_iff)
  then obtain l' where l': "siteById (loc_id l) s = Some l'"
    unfolding siteById_def using first_row_NoneD by (cases "first_row (\<lambda>r. loc_id r = loc_id l) (tn_sites s)") fastforce+
  then have "l' \<in> set (tn_sites s)" "loc_id l' = loc_id l" unfolding siteById_def using first_row_SomeD by fastforce+
  with \<open>l \<in> set (tn_sites s)\<close> assms(3) have "l' = l" by (auto simp: distinct_map inj_on_def)
  with l' show "siteById (loc_id l) s = Some l" by simp
  show "getProvisioningStatus g None s = (Inr (map (statusOf s org) (l # ls)), s)"
    by (simp add: getProvisioningStatus_def assms(1,2) prog_step)
qed

lemma retry_active:
  assumes "orgById g s = Some org" and "locationsAsked g None s = l # ls" and "distinct (map loc_id (tn_sites s))"
    and "ste_status l = ''active''"
  shows "retryProvisioning g None s = (Inl (BadRequestException ''Location is already active.''), s)"
  using first_location[OF assms(1-3)] assms(4)
  by (simp add: retryProvisioning_def bindM_eval statusOf_def prog_step Let_def)

text \<open>
  Once the first location of an organization is active, no step of any of its locations can be
  retried or skipped: the step's own row is changed, and then the call is refused because the first
  location is active already; no job is queued, for the location of the step is not looked at.
\<close>

theorem retry_step_elsewhere:
  assumes "orgById g s = Some org" and "locationsAsked g None s = l # ls" and "distinct (map loc_id (tn_sites s))"
    and "ste_status l = ''active''" and "first_row (\<lambda>r. st_id r = i \<and> st_organizationId r = g) (tn_steps s) = Some row"
  shows "fst (retryStep g i s) = Inl (BadRequestException ''Location is already active.'') \<and>
    fst (skipStep g i s) = Inl (BadRequestException ''Location is already active.'') \<and>
    tn_steps (snd (retryStep g i s)) = update_where (\<lambda>r. st_id r = i) resetStep (tn_steps s) \<and>
    tn_jobs (snd (retryStep g i s)) = tn_jobs s \<and> tn_jobs (snd (skipStep g i s)) = tn_jobs s"
proof -
  have row: "st_id row = i" using assms(5) by (auto dest: first_row_SomeD)
  have refuse: "retryProvisioning g None t = (Inl (BadRequestException ''Location is already active.''), t)"
    if "tn_orgs t = tn_orgs s" "tn_sites t = tn_sites s" for t
    using retry_active[of g t org l ls] assms that by (simp add: orgById_def locationsAsked_def)
  let ?t = "s\<lparr>tn_steps := update_where (\<lambda>r. st_id r = i) resetStep (tn_steps s)\<rparr>"
  have "retryStep g i s = (Inl (BadRequestException ''Location is already active.''), ?t)"
    using refuse[of ?t] by (simp add: retryStep_def stepOfOrg_def assms(5) setStep_def row bindM_assoc)
  moreover have "\<exists>t. skipStep g i s = (Inl (BadRequestException ''Location is already active.''), t) \<and> tn_jobs t = tn_jobs s"
    by (simp add: skipStep_def stepOfOrg_def assms(5) setStep_def row bindM_assoc auditM_def thenM_eval worldM_def emitM_def refuse)
  ultimately show ?thesis by auto
qed

section \<open>A completed location and its organization\<close>

lemma finish_org:
  "orgById g s = Some org \<Longrightarrow> map_option org_status (orgById g (snd (finishProvisioning data s))) =
     Some (if g = pd_organizationId data then ''active'' else org_status org)"
  by (auto simp: finishProvisioning_def setSite_def setOrg_def auditM_def thenM_def bindM_def worldM_def orgById_def
      first_row_update_where dest: first_row_SomeD)

definition keepsOrgs :: "tenancy \<Rightarrow> tenancy \<Rightarrow> bool" where
  "keepsOrgs s s' \<longleftrightarrow> map org_id (tn_orgs s') = map org_id (tn_orgs s)"

lemma keepsOrgs_preorder: "preorder keepsOrgs"
  by (auto simp: preorder_def keepsOrgs_def intro!: reflpI transpI)

lemma keepsOrgs_found: "keepsOrgs s s' \<Longrightarrow> orgById g s = Some org \<Longrightarrow> \<exists>org'. orgById g s' = Some org'"
proof -
  assume same: "keepsOrgs s s'" and found: "orgById g s = Some org"
  have "g \<in> set (map org_id (tn_orgs s))" using found unfolding orgById_def by (auto dest: first_row_SomeD)
  then have "g \<in> set (map org_id (tn_orgs s'))" using same by (simp add: keepsOrgs_def)
  then show ?thesis
    unfolding orgById_def by (cases "first_row (\<lambda>r. org_id r = g) (tn_orgs s')") (auto dest: first_row_NoneD)
qed

lemma orgs_same: "preserves tn_orgs m \<Longrightarrow> moves keepsOrgs m"
  by (simp add: moves_def preserves_def keepsOrgs_def)

lemma keepsOrgs_frames [moving]:
  "moves keepsOrgs (worldM m)" "moves keepsOrgs clockM" "moves keepsOrgs (auditM act who org entity v)"
  "moves keepsOrgs (setSite j h)" "moves keepsOrgs (siteM j)" "moves keepsOrgs (orgM j)" "moves keepsOrgs (askM answer req)"
  by (rule orgs_same, simp add: preserves_def worldM_def auditM_def setSite_def siteM_def orgM_def askM_run bindM_def orThrow_def
      split: prod.split option.split)+

lemma keepsOrgs_setOrg [moving]: "(\<And>r. org_id (f r) = org_id r) \<Longrightarrow> moves keepsOrgs (setOrg j f)"
  unfolding setOrg_def by (rule moves_modify) (simp add: keepsOrgs_def map_update_where)

lemma keepsOrgs_modify [moving]: "(\<And>s. tn_orgs (g s) = tn_orgs s) \<Longrightarrow> moves keepsOrgs (modifyM g)"
  by (simp add: moves_def keepsOrgs_def)

lemma keepsOrgs_pollOrder [moving]: "moves keepsOrgs (pollOrder env orderId n status)"
proof (induction n arbitrary: status)
  case (Suc n)
  show ?case
    unfolding pollOrder.simps Let_def by (intro moving keepsOrgs_preorder Suc; simp)
qed (simp add: moves_basic keepsOrgs_preorder)

lemma keepsOrgs_body [moving]: "moves keepsOrgs (stepBody env data name metadata previous)"
  unfolding stepBody_def searchPhoneNumber_def cloneAgent_def cloneNew_def assignPhoneToAgent_def configureAgent_def
    importMenu_def registerWebhook_def sendAdminInvitation_def purchasePhoneNumber_def buyNumber_def claimPhone_def
    createInvitation_def insertInvitation_def sendOrganizationInvitation_def setAssistantDynamicVariablesOrThrow_def Let_def
  by (intro moving keepsOrgs_preorder; simp)+

lemma keepsOrgs_run: "moves keepsOrgs (runStep env data previous step)"
  unfolding runStep_def tryStep_def stepFailed_def updateStepStatus_def
  by (intro moving keepsOrgs_preorder; simp)

text \<open>
  A run that completes a location makes its organization active even when the organization was
  suspended while the run waited in the queue.
\<close>

theorem run_lifts_suspension:
  assumes "orgById g s = Some org" and "setStatus g ''suspended'' s = (Inr u, s1)"
    and "handleProvisionOrganization env data s1 = (Inr v, s2)" and "pd_organizationId data = g"
  shows "map_option org_status (orgById g s1) = Some ''suspended'' \<and> map_option org_status (orgById g s2) = Some ''active''"
proof -
  have s1: "map_option org_status (orgById g s1) = Some ''suspended''"
    using assms(1,2) by (auto simp: setStatus_def setOrg_def auditM_def worldM_def emitM_def thenM_def bindM_def orgById_def
        first_row_update_where dest: first_row_SomeD)
  then obtain org1 where org1: "orgById g s1 = Some org1" by auto
  let ?S = "stepsOf (pd_organizationId data) (pd_locationId data) s1"
  obtain a sa b sb where run: "whenM (list_ex (\<lambda>r. st_status r = ''pending'') ?S)
        (auditM ''org.provisioning.started'' None (pd_organizationId data) [] JNull) s1 = (Inr a, sa)"
      "runSteps env data [] ?S sa = (Inr b, sb)" "finishProvisioning data sb = (Inr v, s2)"
    using assms(3) unfolding handleProvisionOrganization_def bindM_basic by (elim thenM_InrE)
  have "keepsOrgs s1 sa" by (rule movesD[OF moves_when[OF keepsOrgs_preorder keepsOrgs_frames(3)] run(1)])
  moreover have "keepsOrgs sa sb" by (rule movesD[OF moves_runSteps[OF keepsOrgs_preorder keepsOrgs_run] run(2)])
  ultimately have "keepsOrgs s1 sb" by (simp add: keepsOrgs_def)
  from keepsOrgs_found[OF this org1] obtain org2 where "orgById g sb = Some org2" by blast
  from finish_org[OF this, of data] s1 show ?thesis by (simp add: run(3) assms(4))
qed

end
