(* ===== verification/Demo_Provision.thy ===== *)
theory Demo_Provision
  imports Provisioning_Account Demo_Auth
begin

text \<open>
  The theorems of \<open>Phone_Numbers\<close>, \<open>Invitations\<close> and \<open>Provisioning_Account\<close> applied to a small account: an
  organization without locations, a telephony service that gives every request the same answer.
\<close>

section \<open>An account\<close>

definition demoCompany :: company_row where
  "demoCompany = \<lparr>org_id = ''g'', org_status = ''active'', cmp_name = ''G'', cmp_slug = None, cmp_webhookApiKey = None, cmp_deletedAt = None, cmp_featureFlags = JObj []\<rparr>"

definition demoInvitation :: "uuid \<Rightarrow> string \<Rightarrow> string \<Rightarrow> invitation_row" where
  "demoInvitation i email status = \<lparr>iv_id = i, iv_organizationId = ''g'', iv_locationId = None, iv_email = email, iv_role = ''manager'',
     iv_tokenHash = CHR ''h'' # i, iv_status = status, iv_expiresAt = 5000, iv_acceptedAt = None, iv_invitedByUserId = ''u''\<rparr>"

definition demoAccount :: tenancy where
  "demoAccount = \<lparr>tn_world = demoWorld, tn_orgs = [demoCompany], tn_sites = [],
     tn_invitations = [demoInvitation ''p'' ''new'' ''pending'', demoInvitation ''q'' ''u'' ''pending'', demoInvitation ''r'' ''x'' ''revoked''],
     tn_steps = [], tn_subscriptions = [], tn_jobs = [], tn_imports = [], tn_telnyx = []\<rparr>"

definition demoTelnyx :: telnyx where
  "demoTelnyx = \<lparr>tx_assistant = (\<lambda>log req. Inr \<lparr>as_id = Some ''a'', as_texmlAppId = Some ''x'', as_variables = None, as_data = None\<rparr>),
     tx_numbers = (\<lambda>log req. Inr (Some [\<lparr>no_id = Some ''n'', no_phoneNumber = Some ''+15551234567''\<rparr>])),
     tx_order = (\<lambda>log req. Inr (Some \<lparr>ono_id = Some ''o'', ono_status = Some ''success''\<rparr>)),
     tx_update = (\<lambda>log req. Inr ())\<rparr>"

definition demoProvisionEnv :: provision_env where
  "demoProvisionEnv = \<lparr>pn_telnyx = demoTelnyx, pn_auth = demoEnvAuth, pn_masterAgentId = Some ''m'', pn_connectionId = Some ''c''\<rparr>"

definition demoLocationDto :: location_dto where
  "demoLocationDto = \<lparr>ldt_locationName = ''L'', ldt_country = ''US'', ldt_state = None, ldt_city = None\<rparr>"

definition demoAdded :: tenancy where
  "demoAdded = snd (addLocationProvisioning ''g'' demoLocationDto demoAccount)"

lemma demoSupply_inj: "inj (\<lambda>n. replicate (Suc n) CHR ''i'')"
  by (rule injI) (metis length_replicate nat.inject)

lemma demoAccount_ids: "idsAhead demoAccount"
  using demoSupply_inj by (simp add: idsAhead_def demoAccount_def demoWorld_def)

lemma demoAdd_run: "addLocationProvisioning ''g'' demoLocationDto demoAccount = (Inr (''g'', ''ii''), demoAdded)"
proof -
  have "\<exists>s1. addLocationProvisioning ''g'' demoLocationDto demoAccount = (Inr (''g'', ''ii''), s1)"
    by (simp add: addLocationProvisioning_def assertLocationNameFree_def generateUniqueSlug_def worldM_freshId runOrConflict_def
        atomicM_def writeLocation_def insertSite_def insertSteps_location insertSubscription_def addJob_def auditM_def worldM_def
        thenM_eval bindM_eval catchM_eval prog_step orgById_def phoneTaken_def newSite_def Let_def
        demoAccount_def demoWorld_def demoCompany_def demoLocationDto_def thenM_def bindM_def catchM_def throw_if_def)
  then show ?thesis unfolding demoAdded_def by auto
qed

lemma demoService_answers: "answersAll demoProvisionEnv"
  by (simp add: answersAll_def demoProvisionEnv_def demoTelnyx_def unwrapAssistant_def assistant.defs)

lemma demoService_free: "offersFree demoProvisionEnv ''ii'' demoAdded"
proof -
  from addLocation_run[OF demoAdd_run] obtain site where "tn_sites demoAdded = tn_sites demoAccount @ [site]" "loc_id site = ''ii''"
    by metis
  then show ?thesis by (simp add: offersFree_def phoneTaken_def demoAccount_def)
qed

theorem further_location_takes_three_attempts_witness:
  "tn_jobs demoAdded = [firstJob ''g'' ''ii''] \<and>
   tn_jobs (workProvision demoProvisionEnv 0 demoAdded) = [(firstJob ''g'' ''ii'')\<lparr>pj_attemptsMade := 1\<rparr>] \<and>
   tn_jobs ((workProvision demoProvisionEnv 0 ^^ 2) demoAdded) = [(firstJob ''g'' ''ii'')\<lparr>pj_attemptsMade := 2\<rparr>] \<and>
   tn_jobs ((workProvision demoProvisionEnv 0 ^^ 3) demoAdded) = [] \<and>
   map_option ste_status (siteById ''ii'' ((workProvision demoProvisionEnv 0 ^^ 3) demoAdded)) = Some ''active'' \<and>
   list_all stepDone (stepsOf ''g'' ''ii'' ((workProvision demoProvisionEnv 0 ^^ 3) demoAdded))"
  by (rule further_location_takes_three_attempts[OF demoAdd_run demoAccount_ids _ demoService_answers demoService_free])
    (simp add: demoAccount_def)

section \<open>A location with a number\<close>

definition demoSite :: site_row where
  "demoSite = (newSite ''l'' ''g'' ''L'' ''l'')\<lparr>ste_phoneNumber := Some ''+1'', ste_telnyxPhoneNumberId := Some ''n'', ste_status := ''active''\<rparr>"

definition demoSettled :: tenancy where
  "demoSettled = demoAccount\<lparr>tn_sites := [demoSite], tn_steps := [newStep ''s'' ''g'' ''l'' ''import_menu'' 1]\<rparr>"

definition demoData :: provision_data where
  "demoData = \<lparr>pd_organizationId = ''g'', pd_locationId = ''l'', pd_adminEmail = None\<rparr>"

definition demoSuspended :: tenancy where
  "demoSuspended = snd (setStatus ''g'' ''suspended'' demoSettled)"

lemma demoSite_found: "siteById ''l'' demoSettled = Some demoSite"
  by (simp add: siteById_def demoSettled_def demoSite_def newSite_def)

theorem number_never_bought_twice_witness:
  "\<exists>l' reqs. siteById ''l'' (snd (handleProvisionOrganization demoProvisionEnv demoData demoSuspended)) = Some l' \<and>
    ste_telnyxPhoneNumberId l' = ste_telnyxPhoneNumberId demoSite \<and> ste_phoneNumber l' = ste_phoneNumber demoSite \<and>
    tn_telnyx (snd (handleProvisionOrganization demoProvisionEnv demoData demoSuspended)) = tn_telnyx demoSuspended @ reqs \<and>
    (\<forall>p. CreateNumberOrder p \<notin> set reqs)"
proof (rule number_never_bought_twice[OF demoSite_found])
  show "(account_step demoProvisionEnv)\<^sup>*\<^sup>* demoSettled demoSuspended"
    unfolding demoSuspended_def by (intro r_into_rtranclp account_step.status)
qed (simp_all add: demoSite_def demoData_def)

lemma demoSuspend_run: "setStatus ''g'' ''suspended'' demoSettled = (Inr (), demoSuspended)"
  unfolding demoSuspended_def by (simp add: setStatus_def setOrg_def auditM_def worldM_def thenM_def bindM_def throw_if_def)

lemma demoRun: "\<exists>s2. handleProvisionOrganization demoProvisionEnv demoData demoSuspended = (Inr (), s2)"
  by (simp add: handleProvisionOrganization_def demoData_def stepsOf_def demoAccount_def demoWorld_def runStep_def stepDone_def newStep_def tryStep_def stepBody_def
      importMenu_def siteM_def demoSuspended_def setStatus_def setOrg_def auditM_def worldM_def thenM_def bindM_def throw_if_def
      catchM_def updateStepStatus_def finishProvisioning_def setSite_def demoSettled_def siteById_def demoSite_def newSite_def
      clockM_def whenM_def Let_def)

theorem run_lifts_suspension_witness:
  "map_option org_status (orgById ''g'' demoSuspended) = Some ''suspended'' \<and>
   map_option org_status (orgById ''g'' (snd (handleProvisionOrganization demoProvisionEnv demoData demoSuspended))) = Some ''active''"
proof -
  obtain s2 where run: "handleProvisionOrganization demoProvisionEnv demoData demoSuspended = (Inr (), s2)" using demoRun by blast
  have org: "orgById ''g'' demoSettled = Some demoCompany"
    by (simp add: orgById_def demoSettled_def demoAccount_def demoCompany_def)
  have data: "pd_organizationId demoData = ''g''" by (simp add: demoData_def)
  from run_lifts_suspension[OF org demoSuspend_run run data] show ?thesis unfolding run by simp
qed

definition demoOrgDto :: org_dto where
  "demoOrgDto = \<lparr>odt_orgName = ''G'', odt_adminEmail = ''a'', odt_locationName = ''L'', odt_country = ''US'', odt_state = None,
     odt_city = None, odt_phoneNumber = None, odt_baseAgentId = None, odt_dynamicVariables = None, odt_menuUrl = None,
     odt_useAgentPhoneNumber = None\<rparr>"

lemma demoCreate_fails: "\<exists>e. fst (createOrganizationProvisioning demoProvisionEnv demoOrgDto demoAccount) = Inl e"
  by (simp add: createOrganizationProvisioning_def assertOrganizationNameFree_def demoAccount_def demoCompany_def demoOrgDto_def
      prog_step thenM_def bindM_def throw_if_def)

theorem failed_creation_leaves_nothing_witness:
  "sameRows demoAccount (snd (createOrganizationProvisioning demoProvisionEnv demoOrgDto demoAccount))"
proof -
  obtain e s' where run: "createOrganizationProvisioning demoProvisionEnv demoOrgDto demoAccount = (Inl e, s')"
    using demoCreate_fails by (cases "createOrganizationProvisioning demoProvisionEnv demoOrgDto demoAccount") auto
  have "w_queueUp (tn_world demoAccount)" by (simp add: demoAccount_def demoWorld_def)
  from failed_creation_leaves_nothing[OF this] run show ?thesis by simp
qed

theorem retry_step_elsewhere_witness:
  "fst (retryStep ''g'' ''s'' demoSettled) = Inl (BadRequestException ''Location is already active.'') \<and>
   fst (skipStep ''g'' ''s'' demoSettled) = Inl (BadRequestException ''Location is already active.'') \<and>
   tn_steps (snd (retryStep ''g'' ''s'' demoSettled)) = update_where (\<lambda>r. st_id r = ''s'') resetStep (tn_steps demoSettled) \<and>
   tn_jobs (snd (retryStep ''g'' ''s'' demoSettled)) = tn_jobs demoSettled \<and>
   tn_jobs (snd (skipStep ''g'' ''s'' demoSettled)) = tn_jobs demoSettled"
proof (rule retry_step_elsewhere)
  show "orgById ''g'' demoSettled = Some demoCompany"
    by (simp add: orgById_def demoSettled_def demoAccount_def demoCompany_def)
  show "locationsAsked ''g'' None demoSettled = [demoSite]"
    by (simp add: locationsAsked_def demoSettled_def demoSite_def newSite_def)
  show "first_row (\<lambda>r. st_id r = ''s'' \<and> st_organizationId r = ''g'') (tn_steps demoSettled) = Some (newStep ''s'' ''g'' ''l'' ''import_menu'' 1)"
    by (simp add: demoSettled_def newStep_def)
qed (simp_all add: demoSettled_def demoSite_def)

section \<open>Invitations and numbers\<close>

definition demoAccept :: accept_dto where
  "demoAccept = \<lparr>acc_token = ''p'', acc_firstName = ''A'', acc_lastName = ''B'', acc_phoneNumber = ''1''\<rparr>"

definition demoJoined :: tenancy where
  "demoJoined = snd (acceptInvitation demoEnvAuth demoAccept ''secret'' demoAccount)"

lemma demoInvitations_ok: "invitations_ok demoAccount"
  by (simp add: invitations_ok_def demoAccount_def demoInvitation_def)

lemma demoAccept_runs: "\<exists>res. acceptInvitation demoEnvAuth demoAccept ''secret'' demoAccount = (Inr res, demoJoined)"
proof -
  have "\<exists>res s'. acceptInvitation demoEnvAuth demoAccept ''secret'' demoAccount = (Inr res, s')"
    by (simp add: acceptInvitation_def demoAccount_def demoInvitation_def demoAccept_def demoEnvAuth_def worldM_bind create_run
        joinedUser_def demoWorld_def demoDb_def demoUser_def normalizeEmail_def js_trim_def js_space_def js_lower_def js_lower_char_def
        worldM_def updateUserRow_def setInvitation_def auditM_def login_def Let_def insertRefreshToken_def thenM_def bindM_def throw_if_def
        or_null_def signRefresh_def signAccess_def prog_step)
  then show ?thesis unfolding demoJoined_def by auto
qed


theorem settled_invitation_stays_witness:
  "invitations_ok demoJoined \<and> demoInvitation ''r'' ''x'' ''revoked'' \<in> set (tn_invitations demoJoined)"
proof (rule settled_invitation_stays[OF _ demoInvitations_ok])
  show "(invitation_step demoEnvAuth)\<^sup>*\<^sup>* demoAccount demoJoined"
    unfolding demoJoined_def by (intro r_into_rtranclp invitation_step.Accept)
qed (simp_all add: demoAccount_def settledInvitation_def demoInvitation_def)

end
