(* ===== verification/Menu_Tables.thy ===== *)
theory Menu_Tables
  imports Tenancy Cache_Store
begin

text \<open>
  The menu of an organization (\<open>apps/backend/src/menus/menus.service.ts\<close>): its tables with the columns the
  menu editor reads and writes (extending the rows the order services read), the world around them (the
  locations, the page cache, the two job queues), the page that \<open>getMenuByOrg\<close> assembles and caches, and
  the version stamp that invalidates it. A cache key is a value of a datatype rather than the string it is
  printed to. Whether telephony is configured and which job ids the queue accepts are parameters.
\<close>

section \<open>Tables\<close>

record menu_category = category_row +
  mca_name :: string
  mca_locationId :: "uuid option"
  mca_isAvailable :: bool
  mca_sortOrder :: int
  mca_deletedAt :: "int option"
  mca_updatedAt :: int

record menu_item = menu_item_row +
  mit_description :: "string option"
  mit_isFavorite :: bool
  mit_imageUrl :: "string option"
  mit_sortOrder :: int
  mit_availabilitySchedule :: "json option"
  mit_sku :: "string option"
  mit_isCombo :: bool
  mit_lowStockThreshold :: "int option"
  mit_updatedAt :: int

record menu_group = menu_modifier_row +
  mgr_locationId :: "uuid option"
  mgr_updatedAt :: int

record menu_option = menu_item_modifier_row +
  mop_updatedAt :: int

record category_to_modifier_row =
  ctm_categoryId :: uuid
  ctm_modifierId :: uuid

record menu_tables =
  tb_categories :: "menu_category list"
  tb_items :: "menu_item list"
  tb_groups :: "menu_group list"
  tb_options :: "menu_option list"
  tb_itemGroups :: "menu_item_to_modifier_row list"
  tb_categoryGroups :: "category_to_modifier_row list"

text \<open>What the order services see of these tables.\<close>

definition orderTables :: "menu_tables \<Rightarrow> db \<Rightarrow> db" where
  "orderTables t d = d\<lparr>t_menuItems := map menu_item_row.truncate (tb_items t),
     t_categories := map category_row.truncate (tb_categories t),
     t_menuModifiers := map menu_modifier_row.truncate (tb_groups t),
     t_menuItemModifiers := map menu_item_modifier_row.truncate (tb_options t),
     t_menuItemToModifiers := tb_itemGroups t\<rparr>"

section \<open>The page of a menu\<close>

record group_view =
  vg_group :: menu_group
  vg_options :: "menu_option list"

record item_view =
  vi_item :: menu_item
  vi_modifiers :: "group_view list"

record category_view =
  vc_category :: menu_category
  vc_items :: "item_view list"
  vc_modifiers :: "group_view list"

record menu_page =
  pg_data :: "category_view list"
  pg_total :: nat
  pg_hasMore :: bool

text \<open>A row is shown at a location when it has none or that one, and without a location when it has none.\<close>

definition shownAt :: "string option \<Rightarrow> uuid option \<Rightarrow> bool" where
  "shownAt locationId rowLocation \<longleftrightarrow>
     rowLocation = None \<or> truthy locationId \<and> rowLocation = locationId"

definition menuCategories :: "menu_tables \<Rightarrow> uuid \<Rightarrow> bool \<Rightarrow> string option \<Rightarrow> menu_category list" where
  "menuCategories t orgId showDeleted locationId =
     filter (\<lambda>c. cat_organizationId c = orgId \<and> (showDeleted \<or> mca_deletedAt c = None) \<and>
                 shownAt locationId (mca_locationId c)) (tb_categories t)"

definition menuItemsOf :: "menu_tables \<Rightarrow> uuid list \<Rightarrow> bool \<Rightarrow> string option \<Rightarrow> menu_item list" where
  "menuItemsOf t categoryIds showDeleted locationId =
     filter (\<lambda>i. mi_categoryId i \<in> set categoryIds \<and> (showDeleted \<or> mi_deletedAt i = None) \<and>
                 shownAt locationId (mi_locationId i)) (tb_items t)"

definition withOptions :: "menu_option list \<Rightarrow> menu_group \<Rightarrow> group_view" where
  "withOptions options g =
     \<lparr>vg_group = g, vg_options = filter (\<lambda>opt. mim_modifierId opt = mm_id g) options\<rparr>"

definition buildPage :: "menu_tables \<Rightarrow> uuid \<Rightarrow> bool \<Rightarrow> string option \<Rightarrow> nat \<Rightarrow> nat \<Rightarrow> menu_page" where
  "buildPage t orgId showDeleted locationId offset limit =
     (let listed = menuCategories t orgId showDeleted locationId;
          categoriesList = take limit (drop offset (sort_key mca_sortOrder listed));
          total = length listed;
          categoryIds = map cat_id categoriesList
      in if categoryIds = [] then \<lparr>pg_data = [], pg_total = total, pg_hasMore = offset + limit < total\<rparr>
         else
      (let itemsList = menuItemsOf t categoryIds showDeleted locationId;
           itemIds = map mi_id itemsList;
           categoryToModifiers = filter (\<lambda>m. ctm_categoryId m \<in> set categoryIds) (tb_categoryGroups t);
           itemToModifiers = filter (\<lambda>m. mitm_menuItemId m \<in> set itemIds) (tb_itemGroups t);
           modifierIds = js_dedup (map mitm_modifierId itemToModifiers @ map ctm_modifierId categoryToModifiers);
           modifiersList = filter (\<lambda>g. mm_id g \<in> set modifierIds \<and> mm_deletedAt g = None \<and>
                                       shownAt locationId (mgr_locationId g)) (tb_groups t);
           optionsList = filter (\<lambda>opt. mim_modifierId opt \<in> set modifierIds \<and> mim_deletedAt opt = None) (tb_options t);
           modifiersWithOptions = map (withOptions optionsList) modifiersList;
           ofItem = (\<lambda>i. js_dedup (map mitm_modifierId (filter (\<lambda>m. mitm_menuItemId m = mi_id i) itemToModifiers) @
                         map ctm_modifierId (filter (\<lambda>m. ctm_categoryId m = mi_categoryId i) categoryToModifiers)));
           ofCategory = (\<lambda>c. map ctm_modifierId (filter (\<lambda>m. ctm_categoryId m = cat_id c) categoryToModifiers));
           attached = (\<lambda>ids. filter (\<lambda>v. mm_id (vg_group v) \<in> set ids) modifiersWithOptions);
           items = map (\<lambda>i. \<lparr>vi_item = i, vi_modifiers = attached (ofItem i)\<rparr>) itemsList
       in \<lparr>pg_data = map (\<lambda>c. \<lparr>vc_category = c,
              vc_items = filter (\<lambda>v. mi_categoryId (vi_item v) = cat_id c) items,
              vc_modifiers = attached (ofCategory c)\<rparr>) categoriesList,
           pg_total = total, pg_hasMore = offset + limit < total\<rparr>))"

section \<open>The world of a menu\<close>

text \<open>
  \<open>menu:<org>:v<version>:<scope>:<location or all>:<offset>:<limit>\<close> and \<open>menu:<org>:ver\<close>; \<open>all\<close>, which is no
  location's id, is the absent location.
\<close>

datatype menu_key =
    PageKey uuid int bool "uuid option" nat nat
  | VersionKey uuid

datatype menu_value = Page menu_page | Stamp int

text \<open>A location with what the menu services read and write of it.\<close>

record menu_site = site_row +
  mst_menuBucket :: "string option"
  mst_menuImportSource :: "string option"
  mst_menuLastSyncedAt :: "int option"

text \<open>A sync job is keyed by its organization: it waits for its time, runs, or is kept after it failed.\<close>

datatype sync_progress = Delayed int | Running | FailedSync

record sync_job =
  syj_orgId :: uuid
  syj_state :: sync_progress
  syj_attemptsMade :: nat

datatype import_mode = AddNew | Sync | Replace

datatype import_state = ImportWaiting | ImportActive | ImportCompleted nat | ImportFailed

record menu_import =
  imj_id :: string
  imj_orgId :: uuid
  imj_url :: string
  imj_locationId :: "uuid option"
  imj_mode :: import_mode
  imj_state :: import_state
  imj_attemptsMade :: nat
  imj_failedReason :: "string option"
  imj_timestamp :: int
  imj_processedOn :: "int option"
  imj_finishedOn :: "int option"

text \<open>What is asked of the object storage and of the assistants that answer from it.\<close>

datatype publish_request =
    MakeBucket string
  | PutObject string string json
  | Embed string
  | ReadAssistant string
  | LinkBucket string string int
  | MakeAssistant string

record menu_world =
  mn_world :: world
  mn_tables :: menu_tables
  mn_sites :: "menu_site list"
  mn_cache :: "menu_key \<rightharpoonup> menu_value \<times> int"
  mn_syncs :: "sync_job list"
  mn_imports :: "menu_import list"
  mn_importSeq :: nat
  mn_published :: "publish_request list"

type_synonym 'a menu = "(menu_world, 'a) program"

record menu_wiring =
  mk_cache :: cache_wiring
  mk_telephony :: bool
  mk_acceptsJobId :: "string \<Rightarrow> bool"

definition outerM :: "'a handler \<Rightarrow> 'a menu" where
  "outerM m s = (case m (mn_world s) of (r, w) \<Rightarrow> (r, s\<lparr>mn_world := w\<rparr>))"

definition menuNow :: "int menu" where
  "menuNow = getsM (\<lambda>s. w_now (mn_world s))"

definition tablesM :: "(menu_tables \<Rightarrow> 'a) \<Rightarrow> 'a menu" where
  "tablesM f = getsM (\<lambda>s. f (mn_tables s))"

definition changeM :: "(menu_tables \<Rightarrow> menu_tables) \<Rightarrow> unit menu" where
  "changeM f = modifyM (\<lambda>s. s\<lparr>mn_tables := f (mn_tables s)\<rparr>)"

text \<open>\<open>db.transaction\<close>: a thrown error restores every table.\<close>

definition menuTx :: "'a menu \<Rightarrow> 'a menu" where
  "menuTx m s =
     (case m s of
        (Inl e, s') \<Rightarrow> (Inl e, s'\<lparr>mn_world := (mn_world s')\<lparr>w_db := w_db (mn_world s)\<rparr>,
           mn_tables := mn_tables s, mn_sites := mn_sites s\<rparr>)
      | (Inr a, s') \<Rightarrow> (Inr a, s'))"

lemma menu_prog [prog, simp]:
  "menuNow s = (Inr (w_now (mn_world s)), s)" "bindM menuNow f s = f (w_now (mn_world s)) s"
  "tablesM h s = (Inr (h (mn_tables s)), s)" "bindM (tablesM h) f' s = f' (h (mn_tables s)) s"
  "changeM k s = (Inr (), s\<lparr>mn_tables := k (mn_tables s)\<rparr>)"
  "thenM (changeM k) n s = n (s\<lparr>mn_tables := k (mn_tables s)\<rparr>)"
  by (simp_all add: menuNow_def tablesM_def changeM_def)

section \<open>The page cache\<close>

definition cached :: "menu_world \<Rightarrow> menu_key \<Rightarrow> menu_value option" where
  "cached s k = (case mn_cache s k of
     None \<Rightarrow> None
   | Some (v, expires) \<Rightarrow> if w_now (mn_world s) < expires then Some v else None)"

definition menuCacheSet :: "menu_key \<Rightarrow> menu_value \<Rightarrow> int \<Rightarrow> unit menu" where
  "menuCacheSet k v ttl =
     modifyM (\<lambda>s. s\<lparr>mn_cache := (mn_cache s)(k \<mapsto> (v, w_now (mn_world s) + ttl))\<rparr>)"

definition PAGE_TTL :: int where
  "PAGE_TTL = 3600000"

definition VERSION_TTL :: int where
  "VERSION_TTL = 7 * 24 * 3600000"

definition menuVersion :: "menu_world \<Rightarrow> uuid \<Rightarrow> int" where
  "menuVersion s orgId = (case cached s (VersionKey orgId) of Some (Stamp v) \<Rightarrow> v | _ \<Rightarrow> 0)"

definition getMenuCacheVersion :: "uuid \<Rightarrow> int menu" where
  "getMenuCacheVersion orgId = getsM (\<lambda>s. menuVersion s orgId)"

record pagination =
  pn_offset :: "nat option"
  pn_limit :: "nat option"
  pn_showDeleted :: bool

definition pageKey :: "uuid \<Rightarrow> int \<Rightarrow> pagination \<Rightarrow> string option \<Rightarrow> menu_key" where
  "pageKey orgId version pagination locationId =
     PageKey orgId version (pn_showDeleted pagination) (or_null locationId)
       (nvl (pn_offset pagination) 0) (nvl (pn_limit pagination) 20)"

definition pageOf :: "menu_tables \<Rightarrow> uuid \<Rightarrow> pagination \<Rightarrow> string option \<Rightarrow> menu_page" where
  "pageOf t orgId pagination locationId =
     buildPage t orgId (pn_showDeleted pagination) locationId (nvl (pn_offset pagination) 0) (nvl (pn_limit pagination) 20)"

definition getMenuByOrg :: "uuid \<Rightarrow> pagination \<Rightarrow> string option \<Rightarrow> menu_page menu" where
  "getMenuByOrg orgId pagination locationId =
     bindM (getMenuCacheVersion orgId) (\<lambda>version.
       let cacheKey = pageKey orgId version pagination locationId in
     bindM (getsM (\<lambda>s. cached s cacheKey)) (\<lambda>hit. case hit of
       Some (Page page) \<Rightarrow> returnM page
     | _ \<Rightarrow>
         bindM (tablesM (\<lambda>t. pageOf t orgId pagination locationId)) (\<lambda>result.
         thenM (menuCacheSet cacheKey (Page result) PAGE_TTL) (returnM result))))"

definition getMenu :: "menu_wiring \<Rightarrow> principal \<Rightarrow> pagination \<Rightarrow> string option \<Rightarrow> menu_page menu" where
  "getMenu mk user pagination locationId =
     bindM (outerM (getRequiredOrg (mk_cache mk) user)) (\<lambda>orgId. getMenuByOrg orgId pagination locationId)"

section \<open>Invalidation and the sync it schedules\<close>

definition SYNC_DELAY :: int where
  "SYNC_DELAY = 45000"

text \<open>
  A pending or failed job of the organization is removed, a running one cannot be; adding a job under an id
  that is taken does nothing.
\<close>

definition rearmed :: "uuid \<Rightarrow> int \<Rightarrow> sync_job list \<Rightarrow> sync_job list" where
  "rearmed orgId now jobs =
     (let kept = filter (\<lambda>j. \<not> (syj_orgId j = orgId \<and> syj_state j \<noteq> Running)) jobs
      in if list_ex (\<lambda>j. syj_orgId j = orgId) kept then kept
         else kept @ [\<lparr>syj_orgId = orgId, syj_state = Delayed (now + SYNC_DELAY), syj_attemptsMade = 0\<rparr>])"

definition syncJobId :: "uuid \<Rightarrow> string" where
  "syncJobId orgId = ''menu-ai-sync:'' @ orgId"

definition scheduleMenuAiSync :: "menu_wiring \<Rightarrow> uuid \<Rightarrow> unit menu" where
  "scheduleMenuAiSync mk orgId =
     (if \<not> mk_telephony mk then returnM ()
      else
     bindM (getsM (\<lambda>s. w_queueUp (mn_world s))) (\<lambda>up.
     thenM (throw_if (\<not> up) (GenericError ''Connection is closed.''))
       (if \<not> mk_acceptsJobId mk (syncJobId orgId)
        then thenM (modifyM (\<lambda>s. s\<lparr>mn_syncs := filter (\<lambda>j. \<not> (syj_orgId j = orgId \<and> syj_state j \<noteq> Running)) (mn_syncs s)\<rparr>))
               (throwM (GenericError ''Custom Id cannot contain :''))
        else modifyM (\<lambda>s. s\<lparr>mn_syncs := rearmed orgId (w_now (mn_world s)) (mn_syncs s)\<rparr>))))"

definition invalidateMenuCache :: "menu_wiring \<Rightarrow> uuid \<Rightarrow> unit menu" where
  "invalidateMenuCache mk orgId =
     bindM menuNow (\<lambda>now.
     thenM (menuCacheSet (VersionKey orgId) (Stamp now) VERSION_TTL)
       (catchM (scheduleMenuAiSync mk orgId) (\<lambda>_. returnM ())))"

definition clearMenuCache :: "menu_wiring \<Rightarrow> principal \<Rightarrow> unit menu" where
  "clearMenuCache mk user =
     bindM (outerM (getRequiredOrg (mk_cache mk) user)) (\<lambda>orgId. invalidateMenuCache mk orgId)"

end
