(* ===== verification/Menus.thy ===== *)
theory Menus
  imports Menu_Tables
begin

text \<open>
  The menu editor (\<open>apps/backend/src/menus/menus.service.ts\<close>): every operation on categories, items, modifier
  groups, their options and the links between them. An operation resolves the caller's organization, checks
  and writes, records what it did, and invalidates the organization's cached menu; \<open>edited\<close> is that frame.
\<close>

section \<open>Writes and the constraints on them\<close>

text \<open>A field of a partial update: left out, null, or a value.\<close>

datatype 'a patch = Keep | Nullify | Put 'a

primrec nullable :: "'a patch \<Rightarrow> 'a option \<Rightarrow> 'a option" where
  "nullable Keep old = old"
| "nullable Nullify old = None"
| "nullable (Put v) old = Some v"

primrec required :: "'a patch \<Rightarrow> 'a \<Rightarrow> 'a" where
  "required Keep old = old"
| "required Nullify old = old"
| "required (Put v) old = v"

text \<open>A write of null to a column that is not nullable fails.\<close>

definition nulls :: "'a patch \<Rightarrow> bool" where
  "nulls p \<longleftrightarrow> (case p of Nullify \<Rightarrow> True | _ \<Rightarrow> False)"

definition siteExists :: "uuid option \<Rightarrow> menu_world \<Rightarrow> bool" where
  "siteExists locationId s \<longleftrightarrow> (case locationId of None \<Rightarrow> True | Some l \<Rightarrow> list_ex (\<lambda>r. loc_id r = l) (mn_sites s))"

definition atSite :: "uuid option \<Rightarrow> string \<Rightarrow> unit menu" where
  "atSite locationId tbl = bindM (getsM (siteExists locationId)) (\<lambda>ok. throw_if (\<not> ok) (ConstraintViolation tbl))"

definition insertCategory :: "menu_category \<Rightarrow> unit menu" where
  "insertCategory r =
     bindM (tablesM tb_categories) (\<lambda>cs.
     thenM (throw_if (list_ex (\<lambda>c. cat_id c = cat_id r) cs) (UniqueViolation ''categories_pkey''))
    (thenM (atSite (mca_locationId r) ''categories'')
       (changeM (\<lambda>t. t\<lparr>tb_categories := tb_categories t @ [r]\<rparr>))))"

definition categoryExists :: "menu_tables \<Rightarrow> uuid \<Rightarrow> bool" where
  "categoryExists t i \<longleftrightarrow> list_ex (\<lambda>c. cat_id c = i) (tb_categories t)"

definition groupExists :: "menu_tables \<Rightarrow> uuid \<Rightarrow> bool" where
  "groupExists t i \<longleftrightarrow> list_ex (\<lambda>g. mm_id g = i) (tb_groups t)"

definition insertItem :: "menu_item \<Rightarrow> unit menu" where
  "insertItem r =
     bindM (tablesM id) (\<lambda>t.
     thenM (throw_if (list_ex (\<lambda>i. mi_id i = mi_id r) (tb_items t)) (UniqueViolation ''menu_items_pkey''))
    (thenM (throw_if (\<not> categoryExists t (mi_categoryId r)) (ConstraintViolation ''menu_items''))
    (thenM (atSite (mi_locationId r) ''menu_items'')
       (changeM (\<lambda>t. t\<lparr>tb_items := tb_items t @ [r]\<rparr>)))))"

definition insertGroup :: "menu_group \<Rightarrow> unit menu" where
  "insertGroup r =
     bindM (tablesM tb_groups) (\<lambda>gs.
     thenM (throw_if (list_ex (\<lambda>g. mm_id g = mm_id r) gs) (UniqueViolation ''menu_modifiers_pkey''))
    (thenM (atSite (mgr_locationId r) ''menu_modifiers'')
       (changeM (\<lambda>t. t\<lparr>tb_groups := tb_groups t @ [r]\<rparr>))))"

definition insertOption :: "menu_option \<Rightarrow> unit menu" where
  "insertOption r =
     bindM (tablesM id) (\<lambda>t.
     thenM (throw_if (list_ex (\<lambda>x. mim_id x = mim_id r) (tb_options t)) (UniqueViolation ''menu_item_modifiers_pkey''))
    (thenM (throw_if (\<not> groupExists t (mim_modifierId r)) (ConstraintViolation ''menu_item_modifiers''))
       (changeM (\<lambda>t. t\<lparr>tb_options := tb_options t @ [r]\<rparr>))))"

section \<open>Ownership\<close>

definition ownCategory :: "menu_tables \<Rightarrow> uuid \<Rightarrow> uuid \<Rightarrow> menu_category option" where
  "ownCategory t orgId i =
     first_row (\<lambda>c. cat_id c = i \<and> cat_organizationId c = orgId \<and> mca_deletedAt c = None) (tb_categories t)"

definition ownGroup :: "menu_tables \<Rightarrow> uuid \<Rightarrow> uuid \<Rightarrow> menu_group option" where
  "ownGroup t orgId i =
     first_row (\<lambda>g. mm_id g = i \<and> mm_organizationId g = orgId \<and> mm_deletedAt g = None) (tb_groups t)"

text \<open>Items joined with their category, options with their group.\<close>

definition itemsWithOrg :: "menu_tables \<Rightarrow> (menu_item \<times> uuid) list" where
  "itemsWithOrg t = concat (map (\<lambda>i. map (\<lambda>c. (i, cat_organizationId c))
     (filter (\<lambda>c. cat_id c = mi_categoryId i) (tb_categories t))) (tb_items t))"

definition optionsWithOrg :: "menu_tables \<Rightarrow> (menu_option \<times> uuid) list" where
  "optionsWithOrg t = concat (map (\<lambda>x. map (\<lambda>g. (x, mm_organizationId g))
     (filter (\<lambda>g. mm_id g = mim_modifierId x) (tb_groups t))) (tb_options t))"

text \<open>\<open>if (item.length === 0 || item[0].orgId !== orgId) throw\<close>\<close>

definition ownedRow :: "('a \<times> uuid) option \<Rightarrow> uuid \<Rightarrow> string \<Rightarrow> unit menu" where
  "ownedRow row orgId message =
     (case row of None \<Rightarrow> throwM (NotFoundException message)
      | Some (_, g) \<Rightarrow> throw_if (g \<noteq> orgId) (NotFoundException message))"

definition ownLiveItem :: "uuid \<Rightarrow> uuid \<Rightarrow> unit menu" where
  "ownLiveItem orgId i =
     bindM (tablesM (\<lambda>t. first_row (\<lambda>r. mi_id (fst r) = i \<and> mi_deletedAt (fst r) = None) (itemsWithOrg t)))
       (\<lambda>row. ownedRow row orgId ''Menu item not found'')"

section \<open>The frame of an edit\<close>

definition edited :: "menu_wiring \<Rightarrow> principal \<Rightarrow> (uuid \<Rightarrow> 'a menu) \<Rightarrow> 'a menu" where
  "edited mk user body =
     bindM (outerM (getRequiredOrg (mk_cache mk) user)) (\<lambda>orgId.
     bindM (body orgId) (\<lambda>r.
     thenM (invalidateMenuCache mk orgId) (returnM r)))"

definition noteM :: "string \<Rightarrow> principal \<Rightarrow> uuid \<Rightarrow> uuid \<Rightarrow> json \<Rightarrow> unit menu" where
  "noteM action user orgId entityId newValue =
     outerM (emitM (Audit action (Some (pr_id user)) (Some orgId) entityId newValue))"

text \<open>Rows and optional fields as an audit entry holds them.\<close>

definition jsonOr :: "('a \<Rightarrow> json) \<Rightarrow> 'a option \<Rightarrow> json" where
  "jsonOr f x = (case x of None \<Rightarrow> JNull | Some a \<Rightarrow> f a)"

definition givenField :: "string \<Rightarrow> ('a \<Rightarrow> json) \<Rightarrow> 'a option \<Rightarrow> (string \<times> json) list" where
  "givenField k f x = (case x of None \<Rightarrow> [] | Some a \<Rightarrow> [(k, f a)])"

definition categoryJson :: "menu_category \<Rightarrow> json" where
  "categoryJson c = JObj [(''id'', JStr (cat_id c)), (''name'', JStr (mca_name c)),
     (''organizationId'', JStr (cat_organizationId c)), (''locationId'', jsonOr JStr (mca_locationId c)),
     (''isAvailable'', JBool (mca_isAvailable c)), (''sortOrder'', JInt (mca_sortOrder c)),
     (''deletedAt'', jsonOr JInt (mca_deletedAt c)), (''updatedAt'', JInt (mca_updatedAt c))]"

definition itemJson :: "menu_item \<Rightarrow> json" where
  "itemJson i = JObj [(''id'', JStr (mi_id i)), (''name'', JStr (mi_name i)),
     (''description'', jsonOr JStr (mit_description i)), (''price'', JInt (mi_price i)),
     (''categoryId'', JStr (mi_categoryId i)), (''locationId'', jsonOr JStr (mi_locationId i)),
     (''isAvailable'', JBool (mi_isAvailable i)), (''isFavorite'', JBool (mit_isFavorite i)),
     (''imageUrl'', jsonOr JStr (mit_imageUrl i)), (''sortOrder'', JInt (mit_sortOrder i)),
     (''availabilitySchedule'', jsonOr id (mit_availabilitySchedule i)), (''sku'', jsonOr JStr (mit_sku i)),
     (''isCombo'', JBool (mit_isCombo i)), (''taxExempt'', JBool (mi_taxExempt i)),
     (''stockQuantity'', jsonOr JInt (mi_stockQuantity i)), (''lowStockThreshold'', jsonOr JInt (mit_lowStockThreshold i)),
     (''deletedAt'', jsonOr JInt (mi_deletedAt i)), (''updatedAt'', JInt (mit_updatedAt i))]"

definition groupJson :: "menu_group \<Rightarrow> json" where
  "groupJson g = JObj [(''id'', JStr (mm_id g)), (''name'', JStr (mm_name g)),
     (''organizationId'', JStr (mm_organizationId g)), (''locationId'', jsonOr JStr (mgr_locationId g)),
     (''isRequired'', JBool (mm_isRequired g)), (''multiSelect'', JBool (mm_multiSelect g)),
     (''maxSelections'', jsonOr JInt (mm_maxSelections g)), (''deletedAt'', jsonOr JInt (mm_deletedAt g)),
     (''updatedAt'', JInt (mgr_updatedAt g))]"

section \<open>Categories\<close>

definition createCategory :: "menu_wiring \<Rightarrow> principal \<Rightarrow> string \<Rightarrow> string option \<Rightarrow> menu_category menu" where
  "createCategory mk user name locationId = edited mk user (\<lambda>orgId.
     bindM (outerM freshId) (\<lambda>i. bindM menuNow (\<lambda>now.
       let row = \<lparr>cat_id = i, cat_organizationId = orgId, mca_name = name, mca_locationId = or_null locationId,
         mca_isAvailable = True, mca_sortOrder = 0, mca_deletedAt = None, mca_updatedAt = now\<rparr> in
     thenM (insertCategory row)
    (thenM (noteM ''menu.category.create'' user orgId i (JObj [(''name'', JStr name)]))
       (returnM row)))))"

record category_update =
  cu_name :: "string patch"
  cu_isAvailable :: "bool patch"

definition updateCategory :: "menu_wiring \<Rightarrow> principal \<Rightarrow> uuid \<Rightarrow> category_update \<Rightarrow> menu_category menu" where
  "updateCategory mk user i dto = edited mk user (\<lambda>orgId.
     bindM (tablesM (\<lambda>t. ownCategory t orgId i)) (\<lambda>found.
     bindM (orThrow found (NotFoundException ''Category not found.'')) (\<lambda>cat.
     thenM (throw_if (nulls (cu_name dto) \<or> nulls (cu_isAvailable dto)) (ConstraintViolation ''categories''))
    (bindM menuNow (\<lambda>now.
       let change = (\<lambda>c. c\<lparr>mca_name := required (cu_name dto) (mca_name c),
         mca_isAvailable := required (cu_isAvailable dto) (mca_isAvailable c), mca_updatedAt := now\<rparr>) in
     thenM (changeM (\<lambda>t. t\<lparr>tb_categories := update_where (\<lambda>c. cat_id c = i) change (tb_categories t)\<rparr>))
    (thenM (noteM ''menu.category.update'' user orgId i (categoryJson (change cat)))
       (returnM (change cat))))))))"

definition deleteCategory :: "menu_wiring \<Rightarrow> principal \<Rightarrow> uuid \<Rightarrow> unit menu" where
  "deleteCategory mk user i = edited mk user (\<lambda>orgId.
     bindM (tablesM (\<lambda>t. ownCategory t orgId i)) (\<lambda>found.
     bindM (orThrow found (NotFoundException ''Category not found.'')) (\<lambda>_.
     bindM menuNow (\<lambda>now.
     thenM (menuTx
       (thenM (changeM (\<lambda>t. t\<lparr>tb_items := update_where (\<lambda>m. mi_categoryId m = i \<and> mi_deletedAt m = None)
                 (\<lambda>m. m\<lparr>mi_deletedAt := Some now, mit_updatedAt := now\<rparr>) (tb_items t)\<rparr>))
              (changeM (\<lambda>t. t\<lparr>tb_categories := update_where (\<lambda>c. cat_id c = i)
                 (\<lambda>c. c\<lparr>mca_deletedAt := Some now, mca_updatedAt := now\<rparr>) (tb_categories t)\<rparr>))))
       (noteM ''menu.category.delete'' user orgId i JNull)))))"

definition restoreCategory :: "menu_wiring \<Rightarrow> principal \<Rightarrow> uuid \<Rightarrow> menu_category menu" where
  "restoreCategory mk user i = edited mk user (\<lambda>orgId.
     bindM menuNow (\<lambda>now.
       let mine = (\<lambda>c. cat_id c = i \<and> cat_organizationId c = orgId) in
     thenM (changeM (\<lambda>t. t\<lparr>tb_categories := update_where mine
              (\<lambda>c. c\<lparr>mca_deletedAt := None, mca_updatedAt := now\<rparr>) (tb_categories t)\<rparr>))
    (bindM (tablesM (\<lambda>t. first_row mine (tb_categories t))) (\<lambda>restored.
       orThrow restored (NotFoundException ''Category not found'')))))"

definition reorderCategories :: "menu_wiring \<Rightarrow> principal \<Rightarrow> (uuid \<times> int) list \<Rightarrow> unit menu" where
  "reorderCategories mk user orders = edited mk user (\<lambda>orgId.
     bindM menuNow (\<lambda>now.
     menuTx (forM orders (\<lambda>order. changeM (\<lambda>t. t\<lparr>tb_categories :=
       update_where (\<lambda>c. cat_id c = fst order \<and> cat_organizationId c = orgId)
         (\<lambda>c. c\<lparr>mca_sortOrder := snd order, mca_updatedAt := now\<rparr>) (tb_categories t)\<rparr>)))))"

section \<open>Items\<close>

record item_options =
  io_isCombo :: "bool option"
  io_taxExempt :: "bool option"
  io_stockQuantity :: "int option"
  io_lowStockThreshold :: "int option"

definition createMenuItem ::
  "menu_wiring \<Rightarrow> principal \<Rightarrow> uuid \<Rightarrow> string \<Rightarrow> string \<Rightarrow> int \<Rightarrow> string option \<Rightarrow> string option \<Rightarrow> string option \<Rightarrow>
     item_options \<Rightarrow> menu_item menu" where
  "createMenuItem mk user categoryId name description price imageUrl locationId sku options =
     edited mk user (\<lambda>orgId.
     bindM (tablesM (\<lambda>t. ownCategory t orgId categoryId)) (\<lambda>found.
     bindM (orThrow found (NotFoundException ''Category not found.'')) (\<lambda>_.
     bindM (outerM freshId) (\<lambda>i. bindM menuNow (\<lambda>now.
       let row = \<lparr>mi_id = i, mi_name = name, mi_price = price, mi_categoryId = categoryId,
         mi_locationId = or_null locationId, mi_isAvailable = True, mi_taxExempt = nvl (io_taxExempt options) False,
         mi_stockQuantity = io_stockQuantity options, mi_deletedAt = None, mit_description = Some description,
         mit_isFavorite = False, mit_imageUrl = or_null imageUrl, mit_sortOrder = 0, mit_availabilitySchedule = None,
         mit_sku = or_null sku, mit_isCombo = nvl (io_isCombo options) False,
         mit_lowStockThreshold = io_lowStockThreshold options, mit_updatedAt = now\<rparr> in
     thenM (insertItem row)
    (thenM (noteM ''menu.item.create'' user orgId i (JObj ([(''name'', JStr name), (''description'', JStr description),
         (''price'', JInt price), (''categoryId'', JStr categoryId)] @ givenField ''imageUrl'' JStr imageUrl @
         givenField ''sku'' JStr sku @ givenField ''isCombo'' JBool (io_isCombo options) @
         givenField ''taxExempt'' JBool (io_taxExempt options) @ givenField ''stockQuantity'' JInt (io_stockQuantity options) @
         givenField ''lowStockThreshold'' JInt (io_lowStockThreshold options) @ [(''isAvailable'', JBool True)])))
       (returnM row)))))))"

definition deleteMenuItem :: "menu_wiring \<Rightarrow> principal \<Rightarrow> uuid \<Rightarrow> unit menu" where
  "deleteMenuItem mk user i = edited mk user (\<lambda>orgId.
     bindM (tablesM (\<lambda>t. first_row (\<lambda>m. mi_id m = i \<and> mi_deletedAt m = None) (tb_items t))) (\<lambda>found.
     bindM (orThrow found (NotFoundException ''Menu item not found.'')) (\<lambda>item.
     bindM (tablesM (\<lambda>t. ownCategory t orgId (mi_categoryId item))) (\<lambda>cat.
     bindM (orThrow cat (NotFoundException ''Menu item does not belong to your organization.'')) (\<lambda>_.
     bindM menuNow (\<lambda>now.
     thenM (changeM (\<lambda>t. t\<lparr>tb_items := update_where (\<lambda>m. mi_id m = i)
              (\<lambda>m. m\<lparr>mi_deletedAt := Some now, mit_updatedAt := now\<rparr>) (tb_items t)\<rparr>))
       (noteM ''menu.item.delete'' user orgId i JNull)))))))"

record item_update =
  iu_name :: "string patch"
  iu_description :: "string patch"
  iu_price :: "int patch"
  iu_categoryId :: "uuid patch"
  iu_imageUrl :: "string patch"
  iu_isAvailable :: "bool patch"
  iu_isFavorite :: "bool patch"
  iu_sortOrder :: "int patch"
  iu_availabilitySchedule :: "json patch"
  iu_sku :: "string patch"
  iu_isCombo :: "bool patch"
  iu_taxExempt :: "bool patch"
  iu_stockQuantity :: "int patch"
  iu_lowStockThreshold :: "int patch"

definition itemChange :: "item_update \<Rightarrow> int \<Rightarrow> menu_item \<Rightarrow> menu_item" where
  "itemChange dto now m = m\<lparr>mi_name := required (iu_name dto) (mi_name m),
     mit_description := nullable (iu_description dto) (mit_description m),
     mi_price := required (iu_price dto) (mi_price m),
     mi_categoryId := required (iu_categoryId dto) (mi_categoryId m),
     mit_imageUrl := nullable (iu_imageUrl dto) (mit_imageUrl m),
     mi_isAvailable := required (iu_isAvailable dto) (mi_isAvailable m),
     mit_isFavorite := required (iu_isFavorite dto) (mit_isFavorite m),
     mit_sortOrder := required (iu_sortOrder dto) (mit_sortOrder m),
     mit_availabilitySchedule := nullable (iu_availabilitySchedule dto) (mit_availabilitySchedule m),
     mit_sku := nullable (iu_sku dto) (mit_sku m),
     mit_isCombo := required (iu_isCombo dto) (mit_isCombo m),
     mi_taxExempt := required (iu_taxExempt dto) (mi_taxExempt m),
     mi_stockQuantity := nullable (iu_stockQuantity dto) (mi_stockQuantity m),
     mit_lowStockThreshold := nullable (iu_lowStockThreshold dto) (mit_lowStockThreshold m),
     mit_updatedAt := now\<rparr>"

definition nullsRequired :: "item_update \<Rightarrow> bool" where
  "nullsRequired dto \<longleftrightarrow> nulls (iu_name dto) \<or> nulls (iu_price dto) \<or> nulls (iu_categoryId dto) \<or>
     nulls (iu_isAvailable dto) \<or> nulls (iu_isFavorite dto) \<or> nulls (iu_sortOrder dto) \<or> nulls (iu_isCombo dto) \<or>
     nulls (iu_taxExempt dto)"

text \<open>The category a partial update names has to exist; whose it is, nobody asks.\<close>

definition categoryMissing :: "menu_tables \<Rightarrow> item_update \<Rightarrow> bool" where
  "categoryMissing t dto \<longleftrightarrow> (case iu_categoryId dto of Put c \<Rightarrow> \<not> categoryExists t c | _ \<Rightarrow> False)"

definition updateMenuItem :: "menu_wiring \<Rightarrow> principal \<Rightarrow> uuid \<Rightarrow> item_update \<Rightarrow> menu_item menu" where
  "updateMenuItem mk user i dto = edited mk user (\<lambda>orgId.
     thenM (ownLiveItem orgId i)
    (bindM (tablesM (\<lambda>t. nullsRequired dto \<or> categoryMissing t dto)) (\<lambda>bad.
     thenM (throw_if bad (ConstraintViolation ''menu_items''))
    (bindM menuNow (\<lambda>now.
     thenM (changeM (\<lambda>t. t\<lparr>tb_items := update_where (\<lambda>m. mi_id m = i) (itemChange dto now) (tb_items t)\<rparr>))
    (bindM (tablesM (\<lambda>t. first_row (\<lambda>m. mi_id m = i) (tb_items t))) (\<lambda>row.
     bindM (orThrow row undefinedRead) (\<lambda>updated.
     thenM (noteM ''menu.item.update'' user orgId i (itemJson updated))
       (returnM updated)))))))))"

definition restoreMenuItem :: "menu_wiring \<Rightarrow> principal \<Rightarrow> uuid \<Rightarrow> menu_item menu" where
  "restoreMenuItem mk user i = edited mk user (\<lambda>orgId.
     bindM (tablesM (\<lambda>t. first_row (\<lambda>r. mi_id (fst r) = i) (itemsWithOrg t))) (\<lambda>found.
     thenM (ownedRow found orgId ''Menu item not found'')
    (bindM menuNow (\<lambda>now.
     thenM (changeM (\<lambda>t. t\<lparr>tb_items := update_where (\<lambda>m. mi_id m = i)
              (\<lambda>m. m\<lparr>mi_deletedAt := None, mit_updatedAt := now\<rparr>) (tb_items t)\<rparr>))
    (bindM (tablesM (\<lambda>t. first_row (\<lambda>m. mi_id m = i) (tb_items t))) (\<lambda>row.
       orThrow row undefinedRead))))))"

definition reorderMenuItems :: "menu_wiring \<Rightarrow> principal \<Rightarrow> (uuid \<times> int) list \<Rightarrow> unit menu" where
  "reorderMenuItems mk user orders =
     (if orders = [] then thenM (outerM (getRequiredOrg (mk_cache mk) user)) (returnM ())
      else edited mk user (\<lambda>orgId.
     bindM (tablesM (\<lambda>t. filter (\<lambda>r. mi_id (fst r) \<in> set (map fst orders) \<and> snd r = orgId) (itemsWithOrg t))) (\<lambda>ownedItems.
     thenM (throw_if (length ownedItems \<noteq> length orders)
              (NotFoundException ''One or more menu items were not found in your organization.''))
    (bindM menuNow (\<lambda>now.
     menuTx (forM orders (\<lambda>order. changeM (\<lambda>t. t\<lparr>tb_items :=
       update_where (\<lambda>m. mi_id m = fst order) (\<lambda>m. m\<lparr>mit_sortOrder := snd order, mit_updatedAt := now\<rparr>) (tb_items t)\<rparr>)))))))) "

section \<open>Modifier groups and their options\<close>

definition createModifierGroup ::
  "menu_wiring \<Rightarrow> principal \<Rightarrow> string \<Rightarrow> string option \<Rightarrow> bool \<Rightarrow> bool \<Rightarrow> int option \<Rightarrow> menu_group menu" where
  "createModifierGroup mk user name locationId isRequired multiSelect maxSelections = edited mk user (\<lambda>orgId.
     bindM (outerM freshId) (\<lambda>i. bindM menuNow (\<lambda>now.
       let row = \<lparr>mm_id = i, mm_name = name, mm_organizationId = orgId, mm_isRequired = isRequired,
         mm_multiSelect = multiSelect, mm_maxSelections = maxSelections, mm_deletedAt = None,
         mgr_locationId = or_null locationId, mgr_updatedAt = now\<rparr> in
     thenM (insertGroup row)
    (thenM (noteM ''menu.modifier_group.create'' user orgId i (groupJson row))
       (returnM row)))))"

definition createModifierOption :: "menu_wiring \<Rightarrow> principal \<Rightarrow> uuid \<Rightarrow> string \<Rightarrow> int \<Rightarrow> menu_option menu" where
  "createModifierOption mk user modifierId name priceAdjustment = edited mk user (\<lambda>orgId.
     bindM (tablesM (\<lambda>t. ownGroup t orgId modifierId)) (\<lambda>found.
     bindM (orThrow found (NotFoundException ''Modifier group not found'')) (\<lambda>_.
     bindM (outerM freshId) (\<lambda>i. bindM menuNow (\<lambda>now.
       let row = \<lparr>mim_id = i, mim_modifierId = modifierId, mim_name = name, mim_priceAdjustment = priceAdjustment,
         mim_deletedAt = None, mop_updatedAt = now\<rparr> in
     thenM (insertOption row) (returnM row))))))"

definition getModifierGroups :: "menu_wiring \<Rightarrow> principal \<Rightarrow> string option \<Rightarrow> group_view list menu" where
  "getModifierGroups mk user locationId =
     bindM (outerM (getRequiredOrg (mk_cache mk) user)) (\<lambda>orgId.
     bindM (tablesM id) (\<lambda>t.
       let groups = filter (\<lambda>g. mm_organizationId g = orgId \<and> mm_deletedAt g = None \<and>
             shownAt locationId (mgr_locationId g)) (tb_groups t);
           options = filter (\<lambda>x. mim_modifierId x \<in> set (map mm_id groups) \<and> mim_deletedAt x = None) (tb_options t)
       in returnM (map (withOptions options) groups)))"

definition deleteModifierGroup :: "menu_wiring \<Rightarrow> principal \<Rightarrow> uuid \<Rightarrow> unit menu" where
  "deleteModifierGroup mk user i = edited mk user (\<lambda>orgId.
     bindM menuNow (\<lambda>now.
       let mine = (\<lambda>g. mm_id g = i \<and> mm_organizationId g = orgId) in
     thenM (changeM (\<lambda>t. t\<lparr>tb_groups := update_where mine
              (\<lambda>g. g\<lparr>mm_deletedAt := Some now, mgr_updatedAt := now\<rparr>) (tb_groups t)\<rparr>))
    (bindM (tablesM (\<lambda>t. first_row mine (tb_groups t))) (\<lambda>deleted.
     thenM (throw_if (deleted = None) (NotFoundException ''Modifier group not found'')) (returnM ())))))"

definition deleteModifierOption :: "menu_wiring \<Rightarrow> principal \<Rightarrow> uuid \<Rightarrow> unit menu" where
  "deleteModifierOption mk user i = edited mk user (\<lambda>orgId.
     bindM (tablesM (\<lambda>t. first_row (\<lambda>r. mim_id (fst r) = i \<and> mim_deletedAt (fst r) = None) (optionsWithOrg t))) (\<lambda>found.
     thenM (ownedRow found orgId ''Option not found'')
    (bindM menuNow (\<lambda>now.
       changeM (\<lambda>t. t\<lparr>tb_options := update_where (\<lambda>x. mim_id x = i)
              (\<lambda>x. x\<lparr>mim_deletedAt := Some now, mop_updatedAt := now\<rparr>) (tb_options t)\<rparr>)))))"

section \<open>Links\<close>

definition assignModifierToItem :: "menu_wiring \<Rightarrow> principal \<Rightarrow> uuid \<Rightarrow> uuid \<Rightarrow> unit menu" where
  "assignModifierToItem mk user menuItemId modifierId = edited mk user (\<lambda>orgId.
     thenM (ownLiveItem orgId menuItemId)
    (bindM (tablesM (\<lambda>t. ownGroup t orgId modifierId)) (\<lambda>found.
     bindM (orThrow found (NotFoundException ''Modifier group not found'')) (\<lambda>_.
       let link = \<lparr>mitm_menuItemId = menuItemId, mitm_modifierId = modifierId\<rparr> in
     bindM (tablesM (\<lambda>t. link \<in> set (tb_itemGroups t))) (\<lambda>taken.
     thenM (throw_if taken (UniqueViolation ''menu_item_to_modifiers_menu_item_id_modifier_id_pk''))
       (changeM (\<lambda>t. t\<lparr>tb_itemGroups := tb_itemGroups t @ [link]\<rparr>)))))))"

definition removeModifierFromItem :: "menu_wiring \<Rightarrow> principal \<Rightarrow> uuid \<Rightarrow> uuid \<Rightarrow> unit menu" where
  "removeModifierFromItem mk user menuItemId modifierId = edited mk user (\<lambda>orgId.
     thenM (ownLiveItem orgId menuItemId)
       (changeM (\<lambda>t. t\<lparr>tb_itemGroups := filter (\<lambda>l. \<not> (mitm_menuItemId l = menuItemId \<and> mitm_modifierId l = modifierId))
          (tb_itemGroups t)\<rparr>)))"

definition assignModifierToCategory :: "menu_wiring \<Rightarrow> principal \<Rightarrow> uuid \<Rightarrow> uuid \<Rightarrow> unit menu" where
  "assignModifierToCategory mk user categoryId modifierId = edited mk user (\<lambda>orgId.
     bindM (tablesM (\<lambda>t. ownCategory t orgId categoryId)) (\<lambda>cat.
     bindM (orThrow cat (NotFoundException ''Category not found'')) (\<lambda>_.
     bindM (tablesM (\<lambda>t. ownGroup t orgId modifierId)) (\<lambda>found.
     bindM (orThrow found (NotFoundException ''Modifier group not found'')) (\<lambda>_.
       let link = \<lparr>ctm_categoryId = categoryId, ctm_modifierId = modifierId\<rparr> in
       changeM (\<lambda>t. if link \<in> set (tb_categoryGroups t) then t
                else t\<lparr>tb_categoryGroups := tb_categoryGroups t @ [link]\<rparr>))))))"

definition removeModifierFromCategory :: "menu_wiring \<Rightarrow> principal \<Rightarrow> uuid \<Rightarrow> uuid \<Rightarrow> unit menu" where
  "removeModifierFromCategory mk user categoryId modifierId = edited mk user (\<lambda>orgId.
     bindM (tablesM (\<lambda>t. first_row (\<lambda>c. cat_id c = categoryId \<and> cat_organizationId c = orgId) (tb_categories t))) (\<lambda>cat.
     bindM (orThrow cat (NotFoundException ''Category not found'')) (\<lambda>_.
       changeM (\<lambda>t. t\<lparr>tb_categoryGroups := filter (\<lambda>l. \<not> (ctm_categoryId l = categoryId \<and> ctm_modifierId l = modifierId))
          (tb_categoryGroups t)\<rparr>))))"

end
