(* ===== verification/Menu_Tenants.thy ===== *)
theory Menu_Tenants
  imports Menus
begin

text \<open>
  Whose row is whose: an item belongs to the organization of its category, an option to that of its group, a
  link to that of its item or category. Shown here, one write at a time and then one operation at a time: what
  the editor does for one organization leaves the rows of every other as they are, so a page built for another
  organization is the same before and after.
\<close>

section \<open>Owners\<close>

definition orgOfCategory :: "menu_tables \<Rightarrow> uuid \<Rightarrow> uuid option" where
  "orgOfCategory t c = map_option cat_organizationId (first_row (\<lambda>r. cat_id r = c) (tb_categories t))"

definition orgOfItem :: "menu_tables \<Rightarrow> uuid \<Rightarrow> uuid option" where
  "orgOfItem t i = Option.bind (first_row (\<lambda>r. mi_id r = i) (tb_items t)) (\<lambda>r. orgOfCategory t (mi_categoryId r))"

definition orgOfGroup :: "menu_tables \<Rightarrow> uuid \<Rightarrow> uuid option" where
  "orgOfGroup t m = map_option mm_organizationId (first_row (\<lambda>r. mm_id r = m) (tb_groups t))"

text \<open>Primary and foreign keys hold, and a group is only linked within its organization.\<close>

definition wellLinked :: "menu_tables \<Rightarrow> bool" where
  "wellLinked t \<longleftrightarrow>
     distinct (map cat_id (tb_categories t)) \<and> distinct (map mi_id (tb_items t)) \<and> distinct (map mm_id (tb_groups t)) \<and>
     distinct (map mim_id (tb_options t)) \<and>
     (\<forall>i \<in> set (tb_items t). orgOfCategory t (mi_categoryId i) \<noteq> None) \<and>
     (\<forall>x \<in> set (tb_options t). orgOfGroup t (mim_modifierId x) \<noteq> None) \<and>
     (\<forall>l \<in> set (tb_itemGroups t). orgOfItem t (mitm_menuItemId l) \<noteq> None \<and>
        orgOfGroup t (mitm_modifierId l) = orgOfItem t (mitm_menuItemId l)) \<and>
     (\<forall>l \<in> set (tb_categoryGroups t). orgOfCategory t (ctm_categoryId l) \<noteq> None \<and>
        orgOfGroup t (ctm_modifierId l) = orgOfCategory t (ctm_categoryId l))"

text \<open>The rows of one organization.\<close>

definition menuRows :: "uuid \<Rightarrow> menu_tables \<Rightarrow> menu_tables" where
  "menuRows h t =
     \<lparr>tb_categories = filter (\<lambda>c. cat_organizationId c = h) (tb_categories t),
      tb_items = filter (\<lambda>i. orgOfCategory t (mi_categoryId i) = Some h) (tb_items t),
      tb_groups = filter (\<lambda>g. mm_organizationId g = h) (tb_groups t),
      tb_options = filter (\<lambda>x. orgOfGroup t (mim_modifierId x) = Some h) (tb_options t),
      tb_itemGroups = filter (\<lambda>l. orgOfItem t (mitm_menuItemId l) = Some h) (tb_itemGroups t),
      tb_categoryGroups = filter (\<lambda>l. orgOfCategory t (ctm_categoryId l) = Some h) (tb_categoryGroups t)\<rparr>"

lemma first_row_keyed:
  assumes "distinct (map k xs)" and "x \<in> set xs"
  shows "first_row (\<lambda>r. k r = k x) xs = Some x"
  using assms by (induction xs) (auto simp: image_iff)

lemma orgOfCategory_row:
  "wellLinked t \<Longrightarrow> c \<in> set (tb_categories t) \<Longrightarrow> orgOfCategory t (cat_id c) = Some (cat_organizationId c)"
  by (simp add: orgOfCategory_def wellLinked_def first_row_keyed)

lemma orgOfGroup_row:
  "wellLinked t \<Longrightarrow> g \<in> set (tb_groups t) \<Longrightarrow> orgOfGroup t (mm_id g) = Some (mm_organizationId g)"
  by (simp add: orgOfGroup_def wellLinked_def first_row_keyed)

lemma orgOfItem_row:
  "wellLinked t \<Longrightarrow> i \<in> set (tb_items t) \<Longrightarrow> orgOfItem t (mi_id i) = orgOfCategory t (mi_categoryId i)"
  by (simp add: orgOfItem_def wellLinked_def first_row_keyed)

lemma first_row_none: "(\<And>x. x \<in> set xs \<Longrightarrow> \<not> P x) \<Longrightarrow> first_row P xs = None"
  by (induction xs) auto

section \<open>A page reads the rows of its organization\<close>

lemma menuCategories_own: "menuCategories (menuRows h t) h sd l = menuCategories t h sd l"
  unfolding menuCategories_def menuRows_def by (auto intro!: filter_cong)

lemma menuItems_own:
  assumes "wellLinked t" and "\<And>c. c \<in> set cs \<Longrightarrow> orgOfCategory t c = Some h"
  shows "menuItemsOf (menuRows h t) cs sd l = menuItemsOf t cs sd l"
  unfolding menuItemsOf_def menuRows_def using assms(2) by (auto intro!: filter_cong)

lemma buildPage_own:
  assumes wl: "wellLinked t"
  shows "buildPage (menuRows h t) h sd l off n = buildPage t h sd l off n"
proof -
  define cats where "cats = take n (drop off (sort_key mca_sortOrder (menuCategories t h sd l)))"
  have cat: "orgOfCategory t c = Some h" if mem: "c \<in> set (map cat_id cats)" for c
  proof -
    obtain r where "r \<in> set cats" and c: "c = cat_id r" using mem by auto
    then have r: "r \<in> set (menuCategories t h sd l)"
      unfolding cats_def using in_set_takeD in_set_dropD by fastforce
    then have "r \<in> set (tb_categories t)" "cat_organizationId r = h" by (simp_all add: menuCategories_def)
    with orgOfCategory_row[OF wl] c show ?thesis by auto
  qed
  define items where "items = menuItemsOf t (map cat_id cats) sd l"
  have items_own: "menuItemsOf (menuRows h t) (map cat_id cats) sd l = items"
    unfolding items_def by (rule menuItems_own[OF wl cat])
  have item: "orgOfItem t i = Some h" if mem: "i \<in> set (map mi_id items)" for i
  proof -
    obtain r where r: "r \<in> set (tb_items t)" "mi_categoryId r \<in> set (map cat_id cats)" "i = mi_id r"
      using mem unfolding items_def by (auto simp: menuItemsOf_def)
    then show ?thesis using orgOfItem_row[OF wl] cat by simp
  qed
  define catLinks where "catLinks = filter (\<lambda>m. ctm_categoryId m \<in> set (map cat_id cats)) (tb_categoryGroups t)"
  have catLinks_own: "filter (\<lambda>m. ctm_categoryId m \<in> set (map cat_id cats)) (tb_categoryGroups (menuRows h t)) = catLinks"
    unfolding catLinks_def menuRows_def using cat by (auto intro!: filter_cong)
  define itemLinks where "itemLinks = filter (\<lambda>m. mitm_menuItemId m \<in> set (map mi_id items)) (tb_itemGroups t)"
  have itemLinks_own: "filter (\<lambda>m. mitm_menuItemId m \<in> set (map mi_id items)) (tb_itemGroups (menuRows h t)) = itemLinks"
    unfolding itemLinks_def menuRows_def using item by (auto intro!: filter_cong)
  define mods where "mods = js_dedup (map mitm_modifierId itemLinks @ map ctm_modifierId catLinks)"
  have mod: "orgOfGroup t m = Some h" if mem: "m \<in> set mods" for m
  proof -
    consider (i) r where "r \<in> set (tb_itemGroups t)" "mitm_menuItemId r \<in> set (map mi_id items)" "m = mitm_modifierId r"
      | (c) r where "r \<in> set (tb_categoryGroups t)" "ctm_categoryId r \<in> set (map cat_id cats)" "m = ctm_modifierId r"
      using mem unfolding mods_def itemLinks_def catLinks_def by auto
    then show ?thesis
      using wl item cat unfolding wellLinked_def by cases metis+
  qed
  have own: "mm_organizationId x = h" if "x \<in> set (tb_groups t)" "mm_id x \<in> set mods" for x
    using orgOfGroup_row[OF wl that(1)] mod[OF that(2)] by simp
  have groups_own: "filter (\<lambda>g. mm_id g \<in> set mods \<and> mm_deletedAt g = None \<and> shownAt l (mgr_locationId g)) (tb_groups (menuRows h t)) =
      filter (\<lambda>g. mm_id g \<in> set mods \<and> mm_deletedAt g = None \<and> shownAt l (mgr_locationId g)) (tb_groups t)"
    unfolding menuRows_def using own by (auto intro!: filter_cong)
  have options_own: "filter (\<lambda>x. mim_modifierId x \<in> set mods \<and> mim_deletedAt x = None) (tb_options (menuRows h t)) =
      filter (\<lambda>x. mim_modifierId x \<in> set mods \<and> mim_deletedAt x = None) (tb_options t)"
    unfolding menuRows_def using mod by (auto intro!: filter_cong)
  show ?thesis
    unfolding buildPage_def Let_def menuCategories_own cats_def[symmetric] items_own items_def[symmetric]
      catLinks_own catLinks_def[symmetric] itemLinks_own itemLinks_def[symmetric] mods_def[symmetric]
      groups_own options_own ..
qed

lemma pageOf_own: "wellLinked t \<Longrightarrow> pageOf (menuRows h t) h p l = pageOf t h p l"
  by (simp add: pageOf_def buildPage_own)

section \<open>One write at a time\<close>

text \<open>From \<open>t\<close> to \<open>t'\<close> only rows of \<open>g\<close> change.\<close>

definition staysWithin :: "uuid \<Rightarrow> menu_tables \<Rightarrow> menu_tables \<Rightarrow> bool" where
  "staysWithin g t t' \<longleftrightarrow> (wellLinked t \<longrightarrow> wellLinked t' \<and> (\<forall>h. h \<noteq> g \<longrightarrow> menuRows h t' = menuRows h t))"

lemma staysWithin_refl [simp, intro]: "staysWithin g t t"
  by (simp add: staysWithin_def)

lemma staysWithin_trans: "staysWithin g t t1 \<Longrightarrow> staysWithin g t1 t2 \<Longrightarrow> staysWithin g t t2"
  by (simp add: staysWithin_def)

lemma filter_update_elsewhere:
  "(\<And>x. x \<in> set xs \<Longrightarrow> P x \<Longrightarrow> \<not> Q x \<and> \<not> Q (f x)) \<Longrightarrow> filter Q (update_where P f xs) = filter Q xs"
  by (induction xs) auto

lemma distinct_update_where:
  "(\<And>x. k (f x) = k x) \<Longrightarrow> distinct (map k (update_where P f xs)) = distinct (map k xs)"
  by (simp add: map_update_where)

lemma orgOf_congs [simp]:
  "orgOfCategory (t\<lparr>tb_items := a\<rparr>) c = orgOfCategory t c" "orgOfCategory (t\<lparr>tb_groups := b\<rparr>) c = orgOfCategory t c"
  "orgOfCategory (t\<lparr>tb_options := d\<rparr>) c = orgOfCategory t c" "orgOfCategory (t\<lparr>tb_itemGroups := e\<rparr>) c = orgOfCategory t c"
  "orgOfCategory (t\<lparr>tb_categoryGroups := f\<rparr>) c = orgOfCategory t c"
  "orgOfGroup (t\<lparr>tb_items := a\<rparr>) m = orgOfGroup t m" "orgOfGroup (t\<lparr>tb_categories := j\<rparr>) m = orgOfGroup t m"
  "orgOfGroup (t\<lparr>tb_options := d\<rparr>) m = orgOfGroup t m" "orgOfGroup (t\<lparr>tb_itemGroups := e\<rparr>) m = orgOfGroup t m"
  "orgOfGroup (t\<lparr>tb_categoryGroups := f\<rparr>) m = orgOfGroup t m"
  "orgOfItem (t\<lparr>tb_groups := b\<rparr>) i = orgOfItem t i" "orgOfItem (t\<lparr>tb_options := d\<rparr>) i = orgOfItem t i"
  "orgOfItem (t\<lparr>tb_itemGroups := e\<rparr>) i = orgOfItem t i" "orgOfItem (t\<lparr>tb_categoryGroups := f\<rparr>) i = orgOfItem t i"
  by (simp_all add: orgOfCategory_def orgOfGroup_def orgOfItem_def)

text \<open>Owners that agree make the tables agree.\<close>

lemma staysWithinI:
  assumes cat: "\<And>c. orgOfCategory t' c = orgOfCategory t c" and item: "\<And>i. orgOfItem t' i = orgOfItem t i"
    and grp: "\<And>m. orgOfGroup t' m = orgOfGroup t m"
    and keys: "wellLinked t \<Longrightarrow> distinct (map cat_id (tb_categories t')) \<and> distinct (map mi_id (tb_items t')) \<and>
      distinct (map mm_id (tb_groups t')) \<and> distinct (map mim_id (tb_options t'))"
    and links: "wellLinked t \<Longrightarrow> (\<forall>i \<in> set (tb_items t'). orgOfCategory t (mi_categoryId i) \<noteq> None) \<and>
     (\<forall>x \<in> set (tb_options t'). orgOfGroup t (mim_modifierId x) \<noteq> None) \<and>
     (\<forall>l \<in> set (tb_itemGroups t'). orgOfItem t (mitm_menuItemId l) \<noteq> None \<and>
        orgOfGroup t (mitm_modifierId l) = orgOfItem t (mitm_menuItemId l)) \<and>
     (\<forall>l \<in> set (tb_categoryGroups t'). orgOfCategory t (ctm_categoryId l) \<noteq> None \<and>
        orgOfGroup t (ctm_modifierId l) = orgOfCategory t (ctm_categoryId l))"
    and same: "\<And>h. wellLinked t \<Longrightarrow> h \<noteq> g \<Longrightarrow>
      filter (\<lambda>c. cat_organizationId c = h) (tb_categories t') = filter (\<lambda>c. cat_organizationId c = h) (tb_categories t) \<and>
      filter (\<lambda>i. orgOfCategory t (mi_categoryId i) = Some h) (tb_items t') = filter (\<lambda>i. orgOfCategory t (mi_categoryId i) = Some h) (tb_items t) \<and>
      filter (\<lambda>c. mm_organizationId c = h) (tb_groups t') = filter (\<lambda>c. mm_organizationId c = h) (tb_groups t) \<and>
      filter (\<lambda>x. orgOfGroup t (mim_modifierId x) = Some h) (tb_options t') = filter (\<lambda>x. orgOfGroup t (mim_modifierId x) = Some h) (tb_options t) \<and>
      filter (\<lambda>l. orgOfItem t (mitm_menuItemId l) = Some h) (tb_itemGroups t') = filter (\<lambda>l. orgOfItem t (mitm_menuItemId l) = Some h) (tb_itemGroups t) \<and>
      filter (\<lambda>l. orgOfCategory t (ctm_categoryId l) = Some h) (tb_categoryGroups t') = filter (\<lambda>l. orgOfCategory t (ctm_categoryId l) = Some h) (tb_categoryGroups t)"
  shows "staysWithin g t t'"
  unfolding staysWithin_def
proof (intro impI conjI allI)
  assume wl: "wellLinked t"
  show "wellLinked t'" using keys[OF wl] links[OF wl] by (simp add: wellLinked_def cat item grp)
  show "menuRows h t' = menuRows h t" if "h \<noteq> g" for h
    using same[OF wl that] by (simp add: menuRows_def cat item grp)
qed

lemma map_option_first_update:
  "(\<And>x. Q (f x) = Q x) \<Longrightarrow> (\<And>x. v (f x) = v x) \<Longrightarrow>
   map_option v (first_row Q (update_where P f xs)) = map_option v (first_row Q xs)"
  by (induction xs) auto

lemma staysWithin_categories:
  assumes "wellLinked t \<Longrightarrow> \<forall>c \<in> set (tb_categories t). P c \<longrightarrow> cat_organizationId c = g"
    and f: "\<And>c. cat_id (f c) = cat_id c" "\<And>c. cat_organizationId (f c) = cat_organizationId c"
  shows "staysWithin g t (t\<lparr>tb_categories := update_where P f (tb_categories t)\<rparr>)"
proof (rule staysWithinI)
  show cat: "orgOfCategory (t\<lparr>tb_categories := update_where P f (tb_categories t)\<rparr>) c = orgOfCategory t c" for c
    by (simp add: orgOfCategory_def map_option_first_update f)
  show "orgOfItem (t\<lparr>tb_categories := update_where P f (tb_categories t)\<rparr>) i = orgOfItem t i" for i
    by (simp add: orgOfItem_def cat)
qed (use assms in \<open>auto simp: wellLinked_def distinct_update_where intro!: filter_update_elsewhere\<close>)

lemma staysWithin_groups:
  assumes "wellLinked t \<Longrightarrow> \<forall>c \<in> set (tb_groups t). P c \<longrightarrow> mm_organizationId c = g"
    and f: "\<And>c. mm_id (f c) = mm_id c" "\<And>c. mm_organizationId (f c) = mm_organizationId c"
  shows "staysWithin g t (t\<lparr>tb_groups := update_where P f (tb_groups t)\<rparr>)"
proof (rule staysWithinI)
  show "orgOfGroup (t\<lparr>tb_groups := update_where P f (tb_groups t)\<rparr>) c = orgOfGroup t c" for c
    by (simp add: orgOfGroup_def map_option_first_update f)
qed (use assms in \<open>auto simp: wellLinked_def distinct_update_where intro!: filter_update_elsewhere\<close>)

lemma staysWithin_options:
  assumes "wellLinked t \<Longrightarrow> \<forall>x \<in> set (tb_options t). P x \<longrightarrow> orgOfGroup t (mim_modifierId x) = Some g"
    and f: "\<And>x. mim_modifierId (f x) = mim_modifierId x" "\<And>x. mim_id (f x) = mim_id x"
  shows "staysWithin g t (t\<lparr>tb_options := update_where P f (tb_options t)\<rparr>)"
  by (rule staysWithinI) (use assms in \<open>auto simp: wellLinked_def set_update_where distinct_update_where intro!: filter_update_elsewhere split: if_splits\<close>)

lemma staysWithin_items:
  assumes own: "wellLinked t \<Longrightarrow> \<forall>i \<in> set (tb_items t). P i \<longrightarrow>
      orgOfCategory t (mi_categoryId i) = Some g \<and> orgOfCategory t (mi_categoryId (f i)) = Some g"
    and f: "\<And>i. mi_id (f i) = mi_id i"
  shows "staysWithin g t (t\<lparr>tb_items := update_where P f (tb_items t)\<rparr>)"
  unfolding staysWithin_def
proof (intro impI conjI allI)
  let ?t = "t\<lparr>tb_items := update_where P f (tb_items t)\<rparr>"
  assume wl: "wellLinked t"
  have item: "orgOfItem ?t i = orgOfItem t i" for i
  proof -
    have "Option.bind (first_row (\<lambda>r. mi_id r = i) (update_where P f xs)) (\<lambda>r. orgOfCategory t (mi_categoryId r)) =
        Option.bind (first_row (\<lambda>r. mi_id r = i) xs) (\<lambda>r. orgOfCategory t (mi_categoryId r))"
      if "set xs \<subseteq> set (tb_items t)" for xs
      using that own[OF wl] by (induction xs) (auto simp: f)
    then show ?thesis by (simp add: orgOfItem_def)
  qed
  show "wellLinked ?t"
    using wl own[OF wl] unfolding wellLinked_def item by (auto simp: distinct_update_where f set_update_where split: if_splits)
  show "menuRows h ?t = menuRows h t" if "h \<noteq> g" for h
    using that own[OF wl] by (auto simp: menuRows_def item intro!: filter_update_elsewhere)
qed

lemma staysWithin_itemGroups:
  assumes "wellLinked t \<Longrightarrow> \<forall>l \<in> set ls. l \<in> set (tb_itemGroups t) \<or>
      orgOfItem t (mitm_menuItemId l) = Some g \<and> orgOfGroup t (mitm_modifierId l) = Some g"
    and "\<And>h. wellLinked t \<Longrightarrow> h \<noteq> g \<Longrightarrow> filter (\<lambda>l. orgOfItem t (mitm_menuItemId l) = Some h) ls =
      filter (\<lambda>l. orgOfItem t (mitm_menuItemId l) = Some h) (tb_itemGroups t)"
  shows "staysWithin g t (t\<lparr>tb_itemGroups := ls\<rparr>)"
  by (rule staysWithinI) (use assms in \<open>auto simp: wellLinked_def\<close>)

lemma staysWithin_categoryGroups:
  assumes "wellLinked t \<Longrightarrow> \<forall>l \<in> set ls. l \<in> set (tb_categoryGroups t) \<or>
      orgOfCategory t (ctm_categoryId l) = Some g \<and> orgOfGroup t (ctm_modifierId l) = Some g"
    and "\<And>h. wellLinked t \<Longrightarrow> h \<noteq> g \<Longrightarrow> filter (\<lambda>l. orgOfCategory t (ctm_categoryId l) = Some h) ls =
      filter (\<lambda>l. orgOfCategory t (ctm_categoryId l) = Some h) (tb_categoryGroups t)"
  shows "staysWithin g t (t\<lparr>tb_categoryGroups := ls\<rparr>)"
  by (rule staysWithinI) (use assms in \<open>auto simp: wellLinked_def\<close>)

lemma staysWithin_newOption:
  assumes "\<forall>y \<in> set (tb_options t). mim_id y \<noteq> mim_id x" and "wellLinked t \<Longrightarrow> orgOfGroup t (mim_modifierId x) = Some g"
  shows "staysWithin g t (t\<lparr>tb_options := tb_options t @ [x]\<rparr>)"
  by (rule staysWithinI) (use assms in \<open>auto simp: wellLinked_def\<close>)

lemma staysWithin_newGroup:
  assumes new: "\<forall>g \<in> set (tb_groups t). mm_id g \<noteq> mm_id r" and own: "mm_organizationId r = g"
  shows "staysWithin g t (t\<lparr>tb_groups := tb_groups t @ [r]\<rparr>)"
  unfolding staysWithin_def
proof (intro impI conjI allI)
  let ?t = "t\<lparr>tb_groups := tb_groups t @ [r]\<rparr>"
  assume wl: "wellLinked t"
  have org: "orgOfGroup ?t m = (if m = mm_id r then Some g else orgOfGroup t m)" for m
    using new own by (auto simp: orgOfGroup_def first_row_append split: option.splits dest!: first_row_SomeD)
  have none: "orgOfGroup t (mm_id r) = None"
    using new by (simp add: orgOfGroup_def first_row_none)
  show "wellLinked ?t"
    using wl new none unfolding wellLinked_def org by auto
  show "menuRows h ?t = menuRows h t" if "h \<noteq> g" for h
  proof -
    have "filter (\<lambda>x. orgOfGroup ?t (mim_modifierId x) = Some h) (tb_options t) =
        filter (\<lambda>x. orgOfGroup t (mim_modifierId x) = Some h) (tb_options t)"
      using wl none that by (intro filter_cong refl) (auto simp: org wellLinked_def)
    then show ?thesis using that own by (simp add: menuRows_def)
  qed
qed

lemma staysWithin_newCategory:
  assumes new: "\<forall>c \<in> set (tb_categories t). cat_id c \<noteq> cat_id r" and own: "cat_organizationId r = g"
  shows "staysWithin g t (t\<lparr>tb_categories := tb_categories t @ [r]\<rparr>)"
  unfolding staysWithin_def
proof (intro impI conjI allI)
  let ?t = "t\<lparr>tb_categories := tb_categories t @ [r]\<rparr>"
  assume wl: "wellLinked t"
  have org: "orgOfCategory ?t m = (if m = cat_id r then Some g else orgOfCategory t m)" for m
    using new own by (auto simp: orgOfCategory_def first_row_append split: option.splits dest!: first_row_SomeD)
  have none: "orgOfCategory t (cat_id r) = None"
    using new by (simp add: orgOfCategory_def first_row_none)
  have row: "orgOfCategory ?t (mi_categoryId i) = orgOfCategory t (mi_categoryId i)" if "i \<in> set (tb_items t)" for i
    using wl none that by (auto simp: org wellLinked_def)
  have item: "orgOfItem ?t i = orgOfItem t i" for i
    by (cases "first_row (\<lambda>r. mi_id r = i) (tb_items t)") (auto simp: orgOfItem_def row dest!: first_row_SomeD)
  have link: "orgOfCategory ?t (ctm_categoryId l) = orgOfCategory t (ctm_categoryId l)" if "l \<in> set (tb_categoryGroups t)" for l
    using wl none that by (auto simp: org wellLinked_def)
  show "wellLinked ?t"
    using wl new row link unfolding wellLinked_def item by auto
  show "menuRows h ?t = menuRows h t" if "h \<noteq> g" for h
    using that own row link unfolding menuRows_def item by (auto intro!: filter_cong)
qed

lemma staysWithin_newItem:
  assumes new: "\<forall>i \<in> set (tb_items t). mi_id i \<noteq> mi_id r" and own_row: "wellLinked t \<Longrightarrow> orgOfCategory t (mi_categoryId r) = Some g"
  shows "staysWithin g t (t\<lparr>tb_items := tb_items t @ [r]\<rparr>)"
  unfolding staysWithin_def
proof (intro impI conjI allI)
  let ?t = "t\<lparr>tb_items := tb_items t @ [r]\<rparr>"
  assume wl: "wellLinked t"
  note own = own_row[OF wl]
  have org: "orgOfItem ?t i = (if i = mi_id r then Some g else orgOfItem t i)" for i
    using new own by (auto simp: orgOfItem_def first_row_append split: option.splits dest!: first_row_SomeD)
  have none: "orgOfItem t (mi_id r) = None"
    using new by (simp add: orgOfItem_def first_row_none)
  have link: "orgOfItem ?t (mitm_menuItemId l) = orgOfItem t (mitm_menuItemId l)" if "l \<in> set (tb_itemGroups t)" for l
    using wl none that by (auto simp: org wellLinked_def)
  show "wellLinked ?t"
    using wl new own link unfolding wellLinked_def by auto
  show "menuRows h ?t = menuRows h t" if "h \<noteq> g" for h
    using that own link unfolding menuRows_def by (auto intro!: filter_cong)
qed

section \<open>One operation at a time\<close>

text \<open>A body that throws has changed no table; one that returns has stayed within its organization.\<close>

definition aside :: "menu_world \<Rightarrow> menu_world \<Rightarrow> bool" where
  "aside s s' \<longleftrightarrow> mn_cache s' = mn_cache s \<and> w_now (mn_world s') = w_now (mn_world s)"

definition tidy :: "uuid \<Rightarrow> menu_world \<Rightarrow> 'a menu \<Rightarrow> bool" where
  "tidy g s m \<longleftrightarrow> (case m s of
     (Inl e, s') \<Rightarrow> aside s s' \<and> mn_tables s' = mn_tables s
   | (Inr a, s') \<Rightarrow> aside s s' \<and> staysWithin g (mn_tables s) (mn_tables s'))"

definition bumped :: "uuid \<Rightarrow> menu_world \<Rightarrow> menu_key \<rightharpoonup> menu_value \<times> int" where
  "bumped g s = (mn_cache s)(VersionKey g \<mapsto> (Stamp (w_now (mn_world s)), w_now (mn_world s) + VERSION_TTL))"

text \<open>The organization a caller acts for.\<close>

definition actsFor :: "menu_wiring \<Rightarrow> principal \<Rightarrow> menu_world \<Rightarrow> uuid \<Rightarrow> bool" where
  "actsFor mk user s g \<longleftrightarrow> (\<exists>w1. getRequiredOrg (mk_cache mk) user (mn_world s) = (Inr g, w1))"

lemma actsFor_unique: "actsFor mk user s g \<Longrightarrow> actsFor mk user s h \<Longrightarrow> g = h"
  by (auto simp: actsFor_def)

text \<open>What an operation of the editor may do, whoever calls it.\<close>

definition editsFor :: "menu_wiring \<Rightarrow> principal \<Rightarrow> menu_world \<Rightarrow> menu_world \<Rightarrow> bool" where
  "editsFor mk user s s' \<longleftrightarrow> w_now (mn_world s') = w_now (mn_world s) \<and>
     (mn_tables s' = mn_tables s \<and> mn_cache s' = mn_cache s \<or>
      (\<exists>g. actsFor mk user s g \<and>
         staysWithin g (mn_tables s) (mn_tables s') \<and> mn_cache s' = bumped g s))"

lemma outerM_now [simp]:
  "preserves uncached m \<Longrightarrow> w_now (snd (m w)) = w_now w"
  using uncached_parts(3) by (metis preservesD prod.collapse)

lemma schedule_run:
  assumes "scheduleMenuAiSync mk g s = (r, s')"
  shows "s' = s\<lparr>mn_syncs := mn_syncs s'\<rparr>"
  using assms by (auto simp: scheduleMenuAiSync_def prog_step throw_if_def split: if_splits)

lemma invalidate_run:
  "\<exists>syncs. invalidateMenuCache mk g s = (Inr (), s\<lparr>mn_cache := bumped g s, mn_syncs := syncs\<rparr>)"
proof -
  let ?s = "s\<lparr>mn_cache := bumped g s\<rparr>"
  obtain r s' where run: "scheduleMenuAiSync mk g ?s = (r, s')" by fastforce
  have "invalidateMenuCache mk g s = (Inr (), s')"
    using run by (cases r) (simp_all add: invalidateMenuCache_def menuCacheSet_def bumped_def catchM_def)
  with schedule_run[OF run] show ?thesis by (metis menu_world.update_convs(5))
qed

lemma editsFor_edited_org:
  assumes "\<And>g s1. actsFor mk user s g \<Longrightarrow> mn_tables s1 = mn_tables s \<Longrightarrow> tidy g s1 (body g)"
  shows "editsFor mk user s (snd (edited mk user body s))"
proof -
  obtain x w1 where org: "getRequiredOrg (mk_cache mk) user (mn_world s) = (x, w1)" by fastforce
  have now: "w_now w1 = w_now (mn_world s)"
    using getRequiredOrg_uncached[OF org] uncached_parts(3) by blast
  show ?thesis
  proof (cases x)
    case (Inl e)
    then show ?thesis using org now by (simp add: edited_def outerM_def bindM_def editsFor_def actsFor_def)
  next
    case (Inr g)
    let ?s1 = "s\<lparr>mn_world := w1\<rparr>"
    have w: "tidy g ?s1 (body g)"
      by (rule assms) (use org Inr in \<open>auto simp: actsFor_def\<close>)
    obtain y s2 where b: "body g ?s1 = (y, s2)" by fastforce
    show ?thesis
    proof (cases y)
      case (Inl e)
      then show ?thesis
        using org now b w \<open>x = Inr g\<close> by (auto simp: edited_def outerM_def bindM_def editsFor_def actsFor_def tidy_def aside_def)
    next
      case y: (Inr a)
      obtain syncs where i: "invalidateMenuCache mk g s2 = (Inr (), s2\<lparr>mn_cache := bumped g s2, mn_syncs := syncs\<rparr>)"
        using invalidate_run by blast
      show ?thesis
        using org now b w \<open>x = Inr g\<close> y i
        by (auto simp: edited_def outerM_def bindM_def thenM_def editsFor_def actsFor_def tidy_def aside_def bumped_def)
    qed
  qed
qed

lemma editsFor_edited:
  "(\<And>g s1. mn_tables s1 = mn_tables s \<Longrightarrow> tidy g s1 (body g)) \<Longrightarrow> editsFor mk user s (snd (edited mk user body s))"
  by (rule editsFor_edited_org)

lemma edited_Inr:
  assumes "getRequiredOrg (mk_cache mk) user (mn_world s) = (Inr g, w1)" and "body g (s\<lparr>mn_world := w1\<rparr>) = (Inr a, s2)"
  shows "\<exists>syncs. edited mk user body s = (Inr a, s2\<lparr>mn_cache := bumped g s2, mn_syncs := syncs\<rparr>)"
proof -
  obtain syncs where "invalidateMenuCache mk g s2 = (Inr (), s2\<lparr>mn_cache := bumped g s2, mn_syncs := syncs\<rparr>)"
    using invalidate_run by blast
  with assms have "edited mk user body s = (Inr a, s2\<lparr>mn_cache := bumped g s2, mn_syncs := syncs\<rparr>)"
    by (simp add: edited_def outerM_def bindM_def thenM_def)
  then show ?thesis by blast
qed

lemma seq_assoc:
  "thenM (thenM a b) c = thenM a (thenM b c)" "thenM (bindM m f) c = bindM m (\<lambda>x. thenM (f x) c)"
  "bindM (thenM a b) g = thenM a (bindM b g)"
  by (simp_all add: thenM_def bindM_assoc)

lemma outer_fresh [simp]:
  "bindM (outerM freshId) f s = f (w_ids (mn_world s) (w_nextId (mn_world s)))
     (s\<lparr>mn_world := (mn_world s)\<lparr>w_nextId := Suc (w_nextId (mn_world s))\<rparr>\<rparr>)"
  by (simp add: outerM_def bindM_def)

lemma note_then [simp]:
  "thenM (noteM act user g i v) n s = n (s\<lparr>mn_world := (mn_world s)\<lparr>w_fx := w_fx (mn_world s) @ [Audit act (Some (pr_id user)) (Some g) i v]\<rparr>\<rparr>)"
  "noteM act user g i v s = (Inr (), s\<lparr>mn_world := (mn_world s)\<lparr>w_fx := w_fx (mn_world s) @ [Audit act (Some (pr_id user)) (Some g) i v]\<rparr>\<rparr>)"
  by (simp_all add: noteM_def outerM_def bindM_def thenM_def)

lemma ownCategory_org: "ownCategory t g i = Some c \<Longrightarrow> wellLinked t \<Longrightarrow> orgOfCategory t i = Some g"
  using orgOfCategory_row by (fastforce simp: ownCategory_def dest!: first_row_SomeD)

lemma ownGroup_org: "ownGroup t g i = Some c \<Longrightarrow> wellLinked t \<Longrightarrow> orgOfGroup t i = Some g"
  using orgOfGroup_row by (fastforce simp: ownGroup_def dest!: first_row_SomeD)

lemma category_rows:
  "wellLinked t \<Longrightarrow> orgOfCategory t i = Some g \<Longrightarrow> \<forall>c \<in> set (tb_categories t). cat_id c = i \<longrightarrow> cat_organizationId c = g"
  using orgOfCategory_row by fastforce

lemmas edit_simps = tidy_def aside_def Let_def seq_assoc prog_step list_ex_iff

lemma createCategory_edits: "editsFor mk user s (snd (createCategory mk user name l s))"
  unfolding createCategory_def
  by (rule editsFor_edited)
     (auto simp: edit_simps insertCategory_def atSite_def intro!: staysWithin_newCategory split: option.split)

lemma updateCategory_edits: "editsFor mk user s (snd (updateCategory mk user i dto s))"
  unfolding updateCategory_def
  by (rule editsFor_edited)
     (auto simp: edit_simps intro!: staysWithin_categories dest: ownCategory_org category_rows split: option.split)

lemma createMenuItem_edits: "editsFor mk user s (snd (createMenuItem mk user c name d p img l sku opts s))"
  unfolding createMenuItem_def
  by (rule editsFor_edited)
     (auto simp: edit_simps insertItem_def atSite_def intro!: staysWithin_newItem dest: ownCategory_org split: option.split)

lemma createModifierGroup_edits: "editsFor mk user s (snd (createModifierGroup mk user name l req multi sel s))"
  unfolding createModifierGroup_def
  by (rule editsFor_edited)
     (auto simp: edit_simps insertGroup_def atSite_def intro!: staysWithin_newGroup split: option.split)

lemma createModifierOption_edits: "editsFor mk user s (snd (createModifierOption mk user m name p s))"
  unfolding createModifierOption_def
  by (rule editsFor_edited)
     (auto simp: edit_simps insertOption_def intro!: staysWithin_newOption dest: ownGroup_org split: option.split)

lemma menuTx_Inr: "m s = (Inr a, s') \<Longrightarrow> menuTx m s = (Inr a, s')"
  by (simp add: menuTx_def)

lemma forM_change: "forM xs (\<lambda>x. changeM (f x)) s = (Inr (), s\<lparr>mn_tables := fold f xs (mn_tables s)\<rparr>)"
  by (induction xs arbitrary: s) simp_all

lemma menuTx_changes [simp]:
  "menuTx (forM xs (\<lambda>x. changeM (f x))) s = (Inr (), s\<lparr>mn_tables := fold f xs (mn_tables s)\<rparr>)"
  "bindM (menuTx (thenM (changeM a) (changeM b))) k s = k () (s\<lparr>mn_tables := b (a (mn_tables s))\<rparr>)"
  "thenM (menuTx (thenM (changeM a) (changeM b))) n s = n (s\<lparr>mn_tables := b (a (mn_tables s))\<rparr>)"
  by (simp_all add: menuTx_def forM_change bindM_def thenM_def)

lemma fold_staysWithin:
  assumes "J t" and "\<And>x t. x \<in> set xs \<Longrightarrow> J t \<Longrightarrow> staysWithin g t (f x t) \<and> J (f x t)"
  shows "staysWithin g t (fold f xs t)"
  using assms by (induction xs arbitrary: t) (auto intro: staysWithin_trans)

lemma ownedRow_then:
  "thenM (ownedRow row g msg) n s = (if \<exists>x. row = Some (x, g) then n s else (Inl (NotFoundException msg), s))"
  by (auto simp: ownedRow_def thenM_def bindM_def throw_if_def split: option.split)

lemma filter_keyed:
  "distinct (map k xs) \<Longrightarrow> filter (\<lambda>r. k r = v) xs = (case first_row (\<lambda>r. k r = v) xs of None \<Rightarrow> [] | Some x \<Rightarrow> [x])"
  by (induction xs) (auto simp: filter_empty_conv image_iff split: option.split dest!: first_row_SomeD)

lemma itemsWithOrg_row:
  assumes "wellLinked t" and "(i, h) \<in> set (itemsWithOrg t)"
  shows "i \<in> set (tb_items t)" and "orgOfCategory t (mi_categoryId i) = Some h" and "orgOfItem t (mi_id i) = Some h"
proof -
  obtain c where c: "i \<in> set (tb_items t)" "c \<in> set (tb_categories t)" "cat_id c = mi_categoryId i" "h = cat_organizationId c"
    using assms(2) by (auto simp: itemsWithOrg_def)
  then show "i \<in> set (tb_items t)" and "orgOfCategory t (mi_categoryId i) = Some h"
    using orgOfCategory_row[OF assms(1) c(2)] by simp_all
  then show "orgOfItem t (mi_id i) = Some h" using orgOfItem_row[OF assms(1)] by simp
qed

lemma optionsWithOrg_row:
  "wellLinked t \<Longrightarrow> (x, h) \<in> set (optionsWithOrg t) \<Longrightarrow> x \<in> set (tb_options t) \<and> orgOfGroup t (mim_modifierId x) = Some h"
  using orgOfGroup_row by (fastforce simp: optionsWithOrg_def)

lemma option_rows:
  "wellLinked t \<Longrightarrow> (x, g) \<in> set (optionsWithOrg t) \<Longrightarrow> y \<in> set (tb_options t) \<Longrightarrow> mim_id y = mim_id x \<Longrightarrow>
   orgOfGroup t (mim_modifierId y) = Some g"
  using optionsWithOrg_row[of t x g] first_row_keyed[of mim_id "tb_options t"] unfolding wellLinked_def
  by (metis option.inject)

lemma item_rows:
  "wellLinked t \<Longrightarrow> orgOfItem t i = Some g \<Longrightarrow> r \<in> set (tb_items t) \<Longrightarrow> mi_id r = i \<Longrightarrow> orgOfCategory t (mi_categoryId r) = Some g"
  using orgOfItem_row by fastforce

lemma itemsWithOrg_ids:
  assumes "wellLinked t"
  shows "map (\<lambda>r. mi_id (fst r)) (itemsWithOrg t) = map mi_id (tb_items t)"
proof -
  have "map (\<lambda>r. mi_id (fst r)) (concat (map (\<lambda>i. map (\<lambda>c. (i, cat_organizationId c))
      (filter (\<lambda>c. cat_id c = mi_categoryId i) (tb_categories t))) items)) = map mi_id items"
    if "set items \<subseteq> set (tb_items t)" for items
    using that
  proof (induction items)
    case (Cons i items)
    then obtain c where "first_row (\<lambda>c. cat_id c = mi_categoryId i) (tb_categories t) = Some c"
      using assms by (auto simp: wellLinked_def orgOfCategory_def)
    then have "filter (\<lambda>c. cat_id c = mi_categoryId i) (tb_categories t) = [c]"
      using assms by (simp add: wellLinked_def filter_keyed)
    then show ?case using Cons by simp
  qed simp
  then show ?thesis by (simp add: itemsWithOrg_def)
qed

lemma owned_orders:
  assumes wl: "wellLinked t"
    and len: "length (filter (\<lambda>r. mi_id (fst r) \<in> set ids \<and> snd r = g) (itemsWithOrg t)) = length ids"
    and mem: "i \<in> set ids"
  shows "orgOfItem t i = Some g"
proof -
  let ?owned = "filter (\<lambda>r. mi_id (fst r) \<in> set ids \<and> snd r = g) (itemsWithOrg t)"
  let ?is = "map (\<lambda>r. mi_id (fst r)) ?owned"
  have "distinct (map (\<lambda>r. mi_id (fst r)) (itemsWithOrg t))"
    using wl by (simp add: itemsWithOrg_ids wellLinked_def)
  then have "distinct ?is" by (rule distinct_map_filter)
  then have card: "card (set ids) \<le> card (set ?is)"
    using len card_length[of ids] distinct_card[of ?is] by simp
  have "set ?is = set ids"
    by (rule card_seteq[OF _ _ card]) auto
  then have "i \<in> set ?is" using mem by (simp only:)
  then obtain r where "r \<in> set (itemsWithOrg t)" "snd r = g" "mi_id (fst r) = i" by auto
  then show ?thesis using itemsWithOrg_row(3)[OF wl] by (metis prod.collapse)
qed

lemma orgOfItem_update:
  "(\<And>i. mi_id (f i) = mi_id i) \<Longrightarrow> (\<And>i. mi_categoryId (f i) = mi_categoryId i) \<Longrightarrow>
   orgOfItem (t\<lparr>tb_items := update_where P f (tb_items t)\<rparr>) i = orgOfItem t i"
  by (cases "first_row (\<lambda>r. mi_id r = i) (tb_items t)") (simp_all add: orgOfItem_def first_row_update_where)

lemma ownLiveItem_then:
  "thenM (ownLiveItem g i) n s =
     (if \<exists>x. first_row (\<lambda>r. mi_id (fst r) = i \<and> mi_deletedAt (fst r) = None) (itemsWithOrg (mn_tables s)) = Some (x, g)
      then n s else (Inl (NotFoundException ''Menu item not found''), s))"
  by (simp add: ownLiveItem_def seq_assoc ownedRow_then)

lemma found_item:
  "wellLinked t \<Longrightarrow> first_row (\<lambda>r. mi_id (fst r) = i \<and> Q r) (itemsWithOrg t) = Some (x, g) \<Longrightarrow> orgOfItem t i = Some g"
  using itemsWithOrg_row(3) by (fastforce dest!: first_row_SomeD)

lemma found_row:
  assumes "wellLinked t" and "r \<in> set (tb_items t)"
  shows "first_row (\<lambda>x. mi_id (fst x) = mi_id r) (itemsWithOrg t) = Some (y, g) \<Longrightarrow> orgOfCategory t (mi_categoryId r) = Some g"
    and "first_row (\<lambda>x. mi_id (fst x) = mi_id r \<and> mi_deletedAt (fst x) = None) (itemsWithOrg t) = Some (y, g) \<Longrightarrow>
      orgOfCategory t (mi_categoryId r) = Some g"
  using item_rows[OF assms(1) _ assms(2) refl] found_item[OF assms(1), of "mi_id r" "\<lambda>_. True" y g]
    found_item[OF assms(1), of "mi_id r" "\<lambda>x. mi_deletedAt (fst x) = None" y g]
  by simp_all

lemma filter_keeping: "(\<And>x. x \<in> set xs \<Longrightarrow> P x \<Longrightarrow> Q x) \<Longrightarrow> filter P (filter Q xs) = filter P xs"
  by (induction xs) auto

lemma update_nowhere: "first_row P xs = None \<Longrightarrow> update_where P f xs = xs"
  by (induction xs) (auto split: if_splits)

lemma deleteCategory_edits: "editsFor mk user s (snd (deleteCategory mk user i s))"
  unfolding deleteCategory_def
proof (rule editsFor_edited, goal_cases)
  case (1 g s1)
  let ?now = "w_now (mn_world s1)"
  let ?gone = "\<lambda>t. t\<lparr>tb_items := update_where (\<lambda>m. mi_categoryId m = i \<and> mi_deletedAt m = None)
     (\<lambda>m. m\<lparr>mi_deletedAt := Some ?now, mit_updatedAt := ?now\<rparr>) (tb_items t)\<rparr>"
  have "staysWithin g t ((?gone t)\<lparr>tb_categories := update_where (\<lambda>c. cat_id c = i)
      (\<lambda>c. c\<lparr>mca_deletedAt := Some ?now, mca_updatedAt := ?now\<rparr>) (tb_categories (?gone t))\<rparr>)"
    if own: "ownCategory t g i = Some c" for t c
  proof (rule staysWithin_trans)
    show "staysWithin g t (?gone t)"
      by (rule staysWithin_items) (auto dest: ownCategory_org[OF own])
    have "ownCategory (?gone t) g i = Some c" using own by (simp add: ownCategory_def)
    from ownCategory_org[OF this] show "staysWithin g (?gone t) ((?gone t)\<lparr>tb_categories := update_where (\<lambda>c. cat_id c = i)
        (\<lambda>c. c\<lparr>mca_deletedAt := Some ?now, mca_updatedAt := ?now\<rparr>) (tb_categories (?gone t))\<rparr>)"
      by (intro staysWithin_categories) (auto dest: category_rows)
  qed
  then show ?case by (auto simp: edit_simps split: option.split)
qed

lemma restoreCategory_edits: "editsFor mk user s (snd (restoreCategory mk user i s))"
  unfolding restoreCategory_def
  by (rule editsFor_edited)
     (auto simp: edit_simps orThrow_def first_row_update_where update_nowhere intro!: staysWithin_categories split: option.split)

lemma reorderCategories_edits: "editsFor mk user s (snd (reorderCategories mk user orders s))"
  unfolding reorderCategories_def
  by (rule editsFor_edited)
     (auto simp: edit_simps intro!: fold_staysWithin[where J = "\<lambda>t. True"] staysWithin_categories)

lemma deleteMenuItem_edits: "editsFor mk user s (snd (deleteMenuItem mk user i s))"
  unfolding deleteMenuItem_def
proof (rule editsFor_edited, goal_cases)
  case (1 g s1)
  have "orgOfCategory t (mi_categoryId r) = Some g"
    if "wellLinked t" "first_row (\<lambda>m. mi_id m = i \<and> mi_deletedAt m = None) (tb_items t) = Some m"
      "ownCategory t g (mi_categoryId m) = Some c" "r \<in> set (tb_items t)" "mi_id r = i" for t m c r
  proof (rule item_rows[OF that(1) _ that(4,5)])
    show "orgOfItem t i = Some g"
      using orgOfItem_row[OF that(1), of m] ownCategory_org[OF that(3,1)] first_row_SomeD[OF that(2)] by simp
  qed
  then show ?case by (auto simp: edit_simps intro!: staysWithin_items split: option.split)
qed

text \<open>A category an update names is one of the organization's.\<close>

definition movesHome :: "menu_tables \<Rightarrow> uuid \<Rightarrow> item_update \<Rightarrow> bool" where
  "movesHome t g dto \<longleftrightarrow> (case iu_categoryId dto of Put c \<Rightarrow> orgOfCategory t c = Some g | _ \<Rightarrow> True)"

lemma itemChange_simps [simp]:
  "mi_id (itemChange dto now m) = mi_id m" "mi_categoryId (itemChange dto now m) = required (iu_categoryId dto) (mi_categoryId m)"
  by (simp_all add: itemChange_def)

lemma updateMenuItem_edits:
  assumes "\<And>g. actsFor mk user s g \<Longrightarrow> movesHome (mn_tables s) g dto"
  shows "editsFor mk user s (snd (updateMenuItem mk user i dto s))"
  unfolding updateMenuItem_def
proof (rule editsFor_edited_org, goal_cases)
  case (1 g s1)
  then have home: "movesHome (mn_tables s1) g dto" using assms by simp
  show ?case
    using home
    by (auto simp: edit_simps orThrow_def ownLiveItem_then first_row_update_where update_nowhere movesHome_def intro!: staysWithin_items
          dest: found_row split: option.split patch.splits)
qed

lemma restoreMenuItem_edits: "editsFor mk user s (snd (restoreMenuItem mk user i s))"
  unfolding restoreMenuItem_def
  by (rule editsFor_edited)
     (auto simp: edit_simps orThrow_def ownedRow_then first_row_update_where update_nowhere intro!: staysWithin_items
        dest: found_row split: option.split)

lemma deleteModifierGroup_edits: "editsFor mk user s (snd (deleteModifierGroup mk user i s))"
  unfolding deleteModifierGroup_def
  by (rule editsFor_edited)
     (auto simp: edit_simps orThrow_def first_row_update_where update_nowhere intro!: staysWithin_groups split: option.split)

lemma deleteModifierOption_edits: "editsFor mk user s (snd (deleteModifierOption mk user i s))"
  unfolding deleteModifierOption_def
  by (rule editsFor_edited)
     (auto simp: edit_simps ownedRow_then intro!: staysWithin_options dest: option_rows dest!: first_row_SomeD)

lemma assignModifierToItem_edits: "editsFor mk user s (snd (assignModifierToItem mk user i m s))"
  unfolding assignModifierToItem_def
proof (rule editsFor_edited, goal_cases)
  case (1 g s1)
  show ?case
    by (auto simp: edit_simps ownLiveItem_then intro!: staysWithin_itemGroups dest: found_item ownGroup_org split: option.split)
qed

lemma removeModifierFromItem_edits: "editsFor mk user s (snd (removeModifierFromItem mk user i m s))"
  unfolding removeModifierFromItem_def
  by (rule editsFor_edited)
     (auto simp: edit_simps ownLiveItem_then simp del: filter_filter intro!: staysWithin_itemGroups filter_keeping dest: found_item split: option.split)

lemma assignModifierToCategory_edits: "editsFor mk user s (snd (assignModifierToCategory mk user c m s))"
  unfolding assignModifierToCategory_def
  by (rule editsFor_edited)
     (auto simp: edit_simps intro!: staysWithin_categoryGroups dest: ownCategory_org ownGroup_org split: option.split)

lemma removeModifierFromCategory_edits: "editsFor mk user s (snd (removeModifierFromCategory mk user c m s))"
  unfolding removeModifierFromCategory_def
  by (rule editsFor_edited)
     (auto simp: edit_simps simp del: filter_filter intro!: staysWithin_categoryGroups filter_keeping dest: orgOfCategory_row dest!: first_row_SomeD split: option.split)

lemma reorderMenuItems_edits: "editsFor mk user s (snd (reorderMenuItems mk user orders s))"
proof (cases "orders = []")
  case True
  obtain x w1 where org: "getRequiredOrg (mk_cache mk) user (mn_world s) = (x, w1)" by fastforce
  then have "w_now w1 = w_now (mn_world s)"
    using getRequiredOrg_uncached uncached_parts(3) by blast
  with True org show ?thesis
    by (cases x) (simp_all add: reorderMenuItems_def outerM_def thenM_def bindM_def editsFor_def)
next
  case False
  let ?f = "\<lambda>now order t. t\<lparr>tb_items := update_where (\<lambda>m. mi_id m = fst order)
     (\<lambda>m. m\<lparr>mit_sortOrder := snd order, mit_updatedAt := now\<rparr>) (tb_items t)\<rparr>"
  have step: "staysWithin g t (fold (?f now) orders t)"
    if len: "length (filter (\<lambda>r. mi_id (fst r) \<in> set (map fst orders) \<and> snd r = g) (itemsWithOrg t)) = length orders" for g t now
  proof (cases "wellLinked t")
    case wl: True
    let ?J = "\<lambda>t'. \<forall>order \<in> set orders. orgOfItem t' (fst order) = Some g"
    have "?J t" using owned_orders[OF wl, of "map fst orders" g] len by auto
    then show ?thesis
      by (rule fold_staysWithin) (auto simp: orgOfItem_update intro!: staysWithin_items dest: item_rows)
  qed (simp add: staysWithin_def)
  show ?thesis
    unfolding reorderMenuItems_def using False
    by (simp, intro editsFor_edited) (auto simp: edit_simps step)
qed

section \<open>Any operation\<close>

datatype menu_edit =
    NewCategory string "string option"
  | SetCategory uuid category_update
  | DropCategory uuid
  | UndropCategory uuid
  | OrderCategories "(uuid \<times> int) list"
  | NewItem uuid string string int "string option" "string option" "string option" item_options
  | SetItem uuid item_update
  | DropItem uuid
  | UndropItem uuid
  | OrderItems "(uuid \<times> int) list"
  | NewGroup string "string option" bool bool "int option"
  | DropGroup uuid
  | NewOption uuid string int
  | DropOption uuid
  | LinkItem uuid uuid
  | UnlinkItem uuid uuid
  | LinkCategory uuid uuid
  | UnlinkCategory uuid uuid

definition voidM :: "'a menu \<Rightarrow> unit menu" where
  "voidM m = bindM m (\<lambda>_. returnM ())"

primrec runEdit :: "menu_wiring \<Rightarrow> principal \<Rightarrow> menu_edit \<Rightarrow> unit menu" where
  "runEdit mk user (NewCategory name l) = voidM (createCategory mk user name l)"
| "runEdit mk user (SetCategory i dto) = voidM (updateCategory mk user i dto)"
| "runEdit mk user (DropCategory i) = deleteCategory mk user i"
| "runEdit mk user (UndropCategory i) = voidM (restoreCategory mk user i)"
| "runEdit mk user (OrderCategories orders) = reorderCategories mk user orders"
| "runEdit mk user (NewItem c name d p img l sku opts) = voidM (createMenuItem mk user c name d p img l sku opts)"
| "runEdit mk user (SetItem i dto) = voidM (updateMenuItem mk user i dto)"
| "runEdit mk user (DropItem i) = deleteMenuItem mk user i"
| "runEdit mk user (UndropItem i) = voidM (restoreMenuItem mk user i)"
| "runEdit mk user (OrderItems orders) = reorderMenuItems mk user orders"
| "runEdit mk user (NewGroup name l req multi sel) = voidM (createModifierGroup mk user name l req multi sel)"
| "runEdit mk user (DropGroup i) = deleteModifierGroup mk user i"
| "runEdit mk user (NewOption m name p) = voidM (createModifierOption mk user m name p)"
| "runEdit mk user (DropOption i) = deleteModifierOption mk user i"
| "runEdit mk user (LinkItem i m) = assignModifierToItem mk user i m"
| "runEdit mk user (UnlinkItem i m) = removeModifierFromItem mk user i m"
| "runEdit mk user (LinkCategory c m) = assignModifierToCategory mk user c m"
| "runEdit mk user (UnlinkCategory c m) = removeModifierFromCategory mk user c m"

text \<open>The one operation that can leave the caller's menu: an update that names another one's category.\<close>

definition homeEdit :: "menu_wiring \<Rightarrow> principal \<Rightarrow> menu_world \<Rightarrow> menu_edit \<Rightarrow> bool" where
  "homeEdit mk user s e \<longleftrightarrow> (case e of
     SetItem i dto \<Rightarrow> \<forall>g. actsFor mk user s g \<longrightarrow> movesHome (mn_tables s) g dto
   | _ \<Rightarrow> True)"

lemma voidM_snd [simp]: "snd (voidM m s) = snd (m s)"
  by (auto simp: voidM_def bindM_def split: prod.split sum.split)

lemmas all_edits = createCategory_edits updateCategory_edits deleteCategory_edits restoreCategory_edits
  reorderCategories_edits createMenuItem_edits deleteMenuItem_edits restoreMenuItem_edits reorderMenuItems_edits
  createModifierGroup_edits deleteModifierGroup_edits createModifierOption_edits deleteModifierOption_edits
  assignModifierToItem_edits removeModifierFromItem_edits assignModifierToCategory_edits removeModifierFromCategory_edits

lemma runEdit_edits:
  "homeEdit mk user s e \<Longrightarrow> runEdit mk user e s = (r, s') \<Longrightarrow> editsFor mk user s s'"
  by (cases e) (drule sym, auto simp: homeEdit_def intro!: all_edits updateMenuItem_edits dest!: arg_cong[where f = snd])+

lemma edit_stays_home:
  assumes "runEdit mk user e s = (r, s')" and "homeEdit mk user s e" and "wellLinked (mn_tables s)"
    and "\<not> actsFor mk user s h"
  shows "wellLinked (mn_tables s')" and "menuRows h (mn_tables s') = menuRows h (mn_tables s)"
  using runEdit_edits[OF assms(2,1)] assms(3,4) unfolding editsFor_def staysWithin_def by metis+

text \<open>
  C33. Whatever a caller does in the menu editor (all eighteen operations, whether they return or throw) leaves
  every other organization's categories, items, modifier groups, options and links exactly as they were, so any
  page of any other organization's menu is the same before and after; keys and links stay well formed. The one
  case excluded, an update that moves an item to a category of another organization, is accepted by the code.
\<close>

theorem menu_edits_stay_home:
  assumes "runEdit mk user e s = (r, s')" and "homeEdit mk user s e" and "wellLinked (mn_tables s)"
    and "\<not> actsFor mk user s h"
  shows "wellLinked (mn_tables s') \<and> menuRows h (mn_tables s') = menuRows h (mn_tables s) \<and>
    pageOf (mn_tables s') h p l = pageOf (mn_tables s) h p l"
  using edit_stays_home[OF assms] pageOf_own[OF assms(3)] pageOf_own by metis

text \<open>An update that names another organization's category puts the item on that organization's menu.\<close>

lemma item_moves_to_a_foreign_menu:
  assumes "actsFor mk user s g" and "first_row (\<lambda>r. mi_id (fst r) = i \<and> mi_deletedAt (fst r) = None) (itemsWithOrg (mn_tables s)) = Some (x, g)"
    and "iu_categoryId dto = Put c" and "\<not> nullsRequired dto" and "orgOfCategory (mn_tables s) c = Some h" and "wellLinked (mn_tables s)"
  shows "\<exists>u s'. updateMenuItem mk user i dto s = (Inr u, s') \<and> orgOfItem (mn_tables s') i = Some h"
proof -
  obtain w1 where org: "getRequiredOrg (mk_cache mk) user (mn_world s) = (Inr g, w1)"
    using assms(1) by (auto simp: actsFor_def)
  let ?s1 = "s\<lparr>mn_world := w1\<rparr>" and ?t = "mn_tables s" and ?now = "w_now w1"
  let ?t' = "?t\<lparr>tb_items := update_where (\<lambda>m. mi_id m = i) (itemChange dto ?now) (tb_items ?t)\<rparr>"
  have x: "x \<in> set (tb_items ?t)" "mi_id x = i"
    using first_row_SomeD[OF assms(2)] itemsWithOrg_row(1)[OF assms(6)] by auto
  then obtain m where m: "first_row (\<lambda>m. mi_id m = i) (tb_items ?t) = Some m"
    by (cases "first_row (\<lambda>m. mi_id m = i) (tb_items ?t)") (auto dest: first_row_NoneD)
  have "mi_id m = i" using first_row_SomeD[OF m] by simp
  then have row: "first_row (\<lambda>m. mi_id m = i) (tb_items ?t') = Some (itemChange dto ?now m)"
    using m by (simp add: first_row_update_where)
  have known: "\<not> categoryMissing ?t dto"
    using assms(3,5) by (auto simp: categoryMissing_def categoryExists_def list_ex_iff orgOfCategory_def dest!: first_row_SomeD)
  define s2 where "s2 = ?s1\<lparr>mn_tables := ?t', mn_world := w1\<lparr>w_fx := w_fx w1 @
    [Audit ''menu.item.update'' (Some (pr_id user)) (Some g) i (itemJson (itemChange dto ?now m))]\<rparr>\<rparr>"
  have "\<exists>syncs. updateMenuItem mk user i dto s = (Inr (itemChange dto ?now m), s2\<lparr>mn_cache := bumped g s2, mn_syncs := syncs\<rparr>)"
    unfolding updateMenuItem_def
    by (rule edited_Inr[OF org]) (use assms(2,4) known row in \<open>simp add: ownLiveItem_then bindM_throw_if s2_def\<close>)
  moreover have "orgOfItem ?t' i = Some h"
    using row assms(3,5) by (simp add: orgOfItem_def)
  ultimately show ?thesis by (auto simp: s2_def)
qed

end
