(* ===== verification/Menu_Import.thy ===== *)
theory Menu_Import
  imports Menus
begin

text \<open>
  The import of a menu from a website or a PDF: the request (\<open>importFromWebsite\<close>, \<open>getImportJobStatus\<close> of
  \<open>menus.service.ts\<close>), the crawler, the extraction of the menu from the text, and the worker that writes it
  (\<open>menus/processors/import-queue.processor.ts\<close>). The web, the PDF reader, the language model and
  \<open>JSON.parse\<close> are parameters. Deleting a row deletes what refers to it, the lines of past orders included,
  as the foreign keys of the schema say.
\<close>

section \<open>The request\<close>

definition importTarget :: "principal \<Rightarrow> string option \<Rightarrow> string option \<Rightarrow> error + (uuid option \<times> uuid option)" where
  "importTarget user dtoOrgId dtoLocationId =
     (if pr_role user = ''platform_admin'' \<or> pr_isPlatformAdmin user then
        if \<not> truthy dtoOrgId then Inl (BadRequestException ''Platform admins must specify an orgId to import a menu.'')
        else Inr (dtoOrgId, or_null dtoLocationId)
      else if pr_role user = ''manager'' then
        if \<not> truthy (pr_locationId user) then Inl (ForbiddenException ''Manager is not assigned to any location.'')
        else Inr (pr_organizationId user, pr_locationId user)
      else Inr (pr_organizationId user, dtoLocationId))"

definition importUrl :: "string \<Rightarrow> uuid option \<Rightarrow> string menu" where
  "importUrl url targetLocationId =
     (if url \<noteq> [] then returnM url
      else if \<not> truthy targetLocationId then throwM (BadRequestException ''URL is required if no location is specified.'')
      else
     bindM (getsM (\<lambda>s. first_row (\<lambda>r. Some (loc_id r) = targetLocationId) (mn_sites s))) (\<lambda>loc.
       orThrow (Option.bind loc (\<lambda>r. or_null (mst_menuImportSource r)))
         (BadRequestException ''No menu sync URL or PDF configured for this location. Please set it in Settings.'')))"

text \<open>The queue numbers its jobs.\<close>

definition addImport :: "uuid \<Rightarrow> string \<Rightarrow> uuid option \<Rightarrow> import_mode \<Rightarrow> string menu" where
  "addImport orgId url locationId mode =
     bindM (getsM (\<lambda>s. w_queueUp (mn_world s))) (\<lambda>up.
     thenM (throw_if (\<not> up) (GenericError ''Connection is closed.''))
    (bindM (getsM mn_importSeq) (\<lambda>n. bindM menuNow (\<lambda>now.
       let i = show_nat (Suc n) in
     thenM (modifyM (\<lambda>s. s\<lparr>mn_importSeq := Suc n, mn_imports := mn_imports s @ [\<lparr>imj_id = i, imj_orgId = orgId,
         imj_url = url, imj_locationId = locationId, imj_mode = mode, imj_state = ImportWaiting, imj_attemptsMade = 0,
         imj_failedReason = None, imj_timestamp = now, imj_processedOn = None, imj_finishedOn = None\<rparr>]\<rparr>))
       (returnM i)))))"

definition importFromWebsite ::
  "principal \<Rightarrow> string \<Rightarrow> string option \<Rightarrow> string option \<Rightarrow> import_mode \<Rightarrow> string menu" where
  "importFromWebsite user url dtoOrgId dtoLocationId importMode =
     bindM (liftE (importTarget user dtoOrgId dtoLocationId)) (\<lambda>(org, targetLocationId).
     bindM (orThrow (or_null org) (BadRequestException ''Organization ID could not be determined.'')) (\<lambda>orgId.
     bindM (importUrl url targetLocationId) (\<lambda>finalUrl.
     bindM (addImport orgId finalUrl (or_null targetLocationId) importMode) (\<lambda>jobId.
     thenM (case or_null targetLocationId of
              None \<Rightarrow> returnM ()
            | Some l \<Rightarrow> outerM (emitM (RecordUsage orgId l ''website_import'' 1 jobId)))
       (returnM jobId)))))"

record import_status =
  ims_jobId :: string
  ims_state :: import_state
  ims_failedReason :: "string option"
  ims_result :: "nat option"
  ims_url :: string
  ims_createdAt :: int
  ims_processedAt :: "int option"
  ims_finishedAt :: "int option"

definition getImportJobStatus :: "string \<Rightarrow> import_status menu" where
  "getImportJobStatus jobId =
     bindM (getsM (\<lambda>s. first_row (\<lambda>j. imj_id j = jobId) (mn_imports s))) (\<lambda>found.
     bindM (orThrow found (NotFoundException (''Import job '' @ jobId @ '' not found.''))) (\<lambda>job.
       returnM \<lparr>ims_jobId = jobId, ims_state = imj_state job, ims_failedReason = imj_failedReason job,
         ims_result = (case imj_state job of ImportCompleted n \<Rightarrow> Some n | _ \<Rightarrow> None), ims_url = imj_url job,
         ims_createdAt = imj_timestamp job, ims_processedAt = imj_processedOn job, ims_finishedAt = imj_finishedOn job\<rparr>))"

section \<open>Reading the source\<close>

record extracted_option =
  xo_name :: string
  xo_priceAdjustment :: int

record extracted_group =
  xg_name :: string
  xg_isRequired :: bool
  xg_options :: "extracted_option list option"

record extracted_item =
  xi_name :: string
  xi_description :: "string option"
  xi_price :: int
  xi_modifiers :: "extracted_group list option"

record extracted_category =
  xc_name :: string
  xc_items :: "extracted_item list"

record chat_reply =
  cr_ok :: bool
  cr_status :: int
  cr_text :: string
  cr_content :: "string option"

record pdf_reply =
  pdf_ok :: bool
  pdf_statusText :: string
  pdf_body :: string

text \<open>
  What the worker asks of others: the bytes behind a URL and the text of a PDF, the crawl of a page, the answer
  of the language model, and the parse of its text (None when it is no object with a list of categories).
\<close>

record import_services =
  ex_fetch :: "string \<Rightarrow> error + pdf_reply"
  ex_pdfText :: "string \<Rightarrow> error + string"
  ex_firecrawl :: bool
  ex_scrape :: "string \<Rightarrow> error + string option"
  ex_apiKey :: "string option"
  ex_chat :: "string \<Rightarrow> error + chat_reply"
  ex_parse :: "string \<Rightarrow> error + extracted_category list option"

definition rewrapE :: "string \<Rightarrow> error + 'a \<Rightarrow> error + 'a" where
  "rewrapE label r = (case r of Inl e \<Rightarrow> Inl (GenericError (label @ exceptionText e)) | Inr a \<Rightarrow> Inr a)"

definition bindE :: "error + 'a \<Rightarrow> ('a \<Rightarrow> error + 'b) \<Rightarrow> error + 'b" where
  "bindE r f = (case r of Inl e \<Rightarrow> Inl e | Inr a \<Rightarrow> f a)"

definition MAX_TEXT :: nat where
  "MAX_TEXT = 40000"

definition crawl :: "import_services \<Rightarrow> string \<Rightarrow> error + string" where
  "crawl ex url =
     (if \<not> ex_firecrawl ex then Inl (GenericError ''Firecrawl API key is missing. Cannot crawl.'')
      else rewrapE ''Failed to crawl website: '' (bindE (ex_scrape ex url) (\<lambda>md.
        if \<not> truthy md then Inl (GenericError ''Firecrawl returned no markdown content.'')
        else if MAX_TEXT < length (the md)
        then Inr (take MAX_TEXT (the md) @ [char_of (10 :: nat), char_of (10 :: nat)] @ ''... [TRUNCATED]'')
        else Inr (the md))))"

text \<open>
  \<open>/\{[\s\S]*\}|\[[\s\S]*\]/\<close>: from the first bracket that is closed later to its last closing one.
\<close>

definition upToLast :: "char \<Rightarrow> string \<Rightarrow> string" where
  "upToLast c s = rev (dropWhile (\<lambda>x. x \<noteq> c) (rev s))"

fun embeddedJson :: "string \<Rightarrow> string option" where
  "embeddedJson [] = None"
| "embeddedJson (c # s) =
     (if c = CHR ''{'' \<and> CHR ''}'' \<in> set s then Some (c # upToLast (CHR ''}'') s)
      else if c = CHR ''['' \<and> CHR '']'' \<in> set s then Some (c # upToLast (CHR '']'') s)
      else embeddedJson s)"

definition extractMenu :: "import_services \<Rightarrow> string \<Rightarrow> error + extracted_category list" where
  "extractMenu ex content =
     (if \<not> truthy (ex_apiKey ex) then Inl (GenericError ''DEEPSEEK_API_KEY is not defined.'')
      else rewrapE ''AI Extraction failed: '' (bindE (ex_chat ex content) (\<lambda>response.
        if \<not> cr_ok response
        then Inl (GenericError (''DeepSeek API returned status: '' @ show_int (cr_status response) @ ''. Details: '' @ cr_text response))
        else if \<not> truthy (cr_content response) then Inl (GenericError ''DeepSeek API response does not contain parsed text.'')
        else bindE (ex_parse ex (nvl (embeddedJson (the (cr_content response))) (the (cr_content response)))) (\<lambda>parsed.
          case parsed of None \<Rightarrow> Inl (GenericError ''Invalid JSON structure returned by AI.'') | Some cs \<Rightarrow> Inr cs))))"

definition sourceText :: "import_services \<Rightarrow> string \<Rightarrow> error + string" where
  "sourceText ex url =
     (if js_includes url ''.pdf'' \<or> js_includes url ''/pdf-'' then
        bindE (ex_fetch ex url) (\<lambda>res.
          if \<not> pdf_ok res then Inl (GenericError (''Failed to fetch PDF from URL: '' @ pdf_statusText res))
          else ex_pdfText ex (pdf_body res))
      else crawl ex url)"

definition readMenu :: "import_services \<Rightarrow> string \<Rightarrow> error + extracted_category list" where
  "readMenu ex url =
     bindE (sourceText ex url) (\<lambda>content.
       if js_trim content = [] then Inl (GenericError ''Content retrieval returned empty text.'')
       else bindE (extractMenu ex content) (\<lambda>categories.
         if categories = [] then Inl (GenericError ''AI extraction returned no menu categories.'') else Inr categories))"

section \<open>Deleting, with what refers to the rows\<close>

definition withoutItems :: "uuid set \<Rightarrow> menu_tables \<Rightarrow> menu_tables" where
  "withoutItems ids t = t\<lparr>tb_items := filter (\<lambda>i. mi_id i \<notin> ids) (tb_items t),
     tb_itemGroups := filter (\<lambda>l. mitm_menuItemId l \<notin> ids) (tb_itemGroups t)\<rparr>"

definition withoutLines :: "uuid set \<Rightarrow> db \<Rightarrow> db" where
  "withoutLines ids d = d\<lparr>t_orderItems := filter (\<lambda>r. oi_menuItemId r \<notin> ids) (t_orderItems d)\<rparr>"

definition deleteItems :: "uuid list \<Rightarrow> unit menu" where
  "deleteItems ids = modifyM (\<lambda>s. s\<lparr>mn_tables := withoutItems (set ids) (mn_tables s),
     mn_world := (mn_world s)\<lparr>w_db := withoutLines (set ids) (w_db (mn_world s))\<rparr>\<rparr>)"

definition withoutGroups :: "uuid set \<Rightarrow> menu_tables \<Rightarrow> menu_tables" where
  "withoutGroups ids t = t\<lparr>tb_groups := filter (\<lambda>g. mm_id g \<notin> ids) (tb_groups t),
     tb_options := filter (\<lambda>x. mim_modifierId x \<notin> ids) (tb_options t),
     tb_itemGroups := filter (\<lambda>l. mitm_modifierId l \<notin> ids) (tb_itemGroups t),
     tb_categoryGroups := filter (\<lambda>l. ctm_modifierId l \<notin> ids) (tb_categoryGroups t)\<rparr>"

definition deleteGroups :: "uuid list \<Rightarrow> unit menu" where
  "deleteGroups ids = changeM (withoutGroups (set ids))"

definition withoutCategories :: "uuid set \<Rightarrow> menu_tables \<Rightarrow> menu_tables" where
  "withoutCategories ids t = t\<lparr>tb_categories := filter (\<lambda>c. cat_id c \<notin> ids) (tb_categories t),
     tb_categoryGroups := filter (\<lambda>l. ctm_categoryId l \<notin> ids) (tb_categoryGroups t)\<rparr>"

definition deleteCategories :: "uuid list \<Rightarrow> unit menu" where
  "deleteCategories ids =
     bindM (tablesM (\<lambda>t. map mi_id (filter (\<lambda>i. mi_categoryId i \<in> set ids) (tb_items t)))) (\<lambda>items.
     thenM (deleteItems items)
       (changeM (withoutCategories (set ids))))"

text \<open>
  \<open>replace\<close>: the links of the items and the options of the groups go first, then the items and the groups
  (and, for a whole organization, its categories).
\<close>

definition dropItemLinks :: "uuid list \<Rightarrow> unit menu" where
  "dropItemLinks ids = changeM (\<lambda>t. t\<lparr>tb_itemGroups := filter (\<lambda>l. mitm_menuItemId l \<notin> set ids) (tb_itemGroups t)\<rparr>)"

definition dropOptions :: "uuid list \<Rightarrow> unit menu" where
  "dropOptions ids = changeM (\<lambda>t. t\<lparr>tb_options := filter (\<lambda>x. mim_modifierId x \<notin> set ids) (tb_options t)\<rparr>)"

definition wipeLocation :: "uuid \<Rightarrow> unit menu" where
  "wipeLocation l =
     bindM (tablesM (\<lambda>t. map mi_id (filter (\<lambda>i. mi_locationId i = Some l) (tb_items t)))) (\<lambda>locItemIds.
     bindM (tablesM (\<lambda>t. map mm_id (filter (\<lambda>g. mgr_locationId g = Some l) (tb_groups t)))) (\<lambda>locModIds.
     thenM (dropItemLinks locItemIds)
    (thenM (dropOptions locModIds)
    (thenM (deleteItems locItemIds)
       (deleteGroups locModIds)))))"

definition wipeOrg :: "uuid \<Rightarrow> unit menu" where
  "wipeOrg orgId =
     bindM (tablesM (\<lambda>t. map cat_id (filter (\<lambda>c. cat_organizationId c = orgId) (tb_categories t)))) (\<lambda>orgCatIds.
     bindM (tablesM (\<lambda>t. map mi_id (filter (\<lambda>i. mi_categoryId i \<in> set orgCatIds) (tb_items t)))) (\<lambda>orgItemIds.
     bindM (tablesM (\<lambda>t. map mm_id (filter (\<lambda>g. mm_organizationId g = orgId) (tb_groups t)))) (\<lambda>orgModIds.
     thenM (dropItemLinks orgItemIds)
    (thenM (dropOptions orgModIds)
    (thenM (deleteItems orgItemIds)
    (thenM (deleteGroups orgModIds)
       (deleteCategories orgCatIds)))))))"

section \<open>Writing the extracted menu\<close>

definition importOption :: "uuid \<Rightarrow> extracted_option \<Rightarrow> unit menu" where
  "importOption groupId opt =
     bindM (outerM freshId) (\<lambda>i. bindM menuNow (\<lambda>now.
       insertOption \<lparr>mim_id = i, mim_modifierId = groupId, mim_name = xo_name opt,
         mim_priceAdjustment = xo_priceAdjustment opt, mim_deletedAt = None, mop_updatedAt = now\<rparr>))"

definition importGroup :: "uuid \<Rightarrow> uuid option \<Rightarrow> uuid \<Rightarrow> extracted_group \<Rightarrow> unit menu" where
  "importGroup orgId locationId itemId modGroup =
     bindM (outerM freshId) (\<lambda>i. bindM menuNow (\<lambda>now.
     thenM (insertGroup \<lparr>mm_id = i, mm_name = xg_name modGroup, mm_organizationId = orgId,
         mm_isRequired = xg_isRequired modGroup, mm_multiSelect = False, mm_maxSelections = None, mm_deletedAt = None,
         mgr_locationId = locationId, mgr_updatedAt = now\<rparr>)
    (thenM (changeM (\<lambda>t. t\<lparr>tb_itemGroups := tb_itemGroups t @ [\<lparr>mitm_menuItemId = itemId, mitm_modifierId = i\<rparr>]\<rparr>))
       (forM (nvl (xg_options modGroup) []) (importOption i)))))"

text \<open>The row of an item: an update of the one with its name, or a new one.\<close>

definition importRow ::
  "uuid option \<Rightarrow> uuid \<Rightarrow> nat \<Rightarrow> extracted_item \<Rightarrow> menu_item option \<Rightarrow> uuid menu" where
  "importRow locationId categoryId i item existing =
     (case existing of
        Some old \<Rightarrow>
          thenM (changeM (\<lambda>t. t\<lparr>tb_items := update_where (\<lambda>m. mi_id m = mi_id old)
            (\<lambda>m. m\<lparr>mi_price := xi_price item, mit_description := Some (nvl (xi_description item) []),
                   mi_categoryId := categoryId\<rparr>) (tb_items t)\<rparr>))
            (returnM (mi_id old))
      | None \<Rightarrow>
          bindM (outerM freshId) (\<lambda>new. bindM menuNow (\<lambda>now.
          thenM (insertItem \<lparr>mi_id = new, mi_name = xi_name item, mi_price = xi_price item, mi_categoryId = categoryId,
              mi_locationId = locationId, mi_isAvailable = True, mi_taxExempt = False, mi_stockQuantity = None,
              mi_deletedAt = None, mit_description = Some (nvl (xi_description item) []), mit_isFavorite = False,
              mit_imageUrl = None, mit_sortOrder = int i, mit_availabilitySchedule = None, mit_sku = None,
              mit_isCombo = False, mit_lowStockThreshold = None, mit_updatedAt = now\<rparr>)
            (returnM new))))"

definition importItem ::
  "import_mode \<Rightarrow> uuid \<Rightarrow> uuid option \<Rightarrow> (string \<rightharpoonup> menu_item) \<Rightarrow> uuid \<Rightarrow> nat \<Rightarrow> extracted_item \<Rightarrow> uuid option menu" where
  "importItem mode orgId locationId itemMap categoryId i item =
     (let existing = itemMap (js_lower (xi_name item)) in
      if existing \<noteq> None \<and> mode = AddNew then returnM None
      else
     bindM (importRow locationId categoryId i item existing) (\<lambda>itemId.
     thenM (whenM (nvl (xi_modifiers item) [] \<noteq> [] \<and> mode \<noteq> AddNew)
              (thenM (whenM (existing \<noteq> None) (dropItemLinks [itemId]))
                (forM (nvl (xi_modifiers item) []) (importGroup orgId locationId itemId))))
       (returnM (Some itemId))))"

text \<open>The ids of the items written, in order.\<close>

fun importItems ::
  "import_mode \<Rightarrow> uuid \<Rightarrow> uuid option \<Rightarrow> (string \<rightharpoonup> menu_item) \<Rightarrow> uuid \<Rightarrow> nat \<Rightarrow> extracted_item list \<Rightarrow> uuid list menu" where
  "importItems mode orgId locationId itemMap categoryId i [] = returnM []"
| "importItems mode orgId locationId itemMap categoryId i (item # items) =
     bindM (importItem mode orgId locationId itemMap categoryId i item) (\<lambda>written.
     bindM (importItems mode orgId locationId itemMap categoryId (Suc i) items) (\<lambda>ids.
       returnM ((case written of None \<Rightarrow> [] | Some x \<Rightarrow> [x]) @ ids)))"

definition importCategory :: "uuid \<Rightarrow> (string \<rightharpoonup> uuid) \<Rightarrow> string \<Rightarrow> (uuid \<times> (string \<rightharpoonup> uuid)) menu" where
  "importCategory orgId catMap name =
     (case catMap (js_lower name) of
        Some c \<Rightarrow> returnM (c, catMap)
      | None \<Rightarrow>
          bindM (outerM freshId) (\<lambda>i. bindM menuNow (\<lambda>now.
          thenM (insertCategory \<lparr>cat_id = i, cat_organizationId = orgId, mca_name = name, mca_locationId = None,
              mca_isAvailable = True, mca_sortOrder = 0, mca_deletedAt = None, mca_updatedAt = now\<rparr>)
            (returnM (i, catMap(js_lower name \<mapsto> i))))))"

fun importCategories ::
  "import_mode \<Rightarrow> uuid \<Rightarrow> uuid option \<Rightarrow> (string \<rightharpoonup> menu_item) \<Rightarrow> (string \<rightharpoonup> uuid) \<Rightarrow> extracted_category list \<Rightarrow>
     uuid list menu" where
  "importCategories mode orgId locationId itemMap catMap [] = returnM []"
| "importCategories mode orgId locationId itemMap catMap (cat # cats) =
     (if xc_items cat = [] then importCategories mode orgId locationId itemMap catMap cats
      else
     bindM (importCategory orgId catMap (xc_name cat)) (\<lambda>(categoryId, catMap').
     bindM (importItems mode orgId locationId itemMap categoryId 0 (xc_items cat)) (\<lambda>ids.
     bindM (importCategories mode orgId locationId itemMap catMap' cats) (\<lambda>rest.
       returnM (ids @ rest)))))"

definition existingItemsOf :: "menu_tables \<Rightarrow> uuid \<Rightarrow> uuid option \<Rightarrow> menu_item list" where
  "existingItemsOf t orgId locationId =
     (case locationId of
        Some l \<Rightarrow> filter (\<lambda>i. mi_locationId i = Some l) (tb_items t)
      | None \<Rightarrow> filter (\<lambda>i. mi_categoryId i \<in> set (map cat_id (filter (\<lambda>c. cat_organizationId c = orgId) (tb_categories t))))
          (tb_items t))"

definition byName :: "menu_item list \<Rightarrow> (string \<rightharpoonup> menu_item)" where
  "byName items = js_map (map (\<lambda>i. (js_lower (mi_name i), i)) items)"

definition categoryIdsByName :: "menu_tables \<Rightarrow> uuid \<Rightarrow> (string \<rightharpoonup> uuid)" where
  "categoryIdsByName t orgId = js_map (map (\<lambda>c. (js_lower (mca_name c), cat_id c))
     (filter (\<lambda>c. cat_organizationId c = orgId) (tb_categories t)))"

text \<open>\<open>Array.from(itemMap.values())\<close>: of the items with one name, the last.\<close>

definition namedItems :: "menu_item list \<Rightarrow> menu_item list" where
  "namedItems items = filter (\<lambda>i. byName items (js_lower (mi_name i)) = Some i) items"

definition disableItems :: "uuid list \<Rightarrow> unit menu" where
  "disableItems ids = changeM (\<lambda>t. t\<lparr>tb_items := update_where (\<lambda>m. mi_id m \<in> set ids)
     (\<lambda>m. m\<lparr>mi_isAvailable := False\<rparr>) (tb_items t)\<rparr>)"

definition writeMenu :: "import_mode \<Rightarrow> uuid \<Rightarrow> uuid option \<Rightarrow> extracted_category list \<Rightarrow> unit menu" where
  "writeMenu mode orgId locationId categories =
     thenM (whenM (mode = Replace) (case locationId of Some l \<Rightarrow> wipeLocation l | None \<Rightarrow> wipeOrg orgId))
    (bindM (tablesM id) (\<lambda>t.
       let existingItems = existingItemsOf t orgId locationId in
     bindM (importCategories mode orgId locationId (byName existingItems) (categoryIdsByName t orgId) categories) (\<lambda>processed.
       whenM (mode = Sync)
         (disableItems (map mi_id (filter (\<lambda>i. mi_id i \<notin> set processed) (namedItems existingItems)))))))"

text \<open>\<open>cacheManager.clear()\<close>: every key under the cache's prefix, whoever put it there.\<close>

definition clearCache :: "cache_wiring \<Rightarrow> unit menu" where
  "clearCache cw = modifyM (\<lambda>s. s\<lparr>mn_cache := Map.empty, mn_world := (mn_world s)\<lparr>w_cache :=
     (\<lambda>k. if take (length (cw_prefix cw)) k = cw_prefix cw then None else w_cache (mn_world s) k)\<rparr>\<rparr>)"

definition processImport :: "menu_wiring \<Rightarrow> import_services \<Rightarrow> menu_import \<Rightarrow> nat menu" where
  "processImport mk ex job =
     bindM (liftE (readMenu ex (imj_url job))) (\<lambda>categories.
     thenM (menuTx (writeMenu (imj_mode job) (imj_orgId job) (imj_locationId job) categories))
    (thenM (clearCache (mk_cache mk))
       (returnM (length categories))))"

section \<open>The worker\<close>

definition setImport :: "string \<Rightarrow> (menu_import \<Rightarrow> menu_import) \<Rightarrow> unit menu" where
  "setImport i f = modifyM (\<lambda>s. s\<lparr>mn_imports := update_where (\<lambda>j. imj_id j = i) f (mn_imports s)\<rparr>)"

text \<open>
  A job that completes is removed (\<open>removeOnComplete\<close> of \<open>queues/queues.module.ts\<close>); one that throws waits for
  its next attempt until the third.
\<close>

definition runImport :: "menu_wiring \<Rightarrow> import_services \<Rightarrow> string \<Rightarrow> unit menu" where
  "runImport mk ex i =
     bindM (getsM (\<lambda>s. first_row (\<lambda>j. imj_id j = i \<and> imj_state j = ImportWaiting) (mn_imports s))) (\<lambda>found. case found of
       None \<Rightarrow> returnM ()
     | Some job \<Rightarrow> bindM menuNow (\<lambda>now.
         thenM (setImport i (\<lambda>j. j\<lparr>imj_state := ImportActive, imj_processedOn := Some now\<rparr>))
        (catchM
          (bindM (processImport mk ex job) (\<lambda>_.
             modifyM (\<lambda>s. s\<lparr>mn_imports := filter (\<lambda>j. imj_id j \<noteq> i) (mn_imports s)\<rparr>)))
          (\<lambda>e. setImport i (\<lambda>j. let n = Suc (imj_attemptsMade j) in
             j\<lparr>imj_attemptsMade := n, imj_failedReason := Some (exceptionText e),
               imj_state := (if n < ATTEMPTS then ImportWaiting else ImportFailed),
               imj_finishedOn := (if n < ATTEMPTS then imj_finishedOn j else Some now)\<rparr>)))))"

end
