(* ===== verification/Menu_Import_Home.thy ===== *)
theory Menu_Import_Home
  imports Menu_Tenants Menu_Import
begin

text \<open>
  What an import does outside its own rows. An import for an organization, or for a location whose items and
  groups are the organization's, leaves every other organization's menu as it was. A \<open>replace\<close> deletes rows,
  and with them, through the foreign keys, the lines of past orders.
\<close>

section \<open>Deleting\<close>

lemma staysWithin_dropLinks:
  assumes "wellLinked t \<Longrightarrow> \<forall>i \<in> set ids. orgOfItem t i = Some g"
  shows "staysWithin g t (t\<lparr>tb_itemGroups := filter (\<lambda>l. mitm_menuItemId l \<notin> set ids) (tb_itemGroups t)\<rparr>)"
  by (rule staysWithin_itemGroups) (use assms in \<open>auto simp del: filter_filter intro!: filter_keeping\<close>)

lemma staysWithin_fewerOptions:
  assumes "set xs \<subseteq> set (tb_options t)" and "wellLinked t \<Longrightarrow> distinct (map mim_id xs)"
    and "\<And>h. wellLinked t \<Longrightarrow> h \<noteq> g \<Longrightarrow> filter (\<lambda>x. orgOfGroup t (mim_modifierId x) = Some h) xs =
      filter (\<lambda>x. orgOfGroup t (mim_modifierId x) = Some h) (tb_options t)"
  shows "staysWithin g t (t\<lparr>tb_options := xs\<rparr>)"
  by (rule staysWithinI) (use assms in \<open>auto simp: wellLinked_def\<close>)

lemma staysWithin_dropOptions:
  assumes "wellLinked t \<Longrightarrow> \<forall>m \<in> set ids. orgOfGroup t m = Some g"
  shows "staysWithin g t (t\<lparr>tb_options := filter (\<lambda>x. mim_modifierId x \<notin> set ids) (tb_options t)\<rparr>)"
proof (rule staysWithin_fewerOptions)
  show "filter (\<lambda>x. orgOfGroup t (mim_modifierId x) = Some h) (filter (\<lambda>x. mim_modifierId x \<notin> set ids) (tb_options t)) =
      filter (\<lambda>x. orgOfGroup t (mim_modifierId x) = Some h) (tb_options t)" if "wellLinked t" "h \<noteq> g" for h
    using that assms by (intro filter_keeping) auto
qed (auto simp: wellLinked_def distinct_map_filter)

lemma first_row_filter:
  "(\<And>x. x \<in> set xs \<Longrightarrow> P x \<Longrightarrow> Q x = b) \<Longrightarrow> first_row P (filter Q xs) = (if b then first_row P xs else None)"
  by (induction xs) auto

lemma orgOfItem_without: "orgOfItem (withoutItems ids t) i = (if i \<in> ids then None else orgOfItem t i)"
proof -
  have "first_row (\<lambda>r. mi_id r = i) (filter (\<lambda>r. mi_id r \<notin> ids) (tb_items t)) =
      (if i \<notin> ids then first_row (\<lambda>r. mi_id r = i) (tb_items t) else None)"
    by (rule first_row_filter) auto
  then show ?thesis by (simp add: orgOfItem_def withoutItems_def orgOfCategory_def)
qed

lemma orgOfGroup_without: "orgOfGroup (withoutGroups ids t) m = (if m \<in> ids then None else orgOfGroup t m)"
proof -
  have "first_row (\<lambda>r. mm_id r = m) (filter (\<lambda>r. mm_id r \<notin> ids) (tb_groups t)) =
      (if m \<notin> ids then first_row (\<lambda>r. mm_id r = m) (tb_groups t) else None)"
    by (rule first_row_filter) auto
  then show ?thesis by (simp add: orgOfGroup_def withoutGroups_def)
qed

lemma without_same [simp]:
  "orgOfCategory (withoutItems ids t) c = orgOfCategory t c" "orgOfGroup (withoutItems ids t) m = orgOfGroup t m"
  "orgOfCategory (withoutGroups ids t) c = orgOfCategory t c" "orgOfItem (withoutGroups ids t) i = orgOfItem t i"
  by (simp_all add: orgOfCategory_def orgOfGroup_def orgOfItem_def withoutItems_def withoutGroups_def)

lemma without_rows:
  "tb_categories (withoutItems ids t) = tb_categories t" "tb_groups (withoutItems ids t) = tb_groups t"
  "tb_options (withoutItems ids t) = tb_options t" "tb_categoryGroups (withoutItems ids t) = tb_categoryGroups t"
  "tb_items (withoutItems ids t) = filter (\<lambda>i. mi_id i \<notin> ids) (tb_items t)"
  "tb_itemGroups (withoutItems ids t) = filter (\<lambda>l. mitm_menuItemId l \<notin> ids) (tb_itemGroups t)"
  "tb_categories (withoutGroups ids t) = tb_categories t" "tb_items (withoutGroups ids t) = tb_items t"
  "tb_groups (withoutGroups ids t) = filter (\<lambda>g. mm_id g \<notin> ids) (tb_groups t)"
  "tb_options (withoutGroups ids t) = filter (\<lambda>x. mim_modifierId x \<notin> ids) (tb_options t)"
  "tb_itemGroups (withoutGroups ids t) = filter (\<lambda>l. mitm_modifierId l \<notin> ids) (tb_itemGroups t)"
  "tb_categoryGroups (withoutGroups ids t) = filter (\<lambda>l. ctm_modifierId l \<notin> ids) (tb_categoryGroups t)"
  by (simp_all add: withoutItems_def withoutGroups_def)

lemma staysWithin_withoutItems:
  assumes own: "wellLinked t \<Longrightarrow> \<forall>i \<in> ids. orgOfItem t i = Some g"
  shows "staysWithin g t (withoutItems ids t)"
  unfolding staysWithin_def
proof (intro impI conjI allI)
  assume wl: "wellLinked t"
  note own = own[OF wl]
  show "wellLinked (withoutItems ids t)"
    using wl unfolding wellLinked_def orgOfItem_without without_same
    by (auto simp: without_rows distinct_map_filter)
  show "menuRows h (withoutItems ids t) = menuRows h t" if "h \<noteq> g" for h
  proof -
    have i: "filter (\<lambda>i. orgOfCategory t (mi_categoryId i) = Some h) (filter (\<lambda>i. mi_id i \<notin> ids) (tb_items t)) =
        filter (\<lambda>i. orgOfCategory t (mi_categoryId i) = Some h) (tb_items t)"
      using own that orgOfItem_row[OF wl] by (intro filter_keeping) auto
    have l: "filter (\<lambda>l. (if mitm_menuItemId l \<in> ids then None else orgOfItem t (mitm_menuItemId l)) = Some h)
        (filter (\<lambda>l. mitm_menuItemId l \<notin> ids) (tb_itemGroups t)) =
        filter (\<lambda>l. orgOfItem t (mitm_menuItemId l) = Some h) (tb_itemGroups t)"
      using own that by (auto intro!: filter_cong)
    show ?thesis
      by (simp only: menuRows_def orgOfItem_without without_same without_rows i l)
  qed
qed

lemma staysWithin_withoutGroups:
  assumes own: "wellLinked t \<Longrightarrow> \<forall>m \<in> ids. orgOfGroup t m = Some g"
  shows "staysWithin g t (withoutGroups ids t)"
  unfolding staysWithin_def
proof (intro impI conjI allI)
  assume wl: "wellLinked t"
  note own = own[OF wl]
  show "wellLinked (withoutGroups ids t)"
    using wl unfolding wellLinked_def orgOfGroup_without without_same
    by (auto simp: without_rows distinct_map_filter)
  show "menuRows h (withoutGroups ids t) = menuRows h t" if "h \<noteq> g" for h
  proof -
    have gr: "filter (\<lambda>m. mm_organizationId m = h) (filter (\<lambda>m. mm_id m \<notin> ids) (tb_groups t)) =
        filter (\<lambda>m. mm_organizationId m = h) (tb_groups t)"
      using own that orgOfGroup_row[OF wl] by (intro filter_keeping) auto
    have o: "filter (\<lambda>x. (if mim_modifierId x \<in> ids then None else orgOfGroup t (mim_modifierId x)) = Some h)
        (filter (\<lambda>x. mim_modifierId x \<notin> ids) (tb_options t)) =
        filter (\<lambda>x. orgOfGroup t (mim_modifierId x) = Some h) (tb_options t)"
      using own that by (auto intro!: filter_cong)
    have l: "filter (\<lambda>l. orgOfItem t (mitm_menuItemId l) = Some h) (filter (\<lambda>l. mitm_modifierId l \<notin> ids) (tb_itemGroups t)) =
        filter (\<lambda>l. orgOfItem t (mitm_menuItemId l) = Some h) (tb_itemGroups t)"
      using own that wl unfolding wellLinked_def by (intro filter_keeping) auto
    have c: "filter (\<lambda>l. orgOfCategory t (ctm_categoryId l) = Some h) (filter (\<lambda>l. ctm_modifierId l \<notin> ids) (tb_categoryGroups t)) =
        filter (\<lambda>l. orgOfCategory t (ctm_categoryId l) = Some h) (tb_categoryGroups t)"
      using own that wl unfolding wellLinked_def by (intro filter_keeping) auto
    show ?thesis
      by (simp only: menuRows_def orgOfGroup_without without_same without_rows gr o l c)
  qed
qed

lemma withoutCategories_rows:
  "tb_categories (withoutCategories ids t) = filter (\<lambda>c. cat_id c \<notin> ids) (tb_categories t)"
  "tb_categoryGroups (withoutCategories ids t) = filter (\<lambda>l. ctm_categoryId l \<notin> ids) (tb_categoryGroups t)"
  "tb_items (withoutCategories ids t) = tb_items t" "tb_groups (withoutCategories ids t) = tb_groups t"
  "tb_options (withoutCategories ids t) = tb_options t" "tb_itemGroups (withoutCategories ids t) = tb_itemGroups t"
  by (simp_all add: withoutCategories_def)

lemma staysWithin_withoutCategories:
  assumes own: "wellLinked t \<Longrightarrow> \<forall>c \<in> ids. orgOfCategory t c = Some g"
    and empty: "\<forall>i \<in> set (tb_items t). mi_categoryId i \<notin> ids"
  shows "staysWithin g t (withoutCategories ids t)"
  unfolding staysWithin_def
proof (intro impI conjI allI)
  let ?t = "withoutCategories ids t"
  assume wl: "wellLinked t"
  note own = own[OF wl]
  have "first_row (\<lambda>r. cat_id r = c) (filter (\<lambda>r. cat_id r \<notin> ids) (tb_categories t)) =
      (if c \<notin> ids then first_row (\<lambda>r. cat_id r = c) (tb_categories t) else None)" for c
    by (rule first_row_filter) auto
  then have org: "orgOfCategory ?t c = (if c \<in> ids then None else orgOfCategory t c)" for c
    by (simp add: orgOfCategory_def withoutCategories_rows)
  have item: "orgOfItem ?t i = orgOfItem t i" for i
    using empty by (cases "first_row (\<lambda>r. mi_id r = i) (tb_items t)")
      (auto simp: orgOfItem_def org withoutCategories_rows dest!: first_row_SomeD)
  have grp: "orgOfGroup ?t m = orgOfGroup t m" for m
    by (simp add: orgOfGroup_def withoutCategories_def)
  show "wellLinked ?t"
    using wl empty unfolding wellLinked_def org item grp by (auto simp: withoutCategories_rows distinct_map_filter)
  show "menuRows h ?t = menuRows h t" if "h \<noteq> g" for h
  proof -
    have c: "filter (\<lambda>m. cat_organizationId m = h) (filter (\<lambda>m. cat_id m \<notin> ids) (tb_categories t)) =
        filter (\<lambda>m. cat_organizationId m = h) (tb_categories t)"
      using own that orgOfCategory_row[OF wl] by (intro filter_keeping) auto
    have i: "filter (\<lambda>i. (if mi_categoryId i \<in> ids then None else orgOfCategory t (mi_categoryId i)) = Some h) (tb_items t) =
        filter (\<lambda>i. orgOfCategory t (mi_categoryId i) = Some h) (tb_items t)"
      using empty by (auto intro!: filter_cong)
    have l: "filter (\<lambda>l. (if ctm_categoryId l \<in> ids then None else orgOfCategory t (ctm_categoryId l)) = Some h)
        (filter (\<lambda>l. ctm_categoryId l \<notin> ids) (tb_categoryGroups t)) =
        filter (\<lambda>l. orgOfCategory t (ctm_categoryId l) = Some h) (tb_categoryGroups t)"
      using own that by (auto intro!: filter_cong)
    show ?thesis
      by (simp only: menuRows_def org item grp withoutCategories_rows c i l)
  qed
qed

text \<open>The rows an import for \<open>g\<close> may touch are \<open>g\<close>'s: always for a whole organization, and for a location of its own.\<close>

definition ownScope :: "menu_tables \<Rightarrow> uuid \<Rightarrow> uuid option \<Rightarrow> bool" where
  "ownScope t g locationId \<longleftrightarrow> (case locationId of None \<Rightarrow> True | Some l \<Rightarrow>
     (\<forall>i \<in> set (tb_items t). mi_locationId i = Some l \<longrightarrow> orgOfCategory t (mi_categoryId i) = Some g) \<and>
     (\<forall>m \<in> set (tb_groups t). mgr_locationId m = Some l \<longrightarrow> mm_organizationId m = g))"

lemma wipe_home:
  assumes wl: "wellLinked t" and items: "\<forall>i \<in> I. orgOfItem t i = Some g" and groups: "\<forall>m \<in> G. orgOfGroup t m = Some g"
    and fin: "I = set is" "G = set gs"
  shows "staysWithin g t (withoutGroups G (withoutItems I ((t\<lparr>tb_itemGroups := filter (\<lambda>l. mitm_menuItemId l \<notin> I) (tb_itemGroups t)\<rparr>)
    \<lparr>tb_options := filter (\<lambda>x. mim_modifierId x \<notin> G) (tb_options t)\<rparr>)))"
proof -
  let ?t1 = "t\<lparr>tb_itemGroups := filter (\<lambda>l. mitm_menuItemId l \<notin> set is) (tb_itemGroups t)\<rparr>"
  let ?t2 = "?t1\<lparr>tb_options := filter (\<lambda>x. mim_modifierId x \<notin> set gs) (tb_options ?t1)\<rparr>"
  have 1: "staysWithin g t ?t1" using items fin by (intro staysWithin_dropLinks) simp
  have 2: "staysWithin g ?t1 ?t2" using groups fin by (intro staysWithin_dropOptions) simp
  have 3: "staysWithin g ?t2 (withoutItems I ?t2)" using items by (intro staysWithin_withoutItems) simp
  have 4: "staysWithin g (withoutItems I ?t2) (withoutGroups G (withoutItems I ?t2))"
    using groups by (intro staysWithin_withoutGroups) simp
  from 1 2 3 4 show ?thesis using fin by (auto intro: staysWithin_trans)
qed

lemma wipeLocation_home:
  assumes "wipeLocation l s = (r, s')" and wl: "wellLinked (mn_tables s)" and own: "ownScope (mn_tables s) g (Some l)"
  shows "staysWithin g (mn_tables s) (mn_tables s')"
proof -
  let ?t = "mn_tables s"
  let ?I = "set (map mi_id (filter (\<lambda>i. mi_locationId i = Some l) (tb_items ?t)))"
  let ?G = "set (map mm_id (filter (\<lambda>m. mgr_locationId m = Some l) (tb_groups ?t)))"
  have "mn_tables s' = withoutGroups ?G (withoutItems ?I ((?t\<lparr>tb_itemGroups := filter (\<lambda>l. mitm_menuItemId l \<notin> ?I) (tb_itemGroups ?t)\<rparr>)
      \<lparr>tb_options := filter (\<lambda>x. mim_modifierId x \<notin> ?G) (tb_options ?t)\<rparr>))"
    using assms(1) by (auto simp: wipeLocation_def dropItemLinks_def dropOptions_def deleteItems_def deleteGroups_def)
  moreover have i: "\<forall>i \<in> ?I. orgOfItem ?t i = Some g" using own orgOfItem_row[OF wl] by (auto simp: ownScope_def)
  have m: "\<forall>m \<in> ?G. orgOfGroup ?t m = Some g" using own orgOfGroup_row[OF wl] by (auto simp: ownScope_def)
  note wipe_home[OF wl i m refl refl]
  ultimately show ?thesis by (simp only:)
qed

lemma without_none: "withoutItems {} t = t" "withoutLines {} d = d"
  by (simp_all add: withoutItems_def withoutLines_def)

abbreviation orgCategoryIds :: "menu_tables \<Rightarrow> uuid \<Rightarrow> uuid set" where
  "orgCategoryIds t g \<equiv> set (map cat_id (filter (\<lambda>c. cat_organizationId c = g) (tb_categories t)))"

abbreviation orgItemIds :: "menu_tables \<Rightarrow> uuid \<Rightarrow> uuid set" where
  "orgItemIds t g \<equiv> set (map mi_id (filter (\<lambda>i. mi_categoryId i \<in> orgCategoryIds t g) (tb_items t)))"

abbreviation orgGroupIds :: "menu_tables \<Rightarrow> uuid \<Rightarrow> uuid set" where
  "orgGroupIds t g \<equiv> set (map mm_id (filter (\<lambda>m. mm_organizationId m = g) (tb_groups t)))"

definition orgWiped :: "menu_tables \<Rightarrow> uuid \<Rightarrow> menu_tables" where
  "orgWiped t g = withoutGroups (orgGroupIds t g) (withoutItems (orgItemIds t g)
     ((t\<lparr>tb_itemGroups := filter (\<lambda>l. mitm_menuItemId l \<notin> orgItemIds t g) (tb_itemGroups t)\<rparr>)
      \<lparr>tb_options := filter (\<lambda>x. mim_modifierId x \<notin> orgGroupIds t g) (tb_options t)\<rparr>))"

lemma orgWiped_empty: "\<forall>i \<in> set (tb_items (orgWiped t g)). mi_categoryId i \<notin> orgCategoryIds t g"
proof
  fix i assume "i \<in> set (tb_items (orgWiped t g))"
  then have "i \<in> set (tb_items t)" and "mi_id i \<notin> orgItemIds t g" unfolding orgWiped_def without_rows by simp_all
  then show "mi_categoryId i \<notin> orgCategoryIds t g" unfolding set_map set_filter by blast
qed

lemma wipeOrg_run:
  "wipeOrg g s = (Inr (), s\<lparr>mn_world := (mn_world s)\<lparr>w_db := withoutLines (orgItemIds (mn_tables s) g) (w_db (mn_world s))\<rparr>,
     mn_tables := withoutCategories (orgCategoryIds (mn_tables s) g) (orgWiped (mn_tables s) g)\<rparr>)"
proof -
  let ?t = "mn_tables s"
  have none: "filter (\<lambda>i. mi_categoryId i \<in> orgCategoryIds ?t g) (tb_items (orgWiped ?t g)) = []"
    unfolding filter_empty_conv by (rule orgWiped_empty)
  have "wipeOrg g s = deleteCategories (map cat_id (filter (\<lambda>c. cat_organizationId c = g) (tb_categories ?t)))
      (s\<lparr>mn_world := (mn_world s)\<lparr>w_db := withoutLines (orgItemIds ?t g) (w_db (mn_world s))\<rparr>, mn_tables := orgWiped ?t g\<rparr>)"
    by (simp add: wipeOrg_def dropItemLinks_def dropOptions_def deleteItems_def deleteGroups_def orgWiped_def
        del: filter_filter set_map set_filter)
  then show ?thesis
    by (simp add: deleteCategories_def deleteItems_def none without_none del: filter_filter set_map set_filter)
qed

lemma wipeOrg_home:
  assumes "wipeOrg g s = (r, s')" and wl: "wellLinked (mn_tables s)"
  shows "staysWithin g (mn_tables s) (mn_tables s')"
proof -
  let ?t = "mn_tables s"
  have cat: "\<forall>c \<in> orgCategoryIds ?t g. orgOfCategory ?t c = Some g" using orgOfCategory_row[OF wl] by auto
  then have i: "\<forall>i \<in> orgItemIds ?t g. orgOfItem ?t i = Some g" using orgOfItem_row[OF wl] by auto
  have m: "\<forall>m \<in> orgGroupIds ?t g. orgOfGroup ?t m = Some g" using orgOfGroup_row[OF wl] by auto
  have 1: "staysWithin g ?t (orgWiped ?t g)" unfolding orgWiped_def by (rule wipe_home[OF wl i m refl refl])
  have "staysWithin g (orgWiped ?t g) (withoutCategories (orgCategoryIds ?t g) (orgWiped ?t g))"
  proof (rule staysWithin_withoutCategories[OF _ orgWiped_empty])
    have "orgOfCategory (orgWiped ?t g) c = orgOfCategory ?t c" for c
      unfolding orgWiped_def without_same by simp
    with cat show "\<forall>c \<in> orgCategoryIds ?t g. orgOfCategory (orgWiped ?t g) c = Some g" by simp
  qed
  with 1 have "staysWithin g ?t (withoutCategories (orgCategoryIds ?t g) (orgWiped ?t g))" by (rule staysWithin_trans)
  then show ?thesis using assms(1) unfolding wipeOrg_run by auto
qed

lemma wipeLocation_lines:
  "wipeLocation l s = (r, s') \<Longrightarrow> aside s s' \<and>
   w_db (mn_world s') = withoutLines (set (map mi_id (filter (\<lambda>i. mi_locationId i = Some l) (tb_items (mn_tables s))))) (w_db (mn_world s))"
  by (auto simp: wipeLocation_def dropItemLinks_def dropOptions_def deleteItems_def deleteGroups_def aside_def)

section \<open>Writing\<close>

text \<open>Rows are only added or stay with their owner.\<close>

definition grown :: "uuid \<Rightarrow> menu_world \<Rightarrow> menu_world \<Rightarrow> bool" where
  "grown g s s' \<longleftrightarrow> staysWithin g (mn_tables s) (mn_tables s') \<and>
     (\<forall>c. orgOfCategory (mn_tables s) c = Some g \<longrightarrow> orgOfCategory (mn_tables s') c = Some g) \<and>
     (\<forall>i. orgOfItem (mn_tables s) i = Some g \<longrightarrow> orgOfItem (mn_tables s') i = Some g) \<and>
     (\<forall>m. orgOfGroup (mn_tables s) m = Some g \<longrightarrow> orgOfGroup (mn_tables s') m = Some g)"

lemma grown_refl: "mn_tables s' = mn_tables s \<Longrightarrow> grown g s s'"
  by (simp add: grown_def)

lemma grown_trans: "grown g s s1 \<Longrightarrow> grown g s1 s' \<Longrightarrow> grown g s s'"
  by (auto simp: grown_def intro: staysWithin_trans)

lemma grown_linked: "grown g s s' \<Longrightarrow> wellLinked (mn_tables s) \<Longrightarrow> wellLinked (mn_tables s')"
  by (simp add: grown_def staysWithin_def)

lemma owners_newCategory:
  "orgOfCategory t c = Some g \<Longrightarrow> orgOfCategory (t\<lparr>tb_categories := tb_categories t @ [r]\<rparr>) c = Some g"
  "orgOfItem t i = Some g \<Longrightarrow> orgOfItem (t\<lparr>tb_categories := tb_categories t @ [r]\<rparr>) i = Some g"
  by (auto simp: orgOfCategory_def orgOfItem_def first_row_append Option.bind_eq_Some_conv split: option.splits)

lemma owners_newGroup: "orgOfGroup t m = Some g \<Longrightarrow> orgOfGroup (t\<lparr>tb_groups := tb_groups t @ [r]\<rparr>) m = Some g"
  by (auto simp: orgOfGroup_def first_row_append split: option.splits)

lemma owners_newItem: "orgOfItem t i = Some g \<Longrightarrow> orgOfItem (t\<lparr>tb_items := tb_items t @ [r]\<rparr>) i = Some g"
  by (auto simp: orgOfItem_def first_row_append Option.bind_eq_Some_conv split: option.splits)

lemma importOption_grown:
  assumes "importOption m opt s = (Inr u, s')" and "orgOfGroup (mn_tables s) m = Some g"
  shows "grown g s s'"
  using assms
  by (auto simp: importOption_def insertOption_def prog_step list_ex_iff grown_def intro!: staysWithin_newOption split: if_splits)

lemma importOptions_grown:
  "forM opts (importOption m) s = (Inr u, s') \<Longrightarrow> orgOfGroup (mn_tables s) m = Some g \<Longrightarrow> grown g s s'"
proof (induction opts arbitrary: s)
  case (Cons opt opts)
  then obtain v s1 where 1: "importOption m opt s = (Inr v, s1)" and 2: "forM opts (importOption m) s1 = (Inr u, s')"
    by (auto elim: thenM_InrE)
  have g1: "grown g s s1" using importOption_grown[OF 1] Cons.prems(2) .
  then have "grown g s1 s'" using Cons.IH[OF 2] Cons.prems(2) by (simp add: grown_def)
  with g1 show ?case by (rule grown_trans)
qed (simp add: grown_refl)

lemma importGroup_grown:
  assumes "importGroup g loc i mg s = (Inr u, s')" and own: "orgOfItem (mn_tables s) i = Some g"
  shows "grown g s s'"
proof -
  let ?m = "w_ids (mn_world s) (w_nextId (mn_world s))"
  let ?row = "\<lparr>mm_id = ?m, mm_name = xg_name mg, mm_organizationId = g, mm_isRequired = xg_isRequired mg, mm_multiSelect = False,
     mm_maxSelections = None, mm_deletedAt = None, mgr_locationId = loc, mgr_updatedAt = w_now (mn_world s)\<rparr>"
  let ?w = "mn_world s\<lparr>w_nextId := Suc (w_nextId (mn_world s))\<rparr>"
  let ?t1 = "(mn_tables s)\<lparr>tb_groups := tb_groups (mn_tables s) @ [?row]\<rparr>"
  let ?t2 = "?t1\<lparr>tb_itemGroups := tb_itemGroups ?t1 @ [\<lparr>mitm_menuItemId = i, mitm_modifierId = ?m\<rparr>]\<rparr>"
  have new: "\<forall>x \<in> set (tb_groups (mn_tables s)). mm_id x \<noteq> ?m"
    and opts: "forM (nvl (xg_options mg) []) (importOption ?m) (s\<lparr>mn_world := ?w, mn_tables := ?t2\<rparr>) = (Inr u, s')"
    using assms(1) by (auto simp: importGroup_def insertGroup_def atSite_def seq_assoc prog_step list_ex_iff split: if_splits)
  have "orgOfGroup ?t1 ?m = Some g"
    using new by (simp add: orgOfGroup_def first_row_append first_row_none)
  then have m: "orgOfGroup ?t2 ?m = Some g" by simp
  have "staysWithin g (mn_tables s) ?t1" using new by (intro staysWithin_newGroup) auto
  moreover have "staysWithin g ?t1 ?t2" using own m by (intro staysWithin_itemGroups) auto
  ultimately have "grown g s (s\<lparr>mn_world := ?w, mn_tables := ?t2\<rparr>)"
    by (auto simp: grown_def intro: staysWithin_trans owners_newGroup)
  moreover have "grown g (s\<lparr>mn_world := ?w, mn_tables := ?t2\<rparr>) s'"
    using importOptions_grown[OF opts] m by simp
  ultimately show ?thesis by (rule grown_trans)
qed

lemma importGroups_grown:
  "forM gs (importGroup g loc i) s = (Inr u, s') \<Longrightarrow> orgOfItem (mn_tables s) i = Some g \<Longrightarrow> grown g s s'"
proof (induction gs arbitrary: s)
  case (Cons x gs)
  then obtain v s1 where 1: "importGroup g loc i x s = (Inr v, s1)" and 2: "forM gs (importGroup g loc i) s1 = (Inr u, s')"
    by (auto elim: thenM_InrE)
  have g1: "grown g s s1" using importGroup_grown[OF 1] Cons.prems(2) .
  then have "grown g s1 s'" using Cons.IH[OF 2] Cons.prems(2) by (simp add: grown_def)
  with g1 show ?case by (rule grown_trans)
qed (simp add: grown_refl)

lemma js_map_values: "js_map (map (\<lambda>x. (f x, h x)) xs) k = Some v \<Longrightarrow> \<exists>x \<in> set xs. v = h x"
  by (auto dest!: js_map_SomeD)

lemma insertItem_Inr:
  assumes "insertItem r s = (Inr u, s')"
  shows "\<forall>x \<in> set (tb_items (mn_tables s)). mi_id x \<noteq> mi_id r" and "s' = s\<lparr>mn_tables := (mn_tables s)\<lparr>tb_items := tb_items (mn_tables s) @ [r]\<rparr>\<rparr>"
  using assms by (auto simp: insertItem_def atSite_def seq_assoc prog_step list_ex_iff split: if_splits)

lemma insertCategory_Inr:
  assumes "insertCategory r s = (Inr u, s')"
  shows "\<forall>x \<in> set (tb_categories (mn_tables s)). cat_id x \<noteq> cat_id r"
    and "s' = s\<lparr>mn_tables := (mn_tables s)\<lparr>tb_categories := tb_categories (mn_tables s) @ [r]\<rparr>\<rparr>"
  using assms by (auto simp: insertCategory_def atSite_def seq_assoc prog_step list_ex_iff split: if_splits)

lemma thenM_return: "thenM m (returnM a) s = (Inr b, s') \<longleftrightarrow> b = a \<and> (\<exists>u. m s = (Inr u, s'))"
  by (auto simp: thenM_def bindM_def split: prod.splits sum.splits)

lemma importRow_grown:
  assumes "importRow loc c n item existing s = (Inr i, s')" and wl: "wellLinked (mn_tables s)"
    and cat: "orgOfCategory (mn_tables s) c = Some g"
    and old: "\<And>m. existing = Some m \<Longrightarrow> orgOfItem (mn_tables s) (mi_id m) = Some g"
  shows "grown g s s' \<and> orgOfItem (mn_tables s') i = Some g"
proof (cases existing)
  case None
  let ?new = "w_ids (mn_world s) (w_nextId (mn_world s))"
  let ?row = "\<lparr>mi_id = ?new, mi_name = xi_name item, mi_price = xi_price item, mi_categoryId = c, mi_locationId = loc,
    mi_isAvailable = True, mi_taxExempt = False, mi_stockQuantity = None, mi_deletedAt = None,
    mit_description = Some (nvl (xi_description item) []), mit_isFavorite = False, mit_imageUrl = None, mit_sortOrder = int n,
    mit_availabilitySchedule = None, mit_sku = None, mit_isCombo = False, mit_lowStockThreshold = None,
    mit_updatedAt = w_now (mn_world s)\<rparr>"
  have "thenM (insertItem ?row) (returnM ?new) (s\<lparr>mn_world := (mn_world s)\<lparr>w_nextId := Suc (w_nextId (mn_world s))\<rparr>\<rparr>) = (Inr i, s')"
    using assms(1) None by (simp add: importRow_def)
  then obtain u where ins: "insertItem ?row (s\<lparr>mn_world := (mn_world s)\<lparr>w_nextId := Suc (w_nextId (mn_world s))\<rparr>\<rparr>) = (Inr u, s')" and i: "i = ?new"
    unfolding thenM_return by blast
  have new: "\<forall>x \<in> set (tb_items (mn_tables s)). mi_id x \<noteq> ?new"
    and t': "mn_tables s' = (mn_tables s)\<lparr>tb_items := tb_items (mn_tables s) @ [?row]\<rparr>"
    using insertItem_Inr[OF ins] by simp_all
  have "staysWithin g (mn_tables s) (mn_tables s')"
    unfolding t' using new cat by (intro staysWithin_newItem) auto
  moreover have "orgOfItem (mn_tables s') i = Some g"
    unfolding t' i using new cat by (simp add: orgOfItem_def first_row_append first_row_none)
  ultimately show ?thesis unfolding grown_def by (simp add: t' owners_newItem)
next
  case (Some m)
  let ?f = "\<lambda>m. m\<lparr>mi_price := xi_price item, mit_description := Some (nvl (xi_description item) []), mi_categoryId := c\<rparr>"
  have t': "mn_tables s' = (mn_tables s)\<lparr>tb_items := update_where (\<lambda>x. mi_id x = mi_id m) ?f (tb_items (mn_tables s))\<rparr>"
    and i: "i = mi_id m"
    using assms(1) Some by (auto simp: importRow_def)
  have own: "orgOfCategory (mn_tables s) (mi_categoryId x) = Some g" if "x \<in> set (tb_items (mn_tables s))" "mi_id x = mi_id m" for x
    using item_rows[OF wl old[OF Some] that] .
  have "staysWithin g (mn_tables s) (mn_tables s')"
    unfolding t' using own cat by (intro staysWithin_items) auto
  moreover have keep: "orgOfItem (mn_tables s') k = Some g" if "orgOfItem (mn_tables s) k = Some g" for k
    using that cat by (cases "first_row (\<lambda>r. mi_id r = k) (tb_items (mn_tables s))") (auto simp: t' orgOfItem_def first_row_update_where)
  ultimately show ?thesis using old[OF Some] i by (auto simp: grown_def t')
qed

lemma importItem_grown:
  assumes run: "importItem mode g loc itemMap c n item s = (Inr w, s')" and wl: "wellLinked (mn_tables s)"
    and cat: "orgOfCategory (mn_tables s) c = Some g"
    and old: "\<And>k m. itemMap k = Some m \<Longrightarrow> orgOfItem (mn_tables s) (mi_id m) = Some g"
  shows "grown g s s'"
proof (cases "itemMap (js_lower (xi_name item)) \<noteq> None \<and> mode = AddNew")
  case True
  then show ?thesis using run by (auto simp: importItem_def Let_def intro: grown_refl)
next
  case False
  let ?e = "itemMap (js_lower (xi_name item))"
  let ?links = "\<lambda>i. thenM (whenM (?e \<noteq> None) (dropItemLinks [i])) (forM (nvl (xi_modifiers item) []) (importGroup g loc i))"
  let ?b = "nvl (xi_modifiers item) [] \<noteq> [] \<and> mode \<noteq> AddNew"
  have "bindM (importRow loc c n item ?e) (\<lambda>i. thenM (whenM ?b (?links i)) (returnM (Some i))) s = (Inr w, s')"
    using run unfolding importItem_def Let_def if_not_P[OF False] .
  then obtain i s1 where row: "importRow loc c n item ?e s = (Inr i, s1)" and rest: "thenM (whenM ?b (?links i)) (returnM (Some i)) s1 = (Inr w, s')"
    by (rule bindM_InrE)
  have g1: "grown g s s1" and i: "orgOfItem (mn_tables s1) i = Some g"
    using importRow_grown[OF row wl cat] old by auto
  have "grown g s1 s'"
  proof (cases ?b)
    case True
    then have "thenM (?links i) (returnM (Some i)) s1 = (Inr w, s')" using rest by simp
    then obtain v where links: "?links i s1 = (Inr v, s')" unfolding thenM_return by blast
    let ?s2 = "if ?e \<noteq> None then s1\<lparr>mn_tables := (mn_tables s1)\<lparr>tb_itemGroups :=
       filter (\<lambda>l. mitm_menuItemId l \<notin> set [i]) (tb_itemGroups (mn_tables s1))\<rparr>\<rparr> else s1"
    have groups: "forM (nvl (xi_modifiers item) []) (importGroup g loc i) ?s2 = (Inr v, s')"
      using links by (auto simp: dropItemLinks_def split: if_splits)
    have "staysWithin g (mn_tables s1) (mn_tables ?s2)"
      using staysWithin_dropLinks[of "mn_tables s1" "[i]" g] i by auto
    then have g2: "grown g s1 ?s2" by (auto simp: grown_def)
    then have "orgOfItem (mn_tables ?s2) i = Some g" using i by (simp add: grown_def)
    from importGroups_grown[OF groups this] g2 show ?thesis using grown_trans by blast
  qed (use rest in \<open>auto intro: grown_refl\<close>)
  with g1 show ?thesis by (rule grown_trans)
qed

lemma importItems_grown:
  "importItems mode g loc itemMap c n items s = (Inr w, s') \<Longrightarrow> wellLinked (mn_tables s) \<Longrightarrow>
   orgOfCategory (mn_tables s) c = Some g \<Longrightarrow>
   (\<And>k m. itemMap k = Some m \<Longrightarrow> orgOfItem (mn_tables s) (mi_id m) = Some g) \<Longrightarrow> grown g s s'"
proof (induction items arbitrary: n s w)
  case (Cons item items)
  obtain x s1 w' where 1: "importItem mode g loc itemMap c n item s = (Inr x, s1)"
    and 2: "importItems mode g loc itemMap c (Suc n) items s1 = (Inr w', s')"
    using Cons.prems(1) by (auto elim!: bindM_InrE)
  have g1: "grown g s s1" using importItem_grown[OF 1 Cons.prems(2,3)] Cons.prems(4) by blast
  then have "grown g s1 s'"
    using Cons.IH[OF 2] grown_linked[OF g1] Cons.prems by (simp add: grown_def)
  with g1 show ?case by (rule grown_trans)
qed (auto intro: grown_refl)

lemma importCategory_grown:
  assumes "importCategory g catMap name s = (Inr (c, catMap'), s')"
    and "\<And>k v. catMap k = Some v \<Longrightarrow> orgOfCategory (mn_tables s) v = Some g"
  shows "grown g s s' \<and> orgOfCategory (mn_tables s') c = Some g \<and>
    (\<forall>k v. catMap' k = Some v \<longrightarrow> orgOfCategory (mn_tables s') v = Some g)"
proof (cases "catMap (js_lower name)")
  case (Some v)
  then show ?thesis using assms by (auto simp: importCategory_def grown_refl)
next
  case None
  let ?new = "w_ids (mn_world s) (w_nextId (mn_world s))"
  let ?row = "\<lparr>cat_id = ?new, cat_organizationId = g, mca_name = name, mca_locationId = None, mca_isAvailable = True,
    mca_sortOrder = 0, mca_deletedAt = None, mca_updatedAt = w_now (mn_world s)\<rparr>"
  have "thenM (insertCategory ?row) (returnM (?new, catMap(js_lower name \<mapsto> ?new)))
      (s\<lparr>mn_world := (mn_world s)\<lparr>w_nextId := Suc (w_nextId (mn_world s))\<rparr>\<rparr>) = (Inr (c, catMap'), s')"
    using assms(1) None by (simp add: importCategory_def)
  then obtain u where ins: "insertCategory ?row (s\<lparr>mn_world := (mn_world s)\<lparr>w_nextId := Suc (w_nextId (mn_world s))\<rparr>\<rparr>) = (Inr u, s')"
    and c: "c = ?new" and m: "catMap' = catMap(js_lower name \<mapsto> ?new)"
    unfolding thenM_return by blast
  have new: "\<forall>x \<in> set (tb_categories (mn_tables s)). cat_id x \<noteq> ?new"
    and t': "mn_tables s' = (mn_tables s)\<lparr>tb_categories := tb_categories (mn_tables s) @ [?row]\<rparr>"
    using insertCategory_Inr[OF ins] by simp_all
  have "staysWithin g (mn_tables s) (mn_tables s')"
    unfolding t' using new by (intro staysWithin_newCategory) auto
  then have "grown g s s'" unfolding grown_def by (simp add: t' owners_newCategory)
  moreover have "orgOfCategory (mn_tables s') c = Some g"
    unfolding t' c using new by (simp add: orgOfCategory_def first_row_append first_row_none)
  ultimately show ?thesis using assms(2) m c by (auto simp: grown_def)
qed

lemma importCategories_grown:
  "importCategories mode g loc itemMap catMap cats s = (Inr w, s') \<Longrightarrow> wellLinked (mn_tables s) \<Longrightarrow>
   (\<And>k v. catMap k = Some v \<Longrightarrow> orgOfCategory (mn_tables s) v = Some g) \<Longrightarrow>
   (\<And>k m. itemMap k = Some m \<Longrightarrow> orgOfItem (mn_tables s) (mi_id m) = Some g) \<Longrightarrow> grown g s s'"
proof (induction cats arbitrary: catMap s w)
  case (Cons cat cats)
  show ?case
  proof (cases "xc_items cat = []")
    case True
    then show ?thesis using Cons.IH[of catMap s w] Cons.prems by simp
  next
    case False
    obtain c catMap' s1 ids s2 w' where 1: "importCategory g catMap (xc_name cat) s = (Inr (c, catMap'), s1)"
      and 2: "importItems mode g loc itemMap c 0 (xc_items cat) s1 = (Inr ids, s2)"
      and 3: "importCategories mode g loc itemMap catMap' cats s2 = (Inr w', s')"
      using Cons.prems(1) False by (auto elim!: bindM_InrE split: prod.splits)
    note c = importCategory_grown[OF 1]
    have g1: "grown g s s1" "orgOfCategory (mn_tables s1) c = Some g"
      "\<forall>k v. catMap' k = Some v \<longrightarrow> orgOfCategory (mn_tables s1) v = Some g"
      using c Cons.prems(3) by auto
    have items: "orgOfItem (mn_tables s1) (mi_id m) = Some g" if "itemMap k = Some m" for k m
      using g1(1) Cons.prems(4)[OF that] by (simp add: grown_def)
    have g2: "grown g s1 s2"
      using importItems_grown[OF 2 grown_linked[OF g1(1) Cons.prems(2)] g1(2)] items by blast
    have "grown g s2 s'"
      using Cons.IH[OF 3 grown_linked[OF g2 grown_linked[OF g1(1) Cons.prems(2)]]] g1(3) items g2 by (simp add: grown_def)
    with g1(1) g2 show ?thesis by (meson grown_trans)
  qed
qed (auto intro: grown_refl)

lemma existing_owned:
  assumes wl: "wellLinked t" and scope: "ownScope t g loc" and i: "i \<in> set (existingItemsOf t g loc)"
  shows "orgOfItem t (mi_id i) = Some g"
proof -
  have "i \<in> set (tb_items t)" and "orgOfCategory t (mi_categoryId i) = Some g"
    using i scope orgOfCategory_row[OF wl] by (auto simp: existingItemsOf_def ownScope_def split: option.splits)
  then show ?thesis using orgOfItem_row[OF wl] by simp
qed

lemma wiped_scope: "wipeLocation l s = (r, s') \<Longrightarrow> ownScope (mn_tables s') g (Some l)"
  by (auto simp: wipeLocation_def dropItemLinks_def dropOptions_def deleteItems_def deleteGroups_def ownScope_def without_rows)

lemma writeMenu_home:
  assumes run: "writeMenu mode g loc cats s = (Inr u, s')" and wl: "wellLinked (mn_tables s)" and scope: "ownScope (mn_tables s) g loc"
  shows "staysWithin g (mn_tables s) (mn_tables s')"
proof -
  obtain v s1 where wipe: "whenM (mode = Replace) (case loc of Some l \<Rightarrow> wipeLocation l | None \<Rightarrow> wipeOrg g) s = (Inr v, s1)"
    and rest: "bindM (tablesM id) (\<lambda>t. let existingItems = existingItemsOf t g loc in
     bindM (importCategories mode g loc (byName existingItems) (categoryIdsByName t g) cats) (\<lambda>processed.
       whenM (mode = Sync)
         (disableItems (map mi_id (filter (\<lambda>i. mi_id i \<notin> set processed) (namedItems existingItems)))))) s1 = (Inr u, s')"
    using run unfolding writeMenu_def by (rule thenM_InrE)
  let ?t1 = "mn_tables s1"
  have 1: "staysWithin g (mn_tables s) ?t1"
    using wipe wl scope wipeLocation_home wipeOrg_home by (cases "mode = Replace"; cases loc) auto
  then have wl1: "wellLinked ?t1" using wl by (simp add: staysWithin_def)
  have scope1: "ownScope ?t1 g loc"
  proof (cases loc)
    case (Some l)
    then show ?thesis using wipe scope wiped_scope by (cases "mode = Replace") auto
  qed (simp add: ownScope_def)
  let ?old = "existingItemsOf ?t1 g loc"
  obtain processed s2 where imp: "importCategories mode g loc (byName ?old) (categoryIdsByName ?t1 g) cats s1 = (Inr processed, s2)"
    and dis: "whenM (mode = Sync) (disableItems (map mi_id (filter (\<lambda>i. mi_id i \<notin> set processed) (namedItems ?old)))) s2 = (Inr u, s')"
    using rest by (auto simp: Let_def elim: bindM_InrE)
  have "grown g s1 s2"
  proof (rule importCategories_grown[OF imp wl1])
    show "orgOfCategory ?t1 v = Some g" if "categoryIdsByName ?t1 g k = Some v" for k v
      using js_map_values[OF that[unfolded categoryIdsByName_def]] orgOfCategory_row[OF wl1] by auto
    show "orgOfItem ?t1 (mi_id m) = Some g" if "byName ?old k = Some m" for k m
      using existing_owned[OF wl1 scope1] js_map_values[OF that[unfolded byName_def]] by auto
  qed
  then have 2: "staysWithin g ?t1 (mn_tables s2)" and keep: "\<And>i. orgOfItem ?t1 i = Some g \<Longrightarrow> orgOfItem (mn_tables s2) i = Some g"
    by (simp_all add: grown_def)
  have wl2: "wellLinked (mn_tables s2)" using 2 wl1 by (simp add: staysWithin_def)
  have "staysWithin g (mn_tables s2) (mn_tables s')"
  proof (cases "mode = Sync")
    case True
    have own: "orgOfCategory (mn_tables s2) (mi_categoryId x) = Some g"
      if mem: "x \<in> set (tb_items (mn_tables s2))" and gone: "mi_id x \<in> set (map mi_id (filter (\<lambda>i. mi_id i \<notin> set processed) (namedItems ?old)))" for x
    proof -
      obtain i where "i \<in> set ?old" "mi_id x = mi_id i" using gone by (auto simp: namedItems_def)
      then have "orgOfItem (mn_tables s2) (mi_id x) = Some g" using keep existing_owned[OF wl1 scope1] by simp
      from item_rows[OF wl2 this mem refl] show ?thesis .
    qed
    then show ?thesis
      using dis True unfolding disableItems_def by (auto intro!: staysWithin_items)
  qed (use dis in simp)
  with 1 2 show ?thesis by (meson staysWithin_trans)
qed

section \<open>What else a worker touches\<close>

abbreviation calm :: "'a menu \<Rightarrow> bool" where
  "calm m \<equiv> preserves (\<lambda>s. (mn_cache s, w_now (mn_world s), w_db (mn_world s))) m"

lemma calm_basic [frame]: "calm (outerM freshId)" "calm (changeM f)" "calm (tablesM h)" "calm menuNow"
  by (simp_all add: preserves_def outerM_def)

lemmas write_defs = insertCategory_def insertItem_def insertGroup_def insertOption_def atSite_def importOption_def
  importGroup_def importRow_def importItem_def importCategory_def dropItemLinks_def disableItems_def Let_def

lemma calm_items [frame]: "calm (importItems mode g loc itemMap c n items)"
  by (induction items arbitrary: n) (auto simp: write_defs intro!: frame)

lemma calm_categories [frame]: "calm (importCategories mode g loc itemMap catMap cats)"
  by (induction cats arbitrary: catMap) (auto simp: importCategory_def insertCategory_def atSite_def intro!: frame split: prod.split)

text \<open>The lines an import deletes: none, or those of the items it replaces.\<close>

definition replacedItems :: "menu_tables \<Rightarrow> uuid \<Rightarrow> uuid option \<Rightarrow> import_mode \<Rightarrow> uuid set" where
  "replacedItems t g loc mode = (if mode = Replace then set (map mi_id (existingItemsOf t g loc)) else {})"

lemma writeMenu_lines:
  assumes "writeMenu mode g loc cats s = (r, s')"
  shows "aside s s' \<and> w_db (mn_world s') = withoutLines (replacedItems (mn_tables s) g loc mode) (w_db (mn_world s))"
proof -
  let ?wipe = "whenM (mode = Replace) (case loc of Some l \<Rightarrow> wipeLocation l | None \<Rightarrow> wipeOrg g)"
  let ?rest = "bindM (tablesM id) (\<lambda>t. let existingItems = existingItemsOf t g loc in
     bindM (importCategories mode g loc (byName existingItems) (categoryIdsByName t g) cats) (\<lambda>processed.
       whenM (mode = Sync)
         (disableItems (map mi_id (filter (\<lambda>i. mi_id i \<notin> set processed) (namedItems existingItems))))))"
  obtain v s1 where wipe: "?wipe s = (v, s1)" by fastforce
  have 1: "aside s s1 \<and> w_db (mn_world s1) = withoutLines (replacedItems (mn_tables s) g loc mode) (w_db (mn_world s)) \<and> v = Inr ()"
  proof (cases "mode = Replace")
    case True
    show ?thesis
    proof (cases loc)
      case None
      then show ?thesis using wipe True by (auto simp: wipeOrg_run aside_def replacedItems_def existingItemsOf_def)
    next
      case (Some l)
      moreover have "fst (wipeLocation l s) = Inr ()"
        by (simp add: wipeLocation_def dropItemLinks_def dropOptions_def deleteItems_def deleteGroups_def)
      ultimately show ?thesis
        using wipe True wipeLocation_lines[of l s v s1] by (simp add: replacedItems_def existingItemsOf_def)
    qed
  qed (use wipe in \<open>simp add: replacedItems_def aside_def without_none\<close>)
  have "calm ?rest" unfolding disableItems_def Let_def by (intro frame)
  moreover have "?rest s1 = (r, s')"
    using assms wipe 1 by (simp add: writeMenu_def thenM_def bindM_def)
  ultimately show ?thesis using 1 preservesD unfolding aside_def by fastforce
qed

section \<open>A processed import\<close>

lemma clearCache_run: "clearCache cw s = (Inr (), s\<lparr>mn_cache := Map.empty, mn_world := (mn_world s)\<lparr>w_cache :=
     (\<lambda>k. if take (length (cw_prefix cw)) k = cw_prefix cw then None else w_cache (mn_world s) k)\<rparr>\<rparr>)"
  by (simp add: clearCache_def)

lemma processImport_cases:
  assumes "processImport mk ex job s = (r, s')"
  obtains (failed) e where "r = Inl e" "mn_tables s' = mn_tables s" "mn_sites s' = mn_sites s" "aside s s'"
      "w_db (mn_world s') = w_db (mn_world s)"
  | (written) cats u s1 where "readMenu ex (imj_url job) = Inr cats" "r = Inr (length cats)"
      "writeMenu (imj_mode job) (imj_orgId job) (imj_locationId job) cats s = (Inr u, s1)"
      "clearCache (mk_cache mk) s1 = (Inr (), s')"
proof (cases "readMenu ex (imj_url job)")
  case (Inl e)
  then show thesis using assms failed by (auto simp: processImport_def aside_def)
next
  case (Inr cats)
  obtain x s1 where w: "writeMenu (imj_mode job) (imj_orgId job) (imj_locationId job) cats s = (x, s1)" by fastforce
  show thesis
  proof (cases x)
    case (Inl e)
    have "aside s s1" using writeMenu_lines[OF w] by simp
    then show thesis using assms Inr w Inl failed
      by (auto simp: processImport_def thenM_def bindM_def menuTx_def aside_def)
  next
    case x: (Inr u)
    then show thesis using assms Inr w written
      by (auto simp: processImport_def thenM_def bindM_def menuTx_def clearCache_run)
  qed
qed

lemma import_home:
  assumes "processImport mk ex job s = (r, s')" and "wellLinked (mn_tables s)"
    and "ownScope (mn_tables s) (imj_orgId job) (imj_locationId job)"
  shows "staysWithin (imj_orgId job) (mn_tables s) (mn_tables s')"
  using assms(1)
proof (cases rule: processImport_cases)
  case (written cats u s1)
  then show ?thesis using writeMenu_home[OF written(3) assms(2,3)] by (auto simp: clearCache_run)
qed simp

text \<open>
  Importing a menu for an organization, or for a location where every item and modifier group is the
  organization's, leaves every other organization's categories, items, groups, options and links exactly as they
  were, in all three modes and whether the import succeeds or fails, and keys and links stay well formed. A
  location of another organization, which the request does not exclude, is the exception.
\<close>

theorem import_stays_home:
  assumes "processImport mk ex job s = (r, s')" and "wellLinked (mn_tables s)"
    and "ownScope (mn_tables s) (imj_orgId job) (imj_locationId job)" and "h \<noteq> imj_orgId job"
  shows "wellLinked (mn_tables s') \<and> menuRows h (mn_tables s') = menuRows h (mn_tables s) \<and>
    pageOf (mn_tables s') h p l = pageOf (mn_tables s) h p l"
proof -
  have "wellLinked (mn_tables s')" "menuRows h (mn_tables s') = menuRows h (mn_tables s)"
    using import_home[OF assms(1,2,3)] assms(2,4) by (simp_all add: staysWithin_def)
  then show ?thesis using pageOf_own assms(2) by metis
qed

text \<open>
  C36. An import that fails leaves the lines of every order as they were. One that succeeds in the mode \<open>replace\<close>
  deletes, from every order ever taken, each line whose item stood in the replaced menu (of the location, or of
  the organization), because the foreign key of \<open>order_items\<close> cascades; in the other modes it deletes none.
\<close>

theorem replace_erases_order_lines:
  "t_orderItems (w_db (mn_world (snd (processImport mk ex job s)))) =
     filter (\<lambda>line. \<not> (imj_mode job = Replace \<and> \<not> isl (fst (processImport mk ex job s)) \<and>
               oi_menuItemId line \<in> mi_id ` set (existingItemsOf (mn_tables s) (imj_orgId job) (imj_locationId job))))
       (t_orderItems (w_db (mn_world s)))"
proof -
  obtain r s' where run: "processImport mk ex job s = (r, s')" by fastforce
  from run show ?thesis
  proof (cases rule: processImport_cases)
    case (written cats u s1)
    then show ?thesis using run writeMenu_lines[OF written(3)]
      by (auto simp: clearCache_run withoutLines_def replacedItems_def)
  qed (simp add: run)
qed

text \<open>An import that succeeds empties the cache of every organization, reserved and answered requests included.\<close>

lemma import_forgets_requests:
  assumes "processImport mk ex job s = (Inr n, s')"
  shows "mn_cache s' = Map.empty" and "liveValue (mn_world s') (cw_prefix (mk_cache mk) @ k) = None"
  using assms by (cases rule: processImport_cases; force simp: clearCache_run liveValue_def)+

text \<open>Nobody who asks for an import that succeeded is told so: its job is gone.\<close>

lemma setImport_run: "setImport i f s = (Inr (), s\<lparr>mn_imports := update_where (\<lambda>j. imj_id j = i) f (mn_imports s)\<rparr>)"
  by (simp add: setImport_def)

lemma finished_import_is_unknown:
  assumes "first_row (\<lambda>j. imj_id j = i \<and> imj_state j = ImportWaiting) (mn_imports s) = Some job"
    and "processImport mk ex job (snd (setImport i (\<lambda>j. j\<lparr>imj_state := ImportActive, imj_processedOn := Some (w_now (mn_world s))\<rparr>) s)) = (Inr n, s1)"
  shows "\<exists>s'. runImport mk ex i s = (Inr (), s') \<and>
    getImportJobStatus i s' = (Inl (NotFoundException (''Import job '' @ i @ '' not found.'')), s')"
proof -
  let ?s' = "s1\<lparr>mn_imports := filter (\<lambda>j. imj_id j \<noteq> i) (mn_imports s1)\<rparr>"
  have "runImport mk ex i s = (Inr (), ?s')"
    using assms by (simp add: runImport_def setImport_run thenM_def bindM_def[of "setImport _ _"] catchM_def bindM_eval)
  moreover have "first_row (\<lambda>j. imj_id j = i) (filter (\<lambda>j. imj_id j \<noteq> i) (mn_imports s1)) = None"
    by (rule first_row_none) simp
  ultimately show ?thesis by (simp add: getImportJobStatus_def)
qed

end
