(* ===== verification/Menu_Freshness.thy ===== *)
theory Menu_Freshness
  imports Menu_Import_Home
begin

text \<open>
  The cache of menu pages. A page is stored under the version of its organization's menu, every edit sets the
  version to the current time, and a version outlives the pages stored under it. Shown here over all histories of
  reads, edits, imports and passing time: a page served from the cache is the page the tables give, as long as no
  two invalidations of one menu fall into the same millisecond; when they do, the older page is served.
\<close>

section \<open>Versions\<close>

definition stampOf :: "menu_world \<Rightarrow> uuid \<Rightarrow> int" where
  "stampOf s g = (case mn_cache s (VersionKey g) of Some (Stamp t, _) \<Rightarrow> t | _ \<Rightarrow> 0)"

text \<open>The version read at a later time if nobody edits until then.\<close>

definition versionAt :: "menu_world \<Rightarrow> uuid \<Rightarrow> int \<Rightarrow> int" where
  "versionAt s g \<tau> = (case mn_cache s (VersionKey g) of Some (Stamp t, e) \<Rightarrow> if \<tau> < e then t else 0 | _ \<Rightarrow> 0)"

lemma menuVersion_at: "menuVersion s g = versionAt s g (w_now (mn_world s))"
  by (auto simp: menuVersion_def versionAt_def cached_def split: option.split prod.split menu_value.split)

lemma pageOf_location: "pageOf t g p (or_null l) = pageOf t g p l"
proof -
  have "shownAt (or_null l) = shownAt l" by (auto simp: shownAt_def or_null_def fun_eq_iff)
  then show ?thesis unfolding pageOf_def buildPage_def menuCategories_def menuItemsOf_def by (simp only:)
qed

text \<open>No page that a future reader could find under its version differs from the tables.\<close>

definition freshPages :: "menu_world \<Rightarrow> bool" where
  "freshPages s \<longleftrightarrow> wellLinked (mn_tables s) \<and>
     (\<forall>g. 0 \<le> stampOf s g) \<and>
     (\<forall>g ver sd l off n v e. mn_cache s (PageKey g ver sd l off n) = Some (v, e) \<longrightarrow>
        e \<le> w_now (mn_world s) + PAGE_TTL \<and> 0 \<le> ver \<and> ver \<le> stampOf s g \<and>
        (\<forall>\<tau>. w_now (mn_world s) \<le> \<tau> \<and> \<tau> < e \<and> versionAt s g \<tau> = ver \<longrightarrow>
           v = Page (buildPage (mn_tables s) g sd l off n)))"

lemma freshPages_linked: "freshPages s \<Longrightarrow> wellLinked (mn_tables s)"
  by (simp add: freshPages_def)

lemma freshPages_entry:
  assumes "freshPages s" and "mn_cache s (PageKey g ver sd l off n) = Some (v, e)"
  shows "e \<le> w_now (mn_world s) + PAGE_TTL" "0 \<le> ver" "ver \<le> stampOf s g"
    and "w_now (mn_world s) \<le> \<tau> \<Longrightarrow> \<tau> < e \<Longrightarrow> versionAt s g \<tau> = ver \<Longrightarrow> v = Page (buildPage (mn_tables s) g sd l off n)"
  using assms unfolding freshPages_def by blast+

lemma freshPagesI:
  assumes "wellLinked (mn_tables s)" and "\<And>g. 0 \<le> stampOf s g"
    and "\<And>g ver sd l off n v e. mn_cache s (PageKey g ver sd l off n) = Some (v, e) \<Longrightarrow>
      e \<le> w_now (mn_world s) + PAGE_TTL \<and> 0 \<le> ver \<and> ver \<le> stampOf s g"
    and "\<And>g ver sd l off n v e \<tau>. mn_cache s (PageKey g ver sd l off n) = Some (v, e) \<Longrightarrow> w_now (mn_world s) \<le> \<tau> \<Longrightarrow>
      \<tau> < e \<Longrightarrow> versionAt s g \<tau> = ver \<Longrightarrow> v = Page (buildPage (mn_tables s) g sd l off n)"
  shows "freshPages s"
  unfolding freshPages_def using assms by blast

lemma freshPages_same:
  assumes "freshPages s" and "mn_tables s' = mn_tables s" and "mn_cache s' = mn_cache s" and "w_now (mn_world s) \<le> w_now (mn_world s')"
  shows "freshPages s'"
proof (rule freshPagesI)
  have stamp: "stampOf s' g = stampOf s g" and version: "versionAt s' g \<tau> = versionAt s g \<tau>" for g \<tau>
    by (simp_all add: stampOf_def versionAt_def assms(3))
  show "wellLinked (mn_tables s')" using freshPages_linked[OF assms(1)] assms(2) by simp
  show "0 \<le> stampOf s' g" for g using assms(1) by (simp add: stamp freshPages_def)
  fix g ver sd l off n v e
  assume "mn_cache s' (PageKey g ver sd l off n) = Some (v, e)"
  then have entry: "mn_cache s (PageKey g ver sd l off n) = Some (v, e)" by (simp add: assms(3))
  show "e \<le> w_now (mn_world s') + PAGE_TTL \<and> 0 \<le> ver \<and> ver \<le> stampOf s' g"
    using freshPages_entry(1-3)[OF assms(1) entry] assms(4) by (simp add: stamp)
  show "v = Page (buildPage (mn_tables s') g sd l off n)"
    if "w_now (mn_world s') \<le> \<tau>" "\<tau> < e" "versionAt s' g \<tau> = ver" for \<tau>
    using freshPages_entry(4)[OF assms(1) entry, of \<tau>] that assms(2,4) by (simp add: version)
qed

section \<open>Reads\<close>

lemma getMenuByOrg_run:
  assumes "getMenuByOrg g p l s = (r, s')" and fresh: "freshPages s"
  shows "r = Inr (pageOf (mn_tables s) g p l)" and "freshPages s'" and "mn_tables s' = mn_tables s"
proof -
  let ?now = "w_now (mn_world s)" and ?key = "pageKey g (menuVersion s g) p l" and ?page = "pageOf (mn_tables s) g p l"
  have key: "?key = PageKey g (menuVersion s g) (pn_showDeleted p) (or_null l) (nvl (pn_offset p) 0) (nvl (pn_limit p) 20)"
    by (simp add: pageKey_def)
  have built: "buildPage (mn_tables s) g (pn_showDeleted p) (or_null l) (nvl (pn_offset p) 0) (nvl (pn_limit p) 20) = ?page"
    using pageOf_location[of "mn_tables s" g p l] by (simp add: pageOf_def)
  have hit: "v = Page ?page" if c: "cached s ?key = Some v" for v
  proof -
    obtain e where e: "mn_cache s ?key = Some (v, e)" "?now < e"
      using c by (auto simp: cached_def split: option.splits if_splits)
    from freshPages_entry(4)[OF fresh e(1)[unfolded key], of ?now] e(2)
    show ?thesis unfolding built menuVersion_at by simp
  qed
  let ?s1 = "s\<lparr>mn_cache := (mn_cache s)(?key \<mapsto> (Page ?page, ?now + PAGE_TTL))\<rparr>"
  have run: "(r, s') = (if cached s ?key = None then (Inr ?page, ?s1) else (Inr ?page, s))"
  proof (cases "cached s ?key")
    case None
    then show ?thesis using assms(1) by (simp add: getMenuByOrg_def getMenuCacheVersion_def menuCacheSet_def Let_def)
  next
    case (Some v)
    then show ?thesis using assms(1) hit[OF Some] by (auto simp: getMenuByOrg_def getMenuCacheVersion_def Let_def)
  qed
  then show "r = Inr ?page" "mn_tables s' = mn_tables s" by (auto split: if_splits)
  have "freshPages ?s1"
  proof (rule freshPagesI)
    have same: "mn_cache ?s1 (VersionKey h) = mn_cache s (VersionKey h)" for h by (simp add: key)
    have stamp: "stampOf ?s1 h = stampOf s h" and version: "versionAt ?s1 h \<tau> = versionAt s h \<tau>" for h \<tau>
      unfolding stampOf_def versionAt_def same by simp_all
    show "wellLinked (mn_tables ?s1)" using freshPages_linked[OF fresh] by simp
    show "0 \<le> stampOf ?s1 h" for h using fresh unfolding stamp by (simp add: freshPages_def)
    have bound: "0 \<le> menuVersion s g \<and> menuVersion s g \<le> stampOf s g"
    proof -
      have "0 \<le> stampOf s g" using fresh by (simp add: freshPages_def)
      then show ?thesis unfolding menuVersion_at versionAt_def stampOf_def
        by (auto split: option.splits menu_value.splits)
    qed
    fix h ver sd lo off n v e
    assume entry: "mn_cache ?s1 (PageKey h ver sd lo off n) = Some (v, e)"
    show "e \<le> w_now (mn_world ?s1) + PAGE_TTL \<and> 0 \<le> ver \<and> ver \<le> stampOf ?s1 h"
    proof (cases "PageKey h ver sd lo off n = ?key")
      case True
      then show ?thesis using entry bound unfolding stamp by (auto simp: key)
    next
      case False
      then show ?thesis using entry freshPages_entry(1-3)[OF fresh, of h ver sd lo off n v e] unfolding stamp by auto
    qed
    show "v = Page (buildPage (mn_tables ?s1) h sd lo off n)"
      if "w_now (mn_world ?s1) \<le> \<tau>" "\<tau> < e" "versionAt ?s1 h \<tau> = ver" for \<tau>
    proof (cases "PageKey h ver sd lo off n = ?key")
      case True
      then show ?thesis using entry built by (auto simp: key)
    next
      case False
      then show ?thesis
        using entry freshPages_entry(4)[OF fresh, of h ver sd lo off n v e \<tau>] that unfolding version by auto
    qed
  qed
  then show "freshPages s'" using run fresh by (auto split: if_splits)
qed

section \<open>Edits and imports\<close>

lemma bumped_fresh:
  assumes fresh: "freshPages s" and old: "stampOf s g < w_now (mn_world s)"
    and home: "staysWithin g (mn_tables s) (mn_tables s')"
    and cache: "mn_cache s' = bumped g s" and now: "w_now (mn_world s') = w_now (mn_world s)"
  shows "freshPages s'"
proof (rule freshPagesI)
  let ?now = "w_now (mn_world s)"
  have wl: "wellLinked (mn_tables s)" using freshPages_linked[OF fresh] .
  show wl': "wellLinked (mn_tables s')" using home wl by (simp add: staysWithin_def)
  have nonneg: "0 \<le> stampOf s g" using fresh by (simp add: freshPages_def)
  have stamp: "stampOf s' h = (if h = g then ?now else stampOf s h)" for h
    by (simp add: stampOf_def cache bumped_def)
  have version: "versionAt s' h \<tau> = (if h = g then (if \<tau> < ?now + VERSION_TTL then ?now else 0) else versionAt s h \<tau>)" for h \<tau>
    by (simp add: versionAt_def cache bumped_def)
  have "0 \<le> ?now" using old nonneg by linarith
  then show "0 \<le> stampOf s' h" for h
    using fresh by (simp add: stamp freshPages_def)
  fix h ver sd l off n v e
  assume "mn_cache s' (PageKey h ver sd l off n) = Some (v, e)"
  then have entry: "mn_cache s (PageKey h ver sd l off n) = Some (v, e)" by (simp add: cache bumped_def)
  note e = freshPages_entry(1-3)[OF fresh entry]
  show "e \<le> w_now (mn_world s') + PAGE_TTL \<and> 0 \<le> ver \<and> ver \<le> stampOf s' h"
    using e old unfolding stamp now by auto
  show "v = Page (buildPage (mn_tables s') h sd l off n)"
    if "w_now (mn_world s') \<le> \<tau>" "\<tau> < e" "versionAt s' h \<tau> = ver" for \<tau>
  proof (cases "h = g")
    case True
    then have "\<tau> < ?now + VERSION_TTL" using that e by (simp add: PAGE_TTL_def VERSION_TTL_def)
    then show ?thesis using that(3) True e(3) old by (simp add: version)
  next
    case False
    then have "menuRows h (mn_tables s') = menuRows h (mn_tables s)" using home wl by (simp add: staysWithin_def)
    then have "buildPage (mn_tables s') h sd l off n = buildPage (mn_tables s) h sd l off n"
      using buildPage_own[OF wl, of h] buildPage_own[OF wl', of h] by metis
    then show ?thesis
      using freshPages_entry(4)[OF fresh entry, of \<tau>] that False now by (simp add: version)
  qed
qed

lemma emptied_fresh: "mn_cache s = Map.empty \<Longrightarrow> wellLinked (mn_tables s) \<Longrightarrow> freshPages s"
  by (simp add: freshPages_def stampOf_def)

section \<open>Histories\<close>

text \<open>
  What may happen between two looks at a menu. The steps of other handlers are those that touch neither the menu
  nor its cache; the stock that a sale takes is not one of them.
\<close>

inductive menu_step :: "menu_wiring \<Rightarrow> menu_world \<Rightarrow> menu_world \<Rightarrow> bool" for mk where
  read: "getMenu mk user p l s = (r, s') \<Longrightarrow> menu_step mk s s'"
| edit: "runEdit mk user e s = (r, s') \<Longrightarrow> homeEdit mk user s e \<Longrightarrow>
    (\<And>g. actsFor mk user s g \<Longrightarrow> stampOf s g < w_now (mn_world s)) \<Longrightarrow> menu_step mk s s'"
| clear: "clearMenuCache mk user s = (r, s') \<Longrightarrow>
    (\<And>g. actsFor mk user s g \<Longrightarrow> stampOf s g < w_now (mn_world s)) \<Longrightarrow> menu_step mk s s'"
| imported: "processImport mk ex job s = (r, s') \<Longrightarrow>
    ownScope (mn_tables s) (imj_orgId job) (imj_locationId job) \<Longrightarrow> menu_step mk s s'"
| elsewhere: "mn_tables s' = mn_tables s \<Longrightarrow> mn_cache s' = mn_cache s \<Longrightarrow>
    w_now (mn_world s) \<le> w_now (mn_world s') \<Longrightarrow> menu_step mk s s'"

lemma editsFor_fresh:
  assumes "freshPages s" and "editsFor mk user s s'" and "\<And>g. actsFor mk user s g \<Longrightarrow> stampOf s g < w_now (mn_world s)"
  shows "freshPages s'"
proof -
  have now: "w_now (mn_world s') = w_now (mn_world s)" using assms(2) by (simp add: editsFor_def)
  consider (same) "mn_tables s' = mn_tables s" "mn_cache s' = mn_cache s"
    | (bumped) g where "actsFor mk user s g" "staysWithin g (mn_tables s) (mn_tables s')" "mn_cache s' = bumped g s"
    using assms(2) unfolding editsFor_def by blast
  then show ?thesis
  proof cases
    case same
    then show ?thesis using freshPages_same[OF assms(1)] now by simp
  next
    case bumped
    then show ?thesis using bumped_fresh[OF assms(1) assms(3)] now by blast
  qed
qed

lemma clearMenuCache_edits: "clearMenuCache mk user s = (r, s') \<Longrightarrow> editsFor mk user s s'"
proof -
  assume run: "clearMenuCache mk user s = (r, s')"
  obtain x w1 where org: "getRequiredOrg (mk_cache mk) user (mn_world s) = (x, w1)" by fastforce
  have now: "w_now w1 = w_now (mn_world s)"
    using getRequiredOrg_uncached[OF org] uncached_parts(3) by blast
  show ?thesis
  proof (cases x)
    case (Inl e)
    then show ?thesis using run org now by (auto simp: clearMenuCache_def outerM_def bindM_def editsFor_def)
  next
    case (Inr g)
    obtain syncs where "invalidateMenuCache mk g (s\<lparr>mn_world := w1\<rparr>) =
        (Inr (), (s\<lparr>mn_world := w1\<rparr>)\<lparr>mn_cache := bumped g (s\<lparr>mn_world := w1\<rparr>), mn_syncs := syncs\<rparr>)"
      using invalidate_run by blast
    then show ?thesis
      using run org now Inr by (auto simp: clearMenuCache_def outerM_def bindM_def editsFor_def actsFor_def bumped_def)
  qed
qed

lemma menu_step_fresh: "menu_step mk s s' \<Longrightarrow> freshPages s \<Longrightarrow> freshPages s'"
proof (induction rule: menu_step.induct)
  case (read user p l s r s')
  obtain x w1 where org: "getRequiredOrg (mk_cache mk) user (mn_world s) = (x, w1)" by fastforce
  have "w_now w1 = w_now (mn_world s)"
    using getRequiredOrg_uncached[OF org] uncached_parts(3) by blast
  then have fresh: "freshPages (s\<lparr>mn_world := w1\<rparr>)" using freshPages_same[OF read.prems] by simp
  show ?case
  proof (cases x)
    case (Inr g)
    then have "getMenuByOrg g p l (s\<lparr>mn_world := w1\<rparr>) = (r, s')"
      using read.hyps org by (simp add: getMenu_def outerM_def bindM_def)
    from getMenuByOrg_run(2)[OF this fresh] show ?thesis .
  qed (use read.hyps org fresh in \<open>auto simp: getMenu_def outerM_def bindM_def\<close>)
next
  case (edit user e s r s')
  then show ?case using editsFor_fresh[OF edit.prems runEdit_edits[OF edit.hyps(2,1)]] by blast
next
  case (clear user s r s')
  then show ?case using editsFor_fresh[OF clear.prems clearMenuCache_edits[OF clear.hyps(1)]] by blast
next
  case (imported ex job s r s')
  have home: "wellLinked (mn_tables s')"
    using import_home[OF imported.hyps(1) freshPages_linked[OF imported.prems] imported.hyps(2)]
      freshPages_linked[OF imported.prems] by (simp add: staysWithin_def)
  from imported.hyps(1) show ?case
  proof (cases rule: processImport_cases)
    case failed
    have "aside s s'"  using failed by simp
    then show ?thesis using freshPages_same[OF imported.prems failed(2)] by (simp add: aside_def)
  next
    case (written cats u s1)
    then have "mn_cache s' = Map.empty" by (auto simp: clearCache_run)
    with home show ?thesis by (rule emptied_fresh[rotated])
  qed
next
  case (elsewhere s' s)
  then show ?case using freshPages_same by blast
qed

lemma reachable_fresh: "(menu_step mk)\<^sup>*\<^sup>* s s' \<Longrightarrow> freshPages s \<Longrightarrow> freshPages s'"
  by (induction rule: rtranclp_induct) (auto intro: menu_step_fresh)


text \<open>In the same millisecond the version does not change, and the page read between two edits is served on.\<close>

lemma same_instant_serves_old_page:
  assumes "mn_cache s' = bumped g s" and "w_now (mn_world s') = w_now (mn_world s)"
    and "cached s (pageKey g (w_now (mn_world s)) p l) = Some (Page old)"
  shows "getMenuByOrg g p l s' = (Inr old, s')"
proof -
  have "menuVersion s' g = w_now (mn_world s)"
    using assms(1,2) by (simp add: menuVersion_def cached_def bumped_def VERSION_TTL_def)
  moreover have "cached s' (pageKey g (w_now (mn_world s)) p l) = Some (Page old)"
    using assms by (auto simp: cached_def bumped_def pageKey_def split: option.splits if_splits)
  ultimately show ?thesis by (simp add: getMenuByOrg_def getMenuCacheVersion_def Let_def)
qed

end
