(* ===== verification/Menu_Publish.thy ===== *)
theory Menu_Publish
  imports Menus
begin

text \<open>
  Publishing a menu to the voice agent: \<open>syncMenuToAI\<close> and \<open>syncOrgPublishedLocationsToAI\<close> of
  \<open>menus/menus.service.ts\<close>, the storage and assistant requests of \<open>telnyx/telnyx.service.ts\<close> they make, and
  the worker of the scheduled syncs (\<open>menus/processors/menu-ai-sync.processor.ts\<close>). The storage and the
  assistants are parameters whose answer may depend on every request made before.
\<close>

section \<open>Storage and assistants\<close>

record storage_reply =
  sr_ok :: bool
  sr_status :: int
  sr_text :: string

record embed_reply =
  em_dataId :: "string option"
  em_dataBucketId :: "string option"
  em_bucketId :: "string option"

record assistant_tool =
  tl_type :: string
  tl_bucketIds :: "string list option"
  tl_maxResults :: "int option"

record menu_assistant =
  mas_id :: "string option"
  mas_tools :: "assistant_tool list option"

record menu_assistant_reply = menu_assistant +
  mas_data :: "menu_assistant option"

record publishing =
  px_put :: "publish_request list \<Rightarrow> publish_request \<Rightarrow> error + storage_reply"
  px_embed :: "publish_request list \<Rightarrow> publish_request \<Rightarrow> error + embed_reply"
  px_assistant :: "publish_request list \<Rightarrow> publish_request \<Rightarrow> error + menu_assistant_reply"

definition requestM :: "(publish_request list \<Rightarrow> publish_request \<Rightarrow> error + 'a) \<Rightarrow> publish_request \<Rightarrow> 'a menu" where
  "requestM answer req = bindM (getsM mn_published) (\<lambda>log.
     thenM (modifyM (\<lambda>s. s\<lparr>mn_published := log @ [req]\<rparr>)) (liftE (answer log req)))"

definition storageSuspended :: error where
  "storageSuspended = GenericError
     ''AI menu sync is temporarily unavailable: Telnyx Cloud Storage access is restricted. Contact support.''"

text \<open>The bucket may be there already; whatever its creation answers, the upload is tried.\<close>

definition uploadKnowledgeDocument :: "publishing \<Rightarrow> string \<Rightarrow> json \<Rightarrow> string \<Rightarrow> unit menu" where
  "uploadKnowledgeDocument px fileName content bucketName =
     thenM (catchM (bindM (requestM (px_put px) (MakeBucket bucketName)) (\<lambda>_. returnM ())) (\<lambda>_. returnM ()))
    (bindM (requestM (px_put px) (PutObject bucketName fileName content)) (\<lambda>res.
       if sr_ok res then returnM ()
       else if sr_status res = 403 \<and> js_includes (sr_text res) ''UserSuspended'' then throwM storageSuspended
       else throwM (GenericError (''Failed to upload to Telnyx Storage: '' @ sr_text res))))"

definition embedKnowledgeDocuments :: "publishing \<Rightarrow> string \<Rightarrow> embed_reply menu" where
  "embedKnowledgeDocuments px bucketName = requestM (px_embed px) (Embed bucketName)"

definition retrievalTool :: "menu_assistant \<Rightarrow> assistant_tool option" where
  "retrievalTool a = first_row (\<lambda>t. tl_type t = ''retrieval'') (nvl (mas_tools a) [])"

text \<open>An assistant that exists is only relinked, and left alone when that fails.\<close>

definition relinkAssistant :: "publishing \<Rightarrow> string \<Rightarrow> string \<Rightarrow> string menu" where
  "relinkAssistant px bucketId assistantId =
     catchM
       (bindM (requestM (px_assistant px) (ReadAssistant assistantId)) (\<lambda>existingRes.
          let retrieval = retrievalTool (nvl (mas_data existingRes) (menu_assistant.truncate existingRes));
              bucketIds = nvl (Option.bind retrieval tl_bucketIds) [] in
          if bucketId \<in> set bucketIds then returnM assistantId
          else bindM (requestM (px_assistant px)
                 (LinkBucket assistantId bucketId (nvl (Option.bind retrieval tl_maxResults) 5))) (\<lambda>_. returnM assistantId)))
       (\<lambda>_. returnM assistantId)"

definition createOrUpdateMenuAssistant :: "publishing \<Rightarrow> string \<Rightarrow> string option \<Rightarrow> string menu" where
  "createOrUpdateMenuAssistant px bucketId assistantId =
     (if truthy assistantId then relinkAssistant px bucketId (the assistantId)
      else bindM (requestM (px_assistant px) (MakeAssistant bucketId)) (\<lambda>createRes.
        let createdId = (case Option.bind (mas_data createRes) mas_id of Some i \<Rightarrow> Some i | None \<Rightarrow> mas_id createRes) in
        orThrow (or_null createdId) (GenericError ''Telnyx did not return an id for the created assistant.'')))"

section \<open>The document\<close>

definition cleanOption :: "menu_option \<Rightarrow> json" where
  "cleanOption opt = JObj [(''id'', JStr (mim_id opt)), (''name'', JStr (mim_name opt)),
     (''priceAdjustment'', JInt (mim_priceAdjustment opt))]"

definition cleanModifier :: "group_view \<Rightarrow> json" where
  "cleanModifier v = JObj [(''name'', JStr (mm_name (vg_group v))), (''required'', JBool (mm_isRequired (vg_group v))),
     (''options'', JList (map cleanOption (vg_options v)))]"

definition cleanItem :: "item_view \<Rightarrow> json" where
  "cleanItem v = (let i = vi_item v in
     JObj [(''id'', JStr (mi_id i)), (''name'', JStr (mi_name i)), (''description'', jsonOr JStr (mit_description i)),
       (''price'', JInt (mi_price i)), (''available'', JBool (mi_isAvailable i)),
       (''modifiers'', JList (map cleanModifier (vi_modifiers v)))])"

definition cleanCategory :: "category_view \<Rightarrow> json" where
  "cleanCategory v = JObj [(''id'', JStr (cat_id (vc_category v))), (''name'', JStr (mca_name (vc_category v))),
     (''items'', JList (map cleanItem (vc_items v)))]"

definition cleanMenu :: "uuid \<Rightarrow> uuid \<Rightarrow> int \<Rightarrow> menu_page \<Rightarrow> json" where
  "cleanMenu orgId locationId now page = JObj [(''organizationId'', JStr orgId), (''locationId'', JStr locationId),
     (''lastUpdated'', JInt now), (''categories'', JList (map cleanCategory (pg_data page)))]"

section \<open>Publishing\<close>

definition bucketOf :: "menu_site \<Rightarrow> string" where
  "bucketOf loc = nvl (or_null (map_option js_trim (mst_menuBucket loc))) (''menu-'' @ loc_id loc)"

definition bucketIdOf :: "embed_reply \<Rightarrow> string \<Rightarrow> string" where
  "bucketIdOf r bucket = nvl (or_null (em_dataId r)) (nvl (or_null (em_dataBucketId r)) (nvl (or_null (em_bucketId r)) bucket))"

definition targetSite :: "uuid \<Rightarrow> string option \<Rightarrow> menu_world \<Rightarrow> menu_site option" where
  "targetSite orgId locationId s =
     first_row (\<lambda>r. if truthy locationId then Some (loc_id r) = locationId else loc_organizationId r = orgId) (mn_sites s)"

definition WHOLE_MENU :: pagination where
  "WHOLE_MENU = \<lparr>pn_offset = Some 0, pn_limit = Some 1000, pn_showDeleted = False\<rparr>"

definition sitePublished :: "string \<Rightarrow> int \<Rightarrow> menu_site \<Rightarrow> menu_site" where
  "sitePublished newAssistantId now r =
     r\<lparr>ste_telnyxAssistantId := (if newAssistantId \<noteq> [] then Some newAssistantId else ste_telnyxAssistantId r),
       mst_menuLastSyncedAt := Some now\<rparr>"

definition syncMenuToAI :: "menu_wiring \<Rightarrow> publishing \<Rightarrow> uuid \<Rightarrow> string option \<Rightarrow> unit menu" where
  "syncMenuToAI mk px orgId locationId =
     thenM (throw_if (\<not> mk_telephony mk) (GenericError ''The AI voice agent is not configured for this environment.''))
    (bindM (getsM (targetSite orgId locationId)) (\<lambda>found.
     bindM (orThrow found (NotFoundException ''No location found for organization.'')) (\<lambda>loc.
     bindM (getMenuByOrg orgId WHOLE_MENU (Some (loc_id loc))) (\<lambda>menuData.
     bindM menuNow (\<lambda>now.
     let bucket = bucketOf loc in
     thenM (uploadKnowledgeDocument px ''menu.json'' (cleanMenu orgId (loc_id loc) now menuData) bucket)
    (bindM (embedKnowledgeDocuments px bucket) (\<lambda>embedRes.
     bindM (createOrUpdateMenuAssistant px (bucketIdOf embedRes bucket) (ste_telnyxAssistantId loc)) (\<lambda>newAssistantId.
       modifyM (\<lambda>s. s\<lparr>mn_sites := update_where (\<lambda>r. loc_id r = loc_id loc) (sitePublished newAssistantId now) (mn_sites s)\<rparr>)))))))))"

text \<open>The route: the caller's organization, and whatever location the caller names.\<close>

definition syncMenuRoute :: "menu_wiring \<Rightarrow> publishing \<Rightarrow> principal \<Rightarrow> string option \<Rightarrow> unit menu" where
  "syncMenuRoute mk px user locationId =
     bindM (orThrow (or_null (pr_organizationId user))
       (ForbiddenException ''User is not associated with an organization.'')) (\<lambda>orgId.
       syncMenuToAI mk px orgId locationId)"

definition publishedSites :: "uuid \<Rightarrow> menu_world \<Rightarrow> menu_site list" where
  "publishedSites orgId s = filter (\<lambda>r. loc_organizationId r = orgId \<and> loc_deletedAt r = None \<and>
     truthy (ste_telnyxAssistantId r)) (mn_sites s)"

definition syncOrgPublishedLocationsToAI :: "menu_wiring \<Rightarrow> publishing \<Rightarrow> uuid \<Rightarrow> nat menu" where
  "syncOrgPublishedLocationsToAI mk px orgId =
     (if \<not> mk_telephony mk then returnM 0
      else
     bindM (getsM (publishedSites orgId)) (\<lambda>locs.
     thenM (forM locs (\<lambda>l. syncMenuToAI mk px orgId (Some (loc_id l))))
       (returnM (length locs))))"

section \<open>The worker\<close>

definition setSync :: "uuid \<Rightarrow> (sync_job \<Rightarrow> sync_job) \<Rightarrow> unit menu" where
  "setSync orgId f = modifyM (\<lambda>s. s\<lparr>mn_syncs := update_where (\<lambda>j. syj_orgId j = orgId) f (mn_syncs s)\<rparr>)"

text \<open>A job whose time has come starts; an edit may come before it ends.\<close>

definition beginSync :: "uuid \<Rightarrow> unit menu" where
  "beginSync orgId = modifyM (\<lambda>s. s\<lparr>mn_syncs := update_where
     (\<lambda>j. syj_orgId j = orgId \<and> (case syj_state j of Delayed t \<Rightarrow> t \<le> w_now (mn_world s) | _ \<Rightarrow> False))
     (\<lambda>j. j\<lparr>syj_state := Running\<rparr>) (mn_syncs s)\<rparr>)"

text \<open>Exponential backoff from two seconds; a suspended storage is not tried again.\<close>

definition afterFailedSync :: "error \<Rightarrow> int \<Rightarrow> sync_job \<Rightarrow> sync_job" where
  "afterFailedSync e now j = (let n = Suc (syj_attemptsMade j) in
     j\<lparr>syj_attemptsMade := n, syj_state := (if e = storageSuspended \<or> ATTEMPTS \<le> n then FailedSync
       else Delayed (now + 2000 * 2 ^ (n - 1)))\<rparr>)"

definition endSync :: "menu_wiring \<Rightarrow> publishing \<Rightarrow> uuid \<Rightarrow> unit menu" where
  "endSync mk px orgId =
     bindM (getsM (\<lambda>s. list_ex (\<lambda>j. syj_orgId j = orgId \<and> syj_state j = Running) (mn_syncs s))) (\<lambda>running.
     whenM running
       (catchM
         (bindM (syncOrgPublishedLocationsToAI mk px orgId) (\<lambda>_.
            modifyM (\<lambda>s. s\<lparr>mn_syncs := filter (\<lambda>j. syj_orgId j \<noteq> orgId) (mn_syncs s)\<rparr>)))
         (\<lambda>e. bindM menuNow (\<lambda>now. setSync orgId (afterFailedSync e now)))))"

end
