(* ===== verification/Menu_Orders.thy ===== *)
theory Menu_Orders
  imports Menu_Tenants Menu_Publish Order_Pricing
begin

text \<open>
  The menu editor and the pricing of orders read the same tables. Shown here: what is deleted with its category
  can neither be seen on a page nor be priced in any cart; an item restored into a category that stays deleted is
  priced again and still on no page. And when the queue refuses the id under which the editor files its sync, no
  edit ever schedules one.
\<close>

section \<open>Deleting a category\<close>

lemma edited_InrD:
  assumes "edited mk user body s = (Inr a, s')"
  obtains g w1 s2 where "getRequiredOrg (mk_cache mk) user (mn_world s) = (Inr g, w1)"
    and "body g (s\<lparr>mn_world := w1\<rparr>) = (Inr a, s2)" and "mn_tables s' = mn_tables s2"
proof -
  obtain g s1 where org: "outerM (getRequiredOrg (mk_cache mk) user) s = (Inr g, s1)"
    and rest: "bindM (body g) (\<lambda>r. thenM (invalidateMenuCache mk g) (returnM r)) s1 = (Inr a, s')"
    using assms unfolding edited_def by (rule bindM_InrE)
  from rest obtain b s2 where b: "body g s1 = (Inr b, s2)" and inv: "thenM (invalidateMenuCache mk g) (returnM b) s2 = (Inr a, s')"
    by (rule bindM_InrE)
  obtain syncs where i: "invalidateMenuCache mk g s2 = (Inr (), s2\<lparr>mn_cache := bumped g s2, mn_syncs := syncs\<rparr>)"
    using invalidate_run by blast
  have "b = a" "mn_tables s' = mn_tables s2" using inv i by (auto simp: thenM_def bindM_def)
  moreover obtain w1 where "getRequiredOrg (mk_cache mk) user (mn_world s) = (Inr g, w1)" "s1 = s\<lparr>mn_world := w1\<rparr>"
    using org by (auto simp: outerM_def split: prod.splits)
  ultimately show thesis using that b by blast
qed

definition unsold :: "menu_tables \<Rightarrow> uuid \<Rightarrow> bool" where
  "unsold t i \<longleftrightarrow> (\<forall>m \<in> set (tb_items t). mi_id m = i \<longrightarrow> mi_deletedAt m \<noteq> None)"

lemma isl_andThen: "isl r \<Longrightarrow> isl (case r of Inl e \<Rightarrow> Inl e | Inr a \<Rightarrow> Inr (f a))"
  by (cases r) simp_all

lemma update_where_all:
  "(\<And>x. x \<in> set xs \<Longrightarrow> P x \<Longrightarrow> Q (f x)) \<Longrightarrow> (\<And>x. x \<in> set xs \<Longrightarrow> \<not> P x \<Longrightarrow> Q x) \<Longrightarrow> \<forall>x \<in> set (update_where P f xs). Q x"
  by (auto simp: set_update_where)

lemma unsold_cart:
  assumes "unsold t i" and "line \<in> set cart" and "ci_menuItemId line = i"
  shows "isl (priceCart (orderTables t d) g cart)"
proof -
  let ?d = "orderTables t d" and ?ids = "js_dedup (map ci_menuItemId cart)"
  let ?items = "js_map (map (\<lambda>m. (mi_id m, m)) (cartMenuItems ?d g ?ids))"
  have "?items i = None"
  proof (rule ccontr)
    assume "?items i \<noteq> None"
    then obtain m where "?items i = Some m" by blast
    then have "m \<in> set (cartMenuItems ?d g ?ids)" and "mi_id m = i" using js_map_in[of mi_id] by fastforce+
    then show False
      using assms(1) by (auto simp: cartMenuItems_def orderTables_def unsold_def menu_item_row.defs)
  qed
  then have no: "\<not> (\<exists>y. priceLine ?items os as line = Inr y)" for os as
    using assms(3) by (simp add: priceLine_def)
  have refused: "isl (mapE (priceLine ?items os as) cart)" for os as
  proof (rule ccontr)
    assume "\<not> isl (mapE (priceLine ?items os as) cart)"
    then obtain ys where "mapE (priceLine ?items os as) cart = Inr ys" by (cases "mapE (priceLine ?items os as) cart") auto
    then have rows: "list_all2 (\<lambda>x y. priceLine ?items os as x = Inr y) cart ys" by (rule mapE_Inr[THEN iffD1])
    obtain n where "n < length cart" "cart ! n = line" using assms(2) by (metis in_set_conv_nth)
    then show False using no list_all2_nthD[OF rows] by blast
  qed
  show ?thesis unfolding priceCart_def Let_def by (rule isl_andThen) (rule refused)
qed

text \<open>The category of a view is shown, and an item is shown under its own category only.\<close>

lemma page_shape:
  "\<exists>f h. pg_data (buildPage t g sd l off n) =
     map (\<lambda>c. \<lparr>vc_category = c, vc_items = filter (\<lambda>w. mi_categoryId (vi_item w) = cat_id c)
           (map (\<lambda>i. \<lparr>vi_item = i, vi_modifiers = f i\<rparr>)
             (menuItemsOf t (map cat_id (take n (drop off (sort_key mca_sortOrder (menuCategories t g sd l))))) sd l)),
         vc_modifiers = h c\<rparr>)
       (take n (drop off (sort_key mca_sortOrder (menuCategories t g sd l))))"
  (is "\<exists>f h. ?lhs = map (?view f h) ?cs")
proof (cases "?cs = []")
  case True
  then have "?lhs = []" by (simp only: buildPage_def Let_def True list.map refl if_True menu_page.simps)
  then show ?thesis using True by (simp only: list.map) blast
next
  case False
  show ?thesis
    unfolding buildPage_def Let_def map_is_Nil_conv if_not_P[OF False] menu_page.simps by (intro exI) (rule refl)
qed

lemma page_categories:
  assumes "v \<in> set (pg_data (buildPage t g sd l off n))"
  shows "vc_category v \<in> set (menuCategories t g sd l)"
proof -
  let ?cs = "take n (drop off (sort_key mca_sortOrder (menuCategories t g sd l)))"
  have "vc_category v \<in> set ?cs" using assms page_shape[of t g sd l off n] by clarsimp
  then show ?thesis by (metis in_set_takeD in_set_dropD set_sort)
qed

lemma page_items:
  assumes "v \<in> set (pg_data (buildPage t g sd l off n))" and "w \<in> set (vc_items v)"
  shows "vi_item w \<in> set (tb_items t)" and "mi_categoryId (vi_item w) = cat_id (vc_category v)"
  using assms page_shape[of t g sd l off n] by (auto simp: menuItemsOf_def)

lemma deleteCategory_row:
  assumes "deleteCategory mk user i s = (Inr u, s')"
  shows "\<exists>now. mn_tables s' = (mn_tables s)\<lparr>
    tb_items := update_where (\<lambda>m. mi_categoryId m = i \<and> mi_deletedAt m = None)
      (\<lambda>m. m\<lparr>mi_deletedAt := Some now, mit_updatedAt := now\<rparr>) (tb_items (mn_tables s)),
    tb_categories := update_where (\<lambda>c. cat_id c = i)
      (\<lambda>c. c\<lparr>mca_deletedAt := Some now, mca_updatedAt := now\<rparr>) (tb_categories (mn_tables s))\<rparr>"
  using assms unfolding deleteCategory_def
  by (elim edited_InrD)
    (auto simp: prog_step menuTx_def noteM_def outerM_def orThrow_def split: option.splits if_splits prod.splits sum.splits)

lemma deleteCategory_rows:
  assumes "deleteCategory mk user i s = (Inr u, s')"
  shows "\<forall>m \<in> set (tb_items (mn_tables s')). mi_categoryId m = i \<longrightarrow> mi_deletedAt m \<noteq> None"
    and "\<forall>c \<in> set (tb_categories (mn_tables s')). cat_id c = i \<longrightarrow> mca_deletedAt c \<noteq> None"
    and "map mi_id (tb_items (mn_tables s')) = map mi_id (tb_items (mn_tables s))"
    and "map mi_categoryId (tb_items (mn_tables s')) = map mi_categoryId (tb_items (mn_tables s))"
proof -
  obtain now where t': "mn_tables s' = (mn_tables s)\<lparr>
    tb_items := update_where (\<lambda>m. mi_categoryId m = i \<and> mi_deletedAt m = None)
      (\<lambda>m. m\<lparr>mi_deletedAt := Some now, mit_updatedAt := now\<rparr>) (tb_items (mn_tables s)),
    tb_categories := update_where (\<lambda>c. cat_id c = i)
      (\<lambda>c. c\<lparr>mca_deletedAt := Some now, mca_updatedAt := now\<rparr>) (tb_categories (mn_tables s))\<rparr>"
    using deleteCategory_row[OF assms] by blast
  have items: "tb_items (mn_tables s') = update_where (\<lambda>m. mi_categoryId m = i \<and> mi_deletedAt m = None)
      (\<lambda>m. m\<lparr>mi_deletedAt := Some now, mit_updatedAt := now\<rparr>) (tb_items (mn_tables s))"
    and categories: "tb_categories (mn_tables s') = update_where (\<lambda>c. cat_id c = i)
      (\<lambda>c. c\<lparr>mca_deletedAt := Some now, mca_updatedAt := now\<rparr>) (tb_categories (mn_tables s))"
    by (simp_all add: t')
  show "\<forall>m \<in> set (tb_items (mn_tables s')). mi_categoryId m = i \<longrightarrow> mi_deletedAt m \<noteq> None"
    unfolding items by (rule update_where_all) simp_all
  show "\<forall>c \<in> set (tb_categories (mn_tables s')). cat_id c = i \<longrightarrow> mca_deletedAt c \<noteq> None"
    unfolding categories by (rule update_where_all) simp_all
  show "map mi_id (tb_items (mn_tables s')) = map mi_id (tb_items (mn_tables s))"
    and "map mi_categoryId (tb_items (mn_tables s')) = map mi_categoryId (tb_items (mn_tables s))"
    unfolding items by (simp_all add: map_update_where)
qed

text \<open>
  C35. Once the deletion of a category has returned, no page of any organization that leaves deleted rows out shows
  the category, and no cart, of whatever organization, that holds an item of it can be priced: the whole cart is
  refused.
\<close>

theorem deleted_category_cannot_be_ordered:
  assumes "deleteCategory mk user i s = (Inr u, s')" and "wellLinked (mn_tables s)"
    and "m \<in> set (tb_items (mn_tables s))" and "mi_categoryId m = i"
    and "line \<in> set cart" and "ci_menuItemId line = mi_id m" and "\<not> pn_showDeleted p"
  shows "isl (priceCart (orderTables (mn_tables s') d) g cart) \<and>
    (\<nexists>v. v \<in> set (pg_data (pageOf (mn_tables s') g p l)) \<and> cat_id (vc_category v) = i)"
proof (rule conjI)
  note rows = deleteCategory_rows[OF assms(1)]
  have "unsold (mn_tables s') (mi_id m)"
    unfolding unsold_def
  proof (intro ballI impI)
    fix m' assume m': "m' \<in> set (tb_items (mn_tables s'))" "mi_id m' = mi_id m"
    then obtain n where n: "n < length (tb_items (mn_tables s'))" "m' = tb_items (mn_tables s') ! n" by (metis in_set_conv_nth)
    have len: "length (tb_items (mn_tables s')) = length (tb_items (mn_tables s))" using rows(3) by (metis length_map)
    have at: "mi_id (tb_items (mn_tables s) ! n) = mi_id m" "mi_categoryId (tb_items (mn_tables s) ! n) = mi_categoryId m'"
      using n len rows(3,4) m'(2) by (metis nth_map)+
    have "tb_items (mn_tables s) ! n = m"
      using assms(2,3) at(1) n(1) len unfolding wellLinked_def
      by (metis first_row_keyed nth_mem option.inject)
    then show "mi_deletedAt m' \<noteq> None" using rows(1) m'(1) at(2) assms(4) by simp
  qed
  then show "isl (priceCart (orderTables (mn_tables s') d) g cart)" by (rule unsold_cart) (fact assms(5,6))+
  show "\<nexists>v. v \<in> set (pg_data (pageOf (mn_tables s') g p l)) \<and> cat_id (vc_category v) = i"
    using rows(2) assms(7) page_categories by (fastforce simp: pageOf_def menuCategories_def)
qed

section \<open>Restoring an item\<close>

lemma restored_row:
  assumes "restoreMenuItem mk user i s = (Inr u, s')"
  shows "\<exists>now. mn_tables s' = (mn_tables s)\<lparr>tb_items := update_where (\<lambda>m. mi_id m = i)
    (\<lambda>m. m\<lparr>mi_deletedAt := None, mit_updatedAt := now\<rparr>) (tb_items (mn_tables s))\<rparr>"
  using assms unfolding restoreMenuItem_def
  by (elim edited_InrD) (auto simp: prog_step ownedRow_then orThrow_def split: option.splits if_splits)

text \<open>An item whose category stays deleted is sold again, and on no page.\<close>

lemma restored_item_is_sold_unseen:
  assumes run: "restoreMenuItem mk user i s = (Inr u, s')" and wl: "wellLinked (mn_tables s)"
    and x: "x \<in> set (tb_items (mn_tables s))" "mi_id x = i" "mi_isAvailable x"
    and c: "c \<in> set (tb_categories (mn_tables s))" "cat_id c = mi_categoryId x" "cat_organizationId c = g" "mca_deletedAt c \<noteq> None"
  shows "i \<in> mi_id ` set (cartMenuItems (orderTables (mn_tables s') d) g [i])"
    and "\<lbrakk>\<not> pn_showDeleted p; v \<in> set (pg_data (pageOf (mn_tables s') h p l)); w \<in> set (vc_items v)\<rbrakk> \<Longrightarrow> mi_id (vi_item w) \<noteq> i"
proof -
  obtain now where t': "mn_tables s' = (mn_tables s)\<lparr>tb_items := update_where (\<lambda>m. mi_id m = i)
    (\<lambda>m. m\<lparr>mi_deletedAt := None, mit_updatedAt := now\<rparr>) (tb_items (mn_tables s))\<rparr>"
    using restored_row[OF run] by blast
  let ?x = "x\<lparr>mi_deletedAt := None, mit_updatedAt := now\<rparr>"
  have "?x \<in> set (tb_items (mn_tables s'))" unfolding t' using x(1,2) by (auto simp: set_update_where)
  then have "menu_item_row.truncate ?x \<in> set (t_menuItems (orderTables (mn_tables s') d))"
    by (simp add: orderTables_def)
  moreover have "category_row.truncate c \<in> set (t_categories (orderTables (mn_tables s') d))"
    using c(1) by (simp add: orderTables_def t')
  with c(2,3) have "orgCategory (orderTables (mn_tables s') d) g (mi_categoryId x)"
    unfolding orgCategory_def list_ex_iff by (intro bexI[of _ "category_row.truncate c"]) (simp_all add: category_row.defs)
  ultimately have "menu_item_row.truncate ?x \<in> set (cartMenuItems (orderTables (mn_tables s') d) g [i])"
    using x by (simp add: cartMenuItems_def menu_item_row.defs)
  then have "mi_id (menu_item_row.truncate ?x) \<in> mi_id ` set (cartMenuItems (orderTables (mn_tables s') d) g [i])"
    by (rule imageI)
  then show "i \<in> mi_id ` set (cartMenuItems (orderTables (mn_tables s') d) g [i])"
    using x(2) by (simp add: menu_item_row.defs)
  show "mi_id (vi_item w) \<noteq> i"
    if "\<not> pn_showDeleted p" "v \<in> set (pg_data (pageOf (mn_tables s') h p l))" "w \<in> set (vc_items v)"
  proof
    assume i: "mi_id (vi_item w) = i"
    have cat: "vc_category v \<in> set (menuCategories (mn_tables s') h False l)"
      using page_categories that(1,2) by (auto simp: pageOf_def)
    have item: "vi_item w \<in> set (tb_items (mn_tables s'))" "mi_categoryId (vi_item w) = cat_id (vc_category v)"
      using page_items that(2,3) by (auto simp: pageOf_def)
    have items: "tb_items (mn_tables s') = update_where (\<lambda>m. mi_id m = i)
        (\<lambda>m. m\<lparr>mi_deletedAt := None, mit_updatedAt := now\<rparr>) (tb_items (mn_tables s))"
      by (simp add: t')
    obtain y where of_y: "y \<in> set (tb_items (mn_tables s))"
        "vi_item w = (if mi_id y = i then y\<lparr>mi_deletedAt := None, mit_updatedAt := now\<rparr> else y)"
      using item(1) unfolding items set_update_where by blast
    then have y: "mi_id y = i" "mi_categoryId y = mi_categoryId (vi_item w)" using i by (auto split: if_splits)
    have "y = x" using wl x(1,2) of_y(1) y(1) unfolding wellLinked_def by (metis first_row_keyed option.inject)
    then have "cat_id (vc_category v) = cat_id c" using y(2) \<open>y = x\<close> item(2) c(2) by simp
    moreover have "vc_category v \<in> set (tb_categories (mn_tables s))" using cat by (simp add: menuCategories_def t')
    ultimately have "vc_category v = c" using wl c(1) unfolding wellLinked_def by (metis first_row_keyed option.inject)
    then show False using cat c(4) by (simp add: menuCategories_def)
  qed
qed

section \<open>The scheduled sync\<close>

text \<open>The queue's documentation refuses a colon in an id that is not its own; the editor's id has one.\<close>

lemma refused_id_schedules_nothing:
  assumes "\<not> mk_acceptsJobId mk (syncJobId g)" and "invalidateMenuCache mk g s = (r, s')"
  shows "r = Inr ()" and "set (mn_syncs s') \<subseteq> set (mn_syncs s)"
proof -
  let ?s = "s\<lparr>mn_cache := bumped g s\<rparr>"
  obtain x s1 where run: "scheduleMenuAiSync mk g ?s = (x, s1)" by fastforce
  have "set (mn_syncs s1) \<subseteq> set (mn_syncs s)"
    using run assms(1) by (auto simp: scheduleMenuAiSync_def prog_step split: if_splits)
  moreover have "(r, s') = (Inr (), s1)"
    using assms(2) run by (cases x) (auto simp: invalidateMenuCache_def menuCacheSet_def bumped_def catchM_def)
  ultimately show "r = Inr ()" "set (mn_syncs s') \<subseteq> set (mn_syncs s)" by simp_all
qed

end
