(* ===== verification/Demo_Menus.thy ===== *)
theory Demo_Menus
  imports Menu_Freshness Menu_Orders Demo_Store
begin

text \<open>
  The theorems of the menu theories applied to two small menus: organization \<open>g\<close> of \<open>Demo_Store\<close> sells a soup with
  one choice of bread, organization \<open>h\<close> a tea, and the website imported for \<open>g\<close> lists one salad.
\<close>

definition demoMenuCategory :: "uuid \<Rightarrow> uuid \<Rightarrow> menu_category" where
  "demoMenuCategory i g = \<lparr>cat_id = i, cat_organizationId = g, mca_name = i, mca_locationId = None, mca_isAvailable = True,
     mca_sortOrder = 0, mca_deletedAt = None, mca_updatedAt = 0\<rparr>"

definition demoMenuItem :: "uuid \<Rightarrow> uuid \<Rightarrow> menu_item" where
  "demoMenuItem i c = \<lparr>mi_id = i, mi_name = i, mi_price = 10, mi_categoryId = c, mi_locationId = None,
     mi_isAvailable = True, mi_taxExempt = False, mi_stockQuantity = None, mi_deletedAt = None, mit_description = None,
     mit_isFavorite = False, mit_imageUrl = None, mit_sortOrder = 0, mit_availabilitySchedule = None, mit_sku = None,
     mit_isCombo = False, mit_lowStockThreshold = None, mit_updatedAt = 0\<rparr>"

definition demoMenus :: menu_tables where
  "demoMenus = \<lparr>tb_categories = [demoMenuCategory ''c'' ''g'', demoMenuCategory ''d'' ''h''],
     tb_items = [demoMenuItem ''m'' ''c'', demoMenuItem ''t'' ''d''],
     tb_groups = [\<lparr>mm_id = ''b'', mm_name = ''Bread'', mm_organizationId = ''g'', mm_isRequired = False,
       mm_multiSelect = False, mm_maxSelections = None, mm_deletedAt = None, mgr_locationId = None, mgr_updatedAt = 0\<rparr>],
     tb_options = [\<lparr>mim_id = ''r'', mim_modifierId = ''b'', mim_name = ''Rye'', mim_priceAdjustment = 1,
       mim_deletedAt = None, mop_updatedAt = 0\<rparr>],
     tb_itemGroups = [\<lparr>mitm_menuItemId = ''m'', mitm_modifierId = ''b''\<rparr>], tb_categoryGroups = []\<rparr>"

definition demoMenuWorld :: menu_world where
  "demoMenuWorld = \<lparr>mn_world = demoWorld, mn_tables = demoMenus, mn_sites = [], mn_cache = Map.empty, mn_syncs = [],
     mn_imports = [], mn_importSeq = 0, mn_published = []\<rparr>"

definition demoEditor :: menu_wiring where
  "demoEditor = \<lparr>mk_cache = demoCache, mk_telephony = True, mk_acceptsJobId = (\<lambda>i. True)\<rparr>"

definition demoSalad :: "extracted_category list" where
  "demoSalad = [\<lparr>xc_name = ''Green'', xc_items = [\<lparr>xi_name = ''Salad'', xi_description = None, xi_price = 500,
     xi_modifiers = None\<rparr>]\<rparr>]"

definition demoSite :: import_services where
  "demoSite = \<lparr>ex_fetch = (\<lambda>url. Inl (GenericError url)), ex_pdfText = Inr, ex_firecrawl = True,
     ex_scrape = (\<lambda>url. Inr (Some ''Salad 5'')), ex_apiKey = Some ''k'',
     ex_chat = (\<lambda>content. Inr \<lparr>cr_ok = True, cr_status = 200, cr_text = [], cr_content = Some ''{}''\<rparr>),
     ex_parse = (\<lambda>text. Inr (Some demoSalad))\<rparr>"

definition demoImportJob :: menu_import where
  "demoImportJob = \<lparr>imj_id = ''1'', imj_orgId = ''g'', imj_url = ''g.example'', imj_locationId = None, imj_mode = Replace,
     imj_state = ImportWaiting, imj_attemptsMade = 0, imj_failedReason = None, imj_timestamp = 0, imj_processedOn = None,
     imj_finishedOn = None\<rparr>"

definition demoListing :: pagination where
  "demoListing = \<lparr>pn_offset = None, pn_limit = None, pn_showDeleted = False\<rparr>"

lemma demoMenus_linked: "wellLinked demoMenus"
  by (simp add: wellLinked_def demoMenus_def demoMenuCategory_def demoMenuItem_def orgOfCategory_def orgOfGroup_def orgOfItem_def)

lemma demo_acts: "actsFor mk demoCashier s g \<longleftrightarrow> g = ''g''"
proof -
  have "getRequiredOrg (mk_cache mk) demoCashier = returnM ''g''" by (rule getRequiredOrg_claim) (simp_all add: demoCashier_def)
  then show ?thesis by (auto simp: actsFor_def)
qed

section \<open>Edits and imports\<close>

definition demoDropped :: "(error + unit) \<times> menu_world" where
  "demoDropped = runEdit demoEditor demoCashier (DropCategory ''c'') demoMenuWorld"

theorem menu_edits_stay_home_witness:
  "fst demoDropped = Inr () \<and> menuRows ''h'' (mn_tables (snd demoDropped)) = menuRows ''h'' demoMenus \<and>
   pageOf (mn_tables (snd demoDropped)) ''h'' demoListing None = pageOf demoMenus ''h'' demoListing None"
proof -
  have ran: "fst demoDropped = Inr ()" by code_simp
  have run: "runEdit demoEditor demoCashier (DropCategory ''c'') demoMenuWorld = (fst demoDropped, snd demoDropped)"
    by (simp add: demoDropped_def)
  have home: "homeEdit demoEditor demoCashier demoMenuWorld (DropCategory ''c'')" by (simp add: homeEdit_def)
  have linked: "wellLinked (mn_tables demoMenuWorld)" using demoMenus_linked by (simp add: demoMenuWorld_def)
  have other: "\<not> actsFor demoEditor demoCashier demoMenuWorld ''h''" by (simp add: demo_acts)
  from menu_edits_stay_home[OF run home linked other, of demoListing None] ran show ?thesis
    by (simp add: demoMenuWorld_def)
qed

definition demoImported :: "(error + nat) \<times> menu_world" where
  "demoImported = processImport demoEditor demoSite demoImportJob demoMenuWorld"

lemma demoSite_read: "readMenu demoSite (imj_url demoImportJob) = Inr demoSalad"
  by code_simp

definition demoWritten :: "(error + unit) \<times> menu_world" where
  "demoWritten = writeMenu Replace ''g'' None demoSalad demoMenuWorld"

lemma demoWritten_ran: "fst demoWritten = Inr ()"
  by code_simp

lemma demoWritten_items: "map mi_name (tb_items (mn_tables (snd demoWritten))) = [''t'', ''Salad'']"
  by code_simp

lemma demoImported_run: "fst demoImported = Inr 1" "mn_tables (snd demoImported) = mn_tables (snd demoWritten)"
proof -
  have "writeMenu Replace ''g'' None demoSalad demoMenuWorld = (Inr (), snd demoWritten)"
    using demoWritten_ran by (simp add: demoWritten_def prod_eq_iff)
  then show "fst demoImported = Inr 1" "mn_tables (snd demoImported) = mn_tables (snd demoWritten)"
    unfolding demoImported_def processImport_def demoSite_read
    by (simp_all add: prog_step demoImportJob_def menuTx_def thenM_def bindM_def clearCache_run demoSalad_def)
qed

theorem import_stays_home_witness:
  "fst demoImported = Inr 1 \<and> map mi_name (tb_items (mn_tables (snd demoImported))) = [''t'', ''Salad''] \<and>
   menuRows ''h'' (mn_tables (snd demoImported)) = menuRows ''h'' demoMenus"
proof -
  have run: "processImport demoEditor demoSite demoImportJob demoMenuWorld = (fst demoImported, snd demoImported)"
    by (simp add: demoImported_def)
  have linked: "wellLinked (mn_tables demoMenuWorld)" using demoMenus_linked by (simp add: demoMenuWorld_def)
  have scope: "ownScope (mn_tables demoMenuWorld) (imj_orgId demoImportJob) (imj_locationId demoImportJob)"
    by (simp add: ownScope_def demoImportJob_def)
  have other: "''h'' \<noteq> imj_orgId demoImportJob" by (simp add: demoImportJob_def)
  from import_stays_home[OF run linked scope other, of demoListing None] demoImported_run demoWritten_items show ?thesis
    by (simp add: demoMenuWorld_def)
qed

text \<open>The open tab of \<open>Demo_Store\<close>, whose soup the import replaces, loses its line.\<close>

definition demoTabWorld :: menu_world where
  "demoTabWorld = demoMenuWorld\<lparr>mn_world := demoOpenTab\<rparr>"

definition demoRewritten :: "(error + unit) \<times> menu_world" where
  "demoRewritten = writeMenu Replace ''g'' None demoSalad demoTabWorld"

lemma demoRewritten_ran: "fst demoRewritten = Inr ()"
  by code_simp

lemma demoReimported: "isl (fst (processImport demoEditor demoSite demoImportJob demoTabWorld)) = False"
proof -
  have "writeMenu Replace ''g'' None demoSalad demoTabWorld = (Inr (), snd demoRewritten)"
    using demoRewritten_ran by (simp add: demoRewritten_def prod_eq_iff)
  then show ?thesis
    unfolding processImport_def demoSite_read
    by (simp add: prog_step demoImportJob_def menuTx_def thenM_def bindM_def clearCache_run)
qed

theorem replace_erases_order_lines_witness:
  "map oi_menuItemId (t_orderItems (w_db (mn_world demoTabWorld))) = [''m''] \<and>
   t_orderItems (w_db (mn_world (snd (processImport demoEditor demoSite demoImportJob demoTabWorld)))) = []"
proof -
  have line: "t_orderItems (w_db (mn_world demoTabWorld)) = [demoTabLine]"
    by (simp add: demoTabWorld_def demoOpenTab_def)
  have "''m'' \<in> mi_id ` set (existingItemsOf (mn_tables demoTabWorld) (imj_orgId demoImportJob) (imj_locationId demoImportJob))"
    by (simp add: existingItemsOf_def demoTabWorld_def demoMenuWorld_def demoMenus_def demoImportJob_def demoMenuCategory_def demoMenuItem_def)
  then show ?thesis
    using replace_erases_order_lines[of demoEditor demoSite demoImportJob demoTabWorld] demoReimported
    by (simp add: line demoTabLine_def demoImportJob_def)
qed

section \<open>The cache\<close>

text \<open>The menu is read, time passes, its category is deleted, and it is read again.\<close>

definition demoRead :: "(error + menu_page) \<times> menu_world" where
  "demoRead = getMenu demoEditor demoCashier demoListing None demoMenuWorld"

definition demoLater :: menu_world where
  "demoLater = (snd demoRead)\<lparr>mn_world := (mn_world (snd demoRead))\<lparr>w_now := 5\<rparr>\<rparr>"

definition demoClosed :: "(error + unit) \<times> menu_world" where
  "demoClosed = runEdit demoEditor demoCashier (DropCategory ''c'') demoLater"


section \<open>Ordering from a deleted category\<close>

definition demoDeleted :: "(error + unit) \<times> menu_world" where
  "demoDeleted = deleteCategory demoEditor demoCashier ''c'' demoMenuWorld"

theorem deleted_category_cannot_be_ordered_witness:
  "isl (priceCart (orderTables demoMenus demoDb) ''g'' [demoLine]) = False \<and>
   isl (priceCart (orderTables (mn_tables (snd demoDeleted)) demoDb) ''g'' [demoLine]) \<and>
   map (\<lambda>v. cat_id (vc_category v)) (pg_data (pageOf demoMenus ''g'' demoListing None)) = [''c'']"
proof -
  have sold: "isl (priceCart (orderTables demoMenus demoDb) ''g'' [demoLine]) = False" by code_simp
  have seen: "map (\<lambda>v. cat_id (vc_category v)) (pg_data (pageOf demoMenus ''g'' demoListing None)) = [''c'']" by code_simp
  have ran: "fst demoDeleted = Inr ()" by code_simp
  have run: "deleteCategory demoEditor demoCashier ''c'' demoMenuWorld = (Inr (), snd demoDeleted)"
    using ran by (simp add: demoDeleted_def prod_eq_iff)
  have linked: "wellLinked (mn_tables demoMenuWorld)" using demoMenus_linked by (simp add: demoMenuWorld_def)
  have item: "demoMenuItem ''m'' ''c'' \<in> set (tb_items (mn_tables demoMenuWorld))" "mi_categoryId (demoMenuItem ''m'' ''c'') = ''c''"
    by (simp_all add: demoMenuWorld_def demoMenus_def demoMenuItem_def)
  have line: "demoLine \<in> set [demoLine]" "ci_menuItemId demoLine = mi_id (demoMenuItem ''m'' ''c'')" "\<not> pn_showDeleted demoListing"
    by (simp_all add: demoLine_def demoMenuItem_def demoListing_def)
  from deleted_category_cannot_be_ordered[OF run linked item line, of demoDb "''g''" None] sold seen show ?thesis by simp
qed

end
