(* ===== verification/Spec2Isabelle.thy ===== *)
theory Spec2Isabelle
  imports Prelude Money Order_Status Access Platform_DB Manager_Gate Cache_Store Idempotency Order_Pricing Users Order_Print Order_Payment Orders_Service Demo_Store
    Register_Cart Register_DB Register_Store Register_Catalog Register_Day Receipts Print_Queue Sync_Engine
    Demo_Register Outbox Outbox_Life Delivery Public_Orders Demo_Sync Cart_Session Till Demo_Till Auth Demo_Auth Marketplace_Feeds Marketplace Marketplace_Events Demo_Market
    Phone_Numbers Tenancy Invitations Provisioning_Run Provisioning_Live Provisioning Provisioning_Account Demo_Provision
    Menu_Tables Menus Menu_Tenants Menu_Import Menu_Import_Home Menu_Freshness Menu_Publish Menu_Orders
    Demo_Menus
begin

text \<open>
  A restaurant platform and its point-of-sale register. The platform (\<open>src/apps/backend\<close>, NestJS on
  PostgreSQL and Redis) takes orders from the phone assistant, from marketplaces, from its dashboard
  and from registers, prices them, takes and gives back money, and prints. The register
  (\<open>src/apps/pos\<close>, React Native on SQLite) works offline: it keeps the cart, the orders, the drawer
  and a print queue on the device and owes the platform an outbox of operations, which a
  synchronizer delivers through the public API.

  \<^bold>\<open>The platform.\<close> A handler is a function from the world to an error or a value and the next world
  (\<open>Prelude\<close>: \<open>program\<close>, \<open>bindM\<close>, \<open>catchM\<close>); the world is the database, the Redis cache, the log of
  effects sent elsewhere, the clock and the supply of ids (\<open>Platform_DB\<close>, after
  \<open>database/schema.ts\<close>, with the CHECK, UNIQUE and FOREIGN KEY constraints the modelled writes meet;
  \<open>transactionM\<close> restores the database when its body throws). On it stand
  \<open>Order_Status\<close> (\<open>common/constants/order-status.ts\<close>), \<open>Access\<close> (roles and the roles guard),
  \<open>Manager_Gate\<close> (the interface of a PIN check), \<open>Cache_Store\<close> (the Redis store, organization
  resolution), \<open>Idempotency\<close> (\<open>common/services/idempotency.service.ts\<close>), \<open>Order_Pricing\<close>,
  \<open>Order_Print\<close>, \<open>Order_Payment\<close>, \<open>Orders_Service\<close> (the four services under \<open>orders/\<close>), \<open>Users\<close>
  (\<open>users/users.service.ts\<close>) and \<open>Public_Orders\<close> (\<open>public-api/\<close>: the API-key guard, the orders
  controller, and the filter that turns what is thrown into a response). Each operation is one
  definition under the source's name, split where the source opens a transaction. \<open>Auth\<close> is
  \<open>auth/auth.service.ts\<close> with the routes that carry the refresh token: logins, lockout, rotation of
  sessions, password resets, verification.

  \<^bold>\<open>Marketplaces.\<close> \<open>Marketplace_Feeds\<close> maps the payloads of KitchenHub and Uber Eats and the menu
  published there (\<open>aggregator/providers/\<close>); \<open>Marketplace\<close> has the tables, the import, the receivers
  with their reservations and the queue with its worker; \<open>Marketplace_Events\<close> follows an event from the
  webhook to the linked order.

  \<^bold>\<open>Accounts.\<close> \<open>Phone_Numbers\<close> and \<open>Tenancy\<close> hold the normalization of numbers, the tables of an
  account and its world, whose telephony service is a record of functions from the requests so far and
  the request to an answer. \<open>Invitations\<close>, \<open>Provisioning_Run\<close> (the worker) and \<open>Provisioning\<close> (what
  administrators do) are the services under \<open>invitations/\<close> and \<open>provisioning/\<close>;
  \<open>Provisioning_Live\<close> shows how a location gets through its steps, \<open>Provisioning_Account\<close> what holds
  whatever is done to an account.

  \<^bold>\<open>Menus.\<close> \<open>Menu_Tables\<close> has the tables of a menu, which the order services read through
  \<open>orderTables\<close>, the page that \<open>menus/menus.service.ts\<close> assembles from them, and its cache: a page is
  stored under the version of its organization's menu and an edit stamps a new version. \<open>Menus\<close> is every
  operation of the editor, \<open>Menu_Import\<close> the import of a website or a PDF (the request, the crawler, the
  extraction and the worker of \<open>menus/processors/import-queue.processor.ts\<close>), \<open>Menu_Publish\<close> what is sent
  to the storage and the voice assistants and when. The web, the language model, the storage and the assistants
  are parameters. \<open>Menu_Tenants\<close> and \<open>Menu_Import_Home\<close> show what edits and imports leave alone,
  \<open>Menu_Freshness\<close> is a step relation of what happens between two looks at a menu, and \<open>Menu_Orders\<close>
  relates the editor to the pricing of carts.

  \<^bold>\<open>The register.\<close> Its database is one record of tables (\<open>Register_DB\<close>, after \<open>db/database.ts\<close>); the
  repositories are functions on it: \<open>Register_Store\<close> (orders, outbox, tabs, customers),
  \<open>Register_Catalog\<close>, \<open>Register_Day\<close> (drawer sessions and business days). \<open>Money\<close> and
  \<open>Register_Cart\<close> are the pure functions of \<open>utils/money.ts\<close> and \<open>state/cartOps.ts\<close>, \<open>Receipts\<close> the
  formatter and the routing of lines to stations, \<open>Print_Queue\<close> the queue of tickets with the
  printer as a parameter, \<open>Sync_Engine\<close> the synchronizer and its API client with the server as a
  parameter. \<open>Cart_Session\<close> is the cart provider of the screens (\<open>state/CartContext.tsx\<close>) and \<open>Till\<close>
  what the buttons of the order panel and the payment screen do with it.

  \<^bold>\<open>Across the two.\<close> \<open>Outbox\<close> states what the synchronizer promises as an abstract machine of one
  queue per order and shows that a push refines it. \<open>Outbox_Life\<close> is a step relation of everything
  that touches the outbox, its invariant, and when a push empties it. \<open>Delivery\<close> puts a network that
  loses requests and responses between the two and states, as a locale, what a server has to do for
  retries to be safe; \<open>Public_Orders\<close> interprets it on the platform, so that every delivered
  operation takes effect exactly once.

  \<^bold>\<open>What the lemmas show.\<close> Money: payments never exceed the total and refunds never what was paid, over
  any sequence of calls; a failed call changes nothing; prices come from the menu or an approved
  override; splitting a check conserves the bill. Keys: a client order key, a mutation id and an
  idempotency key each act once. States: status changes follow the machine and are bounded; a PIN
  approves only its live, unlocked manager; one business day, one open shift. Delivery: order,
  completeness and uniqueness of what the register owes. Sessions: a refresh rotates once and a
  replay ends the family; wrong passwords lock. Marketplaces: an order is imported once, an event is
  processed no more than once. Accounts: an invitation is accepted once; a location buys one number
  and is complete after three attempts when every request is answered. Menus: an edit changes no other
  organization's menu unless it moves an item there; a cached page is the current one; a deleted category cannot
  be sold. Some theorems state what the code does
  where it does not do what it means to (refunds of split or register-paid orders, payments through
  the public API, a clock set back, exhausted print jobs, order lines erased by an import); they are listed as
  findings.

  \<^bold>\<open>Loops and bounds.\<close> Every loop of the modelled code runs over a list and is structural recursion or
  a fold; there is no fuel. The only bounded one is the poll of a number order (\<open>pollOrder\<close>), which the
  code itself stops after ten rounds. Cents and quantities are unbounded integers, as JavaScript numbers are
  exact for them up to \<open>2\<^sup>5\<^sup>3\<close>, and quotients are rounded from exact rationals (\<open>js_round\<close>).

  \<^bold>\<open>Interfaces.\<close> Locales: \<open>manager_gate\<close>, the idempotency store, \<open>order_creation\<close>, \<open>print_sink\<close>,
  \<open>order_server\<close> and \<open>order_ledger\<close>; each is interpreted on the model's own definitions. The theories
  named \<open>Demo_\<close> apply the theorems that have hypotheses to concrete runs.

  \<^bold>\<open>Not modelled.\<close> Services outside the repository (Stripe, Telnyx, S3, mail, the marketplaces) are
  parameters, and the modules that only call them (billing, call records, OAuth onboarding) are left out; so
  are the upload of a menu as a PDF, the wait of a failed import before its next attempt, the guards in front of
  the dashboard's routes apart from the roles guard, paginated lists and reports, printer drivers, database
  migrations, the dashboard, and the screens of the register other than those named above.
\<close>

end
